(* ===== verification/Prelude.thy ===== *)
theory Prelude
  imports Complex_Main "HOL-Library.AList"
begin

section \<open>Prelude: the JavaScript values the models share\<close>

text \<open>
  What every component uses of JavaScript and its standard library:
  \<^item> a \<open>Map\<close> (and an object used as one) keeps its keys in insertion order, and the code
    iterates over it in that order, so it is an association list: \<open>set\<close> overwrites in place
    or appends (\<open>AList.update\<close>), \<open>delete\<close> drops the key (\<open>AList.delete\<close>), \<open>get\<close> is
    \<open>map_of\<close> and gives \<open>None\<close> for \<open>undefined\<close>;
  \<^item> a string is a \<open>string\<close>; \<open>charAt\<close> out of range is the empty string, here \<open>None\<close>;
    \<open>slice\<close> counts negative bounds from the end;
  \<^item> \<open>Math.ceil\<close> is \<open>ceiling\<close>; a number the code computes with is an \<open>int\<close> where it is
    always integral and a \<open>real\<close> otherwise (rounding of doubles is not modelled).
\<close>

type_synonym ('k, 'v) jsmap = "('k \<times> 'v) list"

abbreviation jm_get :: "('k, 'v) jsmap \<Rightarrow> 'k \<Rightarrow> 'v option" where
  "jm_get m k \<equiv> map_of m k"

abbreviation jm_has :: "('k, 'v) jsmap \<Rightarrow> 'k \<Rightarrow> bool" where
  "jm_has m k \<equiv> map_of m k \<noteq> None"

abbreviation jm_set :: "('k, 'v) jsmap \<Rightarrow> 'k \<Rightarrow> 'v \<Rightarrow> ('k, 'v) jsmap" where
  "jm_set m k v \<equiv> AList.update k v m"

abbreviation jm_del :: "('k, 'v) jsmap \<Rightarrow> 'k \<Rightarrow> ('k, 'v) jsmap" where
  "jm_del m k \<equiv> AList.delete k m"

abbreviation jm_keys :: "('k, 'v) jsmap \<Rightarrow> 'k list" where
  "jm_keys m \<equiv> map fst m"

text \<open>\<open>x ?? d\<close> on a lookup.\<close>

definition or_else :: "'a option \<Rightarrow> 'a \<Rightarrow> 'a" where
  "or_else x d = (case x of None \<Rightarrow> d | Some v \<Rightarrow> v)"

lemma or_else_simps [simp]: "or_else None d = d" "or_else (Some v) d = v"
  by (simp_all add: or_else_def)

lemma jm_get_set [simp]: "map_of (AList.update k v m) k' = (if k' = k then Some v else map_of m k')"
  by (simp add: update_conv')

lemma jm_get_del [simp]: "map_of (AList.delete k m) k' = (if k' = k then None else map_of m k')"
  by (simp add: delete_conv')

lemma jm_keys_set:
  "map fst (AList.update k v m) = (if k \<in> set (map fst m) then map fst m else map fst m @ [k])"
  by (simp add: update_keys)

lemma jm_set_new: "k \<notin> set (map fst m) \<Longrightarrow> AList.update k v m = m @ [(k, v)]"
  by (induction m) auto

lemma jm_keys_del: "map fst (AList.delete k m) = filter (\<lambda>x. x \<noteq> k) (map fst m)"
proof -
  have "map fst (AList.delete k m) = [x\<leftarrow>map fst m. k \<noteq> x]"
    by (induction m) auto
  then show ?thesis by (metis (mono_tags, lifting) filter_cong)
qed

lemma jm_get_iff_key: "map_of m k = None \<longleftrightarrow> k \<notin> set (map fst m)"
  by (simp add: map_of_eq_None_iff)

lemma jm_get_SomeD: "map_of m k = Some v \<Longrightarrow> k \<in> fst ` set m"
  by (metis domI dom_map_of_conv_image_fst)

text \<open>Deleting a key of a map with distinct keys and values drops exactly its value.\<close>

lemma delete_values:
  assumes "distinct (map fst m)" and "distinct (map snd m)" and "map_of m k = Some v"
  shows "set (map snd (AList.delete k m)) = set (map snd m) - {v}"
    and "distinct (map snd (AList.delete k m))"
proof -
  have "set (map snd (AList.delete k m)) = set (map snd m) - {v} \<and> distinct (map snd (AList.delete k m))"
    using assms
  proof (induction m)
    case Nil
    then show ?case by simp
  next
    case (Cons p m)
    obtain a b where p: "p = (a, b)" by fastforce
    show ?case
    proof (cases "a = k")
      case True
      then have "AList.delete k m = m" using Cons.prems p by (simp add: delete_idem)
      with True Cons.prems p show ?thesis by auto
    next
      case False
      with Cons.prems(3) p have get: "map_of m k = Some v" by simp
      then have "v \<in> snd ` set m" by (force dest: map_of_SomeD)
      with Cons.prems(2) p have "b \<noteq> v" by auto
      note get this
      then show ?thesis using Cons p False by auto
    qed
  qed
  then show "set (map snd (AList.delete k m)) = set (map snd m) - {v}"
    and "distinct (map snd (AList.delete k m))" by blast+
qed

subsection \<open>Strings and arrays\<close>

text \<open>\<open>a.slice(b, e)\<close> of a string or an array: a negative bound counts from the end.\<close>

definition js_clamp_index :: "nat \<Rightarrow> int \<Rightarrow> nat" where
  "js_clamp_index n i = (if i < 0 then nat (int n + i) else min n (nat i))"

definition js_slice :: "'a list \<Rightarrow> int \<Rightarrow> int \<Rightarrow> 'a list" where
  "js_slice xs b e =
     (let n = length xs; b' = js_clamp_index n b; e' = js_clamp_index n e
      in take (e' - b') (drop b' xs))"

definition js_charAt :: "string \<Rightarrow> int \<Rightarrow> char option" where
  "js_charAt s i = (if 0 \<le> i \<and> i < int (length s) then Some (s ! nat i) else None)"

lemma js_slice_prefix:
  "0 \<le> e \<Longrightarrow> js_slice xs 0 e = take (nat e) xs"
  by (auto simp: js_slice_def js_clamp_index_def Let_def min_def)

lemma js_slice_prefix_neg: "js_slice xs 0 (- 1) = butlast xs"
proof -
  have "nat (int (length xs) - 1) = length xs - 1" by simp
  then show ?thesis
    by (simp add: js_slice_def js_clamp_index_def Let_def butlast_conv_take)
qed

lemma js_slice_suffix:
  "0 \<le> b \<Longrightarrow> js_slice xs b (int (length xs)) = drop (nat b) xs"
  by (auto simp: js_slice_def js_clamp_index_def Let_def min_def)

lemma js_charAt_Some:
  "js_charAt s i = Some c \<longleftrightarrow> 0 \<le> i \<and> i < int (length s) \<and> s ! nat i = c"
  by (auto simp: js_charAt_def)

text \<open>\<open>Array.prototype.indexOf\<close> and the removal of the element at an index (\<open>splice(i, 1)\<close>).\<close>

fun js_indexOf :: "'a \<Rightarrow> 'a list \<Rightarrow> int" where
  "js_indexOf x [] = -1"
| "js_indexOf x (y # ys) =
     (if x = y then 0 else (let i = js_indexOf x ys in if i < 0 then -1 else i + 1))"

definition js_remove_at :: "int \<Rightarrow> 'a list \<Rightarrow> 'a list" where
  "js_remove_at i xs = take (nat i) xs @ drop (Suc (nat i)) xs"

lemma js_indexOf_nonneg: "0 \<le> js_indexOf x xs \<longleftrightarrow> x \<in> set xs"
  by (induction xs) (auto simp: Let_def)

lemma js_remove_indexOf:
  "js_indexOf x xs \<ge> 0 \<Longrightarrow> js_remove_at (js_indexOf x xs) xs = remove1 x xs"
proof (induction xs)
  case Nil
  then show ?case by simp
next
  case (Cons y ys)
  show ?case
  proof (cases "x = y")
    case True
    then show ?thesis by (simp add: js_remove_at_def)
  next
    case False
    with Cons.prems have "js_indexOf x ys \<ge> 0" by (auto simp: Let_def split: if_splits)
    with Cons.IH False show ?thesis
      by (simp add: js_remove_at_def Let_def nat_add_distrib)
  qed
qed

text \<open>\<open>Array.prototype.find\<close> and \<open>findIndex\<close> (\<open>-1\<close> when nothing matches).\<close>

fun js_findIndex :: "('a \<Rightarrow> bool) \<Rightarrow> 'a list \<Rightarrow> int" where
  "js_findIndex p [] = -1"
| "js_findIndex p (x # xs) =
     (if p x then 0 else (let i = js_findIndex p xs in if i < 0 then -1 else i + 1))"

lemma js_findIndex_none: "js_findIndex p xs = -1 \<longleftrightarrow> (\<forall>x\<in>set xs. \<not> p x)"
proof (induction xs)
  case Nil
  then show ?case by simp
next
  case (Cons x xs)
  have "js_findIndex p xs \<ge> -1" by (induction xs) (auto simp: Let_def)
  with Cons show ?case by (auto simp: Let_def)
qed

lemma js_findIndex_dropWhile:
  "js_findIndex p xs \<noteq> -1 \<Longrightarrow> drop (nat (js_findIndex p xs)) xs = dropWhile (\<lambda>x. \<not> p x) xs"
proof (induction xs)
  case Nil
  then show ?case by simp
next
  case (Cons x xs)
  have ge: "js_findIndex p xs \<ge> -1" by (induction xs) (auto simp: Let_def)
  show ?case
  proof (cases "p x")
    case True
    then show ?thesis by simp
  next
    case False
    with Cons.prems ge have "js_findIndex p xs \<noteq> -1" and "js_findIndex p xs \<ge> 0"
      by (auto simp: Let_def split: if_splits)
    with Cons.IH False show ?thesis by (simp add: Let_def nat_add_distrib)
  qed
qed

text \<open>\<open>s.split(c)\<close> at a one-character separator, and \<open>a.join(sep)\<close>.\<close>

fun js_split :: "'a \<Rightarrow> 'a list \<Rightarrow> 'a list list" where
  "js_split c [] = [[]]"
| "js_split c (x # xs) =
     (if x = c then [] # js_split c xs
      else (case js_split c xs of [] \<Rightarrow> [[x]] | y # ys \<Rightarrow> (x # y) # ys))"

fun js_join :: "'a list \<Rightarrow> 'a list list \<Rightarrow> 'a list" where
  "js_join sep [] = []"
| "js_join sep [x] = x"
| "js_join sep (x # y # ys) = x @ sep @ js_join sep (y # ys)"

lemma js_split_not_Nil [simp]: "js_split c xs \<noteq> []"
  by (cases xs) (auto split: list.split)

lemma js_split_single: "c \<notin> set xs \<Longrightarrow> js_split c xs = [xs]"
  by (induction xs) auto

lemma js_split_append: "c \<notin> set xs \<Longrightarrow> js_split c (xs @ c # ys) = xs # js_split c ys"
  by (induction xs) auto

lemma js_split_join:
  "xss \<noteq> [] \<Longrightarrow> \<forall>xs\<in>set xss. c \<notin> set xs \<Longrightarrow> js_split c (js_join [c] xss) = xss"
proof (induction xss rule: induct_list012)
  case (2 x)
  then show ?case by (simp add: js_split_single)
next
  case (3 x y zs)
  then show ?case by (simp add: js_split_append)
qed simp

lemma js_charAt_at [simp]: "js_charAt (pre @ c # post) (int (length pre)) = Some c"
  by (simp add: js_charAt_def)

lemma js_charAt_neg [simp]: "i < 0 \<Longrightarrow> js_charAt s i = None"
  by (simp add: js_charAt_def)

lemma js_charAt_append1: "i < int (length pre) \<Longrightarrow> js_charAt (pre @ post) i = js_charAt pre i"
  by (auto simp: js_charAt_def nth_append)

lemma js_charAt_last: "js_charAt xs (int (length xs) - 1) = (if xs = [] then None else Some (last xs))"
proof -
  have "nat (int (length xs) - 1) = length xs - 1" by simp
  then show ?thesis by (auto simp: js_charAt_def last_conv_nth Suc_le_eq)
qed

subsection \<open>JSON\<close>

text \<open>A parsed JSON value, as \<open>JSON.parse\<close> returns it.\<close>

datatype json = JNull | JBool bool | JNum real | JStr string | JArr "json list"
  | JObj "(string \<times> json) list"

fun json_field :: "json \<Rightarrow> string \<Rightarrow> json option" where
  "json_field (JObj fs) k = map_of fs k"
| "json_field _ k = None"

text \<open>The \<open>if (!v)\<close> of JavaScript on such a value, and on a missing one (\<open>None\<close>: \<open>undefined\<close>).\<close>

fun json_truthy :: "json option \<Rightarrow> bool" where
  "json_truthy None = False"
| "json_truthy (Some JNull) = False"
| "json_truthy (Some (JBool b)) = b"
| "json_truthy (Some (JNum x)) = (x \<noteq> 0)"
| "json_truthy (Some (JStr s)) = (s \<noteq> [])"
| "json_truthy (Some (JArr xs)) = True"
| "json_truthy (Some (JObj fs)) = True"

text \<open>\<open>a.splice(i, 1)\<close>: a negative index counts from the end.\<close>

definition js_splice1 :: "int \<Rightarrow> 'a list \<Rightarrow> 'a list" where
  "js_splice1 i xs = (let k = js_clamp_index (length xs) i in take k xs @ drop (Suc k) xs)"

lemma js_indexOf_bound: "js_indexOf x xs < int (length xs) \<and> -1 \<le> js_indexOf x xs"
  by (induction xs) (auto simp: Let_def)

lemma js_splice1_indexOf:
  assumes "x \<in> set xs"
  shows "js_splice1 (js_indexOf x xs) xs = remove1 x xs"
proof -
  have "js_indexOf x xs \<ge> 0" using assms js_indexOf_nonneg by metis
  moreover have "nat (js_indexOf x xs) \<le> length xs" using js_indexOf_bound [of x xs] by linarith
  ultimately have "js_splice1 (js_indexOf x xs) xs = js_remove_at (js_indexOf x xs) xs"
    by (simp add: js_splice1_def js_remove_at_def js_clamp_index_def Let_def min_absorb2)
  with js_remove_indexOf [OF \<open>js_indexOf x xs \<ge> 0\<close>] show ?thesis by simp
qed

lemma js_indexOf_split:
  "x \<notin> set ys \<Longrightarrow> js_indexOf x (ys @ x # zs) = int (length ys)"
  by (induction ys) auto

lemma fold_jm_set_new:
  "distinct ps \<Longrightarrow> set ps \<inter> fst ` set m = {} \<Longrightarrow>
     fold (\<lambda>p m. jm_set m p (f p)) ps m = m @ map (\<lambda>p. (p, f p)) ps"
proof (induction ps arbitrary: m)
  case (Cons p ps)
  then have "AList.update p (f p) m = m @ [(p, f p)]" by (intro jm_set_new) auto
  with Cons show ?case by auto
qed simp

end
