(* ===== verification/MainLoop.thy ===== *)
theory MainLoop
  imports Prelude
begin

section \<open>The main loop: one-shot timers and the calls a component makes\<close>

text \<open>
  GLib's main loop is not part of the program. A component talks to it by calls
  (\<open>GLib.timeout_add_seconds\<close>, \<open>GLib.source_remove\<close>), and to the rest of the shell by
  others (\<open>notify\<close>, \<open>emit\<close>, \<open>connect\<close>, ...). Each model keeps the calls it has made, in
  order, as its \<^emph>\<open>trace\<close>; the identifier a call returns is an argument of the model, a
  function of the calls made so far (\<open>'e idgen\<close>). GLib documents that an identifier is
  never 0 and never that of a source that still exists: \<open>fresh_ids\<close>.
\<close>

datatype 'e effect =
    SourceAdd nat int    \<comment> \<open>\<open>timeout_add_seconds\<close>: the identifier returned, the seconds asked for\<close>
  | SourceRemove nat     \<comment> \<open>\<open>source_remove\<close>\<close>
  | SourceFired nat      \<comment> \<open>the callback ran and returned \<open>SOURCE_REMOVE\<close>\<close>
  | Call 'e              \<comment> \<open>any other call, of the component's own kind\<close>

type_synonym 'e trace = "'e effect list"

type_synonym 'e idgen = "'e trace \<Rightarrow> nat"

text \<open>
  The sources that exist after a trace. \<open>None\<close> is a trace with a misuse: \<open>source_remove\<close> of
  a source that does not exist (GLib logs a critical warning), or a callback of one.
\<close>

fun source_step :: "'e effect \<Rightarrow> nat set option \<Rightarrow> nat set option" where
  "source_step (SourceAdd i t) L = map_option (insert i) L"
| "source_step (SourceRemove i) L =
     Option.bind L (\<lambda>S. if i \<in> S then Some (S - {i}) else None)"
| "source_step (SourceFired i) L =
     Option.bind L (\<lambda>S. if i \<in> S then Some (S - {i}) else None)"
| "source_step (Call e) L = L"

definition sources :: "'e trace \<Rightarrow> nat set option" where
  "sources tr = fold source_step tr (Some {})"

lemma sources_Nil [simp]: "sources [] = Some {}"
  by (simp add: sources_def)

lemma sources_append [simp]: "sources (tr @ tr') = fold source_step tr' (sources tr)"
  by (simp add: sources_def)

definition fresh_ids :: "'e idgen \<Rightarrow> bool" where
  "fresh_ids mk \<longleftrightarrow> (\<forall>tr. mk tr \<noteq> 0 \<and> (\<forall>S. sources tr = Some S \<longrightarrow> mk tr \<notin> S))"

text \<open>A generator that counts the calls is fresh: the hypothesis can hold.\<close>

definition count_ids :: "'e idgen" where
  "count_ids tr = Suc (sum_list (map (\<lambda>e. case e of SourceAdd i t \<Rightarrow> i | _ \<Rightarrow> 0) tr))"

lemma source_step_bound:
  "source_step e (Some S) = Some S' \<Longrightarrow> (\<forall>i\<in>S. i \<le> n) \<Longrightarrow>
     (\<forall>i\<in>S'. i \<le> n + (case e of SourceAdd i t \<Rightarrow> i | _ \<Rightarrow> 0))"
  by (cases e) (auto split: if_splits intro: trans_le_add1 trans_le_add2)

lemma source_step_None [simp]: "source_step e None = None"
  by (cases e) auto

lemma sources_bound:
  "sources tr = Some S \<Longrightarrow> i \<in> S \<Longrightarrow>
     i \<le> sum_list (map (\<lambda>e. case e of SourceAdd i t \<Rightarrow> i | _ \<Rightarrow> 0) tr)"
proof (induction tr arbitrary: S i rule: rev_induct)
  case Nil
  then show ?case by simp
next
  case (snoc e tr)
  obtain S0 where S0: "sources tr = Some S0"
    using snoc.prems(1) by (cases "sources tr") auto
  with snoc.IH have "\<forall>i\<in>S0. i \<le> sum_list (map (\<lambda>e. case e of SourceAdd i t \<Rightarrow> i | _ \<Rightarrow> 0) tr)"
    by blast
  moreover have "source_step e (Some S0) = Some S" using snoc.prems(1) S0 by simp
  ultimately show ?case using snoc.prems(2) source_step_bound by fastforce
qed

lemma fresh_count_ids: "fresh_ids count_ids"
  by (auto simp: fresh_ids_def count_ids_def dest!: sources_bound)

subsection \<open>The timer-slot interface\<close>

text \<open>
  Several components keep at most one timer, its identifier in a \<open>_timerId\<close> field (0 for
  none), and replace it with the same few lines (\<open>_scheduleUpdateState\<close>). The interface is
  what those lines promise of the field and of the trace; the facts below are proved once
  for all of them.
\<close>

definition cancel_calls :: "nat \<Rightarrow> 'e trace" where
  "cancel_calls i = (if i \<noteq> 0 then [SourceRemove i] else [])"

locale timer_slot =
  fixes timer :: "'s \<Rightarrow> nat"
    and trace :: "'s \<Rightarrow> 'e trace"
    and schedule :: "'e idgen \<Rightarrow> real \<Rightarrow> 's \<Rightarrow> 's"
    and fired :: "'s \<Rightarrow> 's"
  assumes schedule_timer:
      "timer (schedule mk d s) = mk (trace s @ cancel_calls (timer s))"
    and schedule_trace:
      "trace (schedule mk d s) = trace s @ cancel_calls (timer s)
         @ [SourceAdd (mk (trace s @ cancel_calls (timer s))) \<lceil>d\<rceil>]"
    and fired_timer: "timer (fired s) = 0"
    and fired_trace: "trace (fired s) = trace s @ [SourceFired (timer s)]"
begin

definition slot_ok :: "'s \<Rightarrow> bool" where
  "slot_ok s \<longleftrightarrow> sources (trace s) = Some (if timer s = 0 then {} else {timer s})"

lemma slot_ok_cancel:
  "slot_ok s \<Longrightarrow> sources (trace s @ cancel_calls (timer s)) = Some {}"
  by (auto simp: slot_ok_def cancel_calls_def)

lemma schedule_ok:
  assumes "fresh_ids mk" and "slot_ok s"
  shows "slot_ok (schedule mk d s)"
proof -
  let ?tr = "trace s @ cancel_calls (timer s)"
  have "trace (schedule mk d s) = ?tr @ [SourceAdd (mk ?tr) \<lceil>d\<rceil>]"
    by (simp add: schedule_trace)
  then have "sources (trace (schedule mk d s)) = source_step (SourceAdd (mk ?tr) \<lceil>d\<rceil>) (sources ?tr)"
    by (simp add: sources_def)
  then show ?thesis
    using assms(1) slot_ok_cancel [OF assms(2)]
    by (simp add: slot_ok_def schedule_timer fresh_ids_def)
qed

lemma schedule_set: "fresh_ids mk \<Longrightarrow> timer (schedule mk d s) \<noteq> 0"
  by (simp add: schedule_timer fresh_ids_def)

lemma fired_ok: "slot_ok s \<Longrightarrow> timer s \<noteq> 0 \<Longrightarrow> slot_ok (fired s)"
  by (simp add: slot_ok_def fired_timer fired_trace)

lemma schedule_last: "\<exists>i. last (trace (schedule mk d s)) = SourceAdd i \<lceil>d\<rceil>"
  by (simp add: schedule_trace)

end

end
