(* ===== verification/BreakManager.thy ===== *)
theory BreakManager
  imports MainLoop
begin

section \<open>Break reminders: the break manager (\<open>js/misc/breakManager.js\<close>)\<close>

text \<open>
  The state of a \<open>BreakManager\<close> and every operation that changes it: loading the settings,
  starting and stopping the state machine, the two idle-monitor callbacks, \<open>_updateState\<close>
  with its timer, and the user's \<open>delayBreak\<close>, \<open>skipBreak\<close> and \<open>takeBreak\<close>. The clock, the
  GSettings values and the identifiers that GLib, the idle monitor and GObject return are the
  fields of an environment \<open>bm_env\<close>. Debug output and \<open>console.assert\<close> (which only logs) are
  left out.
\<close>

subsection \<open>Data\<close>

definition MIN_BREAK_LENGTH_SECONDS :: nat where
  "MIN_BREAK_LENGTH_SECONDS = 10"

datatype idle_state = Idle_ACTIVE | Idle_IDLE

datatype break_state = BS_DISABLED | BS_ACTIVE | BS_IDLE | BS_IN_BREAK | BS_BREAK_DUE

definition BreakState :: "(string, int) jsmap" where
  "BreakState = [(''DISABLED'', 0), (''ACTIVE'', 1), (''IDLE'', 2), (''IN_BREAK'', 3),
     (''BREAK_DUE'', 4)]"

fun break_state_value :: "break_state \<Rightarrow> int" where
  "break_state_value BS_DISABLED = 0"
| "break_state_value BS_ACTIVE = 1"
| "break_state_value BS_IDLE = 2"
| "break_state_value BS_IN_BREAK = 3"
| "break_state_value BS_BREAK_DUE = 4"

definition SUPPORTED_BREAK_TYPES :: "string list" where
  "SUPPORTED_BREAK_TYPES = [''eyesight'', ''movement'']"

definition breakStateToString :: "int \<Rightarrow> string option" where
  "breakStateToString v = find (\<lambda>k. jm_get BreakState k = Some v) (jm_keys BreakState)"

text \<open>The values of one \<open>org.gnome.desktop.break-reminders.*\<close> child schema.\<close>

record break_settings =
  interval_seconds :: nat
  duration_seconds :: nat
  delay_seconds :: nat
  notify :: bool
  notify_upcoming :: bool
  notify_overdue :: bool
  countdown :: bool
  play_sound :: bool
  fade_screen :: bool
  lock_screen :: bool

datatype bm_call =
    IdleWatchAdd nat int
  | ActiveWatchAdd nat
  | WatchRemove nat
  | SettingsConnect string nat
  | SettingsDisconnect string "nat option"
  | FreezeNotify
  | ThawNotify
  | NotifyState
  | NotifyNextBreakDueTime
  | NotifyLastBreakEndTime
  | EmitBreakDue
  | EmitBreakFinished
  | EmitTakeBreak
  | BreakSettingsConnect

record bm_env =
  be_time :: real                            \<comment> \<open>\<open>this._clock.getRealTimeSecs()\<close>\<close>
  be_selected :: "string list"               \<comment> \<open>\<open>get_strv('selected-breaks')\<close>, empty also for null\<close>
  be_settings :: "string \<Rightarrow> break_settings"   \<comment> \<open>the child settings object at a path\<close>
  be_source_id :: "bm_call idgen"
  be_watch_id :: "bm_call idgen"
  be_handler_id :: "bm_call idgen"

record bm =
  bm_state :: break_state
  bm_breakTypeSettings :: "(string, string) jsmap"   \<comment> \<open>the settings object, named by its path\<close>
  bm_breakTypeSettingsChangedId :: "(string, nat) jsmap"
  bm_breakLastEnd :: "(string, real) jsmap"
  bm_idleWatchId :: nat
  bm_activeWatchId :: nat
  bm_timerId :: nat
  bm_currentBreakType :: "string option"
  bm_currentBreakStartTime :: real
  bm_idleState :: idle_state
  bm_idleStartTime :: real
  bm_trace :: "bm_call trace"

definition bm_do :: "bm_call \<Rightarrow> bm \<Rightarrow> bm" where
  "bm_do c s = s\<lparr>bm_trace := bm_trace s @ [Call c]\<rparr>"

subsection \<open>The next break\<close>

text \<open>
  One round of the loop of \<open>getNextBreakDue\<close> over \<open>_breakTypeSettings\<close>, on
  (\<open>maxDuration\<close>, \<open>maxDurationType\<close>, \<open>nextDueTime\<close>). \<open>dueBreakTypes\<close> is only logged. The
  lookup in \<open>_breakLastEnd\<close> always succeeds (\<open>bm_inv_last_end\<close> below), so its default is
  never read.
\<close>

definition nextBreakDue_step ::
  "(string \<Rightarrow> break_settings) \<Rightarrow> (string, real) jsmap \<Rightarrow> real \<Rightarrow> string \<times> string
     \<Rightarrow> nat \<times> string option \<times> real \<Rightarrow> nat \<times> string option \<times> real" where
  "nextBreakDue_step cfg lastEnd fromTime = (\<lambda>(breakType, h) (maxDuration, maxType, nextDue).
     let interval = interval_seconds (cfg h);
         duration = duration_seconds (cfg h);
         dueAt = or_else (jm_get lastEnd breakType) 0 + real interval
     in if dueAt \<le> fromTime
        then if maxDuration = 0 \<or> duration > maxDuration
             then (duration, Some breakType, dueAt)
             else (maxDuration, maxType, dueAt)
        else if nextDue = 0 \<or> nextDue > dueAt
        then (maxDuration, Some breakType, dueAt)
        else (maxDuration, maxType, nextDue))"

definition getNextBreakDue :: "bm_env \<Rightarrow> bm \<Rightarrow> real \<Rightarrow> string option \<times> real" where
  "getNextBreakDue env s fromTime =
     (let (maxDuration, maxType, nextDue) =
        fold (nextBreakDue_step (be_settings env) (bm_breakLastEnd s) fromTime)
          (bm_breakTypeSettings s) (0, None, 0)
      in (maxType, nextDue))"

definition getNextBreakDueTime :: "bm_env \<Rightarrow> bm \<Rightarrow> real \<Rightarrow> real" where
  "getNextBreakDueTime env s fromTime = snd (getNextBreakDue env s fromTime)"

definition nextBreakDueTime :: "bm_env \<Rightarrow> bm \<Rightarrow> real" where
  "nextBreakDueTime env s = getNextBreakDueTime env s (be_time env)"

definition getDurationForBreakType :: "bm_env \<Rightarrow> bm \<Rightarrow> string \<Rightarrow> nat" where
  "getDurationForBreakType env s bt =
     (case jm_get (bm_breakTypeSettings s) bt of
        None \<Rightarrow> 0 | Some h \<Rightarrow> duration_seconds (be_settings env h))"

definition currentBreakStartTime :: "bm \<Rightarrow> real" where
  "currentBreakStartTime s = (if bm_state s \<noteq> BS_IN_BREAK then 0 else bm_currentBreakStartTime s)"

definition lastBreakEndTime :: "bm \<Rightarrow> real" where
  "lastBreakEndTime s =
     (if bm_state s = BS_IN_BREAK then 0 else fold max (map snd (bm_breakLastEnd s)) 0)"

text \<open>The \<open>breakTypeShould...\<close> queries: \<open>false\<close> for a break type that is not enabled.\<close>

definition bm_flag :: "(break_settings \<Rightarrow> bool) \<Rightarrow> bm_env \<Rightarrow> bm \<Rightarrow> string option \<Rightarrow> bool" where
  "bm_flag f env s bt =
     (case bt of None \<Rightarrow> False | Some b \<Rightarrow>
       (case jm_get (bm_breakTypeSettings s) b of None \<Rightarrow> False | Some h \<Rightarrow> f (be_settings env h)))"

definition breakTypeShouldNotify :: "bm_env \<Rightarrow> bm \<Rightarrow> string option \<Rightarrow> bool" where
  "breakTypeShouldNotify = bm_flag notify"

definition breakTypeShouldNotifyUpcoming :: "bm_env \<Rightarrow> bm \<Rightarrow> string option \<Rightarrow> bool" where
  "breakTypeShouldNotifyUpcoming = bm_flag notify_upcoming"

definition breakTypeShouldNotifyOverdue :: "bm_env \<Rightarrow> bm \<Rightarrow> string option \<Rightarrow> bool" where
  "breakTypeShouldNotifyOverdue = bm_flag notify_overdue"

definition breakTypeShouldCountdown :: "bm_env \<Rightarrow> bm \<Rightarrow> string option \<Rightarrow> bool" where
  "breakTypeShouldCountdown = bm_flag countdown"

definition breakTypeShouldPlaySound :: "bm_env \<Rightarrow> bm \<Rightarrow> string option \<Rightarrow> bool" where
  "breakTypeShouldPlaySound = bm_flag play_sound"

definition breakTypeShouldFadeScreen :: "bm_env \<Rightarrow> bm \<Rightarrow> string option \<Rightarrow> bool" where
  "breakTypeShouldFadeScreen = bm_flag fade_screen"

definition breakTypeShouldLockScreen :: "bm_env \<Rightarrow> bm \<Rightarrow> string option \<Rightarrow> bool" where
  "breakTypeShouldLockScreen = bm_flag lock_screen"

subsection \<open>The state machine\<close>

definition scheduleUpdateState :: "bm_call idgen \<Rightarrow> real \<Rightarrow> bm \<Rightarrow> bm" where
  "scheduleUpdateState mk timeout s =
     (let s1 = (if bm_timerId s \<noteq> 0
                then s\<lparr>bm_trace := bm_trace s @ [SourceRemove (bm_timerId s)]\<rparr> else s);
          i = mk (bm_trace s1)
      in s1\<lparr>bm_timerId := i, bm_trace := bm_trace s1 @ [SourceAdd i \<lceil>timeout\<rceil>]\<rparr>)"

text \<open>
  \<open>_updateState\<close> when the user is idle: what \<open>inBreak\<close> and \<open>dueBreakStartTime\<close> become, with
  the timer and the signal of that branch, then the change of state.
\<close>

definition idleBreak :: "bm_env \<Rightarrow> real \<Rightarrow> bm \<Rightarrow> bool \<times> real \<times> bm" where
  "idleBreak env now s =
     (let (dueType, nextDue) = getNextBreakDue env s now
      in if dueType \<noteq> None \<and> nextDue \<le> now
         then let duration = real (getDurationForBreakType env s (or_else dueType []))
              in if nextDue + duration \<le> now
                 then (False, 0,
                       if bm_state s = BS_IN_BREAK then bm_do EmitBreakFinished s else s)
                 else (True, nextDue,
                       scheduleUpdateState (be_source_id env) (nextDue + duration - now) s)
         else if nextDue \<noteq> 0
         then (False, 0, scheduleUpdateState (be_source_id env) (nextDue - now) s)
         else (False, 0, s))"

definition enterState :: "break_state \<Rightarrow> string option \<Rightarrow> real \<Rightarrow> bm \<Rightarrow> bm" where
  "enterState st bt start s =
     bm_do NotifyState
       (s\<lparr>bm_state := st, bm_currentBreakType := bt, bm_currentBreakStartTime := start\<rparr>)"

definition updateState_idle :: "bm_env \<Rightarrow> real \<Rightarrow> bm \<Rightarrow> bm" where
  "updateState_idle env now s =
     (let dueType = fst (getNextBreakDue env s now);
          (inBreak, startTime, s1) = idleBreak env now s;
          newState = (if inBreak then BS_IN_BREAK else BS_IDLE)
      in if bm_state s1 \<noteq> newState then enterState newState dueType startTime s1 else s1)"

text \<open>
  \<open>_updateState\<close> when the user is active: the reset of the break ends that the idle time
  covers, then the decision whether a break is due.
\<close>

definition resetBreakEnds ::
  "(string \<Rightarrow> break_settings) \<Rightarrow> (string, string) jsmap \<Rightarrow> real \<Rightarrow> real
     \<Rightarrow> (string, real) jsmap \<Rightarrow> (string, real) jsmap" where
  "resetBreakEnds cfg types idleTime now lastEnd =
     fold (\<lambda>(bt, h) le. if idleTime \<ge> real (duration_seconds (cfg h)) then jm_set le bt now else le)
       types lastEnd"

definition creditIdleTime :: "bm_env \<Rightarrow> real \<Rightarrow> bm \<Rightarrow> bm" where
  "creditIdleTime env now s =
     (if bm_idleStartTime s > 0
      then bm_do NotifyLastBreakEndTime (bm_do NotifyNextBreakDueTime
             (s\<lparr>bm_breakLastEnd :=
                 resetBreakEnds (be_settings env) (bm_breakTypeSettings s)
                   (now - bm_idleStartTime s) now (bm_breakLastEnd s)\<rparr>))
      else s)\<lparr>bm_idleStartTime := 0\<rparr>"

definition updateState_active :: "bm_env \<Rightarrow> real \<Rightarrow> bm \<Rightarrow> bm" where
  "updateState_active env now s =
     (let s1 = creditIdleTime env now (bm_do FreezeNotify s);
          (dueType, nextDue) = getNextBreakDue env s1 now
      in if dueType \<noteq> None \<and> nextDue \<le> now
         then if bm_state s1 = BS_ACTIVE
              then bm_do EmitBreakDue (bm_do ThawNotify (enterState BS_BREAK_DUE dueType nextDue s1))
              else bm_do ThawNotify s1
         else let s2 = (if nextDue \<noteq> 0
                        then scheduleUpdateState (be_source_id env) (nextDue - now) s1 else s1)
              in bm_do ThawNotify
                   (if bm_state s2 \<noteq> BS_ACTIVE then enterState BS_ACTIVE None 0 s2 else s2))"

definition updateState :: "bm_env \<Rightarrow> real \<Rightarrow> bm \<Rightarrow> bm" where
  "updateState env now s =
     (case bm_idleState s of
        Idle_IDLE \<Rightarrow> updateState_idle env now s
      | Idle_ACTIVE \<Rightarrow> updateState_active env now s)"

text \<open>The callback of the timer.\<close>

definition timerFired :: "bm \<Rightarrow> bm" where
  "timerFired s = s\<lparr>bm_timerId := 0, bm_trace := bm_trace s @ [SourceFired (bm_timerId s)]\<rparr>"

definition onTimer :: "bm_env \<Rightarrow> bm \<Rightarrow> bm" where
  "onTimer env s = updateState env (be_time env) (timerFired s)"

definition startStateMachine :: "bm_env \<Rightarrow> bm \<Rightarrow> bm" where
  "startStateMachine env s =
     (let i = be_watch_id env (bm_trace s);
          s1 = bm_do (IdleWatchAdd i (int MIN_BREAK_LENGTH_SECONDS * 1000)) (s\<lparr>bm_idleWatchId := i\<rparr>)
      in updateState env (be_time env)
           (s1\<lparr>bm_state := BS_ACTIVE, bm_currentBreakType := None,
               bm_currentBreakStartTime := 0, bm_idleState := Idle_ACTIVE,
               bm_idleStartTime := 0\<rparr>))"

definition stopStateMachine :: "bm \<Rightarrow> bm" where
  "stopStateMachine s =
     (let s1 = (if bm_idleWatchId s \<noteq> 0 then bm_do (WatchRemove (bm_idleWatchId s)) s else s)
                 \<lparr>bm_idleWatchId := 0\<rparr>;
          s2 = (if bm_activeWatchId s1 \<noteq> 0 then bm_do (WatchRemove (bm_activeWatchId s1)) s1 else s1)
                 \<lparr>bm_activeWatchId := 0\<rparr>;
          s3 = (if bm_timerId s2 \<noteq> 0
                then s2\<lparr>bm_trace := bm_trace s2 @ [SourceRemove (bm_timerId s2)]\<rparr> else s2)
                 \<lparr>bm_timerId := 0\<rparr>;
          s4 = fold (\<lambda>(bt, h) u.
                 bm_do (SettingsDisconnect bt (jm_get (bm_breakTypeSettingsChangedId u) bt)) u)
                 (bm_breakTypeSettings s3) s3
      in bm_do NotifyState
           (s4\<lparr>bm_breakTypeSettings := [], bm_breakTypeSettingsChangedId := [],
               bm_breakLastEnd := [], bm_state := BS_DISABLED, bm_currentBreakType := None,
               bm_currentBreakStartTime := 0, bm_idleState := Idle_ACTIVE,
               bm_idleStartTime := 0\<rparr>))"

definition onIdleWatch :: "bm_env \<Rightarrow> bm \<Rightarrow> bm" where
  "onIdleWatch env s =
     (let now = be_time env;
          s1 = (if bm_activeWatchId s = 0
                then let i = be_watch_id env (bm_trace s)
                     in bm_do (ActiveWatchAdd i) (s\<lparr>bm_activeWatchId := i\<rparr>)
                else s)
      in updateState env now
           (s1\<lparr>bm_idleState := Idle_IDLE,
               bm_idleStartTime := now - real MIN_BREAK_LENGTH_SECONDS\<rparr>))"

definition onUserActiveWatch :: "bm_env \<Rightarrow> bm \<Rightarrow> bm" where
  "onUserActiveWatch env s =
     updateState env (be_time env)
       ((bm_do (WatchRemove (bm_activeWatchId s)) s)
          \<lparr>bm_activeWatchId := 0, bm_idleState := Idle_ACTIVE\<rparr>)"

subsection \<open>Settings\<close>

text \<open>One round of the loop of \<open>_updateSettings\<close> over the supported break types.\<close>

definition updateBreakType :: "bm_env \<Rightarrow> string \<Rightarrow> bm \<Rightarrow> bm" where
  "updateBreakType env bt s =
     (if bt \<in> set (be_selected env) \<and> \<not> jm_has (bm_breakTypeSettings s) bt
      then let i = be_handler_id env (bm_trace s)
           in (bm_do (SettingsConnect bt i) s)
                \<lparr>bm_breakTypeSettings := jm_set (bm_breakTypeSettings s) bt bt,
                 bm_breakTypeSettingsChangedId := jm_set (bm_breakTypeSettingsChangedId s) bt i,
                 bm_breakLastEnd := jm_set (bm_breakLastEnd s) bt (be_time env)\<rparr>
      else if bt \<notin> set (be_selected env) \<and> jm_has (bm_breakTypeSettings s) bt
      then (bm_do (SettingsDisconnect bt (jm_get (bm_breakTypeSettingsChangedId s) bt)) s)
             \<lparr>bm_breakTypeSettings := jm_del (bm_breakTypeSettings s) bt,
              bm_breakTypeSettingsChangedId := jm_del (bm_breakTypeSettingsChangedId s) bt,
              bm_breakLastEnd := jm_del (bm_breakLastEnd s) bt\<rparr>
      else s)"

definition updateSettings :: "bm_env \<Rightarrow> bm \<Rightarrow> bm" where
  "updateSettings env s =
     (if be_selected env = [] then stopStateMachine s
      else let s1 = fold (updateBreakType env) SUPPORTED_BREAK_TYPES s;
               s2 = bm_do NotifyNextBreakDueTime (bm_do FreezeNotify s1)
           in bm_do ThawNotify
                (if bm_state s2 = BS_DISABLED then startStateMachine env s2
                 else updateState env (be_time env) s2))"

text \<open>
  The constructor. Fields it leaves undefined are given their idle values. It connects to the changes of the break settings for
  good; that handler is not among those that are recorded and disconnected.
\<close>

definition newBreakManager :: "bm_env \<Rightarrow> bm" where
  "newBreakManager env = updateSettings env
     \<lparr>bm_state = BS_DISABLED, bm_breakTypeSettings = [], bm_breakTypeSettingsChangedId = [],
      bm_breakLastEnd = [], bm_idleWatchId = 0, bm_activeWatchId = 0, bm_timerId = 0,
      bm_currentBreakType = None, bm_currentBreakStartTime = 0, bm_idleState = Idle_ACTIVE,
      bm_idleStartTime = 0, bm_trace = [Call BreakSettingsConnect]\<rparr>"

subsection \<open>The user's answers\<close>

definition delayEnds ::
  "(string \<Rightarrow> break_settings) \<Rightarrow> real \<Rightarrow> (string, string) jsmap \<Rightarrow> (string, real) jsmap
     \<Rightarrow> (string, real) jsmap" where
  "delayEnds cfg now types lastEnd =
     fold (\<lambda>(bt, h) le.
       if or_else (jm_get le bt) 0 + real (interval_seconds (cfg h)) \<le> now
       then jm_set le bt (or_else (jm_get le bt) 0 + real (delay_seconds (cfg h))) else le)
       types lastEnd"

definition skipEnds ::
  "(string \<Rightarrow> break_settings) \<Rightarrow> real \<Rightarrow> (string, string) jsmap \<Rightarrow> (string, real) jsmap
     \<Rightarrow> (string, real) jsmap" where
  "skipEnds cfg now types lastEnd =
     fold (\<lambda>(bt, h) le.
       if or_else (jm_get le bt) 0 + real (interval_seconds (cfg h)) \<le> now
       then jm_set le bt now else le)
       types lastEnd"

definition delayBreak :: "bm_env \<Rightarrow> bm \<Rightarrow> bm" where
  "delayBreak env s =
     (if bm_state s = BS_DISABLED then s
      else let now = be_time env;
               s1 = s\<lparr>bm_breakLastEnd :=
                 delayEnds (be_settings env) now (bm_breakTypeSettings s) (bm_breakLastEnd s)\<rparr>;
               s2 = bm_do NotifyLastBreakEndTime (bm_do NotifyNextBreakDueTime (bm_do FreezeNotify s1))
           in bm_do ThawNotify (updateState env now s2))"

definition skipBreak :: "bm_env \<Rightarrow> bm \<Rightarrow> bm" where
  "skipBreak env s =
     (if bm_state s = BS_DISABLED then s
      else let now = be_time env;
               s1 = s\<lparr>bm_breakLastEnd :=
                 skipEnds (be_settings env) now (bm_breakTypeSettings s) (bm_breakLastEnd s)\<rparr>;
               s2 = bm_do NotifyLastBreakEndTime (bm_do NotifyNextBreakDueTime (bm_do FreezeNotify s1))
           in bm_do ThawNotify (updateState env now s2))"

definition takeBreak :: "bm \<Rightarrow> bm" where
  "takeBreak s = bm_do EmitTakeBreak s"

end
