(* ===== verification/BreakNotify.thy ===== *)
theory BreakNotify
  imports BreakManager
begin

section \<open>Break reminders: notifications and screen effects (\<open>js/misc/breakManager.js\<close>)\<close>

text \<open>
  The two objects that follow a \<open>BreakManager\<close>: \<open>BreakNotificationSource\<close>, which shows one
  notification and updates it on a timer, with the notification's own actions, and
  \<open>BreakDispatcher\<close>, which fades or locks the screen, plays a sound and counts down. Both read
  the manager (\<open>m\<close>) and its environment. Texts are kept as the message to translate with the
  time span to insert. A message source that loses its last notification destroys itself
  (\<open>Source._onNotificationDestroy\<close> in \<open>js/ui/messageTray.js\<close>).
\<close>

definition BREAK_OVERDUE_TIME_SECONDS :: int where
  "BREAK_OVERDUE_TIME_SECONDS = 60"

definition BREAK_UPCOMING_NOTIFICATION_TIME_SECONDS :: "int list" where
  "BREAK_UPCOMING_NOTIFICATION_TIME_SECONDS = [2 * 60]"

definition BREAK_COUNTDOWN_TIME_SECONDS :: int where
  "BREAK_COUNTDOWN_TIME_SECONDS = 60"

subsection \<open>Time spans\<close>

datatype time_unit = Seconds | Minutes | Hours | Days

text \<open>JavaScript's remainder of a non-negative dividend.\<close>

definition js_mod :: "real \<Rightarrow> real \<Rightarrow> real" where
  "js_mod x m = x - m * real_of_int \<lfloor>x / m\<rfloor>"

text \<open>The unit, the value to print (\<open>%d\<close> drops the fraction) and the seconds to the next update.\<close>

definition formatTimeSpan :: "real \<Rightarrow> time_unit \<times> real \<times> real" where
  "formatTimeSpan secondsAgo =
     (let minutesAgo = secondsAgo / 60; hoursAgo = minutesAgo / 60; daysAgo = hoursAgo / 24
      in if secondsAgo < 60 then (Seconds, secondsAgo, 1)
         else if minutesAgo < 60 then (Minutes, minutesAgo, 60 - js_mod secondsAgo 60)
         else if hoursAgo < 24 then (Hours, hoursAgo, (60 - js_mod minutesAgo 60) * 60)
         else (Days, daysAgo, (24 - js_mod hoursAgo 24) * 60 * 60))"

definition span_text :: "real \<Rightarrow> time_unit \<times> int" where
  "span_text secs = (let (u, v, _) = formatTimeSpan secs in (u, \<lfloor>v\<rfloor>))"

subsection \<open>The notification\<close>

datatype urgency = Urgency_LOW | Urgency_HIGH

record notification =
  nt_title :: string
  nt_body :: string
  nt_span :: "time_unit \<times> int"
  nt_urgency :: urgency
  nt_allowDelay :: bool
  nt_allowSkip :: bool
  nt_allowTake :: bool

datatype destroy_reason = NoReason | SourceClosed | Dismissed

datatype bn_call =
    TrayAddSource | SourceDestroyed | ShowNotification notification
  | NotificationDestroyed destroy_reason | ManagerDisconnect

record bn =
  bn_source :: bool
  bn_notification :: "notification option"
  bn_timerId :: nat
  bn_manager :: bool
  bn_previousState :: break_state
  bn_trace :: "bn_call trace"

definition bn_do :: "bn_call \<Rightarrow> bn \<Rightarrow> bn" where
  "bn_do c s = s\<lparr>bn_trace := bn_trace s @ [Call c]\<rparr>"

text \<open>Destroying the notification, which is the only one of its source.\<close>

definition destroyNotification :: "destroy_reason \<Rightarrow> bn \<Rightarrow> bn" where
  "destroyNotification reason s =
     (if bn_notification s = None then s
      else let s1 = bn_do (NotificationDestroyed reason) (s\<lparr>bn_notification := None\<rparr>)
           in if bn_source s1 then bn_do SourceDestroyed (s1\<lparr>bn_source := False\<rparr>) else s1)"

definition bn_destroy :: "bn \<Rightarrow> bn" where
  "bn_destroy s =
     (let s1 = destroyNotification NoReason s;
          s2 = (if bn_source s1 then bn_do SourceDestroyed s1 else s1)\<lparr>bn_source := False\<rparr>;
          s3 = (if bn_timerId s2 \<noteq> 0
                then s2\<lparr>bn_trace := bn_trace s2 @ [SourceRemove (bn_timerId s2)]\<rparr> else s2)
                 \<lparr>bn_timerId := 0\<rparr>
      in (if bn_manager s3 then bn_do ManagerDisconnect s3 else s3)\<lparr>bn_manager := False\<rparr>)"

text \<open>\<open>_ensureNotification\<close> and the \<open>addNotification\<close> that follows it.\<close>

definition showNotification :: "notification \<Rightarrow> bn \<Rightarrow> bn" where
  "showNotification n s =
     (let s1 = (if \<not> bn_source s then bn_do TrayAddSource (s\<lparr>bn_source := True\<rparr>) else s)
      in bn_do (ShowNotification n) (s1\<lparr>bn_notification := Some n\<rparr>))"

definition urgencyForBreakType :: "bm_env \<Rightarrow> bm \<Rightarrow> string option \<Rightarrow> urgency" where
  "urgencyForBreakType env m bt = (if breakTypeShouldNotify env m bt then Urgency_HIGH else Urgency_LOW)"

definition bn_scheduleUpdateState :: "bn_call idgen \<Rightarrow> real \<Rightarrow> bn \<Rightarrow> bn" where
  "bn_scheduleUpdateState mk timeout s =
     (let s1 = (if bn_timerId s \<noteq> 0
                then s\<lparr>bn_trace := bn_trace s @ [SourceRemove (bn_timerId s)]\<rparr> else s);
          i = mk (bn_trace s1)
      in s1\<lparr>bn_timerId := i, bn_trace := bn_trace s1 @ [SourceAdd i \<lceil>timeout\<rceil>]\<rparr>)"

subsection \<open>The texts\<close>

definition titleFor :: "string option \<Rightarrow> string \<Rightarrow> string \<Rightarrow> string \<Rightarrow> string" where
  "titleFor bt movement eyesight other =
     (if bt = Some ''movement'' then movement else if bt = Some ''eyesight'' then eyesight else other)"

definition upcomingNotification :: "bm_env \<Rightarrow> bm \<Rightarrow> string option \<Rightarrow> real \<Rightarrow> notification" where
  "upcomingNotification env m bt remaining =
     \<lparr>nt_title = titleFor bt ''Movement Break Soon'' ''Eyesight Break Soon'' ''Break Soon'',
      nt_body = ''It will be time for a break in %s'', nt_span = span_text remaining,
      nt_urgency = urgencyForBreakType env m bt,
      nt_allowDelay = True, nt_allowSkip = True, nt_allowTake = False\<rparr>"

definition inBreakNotification :: "bm_env \<Rightarrow> bm \<Rightarrow> real \<Rightarrow> notification" where
  "inBreakNotification env m remaining =
     (let bt = bm_currentBreakType m in
     \<lparr>nt_title = titleFor bt ''Movement Break in Progress'' ''Eyesight Break in Progress'' ''Break in Progress'',
      nt_body = titleFor bt ''Continue moving around for %s'' ''Continue looking away for %s'' ''%s left in your break'',
      nt_span = span_text remaining, nt_urgency = urgencyForBreakType env m bt,
      nt_allowDelay = False, nt_allowSkip = False, nt_allowTake = False\<rparr>)"

definition breakDueNotification :: "bm_env \<Rightarrow> bm \<Rightarrow> string option \<Rightarrow> real \<Rightarrow> notification" where
  "breakDueNotification env m bt duration =
     \<lparr>nt_title = titleFor bt ''Time for a Movement Break'' ''Time for an Eyesight Break'' ''Time for a Break'',
      nt_body = titleFor bt ''Take a break from the device and move around for %s''
        ''Take a break from the screen. Look at least 6 meters away for at least %s''
        ''It's time to take a break. Get away from the device for %s!'',
      nt_span = span_text duration, nt_urgency = urgencyForBreakType env m bt,
      nt_allowDelay = True, nt_allowSkip = False, nt_allowTake = True\<rparr>"

definition overdueNotification :: "bm_env \<Rightarrow> bm \<Rightarrow> string option \<Rightarrow> real \<Rightarrow> notification" where
  "overdueNotification env m bt ago =
     \<lparr>nt_title = ''Break Overdue'', nt_body = ''You were due to take a break %s ago'',
      nt_span = span_text ago, nt_urgency = urgencyForBreakType env m bt,
      nt_allowDelay = True, nt_allowSkip = False, nt_allowTake = True\<rparr>"

definition interruptedNotification :: "bm_env \<Rightarrow> bm \<Rightarrow> string option \<Rightarrow> real \<Rightarrow> notification" where
  "interruptedNotification env m bt remaining =
     \<lparr>nt_title = ''Break Interrupted'', nt_body = ''There is %s remaining in your break'',
      nt_span = span_text remaining, nt_urgency = urgencyForBreakType env m bt,
      nt_allowDelay = False, nt_allowSkip = False, nt_allowTake = False\<rparr>"

subsection \<open>Following the manager\<close>

text \<open>The loop over the times of upcoming notifications: the first longer branch ends it.\<close>

fun upcoming_loop :: "bm_env \<Rightarrow> bm \<Rightarrow> bn_call idgen \<Rightarrow> string option \<Rightarrow> real \<Rightarrow> int list \<Rightarrow> bn \<Rightarrow> bn" where
  "upcoming_loop env m mk bt remaining [] s = s"
| "upcoming_loop env m mk bt remaining (t # ts) s =
     (if remaining > real_of_int t then bn_scheduleUpdateState mk (remaining - real_of_int t) s
      else if \<lceil>remaining\<rceil> = t
      then upcoming_loop env m mk bt remaining ts
             (showNotification (upcomingNotification env m bt remaining) s)
      else upcoming_loop env m mk bt remaining ts s)"

definition bn_active :: "bm_env \<Rightarrow> bm \<Rightarrow> bn_call idgen \<Rightarrow> bn \<Rightarrow> bn" where
  "bn_active env m mk s =
     (if bn_previousState s = BS_IN_BREAK then destroyNotification SourceClosed s
      else let (bt, due) = getNextBreakDue env m (be_time env)
           in if breakTypeShouldNotifyUpcoming env m bt
              then upcoming_loop env m mk bt (due - be_time env) BREAK_UPCOMING_NOTIFICATION_TIME_SECONDS s
              else s)"

definition bn_inBreak :: "bm_env \<Rightarrow> bm \<Rightarrow> bn_call idgen \<Rightarrow> bn \<Rightarrow> bn" where
  "bn_inBreak env m mk s =
     (let remaining = real (getDurationForBreakType env m (or_else (bm_currentBreakType m) []))
                        - (be_time env - currentBreakStartTime m)
      in if remaining \<ge> 1
         then bn_scheduleUpdateState mk (snd (snd (formatTimeSpan remaining)))
                (showNotification (inBreakNotification env m remaining) s)
         else destroyNotification SourceClosed s)"

definition bn_breakDue :: "bm_env \<Rightarrow> bm \<Rightarrow> bn_call idgen \<Rightarrow> bn \<Rightarrow> bn" where
  "bn_breakDue env m mk s =
     (let (bt, due) = getNextBreakDue env m (be_time env); ago = be_time env - due;
          duration = real (getDurationForBreakType env m (or_else bt []))
      in if (bn_previousState s = BS_ACTIVE \<or> bn_previousState s = BS_DISABLED)
            \<and> ago < real_of_int BREAK_OVERDUE_TIME_SECONDS
         then bn_scheduleUpdateState mk (real_of_int BREAK_OVERDUE_TIME_SECONDS)
                (showNotification (breakDueNotification env m bt duration) s)
         else if ago \<ge> real_of_int BREAK_OVERDUE_TIME_SECONDS \<and> breakTypeShouldNotifyOverdue env m bt
         then bn_scheduleUpdateState mk (snd (snd (formatTimeSpan ago)))
                (showNotification (overdueNotification env m bt ago) s)
         else if bn_previousState s = BS_IN_BREAK
         then bn_scheduleUpdateState mk (snd (snd (formatTimeSpan (duration - ago))))
                (showNotification (interruptedNotification env m bt (duration - ago)) s)
         else s)"

definition bn_updateState :: "bm_env \<Rightarrow> bm \<Rightarrow> bn_call idgen \<Rightarrow> bn \<Rightarrow> bn" where
  "bn_updateState env m mk s =
     (case bm_state m of
        BS_DISABLED \<Rightarrow> bn_destroy s
      | BS_ACTIVE \<Rightarrow> bn_active env m mk s
      | BS_IDLE \<Rightarrow> s
      | BS_IN_BREAK \<Rightarrow> bn_inBreak env m mk s
      | BS_BREAK_DUE \<Rightarrow> bn_breakDue env m mk s)"

text \<open>\<open>_onStateChanged\<close>: \<open>None\<close> when the source has let go of the manager, a \<open>TypeError\<close>.\<close>

definition bn_onStateChanged :: "bm_env \<Rightarrow> bm \<Rightarrow> bn_call idgen \<Rightarrow> bn \<Rightarrow> bn option" where
  "bn_onStateChanged env m mk s =
     (let s1 = bn_updateState env m mk s
      in if bn_manager s1 then Some (s1\<lparr>bn_previousState := bm_state m\<rparr>) else None)"

definition bn_timerFired :: "bn \<Rightarrow> bn" where
  "bn_timerFired s = s\<lparr>bn_timerId := 0, bn_trace := bn_trace s @ [SourceFired (bn_timerId s)]\<rparr>"

definition bn_onTimer :: "bm_env \<Rightarrow> bm \<Rightarrow> bn_call idgen \<Rightarrow> bn \<Rightarrow> bn" where
  "bn_onTimer env m mk s = bn_updateState env m mk (bn_timerFired s)"

definition newBreakNotificationSource :: "bm_env \<Rightarrow> bm \<Rightarrow> bn_call idgen \<Rightarrow> bn" where
  "newBreakNotificationSource env m mk = bn_updateState env m mk
     \<lparr>bn_source = False, bn_notification = None, bn_timerId = 0, bn_manager = True,
      bn_previousState = BS_DISABLED, bn_trace = []\<rparr>"

text \<open>What the user does with the notification: its effect on the manager, then on the source.\<close>

datatype user_action = ActDelay | ActSkip | ActTake | ActDismiss

fun manager_action :: "user_action \<Rightarrow> bm_env \<Rightarrow> bm \<Rightarrow> bm" where
  "manager_action ActDelay env m = delayBreak env m"
| "manager_action ActSkip env m = skipBreak env m"
| "manager_action ActTake env m = takeBreak m"
| "manager_action ActDismiss env m = skipBreak env m"

fun action_allowed :: "user_action \<Rightarrow> notification \<Rightarrow> bool" where
  "action_allowed ActDelay n = nt_allowDelay n"
| "action_allowed ActSkip n = nt_allowSkip n"
| "action_allowed ActTake n = nt_allowTake n"
| "action_allowed ActDismiss n = True"

subsection \<open>The dispatcher\<close>

datatype bd_call =
    AddEffect | RemoveEffect | FadeScreen | ActivateLockScreen | PlayCompleteSound
  | CreateOsd | DestroyOsd
  | DestroyNotificationSource bn    \<comment> \<open>with the state it is left in\<close>
  | DisconnectFromManager

record bd =
  bd_source :: "bn option"
  bd_effect :: "bool option"    \<comment> \<open>the brightness effect, and whether it is enabled\<close>
  bd_osd :: bool
  bd_countdownTimerId :: nat
  bd_previousState :: break_state
  bd_previousBreakType :: "string option"
  bd_trace :: "bd_call trace"

definition bd_do :: "bd_call \<Rightarrow> bd \<Rightarrow> bd" where
  "bd_do c s = s\<lparr>bd_trace := bd_trace s @ [Call c]\<rparr>"

definition bd_ensureEnabled :: "bm_env \<Rightarrow> bm \<Rightarrow> bn_call idgen \<Rightarrow> bd \<Rightarrow> bd" where
  "bd_ensureEnabled env m mk s =
     (let s1 = (if bd_source s = None
                then s\<lparr>bd_source := Some (newBreakNotificationSource env m mk)\<rparr> else s)
      in if bd_effect s1 = None then bd_do AddEffect (s1\<lparr>bd_effect := Some False\<rparr>) else s1)"

definition bd_removeCountdown :: "bd \<Rightarrow> bd" where
  "bd_removeCountdown s =
     (let s1 = (if bd_countdownTimerId s \<noteq> 0
                then s\<lparr>bd_trace := bd_trace s @ [SourceRemove (bd_countdownTimerId s)]\<rparr> else s)
                 \<lparr>bd_countdownTimerId := 0\<rparr>
      in (if bd_osd s1 then bd_do DestroyOsd s1 else s1)\<lparr>bd_osd := False\<rparr>)"

definition bd_ensureDisabled :: "bd \<Rightarrow> bd" where
  "bd_ensureDisabled s =
     (let s1 = (case bd_source s of Some b \<Rightarrow> bd_do (DestroyNotificationSource (bn_destroy b)) s | None \<Rightarrow> s)
                 \<lparr>bd_source := None\<rparr>;
          s2 = (if bd_effect s1 \<noteq> None then bd_do RemoveEffect s1 else s1)\<lparr>bd_effect := None\<rparr>
      in (bd_removeCountdown s2)\<lparr>bd_previousState := BS_DISABLED, bd_previousBreakType := None\<rparr>)"

definition bd_maybePlayCompleteSound :: "bm_env \<Rightarrow> bm \<Rightarrow> bd \<Rightarrow> bd" where
  "bd_maybePlayCompleteSound env m s =
     (if breakTypeShouldPlaySound env m (bd_previousBreakType s) then bd_do PlayCompleteSound s else s)"

definition bd_brightnessEffectOn :: "bd \<Rightarrow> bd" where
  "bd_brightnessEffectOn s = bd_do FadeScreen (s\<lparr>bd_effect := Some True\<rparr>)"

text \<open>GLib takes whole seconds: the fraction is cut off.\<close>

definition bd_scheduleCountdown :: "bd_call idgen \<Rightarrow> real \<Rightarrow> bd \<Rightarrow> bd" where
  "bd_scheduleCountdown mk seconds s =
     (let s1 = (if bd_countdownTimerId s \<noteq> 0
                then s\<lparr>bd_trace := bd_trace s @ [SourceRemove (bd_countdownTimerId s)]\<rparr> else s);
          i = mk (bd_trace s1)
      in s1\<lparr>bd_countdownTimerId := i, bd_trace := bd_trace s1 @ [SourceAdd i \<lceil>seconds\<rceil>]\<rparr>)"

definition bd_countdownFired :: "bd \<Rightarrow> bd" where
  "bd_countdownFired s = s\<lparr>bd_countdownTimerId := 0,
     bd_trace := bd_trace s @ [SourceFired (bd_countdownTimerId s)]\<rparr>"

definition bd_onCountdown :: "bd \<Rightarrow> bd" where
  "bd_onCountdown s =
     (let s1 = bd_countdownFired s
      in if \<not> bd_osd s1 then bd_do CreateOsd (s1\<lparr>bd_osd := True\<rparr>) else s1)"

text \<open>The label destroyed itself.\<close>

definition bd_onOsdDestroyed :: "bd \<Rightarrow> bd" where
  "bd_onOsdDestroyed s = s\<lparr>bd_osd := False\<rparr>"

definition bd_active :: "bm_env \<Rightarrow> bm \<Rightarrow> bd_call idgen \<Rightarrow> bd \<Rightarrow> bd" where
  "bd_active env m mk s =
     (let s1 = (if bd_previousState s = BS_IN_BREAK then bd_maybePlayCompleteSound env m s else s)
                 \<lparr>bd_effect := Some False\<rparr>;
          (bt, due) = getNextBreakDue env m (be_time env)
      in if breakTypeShouldCountdown env m bt
         then bd_scheduleCountdown mk
                (real_of_int \<lfloor>max (due - be_time env - real_of_int BREAK_COUNTDOWN_TIME_SECONDS) 0\<rfloor>) s1
         else s1)"

definition bd_onStateChanged :: "bm_env \<Rightarrow> bm \<Rightarrow> bn_call idgen \<Rightarrow> bd_call idgen \<Rightarrow> bd \<Rightarrow> bd" where
  "bd_onStateChanged env m mkn mk s =
     (let on = bd_ensureEnabled env m mkn s;
          s1 = (case bm_state m of
              BS_DISABLED \<Rightarrow> bd_ensureDisabled s
            | BS_ACTIVE \<Rightarrow> bd_active env m mk on
            | BS_IDLE \<Rightarrow>
                (if bd_previousState on = BS_IN_BREAK then bd_maybePlayCompleteSound env m on else on)
                  \<lparr>bd_effect := Some False\<rparr>
            | BS_IN_BREAK \<Rightarrow> bd_removeCountdown
                (if breakTypeShouldLockScreen env m (bm_currentBreakType m) \<and> bd_previousState on \<noteq> BS_IN_BREAK
                 then bd_do ActivateLockScreen on
                 else if breakTypeShouldFadeScreen env m (bm_currentBreakType m)
                 then bd_brightnessEffectOn on else on)
            | BS_BREAK_DUE \<Rightarrow> bd_removeCountdown on)
      in s1\<lparr>bd_previousState := bm_state m, bd_previousBreakType := bm_currentBreakType m\<rparr>)"

definition bd_onTakeBreak :: "bm_env \<Rightarrow> bm \<Rightarrow> bd \<Rightarrow> bd" where
  "bd_onTakeBreak env m s =
     (if breakTypeShouldLockScreen env m (bm_currentBreakType m) then bd_do ActivateLockScreen s
      else if breakTypeShouldFadeScreen env m (bm_currentBreakType m) then bd_brightnessEffectOn s else s)"

definition bd_destroy :: "bd \<Rightarrow> bd" where
  "bd_destroy s = bd_do DisconnectFromManager (bd_ensureDisabled s)"

definition newBreakDispatcher :: "bm_env \<Rightarrow> bm \<Rightarrow> bn_call idgen \<Rightarrow> bd" where
  "newBreakDispatcher env m mk =
     (let s = \<lparr>bd_source = None, bd_effect = None, bd_osd = False, bd_countdownTimerId = 0,
               bd_previousState = BS_DISABLED, bd_previousBreakType = None, bd_trace = []\<rparr>
      in if bm_state m = BS_DISABLED then bd_ensureDisabled s else bd_ensureEnabled env m mk s)"

subsection \<open>The countdown label\<close>

datatype osd_call = DisableUnredirect | EnableUnredirect

text \<open>The label: its timer (0 for none), whether it has been destroyed, and the text it shows.\<close>

record osd =
  osd_timerId :: nat
  osd_handler :: bool      \<comment> \<open>the handler of \<open>destroy\<close> is connected\<close>
  osd_destroyed :: bool
  osd_label :: "int option"
  osd_trace :: "osd_call trace"

definition osd_destroy :: "osd \<Rightarrow> osd" where
  "osd_destroy s =
     (if osd_destroyed s then s
      else let s1 = s\<lparr>osd_destroyed := True\<rparr>
           in if \<not> osd_handler s1 then s1
              else let s2 = (if osd_timerId s1 \<noteq> 0
                             then s1\<lparr>osd_trace := osd_trace s1 @ [SourceRemove (osd_timerId s1)]\<rparr> else s1)
                              \<lparr>osd_timerId := 0\<rparr>
                   in s2\<lparr>osd_trace := osd_trace s2 @ [Call EnableUnredirect]\<rparr>)"

definition osd_updateState :: "bm_env \<Rightarrow> bm \<Rightarrow> osd \<Rightarrow> bool \<times> osd" where
  "osd_updateState env m s =
     (let dueIn = getNextBreakDueTime env m (be_time env) - be_time env
      in if dueIn < 1 then (False, osd_destroy s) else (True, s\<lparr>osd_label := Some \<lfloor>dueIn\<rfloor>\<rparr>))"

definition newOsd :: "bm_env \<Rightarrow> bm \<Rightarrow> osd_call idgen \<Rightarrow> osd" where
  "newOsd env m mk =
     (let i = mk [];
          s1 = snd (osd_updateState env m \<lparr>osd_timerId = i, osd_handler = False, osd_destroyed = False,
                 osd_label = None, osd_trace = [SourceAdd i 1]\<rparr>)
      in s1\<lparr>osd_trace := osd_trace s1 @ [Call DisableUnredirect], osd_handler := True\<rparr>)"

end
