(* ===== verification/BreakInvariant.thy ===== *)
theory BreakInvariant
  imports BreakManager
begin

section \<open>Break reminders: the invariant of the break manager\<close>

text \<open>
  The step relation of a \<open>BreakManager\<close> (every way the shell enters it), its reachable
  states, and the invariant they keep: the three maps agree on their keys, the fields of a
  disabled manager are cleared, the idle and active watches and the timer that exist are
  exactly the ones recorded, every settings handler connected is recorded, and the public
  state agrees with what the idle monitor last reported.
\<close>

subsection \<open>What exists outside, read off the trace\<close>

fun watch_event :: "bm_call effect \<Rightarrow> bm_call trace" where
  "watch_event (Call (IdleWatchAdd i t)) = [SourceAdd i t]"
| "watch_event (Call (ActiveWatchAdd i)) = [SourceAdd i 0]"
| "watch_event (Call (WatchRemove i)) = [SourceRemove i]"
| "watch_event _ = []"

fun handler_event :: "bm_call effect \<Rightarrow> bm_call trace" where
  "handler_event (Call (SettingsConnect bt i)) = [SourceAdd i 0]"
| "handler_event (Call (SettingsDisconnect bt (Some i))) = [SourceRemove i]"
| "handler_event _ = []"

text \<open>The idle-monitor watches, and the settings handlers, that exist after a trace.\<close>

definition watches :: "bm_call trace \<Rightarrow> nat set option" where
  "watches tr = sources (concat (map watch_event tr))"

definition handlers :: "bm_call trace \<Rightarrow> nat set option" where
  "handlers tr = sources (concat (map handler_event tr))"

lemma watches_Nil [simp]: "watches [] = Some {}" and handlers_Nil [simp]: "handlers [] = Some {}"
  by (simp_all add: watches_def handlers_def)

lemma watches_append [simp]:
  "watches (tr @ tr') = fold source_step (concat (map watch_event tr')) (watches tr)"
  by (simp add: watches_def)

lemma handlers_append [simp]:
  "handlers (tr @ tr') = fold source_step (concat (map handler_event tr')) (handlers tr)"
  by (simp add: handlers_def)

text \<open>What the model relies on of the identifiers it is given.\<close>

definition fresh_env :: "bm_env \<Rightarrow> bool" where
  "fresh_env env \<longleftrightarrow> fresh_ids (be_source_id env)
     \<and> (\<forall>tr. be_watch_id env tr \<noteq> 0 \<and> (\<forall>S. watches tr = Some S \<longrightarrow> be_watch_id env tr \<notin> S))
     \<and> (\<forall>tr S. handlers tr = Some S \<longrightarrow> be_handler_id env tr \<notin> S)"

subsection \<open>The timer slot\<close>

interpretation bm_slot: timer_slot bm_timerId bm_trace scheduleUpdateState timerFired
  by unfold_locales (auto simp: scheduleUpdateState_def timerFired_def cancel_calls_def Let_def)

lemma schedule_frame [simp]:
  "bm_state (scheduleUpdateState mk d s) = bm_state s"
  "bm_breakTypeSettings (scheduleUpdateState mk d s) = bm_breakTypeSettings s"
  "bm_breakTypeSettingsChangedId (scheduleUpdateState mk d s) = bm_breakTypeSettingsChangedId s"
  "bm_breakLastEnd (scheduleUpdateState mk d s) = bm_breakLastEnd s"
  "bm_idleWatchId (scheduleUpdateState mk d s) = bm_idleWatchId s"
  "bm_activeWatchId (scheduleUpdateState mk d s) = bm_activeWatchId s"
  "bm_currentBreakType (scheduleUpdateState mk d s) = bm_currentBreakType s"
  "bm_currentBreakStartTime (scheduleUpdateState mk d s) = bm_currentBreakStartTime s"
  "bm_idleState (scheduleUpdateState mk d s) = bm_idleState s"
  "bm_idleStartTime (scheduleUpdateState mk d s) = bm_idleStartTime s"
  "watches (bm_trace (scheduleUpdateState mk d s)) = watches (bm_trace s)"
  "handlers (bm_trace (scheduleUpdateState mk d s)) = handlers (bm_trace s)"
  by (simp_all add: scheduleUpdateState_def Let_def)

lemma bm_do_frame [simp]:
  "bm_state (bm_do c s) = bm_state s"
  "bm_breakTypeSettings (bm_do c s) = bm_breakTypeSettings s"
  "bm_breakTypeSettingsChangedId (bm_do c s) = bm_breakTypeSettingsChangedId s"
  "bm_breakLastEnd (bm_do c s) = bm_breakLastEnd s"
  "bm_idleWatchId (bm_do c s) = bm_idleWatchId s"
  "bm_activeWatchId (bm_do c s) = bm_activeWatchId s"
  "bm_timerId (bm_do c s) = bm_timerId s"
  "bm_currentBreakType (bm_do c s) = bm_currentBreakType s"
  "bm_currentBreakStartTime (bm_do c s) = bm_currentBreakStartTime s"
  "bm_idleState (bm_do c s) = bm_idleState s"
  "bm_idleStartTime (bm_do c s) = bm_idleStartTime s"
  "bm_trace (bm_do c s) = bm_trace s @ [Call c]"
  by (simp_all add: bm_do_def)

lemma slot_ok_iff:
  "bm_slot.slot_ok s \<longleftrightarrow>
     sources (bm_trace s) = Some (if bm_timerId s = 0 then {} else {bm_timerId s})"
  by (simp add: bm_slot.slot_ok_def)

lemma slot_ok_do [simp]: "bm_slot.slot_ok (bm_do c s) = bm_slot.slot_ok s"
  by (simp add: slot_ok_iff)

text \<open>The slot does not see the other fields.\<close>

lemma slot_ok_cong:
  "bm_timerId s' = bm_timerId s \<Longrightarrow> bm_trace s' = bm_trace s \<Longrightarrow>
     bm_slot.slot_ok s' = bm_slot.slot_ok s"
  by (simp add: slot_ok_iff)

lemma slot_ok_fields [simp]:
  "bm_slot.slot_ok (s\<lparr>bm_state := a\<rparr>) = bm_slot.slot_ok s"
  "bm_slot.slot_ok (s\<lparr>bm_breakTypeSettings := b\<rparr>) = bm_slot.slot_ok s"
  "bm_slot.slot_ok (s\<lparr>bm_breakTypeSettingsChangedId := c\<rparr>) = bm_slot.slot_ok s"
  "bm_slot.slot_ok (s\<lparr>bm_breakLastEnd := d\<rparr>) = bm_slot.slot_ok s"
  "bm_slot.slot_ok (s\<lparr>bm_idleWatchId := e\<rparr>) = bm_slot.slot_ok s"
  "bm_slot.slot_ok (s\<lparr>bm_activeWatchId := e\<rparr>) = bm_slot.slot_ok s"
  "bm_slot.slot_ok (s\<lparr>bm_currentBreakType := f\<rparr>) = bm_slot.slot_ok s"
  "bm_slot.slot_ok (s\<lparr>bm_currentBreakStartTime := g\<rparr>) = bm_slot.slot_ok s"
  "bm_slot.slot_ok (s\<lparr>bm_idleState := h\<rparr>) = bm_slot.slot_ok s"
  "bm_slot.slot_ok (s\<lparr>bm_idleStartTime := g\<rparr>) = bm_slot.slot_ok s"
  by (simp_all add: slot_ok_iff)

subsection \<open>The invariant\<close>

definition bm_keys_ok :: "bm \<Rightarrow> bool" where
  "bm_keys_ok s \<longleftrightarrow>
     jm_keys (bm_breakTypeSettingsChangedId s) = jm_keys (bm_breakTypeSettings s)
     \<and> jm_keys (bm_breakLastEnd s) = jm_keys (bm_breakTypeSettings s)
     \<and> distinct (jm_keys (bm_breakTypeSettings s))
     \<and> set (jm_keys (bm_breakTypeSettings s)) \<subseteq> set SUPPORTED_BREAK_TYPES
     \<and> (\<forall>(bt, h) \<in> set (bm_breakTypeSettings s). h = bt)"

definition bm_watch_ok :: "bm \<Rightarrow> bool" where
  "bm_watch_ok s \<longleftrightarrow>
     watches (bm_trace s) = Some ({bm_idleWatchId s, bm_activeWatchId s} - {0})
     \<and> (bm_idleWatchId s = 0 \<or> bm_idleWatchId s \<noteq> bm_activeWatchId s)"

definition bm_handlers_ok :: "bm \<Rightarrow> bool" where
  "bm_handlers_ok s \<longleftrightarrow>
     handlers (bm_trace s) = Some (set (map snd (bm_breakTypeSettingsChangedId s)))
     \<and> distinct (map snd (bm_breakTypeSettingsChangedId s))"

definition bm_state_ok :: "bm \<Rightarrow> bool" where
  "bm_state_ok s \<longleftrightarrow>
     (if bm_state s = BS_DISABLED
      then bm_breakTypeSettings s = [] \<and> bm_idleWatchId s = 0 \<and> bm_activeWatchId s = 0
        \<and> bm_timerId s = 0 \<and> bm_idleState s = Idle_ACTIVE \<and> bm_idleStartTime s = 0
      else bm_idleWatchId s \<noteq> 0
        \<and> (bm_activeWatchId s \<noteq> 0 \<longleftrightarrow> bm_idleState s = Idle_IDLE)
        \<and> (bm_idleState s = Idle_IDLE \<longrightarrow> bm_state s \<in> {BS_IDLE, BS_IN_BREAK})
        \<and> (bm_idleState s = Idle_ACTIVE \<longrightarrow> bm_idleStartTime s = 0))"

definition bm_inv :: "bm \<Rightarrow> bool" where
  "bm_inv s \<longleftrightarrow> bm_keys_ok s \<and> bm_slot.slot_ok s \<and> bm_watch_ok s \<and> bm_handlers_ok s \<and> bm_state_ok s"

text \<open>Each part of the invariant sees only its own fields.\<close>

lemma bm_keys_ok_frame [simp]:
  "bm_keys_ok (s\<lparr>bm_state := a\<rparr>) = bm_keys_ok s"
  "bm_keys_ok (s\<lparr>bm_idleWatchId := e\<rparr>) = bm_keys_ok s"
  "bm_keys_ok (s\<lparr>bm_activeWatchId := e\<rparr>) = bm_keys_ok s"
  "bm_keys_ok (s\<lparr>bm_timerId := e\<rparr>) = bm_keys_ok s"
  "bm_keys_ok (s\<lparr>bm_currentBreakType := f\<rparr>) = bm_keys_ok s"
  "bm_keys_ok (s\<lparr>bm_currentBreakStartTime := g\<rparr>) = bm_keys_ok s"
  "bm_keys_ok (s\<lparr>bm_idleState := h\<rparr>) = bm_keys_ok s"
  "bm_keys_ok (s\<lparr>bm_idleStartTime := g\<rparr>) = bm_keys_ok s"
  "bm_keys_ok (s\<lparr>bm_trace := tr\<rparr>) = bm_keys_ok s"
  "bm_keys_ok (bm_do c s) = bm_keys_ok s"
  "bm_keys_ok (timerFired s) = bm_keys_ok s"
  by (simp_all add: bm_keys_ok_def bm_do_def timerFired_def)

lemma bm_watch_ok_frame [simp]:
  "bm_watch_ok (s\<lparr>bm_state := a\<rparr>) = bm_watch_ok s"
  "bm_watch_ok (s\<lparr>bm_breakTypeSettings := b\<rparr>) = bm_watch_ok s"
  "bm_watch_ok (s\<lparr>bm_breakTypeSettingsChangedId := b'\<rparr>) = bm_watch_ok s"
  "bm_watch_ok (s\<lparr>bm_breakLastEnd := d\<rparr>) = bm_watch_ok s"
  "bm_watch_ok (s\<lparr>bm_currentBreakType := f\<rparr>) = bm_watch_ok s"
  "bm_watch_ok (s\<lparr>bm_currentBreakStartTime := g\<rparr>) = bm_watch_ok s"
  "bm_watch_ok (s\<lparr>bm_idleState := h\<rparr>) = bm_watch_ok s"
  "bm_watch_ok (s\<lparr>bm_idleStartTime := g\<rparr>) = bm_watch_ok s"
  "watch_event (Call c) = [] \<Longrightarrow> bm_watch_ok (bm_do c s) = bm_watch_ok s"
  "bm_watch_ok (timerFired s) = bm_watch_ok s"
  by (simp_all add: bm_watch_ok_def timerFired_def)

lemma bm_handlers_ok_frame [simp]:
  "bm_handlers_ok (s\<lparr>bm_state := a\<rparr>) = bm_handlers_ok s"
  "bm_handlers_ok (s\<lparr>bm_breakTypeSettings := b\<rparr>) = bm_handlers_ok s"
  "bm_handlers_ok (s\<lparr>bm_breakLastEnd := d\<rparr>) = bm_handlers_ok s"
  "bm_handlers_ok (s\<lparr>bm_idleWatchId := e\<rparr>) = bm_handlers_ok s"
  "bm_handlers_ok (s\<lparr>bm_activeWatchId := e\<rparr>) = bm_handlers_ok s"
  "bm_handlers_ok (s\<lparr>bm_currentBreakType := f\<rparr>) = bm_handlers_ok s"
  "bm_handlers_ok (s\<lparr>bm_currentBreakStartTime := g\<rparr>) = bm_handlers_ok s"
  "bm_handlers_ok (s\<lparr>bm_idleState := h\<rparr>) = bm_handlers_ok s"
  "bm_handlers_ok (s\<lparr>bm_idleStartTime := g\<rparr>) = bm_handlers_ok s"
  "handler_event (Call c) = [] \<Longrightarrow> bm_handlers_ok (bm_do c s) = bm_handlers_ok s"
  "bm_handlers_ok (timerFired s) = bm_handlers_ok s"
  by (simp_all add: bm_handlers_ok_def timerFired_def)

lemma timerFired_fields [simp]:
  "bm_state (timerFired s) = bm_state s" "bm_timerId (timerFired s) = 0"
  "bm_idleWatchId (timerFired s) = bm_idleWatchId s"
  "bm_activeWatchId (timerFired s) = bm_activeWatchId s"
  "bm_idleState (timerFired s) = bm_idleState s"
  "bm_idleStartTime (timerFired s) = bm_idleStartTime s"
  "bm_breakTypeSettings (timerFired s) = bm_breakTypeSettings s"
  "bm_breakLastEnd (timerFired s) = bm_breakLastEnd s"
  by (simp_all add: timerFired_def)

text \<open>Under the invariant the lookups of the code never miss.\<close>

lemma bm_keys_okD:
  assumes "bm_keys_ok s"
  shows "jm_keys (bm_breakTypeSettingsChangedId s) = jm_keys (bm_breakTypeSettings s)"
    and "jm_keys (bm_breakLastEnd s) = jm_keys (bm_breakTypeSettings s)"
    and "distinct (jm_keys (bm_breakTypeSettings s))"
    and "(bt, h) \<in> set (bm_breakTypeSettings s) \<Longrightarrow> h = bt"
  using assms unfolding bm_keys_ok_def by blast+

lemma bm_inv_last_end:
  assumes ok: "bm_keys_ok s" and mem: "bt \<in> set (jm_keys (bm_breakTypeSettings s))"
  shows "jm_get (bm_breakLastEnd s) bt \<noteq> None"
    and "jm_get (bm_breakTypeSettingsChangedId s) bt \<noteq> None"
    and "jm_get (bm_breakTypeSettings s) bt = Some bt"
proof -
  have "bt \<in> set (jm_keys (bm_breakLastEnd s))" "bt \<in> set (jm_keys (bm_breakTypeSettingsChangedId s))"
    using mem by (simp_all only: bm_keys_okD(1,2) [OF ok])
  then show "jm_get (bm_breakLastEnd s) bt \<noteq> None"
    and "jm_get (bm_breakTypeSettingsChangedId s) bt \<noteq> None"
    by (simp_all only: jm_get_iff_key not_not simp_thms)
  obtain h where "(bt, h) \<in> set (bm_breakTypeSettings s)" using mem by auto
  moreover from this have "h = bt" by (rule bm_keys_okD(4) [OF ok])
  ultimately show "jm_get (bm_breakTypeSettings s) bt = Some bt"
    by (intro map_of_is_SomeI bm_keys_okD(3) [OF ok]) simp
qed

subsection \<open>\<open>_updateState\<close> keeps it\<close>

lemma enterState_frame [simp]:
  "bm_state (enterState st bt t s) = st"
  "bm_currentBreakType (enterState st bt t s) = bt"
  "bm_currentBreakStartTime (enterState st bt t s) = t"
  "bm_breakTypeSettings (enterState st bt t s) = bm_breakTypeSettings s"
  "bm_breakTypeSettingsChangedId (enterState st bt t s) = bm_breakTypeSettingsChangedId s"
  "bm_breakLastEnd (enterState st bt t s) = bm_breakLastEnd s"
  "bm_idleWatchId (enterState st bt t s) = bm_idleWatchId s"
  "bm_activeWatchId (enterState st bt t s) = bm_activeWatchId s"
  "bm_timerId (enterState st bt t s) = bm_timerId s"
  "bm_idleState (enterState st bt t s) = bm_idleState s"
  "bm_idleStartTime (enterState st bt t s) = bm_idleStartTime s"
  "bm_trace (enterState st bt t s) = bm_trace s @ [Call NotifyState]"
  "bm_slot.slot_ok (enterState st bt t s) = bm_slot.slot_ok s"
  by (simp_all add: enterState_def)

lemma creditIdleTime_frame [simp]:
  "bm_state (creditIdleTime env t s) = bm_state s"
  "bm_breakTypeSettings (creditIdleTime env t s) = bm_breakTypeSettings s"
  "bm_breakTypeSettingsChangedId (creditIdleTime env t s) = bm_breakTypeSettingsChangedId s"
  "bm_idleWatchId (creditIdleTime env t s) = bm_idleWatchId s"
  "bm_activeWatchId (creditIdleTime env t s) = bm_activeWatchId s"
  "bm_timerId (creditIdleTime env t s) = bm_timerId s"
  "bm_idleState (creditIdleTime env t s) = bm_idleState s"
  "bm_idleStartTime (creditIdleTime env t s) = 0"
  "watches (bm_trace (creditIdleTime env t s)) = watches (bm_trace s)"
  "handlers (bm_trace (creditIdleTime env t s)) = handlers (bm_trace s)"
  "bm_slot.slot_ok (creditIdleTime env t s) = bm_slot.slot_ok s"
  by (simp_all add: creditIdleTime_def)

lemma idleBreak_frame [simp]:
  "bm_breakTypeSettings (snd (snd (idleBreak env t s))) = bm_breakTypeSettings s"
  "bm_breakTypeSettingsChangedId (snd (snd (idleBreak env t s))) = bm_breakTypeSettingsChangedId s"
  "bm_breakLastEnd (snd (snd (idleBreak env t s))) = bm_breakLastEnd s"
  "bm_state (snd (snd (idleBreak env t s))) = bm_state s"
  "bm_currentBreakType (snd (snd (idleBreak env t s))) = bm_currentBreakType s"
  "bm_currentBreakStartTime (snd (snd (idleBreak env t s))) = bm_currentBreakStartTime s"
  "bm_idleWatchId (snd (snd (idleBreak env t s))) = bm_idleWatchId s"
  "bm_activeWatchId (snd (snd (idleBreak env t s))) = bm_activeWatchId s"
  "bm_idleState (snd (snd (idleBreak env t s))) = bm_idleState s"
  "bm_idleStartTime (snd (snd (idleBreak env t s))) = bm_idleStartTime s"
  "watches (bm_trace (snd (snd (idleBreak env t s)))) = watches (bm_trace s)"
  "handlers (bm_trace (snd (snd (idleBreak env t s)))) = handlers (bm_trace s)"
  by (simp_all add: idleBreak_def Let_def split_def)

lemmas updateState_defs =
  updateState_def updateState_idle_def updateState_active_def Let_def split_def

lemma fold_keys_same:
  assumes "\<And>x le. x \<in> set types \<Longrightarrow> fst x \<in> set (jm_keys le) \<Longrightarrow> jm_keys (f x le) = jm_keys le"
    and "set (jm_keys types) \<subseteq> set (jm_keys lastEnd)"
  shows "jm_keys (fold f types lastEnd) = jm_keys lastEnd"
proof -
  have "set xs \<subseteq> set types \<Longrightarrow> jm_keys le = jm_keys lastEnd \<Longrightarrow>
      jm_keys (fold f xs le) = jm_keys lastEnd" for xs le
  proof (induction xs arbitrary: le)
    case Nil
    then show ?case by simp
  next
    case (Cons x xs)
    have "fst x \<in> set (jm_keys types)" using Cons.prems(1) by auto
    then have "fst x \<in> set (jm_keys le)" using assms(2) Cons.prems(2) by auto
    then have "jm_keys (f x le) = jm_keys lastEnd"
      using Cons.prems assms(1) by (metis list.set_intros(1) subsetD)
    with Cons show ?case by simp
  qed
  then show ?thesis by blast
qed

lemma jm_keys_set_mem: "k \<in> set (jm_keys m) \<Longrightarrow> jm_keys (jm_set m k v) = jm_keys m"
  by (simp only: jm_keys_set if_True)

lemma resetBreakEnds_keys:
  "set (jm_keys types) \<subseteq> set (jm_keys le) \<Longrightarrow> jm_keys (resetBreakEnds cfg types d t le) = jm_keys le"
  unfolding resetBreakEnds_def by (rule fold_keys_same) (simp_all add: jm_keys_set_mem split_def)

lemma delayEnds_keys:
  "set (jm_keys types) \<subseteq> set (jm_keys le) \<Longrightarrow> jm_keys (delayEnds cfg t types le) = jm_keys le"
  unfolding delayEnds_def by (rule fold_keys_same) (simp_all add: jm_keys_set_mem split_def)

lemma skipEnds_keys:
  "set (jm_keys types) \<subseteq> set (jm_keys le) \<Longrightarrow> jm_keys (skipEnds cfg t types le) = jm_keys le"
  unfolding skipEnds_def by (rule fold_keys_same) (simp_all add: jm_keys_set_mem split_def)

lemma creditIdleTime_keys [simp]:
  "bm_keys_ok s \<Longrightarrow> jm_keys (bm_breakLastEnd (creditIdleTime env t s)) = jm_keys (bm_breakLastEnd s)"
  by (simp add: creditIdleTime_def bm_keys_ok_def resetBreakEnds_keys)

lemma updateState_frame [simp]:
  "bm_breakTypeSettings (updateState env t s) = bm_breakTypeSettings s"
  "bm_breakTypeSettingsChangedId (updateState env t s) = bm_breakTypeSettingsChangedId s"
  "bm_idleWatchId (updateState env t s) = bm_idleWatchId s"
  "bm_activeWatchId (updateState env t s) = bm_activeWatchId s"
  "bm_idleState (updateState env t s) = bm_idleState s"
  "watches (bm_trace (updateState env t s)) = watches (bm_trace s)"
  "handlers (bm_trace (updateState env t s)) = handlers (bm_trace s)"
  by (simp_all add: updateState_defs split: idle_state.split)

lemma updateState_keys:
  assumes "bm_keys_ok s"
  shows "bm_keys_ok (updateState env t s)"
proof -
  have "bm_keys_ok (bm_do FreezeNotify s)" using assms by (simp add: bm_keys_ok_def)
  then have "jm_keys (bm_breakLastEnd (updateState env t s)) = jm_keys (bm_breakLastEnd s)"
    by (simp add: updateState_defs split: idle_state.split)
  with assms show ?thesis by (simp add: bm_keys_ok_def)
qed

lemma idleBreak_slot:
  "fresh_env env \<Longrightarrow> bm_slot.slot_ok s \<Longrightarrow> bm_slot.slot_ok (snd (snd (idleBreak env t s)))"
  by (simp add: idleBreak_def Let_def split_def fresh_env_def bm_slot.schedule_ok)

lemma updateState_slot:
  "fresh_env env \<Longrightarrow> bm_slot.slot_ok s \<Longrightarrow> bm_slot.slot_ok (updateState env t s)"
  using idleBreak_slot [of env s t]
  by (simp add: updateState_defs fresh_env_def bm_slot.schedule_ok split: idle_state.split)

lemma updateState_idle_state:
  "bm_state (updateState_idle env t s) = BS_IDLE \<or> bm_state (updateState_idle env t s) = BS_IN_BREAK"
  by (simp add: updateState_defs)

lemma updateState_active_idleStart [simp]: "bm_idleStartTime (updateState_active env t s) = 0"
  by (simp add: updateState_defs)

lemma updateState_not_disabled:
  "bm_state s \<noteq> BS_DISABLED \<Longrightarrow> bm_state (updateState env t s) \<noteq> BS_DISABLED"
  by (simp add: updateState_defs split: idle_state.split)

text \<open>
  What the callers of \<open>_updateState\<close> establish first: everything but the agreement of the
  public state with the idle state, which \<open>_updateState\<close> restores.
\<close>

definition bm_pre :: "bm \<Rightarrow> bool" where
  "bm_pre s \<longleftrightarrow> bm_keys_ok s \<and> bm_slot.slot_ok s \<and> bm_watch_ok s \<and> bm_handlers_ok s
     \<and> bm_state s \<noteq> BS_DISABLED \<and> bm_idleWatchId s \<noteq> 0
     \<and> (bm_activeWatchId s \<noteq> 0 \<longleftrightarrow> bm_idleState s = Idle_IDLE)"

lemma updateState_inv:
  assumes "fresh_env env" and "bm_pre s"
  shows "bm_inv (updateState env t s)"
proof -
  from assms have "bm_keys_ok (updateState env t s)" "bm_slot.slot_ok (updateState env t s)"
    by (simp_all add: bm_pre_def updateState_keys updateState_slot)
  moreover from assms have "bm_watch_ok (updateState env t s)" "bm_handlers_ok (updateState env t s)"
    by (auto simp: bm_pre_def bm_watch_ok_def bm_handlers_ok_def)
  moreover have "bm_state_ok (updateState env t s)"
  proof (cases "bm_idleState s")
    case Idle_ACTIVE
    then have "bm_idleStartTime (updateState env t s) = 0" by (simp add: updateState_def)
    with Idle_ACTIVE assms(2) show ?thesis
      using updateState_not_disabled [of s env t] by (auto simp: bm_pre_def bm_state_ok_def)
  next
    case Idle_IDLE
    then have "bm_state (updateState env t s) = BS_IDLE \<or> bm_state (updateState env t s) = BS_IN_BREAK"
      using updateState_idle_state [of env t s] by (simp add: updateState_def)
    with Idle_IDLE assms(2) show ?thesis
      by (auto simp: bm_pre_def bm_state_ok_def)
  qed
  ultimately show ?thesis by (simp add: bm_inv_def)
qed

lemma bm_inv_pre: "bm_inv s \<Longrightarrow> bm_state s \<noteq> BS_DISABLED \<Longrightarrow> bm_pre s"
  by (simp add: bm_inv_def bm_pre_def bm_state_ok_def)

lemma bm_pre_do:
  "watch_event (Call c) = [] \<Longrightarrow> handler_event (Call c) = [] \<Longrightarrow> bm_pre (bm_do c s) = bm_pre s"
  by (simp add: bm_pre_def)

lemma bm_inv_do:
  "watch_event (Call c) = [] \<Longrightarrow> handler_event (Call c) = [] \<Longrightarrow> bm_inv (bm_do c s) = bm_inv s"
  by (simp add: bm_inv_def bm_state_ok_def)

lemma bm_pre_lastEnd:
  "bm_pre s \<Longrightarrow> jm_keys le = jm_keys (bm_breakLastEnd s) \<Longrightarrow> bm_pre (s\<lparr>bm_breakLastEnd := le\<rparr>)"
  by (simp add: bm_pre_def bm_keys_ok_def)

subsection \<open>The callbacks and the user's answers keep it\<close>

lemma bm_inv_disabledD:
  "bm_inv s \<Longrightarrow> bm_state s = BS_DISABLED \<Longrightarrow>
     bm_breakTypeSettings s = [] \<and> bm_breakTypeSettingsChangedId s = [] \<and> bm_breakLastEnd s = []
     \<and> bm_idleWatchId s = 0 \<and> bm_activeWatchId s = 0 \<and> bm_timerId s = 0"
  by (auto simp: bm_inv_def bm_state_ok_def bm_keys_ok_def)

lemma onTimer_inv:
  assumes env: "fresh_env env" and inv: "bm_inv s" and t: "bm_timerId s \<noteq> 0"
  shows "bm_inv (onTimer env s)"
proof -
  have "bm_state s \<noteq> BS_DISABLED" using bm_inv_disabledD [OF inv] t by blast
  with inv have pre: "bm_pre s" by (rule bm_inv_pre)
  then have "bm_slot.slot_ok (timerFired s)"
    using t by (simp add: bm_pre_def bm_slot.fired_ok)
  with pre have "bm_pre (timerFired s)" by (simp add: bm_pre_def)
  with env show ?thesis unfolding onTimer_def by (rule updateState_inv)
qed

lemma watch_ok_add_active:
  "bm_watch_ok s \<Longrightarrow> bm_activeWatchId s = 0 \<Longrightarrow> bm_idleWatchId s \<noteq> 0 \<Longrightarrow> i \<noteq> 0 \<Longrightarrow>
     i \<noteq> bm_idleWatchId s \<Longrightarrow>
     bm_watch_ok (bm_do (ActiveWatchAdd i) (s\<lparr>bm_activeWatchId := i\<rparr>))"
  by (auto simp: bm_watch_ok_def)

lemma onIdleWatch_inv:
  assumes env: "fresh_env env" and inv: "bm_inv s" and w: "bm_idleWatchId s \<noteq> 0"
  shows "bm_inv (onIdleWatch env s)"
proof -
  have "bm_state s \<noteq> BS_DISABLED" using bm_inv_disabledD [OF inv] w by blast
  with inv have pre: "bm_pre s" by (rule bm_inv_pre)
  then have ok: "bm_watch_ok s" by (simp add: bm_pre_def)
  define i where "i = be_watch_id env (bm_trace s)"
  define s1 where "s1 = (if bm_activeWatchId s = 0
      then bm_do (ActiveWatchAdd i) (s\<lparr>bm_activeWatchId := i\<rparr>) else s)"
  have i0: "i \<noteq> 0" using env by (simp add: i_def fresh_env_def)
  have "i \<noteq> bm_idleWatchId s" if "bm_activeWatchId s = 0"
  proof -
    have "watches (bm_trace s) = Some {bm_idleWatchId s}"
      using ok w that by (auto simp: bm_watch_ok_def)
    then show ?thesis using env by (auto simp: i_def fresh_env_def)
  qed
  then have "bm_watch_ok s1" using ok w i0 watch_ok_add_active [of s i] by (simp add: s1_def)
  then have "bm_pre (s1\<lparr>bm_idleState := Idle_IDLE,
      bm_idleStartTime := be_time env - real MIN_BREAK_LENGTH_SECONDS\<rparr>)"
    using pre i0 by (simp add: bm_pre_def s1_def)
  moreover have "onIdleWatch env s = updateState env (be_time env) (s1\<lparr>bm_idleState := Idle_IDLE,
      bm_idleStartTime := be_time env - real MIN_BREAK_LENGTH_SECONDS\<rparr>)"
    by (simp add: onIdleWatch_def s1_def i_def Let_def)
  ultimately show ?thesis using updateState_inv [OF env] by (simp only:)
qed

lemma onUserActiveWatch_inv:
  assumes env: "fresh_env env" and inv: "bm_inv s" and w: "bm_activeWatchId s \<noteq> 0"
  shows "bm_inv (onUserActiveWatch env s)"
proof -
  have "bm_state s \<noteq> BS_DISABLED" using bm_inv_disabledD [OF inv] w by blast
  with inv have pre: "bm_pre s" by (rule bm_inv_pre)
  then have ok: "bm_watch_ok s" "bm_idleWatchId s \<noteq> 0" by (simp_all add: bm_pre_def)
  then have "watches (bm_trace s) = Some {bm_idleWatchId s, bm_activeWatchId s}"
    and "bm_idleWatchId s \<noteq> bm_activeWatchId s"
    using w by (auto simp: bm_watch_ok_def)
  then have "bm_watch_ok ((bm_do (WatchRemove (bm_activeWatchId s)) s)\<lparr>bm_activeWatchId := 0\<rparr>)"
    using ok(2) by (auto simp: bm_watch_ok_def)
  with pre have "bm_pre ((bm_do (WatchRemove (bm_activeWatchId s)) s)
      \<lparr>bm_activeWatchId := 0, bm_idleState := Idle_ACTIVE\<rparr>)"
    by (simp add: bm_pre_def)
  with env show ?thesis unfolding onUserActiveWatch_def by (rule updateState_inv)
qed

lemma delay_skip_inv:
  assumes "fresh_env env" and "bm_inv s" and "bm_state s \<noteq> BS_DISABLED"
    and "jm_keys le = jm_keys (bm_breakLastEnd s)"
  shows "bm_inv (bm_do ThawNotify (updateState env t (bm_do NotifyLastBreakEndTime
           (bm_do NotifyNextBreakDueTime (bm_do FreezeNotify (s\<lparr>bm_breakLastEnd := le\<rparr>))))))"
proof -
  have "bm_pre (bm_do NotifyLastBreakEndTime (bm_do NotifyNextBreakDueTime
      (bm_do FreezeNotify (s\<lparr>bm_breakLastEnd := le\<rparr>))))"
    using assms by (simp only: bm_pre_do watch_event.simps handler_event.simps)
      (intro bm_pre_lastEnd bm_inv_pre)
  from updateState_inv [OF assms(1) this] show ?thesis by (simp only: bm_inv_do watch_event.simps handler_event.simps)
qed

lemma bm_inv_types_subset:
  "bm_inv s \<Longrightarrow> set (jm_keys (bm_breakTypeSettings s)) \<subseteq> set (jm_keys (bm_breakLastEnd s))"
proof -
  assume "bm_inv s"
  then have "bm_keys_ok s" by (simp add: bm_inv_def)
  then show ?thesis by (simp only: bm_keys_okD(2) order_refl)
qed

lemma delayBreak_inv: "fresh_env env \<Longrightarrow> bm_inv s \<Longrightarrow> bm_inv (delayBreak env s)"
  unfolding delayBreak_def Let_def
  using delay_skip_inv [OF _ _ _ delayEnds_keys [OF bm_inv_types_subset]] by simp

lemma skipBreak_inv: "fresh_env env \<Longrightarrow> bm_inv s \<Longrightarrow> bm_inv (skipBreak env s)"
  unfolding skipBreak_def Let_def
  using delay_skip_inv [OF _ _ _ skipEnds_keys [OF bm_inv_types_subset]] by simp

lemma takeBreak_inv: "bm_inv s \<Longrightarrow> bm_inv (takeBreak s)"
  by (simp add: takeBreak_def bm_inv_do)

subsection \<open>Starting, stopping and the settings keep it\<close>

lemma startStateMachine_inv:
  assumes env: "fresh_env env" and keys: "bm_keys_ok s" and h: "bm_handlers_ok s"
    and slot: "bm_slot.slot_ok s" and w: "watches (bm_trace s) = Some {}"
    and act: "bm_activeWatchId s = 0"
  shows "bm_inv (startStateMachine env s)"
proof -
  let ?i = "be_watch_id env (bm_trace s)"
  have i: "?i \<noteq> 0" using env by (simp add: fresh_env_def)
  have "bm_watch_ok (bm_do (IdleWatchAdd ?i t) (s\<lparr>bm_idleWatchId := ?i\<rparr>))" for t
    using i w act by (auto simp: bm_watch_ok_def)
  then have "bm_pre ((bm_do (IdleWatchAdd ?i (int MIN_BREAK_LENGTH_SECONDS * 1000))
        (s\<lparr>bm_idleWatchId := ?i\<rparr>))
      \<lparr>bm_state := BS_ACTIVE, bm_currentBreakType := None, bm_currentBreakStartTime := 0,
       bm_idleState := Idle_ACTIVE, bm_idleStartTime := 0\<rparr>)"
    using i keys h slot act by (simp add: bm_pre_def)
  with env show ?thesis unfolding startStateMachine_def Let_def by (rule updateState_inv)
qed

text \<open>The disconnections of \<open>_stopStateMachine\<close>.\<close>

lemma disconnect_all_frame:
  fixes s :: bm
  defines "d \<equiv> (\<lambda>(bt, h :: string) u. bm_do (SettingsDisconnect bt (jm_get (bm_breakTypeSettingsChangedId u) bt)) u)"
  shows "fold d types s = s\<lparr>bm_trace := bm_trace s
    @ map (\<lambda>(bt, h). Call (SettingsDisconnect bt (jm_get (bm_breakTypeSettingsChangedId s) bt))) types\<rparr>"
proof (induction types arbitrary: s)
  case Nil
  then show ?case by simp
next
  case (Cons x types)
  show ?case unfolding fold_Cons comp_def Cons.IH
    by (cases x) (simp add: d_def bm_do_def)
qed

lemma handlers_disconnect:
  assumes "distinct (map snd ids)" and "distinct (map fst ids)"
  shows "map fst types = map fst ids \<Longrightarrow>
    fold source_step (concat (map handler_event
      (map (\<lambda>(bt, h). Call (SettingsDisconnect bt (jm_get ids bt))) types)))
      (Some (set (map snd ids))) = Some {}"
  using assms
proof (induction ids arbitrary: types)
  case Nil
  then show ?case by simp
next
  case (Cons p ids)
  obtain k i where p: "p = (k, i)" by fastforce
  with Cons.prems(1) obtain h ty where ty: "types = (k, h) # ty" "map fst ty = map fst ids"
    by (cases types) auto
  have k: "k \<notin> set (map fst ids)" using Cons.prems p by simp
  have i: "i \<notin> snd ` set ids" using Cons.prems p by simp
  have eq: "map (\<lambda>(bt, h). Call (SettingsDisconnect bt (jm_get (p # ids) bt))) ty
      = map (\<lambda>(bt, h). Call (SettingsDisconnect bt (jm_get ids bt))) ty"
  proof (rule map_cong [OF refl])
    fix x assume "x \<in> set ty"
    then have "fst x \<in> set (map fst ty)" by auto
    then have "fst x \<in> set (map fst ids)" using ty(2) by simp
    then have "fst x \<noteq> k" using k by auto
    then show "(\<lambda>(bt, h). Call (SettingsDisconnect bt (jm_get (p # ids) bt))) x
       = (\<lambda>(bt, h). Call (SettingsDisconnect bt (jm_get ids bt))) x"
      using p by (cases x) simp
  qed
  have "insert i (snd ` set ids) - {i} = snd ` set ids" using i by blast
  moreover have "fold source_step (concat (map handler_event
      (map (\<lambda>(bt, h). Call (SettingsDisconnect bt (jm_get ids bt))) ty)))
      (Some (set (map snd ids))) = Some {}"
    using Cons.IH [OF ty(2)] Cons.prems p by simp
  ultimately show ?case
    unfolding ty(1) list.map eq by (simp add: p)
qed

lemma stop_calls:
  fixes f :: "nat \<Rightarrow> nat option"
  defines "calls ids \<equiv> map (\<lambda>(bt, h :: string). Call (SettingsDisconnect bt (jm_get ids bt)))"
  shows "fold source_step (calls ids types) S = S"
    and "fold source_step (concat (map watch_event (calls ids types))) S = S"
  by (induction types) (auto simp: calls_def)

lemma stopStateMachine_inv:
  assumes inv: "bm_inv s"
  shows "bm_inv (stopStateMachine s)"
proof -
  let ?ids = "bm_breakTypeSettingsChangedId s"
  define calls where "calls = map (\<lambda>(bt, h). Call (SettingsDisconnect bt (jm_get ?ids bt)))
     (bm_breakTypeSettings s)"
  define w where "w = (if bm_idleWatchId s \<noteq> 0 then [Call (WatchRemove (bm_idleWatchId s))] else [])
     @ (if bm_activeWatchId s \<noteq> 0 then [Call (WatchRemove (bm_activeWatchId s))] else [])"
  define c :: "bm_call trace" where "c = cancel_calls (bm_timerId s)"
  let ?tr = "bm_trace s @ w @ c @ calls @ [Call NotifyState]"
  have stop: "stopStateMachine s = s\<lparr>bm_breakTypeSettings := [], bm_breakTypeSettingsChangedId := [],
      bm_breakLastEnd := [], bm_idleWatchId := 0, bm_activeWatchId := 0, bm_timerId := 0,
      bm_state := BS_DISABLED, bm_currentBreakType := None, bm_currentBreakStartTime := 0,
      bm_idleState := Idle_ACTIVE, bm_idleStartTime := 0, bm_trace := ?tr\<rparr>"
    unfolding stopStateMachine_def Let_def disconnect_all_frame
    by (simp add: w_def c_def calls_def cancel_calls_def bm_do_def)
  have parts: "bm_keys_ok s" "bm_slot.slot_ok s" "bm_watch_ok s" "bm_handlers_ok s"
    using inv by (simp_all add: bm_inv_def)
  have "fold source_step w S = S" for S by (simp add: w_def)
  then have "sources ?tr = Some {}"
    using bm_slot.slot_ok_cancel [OF parts(2)] by (simp add: stop_calls calls_def c_def)
  moreover have "watches ?tr = Some {}"
  proof -
    have "fold source_step (concat (map watch_event calls)) S = S" for S
      unfolding calls_def by (rule stop_calls)
    then show ?thesis
      using parts(3) by (auto simp: w_def c_def cancel_calls_def bm_watch_ok_def)
  qed
  moreover have "handlers ?tr = Some {}"
  proof -
    have "distinct (map fst ?ids)" "map fst (bm_breakTypeSettings s) = map fst ?ids"
      using bm_keys_okD(1,3) [OF parts(1)] by simp_all
    moreover have "handlers (bm_trace s) = Some (set (map snd ?ids))" "distinct (map snd ?ids)"
      using parts(4) by (simp_all add: bm_handlers_ok_def)
    moreover have "fold source_step (concat (map handler_event w)) S = S"
      "fold source_step (concat (map handler_event c)) S = S" for S
      by (simp_all add: w_def c_def cancel_calls_def)
    ultimately show ?thesis
      using handlers_disconnect [of ?ids "bm_breakTypeSettings s", folded calls_def] by simp
  qed
  ultimately show ?thesis
    unfolding stop bm_inv_def
    by (simp add: bm_keys_ok_def slot_ok_iff bm_watch_ok_def bm_handlers_ok_def bm_state_ok_def
        del: append_assoc sources_append watches_append handlers_append)
qed

text \<open>One supported break type enabled or disabled.\<close>

lemma updateBreakType_frame [simp]:
  "bm_state (updateBreakType env bt s) = bm_state s"
  "bm_idleWatchId (updateBreakType env bt s) = bm_idleWatchId s"
  "bm_activeWatchId (updateBreakType env bt s) = bm_activeWatchId s"
  "bm_timerId (updateBreakType env bt s) = bm_timerId s"
  "bm_idleState (updateBreakType env bt s) = bm_idleState s"
  "bm_idleStartTime (updateBreakType env bt s) = bm_idleStartTime s"
  "bm_slot.slot_ok (updateBreakType env bt s) = bm_slot.slot_ok s"
  "bm_watch_ok (updateBreakType env bt s) = bm_watch_ok s"
  "watches (bm_trace (updateBreakType env bt s)) = watches (bm_trace s)"
  by (simp_all add: updateBreakType_def Let_def)

lemma update_same_values:
  "\<forall>(k, h) \<in> set m. h = k \<Longrightarrow> \<forall>(k, h) \<in> set (jm_set m b b). h = k"
  by (induction m) (auto split: if_splits)

lemma updateBreakType_keys:
  assumes "bm_keys_ok s" and "bt \<in> set SUPPORTED_BREAK_TYPES"
  shows "bm_keys_ok (updateBreakType env bt s)"
proof -
  let ?f = "bm_breakTypeSettings s"
  have keys: "jm_keys (bm_breakTypeSettingsChangedId s) = jm_keys ?f"
    "jm_keys (bm_breakLastEnd s) = jm_keys ?f" "distinct (jm_keys ?f)"
    using assms(1) by (simp_all only: bm_keys_okD)
  have sub: "set (jm_keys ?f) \<subseteq> set SUPPORTED_BREAK_TYPES"
    and vals: "\<forall>(k, h) \<in> set ?f. h = k"
    using assms(1) by (simp_all add: bm_keys_ok_def)
  have set_keys: "jm_keys (jm_set m bt v) = jm_keys (jm_set ?f bt bt)"
    if "jm_keys m = jm_keys ?f" for m :: "(string, 'v) jsmap" and v
    by (simp only: jm_keys_set that)
  have del_keys: "jm_keys (jm_del m bt) = jm_keys (jm_del ?f bt)"
    if "jm_keys m = jm_keys ?f" for m :: "(string, 'v) jsmap"
    by (simp only: jm_keys_del that)
  have "\<forall>(k, h) \<in> set (jm_set ?f bt bt). h = k"
    using vals by (rule update_same_values)
  moreover have "distinct (jm_keys (jm_set ?f bt bt))" "distinct (jm_keys (jm_del ?f bt))"
    using keys(3) by (simp_all only: distinct_update distinct_delete)
  moreover have "set (jm_keys (jm_set ?f bt bt)) \<subseteq> set SUPPORTED_BREAK_TYPES"
    using sub assms(2) by (simp only: jm_keys_set) auto
  moreover have "set (jm_keys (jm_del ?f bt)) \<subseteq> set SUPPORTED_BREAK_TYPES"
    using sub by (simp only: jm_keys_del) auto
  moreover have "\<forall>(k, h) \<in> set (jm_del ?f bt). h = k"
    using vals by (auto simp: AList.delete_eq)
  ultimately show ?thesis
    using assms(1) set_keys [OF keys(1)] set_keys [OF keys(2)] del_keys [OF keys(1)] del_keys [OF keys(2)]
    unfolding updateBreakType_def Let_def bm_keys_ok_def by simp
qed


lemma updateBreakType_handlers:
  assumes env: "fresh_env env" and keys: "bm_keys_ok s" and h: "bm_handlers_ok s"
  shows "bm_handlers_ok (updateBreakType env bt s)"
proof -
  let ?ids = "bm_breakTypeSettingsChangedId s"
  let ?i = "be_handler_id env (bm_trace s)"
  have live: "handlers (bm_trace s) = Some (set (map snd ?ids))" and dist: "distinct (map snd ?ids)"
    using h by (simp_all add: bm_handlers_ok_def)
  have dk: "distinct (map fst ?ids)" and same: "set (jm_keys (bm_breakTypeSettings s)) = set (map fst ?ids)"
    using bm_keys_okD(1,3) [OF keys] by simp_all
  have has: "jm_get (bm_breakTypeSettings s) bt = None \<longleftrightarrow> bt \<notin> set (map fst ?ids)"
    by (simp only: jm_get_iff_key same)
  consider (enable) "bt \<in> set (be_selected env)" "bt \<notin> set (map fst ?ids)"
    | (disable) "bt \<notin> set (be_selected env)" "bt \<in> set (map fst ?ids)"
    | (same) "updateBreakType env bt s = s"
  proof (cases "bt \<in> set (be_selected env)"; cases "jm_get (bm_breakTypeSettings s) bt = None")
  qed (use has that in \<open>simp_all add: updateBreakType_def del: not_None_eq\<close>)
  then show ?thesis
  proof cases
    case enable
    then have "jm_set ?ids bt ?i = ?ids @ [(bt, ?i)]"
      by (simp add: jm_set_new)
    moreover have "?i \<notin> set (map snd ?ids)" using env live by (simp add: fresh_env_def)
    ultimately show ?thesis
      using enable has live dist
      by (simp add: updateBreakType_def Let_def bm_handlers_ok_def del: not_None_eq)
  next
    case disable
    then obtain i where i: "jm_get ?ids bt = Some i" by (metis jm_get_iff_key not_None_eq)
    have "set (map snd (jm_del ?ids bt)) = set (map snd ?ids) - {i}"
      "distinct (map snd (jm_del ?ids bt))"
      by (rule delete_values [OF dk dist i])+
    moreover have "i \<in> set (map snd ?ids)" using i by (force dest: map_of_SomeD)
    ultimately show ?thesis
      using disable has live i
      by (simp add: updateBreakType_def bm_handlers_ok_def del: not_None_eq)
  next
    case same
    with h show ?thesis by simp
  qed
qed

lemma updateBreakTypes_ok:
  assumes "fresh_env env" and "bm_keys_ok s" and "bm_handlers_ok s" and "set bts \<subseteq> set SUPPORTED_BREAK_TYPES"
  shows "bm_keys_ok (fold (updateBreakType env) bts s) \<and> bm_handlers_ok (fold (updateBreakType env) bts s)"
  using assms(2-4)
  by (induction bts arbitrary: s) (auto simp: updateBreakType_keys updateBreakType_handlers assms(1))

lemma updateBreakTypes_frame [simp]:
  "bm_state (fold (updateBreakType env) bts s) = bm_state s"
  "bm_idleWatchId (fold (updateBreakType env) bts s) = bm_idleWatchId s"
  "bm_activeWatchId (fold (updateBreakType env) bts s) = bm_activeWatchId s"
  "bm_idleState (fold (updateBreakType env) bts s) = bm_idleState s"
  "bm_idleStartTime (fold (updateBreakType env) bts s) = bm_idleStartTime s"
  "bm_slot.slot_ok (fold (updateBreakType env) bts s) = bm_slot.slot_ok s"
  "bm_watch_ok (fold (updateBreakType env) bts s) = bm_watch_ok s"
  "watches (bm_trace (fold (updateBreakType env) bts s)) = watches (bm_trace s)"
  by (induction bts arbitrary: s) simp_all

lemma updateSettings_inv:
  assumes env: "fresh_env env" and inv: "bm_inv s"
  shows "bm_inv (updateSettings env s)"
proof (cases "be_selected env = []")
  case True
  then show ?thesis by (simp add: updateSettings_def stopStateMachine_inv inv)
next
  case False
  define s1 where "s1 = fold (updateBreakType env) SUPPORTED_BREAK_TYPES s"
  define s2 where "s2 = bm_do NotifyNextBreakDueTime (bm_do FreezeNotify s1)"
  have "bm_keys_ok s1 \<and> bm_handlers_ok s1"
    unfolding s1_def using updateBreakTypes_ok [OF env] inv by (simp add: bm_inv_def)
  then have ok: "bm_keys_ok s2" "bm_handlers_ok s2" "bm_slot.slot_ok s2" "bm_watch_ok s2"
    using inv by (simp_all add: s2_def s1_def bm_inv_def)
  have "bm_inv (if bm_state s2 = BS_DISABLED then startStateMachine env s2
       else updateState env (be_time env) s2)"
  proof (cases "bm_state s = BS_DISABLED")
    case True
    then have "bm_idleWatchId s = 0" "bm_activeWatchId s = 0"
      using bm_inv_disabledD [OF inv] by simp_all
    moreover from this have "watches (bm_trace s2) = Some {}" "bm_activeWatchId s2 = 0"
      using ok(4) by (simp_all add: s2_def s1_def bm_watch_ok_def)
    ultimately show ?thesis
      using True startStateMachine_inv [OF env ok(1,2,3)] by (simp add: s2_def s1_def)
  next
    case False
    with inv have "bm_pre s" by (rule bm_inv_pre)
    then have "bm_pre s2" using ok by (simp add: bm_pre_def s2_def s1_def)
    then show ?thesis using False updateState_inv [OF env] by (simp add: s2_def s1_def)
  qed
  moreover have "updateSettings env s = bm_do ThawNotify (if bm_state s2 = BS_DISABLED
      then startStateMachine env s2 else updateState env (be_time env) s2)"
    using False by (simp add: updateSettings_def Let_def s2_def s1_def)
  ultimately show ?thesis by (simp only: bm_inv_do watch_event.simps handler_event.simps)
qed

lemma newBreakManager_inv: "fresh_env env \<Longrightarrow> bm_inv (newBreakManager env)"
  unfolding newBreakManager_def
  by (rule updateSettings_inv)
    (simp_all add: bm_inv_def bm_keys_ok_def slot_ok_iff bm_watch_ok_def bm_handlers_ok_def bm_state_ok_def
      sources_def watches_def handlers_def)

subsection \<open>Reachable states\<close>

text \<open>
  The ways into a break manager: a change of the selected breaks or of one type's settings,
  the idle monitor's two watches, the timer, and the user's answers. Each step has an
  environment of its own, so the clock and the settings may be anything at each step.
\<close>

inductive bm_step :: "bm_env \<Rightarrow> bm \<Rightarrow> bm \<Rightarrow> bool" for env where
  selected: "bm_step env s (updateSettings env s)"
| type_changed: "bm_breakTypeSettings s \<noteq> [] \<Longrightarrow> bm_step env s (updateState env (be_time env) s)"
| idle_watch: "bm_idleWatchId s \<noteq> 0 \<Longrightarrow> bm_step env s (onIdleWatch env s)"
| active_watch: "bm_activeWatchId s \<noteq> 0 \<Longrightarrow> bm_step env s (onUserActiveWatch env s)"
| timer: "bm_timerId s \<noteq> 0 \<Longrightarrow> bm_step env s (onTimer env s)"
| delay: "bm_step env s (delayBreak env s)"
| skip: "bm_step env s (skipBreak env s)"
| take: "bm_step env s (takeBreak s)"

inductive_cases bm_stepE: "bm_step env s s'"

inductive bm_reachable :: "bm \<Rightarrow> bool" where
  start: "fresh_env env \<Longrightarrow> bm_reachable (newBreakManager env)"
| step: "bm_reachable s \<Longrightarrow> fresh_env env \<Longrightarrow> bm_step env s s' \<Longrightarrow> bm_reachable s'"

lemma bm_step_inv: "bm_step env s s' \<Longrightarrow> fresh_env env \<Longrightarrow> bm_inv s \<Longrightarrow> bm_inv s'"
proof (induction rule: bm_step.induct)
  case (type_changed s)
  then have "bm_state s \<noteq> BS_DISABLED" using bm_inv_disabledD by metis
  with type_changed show ?case by (simp add: updateState_inv bm_inv_pre)
qed (simp_all add: updateSettings_inv onIdleWatch_inv onUserActiveWatch_inv onTimer_inv
      delayBreak_inv skipBreak_inv takeBreak_inv)

lemma bm_reachable_inv: "bm_reachable s \<Longrightarrow> bm_inv s"
  by (induction rule: bm_reachable.induct) (auto intro: newBreakManager_inv bm_step_inv)

end
