(* ===== verification/BreakProps.thy ===== *)
theory BreakProps
  imports BreakInvariant
begin

section \<open>Break reminders: what the break manager promises\<close>

text \<open>
  The scheduling function against its specification, and the behaviour of the state machine
  built on it: a break becomes due when its timer fires, a finished break is announced, the
  user's delay and skip take effect, and what happens to a break that is interrupted.
\<close>

subsection \<open>The specification of \<open>getNextBreakDue\<close>\<close>

definition due_at :: "bm_env \<Rightarrow> bm \<Rightarrow> string \<Rightarrow> real" where
  "due_at env s bt =
     or_else (jm_get (bm_breakLastEnd s) bt) 0 + real (interval_seconds (be_settings env bt))"

definition enabled_types :: "bm \<Rightarrow> string list" where
  "enabled_types s = jm_keys (bm_breakTypeSettings s)"

text \<open>Times count from the Unix epoch, so every enabled type is due after time 0.\<close>

definition times_positive :: "bm_env \<Rightarrow> bm \<Rightarrow> bool" where
  "times_positive env s \<longleftrightarrow> (\<forall>bt \<in> set (enabled_types s). 0 < due_at env s bt)"

text \<open>What the loop knows of the types it has looked at.\<close>

definition next_ok ::
  "(string \<Rightarrow> nat) \<Rightarrow> (string \<Rightarrow> real) \<Rightarrow> real \<Rightarrow> string set \<Rightarrow> nat \<times> string option \<times> real \<Rightarrow> bool" where
  "next_ok dur due t P = (\<lambda>(md, mt, nd).
     if \<exists>k\<in>P. due k \<le> t
     then \<exists>bt\<in>P. \<exists>k\<in>P. mt = Some bt \<and> due bt \<le> t \<and> md = dur bt \<and> nd = due k \<and> due k \<le> t
            \<and> (\<forall>k\<in>P. due k \<le> t \<longrightarrow> dur k \<le> md)
     else if P = {} then md = 0 \<and> mt = None \<and> nd = 0
     else md = 0 \<and> (\<exists>bt\<in>P. mt = Some bt \<and> nd = due bt \<and> (\<forall>k\<in>P. due bt \<le> due k)))"

lemma next_ok_step:
  assumes ok: "next_ok dur due t P acc" and pos: "\<forall>k \<in> insert b P. 0 < due k"
    and dur: "dur b = duration_seconds (cfg b)"
    and due: "due b = or_else (jm_get le b) 0 + real (interval_seconds (cfg b))"
  shows "next_ok dur due t (insert b P) (nextBreakDue_step cfg le t (b, b) acc)"
proof -
  obtain md mt nd where acc: "acc = (md, mt, nd)" by (cases acc)
  show ?thesis
  proof (cases "\<exists>k\<in>P. due k \<le> t")
    case True
    then obtain bt k where h: "bt \<in> P" "k \<in> P" "mt = Some bt" "due bt \<le> t" "md = dur bt"
        "nd = due k" "due k \<le> t" "\<forall>k\<in>P. due k \<le> t \<longrightarrow> dur k \<le> md"
      using ok unfolding next_ok_def acc by auto
    have "nd > 0" using h pos by auto
    then show ?thesis
      using h True unfolding next_ok_def nextBreakDue_step_def acc
      by (auto simp: Let_def simp flip: dur due)
  next
    case False
    show ?thesis
    proof (cases "P = {}")
      case True
      then show ?thesis
        using ok False unfolding next_ok_def nextBreakDue_step_def acc
        by (auto simp: Let_def simp flip: dur due)
    next
      case P: False
      then obtain bt where h: "md = 0" "bt \<in> P" "mt = Some bt" "nd = due bt" "\<forall>k\<in>P. due bt \<le> due k"
        using ok False unfolding next_ok_def acc by auto
      then have "nd > 0" using pos by auto
      then show ?thesis
        using h False unfolding next_ok_def nextBreakDue_step_def acc
        by (auto simp: Let_def not_le simp flip: dur due)
    qed
  qed
qed

lemma next_ok_fold:
  assumes "next_ok dur due t P acc" and "\<forall>k \<in> P \<union> fst ` set xs. 0 < due k"
    and "\<forall>(b, h) \<in> set xs. h = b"
    and "\<And>b. b \<in> fst ` set xs \<Longrightarrow> dur b = duration_seconds (cfg b)"
    and "\<And>b. b \<in> fst ` set xs \<Longrightarrow> due b = or_else (jm_get le b) 0 + real (interval_seconds (cfg b))"
  shows "next_ok dur due t (P \<union> fst ` set xs) (fold (nextBreakDue_step cfg le t) xs acc)"
  using assms
proof (induction xs arbitrary: P acc)
  case Nil
  then show ?case by simp
next
  case (Cons x xs)
  obtain b where x: "x = (b, b)" using Cons.prems(3) by (cases x) auto
  have "next_ok dur due t (insert b P) (nextBreakDue_step cfg le t x acc)"
    unfolding x using Cons.prems x by (intro next_ok_step) auto
  then have "next_ok dur due t (insert b P \<union> fst ` set xs)
      (fold (nextBreakDue_step cfg le t) xs (nextBreakDue_step cfg le t x acc))"
    using Cons.prems x by (intro Cons.IH) auto
  then show ?case by (simp add: x insert_commute Un_insert_right)
qed

lemma getNextBreakDue_ok:
  assumes "bm_keys_ok s" and "times_positive env s"
  obtains md where "next_ok (\<lambda>b. duration_seconds (be_settings env b)) (due_at env s) t
      (set (enabled_types s)) (md, getNextBreakDue env s t)"
proof -
  let ?r = "fold (nextBreakDue_step (be_settings env) (bm_breakLastEnd s) t)
     (bm_breakTypeSettings s) (0, None, 0)"
  have "next_ok (\<lambda>b. duration_seconds (be_settings env b)) (due_at env s) t
     ({} \<union> fst ` set (bm_breakTypeSettings s)) ?r"
    using assms by (intro next_ok_fold)
      (auto simp: next_ok_def due_at_def times_positive_def enabled_types_def bm_keys_ok_def)
  moreover have "?r = (fst ?r, getNextBreakDue env s t)"
    by (simp add: getNextBreakDue_def split_def Let_def)
  ultimately show ?thesis using that [of "fst ?r"] by (simp add: enabled_types_def)
qed

lemma next_break_due:
  assumes "bm_keys_ok s" and "times_positive env s"
    and "\<exists>k \<in> set (enabled_types s). due_at env s k \<le> t"
  obtains bt k where "getNextBreakDue env s t = (Some bt, due_at env s k)"
    and "bt \<in> set (enabled_types s)" and "k \<in> set (enabled_types s)"
    and "due_at env s bt \<le> t" and "due_at env s k \<le> t"
    and "\<forall>k' \<in> set (enabled_types s). due_at env s k' \<le> t \<longrightarrow>
       duration_seconds (be_settings env k') \<le> duration_seconds (be_settings env bt)"
proof -
  obtain md where "next_ok (\<lambda>b. duration_seconds (be_settings env b)) (due_at env s) t
      (set (enabled_types s)) (md, getNextBreakDue env s t)"
    using assms(1,2) by (rule getNextBreakDue_ok)
  with assms(3) show ?thesis
    unfolding next_ok_def by (cases "getNextBreakDue env s t") (auto intro: that)
qed

lemma next_break_future:
  assumes "bm_keys_ok s" and "times_positive env s"
    and "\<not> (\<exists>k \<in> set (enabled_types s). due_at env s k \<le> t)" and "enabled_types s \<noteq> []"
  obtains bt where "getNextBreakDue env s t = (Some bt, due_at env s bt)"
    and "bt \<in> set (enabled_types s)" and "t < due_at env s bt"
    and "\<forall>k \<in> set (enabled_types s). due_at env s bt \<le> due_at env s k"
proof -
  obtain md where "next_ok (\<lambda>b. duration_seconds (be_settings env b)) (due_at env s) t
      (set (enabled_types s)) (md, getNextBreakDue env s t)"
    using assms(1,2) by (rule getNextBreakDue_ok)
  with assms(3,4) show ?thesis
    unfolding next_ok_def
    by (cases "getNextBreakDue env s t") (simp del: bex_simps; metis not_le that)
qed

lemma next_break_none: "enabled_types s = [] \<Longrightarrow> getNextBreakDue env s t = (None, 0)"
  by (simp add: enabled_types_def getNextBreakDue_def)

lemma getNextBreakDue_due_iff:
  assumes "bm_keys_ok s" and "times_positive env s"
  shows "fst (getNextBreakDue env s t) \<noteq> None \<and> snd (getNextBreakDue env s t) \<le> t \<longleftrightarrow>
     (\<exists>bt \<in> set (enabled_types s). due_at env s bt \<le> t)"
proof (cases "\<exists>bt \<in> set (enabled_types s). due_at env s bt \<le> t")
  case True
  from next_break_due [OF assms True] show ?thesis using True by (metis fst_conv snd_conv option.distinct(1))
next
  case False
  show ?thesis
  proof (cases "enabled_types s = []")
    case True
    with False show ?thesis by (simp add: next_break_none)
  next
    case types: False
    from next_break_future [OF assms False types] show ?thesis using False
      by (metis snd_conv not_le)
  qed
qed

subsection \<open>A concrete environment, for the witnesses\<close>

definition demo_env :: "real \<Rightarrow> string list \<Rightarrow> (string \<Rightarrow> break_settings) \<Rightarrow> bm_env" where
  "demo_env t sel cfg = \<lparr>be_time = t, be_selected = sel, be_settings = cfg,
     be_source_id = count_ids,
     be_watch_id = (\<lambda>tr. count_ids (concat (map watch_event tr))),
     be_handler_id = (\<lambda>tr. count_ids (concat (map handler_event tr)))\<rparr>"

definition demo_settings :: break_settings where
  "demo_settings = \<lparr>interval_seconds = 1800, duration_seconds = 300, delay_seconds = 300,
     notify = True, notify_upcoming = True, notify_overdue = True, countdown = True,
     play_sound = True, fade_screen = True, lock_screen = False\<rparr>"

lemma fresh_demo_env: "fresh_env (demo_env t sel cfg)"
  using fresh_count_ids [where 'a = bm_call]
  by (auto simp: fresh_env_def demo_env_def watches_def handlers_def fresh_ids_def)

abbreviation demo_start :: bm where
  "demo_start \<equiv> newBreakManager (demo_env 100 [''movement''] (\<lambda>_. demo_settings))"

lemma demo_reachable: "bm_reachable demo_start"
  by (rule bm_reachable.start [OF fresh_demo_env])

lemmas demo_eval = newBreakManager_def updateSettings_def updateBreakType_def startStateMachine_def
  SUPPORTED_BREAK_TYPES_def updateState_defs creditIdleTime_def getNextBreakDue_def
  nextBreakDue_step_def scheduleUpdateState_def enterState_def bm_do_def demo_env_def
  demo_settings_def count_ids_def MIN_BREAK_LENGTH_SECONDS_def idleBreak_def
  getDurationForBreakType_def onIdleWatch_def onUserActiveWatch_def onTimer_def timerFired_def
  resetBreakEnds_def due_at_def enabled_types_def times_positive_def

text \<open>The manager 100 seconds after the epoch, with one break type: its clock starts there.\<close>

lemma demo_start_state:
  "bm_state demo_start = BS_ACTIVE \<and> bm_breakTypeSettings demo_start = [(''movement'', ''movement'')]
   \<and> bm_breakLastEnd demo_start = [(''movement'', 100)] \<and> bm_idleState demo_start = Idle_ACTIVE
   \<and> bm_idleStartTime demo_start = 0 \<and> bm_timerId demo_start = 1 \<and> bm_activeWatchId demo_start = 0
   \<and> bm_idleWatchId demo_start = 1"
  by (simp add: demo_eval)

subsection \<open>Lookups after the loops over the enabled types\<close>

lemma fold_pointwise:
  assumes "distinct (map fst xs)"
    and "\<And>x le k. map_of (F x le) k = (if k = fst x then G x (map_of le k) else map_of le k)"
  shows "map_of (fold F xs le) k =
     (case map_of xs k of None \<Rightarrow> map_of le k | Some h \<Rightarrow> G (k, h) (map_of le k))"
  using assms(1)
proof (induction xs arbitrary: le)
  case Nil
  then show ?case by simp
next
  case (Cons x xs)
  show ?case
  proof (cases "k = fst x")
    case True
    then have "map_of xs k = None" using Cons.prems by (simp add: jm_get_iff_key)
    then show ?thesis using Cons True by (cases x) (simp add: assms(2))
  next
    case False
    then show ?thesis using Cons by (cases x) (simp add: assms(2) split: option.split)
  qed
qed

lemma types_get:
  "bm_keys_ok s \<Longrightarrow> map_of (bm_breakTypeSettings s) k = (if k \<in> set (enabled_types s) then Some k else None)"
  using bm_inv_last_end(3) [of s k] by (simp add: enabled_types_def jm_get_iff_key del: set_map)

lemma last_end_get:
  assumes "bm_keys_ok s" and "k \<in> set (enabled_types s)"
  obtains e where "map_of (bm_breakLastEnd s) k = Some e"
  using bm_inv_last_end(1) [OF assms(1), of k] assms(2) by (auto simp: enabled_types_def)

lemma resetBreakEnds_get:
  assumes "bm_keys_ok s" and "k \<in> set (enabled_types s)"
  shows "map_of (resetBreakEnds cfg (bm_breakTypeSettings s) d t (bm_breakLastEnd s)) k =
     (if real (duration_seconds (cfg k)) \<le> d then Some t else map_of (bm_breakLastEnd s) k)"
proof -
  have "map_of (resetBreakEnds cfg (bm_breakTypeSettings s) d t (bm_breakLastEnd s)) k =
     (case map_of (bm_breakTypeSettings s) k of None \<Rightarrow> map_of (bm_breakLastEnd s) k
      | Some h \<Rightarrow> (\<lambda>(bt, h) v. if d \<ge> real (duration_seconds (cfg h)) then Some t else v)
          (k, h) (map_of (bm_breakLastEnd s) k))"
    unfolding resetBreakEnds_def
    by (rule fold_pointwise [OF bm_keys_okD(3) [OF assms(1)]]) (simp add: split_def)
  then show ?thesis by (simp add: types_get assms)
qed

lemma delayEnds_get:
  assumes "bm_keys_ok s" and "k \<in> set (enabled_types s)"
  shows "map_of (delayEnds cfg t (bm_breakTypeSettings s) (bm_breakLastEnd s)) k =
     (let e = or_else (map_of (bm_breakLastEnd s) k) 0
      in if e + real (interval_seconds (cfg k)) \<le> t then Some (e + real (delay_seconds (cfg k)))
         else map_of (bm_breakLastEnd s) k)"
proof -
  have "map_of (delayEnds cfg t (bm_breakTypeSettings s) (bm_breakLastEnd s)) k =
     (case map_of (bm_breakTypeSettings s) k of None \<Rightarrow> map_of (bm_breakLastEnd s) k
      | Some h \<Rightarrow> (\<lambda>(bt, h) v. if or_else v 0 + real (interval_seconds (cfg h)) \<le> t
          then Some (or_else v 0 + real (delay_seconds (cfg h))) else v) (k, h) (map_of (bm_breakLastEnd s) k))"
    unfolding delayEnds_def
    by (rule fold_pointwise [OF bm_keys_okD(3) [OF assms(1)]]) (simp add: split_def)
  then show ?thesis by (simp add: types_get assms Let_def)
qed

lemma skipEnds_get:
  assumes "bm_keys_ok s" and "k \<in> set (enabled_types s)"
  shows "map_of (skipEnds cfg t (bm_breakTypeSettings s) (bm_breakLastEnd s)) k =
     (if or_else (map_of (bm_breakLastEnd s) k) 0 + real (interval_seconds (cfg k)) \<le> t then Some t
      else map_of (bm_breakLastEnd s) k)"
proof -
  have "map_of (skipEnds cfg t (bm_breakTypeSettings s) (bm_breakLastEnd s)) k =
     (case map_of (bm_breakTypeSettings s) k of None \<Rightarrow> map_of (bm_breakLastEnd s) k
      | Some h \<Rightarrow> (\<lambda>(bt, h) v. if or_else v 0 + real (interval_seconds (cfg h)) \<le> t
          then Some t else v) (k, h) (map_of (bm_breakLastEnd s) k))"
    unfolding skipEnds_def
    by (rule fold_pointwise [OF bm_keys_okD(3) [OF assms(1)]]) (simp add: split_def)
  then show ?thesis by (simp add: types_get assms)
qed

subsection \<open>What \<open>_updateState\<close> does, branch by branch\<close>

lemma idleBreak_lastEnd_update [simp]: "bm_breakLastEnd (updateState_idle env t s) = bm_breakLastEnd s"
  by (simp add: updateState_defs)

lemma updateState_active_lastEnd [simp]:
  "bm_breakLastEnd (updateState_active env t s) = bm_breakLastEnd (creditIdleTime env t s)"
  by (simp add: updateState_defs creditIdleTime_def)

lemma creditIdleTime_zero: "bm_idleStartTime s = 0 \<Longrightarrow> creditIdleTime env t s = s"
  by (simp add: creditIdleTime_def)

lemma updateState_lastEnd:
  "(bm_idleState s = Idle_ACTIVE \<longrightarrow> bm_idleStartTime s = 0) \<Longrightarrow>
     bm_breakLastEnd (updateState env t s) = bm_breakLastEnd s"
  by (cases "bm_idleState s") (simp_all add: updateState_def creditIdleTime_zero)

lemma due_at_cong: "bm_breakLastEnd s' = bm_breakLastEnd s \<Longrightarrow> due_at env s' = due_at env s"
  by (simp add: due_at_def fun_eq_iff)

lemma enabled_updateState [simp]: "enabled_types (updateState env t s) = enabled_types s"
  by (simp add: enabled_types_def)

text \<open>The active branch when no idle time is to be credited.\<close>

lemma updateState_active_due:
  assumes "bm_keys_ok s" and "times_positive env s" and "bm_idleState s = Idle_ACTIVE"
    and "bm_idleStartTime s = 0" and "\<exists>k \<in> set (enabled_types s). due_at env s k \<le> t"
  shows "updateState env t s =
     (if bm_state s = BS_ACTIVE
      then bm_do EmitBreakDue (bm_do ThawNotify (enterState BS_BREAK_DUE
             (fst (getNextBreakDue env s t)) (snd (getNextBreakDue env s t)) (bm_do FreezeNotify s)))
      else bm_do ThawNotify (bm_do FreezeNotify s))"
proof -
  have get: "getNextBreakDue env (bm_do FreezeNotify s) t = getNextBreakDue env s t"
    by (simp add: getNextBreakDue_def)
  show ?thesis
    using assms(3-5) getNextBreakDue_due_iff [OF assms(1,2), of t]
    by (simp add: updateState_defs creditIdleTime_zero get)
qed

lemma updateState_active_waits:
  assumes "bm_keys_ok s" and "times_positive env s" and "bm_idleState s = Idle_ACTIVE"
    and "bm_idleStartTime s = 0" and "\<not> (\<exists>k \<in> set (enabled_types s). due_at env s k \<le> t)"
    and "enabled_types s \<noteq> []"
  obtains bt s1 where "bt \<in> set (enabled_types s)" and "t < due_at env s bt"
    and "\<forall>k \<in> set (enabled_types s). due_at env s bt \<le> due_at env s k"
    and "s1 = scheduleUpdateState (be_source_id env) (due_at env s bt - t) (bm_do FreezeNotify s)"
    and "updateState env t s =
      bm_do ThawNotify (if bm_state s \<noteq> BS_ACTIVE then enterState BS_ACTIVE None 0 s1 else s1)"
proof -
  have get: "getNextBreakDue env (bm_do FreezeNotify s) t = getNextBreakDue env s t"
    by (simp add: getNextBreakDue_def)
  obtain bt where bt: "getNextBreakDue env s t = (Some bt, due_at env s bt)"
      "bt \<in> set (enabled_types s)" "t < due_at env s bt" "\<forall>k \<in> set (enabled_types s). due_at env s bt \<le> due_at env s k"
    using next_break_future [OF assms(1,2,5,6)] by metis
  have "due_at env s bt \<noteq> 0" using bt(2) assms(2) by (auto simp: times_positive_def)
  then have "updateState env t s = bm_do ThawNotify
      (let s1 = scheduleUpdateState (be_source_id env) (due_at env s bt - t) (bm_do FreezeNotify s)
       in if bm_state s \<noteq> BS_ACTIVE then enterState BS_ACTIVE None 0 s1 else s1)"
    using assms(3,4) bt by (simp add: updateState_defs creditIdleTime_zero get)
  with bt that show ?thesis by (simp add: Let_def)
qed

subsection \<open>Properties\<close>

text \<open>C1: In every reachable state the break manager owns exactly the external resources its fields
  record: the live GLib sources are the one in \<open>_timerId\<close>, the live idle-monitor watches those in
  \<open>_idleWatchId\<close> and \<open>_activeWatchId\<close>, the connected settings handlers those in
  \<open>_breakTypeSettingsChangedId\<close>; nothing leaks and nothing is removed twice.\<close>

theorem break_resources_exact:
  assumes "bm_reachable s"
  shows "sources (bm_trace s) = Some (if bm_timerId s = 0 then {} else {bm_timerId s})
    \<and> watches (bm_trace s) = Some ({bm_idleWatchId s, bm_activeWatchId s} - {0})
    \<and> handlers (bm_trace s) = Some (set (map snd (bm_breakTypeSettingsChangedId s)))"
  using bm_reachable_inv [OF assms]
  by (simp add: bm_inv_def slot_ok_iff bm_watch_ok_def bm_handlers_ok_def)

theorem break_resources_exact_witness:
  "sources (bm_trace demo_start) = Some {1} \<and> watches (bm_trace demo_start) = Some {1}"
  using break_resources_exact [OF demo_reachable] demo_start_state by auto

text \<open>In every reachable state the three maps of the break manager have the same keys, all of
  them supported break types; a disabled manager has no break types, watches or timer; and while the
  idle monitor reports the user idle the public state is IDLE or IN_BREAK.\<close>

theorem break_state_consistent:
  assumes "bm_reachable s"
  shows "jm_keys (bm_breakTypeSettingsChangedId s) = jm_keys (bm_breakTypeSettings s)
    \<and> jm_keys (bm_breakLastEnd s) = jm_keys (bm_breakTypeSettings s)
    \<and> set (jm_keys (bm_breakTypeSettings s)) \<subseteq> set SUPPORTED_BREAK_TYPES
    \<and> (bm_state s = BS_DISABLED \<longleftrightarrow> bm_idleWatchId s = 0)
    \<and> (bm_state s = BS_DISABLED \<longrightarrow>
         bm_breakTypeSettings s = [] \<and> bm_activeWatchId s = 0 \<and> bm_timerId s = 0)
    \<and> (bm_idleState s = Idle_IDLE \<longrightarrow> bm_state s = BS_IDLE \<or> bm_state s = BS_IN_BREAK)"
  using bm_reachable_inv [OF assms]
  by (auto simp: bm_inv_def bm_keys_ok_def bm_state_ok_def split: if_splits)

theorem break_state_consistent_witness:
  "bm_state demo_start \<noteq> BS_DISABLED \<and> set (jm_keys (bm_breakTypeSettings demo_start)) \<subseteq> set SUPPORTED_BREAK_TYPES"
  using break_state_consistent [OF demo_reachable] demo_start_state by simp

text \<open>\<open>getNextBreakDue\<close> meets its specification. With no break type enabled it returns null and
  0. With no type due it returns the type that is due soonest and its time. With some type due it
  returns, of the types that are due, one of the longest duration, and a time that has passed.\<close>

theorem getNextBreakDue_spec:
  assumes "bm_reachable s" and "times_positive env s"
  shows "case getNextBreakDue env s t of
      (None, n) \<Rightarrow> enabled_types s = [] \<and> n = 0
    | (Some bt, n) \<Rightarrow> bt \<in> set (enabled_types s)
        \<and> (if \<exists>k \<in> set (enabled_types s). due_at env s k \<le> t
            then due_at env s bt \<le> t \<and> n \<le> t
              \<and> (\<forall>k \<in> set (enabled_types s). due_at env s k \<le> t \<longrightarrow>
                   duration_seconds (be_settings env k) \<le> duration_seconds (be_settings env bt))
            else n = due_at env s bt \<and> t < n
              \<and> (\<forall>k \<in> set (enabled_types s). n \<le> due_at env s k))"
proof -
  have keys: "bm_keys_ok s" using bm_reachable_inv [OF assms(1)] by (simp add: bm_inv_def)
  show ?thesis
  proof (cases "\<exists>k \<in> set (enabled_types s). due_at env s k \<le> t")
    case True
    obtain bt k where "getNextBreakDue env s t = (Some bt, due_at env s k)"
      "bt \<in> set (enabled_types s)" "due_at env s bt \<le> t" "due_at env s k \<le> t"
      "\<forall>k' \<in> set (enabled_types s). due_at env s k' \<le> t \<longrightarrow>
         duration_seconds (be_settings env k') \<le> duration_seconds (be_settings env bt)"
      using next_break_due [OF keys assms(2) True] by metis
    with True show ?thesis by simp
  next
    case False
    show ?thesis
    proof (cases "enabled_types s = []")
      case True
      then show ?thesis by (simp add: next_break_none)
    next
      case types: False
      obtain bt where "getNextBreakDue env s t = (Some bt, due_at env s bt)"
        "bt \<in> set (enabled_types s)" "t < due_at env s bt"
        "\<forall>k \<in> set (enabled_types s). due_at env s bt \<le> due_at env s k"
        using next_break_future [OF keys assms(2) False types] by metis
      with False show ?thesis by (simp del: bex_simps)
    qed
  qed
qed

lemma demo_times_positive:
  "times_positive (demo_env t [''movement''] (\<lambda>_. demo_settings)) demo_start"
  using demo_start_state
  by (simp add: times_positive_def due_at_def enabled_types_def demo_env_def demo_settings_def)

theorem getNextBreakDue_spec_witness:
  "fst (getNextBreakDue (demo_env 200 [''movement''] (\<lambda>_. demo_settings)) demo_start 200)
     = Some ''movement''"
  using getNextBreakDue_spec [OF demo_reachable demo_times_positive, of 200 200] demo_start_state
  by (auto simp: enabled_types_def split: prod.splits option.splits)

text \<open>C2: A break that the user works towards does become due, and in time: after an update that leaves the
  manager ACTIVE with some type enabled, the timer recorded in \<open>_timerId\<close> was asked for the time until the first of the enabled
  types is due, rounded up to seconds; and whenever it fires, with the settings unchanged, at that due time or later, the
  manager goes to BREAK_DUE and emits break-due.\<close>

theorem break_becomes_due:
  assumes "bm_reachable s" and "bm_idleState s = Idle_ACTIVE" and "enabled_types s \<noteq> []"
    and "times_positive env s" and "bm_state (updateState env now s) = BS_ACTIVE"
  shows "\<exists>bt. bt \<in> set (enabled_types s) \<and> (\<forall>k \<in> set (enabled_types s). due_at env s bt \<le> due_at env s k)
    \<and> now < due_at env s bt
    \<and> SourceAdd (bm_timerId (updateState env now s)) \<lceil>due_at env s bt - now\<rceil> \<in> set (bm_trace (updateState env now s))
    \<and> (\<forall>env'. be_settings env' = be_settings env \<longrightarrow> due_at env s bt \<le> be_time env' \<longrightarrow>
         bm_state (onTimer env' (updateState env now s)) = BS_BREAK_DUE
         \<and> last (bm_trace (onTimer env' (updateState env now s))) = Call EmitBreakDue)"
proof -
  have inv: "bm_inv s" by (rule bm_reachable_inv [OF assms(1)])
  have enabled: "bm_state s \<noteq> BS_DISABLED"
    using assms(3) bm_inv_disabledD [OF inv] by (auto simp: enabled_types_def)
  have idle0: "bm_idleStartTime s = 0"
    using inv enabled assms(2) by (simp add: bm_inv_def bm_state_ok_def)
  have keys: "bm_keys_ok s" using inv by (simp add: bm_inv_def)
  let ?s' = "updateState env now s"
  have notdue: "\<not> (\<exists>k \<in> set (enabled_types s). due_at env s k \<le> now)"
    using updateState_active_due [OF keys assms(4,2) idle0] assms(5)
    by (metis bm_do_frame(1) break_state.distinct(7,9) enterState_frame(1) break_state.simps)
  obtain bt s1 where bt: "bt \<in> set (enabled_types s)" and later: "now < due_at env s bt"
    and first: "\<forall>k \<in> set (enabled_types s). due_at env s bt \<le> due_at env s k"
    and s1: "s1 = scheduleUpdateState (be_source_id env) (due_at env s bt - now) (bm_do FreezeNotify s)"
    and s': "?s' = bm_do ThawNotify (if bm_state s \<noteq> BS_ACTIVE then enterState BS_ACTIVE None 0 s1 else s1)"
    using updateState_active_waits [OF keys assms(4,2) idle0 notdue assms(3)] by metis
  have timer: "SourceAdd (bm_timerId ?s') \<lceil>due_at env s bt - now\<rceil> \<in> set (bm_trace ?s')"
    unfolding s' s1 by (simp add: scheduleUpdateState_def Let_def)
  have fires: "bm_state (onTimer env' ?s') = BS_BREAK_DUE \<and> last (bm_trace (onTimer env' ?s')) = Call EmitBreakDue"
    if settings: "be_settings env' = be_settings env"
      and late: "due_at env s bt \<le> be_time env'" for env'
  proof -
    let ?f = "timerFired ?s'"
    have ends: "bm_breakLastEnd ?f = bm_breakLastEnd s"
      by (simp add: updateState_lastEnd idle0)
    have due: "due_at env' ?f = due_at env s"
      using settings ends by (simp add: due_at_def fun_eq_iff)
    have types: "enabled_types ?f = enabled_types s" by (simp add: enabled_types_def)
    from bt late have dueex: "\<exists>k \<in> set (enabled_types ?f). due_at env' ?f k \<le> be_time env'"
      unfolding types due by blast
    moreover have "bm_keys_ok ?f" using updateState_keys [OF keys] by simp
    moreover have "times_positive env' ?f"
      using assms(4) unfolding times_positive_def types due .
    moreover have "bm_idleState ?f = Idle_ACTIVE" "bm_idleStartTime ?f = 0"
      using assms(2) by simp (simp add: updateState_def assms(2))
    moreover have "bm_state ?f = BS_ACTIVE" using assms(5) by simp
    ultimately show ?thesis
      unfolding onTimer_def by (simp add: updateState_active_due)
  qed
  from bt first later timer fires show ?thesis by blast
qed

abbreviation demo_at :: "real \<Rightarrow> bm_env" where
  "demo_at t \<equiv> demo_env t [''movement''] (\<lambda>_. demo_settings)"

theorem break_becomes_due_witness:
  "SourceAdd 2 1700 \<in> set (bm_trace (updateState (demo_at 200) 200 demo_start))
    \<and> bm_state (onTimer (demo_at 1900) (updateState (demo_at 200) 200 demo_start)) = BS_BREAK_DUE"
proof -
  let ?s' = "updateState (demo_at 200) 200 demo_start"
  have act: "bm_state ?s' = BS_ACTIVE" and id: "bm_timerId ?s' = 2"
    and types: "enabled_types demo_start = [''movement'']" and due: "due_at (demo_at 200) demo_start ''movement'' = 1900"
    by (auto simp: demo_eval)
  have idle: "bm_idleState demo_start = Idle_ACTIVE" "enabled_types demo_start \<noteq> []" using demo_start_state types by simp_all
  obtain bt where bt: "bt \<in> set (enabled_types demo_start)"
      "SourceAdd (bm_timerId ?s') \<lceil>due_at (demo_at 200) demo_start bt - 200\<rceil> \<in> set (bm_trace ?s')"
    and fires: "\<forall>env'. be_settings env' = be_settings (demo_at 200) \<longrightarrow> due_at (demo_at 200) demo_start bt \<le> be_time env' \<longrightarrow>
      bm_state (onTimer env' ?s') = BS_BREAK_DUE"
    using break_becomes_due [OF demo_reachable idle demo_times_positive act] by blast
  have m: "bt = ''movement''" using bt(1) types by simp
  have "be_settings (demo_at 1900) = be_settings (demo_at 200)" "be_time (demo_at 1900) = 1900" by (simp_all add: demo_env_def)
  with fires have "bm_state (onTimer (demo_at 1900) ?s') = BS_BREAK_DUE" unfolding m due by simp
  moreover have "SourceAdd 2 1700 \<in> set (bm_trace ?s')" using bt(2) unfolding m due id by simp
  ultimately show ?thesis by blast
qed

text \<open>With a single type enabled and due, the next break is that type's.\<close>

lemma single_type:
  assumes "bm_keys_ok s" and "enabled_types s = [bt]"
  shows "bm_breakTypeSettings s = [(bt, bt)]"
proof -
  obtain h where "bm_breakTypeSettings s = [(bt, h)]"
    using assms(2) by (cases "bm_breakTypeSettings s") (auto simp: enabled_types_def)
  moreover from this have "h = bt" using bm_keys_okD(4) [OF assms(1), of bt h] by simp
  ultimately show ?thesis by simp
qed

lemma next_break_single:
  "bm_breakTypeSettings s = [(bt, bt)] \<Longrightarrow> due_at env s bt \<le> t \<Longrightarrow>
     getNextBreakDue env s t = (Some bt, due_at env s bt)"
  by (simp add: getNextBreakDue_def nextBreakDue_step_def due_at_def Let_def)

lemma updateState_idle_single:
  assumes "bm_breakTypeSettings s = [(bt, bt)]" and "bm_idleState s = Idle_IDLE"
    and "due_at env s bt \<le> t"
  shows "updateState env t s =
     (let over = due_at env s bt + real (duration_seconds (be_settings env bt))
      in if over \<le> t
         then let u = (if bm_state s = BS_IN_BREAK then bm_do EmitBreakFinished s else s)
              in if bm_state s \<noteq> BS_IDLE then enterState BS_IDLE (Some bt) 0 u else u
         else let u = scheduleUpdateState (be_source_id env) (over - t) s
              in if bm_state s \<noteq> BS_IN_BREAK
                 then enterState BS_IN_BREAK (Some bt) (due_at env s bt) u else u)"
  using assms next_break_single [OF assms(1,3)]
  by (simp add: updateState_def updateState_idle_def idleBreak_def getDurationForBreakType_def Let_def)

text \<open>A break taken while idle ends. With a single type enabled and due, an update of the idle
  manager puts it IN_BREAK, and the timer recorded was asked for a delay such that, when it fires
  that long after or later with the user still idle, the manager emits break-finished and goes to
  IDLE.\<close>

theorem break_finishes:
  assumes "bm_reachable s" and "bm_idleState s = Idle_IDLE" and "enabled_types s = [bt]"
    and "due_at env s bt \<le> now"
    and "now < due_at env s bt + real (duration_seconds (be_settings env bt))"
  shows "bm_state (updateState env now s) = BS_IN_BREAK
    \<and> (\<exists>d. SourceAdd (bm_timerId (updateState env now s)) d \<in> set (bm_trace (updateState env now s))
      \<and> (\<forall>env'. be_settings env' = be_settings env \<longrightarrow> be_time env' \<ge> now + real_of_int d \<longrightarrow>
           bm_state (onTimer env' (updateState env now s)) = BS_IDLE
           \<and> Call EmitBreakFinished \<in> set (bm_trace (onTimer env' (updateState env now s)))))"
proof -
  let ?s' = "updateState env now s"
  let ?over = "due_at env s bt + real (duration_seconds (be_settings env bt))"
  have keys: "bm_keys_ok s" using bm_reachable_inv [OF assms(1)] by (simp add: bm_inv_def)
  note one = single_type [OF keys assms(3)]
  have s': "?s' = (let u = scheduleUpdateState (be_source_id env) (?over - now) s
       in if bm_state s \<noteq> BS_IN_BREAK then enterState BS_IN_BREAK (Some bt) (due_at env s bt) u else u)"
    using updateState_idle_single [OF one assms(2,4)] assms(5) by (simp add: Let_def)
  have st: "bm_state ?s' = BS_IN_BREAK" unfolding s' by (simp add: Let_def)
  have timer: "SourceAdd (bm_timerId ?s') \<lceil>?over - now\<rceil> \<in> set (bm_trace ?s')"
    unfolding s' by (simp add: scheduleUpdateState_def Let_def)
  have fires: "bm_state (onTimer env' ?s') = BS_IDLE
      \<and> Call EmitBreakFinished \<in> set (bm_trace (onTimer env' ?s'))"
    if settings: "be_settings env' = be_settings env"
      and late: "be_time env' \<ge> now + real_of_int \<lceil>?over - now\<rceil>" for env'
  proof -
    let ?f = "timerFired ?s'"
    have "due_at env' ?f = due_at env s"
      using settings assms(2) by (simp add: due_at_def fun_eq_iff updateState_lastEnd)
    moreover have "?over \<le> be_time env'" using late by linarith
    moreover have "due_at env s bt \<le> ?over" by simp
    ultimately have "updateState env' (be_time env') ?f =
        enterState BS_IDLE (Some bt) 0 (bm_do EmitBreakFinished ?f)"
      using updateState_idle_single [of ?f bt env' "be_time env'"] one assms(2) settings st
      by (simp add: Let_def)
    then show ?thesis by (simp add: onTimer_def)
  qed
  from st timer fires show ?thesis by blast
qed

text \<open>The demo manager with the user idle since before the break fell due at 1900.\<close>

abbreviation demo_idle :: bm where
  "demo_idle \<equiv> onIdleWatch (demo_at 1850) demo_start"

lemma demo_idle_reachable: "bm_reachable demo_idle"
proof (rule bm_reachable.step [OF demo_reachable fresh_demo_env])
  show "bm_step (demo_at 1850) demo_start demo_idle"
    using demo_start_state by (intro bm_step.idle_watch) simp
qed

lemma demo_idle_state:
  "bm_state demo_idle = BS_IDLE \<and> bm_idleState demo_idle = Idle_IDLE
   \<and> enabled_types demo_idle = [''movement''] \<and> due_at (demo_at t) demo_idle ''movement'' = 1900
   \<and> bm_idleStartTime demo_idle = 1840 \<and> bm_activeWatchId demo_idle = 2"
  by (simp add: demo_eval)

theorem break_finishes_witness:
  "bm_state (updateState (demo_at 2000) 2000 demo_idle) = BS_IN_BREAK"
  using break_finishes [OF demo_idle_reachable, of "''movement''" "demo_at 2000" 2000] demo_idle_state
  by (simp add: demo_env_def demo_settings_def)

text \<open>Skipping or delaying moves the ends of exactly the types that are due. After
  \<open>skipBreak\<close> a type that was due is next due one interval from now; after \<open>delayBreak\<close> it is
  due its delay later than it was; every other type is due when it was before.\<close>

theorem skip_delay_due_times:
  assumes "bm_reachable s" and "bm_state s \<noteq> BS_DISABLED" and "k \<in> set (enabled_types s)"
  shows "due_at env (skipBreak env s) k =
      (if due_at env s k \<le> be_time env
       then be_time env + real (interval_seconds (be_settings env k)) else due_at env s k)
    \<and> due_at env (delayBreak env s) k =
      (if due_at env s k \<le> be_time env
       then due_at env s k + real (delay_seconds (be_settings env k)) else due_at env s k)"
proof -
  have inv: "bm_inv s" by (rule bm_reachable_inv [OF assms(1)])
  then have keys: "bm_keys_ok s" and idle: "bm_idleState s = Idle_ACTIVE \<longrightarrow> bm_idleStartTime s = 0"
    using assms(2) by (simp_all add: bm_inv_def bm_state_ok_def)
  obtain e where e: "map_of (bm_breakLastEnd s) k = Some e" using keys assms(3) by (rule last_end_get)
  have ends: "bm_breakLastEnd (updateState env t (bm_do NotifyLastBreakEndTime
      (bm_do NotifyNextBreakDueTime (bm_do FreezeNotify (s\<lparr>bm_breakLastEnd := le\<rparr>))))) = le" for t le
    using idle by (simp add: updateState_lastEnd)
  show ?thesis
    using skipEnds_get [OF keys assms(3)] delayEnds_get [OF keys assms(3)] assms(2) e
    by (simp add: due_at_def skipBreak_def delayBreak_def Let_def ends)
qed

theorem skip_delay_due_times_witness:
  "due_at (demo_at 1950) (skipBreak (demo_at 1950) demo_start) ''movement'' = 3750
   \<and> due_at (demo_at 1950) (delayBreak (demo_at 1950) demo_start) ''movement'' = 2200"
proof -
  have "due_at (demo_at 1950) demo_start ''movement'' = 1900"
    using demo_start_state by (simp add: due_at_def demo_env_def demo_settings_def)
  then show ?thesis
    using skip_delay_due_times [OF demo_reachable, of "''movement''" "demo_at 1950"] demo_start_state
    by (simp add: enabled_types_def demo_env_def demo_settings_def)
qed

text \<open>When the user comes back, the time they were idle counts as a break of every type it is
  long enough for: such a type is next due one interval from now, and every other type is due when
  it was before.\<close>

theorem idle_time_credited:
  assumes "bm_reachable s" and "bm_activeWatchId s \<noteq> 0" and "0 < bm_idleStartTime s"
    and "k \<in> set (enabled_types s)"
  shows "due_at env (onUserActiveWatch env s) k =
    (if real (duration_seconds (be_settings env k)) \<le> be_time env - bm_idleStartTime s
     then be_time env + real (interval_seconds (be_settings env k)) else due_at env s k)"
proof -
  have keys: "bm_keys_ok s" using bm_reachable_inv [OF assms(1)] by (simp add: bm_inv_def)
  have "bm_breakLastEnd (onUserActiveWatch env s) = resetBreakEnds (be_settings env)
      (bm_breakTypeSettings s) (be_time env - bm_idleStartTime s) (be_time env) (bm_breakLastEnd s)"
    using assms(3) by (simp add: onUserActiveWatch_def updateState_def creditIdleTime_def)
  then show ?thesis
    by (simp add: due_at_def resetBreakEnds_get [OF keys assms(4)])
qed

theorem idle_time_credited_witness:
  "due_at (demo_at 2500) (onUserActiveWatch (demo_at 2500) demo_idle) ''movement'' = 4300"
  using idle_time_credited [OF demo_idle_reachable, of "''movement''" "demo_at 2500"] demo_idle_state
  by (simp add: demo_env_def demo_settings_def)

lemma updateState_due_from:
  "bm_state (updateState env t s) = BS_BREAK_DUE \<Longrightarrow> bm_state s = BS_ACTIVE \<or> bm_state s = BS_BREAK_DUE"
  by (cases "bm_idleState s")
    (auto simp: updateState_defs split: if_splits)

lemma updateState_idle_not_due: "bm_state (updateState_idle env t s) \<noteq> BS_BREAK_DUE"
  using updateState_idle_state [of env t s] by auto

text \<open>BREAK_DUE is entered only from ACTIVE (or when the machine starts): no step takes a
  manager that is IDLE or IN_BREAK to BREAK_DUE.\<close>

theorem break_due_only_from_active:
  assumes "bm_reachable s" and "bm_step env s s'" and "bm_state s' = BS_BREAK_DUE"
  shows "bm_state s \<in> {BS_ACTIVE, BS_BREAK_DUE, BS_DISABLED}"
  using assms(2,3)
proof cases
  case selected
  then show ?thesis
    using assms(3) updateState_due_from
    by (fastforce simp: updateSettings_def stopStateMachine_def Let_def SUPPORTED_BREAK_TYPES_def
        split: if_splits)
next
  case idle_watch
  then show ?thesis
    using assms(3) by (simp add: onIdleWatch_def Let_def updateState_def updateState_idle_not_due)
qed (use assms(3) in \<open>auto simp: onUserActiveWatch_def onTimer_def delayBreak_def skipBreak_def takeBreak_def
      Let_def dest!: updateState_due_from split: if_splits\<close>)

theorem break_due_only_from_active_witness:
  "bm_state (onTimer (demo_at 2000) demo_start) = BS_BREAK_DUE
   \<and> bm_state demo_start \<in> {BS_ACTIVE, BS_BREAK_DUE, BS_DISABLED}"
proof -
  have due: "bm_state (onTimer (demo_at 2000) demo_start) = BS_BREAK_DUE" by (simp add: demo_eval)
  have "bm_step (demo_at 2000) demo_start (onTimer (demo_at 2000) demo_start)"
    using demo_start_state by (intro bm_step.timer) simp
  from due break_due_only_from_active [OF demo_reachable this due] show ?thesis by blast
qed

text \<open>A break the user interrupts is not reported: when the user comes back from an IN_BREAK
  manager with some enabled type still due, because they were idle for less than its duration, the
  public state stays IN_BREAK (and the currently reported break type with it) although the user is
  active.\<close>

theorem interrupted_break_stays_in_break:
  assumes "bm_reachable s" and "bm_state s = BS_IN_BREAK" and "bm_activeWatchId s \<noteq> 0"
    and "0 < bm_idleStartTime s"
    and "times_positive env (onUserActiveWatch env s)"
    and "k \<in> set (enabled_types s)" and "due_at env s k \<le> be_time env"
    and "be_time env - bm_idleStartTime s < real (duration_seconds (be_settings env k))"
  shows "bm_state (onUserActiveWatch env s) = BS_IN_BREAK
    \<and> bm_idleState (onUserActiveWatch env s) = Idle_ACTIVE
    \<and> (\<forall>c. Call c \<in> set (drop (length (bm_trace s)) (bm_trace (onUserActiveWatch env s))) \<longrightarrow>
         c \<noteq> NotifyState \<and> c \<noteq> EmitBreakDue)"
proof -
  let ?s0 = "(bm_do (WatchRemove (bm_activeWatchId s)) s)\<lparr>bm_activeWatchId := 0, bm_idleState := Idle_ACTIVE\<rparr>"
  let ?s1 = "creditIdleTime env (be_time env) (bm_do FreezeNotify ?s0)"
  let ?s' = "onUserActiveWatch env s"
  have keys: "bm_keys_ok s" using bm_reachable_inv [OF assms(1)] by (simp add: bm_inv_def)
  then have keys1: "bm_keys_ok ?s1"
    using creditIdleTime_keys [of "bm_do FreezeNotify ?s0" env "be_time env"] by (simp add: bm_keys_ok_def)
  have s': "?s' = updateState_active env (be_time env) ?s0"
    by (simp add: onUserActiveWatch_def updateState_def)
  have same: "due_at env ?s1 = due_at env ?s'" "enabled_types ?s1 = enabled_types ?s'"
    unfolding s' by (simp_all add: due_at_def fun_eq_iff enabled_types_def updateState_defs creditIdleTime_def)
  have types: "enabled_types ?s1 = enabled_types s" by (simp add: enabled_types_def)
  have "due_at env ?s1 k = due_at env s k"
    using idle_time_credited [OF assms(1,3,4,6), of env] assms(8) by (simp add: same)
  then have "\<exists>k \<in> set (enabled_types ?s1). due_at env ?s1 k \<le> be_time env"
    using assms(6,7) unfolding types by (intro bexI [of _ k]) simp_all
  moreover have "times_positive env ?s1" using assms(5) by (simp add: times_positive_def same)
  ultimately have due: "fst (getNextBreakDue env ?s1 (be_time env)) \<noteq> None
      \<and> snd (getNextBreakDue env ?s1 (be_time env)) \<le> be_time env"
    using getNextBreakDue_due_iff [OF keys1] by blast
  then have "?s' = bm_do ThawNotify ?s1"
    unfolding s' using assms(2) by (simp add: updateState_active_def Let_def split_def)
  moreover have "bm_trace ?s1 = bm_trace s @ [Call (WatchRemove (bm_activeWatchId s)),
      Call FreezeNotify, Call NotifyNextBreakDueTime, Call NotifyLastBreakEndTime]"
    using assms(4) by (simp add: creditIdleTime_def)
  ultimately show ?thesis using assms(2) by auto
qed

text \<open>The demo manager in the middle of its break: due at 1900, idle, at 2000.\<close>

abbreviation demo_break :: bm where
  "demo_break \<equiv> onTimer (demo_at 2000) demo_idle"

lemma demo_break_reachable: "bm_reachable demo_break"
proof (rule bm_reachable.step [OF demo_idle_reachable fresh_demo_env])
  have "bm_timerId demo_idle \<noteq> 0" by (simp add: demo_eval)
  then show "bm_step (demo_at 2000) demo_idle demo_break" by (rule bm_step.timer)
qed

theorem interrupted_break_stays_in_break_witness:
  "bm_state (onUserActiveWatch (demo_at 2010) demo_break) = BS_IN_BREAK
   \<and> bm_idleState (onUserActiveWatch (demo_at 2010) demo_break) = Idle_ACTIVE"
proof -
  have "bm_state demo_break = BS_IN_BREAK" "bm_activeWatchId demo_break \<noteq> 0"
    "0 < bm_idleStartTime demo_break" "times_positive (demo_at 2010) (onUserActiveWatch (demo_at 2010) demo_break)"
    "''movement'' \<in> set (enabled_types demo_break)" "due_at (demo_at 2010) demo_break ''movement'' \<le> be_time (demo_at 2010)"
    "be_time (demo_at 2010) - bm_idleStartTime demo_break
       < real (duration_seconds (be_settings (demo_at 2010) ''movement''))"
    by (simp_all add: demo_eval)
  from interrupted_break_stays_in_break [OF demo_break_reachable this] show ?thesis by blast
qed

text \<open>When two types are due the returned time need not be that of the returned type: with
  eyesight breaks of 20 minutes due at 900 and movement breaks of 5 minutes due at 500, the result
  at time 1000 is eyesight with the time of movement.\<close>

theorem getNextBreakDue_time_of_other_type:
  "getNextBreakDue
     (demo_env 1000 [] ((\<lambda>_. demo_settings)(''eyesight'' := demo_settings\<lparr>interval_seconds := 800, duration_seconds := 1200\<rparr>,
        ''movement'' := demo_settings\<lparr>interval_seconds := 400, duration_seconds := 300\<rparr>)))
     (demo_start\<lparr>bm_breakTypeSettings := [(''eyesight'', ''eyesight''), (''movement'', ''movement'')],
        bm_breakLastEnd := [(''eyesight'', 100), (''movement'', 100)]\<rparr>) 1000
   = (Some ''eyesight'', 500)"
  by (simp add: getNextBreakDue_def nextBreakDue_step_def demo_env_def demo_settings_def)

end
