(* ===== verification/BreakNotifyProps.thy ===== *)
theory BreakNotifyProps
  imports BreakNotify BreakProps
begin

section \<open>Break reminders: what the notifications and effects do\<close>

text \<open>
  The time spans of the texts and when they are refreshed, the timers of the notification source
  and of the dispatcher (both instances of the timer-slot interface), the notification before a
  break, and the effects on the screen.
\<close>

subsection \<open>Time spans\<close>

definition update_after :: "real \<Rightarrow> real" where
  "update_after secs = snd (snd (formatTimeSpan secs))"

lemma floor_div: "\<lfloor>real_of_int n / real_of_int d\<rfloor> = n div d"
  by (rule floor_divide_of_int_eq)

lemma js_mod_int: "js_mod (real_of_int n / real_of_int k) (real_of_int d) * real_of_int k = real_of_int (n mod (k * d))"
  if "0 < k"
proof -
  have "\<lfloor>real_of_int n / real_of_int k / real_of_int d\<rfloor> = n div (k * d)"
    using floor_div [of n "k * d"] by simp
  moreover have "real_of_int (n mod (k * d)) = real_of_int n - real_of_int k * real_of_int d * real_of_int (n div (k * d))"
    by (metis minus_mult_div_eq_mod of_int_diff of_int_mult)
  moreover have "js_mod (real_of_int n / real_of_int k) (real_of_int d) * real_of_int k
      = real_of_int n - real_of_int k * real_of_int d * real_of_int \<lfloor>real_of_int n / real_of_int k / real_of_int d\<rfloor>"
    using that by (simp add: js_mod_def left_diff_distrib)
  ultimately show ?thesis by simp
qed

lemma span_int:
  assumes "0 \<le> n"
  shows "span_text (real_of_int n) = (if n < 60 then (Seconds, n) else if n < 3600 then (Minutes, n div 60)
      else if n < 86400 then (Hours, n div 3600) else (Days, n div 86400))"
proof -
  have "\<lfloor>real_of_int n / 60\<rfloor> = n div 60" "\<lfloor>real_of_int n / 60 / 60\<rfloor> = n div 3600"
    "\<lfloor>real_of_int n / 60 / 60 / 24\<rfloor> = n div 86400"
    using floor_div [of n 60] floor_div [of n 3600] floor_div [of n 86400] by simp_all
  then show ?thesis by (auto simp: span_text_def formatTimeSpan_def Let_def)
qed

lemma update_int:
  assumes "0 \<le> n"
  shows "update_after (real_of_int n) = real_of_int (if n < 60 then 1 else if n < 3600 then 60 - n mod 60
      else if n < 86400 then 3600 - n mod 3600 else 86400 - n mod 86400)"
proof -
  have "js_mod (real_of_int n) 60 = real_of_int (n mod 60)"
    "js_mod (real_of_int n / 60) 60 * 60 = real_of_int (n mod 3600)"
    "js_mod (real_of_int n / 60 / 60) 24 * 3600 = real_of_int (n mod 86400)"
    using js_mod_int [of 1 n 60] js_mod_int [of 60 n 60] js_mod_int [of 3600 n 24] by simp_all
  then show ?thesis by (auto simp: update_after_def formatTimeSpan_def Let_def field_simps)
qed

lemma div_stays:
  assumes "0 < (k :: int)" and "0 \<le> d" and "d < k - n mod k"
  shows "(n + d) div k = n div k"
proof -
  have "n + d = k * (n div k) + (n mod k + d)" by (simp add: algebra_simps)
  then have "(n + d) div k = n div k + (n mod k + d) div k" using assms(1) by (metis div_mult_self4 less_int_code(1) add.commute)
  moreover have "(n mod k + d) div k = 0" using assms pos_mod_sign [OF assms(1), of n]
    by (intro div_pos_pos_trivial) linarith+
  ultimately show ?thesis by simp
qed

lemma div_below:
  assumes "m div (k :: int) = n div k" and "n < k * j" and "0 < k"
  shows "m < k * j"
proof -
  have "k * (n div k) < k * j" using assms(2,3) pos_mod_sign [of k n] mult_div_mod_eq [of k n]
    by linarith
  then have "n div k + 1 \<le> j" using assms(3) by simp
  then have "k * (m div k + 1) \<le> k * j" using assms(1,3) by simp
  moreover have "m < k * (m div k + 1)"
    using pos_mod_bound [OF assms(3), of m] mult_div_mod_eq [of k m] by (simp only: distrib_left)
  ultimately show ?thesis by linarith
qed

text \<open>
  The seconds after which a text that counts up would read differently: the text of an elapsed
  time stays until then and changes at that second.
\<close>

lemma text_stays_until_update:
  assumes n: "0 \<le> n" and d: "0 \<le> d" "real_of_int d < update_after (real_of_int n)"
  shows "span_text (real_of_int (n + d)) = span_text (real_of_int n)"
proof -
  have n60: "d = 0" if "n < 60" using d that by (simp add: update_int n)
  have m60: "(n + d) div 60 = n div 60 \<and> n + d < 3600" if "\<not> n < 60" "n < 3600"
  proof -
    have "d < 60 - n mod 60" using d that by (simp add: update_int n)
    then have "(n + d) div 60 = n div 60" using div_stays [of 60 d n] d by simp
    moreover from this have "n + d < 60 * 60" by (rule div_below) (use that in simp_all)
    ultimately show ?thesis by simp
  qed
  have h: "(n + d) div 3600 = n div 3600 \<and> n + d < 86400" if "\<not> n < 3600" "n < 86400"
  proof -
    have "d < 3600 - n mod 3600" using d that by (simp add: update_int n)
    then have "(n + d) div 3600 = n div 3600" using div_stays [of 3600 d n] d by simp
    moreover from this have "n + d < 3600 * 24" by (rule div_below) (use that in simp_all)
    ultimately show ?thesis by simp
  qed
  have dd: "(n + d) div 86400 = n div 86400" if "\<not> n < 86400"
  proof -
    have "d < 86400 - n mod 86400" using d that by (simp add: update_int n)
    then show ?thesis using div_stays [of 86400 d n] d by simp
  qed
  have "0 \<le> n + d" using n d by simp
  then show ?thesis using n d n60 m60 h dd by (simp add: span_int del: of_int_add)
qed

lemma div_steps: "0 < (k :: int) \<Longrightarrow> (n + (k - n mod k)) div k = n div k + 1"
proof -
  assume k: "0 < k"
  have "n + (k - n mod k) = k * (n div k + 1)" by (simp add: algebra_simps minus_mod_eq_mult_div)
  then show ?thesis using k by simp
qed

lemma text_changes_at_update:
  assumes n: "0 \<le> n" and d: "real_of_int d = update_after (real_of_int n)"
  shows "span_text (real_of_int (n + d)) \<noteq> span_text (real_of_int n)"
proof -
  have d': "d = (if n < 60 then 1 else if n < 3600 then 60 - n mod 60
      else if n < 86400 then 3600 - n mod 3600 else 86400 - n mod 86400)"
    using d by (simp only: update_int [OF n] of_int_eq_iff)
  have nd: "0 \<le> n + d" using n by (simp add: d')
  have later: "span_text (real_of_int (n + d)) = (if n + d < 60 then (Seconds, n + d)
      else if n + d < 3600 then (Minutes, (n + d) div 60)
      else if n + d < 86400 then (Hours, (n + d) div 3600) else (Days, (n + d) div 86400))"
    by (rule span_int [OF nd])
  consider "n < 60" | "60 \<le> n" "n < 3600" | "3600 \<le> n" "n < 86400" | "86400 \<le> n" by linarith
  then show ?thesis
  proof cases
    case 1
    then show ?thesis by (simp add: later span_int n d' del: of_int_add)
  next
    case 2
    then have "(n + d) div 60 = n div 60 + 1" "60 \<le> n + d" using div_steps [of 60 n] by (simp_all add: d')
    then show ?thesis using 2 by (simp add: later span_int n del: of_int_add)
  next
    case 3
    then have "(n + d) div 3600 = n div 3600 + 1" "3600 \<le> n + d" using div_steps [of 3600 n] by (simp_all add: d')
    then show ?thesis using 3 by (simp add: later span_int n del: of_int_add)
  next
    case 4
    then have "(n + d) div 86400 = n div 86400 + 1" "86400 \<le> n + d" using div_steps [of 86400 n] by (simp_all add: d')
    then show ?thesis using 4 by (simp add: later span_int n del: of_int_add)
  qed
qed

text \<open>The text of a time span counted up (in whole seconds) reads the same until the number of
  seconds \<open>_formatTimeSpan\<close> returns has passed, and reads differently at that second.\<close>

theorem elapsed_text_refreshed_exactly:
  "let u = snd (snd (formatTimeSpan (real n))) in
     list_all (\<lambda>d. span_text (real (n + d)) = span_text (real n)) [0..<nat \<lceil>u\<rceil>]
     \<and> span_text (real n + u) \<noteq> span_text (real n) \<and> 1 \<le> u"
proof -
  define u where "u = update_after (real n)"
  have i: "u = update_after (real_of_int (int n))" by (simp add: u_def)
  obtain k where k: "u = real_of_int k" "1 \<le> k"
    using update_int [of "int n"] pos_mod_bound [of 60 "int n"] pos_mod_bound [of 3600 "int n"]
      pos_mod_bound [of 86400 "int n"] unfolding i by (auto simp: le_diff_eq add1_zle_eq [symmetric])
  have "span_text (real (n + d)) = span_text (real n)" if "d < nat k" for d
    using text_stays_until_update [of "int n" "int d"] that k by (simp add: i)
  moreover have "span_text (real n + u) \<noteq> span_text (real n)"
    using text_changes_at_update [of "int n" k] k by (simp add: i)
  ultimately show ?thesis using k unfolding update_after_def [symmetric] u_def [symmetric] Let_def
    by (simp add: list_all_iff)
qed

subsection \<open>The timer slots\<close>

interpretation bn_slot: timer_slot bn_timerId bn_trace bn_scheduleUpdateState bn_timerFired
  by unfold_locales (auto simp: bn_scheduleUpdateState_def bn_timerFired_def cancel_calls_def Let_def)

lemma bn_do_frame [simp]:
  "bn_source (bn_do c s) = bn_source s" "bn_notification (bn_do c s) = bn_notification s"
  "bn_timerId (bn_do c s) = bn_timerId s" "bn_manager (bn_do c s) = bn_manager s"
  "bn_previousState (bn_do c s) = bn_previousState s" "bn_trace (bn_do c s) = bn_trace s @ [Call c]"
  by (simp_all add: bn_do_def)

lemma bn_slot_iff: "bn_slot.slot_ok s \<longleftrightarrow>
    sources (bn_trace s) = Some (if bn_timerId s = 0 then {} else {bn_timerId s})"
  by (simp add: bn_slot.slot_ok_def)

lemma bn_slot_do [simp]: "bn_slot.slot_ok (bn_do c s) = bn_slot.slot_ok s"
  by (simp add: bn_slot_iff)

lemma bn_slot_fields [simp]:
  "bn_slot.slot_ok (s\<lparr>bn_source := a\<rparr>) = bn_slot.slot_ok s"
  "bn_slot.slot_ok (s\<lparr>bn_notification := b\<rparr>) = bn_slot.slot_ok s"
  "bn_slot.slot_ok (s\<lparr>bn_manager := c\<rparr>) = bn_slot.slot_ok s"
  "bn_slot.slot_ok (s\<lparr>bn_previousState := d\<rparr>) = bn_slot.slot_ok s"
  by (simp_all add: bn_slot_iff)

lemma bn_schedule_frame [simp]:
  "bn_source (bn_scheduleUpdateState mk d s) = bn_source s"
  "bn_notification (bn_scheduleUpdateState mk d s) = bn_notification s"
  "bn_manager (bn_scheduleUpdateState mk d s) = bn_manager s"
  "bn_previousState (bn_scheduleUpdateState mk d s) = bn_previousState s"
  by (simp_all add: bn_scheduleUpdateState_def Let_def)

text \<open>What every operation of the source keeps.\<close>

definition bn_ok :: "bn \<Rightarrow> bool" where
  "bn_ok s \<longleftrightarrow> bn_slot.slot_ok s \<and> (bn_notification s \<noteq> None \<longrightarrow> bn_source s)
     \<and> (bn_manager s \<or> bn_notification s = None \<and> \<not> bn_source s \<and> bn_timerId s = 0)"

lemma showNotification_ok: "bn_ok s \<Longrightarrow> bn_manager s \<Longrightarrow> bn_ok (showNotification n s) \<and> bn_manager (showNotification n s)"
  by (simp add: bn_ok_def showNotification_def Let_def)

lemma bn_schedule_ok: "fresh_ids mk \<Longrightarrow> bn_ok s \<Longrightarrow> bn_manager s \<Longrightarrow>
    bn_ok (bn_scheduleUpdateState mk d s) \<and> bn_manager (bn_scheduleUpdateState mk d s)"
  by (simp add: bn_ok_def bn_slot.schedule_ok)

lemma destroyNotification_ok: "bn_ok s \<Longrightarrow> bn_manager s \<Longrightarrow>
    bn_ok (destroyNotification r s) \<and> bn_manager (destroyNotification r s)"
  by (simp add: bn_ok_def destroyNotification_def Let_def)

lemma bn_destroy_ok:
  assumes "bn_ok s"
  shows "bn_ok (bn_destroy s) \<and> sources (bn_trace (bn_destroy s)) = Some {} \<and> \<not> bn_manager (bn_destroy s)"
  using assms by (cases "bn_notification s") (simp_all add: bn_ok_def bn_destroy_def destroyNotification_def bn_slot_iff Let_def)

lemma upcoming_loop_ok: "fresh_ids mk \<Longrightarrow> bn_ok s \<Longrightarrow> bn_manager s \<Longrightarrow>
    bn_ok (upcoming_loop env m mk bt r ts s) \<and> bn_manager (upcoming_loop env m mk bt r ts s)"
  by (induction env m mk bt r ts s rule: upcoming_loop.induct)
    (simp_all add: bn_schedule_ok showNotification_ok)

lemma bn_active_ok: "fresh_ids mk \<Longrightarrow> bn_ok s \<Longrightarrow> bn_manager s \<Longrightarrow>
    bn_ok (bn_active env m mk s) \<and> bn_manager (bn_active env m mk s)"
  by (simp add: bn_active_def destroyNotification_ok upcoming_loop_ok split_def Let_def)

lemma bn_inBreak_ok: "fresh_ids mk \<Longrightarrow> bn_ok s \<Longrightarrow> bn_manager s \<Longrightarrow>
    bn_ok (bn_inBreak env m mk s) \<and> bn_manager (bn_inBreak env m mk s)"
  by (simp add: bn_inBreak_def destroyNotification_ok bn_schedule_ok showNotification_ok Let_def)

lemma bn_breakDue_ok: "fresh_ids mk \<Longrightarrow> bn_ok s \<Longrightarrow> bn_manager s \<Longrightarrow>
    bn_ok (bn_breakDue env m mk s) \<and> bn_manager (bn_breakDue env m mk s)"
  by (simp add: bn_breakDue_def split_def Let_def bn_schedule_ok showNotification_ok)

lemma bn_updateState_ok:
  assumes "fresh_ids mk" and "bn_ok s" and "bn_manager s"
  shows "bn_ok (bn_updateState env m mk s)"
    and "bn_manager (bn_updateState env m mk s) \<longleftrightarrow> bm_state m \<noteq> BS_DISABLED"
  using bn_active_ok [OF assms] bn_inBreak_ok [OF assms] bn_breakDue_ok [OF assms] bn_destroy_ok [OF assms(2)] assms(2,3)
  by (cases "bm_state m"; simp add: bn_updateState_def)+

inductive bn_reachable :: "bn_call idgen \<Rightarrow> bn \<Rightarrow> bool" for mk :: "bn_call idgen" where
  created: "bm_state m \<noteq> BS_DISABLED \<Longrightarrow> bn_reachable mk (newBreakNotificationSource env m mk)"
| state_changed: "bn_reachable mk s \<Longrightarrow> bn_manager s \<Longrightarrow> bn_onStateChanged env m mk s = Some s' \<Longrightarrow> bn_reachable mk s'"
| timer: "bn_reachable mk s \<Longrightarrow> bn_timerId s \<noteq> 0 \<Longrightarrow> bn_reachable mk (bn_onTimer env m mk s)"
| user: "bn_reachable mk s \<Longrightarrow> bn_notification s \<noteq> None \<Longrightarrow> bn_reachable mk (destroyNotification reason s)"
| destroyed: "bn_reachable mk s \<Longrightarrow> bn_reachable mk (bn_destroy s)"

lemma bn_reachable_ok: "bn_reachable mk s \<Longrightarrow> fresh_ids mk \<Longrightarrow> bn_ok s"
proof (induction rule: bn_reachable.induct)
  case (created m env)
  have "bn_ok \<lparr>bn_source = False, bn_notification = None, bn_timerId = 0, bn_manager = True,
      bn_previousState = BS_DISABLED, bn_trace = []\<rparr>"
    by (simp add: bn_ok_def bn_slot_iff)
  then show ?case using created.prems by (simp add: newBreakNotificationSource_def bn_updateState_ok)
next
  case (state_changed s env m s')
  have "bn_ok (bn_updateState env m mk s)"
    by (rule bn_updateState_ok [OF state_changed.prems state_changed.IH [OF state_changed.prems] state_changed.hyps(2)])
  then show ?case using state_changed.hyps(3)
    by (auto simp: bn_onStateChanged_def Let_def bn_ok_def split: if_splits)
next
  case (timer s env m)
  have ok: "bn_ok s" by (rule timer.IH [OF timer.prems])
  then have "bn_slot.slot_ok (bn_timerFired s)" using timer.hyps(2) by (simp add: bn_ok_def bn_slot.fired_ok)
  moreover have mg: "bn_manager (bn_timerFired s)"
    using ok timer.hyps(2) by (simp add: bn_ok_def bn_timerFired_def)
  ultimately have "bn_ok (bn_timerFired s)" using ok by (simp add: bn_ok_def bn_timerFired_def)
  then show ?case unfolding bn_onTimer_def by (rule bn_updateState_ok [OF timer.prems]) (rule mg)
next
  case (user s reason)
  then show ?case
    by (cases "bn_manager s") (auto simp: destroyNotification_ok, simp add: bn_ok_def)
next
  case (destroyed s)
  then show ?case by (simp add: bn_destroy_ok)
qed

text \<open>In every reachable state of a notification source the only timer is the recorded one, a
  notification is never left without the message source that shows it, and once the source has let
  go of the manager (it was destroyed, or the manager was disabled) nothing is left of it.\<close>

theorem break_notification_resources_exact:
  assumes "fresh_ids mk" and "bn_reachable mk s"
  shows "sources (bn_trace s) = Some (if bn_timerId s = 0 then {} else {bn_timerId s})
    \<and> (bn_notification s = None \<or> bn_source s)
    \<and> (bn_manager s \<or> sources (bn_trace s) = Some {} \<and> \<not> bn_source s \<and> bn_notification s = None)"
  using bn_reachable_ok [OF assms(2,1)] by (auto simp: bn_ok_def bn_slot_iff)

lemma demo_start_enabled: "bm_state demo_start \<noteq> BS_DISABLED"
  using demo_start_state by simp

lemma break_notification_resources_exact_witness:
  "sources (bn_trace (bn_destroy (newBreakNotificationSource (demo_at 200) demo_start count_ids))) = Some {}"
proof -
  have "\<not> bn_manager (bn_destroy s)" for s by (simp add: bn_destroy_def Let_def)
  then show ?thesis
    using break_notification_resources_exact [OF fresh_count_ids
      bn_reachable.destroyed [OF bn_reachable.created [where env = "demo_at 200", OF demo_start_enabled]]]
    by blast
qed

subsection \<open>The notification before a break\<close>

lemma upcoming_schedules:
  assumes "bm_state m = BS_ACTIVE" and "bn_previousState s \<noteq> BS_IN_BREAK"
    and "getNextBreakDue env m (be_time env) = (bt, due)" and "breakTypeShouldNotifyUpcoming env m bt"
    and "due - be_time env > 120"
  shows "bn_updateState env m mk s = bn_scheduleUpdateState mk (due - be_time env - 120) s"
  using assms by (simp add: bn_updateState_def bn_active_def BREAK_UPCOMING_NOTIFICATION_TIME_SECONDS_def)

lemma upcoming_shows:
  assumes "bm_state m = BS_ACTIVE" and "bn_previousState s \<noteq> BS_IN_BREAK"
    and "getNextBreakDue env m (be_time env) = (bt, due)" and "breakTypeShouldNotifyUpcoming env m bt"
    and "due - be_time env \<le> 120"
  shows "bn_updateState env m mk s =
    (if due - be_time env > 119 then showNotification (upcomingNotification env m bt (due - be_time env)) s else s)"
proof -
  have "\<lceil>due - be_time env\<rceil> = 120 \<longleftrightarrow> due - be_time env > 119" using assms(5) by (auto simp: ceiling_eq_iff)
  then show ?thesis using assms
    by (simp add: bn_updateState_def bn_active_def BREAK_UPCOMING_NOTIFICATION_TIME_SECONDS_def)
qed

text \<open>While the manager is active, with more than two minutes to the next break and its type asking
  for the warning, a timer is set for two minutes before the break, rounded up to a second. When it
  fires, late or not, with the manager as it was, the warning is shown if more than 119 seconds are
  left; otherwise nothing is shown and no timer is left to show it.\<close>

theorem upcoming_notification_on_time:
  assumes "fresh_ids mk" and "bm_state m = BS_ACTIVE" and "bn_previousState s \<noteq> BS_IN_BREAK"
    and "getNextBreakDue env m (be_time env) = (bt, due)" and "breakTypeShouldNotifyUpcoming env m bt"
    and "due - be_time env > 120"
    and "env' = env\<lparr>be_time := be_time env + real_of_int \<lceil>due - be_time env - 120\<rceil> + late\<rparr>" and "0 \<le> late"
    and "getNextBreakDue env' m (be_time env') = (bt, due)"
  shows "let s1 = bn_updateState env m mk s; s2 = bn_onTimer env' m mk s1 in
    last (bn_trace s1) = SourceAdd (bn_timerId s1) \<lceil>due - be_time env - 120\<rceil> \<and> bn_timerId s1 \<noteq> 0
    \<and> (if due - be_time env' > 119
       then bn_notification s2 = Some (upcomingNotification env' m bt (due - be_time env'))
         \<and> nt_title (upcomingNotification env' m bt (due - be_time env')) \<in>
             {''Movement Break Soon'', ''Eyesight Break Soon'', ''Break Soon''}
       else bn_notification s2 = bn_notification s \<and> bn_timerId s2 = 0)"
proof -
  define s1 where "s1 = bn_updateState env m mk s"
  have s1: "s1 = bn_scheduleUpdateState mk (due - be_time env - 120) s"
    unfolding s1_def by (rule upcoming_schedules [OF assms(2-6)])
  have flag: "breakTypeShouldNotifyUpcoming env' m bt"
  proof -
    have "be_settings env' = be_settings env" by (simp add: assms(7))
    then have "breakTypeShouldNotifyUpcoming env' m bt = breakTypeShouldNotifyUpcoming env m bt"
      by (simp only: breakTypeShouldNotifyUpcoming_def bm_flag_def)
    then show ?thesis using assms(5) by simp
  qed
  have "due - be_time env' \<le> 120" using assms(7,8) by (simp, linarith)
  moreover have "bn_previousState (bn_timerFired s1) \<noteq> BS_IN_BREAK" using assms(3) by (simp add: s1 bn_timerFired_def)
  ultimately have s2: "bn_onTimer env' m mk s1 = (if due - be_time env' > 119
      then showNotification (upcomingNotification env' m bt (due - be_time env')) (bn_timerFired s1)
      else bn_timerFired s1)"
    unfolding bn_onTimer_def by (rule upcoming_shows [OF assms(2) _ assms(9) flag, rotated])
  have "last (bn_trace s1) = SourceAdd (bn_timerId s1) \<lceil>due - be_time env - 120\<rceil>"
    by (simp add: s1 bn_slot.schedule_trace bn_slot.schedule_timer)
  moreover have "bn_timerId s1 \<noteq> 0" unfolding s1 by (rule bn_slot.schedule_set [OF assms(1)])
  moreover have "bn_notification (showNotification n t) = Some n" for n t by (simp add: showNotification_def Let_def)
  ultimately show ?thesis unfolding Let_def s1_def [symmetric] s2
    by (auto simp: upcomingNotification_def titleFor_def bn_timerFired_def s1)
qed

lemma upcoming_notification_on_time_witness:
  "bn_notification (bn_onTimer (demo_at 1780) demo_start count_ids
     (newBreakNotificationSource (demo_at 200) demo_start count_ids)) \<noteq> None"
proof -
  let ?s = "\<lparr>bn_source = False, bn_notification = None, bn_timerId = 0, bn_manager = True,
      bn_previousState = BS_DISABLED, bn_trace = []\<rparr> :: bn"
  have due: "getNextBreakDue (demo_at t) demo_start t = (Some ''movement'', 1900)" if "t < 1900" for t
    using that demo_start_state by (simp add: getNextBreakDue_def nextBreakDue_step_def demo_env_def demo_settings_def)
  have flag: "breakTypeShouldNotifyUpcoming (demo_at 200) demo_start (Some ''movement'')"
    using demo_start_state by (simp add: breakTypeShouldNotifyUpcoming_def bm_flag_def demo_env_def demo_settings_def)
  have time: "be_time (demo_at t) = t" for t by (simp add: demo_env_def)
  have "demo_at 1780 = (demo_at 200)\<lparr>be_time := be_time (demo_at 200)
      + real_of_int \<lceil>1900 - be_time (demo_at 200) - 120\<rceil> + 0\<rparr>" by (simp add: demo_env_def)
  from upcoming_notification_on_time [where s = ?s and mk = count_ids, OF fresh_count_ids _ _ _ flag _ this]
  show ?thesis using demo_start_state due [of 200] due [of 1780]
    by (simp add: newBreakNotificationSource_def Let_def time)
qed

subsection \<open>Texts of the time that remains\<close>

text \<open>
  The same refresh times are used for texts that count down. With a minute and a half or less to
  go the text of the remaining time is out of date for most of a minute: it still says one minute
  when a few seconds are left.
\<close>

lemma inBreak_refresh:
  assumes "bm_state m = BS_IN_BREAK"
    and "real (getDurationForBreakType env m (or_else (bm_currentBreakType m) []))
           - (be_time env - currentBreakStartTime m) = real n" and "1 \<le> n"
  shows "bn_updateState env m mk s = bn_scheduleUpdateState mk (update_after (real n))
    (showNotification (inBreakNotification env m (real n)) s)"
  using assms by (simp add: bn_updateState_def bn_inBreak_def update_after_def Let_def)

theorem remaining_text_out_of_date:
  assumes "bm_state m = BS_IN_BREAK"
    and "real (getDurationForBreakType env m (or_else (bm_currentBreakType m) []))
           - (be_time env - currentBreakStartTime m) = real n"
    and "60 \<le> n" and "n < 90"
  shows "let s' = bn_updateState env m mk s in
     map_option nt_span (bn_notification s') = Some (Minutes, 1)
     \<and> last (bn_trace s') = SourceAdd (bn_timerId s') (120 - int n)
     \<and> real n - 59 < 120 - real n \<and> fst (span_text 59) = Seconds"
proof -
  have "int n mod 60 = int n - 60" using assms(3,4) mod_pos_pos_trivial [of "int n - 60" 60] by simp
  then have u: "update_after (real n) = 120 - real n"
    using update_int [of "int n"] assms(3,4) by simp
  have t: "span_text (real n) = (Minutes, 1)" using span_int [of "int n"] assms(3,4) by simp
  have "last (bn_trace (bn_scheduleUpdateState mk (120 - real n) s0)) =
      SourceAdd (bn_timerId (bn_scheduleUpdateState mk (120 - real n) s0)) (120 - int n)" for s0
  proof -
    have "\<lceil>120 - real n\<rceil> = 120 - int n" using ceiling_of_int [of "120 - int n"] by simp
    then show ?thesis by (simp only: bn_slot.schedule_trace bn_slot.schedule_timer) simp
  qed
  moreover have "bn_updateState env m mk s = bn_scheduleUpdateState mk (120 - real n)
      (showNotification (inBreakNotification env m (real n)) s)"
    using inBreak_refresh [OF assms(1,2)] assms(3) u by simp
  moreover have "span_text 59 = (Seconds, 59)" using span_int [of 59] by simp
  moreover have "real n < 90" using assms(4) by simp
  ultimately show ?thesis by (simp add: Let_def t showNotification_def inBreakNotification_def)
qed

subsection \<open>The countdown label\<close>

text \<open>
  A label made with less than a second to go destroys itself in its constructor, before its
  handler of \<open>destroy\<close> is connected: its timer is left behind, and the unredirection it then
  disables is not enabled again by destroying it.
\<close>

theorem late_label_keeps_unredirect_disabled:
  assumes "getNextBreakDueTime env m (be_time env) - be_time env < 1"
  shows "let s = osd_destroy (newOsd env m mk) in
    Call DisableUnredirect \<in> set (osd_trace s) \<and> Call EnableUnredirect \<notin> set (osd_trace s)
    \<and> sources (osd_trace s) = Some {osd_timerId s}"
  using assms by (simp add: newOsd_def osd_updateState_def osd_destroy_def Let_def sources_def)

theorem label_restores_unredirect:
  assumes "1 \<le> getNextBreakDueTime env m (be_time env) - be_time env" and "fresh_ids mk"
  shows "let s = osd_destroy (newOsd env m mk) in
    last (osd_trace s) = Call EnableUnredirect \<and> sources (osd_trace s) = Some {} \<and> osd_timerId s = 0"
proof -
  have "mk [] \<noteq> 0" using assms(2) by (simp add: fresh_ids_def)
  then show ?thesis using assms(1) by (simp add: newOsd_def osd_updateState_def osd_destroy_def Let_def sources_def)
qed

subsection \<open>The dispatcher\<close>

lemma bd_do_frame [simp]:
  "bd_source (bd_do c s) = bd_source s" "bd_effect (bd_do c s) = bd_effect s"
  "bd_osd (bd_do c s) = bd_osd s" "bd_countdownTimerId (bd_do c s) = bd_countdownTimerId s"
  "bd_previousState (bd_do c s) = bd_previousState s"
  "bd_previousBreakType (bd_do c s) = bd_previousBreakType s"
  "bd_trace (bd_do c s) = bd_trace s @ [Call c]"
  by (simp_all add: bd_do_def)

interpretation bd_slot: timer_slot bd_countdownTimerId bd_trace bd_scheduleCountdown bd_countdownFired
  by unfold_locales (auto simp: bd_scheduleCountdown_def bd_countdownFired_def cancel_calls_def Let_def)

lemma bd_slot_iff: "bd_slot.slot_ok s \<longleftrightarrow> sources (bd_trace s)
    = Some (if bd_countdownTimerId s = 0 then {} else {bd_countdownTimerId s})"
  by (simp add: bd_slot.slot_ok_def)

lemma bd_slot_do [simp]: "bd_slot.slot_ok (bd_do c s) = bd_slot.slot_ok s"
  by (simp add: bd_slot_iff)

lemma bd_slot_fields [simp]:
  "bd_slot.slot_ok (s\<lparr>bd_source := a\<rparr>) = bd_slot.slot_ok s"
  "bd_slot.slot_ok (s\<lparr>bd_effect := b\<rparr>) = bd_slot.slot_ok s"
  "bd_slot.slot_ok (s\<lparr>bd_osd := c\<rparr>) = bd_slot.slot_ok s"
  "bd_slot.slot_ok (s\<lparr>bd_previousState := d\<rparr>) = bd_slot.slot_ok s"
  "bd_slot.slot_ok (s\<lparr>bd_previousBreakType := e\<rparr>) = bd_slot.slot_ok s"
  by (simp_all add: bd_slot_iff)

lemma bd_schedule_frame [simp]:
  "bd_source (bd_scheduleCountdown mk d s) = bd_source s"
  "bd_effect (bd_scheduleCountdown mk d s) = bd_effect s"
  "bd_osd (bd_scheduleCountdown mk d s) = bd_osd s"
  by (simp_all add: bd_scheduleCountdown_def Let_def)

lemma bd_ensureEnabled_frame [simp]:
  "bd_slot.slot_ok (bd_ensureEnabled env m mk s) = bd_slot.slot_ok s"
  "\<exists>b. bd_source (bd_ensureEnabled env m mk s) = Some b"
  "\<exists>e. bd_effect (bd_ensureEnabled env m mk s) = Some e"
  "bd_effect s \<noteq> None \<Longrightarrow> bd_effect (bd_ensureEnabled env m mk s) = bd_effect s"
  "bd_osd (bd_ensureEnabled env m mk s) = bd_osd s"
  "bd_countdownTimerId (bd_ensureEnabled env m mk s) = bd_countdownTimerId s"
  "bd_previousState (bd_ensureEnabled env m mk s) = bd_previousState s"
  "bd_previousBreakType (bd_ensureEnabled env m mk s) = bd_previousBreakType s"
  by (auto simp: bd_ensureEnabled_def Let_def)

lemma bd_sound_frame [simp]:
  "bd_slot.slot_ok (bd_maybePlayCompleteSound env m s) = bd_slot.slot_ok s"
  "bd_source (bd_maybePlayCompleteSound env m s) = bd_source s"
  "bd_effect (bd_maybePlayCompleteSound env m s) = bd_effect s"
  "bd_osd (bd_maybePlayCompleteSound env m s) = bd_osd s"
  by (simp_all add: bd_maybePlayCompleteSound_def)

lemma bd_removeCountdown_frame [simp]:
  "bd_source (bd_removeCountdown s) = bd_source s" "bd_effect (bd_removeCountdown s) = bd_effect s"
  "bd_osd (bd_removeCountdown s) = False" "bd_countdownTimerId (bd_removeCountdown s) = 0"
  "bd_slot.slot_ok s \<Longrightarrow> bd_slot.slot_ok (bd_removeCountdown s)"
  by (simp_all add: bd_removeCountdown_def Let_def bd_slot_iff)

lemma bd_ensureDisabled_frame [simp]:
  "bd_source (bd_ensureDisabled s) = None" "bd_effect (bd_ensureDisabled s) = None"
  "bd_osd (bd_ensureDisabled s) = False" "bd_countdownTimerId (bd_ensureDisabled s) = 0"
  "bd_slot.slot_ok s \<Longrightarrow> bd_slot.slot_ok (bd_ensureDisabled s)"
  by (simp_all add: bd_ensureDisabled_def Let_def split: option.split)

lemma bd_active_frame:
  "bd_source (bd_active env m mk s) = bd_source s" "bd_effect (bd_active env m mk s) = Some False"
  "bd_osd (bd_active env m mk s) = bd_osd s"
  "fresh_ids mk \<Longrightarrow> bd_slot.slot_ok s \<Longrightarrow> bd_slot.slot_ok (bd_active env m mk s)"
  by (simp_all add: bd_active_def Let_def split_def bd_slot.schedule_ok)

lemma bd_on_frame [simp]:
  "bd_effect (bd_brightnessEffectOn s) = Some True" "bd_source (bd_brightnessEffectOn s) = bd_source s"
  "bd_slot.slot_ok (bd_brightnessEffectOn s) = bd_slot.slot_ok s"
  by (simp_all add: bd_brightnessEffectOn_def)

lemma bd_onStateChanged_frame:
  shows "bd_source (bd_onStateChanged env m mkn mk s) = None \<longleftrightarrow> bm_state m = BS_DISABLED"
    and "bd_effect (bd_onStateChanged env m mkn mk s) = None \<longleftrightarrow> bm_state m = BS_DISABLED"
    and "bm_state m = BS_ACTIVE \<or> bm_state m = BS_IDLE \<Longrightarrow> bd_effect (bd_onStateChanged env m mkn mk s) = Some False"
    and "bm_state m \<noteq> BS_ACTIVE \<Longrightarrow> bm_state m \<noteq> BS_IDLE \<Longrightarrow>
      \<not> bd_osd (bd_onStateChanged env m mkn mk s) \<and> bd_countdownTimerId (bd_onStateChanged env m mkn mk s) = 0"
  using bd_ensureEnabled_frame(2) [of env m mkn s] bd_ensureEnabled_frame(3) [of env m mkn s]
  by (cases "bm_state m"; auto simp: bd_onStateChanged_def Let_def bd_active_frame)+

lemma bd_locks_screen:
  assumes "bm_state m = BS_IN_BREAK" and "bd_previousState s \<noteq> BS_IN_BREAK"
    and "breakTypeShouldLockScreen env m (bm_currentBreakType m)"
  shows "Call ActivateLockScreen \<in> set (bd_trace (bd_onStateChanged env m mkn mk s))"
  using assms by (simp add: bd_onStateChanged_def Let_def bd_removeCountdown_def)

inductive bd_reachable :: "bn_call idgen \<Rightarrow> bd_call idgen \<Rightarrow> bd \<Rightarrow> bool"
  for mkn :: "bn_call idgen" and mk :: "bd_call idgen" where
  created: "bd_reachable mkn mk (newBreakDispatcher env m mkn)"
| state_changed: "bd_reachable mkn mk s \<Longrightarrow> bd_reachable mkn mk (bd_onStateChanged env m mkn mk s)"
| take_break: "bd_reachable mkn mk s \<Longrightarrow> bd_effect s \<noteq> None \<Longrightarrow> bd_reachable mkn mk (bd_onTakeBreak env m s)"
| countdown: "bd_reachable mkn mk s \<Longrightarrow> bd_countdownTimerId s \<noteq> 0 \<Longrightarrow> bd_reachable mkn mk (bd_onCountdown s)"
| label_gone: "bd_reachable mkn mk s \<Longrightarrow> bd_reachable mkn mk (bd_onOsdDestroyed s)"
| destroyed: "bd_reachable mkn mk s \<Longrightarrow> bd_reachable mkn mk (bd_destroy s)"

lemma bd_onStateChanged_ok:
  assumes "fresh_ids mk" and "bd_slot.slot_ok s"
  shows "bd_slot.slot_ok (bd_onStateChanged env m mkn mk s)"
  using assms by (cases "bm_state m") (simp_all add: bd_onStateChanged_def Let_def bd_active_frame)

lemma bd_reachable_ok: "bd_reachable mkn mk s \<Longrightarrow> fresh_ids mk \<Longrightarrow> bd_slot.slot_ok s"
proof (induction rule: bd_reachable.induct)
  case (created env m)
  have "bd_slot.slot_ok \<lparr>bd_source = None, bd_effect = None, bd_osd = False, bd_countdownTimerId = 0,
      bd_previousState = BS_DISABLED, bd_previousBreakType = None, bd_trace = []\<rparr>"
    by (simp add: bd_slot_iff)
  then show ?case by (simp add: newBreakDispatcher_def Let_def)
next
  case (countdown s)
  then have "bd_slot.slot_ok (bd_countdownFired s)" by (simp add: bd_slot.fired_ok)
  then show ?case by (simp add: bd_onCountdown_def Let_def)
qed (simp_all add: bd_onStateChanged_ok bd_onTakeBreak_def bd_onOsdDestroyed_def bd_destroy_def)

text \<open>The dispatcher's effects follow the manager's state. Disabled: no notification source, no
  brightness effect, no countdown. Active or idle: the screen is not dimmed. In a break or with one
  due: no countdown and no label; and on entering a break with the lock option set the screen is
  locked. In every state the only timer is the recorded one.\<close>

theorem break_screen_effects:
  assumes "fresh_ids mk" and "bd_reachable mkn mk s"
  shows "let s' = bd_onStateChanged env m mkn mk s in
    sources (bd_trace s') = Some (if bd_countdownTimerId s' = 0 then {} else {bd_countdownTimerId s'})
    \<and> (bd_source s' = None \<longleftrightarrow> bm_state m = BS_DISABLED) \<and> (bd_effect s' = None \<longleftrightarrow> bm_state m = BS_DISABLED)
    \<and> (if bm_state m \<in> {BS_ACTIVE, BS_IDLE} then bd_effect s' = Some False
       else \<not> bd_osd s' \<and> sources (bd_trace s') = Some {})
    \<and> (if bm_state m = BS_IN_BREAK \<and> bd_previousState s \<noteq> BS_IN_BREAK
          \<and> breakTypeShouldLockScreen env m (bm_currentBreakType m)
       then Call ActivateLockScreen \<in> set (bd_trace s') else True)"
proof -
  have ok: "bd_slot.slot_ok (bd_onStateChanged env m mkn mk s)"
    by (rule bd_onStateChanged_ok [OF assms(1) bd_reachable_ok [OF assms(2,1)]])
  show ?thesis unfolding Let_def ok [unfolded bd_slot_iff]
    using bd_onStateChanged_frame [where env = env and m = m and mkn = mkn and mk = mk and s = s]
      bd_locks_screen [where env = env and m = m and mkn = mkn and mk = mk and s = s]
    by (cases "bm_state m") auto
qed

lemma break_screen_effects_witness:
  "bd_effect (bd_onStateChanged (demo_at 200) demo_start count_ids count_ids
      (newBreakDispatcher (demo_at 200) demo_start count_ids)) = Some False"
  using break_screen_effects [OF fresh_count_ids bd_reachable.created [of count_ids count_ids "demo_at 200" demo_start],
      of "demo_at 200" demo_start] demo_start_state
  by (auto simp: Let_def)

end
