(* ===== verification/TimeLimits.thy ===== *)
theory TimeLimits
  imports MainLoop
begin

section \<open>Screen time limits: the manager (\<open>js/misc/timeLimitsManager.js\<close>)\<close>

text \<open>
  The state of a \<open>TimeLimitsManager\<close>, its calculations over the history of the user's
  activity, its state machine and the history file. Times are whole seconds (the clock is
  floored), so they are \<open>int\<close>. An \<open>async\<close> method is one definition per stretch of code
  between two \<open>await\<close>s; other callbacks may run in between. The clock, the settings, logind's
  view of the user, the calendar of the local time zone (GLib.DateTime) and the contents of the
  history file are fields of an environment \<open>tl_env\<close>. Debug output and \<open>console.assert\<close> are
  left out.
\<close>

subsection \<open>Data\<close>

definition HISTORY_THRESHOLD_SECONDS :: int where
  "HISTORY_THRESHOLD_SECONDS = 14 * 7 * 24 * 60 * 60"

datatype limits_state = TL_DISABLED | TL_ACTIVE | TL_LIMIT_REACHED

datatype user_state = US_INACTIVE | US_ACTIVE

fun user_state_value :: "user_state \<Rightarrow> real" where
  "user_state_value US_INACTIVE = 0"
| "user_state_value US_ACTIVE = 1"

definition TimeLimitsState :: "(string, int) jsmap" where
  "TimeLimitsState = [(''DISABLED'', 0), (''ACTIVE'', 1), (''LIMIT_REACHED'', 2)]"

definition timeLimitsStateToString :: "int \<Rightarrow> string option" where
  "timeLimitsStateToString v = find (\<lambda>k. jm_get TimeLimitsState k = Some v) (jm_keys TimeLimitsState)"

definition UserState :: "(string, int) jsmap" where
  "UserState = [(''INACTIVE'', 0), (''ACTIVE'', 1)]"

definition userStateToString :: "int \<Rightarrow> string option" where
  "userStateToString v = find (\<lambda>k. jm_get UserState k = Some v) (jm_keys UserState)"

record transition =
  oldState :: user_state
  newState :: user_state
  wallTimeSecs :: int

text \<open>What reading the history file gives; \<open>None\<close> for text that \<open>JSON.parse\<close> rejects.\<close>

datatype file_read = FileNotFound | FileError | FileContents "json option"

datatype tl_call =
    TlFreeze | TlThaw | TlNotifyState | TlNotifyDailyLimitTime | TlEmitLimitReached
  | TlTimeChangeAdd nat | TlTimeChangeRemove nat
  | TlFileReplace "transition list" | TlFileDelete
  | TlInhibit | TlCloseInhibitor
  | TlConnectLoginManager | TlDisconnectLoginManager
  | TlConnectLoginUser | TlDisconnectLoginUser | TlCancel

record tl_env =
  te_now :: int                    \<comment> \<open>\<open>this._clock.getRealTimeSecs()\<close>\<close>
  te_monotonic :: int              \<comment> \<open>\<open>this._clock.getMonotonicTimeSecs()\<close>\<close>
  te_historyEnabled :: bool
  te_dailyLimitEnabled :: bool
  te_dailyLimitSeconds :: nat
  te_grayscale :: bool
  te_three :: "int \<Rightarrow> int"         \<comment> \<open>03:00 local time of the day a Unix time falls on\<close>
  te_addDays :: "int \<Rightarrow> int \<Rightarrow> int" \<comment> \<open>\<open>DateTime.add_days\<close>, on Unix times\<close>
  te_userActive :: bool            \<comment> \<open>\<open>this._loginUser.State === 'active'\<close>\<close>
  te_idleHint :: bool
  te_preparingForSleep :: bool
  te_source_id :: "tl_call idgen"
  te_time_change_id :: "tl_call trace \<Rightarrow> nat option"  \<comment> \<open>\<open>None\<close>: \<open>timeChangeNotify\<close> throws\<close>

record tl =
  tl_state :: limits_state
  tl_userState :: "user_state option"     \<comment> \<open>\<open>None\<close>: \<open>undefined\<close>, before the first start\<close>
  tl_transitions :: "transition list"
  tl_cancellable :: bool
  tl_loginManager :: bool
  tl_inhibitor :: bool
  tl_loginUser :: bool
  tl_lastStateChangeTimeSecs :: int
  tl_timerId :: nat
  tl_timeChangeId :: nat
  tl_clockOffsetSecs :: int
  tl_ignoreClockOffsetChanges :: bool
  tl_trace :: "tl_call trace"

definition tl_do :: "tl_call \<Rightarrow> tl \<Rightarrow> tl" where
  "tl_do c s = s\<lparr>tl_trace := tl_trace s @ [Call c]\<rparr>"

subsection \<open>Calculations over the history\<close>

text \<open>\<open>_getStartOfTodaySecs\<close>: the day starts at 03:00 local time.\<close>

definition getStartOfTodaySecs :: "tl_env \<Rightarrow> int \<Rightarrow> int \<times> int" where
  "getStartOfTodaySecs env nowSecs =
     (let three = te_three env nowSecs;
          startOfToday = (if nowSecs < three then te_addDays env three (- 1) else three)
      in (startOfToday, te_addDays env startOfToday 1))"

text \<open>
  The body of the loop that \<open>_calculateActiveTimeTodaySecs\<close> and
  \<open>_calculateDailyLimitReachedAtSecs\<close> share, on (\<open>activeTimeTodaySecs\<close>, \<open>activeStartTimeSecs\<close>).
\<close>

definition activeTime_step :: "transition \<Rightarrow> int \<times> int \<Rightarrow> int \<times> int" where
  "activeTime_step e = (\<lambda>(acc, began).
     if newState e = US_ACTIVE then (acc, wallTimeSecs e)
     else if oldState e = US_ACTIVE then (acc + max (wallTimeSecs e - began) 0, began)
     else (acc, began))"

definition todaysTransitions :: "transition list \<Rightarrow> int \<Rightarrow> transition list" where
  "todaysTransitions ts start =
     (let i = js_findIndex (\<lambda>e. wallTimeSecs e \<ge> start) ts in if i = -1 then [] else drop (nat i) ts)"

definition calculateActiveTimeTodaySecs :: "transition list \<Rightarrow> int \<Rightarrow> int \<Rightarrow> int" where
  "calculateActiveTimeTodaySecs ts nowSecs startOfToday =
     (let (acc, began) = fold activeTime_step (todaysTransitions ts startOfToday) (0, startOfToday)
      in if ts \<noteq> [] \<and> newState (last ts) = US_ACTIVE then acc + max (nowSecs - began) 0 else acc)"

text \<open>The loop of \<open>_calculateDailyLimitReachedAtSecs\<close>: \<open>Inl\<close> is its early return.\<close>

fun limitReached_loop :: "int \<Rightarrow> transition list \<Rightarrow> int \<times> int \<Rightarrow> int + int \<times> int" where
  "limitReached_loop limit [] acc = Inr acc"
| "limitReached_loop limit (e # es) acc =
     (let acc' = activeTime_step e acc
      in if fst acc' \<ge> limit then Inl (wallTimeSecs e - (fst acc' - limit))
         else limitReached_loop limit es acc')"

definition calculateDailyLimitReachedAtSecs :: "transition list \<Rightarrow> int \<Rightarrow> int \<Rightarrow> int \<Rightarrow> int" where
  "calculateDailyLimitReachedAtSecs ts nowSecs limit startOfToday =
     (case limitReached_loop limit (todaysTransitions ts startOfToday) (0, startOfToday) of
        Inl reachedAt \<Rightarrow> reachedAt
      | Inr (acc, began) \<Rightarrow>
          let acc' = (if ts \<noteq> [] \<and> newState (last ts) = US_ACTIVE
                        then acc + max (nowSecs - began) 0 else acc)
          in if acc' \<ge> limit then nowSecs - (acc' - limit) else 0)"

definition dailyLimitTime :: "tl_env \<Rightarrow> tl \<Rightarrow> int" where
  "dailyLimitTime env s =
     (let nowSecs = te_now env; start = fst (getStartOfTodaySecs env nowSecs);
          limit = int (te_dailyLimitSeconds env)
      in case tl_state s of
           TL_DISABLED \<Rightarrow> 0
         | TL_ACTIVE \<Rightarrow>
             if \<not> te_dailyLimitEnabled env then 0
             else if tl_userState s = Some US_ACTIVE
             then nowSecs + (limit - calculateActiveTimeTodaySecs (tl_transitions s) nowSecs start)
             else 0
         | TL_LIMIT_REACHED \<Rightarrow>
             calculateDailyLimitReachedAtSecs (tl_transitions s) nowSecs limit start)"

subsection \<open>The state machine\<close>

definition tl_scheduleUpdateState :: "tl_call idgen \<Rightarrow> real \<Rightarrow> tl \<Rightarrow> tl" where
  "tl_scheduleUpdateState mk timeout s =
     (let s1 = (if tl_timerId s \<noteq> 0
                then s\<lparr>tl_trace := tl_trace s @ [SourceRemove (tl_timerId s)]\<rparr> else s);
          i = mk (tl_trace s1)
      in s1\<lparr>tl_timerId := i, tl_trace := tl_trace s1 @ [SourceAdd i \<lceil>timeout\<rceil>]\<rparr>)"

text \<open>The new state and the delay of the timer, if any, that \<open>_updateState\<close> decides on.\<close>

definition tl_decide :: "tl_env \<Rightarrow> tl \<Rightarrow> limits_state \<times> int option" where
  "tl_decide env s =
     (let nowSecs = te_now env;
          (startOfToday, startOfTomorrow) = getStartOfTodaySecs env nowSecs;
          state0 = (if startOfToday > tl_lastStateChangeTimeSecs s then TL_ACTIVE else tl_state s);
          active = calculateActiveTimeTodaySecs (tl_transitions s) nowSecs startOfToday;
          limit = int (te_dailyLimitSeconds env)
      in if te_dailyLimitEnabled env \<and> active \<ge> limit
         then (TL_LIMIT_REACHED, Some (startOfTomorrow - nowSecs))
         else if tl_userState s = Some US_ACTIVE
         then (TL_ACTIVE, if te_dailyLimitEnabled env then Some (limit - active) else None)
         else (state0, None))"

definition tl_updateState :: "tl_env \<Rightarrow> tl \<Rightarrow> tl" where
  "tl_updateState env s =
     (let (new, delay) = tl_decide env s;
          s1 = (case delay of None \<Rightarrow> s
                | Some d \<Rightarrow> tl_scheduleUpdateState (te_source_id env) (real_of_int d) s)
      in if new \<noteq> tl_state s1
         then let s2 = tl_do TlNotifyDailyLimitTime (tl_do TlNotifyState
                         (s1\<lparr>tl_state := new, tl_lastStateChangeTimeSecs := te_now env\<rparr>))
              in if new = TL_LIMIT_REACHED then tl_do TlEmitLimitReached s2 else s2
         else s1)"

definition tl_timerFired :: "tl \<Rightarrow> tl" where
  "tl_timerFired s = s\<lparr>tl_timerId := 0, tl_trace := tl_trace s @ [SourceFired (tl_timerId s)]\<rparr>"

definition tl_onTimer :: "tl_env \<Rightarrow> tl \<Rightarrow> tl" where
  "tl_onTimer env s = tl_updateState env (tl_timerFired s)"

definition addTransition ::
  "tl_env \<Rightarrow> user_state \<Rightarrow> user_state \<Rightarrow> int \<Rightarrow> bool \<Rightarrow> tl \<Rightarrow> tl" where
  "addTransition env old new wall recalculateState s =
     (let s1 = s\<lparr>tl_transitions := tl_transitions s @ [\<lparr>oldState = old, newState = new, wallTimeSecs = wall\<rparr>],
                 tl_userState := Some new\<rparr>
      in if recalculateState \<and> tl_state s1 \<noteq> TL_DISABLED
         then tl_do TlThaw (tl_updateState env (tl_do TlNotifyDailyLimitTime (tl_do TlFreeze s1)))
         else s1)"

definition getClockOffset :: "tl_env \<Rightarrow> int" where
  "getClockOffset env = te_now env - te_monotonic env"

definition adjustAllTimes :: "int \<Rightarrow> tl \<Rightarrow> tl" where
  "adjustAllTimes offset s =
     s\<lparr>tl_transitions := map (\<lambda>e. e\<lparr>wallTimeSecs := wallTimeSecs e + offset\<rparr>) (tl_transitions s),
       tl_lastStateChangeTimeSecs :=
         (if tl_lastStateChangeTimeSecs s \<noteq> 0 then tl_lastStateChangeTimeSecs s + offset
          else tl_lastStateChangeTimeSecs s),
       tl_clockOffsetSecs := tl_clockOffsetSecs s + offset\<rparr>"

subsection \<open>The history file\<close>

definition filterOldTransition :: "int \<Rightarrow> nat \<Rightarrow> nat \<Rightarrow> int \<Rightarrow> bool" where
  "filterOldTransition wall idx len nowSecs \<longleftrightarrow>
     wall \<le> nowSecs \<and> (wall \<ge> nowSecs - HISTORY_THRESHOLD_SECONDS \<or> idx = len - 1)"

definition trimTransitions :: "int \<Rightarrow> transition list \<Rightarrow> transition list" where
  "trimTransitions nowSecs ts =
     map snd (filter (\<lambda>(i, e). filterOldTransition (wallTimeSecs e) i (length ts) nowSecs)
       (List.enumerate 0 ts))"

fun cancelPairs :: "transition list \<Rightarrow> transition list" where
  "cancelPairs [] = []"
| "cancelPairs [e] = [e]"
| "cancelPairs (first # second # es) =
     (if wallTimeSecs first = wallTimeSecs second \<and> oldState first = newState second
      then cancelPairs (second # es) else first # cancelPairs (second # es))"

text \<open>\<open>_storeTransitions\<close> up to the file operation, whose failure is only logged.\<close>

definition storeTransitions :: "tl_env \<Rightarrow> tl \<Rightarrow> tl" where
  "storeTransitions env s =
     (let ts = cancelPairs (trimTransitions (te_now env) (tl_transitions s));
          s1 = s\<lparr>tl_transitions := ts\<rparr>
      in if ts = [] then tl_do TlFileDelete s1 else tl_do (TlFileReplace ts) s1)"

definition deleteTransitions :: "tl \<Rightarrow> tl" where
  "deleteTransitions s = tl_do TlFileDelete s"

definition MAX_SAFE_INTEGER :: real where
  "MAX_SAFE_INTEGER = 2 ^ 53 - 1"

definition isSafeInteger :: "real \<Rightarrow> bool" where
  "isSafeInteger x \<longleftrightarrow> real_of_int \<lfloor>x\<rfloor> = x \<and> \<bar>x\<bar> \<le> MAX_SAFE_INTEGER"

fun parse_user_state :: "json option \<Rightarrow> user_state option" where
  "parse_user_state (Some (JNum v)) =
     (if v = user_state_value US_INACTIVE then Some US_INACTIVE
      else if v = user_state_value US_ACTIVE then Some US_ACTIVE else None)"
| "parse_user_state _ = None"

text \<open>The checks of \<open>_loadTransitions\<close> on one entry: \<open>None\<close> for a malformed one.\<close>

definition parse_entry :: "int \<Rightarrow> json \<Rightarrow> transition option" where
  "parse_entry previousWall entry =
     (case (parse_user_state (json_field entry ''oldState''),
            parse_user_state (json_field entry ''newState''),
            json_field entry ''wallTimeSecs'') of
        (Some old, Some new, Some (JNum wall)) \<Rightarrow>
          if old = new \<or> \<not> isSafeInteger wall \<or> wall < real_of_int previousWall then None
          else Some \<lparr>oldState = old, newState = new, wallTimeSecs = \<lfloor>wall\<rfloor>\<rparr>
      | _ \<Rightarrow> None)"

text \<open>
  The loop of \<open>_loadTransitions\<close> from index \<open>i\<close> of an array of \<open>n\<close> entries; the flag is
  \<open>False\<close> when a malformed entry makes it throw.
\<close>

fun load_loop :: "tl_env \<Rightarrow> nat \<Rightarrow> nat \<Rightarrow> int \<Rightarrow> json list \<Rightarrow> tl \<Rightarrow> bool \<times> tl" where
  "load_loop env n i previousWall [] s = (True, s)"
| "load_loop env n i previousWall (entry # entries) s =
     (case parse_entry previousWall entry of
        None \<Rightarrow> (False, s)
      | Some e \<Rightarrow>
          if \<not> filterOldTransition (wallTimeSecs e) i n (te_now env)
          then load_loop env n (Suc i) previousWall entries s
          else load_loop env n (Suc i) (wallTimeSecs e) entries
                 (addTransition env (oldState e) (newState e) (wallTimeSecs e) (i = n - 1) s))"

definition loadTransitions :: "tl_env \<Rightarrow> file_read \<Rightarrow> tl \<Rightarrow> bool \<times> tl" where
  "loadTransitions env r s =
     (case r of
        FileNotFound \<Rightarrow> (True, s)
      | FileError \<Rightarrow> (False, s)
      | FileContents (Some (JArr entries)) \<Rightarrow>
          let (ok, s1) = load_loop env (length entries) 0 0 entries (tl_do TlFreeze s)
          in (ok, tl_do TlThaw s1)
      | FileContents _ \<Rightarrow> (False, s))"

text \<open>\<open>JSON.stringify\<close> of the transitions.\<close>

definition transition_json :: "transition \<Rightarrow> json" where
  "transition_json e = JObj [(''oldState'', JNum (user_state_value (oldState e))),
     (''newState'', JNum (user_state_value (newState e))),
     (''wallTimeSecs'', JNum (real_of_int (wallTimeSecs e)))]"

subsection \<open>Starting, stopping, suspend and clock changes\<close>

definition releaseInhibitor :: "tl \<Rightarrow> tl" where
  "releaseInhibitor s =
     (if tl_inhibitor s then tl_do TlCloseInhibitor s else s)\<lparr>tl_inhibitor := False\<rparr>"

text \<open>\<open>_ensureInhibitor\<close>: the request, and its completion (\<open>ok\<close>: whether logind granted it).\<close>

definition ensureInhibitor_request :: "tl \<Rightarrow> tl" where
  "ensureInhibitor_request s = (if tl_inhibitor s then s else tl_do TlInhibit s)"

definition ensureInhibitor_done :: "bool \<Rightarrow> tl \<Rightarrow> tl" where
  "ensureInhibitor_done ok s = (if ok then s\<lparr>tl_inhibitor := True\<rparr> else s)"

text \<open>\<open>None\<close>: a \<open>TypeError\<close>, reading a property of a null \<open>_loginUser\<close> or \<open>_loginManager\<close>.\<close>

definition calculateUserStateFromLogind :: "tl_env \<Rightarrow> tl \<Rightarrow> user_state option" where
  "calculateUserStateFromLogind env s =
     (if \<not> tl_loginUser s then None
      else if \<not> te_userActive env \<or> te_idleHint env then Some US_INACTIVE
      else if \<not> tl_loginManager s then None
      else if te_preparingForSleep env then Some US_INACTIVE else Some US_ACTIVE)"

text \<open>
  The flag is \<open>False\<close> when the promise is rejected. It only runs after the start, which sets
  \<open>_userState\<close>.
\<close>

definition updateUserState :: "tl_env \<Rightarrow> bool \<Rightarrow> tl \<Rightarrow> bool \<times> tl" where
  "updateUserState env storeUpdates s =
     (case (calculateUserStateFromLogind env s, tl_userState s) of
        (Some new, Some old) \<Rightarrow>
          if old = new then (True, s)
          else let s1 = addTransition env old new (te_now env) True s
               in (True, if storeUpdates then storeTransitions env s1 else s1)
      | _ \<Rightarrow> (False, s))"

text \<open>\<open>_startStateMachine\<close>, from one \<open>await\<close> to the next.\<close>

definition start_begin :: "tl \<Rightarrow> tl" where
  "start_begin s = tl_do TlFreeze
     (s\<lparr>tl_userState := Some US_ACTIVE, tl_transitions := [], tl_state := TL_ACTIVE,
        tl_cancellable := True\<rparr>)"

definition start_loaded :: "tl_env \<Rightarrow> file_read \<Rightarrow> tl \<Rightarrow> tl" where
  "start_loaded env r s =
     (let s1 = snd (loadTransitions env r s);
          s2 = (if tl_transitions s1 = [] \<or> tl_userState s1 \<noteq> Some US_ACTIVE
                then addTransition env US_INACTIVE US_ACTIVE (te_now env) True s1 else s1);
          s3 = s2\<lparr>tl_clockOffsetSecs := getClockOffset env\<rparr>;
          s4 = (case te_time_change_id env (tl_trace s3) of
                  Some i \<Rightarrow> tl_do (TlTimeChangeAdd i) (s3\<lparr>tl_timeChangeId := i\<rparr>)
                | None \<Rightarrow> s3\<lparr>tl_timeChangeId := 0\<rparr>)
      in ensureInhibitor_request (s4\<lparr>tl_loginManager := True\<rparr>))"

text \<open>\<open>None\<close>: the start fails, on a null \<open>_loginManager\<close> or without a user proxy.\<close>

definition start_inhibited :: "bool \<Rightarrow> tl \<Rightarrow> tl option" where
  "start_inhibited ok s =
     (let s1 = ensureInhibitor_done ok s
      in if tl_loginManager s1 then Some (tl_do TlConnectLoginManager s1) else None)"

definition start_user :: "tl_env \<Rightarrow> bool \<Rightarrow> tl \<Rightarrow> bool \<times> tl" where
  "start_user env proxyFound s =
     (if \<not> proxyFound then (False, s)
      else let (ok, s1) = updateUserState env False (tl_do TlConnectLoginUser (s\<lparr>tl_loginUser := True\<rparr>))
           in if ok then (True, tl_do TlThaw (tl_updateState env s1)) else (False, s1))"

text \<open>\<open>_stopStateMachine\<close>: the sources it removes, the objects it drops, the file.\<close>

definition stop_sources :: "tl \<Rightarrow> tl" where
  "stop_sources s =
     (let s1 = (if tl_timeChangeId s \<noteq> 0 then tl_do (TlTimeChangeRemove (tl_timeChangeId s)) s else s)
                 \<lparr>tl_timeChangeId := 0, tl_clockOffsetSecs := 0\<rparr>
      in (if tl_timerId s1 \<noteq> 0
          then s1\<lparr>tl_trace := tl_trace s1 @ [SourceRemove (tl_timerId s1)]\<rparr> else s1)\<lparr>tl_timerId := 0\<rparr>)"

definition stop_objects :: "tl \<Rightarrow> tl" where
  "stop_objects s =
     (let s1 = (if tl_loginUser s then tl_do TlDisconnectLoginUser s else s)\<lparr>tl_loginUser := False\<rparr>;
          s2 = releaseInhibitor s1
      in (if tl_loginManager s2 then tl_do TlDisconnectLoginManager s2 else s2)
           \<lparr>tl_loginManager := False\<rparr>)"

definition stop_begin :: "tl_env \<Rightarrow> tl \<Rightarrow> tl" where
  "stop_begin env s =
     (let s1 = tl_do TlNotifyState
            ((stop_objects (stop_sources s))\<lparr>tl_state := TL_DISABLED, tl_lastStateChangeTimeSecs := 0\<rparr>)
      in if te_historyEnabled env
         then storeTransitions env
                (if tl_userState s1 \<noteq> Some US_INACTIVE
                 then addTransition env US_ACTIVE US_INACTIVE (te_now env) True s1 else s1)
         else deleteTransitions s1)"

definition stop_end :: "tl \<Rightarrow> tl" where
  "stop_end s = (if tl_cancellable s then tl_do TlCancel s else s)\<lparr>tl_cancellable := False\<rparr>"

definition tl_updateSettings :: "tl_env \<Rightarrow> tl \<Rightarrow> tl" where
  "tl_updateSettings env s =
     (if \<not> te_historyEnabled env
      then if tl_state s \<noteq> TL_DISABLED then stop_begin env s else s
      else if tl_state s = TL_DISABLED then start_begin s
      else tl_updateState env s)"

text \<open>\<open>_onPrepareForSleep\<close>; a failing update is only logged.\<close>

definition onPrepareForSleep :: "tl_env \<Rightarrow> bool \<Rightarrow> tl \<Rightarrow> tl" where
  "onPrepareForSleep env preparingForSleep s =
     (let s1 = (if \<not> preparingForSleep
                then (ensureInhibitor_request s)
                       \<lparr>tl_clockOffsetSecs := getClockOffset env, tl_ignoreClockOffsetChanges := False\<rparr>
                else s);
          s2 = snd (updateUserState env True s1)
      in if preparingForSleep
         then releaseInhibitor (s2\<lparr>tl_ignoreClockOffsetChanges := True\<rparr>) else s2)"

text \<open>The callback of \<open>timeChangeNotify\<close>.\<close>

definition onTimeChange :: "tl_env \<Rightarrow> tl \<Rightarrow> tl" where
  "onTimeChange env s =
     (if tl_ignoreClockOffsetChanges s then s
      else let new = getClockOffset env; old = tl_clockOffsetSecs s
           in if new = old then s
              else let s1 = (adjustAllTimes (new - old) s)\<lparr>tl_clockOffsetSecs := new\<rparr>;
                       s2 = storeTransitions env s1
                   in tl_do TlThaw (tl_updateState env
                        (tl_do TlNotifyDailyLimitTime (tl_do TlFreeze s2))))"

definition newTimeLimitsManager :: "tl_env \<Rightarrow> tl" where
  "newTimeLimitsManager env = tl_updateSettings env
     \<lparr>tl_state = TL_DISABLED, tl_userState = None, tl_transitions = [], tl_cancellable = False,
      tl_loginManager = False, tl_inhibitor = False, tl_loginUser = False,
      tl_lastStateChangeTimeSecs = 0, tl_timerId = 0, tl_timeChangeId = 0,
      tl_clockOffsetSecs = 0, tl_ignoreClockOffsetChanges = False, tl_trace = []\<rparr>"

end
