(* ===== verification/TimeLimitsHistory.thy ===== *)
theory TimeLimitsHistory
  imports TimeLimits
begin

section \<open>Screen time limits: the history as a function of time\<close>

text \<open>
  The abstract reading of a history: \<open>activity u ts t\<close>, the state of the user at the instant
  \<open>t\<close> when it is \<open>u\<close> before the first transition, and \<open>active_secs u ts a b\<close>, the number of
  seconds of \<open>[a, b)\<close> the user is active in. The lemmas relate both loops of the code to it.
\<close>

fun activity :: "user_state \<Rightarrow> transition list \<Rightarrow> int \<Rightarrow> user_state" where
  "activity u [] t = u"
| "activity u (e # es) t = (if wallTimeSecs e \<le> t then activity (newState e) es t else u)"

definition active_secs :: "user_state \<Rightarrow> transition list \<Rightarrow> int \<Rightarrow> int \<Rightarrow> int" where
  "active_secs u ts a b = int (card {t \<in> {a..<b}. activity u ts t = US_ACTIVE})"

text \<open>A history that starts in state \<open>u\<close> at \<open>w\<close>: it alternates and its times do not decrease.\<close>

fun hist_ok :: "user_state \<Rightarrow> int \<Rightarrow> transition list \<Rightarrow> bool" where
  "hist_ok u w [] \<longleftrightarrow> True"
| "hist_ok u w (e # es) \<longleftrightarrow>
     oldState e = u \<and> newState e \<noteq> u \<and> w \<le> wallTimeSecs e \<and> hist_ok (newState e) (wallTimeSecs e) es"

definition end_state :: "user_state \<Rightarrow> transition list \<Rightarrow> user_state" where
  "end_state u ts = (if ts = [] then u else newState (last ts))"

lemma end_state_simps [simp]:
  "end_state u [] = u" "end_state u (e # es) = end_state (newState e) es"
  by (simp_all add: end_state_def)

lemma end_state_append: "end_state u (ps @ es) = end_state (end_state u ps) es"
  by (auto simp: end_state_def)

lemma user_state_flip: "(u :: user_state) \<noteq> v \<longleftrightarrow> (u = US_ACTIVE) = (v = US_INACTIVE)"
  by (cases u; cases v) auto

lemma hist_ok_mono: "hist_ok u w ts \<Longrightarrow> v \<le> w \<Longrightarrow> hist_ok u v ts"
  by (cases ts) auto

lemma hist_ok_append:
  "hist_ok u w (ts @ us) \<Longrightarrow>
     hist_ok u w ts \<and> hist_ok (end_state u ts) (if ts = [] then w else wallTimeSecs (last ts)) us"
  by (induction ts arbitrary: u w) auto

lemma hist_ok_ge: "hist_ok u w ts \<Longrightarrow> e \<in> set ts \<Longrightarrow> w \<le> wallTimeSecs e"
  by (induction ts arbitrary: u w) (fastforce simp del: )+

lemma activity_append:
  "(\<forall>e\<in>set ps. wallTimeSecs e \<le> t) \<Longrightarrow> activity u (ps @ es) t = activity (end_state u ps) es t"
  by (induction ps arbitrary: u) auto

lemma activity_last:
  "(\<forall>e\<in>set ts. wallTimeSecs e \<le> t) \<Longrightarrow> activity u ts t = end_state u ts"
  using activity_append [of ts t u "[]"] by simp

subsection \<open>Counting the active seconds\<close>

lemma finite_active: "finite {t :: int. a \<le> t \<and> t < b \<and> P t}"
  by (rule finite_subset [of _ "{a..<b}"]) auto

lemma active_secs_split:
  assumes "a \<le> m" "m \<le> b"
  shows "active_secs u ts a b = active_secs u ts a m + active_secs u ts m b"
proof -
  have "{t \<in> {a..<b}. activity u ts t = US_ACTIVE}
      = {t \<in> {a..<m}. activity u ts t = US_ACTIVE} \<union> {t \<in> {m..<b}. activity u ts t = US_ACTIVE}"
    using assms by auto
  moreover have "{t \<in> {a..<m}. activity u ts t = US_ACTIVE} \<inter> {t \<in> {m..<b}. activity u ts t = US_ACTIVE} = {}"
    by auto
  ultimately show ?thesis
    by (simp add: active_secs_def card_Un_disjoint finite_active)
qed

lemma active_secs_cong:
  "(\<And>t. a \<le> t \<Longrightarrow> t < b \<Longrightarrow> activity u ts t = activity v us t) \<Longrightarrow>
     active_secs u ts a b = active_secs v us a b"
  unfolding active_secs_def by (rule arg_cong [where f = "\<lambda>S. int (card S)"]) auto

lemma active_secs_Nil: "active_secs u [] a b = (if u = US_ACTIVE then max (b - a) 0 else 0)"
proof -
  have "{t. a \<le> t \<and> t < b} = {a..<b}" by auto
  then show ?thesis by (simp add: active_secs_def)
qed

lemma active_secs_before:
  assumes "b \<le> wallTimeSecs e"
  shows "active_secs u (e # es) a b = (if u = US_ACTIVE then max (b - a) 0 else 0)"
  using active_secs_cong [of a b u "e # es" u "[]"] assms by (simp add: active_secs_Nil)

lemma active_secs_Cons:
  assumes "a \<le> wallTimeSecs e" "wallTimeSecs e \<le> b"
  shows "active_secs u (e # es) a b =
    (if u = US_ACTIVE then wallTimeSecs e - a else 0) + active_secs (newState e) es (wallTimeSecs e) b"
proof -
  have "active_secs u (e # es) a (wallTimeSecs e) = (if u = US_ACTIVE then wallTimeSecs e - a else 0)"
    using assms(1) by (simp add: active_secs_before)
  moreover have "active_secs u (e # es) (wallTimeSecs e) b = active_secs (newState e) es (wallTimeSecs e) b"
    by (rule active_secs_cong) simp
  ultimately show ?thesis using active_secs_split [OF assms] by simp
qed

lemma active_secs_mono: "b \<le> c \<Longrightarrow> active_secs u ts a b \<le> active_secs u ts a c"
  unfolding active_secs_def by (simp, rule card_mono) (auto simp: finite_active)

lemma active_secs_pred:
  assumes "a < b" "activity u ts (b - 1) = US_ACTIVE"
  shows "active_secs u ts a b = active_secs u ts a (b - 1) + 1"
proof -
  have "{t \<in> {b - 1..<b}. activity u ts t = US_ACTIVE} = {b - 1}"
    using assms(2) by auto
  then have "active_secs u ts (b - 1) b = 1" by (simp add: active_secs_def)
  with active_secs_split [of a "b - 1" b u ts] assms(1) show ?thesis by simp
qed

lemma active_secs_empty [simp]: "active_secs u ts a a = 0"
  by (simp add: active_secs_def)

text \<open>After the last transition the state no longer changes.\<close>

lemma active_secs_tail:
  assumes "\<forall>e\<in>set ts. wallTimeSecs e \<le> a" "a \<le> b"
  shows "active_secs u ts a b = (if end_state u ts = US_ACTIVE then b - a else 0)"
proof -
  have "active_secs u ts a b = active_secs (end_state u ts) [] a b"
    by (rule active_secs_cong, simp, rule activity_last, use assms(1) in fastforce)
  then show ?thesis using assms(2) by (simp add: active_secs_Nil)
qed

text \<open>A limit reached in \<open>[a, r)\<close> with an active last second is reached at no earlier instant.\<close>

lemma active_secs_least:
  assumes "a < r" "activity u ts (r - 1) = US_ACTIVE" "r' < r"
  shows "active_secs u ts a r' < active_secs u ts a r"
  using active_secs_pred [OF assms(1,2)] active_secs_mono [of r' "r - 1" u ts a] assms(3) by simp

subsection \<open>The loops\<close>

lemma activeTime_fold:
  assumes "hist_ok u a es" and "\<forall>e\<in>set es. wallTimeSecs e \<le> b" and "u = US_ACTIVE \<longrightarrow> began = a"
    and "a \<le> b" and "fold activeTime_step es (acc, began) = (acc', began')"
  shows "acc' + (if end_state u es = US_ACTIVE then max (b - began') 0 else 0)
           = acc + active_secs u es a b"
  using assms
proof (induction es arbitrary: u a acc began)
  case Nil
  then show ?case by (simp add: active_secs_Nil)
next
  case (Cons e es)
  obtain acc1 began1 where step: "activeTime_step e (acc, began) = (acc1, began1)" by fastforce
  have e: "oldState e = u" "newState e \<noteq> u" "a \<le> wallTimeSecs e" "wallTimeSecs e \<le> b"
    using Cons.prems by auto
  have acc1: "acc1 = acc + (if u = US_ACTIVE then wallTimeSecs e - a else 0)"
    and began1: "newState e = US_ACTIVE \<longrightarrow> began1 = wallTimeSecs e"
    using step e Cons.prems(3) by (cases u; cases "newState e"; auto simp: activeTime_step_def)+
  have "acc' + (if end_state (newState e) es = US_ACTIVE then max (b - began') 0 else 0)
      = acc1 + active_secs (newState e) es (wallTimeSecs e) b"
    using Cons.prems step by (intro Cons.IH [OF _ _ began1]) auto
  then show ?case using acc1 e by (simp add: active_secs_Cons)
qed

lemma limitReached_loop_spec:
  assumes "hist_ok u a es" and "\<forall>e\<in>set es. wallTimeSecs e \<le> b" and "u = US_ACTIVE \<longrightarrow> began = a"
    and "a \<le> b" and "acc \<le> limit"
  shows "case limitReached_loop limit es (acc, began) of
      Inl r \<Rightarrow> acc + active_secs u es a r = limit \<and> a \<le> r \<and> r \<le> b
        \<and> (acc < limit \<longrightarrow> a < r \<and> activity u es (r - 1) = US_ACTIVE)
    | Inr (acc', began') \<Rightarrow> fold activeTime_step es (acc, began) = (acc', began')
        \<and> (es \<noteq> [] \<longrightarrow> acc' < limit)"
  using assms
proof (induction es arbitrary: u a acc began)
  case Nil
  then show ?case by simp
next
  case (Cons e es)
  obtain acc1 began1 where step: "activeTime_step e (acc, began) = (acc1, began1)" by fastforce
  have e: "oldState e = u" "newState e \<noteq> u" "a \<le> wallTimeSecs e" "wallTimeSecs e \<le> b"
    using Cons.prems by auto
  have acc1: "acc1 = acc + (if u = US_ACTIVE then wallTimeSecs e - a else 0)"
    and began1: "newState e = US_ACTIVE \<longrightarrow> began1 = wallTimeSecs e"
    using step e Cons.prems(3) by (cases u; cases "newState e"; auto simp: activeTime_step_def)+
  show ?case
  proof (cases "acc1 \<ge> limit")
    case True
    define r where "r = wallTimeSecs e - (acc1 - limit)"
    have r: "a \<le> r" "r \<le> wallTimeSecs e" "u = US_ACTIVE \<longrightarrow> r = a + (limit - acc)"
      "u \<noteq> US_ACTIVE \<longrightarrow> acc = limit"
      using True acc1 Cons.prems(5) e(3) by (auto simp: r_def split: if_splits)
    then have "acc + active_secs u (e # es) a r = limit"
      by (auto simp: active_secs_before)
    moreover have "acc < limit \<longrightarrow> a < r \<and> activity u (e # es) (r - 1) = US_ACTIVE"
      using r by auto
    ultimately show ?thesis using True step r e(4) by (simp add: r_def)
  next
    case False
    have IH: "case limitReached_loop limit es (acc1, began1) of
        Inl r \<Rightarrow> acc1 + active_secs (newState e) es (wallTimeSecs e) r = limit \<and> wallTimeSecs e \<le> r
          \<and> r \<le> b \<and> (acc1 < limit \<longrightarrow> wallTimeSecs e < r \<and> activity (newState e) es (r - 1) = US_ACTIVE)
      | Inr (acc', began') \<Rightarrow> fold activeTime_step es (acc1, began1) = (acc', began')
          \<and> (es \<noteq> [] \<longrightarrow> acc' < limit)"
      using Cons.prems False by (intro Cons.IH [OF _ _ began1]) auto
    have loop: "limitReached_loop limit (e # es) (acc, began) = limitReached_loop limit es (acc1, began1)"
      using False step by simp
    show ?thesis
    proof (cases "limitReached_loop limit es (acc1, began1)")
      case (Inl r)
      with IH False acc1 e(3) show ?thesis unfolding loop by (simp add: active_secs_Cons)
    next
      case (Inr p)
      with IH False step show ?thesis unfolding loop by (cases "es = []") auto
    qed
  qed
qed

lemma limitReached_loop_snoc:
  "limitReached_loop limit es p = Inr q \<Longrightarrow> limitReached_loop limit (es @ [e]) p =
     (if fst (activeTime_step e q) \<ge> limit
      then Inl (wallTimeSecs e - (fst (activeTime_step e q) - limit)) else Inr (activeTime_step e q))"
  by (induction es arbitrary: p) (auto simp: Let_def split: if_splits)

lemma hist_ok_snoc:
  "hist_ok u w ts \<Longrightarrow> w \<le> wallTimeSecs e \<Longrightarrow> \<forall>x\<in>set ts. wallTimeSecs x \<le> wallTimeSecs e \<Longrightarrow>
     oldState e = end_state u ts \<Longrightarrow> newState e \<noteq> oldState e \<Longrightarrow> hist_ok u w (ts @ [e])"
  by (induction ts arbitrary: u w) auto

lemma activity_snoc: "t < wallTimeSecs e \<Longrightarrow> activity u (ts @ [e]) t = activity u ts t"
  by (induction ts arbitrary: u) auto

text \<open>The stretch after the last transition is one that ends with a transition now.\<close>

lemma limitReached_last:
  assumes "hist_ok u a es" and "\<forall>e\<in>set es. wallTimeSecs e \<le> b" and "u = US_ACTIVE \<longrightarrow> began = a"
    and "a \<le> b" and "acc \<le> limit" and "end_state u es = US_ACTIVE"
    and "limitReached_loop limit es (acc, began) = Inr (acc', began')"
    and "limit \<le> acc' + max (b - began') 0"
  defines "r \<equiv> b - (acc' + max (b - began') 0 - limit)"
  shows "acc + active_secs u es a r = limit \<and> a \<le> r \<and> r \<le> b
    \<and> (acc < limit \<longrightarrow> (\<forall>r'<r. active_secs u es a r' < active_secs u es a r))"
proof -
  let ?e = "\<lparr>oldState = US_ACTIVE, newState = US_INACTIVE, wallTimeSecs = b\<rparr>"
  have "hist_ok u a (es @ [?e])" using assms(1,2,4,6) by (intro hist_ok_snoc) auto
  moreover have "limitReached_loop limit (es @ [?e]) (acc, began) = Inl r"
    using limitReached_loop_snoc [OF assms(7), of ?e] assms(8) by (simp add: activeTime_step_def r_def)
  ultimately have r: "acc + active_secs u (es @ [?e]) a r = limit" "a \<le> r" "r \<le> b"
    "acc < limit \<Longrightarrow> a < r \<and> activity u (es @ [?e]) (r - 1) = US_ACTIVE"
    using limitReached_loop_spec [of u a "es @ [?e]" b began acc limit] assms(2-5) by auto
  have same: "active_secs u (es @ [?e]) a r = active_secs u es a r"
    by (rule active_secs_cong) (use r(3) in \<open>simp add: activity_snoc\<close>)
  show ?thesis
  proof (intro conjI impI allI)
    fix r' assume "acc < limit" and less: "r' < r"
    then have "a < r" "activity u es (r - 1) = US_ACTIVE"
      using r(3,4) by (auto simp: activity_snoc)
    then show "active_secs u es a r' < active_secs u es a r" using less by (rule active_secs_least)
  qed (use r same in auto)
qed

subsection \<open>The transitions of today\<close>

lemma todaysTransitions_dropWhile:
  "todaysTransitions ts a = dropWhile (\<lambda>e. wallTimeSecs e < a) ts"
proof (cases "js_findIndex (\<lambda>e. wallTimeSecs e \<ge> a) ts = -1")
  case True
  then have "\<forall>e\<in>set ts. wallTimeSecs e < a" by (auto simp: js_findIndex_none not_le)
  then have "dropWhile (\<lambda>e. wallTimeSecs e < a) ts = []" by simp
  moreover have "todaysTransitions ts a = []" using True by (simp add: todaysTransitions_def)
  ultimately show ?thesis by (simp only:)
next
  case False
  then show ?thesis
    using js_findIndex_dropWhile [OF False] by (simp add: todaysTransitions_def Let_def not_le)
qed

definition state_at :: "user_state \<Rightarrow> transition list \<Rightarrow> int \<Rightarrow> user_state" where
  "state_at u ts a = end_state u (takeWhile (\<lambda>e. wallTimeSecs e < a) ts)"

lemma todays_hist:
  assumes "hist_ok u w ts"
  shows "hist_ok (state_at u ts a) a (todaysTransitions ts a)"
    and "a \<le> t \<Longrightarrow> activity u ts t = activity (state_at u ts a) (todaysTransitions ts a) t"
    and "end_state (state_at u ts a) (todaysTransitions ts a) = end_state u ts"
    and "set (todaysTransitions ts a) \<subseteq> set ts"
proof -
  let ?P = "\<lambda>e. wallTimeSecs e < a"
  have split: "takeWhile ?P ts @ dropWhile ?P ts = ts" by simp
  have *: "hist_ok (state_at u ts a) w' (dropWhile ?P ts)"
    if "w' = (if takeWhile ?P ts = [] then w else wallTimeSecs (last (takeWhile ?P ts)))" for w'
    using hist_ok_append [of u w "takeWhile ?P ts" "dropWhile ?P ts"] assms that
    by (simp add: state_at_def)
  have hd: "dropWhile ?P ts = e # es \<Longrightarrow> a \<le> wallTimeSecs e" for e es
    by (metis hd_dropWhile list.sel(1) list.simps(3) not_le)
  show "hist_ok (state_at u ts a) a (todaysTransitions ts a)"
  proof (cases "dropWhile ?P ts")
    case Nil
    then show ?thesis by (simp only: todaysTransitions_dropWhile hist_ok.simps)
  next
    case (Cons e es)
    with * [OF refl] hd [OF Cons] show ?thesis
      by (simp only: todaysTransitions_dropWhile hist_ok.simps simp_thms)
  qed
  show "activity u ts t = activity (state_at u ts a) (todaysTransitions ts a) t" if "a \<le> t"
  proof -
    have "\<forall>e\<in>set (takeWhile ?P ts). wallTimeSecs e \<le> t"
      using that by (fastforce dest: set_takeWhileD)
    from activity_append [OF this, of u "dropWhile ?P ts"] show ?thesis
      by (simp add: todaysTransitions_dropWhile state_at_def)
  qed
  show "end_state (state_at u ts a) (todaysTransitions ts a) = end_state u ts"
    unfolding state_at_def todaysTransitions_dropWhile end_state_append [symmetric] split ..
  show "set (todaysTransitions ts a) \<subseteq> set ts"
    by (auto simp: todaysTransitions_dropWhile dest: set_dropWhileD)
qed

lemma todays_active_secs:
  "hist_ok u w ts \<Longrightarrow>
     active_secs (state_at u ts a) (todaysTransitions ts a) a b = active_secs u ts a b"
  by (rule active_secs_cong) (simp add: todays_hist(2))

text \<open>The history the manager stores starts with the old state of its first entry.\<close>

definition history_ok :: "transition list \<Rightarrow> int \<Rightarrow> bool" where
  "history_ok ts now \<longleftrightarrow>
     (case ts of [] \<Rightarrow> True | e # es \<Rightarrow> hist_ok (oldState e) (wallTimeSecs e) ts)
     \<and> (\<forall>e\<in>set ts. wallTimeSecs e \<le> now)"

definition first_state :: "transition list \<Rightarrow> user_state" where
  "first_state ts = (case ts of [] \<Rightarrow> US_INACTIVE | e # es \<Rightarrow> oldState e)"

lemma history_okD:
  assumes "history_ok ts now"
  shows "hist_ok (first_state ts) (case ts of [] \<Rightarrow> 0 | e # es \<Rightarrow> wallTimeSecs e) ts"
    and "e \<in> set ts \<Longrightarrow> wallTimeSecs e \<le> now"
  using assms by (auto simp: history_ok_def first_state_def split: list.splits)

lemma last_active: "(ts \<noteq> [] \<and> newState (last ts) = US_ACTIVE) = (end_state (first_state ts) ts = US_ACTIVE)"
  by (auto simp: end_state_def first_state_def)

lemma calculateActive_spec:
  assumes "history_ok ts now" and "a \<le> now"
  shows "calculateActiveTimeTodaySecs ts now a = active_secs (first_state ts) ts a now"
proof -
  note h = history_okD [OF assms(1)]
  note t = todays_hist [OF h(1), of a]
  obtain acc began where f: "fold activeTime_step (todaysTransitions ts a) (0, a) = (acc, began)"
    by fastforce
  have le: "\<forall>e\<in>set (todaysTransitions ts a). wallTimeSecs e \<le> now"
    using h(2) t(4) by blast
  have "acc + (if end_state (first_state ts) ts = US_ACTIVE then max (now - began) 0 else 0)
      = 0 + active_secs (state_at (first_state ts) ts a) (todaysTransitions ts a) a now"
    using activeTime_fold [OF t(1) le _ assms(2) f] t(3) by simp
  then show ?thesis
    unfolding calculateActiveTimeTodaySecs_def f last_active todays_active_secs [OF h(1)] by auto
qed

end
