(* ===== verification/TimeLimitsProps.thy ===== *)
theory TimeLimitsProps
  imports TimeLimitsHistory
begin

section \<open>Screen time limits: what the manager guarantees\<close>

text \<open>
  The daily limit against the abstract history, the timers that carry the state machine, the
  store and load of the history file, and the interleavings of the asynchronous start and stop
  with the signal handlers, as a step relation.
\<close>

subsection \<open>The calendar\<close>

text \<open>The two facts \<open>_getStartOfTodaySecs\<close> asserts of the time zone's calendar.\<close>

definition calendar_ok :: "tl_env \<Rightarrow> bool" where
  "calendar_ok env \<longleftrightarrow> fst (getStartOfTodaySecs env (te_now env)) \<le> te_now env
     \<and> te_now env < snd (getStartOfTodaySecs env (te_now env))"

abbreviation today :: "tl_env \<Rightarrow> int" where
  "today env \<equiv> fst (getStartOfTodaySecs env (te_now env))"

abbreviation tomorrow :: "tl_env \<Rightarrow> int" where
  "tomorrow env \<equiv> snd (getStartOfTodaySecs env (te_now env))"

abbreviation used_today :: "tl_env \<Rightarrow> tl \<Rightarrow> int" where
  "used_today env s \<equiv> active_secs (first_state (tl_transitions s)) (tl_transitions s) (today env) (te_now env)"

text \<open>A calendar in which every day has 86400 seconds.\<close>

definition plain_env :: "int \<Rightarrow> nat \<Rightarrow> tl_env" where
  "plain_env now limit = \<lparr>te_now = now, te_monotonic = 0, te_historyEnabled = True,
     te_dailyLimitEnabled = True, te_dailyLimitSeconds = limit, te_grayscale = False,
     te_three = (\<lambda>t. t - t mod 86400 + 10800), te_addDays = (\<lambda>t n. t + 86400 * n),
     te_userActive = True, te_idleHint = False, te_preparingForSleep = False,
     te_source_id = count_ids, te_time_change_id = (\<lambda>tr. Some 1)\<rparr>"

subsection \<open>The daily limit\<close>

text \<open>C3: For an alternating, ordered history that does not reach into the future,
  \<open>_calculateActiveTimeTodaySecs\<close> is exactly the number of seconds since the start of the
  day in which the user was active.\<close>

theorem calculateActiveTimeToday_counts:
  assumes "history_ok ts now" and "startOfToday \<le> now"
  shows "calculateActiveTimeTodaySecs ts now startOfToday
    = int (card {t \<in> {startOfToday..<now}. activity (first_state ts) ts t = US_ACTIVE})"
  using calculateActive_spec [OF assms] by (simp add: active_secs_def)

abbreviation tr :: "user_state \<Rightarrow> user_state \<Rightarrow> int \<Rightarrow> transition" where
  "tr old new t \<equiv> \<lparr>oldState = old, newState = new, wallTimeSecs = t\<rparr>"

theorem calculateActiveTimeToday_counts_witness:
  "int (card {t \<in> {100..<200}. activity US_INACTIVE
      [tr US_INACTIVE US_ACTIVE 50, tr US_ACTIVE US_INACTIVE 130, tr US_INACTIVE US_ACTIVE 180] t = US_ACTIVE}) = 50"
  using calculateActiveTimeToday_counts
    [of "[tr US_INACTIVE US_ACTIVE 50, tr US_ACTIVE US_INACTIVE 130, tr US_INACTIVE US_ACTIVE 180]" 200 100]
  by (simp add: history_ok_def first_state_def calculateActiveTimeTodaySecs_def todaysTransitions_def
      activeTime_step_def Let_def)

lemma limitReachedAt_cases:
  assumes "history_ok ts now" and "a \<le> now" and "0 \<le> limit"
  shows "if active_secs (first_state ts) ts a now < limit
    then calculateDailyLimitReachedAtSecs ts now limit a = 0
    else \<exists>r. calculateDailyLimitReachedAtSecs ts now limit a = r \<and> a \<le> r \<and> r \<le> now
      \<and> active_secs (first_state ts) ts a r = limit
      \<and> (0 < limit \<longrightarrow> (\<forall>r'<r. active_secs (first_state ts) ts a r' < limit))"
proof -
  let ?u = "first_state ts" and ?es = "todaysTransitions ts a"
  let ?v = "state_at ?u ts a"
  note h = history_okD [OF assms(1)]
  note t = todays_hist [OF h(1), of a]
  note secs = todays_active_secs [OF h(1), of a]
  have le: "\<forall>e\<in>set ?es. wallTimeSecs e \<le> now" using h(2) t(4) by blast
  have least: "\<forall>r'<r. active_secs ?v ?es a r' < active_secs ?v ?es a r"
    if "a < r" "activity ?v ?es (r - 1) = US_ACTIVE" for r
    using active_secs_least [OF that] by blast
  note spec = limitReached_loop_spec [OF t(1) le _ assms(2,3), of a]
  show ?thesis
  proof (cases "limitReached_loop limit ?es (0, a)")
    case (Inl r)
    with spec have r: "active_secs ?v ?es a r = limit" "a \<le> r" "r \<le> now"
      "0 < limit \<Longrightarrow> a < r \<and> activity ?v ?es (r - 1) = US_ACTIVE" by auto
    then have "limit \<le> active_secs ?v ?es a now" using active_secs_mono by metis
    moreover have "calculateDailyLimitReachedAtSecs ts now limit a = r"
      using Inl by (simp add: calculateDailyLimitReachedAtSecs_def)
    moreover have "0 < limit \<longrightarrow> (\<forall>r'<r. active_secs ?v ?es a r' < limit)"
      using least [of r] r(1,4) by simp
    ultimately show ?thesis using r(1-3) unfolding secs by simp
  next
    case (Inr p)
    obtain acc began where p: "p = (acc, began)" by fastforce
    with Inr spec have f: "fold activeTime_step ?es (0, a) = (acc, began)" and es: "?es \<noteq> [] \<longrightarrow> acc < limit"
      by auto
    have total: "acc + (if end_state ?u ts = US_ACTIVE then max (now - began) 0 else 0) = active_secs ?v ?es a now"
      using activeTime_fold [OF t(1) le _ assms(2) f] t(3) by simp
    define tot where "tot = active_secs ?v ?es a now"
    have res: "calculateDailyLimitReachedAtSecs ts now limit a = (if tot \<ge> limit then now - (tot - limit) else 0)"
      using Inr p total unfolding calculateDailyLimitReachedAtSecs_def last_active tot_def
      by (auto simp: Let_def)
    show ?thesis
    proof (cases "tot < limit")
      case True
      then show ?thesis using res by (simp add: tot_def secs)
    next
      case False
      define r where "r = now - (tot - limit)"
      have "calculateDailyLimitReachedAtSecs ts now limit a = r" using res False by (simp add: r_def)
      moreover have "active_secs ?v ?es a r = limit \<and> a \<le> r \<and> r \<le> now
        \<and> (0 < limit \<longrightarrow> (\<forall>r'<r. active_secs ?v ?es a r' < active_secs ?v ?es a r))"
      proof (cases "end_state ?u ts = US_ACTIVE")
        case True
        with total have tot: "tot = acc + max (now - began) 0" by (simp add: tot_def)
        have loop: "limitReached_loop limit ?es (0, a) = Inr (acc, began)" using Inr p by simp
        have end_act: "end_state ?v ?es = US_ACTIVE" using t(3) True by simp
        have lim: "limit \<le> acc + max (now - began) 0" using False tot by simp
        have triv: "?v = US_ACTIVE \<longrightarrow> a = a" by simp
        show ?thesis
          using limitReached_last [OF t(1) le triv assms(2,3) end_act loop lim]
          unfolding r_def tot add_0 .
      next
        case inactive: False
        with total have "tot = acc" by (simp add: tot_def)
        with False es f assms(3) have "limit = 0" "tot = 0" by (cases "?es = []"; simp)+
        then show ?thesis using assms(2) by (simp add: r_def tot_def)
      qed
      ultimately show ?thesis using False by (auto simp: tot_def secs)
    qed
  qed
qed

text \<open>\<open>_calculateDailyLimitReachedAtSecs\<close> is 0 while less than the limit has been used
  today; otherwise it is the first instant at which the active seconds since the start of the
  day amount to the limit.\<close>

theorem dailyLimitReachedAt_first_instant:
  assumes "history_ok ts now" and "startOfToday \<le> now" and "0 \<le> limit"
  shows "if active_secs (first_state ts) ts startOfToday now < limit
    then calculateDailyLimitReachedAtSecs ts now limit startOfToday = 0
    else \<exists>r. calculateDailyLimitReachedAtSecs ts now limit startOfToday = r
      \<and> startOfToday \<le> r \<and> r \<le> now
      \<and> active_secs (first_state ts) ts startOfToday r = limit
      \<and> (0 < limit \<longrightarrow> (\<forall>r'<r. active_secs (first_state ts) ts startOfToday r' < limit))"
  using assms by (rule limitReachedAt_cases)

theorem dailyLimitReachedAt_first_instant_witness:
  "calculateDailyLimitReachedAtSecs
      [tr US_INACTIVE US_ACTIVE 50, tr US_ACTIVE US_INACTIVE 130, tr US_INACTIVE US_ACTIVE 180] 250 60 100 = 210
   \<and> (\<exists>r. 210 = r \<and> 100 \<le> r \<and> r \<le> (250::int))"
proof -
  let ?ts = "[tr US_INACTIVE US_ACTIVE 50, tr US_ACTIVE US_INACTIVE 130, tr US_INACTIVE US_ACTIVE 180]"
  have h: "history_ok ?ts 250" by (simp add: history_ok_def)
  have u: "first_state ?ts = US_INACTIVE" by (simp add: first_state_def)
  have "active_secs US_INACTIVE ?ts 100 250 = 100"
    using calculateActive_spec [OF h, of 100] unfolding u
    by (simp add: calculateActiveTimeTodaySecs_def todaysTransitions_def activeTime_step_def Let_def)
  moreover have "calculateDailyLimitReachedAtSecs ?ts 250 60 100 = 210"
    by (simp add: calculateDailyLimitReachedAtSecs_def todaysTransitions_def activeTime_step_def Let_def)
  ultimately show ?thesis
    using dailyLimitReachedAt_first_instant [OF h, of 100 60] unfolding u by simp
qed

subsection \<open>The state machine\<close>

interpretation tl_slot: timer_slot tl_timerId tl_trace tl_scheduleUpdateState tl_timerFired
  by unfold_locales
    (simp_all add: tl_scheduleUpdateState_def tl_timerFired_def cancel_calls_def Let_def)

lemma tl_do_simps [simp]:
  "tl_state (tl_do c s) = tl_state s" "tl_userState (tl_do c s) = tl_userState s"
  "tl_transitions (tl_do c s) = tl_transitions s" "tl_timerId (tl_do c s) = tl_timerId s"
  "tl_lastStateChangeTimeSecs (tl_do c s) = tl_lastStateChangeTimeSecs s"
  "tl_timeChangeId (tl_do c s) = tl_timeChangeId s"
  "tl_clockOffsetSecs (tl_do c s) = tl_clockOffsetSecs s"
  "tl_loginUser (tl_do c s) = tl_loginUser s" "tl_loginManager (tl_do c s) = tl_loginManager s"
  "tl_inhibitor (tl_do c s) = tl_inhibitor s" "tl_cancellable (tl_do c s) = tl_cancellable s"
  "tl_ignoreClockOffsetChanges (tl_do c s) = tl_ignoreClockOffsetChanges s"
  "tl_trace (tl_do c s) = tl_trace s @ [Call c]"
  by (simp_all add: tl_do_def)

lemma tl_schedule_simps [simp]:
  "tl_state (tl_scheduleUpdateState mk d s) = tl_state s"
  "tl_userState (tl_scheduleUpdateState mk d s) = tl_userState s"
  "tl_transitions (tl_scheduleUpdateState mk d s) = tl_transitions s"
  "tl_lastStateChangeTimeSecs (tl_scheduleUpdateState mk d s) = tl_lastStateChangeTimeSecs s"
  "tl_timeChangeId (tl_scheduleUpdateState mk d s) = tl_timeChangeId s"
  by (simp_all add: tl_scheduleUpdateState_def Let_def)

lemma tl_timerFired_simps [simp]:
  "tl_state (tl_timerFired s) = tl_state s" "tl_userState (tl_timerFired s) = tl_userState s"
  "tl_transitions (tl_timerFired s) = tl_transitions s" "tl_timerId (tl_timerFired s) = 0"
  "tl_lastStateChangeTimeSecs (tl_timerFired s) = tl_lastStateChangeTimeSecs s"
  "tl_timeChangeId (tl_timerFired s) = tl_timeChangeId s"
  by (simp_all add: tl_timerFired_def)

lemmas tl_updateState_unfold = tl_updateState_def split_def Let_def

lemma tl_updateState_simps [simp]:
  "tl_state (tl_updateState env s) = fst (tl_decide env s)"
  "tl_userState (tl_updateState env s) = tl_userState s"
  "tl_transitions (tl_updateState env s) = tl_transitions s"
  "tl_timeChangeId (tl_updateState env s) = tl_timeChangeId s"
  "tl_lastStateChangeTimeSecs (tl_updateState env s) =
     (if fst (tl_decide env s) \<noteq> tl_state s then te_now env else tl_lastStateChangeTimeSecs s)"
  by (auto simp: tl_updateState_unfold split: option.split)

lemma tl_updateState_timer:
  "tl_timerId (tl_updateState env s) = (case snd (tl_decide env s) of
     None \<Rightarrow> tl_timerId s
   | Some d \<Rightarrow> tl_timerId (tl_scheduleUpdateState (te_source_id env) (real_of_int d) s))"
  by (auto simp: tl_updateState_unfold split: option.split)

text \<open>What \<open>_updateState\<close> decides, against the abstract history.\<close>

lemma tl_decide_spec:
  assumes "history_ok (tl_transitions s) (te_now env)" and "calendar_ok env"
  shows "tl_decide env s =
    (if te_dailyLimitEnabled env \<and> int (te_dailyLimitSeconds env) \<le> used_today env s
     then (TL_LIMIT_REACHED, Some (tomorrow env - te_now env))
     else if tl_userState s = Some US_ACTIVE
     then (TL_ACTIVE, if te_dailyLimitEnabled env
                      then Some (int (te_dailyLimitSeconds env) - used_today env s) else None)
     else (if tl_lastStateChangeTimeSecs s < today env then TL_ACTIVE else tl_state s, None))"
  using calculateActive_spec [OF assms(1), of "today env"] assms(2)
  by (simp add: tl_decide_def split_def Let_def calendar_ok_def)

lemma tl_updateState_emit:
  "count_list (tl_trace (tl_updateState env s)) (Call TlEmitLimitReached) =
     count_list (tl_trace s) (Call TlEmitLimitReached)
     + (if fst (tl_decide env s) = TL_LIMIT_REACHED \<and> tl_state s \<noteq> TL_LIMIT_REACHED then 1 else 0)"
proof -
  have sch: "count_list (tl_trace (tl_scheduleUpdateState mk d s)) (Call TlEmitLimitReached)
      = count_list (tl_trace s) (Call TlEmitLimitReached)" for mk d
    by (simp add: tl_slot.schedule_trace cancel_calls_def)
  show ?thesis
    by (auto simp: tl_updateState_unfold sch split: option.split)
qed

text \<open>On every update the manager is in LIMIT_REACHED exactly if the limit is enabled and
  has been used up today, or if it already was, the user is inactive and no new day has begun;
  \<open>daily-limit-reached\<close> is emitted exactly when that state is entered.\<close>

theorem limit_state_spec:
  assumes "history_ok (tl_transitions s) (te_now env)" and "calendar_ok env"
  shows "(tl_state (tl_updateState env s) = TL_LIMIT_REACHED \<longleftrightarrow>
       te_dailyLimitEnabled env \<and> int (te_dailyLimitSeconds env) \<le> used_today env s
       \<or> tl_state s = TL_LIMIT_REACHED \<and> tl_userState s \<noteq> Some US_ACTIVE
         \<and> today env \<le> tl_lastStateChangeTimeSecs s)
    \<and> count_list (tl_trace (tl_updateState env s)) (Call TlEmitLimitReached) =
        count_list (tl_trace s) (Call TlEmitLimitReached)
        + (if tl_state (tl_updateState env s) = TL_LIMIT_REACHED \<and> tl_state s \<noteq> TL_LIMIT_REACHED
           then 1 else 0)"
  using tl_decide_spec [OF assms] tl_updateState_emit [of env s] by auto

definition demo_tl :: "transition list \<Rightarrow> user_state \<Rightarrow> tl" where
  "demo_tl ts u = \<lparr>tl_state = TL_ACTIVE, tl_userState = Some u, tl_transitions = ts,
     tl_cancellable = True, tl_loginManager = True, tl_inhibitor = True, tl_loginUser = True,
     tl_lastStateChangeTimeSecs = 0, tl_timerId = 0, tl_timeChangeId = 1, tl_clockOffsetSecs = 0,
     tl_ignoreClockOffsetChanges = False, tl_trace = []\<rparr>"

lemma demo_tl_simps [simp]:
  "tl_state (demo_tl ts u) = TL_ACTIVE" "tl_userState (demo_tl ts u) = Some u"
  "tl_transitions (demo_tl ts u) = ts" "tl_lastStateChangeTimeSecs (demo_tl ts u) = 0"
  "tl_timerId (demo_tl ts u) = 0" "tl_trace (demo_tl ts u) = []"
  by (simp_all add: demo_tl_def)

lemma plain_env_simps [simp]:
  "te_now (plain_env now limit) = now" "te_dailyLimitEnabled (plain_env now limit)"
  "te_dailyLimitSeconds (plain_env now limit) = limit" "te_source_id (plain_env now limit) = count_ids"
  "te_userActive (plain_env now limit)" "\<not> te_idleHint (plain_env now limit)"
  "\<not> te_preparingForSleep (plain_env now limit)"
  by (simp_all add: plain_env_def)

lemma plain_start:
  "getStartOfTodaySecs (plain_env now limit) t =
     (if t mod 86400 < 10800 then (t - t mod 86400 - 75600, t - t mod 86400 + 10800)
      else (t - t mod 86400 + 10800, t - t mod 86400 + 97200))"
  by (auto simp: plain_env_def getStartOfTodaySecs_def Let_def)

lemma plain_calendar: "calendar_ok (plain_env now limit)"
  using pos_mod_bound [of 86400 now] pos_mod_sign [of 86400 now]
  by (auto simp: calendar_ok_def plain_start)

abbreviation demo_hist :: "transition list" where
  "demo_hist \<equiv> [tr US_INACTIVE US_ACTIVE 20000]"

lemma demo_hist_ok: "20000 \<le> now \<Longrightarrow> history_ok demo_hist now"
  by (simp add: history_ok_def)


lemma demo_hist_secs: "active_secs (first_state demo_hist) demo_hist 10800 b = max (b - 20000) 0"
proof (cases "20000 \<le> b")
  case True
  then show ?thesis by (simp add: active_secs_Cons active_secs_Nil first_state_def)
next
  case False
  then show ?thesis by (simp add: active_secs_before first_state_def)
qed

theorem limit_state_spec_witness:
  "tl_state (tl_updateState (plain_env 23600 3600) (demo_tl demo_hist US_ACTIVE)) = TL_LIMIT_REACHED
   \<and> tl_state (tl_updateState (plain_env 23599 3600) (demo_tl demo_hist US_ACTIVE)) \<noteq> TL_LIMIT_REACHED"
  using limit_state_spec [of "demo_tl demo_hist US_ACTIVE" "plain_env 23600 3600"]
    limit_state_spec [of "demo_tl demo_hist US_ACTIVE" "plain_env 23599 3600"]
  by (simp add: plain_start plain_calendar demo_hist_ok demo_hist_secs del: tl_updateState_simps)

subsection \<open>The timers\<close>

lemma history_ok_later: "history_ok ts now \<Longrightarrow> now \<le> now' \<Longrightarrow> history_ok ts now'"
  by (auto simp: history_ok_def)

lemma tl_schedule_in_trace:
  "SourceAdd (tl_timerId (tl_scheduleUpdateState mk (real_of_int d) s)) d
     \<in> set (tl_trace (tl_scheduleUpdateState mk (real_of_int d) s))"
  by (simp add: tl_slot.schedule_trace tl_slot.schedule_timer)

lemma tl_updateState_trace_mono: "set (tl_trace s) \<subseteq> set (tl_trace (tl_updateState env s))"
  by (auto simp: tl_updateState_unfold tl_slot.schedule_trace split: option.split)

lemma tl_updateState_timer_set:
  assumes "snd (tl_decide env s) = Some d" and "fresh_ids (te_source_id env)"
  shows "tl_timerId (tl_updateState env s) \<noteq> 0"
    and "SourceAdd (tl_timerId (tl_updateState env s)) d \<in> set (tl_trace (tl_updateState env s))"
proof -
  show "tl_timerId (tl_updateState env s) \<noteq> 0"
    using assms tl_slot.schedule_set by (simp add: tl_updateState_timer)
  have "set (tl_trace (tl_scheduleUpdateState (te_source_id env) (real_of_int d) s))
      \<subseteq> set (tl_trace (tl_updateState env s))"
    using assms(1) by (auto simp: tl_updateState_unfold)
  then show "SourceAdd (tl_timerId (tl_updateState env s)) d \<in> set (tl_trace (tl_updateState env s))"
    using tl_schedule_in_trace assms(1) by (auto simp: tl_updateState_timer)
qed

lemma onTimer_simps [simp]:
  "tl_state (tl_onTimer env s) = fst (tl_decide env (tl_timerFired s))"
  "count_list (tl_trace (tl_onTimer env s)) (Call TlEmitLimitReached) =
     count_list (tl_trace s) (Call TlEmitLimitReached)
     + (if tl_state (tl_onTimer env s) = TL_LIMIT_REACHED \<and> tl_state s \<noteq> TL_LIMIT_REACHED then 1 else 0)"
  by (simp_all add: tl_onTimer_def tl_updateState_emit tl_slot.fired_trace)



text \<open>Once the limit has been reached, the update leaves a timer due at the start of the
  next day, and when it fires then the manager is back in ACTIVE, whatever the user is doing.\<close>

theorem limit_resets_next_day:
  assumes "history_ok (tl_transitions s) (te_now env)" and "calendar_ok env"
    and "fresh_ids (te_source_id env)"
    and "te_dailyLimitEnabled env" and "int (te_dailyLimitSeconds env) \<le> used_today env s"
    and "tl_lastStateChangeTimeSecs s \<le> te_now env"
    and "te_now env' = tomorrow env" and "today env' = tomorrow env" and "calendar_ok env'"
    and "0 < te_dailyLimitSeconds env'"
  shows "let s' = tl_updateState env s in
      tl_state s' = TL_LIMIT_REACHED \<and> tl_timerId s' \<noteq> 0
    \<and> SourceAdd (tl_timerId s') (tomorrow env - te_now env) \<in> set (tl_trace s')
    \<and> tl_state (tl_onTimer env' s') = TL_ACTIVE"
proof -
  define s' where "s' = tl_updateState env s"
  have dec: "tl_decide env s = (TL_LIMIT_REACHED, Some (tomorrow env - te_now env))"
    using tl_decide_spec [OF assms(1,2)] assms(4,5) by simp
  have now: "te_now env < tomorrow env" using assms(2) by (simp add: calendar_ok_def)
  have last: "tl_lastStateChangeTimeSecs s' < today env'"
    using assms(6,8) now by (simp add: s'_def)
  have hist: "history_ok (tl_transitions (tl_timerFired s')) (te_now env')"
    using history_ok_later [OF assms(1)] assms(7) now by (simp add: s'_def)
  have "used_today env' (tl_timerFired s') = 0" using assms(7,8) by simp
  then have "fst (tl_decide env' (tl_timerFired s')) = TL_ACTIVE"
    using tl_decide_spec [OF hist assms(9)] last assms(10) by (simp add: not_le)
  then show ?thesis
    using tl_updateState_timer_set [OF _ assms(3), of s "tomorrow env - te_now env"] dec
    unfolding s'_def [symmetric] by (simp add: Let_def s'_def)
qed

theorem limit_resets_next_day_witness:
  "tl_state (tl_onTimer (plain_env 97200 3600) (tl_updateState (plain_env 30000 3600) (demo_tl demo_hist US_ACTIVE)))
    = TL_ACTIVE"
  using limit_resets_next_day [of "demo_tl demo_hist US_ACTIVE" "plain_env 30000 3600" "plain_env 97200 3600"]
  by (simp add: plain_start plain_calendar demo_hist_ok demo_hist_secs fresh_count_ids Let_def
      del: onTimer_simps)

end
