(* ===== verification/TimeLimitsStorage.thy ===== *)
theory TimeLimitsStorage
  imports TimeLimitsProps
begin

section \<open>Screen time limits: the history file\<close>

text \<open>
  Trimming and storing the history, reading it back, and what a file with arbitrary contents
  can do to the manager.
\<close>

subsection \<open>Trimming\<close>

definition keepOld :: "int \<Rightarrow> transition \<Rightarrow> bool" where
  "keepOld now e \<longleftrightarrow> wallTimeSecs e \<le> now \<and> now - HISTORY_THRESHOLD_SECONDS \<le> wallTimeSecs e"

fun keepFrom :: "int \<Rightarrow> transition list \<Rightarrow> transition list" where
  "keepFrom now [] = []"
| "keepFrom now (e # es) =
     (if keepOld now e \<or> es = [] \<and> wallTimeSecs e \<le> now then e # keepFrom now es else keepFrom now es)"

lemma trim_from:
  "map snd (filter (\<lambda>(i, e). filterOldTransition (wallTimeSecs e) i n now) (List.enumerate k es))
     = keepFrom now es" if "k + length es = n"
  using that
proof (induction es arbitrary: k)
  case Nil
  then show ?case by simp
next
  case (Cons e es)
  have "k = n - 1 \<longleftrightarrow> es = []" using Cons.prems by auto
  then have "filterOldTransition (wallTimeSecs e) k n now \<longleftrightarrow> keepOld now e \<or> es = [] \<and> wallTimeSecs e \<le> now"
    by (auto simp: filterOldTransition_def keepOld_def)
  with Cons show ?case by simp
qed

lemma trimTransitions_keepFrom: "trimTransitions now ts = keepFrom now ts"
  using trim_from [of 0 ts "length ts" now] by (simp add: trimTransitions_def)

lemma keepFrom_set: "set (keepFrom now ts) \<subseteq> set ts"
  by (induction ts) auto

lemma keepFrom_now: "e \<in> set (keepFrom now ts) \<Longrightarrow> wallTimeSecs e \<le> now"
  by (induction ts) (auto simp: keepOld_def split: if_splits)

lemma keepFrom_last: "ts \<noteq> [] \<Longrightarrow> wallTimeSecs (last ts) \<le> now \<Longrightarrow>
    keepFrom now ts \<noteq> [] \<and> last (keepFrom now ts) = last ts"
proof (induction ts)
  case (Cons e es)
  then show ?case by (cases "es = []") auto
qed simp

lemma keepFrom_id: "\<forall>e\<in>set ts. keepOld now e \<Longrightarrow> keepFrom now ts = ts"
  by (induction ts) auto

lemma keepFrom_filter:
  "now - HISTORY_THRESHOLD_SECONDS \<le> a \<Longrightarrow> \<forall>e\<in>set ts. wallTimeSecs e \<le> now \<Longrightarrow>
     filter (\<lambda>e. a \<le> wallTimeSecs e) (keepFrom now ts) = filter (\<lambda>e. a \<le> wallTimeSecs e) ts"
  by (induction ts) (auto simp: keepOld_def)

abbreviation times :: "transition list \<Rightarrow> int list" where
  "times ts \<equiv> map wallTimeSecs ts"

lemma keepFrom_sorted: "sorted (times ts) \<Longrightarrow> sorted (times (keepFrom now ts))"
  by (induction ts) (use keepFrom_set in auto)

lemma keepFrom_strict: "sorted_wrt (<) (times ts) \<Longrightarrow> sorted_wrt (<) (times (keepFrom now ts))"
  by (induction ts) (use keepFrom_set in auto)

lemma hist_ok_sorted: "hist_ok u w ts \<Longrightarrow> sorted (times ts)"
proof (induction ts arbitrary: u w)
  case (Cons e es)
  then have "\<forall>x\<in>set es. wallTimeSecs e \<le> wallTimeSecs x"
    using hist_ok_ge [of "newState e" "wallTimeSecs e" es] by auto
  with Cons show ?case by auto
qed simp

lemma keepFrom_hist: "hist_ok u w ts \<Longrightarrow> \<forall>e\<in>set ts. wallTimeSecs e \<le> now \<Longrightarrow>
    \<exists>v w'. hist_ok v w' (keepFrom now ts)"
proof (induction ts arbitrary: u w)
  case (Cons e es)
  show ?case
  proof (cases "keepOld now e")
    case True
    then have "keepFrom now es = es"
      using Cons.prems hist_ok_ge [of "newState e" "wallTimeSecs e" es]
      by (intro keepFrom_id) (fastforce simp: keepOld_def)
    with True Cons.prems show ?thesis by (metis keepFrom.simps(2))
  next
    case False
    show ?thesis
    proof (cases "es = []")
      case True
      with Cons.prems show ?thesis by (metis keepFrom.simps hist_ok.simps(1))
    next
      case nonempty: False
      with False Cons show ?thesis by auto
    qed
  qed
qed auto

lemma cancelPairs_strict: "sorted_wrt (<) (times ts) \<Longrightarrow> cancelPairs ts = ts"
  by (induction ts rule: cancelPairs.induct) auto

lemma todays_filter: "sorted (times ts) \<Longrightarrow> todaysTransitions ts a = filter (\<lambda>e. a \<le> wallTimeSecs e) ts"
  unfolding todaysTransitions_dropWhile
proof (induction ts)
  case (Cons e es)
  show ?case
  proof (cases "a \<le> wallTimeSecs e")
    case True
    with Cons.prems have "filter (\<lambda>e. a \<le> wallTimeSecs e) es = es" by (intro filter_True) auto
    with True show ?thesis by simp
  next
    case False
    with Cons show ?thesis by simp
  qed
qed simp

lemma calculateActive_cong:
  "todaysTransitions ts a = todaysTransitions us a \<Longrightarrow> (ts = []) = (us = []) \<Longrightarrow>
     (ts \<noteq> [] \<longrightarrow> last ts = last us) \<Longrightarrow>
     calculateActiveTimeTodaySecs ts now a = calculateActiveTimeTodaySecs us now a"
  by (cases "us = []") (simp_all add: calculateActiveTimeTodaySecs_def)

lemma tl_storeTransitions_simps [simp]:
  "tl_transitions (storeTransitions env s) = cancelPairs (keepFrom (te_now env) (tl_transitions s))"
  "tl_state (storeTransitions env s) = tl_state s" "tl_userState (storeTransitions env s) = tl_userState s"
  "tl_timerId (storeTransitions env s) = tl_timerId s"
  "tl_timeChangeId (storeTransitions env s) = tl_timeChangeId s"
  "tl_trace (storeTransitions env s) = tl_trace s @
     [Call (if tl_transitions (storeTransitions env s) = [] then TlFileDelete
            else TlFileReplace (tl_transitions (storeTransitions env s)))]"
  by (simp_all add: storeTransitions_def trimTransitions_keepFrom Let_def)

text \<open>Storing an alternating history whose times increase keeps it well formed, writes
  exactly the history kept in memory (or deletes the file when there is none), and does not
  change the active time of any day that starts within the history threshold.\<close>

theorem store_keeps_usage:
  assumes "history_ok (tl_transitions s) (te_now env)" and "sorted_wrt (<) (times (tl_transitions s))"
    and "te_now env - HISTORY_THRESHOLD_SECONDS \<le> startOfDay"
  shows "let s' = storeTransitions env s; ts = tl_transitions s' in
      history_ok ts (te_now env)
    \<and> last (tl_trace s') = Call (if ts = [] then TlFileDelete else TlFileReplace ts)
    \<and> calculateActiveTimeTodaySecs ts (te_now env) startOfDay
        = calculateActiveTimeTodaySecs (tl_transitions s) (te_now env) startOfDay"
proof -
  define ts where "ts = tl_transitions s"
  let ?now = "te_now env" and ?ts' = "keepFrom (te_now env) ts"
  note h = history_okD [OF assms(1), folded ts_def]
  have strict: "sorted_wrt (<) (times ts)" using assms(2) by (simp add: ts_def)
  have t: "tl_transitions (storeTransitions env s) = ?ts'"
    using cancelPairs_strict [OF keepFrom_strict [OF strict]] by (simp add: ts_def)
  have "\<exists>v w'. hist_ok v w' ?ts'" using keepFrom_hist [OF h(1)] h(2) by blast
  then have hist: "history_ok ?ts' ?now"
    using keepFrom_now by (auto simp: history_ok_def split: list.split)
  have last: "last (tl_trace (storeTransitions env s)) =
      Call (if ?ts' = [] then TlFileDelete else TlFileReplace ?ts')"
    unfolding tl_storeTransitions_simps(6) t by simp
  have sorted: "sorted (times ts)" using hist_ok_sorted [OF h(1)] .
  have "todaysTransitions ?ts' startOfDay = todaysTransitions ts startOfDay"
    using keepFrom_filter [OF assms(3)] h(2) by (simp add: todays_filter sorted keepFrom_sorted)
  moreover have "(ts \<noteq> [] \<longrightarrow> ?ts' \<noteq> [] \<and> last ?ts' = last ts)"
    using keepFrom_last [of ts ?now] h(2) by simp
  moreover have "ts = [] \<Longrightarrow> ?ts' = []" by simp
  ultimately have "calculateActiveTimeTodaySecs ?ts' ?now startOfDay
      = calculateActiveTimeTodaySecs ts ?now startOfDay"
    by (intro calculateActive_cong) auto
  with hist last show ?thesis by (simp add: t ts_def [symmetric] Let_def del: tl_storeTransitions_simps)
qed

theorem store_keeps_usage_witness:
  "calculateActiveTimeTodaySecs (tl_transitions (storeTransitions (plain_env 30000 3600)
      (demo_tl [tr US_ACTIVE US_INACTIVE (- 9000000), tr US_INACTIVE US_ACTIVE 20000] US_ACTIVE))) 30000 10800 = 10000"
  using store_keeps_usage [of "demo_tl [tr US_ACTIVE US_INACTIVE (- 9000000), tr US_INACTIVE US_ACTIVE 20000] US_ACTIVE"
      "plain_env 30000 3600" 10800]
  by (simp add: history_ok_def HISTORY_THRESHOLD_SECONDS_def Let_def calculateActiveTimeTodaySecs_def
      todaysTransitions_def activeTime_step_def del: tl_storeTransitions_simps)

text \<open>With two transitions in the same second, the pairwise filter of \<open>_storeTransitions\<close>
  drops only the first of a cancelling pair: the activity before it is no longer counted.\<close>

theorem store_drops_half_a_pair:
  "let s = demo_tl [tr US_INACTIVE US_ACTIVE 20000, tr US_ACTIVE US_INACTIVE 25000,
                    tr US_INACTIVE US_ACTIVE 25000] US_ACTIVE;
       s' = storeTransitions (plain_env 30000 3600) s
   in tl_transitions s' = [tr US_INACTIVE US_ACTIVE 20000, tr US_INACTIVE US_ACTIVE 25000]
    \<and> calculateActiveTimeTodaySecs (tl_transitions s) 30000 10800 = 10000
    \<and> calculateActiveTimeTodaySecs (tl_transitions s') 30000 10800 = 5000"
  by (simp add: Let_def keepOld_def HISTORY_THRESHOLD_SECONDS_def calculateActiveTimeTodaySecs_def
      todaysTransitions_def activeTime_step_def)

subsection \<open>Loading\<close>

lemma addTransition_simps [simp]:
  "tl_transitions (addTransition env old new wall rc s) =
     tl_transitions s @ [\<lparr>oldState = old, newState = new, wallTimeSecs = wall\<rparr>]"
  "tl_userState (addTransition env old new wall rc s) = Some new"
  by (simp_all add: addTransition_def Let_def)

definition entry_ok :: "transition \<Rightarrow> bool" where
  "entry_ok e \<longleftrightarrow> oldState e \<noteq> newState e \<and> 0 \<le> wallTimeSecs e \<and> wallTimeSecs e \<le> 2 ^ 53 - 1"

lemma isSafeInteger_of_int: "isSafeInteger (real_of_int i) \<longleftrightarrow> \<bar>i\<bar> \<le> 2 ^ 53 - 1"
proof -
  have "(2 ^ 53 - 1 :: real) = real_of_int (2 ^ 53 - 1)" by simp
  then have "\<bar>real_of_int i\<bar> \<le> 2 ^ 53 - 1 \<longleftrightarrow> \<bar>i\<bar> \<le> 2 ^ 53 - 1"
    by (metis of_int_abs of_int_le_iff)
  then show ?thesis unfolding isSafeInteger_def MAX_SAFE_INTEGER_def by simp
qed

lemma parse_state_value [simp]: "parse_user_state (Some (JNum (user_state_value u))) = Some u"
  by (cases u) simp_all

lemma parse_transition_json:
  assumes "entry_ok e" and "previous \<le> wallTimeSecs e"
  shows "parse_entry previous (transition_json e) = Some e"
proof -
  have "isSafeInteger (real_of_int (wallTimeSecs e))"
    using assms(1) unfolding isSafeInteger_of_int entry_ok_def by simp
  then show ?thesis
    using assms by (simp add: parse_entry_def transition_json_def entry_ok_def del: parse_user_state.simps)
qed

lemma parse_entry_ok:
  assumes "parse_entry previous j = Some e" and "0 \<le> previous"
  shows "entry_ok e \<and> previous \<le> wallTimeSecs e"
proof -
  obtain old new wall where e: "old \<noteq> new" "isSafeInteger wall" "\<not> wall < real_of_int previous"
      "e = \<lparr>oldState = old, newState = new, wallTimeSecs = \<lfloor>wall\<rfloor>\<rparr>"
    using assms(1) by (auto simp: parse_entry_def split: option.splits json.splits if_splits)
  obtain i where w: "wall = real_of_int i" using e(2) by (auto simp: isSafeInteger_def)
  then have "previous \<le> i" "\<bar>i\<bar> \<le> 2 ^ 53 - 1" using e(2,3) isSafeInteger_of_int by auto
  then show ?thesis using e(1,4) assms(2) by (simp add: entry_ok_def w)
qed

lemma load_loop_stored:
  assumes "\<forall>e\<in>set es. entry_ok e" and "sorted (times es)" and "\<forall>e\<in>set es. previous \<le> wallTimeSecs e"
    and "i + length es = n"
  shows "fst (load_loop env n i previous (map transition_json es) s)
    \<and> tl_transitions (snd (load_loop env n i previous (map transition_json es) s))
        = tl_transitions s @ keepFrom (te_now env) es
    \<and> tl_userState (snd (load_loop env n i previous (map transition_json es) s))
        = (if keepFrom (te_now env) es = [] then tl_userState s
           else Some (newState (last (keepFrom (te_now env) es))))"
  using assms
proof (induction es arbitrary: i previous s)
  case Nil
  then show ?case by simp
next
  case (Cons e es)
  have parse: "parse_entry previous (transition_json e) = Some e"
    using Cons.prems(1,3) by (simp add: parse_transition_json)
  have "i = n - 1 \<longleftrightarrow> es = []" using Cons.prems(4) by auto
  then have keep: "filterOldTransition (wallTimeSecs e) i n (te_now env)
      \<longleftrightarrow> keepOld (te_now env) e \<or> es = [] \<and> wallTimeSecs e \<le> te_now env"
    by (auto simp: filterOldTransition_def keepOld_def)
  show ?case
  proof (cases "filterOldTransition (wallTimeSecs e) i n (te_now env)")
    case True
    define s' where "s' = addTransition env (oldState e) (newState e) (wallTimeSecs e) (i = n - 1) s"
    have s': "tl_transitions s' = tl_transitions s @ [e]" "tl_userState s' = Some (newState e)"
      by (simp_all add: s'_def)
    have kf: "keepFrom (te_now env) (e # es) = e # keepFrom (te_now env) es" using True keep by simp
    have step: "load_loop env n i previous (map transition_json (e # es)) s =
        load_loop env n (Suc i) (wallTimeSecs e) (map transition_json es) s'"
      using True parse by (simp add: s'_def)
    show ?thesis
      using Cons.IH [of "wallTimeSecs e" "Suc i" s'] Cons.prems s' unfolding step kf by auto
  next
    case False
    have step: "load_loop env n i previous (map transition_json (e # es)) s =
        load_loop env n (Suc i) previous (map transition_json es) s"
      using False parse by simp
    have kf: "keepFrom (te_now env) (e # es) = keepFrom (te_now env) es" using False keep by auto
    show ?thesis
      using Cons.IH [of previous "Suc i" s] Cons.prems unfolding step kf by auto
  qed
qed

text \<open>What of a stored history counts at a later time, said of the entries by themselves: those that are not in the
  future and not older than the threshold, and of the last one only that it is not in the future.\<close>

definition stillCounting :: "int \<Rightarrow> transition list \<Rightarrow> transition list" where
  "stillCounting now ts =
     [e \<leftarrow> butlast ts. now - HISTORY_THRESHOLD_SECONDS \<le> wallTimeSecs e \<and> wallTimeSecs e \<le> now]
     @ (if ts \<noteq> [] \<and> wallTimeSecs (last ts) \<le> now then [last ts] else [])"

lemma keepFrom_stillCounting: "keepFrom now ts = stillCounting now ts"
proof (induction ts)
  case (Cons e ts)
  then show ?case by (cases "ts = []") (auto simp: stillCounting_def keepOld_def HISTORY_THRESHOLD_SECONDS_def)
qed (simp add: stillCounting_def)

text \<open>C5: A history whose entries change the state and have ordered, non-negative safe times
  is read back from the file \<open>_storeTransitions\<close> wrote, less the entries that are by then in the future and those that are
  older than the threshold, of which the last entry is kept; and the user is in the state the last of them
  leads to.\<close>

theorem load_stored_history:
  assumes "\<forall>e\<in>set ts. entry_ok e" and "sorted (times ts)"
  shows "let (ok, s') = loadTransitions env (FileContents (Some (JArr (map transition_json ts)))) s;
        kept = stillCounting (te_now env) ts
    in ok \<and> tl_transitions s' = tl_transitions s @ kept
     \<and> (kept \<noteq> [] \<longrightarrow> tl_userState s' = Some (newState (last kept)))"
  using load_loop_stored [OF assms, of 0 0 "length ts" env "tl_do TlFreeze s"] assms(1)
  by (simp add: loadTransitions_def split_def Let_def keepFrom_stillCounting entry_ok_def)

theorem load_stored_history_witness:
  "tl_transitions (snd (loadTransitions (plain_env 30000 3600)
      (FileContents (Some (JArr (map transition_json [tr US_INACTIVE US_ACTIVE 20000, tr US_ACTIVE US_INACTIVE 25000, tr US_INACTIVE US_ACTIVE 35000]))))
      (demo_tl [] US_ACTIVE)))
    = [tr US_INACTIVE US_ACTIVE 20000, tr US_ACTIVE US_INACTIVE 25000]"
  using load_stored_history [of "[tr US_INACTIVE US_ACTIVE 20000, tr US_ACTIVE US_INACTIVE 25000, tr US_INACTIVE US_ACTIVE 35000]"
      "plain_env 30000 3600" "demo_tl [] US_ACTIVE"]
  by (simp add: entry_ok_def split_def Let_def stillCounting_def
      HISTORY_THRESHOLD_SECONDS_def del: transition_json_def)

lemma load_loop_safe:
  "0 \<le> previous \<Longrightarrow> \<exists>es. tl_transitions (snd (load_loop env n i previous entries s)) = tl_transitions s @ es
     \<and> (\<forall>e\<in>set es. entry_ok e \<and> previous \<le> wallTimeSecs e \<and> wallTimeSecs e \<le> te_now env)
     \<and> sorted (times es)"
proof (induction entries arbitrary: i previous s)
  case Nil
  then show ?case by simp
next
  case (Cons j entries)
  show ?case
  proof (cases "parse_entry previous j")
    case None
    then show ?thesis by simp
  next
    case (Some e)
    note ok = parse_entry_ok [OF Some Cons.prems]
    show ?thesis
    proof (cases "filterOldTransition (wallTimeSecs e) i n (te_now env)")
      case True
      let ?s = "addTransition env (oldState e) (newState e) (wallTimeSecs e) (i = n - 1) s"
      have now: "wallTimeSecs e \<le> te_now env" using True by (simp add: filterOldTransition_def)
      have "0 \<le> wallTimeSecs e" using ok by (simp add: entry_ok_def)
      from Cons.IH [OF this, of "Suc i" ?s] obtain es where es:
        "tl_transitions (snd (load_loop env n (Suc i) (wallTimeSecs e) entries ?s)) = tl_transitions ?s @ es"
        "\<forall>x\<in>set es. entry_ok x \<and> wallTimeSecs e \<le> wallTimeSecs x \<and> wallTimeSecs x \<le> te_now env"
        "sorted (times es)" by blast
      show ?thesis
        by (rule exI [of _ "e # es"]) (use Some True ok now es in auto)
    next
      case False
      with Some Cons.IH [OF Cons.prems, of "Suc i" s] show ?thesis by simp
    qed
  qed
qed

text \<open>Whatever the history file holds, loading it only appends entries that change the
  state, are in order, have safe non-negative times and do not lie in the future.\<close>

theorem load_any_file:
  "\<exists>es. tl_transitions (snd (loadTransitions env r s)) = tl_transitions s @ es
     \<and> list_all (\<lambda>e. entry_ok e \<and> wallTimeSecs e \<le> te_now env) es \<and> sorted (times es)"
proof (cases "\<exists>js. r = FileContents (Some (JArr js))")
  case True
  then obtain js where r: "r = FileContents (Some (JArr js))" by blast
  from load_loop_safe [of 0 env "length js" 0 js "tl_do TlFreeze s"] show ?thesis
    unfolding r by (force simp: loadTransitions_def split_def Let_def list_all_iff)
next
  case False
  then have "tl_transitions (snd (loadTransitions env r s)) = tl_transitions s"
    by (cases r) (auto simp: loadTransitions_def split: option.split json.split)
  then show ?thesis by (intro exI [of _ "[]"]) simp
qed

end
