(* ===== verification/TimeLimitsRun.thy ===== *)
theory TimeLimitsRun
  imports TimeLimitsStorage
begin

section \<open>Screen time limits: clock changes, start, stop and their interleavings\<close>

text \<open>
  A configuration is the manager and the asynchronous continuations that are pending on an
  \<open>await\<close>; a step runs one signal handler, timer or continuation to its next \<open>await\<close>. The
  environment (clock, settings, logind) is arbitrary at every step, only GLib's identifiers are
  fresh.
\<close>

subsection \<open>Clock changes\<close>

abbreviation shift_times :: "int \<Rightarrow> transition list \<Rightarrow> transition list" where
  "shift_times offset \<equiv> map (\<lambda>e. e\<lparr>wallTimeSecs := wallTimeSecs e + offset\<rparr>)"

lemma fold_shift:
  "fold activeTime_step (shift_times k es) (acc, began + k) =
     (fst (fold activeTime_step es (acc, began)), snd (fold activeTime_step es (acc, began)) + k)"
proof (induction es arbitrary: acc began)
  case (Cons e es)
  have "activeTime_step (e\<lparr>wallTimeSecs := wallTimeSecs e + k\<rparr>) (acc, began + k) =
      (fst (activeTime_step e (acc, began)), snd (activeTime_step e (acc, began)) + k)"
    by (simp add: activeTime_step_def)
  with Cons.IH [of "fst (activeTime_step e (acc, began))" "snd (activeTime_step e (acc, began))"]
  show ?case by simp
qed simp

lemma todays_shift: "todaysTransitions (shift_times k ts) (a + k) = shift_times k (todaysTransitions ts a)"
  by (simp add: todaysTransitions_dropWhile dropWhile_map comp_def)

text \<open>After a clock change by an offset, \<open>_adjustAllTimes\<close> has moved the history, the
  time of the last state change and the clock offset with the clock: the active time of every
  window, moved by the same offset, is unchanged, and a well-formed history stays so.\<close>

theorem clock_change_moves_history:
  "let s' = adjustAllTimes k s in
     calculateActiveTimeTodaySecs (tl_transitions s') (now + k) (startOfDay + k)
       = calculateActiveTimeTodaySecs (tl_transitions s) now startOfDay
   \<and> tl_clockOffsetSecs s' = tl_clockOffsetSecs s + k
   \<and> tl_lastStateChangeTimeSecs s' = (if tl_lastStateChangeTimeSecs s = 0 then 0
        else tl_lastStateChangeTimeSecs s + k)
   \<and> (history_ok (tl_transitions s) now = history_ok (tl_transitions s') (now + k))"
proof -
  have *: "hist_ok u (w + k) (shift_times k ts) = hist_ok u w ts" for u w ts
    by (induction ts arbitrary: u w) auto
  have "history_ok (shift_times k ts) (now + k) = history_ok ts now" for ts
    using * [of "oldState (hd ts)" "wallTimeSecs (hd ts)" ts]
    by (cases ts) (auto simp: history_ok_def simp del: hist_ok.simps)
  moreover have "calculateActiveTimeTodaySecs (shift_times k ts) (now + k) (startOfDay + k)
      = calculateActiveTimeTodaySecs ts now startOfDay" for ts
    unfolding calculateActiveTimeTodaySecs_def todays_shift fold_shift
    by (auto simp: split_def Let_def last_map)
  ultimately show ?thesis by (simp add: adjustAllTimes_def Let_def)
qed

subsection \<open>Interleavings\<close>

datatype tl_await =
    AwaitLoad          \<comment> \<open>\<open>_startStateMachine\<close> reading the file\<close>
  | AwaitInhibit       \<comment> \<open>\<open>_startStateMachine\<close> taking the inhibitor\<close>
  | AwaitUser          \<comment> \<open>\<open>_startStateMachine\<close> getting the user's proxy\<close>
  | AwaitStop          \<comment> \<open>\<open>_stopStateMachine\<close> writing or deleting the file\<close>
  | AwaitSleepInhibit  \<comment> \<open>\<open>_onPrepareForSleep\<close> retaking the inhibitor\<close>

type_synonym tl_config = "tl_await list \<times> tl"

inductive tl_step :: "tl_config \<Rightarrow> tl_config \<Rightarrow> bool" where
  settings_stop: "\<not> te_historyEnabled env \<Longrightarrow> tl_state s \<noteq> TL_DISABLED \<Longrightarrow> fresh_ids (te_source_id env) \<Longrightarrow>
    tl_step (ps, s) (ps @ [AwaitStop], tl_updateSettings env s)"
| settings_start: "te_historyEnabled env \<Longrightarrow> tl_state s = TL_DISABLED \<Longrightarrow>
    tl_step (ps, s) (ps @ [AwaitLoad], tl_updateSettings env s)"
| settings_other: "te_historyEnabled env = (tl_state s \<noteq> TL_DISABLED) \<Longrightarrow> fresh_ids (te_source_id env) \<Longrightarrow>
    tl_step (ps, s) (ps, tl_updateSettings env s)"
| shutdown: "fresh_ids (te_source_id env) \<Longrightarrow> tl_step (ps, s) (ps @ [AwaitStop], stop_begin env s)"
| loaded: "AwaitLoad \<in> set ps \<Longrightarrow> fresh_ids (te_source_id env) \<Longrightarrow>
    tl_step (ps, s) (remove1 AwaitLoad ps @ [AwaitInhibit], start_loaded env r s)"
| inhibited: "AwaitInhibit \<in> set ps \<Longrightarrow> start_inhibited granted s = Some s' \<Longrightarrow>
    tl_step (ps, s) (remove1 AwaitInhibit ps @ [AwaitUser], s')"
| inhibit_failed: "AwaitInhibit \<in> set ps \<Longrightarrow> start_inhibited granted s = None \<Longrightarrow>
    tl_step (ps, s) (remove1 AwaitInhibit ps, ensureInhibitor_done granted s)"
| user: "AwaitUser \<in> set ps \<Longrightarrow> fresh_ids (te_source_id env) \<Longrightarrow>
    tl_step (ps, s) (remove1 AwaitUser ps, snd (start_user env found s))"
| stopped: "AwaitStop \<in> set ps \<Longrightarrow> tl_step (ps, s) (remove1 AwaitStop ps, stop_end s)"
| timer: "tl_timerId s \<noteq> 0 \<Longrightarrow> fresh_ids (te_source_id env) \<Longrightarrow> tl_step (ps, s) (ps, tl_onTimer env s)"
| sleep: "tl_loginManager s \<Longrightarrow> fresh_ids (te_source_id env) \<Longrightarrow>
    ps' = (if \<not> preparing \<and> \<not> tl_inhibitor s then ps @ [AwaitSleepInhibit] else ps) \<Longrightarrow>
    tl_step (ps, s) (ps', onPrepareForSleep env preparing s)"
| sleep_inhibited: "AwaitSleepInhibit \<in> set ps \<Longrightarrow>
    tl_step (ps, s) (remove1 AwaitSleepInhibit ps, ensureInhibitor_done granted s)"
| user_changed: "tl_loginUser s \<Longrightarrow> fresh_ids (te_source_id env) \<Longrightarrow>
    tl_step (ps, s) (ps, snd (updateUserState env True s))"
| time_changed: "tl_timeChangeId s \<noteq> 0 \<Longrightarrow> fresh_ids (te_source_id env) \<Longrightarrow>
    tl_step (ps, s) (ps, onTimeChange env s)"

inductive tl_reachable :: "tl_config \<Rightarrow> bool" where
  created: "tl_reachable (if te_historyEnabled env then [AwaitLoad] else [], newTimeLimitsManager env)"
| stepped: "tl_reachable c \<Longrightarrow> tl_step c c' \<Longrightarrow> tl_reachable c'"

subsection \<open>The timer, in every interleaving\<close>

abbreviation tl_ok :: "tl \<Rightarrow> bool" where
  "tl_ok \<equiv> tl_slot.slot_ok"

lemma tl_ok_cong: "tl_timerId s' = tl_timerId s \<Longrightarrow> tl_trace s' = tl_trace s \<Longrightarrow> tl_ok s' = tl_ok s"
  by (simp add: tl_slot.slot_ok_def)

lemma tl_ok_do [simp]: "tl_ok (tl_do c s) = tl_ok s"
  by (simp add: tl_slot.slot_ok_def)

lemma tl_ok_upd [simp]:
  "tl_ok (s\<lparr>tl_state := a\<rparr>) = tl_ok s" "tl_ok (s\<lparr>tl_userState := b\<rparr>) = tl_ok s"
  "tl_ok (s\<lparr>tl_transitions := c\<rparr>) = tl_ok s" "tl_ok (s\<lparr>tl_cancellable := d\<rparr>) = tl_ok s"
  "tl_ok (s\<lparr>tl_loginManager := d\<rparr>) = tl_ok s" "tl_ok (s\<lparr>tl_inhibitor := d\<rparr>) = tl_ok s"
  "tl_ok (s\<lparr>tl_loginUser := d\<rparr>) = tl_ok s" "tl_ok (s\<lparr>tl_lastStateChangeTimeSecs := e\<rparr>) = tl_ok s"
  "tl_ok (s\<lparr>tl_timeChangeId := f\<rparr>) = tl_ok s" "tl_ok (s\<lparr>tl_clockOffsetSecs := e\<rparr>) = tl_ok s"
  "tl_ok (s\<lparr>tl_ignoreClockOffsetChanges := d\<rparr>) = tl_ok s"
  by (simp_all add: tl_slot.slot_ok_def)

lemma tl_ok_updateState: "fresh_ids (te_source_id env) \<Longrightarrow> tl_ok s \<Longrightarrow> tl_ok (tl_updateState env s)"
  by (auto simp: tl_updateState_unfold tl_slot.schedule_ok split: option.split)

lemma tl_ok_addTransition:
  "fresh_ids (te_source_id env) \<Longrightarrow> tl_ok s \<Longrightarrow> tl_ok (addTransition env old new wall rc s)"
  by (simp add: addTransition_def Let_def tl_ok_updateState)

lemma tl_ok_storeTransitions [simp]: "tl_ok (storeTransitions env s) = tl_ok s"
  by (simp add: storeTransitions_def Let_def)

lemma tl_ok_updateUserState:
  "fresh_ids (te_source_id env) \<Longrightarrow> tl_ok s \<Longrightarrow> tl_ok (snd (updateUserState env st s))"
  by (auto simp: updateUserState_def Let_def tl_ok_addTransition split: option.split)

lemma tl_ok_load_loop:
  "fresh_ids (te_source_id env) \<Longrightarrow> tl_ok s \<Longrightarrow> tl_ok (snd (load_loop env n i w js s))"
  by (induction js arbitrary: i w s) (auto simp: tl_ok_addTransition split: option.split)

lemma tl_ok_loadTransitions:
  "fresh_ids (te_source_id env) \<Longrightarrow> tl_ok s \<Longrightarrow> tl_ok (snd (loadTransitions env r s))"
  by (auto simp: loadTransitions_def split_def Let_def tl_ok_load_loop
      split: file_read.split option.split json.split)

lemma tl_ok_inhibitor [simp]:
  "tl_ok (ensureInhibitor_request s) = tl_ok s" "tl_ok (ensureInhibitor_done ok s) = tl_ok s"
  "tl_ok (releaseInhibitor s) = tl_ok s"
  by (simp_all add: ensureInhibitor_request_def ensureInhibitor_done_def releaseInhibitor_def)

lemma tl_ok_start_loaded:
  "fresh_ids (te_source_id env) \<Longrightarrow> tl_ok s \<Longrightarrow> tl_ok (start_loaded env r s)"
  by (auto simp: start_loaded_def Let_def tl_ok_addTransition tl_ok_loadTransitions split: option.split)

lemma tl_ok_stop_sources: "tl_ok s \<Longrightarrow> tl_ok (stop_sources s)"
  by (simp add: stop_sources_def tl_slot.slot_ok_def Let_def)

lemma tl_ok_stop_objects [simp]: "tl_ok (stop_objects s) = tl_ok s"
  by (simp add: stop_objects_def Let_def)

lemma tl_ok_stop_begin: "fresh_ids (te_source_id env) \<Longrightarrow> tl_ok s \<Longrightarrow> tl_ok (stop_begin env s)"
  by (simp add: stop_begin_def Let_def deleteTransitions_def tl_ok_addTransition tl_ok_stop_sources)

lemma tl_ok_stop_end [simp]: "tl_ok (stop_end s) = tl_ok s"
  by (simp add: stop_end_def)

lemma tl_ok_start_begin [simp]: "tl_ok (start_begin s) = tl_ok s"
  by (simp add: start_begin_def)

lemma tl_ok_updateSettings:
  "fresh_ids (te_source_id env) \<or> te_historyEnabled env \<and> tl_state s = TL_DISABLED \<Longrightarrow>
     tl_ok s \<Longrightarrow> tl_ok (tl_updateSettings env s)"
  by (auto simp: tl_updateSettings_def tl_ok_stop_begin tl_ok_updateState)

lemma tl_ok_start_inhibited: "start_inhibited ok s = Some s' \<Longrightarrow> tl_ok s' = tl_ok s"
  by (auto simp: start_inhibited_def Let_def split: if_splits)

lemma tl_ok_start_user:
  "fresh_ids (te_source_id env) \<Longrightarrow> tl_ok s \<Longrightarrow> tl_ok (snd (start_user env found s))"
  by (simp add: start_user_def split_def Let_def tl_ok_updateState tl_ok_updateUserState)

lemma tl_ok_onTimer:
  "fresh_ids (te_source_id env) \<Longrightarrow> tl_timerId s \<noteq> 0 \<Longrightarrow> tl_ok s \<Longrightarrow> tl_ok (tl_onTimer env s)"
  by (simp add: tl_onTimer_def tl_ok_updateState tl_slot.fired_ok)

lemma tl_ok_sleep:
  "fresh_ids (te_source_id env) \<Longrightarrow> tl_ok s \<Longrightarrow> tl_ok (onPrepareForSleep env p s)"
  by (simp add: onPrepareForSleep_def Let_def tl_ok_updateUserState)

lemma tl_ok_adjust [simp]: "tl_ok (adjustAllTimes k s) = tl_ok s"
  by (simp add: adjustAllTimes_def)

lemma tl_ok_timeChange:
  "fresh_ids (te_source_id env) \<Longrightarrow> tl_ok s \<Longrightarrow> tl_ok (onTimeChange env s)"
  by (simp add: onTimeChange_def Let_def tl_ok_updateState)

lemmas tl_ok_steps = tl_ok_updateSettings tl_ok_stop_begin tl_ok_start_loaded tl_ok_start_user
  tl_ok_onTimer tl_ok_sleep tl_ok_updateUserState tl_ok_timeChange

lemma tl_ok_step: "tl_step c c' \<Longrightarrow> tl_ok (snd c) \<Longrightarrow> tl_ok (snd c')"
  by (induction rule: tl_step.induct) (auto simp: tl_ok_steps tl_ok_start_inhibited)

lemma tl_ok_new: "tl_ok (newTimeLimitsManager env)"
  by (simp add: newTimeLimitsManager_def tl_updateSettings_def start_begin_def tl_slot.slot_ok_def sources_def)

text \<open>In every interleaving of settings changes, signals, timers and pending asynchronous
  calls, the GLib source of the manager that exists is exactly the one \<open>_timerId\<close> names: none
  leaks and none is removed twice.\<close>

theorem limits_timer_exact:
  assumes "tl_reachable (ps, s)"
  shows "sources (tl_trace s) = Some (if tl_timerId s = 0 then {} else {tl_timerId s})"
proof -
  have "tl_ok (snd c)" if "tl_reachable c" for c
    using that by induction (auto simp: tl_ok_new intro: tl_ok_step)
  from this [OF assms] show ?thesis by (simp add: tl_slot.slot_ok_def)
qed

subsection \<open>A stop during a start\<close>

abbreviation off_env :: tl_env where
  "off_env \<equiv> (plain_env 30000 3600)\<lparr>te_historyEnabled := False\<rparr>"

definition race_stop :: tl where
  "race_stop = stop_end (tl_updateSettings off_env (newTimeLimitsManager (plain_env 30000 3600)))"

definition race_end :: tl where
  "race_end = snd (start_user off_env True
     (tl_do TlConnectLoginManager (ensureInhibitor_done True (start_loaded off_env FileError race_stop))))"

lemma new_plain: "newTimeLimitsManager (plain_env 30000 3600) =
    \<lparr>tl_state = TL_ACTIVE, tl_userState = Some US_ACTIVE, tl_transitions = [], tl_cancellable = True,
      tl_loginManager = False, tl_inhibitor = False, tl_loginUser = False,
      tl_lastStateChangeTimeSecs = 0, tl_timerId = 0, tl_timeChangeId = 0,
      tl_clockOffsetSecs = 0, tl_ignoreClockOffsetChanges = False, tl_trace = [Call TlFreeze]\<rparr>"
  by (simp add: newTimeLimitsManager_def tl_updateSettings_def start_begin_def plain_env_def tl_do_def)

lemma race_stop_simp: "race_stop =
    \<lparr>tl_state = TL_DISABLED, tl_userState = Some US_ACTIVE, tl_transitions = [], tl_cancellable = False,
      tl_loginManager = False, tl_inhibitor = False, tl_loginUser = False,
      tl_lastStateChangeTimeSecs = 0, tl_timerId = 0, tl_timeChangeId = 0,
      tl_clockOffsetSecs = 0, tl_ignoreClockOffsetChanges = False,
      tl_trace = [Call TlFreeze, Call TlNotifyState, Call TlFileDelete, Call TlCancel]\<rparr>"
  by (simp add: race_stop_def new_plain tl_updateSettings_def stop_begin_def stop_sources_def
      stop_objects_def releaseInhibitor_def deleteTransitions_def stop_end_def tl_do_def Let_def)

lemma race_loaded: "start_loaded off_env FileError race_stop =
    \<lparr>tl_state = TL_DISABLED, tl_userState = Some US_ACTIVE,
      tl_transitions = [tr US_INACTIVE US_ACTIVE 30000], tl_cancellable = False,
      tl_loginManager = True, tl_inhibitor = False, tl_loginUser = False,
      tl_lastStateChangeTimeSecs = 0, tl_timerId = 0, tl_timeChangeId = 1,
      tl_clockOffsetSecs = 30000, tl_ignoreClockOffsetChanges = False,
      tl_trace = [Call TlFreeze, Call TlNotifyState, Call TlFileDelete, Call TlCancel,
        Call (TlTimeChangeAdd 1), Call TlInhibit]\<rparr>"
  by (simp add: start_loaded_def race_stop_simp loadTransitions_def addTransition_def plain_env_def
      getClockOffset_def ensureInhibitor_request_def tl_do_def Let_def)

lemma race_end_reachable: "tl_reachable ([], race_end)"
proof -
  let ?s0 = "newTimeLimitsManager (plain_env 30000 3600)"
  have off: "\<not> te_historyEnabled off_env" "fresh_ids (te_source_id off_env)"
    by (simp_all add: fresh_count_ids)
  have 0: "tl_reachable ([AwaitLoad], ?s0)"
    using tl_reachable.created [of "plain_env 30000 3600"] by (simp add: plain_env_def)
  have 1: "tl_step ([AwaitLoad], ?s0) ([AwaitLoad] @ [AwaitStop], tl_updateSettings off_env ?s0)"
    by (rule tl_step.settings_stop) (use off in \<open>simp_all add: new_plain\<close>)
  have 2: "tl_step ([AwaitLoad, AwaitStop], tl_updateSettings off_env ?s0) ([AwaitLoad], race_stop)"
    using tl_step.stopped [of "[AwaitLoad, AwaitStop]"] by (simp add: race_stop_def)
  have 3: "tl_step ([AwaitLoad], race_stop) ([AwaitInhibit], start_loaded off_env FileError race_stop)"
    using tl_step.loaded [of "[AwaitLoad]" off_env race_stop FileError] off by simp
  have 4: "tl_step ([AwaitInhibit], start_loaded off_env FileError race_stop)
      ([AwaitUser], tl_do TlConnectLoginManager (ensureInhibitor_done True (start_loaded off_env FileError race_stop)))"
    using tl_step.inhibited [of "[AwaitInhibit]" True]
    by (simp add: start_inhibited_def race_loaded ensureInhibitor_done_def)
  have 5: "tl_step ([AwaitUser], tl_do TlConnectLoginManager
      (ensureInhibitor_done True (start_loaded off_env FileError race_stop))) ([], race_end)"
    using tl_step.user [of "[AwaitUser]" off_env _ True] off by (simp add: race_end_def)
  show ?thesis
    using 0 1 2 3 4 5 by (metis tl_reachable.stepped append_Cons append_Nil)
qed

lemma race_end_simp: "race_end = tl_do TlThaw (tl_updateState off_env (tl_do TlConnectLoginUser
    ((tl_do TlConnectLoginManager (ensureInhibitor_done True (start_loaded off_env FileError race_stop)))
      \<lparr>tl_loginUser := True\<rparr>)))"
  by (simp add: race_end_def start_user_def updateUserState_def calculateUserStateFromLogind_def
      race_loaded ensureInhibitor_done_def tl_do_def)

lemma race_decide: "tl_userState s = Some US_ACTIVE \<Longrightarrow> tl_transitions s = [tr US_INACTIVE US_ACTIVE 30000] \<Longrightarrow>
    tl_decide off_env s = (TL_ACTIVE, Some 3600)"
  by (simp add: tl_decide_def plain_env_def getStartOfTodaySecs_def calculateActiveTimeTodaySecs_def
      todaysTransitions_def activeTime_step_def Let_def)

theorem limits_timer_exact_witness:
  "sources (tl_trace race_end) = Some {tl_timerId race_end}"
  using limits_timer_exact [OF race_end_reachable]
  by (simp add: race_end_simp race_decide race_loaded ensureInhibitor_done_def tl_updateState_timer
      tl_slot.schedule_timer count_ids_def)

text \<open>Disabling the history while the start waits for the history file does not stop the
  start: the manager ends up ACTIVE, with nothing pending, a timer and a clock-change source,
  and collects history although the setting is off.\<close>

theorem stop_during_start_is_lost:
  "tl_reachable ([], race_end) \<and> \<not> te_historyEnabled off_env
   \<and> tl_state race_end = TL_ACTIVE \<and> tl_timerId race_end \<noteq> 0 \<and> tl_timeChangeId race_end \<noteq> 0
   \<and> tl_transitions race_end = [tr US_INACTIVE US_ACTIVE 30000]"
  using race_end_reachable
  by (simp add: race_end_simp race_decide race_loaded ensureInhibitor_done_def tl_updateState_timer
      tl_slot.schedule_timer count_ids_def)

end
