(* ===== verification/TimeLimitsNotify.thy ===== *)
theory TimeLimitsNotify
  imports TimeLimitsRun
begin

section \<open>Screen time limits: notifications and the screen effect (\<open>js/misc/timeLimitsManager.js\<close>)\<close>

text \<open>
  The two objects that follow a \<open>TimeLimitsManager\<close>: \<open>TimeLimitsNotificationSource\<close>, with one
  notification and one timer, and \<open>TimeLimitsDispatcher\<close>, which owns it and greys out the screen.
  Both read the manager (\<open>m\<close>) and its environment. A message source that loses its last
  notification destroys itself (\<open>Source._onNotificationDestroy\<close> in \<open>js/ui/messageTray.js\<close>).
\<close>

subsection \<open>The model\<close>

definition LIMIT_UPCOMING_NOTIFICATION_TIME_SECONDS :: int where
  "LIMIT_UPCOMING_NOTIFICATION_TIME_SECONDS = 10 * 60"

record limit_notification =
  lt_title :: string
  lt_count :: "int option"     \<comment> \<open>the number to insert in the title\<close>
  lt_body :: string

datatype ln_call =
    LnTrayAdd | LnSourceDestroyed | LnShow limit_notification | LnNotificationDestroyed | LnDisconnect

record ln =
  ln_source :: bool
  ln_notification :: "limit_notification option"
  ln_timerId :: nat
  ln_manager :: bool
  ln_previousState :: limits_state
  ln_trace :: "ln_call trace"

definition ln_do :: "ln_call \<Rightarrow> ln \<Rightarrow> ln" where
  "ln_do c s = s\<lparr>ln_trace := ln_trace s @ [Call c]\<rparr>"

definition ln_destroyNotification :: "ln \<Rightarrow> ln" where
  "ln_destroyNotification s =
     (if ln_notification s = None then s
      else let s1 = ln_do LnNotificationDestroyed (s\<lparr>ln_notification := None\<rparr>)
           in if ln_source s1 then ln_do LnSourceDestroyed (s1\<lparr>ln_source := False\<rparr>) else s1)"

definition ln_destroy :: "ln \<Rightarrow> ln" where
  "ln_destroy s =
     (let s1 = ln_destroyNotification s;
          s2 = (if ln_source s1 then ln_do LnSourceDestroyed s1 else s1)\<lparr>ln_source := False\<rparr>;
          s3 = (if ln_timerId s2 \<noteq> 0
                then s2\<lparr>ln_trace := ln_trace s2 @ [SourceRemove (ln_timerId s2)]\<rparr> else s2)
                 \<lparr>ln_timerId := 0\<rparr>
      in (if ln_manager s3 then ln_do LnDisconnect s3 else s3)\<lparr>ln_manager := False\<rparr>)"

text \<open>\<open>_ensureNotification\<close> and the \<open>addNotification\<close> that follows it.\<close>

definition ln_show :: "limit_notification \<Rightarrow> ln \<Rightarrow> ln" where
  "ln_show n s =
     (let s1 = (if \<not> ln_source s then ln_do LnTrayAdd (s\<lparr>ln_source := True\<rparr>) else s)
      in ln_do (LnShow n) (s1\<lparr>ln_notification := Some n\<rparr>))"

definition ln_scheduleUpdateState :: "ln_call idgen \<Rightarrow> real \<Rightarrow> ln \<Rightarrow> ln" where
  "ln_scheduleUpdateState mk timeout s =
     (let s1 = (if ln_timerId s \<noteq> 0
                then s\<lparr>ln_trace := ln_trace s @ [SourceRemove (ln_timerId s)]\<rparr> else s);
          i = mk (ln_trace s1)
      in s1\<lparr>ln_timerId := i, ln_trace := ln_trace s1 @ [SourceAdd i \<lceil>timeout\<rceil>]\<rparr>)"

definition approachingNotification :: limit_notification where
  "approachingNotification =
     \<lparr>lt_title = ''Screen Time Limit in %d Minutes'',
      lt_count = Some (LIMIT_UPCOMING_NOTIFICATION_TIME_SECONDS div 60),
      lt_body = ''Your screen time limit is approaching''\<rparr>"

definition reachedNotification :: limit_notification where
  "reachedNotification =
     \<lparr>lt_title = ''Screen Time Limit Reached'', lt_count = None,
      lt_body = ''It's time to stop using the device''\<rparr>"

definition ln_active :: "tl_env \<Rightarrow> tl \<Rightarrow> ln_call idgen \<Rightarrow> ln \<Rightarrow> ln" where
  "ln_active env m mk s =
     (if \<not> te_dailyLimitEnabled env then ln_destroy s
      else let remaining = dailyLimitTime env m - te_now env
           in if remaining > LIMIT_UPCOMING_NOTIFICATION_TIME_SECONDS
              then ln_scheduleUpdateState mk
                     (real_of_int (remaining - LIMIT_UPCOMING_NOTIFICATION_TIME_SECONDS))
                     ((ln_destroyNotification s)\<lparr>ln_notification := None\<rparr>)
              else if remaining = LIMIT_UPCOMING_NOTIFICATION_TIME_SECONDS
              then ln_show approachingNotification s else s)"

definition ln_updateState :: "tl_env \<Rightarrow> tl \<Rightarrow> ln_call idgen \<Rightarrow> ln \<Rightarrow> ln" where
  "ln_updateState env m mk s =
     (case tl_state m of
        TL_DISABLED \<Rightarrow> ln_destroy s
      | TL_ACTIVE \<Rightarrow> ln_active env m mk s
      | TL_LIMIT_REACHED \<Rightarrow>
          if ln_previousState s \<noteq> TL_LIMIT_REACHED then ln_show reachedNotification s else s)"

text \<open>\<open>_onStateChanged\<close>: \<open>None\<close> when the source has let go of the manager, a \<open>TypeError\<close>.\<close>

definition ln_onStateChanged :: "tl_env \<Rightarrow> tl \<Rightarrow> ln_call idgen \<Rightarrow> ln \<Rightarrow> ln option" where
  "ln_onStateChanged env m mk s =
     (let s1 = ln_updateState env m mk s
      in if ln_manager s1 then Some (s1\<lparr>ln_previousState := tl_state m\<rparr>) else None)"

definition ln_timerFired :: "ln \<Rightarrow> ln" where
  "ln_timerFired s = s\<lparr>ln_timerId := 0, ln_trace := ln_trace s @ [SourceFired (ln_timerId s)]\<rparr>"

definition ln_onTimer :: "tl_env \<Rightarrow> tl \<Rightarrow> ln_call idgen \<Rightarrow> ln \<Rightarrow> ln" where
  "ln_onTimer env m mk s = ln_updateState env m mk (ln_timerFired s)"

definition newTimeLimitsNotificationSource :: "tl_env \<Rightarrow> tl \<Rightarrow> ln_call idgen \<Rightarrow> ln" where
  "newTimeLimitsNotificationSource env m mk = ln_updateState env m mk
     \<lparr>ln_source = False, ln_notification = None, ln_timerId = 0, ln_manager = True,
      ln_previousState = TL_DISABLED, ln_trace = []\<rparr>"

datatype ld_call = LdAddEffect | LdRemoveEffect | LdEaseToGrey | LdDestroySource ln | LdDisconnect

record ld =
  ld_source :: "ln option"
  ld_effect :: "bool option"    \<comment> \<open>the desaturation effect, and whether it is enabled\<close>
  ld_calls :: "ld_call list"

definition ld_ensureEnabled :: "tl_env \<Rightarrow> tl \<Rightarrow> ln_call idgen \<Rightarrow> ld \<Rightarrow> ld" where
  "ld_ensureEnabled env m mk s =
     (let s1 = (if ld_source s = None
                then s\<lparr>ld_source := Some (newTimeLimitsNotificationSource env m mk)\<rparr> else s)
      in if ld_effect s1 = None
         then s1\<lparr>ld_effect := Some False, ld_calls := ld_calls s1 @ [LdAddEffect]\<rparr> else s1)"

definition ld_ensureDisabled :: "ld \<Rightarrow> ld" where
  "ld_ensureDisabled s =
     (let s1 = (case ld_source s of
                  Some b \<Rightarrow> s\<lparr>ld_calls := ld_calls s @ [LdDestroySource (ln_destroy b)]\<rparr> | None \<Rightarrow> s)
                 \<lparr>ld_source := None\<rparr>
      in (if ld_effect s1 \<noteq> None then s1\<lparr>ld_calls := ld_calls s1 @ [LdRemoveEffect]\<rparr> else s1)
           \<lparr>ld_effect := None\<rparr>)"

definition ld_onStateChanged :: "tl_env \<Rightarrow> tl \<Rightarrow> ln_call idgen \<Rightarrow> ld \<Rightarrow> ld" where
  "ld_onStateChanged env m mk s =
     (case tl_state m of
        TL_DISABLED \<Rightarrow> ld_ensureDisabled s
      | TL_ACTIVE \<Rightarrow>
          if te_dailyLimitEnabled env then (ld_ensureEnabled env m mk s)\<lparr>ld_effect := Some False\<rparr>
          else ld_ensureDisabled s
      | TL_LIMIT_REACHED \<Rightarrow>
          let on = ld_ensureEnabled env m mk s
          in if te_grayscale env
             then on\<lparr>ld_effect := Some True, ld_calls := ld_calls on @ [LdEaseToGrey]\<rparr>
             else on\<lparr>ld_effect := Some False\<rparr>)"

definition newTimeLimitsDispatcher :: "tl_env \<Rightarrow> tl \<Rightarrow> ln_call idgen \<Rightarrow> ld" where
  "newTimeLimitsDispatcher env m mk =
     (let s = \<lparr>ld_source = None, ld_effect = None, ld_calls = []\<rparr>
      in if tl_state m = TL_DISABLED \<or> \<not> te_dailyLimitEnabled env
         then ld_ensureDisabled s else ld_ensureEnabled env m mk s)"

definition ld_destroy :: "ld \<Rightarrow> ld" where
  "ld_destroy s = (let s1 = ld_ensureDisabled s in s1\<lparr>ld_calls := ld_calls s1 @ [LdDisconnect]\<rparr>)"

subsection \<open>The timer slot\<close>

interpretation ln_slot: timer_slot ln_timerId ln_trace ln_scheduleUpdateState ln_timerFired
  by unfold_locales (auto simp: ln_scheduleUpdateState_def ln_timerFired_def cancel_calls_def Let_def)

lemma ln_do_frame [simp]:
  "ln_source (ln_do c s) = ln_source s" "ln_notification (ln_do c s) = ln_notification s"
  "ln_timerId (ln_do c s) = ln_timerId s" "ln_manager (ln_do c s) = ln_manager s"
  "ln_previousState (ln_do c s) = ln_previousState s" "ln_trace (ln_do c s) = ln_trace s @ [Call c]"
  by (simp_all add: ln_do_def)

lemma ln_slot_iff: "ln_slot.slot_ok s \<longleftrightarrow>
    sources (ln_trace s) = Some (if ln_timerId s = 0 then {} else {ln_timerId s})"
  by (simp add: ln_slot.slot_ok_def)

lemma ln_slot_do [simp]: "ln_slot.slot_ok (ln_do c s) = ln_slot.slot_ok s"
  by (simp add: ln_slot_iff)

lemma ln_slot_fields [simp]:
  "ln_slot.slot_ok (s\<lparr>ln_source := a\<rparr>) = ln_slot.slot_ok s"
  "ln_slot.slot_ok (s\<lparr>ln_notification := b\<rparr>) = ln_slot.slot_ok s"
  "ln_slot.slot_ok (s\<lparr>ln_manager := c\<rparr>) = ln_slot.slot_ok s"
  "ln_slot.slot_ok (s\<lparr>ln_previousState := d\<rparr>) = ln_slot.slot_ok s"
  by (simp_all add: ln_slot_iff)

lemma ln_schedule_frame [simp]:
  "ln_source (ln_scheduleUpdateState mk d s) = ln_source s"
  "ln_notification (ln_scheduleUpdateState mk d s) = ln_notification s"
  "ln_manager (ln_scheduleUpdateState mk d s) = ln_manager s"
  "ln_previousState (ln_scheduleUpdateState mk d s) = ln_previousState s"
  by (simp_all add: ln_scheduleUpdateState_def Let_def)

lemma ln_show_frame [simp]:
  "ln_source (ln_show n s)" "ln_notification (ln_show n s) = Some n"
  "ln_timerId (ln_show n s) = ln_timerId s" "ln_manager (ln_show n s) = ln_manager s"
  "ln_slot.slot_ok (ln_show n s) = ln_slot.slot_ok s"
  by (simp_all add: ln_show_def Let_def)

lemma ln_destroyNotification_frame [simp]:
  "ln_notification (ln_destroyNotification s) = None"
  "ln_timerId (ln_destroyNotification s) = ln_timerId s"
  "ln_manager (ln_destroyNotification s) = ln_manager s"
  "ln_previousState (ln_destroyNotification s) = ln_previousState s"
  "ln_slot.slot_ok (ln_destroyNotification s) = ln_slot.slot_ok s"
  by (simp_all add: ln_destroyNotification_def Let_def)

lemma ln_destroyNotification_sources [simp]:
  "sources (ln_trace (ln_destroyNotification s)) = sources (ln_trace s)"
  by (simp add: ln_destroyNotification_def Let_def)

lemma ln_destroy_frame [simp]:
  "ln_notification (ln_destroy s) = None" "\<not> ln_source (ln_destroy s)" "ln_timerId (ln_destroy s) = 0"
  "\<not> ln_manager (ln_destroy s)" "ln_slot.slot_ok s \<Longrightarrow> ln_slot.slot_ok (ln_destroy s)"
proof -
  show "ln_notification (ln_destroy s) = None" "\<not> ln_source (ln_destroy s)" "ln_timerId (ln_destroy s) = 0"
    "\<not> ln_manager (ln_destroy s)"
    by (simp_all add: ln_destroy_def Let_def)
  show "ln_slot.slot_ok s \<Longrightarrow> ln_slot.slot_ok (ln_destroy s)"
    by (simp add: ln_slot_iff ln_destroy_def Let_def)
qed

definition ln_ok :: "ln \<Rightarrow> bool" where
  "ln_ok s \<longleftrightarrow> ln_slot.slot_ok s \<and> (ln_notification s \<noteq> None \<longrightarrow> ln_source s)
     \<and> (ln_manager s \<or> ln_notification s = None \<and> \<not> ln_source s \<and> ln_timerId s = 0)"

lemma ln_updateState_ok:
  assumes "fresh_ids mk" and "ln_ok s" and "ln_manager s"
  shows "ln_ok (ln_updateState env m mk s)"
  using assms by (cases "tl_state m")
    (simp_all add: ln_ok_def ln_updateState_def ln_active_def ln_slot.schedule_ok Let_def)

inductive ln_reachable :: "ln_call idgen \<Rightarrow> ln \<Rightarrow> bool" for mk :: "ln_call idgen" where
  created: "ln_reachable mk (newTimeLimitsNotificationSource env m mk)"
| state_changed: "ln_reachable mk s \<Longrightarrow> ln_manager s \<Longrightarrow> ln_onStateChanged env m mk s = Some s' \<Longrightarrow> ln_reachable mk s'"
| timer: "ln_reachable mk s \<Longrightarrow> ln_timerId s \<noteq> 0 \<Longrightarrow> ln_reachable mk (ln_onTimer env m mk s)"
| user: "ln_reachable mk s \<Longrightarrow> ln_reachable mk (ln_destroyNotification s)"
| destroyed: "ln_reachable mk s \<Longrightarrow> ln_reachable mk (ln_destroy s)"

lemma ln_reachable_ok: "ln_reachable mk s \<Longrightarrow> fresh_ids mk \<Longrightarrow> ln_ok s"
proof (induction rule: ln_reachable.induct)
  case (created env m)
  have "ln_ok \<lparr>ln_source = False, ln_notification = None, ln_timerId = 0, ln_manager = True,
      ln_previousState = TL_DISABLED, ln_trace = []\<rparr>"
    by (simp add: ln_ok_def ln_slot_iff)
  then show ?case using created.prems by (simp add: newTimeLimitsNotificationSource_def ln_updateState_ok)
next
  case (state_changed s env m s')
  have "ln_ok (ln_updateState env m mk s)"
    by (rule ln_updateState_ok [OF state_changed.prems state_changed.IH [OF state_changed.prems] state_changed.hyps(2)])
  then show ?case using state_changed.hyps(3)
    by (auto simp: ln_onStateChanged_def Let_def ln_ok_def split: if_splits)
next
  case (timer s env m)
  have ok: "ln_ok s" by (rule timer.IH [OF timer.prems])
  then have "ln_slot.slot_ok (ln_timerFired s)" using timer.hyps(2) by (simp add: ln_ok_def ln_slot.fired_ok)
  moreover have mg: "ln_manager (ln_timerFired s)"
    using ok timer.hyps(2) by (simp add: ln_ok_def ln_timerFired_def)
  ultimately have "ln_ok (ln_timerFired s)" using ok by (simp add: ln_ok_def ln_timerFired_def)
  then show ?case unfolding ln_onTimer_def by (rule ln_updateState_ok [OF timer.prems]) (rule mg)
next
  case (user s)
  have "ln_source (ln_destroyNotification s) \<longrightarrow> ln_source s"
    by (simp add: ln_destroyNotification_def Let_def)
  then show ?case using user.IH [OF user.prems] by (auto simp: ln_ok_def)
next
  case (destroyed s)
  then show ?case by (simp add: ln_ok_def)
qed

subsection \<open>What the user is shown\<close>

text \<open>With more than ten minutes to the limit no notification is left up and a timer is set for ten
  minutes before it. When it fires with the limit due at the same time, the warning is shown if the
  clock reads exactly ten minutes before the limit; one second late it is not shown at all, and no
  timer is left. On reaching the limit the source announces it.\<close>

theorem limit_notification_on_time:
  assumes "fresh_ids mk" and "tl_state m = TL_ACTIVE" and "te_dailyLimitEnabled env"
    and "dailyLimitTime env m - te_now env > 600"
    and "tl_state m' = TL_ACTIVE" and "te_dailyLimitEnabled env'" and "dailyLimitTime env' m' = dailyLimitTime env m"
    and "te_now env' = dailyLimitTime env m - 600 + late" and "0 \<le> late"
    and "tl_state m'' = TL_LIMIT_REACHED" and "ln_previousState s \<noteq> TL_LIMIT_REACHED"
  shows "let s1 = ln_updateState env m mk s; s2 = ln_onTimer env' m' mk s1; s3 = ln_updateState env'' m'' mk s2 in
    last (ln_trace s1) = SourceAdd (ln_timerId s1) (dailyLimitTime env m - te_now env - 600)
    \<and> ln_timerId s1 \<noteq> 0 \<and> ln_notification s1 = None
    \<and> ln_notification s2 = (if late = 0 then Some approachingNotification else None) \<and> ln_timerId s2 = 0
    \<and> ln_notification s3 = Some reachedNotification"
proof -
  define s1 where "s1 = ln_updateState env m mk s"
  define r where "r = dailyLimitTime env m - te_now env"
  have s1: "s1 = ln_scheduleUpdateState mk (real_of_int (r - 600)) ((ln_destroyNotification s)\<lparr>ln_notification := None\<rparr>)"
    using assms(2-4) by (simp add: s1_def r_def ln_updateState_def ln_active_def LIMIT_UPCOMING_NOTIFICATION_TIME_SECONDS_def)
  have "ln_timerId s1 \<noteq> 0" unfolding s1 by (rule ln_slot.schedule_set [OF assms(1)])
  then have t1: "last (ln_trace s1) = SourceAdd (ln_timerId s1) (r - 600)" "ln_timerId s1 \<noteq> 0" "ln_notification s1 = None"
    by (simp_all add: s1 ln_slot.schedule_trace ln_slot.schedule_timer del: of_int_diff)
  have s2: "ln_onTimer env' m' mk s1 = (if late = 0 then ln_show approachingNotification (ln_timerFired s1) else ln_timerFired s1)"
    using assms(5-9) by (simp add: ln_onTimer_def ln_updateState_def ln_active_def LIMIT_UPCOMING_NOTIFICATION_TIME_SECONDS_def)
  have "ln_previousState s1 = ln_previousState s" by (simp add: s1)
  then have "ln_previousState (ln_onTimer env' m' mk s1) = ln_previousState s"
    by (simp add: s2 ln_show_def Let_def ln_timerFired_def)
  then have "ln_notification (ln_updateState env'' m'' mk (ln_onTimer env' m' mk s1)) = Some reachedNotification"
    using assms(10,11) by (simp add: ln_updateState_def)
  moreover have "ln_notification (ln_onTimer env' m' mk s1) = (if late = 0 then Some approachingNotification else None)"
    "ln_timerId (ln_onTimer env' m' mk s1) = 0"
    using t1(3) by (simp_all add: s2 ln_timerFired_def)
  ultimately show ?thesis using t1 unfolding Let_def s1_def [symmetric] r_def [symmetric] by blast
qed

lemma limit_notification_on_time_witness:
  "ln_notification (ln_onTimer (plain_env 22400 3000) (demo_tl demo_hist US_ACTIVE) count_ids
     (ln_updateState (plain_env 20100 3000) (demo_tl demo_hist US_ACTIVE) count_ids
        \<lparr>ln_source = False, ln_notification = None, ln_timerId = 0, ln_manager = True,
         ln_previousState = TL_DISABLED, ln_trace = []\<rparr>)) = Some approachingNotification"
proof -
  let ?s = "\<lparr>ln_source = False, ln_notification = None, ln_timerId = 0, ln_manager = True,
         ln_previousState = TL_DISABLED, ln_trace = []\<rparr> :: ln"
  have due: "dailyLimitTime (plain_env t 3000) (demo_tl demo_hist US_ACTIVE) = 23000"
    if "t = 20100 \<or> t = 22400" for t
    using that by (auto simp: dailyLimitTime_def plain_start calculateActiveTimeTodaySecs_def
        todaysTransitions_def activeTime_step_def Let_def)
  show ?thesis
    using limit_notification_on_time [where s = ?s and mk = count_ids and m = "demo_tl demo_hist US_ACTIVE"
      and env = "plain_env 20100 3000" and m' = "demo_tl demo_hist US_ACTIVE" and env' = "plain_env 22400 3000"
      and late = 0 and m'' = "(demo_tl demo_hist US_ACTIVE)\<lparr>tl_state := TL_LIMIT_REACHED\<rparr>"]
    by (simp add: due fresh_count_ids Let_def)
qed

text \<open>The screen is grey exactly when the limit is reached and the option is set; with the limits
  off there is neither an effect nor a notification source, and with them on there are both.\<close>

theorem limit_screen_effects:
  "let s' = ld_onStateChanged env m mk s;
       off = (tl_state m = TL_DISABLED \<or> tl_state m = TL_ACTIVE \<and> \<not> te_dailyLimitEnabled env) in
     ld_effect s' = (if off then None else Some (tl_state m = TL_LIMIT_REACHED \<and> te_grayscale env))
     \<and> (ld_source s' = None \<longleftrightarrow> off)
     \<and> (if off \<and> ld_source s \<noteq> None
        then LdDestroySource (ln_destroy (the (ld_source s))) \<in> set (ld_calls s') else True)"
proof -
  have on: "\<exists>b. ld_source (ld_ensureEnabled env m mk s) = Some b"
    by (auto simp: ld_ensureEnabled_def Let_def)
  then show ?thesis
    by (cases "tl_state m"; auto simp: ld_onStateChanged_def ld_ensureDisabled_def Let_def split: option.split)
qed

end
