(* ===== verification/JsParse.thy ===== *)
theory JsParse
  imports Prelude "HOL-Library.Char_ord" "HOL-Library.List_Lexorder"
begin

section \<open>Completion of JavaScript expressions (\<open>js/misc/jsParse.js\<close>)\<close>

text \<open>
  The functions behind the completions of the Looking Glass. Strings are lists of 8-bit
  characters; the regular expressions are written out as the scans they are. Running the
  completed expression is a parameter of \<open>getPropertyNamesFromExpression\<close>: it gives the value
  of the program text, as the property names of each object of its prototype chain, or fails.
\<close>

subsection \<open>Character classes\<close>

definition isWordChar :: "char \<Rightarrow> bool" where
  "isWordChar c \<longleftrightarrow> (CHR ''a'' \<le> c \<and> c \<le> CHR ''z'') \<or> (CHR ''A'' \<le> c \<and> c \<le> CHR ''Z'')
     \<or> (CHR ''0'' \<le> c \<and> c \<le> CHR ''9'') \<or> c = CHR ''_''"

definition isDigit :: "char \<Rightarrow> bool" where
  "isDigit c \<longleftrightarrow> CHR ''0'' \<le> c \<and> c \<le> CHR ''9''"

definition isSpace :: "char \<Rightarrow> bool" where
  "isSpace c \<longleftrightarrow> c \<in> {CHR '' '', CHR 0x09, CHR 0x0A, CHR 0x0B, CHR 0x0C, CHR 0x0D, CHR 0xA0}"

abbreviation squote :: char where "squote \<equiv> CHR 0x27"
abbreviation dquote :: char where "dquote \<equiv> CHR 0x22"
abbreviation slash :: char where "slash \<equiv> CHR ''/''"
abbreviation backslash :: char where "backslash \<equiv> CHR 0x5C"
abbreviation newline :: char where "newline \<equiv> CHR 0x0A"

definition isStopChar :: "char \<Rightarrow> bool" where
  "isStopChar c \<longleftrightarrow> \<not> (isWordChar c \<or> c \<in> {CHR ''.'', CHR '')'', CHR '']''})"

definition isQuote :: "char \<Rightarrow> bool" where
  "isQuote c \<longleftrightarrow> c = squote \<or> c = dquote"

subsection \<open>Matching delimiters\<close>

text \<open>The loop of both searches: the character before an opening one must not be a backslash.\<close>

function findBack :: "string \<Rightarrow> char option \<Rightarrow> int \<Rightarrow> int" where
  "findBack expr ch i =
     (if i < 0 then -1
      else if js_charAt expr i = ch \<and> js_charAt expr (i - 1) \<noteq> Some backslash then i
      else findBack expr ch (i - 1))"
  by auto
termination by (relation "measure (\<lambda>(expr, ch, i). nat (i + 1))") auto

declare findBack.simps [simp del]

definition findMatchingQuote :: "string \<Rightarrow> int \<Rightarrow> int" where
  "findMatchingQuote expr offset = findBack expr (js_charAt expr offset) (offset - 1)"

definition findMatchingSlash :: "string \<Rightarrow> int \<Rightarrow> int" where
  "findMatchingSlash expr offset = findBack expr (Some slash) (offset - 1)"

text \<open>\<open>None\<close> stands for an undefined opening brace.\<close>

definition openBraceOf :: "char option \<Rightarrow> char option" where
  "openBraceOf c = (if c = Some (CHR '')'') then Some (CHR ''('')
     else if c = Some (CHR '']'') then Some (CHR ''['') else None)"

lemma findBack_bound: "findBack expr ch i \<le> max i (-1) \<and> -1 \<le> findBack expr ch i"
proof (induction expr ch i rule: findBack.induct)
  case (1 expr ch i)
  then show ?case by (subst (1 2) findBack.simps) auto
qed

lemma findMatching_bound:
  "0 \<le> offset \<Longrightarrow> findMatchingQuote expr offset < offset"
  "0 \<le> offset \<Longrightarrow> findMatchingSlash expr offset < offset"
  using findBack_bound [of expr "js_charAt expr offset" "offset - 1"]
    findBack_bound [of expr "Some slash" "offset - 1"]
  by (auto simp: findMatchingQuote_def findMatchingSlash_def)

function (domintros) findTheBrace :: "string \<Rightarrow> int \<Rightarrow> char option \<Rightarrow> char option \<Rightarrow> int" where
  "findTheBrace expr offset openBrace closeBrace =
     (if offset < 0 then -1
      else if openBrace \<noteq> None \<and> js_charAt expr offset = openBrace then offset
      else if js_charAt expr offset = Some squote \<or> js_charAt expr offset = Some dquote
      then findTheBrace expr (findMatchingQuote expr offset - 1) openBrace closeBrace
      else if js_charAt expr offset = Some slash
      then findTheBrace expr (findMatchingSlash expr offset - 1) openBrace closeBrace
      else if js_charAt expr offset = closeBrace
      then findTheBrace expr (findTheBrace expr (offset - 1) openBrace closeBrace - 1) openBrace closeBrace
      else findTheBrace expr (offset - 1) openBrace closeBrace)"
  by auto

lemma findTheBrace_le:
  "findTheBrace_dom (expr, offset, ob, cb) \<Longrightarrow> findTheBrace expr offset ob cb \<le> max offset (-1)"
proof (induction rule: findTheBrace.pinduct)
  case (1 expr offset ob cb)
  note dom = 1(1) and IH = 1(2-6)
  show ?case
    apply (subst findTheBrace.psimps [OF dom])
    using IH findMatching_bound [of offset expr] by (auto split: if_splits)
qed

termination findTheBrace
proof (relation "measure (\<lambda>(expr, offset, ob, cb). nat (offset + 1))", goal_cases)
  case (5 expr offset ob cb)
  then show ?case using findTheBrace_le [of expr "offset - 1" ob cb] by auto
qed (auto simp: not_less intro: order_less_imp_le findMatching_bound)

declare findTheBrace.simps [simp del]

definition findMatchingBrace :: "string \<Rightarrow> int \<Rightarrow> int" where
  "findMatchingBrace expr offset =
     (let closeBrace = js_charAt expr offset
      in findTheBrace expr (offset - 1) (openBraceOf closeBrace) closeBrace)"

lemma findTheBrace_bound: "findTheBrace expr offset ob cb \<le> max offset (-1)"
proof (induction expr offset ob cb rule: findTheBrace.induct)
  case (1 expr offset ob cb)
  then show ?case
    using findMatching_bound [of offset expr] by (subst findTheBrace.simps) (auto split: if_splits)
qed

text \<open>The loop of \<open>getExpressionOffset\<close>; \<open>charAt\<close> beyond the end is the empty string, which stops it.\<close>

function getExpressionOffset :: "string \<Rightarrow> int \<Rightarrow> int" where
  "getExpressionOffset expr offset =
     (if offset < 0 then offset + 1
      else case js_charAt expr offset of
          None \<Rightarrow> offset + 1
        | Some c \<Rightarrow>
            if isStopChar c then offset + 1
            else if c = CHR '')'' \<or> c = CHR '']''
            then getExpressionOffset expr (findMatchingBrace expr offset - 1)
            else getExpressionOffset expr (offset - 1))"
  by auto
termination
proof (relation "measure (\<lambda>(expr, offset). nat (offset + 1))", goal_cases)
  case (2 expr offset c)
  then show ?case
    using findTheBrace_bound [of expr "offset - 1" "openBraceOf (Some c)" "Some c"]
    by (auto simp: findMatchingBrace_def Let_def)
qed auto

declare getExpressionOffset.simps [simp del]

subsection \<open>Declared constants and common prefixes\<close>

text \<open>\<open>/const\s+(\w+)\s*=/\<close> at the start of a string, and at its leftmost match.\<close>

definition const_at :: "string \<Rightarrow> string option" where
  "const_at s =
     (let r = drop 5 s; r1 = dropWhile isSpace r; name = takeWhile isWordChar r1;
          r2 = dropWhile isSpace (dropWhile isWordChar r1)
      in if take 5 s = ''const'' \<and> takeWhile isSpace r \<noteq> [] \<and> name \<noteq> [] \<and> take 1 r2 = ''=''
         then Some name else None)"

fun match_const :: "string \<Rightarrow> string option" where
  "match_const [] = None"
| "match_const (c # cs) = (case const_at (c # cs) of Some n \<Rightarrow> Some n | None \<Rightarrow> match_const cs)"

definition getDeclaredConstants :: "string \<Rightarrow> string list" where
  "getDeclaredConstants str = List.map_filter match_const (js_split (CHR '';'') str)"

text \<open>\<open>None\<close> for an empty list, on which the code throws.\<close>

definition getCommonPrefix :: "string list \<Rightarrow> string option" where
  "getCommonPrefix words =
     (case words of
        [] \<Rightarrow> None
      | word # others \<Rightarrow>
          Some (case find (\<lambda>i. list_ex (\<lambda>w. js_charAt w (int i) \<noteq> js_charAt word (int i)) others)
                       [0..<length word] of
              Some i \<Rightarrow> js_slice word 0 (int i)
            | None \<Rightarrow> word))"

subsection \<open>Literals and unsafe expressions\<close>

function removeLiterals :: "string \<Rightarrow> string" where
  "removeLiterals str =
     (if str = [] then []
      else let n = int (length str); currChar = last str
           in if currChar = dquote \<or> currChar = squote
              then removeLiterals (js_slice str 0 (findMatchingQuote str (n - 1)))
              else if currChar = slash
              then removeLiterals (js_slice str 0 (findMatchingSlash str (n - 1)))
              else removeLiterals (js_slice str 0 (n - 1)) @ [currChar])"
  by auto
termination
proof (relation "measure length", goal_cases)
  case (2 str n c)
  have "-1 \<le> findMatchingQuote str (n - 1)" "findMatchingQuote str (n - 1) < n - 1"
    using 2 findBack_bound [of str "js_charAt str (n - 1)" "n - 1 - 1"] findMatching_bound(1) [of "n - 1" str]
    by (auto simp: findMatchingQuote_def)
  with 2 show ?case by (auto simp: js_slice_def js_clamp_index_def Let_def)
next
  case (3 str n c)
  have "-1 \<le> findMatchingSlash str (n - 1)" "findMatchingSlash str (n - 1) < n - 1"
    using 3 findBack_bound [of str "Some slash" "n - 1 - 1"] findMatching_bound(2) [of "n - 1" str]
    by (auto simp: findMatchingSlash_def)
  with 3 show ?case by (auto simp: js_slice_def js_clamp_index_def Let_def)
next
  case (4 str n c)
  then have "nat (n - 1) < length str" by (cases str) auto
  with 4 show ?case by (auto simp: js_slice_def js_clamp_index_def Let_def)
qed auto

declare removeLiterals.simps [simp del]

text \<open>\<open>str.replace(/[=!]==/g, '')\<close> and \<open>str.replace(/[=<>!]=/g, '')\<close>.\<close>

fun replaceStrictEq :: "string \<Rightarrow> string" where
  "replaceStrictEq (a # b # c # s) =
     (if (a = CHR ''='' \<or> a = CHR ''!'') \<and> b = CHR ''='' \<and> c = CHR ''='' then replaceStrictEq s
      else a # replaceStrictEq (b # c # s))"
| "replaceStrictEq s = s"

fun replaceCompare :: "string \<Rightarrow> string" where
  "replaceCompare (a # b # s) =
     (if a \<in> {CHR ''='', CHR ''<'', CHR ''>'', CHR ''!''} \<and> b = CHR ''='' then replaceCompare s
      else a # replaceCompare (b # s))"
| "replaceCompare s = s"

definition isUnsafeExpression :: "string \<Rightarrow> bool" where
  "isUnsafeExpression str =
     (let prunedStr = replaceCompare (replaceStrictEq (removeLiterals str))
      in if CHR ''='' \<in> set prunedStr then True else if CHR '';'' \<in> set prunedStr then True else False)"

subsection \<open>Completions\<close>

definition isValidPropertyName :: "string \<Rightarrow> bool" where
  "isValidPropertyName w \<longleftrightarrow> \<not> (list_ex (\<lambda>c. \<not> isWordChar c) w \<or> (w \<noteq> [] \<and> isDigit (hd w)))"

text \<open>A value: the own property names along the prototype chain of an object (\<open>[]\<close> for \<open>null\<close>).\<close>

datatype js_value = ObjectValue "string list list" | OtherValue

fun getAllProps :: "string list list \<Rightarrow> string list" where
  "getAllProps [] = []"
| "getAllProps (own # chain) = own @ getAllProps chain"

text \<open>
  The keys of \<open>propsUnique\<close>, sorted. Assigning to \<open>__proto__\<close> sets the prototype of that object
  and makes no key.
\<close>

definition uniqueSortedKeys :: "string list \<Rightarrow> string list" where
  "uniqueSortedKeys props = sort (remdups (filter (\<lambda>p. p \<noteq> ''__proto__'') props))"

definition expressionBody :: "string \<Rightarrow> string" where
  "expressionBody expr =
     (let ls = js_split newline expr in js_join '';'' (butlast ls @ [''return '' @ last ls]))"

definition getPropertyNamesFromExpression ::
  "(string \<Rightarrow> js_value option) \<Rightarrow> string \<Rightarrow> string \<Rightarrow> string list" where
  "getPropertyNamesFromExpression run expr commandHeader =
     (if isUnsafeExpression expr then []
      else case run (commandHeader @ expressionBody expr) of
          None \<Rightarrow> []
        | Some (ObjectValue chain) \<Rightarrow> uniqueSortedKeys (filter isValidPropertyName (getAllProps chain))
        | Some OtherValue \<Rightarrow> [])"

text \<open>
  \<open>/(.*)\.(.*)/\<close>: on the first line with a dot, what is before and after its last dot. A line
  ends at a line feed or carriage return.
\<close>

fun dotMatch_lines :: "string list \<Rightarrow> (string \<times> string) option" where
  "dotMatch_lines [] = None"
| "dotMatch_lines (l # ls) =
     (if CHR ''.'' \<in> set l
      then let attr = rev (takeWhile (\<lambda>c. c \<noteq> CHR ''.'') (rev l))
           in Some (take (length l - length attr - 1) l, attr)
      else dotMatch_lines ls)"

definition dotMatch :: "string \<Rightarrow> (string \<times> string) option" where
  "dotMatch s = dotMatch_lines (concat (map (js_split (CHR 0x0D)) (js_split newline s)))"

definition startsWith :: "string \<Rightarrow> string \<Rightarrow> bool" where
  "startsWith p attr \<longleftrightarrow> js_slice attr 0 (int (length p)) = p"

definition getCompletions ::
  "(string \<Rightarrow> js_value option) \<Rightarrow> string \<Rightarrow> string \<Rightarrow> string list option \<Rightarrow> string list \<times> string" where
  "getCompletions run text commandHeader globalCompletionList =
     (let globals = or_else globalCompletionList [];
          offset = getExpressionOffset text (int (length text) - 1)
      in if offset \<ge> 0
         then let t = js_slice text offset (int (length text));
                  (methods, attrHead) = (case dotMatch t of
                      Some (base, attrHead) \<Rightarrow>
                        (filter (startsWith attrHead) (getPropertyNamesFromExpression run base commandHeader),
                         attrHead)
                    | None \<Rightarrow> ([], []))
              in if list_all isWordChar t then (filter (startsWith t) globals, t)
                 else (methods, attrHead)
         else ([], []))"

end
