(* ===== verification/JsParseProps.thy ===== *)
theory JsParseProps
  imports JsParse "HOL-Library.Sublist"
begin

section \<open>Completion of JavaScript expressions: what the scans compute\<close>

text \<open>
  The scans are compared with a grammar: a text is a list of tokens, each a plain character, a
  quoted string, a regular expression or a bracketed group of tokens. On a rendered token list
  the backward searches find exactly the group, literal or expression they are meant to find.
\<close>

subsection \<open>The grammar\<close>

datatype tok =
    Plain char
  | Quoted char string
  | Regex string
  | Group bool "tok list"    \<comment> \<open>round brackets if \<open>True\<close>, square ones if \<open>False\<close>\<close>

definition opener :: "bool \<Rightarrow> char" where
  "opener k = (if k then CHR ''('' else CHR ''['')"

definition closer :: "bool \<Rightarrow> char" where
  "closer k = (if k then CHR '')'' else CHR '']'')"

fun render :: "tok \<Rightarrow> string" where
  "render (Plain c) = [c]"
| "render (Quoted q s) = q # s @ [q]"
| "render (Regex s) = slash # s @ [slash]"
| "render (Group k ts) = opener k # concat (map render ts) @ [closer k]"

abbreviation renders :: "tok list \<Rightarrow> string" where
  "renders ts \<equiv> concat (map render ts)"

definition brackets :: "char set" where
  "brackets = {CHR ''('', CHR '')'', CHR ''['', CHR '']''}"

fun tok_ok :: "tok \<Rightarrow> bool" where
  "tok_ok (Plain c) \<longleftrightarrow> c \<notin> brackets \<and> \<not> isQuote c \<and> c \<noteq> slash \<and> c \<noteq> backslash"
| "tok_ok (Quoted q s) \<longleftrightarrow> isQuote q \<and> q \<notin> set s \<and> backslash \<notin> set s"
| "tok_ok (Regex s) \<longleftrightarrow> slash \<notin> set s \<and> backslash \<notin> set s"
| "tok_ok (Group k ts) \<longleftrightarrow> list_all tok_ok ts"

text \<open>A prefix after which a literal can start: it does not end with a backslash.\<close>

definition safe_end :: "string \<Rightarrow> bool" where
  "safe_end pre \<longleftrightarrow> pre = [] \<or> last pre \<noteq> backslash"

lemma opener_facts [simp]:
  "opener k \<noteq> closer k'" "closer k' \<noteq> opener k" "opener k \<noteq> backslash" "closer k \<noteq> backslash"
  "opener k \<noteq> squote" "opener k \<noteq> dquote" "opener k \<noteq> slash"
  "closer k \<noteq> squote" "closer k \<noteq> dquote" "closer k \<noteq> slash"
  "opener k = opener k' \<longleftrightarrow> k = k'" "closer k = closer k' \<longleftrightarrow> k = k'"
  by (auto simp: opener_def closer_def)

lemma plain_not_bracket: "c \<notin> brackets \<Longrightarrow> c \<noteq> opener k \<and> c \<noteq> closer k"
  by (auto simp: brackets_def opener_def closer_def)

lemma openBraceOf_closing [simp]: "openBraceOf (Some (closer k)) = Some (opener k)"
  by (simp add: openBraceOf_def opener_def closer_def)

lemma render_not_Nil [simp]: "render t \<noteq> []"
  by (cases t) auto

lemma render_safe: "tok_ok t \<Longrightarrow> last (render t) \<noteq> backslash"
  by (cases t) (auto simp: isQuote_def)

lemma safe_end_simps [simp]:
  "safe_end []" "safe_end (pre @ [c]) \<longleftrightarrow> c \<noteq> backslash"
  by (simp_all add: safe_end_def)

lemma safe_end_render: "tok_ok t \<Longrightarrow> safe_end (pre @ render t)"
  by (simp add: safe_end_def render_safe)

lemma safe_end_charAt:
  "safe_end pre \<Longrightarrow> js_charAt (pre @ post) (int (length pre) - 1) \<noteq> Some backslash"
  by (auto simp: js_charAt_append1 js_charAt_last safe_end_def)

text \<open>A scan that passes over every rendered token passes over a list of them.\<close>

lemma renders_skip:
  assumes "\<And>u pre post. u \<in> set us \<Longrightarrow> safe_end pre \<Longrightarrow>
      F (pre @ render u @ post) (int (length pre + length (render u)) - 1)
        = F (pre @ render u @ post) (int (length pre) - 1)"
    and "list_all tok_ok us" and "safe_end pre"
  shows "F (pre @ renders us @ post) (int (length pre + length (renders us)) - 1)
    = F (pre @ renders us @ post) (int (length pre) - 1)"
  using assms
proof (induction us arbitrary: pre)
  case Nil
  then show ?case by simp
next
  case (Cons u us)
  have "F ((pre @ render u) @ renders us @ post) (int (length (pre @ render u) + length (renders us)) - 1)
      = F ((pre @ render u) @ renders us @ post) (int (length (pre @ render u)) - 1)"
    using Cons.prems(2) by (intro Cons.IH [OF Cons.prems(1)]) (simp_all add: safe_end_render)
  moreover have "F (pre @ render u @ renders us @ post) (int (length pre + length (render u)) - 1)
      = F (pre @ render u @ renders us @ post) (int (length pre) - 1)"
    using Cons.prems(3) by (intro Cons.prems(1)) auto
  ultimately show ?case by (simp add: add.assoc)
qed

subsection \<open>Literals\<close>

lemma findBack_skip:
  "c \<notin> set s \<Longrightarrow> findBack (pre @ s @ post) (Some c) (int (length pre + length s) - 1)
     = findBack (pre @ s @ post) (Some c) (int (length pre) - 1)"
proof (induction s arbitrary: post rule: rev_induct)
  case Nil
  then show ?case by simp
next
  case (snoc x s)
  have "js_charAt ((pre @ s) @ x # post) (int (length (pre @ s))) = Some x" by (rule js_charAt_at)
  with snoc show ?case by (subst findBack.simps) auto
qed

lemma findBack_literal:
  assumes "c \<notin> set s" and "safe_end pre"
  shows "findBack (pre @ c # s @ c # post) (Some c) (int (length pre + length s)) = int (length pre)"
proof -
  have "findBack (pre @ c # s @ c # post) (Some c) (int (length pre + length s))
      = findBack (pre @ c # s @ c # post) (Some c) (int (length pre))"
    using findBack_skip [OF assms(1), of "pre @ [c]" "c # post"] by simp
  also have "\<dots> = int (length pre)"
    using safe_end_charAt [OF assms(2)] by (subst findBack.simps) simp
  finally show ?thesis .
qed

lemma findMatchingQuote_literal:
  assumes "c \<notin> set s" and "safe_end pre"
  shows "findMatchingQuote (pre @ c # s @ c # post) (int (length pre + length s) + 1) = int (length pre)"
proof -
  have "js_charAt ((pre @ c # s) @ c # post) (int (length (pre @ c # s))) = Some c" by (rule js_charAt_at)
  then show ?thesis using findBack_literal [OF assms] by (simp add: findMatchingQuote_def ac_simps)
qed

lemma findMatchingSlash_literal:
  assumes "slash \<notin> set s" and "safe_end pre"
  shows "findMatchingSlash (pre @ slash # s @ slash # post) (int (length pre + length s) + 1)
    = int (length pre)"
  using findBack_literal [OF assms] by (simp add: findMatchingSlash_def ac_simps)

subsection \<open>Brackets\<close>

text \<open>From the end of a rendered token the search for an opening bracket continues before it.\<close>

lemma findTheBrace_token:
  assumes "tok_ok t" and "safe_end pre"
  shows "findTheBrace (pre @ render t @ post) (int (length pre + length (render t)) - 1)
      (Some (opener k)) (Some (closer k))
    = findTheBrace (pre @ render t @ post) (int (length pre) - 1) (Some (opener k)) (Some (closer k))"
  using assms
proof (induction t arbitrary: pre post)
  case (Plain c)
  then show ?case
    by (subst findTheBrace.simps) (auto simp: isQuote_def dest: plain_not_bracket)
next
  case (Quoted q s)
  have at_end: "js_charAt ((pre @ q # s) @ q # post) (int (length (pre @ q # s))) = Some q"
    by (rule js_charAt_at)
  show ?case
    using Quoted at_end findMatchingQuote_literal [of q s pre post]
    by (subst findTheBrace.simps) (auto simp: isQuote_def opener_def ac_simps)
next
  case (Regex s)
  have at_end: "js_charAt ((pre @ slash # s) @ slash # post) (int (length (pre @ slash # s))) = Some slash"
    by (rule js_charAt_at)
  show ?case
    using Regex at_end findMatchingSlash_literal [of s pre post]
    by (subst findTheBrace.simps) (auto simp: opener_def ac_simps)
next
  case (Group k' ts)
  let ?ob = "Some (opener k)" and ?cb = "Some (closer k)"
  have inner: "findTheBrace (pre @ renders ts @ post) (int (length pre + length (renders ts)) - 1) ?ob ?cb
      = findTheBrace (pre @ renders ts @ post) (int (length pre) - 1) ?ob ?cb" if "safe_end pre" for pre post
    using Group.prems(1) that
    by (intro renders_skip [where F = "\<lambda>e i. findTheBrace e i ?ob ?cb"] Group.IH) (auto simp: list_all_iff)
  let ?e = "pre @ opener k' # renders ts @ closer k' # post"
  let ?n = "int (length pre + length (renders ts))"
  have close_at: "js_charAt ((pre @ opener k' # renders ts) @ closer k' # post)
      (int (length (pre @ opener k' # renders ts))) = Some (closer k')" by (rule js_charAt_at)
  have open_at: "js_charAt ?e (int (length pre)) = Some (opener k')" by simp
  have mid: "findTheBrace ?e ?n ?ob ?cb = findTheBrace ?e (int (length pre)) ?ob ?cb"
    using inner [of "pre @ [opener k']" "closer k' # post"] by simp
  show ?case
  proof (cases "k' = k")
    case True
    have "findTheBrace ?e (int (length pre)) ?ob ?cb = int (length pre)"
      using open_at True by (subst findTheBrace.simps) simp
    with mid close_at True show ?thesis
      by (subst findTheBrace.simps) (simp add: ac_simps)
  next
    case False
    have "findTheBrace ?e (int (length pre)) ?ob ?cb = findTheBrace ?e (int (length pre) - 1) ?ob ?cb"
      using open_at False by (subst findTheBrace.simps) simp
    with mid close_at False show ?thesis
      by (subst findTheBrace.simps) (simp add: ac_simps)
  qed
qed

text \<open>From the closing bracket of a group, whatever quoted strings, regular expressions and
  other groups it holds, \<open>findMatchingBrace\<close> gives the position of its opening bracket.\<close>

theorem findMatchingBrace_group:
  assumes "list_all tok_ok ts" and "safe_end pre"
  shows "findMatchingBrace (pre @ opener k # renders ts @ closer k # post)
      (int (length pre + length (renders ts)) + 1) = int (length pre)"
proof -
  let ?e = "pre @ opener k # renders ts @ closer k # post"
  let ?ob = "Some (opener k)" and ?cb = "Some (closer k)"
  have at: "js_charAt ((pre @ opener k # renders ts) @ closer k # post)
      (int (length (pre @ opener k # renders ts))) = ?cb" by (rule js_charAt_at)
  have "findTheBrace ((pre @ [opener k]) @ renders ts @ closer k # post)
      (int (length (pre @ [opener k]) + length (renders ts)) - 1) ?ob ?cb
    = findTheBrace ((pre @ [opener k]) @ renders ts @ closer k # post)
      (int (length (pre @ [opener k])) - 1) ?ob ?cb"
    using assms by (intro renders_skip [where F = "\<lambda>e i. findTheBrace e i ?ob ?cb"] findTheBrace_token)
      (auto simp: list_all_iff)
  then have "findTheBrace ?e (int (length pre + length (renders ts))) ?ob ?cb
      = findTheBrace ?e (int (length pre)) ?ob ?cb" by simp
  also have "\<dots> = int (length pre)" by (subst findTheBrace.simps) simp
  finally show ?thesis using at by (simp add: findMatchingBrace_def Let_def ac_simps)
qed

theorem findMatchingBrace_group_witness:
  "findMatchingBrace ''f(a[1], ')', /[/).x'' 16 = 1"
  using findMatchingBrace_group [of "[Plain CHR ''a'', Group False [Plain CHR ''1''], Plain CHR '','', Plain CHR '' '',
      Quoted squote '')'', Plain CHR '','', Plain CHR '' '', Regex ''['']" "''f''" True "''.x''"]
  by (simp add: opener_def closer_def brackets_def isQuote_def safe_end_def)

text \<open>The tokens of an expression: names, dots and groups.\<close>

fun exp_tok :: "tok \<Rightarrow> bool" where
  "exp_tok (Plain c) \<longleftrightarrow> isWordChar c \<or> c = CHR ''.''"
| "exp_tok (Group k ts) \<longleftrightarrow> list_all tok_ok ts"
| "exp_tok t \<longleftrightarrow> False"

lemma exp_tok_ok: "exp_tok t \<Longrightarrow> tok_ok t"
  by (cases t) (auto simp: brackets_def isQuote_def isWordChar_def)

lemma exp_plain: "isWordChar c \<or> c = CHR ''.'' \<Longrightarrow> \<not> isStopChar c \<and> c \<noteq> CHR '')'' \<and> c \<noteq> CHR '']''"
  by (auto simp: isStopChar_def isWordChar_def)

lemma getExpressionOffset_token:
  assumes "exp_tok t" and "safe_end pre"
  shows "getExpressionOffset (pre @ render t @ post) (int (length pre + length (render t)) - 1)
    = getExpressionOffset (pre @ render t @ post) (int (length pre) - 1)"
proof (cases t)
  case (Plain c)
  with assms(1) exp_plain [of c] show ?thesis by (subst getExpressionOffset.simps) simp
next
  case (Group k ts)
  let ?e = "pre @ opener k # renders ts @ closer k # post"
  have "js_charAt ((pre @ opener k # renders ts) @ closer k # post)
      (int (length (pre @ opener k # renders ts))) = Some (closer k)" by (rule js_charAt_at)
  moreover have "\<not> isStopChar (closer k)" "closer k = CHR '')'' \<or> closer k = CHR '']''"
    by (auto simp: isStopChar_def closer_def)
  moreover have "findMatchingBrace ?e (int (length pre + length (renders ts)) + 1) = int (length pre)"
    using assms Group by (intro findMatchingBrace_group) auto
  ultimately show ?thesis using Group
    by (subst getExpressionOffset.simps) (simp add: ac_simps)
qed (use assms in auto)

text \<open>C7: At the end of an expression built from names, dots and bracketed groups,
  \<open>getExpressionOffset\<close> finds where the expression starts: at the start of the text, or after
  the delimiter before it.\<close>

theorem getExpressionOffset_finds_start:
  assumes "list_all exp_tok ts" and "pre = [] \<or> isStopChar (last pre) \<and> last pre \<noteq> backslash"
  shows "getExpressionOffset (pre @ renders ts) (int (length (pre @ renders ts)) - 1) = int (length pre)"
proof -
  have safe: "safe_end pre" using assms(2) by (auto simp: safe_end_def)
  have "getExpressionOffset (pre @ renders ts @ []) (int (length pre + length (renders ts)) - 1)
      = getExpressionOffset (pre @ renders ts @ []) (int (length pre) - 1)"
    using assms(1) safe by (intro renders_skip getExpressionOffset_token) (auto simp: list_all_iff exp_tok_ok)
  also have "\<dots> = int (length pre)"
    using assms(2) by (subst getExpressionOffset.simps) (auto simp: js_charAt_append1 js_charAt_last)
  finally show ?thesis by simp
qed

theorem getExpressionOffset_finds_start_witness:
  "getExpressionOffset ''x=Main.f(1).p'' 12 = 2"
  using getExpressionOffset_finds_start [of "map Plain ''Main.f'' @ Group True [Plain CHR ''1''] # map Plain ''.p''" "''x=''"]
  by (simp add: opener_def closer_def brackets_def isQuote_def isWordChar_def isStopChar_def)

subsection \<open>Removing literals\<close>

lemma removeLiterals_Nil [simp]: "removeLiterals [] = []"
  by (subst removeLiterals.simps) simp

lemma removeLiterals_plain:
  "\<not> isQuote c \<Longrightarrow> c \<noteq> slash \<Longrightarrow> removeLiterals (s @ [c]) = removeLiterals s @ [c]"
  by (subst removeLiterals.simps) (simp add: isQuote_def js_slice_prefix)

lemma removeLiterals_quoted:
  assumes "isQuote q" "q \<notin> set s" "safe_end pre"
  shows "removeLiterals (pre @ q # s @ [q]) = removeLiterals pre"
proof -
  have "findMatchingQuote (pre @ q # s @ [q]) (int (length (pre @ q # s @ [q])) - 1) = int (length pre)"
    using findMatchingQuote_literal [OF assms(2,3), of "[]"] by (simp add: ac_simps)
  then show ?thesis
    using assms(1) by (subst removeLiterals.simps) (auto simp: isQuote_def Let_def js_slice_prefix)
qed

lemma removeLiterals_regex:
  assumes "slash \<notin> set s" "safe_end pre"
  shows "removeLiterals (pre @ slash # s @ [slash]) = removeLiterals pre"
proof -
  have "findMatchingSlash (pre @ slash # s @ [slash]) (int (length (pre @ slash # s @ [slash])) - 1)
      = int (length pre)"
    using findMatchingSlash_literal [OF assms, of "[]"] by (simp add: ac_simps)
  then show ?thesis by (subst removeLiterals.simps) (auto simp: Let_def js_slice_prefix)
qed

fun blank :: "tok \<Rightarrow> string" where
  "blank (Plain c) = [c]"
| "blank (Quoted q s) = []"
| "blank (Regex s) = []"
| "blank (Group k ts) = opener k # concat (map blank ts) @ [closer k]"

lemma removeLiterals_token:
  assumes "tok_ok t" "safe_end pre"
  shows "removeLiterals (pre @ render t) = removeLiterals pre @ blank t"
  using assms
proof (induction t arbitrary: pre)
  case (Group k ts)
  have inner: "removeLiterals (pre @ renders us) = removeLiterals pre @ concat (map blank us)"
    if "set us \<subseteq> set ts" "safe_end pre" for us pre
    using that
  proof (induction us arbitrary: pre)
    case (Cons u us)
    have ok: "u \<in> set ts" "tok_ok u" using Cons.prems(1) Group.prems(1) by (auto simp: list_all_iff)
    have "removeLiterals ((pre @ render u) @ renders us) = removeLiterals (pre @ render u) @ concat (map blank us)"
      using Cons.prems(1) safe_end_render [OF ok(2)] by (intro Cons.IH) auto
    with Group.IH [OF ok Cons.prems(2)] show ?case by simp
  qed simp
  have "removeLiterals (((pre @ [opener k]) @ renders ts) @ [closer k])
      = removeLiterals pre @ [opener k] @ concat (map blank ts) @ [closer k]"
    using inner [of ts "pre @ [opener k]"]
      removeLiterals_plain [of "closer k" "(pre @ [opener k]) @ renders ts"]
      removeLiterals_plain [of "opener k" pre] by (simp add: isQuote_def)
  then show ?case by simp
qed (simp_all add: removeLiterals_plain removeLiterals_quoted removeLiterals_regex)

text \<open>\<open>removeLiterals\<close> removes exactly the quoted strings and regular expressions of a
  well-formed text, at every depth, and keeps everything else.\<close>

theorem removeLiterals_blanks:
  assumes "list_all tok_ok ts"
  shows "removeLiterals (renders ts) = concat (map blank ts)"
proof -
  have "removeLiterals (pre @ renders us) = removeLiterals pre @ concat (map blank us)"
    if "list_all tok_ok us" "safe_end pre" for us pre
    using that
  proof (induction us arbitrary: pre)
    case (Cons u us)
    have "removeLiterals ((pre @ render u) @ renders us) = removeLiterals (pre @ render u) @ concat (map blank us)"
      using Cons.prems by (intro Cons.IH) (simp_all add: safe_end_render)
    with Cons.prems removeLiterals_token [of u pre] show ?case by simp
  qed simp
  from this [OF assms, of "[]"] show ?thesis by simp
qed

theorem removeLiterals_blanks_witness: "removeLiterals ''f('a=b', /=/)'' = ''f(, )''"
  using removeLiterals_blanks [of "[Plain CHR ''f'', Group True [Quoted squote ''a=b'', Plain CHR '','',
      Plain CHR '' '', Regex ''='']]"]
  by (simp add: opener_def closer_def brackets_def isQuote_def)

subsection \<open>Unsafe expressions\<close>

lemma replaceStrictEq_mid:
  "(p \<noteq> [] \<longrightarrow> last p \<noteq> CHR ''='' \<and> last p \<noteq> CHR ''!'') \<Longrightarrow> (q \<noteq> [] \<longrightarrow> hd q \<noteq> CHR ''='') \<Longrightarrow>
     replaceStrictEq (p @ CHR ''='' # q) = replaceStrictEq p @ CHR ''='' # replaceStrictEq q"
proof (induction p rule: replaceStrictEq.induct)
  case (1 a b c s)
  then show ?case by (cases s) auto
next
  case "2_1"
  then show ?case by (cases q; cases "tl q") auto
next
  case "2_2"
  then show ?case by (cases q; cases "tl q") auto
next
  case "2_3"
  then show ?case by (cases q; cases "tl q") auto
qed

lemma replaceStrictEq_last:
  "p \<noteq> [] \<Longrightarrow> last p \<noteq> CHR ''='' \<Longrightarrow> replaceStrictEq p \<noteq> [] \<and> last (replaceStrictEq p) = last p"
  by (induction p rule: replaceStrictEq.induct) (auto split: if_splits)

lemma replaceStrictEq_hd:
  "q \<noteq> [] \<Longrightarrow> hd q \<noteq> CHR ''='' \<Longrightarrow> hd q \<noteq> CHR ''!'' \<Longrightarrow> hd (replaceStrictEq q) = hd q"
  by (cases q rule: replaceStrictEq.cases) auto

lemma replaceCompare_mid:
  "(p \<noteq> [] \<longrightarrow> last p \<notin> {CHR ''='', CHR ''<'', CHR ''>'', CHR ''!''}) \<Longrightarrow> (q \<noteq> [] \<longrightarrow> hd q \<noteq> CHR ''='') \<Longrightarrow>
     CHR ''='' \<in> set (replaceCompare (p @ CHR ''='' # q))"
proof (induction p rule: replaceCompare.induct)
  case (1 a b s)
  then show ?case by (cases s) auto
next
  case "2_1"
  then show ?case by (cases q) auto
next
  case "2_2"
  then show ?case by (cases q) auto
qed

lemma replace_set:
  "c \<noteq> CHR ''='' \<Longrightarrow> c \<noteq> CHR ''!'' \<Longrightarrow> c \<in> set (replaceStrictEq s) \<longleftrightarrow> c \<in> set s"
  by (induction s rule: replaceStrictEq.induct) auto

lemma replaceCompare_set:
  "c \<notin> {CHR ''='', CHR ''<'', CHR ''>'', CHR ''!''} \<Longrightarrow> c \<in> set (replaceCompare s) \<longleftrightarrow> c \<in> set s"
  by (induction s rule: replaceCompare.induct) auto

text \<open>A text is reported as unsafe when, outside its literals, it has a semicolon or an
  equals sign with no comparison or equals character before it and none after it.\<close>

theorem unsafe_when_assigning:
  assumes "list_all tok_ok ts"
    and "CHR '';'' \<in> set (concat (map blank ts)) \<or>
      (\<exists>p q. concat (map blank ts) = p @ CHR ''='' # q
        \<and> (p = [] \<or> last p \<notin> {CHR ''='', CHR ''<'', CHR ''>'', CHR ''!''})
        \<and> (q = [] \<or> hd q \<notin> {CHR ''='', CHR ''!''}))"
  shows "isUnsafeExpression (renders ts)"
  using assms(2)
proof
  assume "CHR '';'' \<in> set (concat (map blank ts))"
  then show ?thesis
    unfolding isUnsafeExpression_def removeLiterals_blanks [OF assms(1)] Let_def
    by (simp add: replace_set replaceCompare_set del: set_concat)
next
  assume "\<exists>p q. concat (map blank ts) = p @ CHR ''='' # q
        \<and> (p = [] \<or> last p \<notin> {CHR ''='', CHR ''<'', CHR ''>'', CHR ''!''})
        \<and> (q = [] \<or> hd q \<notin> {CHR ''='', CHR ''!''})"
  then obtain p q where e: "concat (map blank ts) = p @ CHR ''='' # q"
    and p: "p \<noteq> [] \<longrightarrow> last p \<notin> {CHR ''='', CHR ''<'', CHR ''>'', CHR ''!''}"
    and q: "q \<noteq> [] \<longrightarrow> hd q \<noteq> CHR ''='' \<and> hd q \<noteq> CHR ''!''" by auto
  have "replaceStrictEq (p @ CHR ''='' # q) = replaceStrictEq p @ CHR ''='' # replaceStrictEq q"
    using p q by (intro replaceStrictEq_mid) auto
  moreover have "replaceStrictEq p \<noteq> [] \<longrightarrow> last (replaceStrictEq p) \<notin> {CHR ''='', CHR ''<'', CHR ''>'', CHR ''!''}"
    using p replaceStrictEq_last [of p] by (cases "p = []") auto
  moreover have "replaceStrictEq q \<noteq> [] \<longrightarrow> hd (replaceStrictEq q) \<noteq> CHR ''=''"
    using q replaceStrictEq_hd [of q] by (cases "q = []") auto
  ultimately have "CHR ''='' \<in> set (replaceCompare (replaceStrictEq (p @ CHR ''='' # q)))"
    using replaceCompare_mid by simp
  then show ?thesis
    unfolding isUnsafeExpression_def removeLiterals_blanks [OF assms(1)] Let_def e by simp
qed

theorem unsafe_when_assigning_witness: "isUnsafeExpression ''f['=='](x = 4)''"
proof -
  let ?ts = "[Plain CHR ''f'', Group False [Quoted squote ''==''], Group True (map Plain ''x = 4'')]"
  have "isUnsafeExpression (renders ?ts)"
  proof (rule unsafe_when_assigning)
    show "list_all tok_ok ?ts" by (simp add: brackets_def isQuote_def)
    show "CHR '';'' \<in> set (concat (map blank ?ts)) \<or>
      (\<exists>p q. concat (map blank ?ts) = p @ CHR ''='' # q
        \<and> (p = [] \<or> last p \<notin> {CHR ''='', CHR ''<'', CHR ''>'', CHR ''!''})
        \<and> (q = [] \<or> hd q \<notin> {CHR ''='', CHR ''!''}))"
      by (rule disjI2, rule exI [of _ "''f[](x ''"], rule exI [of _ "'' 4)''"])
        (simp add: opener_def closer_def)
  qed
  then show ?thesis by (simp add: opener_def closer_def)
qed

text \<open>Compound assignments with a shift, and an assignment between two divisions, are taken
  for safe.\<close>

theorem shift_assignment_taken_for_safe:
  "\<not> isUnsafeExpression ''x >>= 1'' \<and> \<not> isUnsafeExpression ''a / (x = 4) / 2''"
proof -
  let ?a = "map Plain ''x >>= 1''"
  let ?b = "map Plain ''a '' @ Regex '' (x = 4) '' # map Plain '' 2''"
  have "removeLiterals (renders ?a) = concat (map blank ?a)" "removeLiterals (renders ?b) = concat (map blank ?b)"
    by (rule removeLiterals_blanks; simp add: brackets_def isQuote_def)+
  then show ?thesis by (simp add: isUnsafeExpression_def)
qed

subsection \<open>Prefixes, constants and completions\<close>

lemma find_first:
  "find P [0..<n] = r \<Longrightarrow> (case r of None \<Rightarrow> n | Some i \<Rightarrow> i) = m \<Longrightarrow>
     m \<le> n \<and> (m < n \<longrightarrow> P m) \<and> (\<forall>j<m. \<not> P j)"
  by (cases r) (auto simp: find_None_iff find_Some_iff)

lemma prefix_charAt:
  "prefix q w \<longleftrightarrow> (\<forall>i<length q. js_charAt w (int i) = Some (q ! i))"
proof
  assume r: "\<forall>i<length q. js_charAt w (int i) = Some (q ! i)"
  then have q: "i < length w \<and> w ! i = q ! i" if "i < length q" for i
    using that by (fastforce simp: js_charAt_def split: if_splits)
  have "length q \<le> length w"
  proof (cases "length q")
    case (Suc n)
    with q [of n] show ?thesis by simp
  qed simp
  with q have "take (length q) w = q" by (intro nth_equalityI) auto
  then show "prefix q w" by (metis take_is_prefix)
qed (auto simp: prefix_def js_charAt_def nth_append)

text \<open>For a non-empty list of words, \<open>getCommonPrefix\<close> gives their longest common prefix:
  a text is a prefix of every word exactly if it is a prefix of the result.\<close>

theorem getCommonPrefix_longest:
  "\<exists>p. getCommonPrefix (w # ws) = Some p \<and> (\<forall>q. list_all (prefix q) (w # ws) = prefix q p)"
proof -
  define P where "P = (\<lambda>i. list_ex (\<lambda>v. js_charAt v (int i) \<noteq> js_charAt w (int i)) ws)"
  define r where "r = find P [0..<length w]"
  define n where "n = (case r of None \<Rightarrow> length w | Some i \<Rightarrow> i)"
  have n: "n \<le> length w" "n < length w \<Longrightarrow> P n" "\<And>i. i < n \<Longrightarrow> \<not> P i"
    using find_first [OF r_def [symmetric] n_def [symmetric]] by auto
  have res: "getCommonPrefix (w # ws) = Some (take n w)"
    unfolding getCommonPrefix_def list.case P_def [symmetric] r_def [symmetric]
    by (cases r) (simp_all add: n_def js_slice_prefix)
  note least = n(3) and at_n = n(2)
  have "list_all (prefix q) (w # ws) = prefix q (take n w)" for q
  proof
    assume all: "list_all (prefix q) (w # ws)"
    have "length q \<le> n"
    proof (rule ccontr)
      assume "\<not> length q \<le> n"
      then have q: "n < length q" by simp
      with all have "js_charAt w (int n) = Some (q ! n)" "list_all (\<lambda>v. js_charAt v (int n) = Some (q ! n)) ws"
        by (auto simp: prefix_charAt list_all_iff)
      then have "\<not> P n" by (auto simp: P_def list_ex_iff list_all_iff)
      moreover have "n < length w" using all q prefix_length_le [of q w] by simp
      ultimately show False using at_n by blast
    qed
    with all show "prefix q (take n w)" by (auto simp: prefix_charAt js_charAt_def)
  next
    assume q: "prefix q (take n w)"
    then have qw: "prefix q w" by (meson prefix_order.trans take_is_prefix)
    have "length q \<le> n" using prefix_length_le [OF q] by simp
    then have "list_all (prefix q) ws"
      using least qw by (fastforce simp: prefix_charAt list_all_iff P_def list_ex_iff)
    with qw show "list_all (prefix q) (w # ws)" by simp
  qed
  with res show ?thesis by blast
qed

text \<open>A declaration: white space, the name and the text after the equals sign.\<close>

definition decl :: "string \<times> string \<times> string \<Rightarrow> string" where
  "decl = (\<lambda>(sp, name, v). sp @ ''const '' @ name @ '' ='' @ v)"

definition decl_ok :: "string \<times> string \<times> string \<Rightarrow> bool" where
  "decl_ok = (\<lambda>(sp, name, v). list_all isSpace sp \<and> name \<noteq> [] \<and> list_all isWordChar name
     \<and> CHR '';'' \<notin> set v)"

lemma word_not_space: "isWordChar c \<Longrightarrow> \<not> isSpace c"
  by (auto simp: isWordChar_def isSpace_def)

lemma const_at_decl:
  assumes "name \<noteq> []" "list_all isWordChar name"
  shows "const_at (''const '' @ name @ '' ='' @ v) = Some name"
proof -
  obtain c cs where name: "name = c # cs" using assms(1) by (cases name) auto
  have word: "\<forall>x\<in>set name. isWordChar x" using assms(2) by (simp add: list_all_iff)
  have "dropWhile isSpace (name @ '' ='' @ v) = name @ '' ='' @ v"
    using word word_not_space [of c] by (simp add: name)
  moreover have "takeWhile isWordChar (name @ '' ='' @ v) = name"
    using word by (simp add: takeWhile_append2 isWordChar_def)
  moreover have "dropWhile isWordChar (name @ '' ='' @ v) = '' ='' @ v"
    using word by (simp add: dropWhile_append2 isWordChar_def)
  ultimately show ?thesis using assms(1)
    by (simp add: const_at_def Let_def isSpace_def)
qed

lemma match_const_decl: "decl_ok d \<Longrightarrow> match_const (decl d) = Some (fst (snd d))"
proof (cases d)
  case (fields sp name v)
  assume ok: "decl_ok d"
  have "match_const (sp @ ''const '' @ name @ '' ='' @ v) = Some name"
    using ok unfolding fields
  proof (induction sp)
    case Nil
    then show ?case using const_at_decl [of name v] by (simp add: decl_ok_def)
  next
    case (Cons c sp)
    then have "isSpace c" by (simp add: decl_ok_def)
    then have "const_at (c # sp @ ''const '' @ name @ '' ='' @ v) = None"
      by (auto simp: const_at_def isSpace_def Let_def)
    with Cons show ?case by (simp add: decl_ok_def)
  qed
  then show ?thesis by (simp add: fields decl_def)
qed

text \<open>From a list of \<open>const\<close> declarations separated by semicolons \<open>getDeclaredConstants\<close>
  gives the declared names, in order.\<close>

theorem getDeclaredConstants_names:
  assumes "ds \<noteq> []" and "list_all decl_ok ds"
  shows "getDeclaredConstants (js_join '';'' (map decl ds)) = map (\<lambda>d. fst (snd d)) ds"
proof -
  have no_sep: "CHR '';'' \<notin> set (decl d)" if "decl_ok d" for d
    using that by (cases d) (force simp: decl_def decl_ok_def list_all_iff isSpace_def isWordChar_def)
  have "js_split (CHR '';'') (js_join '';'' (map decl ds)) = map decl ds"
    using assms no_sep by (intro js_split_join) (auto simp: list_all_iff)
  moreover have "List.map_filter match_const (map decl ds) = map (\<lambda>d. fst (snd d)) ds"
    using assms(2) by (induction ds) (auto simp: map_filter_simps match_const_decl)
  ultimately show ?thesis by (simp add: getDeclaredConstants_def)
qed

theorem getDeclaredConstants_names_witness:
  "getDeclaredConstants ''const foo = X; const bar = Y'' = [''foo'', ''bar'']"
  using getDeclaredConstants_names [of "[([], ''foo'', '' X''), ('' '', ''bar'', '' Y'')]"]
  by (simp add: decl_def decl_ok_def isSpace_def isWordChar_def)

lemma dotMatch_last:
  assumes "CHR ''.'' \<notin> set attr" and "newline \<notin> set base \<union> set attr" and "CHR 0x0D \<notin> set base \<union> set attr"
  shows "dotMatch (base @ ''.'' @ attr) = Some (base, attr)"
proof -
  have "takeWhile (\<lambda>c. c \<noteq> CHR ''.'') (rev attr @ CHR ''.'' # rev base) = rev attr"
    using assms(1) by (subst takeWhile_append2) auto
  then show ?thesis
    using assms by (simp add: dotMatch_def js_split_single Let_def)
qed

text \<open>For a text that ends in an expression, a dot and the first letters of a property,
  \<open>getCompletions\<close> evaluates exactly the expression before the dot, whatever precedes it, and
  offers the names it gets that begin with those letters.\<close>

theorem getCompletions_of_property:
  assumes "list_all exp_tok ts" and "pre = [] \<or> isStopChar (last pre) \<and> last pre \<noteq> backslash"
    and "list_all isWordChar attr"
    and "newline \<notin> set (renders ts)" and "CHR 0x0D \<notin> set (renders ts)"
  shows "getCompletions run (pre @ renders ts @ ''.'' @ attr) header globals =
    (filter (startsWith attr) (getPropertyNamesFromExpression run (renders ts) header), attr)"
proof -
  let ?ts = "ts @ map Plain (''.'' @ attr)" and ?text = "pre @ renders ts @ ''.'' @ attr"
  have plain: "renders (map Plain s) = s" for s by (induction s) auto
  have word: "\<forall>c\<in>set attr. isWordChar c" using assms(3) by (simp add: list_all_iff)
  have "list_all exp_tok ?ts" using assms(1) word by (auto simp: list_all_iff)
  then have off: "getExpressionOffset ?text (int (length ?text) - 1) = int (length pre)"
    using getExpressionOffset_finds_start [of ?ts pre] assms(2) plain [of "''.'' @ attr"] by simp
  have "CHR ''.'' \<notin> set attr" "newline \<notin> set attr" "CHR 0x0D \<notin> set attr"
    using word by (auto simp: isWordChar_def)
  then have dot: "dotMatch (renders ts @ ''.'' @ attr) = Some (renders ts, attr)"
    using assms(4,5) by (intro dotMatch_last) auto
  have slice: "js_slice ?text (int (length pre)) (int (length ?text)) = renders ts @ ''.'' @ attr"
    using js_slice_suffix [of "int (length pre)" ?text] by simp
  have "\<not> list_all isWordChar (renders ts @ ''.'' @ attr)" by (simp add: isWordChar_def)
  then show ?thesis
    unfolding getCompletions_def Let_def off slice dot by simp
qed

theorem getCompletions_of_property_witness:
  "getCompletions (\<lambda>p. if p = ''return Main'' then Some (ObjectValue [[''x'', ''pb''], [''panel'', ''4pa'']]) else None)
     ''f(Main.pa'' [] None = ([''panel''], ''pa'')"
proof -
  let ?ts = "map Plain ''Main''"
  let ?run = "\<lambda>p. if p = ''return Main'' then Some (ObjectValue [[''x'', ''pb''], [''panel'', ''4pa'']]) else None"
  have "removeLiterals (renders ?ts) = concat (map blank ?ts)"
    by (rule removeLiterals_blanks) (simp add: brackets_def isQuote_def)
  then have "\<not> isUnsafeExpression ''Main''" by (simp add: isUnsafeExpression_def)
  moreover have "uniqueSortedKeys [''x'', ''pb'', ''panel''] = [''panel'', ''pb'', ''x'']"
    by (simp add: uniqueSortedKeys_def)
  ultimately have "getPropertyNamesFromExpression ?run ''Main'' [] = [''panel'', ''pb'', ''x'']"
    by (simp add: getPropertyNamesFromExpression_def expressionBody_def isValidPropertyName_def
        isWordChar_def isDigit_def)
  then show ?thesis
    using getCompletions_of_property [of ?ts "''f(''" "''pa''" ?run "[]" None]
    by (simp add: isWordChar_def isStopChar_def startsWith_def js_slice_prefix)
qed

end
