(* ===== verification/ExtensionUtils.thy ===== *)
theory ExtensionUtils
  imports Prelude
begin

section \<open>Extension metadata and its transport (\<open>js/misc/extensionUtils.js\<close>)\<close>

text \<open>
  The check of \<open>metadata.json\<close>, and the packing of an extension object into a variant for
  D-Bus and back. The file is an argument: whether it exists, whether reading it fails, and what
  \<open>JSON.parse\<close> makes of it.
\<close>

datatype extension_type = EXT_SYSTEM | EXT_PER_USER

datatype extension_state =
    ST_ACTIVE | ST_INACTIVE | ST_ERROR | ST_OUT_OF_DATE | ST_DOWNLOADING | ST_INITIALIZED
  | ST_DEACTIVATING | ST_ACTIVATING | ST_UNINSTALLED

fun extension_state_value :: "extension_state \<Rightarrow> int" where
  "extension_state_value ST_ACTIVE = 1"
| "extension_state_value ST_INACTIVE = 2"
| "extension_state_value ST_ERROR = 3"
| "extension_state_value ST_OUT_OF_DATE = 4"
| "extension_state_value ST_DOWNLOADING = 5"
| "extension_state_value ST_INITIALIZED = 6"
| "extension_state_value ST_DEACTIVATING = 7"
| "extension_state_value ST_ACTIVATING = 8"
| "extension_state_value ST_UNINSTALLED = 99"

definition SERIALIZED_PROPERTIES :: "string list" where
  "SERIALIZED_PROPERTIES = [''type'', ''state'', ''enabled'', ''path'', ''error'', ''hasPrefs'',
     ''hasUpdate'', ''canChange'', ''sessionModes'']"

subsection \<open>Metadata\<close>

datatype metadata_error =
    DirNameMismatch | MissingFile | LoadFailed | ParseFailed | NotAnObject
  | MissingProperty string | WrongType string | UuidMismatch

datatype metadata_file = NoFile | Unreadable | Parsed "json option"

fun is_json_string :: "json \<Rightarrow> bool" where
  "is_json_string (JStr s) = True"
| "is_json_string _ = False"

fun is_string_array :: "json \<Rightarrow> bool" where
  "is_string_array (JArr xs) = (xs \<noteq> [] \<and> list_all is_json_string xs)"
| "is_string_array _ = False"

definition requiredProperties :: "(string \<times> (json \<Rightarrow> bool)) list" where
  "requiredProperties = [(''uuid'', is_json_string), (''name'', is_json_string),
     (''description'', is_json_string), (''shell-version'', is_string_array)]"

fun check_required :: "(string \<times> (json \<Rightarrow> bool)) list \<Rightarrow> json \<Rightarrow> metadata_error option" where
  "check_required [] meta = None"
| "check_required ((prop, typeCheck) # props) meta =
     (if \<not> json_truthy (json_field meta prop) then Some (MissingProperty prop)
      else if \<not> typeCheck (the (json_field meta prop)) then Some (WrongType prop)
      else check_required props meta)"

definition loadExtensionMetadata :: "string \<Rightarrow> string \<Rightarrow> metadata_file \<Rightarrow> metadata_error + json" where
  "loadExtensionMetadata uuid dirName file =
     (if dirName \<noteq> uuid then Inl DirNameMismatch
      else case file of
          NoFile \<Rightarrow> Inl MissingFile
        | Unreadable \<Rightarrow> Inl LoadFailed
        | Parsed None \<Rightarrow> Inl ParseFailed
        | Parsed (Some JNull) \<Rightarrow> Inl NotAnObject
        | Parsed (Some meta) \<Rightarrow>
            (case check_required requiredProperties meta of
               Some e \<Rightarrow> Inl e
             | None \<Rightarrow> if json_field meta ''uuid'' \<noteq> Some (JStr uuid) then Inl UuidMismatch else Inr meta))"

subsection \<open>Variants\<close>

datatype variant =
    VStr string | VNum real | VBool bool | VArr "variant list" | VDict "(string \<times> variant) list"

text \<open>\<open>packValue\<close>; \<open>typeof null\<close> is \<open>'object'\<close>, and \<open>null\<close> has no keys.\<close>

fun packValue :: "json \<Rightarrow> variant" where
  "packValue (JStr s) = VStr s"
| "packValue (JNum x) = VNum x"
| "packValue (JBool b) = VBool b"
| "packValue (JArr xs) = VArr (map packValue xs)"
| "packValue JNull = VDict []"
| "packValue (JObj fs) = VDict (map (\<lambda>(k, v). (k, packValue v)) fs)"

fun recursiveUnpack :: "variant \<Rightarrow> json" where
  "recursiveUnpack (VStr s) = JStr s"
| "recursiveUnpack (VNum x) = JNum x"
| "recursiveUnpack (VBool b) = JBool b"
| "recursiveUnpack (VArr xs) = JArr (map recursiveUnpack xs)"
| "recursiveUnpack (VDict fs) = JObj (map (\<lambda>(k, v). (k, recursiveUnpack v)) fs)"

text \<open>
  An extension object: its metadata and its other properties (\<open>None\<close>: \<open>undefined\<close>, which is
  not packed).
\<close>

record ext_object =
  xo_metadata :: "(string, json) jsmap"
  xo_props :: "string \<Rightarrow> json option"

definition serializeExtension :: "ext_object \<Rightarrow> (string \<times> variant) list" where
  "serializeExtension x =
     (let obj = fold (\<lambda>p obj. jm_set obj p (xo_props x p)) SERIALIZED_PROPERTIES
                  (map (\<lambda>(k, v). (k, Some v)) (xo_metadata x))
      in List.map_filter (\<lambda>(k, v). map_option (\<lambda>j. (k, packValue j)) v) obj)"

text \<open>The \<open>uuid\<close> of the result is that of its metadata, the \<open>dir\<close> that of its path.\<close>

definition deserializeExtension :: "(string \<times> variant) list \<Rightarrow> ext_object" where
  "deserializeExtension var =
     fold (\<lambda>(prop, v) res.
         if prop \<in> set SERIALIZED_PROPERTIES
         then res\<lparr>xo_props := (xo_props res)(prop \<mapsto> recursiveUnpack v)\<rparr>
         else res\<lparr>xo_metadata := jm_set (xo_metadata res) prop (recursiveUnpack v)\<rparr>)
       var \<lparr>xo_metadata = [], xo_props = Map.empty\<rparr>"

subsection \<open>Properties\<close>

fun null_free :: "json \<Rightarrow> bool" where
  "null_free JNull = False"
| "null_free (JArr xs) = list_all null_free xs"
| "null_free (JObj fs) = list_all (\<lambda>(k, v). null_free v) fs"
| "null_free _ = True"

lemma unpack_pack: "null_free j \<Longrightarrow> recursiveUnpack (packValue j) = j"
proof (induction j)
  case (JArr xs)
  then show ?case by (auto simp: list_all_iff intro!: map_idI)
next
  case (JObj fs)
  have "(\<lambda>(k, v). (k, recursiveUnpack v)) ((\<lambda>(k, v). (k, packValue v)) p) = p" if "p \<in> set fs" for p
  proof (cases p)
    case (Pair k v)
    with that JObj.prems have "null_free v" by (auto simp: list_all_iff)
    with JObj.IH [of p v] Pair that show ?thesis by (simp add: snds.simps)
  qed
  then show ?case by (simp add: map_idI)
qed auto

definition ext_object_ok :: "ext_object \<Rightarrow> bool" where
  "ext_object_ok x \<longleftrightarrow> distinct (map fst (xo_metadata x))
     \<and> set (map fst (xo_metadata x)) \<inter> set SERIALIZED_PROPERTIES = {}
     \<and> list_all (\<lambda>(k, v). null_free v) (xo_metadata x)
     \<and> list_all (\<lambda>p. pred_option null_free (xo_props x p)) SERIALIZED_PROPERTIES
     \<and> dom (xo_props x) \<subseteq> set SERIALIZED_PROPERTIES"

lemma distinct_SERIALIZED [simp]: "distinct SERIALIZED_PROPERTIES"
  by (simp add: SERIALIZED_PROPERTIES_def)

abbreviation deserialize_step :: "string \<times> variant \<Rightarrow> ext_object \<Rightarrow> ext_object" where
  "deserialize_step \<equiv> \<lambda>(prop, v) res.
     if prop \<in> set SERIALIZED_PROPERTIES
     then res\<lparr>xo_props := (xo_props res)(prop \<mapsto> recursiveUnpack v)\<rparr>
     else res\<lparr>xo_metadata := jm_set (xo_metadata res) prop (recursiveUnpack v)\<rparr>"

lemma deserialize_metadata:
  assumes "distinct (map fst md)" "set (map fst md) \<inter> set SERIALIZED_PROPERTIES = {}"
    and "list_all (\<lambda>(k, v). null_free v) md" "set (map fst md) \<inter> set (map fst (xo_metadata r)) = {}"
  shows "fold deserialize_step (map (\<lambda>(k, v). (k, packValue v)) md) r
    = r\<lparr>xo_metadata := xo_metadata r @ md\<rparr>"
  using assms
proof (induction md arbitrary: r)
  case (Cons p md)
  obtain k v where p: "p = (k, v)" by fastforce
  have "k \<notin> set SERIALIZED_PROPERTIES" "k \<notin> set (map fst (xo_metadata r))" "null_free v"
    using Cons.prems p by auto
  then have step: "deserialize_step (k, packValue v) r = r\<lparr>xo_metadata := xo_metadata r @ [(k, v)]\<rparr>"
    by (simp add: jm_set_new unpack_pack)
  have "fold deserialize_step (map (\<lambda>(k, v). (k, packValue v)) md)
      (r\<lparr>xo_metadata := xo_metadata r @ [(k, v)]\<rparr>)
    = r\<lparr>xo_metadata := (xo_metadata r @ [(k, v)]) @ md\<rparr>"
    using Cons.prems p by (subst Cons.IH) auto
  with step p show ?case by simp
qed simp

lemma deserialize_props:
  assumes "distinct ps" "set ps \<subseteq> set SERIALIZED_PROPERTIES" "list_all (\<lambda>p. pred_option null_free (f p)) ps"
  shows "fold deserialize_step (List.map_filter (\<lambda>(k, v). map_option (\<lambda>j. (k, packValue j)) v) (map (\<lambda>p. (p, f p)) ps)) r
    = r\<lparr>xo_props := (\<lambda>p. if p \<in> set ps \<and> f p \<noteq> None then f p else xo_props r p)\<rparr>"
  using assms
proof (induction ps arbitrary: r)
  case Nil
  then show ?case by (simp add: map_filter_simps)
next
  case (Cons p ps)
  show ?case
  proof (cases "f p")
    case None
    then have "(\<lambda>q. if q \<in> set (p # ps) \<and> f q \<noteq> None then f q else xo_props r q)
        = (\<lambda>q. if q \<in> set ps \<and> f q \<noteq> None then f q else xo_props r q)" using None by (intro ext) auto
    with None Cons show ?thesis by (simp add: map_filter_simps)
  next
    case (Some j)
    then have "deserialize_step (p, packValue j) r = r\<lparr>xo_props := (xo_props r)(p \<mapsto> j)\<rparr>"
      using Cons.prems by (simp add: unpack_pack)
    moreover have "fold deserialize_step (List.map_filter (\<lambda>(k, v). map_option (\<lambda>j. (k, packValue j)) v)
        (map (\<lambda>p. (p, f p)) ps)) (r\<lparr>xo_props := (xo_props r)(p \<mapsto> j)\<rparr>)
      = r\<lparr>xo_props := (\<lambda>q. if q \<in> set ps \<and> f q \<noteq> None then f q else ((xo_props r)(p \<mapsto> j)) q)\<rparr>"
      using Cons.prems by (subst Cons.IH) (auto cong: if_cong)
    moreover have "(\<lambda>q. if q \<in> set ps \<and> f q \<noteq> None then f q else ((xo_props r)(p \<mapsto> j)) q)
        = (\<lambda>q. if q \<in> set (p # ps) \<and> f q \<noteq> None then f q else xo_props r q)"
      using Some Cons.prems(1) by (intro ext) auto
    ultimately show ?thesis using Some by (simp only: map_filter_simps list.map option.map prod.case option.case fold_Cons comp_apply)
  qed
qed

text \<open>An extension object without null values survives the way over D-Bus: deserializing
  what was serialized gives the same metadata and the same properties.\<close>

theorem serialize_roundtrip:
  assumes "ext_object_ok x"
  shows "deserializeExtension (serializeExtension x) = x"
proof -
  let ?md = "xo_metadata x" and ?f = "xo_props x"
  have ok: "distinct (map fst ?md)" "set (map fst ?md) \<inter> set SERIALIZED_PROPERTIES = {}"
    "list_all (\<lambda>(k, v). null_free v) ?md" "list_all (\<lambda>p. pred_option null_free (?f p)) SERIALIZED_PROPERTIES"
    "dom ?f \<subseteq> set SERIALIZED_PROPERTIES"
    using assms by (simp_all add: ext_object_ok_def)
  have "fold (\<lambda>p obj. jm_set obj p (?f p)) SERIALIZED_PROPERTIES (map (\<lambda>(k, v). (k, Some v)) ?md)
      = map (\<lambda>(k, v). (k, Some v)) ?md @ map (\<lambda>p. (p, ?f p)) SERIALIZED_PROPERTIES"
    using ok(2) by (intro fold_jm_set_new) (auto simp: image_iff)
  moreover have "List.map_filter (\<lambda>(k, v). map_option (\<lambda>j. (k, packValue j)) v)
      (map (\<lambda>(k, v). (k, Some v)) md @ ys) = map (\<lambda>(k, v). (k, packValue v)) md
      @ List.map_filter (\<lambda>(k, v). map_option (\<lambda>j. (k, packValue j)) v) ys" for md ys
    by (induction md) (auto simp: map_filter_simps)
  ultimately have ser: "serializeExtension x = map (\<lambda>(k, v). (k, packValue v)) ?md
      @ List.map_filter (\<lambda>(k, v). map_option (\<lambda>j. (k, packValue j)) v) (map (\<lambda>p. (p, ?f p)) SERIALIZED_PROPERTIES)"
    by (simp add: serializeExtension_def Let_def)
  have "?f p = (if p \<in> set SERIALIZED_PROPERTIES \<and> ?f p \<noteq> None then ?f p else None)" for p
    using ok(5) by auto
  then have props: "(\<lambda>p. if p \<in> set SERIALIZED_PROPERTIES \<and> ?f p \<noteq> None then ?f p else None) = ?f" by (intro ext) (rule sym)
  let ?r = "\<lparr>xo_metadata = ?md, xo_props = Map.empty\<rparr>"
  have "fold deserialize_step (map (\<lambda>(k, v). (k, packValue v)) ?md) \<lparr>xo_metadata = [], xo_props = Map.empty\<rparr> = ?r"
    using deserialize_metadata [OF ok(1-3), of "\<lparr>xo_metadata = [], xo_props = Map.empty\<rparr>"] by simp
  moreover have "fold deserialize_step (List.map_filter (\<lambda>(k, v). map_option (\<lambda>j. (k, packValue j)) v)
      (map (\<lambda>p. (p, ?f p)) SERIALIZED_PROPERTIES)) ?r = x"
    unfolding deserialize_props [OF distinct_SERIALIZED subset_refl ok(4)] ext_object.simps props by simp
  ultimately show ?thesis
    unfolding deserializeExtension_def ser fold_append comp_apply by (simp only:)
qed

theorem serialize_roundtrip_witness:
  "deserializeExtension (serializeExtension \<lparr>xo_metadata = [(''uuid'', JStr ''a@b''), (''version'', JNum 3)],
     xo_props = [''type'' \<mapsto> JNum 2, ''sessionModes'' \<mapsto> JArr [JStr ''user'']]\<rparr>)
   = \<lparr>xo_metadata = [(''uuid'', JStr ''a@b''), (''version'', JNum 3)],
     xo_props = [''type'' \<mapsto> JNum 2, ''sessionModes'' \<mapsto> JArr [JStr ''user'']]\<rparr>"
  by (rule serialize_roundtrip) (simp add: ext_object_ok_def SERIALIZED_PROPERTIES_def)

lemma check_required_None:
  "check_required ps meta = None \<longleftrightarrow>
     list_all (\<lambda>(p, ok). json_truthy (json_field meta p) \<and> ok (the (json_field meta p))) ps"
  by (induction ps) (auto split: if_splits)

lemma required_string:
  "json_truthy f \<and> is_json_string (the f) \<longleftrightarrow> (\<exists>s. f = Some (JStr s) \<and> s \<noteq> [])"
  by (cases f; cases "the f") auto

lemma required_array:
  "json_truthy f \<and> is_string_array (the f) \<longleftrightarrow> (\<exists>vs. f = Some (JArr vs) \<and> vs \<noteq> [] \<and> list_all is_json_string vs)"
  by (cases f; cases "the f") auto

text \<open>Metadata is accepted exactly if the directory is named after the extension and the
  file holds an object with that \<open>uuid\<close>, a non-empty name and description, and a non-empty list
  of shell versions.\<close>

theorem loadExtensionMetadata_accepts:
  "loadExtensionMetadata uuid dirName f = Inr meta \<longleftrightarrow>
     dirName = uuid \<and> uuid \<noteq> [] \<and> f = Parsed (Some meta)
   \<and> json_field meta ''uuid'' = Some (JStr uuid)
   \<and> (\<exists>s. json_field meta ''name'' = Some (JStr s) \<and> s \<noteq> [])
   \<and> (\<exists>s. json_field meta ''description'' = Some (JStr s) \<and> s \<noteq> [])
   \<and> (\<exists>vs. json_field meta ''shell-version'' = Some (JArr vs) \<and> vs \<noteq> [] \<and> list_all is_json_string vs)"
proof (cases f)
  case (Parsed r)
  show ?thesis
  proof (cases "r = None \<or> r = Some JNull")
    case True
    then show ?thesis using Parsed by (auto simp: loadExtensionMetadata_def)
  next
    case False
    then obtain m where m: "r = Some m" "m \<noteq> JNull" by auto
    then have "loadExtensionMetadata uuid dirName f =
        (if dirName \<noteq> uuid then Inl DirNameMismatch
         else case check_required requiredProperties m of Some e \<Rightarrow> Inl e
           | None \<Rightarrow> if json_field m ''uuid'' \<noteq> Some (JStr uuid) then Inl UuidMismatch else Inr m)"
      using Parsed by (cases m) (simp_all add: loadExtensionMetadata_def split: option.split)
    moreover have "check_required requiredProperties m = None \<longleftrightarrow>
        (\<exists>s. json_field m ''uuid'' = Some (JStr s) \<and> s \<noteq> [])
      \<and> (\<exists>s. json_field m ''name'' = Some (JStr s) \<and> s \<noteq> [])
      \<and> (\<exists>s. json_field m ''description'' = Some (JStr s) \<and> s \<noteq> [])
      \<and> (\<exists>vs. json_field m ''shell-version'' = Some (JArr vs) \<and> vs \<noteq> [] \<and> list_all is_json_string vs)"
      unfolding check_required_None requiredProperties_def
      by (simp only: list.pred_inject prod.case required_string required_array simp_thms)
    ultimately show ?thesis
      using Parsed m by (cases "check_required requiredProperties m") (auto simp del: check_required.simps)
  qed
qed (auto simp: loadExtensionMetadata_def)

end
