(* ===== verification/ExtensionSystem.thy ===== *)
theory ExtensionSystem
  imports ExtensionUtils
begin

section \<open>The extension manager (\<open>js/ui/extensionSystem.js\<close>)\<close>

text \<open>
  The state of an \<open>ExtensionManager\<close> and its operations. The definition of an \<open>async\<close> operation
  here is the effect of the whole operation when nothing else runs while it waits;
  \<open>ExtensionAsync\<close> has the operations as the code has them, cut at their \<open>await\<close>s, and shows that
  each has this effect when it is performed to its end. The code of the extensions
  is not part of the program: whether an import, a constructor, an \<open>enable()\<close> or a
  \<open>disable()\<close> throws is a function of the calls made so far (\<open>ext_env\<close>), as are the files of an
  extension, the session mode and the theme. Signals and calls are recorded in the trace. The
  reload of style sheets on a theme change, the reload of all extensions when the version check
  is switched and the first start of a new major version are left out: they start asynchronous
  operations and do not wait for them.
\<close>

datatype ext_call =
    CallEnable string | CallDisable string      \<comment> \<open>the methods of the extension\<close>
  | EmitState string "extension_state option"   \<comment> \<open>\<open>extension-state-changed\<close>\<close>
  | LogError string | LoadStylesheet string string | UnloadStylesheet string
  | SetEnabled "string list" | SetDisabled "string list"
  | NotifyUpdates | OpenPrefs string

record ext_env =
  ee_currentMode :: string
  ee_parentMode :: "string option"
  ee_modeExtensions :: "string list option"  \<comment> \<open>\<open>sessionMode.enabledExtensions\<close>, if an array\<close>
  ee_disableUser :: bool
  ee_disableVersionCheck :: bool
  ee_writable :: "string \<Rightarrow> bool"             \<comment> \<open>is a settings key writable\<close>
  ee_major :: string                          \<comment> \<open>major version of the shell\<close>
  ee_variant :: string
  ee_sheet :: "string \<Rightarrow> string \<Rightarrow> bool option" \<comment> \<open>loading a sheet: not found (\<open>Some False\<close>), error (\<open>None\<close>)\<close>
  ee_hasExtensionJs :: "string \<Rightarrow> bool"
  ee_import :: "ext_call list \<Rightarrow> string \<Rightarrow> bool"
  ee_construct :: "ext_call list \<Rightarrow> string \<Rightarrow> bool"
  ee_enable :: "ext_call list \<Rightarrow> string \<Rightarrow> bool"
  ee_enableRejects :: "ext_call list \<Rightarrow> string \<Rightarrow> bool"  \<comment> \<open>a failing \<open>enable()\<close> rejects its promise\<close>
  ee_disable :: "ext_call list \<Rightarrow> string \<Rightarrow> bool"

record extension =
  x_type :: extension_type
  x_version :: "string option"
  x_shellVersions :: "string list"
  x_sessionModes :: "string list"
  x_hasPrefs :: bool
  x_state :: "extension_state option"
  x_enabled :: bool
  x_hasUpdate :: bool
  x_canChange :: bool
  x_hasStateObj :: bool
  x_isImported :: bool
  x_stylesheet :: "string option"
  x_error :: string
  x_errors :: "string list"

record ext_manager =
  em_extensions :: "(string, extension) jsmap"
  em_unloaded :: "(string, string option) jsmap"
  em_enabled :: "string list"
  em_order :: "string list"
  em_checkVersion :: bool
  em_updateNotified :: bool
  em_updateInProgress :: bool
  em_updatedUUIDS :: "string list"
  em_initialized :: bool                     \<comment> \<open>\<open>_initializationPromise\<close> exists\<close>
  em_loaded :: bool                          \<comment> \<open>and is resolved\<close>
  em_enabledSetting :: "string list"
  em_disabledSetting :: "string list"
  em_trace :: "ext_call list"

definition em_do :: "ext_call \<Rightarrow> ext_manager \<Rightarrow> ext_manager" where
  "em_do c s = s\<lparr>em_trace := em_trace s @ [c]\<rparr>"

definition lookup :: "string \<Rightarrow> ext_manager \<Rightarrow> extension option" where
  "lookup uuid s = jm_get (em_extensions s) uuid"

text \<open>Assigning to properties of the extension object, which the map refers to.\<close>

definition ext_update :: "string \<Rightarrow> (extension \<Rightarrow> extension) \<Rightarrow> ext_manager \<Rightarrow> ext_manager" where
  "ext_update uuid f s =
     (case lookup uuid s of
        None \<Rightarrow> s
      | Some e \<Rightarrow> s\<lparr>em_extensions := jm_set (em_extensions s) uuid (f e)\<rparr>)"

definition state_of :: "string \<Rightarrow> ext_manager \<Rightarrow> extension_state option" where
  "state_of uuid s = Option.bind (lookup uuid s) x_state"

definition changeExtensionState :: "string \<Rightarrow> extension_state \<Rightarrow> ext_manager \<Rightarrow> ext_manager" where
  "changeExtensionState uuid newState s =
     em_do (EmitState uuid (Some newState)) (ext_update uuid (\<lambda>e. e\<lparr>x_state := Some newState\<rparr>) s)"

definition logExtensionError :: "string \<Rightarrow> string \<Rightarrow> ext_manager \<Rightarrow> ext_manager" where
  "logExtensionError uuid message s =
     (case lookup uuid s of
        None \<Rightarrow> s
      | Some _ \<Rightarrow>
          em_do (EmitState uuid (Some ST_ERROR)) (em_do (LogError uuid)
            (ext_update uuid (\<lambda>e. e\<lparr>x_error := message, x_state := Some ST_ERROR,
               x_errors := x_errors e @ [message]\<rparr>) s)))"

subsection \<open>Style sheets\<close>

fun first_sheet :: "ext_env \<Rightarrow> string \<Rightarrow> string list \<Rightarrow> bool \<times> string option" where
  "first_sheet env uuid [] = (True, None)"
| "first_sheet env uuid (name # names) =
     (case ee_sheet env uuid name of
        Some True \<Rightarrow> (True, Some name)
      | Some False \<Rightarrow> first_sheet env uuid names
      | None \<Rightarrow> (False, None))"

text \<open>The flag is \<open>False\<close> when the theme fails to load a sheet that exists.\<close>

definition loadExtensionStylesheet :: "ext_env \<Rightarrow> string \<Rightarrow> ext_manager \<Rightarrow> bool \<times> ext_manager" where
  "loadExtensionStylesheet env uuid s =
     (if state_of uuid s \<noteq> Some ST_ACTIVE \<and> state_of uuid s \<noteq> Some ST_ACTIVATING then (True, s)
      else case first_sheet env uuid
             [ee_currentMode env @ ''-'' @ ee_variant env @ ''.css'',
              ''stylesheet-'' @ ee_variant env @ ''.css'',
              ee_currentMode env @ ''.css'', ''stylesheet.css''] of
          (ok, None) \<Rightarrow> (ok, s)
        | (ok, Some name) \<Rightarrow>
            (ok, ext_update uuid (\<lambda>e. e\<lparr>x_stylesheet := Some name\<rparr>) (em_do (LoadStylesheet uuid name) s)))"

definition unloadExtensionStylesheet :: "string \<Rightarrow> ext_manager \<Rightarrow> ext_manager" where
  "unloadExtensionStylesheet uuid s =
     (case lookup uuid s of
        None \<Rightarrow> s
      | Some e \<Rightarrow>
          if x_stylesheet e = None then s
          else ext_update uuid (\<lambda>e. e\<lparr>x_stylesheet := None\<rparr>) (em_do (UnloadStylesheet uuid) s))"

subsection \<open>Enabling and disabling\<close>

definition extensionSupportsSessionMode :: "ext_env \<Rightarrow> string \<Rightarrow> ext_manager \<Rightarrow> bool" where
  "extensionSupportsSessionMode env uuid s =
     (case lookup uuid s of
        None \<Rightarrow> False
      | Some e \<Rightarrow> ee_currentMode env \<in> set (x_sessionModes e)
          \<or> (case ee_parentMode env of None \<Rightarrow> False | Some p \<Rightarrow> p \<in> set (x_sessionModes e)))"

text \<open>
  \<open>this.lookup(uuid).stateObj.disable()\<close> and \<open>.enable()\<close> inside a \<open>try\<close>: a missing extension
  or instance is a \<open>TypeError\<close>, which is logged like an exception of the extension.
\<close>

definition tryDisable :: "ext_env \<Rightarrow> string \<Rightarrow> ext_manager \<Rightarrow> ext_manager" where
  "tryDisable env uuid s =
     (case lookup uuid s of
        None \<Rightarrow> s
      | Some e \<Rightarrow>
          if \<not> x_hasStateObj e then logExtensionError uuid ''TypeError'' s
          else let s1 = em_do (CallDisable uuid) s
               in if ee_disable env (em_trace s) uuid then s1 else logExtensionError uuid ''disable'' s1)"

definition tryEnable :: "ext_env \<Rightarrow> string \<Rightarrow> ext_manager \<Rightarrow> ext_manager" where
  "tryEnable env uuid s =
     (case lookup uuid s of
        None \<Rightarrow> s
      | Some e \<Rightarrow>
          if \<not> x_hasStateObj e then logExtensionError uuid ''TypeError'' s
          else let s1 = em_do (CallEnable uuid) s
               in if ee_enable env (em_trace s) uuid then s1 else logExtensionError uuid ''enable'' s1)"

definition callExtensionDisable :: "ext_env \<Rightarrow> string \<Rightarrow> ext_manager \<Rightarrow> ext_manager" where
  "callExtensionDisable env uuid s =
     (if state_of uuid s \<noteq> Some ST_ACTIVE then s
      else let s1 = changeExtensionState uuid ST_DEACTIVATING s;
               orderIdx = js_indexOf uuid (em_order s1);
               order = js_slice (em_order s1) (orderIdx + 1) (int (length (em_order s1)));
               s2 = fold (tryDisable env) (rev order) s1;
               s3 = tryDisable env uuid s2;
               s4 = unloadExtensionStylesheet uuid s3;
               s5 = fold (tryEnable env) order s4;
               s6 = s5\<lparr>em_order := js_splice1 orderIdx (em_order s5)\<rparr>
           in if state_of uuid s6 \<noteq> Some ST_ERROR then changeExtensionState uuid ST_INACTIVE s6 else s6)"

text \<open>\<open>_callExtensionInit\<close>, for an extension that exists.\<close>

definition callExtensionInit :: "ext_env \<Rightarrow> string \<Rightarrow> ext_manager \<Rightarrow> bool \<times> ext_manager" where
  "callExtensionInit env uuid s =
     (if \<not> extensionSupportsSessionMode env uuid s then (False, s)
      else if \<not> ee_hasExtensionJs env uuid
      then (False, logExtensionError uuid ''Missing extension.js'' s)
      else if \<not> ee_import env (em_trace s) uuid then (False, logExtensionError uuid ''import'' s)
      else let s1 = ext_update uuid (\<lambda>e. e\<lparr>x_isImported := True\<rparr>) s
           in if \<not> ee_construct env (em_trace s1) uuid
              then (False, logExtensionError uuid ''constructor'' s1)
              else (True, changeExtensionState uuid ST_INACTIVE
                      (ext_update uuid (\<lambda>e. e\<lparr>x_hasStateObj := True\<rparr>) s1)))"

definition callExtensionEnable :: "ext_env \<Rightarrow> string \<Rightarrow> ext_manager \<Rightarrow> ext_manager" where
  "callExtensionEnable env uuid s =
     (if \<not> extensionSupportsSessionMode env uuid s then s
      else let s1 = (if state_of uuid s = Some ST_INITIALIZED then snd (callExtensionInit env uuid s) else s)
           in if state_of uuid s1 \<noteq> Some ST_INACTIVE then s1
              else let (ok, s2) = loadExtensionStylesheet env uuid (changeExtensionState uuid ST_ACTIVATING s1)
                   in if \<not> ok then logExtensionError uuid ''stylesheet'' s2
                      else let s3 = em_do (CallEnable uuid) s2
                           in if ee_enable env (em_trace s2) uuid
                              then let s4 = changeExtensionState uuid ST_ACTIVE s3
                                   in s4\<lparr>em_order := em_order s4 @ [uuid]\<rparr>
                              else logExtensionError uuid ''enable'' (unloadExtensionStylesheet uuid s3))"

subsection \<open>The settings\<close>

definition enableExtension :: "string \<Rightarrow> ext_manager \<Rightarrow> bool \<times> ext_manager" where
  "enableExtension uuid s =
     (if \<not> jm_has (em_extensions s) uuid then (False, s)
      else let s1 = (if uuid \<in> set (em_disabledSetting s)
                     then let d = filter (\<lambda>u. u \<noteq> uuid) (em_disabledSetting s)
                          in em_do (SetDisabled d) (s\<lparr>em_disabledSetting := d\<rparr>) else s);
               s2 = (if uuid \<notin> set (em_enabledSetting s1)
                     then let e = em_enabledSetting s1 @ [uuid]
                          in em_do (SetEnabled e) (s1\<lparr>em_enabledSetting := e\<rparr>) else s1)
           in (True, s2))"

definition disableExtension :: "string \<Rightarrow> ext_manager \<Rightarrow> bool \<times> ext_manager" where
  "disableExtension uuid s =
     (if \<not> jm_has (em_extensions s) uuid then (False, s)
      else let s1 = (if uuid \<in> set (em_enabledSetting s)
                     then let e = filter (\<lambda>u. u \<noteq> uuid) (em_enabledSetting s)
                          in em_do (SetEnabled e) (s\<lparr>em_enabledSetting := e\<rparr>) else s);
               s2 = (if uuid \<notin> set (em_disabledSetting s1)
                     then let d = em_disabledSetting s1 @ [uuid]
                          in em_do (SetDisabled d) (s1\<lparr>em_disabledSetting := d\<rparr>) else s1)
           in (True, s2))"

definition getModeExtensions :: "ext_env \<Rightarrow> string list" where
  "getModeExtensions env = or_else (ee_modeExtensions env) []"

text \<open>
  The stable sort by \<open>_compareExtensions\<close>: extensions with more session modes first, an unknown
  one counting as having none.
\<close>

definition sessionModesCount :: "ext_manager \<Rightarrow> string \<Rightarrow> nat" where
  "sessionModesCount s uuid = (case lookup uuid s of None \<Rightarrow> 0 | Some e \<Rightarrow> length (x_sessionModes e))"

definition getEnabledExtensions :: "ext_env \<Rightarrow> ext_manager \<Rightarrow> string list" where
  "getEnabledExtensions env s =
     (let exts = (if \<not> ee_disableUser env then getModeExtensions env @ em_enabledSetting s
                  else getModeExtensions env);
          sorted = sort_key (\<lambda>u. - int (sessionModesCount s u)) exts
      in filter (\<lambda>u. u \<notin> set (em_disabledSetting s)) sorted)"

definition updateCanChange :: "ext_env \<Rightarrow> string \<Rightarrow> ext_manager \<Rightarrow> ext_manager" where
  "updateCanChange env uuid s =
     (let isMode = uuid \<in> set (getModeExtensions env);
          changeKey = (if isMode then ''disable-user-extensions'' else ''enabled-extensions'')
      in ext_update uuid
           (\<lambda>e. e\<lparr>x_canChange := ee_writable env changeKey \<and> (isMode \<or> \<not> ee_disableUser env)\<rparr>) s)"

definition onSettingsWritableChanged :: "ext_env \<Rightarrow> ext_manager \<Rightarrow> ext_manager" where
  "onSettingsWritableChanged env s =
     fold (\<lambda>u s. let s1 = updateCanChange env u s in em_do (EmitState u (state_of u s1)) s1)
       (jm_keys (em_extensions s)) s"

definition updateEnabledFlag :: "string list \<Rightarrow> string \<Rightarrow> ext_manager \<Rightarrow> ext_manager" where
  "updateEnabledFlag newEnabled uuid s =
     (case lookup uuid s of
        None \<Rightarrow> s
      | Some e \<Rightarrow>
          let s1 = ext_update uuid (\<lambda>e. e\<lparr>x_enabled := uuid \<in> set newEnabled\<rparr>) s
          in if x_enabled e \<noteq> (uuid \<in> set newEnabled) then em_do (EmitState uuid (x_state e)) s1 else s1)"

definition onEnabledExtensionsChanged :: "ext_env \<Rightarrow> ext_manager \<Rightarrow> ext_manager" where
  "onEnabledExtensionsChanged env s =
     (let newEnabled = getEnabledExtensions env s;
          s1 = fold (updateEnabledFlag newEnabled) (jm_keys (em_extensions s)) s;
          toDisable = filter (\<lambda>u. u \<notin> set newEnabled \<or> \<not> extensionSupportsSessionMode env u s1) (em_order s1);
          s2 = fold (callExtensionDisable env) (rev toDisable) s1;
          toEnable = filter (\<lambda>u. u \<notin> set (em_enabled s2) \<and> extensionSupportsSessionMode env u s2) newEnabled;
          s3 = fold (callExtensionEnable env) toEnable s2
      in s3\<lparr>em_enabled := newEnabled\<rparr>)"

definition onUserExtensionsEnabledChanged :: "ext_env \<Rightarrow> ext_manager \<Rightarrow> ext_manager" where
  "onUserExtensionsEnabledChanged env s = onSettingsWritableChanged env (onEnabledExtensionsChanged env s)"

subsection \<open>Loading and unloading\<close>

text \<open>The metadata that \<open>createExtensionObject\<close> uses of a directory that has been checked.\<close>

record ext_meta =
  xm_version :: "string option"
  xm_shellVersions :: "string list"
  xm_sessionModes :: "string list option"
  xm_hasPrefs :: bool

definition createExtensionObject :: "string \<Rightarrow> ext_meta \<Rightarrow> extension_type \<Rightarrow> ext_manager \<Rightarrow> ext_manager" where
  "createExtensionObject uuid meta type s = s\<lparr>em_extensions := jm_set (em_extensions s) uuid
     \<lparr>x_type = type, x_version = xm_version meta, x_shellVersions = xm_shellVersions meta,
      x_sessionModes = or_else (xm_sessionModes meta) [''user''], x_hasPrefs = xm_hasPrefs meta,
      x_state = None, x_enabled = uuid \<in> set (em_enabled s), x_hasUpdate = False, x_canChange = False,
      x_hasStateObj = False, x_isImported = False, x_stylesheet = None, x_error = [], x_errors = []\<rparr>\<rparr>"

definition canLoad :: "string \<Rightarrow> extension \<Rightarrow> ext_manager \<Rightarrow> bool" where
  "canLoad uuid e s =
     (case jm_get (em_unloaded s) uuid of None \<Rightarrow> True | Some version \<Rightarrow> x_version e = version)"

definition isOutOfDate :: "ext_env \<Rightarrow> extension \<Rightarrow> bool" where
  "isOutOfDate env e \<longleftrightarrow> \<not> list_ex (\<lambda>v. take (length (ee_major env)) v = ee_major env) (x_shellVersions e)"

definition loadExtension :: "ext_env \<Rightarrow> string \<Rightarrow> ext_manager \<Rightarrow> ext_manager" where
  "loadExtension env uuid s =
     (let s1 = ext_update uuid (\<lambda>e. e\<lparr>x_state := Some ST_ERROR\<rparr>) s
      in case lookup uuid s1 of
          None \<Rightarrow> s
        | Some e \<Rightarrow>
            let loaded = (\<lambda>s. let s1 = updateCanChange env uuid s in em_do (EmitState uuid (state_of uuid s1)) s1);
                unloadedDeleted = (\<lambda>s. s\<lparr>em_unloaded := jm_del (em_unloaded s) uuid\<rparr>)
            in if em_checkVersion s1 \<and> isOutOfDate env e
               then loaded (ext_update uuid (\<lambda>e. e\<lparr>x_state := Some ST_OUT_OF_DATE\<rparr>) s1)
               else if \<not> canLoad uuid e s1
               then loaded (logExtensionError uuid ''A different version was loaded previously.'' s1)
               else if uuid \<in> set (em_enabled s1) \<and> extensionSupportsSessionMode env uuid s1
               then let (ok, s2) = callExtensionInit env uuid s1
                    in if \<not> ok then s2
                       else loaded (unloadedDeleted
                         (if state_of uuid s2 = Some ST_INACTIVE then callExtensionEnable env uuid s2 else s2))
               else loaded (unloadedDeleted (ext_update uuid (\<lambda>e. e\<lparr>x_state := Some ST_INITIALIZED\<rparr>) s1)))"

definition unloadExtension :: "ext_env \<Rightarrow> string \<Rightarrow> ext_manager \<Rightarrow> ext_manager" where
  "unloadExtension env uuid s =
     (let s1 = changeExtensionState uuid ST_UNINSTALLED (callExtensionDisable env uuid s)
      in case lookup uuid s1 of
          None \<Rightarrow> s1
        | Some e \<Rightarrow>
            let s2 = (if x_type e = EXT_PER_USER \<and> x_isImported e
                      then s1\<lparr>em_unloaded := jm_set (em_unloaded s1) uuid (x_version e)\<rparr> else s1)
            in s2\<lparr>em_extensions := jm_del (em_extensions s2) uuid\<rparr>)"

text \<open>\<open>meta\<close>: the metadata of the directory now, \<open>None\<close> if it is rejected.\<close>

definition reloadExtension :: "ext_env \<Rightarrow> (string \<Rightarrow> ext_meta option) \<Rightarrow> string \<Rightarrow> ext_manager \<Rightarrow> ext_manager" where
  "reloadExtension env meta uuid s =
     (case lookup uuid s of
        None \<Rightarrow> s
      | Some old \<Rightarrow>
          let s1 = unloadExtension env uuid s
          in case meta uuid of
              None \<Rightarrow> logExtensionError uuid ''metadata'' s1
            | Some m \<Rightarrow> loadExtension env uuid (createExtensionObject uuid m (x_type old) s1))"

subsection \<open>Updates\<close>

definition notifyExtensionUpdate :: "string \<Rightarrow> ext_manager \<Rightarrow> ext_manager" where
  "notifyExtensionUpdate uuid s =
     (if em_updateInProgress s then s\<lparr>em_updatedUUIDS := em_updatedUUIDS s @ [uuid]\<rparr>
      else case lookup uuid s of
          None \<Rightarrow> s
        | Some e \<Rightarrow>
            let s1 = em_do (EmitState uuid (x_state e)) (ext_update uuid (\<lambda>e. e\<lparr>x_hasUpdate := True\<rparr>) s)
            in if em_updateNotified s1 then s1
               else em_do NotifyUpdates (s1\<lparr>em_updateNotified := True\<rparr>))"

definition openExtensionPrefs :: "string \<Rightarrow> ext_manager \<Rightarrow> bool \<times> ext_manager" where
  "openExtensionPrefs uuid s =
     (case lookup uuid s of
        None \<Rightarrow> (False, s)
      | Some e \<Rightarrow> if x_hasPrefs e then (True, em_do (OpenPrefs uuid) s) else (False, s))"

subsection \<open>The session\<close>

definition disableAllExtensions :: "ext_env \<Rightarrow> ext_manager \<Rightarrow> ext_manager" where
  "disableAllExtensions env s = fold (callExtensionDisable env) (rev (em_order s)) s"

text \<open>A directory that \<open>_loadExtensions\<close> finds, with the metadata if it is accepted.\<close>

definition addFound :: "string \<times> extension_type \<times> ext_meta option \<Rightarrow> ext_manager \<times> string list \<Rightarrow>
    ext_manager \<times> string list" where
  "addFound = (\<lambda>(uuid, type, meta) (s, found).
     (case meta of
        None \<Rightarrow> (s, found)
      | Some m \<Rightarrow>
          if lookup uuid s \<noteq> None then (s, found)
          else (createExtensionObject uuid m type s, found @ [uuid])))"

definition loadExtensions ::
  "ext_env \<Rightarrow> (string \<times> extension_type \<times> ext_meta option) list \<Rightarrow> ext_manager \<Rightarrow> ext_manager" where
  "loadExtensions env dirs s =
     (let s1 = s\<lparr>em_checkVersion := \<not> ee_disableVersionCheck env\<rparr>;
          s2 = s1\<lparr>em_enabled := getEnabledExtensions env s1\<rparr>;
          (s3, found) = fold addFound dirs (s2, [])
      in fold (loadExtension env) (sort_key (\<lambda>u. - int (sessionModesCount s3 u)) found) s3)"

definition enableAllExtensions ::
  "ext_env \<Rightarrow> (string \<times> extension_type \<times> ext_meta option) list \<Rightarrow> ext_manager \<Rightarrow> ext_manager" where
  "enableAllExtensions env dirs s =
     (let s1 = (if em_initialized s then s
               else (loadExtensions env dirs (s\<lparr>em_initialized := True\<rparr>))\<lparr>em_loaded := True\<rparr>)
      in fold (callExtensionEnable env) (em_enabled s1) s1)"

definition sessionUpdated ::
  "ext_env \<Rightarrow> (string \<times> extension_type \<times> ext_meta option) list \<Rightarrow> ext_manager \<Rightarrow> ext_manager" where
  "sessionUpdated env dirs s = enableAllExtensions env dirs (onEnabledExtensionsChanged env s)"

definition newExtensionManager :: "string list \<Rightarrow> string list \<Rightarrow> ext_manager" where
  "newExtensionManager enabled disabled =
     \<lparr>em_extensions = [], em_unloaded = [], em_enabled = [], em_order = [], em_checkVersion = False,
      em_updateNotified = False, em_updateInProgress = False, em_updatedUUIDS = [],
      em_initialized = False, em_loaded = False, em_enabledSetting = enabled, em_disabledSetting = disabled, em_trace = []\<rparr>"

end
