(* ===== verification/ExtensionAsync.thy ===== *)
theory ExtensionAsync
  imports ExtensionSystem
begin

section \<open>The extension manager: asynchronous operations\<close>

text \<open>
  The operations of \<open>ExtensionManager\<close> that are \<open>async\<close>, cut where the code awaits: at each
  \<open>await\<close> the operation is left, with what remains of it as a value, and other operations may
  run before it is resumed, in the environment and the state of that moment. A call that fails
  before its promise exists (a missing extension, an \<open>enable()\<close> that throws at once) goes on
  without leaving; a promise that is rejected is noticed on resuming. An operation refers to
  its extension by uuid: an extension object that is replaced by another of the same uuid
  while an operation on it waits is not followed. Each operation is shown to have, when nothing
  runs in between, the effect of the definition of the same name in \<open>ExtensionSystem\<close>; the last
  part shows what two overlapping operations do.
\<close>

subsection \<open>Operations that wait\<close>

text \<open>
  What is left of a call: its value, or what to do on resuming; \<open>AwaitInit\<close> waits for the
  promise of the first \<open>_loadExtensions\<close> and is only resumed once it is resolved.
\<close>

datatype 'a ext_task =
    Done 'a
  | Await "ext_env \<Rightarrow> ext_manager \<Rightarrow> ext_manager \<times> 'a ext_task"
  | AwaitInit "ext_env \<Rightarrow> ext_manager \<Rightarrow> ext_manager \<times> 'a ext_task"

type_synonym 'a ext_action = "ext_env \<Rightarrow> ext_manager \<Rightarrow> ext_manager \<times> 'a ext_task"

definition finish :: "'a \<Rightarrow> 'a ext_action" where
  "finish a env s = (s, Done a)"

primrec task_then :: "'a ext_task \<Rightarrow> ('a \<Rightarrow> 'b ext_action) \<Rightarrow> 'b ext_action" where
  "task_then (Done a) k = k a"
| "task_then (Await r) k = (\<lambda>env s. (s, Await (\<lambda>env s.
     case map_prod id (\<lambda>t. task_then t k) (r env s) of (s', g) \<Rightarrow> g env s')))"
| "task_then (AwaitInit r) k = (\<lambda>env s. (s, AwaitInit (\<lambda>env s.
     case map_prod id (\<lambda>t. task_then t k) (r env s) of (s', g) \<Rightarrow> g env s')))"

text \<open>A part of an operation, then the next; a call that is awaited, then the rest; loops.\<close>

definition and_then :: "'a ext_action \<Rightarrow> ('a \<Rightarrow> 'b ext_action) \<Rightarrow> 'b ext_action" where
  "and_then m k env s = (case m env s of (s', t) \<Rightarrow> task_then t k env s')"

definition awaited :: "'a ext_action \<Rightarrow> ('a \<Rightarrow> 'b ext_action) \<Rightarrow> 'b ext_action" where
  "awaited m k = and_then m (\<lambda>a env s. (s, Await (k a)))"

primrec for_each :: "('x \<Rightarrow> unit ext_action) \<Rightarrow> 'x list \<Rightarrow> unit ext_action" where
  "for_each f [] = finish ()"
| "for_each f (x # xs) = and_then (f x) (\<lambda>_. for_each f xs)"

primrec for_await :: "('x \<Rightarrow> unit ext_action) \<Rightarrow> 'x list \<Rightarrow> unit ext_action" where
  "for_await f [] = finish ()"
| "for_await f (x # xs) = awaited (f x) (\<lambda>_. for_await f xs)"

subsection \<open>Running an operation to its end\<close>

primrec complete :: "'a ext_task \<Rightarrow> ext_env \<Rightarrow> ext_manager \<Rightarrow> ext_manager \<times> 'a" where
  "complete (Done a) = (\<lambda>env s. (s, a))"
| "complete (Await r) = (\<lambda>env s. case map_prod id complete (r env s) of (s', g) \<Rightarrow> g env s')"
| "complete (AwaitInit r) = (\<lambda>env s. case map_prod id complete (r env s) of (s', g) \<Rightarrow> g env s')"

definition outcome :: "ext_env \<Rightarrow> ext_manager \<times> 'a ext_task \<Rightarrow> ext_manager \<times> 'a" where
  "outcome env p = (case p of (s, t) \<Rightarrow> complete t env s)"

definition perform :: "'a ext_action \<Rightarrow> ext_env \<Rightarrow> ext_manager \<Rightarrow> ext_manager \<times> 'a" where
  "perform m env s = outcome env (m env s)"

text \<open>The state after an operation that nothing interrupts.\<close>

definition alone :: "'a ext_action \<Rightarrow> ext_env \<Rightarrow> ext_manager \<Rightarrow> ext_manager" where
  "alone m env s = fst (perform m env s)"

lemma outcome_simps [simp]:
  "outcome env (s, Done a) = (s, a)"
  "outcome env (s, Await r) = outcome env (r env s)"
  "outcome env (s, AwaitInit r) = outcome env (r env s)"
  "outcome env (finish a env' s) = (s, a)"
  by (simp_all add: outcome_def finish_def split: prod.split)

lemma outcome_then:
  "outcome env (task_then t k env s) = (case complete t env s of (s', a) \<Rightarrow> outcome env (k a env s'))"
proof (induction t arbitrary: s)
  case (Await r)
  obtain s1 t1 where r: "r env s = (s1, t1)" by fastforce
  have "r env s \<in> range (r env)" by simp
  then have "outcome env (task_then t1 k env s1) =
      (case complete t1 env s1 of (s', a) \<Rightarrow> outcome env (k a env s'))"
    by (rule Await.IH [of "r env", rotated]) (simp_all add: r)
  then show ?case using r by (auto simp: outcome_def split: prod.splits)
next
  case (AwaitInit r)
  obtain s1 t1 where r: "r env s = (s1, t1)" by fastforce
  have "r env s \<in> range (r env)" by simp
  then have "outcome env (task_then t1 k env s1) =
      (case complete t1 env s1 of (s', a) \<Rightarrow> outcome env (k a env s'))"
    by (rule AwaitInit.IH [of "r env", rotated]) (simp_all add: r)
  then show ?case using r by (auto simp: outcome_def split: prod.splits)
qed simp

lemma outcome_and_then [simp]:
  "outcome env (and_then m k env s) = (case outcome env (m env s) of (s', a) \<Rightarrow> outcome env (k a env s'))"
  by (simp add: and_then_def outcome_then outcome_def [of env "m env s"] split: prod.split)

lemma outcome_awaited [simp]:
  "outcome env (awaited m k env s) = (case outcome env (m env s) of (s', a) \<Rightarrow> outcome env (k a env s'))"
  by (simp add: awaited_def)

lemma outcome_for_each:
  assumes "\<And>x s. outcome env (f x env s) = (g x s, ())"
  shows "outcome env (for_each f xs env s) = (fold g xs s, ())"
  by (induction xs arbitrary: s) (simp_all add: assms)

lemma outcome_for_await:
  assumes "\<And>x s. outcome env (f x env s) = (g x s, ())"
  shows "outcome env (for_await f xs env s) = (fold g xs s, ())"
  by (induction xs arbitrary: s) (simp_all add: assms)

subsection \<open>Enabling and disabling\<close>

text \<open>
  \<open>await this.lookup(uuid).stateObj.enable()\<close> inside its \<open>try\<close>: a promise, or any value, leaves
  the operation; an exception that is thrown at once does not.
\<close>

definition tryEnableAsync :: "string \<Rightarrow> unit ext_action" where
  "tryEnableAsync uuid env s =
     (case lookup uuid s of
        None \<Rightarrow> (s, Done ())
      | Some e \<Rightarrow>
          if \<not> x_hasStateObj e then (logExtensionError uuid ''TypeError'' s, Done ())
          else let s1 = em_do (CallEnable uuid) s
               in if ee_enable env (em_trace s) uuid then (s1, Await (finish ()))
                  else if ee_enableRejects env (em_trace s) uuid
                  then (s1, Await (\<lambda>env s. (logExtensionError uuid ''enable'' s, Done ())))
                  else (logExtensionError uuid ''enable'' s1, Done ()))"

text \<open>
  The extensions above are disabled without leaving the operation and enabled again one by one,
  each awaited; the index in \<open>_extensionOrder\<close> and the extensions above are those found at the
  start.
\<close>

definition callExtensionDisableAsync :: "string \<Rightarrow> unit ext_action" where
  "callExtensionDisableAsync uuid env s =
     (if state_of uuid s \<noteq> Some ST_ACTIVE then (s, Done ())
      else let s1 = changeExtensionState uuid ST_DEACTIVATING s;
               orderIdx = js_indexOf uuid (em_order s1);
               order = js_slice (em_order s1) (orderIdx + 1) (int (length (em_order s1)));
               s2 = fold (tryDisable env) (rev order) s1;
               s3 = tryDisable env uuid s2;
               s4 = unloadExtensionStylesheet uuid s3
           in and_then (for_each tryEnableAsync order) (\<lambda>_ env s.
                let s6 = s\<lparr>em_order := js_splice1 orderIdx (em_order s)\<rparr>
                in if state_of uuid s6 \<noteq> Some ST_ERROR
                   then (changeExtensionState uuid ST_INACTIVE s6, Done ()) else (s6, Done ())) env s4)"

definition callExtensionInitAsync :: "string \<Rightarrow> bool ext_action" where
  "callExtensionInitAsync uuid env s =
     (if \<not> extensionSupportsSessionMode env uuid s then (s, Done False)
      else if \<not> ee_hasExtensionJs env uuid
      then (logExtensionError uuid ''Missing extension.js'' s, Done False)
      else let imported = ee_import env (em_trace s) uuid
           in (s, Await (\<lambda>env s.
                if \<not> imported then (logExtensionError uuid ''import'' s, Done False)
                else let s1 = ext_update uuid (\<lambda>e. e\<lparr>x_isImported := True\<rparr>) s
                     in if \<not> ee_construct env (em_trace s1) uuid
                        then (logExtensionError uuid ''constructor'' s1, Done False)
                        else (changeExtensionState uuid ST_INACTIVE
                                (ext_update uuid (\<lambda>e. e\<lparr>x_hasStateObj := True\<rparr>) s1), Done True))))"

text \<open>What \<open>_callExtensionEnable\<close> does once the extension is initialized.\<close>

definition enableInitialized :: "string \<Rightarrow> unit ext_action" where
  "enableInitialized uuid env s =
     (if state_of uuid s \<noteq> Some ST_INACTIVE then (s, Done ())
      else let (ok, s2) = loadExtensionStylesheet env uuid (changeExtensionState uuid ST_ACTIVATING s)
           in if \<not> ok then (logExtensionError uuid ''stylesheet'' s2, Done ())
              else let s3 = em_do (CallEnable uuid) s2;
                       failed = (\<lambda>s. logExtensionError uuid ''enable'' (unloadExtensionStylesheet uuid s))
                   in if ee_enable env (em_trace s2) uuid
                      then (s3, Await (\<lambda>env s.
                             let s4 = changeExtensionState uuid ST_ACTIVE s
                             in (s4\<lparr>em_order := em_order s4 @ [uuid]\<rparr>, Done ())))
                      else if ee_enableRejects env (em_trace s2) uuid
                      then (s3, Await (\<lambda>env s. (failed s, Done ())))
                      else (failed s3, Done ()))"

definition callExtensionEnableAsync :: "string \<Rightarrow> unit ext_action" where
  "callExtensionEnableAsync uuid env s =
     (if \<not> extensionSupportsSessionMode env uuid s then (s, Done ())
      else if state_of uuid s = Some ST_INITIALIZED
      then awaited (callExtensionInitAsync uuid) (\<lambda>_. enableInitialized uuid) env s
      else enableInitialized uuid env s)"

definition onEnabledExtensionsChangedAsync :: "unit ext_action" where
  "onEnabledExtensionsChangedAsync env s =
     (let newEnabled = getEnabledExtensions env s;
          s1 = fold (updateEnabledFlag newEnabled) (jm_keys (em_extensions s)) s;
          toDisable = filter (\<lambda>u. u \<notin> set newEnabled \<or> \<not> extensionSupportsSessionMode env u s1) (em_order s1)
      in and_then (for_await callExtensionDisableAsync (rev toDisable)) (\<lambda>_ env s2.
           let toEnable = filter (\<lambda>u. u \<notin> set (em_enabled s2) \<and> extensionSupportsSessionMode env u s2) newEnabled
           in and_then (for_await callExtensionEnableAsync toEnable)
                (\<lambda>_ env s3. (s3\<lparr>em_enabled := newEnabled\<rparr>, Done ())) env s2) env s1)"

definition onUserExtensionsEnabledChangedAsync :: "unit ext_action" where
  "onUserExtensionsEnabledChangedAsync =
     awaited onEnabledExtensionsChangedAsync (\<lambda>_ env s. (onSettingsWritableChanged env s, Done ()))"

subsection \<open>Loading and unloading\<close>

definition extensionLoaded :: "string \<Rightarrow> ext_env \<Rightarrow> ext_manager \<Rightarrow> ext_manager" where
  "extensionLoaded uuid env s =
     (let s1 = updateCanChange env uuid s in em_do (EmitState uuid (state_of uuid s1)) s1)"

definition loadExtensionAsync :: "string \<Rightarrow> unit ext_action" where
  "loadExtensionAsync uuid env s =
     (let s1 = ext_update uuid (\<lambda>e. e\<lparr>x_state := Some ST_ERROR\<rparr>) s;
          loaded = (\<lambda>env s. (extensionLoaded uuid env (s\<lparr>em_unloaded := jm_del (em_unloaded s) uuid\<rparr>), Done ()))
      in case lookup uuid s1 of
          None \<Rightarrow> (s, Done ())
        | Some e \<Rightarrow>
            if em_checkVersion s1 \<and> isOutOfDate env e
            then (extensionLoaded uuid env (ext_update uuid (\<lambda>e. e\<lparr>x_state := Some ST_OUT_OF_DATE\<rparr>) s1), Done ())
            else if \<not> canLoad uuid e s1
            then (extensionLoaded uuid env
                   (logExtensionError uuid ''A different version was loaded previously.'' s1), Done ())
            else if uuid \<in> set (em_enabled s1) \<and> extensionSupportsSessionMode env uuid s1
            then awaited (callExtensionInitAsync uuid) (\<lambda>ok env s.
                   if \<not> ok then (s, Done ())
                   else if state_of uuid s = Some ST_INACTIVE
                   then awaited (callExtensionEnableAsync uuid) (\<lambda>_. loaded) env s
                   else loaded env s) env s1
            else loaded env (ext_update uuid (\<lambda>e. e\<lparr>x_state := Some ST_INITIALIZED\<rparr>) s1))"

definition unloadExtensionAsync :: "string \<Rightarrow> unit ext_action" where
  "unloadExtensionAsync uuid =
     awaited (callExtensionDisableAsync uuid) (\<lambda>_ env s.
       let s1 = changeExtensionState uuid ST_UNINSTALLED s
       in case lookup uuid s1 of
           None \<Rightarrow> (s1, Done ())
         | Some e \<Rightarrow>
             let s2 = (if x_type e = EXT_PER_USER \<and> x_isImported e
                       then s1\<lparr>em_unloaded := jm_set (em_unloaded s1) uuid (x_version e)\<rparr> else s1)
             in (s2\<lparr>em_extensions := jm_del (em_extensions s2) uuid\<rparr>, Done ()))"

definition reloadExtensionAsync :: "(string \<Rightarrow> ext_meta option) \<Rightarrow> string \<Rightarrow> unit ext_action" where
  "reloadExtensionAsync meta uuid env s =
     (case lookup uuid s of
        None \<Rightarrow> (s, Done ())
      | Some old \<Rightarrow>
          awaited (unloadExtensionAsync uuid) (\<lambda>_ env s1.
            case meta uuid of
              None \<Rightarrow> (logExtensionError uuid ''metadata'' s1, Done ())
            | Some m \<Rightarrow>
                awaited (loadExtensionAsync uuid) (\<lambda>_. finish ()) env
                  (createExtensionObject uuid m (x_type old) s1)) env s)"

subsection \<open>The session\<close>

definition disableAllExtensionsAsync :: "unit ext_action" where
  "disableAllExtensionsAsync env s =
     (let rest = (\<lambda>env s. for_await callExtensionDisableAsync (rev (em_order s)) env s)
      in if em_initialized s then (s, AwaitInit rest) else rest env s)"

text \<open>
  The waits for the version check and for the test whether the major version is new come
  before and after the directories are read.
\<close>

definition loadExtensionsAsync ::
  "(string \<times> extension_type \<times> ext_meta option) list \<Rightarrow> unit ext_action" where
  "loadExtensionsAsync dirs env s =
     (s\<lparr>em_checkVersion := \<not> ee_disableVersionCheck env\<rparr>, Await (\<lambda>env s.
        let s2 = s\<lparr>em_enabled := getEnabledExtensions env s\<rparr>;
            (s3, found) = fold addFound dirs (s2, []);
            sorted = sort_key (\<lambda>u. - int (sessionModesCount s3 u)) found
        in (s3, Await (for_await loadExtensionAsync sorted))))"

definition enableAllExtensionsAsync ::
  "(string \<times> extension_type \<times> ext_meta option) list \<Rightarrow> unit ext_action" where
  "enableAllExtensionsAsync dirs env s =
     (let rest = (\<lambda>env s. for_await callExtensionEnableAsync (em_enabled s) env s)
      in if em_initialized s then (s, AwaitInit rest)
         else awaited (and_then (loadExtensionsAsync dirs) (\<lambda>_ env s. (s\<lparr>em_loaded := True\<rparr>, Done ())))
                (\<lambda>_. rest) env (s\<lparr>em_initialized := True\<rparr>))"

definition sessionUpdatedAsync ::
  "(string \<times> extension_type \<times> ext_meta option) list \<Rightarrow> unit ext_action" where
  "sessionUpdatedAsync dirs =
     awaited onEnabledExtensionsChangedAsync (\<lambda>_. awaited (enableAllExtensionsAsync dirs) (\<lambda>_. finish ()))"

subsection \<open>Operations that nothing interrupts\<close>

lemma outcome_tryEnable: "outcome env (tryEnableAsync u env s) = (tryEnable env u s, ())"
  by (simp add: tryEnableAsync_def tryEnable_def Let_def split: option.split)

lemma outcome_disable: "outcome env (callExtensionDisableAsync u env s) = (callExtensionDisable env u s, ())"
  unfolding callExtensionDisableAsync_def callExtensionDisable_def Let_def
  by (simp add: outcome_for_each [OF outcome_tryEnable])

lemma outcome_init: "outcome env (callExtensionInitAsync u env s) =
    (snd (callExtensionInit env u s), fst (callExtensionInit env u s))"
  by (simp add: callExtensionInitAsync_def callExtensionInit_def Let_def)

lemma outcome_enable: "outcome env (callExtensionEnableAsync u env s) = (callExtensionEnable env u s, ())"
  unfolding callExtensionEnableAsync_def callExtensionEnable_def enableInitialized_def Let_def
  by (simp add: outcome_init split: prod.split)

lemma outcome_enabledChanged:
  "outcome env (onEnabledExtensionsChangedAsync env s) = (onEnabledExtensionsChanged env s, ())"
  unfolding onEnabledExtensionsChangedAsync_def onEnabledExtensionsChanged_def Let_def
  by (simp add: outcome_for_await [OF outcome_disable] outcome_for_await [OF outcome_enable])

lemma outcome_userChanged:
  "outcome env (onUserExtensionsEnabledChangedAsync env s) = (onUserExtensionsEnabledChanged env s, ())"
  by (simp add: onUserExtensionsEnabledChangedAsync_def onUserExtensionsEnabledChanged_def outcome_enabledChanged)

lemma outcome_load: "outcome env (loadExtensionAsync u env s) = (loadExtension env u s, ())"
  unfolding loadExtensionAsync_def loadExtension_def extensionLoaded_def Let_def
  by (auto simp: outcome_init outcome_enable split: option.split prod.split)

lemma outcome_unload: "outcome env (unloadExtensionAsync u env s) = (unloadExtension env u s, ())"
  unfolding unloadExtensionAsync_def unloadExtension_def Let_def
  by (simp add: outcome_disable split: option.split)

lemma outcome_reload: "outcome env (reloadExtensionAsync meta u env s) = (reloadExtension env meta u s, ())"
  unfolding reloadExtensionAsync_def reloadExtension_def Let_def
  by (simp add: outcome_unload outcome_load split: option.split)

lemma outcome_loadAll: "outcome env (loadExtensionsAsync dirs env s) = (loadExtensions env dirs s, ())"
  unfolding loadExtensionsAsync_def loadExtensions_def Let_def
  by (simp add: outcome_for_await [OF outcome_load] split: prod.split)

lemma outcome_enableAll:
  "outcome env (enableAllExtensionsAsync dirs env s) = (enableAllExtensions env dirs s, ())"
  unfolding enableAllExtensionsAsync_def enableAllExtensions_def Let_def
  by (simp add: outcome_loadAll outcome_for_await [OF outcome_enable])

lemma outcome_disableAll: "outcome env (disableAllExtensionsAsync env s) = (disableAllExtensions env s, ())"
  unfolding disableAllExtensionsAsync_def disableAllExtensions_def Let_def
  by (simp add: outcome_for_await [OF outcome_disable])

lemma outcome_sessionUpdated: "outcome env (sessionUpdatedAsync dirs env s) = (sessionUpdated env dirs s, ())"
  by (simp add: sessionUpdatedAsync_def sessionUpdated_def outcome_enabledChanged outcome_enableAll)

lemmas alone_simps = alone_def perform_def outcome_disable outcome_enable outcome_enabledChanged
  outcome_userChanged outcome_load outcome_unload outcome_reload outcome_disableAll outcome_sessionUpdated

subsection \<open>Overlapping operations\<close>

text \<open>
  The manager with its operations under way: a signal or a D-Bus call starts one, and the main
  loop resumes any of them.
\<close>

datatype ext_event = StartOp "unit ext_action" | ResumeOp nat

fun pool_step :: "ext_env \<Rightarrow> ext_event \<Rightarrow> ext_manager \<times> unit ext_task list \<Rightarrow> ext_manager \<times> unit ext_task list" where
  "pool_step env (StartOp m) (s, ts) = (case m env s of (s', t) \<Rightarrow> (s', ts @ [t]))"
| "pool_step env (ResumeOp i) (s, ts) =
     (if i < length ts
      then case ts ! i of
          Done _ \<Rightarrow> (s, ts)
        | Await r \<Rightarrow> (case r env s of (s', t) \<Rightarrow> (s', ts[i := t]))
        | AwaitInit r \<Rightarrow> (if em_loaded s then case r env s of (s', t) \<Rightarrow> (s', ts[i := t]) else (s, ts))
      else (s, ts))"

end
