(* ===== verification/ExtensionProps.thy ===== *)
theory ExtensionProps
  imports ExtensionAsync
begin

section \<open>The extension manager: what runs, and in which order\<close>

text \<open>
  An extension runs from a successful call of \<open>enable()\<close> to the next call of \<open>disable()\<close>. For
  extensions whose \<open>disable()\<close> does not throw and whose \<open>enable()\<close> always or never does, the
  extensions that run are a stack: they are the ones in state ACTIVE, in the order the manager
  keeps, and only the most recently enabled one is ever disabled. The invariant is proved for
  every operation; a run in which a \<open>disable()\<close> throws shows what the hypothesis is for.
\<close>

subsection \<open>Fields\<close>

lemma em_do_simps [simp]:
  "em_extensions (em_do c s) = em_extensions s" "em_unloaded (em_do c s) = em_unloaded s"
  "em_enabled (em_do c s) = em_enabled s" "em_order (em_do c s) = em_order s"
  "em_checkVersion (em_do c s) = em_checkVersion s" "em_trace (em_do c s) = em_trace s @ [c]"
  "em_enabledSetting (em_do c s) = em_enabledSetting s"
  "em_disabledSetting (em_do c s) = em_disabledSetting s" "lookup u (em_do c s) = lookup u s"
  by (simp_all add: em_do_def lookup_def)

lemma ext_update_simps [simp]:
  "em_unloaded (ext_update u f s) = em_unloaded s"
  "em_enabled (ext_update u f s) = em_enabled s" "em_order (ext_update u f s) = em_order s"
  "em_checkVersion (ext_update u f s) = em_checkVersion s" "em_trace (ext_update u f s) = em_trace s"
  "em_enabledSetting (ext_update u f s) = em_enabledSetting s"
  "em_disabledSetting (ext_update u f s) = em_disabledSetting s"
  "lookup v (ext_update u f s) = (if v = u then map_option f (lookup u s) else lookup v s)"
  by (auto simp: ext_update_def lookup_def split: option.split)

lemma lookup_field [simp]:
  "lookup u (s\<lparr>em_order := a\<rparr>) = lookup u s" "lookup u (s\<lparr>em_enabled := a\<rparr>) = lookup u s"
  "lookup u (s\<lparr>em_unloaded := b\<rparr>) = lookup u s" "lookup u (s\<lparr>em_trace := c\<rparr>) = lookup u s"
  "lookup u (s\<lparr>em_enabledSetting := a\<rparr>) = lookup u s" "lookup u (s\<lparr>em_disabledSetting := a\<rparr>) = lookup u s"
  "lookup u (s\<lparr>em_initialized := d\<rparr>) = lookup u s" "lookup u (s\<lparr>em_loaded := d\<rparr>) = lookup u s"
  "lookup u (s\<lparr>em_checkVersion := d\<rparr>) = lookup u s"
  "lookup u (s\<lparr>em_updateNotified := d\<rparr>) = lookup u s" "lookup u (s\<lparr>em_updatedUUIDS := a\<rparr>) = lookup u s"
  by (simp_all add: lookup_def)

lemma state_of_simps [simp]:
  "state_of u (em_do c s) = state_of u s"
  "state_of u (s\<lparr>em_order := a\<rparr>) = state_of u s" "state_of u (s\<lparr>em_trace := c'\<rparr>) = state_of u s"
  "state_of u (changeExtensionState v st s) =
     (if u = v \<and> lookup v s \<noteq> None then Some st else state_of u s)"
  by (auto simp: state_of_def changeExtensionState_def)

lemma changeExtensionState_simps [simp]:
  "em_order (changeExtensionState u st s) = em_order s"
  "em_enabled (changeExtensionState u st s) = em_enabled s"
  "em_trace (changeExtensionState u st s) = em_trace s @ [EmitState u (Some st)]"
  "lookup v (changeExtensionState u st s) =
     (if v = u then map_option (\<lambda>e. e\<lparr>x_state := Some st\<rparr>) (lookup u s) else lookup v s)"
  by (simp_all add: changeExtensionState_def)

lemma logExtensionError_simps [simp]:
  "em_order (logExtensionError u m s) = em_order s"
  "em_enabled (logExtensionError u m s) = em_enabled s"
  "lookup v (logExtensionError u m s) = (if v = u then map_option (\<lambda>e. e\<lparr>x_error := m,
     x_state := Some ST_ERROR, x_errors := x_errors e @ [m]\<rparr>) (lookup u s) else lookup v s)"
  by (auto simp: logExtensionError_def split: option.split)

subsection \<open>What runs\<close>

text \<open>
  The stack of running extensions after a trace, when \<open>enable()\<close> succeeds for the extensions
  with \<open>ok\<close>; \<open>None\<close> if one was enabled while running, or disabled while not on top.
\<close>

fun run_step :: "(string \<Rightarrow> bool) \<Rightarrow> ext_call \<Rightarrow> string list option \<Rightarrow> string list option" where
  "run_step ok (CallEnable u) st = (if ok u
     then Option.bind st (\<lambda>xs. if u \<in> set xs then None else Some (xs @ [u])) else st)"
| "run_step ok (CallDisable u) st =
     Option.bind st (\<lambda>xs. if xs \<noteq> [] \<and> last xs = u then Some (butlast xs) else None)"
| "run_step ok _ st = st"

definition running :: "(string \<Rightarrow> bool) \<Rightarrow> ext_call list \<Rightarrow> string list option" where
  "running ok tr = fold (run_step ok) tr (Some [])"

lemma running_simps [simp]:
  "running ok [] = Some []" "running ok (tr @ [c]) = run_step ok c (running ok tr)"
  "running ok (tr @ [c, d]) = run_step ok d (run_step ok c (running ok tr))"
  by (simp_all add: running_def)

lemma running_disable_all:
  "running ok tr = Some (xs @ ys) \<Longrightarrow> running ok (tr @ map CallDisable (rev ys)) = Some xs"
proof (induction ys arbitrary: tr rule: rev_induct)
  case (snoc y ys)
  then have "running ok (tr @ [CallDisable y]) = Some (xs @ ys)" by (simp add: butlast_append)
  from snoc.IH [OF this] show ?case by simp
qed simp

lemma running_enable_all:
  "running ok tr = Some xs \<Longrightarrow> distinct (xs @ ys) \<Longrightarrow> \<forall>y\<in>set ys. ok y \<Longrightarrow>
     running ok (tr @ map CallEnable ys) = Some (xs @ ys)"
proof (induction ys arbitrary: tr xs)
  case (Cons y ys)
  then have "running ok (tr @ [CallEnable y]) = Some (xs @ [y])" by simp
  from Cons.IH [OF this] Cons.prems show ?case by simp
qed simp

subsection \<open>The invariant\<close>

definition well_behaved :: "(string \<Rightarrow> bool) \<Rightarrow> ext_env \<Rightarrow> bool" where
  "well_behaved ok env \<longleftrightarrow> (\<forall>tr u. ee_enable env tr u = ok u \<and> ee_disable env tr u)"

definition ready :: "string \<Rightarrow> ext_manager \<Rightarrow> bool" where
  "ready u s \<longleftrightarrow> (\<exists>e. lookup u s = Some e \<and> x_hasStateObj e)"

definition transient :: "extension_state option \<Rightarrow> bool" where
  "transient st \<longleftrightarrow> st = Some ST_ACTIVATING \<or> st = Some ST_DEACTIVATING"

definition ext_inv :: "(string \<Rightarrow> bool) \<Rightarrow> ext_manager \<Rightarrow> bool" where
  "ext_inv ok s \<longleftrightarrow> distinct (em_order s)
     \<and> (\<forall>u. u \<in> set (em_order s) \<longleftrightarrow> state_of u s = Some ST_ACTIVE)
     \<and> (\<forall>u. state_of u s = Some ST_ACTIVE \<or> state_of u s = Some ST_INACTIVE \<longrightarrow> ready u s)
     \<and> (\<forall>u. \<not> transient (state_of u s))
     \<and> (\<forall>u\<in>set (em_order s). ok u)
     \<and> running ok (em_trace s) = Some (em_order s)"

lemma ext_invD:
  assumes "ext_inv ok s"
  shows "distinct (em_order s)" and "u \<in> set (em_order s) \<longleftrightarrow> state_of u s = Some ST_ACTIVE"
    and "state_of u s = Some ST_ACTIVE \<Longrightarrow> ready u s" and "state_of u s = Some ST_INACTIVE \<Longrightarrow> ready u s"
    and "\<not> transient (state_of u s)" and "u \<in> set (em_order s) \<Longrightarrow> ok u"
    and "running ok (em_trace s) = Some (em_order s)"
  using assms by (auto simp: ext_inv_def)

lemma fold_tryDisable:
  assumes "well_behaved ok env" and "\<forall>v\<in>set vs. ready v s"
  shows "fold (tryDisable env) vs s = s\<lparr>em_trace := em_trace s @ map CallDisable vs\<rparr>"
  using assms(2)
proof (induction vs arbitrary: s)
  case (Cons v vs)
  have "tryDisable env v s = s\<lparr>em_trace := em_trace s @ [CallDisable v]\<rparr>"
    using Cons.prems assms(1) by (auto simp: tryDisable_def ready_def well_behaved_def em_do_def)
  moreover have "\<forall>v\<in>set vs. ready v (s\<lparr>em_trace := em_trace s @ [CallDisable v']\<rparr>)" for v'
    using Cons.prems by (simp add: ready_def)
  ultimately show ?case using Cons.IH by simp
qed simp

lemma fold_tryEnable:
  assumes "well_behaved ok env" and "\<forall>v\<in>set vs. ready v s \<and> ok v"
  shows "fold (tryEnable env) vs s = s\<lparr>em_trace := em_trace s @ map CallEnable vs\<rparr>"
  using assms(2)
proof (induction vs arbitrary: s)
  case (Cons v vs)
  have "tryEnable env v s = s\<lparr>em_trace := em_trace s @ [CallEnable v]\<rparr>"
    using Cons.prems assms(1) by (auto simp: tryEnable_def ready_def well_behaved_def em_do_def)
  moreover have "\<forall>v\<in>set vs. ready v (s\<lparr>em_trace := em_trace s @ [CallEnable v']\<rparr>) \<and> ok v" for v'
    using Cons.prems by (simp add: ready_def)
  ultimately show ?case using Cons.IH by simp
qed simp

lemma unloadSheet_simps [simp]:
  "em_order (unloadExtensionStylesheet u s) = em_order s"
  "em_enabled (unloadExtensionStylesheet u s) = em_enabled s"
  "lookup v (unloadExtensionStylesheet u s) =
     (if v = u then map_option (\<lambda>e. e\<lparr>x_stylesheet := None\<rparr>) (lookup u s) else lookup v s)"
  "running ok (em_trace (unloadExtensionStylesheet u s)) = running ok (em_trace s)"
  by (auto simp: unloadExtensionStylesheet_def split: option.split)

text \<open>The effect of disabling a running extension.\<close>

lemma callExtensionDisable_effect:
  assumes "well_behaved ok env" and "ext_inv ok s" and "state_of u s = Some ST_ACTIVE"
  shows "em_order (callExtensionDisable env u s) = remove1 u (em_order s)"
    and "em_enabled (callExtensionDisable env u s) = em_enabled s"
    and "lookup v (callExtensionDisable env u s) =
      (if v = u then map_option (\<lambda>e. e\<lparr>x_state := Some ST_INACTIVE, x_stylesheet := None\<rparr>) (lookup u s)
       else lookup v s)"
    and "running ok (em_trace (callExtensionDisable env u s)) = Some (remove1 u (em_order s))"
proof -
  note inv = ext_invD [OF assms(2)]
  have "u \<in> set (em_order s)" using inv(2) assms(3) by blast
  then obtain as bs where order: "em_order s = as @ u # bs" "u \<notin> set as"
    by (meson split_list_first)
  with inv(1) have bs: "u \<notin> set bs" "distinct (as @ bs)" by auto
  obtain e where e: "lookup u s = Some e" "x_hasStateObj e"
    using inv(3) [OF assms(3)] by (auto simp: ready_def)
  define s1 where "s1 = changeExtensionState u ST_DEACTIVATING s"
  have idx: "js_indexOf u (em_order s1) = int (length as)"
    using order by (simp add: s1_def js_indexOf_split)
  have slice: "js_slice (em_order s1) (js_indexOf u (em_order s1) + 1) (int (length (em_order s1))) = bs"
    using js_slice_suffix [of "int (length as) + 1" "em_order s1"] order idx
    by (simp add: s1_def nat_add_distrib)
  have ready: "ready v s1" if "v \<in> set (em_order s)" for v
    using that inv(2,3) [of v] by (auto simp: s1_def ready_def)
  have s2: "fold (tryDisable env) (rev bs) s1 = s1\<lparr>em_trace := em_trace s1 @ map CallDisable (rev bs)\<rparr>" (is "_ = ?s2")
    using ready order by (intro fold_tryDisable [OF assms(1)]) auto
  have s3: "tryDisable env u ?s2 = ?s2\<lparr>em_trace := em_trace ?s2 @ [CallDisable u]\<rparr>" (is "_ = ?s3")
    using fold_tryDisable [OF assms(1), of "[u]" ?s2] ready [of u] order by (simp add: ready_def)
  define s4 where "s4 = unloadExtensionStylesheet u ?s3"
  have "ready v s4 \<and> ok v" if "v \<in> set bs" for v
    using that ready [of v] inv(6) [of v] order bs by (auto simp: s4_def ready_def)
  then have s5: "fold (tryEnable env) bs s4 = s4\<lparr>em_trace := em_trace s4 @ map CallEnable bs\<rparr>" (is "_ = ?s5")
    by (intro fold_tryEnable [OF assms(1)]) auto
  have splice: "js_splice1 (js_indexOf u (em_order s1)) (em_order ?s5) = remove1 u (em_order s)"
    using js_splice1_indexOf [of u "em_order s"] order by (simp add: s4_def s1_def)
  define s6 where "s6 = ?s5\<lparr>em_order := remove1 u (em_order s)\<rparr>"
  have look6: "lookup v s6 = (if v = u then Some (e\<lparr>x_state := Some ST_DEACTIVATING, x_stylesheet := None\<rparr>)
      else lookup v s)" for v
    using e by (simp add: s6_def s4_def s1_def)
  have res: "callExtensionDisable env u s = changeExtensionState u ST_INACTIVE s6"
    using assms(3) look6 [of u]
    unfolding callExtensionDisable_def s1_def [symmetric] Let_def slice s2 s3 s4_def [symmetric] s5 splice
      s6_def [symmetric]
    by (simp add: state_of_def)
  have "running ok (em_trace s1) = Some ((as @ [u]) @ bs)" using inv(7) order by (simp add: s1_def)
  from running_disable_all [OF this] have "running ok ((em_trace s1 @ map CallDisable (rev bs)) @ [CallDisable u]) = Some as"
    by (simp only: running_simps) simp
  then have "running ok (em_trace ?s3) = Some as" by simp
  then have "running ok (em_trace s4) = Some as" by (simp add: s4_def)
  from running_enable_all [OF this bs(2)] inv(6) order
  have run: "running ok (em_trace s6) = Some (as @ bs)" by (simp add: s6_def)
  show "em_order (callExtensionDisable env u s) = remove1 u (em_order s)" by (simp add: res s6_def)
  show "em_enabled (callExtensionDisable env u s) = em_enabled s" by (simp add: res s6_def s4_def s1_def)
  show "lookup v (callExtensionDisable env u s) =
      (if v = u then map_option (\<lambda>e. e\<lparr>x_state := Some ST_INACTIVE, x_stylesheet := None\<rparr>) (lookup u s)
       else lookup v s)"
    using look6 [of v] look6 [of u] e by (simp add: res)
  show "running ok (em_trace (callExtensionDisable env u s)) = Some (remove1 u (em_order s))"
    using run order by (simp add: res remove1_append)
qed

lemma state_of_lookup: "lookup u s' = lookup u s \<Longrightarrow> state_of u s' = state_of u s"
  by (simp add: state_of_def)

text \<open>An operation that changes one extension and its place in the order.\<close>

lemma ext_inv_single:
  assumes "ext_inv ok s" and "\<And>v. v \<noteq> u \<Longrightarrow> state_of v s' = state_of v s \<and> ready v s' = ready v s"
    and "\<not> transient (state_of u s')"
    and "state_of u s' = Some ST_ACTIVE \<or> state_of u s' = Some ST_INACTIVE \<Longrightarrow> ready u s'"
    and "distinct (em_order s')"
    and "set (em_order s') = (if state_of u s' = Some ST_ACTIVE then insert u (set (em_order s))
           else set (em_order s) - {u})"
    and "state_of u s' = Some ST_ACTIVE \<Longrightarrow> ok u"
    and "running ok (em_trace s') = Some (em_order s')"
  shows "ext_inv ok s'"
  unfolding ext_inv_def
proof (intro conjI allI ballI impI)
  note inv = ext_invD [OF assms(1)]
  fix v
  show "v \<in> set (em_order s') \<longleftrightarrow> state_of v s' = Some ST_ACTIVE"
    using assms(2) [of v] assms(6) inv(2) [of v] by (cases "v = u") auto
  show "\<not> transient (state_of v s')" using assms(2) [of v] assms(3) inv(5) [of v] by (cases "v = u") auto
  show "ready v s'" if "state_of v s' = Some ST_ACTIVE \<or> state_of v s' = Some ST_INACTIVE"
    using that assms(2) [of v] assms(4) inv(3,4) [of v] by (cases "v = u") auto
  show "ok v" if "v \<in> set (em_order s')"
    using that assms(6,7) inv(6) [of v] by (cases "v = u") (auto split: if_splits)
qed (use assms in auto)

lemma ext_inv_disable:
  assumes "well_behaved ok env" and "ext_inv ok s"
  shows "ext_inv ok (callExtensionDisable env u s)"
proof (cases "state_of u s = Some ST_ACTIVE")
  case False
  then show ?thesis using assms(2) by (simp add: callExtensionDisable_def)
next
  case True
  note eff = callExtensionDisable_effect [OF assms True]
  note inv = ext_invD [OF assms(2)]
  let ?s = "callExtensionDisable env u s"
  have other: "state_of v ?s = state_of v s" "ready v ?s = ready v s" if "v \<noteq> u" for v
    using that by (simp_all add: eff(3) state_of_def ready_def)
  have self: "state_of u ?s = Some ST_INACTIVE" "ready u ?s"
    using inv(3) [OF True] by (auto simp: eff(3) state_of_def ready_def)
  have "set (remove1 u (em_order s)) = set (em_order s) - {u}" using inv(1) by simp
  then show ?thesis
    using inv(1) other self by (intro ext_inv_single [OF assms(2), of u]) (auto simp: transient_def eff)
qed

lemma running_log [simp]:
  "running ok (em_trace (logExtensionError u m s)) = running ok (em_trace s)"
proof (cases "lookup u s")
  case (Some e)
  have "em_trace (logExtensionError u m s) = (em_trace s @ [LogError u]) @ [EmitState u (Some ST_ERROR)]"
    using Some by (simp add: logExtensionError_def)
  then show ?thesis by (simp only: running_simps run_step.simps)
qed (simp add: logExtensionError_def)

lemma state_of_log [simp]:
  "state_of v (logExtensionError u m s) = (if v = u \<and> lookup u s \<noteq> None then Some ST_ERROR else state_of v s)"
  by (auto simp: state_of_def)

lemma ready_simps [simp]:
  "ready v (em_do c s) = ready v s" "ready v (logExtensionError u m s) = ready v s"
  "ready v (changeExtensionState u st s) = ready v s" "ready v (unloadExtensionStylesheet u s) = ready v s"
  "ready v (s\<lparr>em_order := a\<rparr>) = ready v s"
  by (auto simp: ready_def)

lemma state_of_unloadSheet [simp]: "state_of v (unloadExtensionStylesheet u s) = state_of v s"
  by (cases "lookup u s") (auto simp: state_of_def)

lemma loadSheet_frame:
  "em_order (snd (loadExtensionStylesheet env u s)) = em_order s"
  "em_enabled (snd (loadExtensionStylesheet env u s)) = em_enabled s"
  "state_of v (snd (loadExtensionStylesheet env u s)) = state_of v s"
  "ready v (snd (loadExtensionStylesheet env u s)) = ready v s"
  "(lookup v (snd (loadExtensionStylesheet env u s)) = None) = (lookup v s = None)"
  "running ok (em_trace (snd (loadExtensionStylesheet env u s))) = running ok (em_trace s)"
  by (cases "lookup u s"; auto simp: loadExtensionStylesheet_def state_of_def ready_def
      simp del: first_sheet.simps split: prod.split option.split)+

lemma ext_inv_not_active:
  "ext_inv ok s \<Longrightarrow> state_of u s \<noteq> Some ST_ACTIVE \<Longrightarrow> u \<notin> set (em_order s)"
  by (simp add: ext_invD(2))

text \<open>A change of one extension that is not running to a state that is not running.\<close>

lemma ext_inv_idle:
  assumes "ext_inv ok s" and "u \<notin> set (em_order s)"
    and "\<And>v. v \<noteq> u \<Longrightarrow> state_of v s' = state_of v s \<and> ready v s' = ready v s"
    and "state_of u s' \<noteq> Some ST_ACTIVE" and "\<not> transient (state_of u s')"
    and "state_of u s' = Some ST_INACTIVE \<Longrightarrow> ready u s'"
    and "em_order s' = em_order s" and "running ok (em_trace s') = running ok (em_trace s)"
  shows "ext_inv ok s'"
  using assms ext_invD(1,7) [OF assms(1)] by (intro ext_inv_single [OF assms(1), of u]) auto

lemma init_frame:
  "em_order (snd (callExtensionInit env u s)) = em_order s"
  "em_enabled (snd (callExtensionInit env u s)) = em_enabled s"
  "running ok (em_trace (snd (callExtensionInit env u s))) = running ok (em_trace s)"
  "v \<noteq> u \<Longrightarrow> lookup v (snd (callExtensionInit env u s)) = lookup v s"
  by (auto simp: callExtensionInit_def Let_def)

lemma init_state:
  assumes "lookup u s \<noteq> None"
  shows "(if fst (callExtensionInit env u s)
      then state_of u (snd (callExtensionInit env u s)) = Some ST_INACTIVE
        \<and> ready u (snd (callExtensionInit env u s))
      else state_of u (snd (callExtensionInit env u s)) \<in> {state_of u s, Some ST_ERROR})"
  using assms by (auto simp: callExtensionInit_def Let_def state_of_def ready_def)

lemma ext_inv_init:
  assumes "ext_inv ok s" and "u \<notin> set (em_order s)" and "lookup u s \<noteq> None"
    and "state_of u s \<noteq> Some ST_INACTIVE"
  shows "ext_inv ok (snd (callExtensionInit env u s))"
proof (rule ext_inv_idle [OF assms(1,2)])
  let ?s = "snd (callExtensionInit env u s)"
  note st = init_state [OF assms(3), of env]
  show "state_of v ?s = state_of v s \<and> ready v ?s = ready v s" if "v \<noteq> u" for v
    using init_frame(4) [OF that] by (simp add: state_of_def ready_def)
  show "state_of u ?s \<noteq> Some ST_ACTIVE" "\<not> transient (state_of u ?s)"
    using st assms(2) ext_invD(2,5) [OF assms(1), of u] by (auto simp: transient_def split: if_splits)
  show "ready u ?s" if "state_of u ?s = Some ST_INACTIVE" using st that assms(4) by (auto split: if_splits)
qed (simp_all add: init_frame)

lemma ext_inv_enable:
  assumes "well_behaved ok env" and "ext_inv ok s"
  shows "ext_inv ok (callExtensionEnable env u s)"
proof (cases "extensionSupportsSessionMode env u s")
  case False
  then show ?thesis using assms(2) by (simp add: callExtensionEnable_def)
next
  case True
  then have known: "lookup u s \<noteq> None" by (auto simp: extensionSupportsSessionMode_def split: option.splits)
  define s1 where "s1 = (if state_of u s = Some ST_INITIALIZED then snd (callExtensionInit env u s) else s)"
  have inv1: "ext_inv ok s1"
    using assms(2) known ext_inv_init [OF assms(2) ext_inv_not_active [OF assms(2)]] by (auto simp: s1_def)
  show ?thesis
  proof (cases "state_of u s1 = Some ST_INACTIVE")
    case False
    then show ?thesis using True inv1 by (simp add: callExtensionEnable_def s1_def [symmetric])
  next
    case inactive: True
    define p where "p = loadExtensionStylesheet env u (changeExtensionState u ST_ACTIVATING s1)"
    define s2 where "s2 = snd p"
    have res: "callExtensionEnable env u s = (if \<not> fst p then logExtensionError u ''stylesheet'' s2
        else if ok u
        then (changeExtensionState u ST_ACTIVE (em_do (CallEnable u) s2))
               \<lparr>em_order := em_order (changeExtensionState u ST_ACTIVE (em_do (CallEnable u) s2)) @ [u]\<rparr>
        else logExtensionError u ''enable'' (unloadExtensionStylesheet u (em_do (CallEnable u) s2)))"
      using True inactive assms(1)
      unfolding callExtensionEnable_def Let_def s1_def [symmetric] p_def [symmetric] s2_def split_def
      by (simp add: well_behaved_def)
    have ready: "ready u s1" using ext_invD(4) [OF inv1 inactive] .
    then have known1: "lookup u s1 \<noteq> None" by (auto simp: ready_def)
    have fresh: "u \<notin> set (em_order s1)" using inactive by (intro ext_inv_not_active [OF inv1]) simp
    have s2: "em_order s2 = em_order s1" "running ok (em_trace s2) = Some (em_order s1)"
      "lookup u s2 \<noteq> None" "\<And>v. ready v s2 = ready v s1"
      "\<And>v. v \<noteq> u \<Longrightarrow> state_of v s2 = state_of v s1"
      using known1 ext_invD(7) [OF inv1] by (simp_all add: s2_def p_def loadSheet_frame)
    show ?thesis
    proof (cases "fst p \<and> ok u")
      case True
      then show ?thesis
        unfolding res using s2 ready fresh ext_invD(1) [OF inv1]
        by (intro ext_inv_single [OF inv1, of u]) (auto simp: transient_def)
    next
      case False
      then show ?thesis
        unfolding res using s2 ext_invD(7) [OF inv1]
        by (intro ext_inv_idle [OF inv1 fresh]) (auto simp: transient_def)
    qed
  qed
qed

subsection \<open>Every operation\<close>

lemma fold_inv: "(\<And>x s. P s \<Longrightarrow> P (f x s)) \<Longrightarrow> P s \<Longrightarrow> P (fold f xs s)"
  by (induction xs arbitrary: s) auto

lemma ext_inv_cong:
  assumes "ext_inv ok s" and "\<And>v. state_of v s' = state_of v s \<and> ready v s' = ready v s"
    and "em_order s' = em_order s" and "running ok (em_trace s') = running ok (em_trace s)"
  shows "ext_inv ok s'"
  using assms by (simp add: ext_inv_def)

lemma ext_inv_do:
  "ext_inv ok s \<Longrightarrow> (\<forall>u. c \<noteq> CallEnable u \<and> c \<noteq> CallDisable u) \<Longrightarrow> ext_inv ok (em_do c s)"
  by (rule ext_inv_cong) (auto, cases c, auto)

text \<open>An assignment that leaves the state and the instance alone.\<close>

lemma ext_inv_update:
  assumes "ext_inv ok s" and "\<And>e. x_state (f e) = x_state e \<and> x_hasStateObj (f e) = x_hasStateObj e"
  shows "ext_inv ok (ext_update u f s)"
proof (rule ext_inv_cong [OF assms(1)])
  show "state_of v (ext_update u f s) = state_of v s \<and> ready v (ext_update u f s) = ready v s" for v
    using assms(2) by (cases "lookup u s") (auto simp: state_of_def ready_def)
qed simp_all

lemma ext_inv_fields:
  "ext_inv ok s \<Longrightarrow> ext_inv ok (s\<lparr>em_enabled := a\<rparr>)" "ext_inv ok s \<Longrightarrow> ext_inv ok (s\<lparr>em_enabledSetting := a\<rparr>)"
  "ext_inv ok s \<Longrightarrow> ext_inv ok (s\<lparr>em_disabledSetting := a\<rparr>)" "ext_inv ok s \<Longrightarrow> ext_inv ok (s\<lparr>em_unloaded := b\<rparr>)"
  "ext_inv ok s \<Longrightarrow> ext_inv ok (s\<lparr>em_initialized := d\<rparr>)" "ext_inv ok s \<Longrightarrow> ext_inv ok (s\<lparr>em_loaded := d\<rparr>)"
  "ext_inv ok s \<Longrightarrow> ext_inv ok (s\<lparr>em_checkVersion := d\<rparr>)"
  "ext_inv ok s \<Longrightarrow> ext_inv ok (s\<lparr>em_updateNotified := d\<rparr>)" "ext_inv ok s \<Longrightarrow> ext_inv ok (s\<lparr>em_updatedUUIDS := a\<rparr>)"
  by (simp_all add: ext_inv_def state_of_def ready_def)

lemma ext_inv_enabledExtensionsChanged:
  assumes "well_behaved ok env" and "ext_inv ok s"
  shows "ext_inv ok (onEnabledExtensionsChanged env s)"
proof -
  have flag: "ext_inv ok (updateEnabledFlag new u s)" if "ext_inv ok s" for new u s
    using that by (auto simp: updateEnabledFlag_def Let_def intro!: ext_inv_do ext_inv_update split: option.split)
  show ?thesis
    unfolding onEnabledExtensionsChanged_def Let_def
    by (intro ext_inv_fields fold_inv [where P = "ext_inv ok"] ext_inv_enable ext_inv_disable flag assms)
qed

lemma ext_inv_canChange: "ext_inv ok s \<Longrightarrow> ext_inv ok (updateCanChange env u s)"
  by (auto simp: updateCanChange_def Let_def intro!: ext_inv_update)

lemma ext_inv_writable: "ext_inv ok s \<Longrightarrow> ext_inv ok (onSettingsWritableChanged env s)"
  unfolding onSettingsWritableChanged_def Let_def
  by (intro fold_inv [where P = "ext_inv ok"] ext_inv_do ext_inv_canChange) auto

lemma ext_inv_create:
  assumes "ext_inv ok s" and "lookup u s = None"
  shows "ext_inv ok (createExtensionObject u m t s)"
proof (rule ext_inv_idle [OF assms(1)])
  have "state_of u s = None" using assms(2) by (simp add: state_of_def)
  then show "u \<notin> set (em_order s)" by (simp add: ext_invD(2) [OF assms(1)])
qed (simp_all add: createExtensionObject_def state_of_def ready_def lookup_def transient_def)

lemma create_lookup: "lookup u (createExtensionObject u m t s) \<noteq> None"
  by (simp add: createExtensionObject_def lookup_def)

lemma ext_inv_setState:
  assumes "ext_inv ok s" and "u \<notin> set (em_order s)" and "st \<noteq> ST_ACTIVE" "st \<noteq> ST_INACTIVE" "\<not> transient (Some st)"
  shows "ext_inv ok (ext_update u (\<lambda>e. e\<lparr>x_state := Some st\<rparr>) s)"
proof (cases "lookup u s")
  case None
  then show ?thesis using assms(1) by (simp add: ext_update_def)
next
  case (Some e)
  then show ?thesis using assms(3-5)
    by (intro ext_inv_idle [OF assms(1,2)]) (auto simp: state_of_def ready_def)
qed

lemma ext_inv_log:
  assumes "ext_inv ok s" and "u \<notin> set (em_order s)"
  shows "ext_inv ok (logExtensionError u m s)"
proof (cases "lookup u s")
  case None
  then show ?thesis using assms(1) by (simp add: logExtensionError_def)
next
  case (Some e)
  then show ?thesis by (intro ext_inv_idle [OF assms]) (simp_all add: transient_def)
qed

lemma ext_inv_load:
  assumes "well_behaved ok env" and "ext_inv ok s" and "u \<notin> set (em_order s)"
  shows "ext_inv ok (loadExtension env u s)"
proof (cases "lookup u s")
  case None
  then show ?thesis using assms(2) by (simp add: loadExtension_def Let_def)
next
  case (Some e)
  define s1 where "s1 = ext_update u (\<lambda>e. e\<lparr>x_state := Some ST_ERROR\<rparr>) s"
  have inv1: "ext_inv ok s1"
    unfolding s1_def using assms(2,3) by (rule ext_inv_setState) (simp_all add: transient_def)
  have u1: "u \<notin> set (em_order s1)" "lookup u s1 \<noteq> None" "state_of u s1 = Some ST_ERROR"
    using assms(3) Some by (simp_all add: s1_def state_of_def)
  have loaded: "ext_inv ok (let s1 = updateCanChange env u s in em_do (EmitState u (state_of u s1)) s1)"
    if "ext_inv ok s" for s
    using that by (simp add: Let_def ext_inv_do ext_inv_canChange)
  have set: "ext_inv ok (ext_update u (\<lambda>e. e\<lparr>x_state := Some st\<rparr>) s1)"
    if "st = ST_OUT_OF_DATE \<or> st = ST_INITIALIZED" for st
    using inv1 u1(1) that by (intro ext_inv_setState) (auto simp: transient_def)
  have init: "ext_inv ok (snd (callExtensionInit env u s1))"
    using inv1 u1 by (intro ext_inv_init) auto
  have log: "ext_inv ok (logExtensionError u m s1)" for m using inv1 u1(1) by (rule ext_inv_log)
  obtain e1 where e1: "lookup u s1 = Some e1" using u1(2) by blast
  show ?thesis
    unfolding loadExtension_def s1_def [symmetric] Let_def [of s1] e1 option.case
    using init set loaded log ext_inv_enable [OF assms(1) init]
    by (auto simp: split_def Let_def intro!: ext_inv_do ext_inv_canChange ext_inv_fields)
qed

lemma disable_not_running:
  assumes "well_behaved ok env" and "ext_inv ok s"
  shows "u \<notin> set (em_order (callExtensionDisable env u s))"
proof (cases "state_of u s = Some ST_ACTIVE")
  case True
  then show ?thesis
    using ext_invD(1) [OF assms(2)] by (simp add: callExtensionDisable_effect(1) [OF assms True])
next
  case False
  then show ?thesis using ext_inv_not_active [OF assms(2)] by (simp add: callExtensionDisable_def)
qed

lemma unload_spec:
  assumes "well_behaved ok env" and "ext_inv ok s"
  shows "ext_inv ok (unloadExtension env u s) \<and> lookup u (unloadExtension env u s) = None"
proof -
  define s0 where "s0 = callExtensionDisable env u s"
  have inv0: "ext_inv ok s0" using ext_inv_disable [OF assms] by (simp add: s0_def)
  have fresh: "u \<notin> set (em_order s0)" using disable_not_running [OF assms] by (simp add: s0_def)
  define s1 where "s1 = changeExtensionState u ST_UNINSTALLED s0"
  have run1: "running ok (em_trace s1) = running ok (em_trace s0)" by (simp add: s1_def)
  show ?thesis
  proof (cases "lookup u s1")
    case None
    then have res: "unloadExtension env u s = s1"
      by (simp add: unloadExtension_def s0_def [symmetric] s1_def [symmetric] Let_def)
    have "lookup u s0 = None" using None by (simp add: s1_def)
    then have "ext_inv ok s1"
      by (intro ext_inv_idle [OF inv0 fresh]) (auto simp: s1_def transient_def state_of_def)
    with res None show ?thesis by simp
  next
    case (Some e)
    define s2 where "s2 = (if x_type e = EXT_PER_USER \<and> x_isImported e
      then s1\<lparr>em_unloaded := jm_set (em_unloaded s1) u (x_version e)\<rparr> else s1)"
    have res: "unloadExtension env u s = s2\<lparr>em_extensions := jm_del (em_extensions s2) u\<rparr>"
      using Some by (simp add: unloadExtension_def s0_def [symmetric] s1_def [symmetric] s2_def Let_def)
    have ext2: "em_extensions s2 = em_extensions s1" "em_order s2 = em_order s1" "em_trace s2 = em_trace s1"
      by (simp_all add: s2_def)
    have look: "lookup v (unloadExtension env u s) = (if v = u then None else lookup v s0)" for v
      by (simp add: res lookup_def ext2) (simp add: lookup_def [symmetric] s1_def)
    have "em_order (unloadExtension env u s) = em_order s0"
      and "running ok (em_trace (unloadExtension env u s)) = running ok (em_trace s0)"
      using run1 by (simp_all add: res ext2) (simp add: s1_def)
    with look have "ext_inv ok (unloadExtension env u s)"
      by (intro ext_inv_idle [OF inv0 fresh]) (simp_all add: state_of_def ready_def transient_def)
    with look show ?thesis by simp
  qed
qed

lemma ext_inv_reload:
  assumes "well_behaved ok env" and "ext_inv ok s"
  shows "ext_inv ok (reloadExtension env meta u s)"
proof (cases "lookup u s")
  case None
  then show ?thesis using assms(2) by (simp add: reloadExtension_def)
next
  case (Some e)
  note un = unload_spec [OF assms, of u]
  then have fresh: "u \<notin> set (em_order (unloadExtension env u s))"
    by (intro ext_inv_not_active) (auto simp: state_of_def)
  show ?thesis
  proof (cases "meta u")
    case None
    then show ?thesis using Some un fresh by (simp add: reloadExtension_def Let_def ext_inv_log)
  next
    case (Some m)
    have "ext_inv ok (createExtensionObject u m (x_type e) (unloadExtension env u s))"
      using un by (intro ext_inv_create) auto
    moreover have "u \<notin> set (em_order (createExtensionObject u m (x_type e) (unloadExtension env u s)))"
      using fresh by (simp add: createExtensionObject_def)
    ultimately show ?thesis
      using Some \<open>lookup u s = Some e\<close> ext_inv_load [OF assms(1)] by (simp add: reloadExtension_def Let_def)
  qed
qed

subsection \<open>The manager over time\<close>

text \<open>
  The operations one after the other: each is performed to its end, whatever it waits for in
  between, before the next one starts.
\<close>

type_synonym ext_dirs = "(string \<times> extension_type \<times> ext_meta option) list"

inductive ext_step :: "(string \<Rightarrow> bool) \<Rightarrow> ext_manager \<Rightarrow> ext_manager \<Rightarrow> bool" for ok where
  session_updated: "well_behaved ok env \<Longrightarrow> ext_step ok s (alone (sessionUpdatedAsync dirs) env s)"
| enabled_changed: "well_behaved ok env \<Longrightarrow> ext_step ok s (alone onEnabledExtensionsChangedAsync env s)"
| user_changed: "well_behaved ok env \<Longrightarrow> ext_step ok s (alone onUserExtensionsEnabledChangedAsync env s)"
| writable_changed: "ext_step ok s (onSettingsWritableChanged env s)"
| enable: "ext_step ok s (snd (enableExtension u s))"
| disable: "ext_step ok s (snd (disableExtension u s))"
| install: "well_behaved ok env \<Longrightarrow> lookup u s = None \<Longrightarrow>
    ext_step ok s (alone (loadExtensionAsync u) env (createExtensionObject u m t s))"
| unload: "well_behaved ok env \<Longrightarrow> ext_step ok s (alone (unloadExtensionAsync u) env s)"
| reload: "well_behaved ok env \<Longrightarrow> ext_step ok s (alone (reloadExtensionAsync meta u) env s)"
| update: "ext_step ok s (notifyExtensionUpdate u s)"
| prefs: "ext_step ok s (snd (openExtensionPrefs u s))"
| disable_all: "well_behaved ok env \<Longrightarrow> ext_step ok s (alone disableAllExtensionsAsync env s)"

inductive ext_reachable :: "(string \<Rightarrow> bool) \<Rightarrow> ext_manager \<Rightarrow> bool" for ok where
  created: "ext_reachable ok (newExtensionManager enabled disabled)"
| stepped: "ext_reachable ok s \<Longrightarrow> ext_step ok s s' \<Longrightarrow> ext_reachable ok s'"

lemma addFound_inv:
  assumes "ext_inv ok (fst p)" and "\<forall>u\<in>set (snd p). u \<notin> set (em_order (fst p))"
  shows "ext_inv ok (fst (addFound d p)) \<and> (\<forall>u\<in>set (snd (addFound d p)). u \<notin> set (em_order (fst (addFound d p))))"
proof -
  obtain u t m s found where d: "d = (u, t, m)" "p = (s, found)" by (metis prod.exhaust)
  show ?thesis
  proof (cases "m = None \<or> lookup u s \<noteq> None")
    case True
    then show ?thesis using assms by (auto simp: addFound_def d split: option.split)
  next
    case False
    then obtain meta where m: "m = Some meta" "lookup u s = None" by auto
    have "u \<notin> set (em_order s)"
      using m(2) assms(1) by (intro ext_inv_not_active [of ok s]) (simp_all add: d state_of_def)
    moreover have "ext_inv ok (createExtensionObject u meta t s)"
      using assms(1) m(2) by (intro ext_inv_create) (simp_all add: d)
    ultimately show ?thesis using assms(2) m by (simp add: addFound_def d createExtensionObject_def)
  qed
qed

lemma addFound_distinct:
  "(\<forall>u\<in>set (snd p). lookup u (fst p) \<noteq> None) \<and> distinct (snd p) \<Longrightarrow>
   (\<forall>u\<in>set (snd (addFound d p)). lookup u (fst (addFound d p)) \<noteq> None) \<and> distinct (snd (addFound d p))"
  by (cases d; cases p)
    (auto simp: addFound_def createExtensionObject_def lookup_def split: option.split)

lemma enable_lookup_other: "v \<noteq> u \<Longrightarrow> lookup v (callExtensionEnable env u s) = lookup v s"
proof -
  assume v: "v \<noteq> u"
  have sheet: "lookup v (snd (loadExtensionStylesheet env u s)) = lookup v s" for s
    using v by (auto simp: loadExtensionStylesheet_def simp del: first_sheet.simps split: prod.split option.split)
  show ?thesis
    using v by (simp add: callExtensionEnable_def Let_def split_def sheet init_frame(4))
qed

lemma load_lookup_other: "v \<noteq> u \<Longrightarrow> lookup v (loadExtension env u s) = lookup v s"
  by (auto simp: loadExtension_def updateCanChange_def Let_def split_def enable_lookup_other init_frame(4)
      split: option.split)

lemma ext_inv_load_all:
  assumes "well_behaved ok env" and "ext_inv ok s" and "distinct us" and "\<forall>u\<in>set us. u \<notin> set (em_order s)"
  shows "ext_inv ok (fold (loadExtension env) us s)"
  using assms(2-4)
proof (induction us arbitrary: s)
  case (Cons u us)
  have inv: "ext_inv ok (loadExtension env u s)" using Cons.prems by (intro ext_inv_load [OF assms(1)]) auto
  moreover have "v \<notin> set (em_order (loadExtension env u s))" if "v \<in> set us" for v
  proof -
    have "v \<noteq> u" "v \<notin> set (em_order s)" using that Cons.prems by auto
    then show ?thesis
      using ext_invD(2) [OF inv, of v] ext_invD(2) [OF Cons.prems(1), of v] load_lookup_other [of v u env s]
      by (simp add: state_of_def)
  qed
  ultimately show ?case using Cons by simp
qed simp

lemma ext_inv_loadExtensions:
  assumes "well_behaved ok env" and "ext_inv ok s"
  shows "ext_inv ok (loadExtensions env dirs s)"
proof -
  define s1 where "s1 = s\<lparr>em_checkVersion := \<not> ee_disableVersionCheck env\<rparr>"
  define s2 where "s2 = s1\<lparr>em_enabled := getEnabledExtensions env s1\<rparr>"
  define p where "p = fold addFound dirs (s2, [])"
  have "ext_inv ok s2" using assms(2) by (simp add: s1_def s2_def ext_inv_fields)
  then have start: "ext_inv ok (fst (s2, [] :: string list)) \<and> (\<forall>u\<in>set (snd (s2, [])). u \<notin> set (em_order (fst (s2, [] :: string list))))"
    by simp
  have inv: "ext_inv ok (fst p) \<and> (\<forall>u\<in>set (snd p). u \<notin> set (em_order (fst p)))"
    unfolding p_def using start
    by (rule fold_inv [where P = "\<lambda>p. ext_inv ok (fst p) \<and> (\<forall>u\<in>set (snd p). u \<notin> set (em_order (fst p)))", rotated])
      (rule addFound_inv, auto)
  have dist: "(\<forall>u\<in>set (snd p). lookup u (fst p) \<noteq> None) \<and> distinct (snd p)"
    unfolding p_def
    by (rule fold_inv [where P = "\<lambda>p. (\<forall>u\<in>set (snd p). lookup u (fst p) \<noteq> None) \<and> distinct (snd p)"])
      (rule addFound_distinct, auto)
  show ?thesis
    unfolding loadExtensions_def Let_def s1_def [symmetric] s2_def [symmetric] p_def [symmetric] split_def
    using inv dist by (intro ext_inv_load_all [OF assms(1)]) auto
qed

lemma ext_inv_session:
  assumes "well_behaved ok env" and "ext_inv ok s"
  shows "ext_inv ok (sessionUpdated env dirs s)"
  unfolding sessionUpdated_def enableAllExtensions_def Let_def
  using assms by (auto intro!: fold_inv [where P = "ext_inv ok"] ext_inv_enable ext_inv_loadExtensions
      ext_inv_fields ext_inv_enabledExtensionsChanged)

lemma ext_inv_settings:
  assumes "ext_inv ok s"
  shows "ext_inv ok (snd (enableExtension u s))" "ext_inv ok (snd (disableExtension u s))"
    "ext_inv ok (notifyExtensionUpdate u s)" "ext_inv ok (snd (openExtensionPrefs u s))"
  using assms
  by (auto simp: enableExtension_def disableExtension_def notifyExtensionUpdate_def openExtensionPrefs_def Let_def
      intro!: ext_inv_do ext_inv_fields ext_inv_update split: option.split)

lemma ext_inv_step: "ext_step ok s s' \<Longrightarrow> ext_inv ok s \<Longrightarrow> ext_inv ok s'"
proof (induction rule: ext_step.induct)
  case (install env u s m t)
  then show ?case
    using ext_inv_not_active [OF ext_inv_create] unfolding alone_simps fst_conv
    by (intro ext_inv_load ext_inv_create) (auto simp: createExtensionObject_def state_of_def
        dest!: ext_invD(2) [of ok s u, THEN iffD1])
next
  case (disable_all env s)
  then show ?case
    unfolding alone_simps fst_conv disableAllExtensions_def by (intro fold_inv [where P = "ext_inv ok"] ext_inv_disable)
next
  case (user_changed env s)
  then show ?case
    unfolding alone_simps fst_conv onUserExtensionsEnabledChanged_def by (intro ext_inv_writable ext_inv_enabledExtensionsChanged)
qed (auto simp: alone_simps ext_inv_session ext_inv_enabledExtensionsChanged ext_inv_writable ext_inv_settings
    ext_inv_reload unload_spec)

lemma ext_inv_reachable: "ext_reachable ok s \<Longrightarrow> ext_inv ok s"
proof (induction rule: ext_reachable.induct)
  case (created enabled disabled)
  then show ?case
    by (simp add: ext_inv_def newExtensionManager_def state_of_def lookup_def transient_def)
qed (rule ext_inv_step)

text \<open>C8: After any operations on well-behaved extensions, each performed to its end before the
  next one starts, the extensions that run are exactly the ones in state ACTIVE, stacked in the
  order the manager keeps: each was enabled once and only the topmost one was ever disabled. None
  is left activating or deactivating. (Two operations that overlap break this, see below.)\<close>

theorem extensions_run_as_stack:
  assumes "ext_reachable ok s"
  shows "running ok (em_trace s) = Some (em_order s) \<and> distinct (em_order s)
    \<and> (\<forall>u. u \<in> set (em_order s) \<longleftrightarrow> state_of u s = Some ST_ACTIVE)
    \<and> (\<forall>u. \<not> transient (state_of u s))"
  using ext_inv_reachable [OF assms] by (simp add: ext_inv_def)

definition demo_ext_env :: ext_env where
  "demo_ext_env = \<lparr>ee_currentMode = ''user'', ee_parentMode = None, ee_modeExtensions = Some [],
     ee_disableUser = False, ee_disableVersionCheck = True, ee_writable = (\<lambda>k. True), ee_major = ''48'',
     ee_variant = ''dark'', ee_sheet = (\<lambda>u n. Some (n = ''stylesheet.css'')), ee_hasExtensionJs = (\<lambda>u. True),
     ee_import = (\<lambda>tr u. True), ee_construct = (\<lambda>tr u. True), ee_enable = (\<lambda>tr u. True), ee_enableRejects = (\<lambda>tr u. False),
     ee_disable = (\<lambda>tr u. True)\<rparr>"

definition demo_meta :: ext_meta where
  "demo_meta = \<lparr>xm_version = Some ''1'', xm_shellVersions = [''48''], xm_sessionModes = None, xm_hasPrefs = False\<rparr>"

lemmas ext_eval = loadExtension_def createExtensionObject_def callExtensionInit_def callExtensionEnable_def
  extensionSupportsSessionMode_def loadExtensionStylesheet_def changeExtensionState_def updateCanChange_def
  getModeExtensions_def canLoad_def state_of_def ext_update_def em_do_def lookup_def Let_def
  demo_ext_env_def demo_meta_def

definition demo_new :: ext_manager where
  "demo_new = onEnabledExtensionsChanged demo_ext_env (newExtensionManager [''a'', ''b''] [])"

definition demo_a :: ext_manager where
  "demo_a = loadExtension demo_ext_env ''a'' (createExtensionObject ''a'' demo_meta EXT_PER_USER demo_new)"

definition demo_manager :: ext_manager where
  "demo_manager = loadExtension demo_ext_env ''b'' (createExtensionObject ''b'' demo_meta EXT_PER_USER demo_a)"

lemma demo_new_simp: "demo_new = (newExtensionManager [''a'', ''b''] [])\<lparr>em_enabled := [''a'', ''b'']\<rparr>"
  by (simp add: demo_new_def onEnabledExtensionsChanged_def getEnabledExtensions_def newExtensionManager_def
      sessionModesCount_def ext_eval)

abbreviation demo_ext :: extension where
  "demo_ext \<equiv> \<lparr>x_type = EXT_PER_USER, x_version = Some ''1'', x_shellVersions = [''48''],
     x_sessionModes = [''user''], x_hasPrefs = False, x_state = Some ST_ACTIVE, x_enabled = True,
     x_hasUpdate = False, x_canChange = True, x_hasStateObj = True, x_isImported = True,
     x_stylesheet = Some ''stylesheet.css'', x_error = [], x_errors = []\<rparr>"

lemma demo_a_simp: "demo_a = \<lparr>em_extensions = [(''a'', demo_ext)], em_unloaded = [], em_enabled = [''a'', ''b''],
    em_order = [''a''], em_checkVersion = False, em_updateNotified = False, em_updateInProgress = False,
    em_updatedUUIDS = [], em_initialized = False, em_loaded = False, em_enabledSetting = [''a'', ''b''], em_disabledSetting = [],
    em_trace = [EmitState ''a'' (Some ST_INACTIVE), EmitState ''a'' (Some ST_ACTIVATING),
      LoadStylesheet ''a'' ''stylesheet.css'', CallEnable ''a'', EmitState ''a'' (Some ST_ACTIVE),
      EmitState ''a'' (Some ST_ACTIVE)]\<rparr>"
  by (simp add: demo_a_def demo_new_simp newExtensionManager_def ext_eval)

lemma demo_manager_simp: "demo_manager = demo_a
    \<lparr>em_extensions := [(''a'', demo_ext), (''b'', demo_ext)], em_order := [''a'', ''b''],
     em_trace := em_trace demo_a @ [EmitState ''b'' (Some ST_INACTIVE), EmitState ''b'' (Some ST_ACTIVATING),
      LoadStylesheet ''b'' ''stylesheet.css'', CallEnable ''b'', EmitState ''b'' (Some ST_ACTIVE),
      EmitState ''b'' (Some ST_ACTIVE)]\<rparr>"
  by (simp add: demo_manager_def demo_a_simp ext_eval)

lemma well_behaved_demo: "well_behaved (\<lambda>u. True) demo_ext_env"
  by (simp add: well_behaved_def demo_ext_env_def)

lemma demo_manager_reachable: "ext_reachable (\<lambda>u. True) demo_manager"
proof -
  have "ext_reachable (\<lambda>u. True) demo_new"
    unfolding demo_new_def
    by (rule ext_reachable.stepped [OF ext_reachable.created
          ext_step.enabled_changed [OF well_behaved_demo, unfolded alone_simps fst_conv]])
  then have "ext_reachable (\<lambda>u. True) demo_a"
    unfolding demo_a_def
    by (rule ext_reachable.stepped) (rule ext_step.install [OF well_behaved_demo, unfolded alone_simps fst_conv],
      simp add: demo_new_simp lookup_def newExtensionManager_def)
  then show ?thesis
    unfolding demo_manager_def
    by (rule ext_reachable.stepped) (rule ext_step.install [OF well_behaved_demo, unfolded alone_simps fst_conv], simp add: demo_a_simp lookup_def)
qed

theorem extensions_run_as_stack_witness:
  "running (\<lambda>u. True) (em_trace demo_manager) = Some [''a'', ''b''] \<and> state_of ''b'' demo_manager = Some ST_ACTIVE"
proof -
  have order: "em_order demo_manager = [''a'', ''b'']" by (simp add: demo_manager_simp)
  have "''b'' \<in> set (em_order demo_manager)" by (simp add: order)
  then show ?thesis using extensions_run_as_stack [OF demo_manager_reachable] order by metis
qed

subsection \<open>The session mode\<close>

lemma callDisable_modes:
  assumes "well_behaved ok env" and "ext_inv ok s"
  shows "extensionSupportsSessionMode env' v (callExtensionDisable env u s) = extensionSupportsSessionMode env' v s"
    and "set (em_order (callExtensionDisable env u s)) = set (em_order s) - {u}"
    and "em_enabled (callExtensionDisable env u s) = em_enabled s"
proof -
  have "extensionSupportsSessionMode env' v (callExtensionDisable env u s) = extensionSupportsSessionMode env' v s
    \<and> set (em_order (callExtensionDisable env u s)) = set (em_order s) - {u}
    \<and> em_enabled (callExtensionDisable env u s) = em_enabled s"
  proof (cases "state_of u s = Some ST_ACTIVE")
    case True
    note eff = callExtensionDisable_effect [OF assms True]
    show ?thesis
      using ext_invD(1) [OF assms(2)]
      by (cases "lookup v s") (auto simp: eff extensionSupportsSessionMode_def split: option.split)
  next
    case False
    then show ?thesis using ext_inv_not_active [OF assms(2)] by (simp add: callExtensionDisable_def)
  qed
  then show "extensionSupportsSessionMode env' v (callExtensionDisable env u s) = extensionSupportsSessionMode env' v s"
    and "set (em_order (callExtensionDisable env u s)) = set (em_order s) - {u}"
    and "em_enabled (callExtensionDisable env u s) = em_enabled s" by blast+
qed

lemma fold_disable_modes:
  assumes "well_behaved ok env" and "ext_inv ok s"
  shows "ext_inv ok (fold (callExtensionDisable env) us s)
    \<and> extensionSupportsSessionMode env' v (fold (callExtensionDisable env) us s) = extensionSupportsSessionMode env' v s
    \<and> set (em_order (fold (callExtensionDisable env) us s)) = set (em_order s) - set us"
  using assms(2)
proof (induction us arbitrary: s)
  case (Cons u us)
  have "ext_inv ok (callExtensionDisable env u s)" using ext_inv_disable [OF assms(1) Cons.prems] .
  from Cons.IH [OF this] callDisable_modes [OF assms(1) Cons.prems] show ?case by auto
qed simp

lemma callEnable_modes:
  "extensionSupportsSessionMode env' v (callExtensionEnable env u s) = extensionSupportsSessionMode env' v s"
  "set (em_order (callExtensionEnable env u s)) \<subseteq> insert u (set (em_order s))"
  "\<not> extensionSupportsSessionMode env u s \<Longrightarrow> callExtensionEnable env u s = s"
proof -
  have init: "map_option x_sessionModes (lookup v (snd (callExtensionInit env u s))) = map_option x_sessionModes (lookup v s)" for s
    by (cases "lookup v s") (auto simp: callExtensionInit_def Let_def)
  have sheet: "map_option x_sessionModes (lookup v (snd (loadExtensionStylesheet env u s))) = map_option x_sessionModes (lookup v s)" for s
    by (cases "lookup v s")
      (auto simp: loadExtensionStylesheet_def simp del: first_sheet.simps split: prod.split option.split)
  have simps: "map_option x_sessionModes (lookup v (changeExtensionState u st s)) = map_option x_sessionModes (lookup v s)"
    "map_option x_sessionModes (lookup v (logExtensionError u m s)) = map_option x_sessionModes (lookup v s)"
    "map_option x_sessionModes (lookup v (unloadExtensionStylesheet u s)) = map_option x_sessionModes (lookup v s)" for st m s
    by (cases "lookup v s"; auto)+
  have "map_option x_sessionModes (lookup v (callExtensionEnable env u s)) = map_option x_sessionModes (lookup v s)"
    using init [of s] sheet [of "changeExtensionState u ST_ACTIVATING s"]
      sheet [of "changeExtensionState u ST_ACTIVATING (snd (callExtensionInit env u s))"]
    by (simp add: callExtensionEnable_def Let_def split_def simps del: changeExtensionState_simps
        logExtensionError_simps unloadSheet_simps)
  moreover have "extensionSupportsSessionMode env' v s = (case map_option x_sessionModes (lookup v s) of
      None \<Rightarrow> False | Some ms \<Rightarrow> ee_currentMode env' \<in> set ms
        \<or> (case ee_parentMode env' of None \<Rightarrow> False | Some p \<Rightarrow> p \<in> set ms))" for s
    by (simp add: extensionSupportsSessionMode_def split: option.split)
  ultimately show "extensionSupportsSessionMode env' v (callExtensionEnable env u s) = extensionSupportsSessionMode env' v s"
    by (simp only:)
  show "set (em_order (callExtensionEnable env u s)) \<subseteq> insert u (set (em_order s))"
    by (auto simp: callExtensionEnable_def Let_def split_def loadSheet_frame init_frame)
  show "callExtensionEnable env u s = s" if "\<not> extensionSupportsSessionMode env u s"
    using that by (simp add: callExtensionEnable_def)
qed

text \<open>Looking at all extensions to set their \<open>enabled\<close> flag changes neither the modes nor the order.\<close>

lemma updateFlag_modes:
  "extensionSupportsSessionMode env v (fold (updateEnabledFlag new) us s) = extensionSupportsSessionMode env v s
   \<and> em_order (fold (updateEnabledFlag new) us s) = em_order s
   \<and> em_enabled (fold (updateEnabledFlag new) us s) = em_enabled s"
proof (induction us arbitrary: s)
  case (Cons u us)
  have "extensionSupportsSessionMode env v (updateEnabledFlag new u s) = extensionSupportsSessionMode env v s"
    by (cases "lookup u s"; cases "lookup v s")
      (auto simp: updateEnabledFlag_def Let_def extensionSupportsSessionMode_def split: option.split)
  moreover have "em_order (updateEnabledFlag new u s) = em_order s" "em_enabled (updateEnabledFlag new u s) = em_enabled s"
    by (auto simp: updateEnabledFlag_def Let_def split: option.split)
  ultimately show ?case using Cons.IH [of "updateEnabledFlag new u s"] by simp
qed simp

lemma fold_enable_modes:
  "\<forall>u\<in>set us. P u \<and> extensionSupportsSessionMode env u s \<Longrightarrow>
   \<forall>u\<in>set (em_order s). P u \<and> extensionSupportsSessionMode env u s \<Longrightarrow>
   \<forall>u\<in>set (em_order (fold (callExtensionEnable env) us s)).
     P u \<and> extensionSupportsSessionMode env u (fold (callExtensionEnable env) us s)"
proof (induction us arbitrary: s)
  case (Cons u us)
  have order: "\<forall>v\<in>set (em_order (callExtensionEnable env u s)). P v \<and> extensionSupportsSessionMode env v (callExtensionEnable env u s)"
    using Cons.prems callEnable_modes(1) [of env _ env u s] callEnable_modes(2) [of env u s] by fastforce
  have rest: "\<forall>v\<in>set us. P v \<and> extensionSupportsSessionMode env v (callExtensionEnable env u s)"
    using Cons.prems callEnable_modes(1) by simp
  show ?case using Cons.IH [OF rest order] unfolding fold_Cons comp_apply .
qed simp

lemma ext_inv_flags:
  "ext_inv ok s \<Longrightarrow> ext_inv ok (fold (updateEnabledFlag new) us s)"
proof (rule fold_inv [where P = "ext_inv ok"])
  show "ext_inv ok (updateEnabledFlag new u s)" if "ext_inv ok s" for u s
    using that by (auto simp: updateEnabledFlag_def Let_def intro!: ext_inv_do ext_inv_update split: option.split)
qed

text \<open>After the session mode or the settings have changed, every extension that still runs
  is enabled by the new settings and supports the new session mode: on the lock screen only
  extensions that declare it are left.\<close>

theorem only_supported_extensions_run:
  assumes "ext_reachable ok s" and "well_behaved ok env"
  shows "\<forall>u\<in>set (em_order (onEnabledExtensionsChanged env s)).
    u \<in> set (getEnabledExtensions env s)
    \<and> extensionSupportsSessionMode env u (onEnabledExtensionsChanged env s)"
proof -
  define new where "new = getEnabledExtensions env s"
  define s1 where "s1 = fold (updateEnabledFlag new) (jm_keys (em_extensions s)) s"
  define dis where "dis = rev (filter (\<lambda>u. u \<notin> set new \<or> \<not> extensionSupportsSessionMode env u s1) (em_order s1))"
  define s2 where "s2 = fold (callExtensionDisable env) dis s1"
  define en where "en = filter (\<lambda>u. u \<notin> set (em_enabled s2) \<and> extensionSupportsSessionMode env u s2) new"
  define s3 where "s3 = fold (callExtensionEnable env) en s2"
  have res: "onEnabledExtensionsChanged env s = s3\<lparr>em_enabled := new\<rparr>"
    by (simp add: onEnabledExtensionsChanged_def Let_def new_def s1_def s2_def s3_def dis_def en_def)
  have inv1: "ext_inv ok s1" using ext_inv_flags [OF ext_inv_reachable [OF assms(1)]] by (simp add: s1_def)
  have "\<forall>u\<in>set (em_order s2). u \<in> set new \<and> extensionSupportsSessionMode env u s2"
    using fold_disable_modes [OF assms(2) inv1, of dis env] by (auto simp: s2_def dis_def)
  then have "\<forall>u\<in>set (em_order s3). u \<in> set new \<and> extensionSupportsSessionMode env u s3"
    unfolding s3_def by (intro fold_enable_modes) (auto simp: en_def)
  then show ?thesis by (simp add: res new_def extensionSupportsSessionMode_def)
qed

definition lock_env :: ext_env where
  "lock_env = demo_ext_env\<lparr>ee_currentMode := ''unlock-dialog''\<rparr>"

lemma lock_enabled: "getEnabledExtensions lock_env demo_manager = [''a'', ''b'']"
  by (simp add: getEnabledExtensions_def lock_env_def demo_manager_simp demo_a_simp sessionModesCount_def ext_eval)

theorem only_supported_extensions_run_witness:
  "em_order demo_manager = [''a'', ''b'']
   \<and> set (em_order (onEnabledExtensionsChanged lock_env demo_manager)) \<subseteq> {''a'', ''b''}"
proof -
  have wb: "well_behaved (\<lambda>u. True) lock_env" by (simp add: lock_env_def well_behaved_def demo_ext_env_def)
  show ?thesis
    using only_supported_extensions_run [OF demo_manager_reachable wb] unfolding lock_enabled
    by (auto simp: demo_manager_simp)
qed

subsection \<open>Settings and versions\<close>

lemma enabled_iff:
  "u \<in> set (getEnabledExtensions env s) \<longleftrightarrow> u \<notin> set (em_disabledSetting s)
     \<and> (u \<in> set (getModeExtensions env) \<or> \<not> ee_disableUser env \<and> u \<in> set (em_enabledSetting s))"
  by (auto simp: getEnabledExtensions_def Let_def)

text \<open>\<open>enableExtension\<close> and \<open>disableExtension\<close> on a known extension put it into, and take it
  out of, the enabled extensions, the disabled list taking precedence over the session mode's;
  the status of every other extension stays as it is.\<close>

theorem enable_disable_settings:
  assumes "jm_has (em_extensions s) u" and "\<not> ee_disableUser env"
  shows "fst (enableExtension u s) \<and> fst (disableExtension u s)
    \<and> u \<in> set (getEnabledExtensions env (snd (enableExtension u s)))
    \<and> u \<notin> set (getEnabledExtensions env (snd (disableExtension u s)))
    \<and> (\<forall>v. v \<noteq> u \<longrightarrow> (v \<in> set (getEnabledExtensions env (snd (enableExtension u s))))
          = (v \<in> set (getEnabledExtensions env s)))
    \<and> (\<forall>v. v \<noteq> u \<longrightarrow> (v \<in> set (getEnabledExtensions env (snd (disableExtension u s))))
          = (v \<in> set (getEnabledExtensions env s)))"
  using assms by (auto simp: enabled_iff enableExtension_def disableExtension_def Let_def)

theorem enable_disable_settings_witness:
  "''a'' \<notin> set (getEnabledExtensions demo_ext_env (snd (disableExtension ''a'' demo_manager)))"
  using enable_disable_settings [of demo_manager "''a''" demo_ext_env]
  by (simp add: demo_manager_simp demo_ext_env_def)

text \<open>Once an imported user extension has been unloaded, an extension object of another
  version is not run: loading it ends in ERROR without calling its code.\<close>

theorem other_version_not_loaded:
  assumes "lookup u (callExtensionDisable env u s) = Some e"
    and "x_type e = EXT_PER_USER" and "x_isImported e" and "xm_version m \<noteq> x_version e"
    and "\<not> em_checkVersion (unloadExtension env u s)"
  shows "let s1 = createExtensionObject u m t (unloadExtension env u s); s2 = loadExtension env' u s1 in
      state_of u s2 = Some ST_ERROR
    \<and> CallEnable u \<notin> set (drop (length (em_trace s1)) (em_trace s2)) \<and> em_order s2 = em_order s1"
proof -
  define s1 where "s1 = createExtensionObject u m t (unloadExtension env u s)"
  have "jm_get (em_unloaded (unloadExtension env u s)) u = Some (x_version e)"
    using assms(1-3) by (simp add: unloadExtension_def Let_def)
  then have un: "jm_get (em_unloaded s1) u = Some (x_version e)"
    by (simp add: s1_def createExtensionObject_def)
  have cv: "\<not> em_checkVersion s1" using assms(5) by (simp add: s1_def createExtensionObject_def)
  obtain e' where e': "lookup u s1 = Some e'" "x_version e' = xm_version m"
    by (simp add: s1_def createExtensionObject_def lookup_def)
  have "canLoad u (e'\<lparr>x_state := Some ST_ERROR\<rparr>) (ext_update u (\<lambda>e. e\<lparr>x_state := Some ST_ERROR\<rparr>) s1) = False"
    using un e'(2) assms(4) by (simp add: canLoad_def)
  then show ?thesis
    unfolding s1_def [symmetric]
    using e'(1) cv by (simp add: loadExtension_def Let_def updateCanChange_def logExtensionError_def state_of_def)
qed

theorem other_version_not_loaded_witness:
  "state_of ''b'' (loadExtension demo_ext_env ''b'' (createExtensionObject ''b'' (demo_meta\<lparr>xm_version := Some ''2''\<rparr>)
      EXT_PER_USER (unloadExtension demo_ext_env ''b'' demo_manager))) = Some ST_ERROR"
proof -
  have act: "state_of ''b'' demo_manager = Some ST_ACTIVE"
    by (simp add: state_of_def lookup_def demo_manager_simp)
  have look: "lookup ''b'' (callExtensionDisable demo_ext_env ''b'' demo_manager)
      = Some (demo_ext\<lparr>x_state := Some ST_INACTIVE, x_stylesheet := None\<rparr>)"
    unfolding callExtensionDisable_effect(3) [OF well_behaved_demo ext_inv_reachable [OF demo_manager_reachable] act]
    by (simp add: lookup_def demo_manager_simp)
  have cv: "\<not> em_checkVersion (unloadExtension demo_ext_env ''b'' demo_manager)"
    by (simp add: unloadExtension_def callExtensionDisable_def tryDisable_def tryEnable_def demo_manager_simp
        demo_a_simp unloadExtensionStylesheet_def js_slice_def js_clamp_index_def js_splice1_def ext_eval)
  show ?thesis
    using other_version_not_loaded [OF look _ _ _ cv, of "demo_meta\<lparr>xm_version := Some ''2''\<rparr>" EXT_PER_USER demo_ext_env]
    by (simp add: Let_def)
qed

subsection \<open>When disabling throws\<close>

text \<open>The first call of \<open>disable()\<close> of \<open>b\<close> throws.\<close>

definition throw_env :: ext_env where
  "throw_env = demo_ext_env\<lparr>ee_disable := (\<lambda>tr u. u = ''a'' \<or> CallDisable ''b'' \<in> set tr)\<rparr>"

definition is_call_of :: "string \<Rightarrow> ext_call \<Rightarrow> bool" where
  "is_call_of u c \<longleftrightarrow> c = CallEnable u \<or> c = CallDisable u"

text \<open>When another extension is disabled and \<open>b\<close>, disabled with it for a moment, throws, \<open>b\<close>
  is marked as ERROR but enabled again: from then on it runs, and disabling it does nothing.\<close>

theorem throwing_extension_cannot_be_disabled:
  "let s1 = callExtensionDisable throw_env ''a'' demo_manager in
      state_of ''b'' s1 = Some ST_ERROR \<and> em_order s1 = [''b'']
    \<and> filter (is_call_of ''b'') (em_trace s1) = [CallEnable ''b'', CallDisable ''b'', CallEnable ''b'']
    \<and> callExtensionDisable throw_env ''b'' s1 = s1"
proof -
  define s1 where "s1 = callExtensionDisable throw_env ''a'' demo_manager"
  have "state_of ''b'' s1 = Some ST_ERROR \<and> em_order s1 = [''b'']
    \<and> filter (is_call_of ''b'') (em_trace s1) = [CallEnable ''b'', CallDisable ''b'', CallEnable ''b'']"
    by (simp add: s1_def callExtensionDisable_def tryDisable_def tryEnable_def demo_manager_simp demo_a_simp
        unloadExtensionStylesheet_def js_slice_def js_clamp_index_def js_splice1_def logExtensionError_def
        throw_env_def is_call_of_def ext_eval)
  moreover from this have "callExtensionDisable throw_env ''b'' s1 = s1"
    by (simp add: callExtensionDisable_def)
  ultimately show ?thesis unfolding s1_def [symmetric] Let_def by blast
qed

subsection \<open>When operations overlap\<close>

text \<open>
  Three extensions, \<open>a\<close>, \<open>b\<close> and \<open>c\<close>, run. \<open>a\<close> is disabled, and while the call waits for
  \<open>enable()\<close> of \<open>b\<close>, \<open>b\<close> is disabled too; then both calls end. After them \<open>c\<close> is disabled.
\<close>

definition demo_three :: ext_manager where
  "demo_three = loadExtension demo_ext_env ''c'' (createExtensionObject ''c'' demo_meta EXT_PER_USER
     (demo_manager\<lparr>em_enabled := [''a'', ''b'', ''c'']\<rparr>))"

definition overlap_run :: "ext_manager \<times> unit ext_task list" where
  "overlap_run = fold (pool_step demo_ext_env)
     [StartOp (callExtensionDisableAsync ''a''), StartOp (callExtensionDisableAsync ''b''),
      ResumeOp 0, ResumeOp 0, ResumeOp 1] (demo_three, [])"

lemma demo_three_simp: "demo_three = demo_a
    \<lparr>em_extensions := [(''a'', demo_ext), (''b'', demo_ext), (''c'', demo_ext)],
     em_enabled := [''a'', ''b'', ''c''], em_order := [''a'', ''b'', ''c''],
     em_trace := em_trace demo_manager @ [EmitState ''c'' (Some ST_INACTIVE), EmitState ''c'' (Some ST_ACTIVATING),
      LoadStylesheet ''c'' ''stylesheet.css'', CallEnable ''c'', EmitState ''c'' (Some ST_ACTIVE),
      EmitState ''c'' (Some ST_ACTIVE)]\<rparr>"
  by (simp add: demo_three_def demo_manager_simp demo_a_simp ext_eval)

lemmas overlap_eval = callExtensionDisableAsync_def tryEnableAsync_def tryDisable_def and_then_def finish_def
  unloadExtensionStylesheet_def js_slice_def js_clamp_index_def js_splice1_def

text \<open>\<open>disable()\<close> and \<open>enable()\<close> of \<open>c\<close> have been called twice in a row, and the second call has
  taken \<open>c\<close> out of the order in the place of \<open>b\<close>.\<close>

theorem overlapping_disables:
  "filter (is_call_of ''c'') (em_trace (fst overlap_run))
     = [CallEnable ''c'', CallDisable ''c'', CallDisable ''c'', CallEnable ''c'', CallEnable ''c'']
   \<and> em_order (fst overlap_run) = [''b'']
   \<and> state_of ''b'' (fst overlap_run) = Some ST_INACTIVE \<and> state_of ''c'' (fst overlap_run) = Some ST_ACTIVE
   \<and> snd overlap_run = [Done (), Done ()]"
  by (simp add: overlap_run_def demo_three_simp demo_manager_simp demo_a_simp overlap_eval is_call_of_def ext_eval)

text \<open>Disabling \<open>c\<close> then enables \<open>b\<close>, which has been disabled.\<close>

theorem overlapping_disables_revive:
  "let s = alone (callExtensionDisableAsync ''c'') demo_ext_env (fst overlap_run) in
     last (filter (is_call_of ''b'') (em_trace s)) = CallEnable ''b''
   \<and> state_of ''b'' s = Some ST_INACTIVE \<and> em_order s = []"
  unfolding alone_simps fst_conv
  by (simp add: callExtensionDisable_def tryEnable_def overlap_run_def demo_three_simp demo_manager_simp demo_a_simp
      overlap_eval is_call_of_def ext_eval)

end
