(* ===== verification/SessionMode.thy ===== *)
theory SessionMode
  imports Prelude
begin

section \<open>Session modes (\<open>js/ui/sessionMode.js\<close>)\<close>

text \<open>
  The table of session modes, the modes loaded from JSON files of the data directories, and the
  stack of modes of a \<open>SessionMode\<close> with the properties it takes over from the mode on top. A
  property of a mode is \<open>None\<close> where the source writes \<open>undefined\<close>. What
  \<open>FileUtils.collectFromDatadirs\<close> found and what reading each file gave (\<open>None\<close>: it cannot be
  read or parsed) is an argument, as are \<open>Config.HAVE_NETWORKMANAGER\<close> and how JavaScript prints a
  number (\<open>num\<close>). The object the source calls \<open>_modes\<close> is \<open>modes\<close>.
\<close>

datatype mode_value = MV json | MClass string    \<comment> \<open>a JSON value or a class\<close>

type_synonym mode = "(string, mode_value option) jsmap"

type_synonym modes = "(string, mode) jsmap"

definition DEFAULT_MODE :: string where
  "DEFAULT_MODE = ''restrictive''"

abbreviation flag :: "string \<Rightarrow> bool \<Rightarrow> string \<times> mode_value option" where
  "flag k b \<equiv> (k, Some (MV (JBool b)))"

abbreviation names :: "string \<Rightarrow> string list \<Rightarrow> string \<times> mode_value option" where
  "names k xs \<equiv> (k, Some (MV (JArr (map JStr xs))))"

abbreviation panel :: "string list \<Rightarrow> string list \<Rightarrow> string \<times> mode_value option" where
  "panel left right \<equiv> (''panel'', Some (MV (JObj [(''left'', JArr (map JStr left)),
     (''center'', JArr []), (''right'', JArr (map JStr right))])))"

definition restrictive :: mode where
  "restrictive =
     [(''parentMode'', Some (MV JNull)), (''stylesheetName'', Some (MV (JStr ''gnome-shell.css''))),
      (''colorScheme'', Some (MV (JStr ''prefer-dark''))),
      (''themeResourceName'', Some (MV (JStr ''gnome-shell-theme.gresource''))),
      flag ''hasOverview'' False, flag ''showCalendarEvents'' False, flag ''showWelcomeDialog'' False,
      flag ''allowSettings'' False, flag ''allowScreencast'' False, names ''enabledExtensions'' [],
      flag ''hasRunDialog'' False, flag ''hasWorkspaces'' False, flag ''hasWindows'' False,
      flag ''hasNotifications'' False, flag ''hasWmMenus'' False, flag ''isLocked'' False,
      flag ''isGreeter'' False, flag ''isPrimary'' False, (''unlockDialog'', Some (MV JNull)),
      names ''components'' [], panel [] [], (''panelStyle'', Some (MV JNull)),
      flag ''hasBottomPanel'' False]"

definition gdm_mode :: "bool \<Rightarrow> mode" where
  "gdm_mode nm =
     [flag ''hasNotifications'' True, flag ''isGreeter'' True, flag ''isPrimary'' True,
      (''unlockDialog'', Some (MClass ''LoginDialog'')),
      names ''components'' (if nm then [''networkAgent'', ''polkitAgent''] else [''polkitAgent'']),
      panel [''dateMenu''] [''dwellClick'', ''keyboard'', ''quickSettings''],
      (''panelStyle'', Some (MV (JStr ''login-screen''))), flag ''hasBottomPanel'' False]"

definition unlock_dialog :: mode where
  "unlock_dialog =
     [flag ''hasNotifications'' True, flag ''isLocked'' True, (''unlockDialog'', None),
      names ''components'' [''polkitAgent''],
      panel [] [''dwellClick'', ''a11y'', ''keyboard'', ''quickSettings''],
      (''panelStyle'', Some (MV (JStr ''unlock-screen''))), flag ''hasBottomPanel'' False]"

definition USER_SESSION_COMPONENTS :: "bool \<Rightarrow> string list" where
  "USER_SESSION_COMPONENTS nm = [''polkitAgent'', ''keyring'', ''autorunManager'', ''automountManager'']
     @ (if nm then [''networkAgent''] else [])"

definition user_mode :: "bool \<Rightarrow> mode" where
  "user_mode nm =
     [flag ''hasOverview'' True, flag ''showCalendarEvents'' True, flag ''showWelcomeDialog'' True,
      flag ''allowSettings'' True, flag ''allowScreencast'' True, flag ''hasRunDialog'' True,
      flag ''hasWorkspaces'' True, flag ''hasWindows'' True, flag ''hasWmMenus'' True,
      flag ''hasNotifications'' True, flag ''isLocked'' False, flag ''isPrimary'' True,
      (''unlockDialog'', Some (MClass ''UnlockDialog'')),
      names ''components'' (USER_SESSION_COMPONENTS nm),
      panel [''activities'', ''dateMenu'']
        [''screenRecording'', ''screenSharing'', ''dwellClick'', ''a11y'', ''keyboard'', ''quickSettings''],
      flag ''hasBottomPanel'' True]"

definition builtin_modes :: "bool \<Rightarrow> modes" where
  "builtin_modes nm = [(''restrictive'', restrictive), (''gdm'', gdm_mode nm),
     (''unlock-dialog'', unlock_dialog), (''user'', user_mode nm)]"

subsection \<open>Loading modes from files\<close>

text \<open>The position of a string in another (\<open>-1\<close>: it does not occur).\<close>

fun js_indexOfString :: "string \<Rightarrow> string \<Rightarrow> int" where
  "js_indexOfString p [] = (if p = [] then 0 else -1)"
| "js_indexOfString p (x # xs) =
     (if take (length p) (x # xs) = p then 0
      else (let i = js_indexOfString p xs in if i < 0 then -1 else i + 1))"

text \<open>
  \<open>name.slice(name, suffix)\<close>: a first argument that does not read as a number counts as 0, and no
  name that contains \<open>.json\<close> does.
\<close>

definition modeNameOf :: "string \<Rightarrow> string" where
  "modeNameOf name =
     (let suffix = js_indexOfString ''.json'' name
      in if suffix = -1 then name else js_slice name 0 suffix)"

text \<open>The object a loaded file becomes: the properties of the default mode it gives, and primary.\<close>

definition loadedMode :: "modes \<Rightarrow> json \<Rightarrow> mode" where
  "loadedMode modes newMode =
     jm_set (fold (\<lambda>prop m. case json_field newMode prop of
                 Some v \<Rightarrow> if prop \<notin> {''unlockDialog''} then jm_set m prop (Some (MV v)) else m
               | None \<Rightarrow> m)
        (jm_keys (or_else (jm_get modes DEFAULT_MODE) [])) [])
       ''isPrimary'' (Some (MV (JBool True)))"

text \<open>The table, and whether loading went on: a file that holds \<open>null\<close> raises a \<open>TypeError\<close>.\<close>

definition loadMode :: "string \<times> json option \<Rightarrow> modes \<Rightarrow> modes \<times> bool" where
  "loadMode = (\<lambda>(name, content) modes.
     let modeName = modeNameOf name
     in if jm_has modes modeName then (modes, True)
        else (case content of
                None \<Rightarrow> (modes, True)
              | Some JNull \<Rightarrow> (jm_set modes modeName [], False)
              | Some newMode \<Rightarrow> (jm_set modes modeName (loadedMode modes newMode), True)))"

fun loadModes :: "(string \<times> json option) list \<Rightarrow> modes \<Rightarrow> modes \<times> bool" where
  "loadModes [] modes = (modes, True)"
| "loadModes (f # fs) modes =
     (let (modes', ok) = loadMode f modes in if ok then loadModes fs modes' else (modes', False))"

fun mode_value_truthy :: "mode_value option option \<Rightarrow> bool" where
  "mode_value_truthy (Some (Some (MV v))) = json_truthy (Some v)"
| "mode_value_truthy (Some (Some (MClass c))) = True"
| "mode_value_truthy _ = False"

definition listModes :: "modes \<Rightarrow> string list" where
  "listModes modes = [n \<leftarrow> jm_keys modes. mode_value_truthy (jm_get (or_else (jm_get modes n) []) ''isPrimary'')]"

subsection \<open>The stack of modes\<close>

text \<open>A JSON value used as the name of a property.\<close>

fun property_key :: "(real \<Rightarrow> string) \<Rightarrow> json \<Rightarrow> string" where
  "property_key num JNull = ''null''"
| "property_key num (JBool b) = (if b then ''true'' else ''false'')"
| "property_key num (JNum x) = num x"
| "property_key num (JStr s) = s"
| "property_key num (JArr xs) = js_join '','' (map (\<lambda>x. if x = JNull then [] else property_key num x) xs)"
| "property_key num (JObj fs) = ''[object Object]''"

datatype mode_error = ModeTypeError | InvalidPopMode

record session_mode =
  modeStack :: "string list"
  sm_props :: "(string, mode_value) jsmap"    \<comment> \<open>the properties copied from the modes\<close>
  sm_updated :: nat                           \<comment> \<open>how often \<open>updated\<close> was emitted\<close>

definition currentMode :: "session_mode \<Rightarrow> string" where
  "currentMode s = last (modeStack s)"

text \<open>\<open>{...a, ...b}\<close>\<close>

definition js_spread :: "('k, 'v) jsmap \<Rightarrow> ('k, 'v) jsmap \<Rightarrow> ('k, 'v) jsmap" where
  "js_spread a b = fold (\<lambda>(k, v) m. jm_set m k v) b a"

definition mode_parent :: "(real \<Rightarrow> string) \<Rightarrow> modes \<Rightarrow> mode \<Rightarrow> mode" where
  "mode_parent num modes current =
     (let restr = or_else (jm_get modes DEFAULT_MODE) []
      in case jm_get current ''parentMode'' of
           Some (Some (MV v)) \<Rightarrow>
             if json_truthy (Some v)
             then js_spread restr (or_else (jm_get modes (property_key num v)) []) else restr
         | _ \<Rightarrow> restr)"

definition mode_params :: "(real \<Rightarrow> string) \<Rightarrow> modes \<Rightarrow> mode \<Rightarrow> mode" where
  "mode_params num modes current = js_spread (mode_parent num modes current) current"

definition copyParams :: "mode \<Rightarrow> (string, mode_value) jsmap \<Rightarrow> (string, mode_value) jsmap" where
  "copyParams params props =
     fold (\<lambda>(k, v) m. case v of None \<Rightarrow> m | Some x \<Rightarrow> jm_set m k x) params props"

definition sync_mode :: "(real \<Rightarrow> string) \<Rightarrow> modes \<Rightarrow> session_mode \<Rightarrow> session_mode \<times> mode_error option" where
  "sync_mode num modes s =
     (case jm_get modes (currentMode s) of
        None \<Rightarrow> (s, Some ModeTypeError)
      | Some current \<Rightarrow>
          (s\<lparr>sm_props := copyParams (mode_params num modes current) (sm_props s),
             sm_updated := sm_updated s + 1\<rparr>, None))"

definition pushMode :: "(real \<Rightarrow> string) \<Rightarrow> modes \<Rightarrow> string \<Rightarrow> session_mode \<Rightarrow> session_mode \<times> mode_error option" where
  "pushMode num modes m s = sync_mode num modes (s\<lparr>modeStack := modeStack s @ [m]\<rparr>)"

definition popMode :: "(real \<Rightarrow> string) \<Rightarrow> modes \<Rightarrow> string \<Rightarrow> session_mode \<Rightarrow> session_mode \<times> mode_error option" where
  "popMode num modes m s =
     (if currentMode s \<noteq> m \<or> length (modeStack s) = 1 then (s, Some InvalidPopMode)
      else sync_mode num modes (s\<lparr>modeStack := butlast (modeStack s)\<rparr>))"

definition switchMode :: "(real \<Rightarrow> string) \<Rightarrow> modes \<Rightarrow> string \<Rightarrow> session_mode \<Rightarrow> session_mode \<times> mode_error option" where
  "switchMode num modes to s =
     (if currentMode s = to then (s, None)
      else sync_mode num modes (s\<lparr>modeStack := (modeStack s)[length (modeStack s) - 1 := to]\<rparr>))"

definition newSessionMode :: "(real \<Rightarrow> string) \<Rightarrow> modes \<Rightarrow> string \<Rightarrow> session_mode \<times> mode_error option" where
  "newSessionMode num modes session =
     (let isPrimary = mode_value_truthy (jm_get (or_else (jm_get modes session) []) ''isPrimary'')
      in sync_mode num modes
           \<lparr>modeStack = [if isPrimary then session else ''user''], sm_props = [], sm_updated = 0\<rparr>)"

subsection \<open>What a mode gives\<close>

lemma js_spread_get:
  "distinct (map fst b) \<Longrightarrow> jm_get (js_spread a b) k = (if jm_has b k then jm_get b k else jm_get a k)"
proof (induction b arbitrary: a)
  case (Cons p b)
  obtain k' v where p: "p = (k', v)" by fastforce
  have "map_of b k' = None" using Cons.prems p by (simp add: map_of_eq_None_iff)
  then show ?case using Cons p by (auto simp: js_spread_def)
qed (simp add: js_spread_def)

lemma js_spread_distinct: "distinct (jm_keys a) \<Longrightarrow> distinct (jm_keys (js_spread a b))"
  by (induction b arbitrary: a) (auto simp: js_spread_def distinct_update)

lemma copyParams_get:
  "distinct (jm_keys ps) \<Longrightarrow> jm_get (copyParams ps props) k =
     (case jm_get ps k of Some (Some v) \<Rightarrow> Some v | _ \<Rightarrow> jm_get props k)"
proof (induction ps arbitrary: props)
  case (Cons p ps)
  obtain k' v where p: "p = (k', v)" by fastforce
  have "map_of ps k' = None" using Cons.prems p by (simp add: map_of_eq_None_iff)
  then show ?case using Cons p by (auto simp: copyParams_def split: option.split)
qed (simp add: copyParams_def)

text \<open>
  The tables the program works with: the built-in modes are there unchanged, and every other mode
  gives only properties of the default mode, once, and no dialog of its own.
\<close>

definition mode_ok :: "mode \<Rightarrow> bool" where
  "mode_ok m \<longleftrightarrow> distinct (jm_keys m) \<and> (\<forall>k. jm_has m k \<longrightarrow> jm_has restrictive k)"

definition modes_ok :: "bool \<Rightarrow> modes \<Rightarrow> bool" where
  "modes_ok nm modes \<longleftrightarrow>
     (\<forall>n. jm_has (builtin_modes nm) n \<longrightarrow> jm_get modes n = jm_get (builtin_modes nm) n)
     \<and> (\<forall>n m. jm_get modes n = Some m \<longrightarrow> mode_ok m
          \<and> (jm_has (builtin_modes nm) n \<or> \<not> jm_has m ''unlockDialog''))"

lemma restrictive_ok: "mode_ok restrictive" "jm_has restrictive ''isPrimary''" "jm_has restrictive ''unlockDialog''"
  by (simp_all add: mode_ok_def) (simp_all add: restrictive_def)

lemma builtin_modes_ok: "modes_ok nm (builtin_modes nm)"
proof -
  have "distinct (jm_keys (gdm_mode nm))" "distinct (jm_keys unlock_dialog)" "distinct (jm_keys (user_mode nm))"
    by (simp_all add: gdm_mode_def unlock_dialog_def user_mode_def)
  moreover have "jm_has (gdm_mode nm) k \<or> jm_has unlock_dialog k \<or> jm_has (user_mode nm) k \<Longrightarrow> jm_has restrictive k" for k
    by (auto simp: restrictive_def gdm_mode_def unlock_dialog_def user_mode_def split: if_splits)
  ultimately have "mode_ok (gdm_mode nm)" "mode_ok unlock_dialog" "mode_ok (user_mode nm)"
    by (simp_all add: mode_ok_def)
  then show ?thesis using restrictive_ok(1) by (auto simp: modes_ok_def builtin_modes_def split: if_splits)
qed

lemma modes_ok_default: "modes_ok nm modes \<Longrightarrow> jm_get modes DEFAULT_MODE = Some restrictive"
  by (simp add: modes_ok_def builtin_modes_def DEFAULT_MODE_def)

text \<open>What every mode made from a file satisfies.\<close>

definition own_mode_ok :: "mode \<Rightarrow> bool" where
  "own_mode_ok m \<longleftrightarrow> mode_ok m \<and> \<not> jm_has m ''unlockDialog''"

lemma own_mode_set:
  "own_mode_ok m \<Longrightarrow> jm_has restrictive k \<Longrightarrow> k \<noteq> ''unlockDialog'' \<Longrightarrow> own_mode_ok (jm_set m k v)"
  by (auto simp: own_mode_ok_def mode_ok_def distinct_update)

lemma loadedMode_ok:
  assumes "jm_get modes DEFAULT_MODE = Some restrictive"
  shows "own_mode_ok (loadedMode modes v)"
    and "jm_get (loadedMode modes v) ''isPrimary'' = Some (Some (MV (JBool True)))"
proof -
  let ?step = "\<lambda>prop m. case json_field v prop of
                 Some v \<Rightarrow> if prop \<notin> {''unlockDialog''} then jm_set m prop (Some (MV v)) else m | None \<Rightarrow> m"
  have steps: "own_mode_ok (fold ?step ps m)"
    if "own_mode_ok m" "\<forall>p\<in>set ps. jm_has restrictive p" for ps m
    using that
  proof (induction ps arbitrary: m)
    case (Cons p ps)
    have "own_mode_ok (?step p m)"
      using Cons.prems by (cases "json_field v p") (auto intro: own_mode_set)
    then show ?case using Cons.IH [of "?step p m"] Cons.prems(2) by simp
  qed simp
  have "\<forall>p\<in>set (jm_keys restrictive). jm_has restrictive p" by (simp add: jm_get_iff_key)
  moreover have "own_mode_ok []" by (simp add: own_mode_ok_def mode_ok_def)
  ultimately have "own_mode_ok (fold ?step (jm_keys restrictive) [])" by (intro steps)
  then show "own_mode_ok (loadedMode modes v)" using restrictive_ok(2)
    by (simp add: loadedMode_def assms own_mode_set)
  show "jm_get (loadedMode modes v) ''isPrimary'' = Some (Some (MV (JBool True)))"
    by (simp add: loadedMode_def)
qed

lemma modes_ok_add:
  "modes_ok nm modes \<Longrightarrow> jm_get modes n = None \<Longrightarrow> own_mode_ok m \<Longrightarrow> modes_ok nm (jm_set modes n m)"
  by (auto simp: modes_ok_def own_mode_ok_def)

lemma loadMode_ok:
  assumes "modes_ok nm modes"
  shows "modes_ok nm (fst (loadMode f modes))"
proof -
  have "own_mode_ok []" by (simp add: own_mode_ok_def mode_ok_def)
  with modes_ok_add [OF assms] loadedMode_ok(1) [OF modes_ok_default [OF assms]] assms show ?thesis
    by (cases f) (simp add: loadMode_def Let_def split: option.split json.split)
qed

lemma loadModes_ok: "modes_ok nm modes \<Longrightarrow> modes_ok nm (fst (loadModes fs modes))"
proof (induction fs arbitrary: modes)
  case (Cons f fs)
  then show ?case using loadMode_ok [OF Cons.prems, of f]
    by (simp add: split_def Let_def)
qed simp

lemma mode_parent_ok:
  assumes "modes_ok nm modes"
  shows "distinct (jm_keys (mode_parent num modes current))"
    and "jm_has (mode_parent num modes current) k \<longleftrightarrow> jm_has restrictive k"
    and "jm_get current ''parentMode'' = None \<Longrightarrow> mode_parent num modes current = restrictive"
proof -
  have r: "or_else (jm_get modes DEFAULT_MODE) [] = restrictive" using modes_ok_default [OF assms(1)] by simp
  have ok: "mode_ok (or_else (jm_get modes n) [])" for n
    using assms(1) by (cases "jm_get modes n") (auto simp: modes_ok_def mode_ok_def)
  have d: "distinct (jm_keys restrictive)" using restrictive_ok(1) by (simp add: mode_ok_def)
  have spread: "distinct (jm_keys (js_spread restrictive (or_else (jm_get modes n) [])))"
    "jm_has (js_spread restrictive (or_else (jm_get modes n) [])) k \<longleftrightarrow> jm_has restrictive k" for n
    using ok [of n] d by (auto simp only: js_spread_get js_spread_distinct mode_ok_def split: if_splits)
  show "distinct (jm_keys (mode_parent num modes current))"
    by (simp only: mode_parent_def r Let_def split: option.split mode_value.split if_split) (simp add: spread d)
  show "jm_has (mode_parent num modes current) k \<longleftrightarrow> jm_has restrictive k"
    by (simp only: mode_parent_def r Let_def split: option.split mode_value.split if_split) (simp only: spread simp_thms)
  show "jm_get current ''parentMode'' = None \<Longrightarrow> mode_parent num modes current = restrictive"
    by (simp only: mode_parent_def r Let_def) simp
qed

lemma mode_params_ok:
  assumes "modes_ok nm modes" and "mode_ok current"
  shows "distinct (jm_keys (mode_params num modes current))"
    and "jm_has (mode_params num modes current) k \<longleftrightarrow> jm_has restrictive k"
    and "jm_get (mode_params num modes current) k =
      (if jm_has current k then jm_get current k else jm_get (mode_parent num modes current) k)"
  using assms(2) mode_parent_ok(1,2) [OF assms(1), of num current]
  by (auto simp only: mode_params_def js_spread_get js_spread_distinct mode_ok_def split: if_splits)

lemma sync_ok:
  assumes "modes_ok nm modes" and "jm_get modes (currentMode s) = Some current"
  shows "snd (sync_mode num modes s) = None" and "modeStack (fst (sync_mode num modes s)) = modeStack s"
    and "jm_get (sm_props (fst (sync_mode num modes s))) k =
      (case jm_get (mode_params num modes current) k of Some (Some v) \<Rightarrow> Some v | _ \<Rightarrow> jm_get (sm_props s) k)"
proof -
  have "mode_ok current" using assms by (auto simp: modes_ok_def)
  from mode_params_ok(1) [OF assms(1) this]
  show "jm_get (sm_props (fst (sync_mode num modes s))) k =
      (case jm_get (mode_params num modes current) k of Some (Some v) \<Rightarrow> Some v | _ \<Rightarrow> jm_get (sm_props s) k)"
    by (simp add: sync_mode_def assms(2) copyParams_get)
qed (simp_all add: sync_mode_def assms(2))

subsection \<open>Sessions\<close>

inductive sm_reachable :: "(real \<Rightarrow> string) \<Rightarrow> modes \<Rightarrow> session_mode \<Rightarrow> bool"
  for num :: "real \<Rightarrow> string" and modes :: modes where
  created: "newSessionMode num modes session = (s, None) \<Longrightarrow> sm_reachable num modes s"
| pushed: "sm_reachable num modes s \<Longrightarrow> pushMode num modes m s = (s', None) \<Longrightarrow> sm_reachable num modes s'"
| popped: "sm_reachable num modes s \<Longrightarrow> popMode num modes m s = (s', None) \<Longrightarrow> sm_reachable num modes s'"
| switched: "sm_reachable num modes s \<Longrightarrow> switchMode num modes m s = (s', None) \<Longrightarrow> sm_reachable num modes s'"

definition sm_synced :: "(real \<Rightarrow> string) \<Rightarrow> modes \<Rightarrow> session_mode \<Rightarrow> bool" where
  "sm_synced num modes s \<longleftrightarrow> modeStack s \<noteq> [] \<and> (\<exists>current. jm_get modes (currentMode s) = Some current
     \<and> (\<forall>k v. jm_get (mode_params num modes current) k = Some (Some v) \<longrightarrow> jm_get (sm_props s) k = Some v)
     \<and> (\<forall>k. jm_has (sm_props s) k \<longrightarrow> jm_has restrictive k))"

lemma sync_mode_synced:
  assumes "modes_ok nm modes" and "sync_mode num modes s = (s', None)" and "modeStack s \<noteq> []"
    and props: "\<forall>k. jm_has (sm_props s) k \<longrightarrow> jm_has restrictive k"
  shows "sm_synced num modes s'"
proof -
  obtain current where c: "jm_get modes (currentMode s) = Some current"
    using assms(2) by (cases "jm_get modes (currentMode s)") (auto simp: sync_mode_def)
  have s': "s' = fst (sync_mode num modes s)" using assms(2) by simp
  have ok: "mode_ok current" using assms(1) c by (auto simp: modes_ok_def)
  have "jm_has restrictive k" if "jm_has (sm_props s') k" for k
    using that props mode_params_ok(2) [OF assms(1) ok, of num k]
    unfolding s' sync_ok(3) [OF assms(1) c] by (auto split: option.splits)
  moreover have "jm_get (sm_props s') k = Some v" if "jm_get (mode_params num modes current) k = Some (Some v)" for k v
    using that unfolding s' sync_ok(3) [OF assms(1) c] by simp
  moreover have "modeStack s' = modeStack s" unfolding s' by (rule sync_ok(2) [OF assms(1) c])
  ultimately show ?thesis using assms(3) c by (auto simp: sm_synced_def currentMode_def)
qed

lemma sm_reachable_synced:
  assumes "modes_ok nm modes"
  shows "sm_reachable num modes s \<Longrightarrow> sm_synced num modes s"
proof (induction rule: sm_reachable.induct)
  case (created session s)
  then show ?case unfolding newSessionMode_def Let_def
    by (rule sync_mode_synced [OF assms]) simp_all
next
  case (pushed s m s')
  then show ?case unfolding pushMode_def
    by (intro sync_mode_synced [OF assms pushed.hyps(2) [unfolded pushMode_def]]) (auto simp: sm_synced_def)
next
  case (popped s m s')
  then have e: "sync_mode num modes (s\<lparr>modeStack := butlast (modeStack s)\<rparr>) = (s', None)"
    and n: "length (modeStack s) \<noteq> 1"
    by (auto simp: popMode_def split: if_splits)
  have "modeStack s \<noteq> []" using popped.IH by (simp add: sm_synced_def)
  with n have "butlast (modeStack s) \<noteq> []" by (cases "modeStack s"; cases "tl (modeStack s)") auto
  then show ?case using popped.IH
    by (intro sync_mode_synced [OF assms e]) (auto simp: sm_synced_def)
next
  case (switched s m s')
  show ?case
  proof (cases "currentMode s = m")
    case True
    with switched show ?thesis by (simp add: switchMode_def)
  next
    case False
    then have "sync_mode num modes (s\<lparr>modeStack := (modeStack s)[length (modeStack s) - 1 := m]\<rparr>) = (s', None)"
      using switched.hyps(2) by (simp add: switchMode_def)
    then show ?thesis using switched.IH
      by (intro sync_mode_synced [OF assms]) (auto simp: sm_synced_def)
  qed
qed

text \<open>The values of the locked mode, those of the default mode included.\<close>

definition locked_value :: "string \<Rightarrow> mode_value option option" where
  "locked_value k = (if jm_has unlock_dialog k then jm_get unlock_dialog k else jm_get restrictive k)"

lemma locked_values:
  "map locked_value [''isLocked'', ''hasNotifications'', ''hasWindows'', ''hasOverview'',
     ''allowSettings'', ''allowScreencast'', ''hasRunDialog'', ''hasWmMenus'', ''hasWorkspaces'', ''isGreeter'']
   = map (\<lambda>b. Some (Some (MV (JBool b)))) [True, True, False, False, False, False, False, False, False, False]"
  "locked_value ''enabledExtensions'' = Some (Some (MV (JArr [])))"
  "locked_value ''components'' = Some (Some (MV (JArr [JStr ''polkitAgent''])))"
  "locked_value ''unlockDialog'' = Some None"
  by code_simp+

text \<open>Whatever mode files were loaded, and from whatever session state, locking the screen
  (pushing \<open>unlock-dialog\<close>) leaves the properties of the locked mode: no windows, overview,
  settings, run dialog, screencast, extensions or window menus, and the components of that mode;
  the unlock dialog stays the one of the mode before.\<close>

theorem lock_mode_restricts:
  "let r = pushMode num (fst (loadModes files (builtin_modes nm))) ''unlock-dialog'' s; s' = fst r in
     snd r = None \<and> currentMode s' = ''unlock-dialog''
     \<and> map (jm_get (sm_props s')) [''isLocked'', ''hasNotifications'', ''hasWindows'', ''hasOverview'',
         ''allowSettings'', ''allowScreencast'', ''hasRunDialog'', ''hasWmMenus'', ''hasWorkspaces'', ''isGreeter'']
       = map (\<lambda>b. Some (MV (JBool b))) [True, True, False, False, False, False, False, False, False, False]
     \<and> jm_get (sm_props s') ''enabledExtensions'' = Some (MV (JArr []))
     \<and> jm_get (sm_props s') ''components'' = Some (MV (JArr [JStr ''polkitAgent'']))
     \<and> jm_get (sm_props s') ''unlockDialog'' = jm_get (sm_props s) ''unlockDialog''"
proof -
  define modes where "modes = fst (loadModes files (builtin_modes nm))"
  have ok: "modes_ok nm modes" unfolding modes_def by (rule loadModes_ok [OF builtin_modes_ok])
  define s0 where "s0 = s\<lparr>modeStack := modeStack s @ [''unlock-dialog'']\<rparr>"
  have cur: "jm_get modes (currentMode s0) = Some unlock_dialog"
    using ok by (simp add: s0_def currentMode_def modes_ok_def builtin_modes_def)
  have m: "mode_ok unlock_dialog" using ok cur by (auto simp: modes_ok_def)
  have parent: "mode_parent num modes unlock_dialog = restrictive"
    by (rule mode_parent_ok(3) [OF ok]) (simp add: unlock_dialog_def)
  have p0: "sm_props s0 = sm_props s" by (simp add: s0_def)
  have get: "jm_get (sm_props (fst (sync_mode num modes s0))) k =
      (case locked_value k of Some (Some v) \<Rightarrow> Some v | _ \<Rightarrow> jm_get (sm_props s) k)" for k
    unfolding sync_ok(3) [OF ok cur] mode_params_ok(3) [OF ok m] parent p0 locked_value_def by (rule refl)
  have top: "currentMode (fst (sync_mode num modes s0)) = ''unlock-dialog''"
    unfolding currentMode_def sync_ok(2) [OF ok cur] by (simp add: s0_def)
  have "map (\<lambda>k. jm_get (sm_props (fst (sync_mode num modes s0))) k) ks = map f bs"
    if "map locked_value ks = map (\<lambda>b. Some (Some (g b))) bs" "\<And>b. f b = Some (g b)" for ks :: "string list" and bs :: "bool list" and f g
    using that by (induction ks arbitrary: bs) (auto simp: get Cons_eq_map_conv)
  note flags = this [OF locked_values(1) refl]
  show ?thesis
    unfolding modes_def [symmetric] pushMode_def s0_def [symmetric] Let_def sync_ok(1) [OF ok cur] top
    by (simp only: flags) (simp only: get locked_values(2-4) option.case simp_thms)
qed

text \<open>C6: Pushing any known mode on a session whose current mode leaves nothing to be inherited, and
  popping it again, restores the stack and every property, whatever mode files were loaded.\<close>

theorem push_pop_restores:
  assumes modes: "modes = fst (loadModes files (builtin_modes nm))"
    and s: "sm_reachable num modes s"
    and m: "jm_get modes m = Some pushed"
    and full: "None \<notin> set (map snd (mode_params num modes (or_else (jm_get modes (currentMode s)) [])))"
  shows "let r = popMode num modes m (fst (pushMode num modes m s)) in
    snd r = None \<and> modeStack (fst r) = modeStack s \<and> map_of (sm_props (fst r)) = map_of (sm_props s)"
proof -
  have ok: "modes_ok nm modes" unfolding modes by (rule loadModes_ok [OF builtin_modes_ok])
  obtain current where ne: "modeStack s \<noteq> []" and c: "jm_get modes (currentMode s) = Some current"
    and sync: "\<And>k v. jm_get (mode_params num modes current) k = Some (Some v) \<Longrightarrow> jm_get (sm_props s) k = Some v"
    and props: "\<And>k. jm_has (sm_props s) k \<Longrightarrow> jm_has restrictive k"
    using sm_reachable_synced [OF ok s] unfolding sm_synced_def by blast
  have okc: "mode_ok current" and okm: "mode_ok pushed" using ok c m by (auto simp: modes_ok_def)
  define s0 where "s0 = s\<lparr>modeStack := modeStack s @ [m]\<rparr>"
  define s1 where "s1 = fst (sync_mode num modes s0)"
  define s2 where "s2 = s1\<lparr>modeStack := modeStack s\<rparr>"
  have c0: "jm_get modes (currentMode s0) = Some pushed" using m by (simp add: s0_def currentMode_def)
  have st: "modeStack s1 = modeStack s @ [m]" using sync_ok(2) [OF ok c0] by (simp add: s1_def s0_def)
  have pop: "popMode num modes m s1 = sync_mode num modes s2"
    using ne by (simp add: popMode_def st currentMode_def s2_def)
  have c2: "jm_get modes (currentMode s2) = Some current" using c by (simp add: s2_def currentMode_def)
  have "jm_get (sm_props (fst (sync_mode num modes s2))) k = jm_get (sm_props s) k" for k
  proof (cases "jm_has restrictive k")
    case True
    then obtain v where v: "jm_get (mode_params num modes current) k = Some v"
      using mode_params_ok(2) [OF ok okc, of num k] by blast
    have "v \<in> set (map snd (mode_params num modes current))" using v by (force dest: map_of_SomeD)
    moreover have "None \<notin> set (map snd (mode_params num modes current))" using full c by simp
    ultimately have "v \<noteq> None" by metis
    then obtain w where "v = Some w" by blast
    with v sync show ?thesis unfolding sync_ok(3) [OF ok c2] by simp
  next
    case False
    then have "jm_get (mode_params num modes current) k = None" "jm_get (mode_params num modes pushed) k = None"
      "jm_get (sm_props s) k = None"
      using mode_params_ok(2) [OF ok okc, of num k] mode_params_ok(2) [OF ok okm, of num k] props [of k] by blast+
    then show ?thesis unfolding sync_ok(3) [OF ok c2] using sync_ok(3) [OF ok c0, of num k]
      by (simp add: s2_def s1_def s0_def)
  qed
  then have "map_of (sm_props (fst (sync_mode num modes s2))) = map_of (sm_props s)" by (rule ext)
  then show ?thesis using sync_ok(1,2) [OF ok c2, of num]
    unfolding pushMode_def s0_def [symmetric] s1_def [symmetric] pop Let_def by (simp add: s2_def)
qed

lemma user_session: "\<exists>s. newSessionMode num (builtin_modes True) ''user'' = (s, None) \<and> modeStack s = [''user'']"
  by (simp add: newSessionMode_def sync_mode_def builtin_modes_def currentMode_def user_mode_def)

lemma push_pop_restores_witness:
  "\<exists>s. newSessionMode (\<lambda>x. []) (builtin_modes True) ''user'' = (s, None) \<and> modeStack s = [''user'']
     \<and> map_of (sm_props (fst (popMode (\<lambda>x. []) (builtin_modes True) ''unlock-dialog''
          (fst (pushMode (\<lambda>x. []) (builtin_modes True) ''unlock-dialog'' s))))) = map_of (sm_props s)"
proof -
  obtain s where s: "newSessionMode (\<lambda>x. []) (builtin_modes True) ''user'' = (s, None)" "modeStack s = [''user'']"
    using user_session by blast
  have m: "jm_get (builtin_modes True) ''unlock-dialog'' = Some unlock_dialog"
    "jm_get (builtin_modes True) (currentMode s) = Some (user_mode True)"
    by (simp_all add: builtin_modes_def currentMode_def s(2))
  have "mode_params (\<lambda>x. []) (builtin_modes True) (user_mode True) = js_spread restrictive (user_mode True)"
    using mode_parent_ok(3) [OF builtin_modes_ok, of "user_mode True"] by (simp add: mode_params_def user_mode_def)
  moreover have "None \<notin> set (map snd (js_spread restrictive (user_mode True)))"
    by (simp add: js_spread_def restrictive_def user_mode_def)
  ultimately have full: "None \<notin> set (map snd (mode_params (\<lambda>x. []) (builtin_modes True)
      (or_else (jm_get (builtin_modes True) (currentMode s)) [])))" by (simp add: m(2))
  have "builtin_modes True = fst (loadModes [] (builtin_modes True))" by simp
  from push_pop_restores [OF this sm_reachable.created [OF s(1)] m(1) full]
  show ?thesis using s by (auto simp: Let_def)
qed

text \<open>Popping a mode that is not the current one, or the last, is an error and changes nothing.\<close>

lemma pop_other_mode_fails:
  "currentMode s \<noteq> m \<or> length (modeStack s) = 1 \<Longrightarrow> popMode num modes m s = (s, Some InvalidPopMode)"
  by (auto simp: popMode_def)

end
