(* ===== verification/PowerManager.thy ===== *)
theory PowerManager
  imports MainLoop
begin

section \<open>Power management of the phone shell (\<open>js/misc/powerManager.js\<close>)\<close>

text \<open>
  The state machine of \<open>PowerManager\<close>: dimming, blanking, suspending and waking the screen. Nearly
  every method is \<open>async\<close>, and they interleave at their \<open>await\<close>s, so the model makes those
  explicit. A call that has reached an \<open>await\<close> is a \<^emph>\<open>thread\<close>: what it waits for (\<open>pm_await\<close>) and the
  continuations (\<open>pm_frame\<close>) of the calls it is nested in, the innermost first, each with the
  variables it still needs. \<open>resume\<close> runs one continuation to its next \<open>await\<close> or its end. A
  thread whose promise is settled (\<open>W_ready\<close>) is a pending microtask.

  What logind, the sensor daemon, the display server and the lightbox answer is the value a thread
  is resumed with; the settings, the lock screen and the login session are read from an environment
  \<open>pm_env\<close>, one for each event. Every call the manager makes is in its trace. Log messages are
  left out, and so is \<open>_fadeInTimeout\<close>, which is never set.
\<close>

subsection \<open>Data\<close>

datatype pm_action =
    ADim | AIdleBlank | ABlank | ASuspend | ASuspendForced | AHibernate | AShutdown | ALogout
  | AInteractive | ANothing

datatype cancel_reason = CR_power_button | CR_session_inactive | CR_suspend_wakeup | CR_user_active

datatype pm_res = RUnit | RBool bool | RThrow

datatype pm_await =
    W_ready pm_res      \<comment> \<open>settled: a microtask\<close>
  | W_lightbox          \<comment> \<open>\<open>lightOn\<close> or \<open>lightOff\<close>; rejected when the transition is removed\<close>
  | W_proximity | W_inhibitAdaptive | W_uninhibitAdaptive | W_sleep nat | W_can | W_logind
  | W_stage | W_lock nat | W_inhibit

datatype pm_frame =
    K_fadeOut | K_turnOff | K_inhibitAdaptive | K_uninhibitAdaptive | K_fadeIn
  | K_idleBlank1 nat bool | K_idleBlank2 nat bool | K_idleBlank3 nat
  | K_blank1 nat bool bool | K_blank2 nat bool
  | K_can pm_action nat bool nat | K_sleep1 pm_action nat bool bool | K_sleep2
  | K_forced1 nat bool | K_forced2 nat bool
  | K_finallyEnter
  | K_waitCancel pm_action bool nat
  | K_pocketWake pm_action | K_pocketUser pm_action | K_finallyCancel
  | K_userActive | K_prepare | K_again pm_action | K_againDone | K_wakeUp | K_inhibit

type_synonym pm_thread = "pm_await \<times> pm_frame list"

datatype pm_call =
    SetPowerSave nat | SetLed string int | InhibitAdaptive | UninhibitAdaptive | Undim | DimBacklight
  | InhibitCursor | UninhibitCursor | RemoveTransitions | LightOn nat | LightOff nat
  | ShieldLock | ShieldActivate | ShieldDeactivate | ShieldShowLater | ShieldCancelUnlock
  | ShieldBecomeModal | NotifyUnableToLock | GetProximity
  | CallCanSuspend | CallCanHibernate | CallSuspend | CallHibernate | QueueRedraw
  | AddUserActiveWatch nat | AddIdleWatch nat int | RemoveIdleWatch nat
  | InhibitSleepSync | InhibitSleepAsync | CloseInhibitor | ShowPowerMenu | PlayPowerSound bool
  | NotifySuspendSoon pm_action | DestroySuspendWarning

record pm_env =
  pe_lockEnabled :: bool
  pe_lockDelay :: nat                  \<comment> \<open>seconds\<close>
  pe_shieldActive :: bool
  pe_shieldLocked :: bool
  pe_becomeModal :: bool
  pe_idleDelay :: nat                  \<comment> \<open>seconds\<close>
  pe_idleDim :: bool
  pe_loginActive :: "bool option"      \<comment> \<open>\<open>this._loginSession.Active\<close>; \<open>None\<close>: no session proxy yet\<close>
  pe_inhibitGranted :: bool            \<comment> \<open>\<open>inhibitSync\<close> succeeds\<close>
  pe_leds :: "string list"             \<comment> \<open>the names listed in \<open>/sys/class/leds\<close>\<close>
  pe_ledLevel :: int                   \<comment> \<open>what its \<open>brightness\<close> file holds, 0 if unreadable\<close>
  pe_sessionActive :: bool
  pe_powerKeyEvent :: bool             \<comment> \<open>the current event is a press of the power key\<close>
  pe_buttonAction :: pm_action
  pe_isPhone :: bool
  pe_onBattery :: bool
  pe_acType :: pm_action
  pe_batteryType :: pm_action
  pe_acTimeout :: int
  pe_batteryTimeout :: int
  pe_inVm :: bool
  pe_modeGdm :: bool
  pe_notifySuspend :: bool
  pe_source_id :: "pm_call idgen"
  pe_watch_id :: "pm_call trace \<Rightarrow> nat"

text \<open>Identifiers of sources and watches are 0 for none.\<close>

record pm =
  pm_isInAction :: "pm_action option"
  pm_suspended :: bool
  pm_cancelLock :: "nat option"
  pm_locks :: nat                      \<comment> \<open>how many locks were made: the next lock's identity\<close>
  pm_newActionQueued :: bool
  pm_startCancellable :: "nat option"
  pm_cancellables :: nat               \<comment> \<open>how many cancellables were made\<close>
  pm_cancelled :: "nat list"           \<comment> \<open>the cancelled ones\<close>
  pm_userActiveId :: nat
  pm_userAlreadyIdle :: bool
  pm_deferredIdleBlankId :: nat
  pm_suspendAgain :: "(nat \<times> pm_action) option"
  pm_notificationTimeout :: nat
  pm_powerHoldId :: nat
  pm_powerPressHappened :: bool
  pm_ignoreInput :: bool
  pm_ignoreSources :: "nat list"
  pm_sessionIsActive :: bool
  pm_inhibited :: bool
  pm_inhibitor :: bool
  pm_powerSaveMode :: nat
  pm_fadingOut :: bool
  pm_fadingIn :: bool
  pm_cursorInvisible :: bool
  pm_adaptiveInhibited :: bool
  pm_savedBacklight :: "int option"
  pm_backlightLed :: "string option option"
  pm_dimWatch :: nat
  pm_screensaverWatch :: nat
  pm_powersaveWatch :: nat
  pm_powersaveMessageWatch :: nat
  pm_powersaveAction :: pm_action      \<comment> \<open>the \<open>action\<close> those two callbacks close over\<close>
  pm_warning :: bool
  pm_onExternalPower :: "bool option"
  pm_threads :: "pm_thread list"
  pm_trace :: "pm_call trace"

datatype pm_outcome = Done pm_res | Wait pm_await "pm_frame list"

definition pm_do :: "pm_call \<Rightarrow> pm \<Rightarrow> pm" where
  "pm_do c s = s\<lparr>pm_trace := pm_trace s @ [Call c]\<rparr>"

definition pm_addSource :: "pm_env \<Rightarrow> int \<Rightarrow> pm \<Rightarrow> nat \<times> pm" where
  "pm_addSource env ms s =
     (let i = pe_source_id env (pm_trace s) in (i, s\<lparr>pm_trace := pm_trace s @ [SourceAdd i ms]\<rparr>))"

definition pm_removeSource :: "nat \<Rightarrow> pm \<Rightarrow> pm" where
  "pm_removeSource i s = (if i \<noteq> 0 then s\<lparr>pm_trace := pm_trace s @ [SourceRemove i]\<rparr> else s)"

text \<open>Awaiting a call: its continuation follows in the same thread, or is a microtask.\<close>

fun then_frame :: "pm \<times> pm_outcome \<Rightarrow> pm_frame \<Rightarrow> pm \<times> pm_outcome" where
  "then_frame (s, Done r) k = (s, Wait (W_ready r) [k])"
| "then_frame (s, Wait w fs) k = (s, Wait w (fs @ [k]))"

text \<open>Calling without awaiting.\<close>

fun launch :: "pm \<times> pm_outcome \<Rightarrow> pm" where
  "launch (s, Done r) = s"
| "launch (s, Wait w fs) = s\<lparr>pm_threads := pm_threads s @ [(w, fs)]\<rparr>"

definition ensureUserActiveWatch :: "pm_env \<Rightarrow> pm \<Rightarrow> pm" where
  "ensureUserActiveWatch env s =
     (if pm_userActiveId s = 0
      then let i = pe_watch_id env (pm_trace s) in pm_do (AddUserActiveWatch i) (s\<lparr>pm_userActiveId := i\<rparr>)
      else s)"

subsection \<open>The screen\<close>

text \<open>Removing the transitions of the lightbox rejects what waits for one.\<close>

definition removeTransitions :: "pm \<Rightarrow> pm" where
  "removeTransitions s =
     s\<lparr>pm_threads := map (\<lambda>(w, fs). (if w = W_lightbox then W_ready RThrow else w, fs)) (pm_threads s)\<rparr>"

definition lightOn :: "nat \<Rightarrow> pm \<Rightarrow> pm" where
  "lightOn ms s = pm_do (LightOn ms) (removeTransitions s)"

definition lightOff :: "nat \<Rightarrow> pm \<Rightarrow> pm" where
  "lightOff ms s = pm_do (LightOff ms) (removeTransitions s)"

definition js_endsWith :: "string \<Rightarrow> string \<Rightarrow> bool" where
  "js_endsWith s suffix \<longleftrightarrow> length suffix \<le> length s \<and> drop (length s - length suffix) s = suffix"

definition findBacklightLed :: "pm_env \<Rightarrow> pm \<Rightarrow> string option \<times> pm" where
  "findBacklightLed env s =
     (case pm_backlightLed s of
        Some led \<Rightarrow> (led, s)
      | None \<Rightarrow>
          let led = find (\<lambda>n. n = ''lcd-backlight'' \<or> n = ''backlight'' \<or> js_endsWith n ''-backlight'') (pe_leds env)
          in (led, s\<lparr>pm_backlightLed := Some led\<rparr>))"

definition fadeOut :: "nat \<Rightarrow> pm \<Rightarrow> pm \<times> pm_outcome" where
  "fadeOut ms s =
     (let s1 = s\<lparr>pm_fadingOut := True\<rparr>;
          s2 = (if \<not> pm_cursorInvisible s1 then pm_do InhibitCursor (s1\<lparr>pm_cursorInvisible := True\<rparr>) else s1)
      in (lightOn ms s2, Wait W_lightbox [K_fadeOut]))"

definition turnOffScreen :: "nat \<Rightarrow> pm \<Rightarrow> pm \<times> pm_outcome" where
  "turnOffScreen ms s =
     (if pm_fadingOut s then (s, Done RUnit)
      else then_frame (fadeOut ms (pm_do RemoveTransitions (removeTransitions s))) K_turnOff)"

definition backlightOff :: "pm_env \<Rightarrow> pm \<Rightarrow> pm" where
  "backlightOff env s =
     (let (led, s1) = findBacklightLed env s
      in pm_do ShieldCancelUnlock
           (case led of
              None \<Rightarrow> s1
            | Some l \<Rightarrow>
                if pe_loginActive env = None then s1
                else pm_do (SetLed l 0)
                       (if pe_ledLevel env > 0 then s1\<lparr>pm_savedBacklight := Some (pe_ledLevel env)\<rparr> else s1)))"

definition fadeIn :: "pm \<Rightarrow> pm \<times> pm_outcome" where
  "fadeIn s =
     (if pm_fadingIn s then (s, Done RUnit)
      else (lightOff 350 (pm_do UninhibitCursor (s\<lparr>pm_fadingIn := True, pm_cursorInvisible := False\<rparr>)),
            Wait W_lightbox [K_fadeIn]))"

definition screenOn :: "pm_env \<Rightarrow> pm \<Rightarrow> pm \<times> pm_outcome" where
  "screenOn env s =
     (let (led, s1) = findBacklightLed env s;
          s2 = (case (led, pm_savedBacklight s1) of
                  (Some l, Some v) \<Rightarrow>
                    if pe_loginActive env \<noteq> None \<and> v > 0
                    then pm_do (SetLed l v) s1\<lparr>pm_savedBacklight := None\<rparr> else s1
                | _ \<Rightarrow> s1)
      in fadeIn (pm_do (SetPowerSave 0) (pm_do Undim s2)\<lparr>pm_powerSaveMode := 0\<rparr>))"

definition turnOnScreen :: "pm_env \<Rightarrow> pm \<Rightarrow> pm \<times> pm_outcome" where
  "turnOnScreen env s =
     (if pm_fadingIn s then (s, Done RUnit)
      else let s1 = pm_do RemoveTransitions (removeTransitions s)
           in if pm_adaptiveInhibited s1
              then (pm_do UninhibitAdaptive (s1\<lparr>pm_adaptiveInhibited := False\<rparr>),
                    Wait W_uninhibitAdaptive [K_uninhibitAdaptive])
              else screenOn env s1)"

subsection \<open>Starting actions\<close>

definition pm_isCancelled :: "nat \<Rightarrow> pm \<Rightarrow> bool" where
  "pm_isCancelled cid s \<longleftrightarrow> cid \<in> set (pm_cancelled s)"

text \<open>\<open>this._actionStartCancellable?.cancel()\<close> with the \<open>delete\<close> that follows it.\<close>

definition cancelStart :: "pm \<Rightarrow> pm" where
  "cancelStart s =
     (case pm_startCancellable s of None \<Rightarrow> s | Some c \<Rightarrow> s\<lparr>pm_cancelled := c # pm_cancelled s\<rparr>)
       \<lparr>pm_startCancellable := None\<rparr>"

definition pm_sleep :: "nat \<Rightarrow> pm_frame \<Rightarrow> pm \<Rightarrow> pm \<times> pm_outcome" where
  "pm_sleep ms k s = (s, Wait (W_sleep ms) [k])"

text \<open>Locking, with the screen turned off behind the lock screen.\<close>

definition lockAndTurnOff :: "pm_env \<Rightarrow> nat \<Rightarrow> pm \<Rightarrow> pm \<times> pm_outcome" where
  "lockAndTurnOff env fade s = turnOffScreen fade (if pe_lockEnabled env then pm_do ShieldLock s else s)"

text \<open>The body of \<open>_doSystemAction\<close> up to its first \<open>await\<close>; \<open>cid\<close> is its cancellable.\<close>

fun enterAction :: "pm_env \<Rightarrow> pm_action \<Rightarrow> bool \<Rightarrow> nat \<Rightarrow> nat \<Rightarrow> pm \<Rightarrow> pm \<times> pm_outcome" where
  "enterAction env ADim early fade cid s =
     (lightOn 500 (pm_do InhibitCursor (pm_do DimBacklight s)\<lparr>pm_cursorInvisible := True\<rparr>), Done RUnit)"
| "enterAction env AIdleBlank early fade cid s =
     then_frame (turnOffScreen fade s) (K_idleBlank1 cid early)"
| "enterAction env ABlank early fade cid s =
     then_frame (lockAndTurnOff env fade s) (K_blank1 cid early (pe_lockEnabled env))"
| "enterAction env ASuspend early fade cid s =
     (pm_do CallCanSuspend s, Wait W_can [K_can ASuspend cid early fade])"
| "enterAction env AHibernate early fade cid s =
     (pm_do CallCanHibernate s, Wait W_can [K_can AHibernate cid early fade])"
| "enterAction env ASuspendForced early fade cid s =
     (let s1 = s\<lparr>pm_suspended := True\<rparr>
      in if pe_lockEnabled env \<and> \<not> pe_shieldLocked env
         then (pm_do QueueRedraw (pm_do ShieldLock s1), Wait W_stage [K_forced1 cid early])
         else then_frame (turnOffScreen 0 s1) (K_forced2 cid early))"
| "enterAction env _ early fade cid s = (s, Done RUnit)"

definition upgradesAction :: "pm_action option \<Rightarrow> pm_action \<Rightarrow> bool" where
  "upgradesAction current action \<longleftrightarrow>
     current = Some ADim \<and> action \<in> {ABlank, AIdleBlank, ASuspend, ASuspendForced, AHibernate, AShutdown, ALogout}
     \<or> (current = Some ABlank \<or> current = Some AIdleBlank)
         \<and> action \<in> {ASuspend, ASuspendForced, AHibernate, AShutdown, ALogout}
     \<or> (current = Some ASuspend \<or> current = Some AHibernate) \<and> action = ASuspendForced"

definition doSystemAction_now :: "pm_env \<Rightarrow> pm_action \<Rightarrow> bool \<Rightarrow> nat \<Rightarrow> pm \<Rightarrow> pm \<times> pm_outcome" where
  "doSystemAction_now env action early fade s =
     (let s1 = (if upgradesAction (pm_isInAction s) action
                then (cancelStart s)\<lparr>pm_isInAction := None\<rparr> else s)
      in if pm_isInAction s1 \<noteq> None then (s1, Done RUnit)
         else if \<not> pm_sessionIsActive s1 then (s1, Done RUnit)
         else if pm_startCancellable s1 \<noteq> None then (s1, Done RThrow)
         else if pm_suspended s1 then (s1, Done RThrow)
         else if action = ANothing then (s1, Done RUnit)
         else let s2 = (if early then ensureUserActiveWatch env s1 else s1);
                  cid = pm_cancellables s2;
                  s3 = s2\<lparr>pm_cancellables := Suc cid, pm_startCancellable := Some cid,
                          pm_isInAction := Some action\<rparr>
              in then_frame (enterAction env action early fade cid s3) K_finallyEnter)"

definition doSystemAction :: "pm_env \<Rightarrow> pm_action \<Rightarrow> bool \<Rightarrow> nat \<Rightarrow> pm \<Rightarrow> pm \<times> pm_outcome" where
  "doSystemAction env action early fade s =
     (case pm_cancelLock s of
        Some l \<Rightarrow> (s\<lparr>pm_newActionQueued := True\<rparr>, Wait (W_lock l) [K_waitCancel action early fade])
      | None \<Rightarrow> doSystemAction_now env action early fade s)"

definition DEFAULT_SCREEN_FADE_OUT_TIME_MS :: nat where
  "DEFAULT_SCREEN_FADE_OUT_TIME_MS = 250"

subsection \<open>Cancelling\<close>

definition removeNotificationTimeout :: "pm \<Rightarrow> pm" where
  "removeNotificationTimeout s =
     (pm_removeSource (pm_notificationTimeout s) s)\<lparr>pm_notificationTimeout := 0\<rparr>"

definition removeSuspendAgain :: "pm \<Rightarrow> pm" where
  "removeSuspendAgain s =
     (case pm_suspendAgain s of None \<Rightarrow> s | Some (i, a) \<Rightarrow> pm_removeSource i s)\<lparr>pm_suspendAgain := None\<rparr>"

text \<open>Step 4 of \<open>_maybeCancelAction\<close>: undoing what the action had done.\<close>

fun undoAction :: "pm_env \<Rightarrow> pm_action \<Rightarrow> pm \<Rightarrow> pm" where
  "undoAction env ADim s =
     pm_do Undim (lightOff 0 ((pm_do UninhibitCursor s)\<lparr>pm_cursorInvisible := False\<rparr>))"
| "undoAction env AIdleBlank s =
     (let s1 = removeNotificationTimeout s;
          s2 = (if pe_shieldActive env \<and> \<not> pe_shieldLocked env then pm_do ShieldDeactivate s1 else s1)
      in launch (turnOnScreen env s2))"
| "undoAction env ABlank s = launch (turnOnScreen env (removeNotificationTimeout s))"
| "undoAction env ASuspend s = launch (turnOnScreen env (removeSuspendAgain s))"
| "undoAction env ASuspendForced s = launch (turnOnScreen env (removeSuspendAgain s))"
| "undoAction env AHibernate s = launch (turnOnScreen env s)"
| "undoAction env _ s = s"

text \<open>Steps 2 to 4, once the reason has been accepted.\<close>

definition tearDown :: "pm_env \<Rightarrow> pm_action \<Rightarrow> pm \<Rightarrow> pm \<times> pm_outcome" where
  "tearDown env ongoing s =
     (let s1 = (cancelStart s)\<lparr>pm_isInAction := None\<rparr>
      in if pm_userAlreadyIdle s1
         then if pm_userActiveId s1 = 0 then (s1, Done RThrow)
              else let ms = (if pe_shieldActive env then 10000 else int (pe_idleDelay env) * 1000);
                       (i, s2) = pm_addSource env ms s1
                   in (undoAction env ongoing (s2\<lparr>pm_deferredIdleBlankId := i, pm_userAlreadyIdle := False\<rparr>),
                       Done (RBool True))
         else let s2 = (if pm_userActiveId s1 \<noteq> 0
                        then (pm_do (RemoveIdleWatch (pm_userActiveId s1)) s1)\<lparr>pm_userActiveId := 0\<rparr> else s1)
              in (undoAction env ongoing s2, Done (RBool True)))"

text \<open>Step 1: whether the reason counts for the action that is going on.\<close>

fun cancelBody :: "pm_env \<Rightarrow> cancel_reason \<Rightarrow> pm_action \<Rightarrow> pm \<Rightarrow> pm \<times> pm_outcome" where
  "cancelBody env CR_power_button ongoing s = tearDown env ongoing s"
| "cancelBody env CR_session_inactive ongoing s = tearDown env ongoing s"
| "cancelBody env CR_suspend_wakeup ongoing s =
     (if ongoing \<notin> {ASuspend, ASuspendForced, AHibernate} then (s, Done RThrow)
      else if pm_suspendAgain s \<noteq> None then (s, Done RThrow)
      else (pm_do GetProximity s, Wait W_proximity [K_pocketWake ongoing]))"
| "cancelBody env CR_user_active ongoing s =
     (if ongoing \<noteq> ADim then (pm_do GetProximity s, Wait W_proximity [K_pocketUser ongoing])
      else tearDown env ongoing s)"

definition maybeCancelAction :: "pm_env \<Rightarrow> cancel_reason \<Rightarrow> pm \<Rightarrow> pm \<times> pm_outcome" where
  "maybeCancelAction env reason s =
     (case pm_isInAction s of
        None \<Rightarrow> (s, Done RThrow)
      | Some ongoing \<Rightarrow>
          if pm_suspended s then (s, Done (RBool False))
          else if pm_cancelLock s \<noteq> None
          then if pm_newActionQueued s then (s\<lparr>pm_newActionQueued := False\<rparr>, Done (RBool True))
               else (s, Done (RBool False))
          else let (s1, out) = cancelBody env reason ongoing s
               in then_frame (s1\<lparr>pm_cancelLock := Some (pm_locks s1), pm_locks := Suc (pm_locks s1)\<rparr>, out)
                    K_finallyCancel)"

subsection \<open>The login inhibitor and sleep\<close>

definition cancelInhibit :: "pm \<Rightarrow> pm" where
  "cancelInhibit s =
     s\<lparr>pm_threads := map (\<lambda>(w, fs). (if w = W_inhibit then W_ready RThrow else w, fs)) (pm_threads s)\<rparr>"

definition syncInhibitor :: "pm_env \<Rightarrow> bool \<Rightarrow> bool \<Rightarrow> pm \<Rightarrow> pm \<times> pm_outcome" where
  "syncInhibitor env shouldInhibit sync s =
     (let inhibit = (pe_loginActive env = Some True \<and> shouldInhibit)
      in if inhibit = pm_inhibited s then (s, Done RUnit)
         else let s1 = cancelInhibit (s\<lparr>pm_inhibited := inhibit\<rparr>)
              in if \<not> inhibit
                 then ((if pm_inhibitor s1 then pm_do CloseInhibitor s1 else s1)\<lparr>pm_inhibitor := False\<rparr>, Done RUnit)
                 else if sync
                 then let s2 = pm_do InhibitSleepSync s1
                      in (if pe_inhibitGranted env then s2\<lparr>pm_inhibitor := True\<rparr> else s2, Done RUnit)
                 else (pm_do InhibitSleepAsync s1, Wait W_inhibit [K_inhibit]))"

text \<open>The end of \<open>_prepareForSleep(true)\<close>, after the action it may have awaited.\<close>

definition prepareEnd :: "pm_env \<Rightarrow> pm \<Rightarrow> pm \<times> pm_outcome" where
  "prepareEnd env s =
     (if pm_isInAction s \<notin> {Some ASuspend, Some AHibernate, Some ASuspendForced} then (s, Done RUnit)
      else if \<not> pm_suspended s then (s, Done RThrow)
      else (launch (syncInhibitor env False True s), Done RUnit))"

definition prepareForSleep :: "pm_env \<Rightarrow> pm \<Rightarrow> pm \<times> pm_outcome" where
  "prepareForSleep env s =
     (let s1 = (if pm_warning s then (pm_do DestroySuspendWarning s)\<lparr>pm_warning := False\<rparr> else s);
          s2 = removeSuspendAgain s1
      in if pm_isInAction s2 \<notin> {Some ASuspend, Some AHibernate} \<or> pm_cancelLock s2 \<noteq> None \<or> \<not> pm_suspended s2
         then then_frame (doSystemAction env ASuspendForced False DEFAULT_SCREEN_FADE_OUT_TIME_MS s2) K_prepare
         else prepareEnd env s2)"

definition wakeFromSleep :: "pm_env \<Rightarrow> pm \<Rightarrow> pm" where
  "wakeFromSleep env s =
     (let s1 = launch (syncInhibitor env True True (s\<lparr>pm_ignoreInput := True, pm_suspended := False\<rparr>));
          (i, s2) = pm_addSource env 500 s1;
          s3 = s2\<lparr>pm_ignoreSources := i # pm_ignoreSources s2\<rparr>
      in if pm_isInAction s3 \<noteq> None then launch (maybeCancelAction env CR_suspend_wakeup s3)
         else launch (turnOnScreen env s3))"

subsection \<open>Continuations\<close>

text \<open>After \<open>canSuspend\<close>, or after the screen has been turned off to sleep.\<close>

definition goToSleep :: "pm_env \<Rightarrow> pm_action \<Rightarrow> bool \<Rightarrow> pm \<Rightarrow> pm \<times> pm_outcome" where
  "goToSleep env action early s =
     (let s1 = (if \<not> early then ensureUserActiveWatch env s else s)
      in (pm_do (if action = AHibernate then CallHibernate else CallSuspend) (s1\<lparr>pm_suspended := True\<rparr>),
          Wait W_logind [K_sleep2]))"

definition sleepFailed :: "pm_env \<Rightarrow> pm \<Rightarrow> pm" where
  "sleepFailed env s = (launch (turnOnScreen env s))\<lparr>pm_isInAction := None, pm_suspended := False\<rparr>"

definition SCREEN_OFF_WAIT_MS :: nat where
  "SCREEN_OFF_WAIT_MS = 350"

definition idleBlankLock :: "pm_env \<Rightarrow> nat \<Rightarrow> bool \<Rightarrow> pm \<Rightarrow> pm \<times> pm_outcome" where
  "idleBlankLock env cid early s =
     (let s1 = pm_do ShieldActivate (if \<not> early then ensureUserActiveWatch env s else s)
      in if \<not> pe_lockEnabled env then (s1, Done RUnit)
         else if \<not> pe_becomeModal env then (pm_do NotifyUnableToLock (pm_do ShieldBecomeModal s1), Done RUnit)
         else pm_sleep (pe_lockDelay env * 1000 - 10 * 1000) (K_idleBlank3 cid) (pm_do ShieldBecomeModal s1))"

fun resume :: "pm_env \<Rightarrow> pm_frame \<Rightarrow> pm_res \<Rightarrow> pm \<Rightarrow> pm \<times> pm_outcome" where
  "resume env K_fadeOut r s = (s\<lparr>pm_fadingOut := False\<rparr>, Done (RBool (r \<noteq> RThrow)))"
| "resume env K_turnOff r s =
     (if r \<noteq> RBool True then (s, Done RUnit)
      else let s1 = pm_do (SetPowerSave 3) (s\<lparr>pm_powerSaveMode := 3\<rparr>)
           in if \<not> pm_adaptiveInhibited s1
              then (pm_do InhibitAdaptive s1, Wait W_inhibitAdaptive [K_inhibitAdaptive])
              else (backlightOff env s1, Done RUnit))"
| "resume env K_inhibitAdaptive r s =
     (backlightOff env (if r \<noteq> RThrow then s\<lparr>pm_adaptiveInhibited := True\<rparr> else s), Done RUnit)"
| "resume env K_uninhibitAdaptive r s =
     screenOn env (if r = RThrow then s\<lparr>pm_adaptiveInhibited := True\<rparr> else s)"
| "resume env K_fadeIn r s = (s\<lparr>pm_fadingIn := False\<rparr>, Done RUnit)"
| "resume env (K_idleBlank1 cid early) r s =
     (if pm_isCancelled cid s then (s, Done RUnit)
      else pm_sleep SCREEN_OFF_WAIT_MS (K_idleBlank2 cid early) s)"
| "resume env (K_idleBlank2 cid early) r s =
     (if pm_isCancelled cid s then (s, Done RUnit) else idleBlankLock env cid early s)"
| "resume env (K_idleBlank3 cid) r s =
     (if pm_isCancelled cid s then (s, Done RUnit) else (pm_do ShieldLock s, Done RUnit))"
| "resume env (K_blank1 cid early showLater) r s =
     (let s1 = (if showLater then pm_do ShieldShowLater s else s)
      in if pm_isCancelled cid s1 then (s1, Done RUnit)
         else pm_sleep SCREEN_OFF_WAIT_MS (K_blank2 cid early) s1)"
| "resume env (K_blank2 cid early) r s =
     (if pm_isCancelled cid s then (s, Done RUnit)
      else (if \<not> early then ensureUserActiveWatch env s else s, Done RUnit))"
| "resume env (K_can action cid early fade) r s =
     (if r \<noteq> RBool True then (s, Done RUnit)
      else if pm_isCancelled cid s then (s, Done RUnit)
      else then_frame (lockAndTurnOff env fade s) (K_sleep1 action cid early (pe_lockEnabled env)))"
| "resume env (K_sleep1 action cid early showLater) r s =
     (let s1 = (if showLater then pm_do ShieldShowLater s else s)
      in if pm_isCancelled cid s1 then (s1, Done RUnit) else goToSleep env action early s1)"
| "resume env K_sleep2 r s = (if r = RThrow then sleepFailed env s else s, Done RUnit)"
| "resume env (K_forced1 cid early) r s =
     (if pm_isCancelled cid s then (s, Done RUnit)
      else then_frame (turnOffScreen 0 s) (K_forced2 cid early))"
| "resume env (K_forced2 cid early) r s =
     (if pm_isCancelled cid s then (s, Done RUnit)
      else (if \<not> early then ensureUserActiveWatch env s else s, Done RUnit))"
| "resume env K_finallyEnter r s = (s\<lparr>pm_startCancellable := None\<rparr>, Done r)"
| "resume env (K_waitCancel action early fade) r s =
     (if \<not> pm_newActionQueued s then (s, Done RUnit)
      else doSystemAction_now env action early fade (s\<lparr>pm_newActionQueued := False\<rparr>))"
| "resume env (K_pocketWake ongoing) r s =
     (if r = RBool True
      then let s1 = ensureUserActiveWatch env s; (i, s2) = pm_addSource env 10000 s1
           in (s2\<lparr>pm_suspendAgain := Some (i, ongoing)\<rparr>, Done (RBool False))
      else tearDown env ongoing s)"
| "resume env (K_pocketUser ongoing) r s =
     (if r = RBool True then (s, Done (RBool False)) else tearDown env ongoing s)"
| "resume env K_finallyCancel r s =
     (s\<lparr>pm_cancelLock := None,
        pm_threads := map (\<lambda>(w, fs). (case w of
            W_lock l \<Rightarrow> if Some l = pm_cancelLock s then W_ready r else w | _ \<Rightarrow> w, fs)) (pm_threads s)\<rparr>,
      Done r)"
| "resume env K_userActive r s =
     (if r \<noteq> RBool False then (s, Done RUnit)
      else if pm_isInAction s = None \<or> pm_cancelLock s \<noteq> None then (s, Done RUnit)
      else (ensureUserActiveWatch env s, Done RUnit))"
| "resume env K_prepare r s = (if r = RThrow then (s, Done RThrow) else prepareEnd env s)"
| "resume env (K_again ongoing) r s =
     (if pm_isInAction s \<noteq> Some ongoing then (s, Done RThrow)
      else if r \<noteq> RBool True then (s\<lparr>pm_isInAction := Some ABlank\<rparr>, Done RUnit)
      else (launch (pm_do CallSuspend (s\<lparr>pm_suspended := True\<rparr>), Wait W_logind [K_againDone]), Done RUnit))"
| "resume env K_againDone r s =
     (if r = RThrow
      then launch (turnOnScreen env (s\<lparr>pm_isInAction := None, pm_suspended := False\<rparr>)) else s,
      Done RUnit)"
| "resume env K_wakeUp r s =
     (if r = RBool True \<or> pm_isInAction s \<notin> {Some AIdleBlank, Some ABlank} then (s, Done RUnit)
      else let (i, s1) = pm_addSource env 10000 (removeNotificationTimeout s)
           in (launch (turnOnScreen env (s1\<lparr>pm_notificationTimeout := i\<rparr>)), Done RUnit))"
| "resume env K_inhibit r s = (if r = RUnit then s\<lparr>pm_inhibitor := True\<rparr> else s, Done RUnit)"

text \<open>
  One turn of thread \<open>i\<close>: what it waits for gives \<open>r\<close>, its innermost continuation runs, and the
  thread goes to the end of the list, unless it was the last continuation.
\<close>

definition runThread :: "pm_env \<Rightarrow> nat \<Rightarrow> pm_res \<Rightarrow> pm \<Rightarrow> pm" where
  "runThread env i r s =
     (case snd (pm_threads s ! i) of
        [] \<Rightarrow> s\<lparr>pm_threads := take i (pm_threads s) @ drop (Suc i) (pm_threads s)\<rparr>
      | k # ks \<Rightarrow>
          let (s1, out) = resume env k r (s\<lparr>pm_threads := take i (pm_threads s) @ drop (Suc i) (pm_threads s)\<rparr>)
          in (case out of
                Done r' \<Rightarrow> if ks = [] then s1 else s1\<lparr>pm_threads := pm_threads s1 @ [(W_ready r', ks)]\<rparr>
              | Wait w fs \<Rightarrow> s1\<lparr>pm_threads := pm_threads s1 @ [(w, fs @ ks)]\<rparr>))"

text \<open>The values a thread can be resumed with.\<close>

fun answers :: "pm_await \<Rightarrow> pm_res \<Rightarrow> bool" where
  "answers (W_ready r') r \<longleftrightarrow> r = r'"
| "answers W_lightbox r \<longleftrightarrow> r = RUnit"
| "answers W_proximity r \<longleftrightarrow> r \<noteq> RUnit"
| "answers W_inhibitAdaptive r \<longleftrightarrow> r \<noteq> RBool True \<and> r \<noteq> RBool False"
| "answers W_uninhibitAdaptive r \<longleftrightarrow> r \<noteq> RBool True \<and> r \<noteq> RBool False"
| "answers (W_sleep ms) r \<longleftrightarrow> r = RUnit"
| "answers W_can r \<longleftrightarrow> r = RBool True \<or> r = RBool False"
| "answers W_logind r \<longleftrightarrow> r = RUnit \<or> r = RThrow"
| "answers W_stage r \<longleftrightarrow> r = RUnit"
| "answers (W_lock l) r \<longleftrightarrow> False"
| "answers W_inhibit r \<longleftrightarrow> r = RUnit \<or> r = RThrow"

subsection \<open>Events\<close>

definition sessionIsActiveChanged :: "pm_env \<Rightarrow> pm \<Rightarrow> pm" where
  "sessionIsActiveChanged env s =
     (let was = pm_sessionIsActive s; s1 = s\<lparr>pm_sessionIsActive := pe_sessionActive env\<rparr>
      in if was = pe_sessionActive env then s1
         else if \<not> pe_sessionActive env \<and> pm_isInAction s1 \<noteq> None
         then launch (maybeCancelAction env CR_session_inactive s1) else s1)"

definition onUserActive :: "pm_env \<Rightarrow> pm \<Rightarrow> pm \<times> pm_outcome" where
  "onUserActive env s =
     (let s1 = s\<lparr>pm_userActiveId := 0\<rparr>
      in if pm_deferredIdleBlankId s1 \<noteq> 0
         then ((pm_removeSource (pm_deferredIdleBlankId s1) s1)\<lparr>pm_deferredIdleBlankId := 0\<rparr>, Done RUnit)
         else if pm_isInAction s1 = None then (s1, Done RThrow)
         else let s2 = s1\<lparr>pm_userAlreadyIdle := False\<rparr>
              in if pe_powerKeyEvent env then (s2, Done RUnit)
                 else then_frame (maybeCancelAction env CR_user_active s2) K_userActive)"

definition onWakeUpScreen :: "pm \<Rightarrow> pm" where
  "onWakeUpScreen s =
     (if pm_isInAction s \<notin> {Some AIdleBlank, Some ABlank} then s
      else launch (pm_do GetProximity s, Wait W_proximity [K_wakeUp]))"

definition pm_fire :: "nat \<Rightarrow> pm \<Rightarrow> pm" where
  "pm_fire i s = s\<lparr>pm_trace := pm_trace s @ [SourceFired i]\<rparr>"

definition onNotificationTimeout :: "pm \<Rightarrow> pm" where
  "onNotificationTimeout s =
     (launch (turnOffScreen DEFAULT_SCREEN_FADE_OUT_TIME_MS (pm_fire (pm_notificationTimeout s) s)))
       \<lparr>pm_notificationTimeout := 0\<rparr>"

definition onSuspendAgain :: "pm \<Rightarrow> pm" where
  "onSuspendAgain s =
     (case pm_suspendAgain s of
        None \<Rightarrow> s
      | Some (i, ongoing) \<Rightarrow>
          (launch (pm_do GetProximity (pm_fire i s), Wait W_proximity [K_again ongoing]))
            \<lparr>pm_suspendAgain := None\<rparr>)"

definition onDeferredIdleBlank :: "pm_env \<Rightarrow> pm \<Rightarrow> pm" where
  "onDeferredIdleBlank env s =
     (launch (doSystemAction env AIdleBlank True
        (if pe_shieldActive env then DEFAULT_SCREEN_FADE_OUT_TIME_MS else 10 * 1000)
        (pm_fire (pm_deferredIdleBlankId s) s)))\<lparr>pm_deferredIdleBlankId := 0\<rparr>"

definition onPowerHold :: "pm \<Rightarrow> pm" where
  "onPowerHold s =
     (pm_do ShowPowerMenu (pm_fire (pm_powerHoldId s) s))\<lparr>pm_powerPressHappened := False, pm_powerHoldId := 0\<rparr>"

definition onIgnoreTimeout :: "nat \<Rightarrow> pm \<Rightarrow> pm" where
  "onIgnoreTimeout i s = (pm_fire i s)\<lparr>pm_ignoreInput := False, pm_ignoreSources := remove1 i (pm_ignoreSources s)\<rparr>"

definition removeWatch :: "nat \<Rightarrow> pm \<Rightarrow> pm" where
  "removeWatch i s = (if i \<noteq> 0 then pm_do (RemoveIdleWatch i) s else s)"

definition addIdleWatch :: "pm_env \<Rightarrow> int \<Rightarrow> pm \<Rightarrow> nat \<times> pm" where
  "addIdleWatch env ms s = (let i = pe_watch_id env (pm_trace s) in (i, pm_do (AddIdleWatch i ms) s))"

definition updateScreensaverIdleWatch :: "pm_env \<Rightarrow> pm \<Rightarrow> pm" where
  "updateScreensaverIdleWatch env s =
     (let s1 = (removeWatch (pm_dimWatch s) s)\<lparr>pm_dimWatch := 0\<rparr>;
          s2 = (removeWatch (pm_screensaverWatch s1) s1)\<lparr>pm_screensaverWatch := 0\<rparr>;
          ms = (if pe_shieldActive env then 10 * 1000 else int (pe_idleDelay env) * 1000)
      in if ms = 0 then s2
         else let s3 = (if \<not> pe_shieldActive env \<and> pe_idleDim env
                        then let (i, s3) = addIdleWatch env (ms div 2) s2 in s3\<lparr>pm_dimWatch := i\<rparr> else s2);
                  (i, s4) = addIdleWatch env ms s3
              in s4\<lparr>pm_screensaverWatch := i\<rparr>)"

definition onDimWatch :: "pm_env \<Rightarrow> pm \<Rightarrow> pm" where
  "onDimWatch env s = launch (doSystemAction env ADim True DEFAULT_SCREEN_FADE_OUT_TIME_MS s)"

definition onScreensaverWatch :: "pm_env \<Rightarrow> pm \<Rightarrow> pm" where
  "onScreensaverWatch env s = launch (doSystemAction env AIdleBlank True
     (if pe_shieldActive env then DEFAULT_SCREEN_FADE_OUT_TIME_MS else 10 * 1000) s)"

definition updatePowersaveIdleWatch :: "pm_env \<Rightarrow> pm \<Rightarrow> pm" where
  "updatePowersaveIdleWatch env s =
     (let external = (pm_onExternalPower s = Some True);
          action = (if external then pe_acType env else pe_batteryType env);
          ms = (if external then pe_acTimeout env else pe_batteryTimeout env) * 1000;
          s1 = (removeWatch (pm_powersaveWatch s) s)\<lparr>pm_powersaveWatch := 0\<rparr>;
          s2 = (removeWatch (pm_powersaveMessageWatch s1) s1)\<lparr>pm_powersaveMessageWatch := 0\<rparr>
      in if pe_inVm env \<and> action \<in> {ASuspend, AHibernate} then s2
         else if pe_modeGdm env \<and> action = ALogout then s2
         else let s3 = (if action \<in> {ASuspend, AHibernate, AShutdown, ALogout}
                        then let (i, s3) = addIdleWatch env (ms - 60 * 1000) s2
                             in s3\<lparr>pm_powersaveMessageWatch := i\<rparr> else s2);
                  (i, s4) = addIdleWatch env ms s3
              in s4\<lparr>pm_powersaveWatch := i, pm_powersaveAction := action\<rparr>)"

definition onPowersaveMessage :: "pm_env \<Rightarrow> pm \<Rightarrow> pm" where
  "onPowersaveMessage env s =
     (if \<not> pe_notifySuspend env then s
      else let a = pm_powersaveAction s;
               s1 = (if a \<in> {ASuspend, AHibernate, ALogout}
                     then (pm_do (NotifySuspendSoon a) s)\<lparr>pm_warning := True\<rparr> else s)
           in pm_do (AddUserActiveWatch (pe_watch_id env (pm_trace s1))) s1)"

definition onWarningUserActive :: "pm \<Rightarrow> pm" where
  "onWarningUserActive s = (if pm_warning s then (pm_do DestroySuspendWarning s)\<lparr>pm_warning := False\<rparr> else s)"

definition onPowersaveWatch :: "pm_env \<Rightarrow> pm \<Rightarrow> pm" where
  "onPowersaveWatch env s =
     (case pm_powersaveAction s of
        ANothing \<Rightarrow> s
      | AInteractive \<Rightarrow> pm_do ShowPowerMenu s
      | a \<Rightarrow> launch (doSystemAction env a True (10 * 1000) s))"

definition upowerPropertiesChanged :: "pm_env \<Rightarrow> pm \<Rightarrow> pm" where
  "upowerPropertiesChanged env s =
     (let was = pm_onExternalPower s; now = Some (\<not> pe_onBattery env); s1 = s\<lparr>pm_onExternalPower := now\<rparr>
      in if now = was then s1
         else updatePowersaveIdleWatch env (pm_do (PlayPowerSound (\<not> pe_onBattery env)) s1))"

text \<open>The power button: \<open>None\<close> where the source throws.\<close>

definition powerRelease :: "pm_env \<Rightarrow> pm \<Rightarrow> pm option" where
  "powerRelease env s =
     (let screenIsOn = (pm_powerSaveMode s = 0)
      in if \<not> pm_powerPressHappened s then Some s
         else if pm_powerHoldId s = 0 then None
         else let s1 = (pm_removeSource (pm_powerHoldId s) (s\<lparr>pm_powerPressHappened := False\<rparr>))\<lparr>pm_powerHoldId := 0\<rparr>
              in if \<not> screenIsOn then Some s1
                 else if pe_buttonAction env = AInteractive then Some (pm_do ShowPowerMenu s1)
                 else let action = (if pe_buttonAction env = ANothing \<or> pe_isPhone env then ABlank
                                    else pe_buttonAction env)
                      in Some (launch (doSystemAction env action False DEFAULT_SCREEN_FADE_OUT_TIME_MS s1)))"

definition powerPress :: "pm_env \<Rightarrow> pm \<Rightarrow> pm" where
  "powerPress env s =
     (if pm_ignoreInput s then s
      else if pm_isInAction s \<noteq> None then launch (maybeCancelAction env CR_power_button s)
      else let (i, s1) = pm_addSource env 2000 (s\<lparr>pm_powerPressHappened := True\<rparr>)
           in s1\<lparr>pm_powerHoldId := i\<rparr>)"

definition pm_suspend :: "pm_env \<Rightarrow> pm \<Rightarrow> pm" where
  "pm_suspend env s = launch (doSystemAction env ASuspend False DEFAULT_SCREEN_FADE_OUT_TIME_MS s)"

definition pm_blank :: "pm_env \<Rightarrow> pm \<Rightarrow> pm" where
  "pm_blank env s = launch (doSystemAction env ABlank False DEFAULT_SCREEN_FADE_OUT_TIME_MS s)"

definition newPowerManager :: "pm_env \<Rightarrow> pm" where
  "newPowerManager env = updatePowersaveIdleWatch env (updateScreensaverIdleWatch env
     \<lparr>pm_isInAction = None, pm_suspended = False, pm_cancelLock = None, pm_locks = 0,
      pm_newActionQueued = False, pm_startCancellable = None, pm_cancellables = 0, pm_cancelled = [],
      pm_userActiveId = 0, pm_userAlreadyIdle = False, pm_deferredIdleBlankId = 0,
      pm_suspendAgain = None, pm_notificationTimeout = 0, pm_powerHoldId = 0,
      pm_powerPressHappened = False, pm_ignoreInput = False, pm_ignoreSources = [],
      pm_sessionIsActive = pe_sessionActive env, pm_inhibited = False, pm_inhibitor = False,
      pm_powerSaveMode = 0, pm_fadingOut = False, pm_fadingIn = False, pm_cursorInvisible = False,
      pm_adaptiveInhibited = False, pm_savedBacklight = None, pm_backlightLed = None,
      pm_dimWatch = 0, pm_screensaverWatch = 0, pm_powersaveWatch = 0, pm_powersaveMessageWatch = 0,
      pm_powersaveAction = ANothing, pm_warning = False, pm_onExternalPower = None,
      pm_threads = [], pm_trace = []\<rparr>)"

end
