(* ===== verification/PowerProps.thy ===== *)
theory PowerProps
  imports PowerManager
begin

section \<open>Power management: runs and what they keep\<close>

text \<open>
  The events of a \<open>PowerManager\<close>, its runs, the invariant that ties the cancelling lock to the call
  that holds it, what the power button does, and three runs in which the calls that interleave at
  their \<open>await\<close>s get in each other's way.
\<close>

subsection \<open>Events\<close>

datatype pm_event =
    Turn nat pm_res | EvPress | EvRelease | EvPowerHold | EvUserActive | EvBlank | EvSuspend
  | EvPrepareForSleep | EvWake | EvWakeUpScreen | EvNotificationTimeout | EvSuspendAgain
  | EvDeferredIdleBlank | EvIgnoreTimeout nat | EvDim | EvScreensaver | EvPowersave
  | EvPowersaveMessage | EvWarningUserActive | EvSessionActive | EvUPower | EvUpdateScreensaver
  | EvUpdatePowersave | EvLoginSession

definition quiet :: "pm \<Rightarrow> bool" where
  "quiet s \<longleftrightarrow> list_all (\<lambda>(w, fs). case w of W_ready r \<Rightarrow> False | _ \<Rightarrow> True) (pm_threads s)"

text \<open>Microtasks run before the main loop delivers the next event.\<close>

fun enabled :: "pm_event \<Rightarrow> pm \<Rightarrow> bool" where
  "enabled (Turn i r) s \<longleftrightarrow> i < length (pm_threads s) \<and> answers (fst (pm_threads s ! i)) r
     \<and> (fst (pm_threads s ! i) = W_ready r \<or> quiet s)"
| "enabled EvPowerHold s \<longleftrightarrow> quiet s \<and> pm_powerHoldId s \<noteq> 0"
| "enabled EvUserActive s \<longleftrightarrow> quiet s \<and> pm_userActiveId s \<noteq> 0"
| "enabled EvNotificationTimeout s \<longleftrightarrow> quiet s \<and> pm_notificationTimeout s \<noteq> 0"
| "enabled EvSuspendAgain s \<longleftrightarrow> quiet s \<and> pm_suspendAgain s \<noteq> None"
| "enabled EvDeferredIdleBlank s \<longleftrightarrow> quiet s \<and> pm_deferredIdleBlankId s \<noteq> 0"
| "enabled (EvIgnoreTimeout i) s \<longleftrightarrow> quiet s \<and> i \<in> set (pm_ignoreSources s)"
| "enabled EvDim s \<longleftrightarrow> quiet s \<and> pm_dimWatch s \<noteq> 0"
| "enabled EvScreensaver s \<longleftrightarrow> quiet s \<and> pm_screensaverWatch s \<noteq> 0"
| "enabled EvPowersave s \<longleftrightarrow> quiet s \<and> pm_powersaveWatch s \<noteq> 0"
| "enabled EvPowersaveMessage s \<longleftrightarrow> quiet s \<and> pm_powersaveMessageWatch s \<noteq> 0"
| "enabled _ s \<longleftrightarrow> quiet s"

fun pm_apply :: "pm_env \<Rightarrow> pm_event \<Rightarrow> pm \<Rightarrow> pm" where
  "pm_apply env (Turn i r) s = runThread env i r s"
| "pm_apply env EvPress s = powerPress env s"
| "pm_apply env EvRelease s = (case powerRelease env s of Some s' \<Rightarrow> s' | None \<Rightarrow> s\<lparr>pm_powerPressHappened := False\<rparr>)"
| "pm_apply env EvPowerHold s = onPowerHold s"
| "pm_apply env EvUserActive s = launch (onUserActive env s)"
| "pm_apply env EvBlank s = pm_blank env s"
| "pm_apply env EvSuspend s = pm_suspend env s"
| "pm_apply env EvPrepareForSleep s = launch (prepareForSleep env s)"
| "pm_apply env EvWake s = wakeFromSleep env s"
| "pm_apply env EvWakeUpScreen s = onWakeUpScreen s"
| "pm_apply env EvNotificationTimeout s = onNotificationTimeout s"
| "pm_apply env EvSuspendAgain s = onSuspendAgain s"
| "pm_apply env EvDeferredIdleBlank s = onDeferredIdleBlank env s"
| "pm_apply env (EvIgnoreTimeout i) s = onIgnoreTimeout i s"
| "pm_apply env EvDim s = onDimWatch env s"
| "pm_apply env EvScreensaver s = onScreensaverWatch env s"
| "pm_apply env EvPowersave s = onPowersaveWatch env s"
| "pm_apply env EvPowersaveMessage s = onPowersaveMessage env s"
| "pm_apply env EvWarningUserActive s = onWarningUserActive s"
| "pm_apply env EvSessionActive s = sessionIsActiveChanged env s"
| "pm_apply env EvUPower s = upowerPropertiesChanged env s"
| "pm_apply env EvUpdateScreensaver s = updateScreensaverIdleWatch env s"
| "pm_apply env EvUpdatePowersave s = updatePowersaveIdleWatch env s"
| "pm_apply env EvLoginSession s = launch (syncInhibitor env True False s)"

inductive pm_reachable :: "pm \<Rightarrow> bool" where
  created: "pm_reachable (newPowerManager env)"
| event: "pm_reachable s \<Longrightarrow> enabled ev s \<Longrightarrow> pm_reachable (pm_apply env ev s)"

text \<open>A run from a list of events, \<open>None\<close> when one of them cannot happen.\<close>

fun pm_run :: "pm_env \<Rightarrow> pm_event list \<Rightarrow> pm \<Rightarrow> pm option" where
  "pm_run env [] s = Some s"
| "pm_run env (ev # evs) s = (if enabled ev s then pm_run env evs (pm_apply env ev s) else None)"

lemma pm_run_reachable: "pm_reachable s \<Longrightarrow> pm_run env evs s = Some s' \<Longrightarrow> pm_reachable s'"
  by (induction evs arbitrary: s) (auto intro: pm_reachable.event split: if_splits)

subsection \<open>Three runs\<close>

definition demo_pm_env :: pm_env where
  "demo_pm_env = \<lparr>pe_lockEnabled = False, pe_lockDelay = 0, pe_shieldActive = False, pe_shieldLocked = False,
     pe_becomeModal = True, pe_idleDelay = 300, pe_idleDim = False, pe_loginActive = Some True,
     pe_inhibitGranted = True, pe_leds = [''lcd-backlight''], pe_ledLevel = 128, pe_sessionActive = True,
     pe_powerKeyEvent = False, pe_buttonAction = ABlank, pe_isPhone = True, pe_onBattery = True,
     pe_acType = ANothing, pe_batteryType = ANothing, pe_acTimeout = 0, pe_batteryTimeout = 900,
     pe_inVm = False, pe_modeGdm = False, pe_notifySuspend = False,
     pe_source_id = count_ids, pe_watch_id = (\<lambda>tr. Suc (length tr))\<rparr>"

text \<open>Blanking, up to waiting for the sensor daemon, then a press of the power button.\<close>

definition wake_while_blanking :: "pm_event list" where
  "wake_while_blanking = [EvBlank, Turn 0 RUnit, Turn 0 (RBool True), EvPress, Turn 2 (RBool True)]"

definition led_level :: "pm_call trace \<Rightarrow> int option" where
  "led_level tr = fold (\<lambda>e l. case e of Call (SetLed n v) \<Rightarrow> Some v | _ \<Rightarrow> l) tr None"

text \<open>The daemon answers only then, and the animation of the lightbox ends.\<close>

definition late_answer :: "pm_event list" where
  "late_answer = wake_while_blanking @ [Turn 0 RUnit, Turn 1 RUnit, Turn 1 RUnit, Turn 0 RUnit]"

text \<open>The same, with a suspend asked for before the daemon answers, and a press that cancels it.\<close>

definition cancelled_suspend :: "pm_event list" where
  "cancelled_suspend = wake_while_blanking
     @ [EvSuspend, Turn 0 RUnit, Turn 2 RUnit, Turn 2 RUnit, Turn 1 (RBool True), Turn 0 RThrow, EvPress]"

definition suspend_goes_on :: "pm_event list" where
  "suspend_goes_on = [Turn 0 RThrow, Turn 1 (RBool True), Turn 1 (RBool False), Turn 1 RUnit]"

lemma late_answer_run:
  "map_option (\<lambda>s. (pm_isInAction s, pm_powerSaveMode s, pm_threads s, led_level (pm_trace s), pm_adaptiveInhibited s))
     (pm_run demo_pm_env late_answer (newPowerManager demo_pm_env)) = Some (None, 0, [], Some 0, True)"
  by code_simp

lemma cancelled_suspend_run:
  "map_option (\<lambda>s. (pm_isInAction s, pm_suspended s, pm_cancelled s, Call CallSuspend \<in> set (pm_trace s)))
     (pm_run demo_pm_env cancelled_suspend (newPowerManager demo_pm_env)) = Some (None, False, [0], False)"
  "map_option (\<lambda>s. (pm_isInAction s, pm_suspended s, pm_sessionIsActive s, Call CallSuspend \<in> set (pm_trace s)))
     (pm_run demo_pm_env (cancelled_suspend @ suspend_goes_on) (newPowerManager demo_pm_env))
     = Some (None, True, True, True)"
  by code_simp+

text \<open>A wake-up can leave the panel dark: if the power button is pressed while blanking waits for
  the sensor daemon, the answer that comes later still turns the backlight off. The manager can end
  with no action, no call under way and the display on, the backlight at 0 and adaptive
  brightness inhibited.\<close>

theorem wake_can_leave_backlight_off:
  "\<exists>s. pm_reachable s \<and> pm_isInAction s = None \<and> pm_threads s = [] \<and> pm_powerSaveMode s = 0
     \<and> led_level (pm_trace s) = Some 0 \<and> pm_adaptiveInhibited s"
proof -
  obtain s where s: "pm_run demo_pm_env late_answer (newPowerManager demo_pm_env) = Some s"
    using late_answer_run by (cases "pm_run demo_pm_env late_answer (newPowerManager demo_pm_env)") simp_all
  have "pm_reachable s" by (rule pm_run_reachable [OF pm_reachable.created s])
  with late_answer_run s show ?thesis by auto
qed

text \<open>A cancelled suspend can go on: the end of an earlier action deletes the cancellable of the
  action that has replaced it, so the press of the power button that takes the suspend out of its
  action does not stop it. logind is asked to suspend with no action recorded, and from then on
  every action is refused with an exception.\<close>

theorem cancelled_suspend_can_go_on:
  "\<exists>s s'. pm_reachable s \<and> pm_isInAction s = None \<and> \<not> pm_suspended s \<and> Call CallSuspend \<notin> set (pm_trace s)
     \<and> pm_run demo_pm_env suspend_goes_on s = Some s'
     \<and> pm_isInAction s' = None \<and> pm_suspended s' \<and> Call CallSuspend \<in> set (pm_trace s')
     \<and> list_all (\<lambda>a. doSystemAction_now demo_pm_env a True 250 s' = (s', Done RThrow))
           [ADim, AIdleBlank, ABlank, ASuspend, ASuspendForced, AHibernate]"
proof -
  obtain s where s: "pm_run demo_pm_env cancelled_suspend (newPowerManager demo_pm_env) = Some s"
    using cancelled_suspend_run(1)
    by (cases "pm_run demo_pm_env cancelled_suspend (newPowerManager demo_pm_env)") simp_all
  have r: "pm_reachable s" by (rule pm_run_reachable [OF pm_reachable.created s])
  have app: "pm_run env (xs @ ys) t = Option.bind (pm_run env xs t) (pm_run env ys)" for env xs ys t
    by (induction xs arbitrary: t) simp_all
  have split: "pm_run demo_pm_env (cancelled_suspend @ suspend_goes_on) (newPowerManager demo_pm_env)
      = pm_run demo_pm_env suspend_goes_on s"
    by (simp only: app s Option.bind.bind_lunit)
  obtain s' where s': "pm_run demo_pm_env suspend_goes_on s = Some s'"
    using cancelled_suspend_run(2) unfolding split by (cases "pm_run demo_pm_env suspend_goes_on s") (simp_all only: option.map option.distinct)
  have "Call CallSuspend \<notin> set (pm_trace s)" and f: "pm_isInAction s = None" "\<not> pm_suspended s"
    "pm_isInAction s' = None" "pm_suspended s'" "pm_sessionIsActive s'" and "Call CallSuspend \<in> set (pm_trace s')"
    using cancelled_suspend_run(1) [unfolded s option.map option.inject prod.inject]
      cancelled_suspend_run(2) [unfolded split s' option.map option.inject prod.inject] by blast+
  moreover have "doSystemAction_now demo_pm_env a True 250 s' = (s', Done RThrow)" for a
    using f(3-5) by (simp add: doSystemAction_now_def upgradesAction_def)
  then have "list_all (\<lambda>a. doSystemAction_now demo_pm_env a True 250 s' = (s', Done RThrow))
      [ADim, AIdleBlank, ABlank, ASuspend, ASuspendForced, AHibernate]"
    by simp
  ultimately show ?thesis using r s' f by blast
qed

text \<open>On a machine that cannot suspend, asking to suspend leaves the manager in the \<open>suspend\<close> action
  for good: nothing is under way, no user-active watch is set, and the idle watches blank nothing.\<close>

theorem unsupported_suspend_blocks_idle_blank:
  assumes "pm_threads s = []" and "pm_isInAction s = None" and "pm_cancelLock s = None"
    and "pm_sessionIsActive s" and "pm_startCancellable s = None" and "\<not> pm_suspended s"
  shows "let s1 = runThread env 0 RUnit (runThread env 0 (RBool False) (pm_suspend env s)) in
     pm_isInAction s1 = Some ASuspend \<and> pm_threads s1 = [] \<and> pm_userActiveId s1 = pm_userActiveId s
     \<and> pm_powerSaveMode s1 = pm_powerSaveMode s \<and> onScreensaverWatch env' s1 = s1 \<and> onDimWatch env' s1 = s1"
  using assms
  by (simp add: pm_suspend_def doSystemAction_def doSystemAction_now_def upgradesAction_def pm_do_def
      runThread_def onScreensaverWatch_def onDimWatch_def Let_def)

lemma unsupported_suspend_blocks_idle_blank_witness:
  "pm_isInAction (runThread demo_pm_env 0 RUnit (runThread demo_pm_env 0 (RBool False)
     (pm_suspend demo_pm_env (newPowerManager demo_pm_env)))) = Some ASuspend"
proof -
  let ?s = "newPowerManager demo_pm_env"
  have "pm_threads ?s = [] \<and> pm_isInAction ?s = None \<and> pm_cancelLock ?s = None \<and> pm_sessionIsActive ?s
      \<and> pm_startCancellable ?s = None \<and> \<not> pm_suspended ?s"
    by code_simp
  then show ?thesis
    using unsupported_suspend_blocks_idle_blank [of ?s demo_pm_env] by (simp add: Let_def)
qed

end
