(* ===== verification/PowerLock.thy ===== *)
theory PowerLock
  imports PowerProps
begin

section \<open>Power management: the cancelling lock and the power button\<close>

text \<open>
  \<open>_maybeCancelAction\<close> makes a promise (\<open>_cancelLock\<close>) that its \<open>finally\<close> resolves, and
  \<open>_doSystemAction\<close> waits for it. What a run does to the lock is seen through \<open>lock_threads\<close>: of each
  call under way, the lock it waits for and how many locks it has still to release. Every operation
  but those two keeps that view, which is what the lemmas of \<open>lock_simps\<close> say.
\<close>

named_theorems lock_simps

definition lock_role :: "pm_thread \<Rightarrow> nat option \<times> nat" where
  "lock_role t = (case fst t of W_lock l \<Rightarrow> Some l | _ \<Rightarrow> None, count_list (snd t) K_finallyCancel)"

definition lock_threads :: "pm_thread list \<Rightarrow> (nat option \<times> nat) list" where
  "lock_threads ts = [x \<leftarrow> map lock_role ts. x \<noteq> (None, 0)]"

definition lock_view :: "pm \<Rightarrow> nat option \<times> (nat option \<times> nat) list" where
  "lock_view s = (pm_cancelLock s, lock_threads (pm_threads s))"

text \<open>One holder when the lock is held, none otherwise; every waiter waits for the current lock.\<close>

definition lock_ok :: "nat option \<times> (nat option \<times> nat) list \<Rightarrow> bool" where
  "lock_ok v \<longleftrightarrow> list_all (\<lambda>x. x = (None, 1) \<or> fst v \<noteq> None \<and> x = (fst v, 0)) (snd v)
     \<and> count_list (snd v) (None, 1) = (if fst v = None then 0 else 1)"

fun plain :: "pm_outcome \<Rightarrow> bool" where
  "plain (Done r) \<longleftrightarrow> True"
| "plain (Wait w fs) \<longleftrightarrow> (\<forall>l. w \<noteq> W_lock l) \<and> K_finallyCancel \<notin> set fs"

lemma lock_threads_append [simp]: "lock_threads (xs @ ys) = lock_threads xs @ lock_threads ys"
  and lock_threads_Nil [simp]: "lock_threads [] = []"
  and lock_threads_Cons: "lock_threads (x # xs) = (if lock_role x = (None, 0) then [] else [lock_role x]) @ lock_threads xs"
  by (simp_all add: lock_threads_def)

lemma lock_threads_relabel:
  assumes "\<And>w fs. (w, fs) \<in> set ts \<Longrightarrow> lock_role (f (w, fs)) = lock_role (w, fs)"
  shows "lock_threads (map f ts) = lock_threads ts"
proof -
  have m: "map lock_role (map f ts) = map lock_role ts" using assms by auto
  show ?thesis unfolding lock_threads_def m ..
qed

lemma count_list_append [simp]: "count_list (xs @ ys) k = count_list xs k + count_list ys k"
  by (induction xs) simp_all

lemma fst_then_frame [lock_simps]: "fst (then_frame x k) = fst x"
  by (induction x k rule: then_frame.induct) simp_all

lemma plain_then_frame [lock_simps]:
  "plain (snd (then_frame x k)) \<longleftrightarrow> plain (snd x) \<and> k \<noteq> K_finallyCancel"
  by (induction x k rule: then_frame.induct) auto

lemma lock_role_plain: "plain (Wait w fs) \<Longrightarrow> lock_role (w, fs) = (None, 0)"
  by (simp add: lock_role_def count_list_0_iff split: pm_await.split)

lemma lock_view_launch [lock_simps]: "plain (snd x) \<Longrightarrow> lock_view (launch x) = lock_view (fst x)"
  by (induction x rule: launch.induct) (simp_all add: lock_view_def lock_threads_Cons lock_role_plain)

lemma lock_view_pm_do [lock_simps]: "lock_view (pm_do c s) = lock_view s"
  by (simp add: pm_do_def lock_view_def)

lemma lock_view_upd [lock_simps]:
  "lock_view (s\<lparr>pm_isInAction := a\<rparr>) = lock_view s" "lock_view (s\<lparr>pm_suspended := b\<rparr>) = lock_view s"
  "lock_view (s\<lparr>pm_newActionQueued := b\<rparr>) = lock_view s" "lock_view (s\<lparr>pm_startCancellable := o1\<rparr>) = lock_view s"
  "lock_view (s\<lparr>pm_locks := n\<rparr>) = lock_view s"
  "lock_view (s\<lparr>pm_cancellables := n\<rparr>) = lock_view s" "lock_view (s\<lparr>pm_cancelled := ns\<rparr>) = lock_view s"
  "lock_view (s\<lparr>pm_userActiveId := n\<rparr>) = lock_view s" "lock_view (s\<lparr>pm_userAlreadyIdle := b\<rparr>) = lock_view s"
  "lock_view (s\<lparr>pm_deferredIdleBlankId := n\<rparr>) = lock_view s" "lock_view (s\<lparr>pm_suspendAgain := o2\<rparr>) = lock_view s"
  "lock_view (s\<lparr>pm_notificationTimeout := n\<rparr>) = lock_view s" "lock_view (s\<lparr>pm_powerHoldId := n\<rparr>) = lock_view s"
  "lock_view (s\<lparr>pm_powerPressHappened := b\<rparr>) = lock_view s" "lock_view (s\<lparr>pm_ignoreInput := b\<rparr>) = lock_view s"
  "lock_view (s\<lparr>pm_ignoreSources := ns\<rparr>) = lock_view s" "lock_view (s\<lparr>pm_sessionIsActive := b\<rparr>) = lock_view s"
  "lock_view (s\<lparr>pm_inhibited := b\<rparr>) = lock_view s" "lock_view (s\<lparr>pm_inhibitor := b\<rparr>) = lock_view s"
  "lock_view (s\<lparr>pm_powerSaveMode := n\<rparr>) = lock_view s" "lock_view (s\<lparr>pm_fadingOut := b\<rparr>) = lock_view s"
  "lock_view (s\<lparr>pm_fadingIn := b\<rparr>) = lock_view s" "lock_view (s\<lparr>pm_cursorInvisible := b\<rparr>) = lock_view s"
  "lock_view (s\<lparr>pm_adaptiveInhibited := b\<rparr>) = lock_view s" "lock_view (s\<lparr>pm_savedBacklight := o3\<rparr>) = lock_view s"
  "lock_view (s\<lparr>pm_backlightLed := o4\<rparr>) = lock_view s" "lock_view (s\<lparr>pm_dimWatch := n\<rparr>) = lock_view s"
  "lock_view (s\<lparr>pm_screensaverWatch := n\<rparr>) = lock_view s" "lock_view (s\<lparr>pm_powersaveWatch := n\<rparr>) = lock_view s"
  "lock_view (s\<lparr>pm_powersaveMessageWatch := n\<rparr>) = lock_view s" "lock_view (s\<lparr>pm_powersaveAction := c\<rparr>) = lock_view s"
  "lock_view (s\<lparr>pm_warning := b\<rparr>) = lock_view s" "lock_view (s\<lparr>pm_onExternalPower := o5\<rparr>) = lock_view s"
  "lock_view (s\<lparr>pm_trace := tr\<rparr>) = lock_view s"
  by (simp_all add: lock_view_def)

lemma lock_view_removeTransitions [lock_simps]: "lock_view (removeTransitions s) = lock_view s"
  unfolding lock_view_def removeTransitions_def
  by (simp add: split_def) (rule lock_threads_relabel, simp add: lock_role_def)

lemma lock_view_cancelInhibit [lock_simps]: "lock_view (cancelInhibit s) = lock_view s"
  unfolding lock_view_def cancelInhibit_def
  by (simp add: split_def) (rule lock_threads_relabel, simp add: lock_role_def)

lemma lock_view_small [lock_simps]:
  "lock_view (pm_removeSource i s) = lock_view s" "lock_view (removeWatch i s) = lock_view s"
  "lock_view (snd (pm_addSource env ms s)) = lock_view s" "lock_view (snd (addIdleWatch env ms s)) = lock_view s"
  "lock_view (ensureUserActiveWatch env s) = lock_view s" "lock_view (lightOn n s) = lock_view s"
  "lock_view (lightOff n s) = lock_view s" "lock_view (snd (findBacklightLed env s)) = lock_view s"
  "lock_view (cancelStart s) = lock_view s" "lock_view (pm_fire i s) = lock_view s"
  by (simp_all add: pm_removeSource_def removeWatch_def pm_addSource_def addIdleWatch_def ensureUserActiveWatch_def
      lightOn_def lightOff_def findBacklightLed_def cancelStart_def pm_fire_def Let_def lock_simps split: option.split)

lemma lock_view_small2 [lock_simps]:
  "lock_view (removeNotificationTimeout s) = lock_view s" "lock_view (removeSuspendAgain s) = lock_view s"
  "lock_view (backlightOff env s) = lock_view s"
  by (simp_all add: removeNotificationTimeout_def removeSuspendAgain_def backlightOff_def Let_def split_def lock_simps
      split: option.split)

text \<open>Calls that neither wait for a lock nor hold one: the view is kept, and so is what they leave waiting.\<close>

definition lockless :: "pm \<times> pm_outcome \<Rightarrow> pm \<Rightarrow> bool" where
  "lockless x s \<longleftrightarrow> lock_view (fst x) = lock_view s \<and> plain (snd x)"

lemma lockless_launch: "lockless x s \<Longrightarrow> lock_view (launch x) = lock_view s"
  by (simp add: lockless_def lock_simps)

lemma lockless_then_frame [lock_simps]: "lockless (then_frame x k) s \<longleftrightarrow> lockless x s \<and> k \<noteq> K_finallyCancel"
  by (auto simp: lockless_def lock_simps)

lemma lockless_from: "(\<And>t. lockless (F t) t) \<Longrightarrow> lockless (F s') s \<longleftrightarrow> lock_view s' = lock_view s"
  by (simp add: lockless_def)

lemma lockless_Done [simp]: "lockless (s1, Done r) s \<longleftrightarrow> lock_view s1 = lock_view s"
  and lockless_Wait [simp]: "lockless (s1, Wait w fs) s \<longleftrightarrow> lock_view s1 = lock_view s
     \<and> (\<forall>l. w \<noteq> W_lock l) \<and> K_finallyCancel \<notin> set fs"
  by (simp_all add: lockless_def)

lemma lockless_fadeOut [lock_simps]: "lockless (fadeOut ms s') s \<longleftrightarrow> lock_view s' = lock_view s"
  by (rule lockless_from) (simp add: fadeOut_def Let_def lock_simps)

lemma lockless_turnOffScreen [lock_simps]: "lockless (turnOffScreen ms s') s \<longleftrightarrow> lock_view s' = lock_view s"
  by (rule lockless_from) (simp add: turnOffScreen_def lock_simps)

lemma lockless_lockAndTurnOff [lock_simps]:
  "lockless (lockAndTurnOff env ms s') s \<longleftrightarrow> lock_view s' = lock_view s"
  by (rule lockless_from) (simp add: lockAndTurnOff_def lock_simps)

lemma lockless_fadeIn [lock_simps]: "lockless (fadeIn s') s \<longleftrightarrow> lock_view s' = lock_view s"
  by (rule lockless_from) (simp add: fadeIn_def lock_simps)

lemma lockless_screenOn [lock_simps]: "lockless (screenOn env s') s \<longleftrightarrow> lock_view s' = lock_view s"
  by (rule lockless_from) (simp add: screenOn_def Let_def split_def lock_simps split: option.split)

lemma lockless_turnOnScreen [lock_simps]: "lockless (turnOnScreen env s') s \<longleftrightarrow> lock_view s' = lock_view s"
  by (rule lockless_from) (simp add: turnOnScreen_def Let_def lock_simps)

lemma lock_view_launch_screen [lock_simps]:
  "lock_view (launch (turnOnScreen env s)) = lock_view s" "lock_view (launch (turnOffScreen ms s)) = lock_view s"
  by (rule lockless_launch, simp add: lock_simps)+

lemma lockless_enterAction [lock_simps]:
  "lockless (enterAction env action early fade cid s') s \<longleftrightarrow> lock_view s' = lock_view s"
  by (rule lockless_from, cases action) (simp_all add: Let_def lock_simps)

lemma lockless_doSystemAction_now [lock_simps]:
  "lockless (doSystemAction_now env action early fade s') s \<longleftrightarrow> lock_view s' = lock_view s"
  by (rule lockless_from) (simp add: doSystemAction_now_def Let_def lock_simps)

lemma lock_view_undoAction [lock_simps]: "lock_view (undoAction env action s) = lock_view s"
  by (cases action) (simp_all add: Let_def lock_simps)

lemma lockless_tearDown [lock_simps]: "lockless (tearDown env action s') s \<longleftrightarrow> lock_view s' = lock_view s"
  by (rule lockless_from) (simp add: tearDown_def Let_def split_def lock_simps)

lemma lockless_cancelBody [lock_simps]:
  "lockless (cancelBody env reason action s') s \<longleftrightarrow> lock_view s' = lock_view s"
  by (rule lockless_from, cases reason) (simp_all add: lock_simps)

lemma lockless_syncInhibitor [lock_simps]:
  "lockless (syncInhibitor env b sync s') s \<longleftrightarrow> lock_view s' = lock_view s"
  by (rule lockless_from) (simp add: syncInhibitor_def Let_def lock_simps)

lemma lock_view_launch_syncInhibitor [lock_simps]: "lock_view (launch (syncInhibitor env b sync s)) = lock_view s"
  by (rule lockless_launch) (simp add: lock_simps)

lemma lockless_prepareEnd [lock_simps]: "lockless (prepareEnd env s') s \<longleftrightarrow> lock_view s' = lock_view s"
  by (rule lockless_from) (simp add: prepareEnd_def lock_simps)

lemma lockless_goToSleep [lock_simps]: "lockless (goToSleep env action early s') s \<longleftrightarrow> lock_view s' = lock_view s"
  by (rule lockless_from) (simp add: goToSleep_def Let_def lock_simps)

lemma lock_view_sleepFailed [lock_simps]: "lock_view (sleepFailed env s) = lock_view s"
  by (simp add: sleepFailed_def lock_simps)

lemma lockless_idleBlankLock [lock_simps]:
  "lockless (idleBlankLock env cid early s') s \<longleftrightarrow> lock_view s' = lock_view s"
  by (rule lockless_from) (simp add: idleBlankLock_def pm_sleep_def Let_def lock_simps)

text \<open>Every continuation but the \<open>finally\<close> of a cancellation.\<close>

lemma lockless_resume: "k \<noteq> K_finallyCancel \<Longrightarrow> lockless (resume env k r s) s"
  by (cases k) (simp_all add: pm_sleep_def Let_def split_def lock_simps del: launch.simps)

subsection \<open>The lock\<close>

lemma lock_ok_cong: "lock_view s' = lock_view s \<Longrightarrow> lock_ok (lock_view s') = lock_ok (lock_view s)"
  by simp

lemma lock_ok_None: "lock_ok (None, v) \<longleftrightarrow> v = []"
  by (cases v) (auto simp: lock_ok_def)

lemma lock_ok_snoc_waiter: "lock_ok (Some l, v) \<Longrightarrow> lock_ok (Some l, v @ [(Some l, 0)])"
  by (simp add: lock_ok_def)

lemma lock_ok_rotate: "lock_ok (c, xs @ ys @ zs) \<longleftrightarrow> lock_ok (c, xs @ zs @ ys)"
  by (auto simp: lock_ok_def)

lemma lock_view_launch_then:
  "k \<noteq> K_finallyCancel \<Longrightarrow> lock_view (launch (then_frame x k)) = lock_view (launch x)"
  by (induction x k rule: then_frame.induct)
    (simp_all add: lock_view_def lock_threads_Cons lock_role_def)

lemma lock_ok_doSystemAction:
  assumes "lock_ok (lock_view s)"
  shows "lock_ok (lock_view (launch (doSystemAction env action early fade s)))"
proof (cases "pm_cancelLock s")
  case None
  then show ?thesis using assms by (simp add: doSystemAction_def lock_simps lockless_launch)
next
  case (Some l)
  then have "lock_ok (Some l, lock_threads (pm_threads s) @ [(Some l, 0)])"
    using assms by (intro lock_ok_snoc_waiter) (simp add: lock_view_def)
  then show ?thesis
    using Some by (simp add: doSystemAction_def lock_view_def lock_threads_Cons lock_role_def)
qed

lemma lock_view_launch_finally:
  assumes "plain out"
  shows "lock_view (launch (then_frame (s, out) K_finallyCancel))
     = (pm_cancelLock s, lock_threads (pm_threads s) @ [(None, 1)])"
proof (cases out)
  case (Done r)
  then show ?thesis by (simp add: lock_view_def lock_threads_Cons lock_role_def)
next
  case (Wait w fs)
  then have "lock_role (w, fs @ [K_finallyCancel]) = (None, 1)"
    using assms by (simp add: lock_role_def count_list_0_iff split: pm_await.split)
  with Wait show ?thesis by (simp add: lock_view_def lock_threads_Cons)
qed

lemma lock_ok_maybeCancelAction:
  assumes ok: "lock_ok (lock_view s)"
  shows "lock_ok (lock_view (launch (maybeCancelAction env reason s)))"
proof (cases "pm_isInAction s = None \<or> pm_suspended s \<or> pm_cancelLock s \<noteq> None")
  case True
  then show ?thesis
    using ok by (auto simp: maybeCancelAction_def lock_simps split: option.split)
next
  case False
  then obtain a where a: "pm_isInAction s = Some a" "\<not> pm_suspended s" "pm_cancelLock s = None" by auto
  obtain s1 out where b: "cancelBody env reason a s = (s1, out)" by (cases "cancelBody env reason a s")
  have "lockless (s1, out) s" using lockless_cancelBody [of env reason a s s] b by simp
  then have v: "lock_view s1 = (None, [])" and pl: "plain out"
    using ok a(3) by (simp_all add: lockless_def lock_view_def lock_ok_None)
  have "lock_view (launch (maybeCancelAction env reason s)) = (Some (pm_locks s1), [(None, 1)])"
    using v by (simp add: maybeCancelAction_def a b lock_view_launch_finally [OF pl]) (simp add: lock_view_def)
  then show ?thesis by (simp add: lock_ok_def)
qed

lemma lock_ok_prepareForSleep:
  assumes "lock_ok (lock_view s)"
  shows "lock_ok (lock_view (launch (prepareForSleep env s)))"
proof -
  define s2 where "s2 = removeSuspendAgain (if pm_warning s then (pm_do DestroySuspendWarning s)\<lparr>pm_warning := False\<rparr> else s)"
  have ok: "lock_ok (lock_view s2)" using assms by (simp add: s2_def lock_simps)
  show ?thesis
    unfolding prepareForSleep_def Let_def s2_def [symmetric]
    using lock_ok_doSystemAction [OF ok] ok
    by (simp add: lock_view_launch_then lockless_launch [of "prepareEnd env s2" s2] lock_simps)
qed

lemma lock_ok_onUserActive:
  assumes "lock_ok (lock_view s)"
  shows "lock_ok (lock_view (launch (onUserActive env s)))"
  using assms lock_ok_maybeCancelAction
  by (simp add: onUserActive_def Let_def lock_view_launch_then lock_simps)

lemma lock_ok_wakeFromSleep:
  assumes "lock_ok (lock_view s)"
  shows "lock_ok (lock_view (wakeFromSleep env s))"
  using assms by (simp add: wakeFromSleep_def Let_def split_def lock_simps lock_ok_maybeCancelAction)

text \<open>The turn of a thread: the one that releases the lock, and any other.\<close>

lemma lock_ok_middle:
  assumes ok: "lock_ok (c, xs @ [x] @ ys)" and x: "snd x \<noteq> 0"
  shows "x = (None, 1) \<and> c \<noteq> None \<and> list_all (\<lambda>x. x = (c, 0)) (xs @ ys)"
proof -
  have each: "y = (None, 1) \<or> c \<noteq> None \<and> y = (c, 0)" if "y \<in> set (xs @ [x] @ ys)" for y
    using ok that unfolding lock_ok_def list_all_iff fst_conv snd_conv by blast
  have one: "x = (None, 1)" using each [of x] x by auto
  have "count_list (xs @ [x] @ ys) (None, 1) = (if c = None then 0 else 1)"
    using ok by (simp only: lock_ok_def fst_conv snd_conv)
  then have c: "c \<noteq> None" and "count_list (xs @ ys) (None, 1) = 0"
    using one by (simp_all split: if_splits)
  then have "(None, 1) \<notin> set (xs @ ys)" by (simp only: count_list_0_iff not_False_eq_True)
  then have "list_all (\<lambda>x. x = (c, 0)) (xs @ ys)" using each by (fastforce simp: list_all_iff)
  with one c show ?thesis by blast
qed

lemma lock_ok_release:
  assumes ok: "lock_ok (lock_view s)" and i: "i < length (pm_threads s)"
    and t: "pm_threads s ! i = (w, K_finallyCancel # ks)"
  shows "lock_ok (lock_view (runThread env i r s))"
proof -
  let ?A = "take i (pm_threads s)" and ?B = "drop (Suc i) (pm_threads s)" and ?c = "pm_cancelLock s"
  let ?f = "\<lambda>(w, fs). (case w of W_lock l \<Rightarrow> if Some l = ?c then W_ready r else w | _ \<Rightarrow> w, fs)"
  have sp: "pm_threads s = ?A @ (w, K_finallyCancel # ks) # ?B"
    using id_take_nth_drop [OF i] t by simp
  have role: "lock_role (w, K_finallyCancel # ks) \<noteq> (None, 0)" by (simp add: lock_role_def)
  have "lock_ok (?c, lock_threads ?A @ [lock_role (w, K_finallyCancel # ks)] @ lock_threads ?B)"
    using ok role unfolding lock_view_def by (subst (asm) sp) (simp add: lock_threads_Cons)
  then have k: "lock_role (w, K_finallyCancel # ks) = (None, 1)" and c: "?c \<noteq> None"
    and AB: "list_all (\<lambda>x. x = (?c, 0)) (lock_threads ?A @ lock_threads ?B)"
    using lock_ok_middle [of ?c] by (auto simp: lock_role_def)
  have gone: "lock_threads (map ?f xs) = []" if "list_all (\<lambda>x. x = (?c, 0)) (lock_threads xs)" for xs
    using that
  proof (induction xs)
    case (Cons x xs)
    obtain u fs where x: "x = (u, fs)" by (cases x)
    have "lock_role x = (None, 0) \<or> lock_role x = (?c, 0)"
      using Cons.prems by (auto simp: lock_threads_Cons split: if_splits)
    then have "lock_role (?f x) = (None, 0)"
      using c by (auto simp: x lock_role_def split: pm_await.splits if_splits)
    moreover have "lock_threads (map ?f xs) = []"
      using Cons by (auto simp: lock_threads_Cons split: if_splits)
    ultimately show ?case by (simp add: lock_threads_Cons)
  qed simp
  have AB': "lock_threads (map ?f ?A) = []" "lock_threads (map ?f ?B) = []"
    using AB by (simp_all only: list_all_append gone)
  have "count_list ks K_finallyCancel = 0"
    using k by (simp add: lock_role_def split: pm_await.splits)
  then have tail: "lock_threads [(W_ready r, ks)] = []" by (simp add: lock_threads_Cons lock_role_def)
  have "lock_view (runThread env i r s) = (None, lock_threads (map ?f ?A) @ lock_threads (map ?f ?B)
      @ (if ks = [] then [] else lock_threads [(W_ready r, ks)]))"
    by (simp add: runThread_def t lock_view_def cong: pm_await.case_cong)
  then have "lock_view (runThread env i r s) = (None, [])"
    by (simp only: AB' tail append.simps if_cancel)
  then show ?thesis by (simp add: lock_ok_def)
qed

lemma lock_ok_runThread:
  assumes ok: "lock_ok (lock_view s)" and i: "i < length (pm_threads s)" and a: "answers (fst (pm_threads s ! i)) r"
  shows "lock_ok (lock_view (runThread env i r s))"
proof -
  obtain w fs where t: "pm_threads s ! i = (w, fs)" by (cases "pm_threads s ! i")
  let ?A = "take i (pm_threads s)" and ?B = "drop (Suc i) (pm_threads s)"
  let ?s0 = "s\<lparr>pm_threads := ?A @ ?B\<rparr>"
  have sp: "pm_threads s = ?A @ (w, fs) # ?B" using id_take_nth_drop [OF i] t by simp
  have nl: "w \<noteq> W_lock l" for l using a t by auto
  have ok0: "lock_ok (pm_cancelLock s, lock_threads ?A @ lock_threads ?B @ lock_threads [(w, fs)])"
    using ok unfolding lock_view_def lock_ok_rotate [of _ _ "lock_threads ?B"] by (subst (asm) sp) (simp add: lock_threads_Cons)
  show ?thesis
  proof (cases fs)
    case Nil
    with nl have "lock_role (w, fs) = (None, 0)" by (simp add: lock_role_def split: pm_await.split)
    with ok0 show ?thesis by (simp add: runThread_def t Nil lock_view_def lock_threads_Cons)
  next
    case (Cons k ks)
    show ?thesis
    proof (cases "k = K_finallyCancel")
      case True
      then show ?thesis using lock_ok_release [OF ok i] t Cons by simp
    next
      case False
      obtain s1 out where re: "resume env k r ?s0 = (s1, out)" by (cases "resume env k r ?s0")
      have ll: "lock_view s1 = lock_view ?s0" "plain out"
        using lockless_resume [OF False, of env r ?s0] by (simp_all add: re lockless_def)
      have role: "lock_role (w, fs) = (None, count_list ks K_finallyCancel)"
        using nl False Cons by (simp add: lock_role_def split: pm_await.split)
      have view: "lock_view s1 = (pm_cancelLock s, lock_threads ?A @ lock_threads ?B)"
        using ll by (simp add: lock_view_def)
      show ?thesis
      proof (cases out)
        case (Done r')
        have "lock_role (W_ready r', ks) = lock_role (w, fs)" by (simp add: role) (simp add: lock_role_def)
        then have "lock_threads [(W_ready r', ks)] = lock_threads [(w, fs)]" by (simp add: lock_threads_Cons)
        moreover have "ks = [] \<Longrightarrow> lock_threads [(w, fs)] = []" by (simp add: lock_threads_Cons role)
        ultimately show ?thesis
          using ok0 view by (auto simp: runThread_def t Cons re Done lock_view_def)
      next
        case (Wait w' fs')
        then have "lock_role (w', fs' @ ks) = lock_role (w, fs)"
          using ll(2) by (simp add: role) (simp add: lock_role_def count_list_0_iff split: pm_await.split)
        then have "lock_threads [(w', fs' @ ks)] = lock_threads [(w, fs)]" by (simp add: lock_threads_Cons)
        then show ?thesis
          using ok0 view by (simp add: runThread_def t Cons re Wait lock_view_def)
      qed
    qed
  qed
qed

lemma lock_view_watches [lock_simps]:
  "lock_view (updateScreensaverIdleWatch env s) = lock_view s" "lock_view (updatePowersaveIdleWatch env s) = lock_view s"
  "lock_view (onPowersaveMessage env s) = lock_view s" "lock_view (onWarningUserActive s) = lock_view s"
  "lock_view (onPowerHold s) = lock_view s" "lock_view (onIgnoreTimeout i s) = lock_view s"
  "lock_view (onNotificationTimeout s) = lock_view s" "lock_view (onWakeUpScreen s) = lock_view s"
  "lock_view (onSuspendAgain s) = lock_view s"
  by (simp_all add: updateScreensaverIdleWatch_def updatePowersaveIdleWatch_def onPowersaveMessage_def
      onWarningUserActive_def onPowerHold_def onIgnoreTimeout_def onNotificationTimeout_def onWakeUpScreen_def
      onSuspendAgain_def Let_def split_def lock_simps del: launch.simps split: option.split)

lemma lock_view_upowerPropertiesChanged [lock_simps]: "lock_view (upowerPropertiesChanged env s) = lock_view s"
  by (simp add: upowerPropertiesChanged_def Let_def lock_simps)

lemma lock_ok_pm_apply:
  assumes ok: "lock_ok (lock_view s)" and en: "enabled ev s"
  shows "lock_ok (lock_view (pm_apply env ev s))"
proof (cases ev)
  case (Turn i r)
  then show ?thesis using en ok lock_ok_runThread by simp
next
  case EvPress
  then show ?thesis using ok by (simp add: powerPress_def Let_def split_def lock_simps lock_ok_maybeCancelAction)
next
  case EvRelease
  then show ?thesis
    using ok by (simp add: powerRelease_def Let_def lock_simps lock_ok_doSystemAction)
next
  case EvPowersave
  then show ?thesis
    using ok by (cases "pm_powersaveAction s") (simp_all add: onPowersaveWatch_def lock_simps lock_ok_doSystemAction)
qed (use ok in \<open>simp_all add: lock_simps lock_ok_onUserActive lock_ok_doSystemAction lock_ok_prepareForSleep
    lock_ok_wakeFromSleep lock_ok_maybeCancelAction pm_blank_def pm_suspend_def onDeferredIdleBlank_def
    onDimWatch_def onScreensaverWatch_def sessionIsActiveChanged_def Let_def\<close>)

lemma lock_ok_new: "lock_ok (lock_view (newPowerManager env))"
  by (simp add: newPowerManager_def lock_simps) (simp add: lock_view_def lock_ok_def)

lemma lock_ok_reachable: "pm_reachable s \<Longrightarrow> lock_ok (lock_view s)"
  by (induction rule: pm_reachable.induct) (simp_all add: lock_ok_new lock_ok_pm_apply)

subsection \<open>What the lock guarantees\<close>

definition lock_holders :: "pm \<Rightarrow> pm_thread list" where
  "lock_holders s = [t \<leftarrow> pm_threads s. K_finallyCancel \<in> set (snd t)]"

lemma lock_role_holder: "snd (lock_role t) = 0 \<longleftrightarrow> K_finallyCancel \<notin> set (snd t)"
  by (simp add: lock_role_def count_list_0_iff)

lemma lock_role_waiter: "fst (lock_role t) = Some l \<longleftrightarrow> fst t = W_lock l"
  by (simp add: lock_role_def split: pm_await.split)

lemma length_lock_holders:
  assumes "lock_ok (lock_view s)"
  shows "length (lock_holders s) = (if pm_cancelLock s = None then 0 else 1)"
proof -
  have "length [t \<leftarrow> ts. K_finallyCancel \<in> set (snd t)] = count_list (lock_threads ts) (None, 1)"
    if "list_all (\<lambda>x. x = (None, 1) \<or> c \<noteq> None \<and> x = (c, 0)) (lock_threads ts)" for ts and c :: "nat option"
    using that
  proof (induction ts)
    case (Cons t ts)
    have "K_finallyCancel \<in> set (snd t) \<longleftrightarrow> lock_role t = (None, 1)"
      using Cons.prems lock_role_holder [of t] by (cases "lock_role t") (auto simp: lock_threads_Cons split: if_splits)
    moreover have "list_all (\<lambda>x. x = (None, 1) \<or> c \<noteq> None \<and> x = (c, 0)) (lock_threads ts)"
      using Cons.prems by (simp add: lock_threads_Cons split: if_splits)
    ultimately show ?case using Cons.IH by (simp add: lock_threads_Cons)
  qed simp
  from this [of "pm_cancelLock s" "pm_threads s"] show ?thesis
    using assms by (simp add: lock_holders_def lock_ok_def lock_view_def)
qed

lemma waiter_waits_for_lock:
  assumes ok: "lock_ok (lock_view s)" and t: "(W_lock l, fs) \<in> set (pm_threads s)"
  shows "pm_cancelLock s = Some l \<and> K_finallyCancel \<notin> set fs"
proof -
  have "lock_role (W_lock l, fs) = (Some l, count_list fs K_finallyCancel)" by (simp add: lock_role_def)
  moreover from this have "lock_role (W_lock l, fs) \<in> set (lock_threads (pm_threads s))"
    using t by (force simp: lock_threads_def)
  ultimately have "(Some l, count_list fs K_finallyCancel) = (pm_cancelLock s, 0)"
    using ok by (auto simp: lock_ok_def lock_view_def list_all_iff)
  then show ?thesis by (simp add: count_list_0_iff)
qed

text \<open>C9: The cancelling lock is exact: in every reachable state it is held if and only if one call of
  \<open>_maybeCancelAction\<close> is under way, never two, and whoever waits for a lock waits for the current
  one and does not hold it.\<close>

theorem cancel_lock_exact:
  assumes "pm_reachable s"
  shows "length (lock_holders s) = (if pm_cancelLock s = None then 0 else 1)
     \<and> (\<forall>(w, fs) \<in> set (pm_threads s). case w of
           W_lock l \<Rightarrow> pm_cancelLock s = Some l \<and> K_finallyCancel \<notin> set fs | _ \<Rightarrow> True)"
  using length_lock_holders [OF lock_ok_reachable [OF assms]] waiter_waits_for_lock [OF lock_ok_reachable [OF assms]]
  by (auto split: pm_await.split)

lemma someone_not_waiting:
  assumes ok: "lock_ok (lock_view s)" and ne: "pm_threads s \<noteq> []"
  shows "\<exists>t \<in> set (pm_threads s). \<forall>l. fst t \<noteq> W_lock l"
proof (rule ccontr)
  assume none: "\<not> ?thesis"
  obtain t0 where t0: "t0 \<in> set (pm_threads s)" using hd_in_set [OF ne] by blast
  with none obtain l where "fst t0 = W_lock l" by blast
  then have "t0 = (W_lock l, snd t0)" by (cases t0) simp
  with t0 have h: "(W_lock l, snd t0) \<in> set (pm_threads s)" by simp
  then have "lock_holders s \<noteq> []"
    using length_lock_holders [OF ok] waiter_waits_for_lock [OF ok h] by auto
  then obtain t where t: "t \<in> set (pm_threads s)" "K_finallyCancel \<in> set (snd t)"
    by (auto simp: lock_holders_def filter_empty_conv)
  with none obtain l' where "fst t = W_lock l'" by blast
  then show False using waiter_waits_for_lock [OF ok, of l' "snd t"] t by (cases t) auto
qed

text \<open>C10: The manager never deadlocks: as long as calls are under way, one of them can go on, since the
  holder of the lock never waits for one.\<close>

theorem power_calls_never_deadlock:
  assumes "pm_reachable s" and ne: "pm_threads s \<noteq> []"
  shows "\<exists>i r. enabled (Turn i r) s"
proof (cases "quiet s")
  case True
  obtain t where t: "t \<in> set (pm_threads s)" "\<forall>l. fst t \<noteq> W_lock l"
    using someone_not_waiting [OF lock_ok_reachable [OF assms(1)] ne] by blast
  then obtain i where i: "i < length (pm_threads s)" "pm_threads s ! i = t" by (auto simp: in_set_conv_nth)
  have "\<exists>r. answers (fst t) r"
  proof (cases "fst t")
    case W_can then show ?thesis by auto
  qed (use t in \<open>auto intro: exI [of _ RUnit] exI [of _ RThrow]\<close>)
  then show ?thesis using True i by auto
next
  case False
  then obtain r fs where "(W_ready r, fs) \<in> set (pm_threads s)"
    by (auto simp: quiet_def list_all_iff split: pm_await.splits)
  then obtain i where "i < length (pm_threads s)" "pm_threads s ! i = (W_ready r, fs)" by (auto simp: in_set_conv_nth)
  then have "enabled (Turn i r) s" by simp
  then show ?thesis by blast
qed

lemma power_calls_never_deadlock_witness:
  "\<exists>i r. enabled (Turn i r) (pm_blank demo_pm_env (newPowerManager demo_pm_env))"
proof (rule power_calls_never_deadlock)
  have "enabled EvBlank (newPowerManager demo_pm_env)" by code_simp
  from pm_reachable.event [OF pm_reachable.created this, of demo_pm_env]
  show "pm_reachable (pm_blank demo_pm_env (newPowerManager demo_pm_env))" by simp
  show "pm_threads (pm_blank demo_pm_env (newPowerManager demo_pm_env)) \<noteq> []" by code_simp
qed

lemma cancel_lock_exact_witness:
  "length (lock_holders (newPowerManager demo_pm_env)) = (if pm_cancelLock (newPowerManager demo_pm_env) = None then 0 else 1)"
  using cancel_lock_exact [OF pm_reachable.created [of demo_pm_env]] by (rule conjunct1)

subsection \<open>The power button\<close>

text \<open>What turning the screen on and undoing an action leave alone.\<close>

definition press_view :: "pm \<Rightarrow> pm_action option \<times> nat option \<times> nat \<times> nat list \<times> bool" where
  "press_view s = (pm_isInAction s, pm_startCancellable s, pm_userActiveId s, pm_cancelled s, pm_powerPressHappened s)"

lemma press_view_launch [simp]: "press_view (launch x) = press_view (fst x)"
  by (induction x rule: launch.induct) (simp_all add: press_view_def)

lemma press_view_simps [simp]:
  "press_view (pm_do c s) = press_view s"
  "press_view (pm_removeSource i s) = press_view s" "press_view (removeTransitions s) = press_view s"
  "press_view (lightOff n s) = press_view s" "press_view (snd (findBacklightLed env s)) = press_view s"
  by (simp_all add: press_view_def pm_do_def pm_removeSource_def removeTransitions_def lightOff_def
      findBacklightLed_def Let_def split: option.split)

lemma press_view_upd [simp]:
  "press_view (s\<lparr>pm_adaptiveInhibited := b\<rparr>) = press_view s" "press_view (s\<lparr>pm_savedBacklight := o1\<rparr>) = press_view s"
  "press_view (s\<lparr>pm_powerSaveMode := n\<rparr>) = press_view s" "press_view (s\<lparr>pm_fadingIn := b\<rparr>) = press_view s"
  "press_view (s\<lparr>pm_cursorInvisible := b\<rparr>) = press_view s" "press_view (s\<lparr>pm_notificationTimeout := n\<rparr>) = press_view s"
  "press_view (s\<lparr>pm_suspendAgain := o2\<rparr>) = press_view s" "press_view (s\<lparr>pm_cancelLock := o3\<rparr>) = press_view s"
  "press_view (s\<lparr>pm_locks := n\<rparr>) = press_view s"
  by (simp_all add: press_view_def)

lemma press_view_turnOnScreen [simp]: "press_view (fst (turnOnScreen env s)) = press_view s"
proof -
  have "press_view (fst (fadeIn s)) = press_view s" for s by (simp add: fadeIn_def)
  then have "press_view (fst (screenOn env s)) = press_view s" for s
    by (simp add: screenOn_def Let_def split_def split: option.split)
  then show ?thesis by (simp add: turnOnScreen_def Let_def)
qed

lemma press_view_undoAction [simp]: "press_view (undoAction env a s) = press_view s"
  by (cases a) (simp_all add: Let_def removeNotificationTimeout_def removeSuspendAgain_def split: option.split)

text \<open>A press of the power button while the screen is off only wakes: it takes the manager out of its
  action, cancels what was starting and begins no new press, so the release that follows does
  nothing (the phone is not blanked again).\<close>

theorem wake_press_only_wakes:
  assumes "pm_isInAction s = Some a" and "\<not> pm_suspended s" and "pm_cancelLock s = None"
    and "\<not> pm_ignoreInput s" and "\<not> pm_powerPressHappened s" and "\<not> pm_userAlreadyIdle s"
  shows "let s1 = powerPress env s in
     pm_isInAction s1 = None \<and> pm_startCancellable s1 = None \<and> pm_userActiveId s1 = 0
     \<and> (case pm_startCancellable s of None \<Rightarrow> True | Some c \<Rightarrow> c \<in> set (pm_cancelled s1))
     \<and> powerRelease env' s1 = Some s1"
proof -
  define s1 where "s1 = (cancelStart s)\<lparr>pm_isInAction := None\<rparr>"
  define s2 where "s2 = (if pm_userActiveId s1 \<noteq> 0
      then (pm_do (RemoveIdleWatch (pm_userActiveId s1)) s1)\<lparr>pm_userActiveId := 0\<rparr> else s1)"
  have idle: "\<not> pm_userAlreadyIdle s1"
    using assms(6) by (simp add: s1_def cancelStart_def split: option.split)
  have down: "tearDown env a s = (undoAction env a s2, Done (RBool True))"
    unfolding tearDown_def Let_def s1_def [symmetric] s2_def [symmetric] using idle by simp
  have v: "press_view s2 = (None, None, 0,
      (case pm_startCancellable s of None \<Rightarrow> [] | Some c \<Rightarrow> [c]) @ pm_cancelled s, False)"
    using assms(5) by (simp add: s2_def s1_def press_view_def cancelStart_def pm_do_def split: option.split)
  have "press_view (powerPress env s) = press_view s2"
    by (simp add: powerPress_def maybeCancelAction_def assms(1-4) down fst_then_frame del: launch.simps then_frame.simps)
  then show ?thesis
    unfolding v by (simp add: press_view_def powerRelease_def Let_def split: option.split)
qed

lemma wake_press_only_wakes_witness:
  "let s = pm_blank demo_pm_env (newPowerManager demo_pm_env) in
     pm_isInAction s = Some ABlank \<and> pm_isInAction (powerPress demo_pm_env s) = None"
proof -
  let ?s = "pm_blank demo_pm_env (newPowerManager demo_pm_env)"
  have h: "pm_isInAction ?s = Some ABlank \<and> \<not> pm_suspended ?s \<and> pm_cancelLock ?s = None \<and> \<not> pm_ignoreInput ?s
      \<and> \<not> pm_powerPressHappened ?s \<and> \<not> pm_userAlreadyIdle ?s"
    by code_simp
  then show ?thesis using wake_press_only_wakes [of ?s ABlank demo_pm_env] by (simp add: Let_def)
qed

end
