(* ===== verification/ModalStack.thy ===== *)
theory ModalStack
  imports Prelude
begin

section \<open>The stack of modal grabs (\<open>pushModal\<close> and \<open>popModal\<close> of \<open>js/ui/main.js\<close>)\<close>

text \<open>
  \<open>modalActorFocusStack\<close>, \<open>modalCount\<close>, the action mode and the key focus of the stage, with the
  handlers the records keep on the \<open>destroy\<close> signals of actors. An actor, a grab and a handler are
  numbers; actor 0 is the stage. Fresh grabs and handler identifiers come from counters, as they do
  from Clutter and GObject.
\<close>

datatype action_mode =
    AM_NONE | AM_NORMAL | AM_OVERVIEW | AM_LOCK_SCREEN | AM_UNLOCK_SCREEN | AM_LOGIN_SCREEN
  | AM_SYSTEM_MODAL | AM_LOOKING_GLASS | AM_POPUP

datatype destroy_handler = PopOnDestroy nat | ForgetFocus nat

record modal_record =
  mr_actor :: nat
  mr_grab :: nat
  mr_destroyId :: nat
  mr_prevFocus :: "nat option"          \<comment> \<open>\<open>null\<close>: none\<close>
  mr_prevFocusDestroyId :: nat
  mr_actionMode :: action_mode

record modals =
  modalCount :: int
  modalActorFocusStack :: "modal_record list"
  actionMode :: action_mode
  key_focus :: "nat option"
  destroy_handlers :: "(nat \<times> nat \<times> destroy_handler) list"    \<comment> \<open>identifier, actor, handler\<close>
  next_grab :: nat
  next_handler :: nat
  unredirect_disabled :: int            \<comment> \<open>how often it was disabled and not enabled again\<close>
  modalEnded_count :: nat

definition findModal :: "nat \<Rightarrow> modal_record list \<Rightarrow> nat option" where
  "findModal grab rs = (let i = length (takeWhile (\<lambda>r. mr_grab r \<noteq> grab) rs) in if i < length rs then Some i else None)"

definition ms_connect :: "nat \<Rightarrow> destroy_handler \<Rightarrow> modals \<Rightarrow> nat \<times> modals" where
  "ms_connect actor h s =
     (next_handler s,
      s\<lparr>destroy_handlers := destroy_handlers s @ [(next_handler s, actor, h)], next_handler := Suc (next_handler s)\<rparr>)"

definition ms_disconnect :: "nat \<Rightarrow> modals \<Rightarrow> modals" where
  "ms_disconnect i s = s\<lparr>destroy_handlers := [h \<leftarrow> destroy_handlers s. fst h \<noteq> i]\<rparr>"

definition pushModal :: "nat \<Rightarrow> action_mode \<Rightarrow> modals \<Rightarrow> nat \<times> modals" where
  "pushModal actor newActionMode s =
     (let grab = next_grab s;
          s1 = s\<lparr>next_grab := Suc grab\<rparr>;
          s2 = (if modalCount s1 = 0 then s1\<lparr>unredirect_disabled := unredirect_disabled s1 + 1\<rparr> else s1);
          (did, s3) = ms_connect actor (PopOnDestroy grab) (s2\<lparr>modalCount := modalCount s2 + 1\<rparr>);
          prevFocus = key_focus s3;
          (fid, s4) = (case prevFocus of None \<Rightarrow> (0, s3) | Some f \<Rightarrow> ms_connect f (ForgetFocus f) s3)
      in (grab, s4\<lparr>modalActorFocusStack := modalActorFocusStack s4 @
                     [\<lparr>mr_actor = actor, mr_grab = grab, mr_destroyId = did, mr_prevFocus = prevFocus,
                       mr_prevFocusDestroyId = fid, mr_actionMode = actionMode s4\<rparr>],
                   actionMode := newActionMode,
                   key_focus := (if actor = 0 then None else Some actor)\<rparr>))"

text \<open>
  The loop that shifts the focus chain, from the last record down to the one after \<open>i\<close>: each takes
  over what the record below it had at that moment.
\<close>

definition shiftRecord :: "nat \<Rightarrow> modal_record list \<Rightarrow> modal_record list" where
  "shiftRecord i rs = rs[i := (rs ! i)\<lparr>mr_prevFocus := mr_prevFocus (rs ! (i - 1)),
     mr_prevFocusDestroyId := mr_prevFocusDestroyId (rs ! (i - 1)), mr_actionMode := mr_actionMode (rs ! (i - 1))\<rparr>]"

definition shiftFocusChain :: "nat \<Rightarrow> modal_record list \<Rightarrow> modal_record list" where
  "shiftFocusChain i rs = fold shiftRecord (rev [Suc i..<length rs]) rs"

text \<open>\<open>prevFocus?.disconnect(prevFocusDestroyId)\<close>.\<close>

definition disconnectFocus :: "modal_record \<Rightarrow> modals \<Rightarrow> modals" where
  "disconnectFocus r s = (if mr_prevFocus r \<noteq> None then ms_disconnect (mr_prevFocusDestroyId r) s else s)"

text \<open>The second component is false where the source throws \<open>incorrect pop\<close>.\<close>

definition popModal :: "nat \<Rightarrow> modals \<Rightarrow> modals \<times> bool" where
  "popModal grab s =
     (case findModal grab (modalActorFocusStack s) of
        None \<Rightarrow> (s\<lparr>key_focus := None, actionMode := AM_NORMAL\<rparr>, False)
      | Some i \<Rightarrow>
          let rs = modalActorFocusStack s; r = rs ! i;
              s1 = ms_disconnect (mr_destroyId r) (s\<lparr>modalCount := modalCount s - 1\<rparr>);
              s2 = (if i = length rs - 1
                    then (disconnectFocus r s1)\<lparr>actionMode := mr_actionMode r, key_focus := mr_prevFocus r\<rparr>
                    else (disconnectFocus (last rs) s1)\<lparr>modalActorFocusStack := shiftFocusChain i rs\<rparr>);
              s3 = s2\<lparr>modalActorFocusStack :=
                        take i (modalActorFocusStack s2) @ drop (Suc i) (modalActorFocusStack s2)\<rparr>
          in (if modalCount s3 > 0 then s3
              else s3\<lparr>modalEnded_count := Suc (modalEnded_count s3),
                     unredirect_disabled := unredirect_disabled s3 - 1, actionMode := AM_NORMAL\<rparr>, True))"

text \<open>
  An actor is destroyed: Clutter drops the key focus if it had it, and its handlers run in the
  order they were connected, those disconnected meanwhile left out.
\<close>

definition runDestroyHandler :: "nat \<times> nat \<times> destroy_handler \<Rightarrow> modals \<Rightarrow> modals" where
  "runDestroyHandler h s =
     (if fst h \<notin> fst ` set (destroy_handlers s) then s
      else case snd (snd h) of
        PopOnDestroy grab \<Rightarrow> if findModal grab (modalActorFocusStack s) \<noteq> None then fst (popModal grab s) else s
      | ForgetFocus f \<Rightarrow>
          let rs = modalActorFocusStack s; i = length (takeWhile (\<lambda>r. mr_prevFocus r \<noteq> Some f) rs)
          in if i < length rs then s\<lparr>modalActorFocusStack := rs[i := (rs ! i)\<lparr>mr_prevFocus := None\<rparr>]\<rparr> else s)"

definition destroyActor :: "nat \<Rightarrow> modals \<Rightarrow> modals" where
  "destroyActor actor s =
     (let hs = [h \<leftarrow> destroy_handlers s. fst (snd h) = actor];
          s1 = fold runDestroyHandler hs (s\<lparr>key_focus := (if key_focus s = Some actor then None else key_focus s)\<rparr>)
      in s1\<lparr>destroy_handlers := [h \<leftarrow> destroy_handlers s1. fst (snd h) \<noteq> actor]\<rparr>)"

definition initial_modals :: "nat option \<Rightarrow> modals" where
  "initial_modals focus = \<lparr>modalCount = 0, modalActorFocusStack = [], actionMode = AM_NORMAL, key_focus = focus,
     destroy_handlers = [], next_grab = 1, next_handler = 1, unredirect_disabled = 0, modalEnded_count = 0\<rparr>"

subsection \<open>Runs\<close>

datatype modal_event = PushEv nat action_mode | PopEv nat | DestroyEv nat | FocusEv "nat option"

fun modal_step :: "modal_event \<Rightarrow> modals \<Rightarrow> modals" where
  "modal_step (PushEv a m) s = snd (pushModal a m s)"
| "modal_step (PopEv g) s = fst (popModal g s)"
| "modal_step (DestroyEv a) s = destroyActor a s"
| "modal_step (FocusEv f) s = s\<lparr>key_focus := f\<rparr>"

definition modal_run :: "modal_event list \<Rightarrow> modals \<Rightarrow> modals" where
  "modal_run evs s = fold modal_step evs s"

subsection \<open>Counting\<close>

definition modals_ok :: "modals \<Rightarrow> bool" where
  "modals_ok s \<longleftrightarrow> modalCount s = int (length (modalActorFocusStack s))
     \<and> unredirect_disabled s = (if modalActorFocusStack s = [] then 0 else 1)
     \<and> distinct (map mr_grab (modalActorFocusStack s))
     \<and> (\<forall>r \<in> set (modalActorFocusStack s). mr_grab r < next_grab s)"

lemma findModal_Some:
  "findModal g rs = Some i \<Longrightarrow> i < length rs \<and> mr_grab (rs ! i) = g"
  by (auto simp: findModal_def Let_def split: if_splits dest: nth_length_takeWhile)

lemma findModal_None_iff: "findModal g rs = None \<longleftrightarrow> g \<notin> mr_grab ` set rs"
  by (induction rs) (auto simp: findModal_def Let_def split: if_splits)

lemma findModal_mid: "g \<notin> mr_grab ` set rs \<Longrightarrow> mr_grab r = g \<Longrightarrow> findModal g (rs @ r # rs') = Some (length rs)"
  by (induction rs) (auto simp: findModal_def Let_def split: if_splits)

lemma length_shiftRecord [simp]: "length (shiftRecord i rs) = length rs"
  and grabs_shiftRecord [simp]: "map mr_grab (shiftRecord i rs) = map mr_grab rs"
  unfolding shiftRecord_def by (simp, cases "i < length rs") (simp_all add: map_update list_update_same_conv list_update_beyond)

lemma shiftFocusChain_same:
  "length (shiftFocusChain i rs) = length rs" "map mr_grab (shiftFocusChain i rs) = map mr_grab rs"
proof -
  have "length (fold shiftRecord is rs) = length rs \<and> map mr_grab (fold shiftRecord is rs) = map mr_grab rs" for "is"
    by (induction "is" arbitrary: rs) simp_all
  then show "length (shiftFocusChain i rs) = length rs" "map mr_grab (shiftFocusChain i rs) = map mr_grab rs"
    by (simp_all add: shiftFocusChain_def)
qed

lemma ms_connect_frame [simp]:
  "modalActorFocusStack (snd (ms_connect a h s)) = modalActorFocusStack s"
  "modalCount (snd (ms_connect a h s)) = modalCount s" "actionMode (snd (ms_connect a h s)) = actionMode s"
  "key_focus (snd (ms_connect a h s)) = key_focus s" "next_grab (snd (ms_connect a h s)) = next_grab s"
  "unredirect_disabled (snd (ms_connect a h s)) = unredirect_disabled s"
  "modalEnded_count (snd (ms_connect a h s)) = modalEnded_count s"
  by (simp_all add: ms_connect_def)

lemma disconnect_frame [simp]:
  "modalActorFocusStack (ms_disconnect i s) = modalActorFocusStack s" "modalCount (ms_disconnect i s) = modalCount s"
  "unredirect_disabled (ms_disconnect i s) = unredirect_disabled s" "next_grab (ms_disconnect i s) = next_grab s"
  "actionMode (ms_disconnect i s) = actionMode s" "key_focus (ms_disconnect i s) = key_focus s"
  "modalActorFocusStack (disconnectFocus r s) = modalActorFocusStack s" "modalCount (disconnectFocus r s) = modalCount s"
  "unredirect_disabled (disconnectFocus r s) = unredirect_disabled s" "next_grab (disconnectFocus r s) = next_grab s"
  "actionMode (disconnectFocus r s) = actionMode s" "key_focus (disconnectFocus r s) = key_focus s"
  by (simp_all add: ms_disconnect_def disconnectFocus_def)


lemma popModal_cases:
  assumes "popModal g s = (s', ok)"
  obtains (absent) "g \<notin> mr_grab ` set (modalActorFocusStack s)" "\<not> ok" "s' = s\<lparr>key_focus := None, actionMode := AM_NORMAL\<rparr>"
    | (popped) i rs' where "findModal g (modalActorFocusStack s) = Some i" "ok"
        "map mr_grab rs' = map mr_grab (modalActorFocusStack s)"
        "modalActorFocusStack s' = take i rs' @ drop (Suc i) rs'"
        "modalCount s' = modalCount s - 1" "next_grab s' = next_grab s"
        "unredirect_disabled s' = unredirect_disabled s - (if modalCount s - 1 > 0 then 0 else 1)"
proof (cases "findModal g (modalActorFocusStack s)")
  case None
  then have "s' = s\<lparr>key_focus := None, actionMode := AM_NORMAL\<rparr>" "\<not> ok"
    using assms by (simp_all add: popModal_def)
  then show ?thesis using absent None by (simp add: findModal_None_iff)
next
  case (Some i)
  let ?rs = "modalActorFocusStack s"
  let ?rs' = "if i = length ?rs - 1 then ?rs else shiftFocusChain i ?rs"
  have "map mr_grab ?rs' = map mr_grab ?rs" by (simp add: shiftFocusChain_same)
  moreover have "modalActorFocusStack s' = take i ?rs' @ drop (Suc i) ?rs'" "modalCount s' = modalCount s - 1"
    "next_grab s' = next_grab s" "ok"
    "unredirect_disabled s' = unredirect_disabled s - (if modalCount s - 1 > 0 then 0 else 1)"
    using assms Some by (auto simp: popModal_def Let_def split: if_splits)
  ultimately show ?thesis using popped Some by blast
qed

lemma modals_ok_popModal:
  assumes ok: "modals_ok s" shows "modals_ok (fst (popModal g s))"
proof -
  obtain s' b where p: "popModal g s = (s', b)" by (cases "popModal g s")
  from p show ?thesis
  proof (cases rule: popModal_cases)
    case absent
    then show ?thesis using ok p by (simp add: modals_ok_def)
  next
    case (popped i rs')
    let ?rs = "modalActorFocusStack s"
    have i: "i < length ?rs" using findModal_Some [OF popped(1)] by simp
    have len: "length rs' = length ?rs" using popped(3) by (metis length_map)
    have g: "map mr_grab (take i rs' @ drop (Suc i) rs') = take i (map mr_grab ?rs) @ drop (Suc i) (map mr_grab ?rs)"
      unfolding popped(3) [symmetric] by (simp add: take_map drop_map)
    have sub: "set (take i xs @ drop (Suc i) xs) \<subseteq> set xs" for xs :: "nat list"
      by (auto dest: in_set_takeD in_set_dropD)
    have "distinct (map mr_grab ?rs)" using ok by (simp add: modals_ok_def)
    moreover have "take i xs @ drop (Suc i) xs = remove1 (xs ! i) xs" if "distinct xs" "i < length xs" for xs :: "nat list"
      using that by (metis distinct_take id_take_nth_drop not_distinct_conv_prefix remove1_append remove1.simps(2) distinct_append in_set_conv_decomp)
    ultimately have "distinct (map mr_grab (take i rs' @ drop (Suc i) rs'))"
      unfolding g using i by simp
    moreover have "\<forall>x \<in> set (map mr_grab (take i rs' @ drop (Suc i) rs')). x < next_grab s"
      using ok sub [of "map mr_grab ?rs"] unfolding g by (auto simp: modals_ok_def)
    moreover have "length (take i rs' @ drop (Suc i) rs') = length ?rs - 1" using i len by simp
    ultimately show ?thesis
      using ok popped p i by (cases "length ?rs") (auto simp: modals_ok_def)
  qed
qed

lemma modals_ok_pushModal: "modals_ok s \<Longrightarrow> modals_ok (snd (pushModal a m s))"
  by (auto simp: modals_ok_def pushModal_def Let_def split_def split: option.split)


lemma modals_ok_ForgetFocus:
  assumes "modals_ok s" and "i < length (modalActorFocusStack s)"
  shows "modals_ok (s\<lparr>modalActorFocusStack :=
     (modalActorFocusStack s)[i := (modalActorFocusStack s ! i)\<lparr>mr_prevFocus := None\<rparr>]\<rparr>)"
proof -
  let ?rs = "modalActorFocusStack s"
  let ?rs' = "?rs[i := (?rs ! i)\<lparr>mr_prevFocus := None\<rparr>]"
  have g: "map mr_grab ?rs' = map mr_grab ?rs" using assms(2) by (simp add: map_update list_update_same_conv)
  then have "\<forall>r \<in> set ?rs'. mr_grab r < next_grab s"
    using assms(1) by (metis (no_types, lifting) image_eqI image_set modals_ok_def imageE)
  then show ?thesis using assms g by (simp add: modals_ok_def)
qed

lemma modals_ok_runDestroyHandler: "modals_ok s \<Longrightarrow> modals_ok (runDestroyHandler h s)"
  by (simp add: runDestroyHandler_def modals_ok_popModal modals_ok_ForgetFocus Let_def split: destroy_handler.split)

lemma modals_ok_destroyActor:
  assumes "modals_ok s" shows "modals_ok (destroyActor a s)"
proof -
  have "modals_ok (fold runDestroyHandler hs t)" if "modals_ok t" for hs t
    using that by (induction hs arbitrary: t) (simp_all add: modals_ok_runDestroyHandler)
  from this [of "s\<lparr>key_focus := (if key_focus s = Some a then None else key_focus s)\<rparr>"]
  show ?thesis using assms by (simp add: destroyActor_def Let_def modals_ok_def)
qed

lemma modals_ok_step: "modals_ok s \<Longrightarrow> modals_ok (modal_step ev s)"
  by (cases ev) (simp_all add: modals_ok_pushModal modals_ok_popModal modals_ok_destroyActor, simp add: modals_ok_def)

text \<open>After any sequence of pushes, pops (also of grabs that are not on the stack), destroyed actors
  and changes of the key focus, \<open>modalCount\<close> is the number of records, unredirection is disabled
  exactly when there is one, and no grab is on the stack twice.\<close>

theorem modal_count_exact:
  "let s = modal_run evs (initial_modals f) in
     modalCount s = int (length (modalActorFocusStack s))
     \<and> unredirect_disabled s = (if modalActorFocusStack s = [] then 0 else 1)
     \<and> distinct (map mr_grab (modalActorFocusStack s))"
proof -
  have "modals_ok (fold modal_step evs s)" if "modals_ok s" for s
    using that by (induction evs arbitrary: s) (simp_all add: modals_ok_step)
  from this [of "initial_modals f"] have "modals_ok (modal_run evs (initial_modals f))"
    by (simp add: modal_run_def modals_ok_def initial_modals_def)
  then show ?thesis by (simp add: Let_def modals_ok_def)
qed

subsection \<open>What a pop gives back\<close>

text \<open>What callers can see: the chain of actors with what each gives back, the mode and the focus.\<close>

definition modal_view :: "modals \<Rightarrow> (nat \<times> nat option \<times> action_mode) list \<times> int \<times> action_mode \<times> nat option" where
  "modal_view s = (map (\<lambda>r. (mr_actor r, mr_prevFocus r, mr_actionMode r)) (modalActorFocusStack s),
     modalCount s, actionMode s, key_focus s)"

definition focus_of :: "nat \<Rightarrow> nat option" where
  "focus_of actor = (if actor = 0 then None else Some actor)"

lemma pushModal_effect:
  obtains r where "modalActorFocusStack (snd (pushModal a m s)) = modalActorFocusStack s @ [r]"
    "mr_actor r = a" "mr_grab r = next_grab s" "mr_prevFocus r = key_focus s" "mr_actionMode r = actionMode s"
    "fst (pushModal a m s) = next_grab s" "next_grab (snd (pushModal a m s)) = Suc (next_grab s)"
    "modalCount (snd (pushModal a m s)) = modalCount s + 1" "actionMode (snd (pushModal a m s)) = m"
    "key_focus (snd (pushModal a m s)) = focus_of a"
  by (rule that [of "last (modalActorFocusStack (snd (pushModal a m s)))"])
    (simp_all add: pushModal_def Let_def split_def focus_of_def split: option.split)

lemma grab_fresh: "modals_ok s \<Longrightarrow> next_grab s \<notin> mr_grab ` set (modalActorFocusStack s)"
  by (auto simp: modals_ok_def)

text \<open>Popping what was pushed last gives back the stack, the count, the mode and the focus there were
  before (the normal mode, when the stack is empty again).\<close>

theorem push_pop_modal:
  assumes "modals_ok s"
  shows "let (grab, s1) = pushModal a m s; (s2, ok) = popModal grab s1 in
     ok \<and> modal_view s2 = (if modalActorFocusStack s = []
        then ([], 0, AM_NORMAL, key_focus s) else modal_view s)"
proof -
  obtain r where r: "modalActorFocusStack (snd (pushModal a m s)) = modalActorFocusStack s @ [r]"
    "mr_actor r = a" "mr_grab r = next_grab s" "mr_prevFocus r = key_focus s" "mr_actionMode r = actionMode s"
    "fst (pushModal a m s) = next_grab s" "modalCount (snd (pushModal a m s)) = modalCount s + 1"
    by (rule pushModal_effect [of a m s])
  have f: "findModal (next_grab s) (modalActorFocusStack s @ [r]) = Some (length (modalActorFocusStack s))"
    by (rule findModal_mid [OF grab_fresh [OF assms] r(3)])
  have c: "modalCount s = int (length (modalActorFocusStack s))" using assms by (simp add: modals_ok_def)
  show ?thesis
    using c by (simp add: split_def Let_def popModal_def r f modal_view_def)
qed

text \<open>C13: Popping the grab just below the top is as if it had never been pushed: what the top will give
  back is shifted to what the popped grab would have given back.\<close>

theorem pop_below_top_as_never_pushed:
  assumes ok: "modals_ok s"
  shows "let (grab, s1) = pushModal a m s; (grab', s2) = pushModal b k s1 in
     modal_view (fst (popModal grab s2)) = modal_view (snd (pushModal b k s))"
proof -
  let ?s1 = "snd (pushModal a m s)" and ?rs = "modalActorFocusStack s"
  obtain r where r: "modalActorFocusStack ?s1 = ?rs @ [r]" "mr_actor r = a" "mr_grab r = next_grab s"
    "mr_prevFocus r = key_focus s" "mr_actionMode r = actionMode s" "fst (pushModal a m s) = next_grab s"
    "modalCount ?s1 = modalCount s + 1"
    by (rule pushModal_effect [of a m s])
  obtain q where q: "modalActorFocusStack (snd (pushModal b k ?s1)) = (?rs @ [r]) @ [q]" "mr_actor q = b"
    "modalCount (snd (pushModal b k ?s1)) = modalCount s + 1 + 1" "actionMode (snd (pushModal b k ?s1)) = k"
    "key_focus (snd (pushModal b k ?s1)) = focus_of b"
    by (rule pushModal_effect [of b k ?s1]) (simp add: r)
  obtain p where p: "modalActorFocusStack (snd (pushModal b k s)) = ?rs @ [p]" "mr_actor p = b"
    "mr_prevFocus p = key_focus s" "mr_actionMode p = actionMode s" "modalCount (snd (pushModal b k s)) = modalCount s + 1"
    "actionMode (snd (pushModal b k s)) = k" "key_focus (snd (pushModal b k s)) = focus_of b"
    by (rule pushModal_effect [of b k s])
  have f: "findModal (next_grab s) (?rs @ [r, q]) = Some (length ?rs)"
    by (rule findModal_mid [OF grab_fresh [OF ok] r(3)])
  have c: "modalCount s \<ge> 0" using ok by (simp add: modals_ok_def)
  have shift: "shiftFocusChain (length ?rs) (?rs @ [r, q]) = ?rs @ [r, q\<lparr>mr_prevFocus := mr_prevFocus r,
      mr_prevFocusDestroyId := mr_prevFocusDestroyId r, mr_actionMode := mr_actionMode r\<rparr>]"
    by (simp add: shiftFocusChain_def shiftRecord_def list_update_append nth_append)
  show ?thesis
    using c by (simp add: split_def Let_def popModal_def r q f shift modal_view_def p)
qed


lemma pushModal_ok_effect:
  assumes "modals_ok s"
  obtains r s1 where "pushModal a m s = (next_grab s, s1)" "modals_ok s1"
    "modalActorFocusStack s1 = modalActorFocusStack s @ [r]" "mr_actor r = a" "mr_grab r = next_grab s"
    "mr_prevFocus r = key_focus s" "mr_actionMode r = actionMode s" "next_grab s1 = Suc (next_grab s)"
    "modalCount s1 = modalCount s + 1" "actionMode s1 = m" "key_focus s1 = focus_of a"
proof -
  obtain r where r: "modalActorFocusStack (snd (pushModal a m s)) = modalActorFocusStack s @ [r]"
    "mr_actor r = a" "mr_grab r = next_grab s" "mr_prevFocus r = key_focus s" "mr_actionMode r = actionMode s"
    "fst (pushModal a m s) = next_grab s" "next_grab (snd (pushModal a m s)) = Suc (next_grab s)"
    "modalCount (snd (pushModal a m s)) = modalCount s + 1" "actionMode (snd (pushModal a m s)) = m"
    "key_focus (snd (pushModal a m s)) = focus_of a"
    by (rule pushModal_effect [of a m s])
  have "pushModal a m s = (next_grab s, snd (pushModal a m s))" using r(6) by (simp add: prod_eq_iff)
  then show ?thesis using that r modals_ok_pushModal [OF assms] by blast
qed

text \<open>Popping a grab two or more below the top shifts too far: every record above takes over from the
  one below it. Of three grabs, once the first and then the third have been popped, the focus and
  the action mode are those of the first, which is gone, and not those of the second, which is on
  top of the stack.\<close>

theorem pop_two_below_top_restores_popped:
  assumes ok: "modals_ok s"
  shows "let (g1, s1) = pushModal a m s; (g2, s2) = pushModal b n s1; (g3, s3) = pushModal c k s2;
       (s4, ok4) = popModal g1 s3; (s5, ok5) = popModal g3 s4 in
     ok4 \<and> ok5 \<and> key_focus s5 = focus_of a \<and> actionMode s5 = m
     \<and> mr_actor (last (modalActorFocusStack s5)) = b \<and> g1 \<notin> mr_grab ` set (modalActorFocusStack s5)"
proof -
  let ?rs = "modalActorFocusStack s" and ?g = "next_grab s"
  obtain p s1 where p: "pushModal a m s = (?g, s1)" "modals_ok s1" "modalActorFocusStack s1 = ?rs @ [p]"
    "mr_actor p = a" "mr_grab p = ?g" "next_grab s1 = Suc ?g" "modalCount s1 = modalCount s + 1"
    "actionMode s1 = m" "key_focus s1 = focus_of a"
    by (rule pushModal_ok_effect [OF ok])
  obtain q s2 where q: "pushModal b n s1 = (Suc ?g, s2)" "modals_ok s2" "modalActorFocusStack s2 = ?rs @ [p, q]"
    "mr_actor q = b" "mr_grab q = Suc ?g" "mr_prevFocus q = focus_of a" "mr_actionMode q = m"
    "next_grab s2 = Suc (Suc ?g)" "modalCount s2 = modalCount s + 2"
    by (rule pushModal_ok_effect [OF p(2), of b n]) (simp add: p)
  obtain r s3 where r: "pushModal c k s2 = (Suc (Suc ?g), s3)" "modals_ok s3" "modalActorFocusStack s3 = ?rs @ [p, q, r]"
    "mr_actor r = c" "mr_grab r = Suc (Suc ?g)" "modalCount s3 = modalCount s + 3"
    by (rule pushModal_ok_effect [OF q(2), of c k]) (simp add: q)
  define q' where "q' = q\<lparr>mr_prevFocus := mr_prevFocus p, mr_prevFocusDestroyId := mr_prevFocusDestroyId p,
    mr_actionMode := mr_actionMode p\<rparr>"
  define r' where "r' = r\<lparr>mr_prevFocus := mr_prevFocus q, mr_prevFocusDestroyId := mr_prevFocusDestroyId q,
    mr_actionMode := mr_actionMode q\<rparr>"
  have shift: "shiftFocusChain (length ?rs) (?rs @ [p, q, r]) = ?rs @ [p, q', r']"
    by (simp add: shiftFocusChain_def shiftRecord_def list_update_append nth_append q'_def r'_def)
  have c: "modalCount s \<ge> 0" using ok by (simp add: modals_ok_def)
  have low: "\<forall>x \<in> set ?rs. mr_grab x < ?g" using ok by (simp add: modals_ok_def)
  have f: "findModal ?g (?rs @ [p, q, r]) = Some (length ?rs)"
    by (rule findModal_mid [OF grab_fresh [OF ok] p(5)])
  define s4 where "s4 = fst (popModal ?g s3)"
  have 4: "popModal ?g s3 = (s4, True)" "modalActorFocusStack s4 = ?rs @ [q', r']" "modalCount s4 = modalCount s + 2"
    using c by (simp_all add: s4_def popModal_def Let_def r f shift)
  have f': "findModal (Suc (Suc ?g)) (?rs @ [q', r']) = Some (length (?rs @ [q']))"
    using findModal_mid [of "Suc (Suc ?g)" "?rs @ [q']" r' "[]"] low q(5) r(5) by (fastforce simp: q'_def r'_def)
  have gives: "mr_prevFocus r' = focus_of a" "mr_actionMode r' = m" by (simp_all add: r'_def q)
  define s5 where "s5 = fst (popModal (Suc (Suc ?g)) s4)"
  have 5: "popModal (Suc (Suc ?g)) s4 = (s5, True)" "modalActorFocusStack s5 = ?rs @ [q']"
    "key_focus s5 = focus_of a" "actionMode s5 = m"
    using c by (simp_all add: s5_def popModal_def Let_def 4 f' gives nth_append)
  have "?g \<notin> mr_grab ` set (?rs @ [q'])" using low q(5) by (auto simp: q'_def)
  then show ?thesis by (simp add: p(1) q(1) r(1) 4(1) 5 q(4) q'_def)
qed

definition demo_modals :: modals where
  "demo_modals = initial_modals (Some 9)"

lemma modals_ok_demo: "modals_ok demo_modals"
  by (simp add: demo_modals_def initial_modals_def modals_ok_def)

lemma push_pop_modal_witness:
  "let (grab, s1) = pushModal 1 AM_POPUP demo_modals; (s2, ok) = popModal grab s1 in
     ok \<and> modal_view s2 = (if modalActorFocusStack demo_modals = [] then ([], 0, AM_NORMAL, key_focus demo_modals)
       else modal_view demo_modals)"
  by (rule push_pop_modal [OF modals_ok_demo])

lemma pop_below_top_as_never_pushed_witness:
  "let (grab, s1) = pushModal 1 AM_POPUP demo_modals; (grab', s2) = pushModal 2 AM_SYSTEM_MODAL s1 in
     modal_view (fst (popModal grab s2)) = modal_view (snd (pushModal 2 AM_SYSTEM_MODAL demo_modals))"
  by (rule pop_below_top_as_never_pushed [OF modals_ok_demo])

lemma pop_two_below_top_restores_popped_witness:
  "let (g1, s1) = pushModal 1 AM_POPUP demo_modals; (g2, s2) = pushModal 2 AM_SYSTEM_MODAL s1;
       (g3, s3) = pushModal 3 AM_LOOKING_GLASS s2; (s4, ok4) = popModal g1 s3; (s5, ok5) = popModal g3 s4 in
     ok4 \<and> ok5 \<and> key_focus s5 = focus_of 1 \<and> actionMode s5 = AM_POPUP
     \<and> mr_actor (last (modalActorFocusStack s5)) = 2 \<and> g1 \<notin> mr_grab ` set (modalActorFocusStack s5)"
  by (rule pop_two_below_top_restores_popped [OF modals_ok_demo])

end
