(* ===== verification/ScreenShield.thy ===== *)
theory ScreenShield
  imports ModalStack SessionMode
begin

section \<open>The lock screen (\<open>js/ui/screenShield.js\<close>)\<close>

text \<open>
  The state of \<open>ScreenShield\<close> with the stack of grabs of \<open>main.js\<close> and the session modes, which it
  works on. Settings, the password of the user, what grabs the compositor gives and how the session
  mode tables look are read from an environment. \<open>translation_y\<close> of the shield is seen through the
  transition that runs on it (\<open>anim\<close>): easing takes the running one off, which tells its
  \<open>onStopped\<close>, and without an animation the new callback runs at once. Exceptions are results; one
  raised in a signal handler stops there. The dialog is what the shield uses of it: its grab, its
  page, and whether \<open>finish\<close> calls back at once or when the messages of the prompt have been shown.
  The swipe between the dialog and an overlay is not modelled.
\<close>

datatype tray_state = ST_HIDDEN | ST_SHOWING | ST_SHOWN | ST_HIDING

datatype shield_anim = A_show | A_hide bool    \<comment> \<open>of the greeter or not\<close>

datatype shield_error = AlreadyHidden | ShieldModeError | NoDialog

datatype shield_call =
    ActiveChanged bool | LockedChanged bool | SetLockedHint bool | EmitWakeUpScreen | ClearClipboard
  | NotifyLockBlocked | RuntimeLocked bool | TerminateSession | ForwardToWayland bool | ScheduleLock

record lock_dialog =
  dlg_grab :: "nat option"         \<comment> \<open>the grab of \<open>open\<close>, while it is modal\<close>
  dlg_allowCancel :: bool
  dlg_prompt :: bool               \<comment> \<open>the prompt is the active page, not the clock\<close>

record overlay =
  ov_surface :: nat
  ov_active :: bool                \<comment> \<open>\<open>activeData\<close> is set: it has been moved to the overlay group\<close>

record shield_env =
  se_lockDisabled :: bool
  se_lockEnabled :: bool
  se_passwordNone :: bool
  se_grabKeyboard :: bool
  se_grabAll :: bool
  se_animates :: bool              \<comment> \<open>easing makes a transition: the actor is mapped, animations are on\<close>
  se_finishNow :: bool             \<comment> \<open>the prompt has no pending messages\<close>
  se_wayland :: bool
  se_loginSession :: bool
  se_now :: int
  se_wasLocked :: bool
  se_num :: "real \<Rightarrow> string"
  se_modes :: modes

record shield =
  sh_state :: tray_state
  sh_isModal :: bool
  sh_grab :: "nat option"
  sh_isGreeter :: bool
  sh_active :: bool
  sh_locked :: bool
  sh_activationTime :: int
  sh_dialog :: "lock_dialog option"
  sh_visible :: bool
  sh_groupVisible :: bool
  sh_anim :: "shield_anim option"
  sh_finishing :: "bool list"      \<comment> \<open>\<open>animate\<close> of the calls of \<open>finish\<close> that have not called back\<close>
  sh_overlays :: "overlay list"
  sh_showingOverlayGroup :: bool
  sh_modals :: modals
  sh_mode :: session_mode
  sh_trace :: "shield_call list"

type_synonym shield_result = "shield \<times> shield_error option"

definition UI_GROUP :: nat where "UI_GROUP = 1"

definition LOCK_DIALOG :: nat where "LOCK_DIALOG = 2"

definition sh_do :: "shield_call \<Rightarrow> shield \<Rightarrow> shield" where
  "sh_do c s = s\<lparr>sh_trace := sh_trace s @ [c]\<rparr>"

definition mode_prop :: "string \<Rightarrow> shield \<Rightarrow> bool" where
  "mode_prop k s = mode_value_truthy (map_option Some (jm_get (sm_props (sh_mode s)) k))"

definition focusDialog :: "shield \<Rightarrow> shield" where
  "focusDialog s = s\<lparr>sh_modals := (sh_modals s)\<lparr>key_focus := Some LOCK_DIALOG\<rparr>\<rparr>"

subsection \<open>Active and locked\<close>

definition setActive :: "bool \<Rightarrow> shield \<Rightarrow> shield" where
  "setActive active s =
     (let s1 = s\<lparr>sh_active := active\<rparr> in if sh_active s \<noteq> active then sh_do (ActiveChanged active) s1 else s1)"

definition setLocked :: "shield_env \<Rightarrow> bool \<Rightarrow> shield \<Rightarrow> shield" where
  "setLocked env locked s =
     (let s1 = s\<lparr>sh_locked := locked\<rparr>;
          s2 = (if sh_locked s \<noteq> locked then sh_do (LockedChanged locked) s1 else s1)
      in if se_loginSession env then sh_do (SetLockedHint locked) s2 else s2)"

definition becomeModal :: "shield_env \<Rightarrow> shield \<Rightarrow> shield \<times> bool" where
  "becomeModal env s =
     (if sh_isModal s then (s, True)
      else let (grab, ms) = pushModal UI_GROUP AM_LOCK_SCREEN (sh_modals s)
           in if se_grabKeyboard env
              then (s\<lparr>sh_modals := ms, sh_isModal := True, sh_grab := Some grab\<rparr>, True)
              else (s\<lparr>sh_modals := fst (popModal grab ms), sh_isModal := False\<rparr>, False))"

definition lockScreenShown :: "shield \<Rightarrow> shield_result" where
  "lockScreenShown s =
     (let s1 = s\<lparr>sh_state := ST_SHOWN\<rparr>
      in if sh_dialog s1 = None then (s1, Some NoDialog) else (setActive True (focusDialog s1), None))"

text \<open>The transition that runs is taken off before it has finished.\<close>

definition stopAnim :: "shield \<Rightarrow> shield" where
  "stopAnim s =
     (let s1 = s\<lparr>sh_anim := None\<rparr> in if sh_anim s = Some A_show then fst (lockScreenShown s1) else s1)"

subsection \<open>Deactivating\<close>

definition dialogPopModal :: "shield \<Rightarrow> shield" where
  "dialogPopModal s =
     (case sh_dialog s of
        Some d \<Rightarrow> (case dlg_grab d of
            Some g \<Rightarrow> s\<lparr>sh_modals := fst (popModal g (sh_modals s)), sh_dialog := Some (d\<lparr>dlg_grab := None\<rparr>)\<rparr>
          | None \<Rightarrow> s)
      | None \<Rightarrow> s)"

text \<open>A destroyed dialog calls nothing back.\<close>

definition destroyDialog :: "shield \<Rightarrow> shield" where
  "destroyDialog s =
     (if sh_dialog s = None then s
      else let s1 = dialogPopModal s
           in s1\<lparr>sh_dialog := None, sh_finishing := [], sh_modals := destroyActor LOCK_DIALOG (sh_modals s1)\<rparr>)"

definition completeDeactivate :: "shield_env \<Rightarrow> shield \<Rightarrow> shield" where
  "completeDeactivate env s =
     sh_do (RuntimeLocked False) (setLocked env False
       (setActive False ((destroyDialog s)\<lparr>sh_visible := False, sh_activationTime := 0\<rparr>)))"

text \<open>\<open>onComplete\<close> of sliding the shield out.\<close>

definition hideDone :: "shield_env \<Rightarrow> bool \<Rightarrow> shield \<Rightarrow> shield" where
  "hideDone env greeter s =
     (let s1 = s\<lparr>sh_state := ST_HIDDEN, sh_groupVisible := False\<rparr>
      in if greeter then setActive False (s1\<lparr>sh_activationTime := 0\<rparr>) else completeDeactivate env s1)"

definition slideOut :: "shield_env \<Rightarrow> bool \<Rightarrow> bool \<Rightarrow> shield \<Rightarrow> shield" where
  "slideOut env animate greeter s =
     (let s1 = stopAnim s
      in if animate \<and> se_animates env then s1\<lparr>sh_anim := Some (A_hide greeter)\<rparr> else hideDone env greeter s1)"

definition deactivateOverlays :: "shield \<Rightarrow> shield" where
  "deactivateOverlays s =
     fold (\<lambda>ov s. if ov_active ov then sh_do (ForwardToWayland False) s else s) (sh_overlays s)
       (s\<lparr>sh_overlays := map (\<lambda>ov. ov\<lparr>ov_active := False\<rparr>) (sh_overlays s)\<rparr>)"

definition leaveUnlockMode :: "shield_env \<Rightarrow> shield \<Rightarrow> shield_result" where
  "leaveUnlockMode env s =
     (if currentMode (sh_mode s) = ''unlock-dialog''
      then let (m, e) = popMode (se_num env) (se_modes env) ''unlock-dialog'' (sh_mode s)
           in (s\<lparr>sh_mode := m\<rparr>, map_option (\<lambda>_. ShieldModeError) e)
      else (s, None))"

definition continueDeactivate :: "shield_env \<Rightarrow> bool \<Rightarrow> shield \<Rightarrow> shield_result" where
  "continueDeactivate env animate s =
     (if sh_state s = ST_HIDDEN then (s, Some AlreadyHidden)
      else case leaveUnlockMode env (s\<lparr>sh_state := ST_HIDING\<rparr>) of
        (s1, Some e) \<Rightarrow> (s1, Some e)
      | (s1, None) \<Rightarrow>
          let s2 = sh_do EmitWakeUpScreen s1
          in if sh_isGreeter s2 then (slideOut env animate True s2, None)
             else let s3 = dialogPopModal s2;
                      s4 = (if sh_isModal s3
                            then s3\<lparr>sh_modals := (case sh_grab s3 of Some g \<Rightarrow> fst (popModal g (sh_modals s3)) | None \<Rightarrow> sh_modals s3),
                                   sh_grab := None, sh_isModal := False\<rparr>
                            else s3)
                  in (slideOut env animate False (deactivateOverlays s4), None))"

definition deactivate :: "shield_env \<Rightarrow> bool \<Rightarrow> shield \<Rightarrow> shield_result" where
  "deactivate env animate s =
     (if sh_dialog s \<noteq> None \<and> \<not> se_finishNow env then (s\<lparr>sh_finishing := sh_finishing s @ [animate]\<rparr>, None)
      else continueDeactivate env animate s)"

subsection \<open>Activating and locking\<close>

definition dialogActivate :: "bool \<Rightarrow> shield \<Rightarrow> shield" where
  "dialogActivate prompt s = s\<lparr>sh_dialog := map_option (\<lambda>d. d\<lparr>dlg_prompt := prompt\<rparr>) (sh_dialog s)\<rparr>"

text \<open>\<open>UnlockDialog.open\<close>\<close>

definition openDialog :: "shield_env \<Rightarrow> shield \<Rightarrow> shield \<times> bool" where
  "openDialog env s =
     (let (grab, ms) = pushModal UI_GROUP AM_UNLOCK_SCREEN (sh_modals s)
      in if se_grabAll env
         then (s\<lparr>sh_modals := ms, sh_dialog := map_option (\<lambda>d. d\<lparr>dlg_grab := Some grab\<rparr>) (sh_dialog s)\<rparr>, True)
         else (s\<lparr>sh_modals := fst (popModal grab ms)\<rparr>, False))"

text \<open>The last component is what \<open>_ensureUnlockDialog\<close> returns.\<close>

definition ensureUnlockDialog :: "shield_env \<Rightarrow> bool \<Rightarrow> shield \<Rightarrow> shield \<times> shield_error option \<times> bool" where
  "ensureUnlockDialog env allowCancel s =
     (let (s1, e, ok) =
        (if sh_dialog s \<noteq> None then (s, None, True)
         else if \<not> mode_prop ''unlockDialog'' s then let (s1, e) = deactivate env True s in (s1, e, False)
         else let (s1, opened) = openDialog env
                     (s\<lparr>sh_dialog := Some \<lparr>dlg_grab = None, dlg_allowCancel = False, dlg_prompt = False\<rparr>\<rparr>)
              in if opened then (s1, None, True) else let (s2, e) = deactivate env True s1 in (s2, e, False))
      in if \<not> ok then (s1, e, False)
         else let s2 = s1\<lparr>sh_dialog := map_option (\<lambda>d. d\<lparr>dlg_allowCancel := allowCancel\<rparr>) (sh_dialog s1)\<rparr>
              in (if sh_isGreeter s2 then dialogActivate True s2 else focusDialog s2, None, True))"

definition enterUnlockMode :: "shield_env \<Rightarrow> shield \<Rightarrow> shield_result" where
  "enterUnlockMode env s =
     (if currentMode (sh_mode s) = ''unlock-dialog'' then (s, None)
      else let s1 = s\<lparr>sh_isGreeter := mode_prop ''isGreeter'' s\<rparr>
           in if sh_isGreeter s1 then (s1, None)
              else let (m, e) = pushMode (se_num env) (se_modes env) ''unlock-dialog'' (sh_mode s1)
                   in (s1\<lparr>sh_mode := m\<rparr>, map_option (\<lambda>_. ShieldModeError) e))"

definition activate :: "shield_env \<Rightarrow> bool \<Rightarrow> bool \<Rightarrow> shield \<Rightarrow> shield_result" where
  "activate env animate later s =
     (let s0 = (if sh_activationTime s = 0 then s\<lparr>sh_activationTime := se_now env\<rparr> else s);
          (s1, e, ok) = ensureUnlockDialog env True s0
      in if e \<noteq> None \<or> \<not> ok then (s1, e)
         else let s2 = (if \<not> se_wayland env then sh_do (RuntimeLocked True) s1 else s1)
              in if later then (s2, None)
                 else case enterUnlockMode env (s2\<lparr>sh_visible := True\<rparr>) of
                        (s3, Some e) \<Rightarrow> (s3, Some e)
                      | (s3, None) \<Rightarrow>
                          let s4 = stopAnim (s3\<lparr>sh_groupVisible := True, sh_state := ST_SHOWING\<rparr>)
                          in if animate \<and> se_animates env then (s4\<lparr>sh_anim := Some A_show\<rparr>, None)
                             else lockScreenShown s4)"

definition lock :: "shield_env \<Rightarrow> bool \<Rightarrow> bool \<Rightarrow> shield \<Rightarrow> shield_result" where
  "lock env animate later s =
     (if se_lockDisabled env then (s, None)
      else let (s1, modal) = becomeModal env s
           in if \<not> modal then (sh_do NotifyLockBlocked s1, None)
              else case activate env animate later (sh_do ClearClipboard s1) of
                     (s2, Some e) \<Rightarrow> (s2, Some e)
                   | (s2, None) \<Rightarrow> (setLocked env (sh_isGreeter s2 \<or> \<not> se_passwordNone env) s2, None))"

definition showLater :: "shield_env \<Rightarrow> shield \<Rightarrow> shield_result" where
  "showLater env s =
     (case enterUnlockMode env (s\<lparr>sh_visible := True\<rparr>) of
        (s1, Some e) \<Rightarrow> (s1, Some e)
      | (s1, None) \<Rightarrow> lockScreenShown (s1\<lparr>sh_groupVisible := True\<rparr>))"

definition showDialog :: "shield_env \<Rightarrow> shield \<Rightarrow> shield_result" where
  "showDialog env s =
     (let (s1, modal) = becomeModal env s;
          s2 = (if modal then s1 else sh_do TerminateSession s1);
          (s3, e, ok) = ensureUnlockDialog env True
             (s2\<lparr>sh_visible := True, sh_isGreeter := mode_prop ''isGreeter'' s2, sh_locked := True\<rparr>)
      in (s3, e))"

definition lockIfWasLocked :: "shield_env \<Rightarrow> shield \<Rightarrow> shield" where
  "lockIfWasLocked env s = (if se_lockEnabled env \<and> se_wasLocked env then sh_do ScheduleLock s else s)"

definition activateDialog :: "shield_env \<Rightarrow> shield \<Rightarrow> shield_result" where
  "activateDialog env s =
     (if sh_locked s
      then let (s1, e, ok) = ensureUnlockDialog env True s
           in if e \<noteq> None then (s1, e)
              else if sh_dialog s1 = None then (s1, Some NoDialog) else (dialogActivate True s1, None)
      else deactivate env True s)"

definition cancelUnlock :: "shield \<Rightarrow> shield" where
  "cancelUnlock s = dialogActivate False s"

definition wakeUpScreen :: "shield \<Rightarrow> shield" where
  "wakeUpScreen s = (if sh_active s then sh_do EmitWakeUpScreen s else s)"

subsection \<open>Overlays on the lock screen\<close>

text \<open>The overlay on top is moved to the overlay group; false where the promise is rejected.\<close>

definition prepareLockscreenOverlay :: "shield \<Rightarrow> shield \<times> bool" where
  "prepareLockscreenOverlay s =
     (if sh_overlays s = [] then (s, False)
      else if ov_active (last (sh_overlays s)) then (s, True)
      else (sh_do (ForwardToWayland True)
              (s\<lparr>sh_overlays := butlast (sh_overlays s) @ [(last (sh_overlays s))\<lparr>ov_active := True\<rparr>]\<rparr>), True))"

text \<open>
  The animation to the overlay is taken as finished. \<open>_becameActiveId\<close> is never set, so that the
  branch for a screen that is off is always taken.
\<close>

definition lockscreenOverlayCreated :: "nat \<Rightarrow> shield \<Rightarrow> shield" where
  "lockscreenOverlayCreated surface s =
     (let s1 = s\<lparr>sh_overlays := sh_overlays s @ [\<lparr>ov_surface = surface, ov_active = False\<rparr>]\<rparr>
      in if \<not> sh_locked s1 then s1
         else let (s2, ok) = prepareLockscreenOverlay s1
              in wakeUpScreen (if ok then s2\<lparr>sh_showingOverlayGroup := True\<rparr> else s2))"

definition overlayDestroyed :: "nat \<Rightarrow> shield \<Rightarrow> shield" where
  "overlayDestroyed surface s =
     s\<lparr>sh_overlays := [ov \<leftarrow> sh_overlays s. ov_surface ov \<noteq> surface], sh_showingOverlayGroup := False\<rparr>"

definition showEmergencyCalls :: "shield \<Rightarrow> shield" where
  "showEmergencyCalls s =
     (if sh_overlays s = [] then s
      else let (s1, ok) = prepareLockscreenOverlay s in if ok then s1\<lparr>sh_showingOverlayGroup := True\<rparr> else s1)"

subsection \<open>Events\<close>

datatype shield_event =
    ShLock bool bool | ShShowLater | ShActivate bool | ShDeactivate bool | ShFinished | ShAnimDone
  | ShActivateDialog | ShBecomeModal | ShShowDialog | ShCancelUnlock | ShWakeUp | ShLockIfWasLocked
  | ShOverlayCreated nat | ShOverlayDestroyed nat | ShEmergency

text \<open>The callback of the first call of \<open>finish\<close> that waits, and the end of the transition.\<close>

definition onFinished :: "shield_env \<Rightarrow> shield \<Rightarrow> shield" where
  "onFinished env s =
     (case sh_finishing s of [] \<Rightarrow> s | animate # rest \<Rightarrow> fst (continueDeactivate env animate (s\<lparr>sh_finishing := rest\<rparr>)))"

definition onAnimDone :: "shield_env \<Rightarrow> shield \<Rightarrow> shield" where
  "onAnimDone env s =
     (case sh_anim s of
        None \<Rightarrow> s
      | Some A_show \<Rightarrow> fst (lockScreenShown (s\<lparr>sh_anim := None\<rparr>))
      | Some (A_hide greeter) \<Rightarrow> hideDone env greeter (s\<lparr>sh_anim := None\<rparr>))"

fun shield_step :: "shield_env \<Rightarrow> shield_event \<Rightarrow> shield \<Rightarrow> shield" where
  "shield_step env (ShLock animate later) s = fst (lock env animate later s)"
| "shield_step env ShShowLater s = fst (showLater env s)"
| "shield_step env (ShActivate animate) s = fst (activate env animate False s)"
| "shield_step env (ShDeactivate animate) s = fst (deactivate env animate s)"
| "shield_step env ShFinished s = onFinished env s"
| "shield_step env ShAnimDone s = onAnimDone env s"
| "shield_step env ShActivateDialog s = fst (activateDialog env s)"
| "shield_step env ShBecomeModal s = fst (becomeModal env s)"
| "shield_step env ShShowDialog s = fst (showDialog env s)"
| "shield_step env ShCancelUnlock s = cancelUnlock s"
| "shield_step env ShWakeUp s = wakeUpScreen s"
| "shield_step env ShLockIfWasLocked s = lockIfWasLocked env s"
| "shield_step env (ShOverlayCreated i) s = lockscreenOverlayCreated i s"
| "shield_step env (ShOverlayDestroyed i) s = overlayDestroyed i s"
| "shield_step env ShEmergency s = showEmergencyCalls s"

definition shield_run :: "(shield_env \<times> shield_event) list \<Rightarrow> shield \<Rightarrow> shield" where
  "shield_run evs s = fold (\<lambda>(env, ev). shield_step env ev) evs s"

definition newShield :: "session_mode \<Rightarrow> modals \<Rightarrow> shield" where
  "newShield mode ms = \<lparr>sh_state = ST_HIDDEN, sh_isModal = False, sh_grab = None, sh_isGreeter = False,
     sh_active = False, sh_locked = False, sh_activationTime = 0, sh_dialog = None, sh_visible = False,
     sh_groupVisible = False, sh_anim = None, sh_finishing = [], sh_overlays = [],
     sh_showingOverlayGroup = False, sh_modals = ms, sh_mode = mode, sh_trace = []\<rparr>"

end
