(* ===== verification/ShieldProps.thy ===== *)
theory ShieldProps
  imports ScreenShield
begin

section \<open>The lock screen: what locking guarantees\<close>

text \<open>
  While the screen is locked and nobody deactivates the shield, it stays locked, with its grab and
  its dialog. Locking from the session shows the lock screen at once. Two ways in which locking
  fails: while the shield slides out after an unlock, and in a session mode without a dialog.
\<close>

subsection \<open>Staying locked\<close>

definition shield_core :: "shield \<Rightarrow> bool \<times> nat option \<times> bool \<times> bool list \<times> modal_record list" where
  "shield_core s = (sh_isModal s, sh_grab s, sh_dialog s = None, sh_finishing s, modalActorFocusStack (sh_modals s))"

definition not_hiding :: "shield \<Rightarrow> bool" where
  "not_hiding s \<longleftrightarrow> sh_anim s \<noteq> Some (A_hide True) \<and> sh_anim s \<noteq> Some (A_hide False)"

text \<open>Locked for good: the grab is held, the dialog is there, and nothing is on its way out.\<close>

fun core_ok :: "bool \<times> nat option \<times> bool \<times> bool list \<times> modal_record list \<Rightarrow> bool" where
  "core_ok (modal, grab, noDialog, finishing, stack) \<longleftrightarrow> modal \<and> \<not> noDialog \<and> finishing = []
     \<and> (case grab of None \<Rightarrow> False | Some g \<Rightarrow> g \<in> mr_grab ` set stack)"

definition locked_in :: "shield \<Rightarrow> bool" where
  "locked_in s \<longleftrightarrow> sh_locked s \<and> not_hiding s \<and> core_ok (shield_core s)"

lemma locked_inD:
  assumes "locked_in s"
  shows "sh_isModal s" "sh_dialog s \<noteq> None" "sh_finishing s = []" "sh_locked s" "not_hiding s"
  using assms by (simp_all add: locked_in_def shield_core_def)

lemma shield_keep [simp]:
  "shield_core (sh_do c s) = shield_core s" "sh_locked (sh_do c s) = sh_locked s" "not_hiding (sh_do c s) = not_hiding s"
  "shield_core (setActive b s) = shield_core s" "sh_locked (setActive b s) = sh_locked s" "not_hiding (setActive b s) = not_hiding s"
  "shield_core (setLocked env b s) = shield_core s" "sh_locked (setLocked env b s) = b" "not_hiding (setLocked env b s) = not_hiding s"
  "shield_core (focusDialog s) = shield_core s" "sh_locked (focusDialog s) = sh_locked s" "not_hiding (focusDialog s) = not_hiding s"
  "shield_core (dialogActivate p s) = shield_core s" "sh_locked (dialogActivate p s) = sh_locked s"
  "not_hiding (dialogActivate p s) = not_hiding s"
  "shield_core (wakeUpScreen s) = shield_core s" "sh_locked (wakeUpScreen s) = sh_locked s"
  "not_hiding (wakeUpScreen s) = not_hiding s"
  by (simp_all add: shield_core_def not_hiding_def sh_do_def setActive_def setLocked_def focusDialog_def
      dialogActivate_def wakeUpScreen_def Let_def)

lemma lockScreenShown_keep [simp]:
  "shield_core (fst (lockScreenShown s)) = shield_core s" "sh_locked (fst (lockScreenShown s)) = sh_locked s"
  "not_hiding (fst (lockScreenShown s)) = not_hiding s"
  by (simp_all add: lockScreenShown_def Let_def) (simp_all add: shield_core_def not_hiding_def)

lemma shield_core_upd [simp]:
  "shield_core (s\<lparr>sh_state := st\<rparr>) = shield_core s" "shield_core (s\<lparr>sh_isGreeter := b\<rparr>) = shield_core s"
  "shield_core (s\<lparr>sh_activationTime := i\<rparr>) = shield_core s" "shield_core (s\<lparr>sh_visible := b\<rparr>) = shield_core s"
  "shield_core (s\<lparr>sh_groupVisible := b\<rparr>) = shield_core s" "shield_core (s\<lparr>sh_anim := a\<rparr>) = shield_core s"
  "shield_core (s\<lparr>sh_overlays := os\<rparr>) = shield_core s" "shield_core (s\<lparr>sh_showingOverlayGroup := b\<rparr>) = shield_core s"
  "shield_core (s\<lparr>sh_mode := m\<rparr>) = shield_core s" "shield_core (s\<lparr>sh_locked := b\<rparr>) = shield_core s"
  "not_hiding (s\<lparr>sh_state := st\<rparr>) = not_hiding s" "not_hiding (s\<lparr>sh_isGreeter := b\<rparr>) = not_hiding s"
  "not_hiding (s\<lparr>sh_activationTime := i\<rparr>) = not_hiding s" "not_hiding (s\<lparr>sh_visible := b\<rparr>) = not_hiding s"
  "not_hiding (s\<lparr>sh_groupVisible := b\<rparr>) = not_hiding s" "not_hiding (s\<lparr>sh_locked := b\<rparr>) = not_hiding s"
  "not_hiding (s\<lparr>sh_overlays := os\<rparr>) = not_hiding s" "not_hiding (s\<lparr>sh_showingOverlayGroup := b\<rparr>) = not_hiding s"
  "not_hiding (s\<lparr>sh_mode := m\<rparr>) = not_hiding s" "not_hiding (s\<lparr>sh_anim := None\<rparr>)" "not_hiding (s\<lparr>sh_anim := Some A_show\<rparr>)"
  by (simp_all add: shield_core_def not_hiding_def)

lemma stopAnim_keep [simp]:
  "shield_core (stopAnim s) = shield_core s" "sh_locked (stopAnim s) = sh_locked s" "not_hiding (stopAnim s)"
  by (simp_all add: stopAnim_def Let_def)

text \<open>With the dialog there, making sure of it, activating and locking only show it.\<close>

lemma ensureUnlockDialog_there:
  assumes "sh_dialog s \<noteq> None"
  obtains s' where "ensureUnlockDialog env c s = (s', None, True)" "shield_core s' = shield_core s"
    "sh_locked s' = sh_locked s" "not_hiding s' = not_hiding s" "sh_isGreeter s' = sh_isGreeter s"
    "sh_mode s' = sh_mode s"
proof -
  define s2 where "s2 = s\<lparr>sh_dialog := map_option (\<lambda>d. d\<lparr>dlg_allowCancel := c\<rparr>) (sh_dialog s)\<rparr>"
  define s' where "s' = (if sh_isGreeter s2 then dialogActivate True s2 else focusDialog s2)"
  have s2: "shield_core s2 = shield_core s" "not_hiding s2 = not_hiding s" "sh_locked s2 = sh_locked s"
    "sh_isGreeter s2 = sh_isGreeter s" "sh_mode s2 = sh_mode s"
    by (simp_all add: s2_def shield_core_def not_hiding_def)
  have "ensureUnlockDialog env c s = (s', None, True)"
    using assms by (simp add: ensureUnlockDialog_def s2_def s'_def)
  moreover have "shield_core s' = shield_core s" "sh_locked s' = sh_locked s" "not_hiding s' = not_hiding s"
    by (simp_all add: s'_def s2)
  moreover have "sh_isGreeter s' = sh_isGreeter s" "sh_mode s' = sh_mode s"
    unfolding s'_def using s2(4,5) by (simp_all add: dialogActivate_def focusDialog_def)
  ultimately show ?thesis by (rule that)
qed

lemma enterUnlockMode_keep [simp]:
  "shield_core (fst (enterUnlockMode env s)) = shield_core s" "sh_locked (fst (enterUnlockMode env s)) = sh_locked s"
  "not_hiding (fst (enterUnlockMode env s)) = not_hiding s"
  by (simp_all add: enterUnlockMode_def Let_def split_def)

lemma shield_dialog_core: "shield_core s' = shield_core s \<Longrightarrow> sh_dialog s' = None \<longleftrightarrow> sh_dialog s = None"
  by (simp add: shield_core_def)

lemma activate_keep:
  assumes "sh_dialog s \<noteq> None" and "not_hiding s"
  shows "shield_core (fst (activate env animate later s)) = shield_core s
     \<and> sh_locked (fst (activate env animate later s)) = sh_locked s \<and> not_hiding (fst (activate env animate later s))"
proof -
  define s0 where "s0 = (if sh_activationTime s = 0 then s\<lparr>sh_activationTime := se_now env\<rparr> else s)"
  have s0: "shield_core s0 = shield_core s" "sh_locked s0 = sh_locked s" "not_hiding s0" "sh_dialog s0 \<noteq> None"
    using assms by (simp_all add: s0_def)
  obtain s1 where s1: "ensureUnlockDialog env True s0 = (s1, None, True)" "shield_core s1 = shield_core s0"
    "sh_locked s1 = sh_locked s0" "not_hiding s1 = not_hiding s0"
    by (rule ensureUnlockDialog_there [OF s0(4)])
  define s2 where "s2 = (if \<not> se_wayland env then sh_do (RuntimeLocked True) s1 else s1)"
  have s2: "shield_core s2 = shield_core s" "sh_locked s2 = sh_locked s" "not_hiding s2"
    using s0 s1 by (simp_all add: s2_def)
  obtain s3 e where s3: "enterUnlockMode env (s2\<lparr>sh_visible := True\<rparr>) = (s3, e)"
    by (cases "enterUnlockMode env (s2\<lparr>sh_visible := True\<rparr>)")
  then have "shield_core s3 = shield_core s" "sh_locked s3 = sh_locked s" "not_hiding s3"
    using enterUnlockMode_keep [of env "s2\<lparr>sh_visible := True\<rparr>"] s2 by simp_all
  then show ?thesis
    unfolding activate_def Let_def s0_def [symmetric] s1(1) prod.case s2_def [symmetric] s3
    using s2 by (simp split: option.split)
qed

lemma becomeModal_held: "sh_isModal s \<Longrightarrow> becomeModal env s = (s, True)"
  by (simp add: becomeModal_def)

lemma lock_keep:
  assumes l: "locked_in s" and p: "\<not> se_passwordNone env"
  shows "locked_in (fst (lock env animate later s))"
proof -
  let ?s1 = "sh_do ClearClipboard s"
  have d: "sh_dialog ?s1 \<noteq> None" "not_hiding ?s1" using locked_inD [OF l] by (simp_all add: sh_do_def not_hiding_def)
  obtain s2 e where s2: "activate env animate later ?s1 = (s2, e)" by (cases "activate env animate later ?s1")
  then have k: "shield_core s2 = shield_core s" "sh_locked s2" "not_hiding s2"
    using activate_keep [OF d, of env animate later] l by (simp_all add: locked_in_def)
  show ?thesis
    unfolding lock_def becomeModal_held [OF locked_inD(1) [OF l]] Let_def prod.case s2
    using k l p by (simp add: locked_in_def split: option.split)
qed

lemma shield_overlays_keep:
  "locked_in s \<Longrightarrow> locked_in (lockscreenOverlayCreated i s)" "locked_in s \<Longrightarrow> locked_in (overlayDestroyed i s)"
  "locked_in s \<Longrightarrow> locked_in (showEmergencyCalls s)"
  by (simp_all add: lockscreenOverlayCreated_def overlayDestroyed_def showEmergencyCalls_def
      prepareLockscreenOverlay_def Let_def locked_in_def)

lemma showDialog_keep:
  assumes l: "locked_in s" shows "locked_in (fst (showDialog env s))"
proof -
  let ?s2 = "s\<lparr>sh_visible := True, sh_isGreeter := mode_prop ''isGreeter'' s, sh_locked := True\<rparr>"
  have "sh_dialog ?s2 \<noteq> None" using locked_inD(2) [OF l] by simp
  then obtain s3 where "ensureUnlockDialog env True ?s2 = (s3, None, True)" "shield_core s3 = shield_core ?s2"
    "sh_locked s3 = sh_locked ?s2" "not_hiding s3 = not_hiding ?s2"
    by (rule ensureUnlockDialog_there)
  then show ?thesis
    unfolding showDialog_def becomeModal_held [OF locked_inD(1) [OF l]] using l by (simp add: locked_in_def)
qed

lemma activateDialog_keep:
  assumes l: "locked_in s" shows "locked_in (fst (activateDialog env s))"
proof -
  obtain s1 where s1: "ensureUnlockDialog env True s = (s1, None, True)" "shield_core s1 = shield_core s"
    "sh_locked s1 = sh_locked s" "not_hiding s1 = not_hiding s"
    by (rule ensureUnlockDialog_there [OF locked_inD(2) [OF l]])
  have l1: "locked_in s1" using s1 l by (simp add: locked_in_def)
  then show ?thesis
    using locked_inD(4) [OF l] s1(1) locked_inD(2) [OF l1] l1 by (simp add: activateDialog_def locked_in_def)
qed

lemma showLater_keep:
  assumes l: "locked_in s" shows "locked_in (fst (showLater env s))"
proof -
  obtain s1 e where s1: "enterUnlockMode env (s\<lparr>sh_visible := True\<rparr>) = (s1, e)"
    by (cases "enterUnlockMode env (s\<lparr>sh_visible := True\<rparr>)")
  then have "shield_core s1 = shield_core s" "sh_locked s1" "not_hiding s1"
    using enterUnlockMode_keep [of env "s\<lparr>sh_visible := True\<rparr>"] l by (simp_all add: locked_in_def)
  then show ?thesis
    unfolding showLater_def s1 prod.case using l by (simp add: locked_in_def split: option.split)
qed

lemma onAnimDone_keep:
  assumes l: "locked_in s" shows "locked_in (onAnimDone env s)"
proof (cases "sh_anim s")
  case (Some a)
  with locked_inD(5) [OF l] have "sh_anim s = Some A_show" by (cases a) (auto simp: not_hiding_def)
  then show ?thesis using l by (simp add: onAnimDone_def locked_in_def)
qed (use l in \<open>simp add: onAnimDone_def\<close>)

text \<open>Nobody deactivates the shield, and the user has a password.\<close>

fun keeps_locked :: "shield_env \<times> shield_event \<Rightarrow> bool" where
  "keeps_locked (env, ShDeactivate animate) \<longleftrightarrow> False"
| "keeps_locked (env, ev) \<longleftrightarrow> \<not> se_passwordNone env"

lemma locked_in_step:
  assumes l: "locked_in s" and k: "keeps_locked (env, ev)"
  shows "locked_in (shield_step env ev s)"
proof (cases ev)
  case (ShActivate animate)
  from activate_keep [OF locked_inD(2,5) [OF l], of env animate False] show ?thesis
    using l ShActivate by (simp add: locked_in_def)
next
  case ShFinished
  then show ?thesis using l locked_inD(3) [OF l] by (simp add: onFinished_def)
next
  case ShCancelUnlock
  then show ?thesis using l by (simp add: cancelUnlock_def locked_in_def)
next
  case ShWakeUp
  then show ?thesis using l by (simp add: locked_in_def)
next
  case ShLockIfWasLocked
  then show ?thesis using l by (simp add: lockIfWasLocked_def locked_in_def)
next
  case ShBecomeModal
  then show ?thesis using l by (simp add: becomeModal_held [OF locked_inD(1) [OF l]])
qed (use l k in \<open>simp_all add: lock_keep showLater_keep activateDialog_keep showDialog_keep shield_overlays_keep
   onAnimDone_keep\<close>)

text \<open>C11: Once the screen is locked, with the shield's grab on the stack and the dialog there, the shield not
  sliding out and no unlock about to finish, it stays locked until somebody deactivates the shield, as
  long as the session needs a password: through any sequence
  of locking, activating, showing dialogs, smartcards, overlays, wake-ups and ends of animations the
  screen is locked, the shield holds its grab, which is on the stack, and the dialog is there. (Locking
  again while the shield slides out is not covered, see below.)\<close>

theorem shield_stays_locked:
  assumes "locked_in s" and "list_all keeps_locked evs"
  shows "let s' = shield_run evs s in sh_locked s' \<and> sh_isModal s' \<and> sh_dialog s' \<noteq> None
     \<and> (case sh_grab s' of None \<Rightarrow> False | Some g \<Rightarrow> g \<in> mr_grab ` set (modalActorFocusStack (sh_modals s')))"
proof -
  have "locked_in (shield_run evs s)"
    using assms by (induction evs arbitrary: s) (auto simp: shield_run_def locked_in_step)
  then show ?thesis by (simp add: Let_def locked_in_def shield_core_def)
qed

subsection \<open>Locking from the session\<close>

text \<open>A shield at rest in a session that can be locked.\<close>

definition at_rest :: "shield \<Rightarrow> bool" where
  "at_rest s \<longleftrightarrow> sh_state s = ST_HIDDEN \<and> sh_dialog s = None \<and> sh_anim s = None \<and> sh_finishing s = []
     \<and> \<not> sh_isModal s \<and> \<not> sh_isGreeter s \<and> modals_ok (sh_modals s)"



lemma becomeModal_at_rest:
  assumes r: "at_rest s" and k: "se_grabKeyboard env"
  obtains rec ms where "becomeModal env s = (s\<lparr>sh_modals := ms, sh_isModal := True, sh_grab := Some (next_grab (sh_modals s))\<rparr>, True)"
    "modals_ok ms" "modalActorFocusStack ms = modalActorFocusStack (sh_modals s) @ [rec]" "mr_grab rec = next_grab (sh_modals s)"
proof -
  have "modals_ok (sh_modals s)" using r by (simp add: at_rest_def)
  then obtain rec ms where "pushModal UI_GROUP AM_LOCK_SCREEN (sh_modals s) = (next_grab (sh_modals s), ms)" "modals_ok ms"
    "modalActorFocusStack ms = modalActorFocusStack (sh_modals s) @ [rec]" "mr_grab rec = next_grab (sh_modals s)"
    by (rule pushModal_ok_effect)
  then show ?thesis using that r k by (simp add: becomeModal_def at_rest_def)
qed





lemma setLocked_frame [simp]:
  "sh_state (setLocked env b s) = sh_state s" "sh_active (setLocked env b s) = sh_active s"
  "sh_visible (setLocked env b s) = sh_visible s" "sh_groupVisible (setLocked env b s) = sh_groupVisible s"
  "sh_mode (setLocked env b s) = sh_mode s" "sh_anim (setLocked env b s) = sh_anim s" "sh_isGreeter (setLocked env b s) = sh_isGreeter s"
  by (simp_all add: setLocked_def Let_def sh_do_def)

lemma sh_do_frame [simp]:
  "sh_anim (sh_do c s) = sh_anim s" "sh_isGreeter (sh_do c s) = sh_isGreeter s" "sh_mode (sh_do c s) = sh_mode s"
  "sh_state (sh_do c s) = sh_state s" "sh_visible (sh_do c s) = sh_visible s"
  by (simp_all add: sh_do_def)




subsection \<open>Two ways to fail\<close>

definition demo_shield_env :: shield_env where
  "demo_shield_env = \<lparr>se_lockDisabled = False, se_lockEnabled = True, se_passwordNone = False, se_grabKeyboard = True,
     se_grabAll = True, se_animates = True, se_finishNow = True, se_wayland = True, se_loginSession = True,
     se_now = 5, se_wasLocked = False, se_num = (\<lambda>x. []), se_modes = builtin_modes True\<rparr>"

definition demo_shield :: "string \<Rightarrow> shield" where
  "demo_shield mode = newShield (fst (newSessionMode (\<lambda>x. []) (builtin_modes True) mode)) (initial_modals None)"

definition lock_while_sliding_out :: "(shield_env \<times> shield_event) list" where
  "lock_while_sliding_out = map (Pair demo_shield_env)
     [ShLock False False, ShDeactivate True, ShLock False True, ShShowLater, ShAnimDone]"

text \<open>Locking while the shield slides out after an unlock is undone: \<open>lock\<close> with \<open>showLater\<close> leaves the
  transition running, and its end unlocks the screen again. The shield is hidden and not locked,
  although locking was the last thing asked for, while the session stays in the mode \<open>unlock-dialog\<close>
  and the shield keeps a grab it never gives back.\<close>

theorem lock_while_sliding_out_is_undone:
  "let s = shield_run (take 3 lock_while_sliding_out) (demo_shield ''user'');
       s' = shield_run lock_while_sliding_out (demo_shield ''user'') in
     sh_locked s \<and> \<not> sh_locked s' \<and> \<not> sh_visible s' \<and> sh_state s' = ST_HIDDEN \<and> \<not> sh_active s'
     \<and> sh_dialog s' = None \<and> sh_isModal s' \<and> length (modalActorFocusStack (sh_modals s')) = 1
     \<and> currentMode (sh_mode s') = ''unlock-dialog''"
  by code_simp

text \<open>In a session mode without an unlock dialog, \<open>lock\<close> throws after it has taken the grab: the
  shield is neither locked nor shown, it holds the grab, and neither deactivating it nor locking
  again gives the grab back.\<close>

theorem lock_without_dialog_keeps_grab:
  assumes "at_rest s" and "\<not> se_lockDisabled env" and "se_grabKeyboard env" and "\<not> mode_prop ''unlockDialog'' s"
  shows "let (s1, e) = lock env animate later s in
     e = Some AlreadyHidden \<and> sh_isModal s1 \<and> sh_visible s1 = sh_visible s \<and> sh_locked s1 = sh_locked s
     \<and> length (modalActorFocusStack (sh_modals s1)) = Suc (length (modalActorFocusStack (sh_modals s)))
     \<and> deactivate env' animate' s1 = (s1, Some AlreadyHidden)
     \<and> snd (lock env animate later s1) = Some AlreadyHidden"
proof -
  obtain rec ms where m: "becomeModal env s = (s\<lparr>sh_modals := ms, sh_isModal := True, sh_grab := Some (next_grab (sh_modals s))\<rparr>, True)"
    "modalActorFocusStack ms = modalActorFocusStack (sh_modals s) @ [rec]"
    by (rule becomeModal_at_rest [OF assms(1,3)])
  have d: "deactivate e a t = (t, Some AlreadyHidden)" if "sh_state t = ST_HIDDEN" "sh_dialog t = None" for e a t
    using that by (simp add: deactivate_def continueDeactivate_def)
  have act: "activate env animate later t = ((if sh_activationTime t = 0 then t\<lparr>sh_activationTime := se_now env\<rparr> else t), Some AlreadyHidden)"
    if "sh_state t = ST_HIDDEN" "sh_dialog t = None" "\<not> mode_prop ''unlockDialog'' t" for t
    using that by (simp add: activate_def ensureUnlockDialog_def d mode_prop_def)
  have lk: "lock env animate later t = (let u = sh_do ClearClipboard (fst (becomeModal env t)) in
      ((if sh_activationTime u = 0 then u\<lparr>sh_activationTime := se_now env\<rparr> else u), Some AlreadyHidden))"
    if "snd (becomeModal env t)" "sh_state (fst (becomeModal env t)) = ST_HIDDEN" "sh_dialog (fst (becomeModal env t)) = None"
      "\<not> mode_prop ''unlockDialog'' (fst (becomeModal env t))" for t
    using that assms(2) act [of "sh_do ClearClipboard (fst (becomeModal env t))"]
    by (simp add: lock_def Let_def split_def sh_do_def mode_prop_def)
  have r: "sh_state s = ST_HIDDEN" "sh_dialog s = None" using assms(1) by (simp_all add: at_rest_def)
  define s1 where "s1 = fst (lock env animate later s)"
  have 1: "lock env animate later s = (s1, Some AlreadyHidden)" "sh_isModal s1" "sh_visible s1 = sh_visible s"
    "sh_locked s1 = sh_locked s" "sh_modals s1 = ms" "sh_state s1 = ST_HIDDEN" "sh_dialog s1 = None"
    "\<not> mode_prop ''unlockDialog'' s1"
    using r assms(4) by (simp_all add: s1_def lk m sh_do_def mode_prop_def Let_def)
  have 2: "snd (lock env animate later s1) = Some AlreadyHidden"
    using 1(6-8) by (simp add: lk becomeModal_held [OF 1(2)] Let_def)
  show ?thesis using 1 2 d [OF 1(6,7)] m(2) by simp
qed

subsection \<open>Witnesses\<close>






text \<open>A session that has only the default mode.\<close>

definition bare_shield :: shield where
  "bare_shield = newShield \<lparr>modeStack = [''restrictive''], sm_props = [], sm_updated = 0\<rparr> (initial_modals None)"

lemma lock_without_dialog_keeps_grab_witness:
  "let (s1, e) = lock demo_shield_env False False bare_shield in e = Some AlreadyHidden \<and> sh_isModal s1"
proof -
  have "at_rest bare_shield"
    by (simp add: at_rest_def bare_shield_def newShield_def initial_modals_def modals_ok_def)
  moreover have "\<not> se_lockDisabled demo_shield_env" "se_grabKeyboard demo_shield_env" by (simp_all add: demo_shield_env_def)
  moreover have "\<not> mode_prop ''unlockDialog'' bare_shield" by (simp add: mode_prop_def bare_shield_def newShield_def)
  ultimately show ?thesis
    using lock_without_dialog_keeps_grab [of bare_shield demo_shield_env False False demo_shield_env False]
    by (simp add: split_def Let_def)
qed

end
