(* ===== verification/SwipeTracker.thy ===== *)
theory SwipeTracker
  imports Prelude
begin

section \<open>Swipes (\<open>js/ui/swipeTracker.js\<close>)\<close>

text \<open>
  A \<open>SwipeTracker\<close>: the progress it follows, the snap points, and where and how fast a swipe ends.
  Numbers are real; \<open>None\<close> stands for a result that is \<open>undefined\<close>, infinite or not a number. An
  index is an \<open>int\<close>, \<open>-1\<close> where the source finds nothing. The gesture's event type, its delta and
  its velocity are arguments.
\<close>

definition TOUCHPAD_BASE_HEIGHT :: real where "TOUCHPAD_BASE_HEIGHT = 300"
definition TOUCHPAD_BASE_WIDTH :: real where "TOUCHPAD_BASE_WIDTH = 400"
definition MIN_ANIMATION_DURATION :: real where "MIN_ANIMATION_DURATION = 100"
definition MAX_ANIMATION_DURATION :: real where "MAX_ANIMATION_DURATION = 400"
definition VELOCITY_THRESHOLD_TOUCH :: real where "VELOCITY_THRESHOLD_TOUCH = 3 / 10"
definition VELOCITY_THRESHOLD_TOUCHPAD :: real where "VELOCITY_THRESHOLD_TOUCHPAD = 6 / 10"
definition DECELERATION_TOUCH :: real where "DECELERATION_TOUCH = 998 / 1000"
definition DECELERATION_TOUCHPAD :: real where "DECELERATION_TOUCHPAD = 997 / 1000"
definition VELOCITY_CURVE_THRESHOLD :: real where "VELOCITY_CURVE_THRESHOLD = 2"
definition DECELERATION_PARABOLA_MULTIPLIER :: real where "DECELERATION_PARABOLA_MULTIPLIER = 35 / 100"
definition DURATION_MULTIPLIER :: real where "DURATION_MULTIPLIER = 3"
definition ANIMATION_BASE_VELOCITY :: real where "ANIMATION_BASE_VELOCITY = 2 / 1000"

lemmas swipe_constants = TOUCHPAD_BASE_HEIGHT_def TOUCHPAD_BASE_WIDTH_def MIN_ANIMATION_DURATION_def
  MAX_ANIMATION_DURATION_def VELOCITY_THRESHOLD_TOUCH_def VELOCITY_THRESHOLD_TOUCHPAD_def DECELERATION_TOUCH_def
  DECELERATION_TOUCHPAD_def VELOCITY_CURVE_THRESHOLD_def DECELERATION_PARABOLA_MULTIPLIER_def
  DURATION_MULTIPLIER_def ANIMATION_BASE_VELOCITY_def

record swipe_tracker =
  st_vertical :: bool
  st_distance :: real
  st_snapPoints :: "real list"
  st_initialProgress :: real
  st_cancelProgress :: real
  st_progress :: real
  st_peekedMinSnapPoint :: int
  st_peekedMaxSnapPoint :: int
  st_allowLongSwipes :: bool
  st_pickupOnPress :: bool         \<comment> \<open>the parameter\<close>
  st_pickup :: bool                \<comment> \<open>the gesture's \<open>pickup_on_press\<close>\<close>
  st_recognizing :: bool           \<comment> \<open>the gesture's state\<close>
  st_2d :: bool                    \<comment> \<open>\<open>_otherDimensionTracker\<close> is set\<close>
  st_endVelocity :: "real option"
  st_endIsTouchpad :: bool

text \<open>\<open>Math.clamp\<close>\<close>

definition js_clamp :: "real \<Rightarrow> real \<Rightarrow> real \<Rightarrow> real" where
  "js_clamp x lower upper = min (max x lower) upper"

fun js_findLastIndex :: "('a \<Rightarrow> bool) \<Rightarrow> 'a list \<Rightarrow> int" where
  "js_findLastIndex p [] = -1"
| "js_findLastIndex p (x # xs) =
     (let i = js_findLastIndex p xs in if i \<ge> 0 then i + 1 else if p x then 0 else -1)"

definition js_at :: "'a list \<Rightarrow> int \<Rightarrow> 'a option" where
  "js_at xs i = (if 0 \<le> i \<and> i < int (length xs) then Some (xs ! nat i) else None)"

definition findClosestPoint :: "real \<Rightarrow> real list \<Rightarrow> int" where
  "findClosestPoint pos snapPoints =
     (let distances = map (\<lambda>x. \<bar>x - pos\<bar>) snapPoints
      in case distances of [] \<Rightarrow> -1 | d # ds \<Rightarrow> js_findIndex (\<lambda>x. x = fold min ds d) distances)"

definition findNextPoint :: "real \<Rightarrow> real list \<Rightarrow> int" where
  "findNextPoint pos snapPoints = js_findIndex (\<lambda>p. p \<ge> pos) snapPoints"

definition findPreviousPoint :: "real \<Rightarrow> real list \<Rightarrow> int" where
  "findPreviousPoint pos snapPoints = max 0 (js_findLastIndex (\<lambda>p. p \<le> pos) snapPoints)"

definition findPointForProjection :: "real \<Rightarrow> real \<Rightarrow> swipe_tracker \<Rightarrow> int" where
  "findPointForProjection pos velocity t =
     (let initial = findClosestPoint (st_initialProgress t) (st_snapPoints t);
          prev = findPreviousPoint pos (st_snapPoints t);
          next = findNextPoint pos (st_snapPoints t)
      in if (if velocity > 0 then prev else next) = initial
         then if velocity > 0 then next else prev
         else findClosestPoint pos (st_snapPoints t))"

definition getGestureDirFactor :: "bool \<Rightarrow> swipe_tracker \<Rightarrow> real" where
  "getGestureDirFactor rtl t = (if \<not> st_vertical t \<and> rtl then 1 else -1)"

definition swipeDistance :: "bool \<Rightarrow> swipe_tracker \<Rightarrow> real" where
  "swipeDistance isTouchpad t =
     (if isTouchpad then if st_vertical t then TOUCHPAD_BASE_HEIGHT else TOUCHPAD_BASE_WIDTH else st_distance t)"

text \<open>\<open>deltaX\<close> and \<open>deltaY\<close> are what the gesture moved; the new progress is what \<open>update\<close> is emitted with.\<close>

definition updatePanGesture :: "bool \<Rightarrow> bool \<Rightarrow> real \<Rightarrow> real \<Rightarrow> swipe_tracker \<Rightarrow> swipe_tracker option" where
  "updatePanGesture rtl isTouchpad deltaX deltaY t =
     (let delta = getGestureDirFactor rtl t * (if st_vertical t then deltaY else deltaX);
          distance = swipeDistance isTouchpad t
      in if distance = 0 \<or> st_snapPoints t = [] then None
         else let progress = st_progress t + delta / distance;
                  prevPoint = findPreviousPoint progress (st_snapPoints t);
                  nextPoint = findNextPoint progress (st_snapPoints t)
              in Some (t\<lparr>st_peekedMinSnapPoint := min (st_peekedMinSnapPoint t) prevPoint,
                         st_peekedMaxSnapPoint := max (st_peekedMaxSnapPoint t) nextPoint,
                         st_progress := js_clamp progress (hd (st_snapPoints t)) (last (st_snapPoints t))\<rparr>))"

text \<open>How far a swipe goes on by itself.\<close>

definition swipeProjection :: "real \<Rightarrow> bool \<Rightarrow> real" where
  "swipeProjection velocity isTouchpad =
     (let decel = (if isTouchpad then DECELERATION_TOUCHPAD else DECELERATION_TOUCH);
          slope = decel / (1 - decel) / 1000
      in if \<bar>velocity\<bar> > VELOCITY_CURVE_THRESHOLD
         then let c = slope / 2 / DECELERATION_PARABOLA_MULTIPLIER;
                  x = \<bar>velocity\<bar> - VELOCITY_CURVE_THRESHOLD + c
              in slope * VELOCITY_CURVE_THRESHOLD + DECELERATION_PARABOLA_MULTIPLIER * x * x
                 - DECELERATION_PARABOLA_MULTIPLIER * c * c
         else \<bar>velocity\<bar> * slope)"

definition getEndProgress :: "real \<Rightarrow> bool \<Rightarrow> swipe_tracker \<Rightarrow> real option" where
  "getEndProgress velocity isTouchpad t =
     (let threshold = (if isTouchpad then VELOCITY_THRESHOLD_TOUCHPAD else VELOCITY_THRESHOLD_TOUCH);
          snapPoints = st_snapPoints t
      in if \<bar>velocity\<bar> < threshold then js_at snapPoints (findClosestPoint (st_progress t) snapPoints)
         else let pos = swipeProjection velocity isTouchpad * sgn velocity + st_progress t;
                  boundsMin = (if st_allowLongSwipes t then js_at snapPoints 0
                               else js_at snapPoints (st_peekedMinSnapPoint t));
                  boundsMax = (if st_allowLongSwipes t then js_at snapPoints (int (length snapPoints) - 1)
                               else js_at snapPoints (st_peekedMaxSnapPoint t))
              in case (boundsMin, boundsMax) of
                   (Some lo, Some hi) \<Rightarrow> js_at snapPoints (findPointForProjection (js_clamp pos lo hi) velocity t)
                 | _ \<Rightarrow> None)"

definition getAnimateOutParams :: "real \<Rightarrow> bool \<Rightarrow> swipe_tracker \<Rightarrow> (real \<times> real) option" where
  "getAnimateOutParams velocity isTouchpad t =
     (let distance = swipeDistance isTouchpad t
      in case getEndProgress velocity isTouchpad t of
           None \<Rightarrow> None
         | Some endProgress \<Rightarrow>
             if distance = 0 then None
             else let v = velocity / distance;
                      v' = (if (endProgress - st_progress t) * v \<le> 0 then ANIMATION_BASE_VELOCITY else v);
                      duration = \<bar>(st_progress t - endProgress) / v' * DURATION_MULTIPLIER\<bar>
                  in Some (if duration > 0 then js_clamp duration MIN_ANIMATION_DURATION MAX_ANIMATION_DURATION
                           else duration, endProgress))"

datatype swipe_end =
    SwipeEnd real real                         \<comment> \<open>\<open>end\<close> with a duration and a progress\<close>
  | SwipeWaits                                  \<comment> \<open>the other dimension is still being swiped\<close>
  | SwipeEnd2d real real real                   \<comment> \<open>duration, progress of the other, progress of this\<close>
  | SwipeThrows
  | SwipeUndefined

text \<open>\<open>_endGesture\<close> of \<open>t\<close>, whose other dimension is \<open>o\<close> when \<open>st_2d t\<close>.\<close>

definition endGesture :: "real \<Rightarrow> bool \<Rightarrow> swipe_tracker \<Rightarrow> swipe_tracker \<Rightarrow> swipe_tracker \<times> swipe_tracker \<times> swipe_end" where
  "endGesture velocity isTouchpad t u =
     (if st_2d t \<and> st_recognizing u
      then (t\<lparr>st_endVelocity := Some velocity, st_endIsTouchpad := isTouchpad\<rparr>, u, SwipeWaits)
      else case (if st_2d t then st_endVelocity u else None) of
        Some uv \<Rightarrow>
          let ours = (if \<bar>velocity\<bar> < \<bar>uv\<bar> then 0 else velocity);
              theirs = (if \<bar>velocity\<bar> < \<bar>uv\<bar> then uv else 0)
          in (case (getAnimateOutParams ours isTouchpad t, getAnimateOutParams theirs (st_endIsTouchpad u) u) of
                (Some (d, p), Some (d', p')) \<Rightarrow>
                  if st_pickup t \<or> st_pickup u then (t, u\<lparr>st_endVelocity := Some theirs\<rparr>, SwipeThrows)
                  else (t\<lparr>st_pickup := st_pickupOnPress t\<rparr>,
                        u\<lparr>st_pickup := st_pickupOnPress t, st_endVelocity := None, st_endIsTouchpad := False\<rparr>,
                        SwipeEnd2d (if d > d' then d else d') p' p)
              | _ \<Rightarrow> (t, u, SwipeUndefined))
      | None \<Rightarrow>
          (case getAnimateOutParams velocity isTouchpad t of
             None \<Rightarrow> (t, u, SwipeUndefined)
           | Some (d, p) \<Rightarrow>
               if st_pickup t then (t, u, SwipeThrows)
               else (t\<lparr>st_pickup := st_pickupOnPress t\<rparr>, u, SwipeEnd d p)))"

definition endPanGesture :: "bool \<Rightarrow> bool \<Rightarrow> real \<Rightarrow> real \<Rightarrow> swipe_tracker \<Rightarrow> swipe_tracker \<Rightarrow> swipe_tracker \<times> swipe_tracker \<times> swipe_end" where
  "endPanGesture rtl isTouchpad velocityX velocityY t u =
     endGesture (getGestureDirFactor rtl t * (if st_vertical t then velocityY else velocityX)) isTouchpad t u"

definition cancelPanGesture :: "bool \<Rightarrow> swipe_tracker \<Rightarrow> swipe_tracker \<Rightarrow> swipe_tracker \<times> swipe_tracker \<times> swipe_end" where
  "cancelPanGesture isTouchpad t u = endGesture 0 isTouchpad t u"

text \<open>\<open>animatingTowards\<close>: \<open>None\<close> for \<open>null\<close>; 0 is false too.\<close>

definition confirmSwipe :: "real \<Rightarrow> real list \<Rightarrow> real \<Rightarrow> real \<Rightarrow> real option \<Rightarrow> swipe_tracker \<Rightarrow> swipe_tracker" where
  "confirmSwipe distance snapPoints currentProgress cancelProgress animatingTowards t =
     (let lo = findPreviousPoint currentProgress snapPoints;
          hi = findNextPoint currentProgress snapPoints;
          towards = (\<lambda>i. animatingTowards \<noteq> None \<and> animatingTowards \<noteq> Some 0 \<and> animatingTowards = js_at snapPoints i)
      in t\<lparr>st_distance := distance, st_snapPoints := snapPoints, st_initialProgress := currentProgress,
           st_progress := currentProgress, st_cancelProgress := cancelProgress,
           st_peekedMinSnapPoint := (if lo > 0 \<and> towards lo then lo - 1 else lo),
           st_peekedMaxSnapPoint := (if hi < int (length snapPoints) - 1 \<and> towards hi then hi + 1 else hi)\<rparr>)"

datatype make2d_error = SameOrientation | Already2d

definition make2d :: "swipe_tracker \<Rightarrow> swipe_tracker \<Rightarrow> make2d_error + swipe_tracker \<times> swipe_tracker" where
  "make2d t u =
     (if st_vertical t = st_vertical u then Inl SameOrientation
      else if st_2d t \<or> st_2d u then Inl Already2d
      else Inr (t\<lparr>st_2d := True\<rparr>, u\<lparr>st_2d := True\<rparr>))"

end
