(* ===== verification/SwipeProps.thy ===== *)
theory SwipeProps
  imports SwipeTracker
begin

section \<open>Swipes: where they stay and where they end\<close>

text \<open>
  The searches among the snap points, the invariant that confirming a swipe establishes and every
  update keeps, and from it the bounds on the progress, on the snap point a swipe ends on and on
  the duration of the animation; and a swipe that springs back although it passed the last point.
\<close>

subsection \<open>Searching\<close>

lemma js_findIndex_cases:
  obtains (none) "js_findIndex p xs = -1" "\<forall>x \<in> set xs. \<not> p x"
    | (found) i where "js_findIndex p xs = int i" "i < length xs" "p (xs ! i)" "\<forall>j < i. \<not> p (xs ! j)"
proof (induction xs arbitrary: thesis)
  case (Cons x xs)
  show ?case
  proof (cases "p x")
    case True
    then show ?thesis using Cons.prems(2) [of 0] by simp
  next
    case False
    show ?thesis
    proof (rule Cons.IH)
      assume "js_findIndex p xs = -1" "\<forall>x \<in> set xs. \<not> p x"
      then show ?thesis using Cons.prems(1) False by simp
    next
      fix i assume i: "js_findIndex p xs = int i" "i < length xs" "p (xs ! i)" "\<forall>j < i. \<not> p (xs ! j)"
      then have "\<forall>j < Suc i. \<not> p ((x # xs) ! j)" using False by (simp add: nth_Cons split: nat.split)
      then show ?thesis using Cons.prems(2) [of "Suc i"] i False by simp
    qed
  qed
qed simp

lemma js_findLastIndex_cases:
  obtains (none) "js_findLastIndex p xs = -1" "\<forall>x \<in> set xs. \<not> p x"
    | (found) i where "js_findLastIndex p xs = int i" "i < length xs" "p (xs ! i)"
        "\<forall>j < length xs. i < j \<longrightarrow> \<not> p (xs ! j)"
proof (induction xs arbitrary: thesis)
  case (Cons x xs)
  show ?case
  proof (rule Cons.IH)
    assume n: "js_findLastIndex p xs = -1" "\<forall>x \<in> set xs. \<not> p x"
    show ?thesis
    proof (cases "p x")
      case True
      have "\<forall>j < length (x # xs). 0 < j \<longrightarrow> \<not> p ((x # xs) ! j)" using n(2) by (auto simp: nth_Cons split: nat.split)
      then show ?thesis using Cons.prems(2) [of 0] n True by simp
    qed (use Cons.prems(1) n in simp)
  next
    fix i assume i: "js_findLastIndex p xs = int i" "i < length xs" "p (xs ! i)" "\<forall>j < length xs. i < j \<longrightarrow> \<not> p (xs ! j)"
    then have "\<forall>j < length (x # xs). Suc i < j \<longrightarrow> \<not> p ((x # xs) ! j)" by (auto simp: nth_Cons split: nat.split)
    then show ?thesis using Cons.prems(2) [of "Suc i"] i by simp
  qed
qed simp

lemma fold_min_le: "fold min ds (d :: real) \<in> set (d # ds) \<and> (\<forall>x \<in> set (d # ds). fold min ds d \<le> x)"
proof (induction ds arbitrary: d)
  case (Cons a ds)
  from Cons [of "min a d"] show ?case by (auto simp: min_def split: if_splits)
qed simp

text \<open>The closest snap point, for a list that has one.\<close>

lemma findClosestPoint_closest:
  assumes "sps \<noteq> []"
  obtains i where "findClosestPoint pos sps = int i" "i < length sps" "\<forall>p \<in> set sps. \<bar>sps ! i - pos\<bar> \<le> \<bar>p - pos\<bar>"
proof -
  let ?ds = "map (\<lambda>x. \<bar>x - pos\<bar>) sps"
  obtain d ds where ds: "?ds = d # ds" using assms by (cases ?ds) auto
  define m where "m = fold min ds d"
  have m: "m \<in> set ?ds" "\<forall>x \<in> set ?ds. m \<le> x" unfolding ds m_def using fold_min_le [of ds d] by blast+
  have f: "findClosestPoint pos sps = js_findIndex (\<lambda>x. x = m) ?ds"
    by (simp only: findClosestPoint_def Let_def ds list.case m_def)
  show ?thesis
  proof (rule js_findIndex_cases [of "\<lambda>x. x = m" ?ds])
    fix i assume i: "js_findIndex (\<lambda>x. x = m) ?ds = int i" "i < length ?ds" "?ds ! i = m"
    have "\<bar>sps ! i - pos\<bar> = m" using i by simp
    then show ?thesis using that [of i] f i(1,2) m(2) by simp
  qed (use m(1) in blast)
qed

lemma js_at_int [simp]: "i < length xs \<Longrightarrow> js_at xs (int i) = Some (xs ! i)"
  by (simp add: js_at_def)

lemma js_at_SomeD: "js_at xs i = Some x \<Longrightarrow> x \<in> set xs \<and> 0 \<le> i \<and> i < int (length xs) \<and> x = xs ! nat i"
  by (auto simp: js_at_def split: if_splits)

lemma hd_le_sorted: "sorted xs \<Longrightarrow> x \<in> set xs \<Longrightarrow> hd xs \<le> (x :: real)"
  by (cases xs) auto

lemma le_last_sorted: "sorted xs \<Longrightarrow> x \<in> set xs \<Longrightarrow> (x :: real) \<le> last xs"
  by (induction xs) auto

lemma findPreviousPoint_valid: "sps \<noteq> [] \<Longrightarrow> 0 \<le> findPreviousPoint pos sps \<and> findPreviousPoint pos sps < int (length sps)"
  by (rule js_findLastIndex_cases [of "\<lambda>p. p \<le> pos" sps]) (auto simp: findPreviousPoint_def)

lemma findNextPoint_valid: "-1 \<le> findNextPoint pos sps \<and> findNextPoint pos sps < int (length sps)"
  by (rule js_findIndex_cases [of "\<lambda>p. p \<ge> pos" sps]) (auto simp: findNextPoint_def)

lemma findPreviousPoint_below:
  assumes "sorted sps" and "sps \<noteq> []" and "hd sps \<le> pos"
  obtains i where "findPreviousPoint pos sps = int i" "i < length sps" "sps ! i \<le> pos"
    "\<forall>x \<in> set sps. x \<le> pos \<longrightarrow> x \<le> sps ! i"
proof (rule js_findLastIndex_cases [of "\<lambda>p. p \<le> pos" sps])
  fix i assume i: "js_findLastIndex (\<lambda>p. p \<le> pos) sps = int i" "i < length sps" "sps ! i \<le> pos"
    "\<forall>j < length sps. i < j \<longrightarrow> \<not> sps ! j \<le> pos"
  have "x \<le> sps ! i" if "x \<in> set sps" "x \<le> pos" for x
  proof -
    obtain j where j: "j < length sps" "x = sps ! j" using \<open>x \<in> set sps\<close> by (auto simp: in_set_conv_nth)
    then have "j \<le> i" using i(4) that(2) by (meson not_le_imp_less)
    then show ?thesis using assms(1) i(2) j by (simp add: sorted_nth_mono)
  qed
  then show ?thesis using that i(1-3) by (simp add: findPreviousPoint_def)
qed (use assms in \<open>cases sps; simp\<close>)

lemma findNextPoint_above:
  assumes "sorted sps" and "sps \<noteq> []" and "pos \<le> last sps"
  obtains i where "findNextPoint pos sps = int i" "i < length sps" "pos \<le> sps ! i"
    "\<forall>x \<in> set sps. pos \<le> x \<longrightarrow> sps ! i \<le> x"
proof (rule js_findIndex_cases [of "\<lambda>p. p \<ge> pos" sps])
  fix i assume i: "js_findIndex (\<lambda>p. p \<ge> pos) sps = int i" "i < length sps" "pos \<le> sps ! i" "\<forall>j < i. \<not> pos \<le> sps ! j"
  have "sps ! i \<le> x" if "x \<in> set sps" "pos \<le> x" for x
  proof -
    obtain j where j: "j < length sps" "x = sps ! j" using \<open>x \<in> set sps\<close> by (auto simp: in_set_conv_nth)
    then have "i \<le> j" using i(4) that(2) by (meson not_le_imp_less)
    then show ?thesis using assms(1) j by (simp add: sorted_nth_mono)
  qed
  then show ?thesis using that i(1-3) by (simp add: findNextPoint_def)
qed (use assms last_in_set in blast)

subsection \<open>The projection stays between the bounds\<close>

lemma closest_between:
  assumes "lo \<le> pos" "pos \<le> hi" "lo \<in> set sps" "hi \<in> set sps" "\<forall>p \<in> set sps. \<bar>x - pos\<bar> \<le> \<bar>p - pos\<bar>"
  shows "lo \<le> x \<and> x \<le> (hi :: real)"
  using bspec [OF assms(5,3)] bspec [OF assms(5,4)] assms(1,2) by linarith

lemma findPointForProjection_between:
  assumes s: "sorted (st_snapPoints t)" and lo: "lo \<in> set (st_snapPoints t)" and hi: "hi \<in> set (st_snapPoints t)"
    and pos: "lo \<le> pos" "pos \<le> hi"
  obtains x where "js_at (st_snapPoints t) (findPointForProjection pos velocity t) = Some x"
    "x \<in> set (st_snapPoints t)" "lo \<le> x" "x \<le> hi"
proof -
  let ?sps = "st_snapPoints t"
  have ne: "?sps \<noteq> []" using lo by auto
  have ends: "hd ?sps \<le> pos" "pos \<le> last ?sps"
    using hd_le_sorted [OF s lo] le_last_sorted [OF s hi] pos by linarith+
  obtain i where i: "findPreviousPoint pos ?sps = int i" "i < length ?sps" "?sps ! i \<le> pos"
    "\<forall>x \<in> set ?sps. x \<le> pos \<longrightarrow> x \<le> ?sps ! i"
    by (rule findPreviousPoint_below [OF s ne ends(1)])
  obtain j where j: "findNextPoint pos ?sps = int j" "j < length ?sps" "pos \<le> ?sps ! j"
    "\<forall>x \<in> set ?sps. pos \<le> x \<longrightarrow> ?sps ! j \<le> x"
    by (rule findNextPoint_above [OF s ne ends(2)])
  obtain k where k: "findClosestPoint pos ?sps = int k" "k < length ?sps" "\<forall>p \<in> set ?sps. \<bar>?sps ! k - pos\<bar> \<le> \<bar>p - pos\<bar>"
    by (rule findClosestPoint_closest [OF ne])
  have bi: "lo \<le> ?sps ! i \<and> ?sps ! i \<le> hi" and bj: "lo \<le> ?sps ! j \<and> ?sps ! j \<le> hi"
    using i(3,4) j(3,4) lo hi pos by force+
  have bk: "lo \<le> ?sps ! k \<and> ?sps ! k \<le> hi" by (rule closest_between [OF pos lo hi k(3)])
  have "findPointForProjection pos velocity t \<in> {int i, int j, int k}"
    by (simp add: findPointForProjection_def Let_def i(1) j(1) k(1))
  then consider "findPointForProjection pos velocity t = int i" | "findPointForProjection pos velocity t = int j"
    | "findPointForProjection pos velocity t = int k" by blast
  then show ?thesis
    by cases (use that bi bj bk i(2) j(2) k(2) in simp_all)
qed

subsection \<open>The invariant of a swipe\<close>

definition swipe_ok :: "swipe_tracker \<Rightarrow> bool" where
  "swipe_ok t \<longleftrightarrow> sorted (st_snapPoints t) \<and> st_snapPoints t \<noteq> []
     \<and> 0 \<le> st_peekedMinSnapPoint t \<and> st_peekedMinSnapPoint t < int (length (st_snapPoints t))
     \<and> 0 \<le> st_peekedMaxSnapPoint t \<and> st_peekedMaxSnapPoint t < int (length (st_snapPoints t))
     \<and> st_snapPoints t ! nat (st_peekedMinSnapPoint t) \<le> st_snapPoints t ! nat (st_peekedMaxSnapPoint t)
     \<and> hd (st_snapPoints t) \<le> st_progress t \<and> st_progress t \<le> last (st_snapPoints t)"

lemma snap_mono:
  "sorted sps \<Longrightarrow> 0 \<le> i \<Longrightarrow> i \<le> j \<Longrightarrow> j < int (length sps) \<Longrightarrow> (sps :: real list) ! nat i \<le> sps ! nat j"
  by (rule sorted_nth_mono) auto

lemma confirmSwipe_ok:
  assumes s: "sorted sps" and ne: "sps \<noteq> []" and c: "hd sps \<le> cur" "cur \<le> last sps"
  shows "swipe_ok (confirmSwipe distance sps cur cancel towards t)"
proof -
  obtain i where i: "findPreviousPoint cur sps = int i" "i < length sps" "sps ! i \<le> cur"
    by (rule findPreviousPoint_below [OF s ne c(1)])
  obtain j where j: "findNextPoint cur sps = int j" "j < length sps" "cur \<le> sps ! j"
    by (rule findNextPoint_above [OF s ne c(2)])
  let ?t = "confirmSwipe distance sps cur cancel towards t"
  have lo: "0 \<le> st_peekedMinSnapPoint ?t" "st_peekedMinSnapPoint ?t \<le> int i"
    and hi: "int j \<le> st_peekedMaxSnapPoint ?t" "st_peekedMaxSnapPoint ?t < int (length sps)"
    using i(2) j(2) by (simp_all add: confirmSwipe_def Let_def i(1) j(1))
  have "sps ! nat (st_peekedMinSnapPoint ?t) \<le> sps ! i"
    using snap_mono [OF s lo] i(2) by simp
  moreover have "sps ! j \<le> sps ! nat (st_peekedMaxSnapPoint ?t)"
    using snap_mono [OF s _ hi] by simp
  ultimately have "sps ! nat (st_peekedMinSnapPoint ?t) \<le> sps ! nat (st_peekedMaxSnapPoint ?t)"
    using i(3) j(3) by linarith
  moreover have "st_snapPoints ?t = sps" "st_progress ?t = cur" by (simp_all add: confirmSwipe_def Let_def)
  ultimately show ?thesis using lo hi i(2) s ne c unfolding swipe_ok_def by simp
qed

lemma js_clamp_between: "lo \<le> hi \<Longrightarrow> lo \<le> js_clamp x lo hi \<and> js_clamp x lo hi \<le> hi"
  by (simp add: js_clamp_def)

lemma updatePanGesture_ok:
  assumes ok: "swipe_ok t" and d: "st_distance t \<noteq> 0"
  obtains t' where "updatePanGesture rtl tp dx dy t = Some t'" "swipe_ok t'" "st_distance t' = st_distance t"
    "st_snapPoints t' = st_snapPoints t"
proof -
  let ?sps = "st_snapPoints t"
  have ne: "?sps \<noteq> []" and s: "sorted ?sps" using ok by (simp_all add: swipe_ok_def)
  define q where "q = st_progress t + getGestureDirFactor rtl t * (if st_vertical t then dy else dx) / swipeDistance tp t"
  define t' where "t' = t\<lparr>st_peekedMinSnapPoint := min (st_peekedMinSnapPoint t) (findPreviousPoint q ?sps),
    st_peekedMaxSnapPoint := max (st_peekedMaxSnapPoint t) (findNextPoint q ?sps),
    st_progress := js_clamp q (hd ?sps) (last ?sps)\<rparr>"
  have "swipeDistance tp t \<noteq> 0"
    using d by (simp add: swipeDistance_def TOUCHPAD_BASE_HEIGHT_def TOUCHPAD_BASE_WIDTH_def)
  then have "updatePanGesture rtl tp dx dy t = Some t'"
    using ne by (simp add: updatePanGesture_def Let_def t'_def q_def)
  moreover have "swipe_ok t'"
  proof -
    have lo: "0 \<le> st_peekedMinSnapPoint t'" "st_peekedMinSnapPoint t' \<le> st_peekedMinSnapPoint t"
      and hi: "st_peekedMaxSnapPoint t \<le> st_peekedMaxSnapPoint t'" "st_peekedMaxSnapPoint t' < int (length ?sps)"
      using ok findPreviousPoint_valid [OF ne, of q] findNextPoint_valid [of q ?sps]
      by (simp_all add: t'_def swipe_ok_def)
    have b: "0 \<le> st_peekedMaxSnapPoint t" "st_peekedMinSnapPoint t < int (length ?sps)"
      "?sps ! nat (st_peekedMinSnapPoint t) \<le> ?sps ! nat (st_peekedMaxSnapPoint t)"
      using ok by (simp_all add: swipe_ok_def)
    have "?sps ! nat (st_peekedMinSnapPoint t') \<le> ?sps ! nat (st_peekedMaxSnapPoint t')"
      using snap_mono [OF s lo b(2)] snap_mono [OF s b(1) hi] b(3) by linarith
    moreover have "hd ?sps \<le> last ?sps" using s ne by (simp add: hd_le_sorted)
    from js_clamp_between [OF this] have "hd ?sps \<le> st_progress t'" "st_progress t' \<le> last ?sps"
      by (simp_all add: t'_def)
    moreover have "st_snapPoints t' = ?sps" by (simp add: t'_def)
    ultimately show ?thesis using lo hi b ne s by (simp add: swipe_ok_def)
  qed
  moreover have "st_distance t' = st_distance t" "st_snapPoints t' = ?sps" by (simp_all add: t'_def)
  ultimately show ?thesis by (rule that)
qed

text \<open>Where a swipe ends.\<close>

lemma getEndProgress_ok:
  assumes ok: "swipe_ok t"
  obtains e where "getEndProgress v tp t = Some e" "e \<in> set (st_snapPoints t)"
    "if \<bar>v\<bar> < (if tp then VELOCITY_THRESHOLD_TOUCHPAD else VELOCITY_THRESHOLD_TOUCH)
     then \<forall>p \<in> set (st_snapPoints t). \<bar>e - st_progress t\<bar> \<le> \<bar>p - st_progress t\<bar>
     else st_allowLongSwipes t \<or> st_snapPoints t ! nat (st_peekedMinSnapPoint t) \<le> e
       \<and> e \<le> st_snapPoints t ! nat (st_peekedMaxSnapPoint t)"
proof -
  let ?sps = "st_snapPoints t" and ?thr = "if tp then VELOCITY_THRESHOLD_TOUCHPAD else VELOCITY_THRESHOLD_TOUCH"
  have ne: "?sps \<noteq> []" and s: "sorted ?sps" using ok by (simp_all add: swipe_ok_def)
  show ?thesis
  proof (cases "\<bar>v\<bar> < ?thr")
    case True
    obtain k where k: "findClosestPoint (st_progress t) ?sps = int k" "k < length ?sps"
      "\<forall>p \<in> set ?sps. \<bar>?sps ! k - st_progress t\<bar> \<le> \<bar>p - st_progress t\<bar>"
      by (rule findClosestPoint_closest [OF ne])
    have "getEndProgress v tp t = Some (?sps ! k)"
      using True by (simp add: getEndProgress_def Let_def k(1) k(2))
    then show ?thesis using that [of "?sps ! k"] k(2,3) True by simp
  next
    case False
    define lo where "lo = (if st_allowLongSwipes t then hd ?sps else ?sps ! nat (st_peekedMinSnapPoint t))"
    define hi where "hi = (if st_allowLongSwipes t then last ?sps else ?sps ! nat (st_peekedMaxSnapPoint t))"
    have b: "(if st_allowLongSwipes t then js_at ?sps 0 else js_at ?sps (st_peekedMinSnapPoint t)) = Some lo"
      "(if st_allowLongSwipes t then js_at ?sps (int (length ?sps) - 1) else js_at ?sps (st_peekedMaxSnapPoint t)) = Some hi"
      "lo \<in> set ?sps" "hi \<in> set ?sps"
      using ok ne by (auto simp: lo_def hi_def js_at_def swipe_ok_def hd_conv_nth last_conv_nth nat_diff_distrib')
    have "lo \<le> hi" using ok s ne b(4) by (simp add: lo_def hi_def swipe_ok_def hd_le_sorted)
    define pos where "pos = js_clamp (swipeProjection v tp * sgn v + st_progress t) lo hi"
    have pos: "lo \<le> pos" "pos \<le> hi" using js_clamp_between [OF \<open>lo \<le> hi\<close>] by (simp_all add: pos_def)
    obtain x where x: "js_at ?sps (findPointForProjection pos v t) = Some x" "x \<in> set ?sps" "lo \<le> x" "x \<le> hi"
      by (rule findPointForProjection_between [OF s b(3,4) pos])
    have "getEndProgress v tp t = Some x"
      unfolding getEndProgress_def Let_def b(1,2) using False x(1) by (simp add: pos_def)
    moreover have "st_allowLongSwipes t \<or> st_snapPoints t ! nat (st_peekedMinSnapPoint t) \<le> x
        \<and> x \<le> st_snapPoints t ! nat (st_peekedMaxSnapPoint t)"
      using x(3,4) by (cases "st_allowLongSwipes t") (simp_all add: lo_def hi_def)
    ultimately show ?thesis using that [of x] x(2) False by simp
  qed
qed

lemma getAnimateOutParams_ok:
  assumes ok: "swipe_ok t" and d: "st_distance t \<noteq> 0"
  obtains dur e where "getAnimateOutParams v tp t = Some (dur, e)" "getEndProgress v tp t = Some e"
    "dur = 0 \<or> MIN_ANIMATION_DURATION \<le> dur \<and> dur \<le> MAX_ANIMATION_DURATION" "dur = 0 \<longleftrightarrow> e = st_progress t"
proof -
  obtain e where e: "getEndProgress v tp t = Some e" by (rule getEndProgress_ok [OF ok])
  have nz: "swipeDistance tp t \<noteq> 0"
    using d by (simp add: swipeDistance_def TOUCHPAD_BASE_HEIGHT_def TOUCHPAD_BASE_WIDTH_def)
  define v' where "v' = (if (e - st_progress t) * (v / swipeDistance tp t) \<le> 0 then ANIMATION_BASE_VELOCITY
    else v / swipeDistance tp t)"
  have v': "v' \<noteq> 0" by (auto simp: v'_def ANIMATION_BASE_VELOCITY_def)
  define q where "q = \<bar>(st_progress t - e) / v' * DURATION_MULTIPLIER\<bar>"
  define dur where "dur = (if q > 0 then js_clamp q MIN_ANIMATION_DURATION MAX_ANIMATION_DURATION else q)"
  have "getAnimateOutParams v tp t = Some (dur, e)"
    using nz by (simp add: getAnimateOutParams_def Let_def e dur_def q_def v'_def)
  moreover have q: "q \<ge> 0" "q = 0 \<longleftrightarrow> e = st_progress t"
    using v' by (auto simp: q_def DURATION_MULTIPLIER_def)
  moreover have "dur = 0 \<or> MIN_ANIMATION_DURATION \<le> dur \<and> dur \<le> MAX_ANIMATION_DURATION"
    using q(1) js_clamp_between [of MIN_ANIMATION_DURATION MAX_ANIMATION_DURATION q]
    by (simp add: dur_def MIN_ANIMATION_DURATION_def MAX_ANIMATION_DURATION_def)
  moreover have "dur = 0 \<longleftrightarrow> e = st_progress t"
    using q js_clamp_between [of MIN_ANIMATION_DURATION MAX_ANIMATION_DURATION q]
    by (auto simp: dur_def MIN_ANIMATION_DURATION_def MAX_ANIMATION_DURATION_def)
  ultimately show ?thesis using that e by blast
qed

subsection \<open>Whole swipes\<close>

text \<open>A swipe: confirmed, then moved by the events \<open>(isTouchpad, deltaX, deltaY)\<close>.\<close>

definition swipe_updates :: "bool \<Rightarrow> (bool \<times> real \<times> real) list \<Rightarrow> swipe_tracker \<Rightarrow> swipe_tracker option" where
  "swipe_updates rtl us t = fold (\<lambda>(tp, dx, dy) ot. Option.bind ot (updatePanGesture rtl tp dx dy)) us (Some t)"

lemma swipe_updates_ok:
  assumes "swipe_ok t" and "st_distance t \<noteq> 0"
  obtains t' where "swipe_updates rtl us t = Some t'" "swipe_ok t'" "st_distance t' \<noteq> 0" "st_snapPoints t' = st_snapPoints t"
  using assms
proof (induction us arbitrary: t thesis)
  case Nil
  then show ?case by (simp add: swipe_updates_def)
next
  case (Cons u us)
  obtain tp dx dy where u: "u = (tp, dx, dy)" by (cases u) auto
  obtain t1 where t1: "updatePanGesture rtl tp dx dy t = Some t1" "swipe_ok t1" "st_distance t1 = st_distance t"
    "st_snapPoints t1 = st_snapPoints t"
    by (rule updatePanGesture_ok [OF Cons.prems(2,3)])
  have d1: "st_distance t1 \<noteq> 0" using t1(3) Cons.prems(3) by simp
  obtain t' where "swipe_updates rtl us t1 = Some t'" "swipe_ok t'" "st_distance t' \<noteq> 0" "st_snapPoints t' = st_snapPoints t1"
    by (rule Cons.IH [OF _ t1(2) d1])
  then show ?case using Cons.prems(1) [of t'] t1(1,4) by (simp add: swipe_updates_def u)
qed

text \<open>C14: However a confirmed swipe is moved, its progress stays between the first and the last snap point,
  and it ends on a snap point: the nearest one when it is slower than the threshold, and otherwise
  one between the snap points it has come past, unless long swipes are allowed. The animation lasts
  from 100 to 400 milliseconds, or no time exactly when the swipe is there already.\<close>

theorem swipe_bounds:
  assumes "sorted sps" and "sps \<noteq> []" and "hd sps \<le> cur" and "cur \<le> last sps" and "distance \<noteq> 0"
  shows "case swipe_updates rtl us (confirmSwipe distance sps cur cancel towards t) of
     None \<Rightarrow> False
   | Some t' \<Rightarrow> hd sps \<le> st_progress t' \<and> st_progress t' \<le> last sps
       \<and> (case getAnimateOutParams v tp t' of
            None \<Rightarrow> False
          | Some (duration, e) \<Rightarrow> e \<in> set sps
              \<and> (duration = 0 \<or> 100 \<le> duration \<and> duration \<le> 400) \<and> (duration = 0 \<longleftrightarrow> e = st_progress t')
              \<and> (if \<bar>v\<bar> < (if tp then 6 / 10 else 3 / 10)
                 then \<forall>p \<in> set sps. \<bar>e - st_progress t'\<bar> \<le> \<bar>p - st_progress t'\<bar>
                 else st_allowLongSwipes t' \<or> sps ! nat (st_peekedMinSnapPoint t') \<le> e
                   \<and> e \<le> sps ! nat (st_peekedMaxSnapPoint t')))"
proof -
  let ?t = "confirmSwipe distance sps cur cancel towards t"
  have "swipe_ok ?t" by (rule confirmSwipe_ok [OF assms(1-4)])
  moreover have "st_distance ?t \<noteq> 0" "st_snapPoints ?t = sps" using assms(5) by (simp_all add: confirmSwipe_def Let_def)
  ultimately obtain t' where t': "swipe_updates rtl us ?t = Some t'" "swipe_ok t'" "st_distance t' \<noteq> 0" "st_snapPoints t' = sps"
    by (metis swipe_updates_ok)
  obtain d e where d: "getAnimateOutParams v tp t' = Some (d, e)" "getEndProgress v tp t' = Some e"
    "d = 0 \<or> MIN_ANIMATION_DURATION \<le> d \<and> d \<le> MAX_ANIMATION_DURATION" "d = 0 \<longleftrightarrow> e = st_progress t'"
    by (rule getAnimateOutParams_ok [OF t'(2,3)])
  obtain e' where e': "getEndProgress v tp t' = Some e'" "e' \<in> set sps"
    "if \<bar>v\<bar> < (if tp then 6 / 10 else 3 / 10)
     then \<forall>p \<in> set sps. \<bar>e' - st_progress t'\<bar> \<le> \<bar>p - st_progress t'\<bar>
     else st_allowLongSwipes t' \<or> sps ! nat (st_peekedMinSnapPoint t') \<le> e'
       \<and> e' \<le> sps ! nat (st_peekedMaxSnapPoint t')"
    by (rule getEndProgress_ok [OF t'(2), of v tp, unfolded t'(4) VELOCITY_THRESHOLD_TOUCH_def VELOCITY_THRESHOLD_TOUCHPAD_def])
  have "e' = e" using d(2) e'(1) by simp
  note ends = e'(2,3) [unfolded this]
  have "d = 0 \<or> 100 \<le> d \<and> d \<le> 400"
    using d(3) by (simp add: MIN_ANIMATION_DURATION_def MAX_ANIMATION_DURATION_def)
  moreover have "hd sps \<le> st_progress t' \<and> st_progress t' \<le> last sps" using t'(2,4) by (simp add: swipe_ok_def)
  ultimately show ?thesis
    using d(4) ends unfolding t'(1) d(1) option.case prod.case by blast
qed

definition demo_tracker :: swipe_tracker where
  "demo_tracker = \<lparr>st_vertical = False, st_distance = -1, st_snapPoints = [], st_initialProgress = 0,
     st_cancelProgress = 0, st_progress = 0, st_peekedMinSnapPoint = -1, st_peekedMaxSnapPoint = -1,
     st_allowLongSwipes = False, st_pickupOnPress = True, st_pickup = False, st_recognizing = False,
     st_2d = False, st_endVelocity = None, st_endIsTouchpad = False\<rparr>"

text \<open>A swipe that passes the last snap point within one event springs back: the point beyond it is
  looked up before the progress is clamped and not found, so the swipe is still bounded by the
  point it started from. Two pages, 100 pixels apart, and a fast movement of 120 pixels: the
  progress is 1, and the swipe ends at 0; with an event on the way it ends at 1.\<close>

theorem swipe_past_the_end_springs_back:
  "map_option (\<lambda>t. (st_progress t, getEndProgress 1 False t))
     (swipe_updates False [(False, -120, 0)] (confirmSwipe 100 [0, 1] 0 0 None demo_tracker)) = Some (1, Some 0)
   \<and> map_option (\<lambda>t. (st_progress t, getEndProgress 1 False t))
     (swipe_updates False [(False, -60, 0), (False, -60, 0)] (confirmSwipe 100 [0, 1] 0 0 None demo_tracker))
     = Some (1, Some 1)"
  by (simp add: swipe_updates_def confirmSwipe_def updatePanGesture_def getEndProgress_def demo_tracker_def
      swipe_constants findPointForProjection_def findClosestPoint_def findNextPoint_def findPreviousPoint_def
      swipeProjection_def swipeDistance_def getGestureDirFactor_def js_clamp_def js_at_def)

lemma swipe_bounds_witness:
  "case swipe_updates False [(False, -60, 0)] (confirmSwipe 100 [0, 1, 2] 0 0 None demo_tracker) of
     None \<Rightarrow> False | Some t' \<Rightarrow> st_progress t' \<le> 2"
  using swipe_bounds [where sps = "[0, 1, 2]" and cur = 0 and distance = 100 and rtl = False and us = "[(False, -60, 0)]"
      and cancel = 0 and towards = None and t = demo_tracker and v = 0 and tp = False]
  by (simp split: option.splits)

end
