(* ===== verification/Brightness.thy ===== *)
theory Brightness
  imports Prelude
begin

section \<open>Screen brightness (\<open>js/misc/brightnessManager.js\<close>)\<close>

text \<open>
  \<open>BrightnessManager\<close> with its global scale and a scale for each logical monitor. Values are real. A
  backlight has integer levels; assigning a number to one truncates it. The handlers of
  \<open>notify::value\<close> return at once while \<open>_sync\<close> runs, so that within it a value is just set. What
  mutter lists as monitors is an argument of \<open>monitorsChanged\<close>: of each logical monitor, the
  backlights of its active monitors. Levels are taken to be more than one (\<open>max > min\<close>), as they are
  where a relative brightness makes sense.
\<close>

definition SCALE_VALUE_N_STEPS :: int where "SCALE_VALUE_N_STEPS = 20"
definition SCALE_VALUE_CHANGE_EPSILON :: real where "SCALE_VALUE_CHANGE_EPSILON = 1 / 1000"

record backlight =
  bl_brightness :: int
  bl_min :: int
  bl_max :: int

record scale =
  sc_value :: real
  sc_nSteps :: int
  sc_backlights :: "backlight list"
  sc_factor :: real
  sc_current :: int            \<comment> \<open>\<open>_currentBacklightBrightness\<close>\<close>
  sc_changed :: bool

datatype bm_signal = UserUpdate | BmChanged | ShowOSD "(nat \<times> real) list"

record brightness =
  bm_global :: "(real \<times> int) option"      \<comment> \<open>value and steps of the global scale\<close>
  bm_scales :: "(nat \<times> scale) list"
  bm_dimmingTarget :: real
  bm_dimming :: bool
  bm_abTarget :: real
  bm_globalChanged :: bool
  bm_signals :: "bm_signal list"

definition clamp01 :: "real \<Rightarrow> real" where
  "clamp01 x = min (max x 0) 1"

definition js_trunc :: "real \<Rightarrow> int" where
  "js_trunc x = (if x \<ge> 0 then \<lfloor>x\<rfloor> else \<lceil>x\<rceil>)"

text \<open>The position of a level between the lowest and the highest, and back.\<close>

definition getRelativeBrightness :: "backlight \<Rightarrow> real" where
  "getRelativeBrightness b = real_of_int (bl_brightness b - bl_min b) / real_of_int (bl_max b - bl_min b)"

definition setRelativeBrightness :: "real \<Rightarrow> backlight \<Rightarrow> backlight" where
  "setRelativeBrightness x b =
     b\<lparr>bl_brightness := js_trunc (real_of_int (bl_min b) + real_of_int (bl_max b - bl_min b) * x)\<rparr>"

definition setValue :: "real \<Rightarrow> scale \<Rightarrow> scale" where
  "setValue x sc = sc\<lparr>sc_value := clamp01 x\<rparr>"

text \<open>The second component is what the source returns.\<close>

definition syncWithBacklight :: "scale \<Rightarrow> scale \<times> bool" where
  "syncWithBacklight sc =
     (let b = hd (sc_backlights sc)
      in if bl_brightness b = sc_current sc then (sc, False)
         else (setValue (getRelativeBrightness b) (sc\<lparr>sc_current := bl_brightness b\<rparr>), True))"

definition syncWithScale :: "real \<Rightarrow> scale \<Rightarrow> scale" where
  "syncWithScale global sc = setValue (global * sc_factor sc) sc"

definition setBacklight :: "real \<Rightarrow> scale \<Rightarrow> scale" where
  "setBacklight x sc =
     (let bs = map (setRelativeBrightness x) (sc_backlights sc)
      in sc\<lparr>sc_backlights := bs, sc_current := bl_brightness (hd bs)\<rparr>)"

definition updateScaleFactor :: "real \<Rightarrow> scale \<Rightarrow> scale" where
  "updateScaleFactor mx sc = sc\<lparr>sc_factor := sc_value sc / mx\<rparr>"

definition newMonitorScale :: "backlight list \<Rightarrow> scale" where
  "newMonitorScale bs =
     \<lparr>sc_value = 1, sc_nSteps = min (foldr max (map (\<lambda>b. bl_max b - bl_min b) bs) 0) SCALE_VALUE_N_STEPS,
      sc_backlights = bs, sc_factor = 1, sc_current = -1, sc_changed = True\<rparr>"

subsection \<open>Synchronizing\<close>

definition map_scales :: "(scale \<Rightarrow> scale) \<Rightarrow> brightness \<Rightarrow> brightness" where
  "map_scales f s = s\<lparr>bm_scales := map (\<lambda>(m, sc). (m, f sc)) (bm_scales s)\<rparr>"

definition brightnessOSD :: "(nat \<times> scale) list \<Rightarrow> bm_signal" where
  "brightnessOSD scs = ShowOSD (map (\<lambda>(m, sc). (m, sc_value sc)) scs)"

definition max_value :: "(nat \<times> scale) list \<Rightarrow> real" where
  "max_value scs = (case scs of [] \<Rightarrow> 0 | x # xs \<Rightarrow> fold (\<lambda>y m. max m (sc_value (snd y))) xs (sc_value (snd x)))"

definition bm_emit :: "bm_signal \<Rightarrow> brightness \<Rightarrow> brightness" where
  "bm_emit g s = s\<lparr>bm_signals := bm_signals s @ [g]\<rparr>"

text \<open>Changed backlights; a change by the system ends dimming.\<close>

definition syncBacklights :: "brightness \<Rightarrow> brightness" where
  "syncBacklights s =
     (map_scales (fst \<circ> syncWithBacklight) s)
       \<lparr>bm_dimming := bm_dimming s \<and> \<not> list_ex (\<lambda>(m, sc). snd (syncWithBacklight sc)) (bm_scales s)\<rparr>"

definition syncScales :: "bool \<Rightarrow> brightness \<Rightarrow> brightness" where
  "syncScales showOSD s =
     (let changed = [x \<leftarrow> bm_scales s. sc_changed (snd x)];
          s1 = map_scales (\<lambda>sc. sc\<lparr>sc_changed := False\<rparr>) s
      in if changed \<noteq> []
         then let mx = max_value (bm_scales s1);
                  s2 = (if mx > 1 / 100 then map_scales (updateScaleFactor mx) s1 else s1);
                  s3 = s2\<lparr>bm_global := map_option (\<lambda>(v, n). (clamp01 mx, n)) (bm_global s2)\<rparr>
              in if showOSD then bm_emit (brightnessOSD changed) s3 else s3
         else if bm_globalChanged s1
         then let g = (case bm_global s1 of Some (v, n) \<Rightarrow> v | None \<Rightarrow> 0);
                  s2 = map_scales (syncWithScale g) (s1\<lparr>bm_globalChanged := False\<rparr>)
              in if showOSD then bm_emit (brightnessOSD (bm_scales s2)) s2 else s2
         else s1)"

definition targetBrightness :: "brightness \<Rightarrow> scale \<Rightarrow> real" where
  "targetBrightness s sc =
     min (if bm_dimming s then bm_dimmingTarget s else 1)
         (if bm_abTarget s \<ge> 0 then clamp01 (bm_abTarget s + sc_value sc - 1 / 2) else sc_value sc)"

definition setBacklights :: "brightness \<Rightarrow> brightness" where
  "setBacklights s = map_scales (\<lambda>sc. setBacklight (targetBrightness s sc) sc) s"

definition bm_sync :: "bool \<Rightarrow> brightness \<Rightarrow> brightness" where
  "bm_sync showOSD s =
     (if bm_global s = None then s else setBacklights (syncScales showOSD (syncBacklights s)))"

subsection \<open>Operations\<close>

text \<open>Setting the value of a monitor's scale or of the global one, with the handler of \<open>notify::value\<close>.\<close>

definition setMonitorValue :: "nat \<Rightarrow> (scale \<Rightarrow> real) \<Rightarrow> brightness \<Rightarrow> brightness" where
  "setMonitorValue m f s =
     (if jm_has (bm_scales s) m
      then bm_emit UserUpdate (bm_sync True
             (s\<lparr>bm_scales := map (\<lambda>(m', sc). (m', if m' = m then (setValue (f sc) sc)\<lparr>sc_changed := True\<rparr> else sc)) (bm_scales s)\<rparr>))
      else s)"

definition setGlobalValue :: "(real \<Rightarrow> int \<Rightarrow> real) \<Rightarrow> brightness \<Rightarrow> brightness" where
  "setGlobalValue f s =
     (case bm_global s of
        None \<Rightarrow> s
      | Some (v, n) \<Rightarrow> bm_emit UserUpdate (bm_sync True (s\<lparr>bm_global := Some (clamp01 (f v n), n), bm_globalChanged := True\<rparr>)))"

definition stepUp :: "real \<Rightarrow> int \<Rightarrow> real" where
  "stepUp v n = min 1 (v + 1 / real_of_int n)"

definition stepDown :: "real \<Rightarrow> int \<Rightarrow> real" where
  "stepDown v n = max 0 (v - 1 / real_of_int n)"

definition cycleUp :: "real \<Rightarrow> int \<Rightarrow> real" where
  "cycleUp v n = (if \<bar>1 - v\<bar> < SCALE_VALUE_CHANGE_EPSILON then 0 else stepUp v n)"

definition setDimming :: "bool \<Rightarrow> brightness \<Rightarrow> brightness" where
  "setDimming b s = bm_sync True (s\<lparr>bm_dimming := b\<rparr>)"

definition setAutoBrightnessTarget :: "real \<Rightarrow> brightness \<Rightarrow> brightness" where
  "setAutoBrightnessTarget x s = bm_sync True (s\<lparr>bm_abTarget := x\<rparr>)"

definition monitorsChanged :: "(nat \<times> backlight list) list \<Rightarrow> brightness \<Rightarrow> brightness" where
  "monitorsChanged lms s =
     (let monitors = [lm \<leftarrow> lms. snd lm \<noteq> []];
          s1 = s\<lparr>bm_scales := map (\<lambda>(m, bs). (m, newMonitorScale bs)) monitors\<rparr>;
          s2 = (if monitors = [] then s1\<lparr>bm_global := None\<rparr>
                else if bm_global s1 = None
                then s1\<lparr>bm_global := Some (1, min (foldr max (map (\<lambda>(m, sc). sc_nSteps sc) (bm_scales s1)) 0) SCALE_VALUE_N_STEPS)\<rparr>
                else s1)
      in bm_emit BmChanged (bm_sync False s2))"

definition newBrightnessManager :: "int \<Rightarrow> (nat \<times> backlight list) list \<Rightarrow> brightness" where
  "newBrightnessManager idleBrightness lms = monitorsChanged lms
     \<lparr>bm_global = None, bm_scales = [], bm_dimmingTarget = real_of_int idleBrightness / 100, bm_dimming = False,
      bm_abTarget = -1, bm_globalChanged = False, bm_signals = []\<rparr>"

text \<open>The backlight of a monitor is changed by the system: \<open>notify::brightness\<close>.\<close>

definition backlightChanged :: "nat \<Rightarrow> nat \<Rightarrow> int \<Rightarrow> brightness \<Rightarrow> brightness" where
  "backlightChanged m i level s =
     (if jm_has (bm_scales s) m
      then bm_sync True (s\<lparr>bm_scales := map (\<lambda>(m', sc). (m', if m' = m \<and> i < length (sc_backlights sc)
             then sc\<lparr>sc_backlights := (sc_backlights sc)[i := (sc_backlights sc ! i)\<lparr>bl_brightness := level\<rparr>]\<rparr> else sc)) (bm_scales s)\<rparr>)
      else s)"

datatype bm_event =
    MonitorUp nat | MonitorDown nat | MonitorCycle nat | MonitorSet nat real
  | GlobalUp | GlobalDown | GlobalCycle | GlobalSet real
  | DimmingEv bool | AutoTarget real | MonitorsEv "(nat \<times> backlight list) list" | BacklightEv nat nat int

fun bm_step :: "bm_event \<Rightarrow> brightness \<Rightarrow> brightness" where
  "bm_step (MonitorUp m) s = setMonitorValue m (\<lambda>sc. stepUp (sc_value sc) (sc_nSteps sc)) s"
| "bm_step (MonitorDown m) s = setMonitorValue m (\<lambda>sc. stepDown (sc_value sc) (sc_nSteps sc)) s"
| "bm_step (MonitorCycle m) s = setMonitorValue m (\<lambda>sc. cycleUp (sc_value sc) (sc_nSteps sc)) s"
| "bm_step (MonitorSet m x) s = setMonitorValue m (\<lambda>sc. x) s"
| "bm_step GlobalUp s = setGlobalValue stepUp s"
| "bm_step GlobalDown s = setGlobalValue stepDown s"
| "bm_step GlobalCycle s = setGlobalValue cycleUp s"
| "bm_step (GlobalSet x) s = setGlobalValue (\<lambda>v n. x) s"
| "bm_step (DimmingEv b) s = setDimming b s"
| "bm_step (AutoTarget x) s = setAutoBrightnessTarget x s"
| "bm_step (MonitorsEv lms) s = monitorsChanged lms s"
| "bm_step (BacklightEv m i level) s = backlightChanged m i level s"

end
