(* ===== verification/BrightnessProps.thy ===== *)
theory BrightnessProps
  imports Brightness
begin

section \<open>Screen brightness: bounds, ratios, and a drift\<close>

text \<open>
  What \<open>_sync\<close> establishes from any state of well-formed scales: values between 0 and 1, levels
  between the lowest and the highest and, while dimming, at most the dimming target. The global
  scale keeps the ratios of the monitors. A change of monitors reads the values back from the
  backlights, which with automatic brightness makes them drift.
\<close>

subsection \<open>Well-formed scales\<close>

definition level_ok :: "backlight \<Rightarrow> bool" where
  "level_ok b \<longleftrightarrow> 0 \<le> bl_min b \<and> bl_min b < bl_max b"

definition scale_ok :: "scale \<Rightarrow> bool" where
  "scale_ok sc \<longleftrightarrow> 0 \<le> sc_value sc \<and> sc_value sc \<le> 1 \<and> 0 \<le> sc_factor sc \<and> sc_factor sc \<le> 1
     \<and> sc_backlights sc \<noteq> [] \<and> list_all level_ok (sc_backlights sc)"

definition bm_ok :: "brightness \<Rightarrow> bool" where
  "bm_ok s \<longleftrightarrow> list_all (scale_ok \<circ> snd) (bm_scales s) \<and> (bm_global s = None \<longleftrightarrow> bm_scales s = [])
     \<and> (case bm_global s of None \<Rightarrow> True | Some (v, n) \<Rightarrow> 0 \<le> v \<and> v \<le> 1)
     \<and> 0 \<le> bm_dimmingTarget s \<and> bm_dimmingTarget s \<le> 1"

text \<open>What holds once the backlights are set.\<close>

definition level_within :: "real \<Rightarrow> backlight \<Rightarrow> bool" where
  "level_within limit b \<longleftrightarrow> bl_min b \<le> bl_brightness b \<and> bl_brightness b \<le> bl_max b
     \<and> real_of_int (bl_brightness b) \<le> real_of_int (bl_min b) + real_of_int (bl_max b - bl_min b) * limit"

definition bm_limit :: "brightness \<Rightarrow> real" where
  "bm_limit s = (if bm_dimming s then bm_dimmingTarget s else 1)"

definition scale_set :: "real \<Rightarrow> scale \<Rightarrow> bool" where
  "scale_set limit sc \<longleftrightarrow> list_all (level_within limit) (sc_backlights sc)
     \<and> bl_brightness (hd (sc_backlights sc)) = sc_current sc \<and> \<not> sc_changed sc"

definition bm_synced :: "brightness \<Rightarrow> bool" where
  "bm_synced s \<longleftrightarrow> bm_ok s \<and> list_all (scale_set (bm_limit s) \<circ> snd) (bm_scales s)"

lemma clamp01_bounds [simp]: "0 \<le> clamp01 x" "clamp01 x \<le> 1" "0 \<le> x \<Longrightarrow> x \<le> 1 \<Longrightarrow> clamp01 x = x"
  by (simp_all add: clamp01_def)

lemma scale_ok_setValue [simp]: "scale_ok sc \<Longrightarrow> scale_ok (setValue x sc)"
  by (simp add: scale_ok_def setValue_def)

lemma scale_ok_changed [simp]: "scale_ok (sc\<lparr>sc_changed := b\<rparr>) = scale_ok sc"
  by (simp add: scale_ok_def)

lemma scale_ok_syncWithBacklight [simp]: "scale_ok sc \<Longrightarrow> scale_ok (fst (syncWithBacklight sc))"
  by (simp add: syncWithBacklight_def Let_def) (simp add: scale_ok_def setValue_def)

lemma setRelativeBrightness_within:
  assumes b: "level_ok b" and x: "0 \<le> x" "x \<le> limit" "limit \<le> 1"
  shows "level_within limit (setRelativeBrightness x b)" "level_ok (setRelativeBrightness x b)"
proof -
  let ?r = "real_of_int (bl_min b) + real_of_int (bl_max b - bl_min b) * x"
  have d: "real_of_int (bl_max b - bl_min b) > 0" and mn: "real_of_int (bl_min b) \<ge> 0" using b by (simp_all add: level_ok_def)
  have "0 \<le> real_of_int (bl_max b - bl_min b) * x" using d x(1) by simp
  moreover have up: "real_of_int (bl_max b - bl_min b) * x \<le> real_of_int (bl_max b - bl_min b) * limit"
    using d x(2) by (simp add: mult_left_mono)
  moreover have "real_of_int (bl_max b - bl_min b) * limit \<le> real_of_int (bl_max b - bl_min b) * 1"
    using d x(3) by (intro mult_left_mono) simp_all
  ultimately have lo: "real_of_int (bl_min b) \<le> ?r" and hi: "?r \<le> real_of_int (bl_max b)"
    and li: "?r \<le> real_of_int (bl_min b) + real_of_int (bl_max b - bl_min b) * limit" by simp_all
  have tr: "js_trunc ?r = \<lfloor>?r\<rfloor>" using lo mn by (simp add: js_trunc_def)
  have "bl_min b \<le> \<lfloor>?r\<rfloor>" using lo by (simp add: le_floor_iff)
  moreover have "\<lfloor>?r\<rfloor> \<le> bl_max b" using hi floor_mono [OF hi] by simp
  moreover have "real_of_int \<lfloor>?r\<rfloor> \<le> real_of_int (bl_min b) + real_of_int (bl_max b - bl_min b) * limit"
    using li of_int_floor_le [of ?r] by linarith
  ultimately show "level_within limit (setRelativeBrightness x b)"
    using tr by (simp add: level_within_def setRelativeBrightness_def)
  show "level_ok (setRelativeBrightness x b)" using b by (simp add: level_ok_def setRelativeBrightness_def)
qed

lemma setBacklight_set:
  assumes sc: "scale_ok sc" and "\<not> sc_changed sc" and x: "0 \<le> x" "x \<le> limit" "limit \<le> 1"
  shows "scale_ok (setBacklight x sc)" "scale_set limit (setBacklight x sc)"
proof -
  have "list_all (level_within limit) (map (setRelativeBrightness x) (sc_backlights sc))"
    "list_all level_ok (map (setRelativeBrightness x) (sc_backlights sc))"
    using sc setRelativeBrightness_within [OF _ x] by (auto simp: scale_ok_def list_all_iff)
  then show "scale_ok (setBacklight x sc)" "scale_set limit (setBacklight x sc)"
    using sc assms(2) by (simp_all add: setBacklight_def Let_def scale_ok_def scale_set_def)
qed

subsection \<open>Synchronizing\<close>

lemma map_scales_simps [simp]:
  "bm_scales (map_scales f s) = map (\<lambda>(m, sc). (m, f sc)) (bm_scales s)" "bm_global (map_scales f s) = bm_global s"
  "bm_dimmingTarget (map_scales f s) = bm_dimmingTarget s" "bm_dimming (map_scales f s) = bm_dimming s"
  "bm_abTarget (map_scales f s) = bm_abTarget s" "bm_globalChanged (map_scales f s) = bm_globalChanged s"
  by (simp_all add: map_scales_def)

lemma bm_emit_simps [simp]:
  "bm_scales (bm_emit g s) = bm_scales s" "bm_global (bm_emit g s) = bm_global s"
  "bm_dimmingTarget (bm_emit g s) = bm_dimmingTarget s" "bm_dimming (bm_emit g s) = bm_dimming s"
  "bm_abTarget (bm_emit g s) = bm_abTarget s" "bm_globalChanged (bm_emit g s) = bm_globalChanged s"
  by (simp_all add: bm_emit_def)

lemma bm_ok_emit [simp]: "bm_ok (bm_emit g s) = bm_ok s" "bm_synced (bm_emit g s) = bm_synced s"
  by (simp_all add: bm_ok_def bm_synced_def bm_limit_def)

lemma bm_ok_map_scales:
  "bm_ok s \<Longrightarrow> (\<And>sc. sc \<in> snd ` set (bm_scales s) \<Longrightarrow> scale_ok sc \<Longrightarrow> scale_ok (f sc)) \<Longrightarrow> bm_ok (map_scales f s)"
  by (auto simp: bm_ok_def list_all_iff split_def)

lemma bm_ok_syncBacklights: "bm_ok s \<Longrightarrow> bm_ok (syncBacklights s)"
  using bm_ok_map_scales [of s "fst \<circ> syncWithBacklight"] by (simp add: syncBacklights_def bm_ok_def)

lemma max_value_bounds:
  assumes "scs \<noteq> []"
  shows "\<forall>x \<in> set scs. sc_value (snd x) \<le> max_value scs" "\<exists>x \<in> set scs. max_value scs = sc_value (snd x)"
proof -
  have "(\<forall>x \<in> set xs. sc_value (snd x) \<le> fold (\<lambda>y m. max m (sc_value (snd y))) xs v)
      \<and> v \<le> fold (\<lambda>y m. max m (sc_value (snd y))) xs v
      \<and> (fold (\<lambda>y m. max m (sc_value (snd y))) xs v = v
         \<or> (\<exists>x \<in> set xs. fold (\<lambda>y m. max m (sc_value (snd y))) xs v = sc_value (snd x)))" for v and xs :: "(nat \<times> scale) list"
  proof (induction xs arbitrary: v)
    case (Cons x xs)
    from Cons [of "max v (sc_value (snd x))"] show ?case by (auto simp: max_def split: if_splits)
  qed simp
  from this [of "tl scs" "sc_value (snd (hd scs))"]
  show "\<forall>x \<in> set scs. sc_value (snd x) \<le> max_value scs" "\<exists>x \<in> set scs. max_value scs = sc_value (snd x)"
    using assms by (cases scs; force simp: max_value_def)+
qed

lemma bm_ok_syncScales:
  assumes ok: "bm_ok s"
  shows "bm_ok (syncScales showOSD s)" "list_all (\<lambda>x. \<not> sc_changed (snd x)) (bm_scales (syncScales showOSD s))"
proof -
  define s1 where "s1 = map_scales (\<lambda>sc. sc\<lparr>sc_changed := False\<rparr>) s"
  have o1: "bm_ok s1" unfolding s1_def by (rule bm_ok_map_scales [OF ok]) (simp add: scale_ok_def)
  have c1: "list_all (\<lambda>x. \<not> sc_changed (snd x)) (bm_scales s1)" by (simp add: s1_def list_all_iff split_def)
  define mx where "mx = max_value (bm_scales s1)"
  define s2 where "s2 = (if mx > 1 / 100 then map_scales (updateScaleFactor mx) s1 else s1)"
  define s3 where "s3 = s2\<lparr>bm_global := map_option (\<lambda>(v, n). (clamp01 mx, n)) (bm_global s2)\<rparr>"
  have "bm_ok s2"
  proof (cases "mx > 1 / 100")
    case True
    have "scale_ok (updateScaleFactor mx sc)" if sc: "sc \<in> snd ` set (bm_scales s1)" "scale_ok sc" for sc
    proof -
      obtain x where x: "x \<in> set (bm_scales s1)" "sc = snd x" using sc(1) by blast
      then have "bm_scales s1 \<noteq> []" by auto
      from bspec [OF max_value_bounds(1) [OF this] x(1)] have "sc_value sc \<le> mx" by (simp add: mx_def x(2))
      then show ?thesis using sc(2) True by (simp add: updateScaleFactor_def scale_ok_def)
    qed
    then show ?thesis using True bm_ok_map_scales [OF o1] by (simp add: s2_def)
  qed (use o1 in \<open>simp add: s2_def\<close>)
  then have o3: "bm_ok s3" by (auto simp: s3_def bm_ok_def split: option.splits)
  have c3: "list_all (\<lambda>x. \<not> sc_changed (snd x)) (bm_scales s3)"
    using c1 by (simp add: s3_def s2_def list_all_iff split_def updateScaleFactor_def)
  define g where "g = (case bm_global s1 of Some (v, n) \<Rightarrow> v | None \<Rightarrow> 0)"
  define s4 where "s4 = map_scales (syncWithScale g) (s1\<lparr>bm_globalChanged := False\<rparr>)"
  have o4: "bm_ok s4" unfolding s4_def
    by (rule bm_ok_map_scales) (use o1 in \<open>simp_all add: bm_ok_def syncWithScale_def\<close>)
  have c4: "list_all (\<lambda>x. \<not> sc_changed (snd x)) (bm_scales s4)"
    using c1 by (simp add: s4_def list_all_iff split_def syncWithScale_def setValue_def)
  have eq: "syncScales showOSD s =
      (if [x \<leftarrow> bm_scales s. sc_changed (snd x)] \<noteq> []
       then if showOSD then bm_emit (brightnessOSD [x \<leftarrow> bm_scales s. sc_changed (snd x)]) s3 else s3
       else if bm_globalChanged s1 then if showOSD then bm_emit (brightnessOSD (bm_scales s4)) s4 else s4 else s1)"
    unfolding syncScales_def Let_def s1_def [symmetric] mx_def [symmetric] s2_def [symmetric] s3_def [symmetric]
      g_def [symmetric] s4_def [symmetric] ..
  show "bm_ok (syncScales showOSD s)" "list_all (\<lambda>x. \<not> sc_changed (snd x)) (bm_scales (syncScales showOSD s))"
    unfolding eq using o1 o3 o4 c1 c3 c4 by simp_all
qed

lemma targetBrightness_bounds:
  assumes "bm_ok s" and "scale_ok sc"
  shows "0 \<le> targetBrightness s sc" "targetBrightness s sc \<le> bm_limit s" "bm_limit s \<le> 1"
  using assms by (simp_all add: targetBrightness_def bm_limit_def bm_ok_def scale_ok_def)

lemma bm_sync_synced:
  assumes ok: "bm_ok s" shows "bm_synced (bm_sync showOSD s)"
proof (cases "bm_global s = None")
  case True
  then show ?thesis using ok by (simp add: bm_sync_def bm_synced_def bm_ok_def)
next
  case False
  define t where "t = syncScales showOSD (syncBacklights s)"
  have t: "bm_ok t" "list_all (\<lambda>x. \<not> sc_changed (snd x)) (bm_scales t)"
    unfolding t_def by (rule bm_ok_syncScales [OF bm_ok_syncBacklights [OF ok]])+
  have each: "scale_ok (setBacklight (targetBrightness t sc) sc)" "scale_set (bm_limit t) (setBacklight (targetBrightness t sc) sc)"
    if "(m, sc) \<in> set (bm_scales t)" for m sc
  proof -
    have s: "scale_ok sc" "\<not> sc_changed sc" using t that by (auto simp: bm_ok_def list_all_iff)
    show "scale_ok (setBacklight (targetBrightness t sc) sc)" "scale_set (bm_limit t) (setBacklight (targetBrightness t sc) sc)"
      by (rule setBacklight_set [OF s targetBrightness_bounds [OF t(1) s(1)]])+
  qed
  have "bm_ok (setBacklights t)"
    unfolding setBacklights_def by (rule bm_ok_map_scales [OF t(1)]) (use each(1) in auto)
  moreover have "bm_limit (setBacklights t) = bm_limit t" by (simp add: setBacklights_def bm_limit_def)
  moreover have "list_all (scale_set (bm_limit t) \<circ> snd) (bm_scales (setBacklights t))"
    using each(2) by (auto simp: setBacklights_def list_all_iff)
  moreover have "bm_sync showOSD s = setBacklights t" using False by (simp only: bm_sync_def t_def if_False)
  ultimately show ?thesis by (simp add: bm_synced_def)
qed

subsection \<open>Any sequence of events\<close>

text \<open>What mutter reports: monitors with well-formed backlights.\<close>

fun bm_event_ok :: "bm_event \<Rightarrow> bool" where
  "bm_event_ok (MonitorsEv lms) \<longleftrightarrow> list_all (\<lambda>(m, bs). list_all level_ok bs) lms"
| "bm_event_ok _ \<longleftrightarrow> True"

lemma bm_ok_monitorsChanged:
  assumes lms: "list_all (\<lambda>(m, bs). list_all level_ok bs) lms" and t: "0 \<le> bm_dimmingTarget s" "bm_dimmingTarget s \<le> 1"
    and g: "case bm_global s of None \<Rightarrow> True | Some (v, n) \<Rightarrow> 0 \<le> v \<and> v \<le> 1"
  shows "bm_synced (monitorsChanged lms s)"
proof -
  define mons where "mons = [lm \<leftarrow> lms. snd lm \<noteq> []]"
  define s1 where "s1 = s\<lparr>bm_scales := map (\<lambda>(m, bs). (m, newMonitorScale bs)) mons\<rparr>"
  define s2 where "s2 = (if mons = [] then s1\<lparr>bm_global := None\<rparr>
      else if bm_global s1 = None
      then s1\<lparr>bm_global := Some (1, min (foldr max (map (\<lambda>(m, sc). sc_nSteps sc) (bm_scales s1)) 0) SCALE_VALUE_N_STEPS)\<rparr>
      else s1)"
  have "list_all (scale_ok \<circ> snd) (bm_scales s1)"
    using lms by (auto simp: s1_def mons_def list_all_iff scale_ok_def newMonitorScale_def)
  moreover have "bm_scales s1 = [] \<longleftrightarrow> mons = []" by (simp add: s1_def)
  ultimately have "bm_ok s2" using t g by (auto simp: s2_def bm_ok_def s1_def split: option.splits)
  then show ?thesis
    unfolding monitorsChanged_def Let_def mons_def [symmetric] s1_def [symmetric] s2_def [symmetric]
    by (simp add: bm_sync_synced)
qed

lemma bm_synced_step:
  assumes syn: "bm_synced s" and ev: "bm_event_ok ev"
  shows "bm_synced (bm_step ev s)"
proof -
  have ok: "bm_ok s" using syn by (simp add: bm_synced_def)
  have mon: "bm_synced (setMonitorValue m f s)" for m f
  proof -
    have "bm_ok (s\<lparr>bm_scales := map (\<lambda>(m', sc). (m', if m' = m then (setValue (f sc) sc)\<lparr>sc_changed := True\<rparr> else sc)) (bm_scales s)\<rparr>)"
      using ok by (auto simp: bm_ok_def list_all_iff)
    then show ?thesis using syn by (simp add: setMonitorValue_def bm_sync_synced)
  qed
  have glob: "bm_synced (setGlobalValue f s)" for f
  proof (cases "bm_global s")
    case (Some g)
    obtain v n where "g = (v, n)" by (cases g)
    moreover have "bm_ok (s\<lparr>bm_global := Some (clamp01 (f v n), n), bm_globalChanged := True\<rparr>)"
      using ok Some by (simp add: bm_ok_def)
    ultimately show ?thesis using Some by (simp add: setGlobalValue_def bm_sync_synced)
  qed (use syn in \<open>simp add: setGlobalValue_def\<close>)
  show ?thesis
  proof (cases ev)
    case (MonitorsEv lms)
    then show ?thesis using ev ok bm_ok_monitorsChanged [of lms s] by (simp add: bm_ok_def)
  next
    case (BacklightEv m i level)
    have "level_ok (b\<lparr>bl_brightness := level\<rparr>) = level_ok b" for b by (simp add: level_ok_def)
    then have up: "list_all level_ok (bs[i := (bs ! i)\<lparr>bl_brightness := level\<rparr>])" if "list_all level_ok bs" "i < length bs" for bs
      using that by (auto simp: list_all_iff dest!: set_update_subset_insert [THEN subsetD])
    have "scale_ok (sc\<lparr>sc_backlights := (sc_backlights sc)[i := (sc_backlights sc ! i)\<lparr>bl_brightness := level\<rparr>]\<rparr>)"
      if "scale_ok sc" "i < length (sc_backlights sc)" for sc
      using that up [of "sc_backlights sc"] by (simp add: scale_ok_def)
    then have "bm_ok (s\<lparr>bm_scales := map (\<lambda>(m', sc). (m', if m' = m \<and> i < length (sc_backlights sc)
             then sc\<lparr>sc_backlights := (sc_backlights sc)[i := (sc_backlights sc ! i)\<lparr>bl_brightness := level\<rparr>]\<rparr> else sc)) (bm_scales s)\<rparr>)"
      using ok by (auto simp: bm_ok_def list_all_iff)
    then show ?thesis using syn BacklightEv by (simp add: backlightChanged_def bm_sync_synced)
  qed (use mon glob ok in \<open>simp_all add: setDimming_def setAutoBrightnessTarget_def bm_sync_synced bm_ok_def\<close>)
qed

definition bm_run :: "bm_event list \<Rightarrow> brightness \<Rightarrow> brightness" where
  "bm_run evs s = fold bm_step evs s"

lemma bm_synced_run: "bm_synced s \<Longrightarrow> list_all bm_event_ok evs \<Longrightarrow> bm_synced (bm_run evs s)"
  by (induction evs arbitrary: s) (simp_all add: bm_run_def bm_synced_step)

lemma bm_synced_new:
  assumes "0 \<le> idle" "idle \<le> 100" "list_all (\<lambda>(m, bs). list_all level_ok bs) lms"
  shows "bm_synced (newBrightnessManager idle lms)"
  unfolding newBrightnessManager_def by (rule bm_ok_monitorsChanged) (use assms in simp_all)

lemma dimmingTarget_sync [simp]: "bm_dimmingTarget (bm_sync b s) = bm_dimmingTarget s"
  by (simp add: bm_sync_def syncScales_def syncBacklights_def setBacklights_def Let_def)

lemma dimmingTarget_step [simp]: "bm_dimmingTarget (bm_step ev s) = bm_dimmingTarget s"
  by (cases ev) (simp_all add: setMonitorValue_def setGlobalValue_def setDimming_def setAutoBrightnessTarget_def
      monitorsChanged_def backlightChanged_def Let_def split: option.split)

lemma dimmingTarget_run:
  "bm_dimmingTarget (bm_run evs (newBrightnessManager idle lms)) = real_of_int idle / 100"
proof -
  have "bm_dimmingTarget (fold bm_step evs s) = bm_dimmingTarget s" for s
    by (induction evs arbitrary: s) simp_all
  then show ?thesis by (simp add: bm_run_def newBrightnessManager_def monitorsChanged_def Let_def)
qed

text \<open>C15: Whatever the user, the settings, other clients, the system and changes of monitors do, after every
  event each value of a scale is between 0 and 1, each backlight is between its lowest and its
  highest level, and while the screen is dimmed no backlight is above the dimming target.\<close>

theorem brightness_bounds:
  assumes "0 \<le> idle" and "idle \<le> 100" and "list_all (\<lambda>(m, bs). list_all level_ok bs) lms" and "list_all bm_event_ok evs"
  shows "let s = bm_run evs (newBrightnessManager idle lms) in
     list_all (\<lambda>(m, sc). 0 \<le> sc_value sc \<and> sc_value sc \<le> 1
        \<and> list_all (level_within (if bm_dimming s then real_of_int idle / 100 else 1)) (sc_backlights sc)) (bm_scales s)
     \<and> (case bm_global s of None \<Rightarrow> bm_scales s = [] | Some (v, n) \<Rightarrow> 0 \<le> v \<and> v \<le> 1)"
proof -
  let ?s = "bm_run evs (newBrightnessManager idle lms)"
  have syn: "bm_synced ?s" by (rule bm_synced_run [OF bm_synced_new [OF assms(1-3)] assms(4)])
  have "bm_dimmingTarget ?s = real_of_int idle / 100" by (simp add: dimmingTarget_run)
  then have "bm_limit ?s = (if bm_dimming ?s then real_of_int idle / 100 else 1)" by (simp add: bm_limit_def)
  then show ?thesis
    using syn unfolding Let_def bm_synced_def bm_ok_def by (auto simp: list_all_iff scale_ok_def scale_set_def split: option.splits)
qed

lemma brightness_bounds_witness:
  "let s = bm_run [AutoTarget (4 / 10), GlobalDown, DimmingEv True]
       (newBrightnessManager 30 [(0, [\<lparr>bl_brightness = 50, bl_min = 0, bl_max = 100\<rparr>])]) in
     list_all (\<lambda>(m, sc). sc_value sc \<le> 1) (bm_scales s)"
  using brightness_bounds [of 30 "[(0, [\<lparr>bl_brightness = 50, bl_min = 0, bl_max = 100\<rparr>])]"
      "[AutoTarget (4 / 10), GlobalDown, DimmingEv True]"]
  by (auto simp: level_ok_def Let_def list_all_iff)

subsection \<open>The global scale\<close>

text \<open>What setting the global scale makes of a monitor's scale.\<close>

definition followGlobal :: "brightness \<Rightarrow> real \<Rightarrow> scale \<Rightarrow> scale" where
  "followGlobal s x sc = (let sc1 = syncWithScale (clamp01 x) sc in setBacklight (targetBrightness s sc1) sc1)"

lemma synced_backlight_unchanged: "scale_set limit sc \<Longrightarrow> syncWithBacklight sc = (sc, False)"
  by (simp add: scale_set_def syncWithBacklight_def Let_def)

lemma bm_synced_syncBacklights:
  assumes "list_all (scale_set limit \<circ> snd) (bm_scales s)"
  shows "bm_scales (syncBacklights s) = bm_scales s" "bm_dimming (syncBacklights s) = bm_dimming s"
    "bm_global (syncBacklights s) = bm_global s" "bm_globalChanged (syncBacklights s) = bm_globalChanged s"
    "bm_abTarget (syncBacklights s) = bm_abTarget s" "bm_dimmingTarget (syncBacklights s) = bm_dimmingTarget s"
proof -
  have e: "syncWithBacklight (snd p) = (snd p, False)" if "p \<in> set (bm_scales s)" for p
    using assms that by (auto simp: list_all_iff intro: synced_backlight_unchanged)
  show "bm_scales (syncBacklights s) = bm_scales s"
    unfolding syncBacklights_def by (simp, rule map_idI) (use e in force)
  have "\<not> list_ex (\<lambda>(m, sc). snd (syncWithBacklight sc)) (bm_scales s)"
    using e by (force simp: list_ex_iff)
  then show "bm_dimming (syncBacklights s) = bm_dimming s" by (simp add: syncBacklights_def)
qed (simp_all add: syncBacklights_def)

lemma targetBrightness_cong:
  "bm_dimming s = bm_dimming t \<Longrightarrow> bm_dimmingTarget s = bm_dimmingTarget t \<Longrightarrow> bm_abTarget s = bm_abTarget t
     \<Longrightarrow> targetBrightness s = targetBrightness t"
  by (rule ext) (simp add: targetBrightness_def)

lemma GlobalSet_scales:
  fixes x :: real
  assumes syn: "bm_synced s" and g: "bm_global s = Some (v, n)"
  defines "s' \<equiv> bm_step (GlobalSet x) s"
  shows "bm_scales s' = map (\<lambda>(m, sc). (m, followGlobal s x sc)) (bm_scales s)" "bm_global s' = Some (clamp01 x, n)"
    "bm_dimming s' = bm_dimming s" "bm_abTarget s' = bm_abTarget s" "bm_dimmingTarget s' = bm_dimmingTarget s"
proof -
  define s0 where "s0 = s\<lparr>bm_global := Some (clamp01 x, n), bm_globalChanged := True\<rparr>"
  have set: "list_all (scale_set (bm_limit s) \<circ> snd) (bm_scales s0)" using syn by (simp add: s0_def bm_synced_def)
  define s1 where "s1 = syncBacklights s0"
  have s1: "bm_scales s1 = bm_scales s" "bm_dimming s1 = bm_dimming s" "bm_global s1 = Some (clamp01 x, n)"
    "bm_globalChanged s1" "bm_abTarget s1 = bm_abTarget s" "bm_dimmingTarget s1 = bm_dimmingTarget s"
    unfolding s1_def bm_synced_syncBacklights [OF set] by (simp_all add: s0_def)
  have nc: "[y \<leftarrow> bm_scales s1. sc_changed (snd y)] = []"
    using syn by (auto simp: s1 bm_synced_def scale_set_def list_all_iff filter_empty_conv)
  have id: "map (\<lambda>(m, sc). (m, sc\<lparr>sc_changed := False\<rparr>)) (bm_scales s) = bm_scales s"
    by (rule map_idI) (use syn in \<open>auto simp: bm_synced_def scale_set_def list_all_iff\<close>)
  define s2 where "s2 = syncScales True s1"
  have s2: "bm_scales s2 = map (\<lambda>(m, sc). (m, syncWithScale (clamp01 x) sc)) (bm_scales s)" "bm_global s2 = Some (clamp01 x, n)"
    "bm_dimming s2 = bm_dimming s" "bm_abTarget s2 = bm_abTarget s" "bm_dimmingTarget s2 = bm_dimmingTarget s"
    unfolding s2_def syncScales_def Let_def nc using s1 by (simp_all add: id)
  have e: "s' = bm_emit UserUpdate (setBacklights s2)"
    by (simp add: s'_def setGlobalValue_def g bm_sync_def s0_def [symmetric] s1_def [symmetric] s2_def [symmetric])
  have t: "targetBrightness s2 = targetBrightness s" by (rule targetBrightness_cong) (simp_all add: s2)
  show "bm_scales s' = map (\<lambda>(m, sc). (m, followGlobal s x sc)) (bm_scales s)" "bm_global s' = Some (clamp01 x, n)"
    "bm_dimming s' = bm_dimming s" "bm_abTarget s' = bm_abTarget s" "bm_dimmingTarget s' = bm_dimmingTarget s"
    by (simp_all add: e setBacklights_def s2 t split_def followGlobal_def Let_def)
qed

lemma followGlobal_again: "targetBrightness s = targetBrightness t \<Longrightarrow> followGlobal t y (followGlobal s x sc) = followGlobal t y sc"
proof -
  assume eq: "targetBrightness s = targetBrightness t"
  have twice: "setRelativeBrightness a (setRelativeBrightness b bl) = setRelativeBrightness a bl" for a b bl
    by (simp add: setRelativeBrightness_def)
  have val: "targetBrightness t sc1 = targetBrightness t sc2" if "sc_value sc1 = sc_value sc2" for sc1 sc2
    using that by (simp add: targetBrightness_def)
  show ?thesis
    unfolding followGlobal_def Let_def
    by (simp add: syncWithScale_def setValue_def setBacklight_def Let_def comp_def twice
        val [of "sc\<lparr>sc_value := clamp01 (clamp01 y * sc_factor sc)\<rparr>"] eq targetBrightness_def)
qed

text \<open>The global scale moves all monitors by their ratios and forgets where it has been: in every state
  the events lead to, setting it to \<open>y\<close> gives each monitor \<open>y\<close> times its factor, and gives the same
  values and the same backlights whether it had been set to something else before or not.\<close>

theorem global_scale_keeps_ratios:
  assumes "0 \<le> idle" and "idle \<le> 100" and "list_all (\<lambda>(m, bs). list_all level_ok bs) lms" and "list_all bm_event_ok evs"
    and s: "s = bm_run evs (newBrightnessManager idle lms)" and "bm_scales s \<noteq> []"
  shows "bm_scales (bm_step (GlobalSet y) (bm_step (GlobalSet x) s)) = bm_scales (bm_step (GlobalSet y) s)
     \<and> map (\<lambda>(m, sc). (m, sc_value sc)) (bm_scales (bm_step (GlobalSet y) s))
       = map (\<lambda>(m, sc). (m, clamp01 y * sc_factor sc)) (bm_scales s)"
proof -
  have syn: "bm_synced s" unfolding s by (rule bm_synced_run [OF bm_synced_new [OF assms(1-3)] assms(4)])
  then have ok: "bm_ok s" by (simp add: bm_synced_def)
  obtain v n where g: "bm_global s = Some (v, n)" using ok assms(6) by (auto simp: bm_ok_def)
  note one = GlobalSet_scales [OF syn g, of x] and direct = GlobalSet_scales [OF syn g, of y]
  have syn': "bm_synced (bm_step (GlobalSet x) s)" by (rule bm_synced_step [OF syn]) simp
  note two = GlobalSet_scales [OF syn' one(2), of y]
  have t: "targetBrightness (bm_step (GlobalSet x) s) = targetBrightness s"
    by (rule targetBrightness_cong) (use one(3-5) in simp_all)
  have f: "followGlobal (bm_step (GlobalSet x) s) y sc = followGlobal s y sc" for sc
    by (simp only: followGlobal_def t)
  have "bm_scales (bm_step (GlobalSet y) (bm_step (GlobalSet x) s)) = bm_scales (bm_step (GlobalSet y) s)"
    unfolding two(1) one(1) direct(1)
    by (simp add: f followGlobal_again [OF refl] split_def del: bm_step.simps)
  moreover have "sc_value (followGlobal s y sc) = clamp01 y * sc_factor sc" if "(m, sc) \<in> set (bm_scales s)" for m sc
  proof -
    have "0 \<le> sc_factor sc" "sc_factor sc \<le> 1" using ok that by (auto simp: bm_ok_def list_all_iff scale_ok_def)
    then have "0 \<le> clamp01 y * sc_factor sc" "clamp01 y * sc_factor sc \<le> 1"
      by (simp_all add: mult_le_one)
    then show ?thesis by (simp add: followGlobal_def syncWithScale_def setValue_def setBacklight_def Let_def)
  qed
  then have "map (\<lambda>(m, sc). (m, sc_value sc)) (bm_scales (bm_step (GlobalSet y) s))
      = map (\<lambda>(m, sc). (m, clamp01 y * sc_factor sc)) (bm_scales s)"
    unfolding direct(1) by auto
  ultimately show ?thesis by blast
qed

lemma global_scale_keeps_ratios_witness:
  "let s = bm_run [] (newBrightnessManager 30 [(0, [\<lparr>bl_brightness = 50, bl_min = 0, bl_max = 100\<rparr>])]) in
     bm_scales (bm_step (GlobalSet 1) (bm_step (GlobalSet 0) s)) = bm_scales (bm_step (GlobalSet 1) s)"
proof -
  let ?s = "bm_run [] (newBrightnessManager 30 [(0, [\<lparr>bl_brightness = 50, bl_min = 0, bl_max = 100\<rparr>])])"
  have "bm_scales ?s \<noteq> []"
    by (simp add: bm_run_def newBrightnessManager_def monitorsChanged_def bm_sync_def setBacklights_def syncScales_def
        syncBacklights_def Let_def)
  then have "bm_scales (bm_step (GlobalSet 1) (bm_step (GlobalSet 0) ?s)) = bm_scales (bm_step (GlobalSet 1) ?s)"
    using global_scale_keeps_ratios [of 30 "[(0, [\<lparr>bl_brightness = 50, bl_min = 0, bl_max = 100\<rparr>])]" "[]" ?s 1 0]
    by (simp add: level_ok_def del: bm_step.simps)
  then show ?thesis by (simp only: Let_def)
qed

subsection \<open>Changes of monitors\<close>

text \<open>\<open>monitors-changed\<close> with the monitors as they are, as after a rotation.\<close>

definition rescan :: "brightness \<Rightarrow> brightness" where
  "rescan s = bm_step (MonitorsEv (map (\<lambda>(m, sc). (m, sc_backlights sc)) (bm_scales s))) s"

definition levels :: "brightness \<Rightarrow> int list" where
  "levels s = concat (map (\<lambda>(m, sc). map bl_brightness (sc_backlights sc)) (bm_scales s))"

definition auto_brightness :: brightness where
  "auto_brightness = bm_run [AutoTarget (4 / 10)]
     (newBrightnessManager 30 [(0, [\<lparr>bl_brightness = 50, bl_min = 0, bl_max = 100\<rparr>])])"

definition dimmed_brightness :: brightness where
  "dimmed_brightness = bm_run [DimmingEv True]
     (newBrightnessManager 30 [(0, [\<lparr>bl_brightness = 80, bl_min = 0, bl_max = 100\<rparr>])])"

lemmas brightness_eval = bm_run_def newBrightnessManager_def monitorsChanged_def bm_sync_def setBacklights_def
  syncScales_def syncBacklights_def Let_def map_scales_def newMonitorScale_def syncWithBacklight_def setValue_def
  getRelativeBrightness_def clamp01_def max_value_def updateScaleFactor_def setBacklight_def setRelativeBrightness_def
  targetBrightness_def js_trunc_def setAutoBrightnessTarget_def setDimming_def bm_emit_def rescan_def levels_def
  SCALE_VALUE_N_STEPS_def

text \<open>A change of monitors loses the brightness the user chose: the new scales read their value back
  from the backlights, which automatic brightness or dimming have moved. With a target of 0.4 each
  change darkens the screen by a tenth, down to 0, though nothing else happens; and a screen that
  is dimmed to 30 when it rotates stays there when dimming ends.\<close>

theorem monitors_changed_darkens:
  "levels auto_brightness = [40] \<and> levels (rescan auto_brightness) = [30] \<and> levels (rescan (rescan auto_brightness)) = [20]
   \<and> levels (rescan (rescan (rescan (rescan auto_brightness)))) = [0]
   \<and> levels (bm_step (DimmingEv False) dimmed_brightness) = [80]
   \<and> levels (bm_step (DimmingEv False) (rescan dimmed_brightness)) = [30]"
  by (simp add: auto_brightness_def dimmed_brightness_def brightness_eval)

end
