(* ===== verification/History.thy ===== *)
theory History
  imports Prelude
begin

section \<open>The history of an entry (\<open>js/misc/history.js\<close>)\<close>

text \<open>
  \<open>HistoryManager\<close>: the texts entered before, the position in them, the settings they are stored in
  and the text of the entry. With a settings key, storing them tells \<open>_historyChanged\<close>. An index
  past the end would leave holes in the array, which is \<open>''\<close> here; \<open>history_index_bound\<close> shows that
  this does not happen.
\<close>

record history_manager =
  hm_key :: bool                   \<comment> \<open>there is a \<open>gsettingsKey\<close>\<close>
  hm_limit :: nat
  hm_history :: "string list"
  hm_historyIndex :: nat
  hm_settings :: "string list"     \<comment> \<open>what the settings hold under the key\<close>
  hm_entry :: "string option"      \<comment> \<open>the text of the entry, if there is one\<close>
  hm_emitted :: "string list"

definition DEFAULT_LIMIT :: nat where "DEFAULT_LIMIT = 512"

definition js_space :: "char \<Rightarrow> bool" where
  "js_space c \<longleftrightarrow> of_char c \<in> {9, 10, 11, 12, 13, 32, 160 :: nat}"

definition js_trim :: "string \<Rightarrow> string" where
  "js_trim s = rev (dropWhile js_space (rev (dropWhile js_space s)))"

text \<open>\<open>a[i] = x\<close>\<close>

definition js_array_set :: "nat \<Rightarrow> string \<Rightarrow> string list \<Rightarrow> string list" where
  "js_array_set i x xs = (if i < length xs then xs[i := x] else xs @ replicate (i - length xs) [] @ [x])"

definition js_item :: "string list \<Rightarrow> nat \<Rightarrow> string" where
  "js_item xs i = (if i < length xs then xs ! i else [])"

definition indexChanged :: "history_manager \<Rightarrow> history_manager" where
  "indexChanged s =
     (let current = js_item (hm_history s) (hm_historyIndex s)
      in s\<lparr>hm_emitted := hm_emitted s @ [current], hm_entry := map_option (\<lambda>_. current) (hm_entry s)\<rparr>)"

definition historyChanged :: "history_manager \<Rightarrow> history_manager" where
  "historyChanged s = s\<lparr>hm_history := hm_settings s, hm_historyIndex := length (hm_settings s)\<rparr>"

definition setPrevItem :: "string \<Rightarrow> history_manager \<Rightarrow> history_manager \<times> bool" where
  "setPrevItem txt s =
     (if hm_historyIndex s = 0 then (s, False)
      else let s1 = (if txt \<noteq> [] then s\<lparr>hm_history := js_array_set (hm_historyIndex s) txt (hm_history s)\<rparr> else s)
           in (indexChanged (s1\<lparr>hm_historyIndex := hm_historyIndex s1 - 1\<rparr>), True))"

definition setNextItem :: "string \<Rightarrow> history_manager \<Rightarrow> history_manager \<times> bool" where
  "setNextItem txt s =
     (if hm_historyIndex s \<ge> length (hm_history s) then (s, False)
      else let s1 = (if txt \<noteq> [] then s\<lparr>hm_history := js_array_set (hm_historyIndex s) txt (hm_history s)\<rparr> else s)
           in (indexChanged (s1\<lparr>hm_historyIndex := hm_historyIndex s1 + 1\<rparr>), True))"

definition lastItem :: "history_manager \<Rightarrow> history_manager \<times> string option" where
  "lastItem s =
     (let s1 = (if hm_historyIndex s \<noteq> length (hm_history s)
                then indexChanged (s\<lparr>hm_historyIndex := length (hm_history s)\<rparr>) else s)
      in (s1, if hm_historyIndex s1 \<noteq> 0 then Some (js_item (hm_history s1) (hm_historyIndex s1 - 1)) else None))"

definition save :: "history_manager \<Rightarrow> history_manager" where
  "save s =
     (let s1 = (if length (hm_history s) > hm_limit s
                then s\<lparr>hm_history := drop (length (hm_history s) - hm_limit s) (hm_history s)\<rparr> else s)
      in if hm_key s1 then historyChanged (s1\<lparr>hm_settings := hm_history s1\<rparr>) else s1)"

definition addItem :: "string \<Rightarrow> history_manager \<Rightarrow> history_manager \<times> string" where
  "addItem input s =
     (let input = js_trim input;
          s1 = (if input \<noteq> [] \<and> (hm_history s = [] \<or> last (hm_history s) \<noteq> input)
                then save (s\<lparr>hm_history := [e \<leftarrow> hm_history s. e \<noteq> input] @ [input]\<rparr>) else s)
      in (s1\<lparr>hm_historyIndex := length (hm_history s1)\<rparr>, input))"

datatype history_key = KeyUp | KeyDown | KeyOther

text \<open>The text of the entry is read from it.\<close>

definition onEntryKeyPress :: "history_key \<Rightarrow> history_manager \<Rightarrow> history_manager \<times> bool" where
  "onEntryKeyPress k s =
     (let txt = js_trim (case hm_entry s of Some x \<Rightarrow> x | None \<Rightarrow> [])
      in case k of KeyUp \<Rightarrow> setPrevItem txt s | KeyDown \<Rightarrow> setNextItem txt s | KeyOther \<Rightarrow> (s, False))"

definition newHistoryManager :: "bool \<Rightarrow> nat \<Rightarrow> string list \<Rightarrow> string option \<Rightarrow> history_manager" where
  "newHistoryManager key limit settings entry =
     \<lparr>hm_key = key, hm_limit = limit, hm_history = (if key then settings else []), hm_historyIndex = 0,
      hm_settings = settings, hm_entry = entry, hm_emitted = []\<rparr>"

datatype history_event =
    HPrev string | HNext string | HLast | HAdd string | HKey history_key | HSettings "string list" | HType string

fun history_step :: "history_event \<Rightarrow> history_manager \<Rightarrow> history_manager" where
  "history_step (HPrev t) s = fst (setPrevItem t s)"
| "history_step (HNext t) s = fst (setNextItem t s)"
| "history_step HLast s = fst (lastItem s)"
| "history_step (HAdd t) s = fst (addItem t s)"
| "history_step (HKey k) s = fst (onEntryKeyPress k s)"
| "history_step (HSettings xs) s = (if hm_key s then historyChanged (s\<lparr>hm_settings := xs\<rparr>) else s)"
| "history_step (HType t) s = s\<lparr>hm_entry := map_option (\<lambda>_. t) (hm_entry s)\<rparr>"

definition history_run :: "history_event list \<Rightarrow> history_manager \<Rightarrow> history_manager" where
  "history_run evs s = fold history_step evs s"

subsection \<open>The index\<close>

lemma length_js_array_set: "i \<le> length xs \<Longrightarrow> length (js_array_set i x xs) = max (Suc i) (length xs)"
  by (simp add: js_array_set_def)

lemma indexChanged_frame [simp]:
  "hm_history (indexChanged s) = hm_history s" "hm_historyIndex (indexChanged s) = hm_historyIndex s"
  "hm_key (indexChanged s) = hm_key s" "hm_limit (indexChanged s) = hm_limit s" "hm_settings (indexChanged s) = hm_settings s"
  by (simp_all add: indexChanged_def Let_def)

lemma history_step_index:
  assumes "hm_historyIndex s \<le> length (hm_history s)"
  shows "hm_historyIndex (history_step ev s) \<le> length (hm_history (history_step ev s))"
proof -
  have p: "hm_historyIndex (fst (setPrevItem t s)) \<le> length (hm_history (fst (setPrevItem t s)))" for t
    using assms by (auto simp: setPrevItem_def Let_def length_js_array_set)
  have n: "hm_historyIndex (fst (setNextItem t s)) \<le> length (hm_history (fst (setNextItem t s)))" for t
    using assms by (simp add: setNextItem_def Let_def length_js_array_set)
  show ?thesis
  proof (cases ev)
    case (HKey k)
    then show ?thesis using p n assms by (cases k) (simp_all add: onEntryKeyPress_def Let_def)
  qed (use assms p n in \<open>simp_all add: lastItem_def addItem_def historyChanged_def Let_def\<close>)
qed

lemma history_index_bound:
  "hm_historyIndex (history_run evs (newHistoryManager key limit st en)) \<le> length (hm_history (history_run evs (newHistoryManager key limit st en)))"
proof -
  have "hm_historyIndex (fold history_step evs s) \<le> length (hm_history (fold history_step evs s))"
    if "hm_historyIndex s \<le> length (hm_history s)" for s
    using that by (induction evs arbitrary: s) (simp_all add: history_step_index)
  then show ?thesis by (simp add: history_run_def newHistoryManager_def)
qed

text \<open>Going back and forth brings a draft back: from any reachable position that is not the first, \<open>Up\<close>
  with a text and then \<open>Down\<close> with another end at the same position, showing the first text, and the
  second is kept where it was typed.\<close>

theorem history_up_down:
  assumes s: "s = history_run evs (newHistoryManager key limit st en)"
    and "hm_historyIndex s \<noteq> 0" and "draft \<noteq> []" and "other \<noteq> []"
  shows "let (s1, up) = setPrevItem draft s; (s2, down) = setNextItem other s1 in
     up \<and> down \<and> hm_historyIndex s2 = hm_historyIndex s \<and> last (hm_emitted s2) = draft
     \<and> js_item (hm_history s2) (hm_historyIndex s) = draft \<and> js_item (hm_history s2) (hm_historyIndex s - 1) = other
     \<and> hm_settings s2 = hm_settings s"
proof -
  let ?i = "hm_historyIndex s"
  have i: "?i \<le> length (hm_history s)" unfolding s by (rule history_index_bound)
  obtain j where j: "?i = Suc j" using assms(2) by (cases ?i) auto
  define h where "h = js_array_set ?i draft (hm_history s)"
  have h: "Suc j < length h" "h ! Suc j = draft" using i by (auto simp: h_def js_array_set_def j nth_append)
  have "setPrevItem draft s = (indexChanged (s\<lparr>hm_history := h, hm_historyIndex := j\<rparr>), True)"
    using assms(3) by (simp add: setPrevItem_def h_def j)
  moreover have "setNextItem other (indexChanged (s\<lparr>hm_history := h, hm_historyIndex := j\<rparr>))
      = (indexChanged ((indexChanged (s\<lparr>hm_history := h, hm_historyIndex := j\<rparr>))\<lparr>hm_history := h[j := other],
          hm_historyIndex := Suc j\<rparr>), True)"
    using assms(4) h(1) by (simp add: setNextItem_def Let_def js_array_set_def)
  ultimately show ?thesis
    using h by (simp add: j js_item_def indexChanged_def Let_def)
qed

text \<open>Entering a text puts it last and nowhere else, keeps the others in order, keeps at most the limit
  (the latest ones), and moves behind the end; a text repeated at once changes nothing but the
  position, and the settings hold what the history holds.\<close>

theorem addItem_spec:
  assumes "js_trim input \<noteq> []" and "hm_limit s \<noteq> 0"
  shows "let (s', r) = addItem input s; t = js_trim input in
     r = t \<and> last (hm_history s') = t \<and> hm_historyIndex s' = length (hm_history s')
     \<and> (if hm_history s \<noteq> [] \<and> last (hm_history s) = t then hm_history s' = hm_history s
        else count_list (hm_history s') t = 1 \<and> length (hm_history s') \<le> hm_limit s
          \<and> hm_history s' = drop (length [e \<leftarrow> hm_history s. e \<noteq> t] + 1 - hm_limit s) ([e \<leftarrow> hm_history s. e \<noteq> t] @ [t])
          \<and> (if hm_key s then hm_settings s' = hm_history s' else hm_settings s' = hm_settings s))"
proof -
  let ?t = "js_trim input" and ?k = "[e \<leftarrow> hm_history s. e \<noteq> js_trim input]"
  show ?thesis
  proof (cases "hm_history s \<noteq> [] \<and> last (hm_history s) = ?t")
    case True
    then show ?thesis using assms by (simp add: addItem_def Let_def)
  next
    case False
    obtain h where h_def: "h = drop (length ?k + 1 - hm_limit s) (?k @ [?t])" by blast
    have sv: "hm_history (save (s\<lparr>hm_history := ?k @ [?t]\<rparr>)) = h"
      "hm_settings (save (s\<lparr>hm_history := ?k @ [?t]\<rparr>)) = (if hm_key s then h else hm_settings s)"
      by (simp_all add: save_def historyChanged_def Let_def h_def)
    have h: "h = drop (length ?k + 1 - hm_limit s) ?k @ [?t]"
      using assms(2) by (simp add: h_def)
    have "count_list (drop n ?k) ?t = 0" for n by (auto simp: count_list_0_iff dest: in_set_dropD)
    then have "count_list h ?t = 1" unfolding h by simp
    moreover have "length h \<le> hm_limit s" unfolding h_def by simp
    moreover have "last h = ?t" unfolding h by simp
    moreover have "hm_history (fst (addItem input s)) = h" "hm_historyIndex (fst (addItem input s)) = length h"
      "hm_settings (fst (addItem input s)) = (if hm_key s then h else hm_settings s)" "snd (addItem input s) = ?t"
      using False assms(1) by (simp_all add: addItem_def Let_def sv)
    ultimately show ?thesis unfolding split_def Let_def h_def [symmetric] using False by auto
  qed
qed

text \<open>A text that was typed and left with \<open>Up\<close>, never entered, becomes part of the history: the next
  text that is entered stores it in the settings too.\<close>

theorem left_draft_is_stored:
  "let s = history_run [HLast, HType ''rm'', HKey KeyUp, HAdd ''ls''] (newHistoryManager True DEFAULT_LIMIT [''ls''] (Some [])) in
     hm_settings s = [''rm'', ''ls''] \<and> hm_history s = [''rm'', ''ls'']"
  by code_simp

lemma history_up_down_witness:
  "let s = history_run [HAdd ''ls''] (newHistoryManager False DEFAULT_LIMIT [] None);
       (s1, up) = setPrevItem ''draft'' s; (s2, down) = setNextItem ''ls'' s1 in up \<and> down \<and> hm_historyIndex s2 = 1"
proof -
  let ?s = "history_run [HAdd ''ls''] (newHistoryManager False DEFAULT_LIMIT [] None)"
  have "hm_historyIndex ?s = 1" by code_simp
  then show ?thesis
    using history_up_down [OF refl, where evs = "[HAdd ''ls'']" and key = False and limit = DEFAULT_LIMIT and st = "[]"
      and en = None and draft = "''draft''" and other = "''ls''"] by (simp add: split_def Let_def)
qed

lemma addItem_spec_witness:
  "let (s', r) = addItem '' ls '' (newHistoryManager True 2 [''a'', ''ls'', ''b''] None) in
     r = ''ls'' \<and> count_list (hm_history s') ''ls'' = 1 \<and> length (hm_history s') \<le> 2"
proof -
  have "js_trim '' ls '' = ''ls''" by code_simp
  then show ?thesis
    using addItem_spec [of "'' ls ''" "newHistoryManager True 2 [''a'', ''ls'', ''b''] None"]
    by (simp add: split_def Let_def newHistoryManager_def)
qed

end
