(* ===== verification/MessageTray.thy ===== *)
theory MessageTray
  imports MainLoop
begin

section \<open>The message tray (\<open>js/ui/messageTray.js\<close>)\<close>

text \<open>
  Notifications, their sources with their policies, and the \<open>MessageTray\<close> that shows one of them at a
  time as a banner. Notifications and sources are shared objects, so they are kept in stores under
  numbers. \<open>_updateState\<close> is entered again from what it calls, where it returns at once because
  \<open>_updatingState\<close> is set; the functions it calls take the \<open>_updateState\<close> they are to call as an
  argument \<open>upd\<close>.

  A handler of a signal that throws is cut short and the error is logged; a function that is called
  directly passes the error on. So a function that can throw gives the state it left and whether
  it returned. \<open>ease\<close> creates transitions when animations are enabled and the actor is mapped, and
  calls the callback at once otherwise (\<open>te_animates\<close>). \<open>te_stopOnRemove\<close> says that removing a
  running transition emits \<open>stopped\<close>, as Clutter documents.
\<close>

definition ANIMATION_TIME :: int where "ANIMATION_TIME = 200"
definition NOTIFICATION_TIMEOUT :: int where "NOTIFICATION_TIMEOUT = 4000"
definition HIDE_TIMEOUT :: int where "HIDE_TIMEOUT = 200"
definition LONGER_HIDE_TIMEOUT :: int where "LONGER_HIDE_TIMEOUT = 600"
definition MAX_NOTIFICATIONS_IN_QUEUE :: nat where "MAX_NOTIFICATIONS_IN_QUEUE = 3"
definition MAX_NOTIFICATIONS_PER_SOURCE :: nat where "MAX_NOTIFICATIONS_PER_SOURCE = 10"
definition MOUSE_LEFT_ACTOR_THRESHOLD :: int where "MOUSE_LEFT_ACTOR_THRESHOLD = 20"
definition IDLE_TIME :: int where "IDLE_TIME = 1000"

datatype tray_state = TS_HIDDEN | TS_SHOWING | TS_SHOWN | TS_HIDING

datatype notif_reason = NR_EXPIRED | NR_DISMISSED | NR_SOURCE_CLOSED | NR_REPLACED

datatype notif_urgency = NU_LOW | NU_NORMAL | NU_HIGH | NU_CRITICAL

fun urgency_num :: "notif_urgency \<Rightarrow> int" where
  "urgency_num NU_LOW = 0"
| "urgency_num NU_NORMAL = 1"
| "urgency_num NU_HIGH = 2"
| "urgency_num NU_CRITICAL = 3"

datatype privacy_scope = PS_USER | PS_SYSTEM

record policy =
  po_enable :: bool
  po_enableSound :: bool
  po_showBanners :: bool
  po_forceExpanded :: bool

record notif =
  no_source :: nat
  no_urgency :: notif_urgency
  no_privacyScope :: privacy_scope
  no_acknowledged :: bool
  no_resident :: bool
  no_forFeedback :: bool
  no_isTransient :: bool
  no_sound :: bool
  no_actions :: "nat list"
  no_added :: bool       \<comment> \<open>its source has connected to it\<close>
  no_alive :: bool

record msource =
  ms_notifications :: "nat list"
  ms_policy :: policy
  ms_connected :: bool    \<comment> \<open>the tray has connected to the policy\<close>
  ms_inDestruction :: bool
  ms_alive :: bool

text \<open>The key focus of the stage: nothing, the banner, or another actor.\<close>

datatype stage_focus = F_none | F_banner | F_other nat

record banner =
  ba_notification :: nat
  ba_expanded :: bool
  ba_touched :: bool      \<comment> \<open>\<open>interactedWithTouchGesture\<close>\<close>
  ba_connected :: bool    \<comment> \<open>the handler of \<open>hide-message\<close>\<close>

text \<open>The transition of \<open>y\<close>, the one that carries the callback.\<close>

datatype tray_anim = TA_none | TA_show | TA_hide

datatype tray_call =
    QueueChanged | SourceAdded nat | SourceRemoved nat | PolicyStored nat | LogReadd nat
  | ShowBanner nat | PlaySound nat | DestroyBanner nat | DisableUnredirect | EnableUnredirect
  | NotificationAdded nat | NotificationRemoved nat | NotifyCount nat | NotifDestroyed nat notif_reason
  | SourceDestroyedCall nat | ActionAdded nat nat | ActionRemoved nat nat | ActivatedCall nat | ActionCallback nat nat

record tray =
  mt_notifs :: "nat \<Rightarrow> notif"
  mt_msources :: "nat \<Rightarrow> msource"
  mt_sources :: "nat list"
  mt_busy :: bool
  mt_bannerBlocked :: bool
  mt_queue :: "nat list"
  mt_notification :: "nat option"
  mt_banner :: "banner option"
  mt_userActive :: bool                 \<comment> \<open>\<open>_userActiveWhileNotificationShown\<close>\<close>
  mt_watches :: nat                     \<comment> \<open>user-active watches that have not fired\<close>
  mt_useLonger :: bool                  \<comment> \<open>\<open>_useLongerNotificationLeftTimeout\<close>\<close>
  mt_pointerIn :: bool                  \<comment> \<open>\<open>_pointerInNotification\<close>\<close>
  mt_hovered :: bool
  mt_state :: tray_state
  mt_timeoutId :: nat
  mt_leftTimeoutId :: nat
  mt_removed :: bool                    \<comment> \<open>\<open>_notificationRemoved\<close>\<close>
  mt_expired :: bool                    \<comment> \<open>\<open>_notificationExpired\<close>\<close>
  mt_updating :: bool                   \<comment> \<open>\<open>_updatingState\<close>\<close>
  mt_touchscreen :: bool                \<comment> \<open>\<open>_lastDeviceIsTouchscreen\<close>\<close>
  mt_leftMouse :: "int \<times> int"           \<comment> \<open>\<open>_notificationLeftMouseX\<close>, \<open>Y\<close>\<close>
  mt_showMouse :: "int \<times> int"           \<comment> \<open>\<open>_showNotificationMouseX\<close>, \<open>Y\<close>\<close>
  mt_lastSeen :: "int \<times> int"            \<comment> \<open>\<open>_lastSeenMouseX\<close>, \<open>Y\<close>\<close>
  mt_anim :: tray_anim
  mt_visible :: bool
  mt_focus :: stage_focus
  mt_focusGrabbed :: bool               \<comment> \<open>\<open>_focused\<close> of the \<open>FocusGrabber\<close>\<close>
  mt_prevFocus :: stage_focus           \<comment> \<open>\<open>_prevKeyFocusActor\<close>\<close>
  mt_trace :: "tray_call trace"

record tray_env =
  te_hasMonitor :: bool
  te_inFullscreen :: bool
  te_hasNotifications :: bool           \<comment> \<open>of the session mode\<close>
  te_shieldActive :: bool
  te_pointer :: "int \<times> int"
  te_idletime :: int
  te_bannerAtShow :: bool               \<comment> \<open>the actor at the place of the pointer at \<open>show\<close> is in the banner\<close>
  te_animates :: bool
  te_stopOnRemove :: bool
  te_ids :: "tray_call idgen"

datatype outcome = Returned | Threw

type_synonym tray_result = "tray \<times> outcome"

definition tthen :: "tray_result \<Rightarrow> (tray \<Rightarrow> tray_result) \<Rightarrow> tray_result" where
  "tthen r f = (case r of (s, Returned) \<Rightarrow> f s | (s, Threw) \<Rightarrow> (s, Threw))"

lemma tthen_simps [simp]: "tthen (s, Returned) f = f s" "tthen (s, Threw) f = (s, Threw)"
  by (simp_all add: tthen_def)

definition mt_do :: "tray_call \<Rightarrow> tray \<Rightarrow> tray" where
  "mt_do c s = s\<lparr>mt_trace := mt_trace s @ [Call c]\<rparr>"

definition upd_notif :: "nat \<Rightarrow> (notif \<Rightarrow> notif) \<Rightarrow> tray \<Rightarrow> tray" where
  "upd_notif n f s = s\<lparr>mt_notifs := (mt_notifs s)(n := f (mt_notifs s n))\<rparr>"

definition upd_msource :: "nat \<Rightarrow> (msource \<Rightarrow> msource) \<Rightarrow> tray \<Rightarrow> tray" where
  "upd_msource i f s = s\<lparr>mt_msources := (mt_msources s)(i := f (mt_msources s i))\<rparr>"

definition urgency_of :: "tray \<Rightarrow> nat \<Rightarrow> notif_urgency" where
  "urgency_of s n = no_urgency (mt_notifs s n)"

definition policy_of :: "tray \<Rightarrow> nat \<Rightarrow> policy" where
  "policy_of s n = ms_policy (mt_msources s (no_source (mt_notifs s n)))"

subsection \<open>The focus grabber\<close>

definition grabFocus :: "tray \<Rightarrow> tray" where
  "grabFocus s =
     (if mt_focusGrabbed s then s
      else s\<lparr>mt_prevFocus := mt_focus s, mt_focus := F_banner, mt_focusGrabbed := True\<rparr>)"

definition focusActorChanged :: "stage_focus \<Rightarrow> tray \<Rightarrow> tray" where
  "focusActorChanged f s =
     (let s1 = s\<lparr>mt_focus := f\<rparr>
      in if mt_focusGrabbed s1 \<and> f \<noteq> F_banner then s1\<lparr>mt_focusGrabbed := False\<rparr> else s1)"

definition ungrabFocus :: "tray \<Rightarrow> tray" where
  "ungrabFocus s =
     (if \<not> mt_focusGrabbed s then s
      else let s1 = s\<lparr>mt_focusGrabbed := False\<rparr>
           in if mt_prevFocus s1 \<noteq> F_none then s1\<lparr>mt_focus := mt_prevFocus s1, mt_prevFocus := F_none\<rparr>
              else if mt_focus s1 = F_banner then s1\<lparr>mt_focus := F_none\<rparr> else s1)"

subsection \<open>Timers\<close>

definition cancelNotificationTimeout :: "tray \<Rightarrow> tray" where
  "cancelNotificationTimeout s =
     (if mt_timeoutId s \<noteq> 0
      then s\<lparr>mt_trace := mt_trace s @ [SourceRemove (mt_timeoutId s)], mt_timeoutId := 0\<rparr> else s)"

definition updateNotificationTimeout :: "tray_env \<Rightarrow> int \<Rightarrow> tray \<Rightarrow> tray" where
  "updateNotificationTimeout env timeout s =
     (let s1 = cancelNotificationTimeout s
      in if timeout > 0
         then let i = te_ids env (mt_trace s1)
              in s1\<lparr>mt_timeoutId := i, mt_trace := mt_trace s1 @ [SourceAdd i timeout]\<rparr>
         else s1)"

definition resetNotificationLeftTimeout :: "tray \<Rightarrow> tray" where
  "resetNotificationLeftTimeout s =
     (let s1 = s\<lparr>mt_useLonger := False\<rparr>
      in if mt_leftTimeoutId s1 \<noteq> 0
         then s1\<lparr>mt_trace := mt_trace s1 @ [SourceRemove (mt_leftTimeoutId s1)], mt_leftTimeoutId := 0,
                 mt_leftMouse := (-1, -1)\<rparr>
         else s1)"

definition addLeftTimeout :: "tray_env \<Rightarrow> int \<Rightarrow> tray \<Rightarrow> tray" where
  "addLeftTimeout env timeout s =
     (let i = te_ids env (mt_trace s)
      in s\<lparr>mt_leftTimeoutId := i, mt_trace := mt_trace s @ [SourceAdd i timeout]\<rparr>)"

subsection \<open>Sources and notifications\<close>

definition removeSource :: "nat \<Rightarrow> tray \<Rightarrow> tray" where
  "removeSource i s = mt_do (SourceRemoved i) (s\<lparr>mt_sources := remove1 i (mt_sources s)\<rparr>)"

definition addSource :: "nat \<Rightarrow> tray \<Rightarrow> tray" where
  "addSource i s = mt_do (SourceAdded i) (s\<lparr>mt_sources := mt_sources s @ [i]\<rparr>)"

definition onSourceEnableChanged :: "nat \<Rightarrow> tray \<Rightarrow> tray" where
  "onSourceEnableChanged i s =
     (let wasEnabled = i \<in> set (mt_sources s);
          shouldBeEnabled = po_enable (ms_policy (mt_msources s i))
      in if wasEnabled \<noteq> shouldBeEnabled then if shouldBeEnabled then addSource i s else removeSource i s
         else s)"

definition mt_add :: "nat \<Rightarrow> tray \<Rightarrow> tray" where
  "mt_add i s =
     (if i \<in> set (mt_sources s) then mt_do (LogReadd i) s
      else onSourceEnableChanged i (upd_msource i (\<lambda>m. m\<lparr>ms_connected := True\<rparr>) (mt_do (PolicyStored i) s)))"

text \<open>\<open>_onNotificationRemoved\<close>, a handler: an error of \<open>_updateState\<close> is logged.\<close>

definition onNotificationRemoved :: "(tray \<Rightarrow> tray_result) \<Rightarrow> tray_env \<Rightarrow> nat \<Rightarrow> tray \<Rightarrow> tray" where
  "onNotificationRemoved upd env n s =
     (if mt_notification s = Some n
      then let s1 = s\<lparr>mt_removed := True\<rparr>
           in if mt_state s1 = TS_SHOWN \<or> mt_state s1 = TS_SHOWING
              then fst (upd (updateNotificationTimeout env 0 (s1\<lparr>mt_pointerIn := False\<rparr>)))
              else s1
      else let index = js_indexOf n (mt_queue s)
           in if index \<noteq> -1
              then mt_do QueueChanged (s\<lparr>mt_queue := js_remove_at index (mt_queue s)\<rparr>)
              else s)"

text \<open>What is left of \<open>Source.destroy\<close> when it has no notifications, with the tray's handler of \<open>destroy\<close>.\<close>

definition finishSource :: "nat \<Rightarrow> tray \<Rightarrow> tray" where
  "finishSource i s =
     (let s1 = mt_do (SourceDestroyedCall i) s;
          s2 = (if i \<in> set (mt_sources s1) then removeSource i s1 else s1)
      in upd_msource i (\<lambda>m. m\<lparr>ms_alive := False\<rparr>) s2)"

text \<open>\<open>Source._onNotificationDestroy\<close>: \<open>None\<close> stands for the error, which is logged.\<close>

definition onNotificationDestroy :: "(tray \<Rightarrow> tray_result) \<Rightarrow> tray_env \<Rightarrow> nat \<Rightarrow> tray \<Rightarrow> tray option" where
  "onNotificationDestroy upd env n s =
     (let i = no_source (mt_notifs s n)
      in if n \<notin> set (ms_notifications (mt_msources s i)) then None
         else let s1 = mt_do (NotificationRemoved n)
                         (upd_msource i (\<lambda>m. m\<lparr>ms_notifications := remove1 n (ms_notifications m)\<rparr>) s);
                  s2 = (if i \<in> set (mt_sources s1) then onNotificationRemoved upd env n s1 else s1);
                  s3 = mt_do (NotifyCount i) s2
              in if \<not> ms_inDestruction (mt_msources s3 i) \<and> ms_notifications (mt_msources s3 i) = []
                 then Some (finishSource i (upd_msource i (\<lambda>m. m\<lparr>ms_inDestruction := True\<rparr>) s3))
                 else Some s3)"

text \<open>\<open>Notification.destroy\<close>; a notification that was destroyed before has no handlers left.\<close>

definition destroyNotif :: "(tray \<Rightarrow> tray_result) \<Rightarrow> tray_env \<Rightarrow> nat \<Rightarrow> notif_reason \<Rightarrow> tray \<Rightarrow> tray" where
  "destroyNotif upd env n reason s =
     (if \<not> no_alive (mt_notifs s n) then s
      else let s1 = mt_do (NotifDestroyed n reason) s
           in upd_notif n (\<lambda>x. x\<lparr>no_alive := False\<rparr>)
                (case onNotificationDestroy upd env n s1 of None \<Rightarrow> s1 | Some s2 \<Rightarrow> s2))"

definition destroyOldest :: "(tray \<Rightarrow> tray_result) \<Rightarrow> tray_env \<Rightarrow> nat \<Rightarrow> notif_reason \<Rightarrow> tray \<Rightarrow> tray" where
  "destroyOldest upd env i reason s =
     (case ms_notifications (mt_msources s i) of [] \<Rightarrow> s | n # _ \<Rightarrow> destroyNotif upd env n reason s)"

text \<open>
  The loop of \<open>Source.destroy\<close> takes one notification from the source in each round, so that as many
  rounds as there are notifications at its start are enough.
\<close>

definition destroySource :: "(tray \<Rightarrow> tray_result) \<Rightarrow> tray_env \<Rightarrow> nat \<Rightarrow> notif_reason \<Rightarrow> tray \<Rightarrow> tray" where
  "destroySource upd env i reason s =
     (let s1 = upd_msource i (\<lambda>m. m\<lparr>ms_inDestruction := True\<rparr>) s
      in finishSource i ((destroyOldest upd env i reason ^^ length (ms_notifications (mt_msources s1 i))) s1))"

definition countUnseen :: "tray \<Rightarrow> nat \<Rightarrow> nat" where
  "countUnseen s i = length [n \<leftarrow> ms_notifications (mt_msources s i). \<not> no_acknowledged (mt_notifs s n)]"

definition narrowestPrivacyScope :: "tray \<Rightarrow> nat \<Rightarrow> privacy_scope" where
  "narrowestPrivacyScope s i =
     (if list_all (\<lambda>n. no_privacyScope (mt_notifs s n) = PS_SYSTEM) (ms_notifications (mt_msources s i))
      then PS_SYSTEM else PS_USER)"

subsection \<open>Hiding and showing the banner\<close>

definition hideNotificationCompleted :: "(tray \<Rightarrow> tray_result) \<Rightarrow> tray_env \<Rightarrow> tray \<Rightarrow> tray_result" where
  "hideNotificationCompleted upd env s =
     (let s1 = s\<lparr>mt_notification := None\<rparr>
      in tthen (if mt_removed s1 then (s1, Returned)
                else case mt_notification s of
                       None \<Rightarrow> (s1, Threw)
                     | Some n \<Rightarrow> (if no_isTransient (mt_notifs s1 n) then destroyNotif upd env n NR_EXPIRED s1 else s1, Returned))
           (\<lambda>s2. let s3 = mt_do EnableUnredirect (s2\<lparr>mt_pointerIn := False, mt_removed := False\<rparr>)
                 in case mt_banner s3 of
                      None \<Rightarrow> (s3, Threw)
                    | Some b \<Rightarrow> (mt_do (DestroyBanner (ba_notification b)) (s3\<lparr>mt_banner := None, mt_visible := False\<rparr>), Returned)))"

text \<open>The callback at the end of the transition that hides the banner.\<close>

definition hideStopped :: "(tray \<Rightarrow> tray_result) \<Rightarrow> tray_env \<Rightarrow> tray \<Rightarrow> tray_result" where
  "hideStopped upd env s = tthen (hideNotificationCompleted upd env (s\<lparr>mt_state := TS_HIDDEN\<rparr>)) upd"

text \<open>\<open>remove_all_transitions\<close>, or \<open>ease\<close> removing the transition of \<open>y\<close>: the callback runs as a handler.\<close>

definition removeTransitions :: "(tray \<Rightarrow> tray_result) \<Rightarrow> tray_env \<Rightarrow> tray \<Rightarrow> tray" where
  "removeTransitions upd env s =
     (let s1 = s\<lparr>mt_anim := TA_none\<rparr>
      in if mt_anim s = TA_hide \<and> te_stopOnRemove env then fst (hideStopped upd env s1) else s1)"

definition hideNotification :: "(tray \<Rightarrow> tray_result) \<Rightarrow> tray_env \<Rightarrow> bool \<Rightarrow> tray \<Rightarrow> tray_result" where
  "hideNotification upd env animate s =
     (let s1 = ungrabFocus s
      in case mt_banner s1 of
           None \<Rightarrow> (s1, Threw)
         | Some b \<Rightarrow>
             let s2 = s1\<lparr>mt_banner := Some (b\<lparr>ba_connected := False\<rparr>)\<rparr>;
                 s3 = removeTransitions upd env (resetNotificationLeftTimeout s2);
                 s4 = removeTransitions upd env (s3\<lparr>mt_state := TS_HIDING\<rparr>)
             in if animate \<and> te_animates env then (s4\<lparr>mt_anim := TA_hide\<rparr>, Returned)
                else hideStopped upd env s4)"

definition ensureBannerFocused :: "tray \<Rightarrow> tray" where
  "ensureBannerFocused s = grabFocus s"

definition expandBanner :: "bool \<Rightarrow> tray \<Rightarrow> tray_result" where
  "expandBanner autoExpanding s =
     (case mt_banner s of
        None \<Rightarrow> (s, Threw)
      | Some b \<Rightarrow>
          let s1 = s\<lparr>mt_banner := Some (b\<lparr>ba_expanded := True\<rparr>)\<rparr>
          in (if autoExpanding then s1 else ensureBannerFocused s1, Returned))"

definition expandActiveNotification :: "tray \<Rightarrow> tray" where
  "expandActiveNotification s = (if mt_banner s = None then s else fst (expandBanner False s))"

definition showNotificationCompleted :: "tray_env \<Rightarrow> tray \<Rightarrow> tray_result" where
  "showNotificationCompleted env s =
     (case mt_notification s of
        None \<Rightarrow> (s, Threw)
      | Some n \<Rightarrow>
          (if urgency_of s n \<noteq> NU_CRITICAL then updateNotificationTimeout env NOTIFICATION_TIMEOUT s else s, Returned))"

text \<open>The callback at the end of the transition that shows the banner, when it has finished.\<close>

definition showFinished :: "(tray \<Rightarrow> tray_result) \<Rightarrow> tray_env \<Rightarrow> tray \<Rightarrow> tray_result" where
  "showFinished upd env s = tthen (showNotificationCompleted env (s\<lparr>mt_state := TS_SHOWN\<rparr>)) upd"

definition notifPlaySound :: "nat \<Rightarrow> tray \<Rightarrow> tray" where
  "notifPlaySound n s = (if po_enableSound (policy_of s n) \<and> no_sound (mt_notifs s n) then mt_do (PlaySound n) s else s)"

definition updateShowingNotification :: "(tray \<Rightarrow> tray_result) \<Rightarrow> tray_env \<Rightarrow> tray \<Rightarrow> tray_result" where
  "updateShowingNotification upd env s =
     (case mt_notification s of
        None \<Rightarrow> (s, Threw)
      | Some n \<Rightarrow>
          let s1 = notifPlaySound n (mt_do (NotifyCount (no_source (mt_notifs s n)))
                     (upd_notif n (\<lambda>x. x\<lparr>no_acknowledged := True\<rparr>) s))
          in tthen (if urgency_of s1 n = NU_CRITICAL \<or> po_forceExpanded (policy_of s1 n) \<or> mt_touchscreen s1
                    then expandBanner True s1 else (s1, Returned))
               (\<lambda>s2. let s3 = removeTransitions upd env (s2\<lparr>mt_state := TS_SHOWING\<rparr>);
                         s4 = removeTransitions upd env s3
                     in if te_animates env then (s4\<lparr>mt_anim := TA_show\<rparr>, Returned)
                        else showFinished upd env s4))"

definition mt_showNotification :: "(tray \<Rightarrow> tray_result) \<Rightarrow> tray_env \<Rightarrow> tray \<Rightarrow> tray_result" where
  "mt_showNotification upd env s =
     (case mt_queue s of
        [] \<Rightarrow> (s, Threw)
      | n # rest \<Rightarrow>
          let s1 = mt_do QueueChanged (s\<lparr>mt_notification := Some n, mt_queue := rest\<rparr>);
              active = (te_idletime env \<le> IDLE_TIME);
              s2 = s1\<lparr>mt_userActive := active, mt_watches := (if active then mt_watches s1 else Suc (mt_watches s1)),
                      mt_banner := Some \<lparr>ba_notification = n, ba_expanded = False, ba_touched = False, ba_connected = True\<rparr>,
                      mt_visible := True\<rparr>;
              s3 = mt_do DisableUnredirect (mt_do (ShowBanner n) s2)
          in tthen (updateShowingNotification upd env s3)
               (\<lambda>s4. (resetNotificationLeftTimeout (s4\<lparr>mt_showMouse := te_pointer env, mt_lastSeen := te_pointer env\<rparr>), Returned)))"

subsection \<open>\<open>_updateState\<close>\<close>

definition updateVisible :: "tray_env \<Rightarrow> tray \<Rightarrow> tray" where
  "updateVisible env s =
     s\<lparr>mt_visible := (\<not> mt_bannerBlocked s \<and> te_hasMonitor env \<and> mt_banner s \<noteq> None)\<rparr>"

definition filterAcknowledged :: "tray \<Rightarrow> tray" where
  "filterAcknowledged s =
     (let changed = list_ex (\<lambda>n. no_acknowledged (mt_notifs s n)) (mt_queue s);
          s1 = s\<lparr>mt_queue := [n \<leftarrow> mt_queue s. \<not> no_acknowledged (mt_notifs s n)]\<rparr>
      in if changed then mt_do QueueChanged s1 else s1)"

definition hasNotifications :: "tray_env \<Rightarrow> bool" where
  "hasNotifications env \<longleftrightarrow> te_hasNotifications env \<and> \<not> te_shieldActive env"

text \<open>\<open>None\<close> where evaluating the condition throws: without a notification or a banner.\<close>

definition bannerExpired :: "tray \<Rightarrow> bool option" where
  "bannerExpired s =
     (if mt_userActive s \<and> mt_state s = TS_SHOWN \<and> mt_timeoutId s = 0
      then case mt_notification s of
             None \<Rightarrow> None
           | Some n \<Rightarrow>
               if urgency_of s n \<noteq> NU_CRITICAL \<and> \<not> mt_pointerIn s
               then map_option (\<lambda>b. \<not> ba_touched b \<or> mt_expired s) (mt_banner s)
               else Some (mt_expired s)
      else Some (mt_expired s))"

definition mayShowNext :: "tray_env \<Rightarrow> tray \<Rightarrow> nat \<Rightarrow> bool" where
  "mayShowNext env s n \<longleftrightarrow>
     \<not> (mt_busy s \<or> te_inFullscreen env) \<or> no_forFeedback (mt_notifs s n) \<or> urgency_of s n = NU_CRITICAL"

definition updateStateBody :: "(tray \<Rightarrow> tray_result) \<Rightarrow> tray_env \<Rightarrow> tray \<Rightarrow> tray_result" where
  "updateStateBody upd env s =
     (if mt_state s = TS_HIDDEN
      then if hasNotifications env \<and> mt_queue s \<noteq> [] \<and> mayShowNext env s (hd (mt_queue s))
           then mt_showNotification upd env s else (s, Returned)
      else if mt_state s = TS_SHOWING \<or> mt_state s = TS_SHOWN
      then case bannerExpired s of
             None \<Rightarrow> (s, Threw)
           | Some expired \<Rightarrow>
               if mt_removed s \<or> \<not> hasNotifications env \<or> expired
               then hideNotification upd env (hasNotifications env \<and> \<not> mt_removed s) s
               else if mt_state s = TS_SHOWN \<and> mt_pointerIn s
               then (case mt_banner s of
                       None \<Rightarrow> (s, Threw)
                     | Some b \<Rightarrow> if \<not> ba_expanded b then expandBanner False s else (ensureBannerFocused s, Returned))
               else (s, Returned)
      else (s, Returned))"

text \<open>\<open>_updateState\<close> when it is called while it runs.\<close>

definition updateStateNested :: "tray_env \<Rightarrow> tray \<Rightarrow> tray_result" where
  "updateStateNested env s = (updateVisible env s, Returned)"

definition mt_updateState :: "tray_env \<Rightarrow> tray \<Rightarrow> tray_result" where
  "mt_updateState env s =
     (let s1 = updateVisible env s
      in if mt_bannerBlocked s1 \<or> \<not> te_hasMonitor env \<or> mt_updating s1 then (s1, Returned)
         else tthen (updateStateBody (updateStateNested env) env (filterAcknowledged (s1\<lparr>mt_updating := True\<rparr>)))
                (\<lambda>s2. (s2\<lparr>mt_updating := False, mt_expired := False\<rparr>, Returned)))"

subsection \<open>Handlers\<close>

text \<open>The notification joins the queue unless the queue is full.\<close>

definition enqueueBanner :: "nat \<Rightarrow> tray \<Rightarrow> tray" where
  "enqueueBanner n s =
     (let bannerCount = (if mt_notification s \<noteq> None then 1 else 0);
          full = length (mt_queue s) + bannerCount \<ge> MAX_NOTIFICATIONS_IN_QUEUE
      in if \<not> full \<or> urgency_of s n = NU_CRITICAL
         then mt_do QueueChanged
                (s\<lparr>mt_queue := sort_key (\<lambda>m. - urgency_num (urgency_of s m)) (mt_queue s @ [n])\<rparr>)
         else s)"

definition onNotificationRequestBanner :: "tray_env \<Rightarrow> nat \<Rightarrow> tray \<Rightarrow> tray_result" where
  "onNotificationRequestBanner env n s =
     (if no_acknowledged (mt_notifs s n) then (s, Returned)
      else if urgency_of s n = NU_LOW then (s, Returned)
      else if \<not> po_showBanners (policy_of s n) \<and> urgency_of s n \<noteq> NU_CRITICAL then (s, Returned)
      else tthen (if mt_notification s = Some n then updateShowingNotification (mt_updateState env) env s
                  else if n \<notin> set (mt_queue s)
                  then (enqueueBanner n s, Returned) else (s, Returned))
             (mt_updateState env))"

text \<open>The handler of \<open>notify::acknowledged\<close> that the source connects, after the property was set.\<close>

definition setAcknowledged :: "tray_env \<Rightarrow> nat \<Rightarrow> bool \<Rightarrow> tray \<Rightarrow> tray" where
  "setAcknowledged env n ack s =
     (let s1 = upd_notif n (\<lambda>x. x\<lparr>no_acknowledged := ack\<rparr>) s;
          i = no_source (mt_notifs s1 n)
      in if \<not> no_added (mt_notifs s1 n) then s1
         else let s2 = mt_do (NotifyCount i) s1
              in if \<not> ack \<and> i \<in> set (mt_sources s2) then fst (onNotificationRequestBanner env n s2) else s2)"

text \<open>\<open>Source.addNotification\<close>; its loop drops one notification in each round.\<close>

definition addNotification :: "tray_env \<Rightarrow> nat \<Rightarrow> nat \<Rightarrow> tray \<Rightarrow> tray" where
  "addNotification env i n s =
     (if n \<in> set (ms_notifications (mt_msources s i)) then s
      else let s1 = (destroyOldest (mt_updateState env) env i NR_EXPIRED
                       ^^ (Suc (length (ms_notifications (mt_msources s i))) - MAX_NOTIFICATIONS_PER_SOURCE)) s;
               s2 = mt_do (NotificationAdded n)
                      (upd_msource i (\<lambda>m. m\<lparr>ms_notifications := ms_notifications m @ [n]\<rparr>)
                        (upd_notif n (\<lambda>x. x\<lparr>no_added := True\<rparr>) s1));
               s3 = (if i \<in> set (mt_sources s2) then fst (onNotificationRequestBanner env n s2) else s2)
           in mt_do (NotifyCount i) s3)"

definition destroyNonResidentNotifications :: "tray_env \<Rightarrow> nat \<Rightarrow> tray \<Rightarrow> tray" where
  "destroyNonResidentNotifications env i s =
     fold (\<lambda>k s. let ns = ms_notifications (mt_msources s i)
                  in if k < length ns \<and> \<not> no_resident (mt_notifs s (ns ! k))
                     then destroyNotif (mt_updateState env) env (ns ! k) NR_DISMISSED s else s)
       (rev [0..<length (ms_notifications (mt_msources s i))]) s"

definition notifActivate :: "tray_env \<Rightarrow> nat \<Rightarrow> tray \<Rightarrow> tray" where
  "notifActivate env n s =
     (let s1 = mt_do (ActivatedCall n) s
      in if no_resident (mt_notifs s1 n) then s1 else destroyNotif (mt_updateState env) env n NR_DISMISSED s1)"

definition addAction :: "nat \<Rightarrow> nat \<Rightarrow> tray \<Rightarrow> tray" where
  "addAction n a s = mt_do (ActionAdded n a) (upd_notif n (\<lambda>x. x\<lparr>no_actions := no_actions x @ [a]\<rparr>) s)"

text \<open>\<open>removeAction\<close>: \<open>None\<close> for the error.\<close>

definition removeAction :: "nat \<Rightarrow> nat \<Rightarrow> tray \<Rightarrow> tray option" where
  "removeAction n a s =
     (let index = js_indexOf a (no_actions (mt_notifs s n))
      in if index < 0 then None
         else Some (mt_do (ActionRemoved n a) (upd_notif n (\<lambda>x. x\<lparr>no_actions := js_remove_at index (no_actions x)\<rparr>) s)))"

definition clearActions :: "nat \<Rightarrow> tray \<Rightarrow> tray" where
  "clearActions n s =
     (if no_actions (mt_notifs s n) = [] then s
      else upd_notif n (\<lambda>x. x\<lparr>no_actions := []\<rparr>)
             (fold (\<lambda>a. mt_do (ActionRemoved n a)) (no_actions (mt_notifs s n)) s))"

text \<open>The callback that \<open>addAction\<close> gives to an action.\<close>

definition actionActivated :: "tray_env \<Rightarrow> nat \<Rightarrow> nat \<Rightarrow> tray \<Rightarrow> tray" where
  "actionActivated env n a s =
     (let s1 = mt_do (ActionCallback n a) s
      in if no_resident (mt_notifs s1 n) then s1 else destroyNotif (mt_updateState env) env n NR_DISMISSED s1)"

definition setUrgency :: "nat \<Rightarrow> notif_urgency \<Rightarrow> tray \<Rightarrow> tray" where
  "setUrgency n u s = upd_notif n (\<lambda>x. x\<lparr>no_urgency := u\<rparr>) s"

definition setPrivacyScope :: "nat \<Rightarrow> privacy_scope \<Rightarrow> tray \<Rightarrow> tray" where
  "setPrivacyScope n p s = upd_notif n (\<lambda>x. x\<lparr>no_privacyScope := p\<rparr>) s"

definition expireNotification :: "tray_env \<Rightarrow> tray \<Rightarrow> tray" where
  "expireNotification env s = fst (mt_updateState env (s\<lparr>mt_expired := True\<rparr>))"

definition setBannerBlocked :: "tray_env \<Rightarrow> bool \<Rightarrow> tray \<Rightarrow> tray" where
  "setBannerBlocked env v s =
     (if mt_bannerBlocked s = v then s else fst (mt_updateState env (s\<lparr>mt_bannerBlocked := v\<rparr>)))"

text \<open>A key of the policy of a source changes: \<open>notify::enable\<close>, then \<open>notify\<close>.\<close>

definition policyChanged :: "tray_env \<Rightarrow> nat \<Rightarrow> policy \<Rightarrow> tray \<Rightarrow> tray" where
  "policyChanged env i p s =
     (if \<not> ms_alive (mt_msources s i) then s
      else if \<not> ms_connected (mt_msources s i) then upd_msource i (\<lambda>m. m\<lparr>ms_policy := p\<rparr>) s
      else let enableChanged = po_enable p \<noteq> po_enable (ms_policy (mt_msources s i));
               s1 = upd_msource i (\<lambda>m. m\<lparr>ms_policy := p\<rparr>) s
           in fst (mt_updateState env (if enableChanged then onSourceEnableChanged i s1 else s1)))"

definition onNotificationHoverChanged :: "tray_env \<Rightarrow> bool \<Rightarrow> tray \<Rightarrow> tray" where
  "onNotificationHoverChanged env hover s =
     (if hover = mt_hovered s then s
      else let s1 = s\<lparr>mt_hovered := hover\<rparr>
           in if hover
              then let s2 = resetNotificationLeftTimeout s1;
                       shown = fst (mt_showMouse s2) \<ge> 0;
                       s3 = (if shown then s2\<lparr>mt_showMouse := (-1, -1)\<rparr> else s2)
                   in if shown \<and> te_bannerAtShow env then s3\<lparr>mt_useLonger := True\<rparr>
                      else fst (mt_updateState env (s3\<lparr>mt_pointerIn := True\<rparr>))
              else addLeftTimeout env (if mt_useLonger s1 then LONGER_HIDE_TIMEOUT else HIDE_TIMEOUT)
                     (s1\<lparr>mt_leftMouse := te_pointer env\<rparr>))"

datatype presence = PR_AVAILABLE | PR_INVISIBLE | PR_BUSY | PR_IDLE

definition onStatusChanged :: "tray_env \<Rightarrow> presence \<Rightarrow> tray \<Rightarrow> tray" where
  "onStatusChanged env status s =
     fst (mt_updateState env
            (if status = PR_BUSY then (updateNotificationTimeout env 0 s)\<lparr>mt_busy := True\<rparr>
             else if status \<noteq> PR_IDLE then s\<lparr>mt_busy := False\<rparr> else s))"

text \<open>The callback of the timer \<open>_notificationLeftTimeoutId\<close>.\<close>

definition onNotificationLeftTimeout :: "tray_env \<Rightarrow> tray \<Rightarrow> tray" where
  "onNotificationLeftTimeout env s =
     (let (x, y) = te_pointer env; (lx, ly) = mt_leftMouse s; i = mt_leftTimeoutId s
      in if lx > -1 \<and> y < ly + MOUSE_LEFT_ACTOR_THRESHOLD \<and> y > ly - MOUSE_LEFT_ACTOR_THRESHOLD
            \<and> x < lx + MOUSE_LEFT_ACTOR_THRESHOLD \<and> x > lx - MOUSE_LEFT_ACTOR_THRESHOLD
         then let s1 = addLeftTimeout env LONGER_HIDE_TIMEOUT (s\<lparr>mt_leftMouse := (-1, ly)\<rparr>)
              in s1\<lparr>mt_trace := mt_trace s1 @ [SourceFired i]\<rparr>
         else let s1 = s\<lparr>mt_leftTimeoutId := 0, mt_trace := mt_trace s @ [SourceFired i],
                         mt_useLonger := False, mt_pointerIn := False\<rparr>
              in fst (mt_updateState env (updateNotificationTimeout env 0 s1)))"

definition onIdleMonitorBecameActive :: "tray_env \<Rightarrow> tray \<Rightarrow> tray" where
  "onIdleMonitorBecameActive env s =
     fst (mt_updateState env (updateNotificationTimeout env 2000 (s\<lparr>mt_userActive := True\<rparr>)))"

text \<open>The callback of the timer \<open>_notificationTimeoutId\<close>.\<close>

definition notificationTimeout :: "tray_env \<Rightarrow> tray \<Rightarrow> tray" where
  "notificationTimeout env s =
     (let (x, y) = te_pointer env; (lx, ly) = mt_lastSeen s;
          s1 = (if y < ly - 10 \<and> \<not> mt_hovered s then updateNotificationTimeout env 1000 s
                else if mt_useLonger s \<and> mt_leftTimeoutId s = 0 \<and> (x \<noteq> lx \<or> y \<noteq> ly)
                then updateNotificationTimeout env 1000 s
                else fst (mt_updateState env
                       (s\<lparr>mt_timeoutId := 0, mt_trace := mt_trace s @ [SourceFired (mt_timeoutId s)]\<rparr>)))
      in s1\<lparr>mt_lastSeen := (x, y)\<rparr>)"

definition lastDeviceChanged :: "bool option \<Rightarrow> tray \<Rightarrow> tray" where
  "lastDeviceChanged touch s = (case touch of None \<Rightarrow> s | Some t \<Rightarrow> s\<lparr>mt_touchscreen := t\<rparr>)"

text \<open>The end of the transition of \<open>y\<close>.\<close>

definition animDone :: "tray_env \<Rightarrow> tray \<Rightarrow> tray" where
  "animDone env s =
     (let s1 = s\<lparr>mt_anim := TA_none\<rparr>
      in case mt_anim s of
           TA_none \<Rightarrow> s
         | TA_show \<Rightarrow> fst (showFinished (mt_updateState env) env s1)
         | TA_hide \<Rightarrow> fst (hideStopped (mt_updateState env) env s1))"

text \<open>The banner is swiped away (\<open>hide-message\<close>), while its handler is connected.\<close>

definition onHideMessage :: "tray_env \<Rightarrow> tray \<Rightarrow> tray" where
  "onHideMessage env s =
     (case mt_banner s of
        None \<Rightarrow> s
      | Some b \<Rightarrow> if ba_connected b then fst (hideNotification (mt_updateState env) env False s) else s)"

subsection \<open>Events\<close>

datatype tray_event =
    TeAddSource nat | TeNotify nat | TeAcknowledge nat bool | TeSetUrgency nat notif_urgency
  | TeSetPrivacy nat privacy_scope | TeAddAction nat nat | TeRemoveAction nat nat | TeClearActions nat
  | TeActivate nat | TeAction nat nat | TeDestroy nat notif_reason | TeDestroySource nat notif_reason
  | TeDestroyNonResident nat | TePolicy nat policy | TeUpdate | TeExpire | TeBlock bool | TeHover bool
  | TeStatus presence | TeLeftTimeout | TeTimeout | TeUserActive | TeDevice "bool option" | TeAnimDone
  | TeHideMessage | TeTouchBanner | TeExpand | TeFocus stage_focus

text \<open>
  \<open>TeUpdate\<close> stands for \<open>in-fullscreen-changed\<close> and \<open>updated\<close> of the session mode. A timer, a
  watch and an object that do not exist (any more) have no event; a notification is added to its
  source once.
\<close>

fun tray_step :: "tray_env \<Rightarrow> tray_event \<Rightarrow> tray \<Rightarrow> tray" where
  "tray_step env (TeAddSource i) s = (if ms_alive (mt_msources s i) then mt_add i s else s)"
| "tray_step env (TeNotify n) s =
     (if no_alive (mt_notifs s n) \<and> \<not> no_added (mt_notifs s n) \<and> ms_alive (mt_msources s (no_source (mt_notifs s n)))
      then addNotification env (no_source (mt_notifs s n)) n s else s)"
| "tray_step env (TeAcknowledge n b) s = (if no_alive (mt_notifs s n) then setAcknowledged env n b s else s)"
| "tray_step env (TeSetUrgency n u) s = setUrgency n u s"
| "tray_step env (TeSetPrivacy n p) s = setPrivacyScope n p s"
| "tray_step env (TeAddAction n a) s = addAction n a s"
| "tray_step env (TeRemoveAction n a) s = (case removeAction n a s of None \<Rightarrow> s | Some s1 \<Rightarrow> s1)"
| "tray_step env (TeClearActions n) s = clearActions n s"
| "tray_step env (TeActivate n) s = notifActivate env n s"
| "tray_step env (TeAction n a) s = (if a \<in> set (no_actions (mt_notifs s n)) then actionActivated env n a s else s)"
| "tray_step env (TeDestroy n r) s = destroyNotif (mt_updateState env) env n r s"
| "tray_step env (TeDestroySource i r) s =
     (if ms_alive (mt_msources s i) then destroySource (mt_updateState env) env i r s else s)"
| "tray_step env (TeDestroyNonResident i) s = destroyNonResidentNotifications env i s"
| "tray_step env (TePolicy i p) s = policyChanged env i p s"
| "tray_step env TeUpdate s = fst (mt_updateState env s)"
| "tray_step env TeExpire s = expireNotification env s"
| "tray_step env (TeBlock v) s = setBannerBlocked env v s"
| "tray_step env (TeHover v) s = onNotificationHoverChanged env v s"
| "tray_step env (TeStatus p) s = onStatusChanged env p s"
| "tray_step env TeLeftTimeout s = (if mt_leftTimeoutId s = 0 then s else onNotificationLeftTimeout env s)"
| "tray_step env TeTimeout s = (if mt_timeoutId s = 0 then s else notificationTimeout env s)"
| "tray_step env TeUserActive s =
     (case mt_watches s of 0 \<Rightarrow> s | Suc k \<Rightarrow> onIdleMonitorBecameActive env (s\<lparr>mt_watches := k\<rparr>))"
| "tray_step env (TeDevice d) s = lastDeviceChanged d s"
| "tray_step env TeAnimDone s = animDone env s"
| "tray_step env TeHideMessage s = onHideMessage env s"
| "tray_step env TeTouchBanner s = s\<lparr>mt_banner := map_option (\<lambda>b. b\<lparr>ba_touched := True\<rparr>) (mt_banner s)\<rparr>"
| "tray_step env TeExpand s = expandActiveNotification s"
| "tray_step env (TeFocus f) s = (if f = F_banner \<and> mt_banner s = None then s else focusActorChanged f s)"

definition tray_run :: "(tray_env \<times> tray_event) list \<Rightarrow> tray \<Rightarrow> tray" where
  "tray_run evs s = fold (\<lambda>(env, ev). tray_step env ev) evs s"

definition newTray :: "tray_env \<Rightarrow> (nat \<Rightarrow> notif) \<Rightarrow> (nat \<Rightarrow> msource) \<Rightarrow> tray" where
  "newTray env ns ms = fst (mt_updateState env
     \<lparr>mt_notifs = ns, mt_msources = ms, mt_sources = [], mt_busy = False, mt_bannerBlocked = False,
      mt_queue = [], mt_notification = None, mt_banner = None, mt_userActive = False, mt_watches = 0,
      mt_useLonger = False, mt_pointerIn = False, mt_hovered = False, mt_state = TS_HIDDEN, mt_timeoutId = 0,
      mt_leftTimeoutId = 0, mt_removed = False, mt_expired = False, mt_updating = False, mt_touchscreen = False,
      mt_leftMouse = (-1, -1), mt_showMouse = (-1, -1), mt_lastSeen = (0, 0), mt_anim = TA_none,
      mt_visible = False, mt_focus = F_none, mt_focusGrabbed = False, mt_prevFocus = F_none, mt_trace = []\<rparr>)"

end
