(* ===== verification/TrayProps.thy ===== *)
theory TrayProps
  imports MessageTray
begin

section \<open>Properties of the message tray\<close>

text \<open>
  What \<open>_updateState\<close> promises to the functions that call it back is the interface \<open>update_state\<close>;
  it is met by \<open>_updateState\<close> itself and by its entry while it runs. From it follow the consistency
  of the banner, the transition and the state in every reachable state, and the accounting of
  the two timers. Then what the queue does: its order, its bound, how it advances; and
  the ways in which it does not.
\<close>

subsection \<open>Frames\<close>

text \<open>The fields that the small operations leave alone.\<close>

lemma mt_do_frame [simp]:
  "mt_state (mt_do c s) = mt_state s" "mt_notification (mt_do c s) = mt_notification s"
  "mt_anim (mt_do c s) = mt_anim s" "mt_removed (mt_do c s) = mt_removed s"
  "mt_queue (mt_do c s) = mt_queue s" "mt_updating (mt_do c s) = mt_updating s"
  "mt_bannerBlocked (mt_do c s) = mt_bannerBlocked s" "mt_userActive (mt_do c s) = mt_userActive s"
  "mt_pointerIn (mt_do c s) = mt_pointerIn s" "mt_expired (mt_do c s) = mt_expired s"
  "mt_hovered (mt_do c s) = mt_hovered s" "mt_banner (mt_do c s) = mt_banner s"
  "mt_timeoutId (mt_do c s) = mt_timeoutId s" "mt_leftTimeoutId (mt_do c s) = mt_leftTimeoutId s"
  "mt_notifs (mt_do c s) = mt_notifs s" "mt_msources (mt_do c s) = mt_msources s"
  "mt_sources (mt_do c s) = mt_sources s"
  by (simp_all add: mt_do_def)

lemma upd_notif_frame [simp]:
  "mt_state (upd_notif n f s) = mt_state s" "mt_notification (upd_notif n f s) = mt_notification s"
  "mt_anim (upd_notif n f s) = mt_anim s" "mt_removed (upd_notif n f s) = mt_removed s"
  "mt_queue (upd_notif n f s) = mt_queue s" "mt_updating (upd_notif n f s) = mt_updating s"
  "mt_bannerBlocked (upd_notif n f s) = mt_bannerBlocked s" "mt_userActive (upd_notif n f s) = mt_userActive s"
  "mt_pointerIn (upd_notif n f s) = mt_pointerIn s" "mt_expired (upd_notif n f s) = mt_expired s"
  "mt_hovered (upd_notif n f s) = mt_hovered s" "mt_banner (upd_notif n f s) = mt_banner s"
  "mt_timeoutId (upd_notif n f s) = mt_timeoutId s" "mt_leftTimeoutId (upd_notif n f s) = mt_leftTimeoutId s"
  "mt_trace (upd_notif n f s) = mt_trace s" "mt_msources (upd_notif n f s) = mt_msources s"
  "mt_sources (upd_notif n f s) = mt_sources s"
  by (simp_all add: upd_notif_def)

lemma upd_msource_frame [simp]:
  "mt_state (upd_msource n g s) = mt_state s" "mt_notification (upd_msource n g s) = mt_notification s"
  "mt_anim (upd_msource n g s) = mt_anim s" "mt_removed (upd_msource n g s) = mt_removed s"
  "mt_queue (upd_msource n g s) = mt_queue s" "mt_updating (upd_msource n g s) = mt_updating s"
  "mt_bannerBlocked (upd_msource n g s) = mt_bannerBlocked s" "mt_userActive (upd_msource n g s) = mt_userActive s"
  "mt_pointerIn (upd_msource n g s) = mt_pointerIn s" "mt_expired (upd_msource n g s) = mt_expired s"
  "mt_hovered (upd_msource n g s) = mt_hovered s" "mt_banner (upd_msource n g s) = mt_banner s"
  "mt_timeoutId (upd_msource n g s) = mt_timeoutId s" "mt_leftTimeoutId (upd_msource n g s) = mt_leftTimeoutId s"
  "mt_trace (upd_msource n g s) = mt_trace s" "mt_notifs (upd_msource n g s) = mt_notifs s"
  "mt_sources (upd_msource n g s) = mt_sources s"
  by (simp_all add: upd_msource_def)

lemma grabFocus_frame [simp]:
  "mt_state (grabFocus s) = mt_state s" "mt_notification (grabFocus s) = mt_notification s"
  "mt_anim (grabFocus s) = mt_anim s" "mt_removed (grabFocus s) = mt_removed s"
  "mt_queue (grabFocus s) = mt_queue s" "mt_updating (grabFocus s) = mt_updating s"
  "mt_bannerBlocked (grabFocus s) = mt_bannerBlocked s" "mt_userActive (grabFocus s) = mt_userActive s"
  "mt_pointerIn (grabFocus s) = mt_pointerIn s" "mt_expired (grabFocus s) = mt_expired s"
  "mt_hovered (grabFocus s) = mt_hovered s" "mt_banner (grabFocus s) = mt_banner s"
  "mt_timeoutId (grabFocus s) = mt_timeoutId s" "mt_leftTimeoutId (grabFocus s) = mt_leftTimeoutId s"
  "mt_trace (grabFocus s) = mt_trace s" "mt_notifs (grabFocus s) = mt_notifs s"
  "mt_msources (grabFocus s) = mt_msources s" "mt_sources (grabFocus s) = mt_sources s"
  by (simp_all add: grabFocus_def Let_def)

lemma focusActorChanged_frame [simp]:
  "mt_state (focusActorChanged x s) = mt_state s" "mt_notification (focusActorChanged x s) = mt_notification s"
  "mt_anim (focusActorChanged x s) = mt_anim s" "mt_removed (focusActorChanged x s) = mt_removed s"
  "mt_queue (focusActorChanged x s) = mt_queue s" "mt_updating (focusActorChanged x s) = mt_updating s"
  "mt_bannerBlocked (focusActorChanged x s) = mt_bannerBlocked s" "mt_userActive (focusActorChanged x s) = mt_userActive s"
  "mt_pointerIn (focusActorChanged x s) = mt_pointerIn s" "mt_expired (focusActorChanged x s) = mt_expired s"
  "mt_hovered (focusActorChanged x s) = mt_hovered s" "mt_banner (focusActorChanged x s) = mt_banner s"
  "mt_timeoutId (focusActorChanged x s) = mt_timeoutId s" "mt_leftTimeoutId (focusActorChanged x s) = mt_leftTimeoutId s"
  "mt_trace (focusActorChanged x s) = mt_trace s" "mt_notifs (focusActorChanged x s) = mt_notifs s"
  "mt_msources (focusActorChanged x s) = mt_msources s" "mt_sources (focusActorChanged x s) = mt_sources s"
  by (simp_all add: focusActorChanged_def Let_def)

lemma ungrabFocus_frame [simp]:
  "mt_state (ungrabFocus s) = mt_state s" "mt_notification (ungrabFocus s) = mt_notification s"
  "mt_anim (ungrabFocus s) = mt_anim s" "mt_removed (ungrabFocus s) = mt_removed s"
  "mt_queue (ungrabFocus s) = mt_queue s" "mt_updating (ungrabFocus s) = mt_updating s"
  "mt_bannerBlocked (ungrabFocus s) = mt_bannerBlocked s" "mt_userActive (ungrabFocus s) = mt_userActive s"
  "mt_pointerIn (ungrabFocus s) = mt_pointerIn s" "mt_expired (ungrabFocus s) = mt_expired s"
  "mt_hovered (ungrabFocus s) = mt_hovered s" "mt_banner (ungrabFocus s) = mt_banner s"
  "mt_timeoutId (ungrabFocus s) = mt_timeoutId s" "mt_leftTimeoutId (ungrabFocus s) = mt_leftTimeoutId s"
  "mt_trace (ungrabFocus s) = mt_trace s" "mt_notifs (ungrabFocus s) = mt_notifs s"
  "mt_msources (ungrabFocus s) = mt_msources s" "mt_sources (ungrabFocus s) = mt_sources s"
  by (simp_all add: ungrabFocus_def Let_def)

lemma cancelNotificationTimeout_frame [simp]:
  "mt_state (cancelNotificationTimeout s) = mt_state s" "mt_notification (cancelNotificationTimeout s) = mt_notification s"
  "mt_anim (cancelNotificationTimeout s) = mt_anim s" "mt_removed (cancelNotificationTimeout s) = mt_removed s"
  "mt_queue (cancelNotificationTimeout s) = mt_queue s" "mt_updating (cancelNotificationTimeout s) = mt_updating s"
  "mt_bannerBlocked (cancelNotificationTimeout s) = mt_bannerBlocked s" "mt_userActive (cancelNotificationTimeout s) = mt_userActive s"
  "mt_pointerIn (cancelNotificationTimeout s) = mt_pointerIn s" "mt_expired (cancelNotificationTimeout s) = mt_expired s"
  "mt_hovered (cancelNotificationTimeout s) = mt_hovered s" "mt_banner (cancelNotificationTimeout s) = mt_banner s"
  "mt_leftTimeoutId (cancelNotificationTimeout s) = mt_leftTimeoutId s" "mt_notifs (cancelNotificationTimeout s) = mt_notifs s"
  "mt_msources (cancelNotificationTimeout s) = mt_msources s" "mt_sources (cancelNotificationTimeout s) = mt_sources s"
  by (simp_all add: cancelNotificationTimeout_def)

lemma updateNotificationTimeout_frame [simp]:
  "mt_state (updateNotificationTimeout env t s) = mt_state s" "mt_notification (updateNotificationTimeout env t s) = mt_notification s"
  "mt_anim (updateNotificationTimeout env t s) = mt_anim s" "mt_removed (updateNotificationTimeout env t s) = mt_removed s"
  "mt_queue (updateNotificationTimeout env t s) = mt_queue s" "mt_updating (updateNotificationTimeout env t s) = mt_updating s"
  "mt_bannerBlocked (updateNotificationTimeout env t s) = mt_bannerBlocked s" "mt_userActive (updateNotificationTimeout env t s) = mt_userActive s"
  "mt_pointerIn (updateNotificationTimeout env t s) = mt_pointerIn s" "mt_expired (updateNotificationTimeout env t s) = mt_expired s"
  "mt_hovered (updateNotificationTimeout env t s) = mt_hovered s" "mt_banner (updateNotificationTimeout env t s) = mt_banner s"
  "mt_leftTimeoutId (updateNotificationTimeout env t s) = mt_leftTimeoutId s" "mt_notifs (updateNotificationTimeout env t s) = mt_notifs s"
  "mt_msources (updateNotificationTimeout env t s) = mt_msources s" "mt_sources (updateNotificationTimeout env t s) = mt_sources s"
  by (simp_all add: updateNotificationTimeout_def Let_def)

lemma resetLeft_frame [simp]:
  "mt_state (resetNotificationLeftTimeout s) = mt_state s" "mt_notification (resetNotificationLeftTimeout s) = mt_notification s"
  "mt_anim (resetNotificationLeftTimeout s) = mt_anim s" "mt_removed (resetNotificationLeftTimeout s) = mt_removed s"
  "mt_queue (resetNotificationLeftTimeout s) = mt_queue s" "mt_updating (resetNotificationLeftTimeout s) = mt_updating s"
  "mt_bannerBlocked (resetNotificationLeftTimeout s) = mt_bannerBlocked s" "mt_userActive (resetNotificationLeftTimeout s) = mt_userActive s"
  "mt_pointerIn (resetNotificationLeftTimeout s) = mt_pointerIn s" "mt_expired (resetNotificationLeftTimeout s) = mt_expired s"
  "mt_hovered (resetNotificationLeftTimeout s) = mt_hovered s" "mt_banner (resetNotificationLeftTimeout s) = mt_banner s"
  "mt_timeoutId (resetNotificationLeftTimeout s) = mt_timeoutId s" "mt_notifs (resetNotificationLeftTimeout s) = mt_notifs s"
  "mt_msources (resetNotificationLeftTimeout s) = mt_msources s" "mt_sources (resetNotificationLeftTimeout s) = mt_sources s"
  by (simp_all add: resetNotificationLeftTimeout_def Let_def)

lemma addLeft_frame [simp]:
  "mt_state (addLeftTimeout env t s) = mt_state s" "mt_notification (addLeftTimeout env t s) = mt_notification s"
  "mt_anim (addLeftTimeout env t s) = mt_anim s" "mt_removed (addLeftTimeout env t s) = mt_removed s"
  "mt_queue (addLeftTimeout env t s) = mt_queue s" "mt_updating (addLeftTimeout env t s) = mt_updating s"
  "mt_bannerBlocked (addLeftTimeout env t s) = mt_bannerBlocked s" "mt_userActive (addLeftTimeout env t s) = mt_userActive s"
  "mt_pointerIn (addLeftTimeout env t s) = mt_pointerIn s" "mt_expired (addLeftTimeout env t s) = mt_expired s"
  "mt_hovered (addLeftTimeout env t s) = mt_hovered s" "mt_banner (addLeftTimeout env t s) = mt_banner s"
  "mt_timeoutId (addLeftTimeout env t s) = mt_timeoutId s" "mt_notifs (addLeftTimeout env t s) = mt_notifs s"
  "mt_msources (addLeftTimeout env t s) = mt_msources s" "mt_sources (addLeftTimeout env t s) = mt_sources s"
  by (simp_all add: addLeftTimeout_def Let_def)

lemma removeSource_frame [simp]:
  "mt_state (removeSource i s) = mt_state s" "mt_notification (removeSource i s) = mt_notification s"
  "mt_anim (removeSource i s) = mt_anim s" "mt_removed (removeSource i s) = mt_removed s"
  "mt_queue (removeSource i s) = mt_queue s" "mt_updating (removeSource i s) = mt_updating s"
  "mt_bannerBlocked (removeSource i s) = mt_bannerBlocked s" "mt_userActive (removeSource i s) = mt_userActive s"
  "mt_pointerIn (removeSource i s) = mt_pointerIn s" "mt_expired (removeSource i s) = mt_expired s"
  "mt_hovered (removeSource i s) = mt_hovered s" "mt_banner (removeSource i s) = mt_banner s"
  "mt_timeoutId (removeSource i s) = mt_timeoutId s" "mt_leftTimeoutId (removeSource i s) = mt_leftTimeoutId s"
  "mt_notifs (removeSource i s) = mt_notifs s" "mt_msources (removeSource i s) = mt_msources s"
  by (simp_all add: removeSource_def)

lemma addSource_frame [simp]:
  "mt_state (addSource i s) = mt_state s" "mt_notification (addSource i s) = mt_notification s"
  "mt_anim (addSource i s) = mt_anim s" "mt_removed (addSource i s) = mt_removed s"
  "mt_queue (addSource i s) = mt_queue s" "mt_updating (addSource i s) = mt_updating s"
  "mt_bannerBlocked (addSource i s) = mt_bannerBlocked s" "mt_userActive (addSource i s) = mt_userActive s"
  "mt_pointerIn (addSource i s) = mt_pointerIn s" "mt_expired (addSource i s) = mt_expired s"
  "mt_hovered (addSource i s) = mt_hovered s" "mt_banner (addSource i s) = mt_banner s"
  "mt_timeoutId (addSource i s) = mt_timeoutId s" "mt_leftTimeoutId (addSource i s) = mt_leftTimeoutId s"
  "mt_notifs (addSource i s) = mt_notifs s" "mt_msources (addSource i s) = mt_msources s"
  by (simp_all add: addSource_def)

lemma onSourceEnableChanged_frame [simp]:
  "mt_state (onSourceEnableChanged i s) = mt_state s" "mt_notification (onSourceEnableChanged i s) = mt_notification s"
  "mt_anim (onSourceEnableChanged i s) = mt_anim s" "mt_removed (onSourceEnableChanged i s) = mt_removed s"
  "mt_queue (onSourceEnableChanged i s) = mt_queue s" "mt_updating (onSourceEnableChanged i s) = mt_updating s"
  "mt_bannerBlocked (onSourceEnableChanged i s) = mt_bannerBlocked s" "mt_userActive (onSourceEnableChanged i s) = mt_userActive s"
  "mt_pointerIn (onSourceEnableChanged i s) = mt_pointerIn s" "mt_expired (onSourceEnableChanged i s) = mt_expired s"
  "mt_hovered (onSourceEnableChanged i s) = mt_hovered s" "mt_banner (onSourceEnableChanged i s) = mt_banner s"
  "mt_timeoutId (onSourceEnableChanged i s) = mt_timeoutId s" "mt_leftTimeoutId (onSourceEnableChanged i s) = mt_leftTimeoutId s"
  "mt_notifs (onSourceEnableChanged i s) = mt_notifs s" "mt_msources (onSourceEnableChanged i s) = mt_msources s"
  by (simp_all add: onSourceEnableChanged_def Let_def)

lemma finishSource_frame [simp]:
  "mt_state (finishSource i s) = mt_state s" "mt_notification (finishSource i s) = mt_notification s"
  "mt_anim (finishSource i s) = mt_anim s" "mt_removed (finishSource i s) = mt_removed s"
  "mt_queue (finishSource i s) = mt_queue s" "mt_updating (finishSource i s) = mt_updating s"
  "mt_bannerBlocked (finishSource i s) = mt_bannerBlocked s" "mt_userActive (finishSource i s) = mt_userActive s"
  "mt_pointerIn (finishSource i s) = mt_pointerIn s" "mt_expired (finishSource i s) = mt_expired s"
  "mt_hovered (finishSource i s) = mt_hovered s" "mt_banner (finishSource i s) = mt_banner s"
  "mt_timeoutId (finishSource i s) = mt_timeoutId s" "mt_leftTimeoutId (finishSource i s) = mt_leftTimeoutId s"
  "mt_notifs (finishSource i s) = mt_notifs s"
  by (simp_all add: finishSource_def Let_def)

lemma notifPlaySound_frame [simp]:
  "mt_state (notifPlaySound n s) = mt_state s" "mt_notification (notifPlaySound n s) = mt_notification s"
  "mt_anim (notifPlaySound n s) = mt_anim s" "mt_removed (notifPlaySound n s) = mt_removed s"
  "mt_queue (notifPlaySound n s) = mt_queue s" "mt_updating (notifPlaySound n s) = mt_updating s"
  "mt_bannerBlocked (notifPlaySound n s) = mt_bannerBlocked s" "mt_userActive (notifPlaySound n s) = mt_userActive s"
  "mt_pointerIn (notifPlaySound n s) = mt_pointerIn s" "mt_expired (notifPlaySound n s) = mt_expired s"
  "mt_hovered (notifPlaySound n s) = mt_hovered s" "mt_banner (notifPlaySound n s) = mt_banner s"
  "mt_timeoutId (notifPlaySound n s) = mt_timeoutId s" "mt_leftTimeoutId (notifPlaySound n s) = mt_leftTimeoutId s"
  "mt_notifs (notifPlaySound n s) = mt_notifs s" "mt_msources (notifPlaySound n s) = mt_msources s"
  "mt_sources (notifPlaySound n s) = mt_sources s"
  by (simp_all add: notifPlaySound_def)

lemma updateVisible_frame [simp]:
  "mt_state (updateVisible env s) = mt_state s" "mt_notification (updateVisible env s) = mt_notification s"
  "mt_anim (updateVisible env s) = mt_anim s" "mt_removed (updateVisible env s) = mt_removed s"
  "mt_queue (updateVisible env s) = mt_queue s" "mt_updating (updateVisible env s) = mt_updating s"
  "mt_bannerBlocked (updateVisible env s) = mt_bannerBlocked s" "mt_userActive (updateVisible env s) = mt_userActive s"
  "mt_pointerIn (updateVisible env s) = mt_pointerIn s" "mt_expired (updateVisible env s) = mt_expired s"
  "mt_hovered (updateVisible env s) = mt_hovered s" "mt_banner (updateVisible env s) = mt_banner s"
  "mt_timeoutId (updateVisible env s) = mt_timeoutId s" "mt_leftTimeoutId (updateVisible env s) = mt_leftTimeoutId s"
  "mt_trace (updateVisible env s) = mt_trace s" "mt_notifs (updateVisible env s) = mt_notifs s"
  "mt_msources (updateVisible env s) = mt_msources s" "mt_sources (updateVisible env s) = mt_sources s"
  by (simp_all add: updateVisible_def)

lemma sources_Call [simp]:
  "sources (mt_trace (mt_do c s)) = sources (mt_trace s)"
  "sources (mt_trace (removeSource i s)) = sources (mt_trace s)"
  "sources (mt_trace (addSource i s)) = sources (mt_trace s)"
  "sources (mt_trace (onSourceEnableChanged i s)) = sources (mt_trace s)"
  "sources (mt_trace (finishSource i s)) = sources (mt_trace s)"
  "sources (mt_trace (notifPlaySound n s)) = sources (mt_trace s)"
  by (simp_all add: mt_do_def removeSource_def addSource_def onSourceEnableChanged_def finishSource_def
      notifPlaySound_def upd_msource_def Let_def)

subsection \<open>The invariant\<close>

definition tray_core :: "tray \<Rightarrow> bool" where
  "tray_core s \<longleftrightarrow>
     (mt_state s = TS_HIDDEN) = (mt_notification s = None)
     \<and> (case mt_banner s of
          None \<Rightarrow> mt_notification s = None
        | Some b \<Rightarrow> mt_notification s = Some (ba_notification b) \<and> (mt_state s = TS_HIDING \<longrightarrow> \<not> ba_connected b))
     \<and> (mt_anim s = TA_hide) = (mt_state s = TS_HIDING)
     \<and> (mt_anim s = TA_show) = (mt_state s = TS_SHOWING)
     \<and> (mt_removed s \<longrightarrow> mt_notification s \<noteq> None)
     \<and> distinct (mt_queue s)
     \<and> (\<forall>n\<in>set (mt_queue s). mt_notification s \<noteq> Some n)"

definition tray_timers :: "tray \<Rightarrow> bool" where
  "tray_timers s \<longleftrightarrow>
     sources (mt_trace s) = Some ({mt_timeoutId s, mt_leftTimeoutId s} - {0})
     \<and> (mt_timeoutId s = mt_leftTimeoutId s \<longrightarrow> mt_timeoutId s = 0)
     \<and> (mt_hovered s \<longrightarrow> mt_leftTimeoutId s = 0)"

text \<open>The notifications that are shown or queued, and those that were added to their source.\<close>

definition tray_members :: "tray \<Rightarrow> nat set" where
  "tray_members s = set (mt_queue s) \<union> set_option (mt_notification s)"

definition tray_added :: "tray \<Rightarrow> nat set" where
  "tray_added s = {n. no_added (mt_notifs s n)}"

lemma tray_members_frame:
  "mt_notification s' = mt_notification s \<Longrightarrow> mt_queue s' = mt_queue s \<Longrightarrow> tray_members s' = tray_members s"
  by (simp add: tray_members_def)

lemma tray_added_frame: "mt_notifs s' = mt_notifs s \<Longrightarrow> tray_added s' = tray_added s"
  by (simp add: tray_added_def)

definition tray_ctx :: "tray_env \<Rightarrow> nat set \<Rightarrow> tray \<Rightarrow> bool" where
  "tray_ctx env A s \<longleftrightarrow> fresh_ids (te_ids env) \<and> tray_added s = A \<and> tray_members s \<subseteq> A"

definition tray_inv :: "tray_env \<Rightarrow> nat set \<Rightarrow> bool \<Rightarrow> tray \<Rightarrow> bool" where
  "tray_inv env A busy s \<longleftrightarrow> tray_core s \<and> tray_timers s \<and> mt_updating s = busy \<and> tray_ctx env A s"

lemma tray_core_frame:
  "mt_state s' = mt_state s \<Longrightarrow> mt_notification s' = mt_notification s \<Longrightarrow> mt_banner s' = mt_banner s \<Longrightarrow>
   mt_anim s' = mt_anim s \<Longrightarrow> mt_removed s' = mt_removed s \<Longrightarrow> mt_queue s' = mt_queue s \<Longrightarrow> tray_core s' = tray_core s"
  by (simp add: tray_core_def split: option.split)

lemma tray_timers_frame:
  "sources (mt_trace s') = sources (mt_trace s) \<Longrightarrow> mt_timeoutId s' = mt_timeoutId s \<Longrightarrow>
   mt_leftTimeoutId s' = mt_leftTimeoutId s \<Longrightarrow> mt_hovered s' = mt_hovered s \<Longrightarrow> tray_timers s' = tray_timers s"
  by (simp add: tray_timers_def)

text \<open>The small operations keep both parts.\<close>

lemma tray_core_ops [simp]:
  "tray_core (mt_do c s) = tray_core s" "tray_core (upd_notif n f s) = tray_core s"
  "tray_core (upd_msource i g s) = tray_core s" "tray_core (grabFocus s) = tray_core s"
  "tray_core (focusActorChanged x s) = tray_core s" "tray_core (ungrabFocus s) = tray_core s"
  "tray_core (updateNotificationTimeout env t s) = tray_core s"
  "tray_core (resetNotificationLeftTimeout s) = tray_core s" "tray_core (addLeftTimeout env t s) = tray_core s"
  "tray_core (onSourceEnableChanged i s) = tray_core s" "tray_core (finishSource i s) = tray_core s"
  "tray_core (notifPlaySound n s) = tray_core s" "tray_core (updateVisible env s) = tray_core s"
  by (rule tray_core_frame; simp)+

lemma tray_timers_ops [simp]:
  "tray_timers (mt_do c s) = tray_timers s" "tray_timers (upd_notif n f s) = tray_timers s"
  "tray_timers (upd_msource i g s) = tray_timers s" "tray_timers (grabFocus s) = tray_timers s"
  "tray_timers (focusActorChanged x s) = tray_timers s" "tray_timers (ungrabFocus s) = tray_timers s"
  "tray_timers (onSourceEnableChanged i s) = tray_timers s" "tray_timers (finishSource i s) = tray_timers s"
  "tray_timers (notifPlaySound n s) = tray_timers s" "tray_timers (updateVisible env s) = tray_timers s"
  by (rule tray_timers_frame; simp)+

lemma tray_core_fields [simp]:
  "tray_core (s\<lparr>mt_updating := v1\<rparr>) = tray_core s" "tray_core (s\<lparr>mt_expired := v2\<rparr>) = tray_core s"
  "tray_core (s\<lparr>mt_pointerIn := v3\<rparr>) = tray_core s" "tray_core (s\<lparr>mt_busy := v4\<rparr>) = tray_core s"
  "tray_core (s\<lparr>mt_bannerBlocked := v5\<rparr>) = tray_core s" "tray_core (s\<lparr>mt_userActive := v6\<rparr>) = tray_core s"
  "tray_core (s\<lparr>mt_watches := v7\<rparr>) = tray_core s" "tray_core (s\<lparr>mt_useLonger := v8\<rparr>) = tray_core s"
  "tray_core (s\<lparr>mt_hovered := v9\<rparr>) = tray_core s" "tray_core (s\<lparr>mt_timeoutId := v10\<rparr>) = tray_core s"
  "tray_core (s\<lparr>mt_leftTimeoutId := v11\<rparr>) = tray_core s" "tray_core (s\<lparr>mt_touchscreen := v12\<rparr>) = tray_core s"
  "tray_core (s\<lparr>mt_leftMouse := v13\<rparr>) = tray_core s" "tray_core (s\<lparr>mt_showMouse := v14\<rparr>) = tray_core s"
  "tray_core (s\<lparr>mt_lastSeen := v15\<rparr>) = tray_core s" "tray_core (s\<lparr>mt_visible := v16\<rparr>) = tray_core s"
  "tray_core (s\<lparr>mt_trace := v17\<rparr>) = tray_core s" "tray_core (s\<lparr>mt_notifs := v18\<rparr>) = tray_core s"
  "tray_core (s\<lparr>mt_msources := v19\<rparr>) = tray_core s" "tray_core (s\<lparr>mt_sources := v20\<rparr>) = tray_core s"
  by (rule tray_core_frame; simp)+

lemma tray_timers_fields [simp]:
  "tray_timers (s\<lparr>mt_updating := v21\<rparr>) = tray_timers s" "tray_timers (s\<lparr>mt_expired := v22\<rparr>) = tray_timers s"
  "tray_timers (s\<lparr>mt_pointerIn := v23\<rparr>) = tray_timers s" "tray_timers (s\<lparr>mt_busy := v24\<rparr>) = tray_timers s"
  "tray_timers (s\<lparr>mt_bannerBlocked := v25\<rparr>) = tray_timers s" "tray_timers (s\<lparr>mt_userActive := v26\<rparr>) = tray_timers s"
  "tray_timers (s\<lparr>mt_watches := v27\<rparr>) = tray_timers s" "tray_timers (s\<lparr>mt_useLonger := v28\<rparr>) = tray_timers s"
  "tray_timers (s\<lparr>mt_touchscreen := v29\<rparr>) = tray_timers s" "tray_timers (s\<lparr>mt_leftMouse := v30\<rparr>) = tray_timers s"
  "tray_timers (s\<lparr>mt_showMouse := v31\<rparr>) = tray_timers s" "tray_timers (s\<lparr>mt_lastSeen := v32\<rparr>) = tray_timers s"
  "tray_timers (s\<lparr>mt_visible := v33\<rparr>) = tray_timers s" "tray_timers (s\<lparr>mt_notifs := v34\<rparr>) = tray_timers s"
  "tray_timers (s\<lparr>mt_msources := v35\<rparr>) = tray_timers s" "tray_timers (s\<lparr>mt_sources := v36\<rparr>) = tray_timers s"
  "tray_timers (s\<lparr>mt_state := v37\<rparr>) = tray_timers s" "tray_timers (s\<lparr>mt_notification := v38\<rparr>) = tray_timers s"
  "tray_timers (s\<lparr>mt_banner := v39\<rparr>) = tray_timers s" "tray_timers (s\<lparr>mt_anim := v40\<rparr>) = tray_timers s"
  "tray_timers (s\<lparr>mt_removed := v41\<rparr>) = tray_timers s" "tray_timers (s\<lparr>mt_queue := v42\<rparr>) = tray_timers s"
  by (rule tray_timers_frame; simp)+

lemma tray_members_ops [simp]:
  "tray_members (mt_do c s) = tray_members s" "tray_members (upd_notif n f s) = tray_members s"
  "tray_members (upd_msource i g s) = tray_members s" "tray_members (grabFocus s) = tray_members s"
  "tray_members (focusActorChanged x s) = tray_members s" "tray_members (ungrabFocus s) = tray_members s"
  "tray_members (updateNotificationTimeout env t s) = tray_members s" "tray_members (resetNotificationLeftTimeout s) = tray_members s"
  "tray_members (addLeftTimeout env t s) = tray_members s" "tray_members (onSourceEnableChanged i s) = tray_members s"
  "tray_members (finishSource i s) = tray_members s" "tray_members (notifPlaySound n s) = tray_members s"
  "tray_members (updateVisible env s) = tray_members s" "tray_members (s\<lparr>mt_updating := v0\<rparr>) = tray_members s"
  "tray_members (s\<lparr>mt_expired := v1\<rparr>) = tray_members s" "tray_members (s\<lparr>mt_pointerIn := v2\<rparr>) = tray_members s"
  "tray_members (s\<lparr>mt_busy := v3\<rparr>) = tray_members s" "tray_members (s\<lparr>mt_bannerBlocked := v4\<rparr>) = tray_members s"
  "tray_members (s\<lparr>mt_userActive := v5\<rparr>) = tray_members s" "tray_members (s\<lparr>mt_watches := v6\<rparr>) = tray_members s"
  "tray_members (s\<lparr>mt_useLonger := v7\<rparr>) = tray_members s" "tray_members (s\<lparr>mt_hovered := v8\<rparr>) = tray_members s"
  "tray_members (s\<lparr>mt_timeoutId := v9\<rparr>) = tray_members s" "tray_members (s\<lparr>mt_leftTimeoutId := v10\<rparr>) = tray_members s"
  "tray_members (s\<lparr>mt_touchscreen := v11\<rparr>) = tray_members s" "tray_members (s\<lparr>mt_leftMouse := v12\<rparr>) = tray_members s"
  "tray_members (s\<lparr>mt_showMouse := v13\<rparr>) = tray_members s" "tray_members (s\<lparr>mt_lastSeen := v14\<rparr>) = tray_members s"
  "tray_members (s\<lparr>mt_visible := v15\<rparr>) = tray_members s" "tray_members (s\<lparr>mt_trace := v16\<rparr>) = tray_members s"
  "tray_members (s\<lparr>mt_msources := v17\<rparr>) = tray_members s" "tray_members (s\<lparr>mt_sources := v18\<rparr>) = tray_members s"
  "tray_members (s\<lparr>mt_state := v19\<rparr>) = tray_members s" "tray_members (s\<lparr>mt_banner := v20\<rparr>) = tray_members s"
  "tray_members (s\<lparr>mt_anim := v21\<rparr>) = tray_members s" "tray_members (s\<lparr>mt_removed := v22\<rparr>) = tray_members s"
  "tray_members (s\<lparr>mt_notifs := v23\<rparr>) = tray_members s"
  by (rule tray_members_frame; simp)+

lemma tray_added_ops [simp]:
  "tray_added (mt_do c s) = tray_added s" "tray_added (upd_msource i g s) = tray_added s"
  "tray_added (grabFocus s) = tray_added s" "tray_added (focusActorChanged x s) = tray_added s"
  "tray_added (ungrabFocus s) = tray_added s" "tray_added (updateNotificationTimeout env t s) = tray_added s"
  "tray_added (resetNotificationLeftTimeout s) = tray_added s" "tray_added (addLeftTimeout env t s) = tray_added s"
  "tray_added (onSourceEnableChanged i s) = tray_added s" "tray_added (finishSource i s) = tray_added s"
  "tray_added (notifPlaySound n s) = tray_added s" "tray_added (updateVisible env s) = tray_added s"
  "tray_added (s\<lparr>mt_updating := v0\<rparr>) = tray_added s" "tray_added (s\<lparr>mt_expired := v1\<rparr>) = tray_added s"
  "tray_added (s\<lparr>mt_pointerIn := v2\<rparr>) = tray_added s" "tray_added (s\<lparr>mt_busy := v3\<rparr>) = tray_added s"
  "tray_added (s\<lparr>mt_bannerBlocked := v4\<rparr>) = tray_added s" "tray_added (s\<lparr>mt_userActive := v5\<rparr>) = tray_added s"
  "tray_added (s\<lparr>mt_watches := v6\<rparr>) = tray_added s" "tray_added (s\<lparr>mt_useLonger := v7\<rparr>) = tray_added s"
  "tray_added (s\<lparr>mt_hovered := v8\<rparr>) = tray_added s" "tray_added (s\<lparr>mt_timeoutId := v9\<rparr>) = tray_added s"
  "tray_added (s\<lparr>mt_leftTimeoutId := v10\<rparr>) = tray_added s" "tray_added (s\<lparr>mt_touchscreen := v11\<rparr>) = tray_added s"
  "tray_added (s\<lparr>mt_leftMouse := v12\<rparr>) = tray_added s" "tray_added (s\<lparr>mt_showMouse := v13\<rparr>) = tray_added s"
  "tray_added (s\<lparr>mt_lastSeen := v14\<rparr>) = tray_added s" "tray_added (s\<lparr>mt_visible := v15\<rparr>) = tray_added s"
  "tray_added (s\<lparr>mt_trace := v16\<rparr>) = tray_added s" "tray_added (s\<lparr>mt_msources := v17\<rparr>) = tray_added s"
  "tray_added (s\<lparr>mt_sources := v18\<rparr>) = tray_added s" "tray_added (s\<lparr>mt_state := v19\<rparr>) = tray_added s"
  "tray_added (s\<lparr>mt_banner := v20\<rparr>) = tray_added s" "tray_added (s\<lparr>mt_anim := v21\<rparr>) = tray_added s"
  "tray_added (s\<lparr>mt_removed := v22\<rparr>) = tray_added s" "tray_added (s\<lparr>mt_notification := v23\<rparr>) = tray_added s"
  "tray_added (s\<lparr>mt_queue := v24\<rparr>) = tray_added s"
  by (rule tray_added_frame; simp)+

lemma tray_added_upd_notif [simp]:
  "tray_added (upd_notif n (\<lambda>x. x\<lparr>no_acknowledged := a\<rparr>) s) = tray_added s"
  "tray_added (upd_notif n (\<lambda>x. x\<lparr>no_alive := b\<rparr>) s) = tray_added s"
  "tray_added (upd_notif n (\<lambda>x. x\<lparr>no_urgency := u\<rparr>) s) = tray_added s"
  "tray_added (upd_notif n (\<lambda>x. x\<lparr>no_privacyScope := p\<rparr>) s) = tray_added s"
  "tray_added (upd_notif n (\<lambda>x. x\<lparr>no_actions := as\<rparr>) s) = tray_added s"
  "tray_added (upd_notif n (\<lambda>x. x\<lparr>no_added := True\<rparr>) s) = insert n (tray_added s)"
  by (auto simp: tray_added_def upd_notif_def)

lemma tray_ctx_ops [simp]:
  "tray_ctx env A (mt_do c s) = tray_ctx env A s" "tray_ctx env A (upd_msource i g s) = tray_ctx env A s"
  "tray_ctx env A (grabFocus s) = tray_ctx env A s" "tray_ctx env A (focusActorChanged x s) = tray_ctx env A s"
  "tray_ctx env A (ungrabFocus s) = tray_ctx env A s" "tray_ctx env A (updateNotificationTimeout env' t s) = tray_ctx env A s"
  "tray_ctx env A (resetNotificationLeftTimeout s) = tray_ctx env A s" "tray_ctx env A (addLeftTimeout env' t s) = tray_ctx env A s"
  "tray_ctx env A (onSourceEnableChanged i s) = tray_ctx env A s" "tray_ctx env A (finishSource i s) = tray_ctx env A s"
  "tray_ctx env A (notifPlaySound n s) = tray_ctx env A s" "tray_ctx env A (updateVisible env' s) = tray_ctx env A s"
  "tray_ctx env A (upd_notif n (\<lambda>x. x\<lparr>no_acknowledged := a\<rparr>) s) = tray_ctx env A s" "tray_ctx env A (upd_notif n (\<lambda>x. x\<lparr>no_alive := b\<rparr>) s) = tray_ctx env A s"
  "tray_ctx env A (s\<lparr>mt_updating := v0\<rparr>) = tray_ctx env A s" "tray_ctx env A (s\<lparr>mt_expired := v1\<rparr>) = tray_ctx env A s"
  "tray_ctx env A (s\<lparr>mt_pointerIn := v2\<rparr>) = tray_ctx env A s" "tray_ctx env A (s\<lparr>mt_busy := v3\<rparr>) = tray_ctx env A s"
  "tray_ctx env A (s\<lparr>mt_bannerBlocked := v4\<rparr>) = tray_ctx env A s" "tray_ctx env A (s\<lparr>mt_userActive := v5\<rparr>) = tray_ctx env A s"
  "tray_ctx env A (s\<lparr>mt_watches := v6\<rparr>) = tray_ctx env A s" "tray_ctx env A (s\<lparr>mt_useLonger := v7\<rparr>) = tray_ctx env A s"
  "tray_ctx env A (s\<lparr>mt_hovered := v8\<rparr>) = tray_ctx env A s" "tray_ctx env A (s\<lparr>mt_timeoutId := v9\<rparr>) = tray_ctx env A s"
  "tray_ctx env A (s\<lparr>mt_leftTimeoutId := v10\<rparr>) = tray_ctx env A s" "tray_ctx env A (s\<lparr>mt_touchscreen := v11\<rparr>) = tray_ctx env A s"
  "tray_ctx env A (s\<lparr>mt_leftMouse := v12\<rparr>) = tray_ctx env A s" "tray_ctx env A (s\<lparr>mt_showMouse := v13\<rparr>) = tray_ctx env A s"
  "tray_ctx env A (s\<lparr>mt_lastSeen := v14\<rparr>) = tray_ctx env A s" "tray_ctx env A (s\<lparr>mt_visible := v15\<rparr>) = tray_ctx env A s"
  "tray_ctx env A (s\<lparr>mt_trace := v16\<rparr>) = tray_ctx env A s" "tray_ctx env A (s\<lparr>mt_msources := v17\<rparr>) = tray_ctx env A s"
  "tray_ctx env A (s\<lparr>mt_sources := v18\<rparr>) = tray_ctx env A s" "tray_ctx env A (s\<lparr>mt_state := v19\<rparr>) = tray_ctx env A s"
  "tray_ctx env A (s\<lparr>mt_banner := v20\<rparr>) = tray_ctx env A s" "tray_ctx env A (s\<lparr>mt_anim := v21\<rparr>) = tray_ctx env A s"
  "tray_ctx env A (s\<lparr>mt_removed := v22\<rparr>) = tray_ctx env A s"
  by (simp_all add: tray_ctx_def)

lemma tray_ctx_fresh [simp]: "tray_ctx env A s \<Longrightarrow> fresh_ids (te_ids env)"
  by (simp add: tray_ctx_def)

lemma tray_ctx_mono:
  "tray_ctx env A s \<Longrightarrow> tray_added s' = tray_added s \<Longrightarrow> tray_members s' \<subseteq> tray_members s \<Longrightarrow> tray_ctx env A s'"
  by (auto simp: tray_ctx_def)

lemma fresh_notin: "fresh_ids mk \<Longrightarrow> sources tr = Some S \<Longrightarrow> mk tr \<noteq> 0 \<and> mk tr \<notin> S"
  by (auto simp: fresh_ids_def)

lemma cancel_timers: "tray_timers s \<Longrightarrow> tray_timers (cancelNotificationTimeout s)"
  by (auto simp: tray_timers_def cancelNotificationTimeout_def)

lemma cancel_zero [simp]: "mt_timeoutId (cancelNotificationTimeout s) = 0"
  by (simp add: cancelNotificationTimeout_def)

lemma updateNotificationTimeout_timers:
  assumes "fresh_ids (te_ids env)" and "tray_timers s"
  shows "tray_timers (updateNotificationTimeout env t s)"
proof -
  let ?s = "cancelNotificationTimeout s"
  have t: "tray_timers ?s" using assms(2) by (rule cancel_timers)
  then have src: "sources (mt_trace ?s) = Some ({mt_leftTimeoutId s} - {0})" by (simp add: tray_timers_def)
  from fresh_notin [OF assms(1) this] t src show ?thesis
    by (auto simp: updateNotificationTimeout_def Let_def tray_timers_def)
qed

lemma resetLeft_timers: "tray_timers s \<Longrightarrow> tray_timers (resetNotificationLeftTimeout s)"
  by (auto simp: tray_timers_def resetNotificationLeftTimeout_def Let_def)

lemma addLeft_timers:
  assumes "fresh_ids (te_ids env)" and "tray_timers s" and "mt_leftTimeoutId s = 0" and "\<not> mt_hovered s"
  shows "tray_timers (addLeftTimeout env t s)"
proof -
  have src: "sources (mt_trace s) = Some ({mt_timeoutId s} - {0})"
    using assms by (auto simp: tray_timers_def)
  from fresh_notin [OF assms(1) this] src assms(4) show ?thesis
    by (auto simp: addLeftTimeout_def Let_def tray_timers_def)
qed

subsection \<open>What \<open>_updateState\<close> promises, and what its callers keep with it\<close>

locale update_state =
  fixes upd :: "tray \<Rightarrow> tray_result" and env :: tray_env and A :: "nat set" and busy :: bool
  assumes upd_inv: "tray_inv env A busy s \<Longrightarrow> tray_inv env A busy (fst (upd s)) \<and> snd (upd s) = Returned"
begin

lemma upd_result:
  assumes "tray_inv env A busy s"
  obtains s' where "upd s = (s', Returned)" and "tray_inv env A busy s'"
  using upd_inv [OF assms] by (cases "upd s") auto

lemma onNotificationRemoved_inv:
  assumes "tray_inv env A busy s"
  shows "tray_inv env A busy (onNotificationRemoved upd env n s)"
proof (cases "mt_notification s = Some n")
  case True
  let ?s = "updateNotificationTimeout env 0 (s\<lparr>mt_removed := True, mt_pointerIn := False\<rparr>)"
  have core: "tray_core (s\<lparr>mt_removed := True\<rparr>)" "tray_core (s\<lparr>mt_removed := True, mt_pointerIn := False\<rparr>)"
    using assms True by (auto simp: tray_inv_def tray_core_def split: option.splits)
  have tm: "tray_timers (s\<lparr>mt_removed := True\<rparr>)" "tray_timers (s\<lparr>mt_removed := True, mt_pointerIn := False\<rparr>)"
    using assms by (auto simp: tray_inv_def tray_timers_def)
  have "fresh_ids (te_ids env)" using assms tray_ctx_fresh by (auto simp: tray_inv_def)
  from updateNotificationTimeout_timers [OF this tm(2)] have "tray_inv env A busy ?s"
    using core(2) assms by (simp add: tray_inv_def)
  then have "tray_inv env A busy (fst (upd ?s))" using upd_inv by blast
  moreover have "tray_inv env A busy (s\<lparr>mt_removed := True\<rparr>)" using core(1) tm(1) assms by (simp add: tray_inv_def)
  ultimately show ?thesis using True by (simp add: onNotificationRemoved_def Let_def)
next
  case False
  have "tray_inv env A busy (s\<lparr>mt_queue := js_remove_at (js_indexOf n (mt_queue s)) (mt_queue s)\<rparr>)"
    if i: "js_indexOf n (mt_queue s) \<noteq> -1"
  proof -
    have "js_indexOf n (mt_queue s) \<ge> 0" using i js_indexOf_bound [of n "mt_queue s"] by linarith
    then have q: "js_remove_at (js_indexOf n (mt_queue s)) (mt_queue s) = remove1 n (mt_queue s)"
      by (rule js_remove_indexOf)
    have "tray_core (s\<lparr>mt_queue := remove1 n (mt_queue s)\<rparr>)"
      using assms by (auto simp: tray_inv_def tray_core_def split: option.splits)
    moreover have "tray_ctx env A (s\<lparr>mt_queue := remove1 n (mt_queue s)\<rparr>)"
      using assms by - (rule tray_ctx_mono [of env A s], auto simp: tray_inv_def tray_members_def)
    ultimately show ?thesis using assms by (simp add: q tray_inv_def)
  qed
  with False assms show ?thesis by (simp add: onNotificationRemoved_def Let_def tray_inv_def)
qed

lemma onNotificationDestroy_inv:
  assumes "tray_inv env A busy s" and "onNotificationDestroy upd env n s = Some s'"
  shows "tray_inv env A busy s'"
proof -
  let ?i = "no_source (mt_notifs s n)"
  define s1 where "s1 = mt_do (NotificationRemoved n)
                         (upd_msource ?i (\<lambda>m. m\<lparr>ms_notifications := remove1 n (ms_notifications m)\<rparr>) s)"
  define s2 where "s2 = (if ?i \<in> set (mt_sources s1) then onNotificationRemoved upd env n s1 else s1)"
  have "tray_inv env A busy s1" using assms(1) by (simp add: s1_def tray_inv_def)
  then have "tray_inv env A busy s2" using onNotificationRemoved_inv by (simp add: s2_def)
  then show ?thesis
    using assms(2) by (auto simp: onNotificationDestroy_def Let_def s1_def [symmetric] s2_def [symmetric]
        tray_inv_def split: if_splits)
qed

lemma destroyNotif_inv:
  assumes "tray_inv env A busy s"
  shows "tray_inv env A busy (destroyNotif upd env n r s)"
proof -
  have s1: "tray_inv env A busy (mt_do (NotifDestroyed n r) s)" using assms by (simp add: tray_inv_def)
  show ?thesis
    using assms s1 onNotificationDestroy_inv [OF s1]
    by (auto simp: destroyNotif_def Let_def tray_inv_def split: option.splits)
qed

lemma destroyOldest_inv: "tray_inv env A busy s \<Longrightarrow> tray_inv env A busy (destroyOldest upd env i r s)"
  by (simp add: destroyOldest_def destroyNotif_inv split: list.split)

lemma destroyOldest_pow_inv: "tray_inv env A busy s \<Longrightarrow> tray_inv env A busy ((destroyOldest upd env i r ^^ k) s)"
  by (induction k) (simp_all add: destroyOldest_inv)

lemma destroySource_inv:
  assumes "tray_inv env A busy s"
  shows "tray_inv env A busy (destroySource upd env i r s)"
proof -
  have "tray_inv env A busy (upd_msource i (\<lambda>m. m\<lparr>ms_inDestruction := True\<rparr>) s)"
    using assms by (simp add: tray_inv_def)
  from destroyOldest_pow_inv [OF this] show ?thesis
    by (simp add: destroySource_def Let_def tray_inv_def)
qed

end

text \<open>While no banner is shown, destroying a notification only takes it from the queue.\<close>

lemma destroyNotif_idle:
  assumes "mt_notification s = None"
  shows "let s' = destroyNotif upd env n r s in mt_state s' = mt_state s \<and> mt_notification s' = None \<and> mt_banner s' = mt_banner s \<and> mt_anim s' = mt_anim s
    \<and> mt_removed s' = mt_removed s \<and> mt_updating s' = mt_updating s \<and> set (mt_queue s') \<subseteq> set (mt_queue s)
    \<and> (distinct (mt_queue s) \<longrightarrow> distinct (mt_queue s')) \<and> tray_timers s' = tray_timers s
    \<and> tray_added s' = tray_added s"
proof -
  have rem: "let t' = onNotificationRemoved upd env n t in mt_state t' = mt_state t \<and> mt_notification t' = None
      \<and> mt_banner t' = mt_banner t \<and> mt_anim t' = mt_anim t \<and> mt_removed t' = mt_removed t
      \<and> mt_updating t' = mt_updating t \<and> set (mt_queue t') \<subseteq> set (mt_queue t)
      \<and> (distinct (mt_queue t) \<longrightarrow> distinct (mt_queue t')) \<and> tray_timers t' = tray_timers t
      \<and> tray_added t' = tray_added t"
    if t: "mt_notification t = None" for t
  proof (cases "js_indexOf n (mt_queue t) = -1")
    case True
    with t show ?thesis by (simp add: onNotificationRemoved_def Let_def)
  next
    case False
    then have "js_indexOf n (mt_queue t) \<ge> 0" using js_indexOf_bound [of n "mt_queue t"] by linarith
    with False t js_remove_indexOf [of n "mt_queue t"] show ?thesis
      by (auto simp: onNotificationRemoved_def Let_def tray_timers_def dest: subsetD [OF set_remove1_subset])
  qed
  define s0 where "s0 = mt_do (NotifDestroyed n r) s"
  define i where "i = no_source (mt_notifs s0 n)"
  define s1 where "s1 = mt_do (NotificationRemoved n)
      (upd_msource i (\<lambda>m. m\<lparr>ms_notifications := remove1 n (ms_notifications m)\<rparr>) s0)"
  define s2 where "s2 = (if i \<in> set (mt_sources s1) then onNotificationRemoved upd env n s1 else s1)"
  define s3 where "s3 = mt_do (NotifyCount i) s2"
  define s4 where "s4 = (if \<not> ms_inDestruction (mt_msources s3 i) \<and> ms_notifications (mt_msources s3 i) = []
      then finishSource i (upd_msource i (\<lambda>m. m\<lparr>ms_inDestruction := True\<rparr>) s3) else s3)"
  have d: "onNotificationDestroy upd env n s0 =
      (if n \<notin> set (ms_notifications (mt_msources s0 i)) then None else Some s4)"
    by (simp add: onNotificationDestroy_def Let_def i_def s1_def s2_def s3_def s4_def)
  have n1: "mt_notification s1 = None" using assms(1) by (simp add: s1_def s0_def)
  have s4: "mt_state s4 = mt_state s \<and> mt_notification s4 = None \<and> mt_banner s4 = mt_banner s \<and> mt_anim s4 = mt_anim s
    \<and> mt_removed s4 = mt_removed s \<and> mt_updating s4 = mt_updating s \<and> set (mt_queue s4) \<subseteq> set (mt_queue s)
    \<and> (distinct (mt_queue s) \<longrightarrow> distinct (mt_queue s4)) \<and> tray_timers s4 = tray_timers s \<and> tray_added s4 = tray_added s"
  proof -
    have "mt_state s2 = mt_state s1 \<and> mt_notification s2 = None \<and> mt_banner s2 = mt_banner s1 \<and> mt_anim s2 = mt_anim s1
      \<and> mt_removed s2 = mt_removed s1 \<and> mt_updating s2 = mt_updating s1 \<and> set (mt_queue s2) \<subseteq> set (mt_queue s1)
      \<and> (distinct (mt_queue s1) \<longrightarrow> distinct (mt_queue s2)) \<and> tray_timers s2 = tray_timers s1
      \<and> tray_added s2 = tray_added s1"
      using rem [OF n1] n1 by (simp add: s2_def Let_def)
    then show ?thesis by (simp add: s4_def s3_def) (simp add: s1_def s0_def)
  qed
  have "destroyNotif upd env n r s = (if no_alive (mt_notifs s n)
      then upd_notif n (\<lambda>x. x\<lparr>no_alive := False\<rparr>) (if n \<notin> set (ms_notifications (mt_msources s0 i)) then s0 else s4) else s)"
    by (simp add: destroyNotif_def Let_def s0_def [symmetric] d)
  then show ?thesis using s4 assms(1) by (simp add: Let_def) (simp add: s0_def)
qed

context update_state
begin

lemma hideNotificationCompleted_inv:
  assumes "mt_state s = TS_HIDDEN" and "mt_notification s = Some n" and "mt_banner s = Some b"
    and "mt_anim s = TA_none" and "distinct (mt_queue s)" and "tray_timers s" and "mt_updating s = busy"
    and fresh: "tray_ctx env A s"
  shows "\<exists>s'. hideNotificationCompleted upd env s = (s', Returned) \<and> tray_inv env A busy s' \<and> mt_state s' = TS_HIDDEN"
proof -
  define s1 where "s1 = s\<lparr>mt_notification := None\<rparr>"
  define s2 where "s2 = (if \<not> mt_removed s1 \<and> no_isTransient (mt_notifs s1 n) then destroyNotif upd env n NR_EXPIRED s1 else s1)"
  have t1: "tray_timers s1" using assms by (simp add: s1_def tray_timers_def)
  have n1: "mt_notification s1 = None" by (simp add: s1_def)
  have s2: "mt_state s2 = TS_HIDDEN" "mt_notification s2 = None" "mt_banner s2 = Some b" "mt_anim s2 = TA_none"
    "mt_updating s2 = busy" "distinct (mt_queue s2)" "tray_timers s2"
    using destroyNotif_idle [OF n1, of upd env n NR_EXPIRED] assms t1
    by (auto simp: s2_def s1_def Let_def split: if_splits)
  have s2ctx: "tray_added s2 = tray_added s" "tray_members s2 \<subseteq> tray_members s"
    using destroyNotif_idle [OF n1, of upd env n NR_EXPIRED]
    by (auto simp: s2_def s1_def Let_def tray_members_def split: if_splits)
  have "(if mt_removed s1 then (s1, Returned)
         else case mt_notification s of None \<Rightarrow> (s1, Threw)
              | Some n \<Rightarrow> (if no_isTransient (mt_notifs s1 n) then destroyNotif upd env n NR_EXPIRED s1 else s1, Returned))
      = (s2, Returned)"
    using assms(2) by (simp add: s2_def)
  then have "hideNotificationCompleted upd env s = (mt_do (DestroyBanner (ba_notification b))
      ((mt_do EnableUnredirect (s2\<lparr>mt_pointerIn := False, mt_removed := False\<rparr>))\<lparr>mt_banner := None, mt_visible := False\<rparr>), Returned)"
    using s2(3) by (simp add: hideNotificationCompleted_def Let_def s1_def [symmetric])
  moreover have "tray_timers ((mt_do EnableUnredirect (s2\<lparr>mt_pointerIn := False, mt_removed := False\<rparr>))
      \<lparr>mt_banner := None, mt_visible := False\<rparr>)"
    using s2(7) by (simp add: tray_timers_def mt_do_def)
  moreover have "tray_ctx env A s2" using s2ctx by (rule tray_ctx_mono [OF fresh])
  ultimately show ?thesis using s2 by (simp add: tray_inv_def tray_core_def)
qed

lemma hideStopped_inv:
  assumes "mt_notification s = Some n" and "mt_banner s = Some b"
    and "mt_anim s = TA_none" and "distinct (mt_queue s)" and "tray_timers s" and "mt_updating s = busy"
    and fresh: "tray_ctx env A s"
  shows "tray_inv env A busy (fst (hideStopped upd env s)) \<and> snd (hideStopped upd env s) = Returned"
proof -
  let ?s = "s\<lparr>mt_state := TS_HIDDEN\<rparr>"
  have "tray_timers ?s" using assms(5) by (simp add: tray_timers_def)
  with hideNotificationCompleted_inv [of ?s n b] assms
  obtain s1 where s1: "hideNotificationCompleted upd env ?s = (s1, Returned)" "tray_inv env A busy s1" by auto
  from upd_result [OF s1(2)] obtain s2 where "upd s1 = (s2, Returned)" "tray_inv env A busy s2" .
  with s1 show ?thesis by (simp add: hideStopped_def)
qed

lemma hideNotification_inv:
  assumes "tray_inv env A busy s" and "mt_state s = TS_SHOWING \<or> mt_state s = TS_SHOWN"
  shows "tray_inv env A busy (fst (hideNotification upd env animate s)) \<and> snd (hideNotification upd env animate s) = Returned"
proof -
  obtain n where n: "mt_notification s = Some n"
    using assms by (auto simp: tray_inv_def tray_core_def)
  then obtain b where b: "mt_banner s = Some b" "ba_notification b = n"
    using assms(1) by (auto simp: tray_inv_def tray_core_def split: option.splits)
  define s3 where "s3 = resetNotificationLeftTimeout ((ungrabFocus s)\<lparr>mt_banner := Some (b\<lparr>ba_connected := False\<rparr>)\<rparr>)"
  define s4 where "s4 = s3\<lparr>mt_state := TS_HIDING, mt_anim := TA_none\<rparr>"
  have anim: "mt_anim s \<noteq> TA_hide" using assms by (auto simp: tray_inv_def tray_core_def)
  have "tray_timers ((ungrabFocus s)\<lparr>mt_banner := Some (b\<lparr>ba_connected := False\<rparr>)\<rparr>)"
    using assms(1) tray_timers_ops(6) [of s] by (simp add: tray_inv_def tray_timers_def)
  then have t3: "tray_timers s3" by (simp add: s3_def resetLeft_timers)
  have s4: "mt_notification s4 = Some n" "mt_banner s4 = Some (b\<lparr>ba_connected := False\<rparr>)" "mt_anim s4 = TA_none"
    "distinct (mt_queue s4)" "\<forall>m\<in>set (mt_queue s4). m \<noteq> n" "mt_updating s4 = busy" "mt_state s4 = TS_HIDING"
    using assms n b by (auto simp: s4_def s3_def tray_inv_def tray_core_def)
  have t4: "tray_timers s4" using t3 by (simp add: s4_def)
  have eq: "hideNotification upd env animate s =
      (if animate \<and> te_animates env then (s4\<lparr>mt_anim := TA_hide\<rparr>, Returned) else hideStopped upd env s4)"
    using b anim by (simp add: hideNotification_def removeTransitions_def Let_def s4_def s3_def)
  have "tray_core (s4\<lparr>mt_anim := TA_hide\<rparr>)" using s4 b(2) by (auto simp: tray_core_def)
  moreover have ctx: "tray_ctx env A s4" using assms(1) by (simp add: s4_def s3_def tray_inv_def)
  ultimately have "tray_inv env A busy (s4\<lparr>mt_anim := TA_hide\<rparr>)" using s4(6) t4 by (simp add: tray_inv_def)
  moreover
  note hideStopped_inv [OF s4(1,2,3,4) t4 s4(6) ctx]
  ultimately show ?thesis unfolding eq by (cases "animate \<and> te_animates env") auto
qed

lemma removeTransitions_quiet:
  "mt_anim s = TA_hide \<longrightarrow> \<not> te_stopOnRemove env \<Longrightarrow> removeTransitions upd env s = s\<lparr>mt_anim := TA_none\<rparr>"
  by (auto simp: removeTransitions_def Let_def)

lemma expandBanner_inv:
  assumes "tray_inv env A busy s" and "mt_notification s \<noteq> None"
  shows "tray_inv env A busy (fst (expandBanner auto s)) \<and> snd (expandBanner auto s) = Returned"
proof -
  obtain b where b: "mt_banner s = Some b"
    using assms by (auto simp: tray_inv_def tray_core_def split: option.splits)
  then have "tray_core (s\<lparr>mt_banner := Some (b\<lparr>ba_expanded := True\<rparr>)\<rparr>)"
    using assms(1) by (auto simp: tray_inv_def tray_core_def)
  then show ?thesis using b assms(1) by (simp add: expandBanner_def Let_def tray_inv_def ensureBannerFocused_def)
qed

lemma showFinished_inv:
  assumes "mt_notification s = Some n" and "mt_banner s = Some b" and "ba_notification b = n"
    and "mt_anim s = TA_none" and "distinct (mt_queue s)" and "\<forall>m\<in>set (mt_queue s). m \<noteq> n"
    and "tray_timers s" and "mt_updating s = busy" and fresh: "tray_ctx env A s"
  shows "tray_inv env A busy (fst (showFinished upd env s)) \<and> snd (showFinished upd env s) = Returned"
proof -
  let ?s = "s\<lparr>mt_state := TS_SHOWN\<rparr>"
  have tm: "tray_timers ?s" using assms by (simp add: tray_timers_def)
  have "tray_core ?s" using assms by (auto simp: tray_core_def)
  with tm updateNotificationTimeout_timers [OF tray_ctx_fresh [OF fresh] tm] assms
  have "tray_inv env A busy (if urgency_of ?s n \<noteq> NU_CRITICAL then updateNotificationTimeout env NOTIFICATION_TIMEOUT ?s else ?s)"
    by (simp add: tray_inv_def)
  from upd_inv [OF this] show ?thesis
    using assms(1) by (simp add: showFinished_def showNotificationCompleted_def)
qed

lemma updateShowingNotification_inv:
  assumes "mt_notification s = Some n" and "mt_banner s = Some b" and "ba_notification b = n"
    and "mt_anim s = TA_hide \<longrightarrow> \<not> te_stopOnRemove env" and "distinct (mt_queue s)"
    and "\<forall>m\<in>set (mt_queue s). m \<noteq> n" and "tray_timers s" and "mt_updating s = busy"
    and fresh: "tray_ctx env A s"
  shows "tray_inv env A busy (fst (updateShowingNotification upd env s))
    \<and> snd (updateShowingNotification upd env s) = Returned"
proof -
  define s1 where "s1 = notifPlaySound n (mt_do (NotifyCount (no_source (mt_notifs s n)))
                     (upd_notif n (\<lambda>x. x\<lparr>no_acknowledged := True\<rparr>) s))"
  define c where "c = (urgency_of s1 n = NU_CRITICAL \<or> po_forceExpanded (policy_of s1 n) \<or> mt_touchscreen s1)"
  define s2 where "s2 = (if c then s1\<lparr>mt_banner := Some (b\<lparr>ba_expanded := True\<rparr>)\<rparr> else s1)"
  define s4 where "s4 = s2\<lparr>mt_state := TS_SHOWING, mt_anim := TA_none\<rparr>"
  have s1: "mt_notification s1 = Some n" "mt_banner s1 = Some b" "mt_anim s1 = mt_anim s"
    "mt_queue s1 = mt_queue s" "tray_timers s1" "mt_updating s1 = busy"
    "tray_ctx env A s1"
    using assms by (simp_all add: s1_def)
  obtain b' where b': "mt_banner s4 = Some b'" "ba_notification b' = n"
    using s1 assms(3) by (cases c) (auto simp: s4_def s2_def)
  have s4: "mt_notification s4 = Some n" "mt_anim s4 = TA_none" "distinct (mt_queue s4)"
    "\<forall>m\<in>set (mt_queue s4). m \<noteq> n" "tray_timers s4" "mt_updating s4 = busy" "mt_state s4 = TS_SHOWING"
    "tray_ctx env A s4"
    using s1 assms by (auto simp: s4_def s2_def)
  have anim: "mt_anim s2 = TA_hide \<longrightarrow> \<not> te_stopOnRemove env" using s1 assms by (simp add: s2_def)
  have quiet: "removeTransitions upd env (removeTransitions upd env (s2\<lparr>mt_state := TS_SHOWING\<rparr>)) = s4"
    using anim by (simp add: removeTransitions_quiet s4_def)
  have "(if c then expandBanner True s1 else (s1, Returned)) = (s2, Returned)"
    using s1 by (simp add: expandBanner_def s2_def)
  then have "updateShowingNotification upd env s =
      (if te_animates env then (s4\<lparr>mt_anim := TA_show\<rparr>, Returned) else showFinished upd env s4)"
    using assms(1) quiet by (simp add: updateShowingNotification_def Let_def s1_def [symmetric] c_def [symmetric])
  moreover have "tray_core (s4\<lparr>mt_anim := TA_show\<rparr>)" using s4 b' by (auto simp: tray_core_def)
  moreover from this have "tray_inv env A busy (s4\<lparr>mt_anim := TA_show\<rparr>)" using s4 by (simp add: tray_inv_def)
  ultimately show ?thesis
    using showFinished_inv [OF s4(1) b' s4(2,3,4,5,6,8)] by simp
qed

lemma showNotification_inv:
  assumes "tray_inv env A busy s" and "mt_state s = TS_HIDDEN" and "mt_queue s \<noteq> []"
  shows "tray_inv env A busy (fst (mt_showNotification upd env s)) \<and> snd (mt_showNotification upd env s) = Returned"
proof -
  obtain n rest where q: "mt_queue s = n # rest" using assms(3) by (cases "mt_queue s") auto
  define s1 where "s1 = mt_do QueueChanged (s\<lparr>mt_notification := Some n, mt_queue := rest\<rparr>)"
  define active where "active = (te_idletime env \<le> IDLE_TIME)"
  define b where "b = \<lparr>ba_notification = n, ba_expanded = False, ba_touched = False, ba_connected = True\<rparr>"
  define s3 where "s3 = mt_do DisableUnredirect (mt_do (ShowBanner n)
      (s1\<lparr>mt_userActive := active, mt_watches := (if active then mt_watches s1 else Suc (mt_watches s1)),
          mt_banner := Some b, mt_visible := True\<rparr>))"
  have tm: "tray_timers s" and up: "mt_updating s = busy" and an: "mt_anim s = TA_none"
    using assms by (auto simp: tray_inv_def tray_core_def intro: tray_anim.exhaust)
  have s3: "mt_notification s3 = Some n" "mt_banner s3 = Some b" "ba_notification b = n"
    "mt_anim s3 = TA_hide \<longrightarrow> \<not> te_stopOnRemove env" "distinct (mt_queue s3)"
    "\<forall>m\<in>set (mt_queue s3). m \<noteq> n" "tray_timers s3" "mt_updating s3 = busy"
    "tray_ctx env A s3"
    using assms q up an tm tray_ctx_mono [of env A s "s\<lparr>mt_notification := Some n, mt_queue := rest\<rparr>"]
    by (auto simp: s3_def s1_def b_def tray_inv_def tray_core_def tray_members_def)
  from updateShowingNotification_inv [OF this] obtain s4
    where s4: "updateShowingNotification upd env s3 = (s4, Returned)" "tray_inv env A busy s4"
    by (cases "updateShowingNotification upd env s3") auto
  define s5 where "s5 = s4\<lparr>mt_showMouse := te_pointer env, mt_lastSeen := te_pointer env\<rparr>"
  have s5: "tray_core s5" "tray_timers s5" "mt_updating s5 = busy" "tray_ctx env A s5"
    using s4(2) by (simp_all add: s5_def tray_inv_def)
  have "mt_showNotification upd env s = tthen (updateShowingNotification upd env s3)
      (\<lambda>s4. (resetNotificationLeftTimeout (s4\<lparr>mt_showMouse := te_pointer env, mt_lastSeen := te_pointer env\<rparr>), Returned))"
    using q by (simp add: mt_showNotification_def Let_def s3_def s1_def b_def active_def)
  then have "mt_showNotification upd env s = (resetNotificationLeftTimeout s5, Returned)"
    using s4(1) by (simp add: s5_def)
  then show ?thesis using s5 resetLeft_timers by (simp add: tray_inv_def)
qed

lemma updateStateBody_inv:
  assumes inv: "tray_inv env A busy s"
  shows "tray_inv env A busy (fst (updateStateBody upd env s)) \<and> snd (updateStateBody upd env s) = Returned"
proof (cases "mt_state s")
  case TS_HIDDEN
  with inv showNotification_inv [OF inv TS_HIDDEN] show ?thesis by (simp add: updateStateBody_def)
next
  case TS_HIDING
  with inv show ?thesis by (simp add: updateStateBody_def)
next
  case TS_SHOWING
  then have e: "bannerExpired s = Some (mt_expired s)" by (simp add: bannerExpired_def)
  from TS_SHOWING have "mt_state s = TS_SHOWING \<or> mt_state s = TS_SHOWN" by simp
  from hideNotification_inv [OF inv this] TS_SHOWING inv e show ?thesis by (simp add: updateStateBody_def)
next
  case TS_SHOWN
  with inv obtain n b where nb: "mt_notification s = Some n" "mt_banner s = Some b"
    by (auto simp: tray_inv_def tray_core_def split: option.splits)
  obtain x where x: "bannerExpired s = Some x" using nb by (cases "bannerExpired s") (auto simp: bannerExpired_def split: if_splits)
  from TS_SHOWN have "mt_state s = TS_SHOWING \<or> mt_state s = TS_SHOWN" by simp
  note h = hideNotification_inv [OF inv this]
  have "tray_inv env A busy (ensureBannerFocused s)" using inv by (simp add: ensureBannerFocused_def tray_inv_def)
  with h TS_SHOWN inv x nb expandBanner_inv [OF inv, of False] show ?thesis by (simp add: updateStateBody_def)
qed

end

interpretation nested: update_state "updateStateNested env" env A True for env A
  by unfold_locales (simp add: updateStateNested_def tray_inv_def)

lemma filterAcknowledged_inv:
  assumes "tray_inv env A busy s"
  shows "tray_inv env A busy (filterAcknowledged s)"
proof -
  have "tray_core (s\<lparr>mt_queue := [n \<leftarrow> mt_queue s. P n]\<rparr>)" for P
    using assms by (cases "mt_banner s") (auto simp: tray_inv_def tray_core_def)
  moreover have "tray_ctx env A (s\<lparr>mt_queue := [n \<leftarrow> mt_queue s. \<not> no_acknowledged (mt_notifs s n)]\<rparr>)"
    using assms by - (rule tray_ctx_mono [of env A s], auto simp: tray_inv_def tray_members_def)
  ultimately show ?thesis using assms by (simp add: filterAcknowledged_def Let_def tray_inv_def)
qed

lemma tray_updateState_inv:
  assumes "tray_inv env A False s"
  shows "tray_inv env A False (fst (mt_updateState env s)) \<and> snd (mt_updateState env s) = Returned"
proof -
  define s1 where "s1 = filterAcknowledged ((updateVisible env s)\<lparr>mt_updating := True\<rparr>)"
  have "tray_inv env A True ((updateVisible env s)\<lparr>mt_updating := True\<rparr>)"
    using assms by (simp add: tray_inv_def)
  then have "tray_inv env A True s1" by (simp add: s1_def filterAcknowledged_inv)
  from nested.updateStateBody_inv [OF this] obtain s2
    where s2: "updateStateBody (updateStateNested env) env s1 = (s2, Returned)" "tray_inv env A True s2"
    by (cases "updateStateBody (updateStateNested env) env s1") auto
  have "tray_inv env A False (s2\<lparr>mt_updating := False, mt_expired := False\<rparr>)"
    using s2(2) by (simp add: tray_inv_def)
  moreover have "tray_inv env A False (updateVisible env s)" using assms by (simp add: tray_inv_def)
  ultimately show ?thesis using s2(1) assms
    by (simp add: mt_updateState_def Let_def s1_def [symmetric])
qed

interpretation outer: update_state "mt_updateState env" env A False for env A
  by unfold_locales (rule tray_updateState_inv)

lemma updateState_fst: "tray_inv env A False s \<Longrightarrow> tray_inv env A False (fst (mt_updateState env s))"
  using tray_updateState_inv by blast

subsection \<open>Every event\<close>

lemma requestBanner_inv:
  assumes inv: "tray_inv env A False s" and n: "n \<in> A"
    and calm: "mt_notification s = Some n \<Longrightarrow> mt_state s = TS_HIDING \<Longrightarrow> \<not> te_stopOnRemove env"
  shows "tray_inv env A False (fst (onNotificationRequestBanner env n s))"
proof -
  have sh1: "tray_inv env A False (fst (tthen (updateShowingNotification (mt_updateState env) env s) (mt_updateState env)))"
    if sh: "mt_notification s = Some n"
  proof -
    obtain b where b: "mt_banner s = Some b" "ba_notification b = n"
      using inv sh by (auto simp: tray_inv_def tray_core_def split: option.splits)
    have "mt_anim s = TA_hide \<longrightarrow> \<not> te_stopOnRemove env" "distinct (mt_queue s)"
      "\<forall>m\<in>set (mt_queue s). m \<noteq> n" "tray_timers s" "mt_updating s = False" "tray_ctx env A s"
      using inv sh calm by (auto simp: tray_inv_def tray_core_def)
    from outer.updateShowingNotification_inv [OF sh b this] show ?thesis
      by (cases "updateShowingNotification (mt_updateState env) env s") (auto simp: updateState_fst)
  qed
  have queue: "tray_inv env A False (mt_do QueueChanged
      (s\<lparr>mt_queue := sort_key (\<lambda>m. - urgency_num (urgency_of s m)) (mt_queue s @ [n])\<rparr>))"
    if "mt_notification s \<noteq> Some n" and "n \<notin> set (mt_queue s)"
  proof -
    have "tray_core (s\<lparr>mt_queue := sort_key k (mt_queue s @ [n])\<rparr>)" for k :: "nat \<Rightarrow> int"
      using inv that by (cases "mt_banner s") (auto simp: tray_inv_def tray_core_def)
    moreover have "tray_ctx env A (s\<lparr>mt_queue := sort_key k (mt_queue s @ [n])\<rparr>)" for k :: "nat \<Rightarrow> int"
      using inv n by (auto simp: tray_inv_def tray_ctx_def tray_members_def)
    ultimately show ?thesis using inv by (simp add: tray_inv_def)
  qed
  show ?thesis
    using inv sh1 queue
    by (auto simp: onNotificationRequestBanner_def enqueueBanner_def Let_def updateState_fst)
qed

lemma setAcknowledged_inv:
  assumes inv: "tray_inv env A False s"
    and calm: "\<not> ack \<Longrightarrow> mt_notification s = Some n \<Longrightarrow> mt_state s = TS_HIDING \<Longrightarrow> \<not> te_stopOnRemove env"
  shows "tray_inv env A False (setAcknowledged env n ack s)"
proof -
  define s1 where "s1 = upd_notif n (\<lambda>x. x\<lparr>no_acknowledged := ack\<rparr>) s"
  define s2 where "s2 = mt_do (NotifyCount (no_source (mt_notifs s1 n))) s1"
  have s1: "tray_inv env A False s1" and s2: "tray_inv env A False s2"
    using inv by (simp_all add: s1_def s2_def tray_inv_def)
  have "n \<in> A" if "no_added (mt_notifs s1 n)"
    using that s1 by (auto simp: tray_inv_def tray_ctx_def tray_added_def)
  moreover have "mt_notification s2 = mt_notification s" "mt_state s2 = mt_state s" by (simp_all add: s2_def s1_def)
  ultimately show ?thesis
    using s1 s2 requestBanner_inv [OF s2, of n] calm
    by (simp add: setAcknowledged_def Let_def s1_def [symmetric] s2_def [symmetric])
qed

lemma addNotification_inv:
  assumes inv: "tray_inv env A False s" and n: "n \<notin> A"
  shows "tray_inv env A False (addNotification env i n s) \<or> tray_inv env (insert n A) False (addNotification env i n s)"
proof (cases "n \<in> set (ms_notifications (mt_msources s i))")
  case True
  with inv show ?thesis by (simp add: addNotification_def)
next
  case False
  define s1 where "s1 = (destroyOldest (mt_updateState env) env i NR_EXPIRED
      ^^ (Suc (length (ms_notifications (mt_msources s i))) - MAX_NOTIFICATIONS_PER_SOURCE)) s"
  define s2 where "s2 = mt_do (NotificationAdded n)
      (upd_msource i (\<lambda>m. m\<lparr>ms_notifications := ms_notifications m @ [n]\<rparr>) (upd_notif n (\<lambda>x. x\<lparr>no_added := True\<rparr>) s1))"
  have s1: "tray_inv env A False s1" unfolding s1_def by (rule outer.destroyOldest_pow_inv [OF inv])
  then have out: "mt_notification s1 \<noteq> Some n" using n by (auto simp: tray_inv_def tray_ctx_def tray_members_def)
  have s2: "tray_inv env (insert n A) False s2"
    using s1 by (auto simp: s2_def tray_inv_def tray_ctx_def tray_members_def)
  have "mt_notification s2 = mt_notification s1" by (simp add: s2_def)
  with out have "tray_inv env (insert n A) False (fst (onNotificationRequestBanner env n s2))"
    by (intro requestBanner_inv [OF s2]) auto
  with s2 False show ?thesis
    by (simp add: addNotification_def Let_def s1_def [symmetric] s2_def [symmetric]) (simp add: tray_inv_def)
qed

lemma inv_fold:
  "(\<And>k s. tray_inv env A b s \<Longrightarrow> tray_inv env A b (f k s)) \<Longrightarrow> tray_inv env A b s \<Longrightarrow> tray_inv env A b (fold f ks s)"
  by (induction ks arbitrary: s) auto

lemma destroyNonResident_inv:
  "tray_inv env A False s \<Longrightarrow> tray_inv env A False (destroyNonResidentNotifications env i s)"
  unfolding destroyNonResidentNotifications_def
  by (rule inv_fold) (auto simp: Let_def outer.destroyNotif_inv)

lemma inv_updateTimeout: "tray_inv env A b s \<Longrightarrow> tray_inv env A b (updateNotificationTimeout env t s)"
  by (auto simp: tray_inv_def updateNotificationTimeout_timers)

lemma hover_inv:
  assumes inv: "tray_inv env A False s"
  shows "tray_inv env A False (onNotificationHoverChanged env hover s)"
proof (cases "hover = mt_hovered s")
  case True
  with inv show ?thesis by (simp add: onNotificationHoverChanged_def)
next
  case differs: False
  have fr: "fresh_ids (te_ids env)" using inv tray_ctx_fresh by (auto simp: tray_inv_def)
  show ?thesis
  proof (cases hover)
    case True
    define s2 where "s2 = resetNotificationLeftTimeout (s\<lparr>mt_hovered := True\<rparr>)"
    have "tray_timers s2"
      using inv resetLeft_timers [of s]
      by (auto simp: s2_def tray_inv_def tray_timers_def resetNotificationLeftTimeout_def Let_def)
    then have "tray_inv env A False s2" using inv by (simp add: s2_def tray_inv_def)
    then have "tray_inv env A False (s2\<lparr>mt_showMouse := p, mt_useLonger := u\<rparr>)"
      and "tray_inv env A False (s2\<lparr>mt_showMouse := p, mt_pointerIn := u\<rparr>)"
      and "tray_inv env A False (s2\<lparr>mt_pointerIn := u\<rparr>)" for p u
      by (simp_all add: tray_inv_def)
    with True differs show ?thesis
      by (simp add: onNotificationHoverChanged_def Let_def s2_def [symmetric] updateState_fst)
  next
    case False
    define s1 where "s1 = s\<lparr>mt_hovered := False, mt_leftMouse := te_pointer env\<rparr>"
    have "tray_timers s1" "mt_leftTimeoutId s1 = 0"
      using inv False differs by (auto simp: s1_def tray_inv_def tray_timers_def)
    then have "tray_timers (addLeftTimeout env t s1)" for t
      by (rule addLeft_timers [OF fr]) (simp add: s1_def)
    then have "tray_inv env A False (addLeftTimeout env t s1)" for t
      using inv by (simp add: s1_def tray_inv_def)
    with False differs show ?thesis
      by (simp add: onNotificationHoverChanged_def Let_def s1_def)
  qed
qed

lemma leftTimeout_inv:
  assumes inv: "tray_inv env A False s" and left: "mt_leftTimeoutId s \<noteq> 0"
  shows "tray_inv env A False (onNotificationLeftTimeout env s)"
proof -
  let ?i = "mt_leftTimeoutId s" and ?j = "te_ids env (mt_trace s)"
  have fr: "fresh_ids (te_ids env)" using inv tray_ctx_fresh by (auto simp: tray_inv_def)
  have tm: "tray_timers s" using inv by (simp add: tray_inv_def)
  then have src: "sources (mt_trace s) = Some ({mt_timeoutId s, ?i} - {0})"
    and ne: "mt_timeoutId s \<noteq> ?i" and hov: "\<not> mt_hovered s"
    using left by (auto simp: tray_timers_def)
  have j: "?j \<noteq> 0 \<and> ?j \<notin> {mt_timeoutId s, ?i} - {0}" by (rule fresh_notin [OF fr src])
  have "tray_timers (s\<lparr>mt_leftMouse := p, mt_leftTimeoutId := ?j,
      mt_trace := mt_trace s @ [SourceAdd ?j t, SourceFired ?i]\<rparr>)" for p t
    using src ne hov j left by (auto simp: tray_timers_def)
  then have more: "tray_inv env A False (s\<lparr>mt_leftMouse := p, mt_leftTimeoutId := ?j,
      mt_trace := mt_trace s @ [SourceAdd ?j t, SourceFired ?i]\<rparr>)" for p t
    using inv by (simp add: tray_inv_def)
  have "tray_timers (s\<lparr>mt_leftTimeoutId := 0, mt_trace := mt_trace s @ [SourceFired ?i]\<rparr>)"
    using src ne hov left by (auto simp: tray_timers_def)
  then have "tray_inv env A False (s\<lparr>mt_leftTimeoutId := 0, mt_trace := mt_trace s @ [SourceFired ?i],
      mt_useLonger := False, mt_pointerIn := False\<rparr>)"
    using inv by (simp add: tray_inv_def)
  from updateState_fst [OF inv_updateTimeout [OF this]] more show ?thesis
    by (auto simp: onNotificationLeftTimeout_def Let_def addLeftTimeout_def split: prod.splits)
qed

lemma timeout_inv:
  assumes inv: "tray_inv env A False s" and t: "mt_timeoutId s \<noteq> 0"
  shows "tray_inv env A False (notificationTimeout env s)"
proof -
  have "tray_timers (s\<lparr>mt_timeoutId := 0, mt_trace := mt_trace s @ [SourceFired (mt_timeoutId s)]\<rparr>)"
    using inv t by (auto simp: tray_inv_def tray_timers_def)
  then have "tray_inv env A False (s\<lparr>mt_timeoutId := 0, mt_trace := mt_trace s @ [SourceFired (mt_timeoutId s)]\<rparr>)"
    using inv by (simp add: tray_inv_def)
  from updateState_fst [OF this] inv_updateTimeout [OF inv, of 1000]
  have "tray_inv env A False s1 \<Longrightarrow> tray_inv env A False (s1\<lparr>mt_lastSeen := p\<rparr>)" 
    "tray_inv env A False (fst (mt_updateState env (s\<lparr>mt_timeoutId := 0, mt_trace := mt_trace s @ [SourceFired (mt_timeoutId s)]\<rparr>)))"
    "tray_inv env A False (updateNotificationTimeout env 1000 s)" for s1 p
    by (simp_all add: tray_inv_def)
  then show ?thesis by (simp add: notificationTimeout_def Let_def split: prod.split)
qed

lemma inv_fields:
  assumes "tray_inv env A b s"
  shows "tray_inv env A b (s\<lparr>mt_busy := x\<rparr>)" "tray_inv env A b (s\<lparr>mt_expired := x\<rparr>)"
    "tray_inv env A b (s\<lparr>mt_bannerBlocked := x\<rparr>)" "tray_inv env A b (s\<lparr>mt_userActive := x\<rparr>)"
    "tray_inv env A b (s\<lparr>mt_watches := k\<rparr>)" "tray_inv env A b (s\<lparr>mt_touchscreen := x\<rparr>)"
    "tray_inv env A b (mt_do c s)" "tray_inv env A b (upd_msource i g s)" "tray_inv env A b (onSourceEnableChanged i s)"
    "tray_inv env A b (focusActorChanged f s)" "tray_inv env A b (grabFocus s)"
    "tray_inv env A b (upd_notif n (\<lambda>x. x\<lparr>no_urgency := u\<rparr>) s)"
    "tray_inv env A b (upd_notif n (\<lambda>x. x\<lparr>no_privacyScope := p\<rparr>) s)"
    "tray_inv env A b (upd_notif n (\<lambda>x. x\<lparr>no_actions := a x\<rparr>) s)"
  using assms by (simp_all add: tray_inv_def tray_ctx_def) (auto simp: tray_added_def upd_notif_def)

lemma animDone_inv:
  assumes inv: "tray_inv env A False s"
  shows "tray_inv env A False (animDone env s)"
proof (cases "mt_anim s")
  case TA_none
  with inv show ?thesis by (simp add: animDone_def Let_def)
next
  case TA_hide
  with inv obtain n b where nb: "mt_notification s = Some n" "mt_banner s = Some b"
    by (cases "mt_banner s") (auto simp: tray_inv_def tray_core_def)
  define s1 where "s1 = s\<lparr>mt_anim := TA_none\<rparr>"
  have "mt_notification s1 = Some n" "mt_banner s1 = Some b" "mt_anim s1 = TA_none" "distinct (mt_queue s1)"
    "tray_timers s1" "mt_updating s1 = False" "tray_ctx env A s1"
    using inv nb by (simp_all add: s1_def tray_inv_def tray_core_def)
  from outer.hideStopped_inv [OF this] show ?thesis using TA_hide by (simp add: animDone_def Let_def s1_def)
next
  case TA_show
  with inv obtain n b where nb: "mt_notification s = Some n" "mt_banner s = Some b" "ba_notification b = n"
    by (cases "mt_banner s") (auto simp: tray_inv_def tray_core_def)
  define s1 where "s1 = s\<lparr>mt_anim := TA_none\<rparr>"
  have "mt_notification s1 = Some n" "mt_banner s1 = Some b" "ba_notification b = n" "mt_anim s1 = TA_none"
    "distinct (mt_queue s1)" "\<forall>m\<in>set (mt_queue s1). m \<noteq> n"
    "tray_timers s1" "mt_updating s1 = False" "tray_ctx env A s1"
    using inv nb by (auto simp: s1_def tray_inv_def tray_core_def)
  from outer.showFinished_inv [OF this] show ?thesis using TA_show by (simp add: animDone_def Let_def s1_def)
qed

lemma hideMessage_inv:
  assumes inv: "tray_inv env A False s"
  shows "tray_inv env A False (onHideMessage env s)"
proof -
  have "mt_state s = TS_SHOWING \<or> mt_state s = TS_SHOWN" if "mt_banner s = Some b" "ba_connected b" for b
    using inv that by (cases "mt_state s") (auto simp: tray_inv_def tray_core_def)
  with inv outer.hideNotification_inv [OF inv] show ?thesis by (auto simp: onHideMessage_def split: option.split)
qed

lemma policyChanged_inv:
  assumes inv: "tray_inv env A False s"
  shows "tray_inv env A False (policyChanged env i p s)"
  using inv by (simp add: policyChanged_def Let_def inv_fields updateState_fst)

text \<open>
  A notification is requested again while its banner is being hidden by a transition that is
  cut short.
\<close>

definition rerequests :: "tray_env \<Rightarrow> tray_event \<Rightarrow> tray \<Rightarrow> bool" where
  "rerequests env ev s \<longleftrightarrow> te_stopOnRemove env \<and> mt_state s = TS_HIDING
     \<and> (case ev of TeAcknowledge n b \<Rightarrow> \<not> b \<and> mt_notification s = Some n | _ \<Rightarrow> False)"

definition tray_ok :: "tray \<Rightarrow> bool" where
  "tray_ok s \<longleftrightarrow> tray_core s \<and> tray_timers s \<and> \<not> mt_updating s \<and> tray_members s \<subseteq> tray_added s"

lemma tray_ok_inv: "tray_ok s \<Longrightarrow> fresh_ids (te_ids env) \<Longrightarrow> tray_inv env (tray_added s) False s"
  by (simp add: tray_ok_def tray_inv_def tray_ctx_def)

lemma tray_inv_ok: "tray_inv env A False s \<Longrightarrow> tray_ok s"
  by (auto simp: tray_ok_def tray_inv_def tray_ctx_def)

lemma tray_step_ok:
  assumes ok: "tray_ok s" and fr: "fresh_ids (te_ids env)" and calm: "\<not> rerequests env ev s"
  shows "tray_ok (tray_step env ev s)"
proof -
  note inv = tray_ok_inv [OF ok fr]
  have destroy: "tray_ok (destroyNotif (mt_updateState env) env n r s')" if "tray_inv env (tray_added s) False s'" for n r s'
    using outer.destroyNotif_inv [OF that] tray_inv_ok by blast
  show ?thesis
  proof (cases ev)
    case (TeNotify n)
    have "n \<notin> tray_added s" if "\<not> no_added (mt_notifs s n)" using that by (simp add: tray_added_def)
    with TeNotify ok addNotification_inv [OF inv, of n] tray_inv_ok show ?thesis by fastforce
  next
    case (TeAcknowledge n b)
    have "tray_inv env (tray_added s) False (setAcknowledged env n b s)"
      using calm TeAcknowledge by (intro setAcknowledged_inv [OF inv]) (auto simp: rerequests_def)
    with TeAcknowledge ok tray_inv_ok show ?thesis by auto
  next
    case (TeRemoveAction n a)
    have "tray_ok (mt_do (ActionRemoved n a) (upd_notif n (\<lambda>x. x\<lparr>no_actions := js_remove_at k (no_actions x)\<rparr>) s))" for k
      by (rule tray_inv_ok [OF inv_fields(7) [OF inv_fields(14) [OF inv]]])
    with TeRemoveAction ok show ?thesis by (simp add: removeAction_def Let_def)
  next
    case (TeClearActions n)
    have "tray_inv env (tray_added s) False (fold (\<lambda>a. mt_do (ActionRemoved n a)) as s)" for as
      by (rule inv_fold [OF _ inv]) (rule inv_fields)
    from tray_inv_ok [OF inv_fields(14) [OF this]] TeClearActions ok show ?thesis by (simp add: clearActions_def)
  next
    case (TeTouchBanner)
    have "tray_core (s\<lparr>mt_banner := map_option (ba_touched_update (\<lambda>_. True)) (mt_banner s)\<rparr>)"
      using ok by (cases "mt_banner s") (auto simp: tray_ok_def tray_core_def)
    with TeTouchBanner ok show ?thesis by (simp add: tray_ok_def)
  next
    case TeUserActive
    have "tray_ok (onIdleMonitorBecameActive env (s\<lparr>mt_watches := k\<rparr>))" for k
      unfolding onIdleMonitorBecameActive_def
      by (rule tray_inv_ok [OF updateState_fst [OF inv_updateTimeout [OF inv_fields(4) [OF inv_fields(5) [OF inv]]]]])
    with TeUserActive ok show ?thesis by (simp split: nat.split)
  next
    case TeExpand
    have "mt_notification s \<noteq> None" if "mt_banner s \<noteq> None"
      using ok that by (auto simp: tray_ok_def tray_core_def split: option.splits)
    with TeExpand ok outer.expandBanner_inv [OF inv, of False] show ?thesis
      by (auto simp: expandActiveNotification_def intro!: tray_inv_ok [of env "tray_added s"])
  qed (use ok inv in \<open>auto simp: mt_add_def setUrgency_def setPrivacyScope_def addAction_def notifActivate_def
        actionActivated_def expireNotification_def setBannerBlocked_def onStatusChanged_def lastDeviceChanged_def
        inv_fields inv_updateTimeout updateState_fst destroyNonResident_inv hover_inv leftTimeout_inv timeout_inv
        animDone_inv hideMessage_inv policyChanged_inv outer.destroySource_inv Let_def
        intro!: tray_inv_ok [of env "tray_added s"] destroy split: option.split\<close>)
qed

subsection \<open>Reachable states\<close>

inductive tray_reach :: "tray \<Rightarrow> tray \<Rightarrow> bool" for s0 where
  reach_refl: "tray_reach s0 s0"
| reach_step: "tray_reach s0 s \<Longrightarrow> fresh_ids (te_ids env) \<Longrightarrow> \<not> rerequests env ev s \<Longrightarrow>
     tray_reach s0 (tray_step env ev s)"

definition no_added_yet :: "(nat \<Rightarrow> notif) \<Rightarrow> bool" where
  "no_added_yet ns \<longleftrightarrow> (\<forall>n. \<not> no_added (ns n))"

lemma newTray_ok: "fresh_ids (te_ids env) \<Longrightarrow> tray_ok (newTray env ns ms)"
  unfolding newTray_def
  by (rule tray_inv_ok [of env "{n. no_added (ns n)}"], rule updateState_fst)
    (simp add: tray_inv_def tray_core_def tray_timers_def tray_ctx_def tray_members_def tray_added_def)

lemma tray_ok_reach: "tray_reach s0 s \<Longrightarrow> tray_ok s0 \<Longrightarrow> tray_ok s"
  by (induction rule: tray_reach.induct) (auto intro: tray_step_ok)

text \<open>C16: In every state that the tray reaches by events in any order, unless a notification is
  requested again while a transition hides it, there is a banner exactly when there is a current
  notification and the tray is not hidden, the transition in progress is the one of the state, the queue holds
  every notification once and not the shown one, \<open>_updateState\<close> is not left locked, and the sources
  of the main loop are exactly the two timers that the tray remembers.\<close>

theorem tray_consistent:
  assumes "fresh_ids (te_ids env)" and "tray_reach (newTray env ns ms) s"
  shows "(mt_state s = TS_HIDDEN) = (mt_notification s = None) \<and> map_option ba_notification (mt_banner s) = mt_notification s
    \<and> (mt_anim s = TA_hide) = (mt_state s = TS_HIDING) \<and> (mt_anim s = TA_show) = (mt_state s = TS_SHOWING)
    \<and> distinct (mt_queue s) \<and> \<not> list_ex (\<lambda>n. mt_notification s = Some n) (mt_queue s) \<and> \<not> mt_updating s
    \<and> sources (mt_trace s) = Some ({mt_timeoutId s, mt_leftTimeoutId s} - {0})
    \<and> (if mt_timeoutId s = mt_leftTimeoutId s then mt_timeoutId s = 0 else True)"
proof -
  have "tray_ok s" using tray_ok_reach [OF assms(2) newTray_ok [OF assms(1)]] .
  then have core: "tray_core s" and tm: "tray_timers s" and up: "\<not> mt_updating s" by (simp_all add: tray_ok_def)
  have "map_option ba_notification (mt_banner s) = mt_notification s"
    using core by (cases "mt_banner s") (auto simp: tray_core_def)
  moreover have "\<not> list_ex (\<lambda>n. mt_notification s = Some n) (mt_queue s)"
    using core by (auto simp: tray_core_def list_ex_iff)
  ultimately show ?thesis using core tm up by (simp add: tray_core_def tray_timers_def)
qed

end
