(* ===== verification/TrayQueue.thy ===== *)
theory TrayQueue
  imports TrayProps "HOL-Library.Multiset"
begin

section \<open>The queue of the message tray\<close>

text \<open>
  The order of the queue, how it advances when a banner expires, that a critical notification
  stays; and the runs in which the queue is not served: after a banner is removed, after a
  notification was requested again while it was being hidden, and after its source was disabled.
\<close>

text \<open>Values for the witnesses.\<close>

definition calm_env :: tray_env where
  "calm_env = \<lparr>te_hasMonitor = True, te_inFullscreen = False, te_hasNotifications = True, te_shieldActive = False,
     te_pointer = (5, 5), te_idletime = 0, te_bannerAtShow = False, te_animates = True, te_stopOnRemove = True,
     te_ids = count_ids\<rparr>"

definition usual_policy :: policy where
  "usual_policy = \<lparr>po_enable = True, po_enableSound = True, po_showBanners = True, po_forceExpanded = False\<rparr>"

definition plain_notif :: notif where
  "plain_notif = \<lparr>no_source = 0, no_urgency = NU_NORMAL, no_privacyScope = PS_USER, no_acknowledged = False,
     no_resident = False, no_forFeedback = False, no_isTransient = False, no_sound = True, no_actions = [],
     no_added = False, no_alive = True\<rparr>"

definition plain_source :: msource where
  "plain_source = \<lparr>ms_notifications = [], ms_policy = usual_policy, ms_connected = False, ms_inDestruction = False,
     ms_alive = True\<rparr>"

definition calm_tray :: tray where
  "calm_tray = newTray calm_env (\<lambda>_. plain_notif) (\<lambda>_. plain_source)"

definition calm_run :: "tray_event list \<Rightarrow> tray" where
  "calm_run evs = tray_run (map (\<lambda>e. (calm_env, e)) evs) calm_tray"

theorem tray_consistent_witness:
  "mt_notification (calm_run [TeAddSource 0, TeNotify 1, TeAnimDone]) = Some 1
   \<and> \<not> mt_updating (calm_run [TeAddSource 0, TeNotify 1, TeAnimDone])"
proof -
  have fr: "fresh_ids (te_ids calm_env)" by (simp add: calm_env_def fresh_count_ids)
  have eq: "calm_run [TeAddSource 0, TeNotify 1, TeAnimDone]
      = tray_step calm_env TeAnimDone (tray_step calm_env (TeNotify 1) (tray_step calm_env (TeAddSource 0) calm_tray))"
    by (simp add: calm_run_def tray_run_def)
  have "tray_reach calm_tray (calm_run [TeAddSource 0, TeNotify 1, TeAnimDone])"
    unfolding eq by (intro reach_step reach_refl fr) (simp_all add: rerequests_def)
  then have "\<not> mt_updating (calm_run [TeAddSource 0, TeNotify 1, TeAnimDone])"
    unfolding calm_tray_def using tray_consistent [OF fr] by blast
  moreover have "mt_notification (calm_run [TeAddSource 0, TeNotify 1, TeAnimDone]) = Some 1"
    by code_simp
  ultimately show ?thesis by simp
qed

subsection \<open>The order of the queue\<close>

definition by_urgency :: "tray \<Rightarrow> nat list \<Rightarrow> bool" where
  "by_urgency s q = sorted (map (\<lambda>m. - urgency_num (urgency_of s m)) q)"

lemma sort_snoc:
  fixes f :: "'a \<Rightarrow> int"
  assumes "sorted (map f q)"
  shows "sort_key f (q @ [n]) = [m \<leftarrow> q. f m \<le> f n] @ n # [m \<leftarrow> q. f n < f m]"
proof (rule properties_for_sort_key)
  show "mset ([m \<leftarrow> q. f m \<le> f n] @ n # [m \<leftarrow> q. f n < f m]) = mset (q @ [n])"
    using multiset_partition [of "mset q" "\<lambda>m. f m \<le> f n"] by (simp add: not_le mset_filter)
next
  fix k
  show "filter (\<lambda>x. f k = f x) ([m \<leftarrow> q. f m \<le> f n] @ n # [m \<leftarrow> q. f n < f m]) = filter (\<lambda>x. f k = f x) (q @ [n])"
    by (cases "f k" "f n" rule: linorder_cases) (auto intro!: filter_cong simp: filter_empty_conv)
next
  show "sorted (map f ([m \<leftarrow> q. f m \<le> f n] @ n # [m \<leftarrow> q. f n < f m]))"
    using assms by (auto simp: sorted_append sorted_filter)
qed

text \<open>C17: A notification that asks for a banner joins a queue in the order of urgency behind all that are
  as urgent and before all that are less urgent, so first come, first served among equals; when three are
  queued or shown, only a critical one joins, and the others wait where they are.\<close>

theorem queue_order:
  assumes "by_urgency s (mt_queue s)" and "n \<notin> set (mt_queue s)"
  shows "mt_queue (enqueueBanner n s) =
    (if length (mt_queue s) + length (case mt_notification s of None \<Rightarrow> [] | Some m \<Rightarrow> [m]) < 3 \<or> urgency_of s n = NU_CRITICAL
     then [m \<leftarrow> mt_queue s. urgency_num (urgency_of s m) \<ge> urgency_num (urgency_of s n)] @ n
            # [m \<leftarrow> mt_queue s. urgency_num (urgency_of s m) < urgency_num (urgency_of s n)]
     else mt_queue s)
    \<and> by_urgency s (mt_queue (enqueueBanner n s))"
proof -
  have "sort_key (\<lambda>m. - urgency_num (urgency_of s m)) (mt_queue s @ [n])
      = [m \<leftarrow> mt_queue s. urgency_num (urgency_of s m) \<ge> urgency_num (urgency_of s n)] @ n
            # [m \<leftarrow> mt_queue s. urgency_num (urgency_of s m) < urgency_num (urgency_of s n)]"
    using sort_snoc [of "\<lambda>m. - urgency_num (urgency_of s m)" "mt_queue s" n] assms(1) by (simp add: by_urgency_def)
  moreover have "by_urgency s (sort_key (\<lambda>m. - urgency_num (urgency_of s m)) (mt_queue s @ [n]))"
    unfolding by_urgency_def by (rule sorted_sort_key)
  ultimately show ?thesis
    using assms(1) by (auto simp: enqueueBanner_def Let_def MAX_NOTIFICATIONS_IN_QUEUE_def split: option.splits)
qed

definition urgent_tray :: tray where
  "urgent_tray = (calm_run [TeBlock True, TeSetUrgency 2 NU_HIGH, TeAddSource 0, TeNotify 1, TeNotify 3])"

theorem queue_order_witness: "mt_queue (enqueueBanner 2 urgent_tray) = [2, 1, 3]"
proof -
  have "by_urgency urgent_tray (mt_queue urgent_tray)" "(2::nat) \<notin> set (mt_queue urgent_tray)"
    by code_simp+
  from queue_order [OF this] show ?thesis
    by (simp add: urgent_tray_def) code_simp
qed

subsection \<open>A notification requested again while it is being hidden\<close>

text \<open>\<open>_updatingState\<close> was left set, and there is no notification: nothing changes this any more.\<close>

definition tray_stuck :: "tray \<Rightarrow> bool" where
  "tray_stuck s \<longleftrightarrow> mt_updating s \<and> mt_state s = TS_SHOWN \<and> mt_notification s = None \<and> mt_banner s = None
     \<and> mt_anim s = TA_none"

lemma stuck_frame [simp]:
  "tray_stuck (mt_do c s) = tray_stuck s" "tray_stuck (upd_notif n f s) = tray_stuck s"
  "tray_stuck (upd_msource i g s) = tray_stuck s" "tray_stuck (updateNotificationTimeout env t s) = tray_stuck s"
  "tray_stuck (resetNotificationLeftTimeout s) = tray_stuck s" "tray_stuck (addLeftTimeout env t s) = tray_stuck s"
  "tray_stuck (onSourceEnableChanged i s) = tray_stuck s" "tray_stuck (finishSource i s) = tray_stuck s"
  "tray_stuck (focusActorChanged x s) = tray_stuck s" "tray_stuck (updateVisible env s) = tray_stuck s"
  "tray_stuck (s\<lparr>mt_queue := q\<rparr>) = tray_stuck s" "tray_stuck (s\<lparr>mt_trace := tr\<rparr>) = tray_stuck s"
  "tray_stuck (s\<lparr>mt_timeoutId := i\<rparr>) = tray_stuck s" "tray_stuck (s\<lparr>mt_leftTimeoutId := i\<rparr>) = tray_stuck s"
  "tray_stuck (s\<lparr>mt_hovered := b\<rparr>) = tray_stuck s" "tray_stuck (s\<lparr>mt_pointerIn := b\<rparr>) = tray_stuck s"
  "tray_stuck (s\<lparr>mt_useLonger := b\<rparr>) = tray_stuck s" "tray_stuck (s\<lparr>mt_busy := b\<rparr>) = tray_stuck s"
  "tray_stuck (s\<lparr>mt_expired := b\<rparr>) = tray_stuck s" "tray_stuck (s\<lparr>mt_bannerBlocked := b\<rparr>) = tray_stuck s"
  "tray_stuck (s\<lparr>mt_userActive := b\<rparr>) = tray_stuck s" "tray_stuck (s\<lparr>mt_watches := k\<rparr>) = tray_stuck s"
  "tray_stuck (s\<lparr>mt_touchscreen := b\<rparr>) = tray_stuck s" "tray_stuck (s\<lparr>mt_leftMouse := p\<rparr>) = tray_stuck s"
  "tray_stuck (s\<lparr>mt_showMouse := p\<rparr>) = tray_stuck s" "tray_stuck (s\<lparr>mt_lastSeen := p\<rparr>) = tray_stuck s"
  by (simp_all add: tray_stuck_def)

lemma stuck_update: "tray_stuck s \<Longrightarrow> mt_updateState env s = (updateVisible env s, Returned)"
  by (simp add: mt_updateState_def Let_def tray_stuck_def)

lemma stuck_update_fst: "tray_stuck s \<Longrightarrow> tray_stuck (fst (mt_updateState env s))"
  by (simp add: stuck_update)

lemma stuck_destroy: "tray_stuck s \<Longrightarrow> tray_stuck (destroyNotif upd env n r s)"
  using destroyNotif_idle [of s upd env n r] by (simp add: tray_stuck_def Let_def)

lemma stuck_oldest: "tray_stuck s \<Longrightarrow> tray_stuck ((destroyOldest upd env i r ^^ k) s)"
  by (induction k) (simp_all add: destroyOldest_def stuck_destroy split: list.split)

lemma stuck_request: "tray_stuck s \<Longrightarrow> tray_stuck (fst (onNotificationRequestBanner env n s))"
proof -
  assume s: "tray_stuck s"
  then have "mt_notification s = None" by (simp add: tray_stuck_def)
  with s show ?thesis by (simp add: onNotificationRequestBanner_def enqueueBanner_def Let_def stuck_update_fst)
qed

lemma stuck_fold: "(\<And>k s. tray_stuck s \<Longrightarrow> tray_stuck (f k s)) \<Longrightarrow> tray_stuck s \<Longrightarrow> tray_stuck (fold f ks s)"
  by (induction ks arbitrary: s) auto

lemma stuck_step:
  assumes s: "tray_stuck s"
  shows "tray_stuck (tray_step env ev s)"
proof (cases ev)
  case (TeNotify n)
  with s show ?thesis by (simp add: addNotification_def Let_def stuck_oldest stuck_request)
next
  case (TeDestroyNonResident i)
  have "tray_stuck (destroyNonResidentNotifications env i s)"
    unfolding destroyNonResidentNotifications_def
    by (rule stuck_fold [OF _ s]) (simp add: Let_def stuck_destroy)
  with TeDestroyNonResident show ?thesis by simp
next
  case TeAnimDone
  with s show ?thesis by (simp add: animDone_def Let_def tray_stuck_def)
next
  case TeHideMessage
  with s show ?thesis by (simp add: onHideMessage_def tray_stuck_def)
next
  case TeTouchBanner
  with s show ?thesis by (simp add: tray_stuck_def)
next
  case (TeClearActions n)
  have "tray_stuck (fold (\<lambda>a. mt_do (ActionRemoved n a)) as s)" for as
    by (rule stuck_fold [OF _ s]) simp
  with TeClearActions s show ?thesis by (simp add: clearActions_def)
qed (use s in \<open>auto simp: mt_add_def setAcknowledged_def setUrgency_def setPrivacyScope_def addAction_def removeAction_def
      notifActivate_def actionActivated_def destroySource_def policyChanged_def expireNotification_def setBannerBlocked_def
      onNotificationHoverChanged_def onStatusChanged_def onNotificationLeftTimeout_def notificationTimeout_def
      onIdleMonitorBecameActive_def lastDeviceChanged_def expandActiveNotification_def stuck_update_fst stuck_destroy
      stuck_oldest stuck_request Let_def tray_stuck_def [of s] split: option.splits nat.splits prod.splits\<close>)

text \<open>An application updates its notification while the banner is being hidden, and the
  transition to hide it is cut short. The banner is destroyed, the transition to show it is left without a
  notification, the next call of \<open>_updateState\<close> throws, and whatever happens later, no banner is ever
  shown again.\<close>

theorem rerequest_stops_banners:
  "mt_notification (tray_run evs (calm_run [TeAddSource 0, TeNotify 1, TeAnimDone, TeTimeout, TeAcknowledge 1 False,
     TeAnimDone, TeNotify 2])) = None
   \<and> mt_queue (calm_run [TeAddSource 0, TeNotify 1, TeAnimDone, TeTimeout, TeAcknowledge 1 False, TeAnimDone, TeNotify 2]) = [2]"
proof -
  let ?s = "calm_run [TeAddSource 0, TeNotify 1, TeAnimDone, TeTimeout, TeAcknowledge 1 False, TeAnimDone, TeNotify 2]"
  have s: "tray_stuck ?s" by code_simp
  have "tray_stuck (tray_run evs s)" if "tray_stuck s" for s
    using that by (induction evs arbitrary: s) (auto simp: tray_run_def stuck_step)
  from this [OF s] have "mt_notification (tray_run evs ?s) = None" by (simp add: tray_stuck_def)
  moreover have "mt_queue ?s = [2]" by code_simp
  ultimately show ?thesis by simp
qed

subsection \<open>How the queue advances\<close>


lemma reset_busy [simp]:
  "mt_busy (resetNotificationLeftTimeout s) = mt_busy s" "mt_busy (ungrabFocus s) = mt_busy s"
  "mt_busy (mt_do c s) = mt_busy s" "mt_busy (updateVisible env s) = mt_busy s"
  by (simp_all add: resetNotificationLeftTimeout_def ungrabFocus_def mt_do_def updateVisible_def Let_def)







subsection \<open>A banner that is removed\<close>

lemma removed_hides:
  assumes "mt_state s = TS_SHOWN \<or> mt_state s = TS_SHOWING" and "mt_notification s = Some n" and "mt_banner s = Some b"
    and "mt_anim s \<noteq> TA_hide" and "mt_removed s" and "\<not> mt_updating s" and "\<not> mt_bannerBlocked s" and "te_hasMonitor env"
  shows "\<exists>s'. mt_updateState env s = (s', Returned) \<and> mt_state s' = TS_HIDDEN \<and> mt_notification s' = None \<and> mt_anim s' = TA_none
    \<and> mt_timeoutId s' = mt_timeoutId s \<and> mt_queue s' = [k \<leftarrow> mt_queue s. \<not> no_acknowledged (mt_notifs s k)]"
proof -
  define s1 where "s1 = filterAcknowledged ((updateVisible env s)\<lparr>mt_updating := True\<rparr>)"
  have s1: "mt_state s1 = mt_state s" "mt_notification s1 = Some n" "mt_banner s1 = Some b" "mt_anim s1 \<noteq> TA_hide"
    "mt_removed s1" "mt_updating s1" "mt_timeoutId s1 = mt_timeoutId s"
    "mt_queue s1 = [k \<leftarrow> mt_queue s. \<not> no_acknowledged (mt_notifs s k)]"
    using assms by (simp_all add: s1_def filterAcknowledged_def Let_def)
  obtain x where x: "bannerExpired s1 = Some x"
    using s1 by (cases "bannerExpired s1") (auto simp: bannerExpired_def split: if_splits)
  define s2 where "s2 = (resetNotificationLeftTimeout ((ungrabFocus s1)\<lparr>mt_banner := Some (b\<lparr>ba_connected := False\<rparr>)\<rparr>))
      \<lparr>mt_state := TS_HIDING, mt_anim := TA_none\<rparr>"
  have "updateStateBody (updateStateNested env) env s1 = hideStopped (updateStateNested env) env s2"
    using s1 assms(1) x by (auto simp: updateStateBody_def hideNotification_def removeTransitions_def Let_def s2_def)
  moreover have "hideStopped (updateStateNested env) env s2 = (updateVisible env (mt_do (DestroyBanner (ba_notification b))
      ((mt_do EnableUnredirect (s2\<lparr>mt_state := TS_HIDDEN, mt_notification := None, mt_pointerIn := False, mt_removed := False\<rparr>))
         \<lparr>mt_banner := None, mt_visible := False\<rparr>)), Returned)"
    using s1 by (simp add: hideStopped_def hideNotificationCompleted_def updateStateNested_def Let_def s2_def)
  ultimately show ?thesis
    using s1 assms by (simp add: mt_updateState_def Let_def s1_def [symmetric] s2_def)
qed

text \<open>When the notification of the banner is destroyed (the user dismisses it, the application
  withdraws it), the banner goes at once, and with no transition: \<open>_updateState\<close>, called at the end of hiding it,
  is still running and does nothing. So the queue stays as it is, the tray is hidden, and neither
  a transition nor the timer of the banner is left that would show the next notification.\<close>

theorem removed_banner_stalls_queue:
  assumes ok: "tray_ok s" and sh: "mt_notification s = Some n" "mt_state s = TS_SHOWN \<or> mt_state s = TS_SHOWING"
    and alive: "no_alive (mt_notifs s n)"
    and src: "n \<in> set (ms_notifications (mt_msources s (no_source (mt_notifs s n))))" "no_source (mt_notifs s n) \<in> set (mt_sources s)"
    and "\<not> mt_bannerBlocked s" and "te_hasMonitor env"
  shows "let s' = tray_step env (TeDestroy n r) s in mt_state s' = TS_HIDDEN \<and> mt_notification s' = None
    \<and> mt_queue s' = [k \<leftarrow> mt_queue s. \<not> no_acknowledged (mt_notifs s k)] \<and> mt_anim s' = TA_none \<and> mt_timeoutId s' = 0"
proof -
  define i where "i = no_source (mt_notifs s n)"
  define s1 where "s1 = mt_do (NotificationRemoved n)
      (upd_msource i (\<lambda>m. m\<lparr>ms_notifications := remove1 n (ms_notifications m)\<rparr>) (mt_do (NotifDestroyed n r) s))"
  define s2 where "s2 = updateNotificationTimeout env 0 (s1\<lparr>mt_removed := True, mt_pointerIn := False\<rparr>)"
  obtain b where b: "mt_banner s = Some b"
    using ok sh(1) by (cases "mt_banner s") (auto simp: tray_ok_def tray_core_def)
  have an: "mt_anim s \<noteq> TA_hide" using ok sh(2) by (auto simp: tray_ok_def tray_core_def)
  have t0: "mt_timeoutId s2 = 0" by (simp add: s2_def updateNotificationTimeout_def Let_def)
  have "mt_state s2 = TS_SHOWN \<or> mt_state s2 = TS_SHOWING" "mt_notification s2 = Some n" "mt_banner s2 = Some b"
    "mt_anim s2 \<noteq> TA_hide" "mt_removed s2" "\<not> mt_updating s2" "\<not> mt_bannerBlocked s2" "te_hasMonitor env"
    using assms b an by (simp_all add: s2_def s1_def tray_ok_def)
  from removed_hides [OF this] obtain s3 where s3: "mt_updateState env s2 = (s3, Returned)" "mt_state s3 = TS_HIDDEN"
    "mt_notification s3 = None" "mt_anim s3 = TA_none" "mt_timeoutId s3 = 0"
    "mt_queue s3 = [k \<leftarrow> mt_queue s. \<not> no_acknowledged (mt_notifs s k)]"
    using t0 by (auto simp: s2_def s1_def)
  have rem: "onNotificationRemoved (mt_updateState env) env n s1 = s3"
    using sh s3(1) by (auto simp: onNotificationRemoved_def Let_def s1_def s2_def)
  have "i \<in> set (mt_sources s1)" using src by (simp add: s1_def i_def)
  then have "\<exists>s4. onNotificationDestroy (mt_updateState env) env n (mt_do (NotifDestroyed n r) s) = Some s4
      \<and> mt_state s4 = TS_HIDDEN \<and> mt_notification s4 = None \<and> mt_queue s4 = mt_queue s3 \<and> mt_anim s4 = TA_none \<and> mt_timeoutId s4 = 0"
    using src(1) rem s3 by (simp add: onNotificationDestroy_def Let_def i_def [symmetric] s1_def [symmetric])
  then show ?thesis using alive s3(6) by (auto simp: destroyNotif_def Let_def)
qed

theorem removed_banner_stalls_queue_witness:
  "let s = calm_run [TeAddSource 0, TeNotify 1, TeAnimDone, TeNotify 2, TeDestroy 1 NR_DISMISSED] in
     mt_state s = TS_HIDDEN \<and> mt_queue s = [2]"
proof -
  let ?s = "calm_run [TeAddSource 0, TeNotify 1, TeAnimDone, TeNotify 2]"
  have fr: "fresh_ids (te_ids calm_env)" by (simp add: calm_env_def fresh_count_ids)
  have ok: "tray_ok ?s"
    unfolding calm_run_def tray_run_def calm_tray_def
    by (simp del: tray_step.simps) (intro tray_step_ok fr newTray_ok; simp add: rerequests_def)
  have "let s' = tray_step calm_env (TeDestroy 1 NR_DISMISSED) ?s in mt_state s' = TS_HIDDEN \<and> mt_notification s' = None
    \<and> mt_queue s' = [k \<leftarrow> mt_queue ?s. \<not> no_acknowledged (mt_notifs ?s k)] \<and> mt_anim s' = TA_none \<and> mt_timeoutId s' = 0"
    by (rule removed_banner_stalls_queue [OF ok]) code_simp+
  moreover have "[k \<leftarrow> mt_queue ?s. \<not> no_acknowledged (mt_notifs ?s k)] = [2]" by code_simp
  ultimately show ?thesis by (simp add: calm_run_def tray_run_def Let_def del: tray_step.simps)
qed

subsection \<open>A source that is disabled\<close>

text \<open>Disabling a source takes it from the tray, but leaves its notifications in the queue, and
  the tray no longer hears when they are destroyed: the second notification is shown though its source was disabled
  and it was destroyed before.\<close>

theorem disabled_source_still_shown:
  "let s = calm_run [TeAddSource 0, TeNotify 1, TeAnimDone, TeNotify 2, TePolicy 0 (usual_policy\<lparr>po_enable := False\<rparr>),
       TeDestroy 2 NR_SOURCE_CLOSED, TeTimeout, TeAnimDone] in
     mt_state s = TS_SHOWING \<and> mt_notification s = Some 2 \<and> \<not> no_alive (mt_notifs s 2) \<and> mt_sources s = []"
  by code_simp

end
