(* ===== verification/Akima.thy ===== *)
theory Akima
  imports Prelude
begin

section \<open>Akima interpolation (\<open>js/dbusServices/sensorDaemon/akima.js\<close>)\<close>

text \<open>
  The spline that maps ambient light to brightness, over the reals; for an argument that may be \<open>NaN\<close> there is
  \<open>evaluateNumber\<close>, which throws like the code. The values of the points are numbers. The results: the search finds a key of an ordered
  array and otherwise the place where it belongs; the spline goes through its points, its pieces meet
  with the same slope, and it reproduces straight lines; and arrays that are not ordered are accepted.
\<close>

text \<open>The loop of \<open>binarySearch\<close> on the bounds \<open>low\<close> and \<open>high\<close>.\<close>

function searchBetween :: "real list \<Rightarrow> real \<Rightarrow> int \<Rightarrow> int \<Rightarrow> int" where
  "searchBetween a key low high =
     (if low > high then - (low + 1)
      else let mid = (low + high) div 2; midVal = a ! nat mid
           in if midVal < key then searchBetween a key (mid + 1) high
              else if midVal > key then searchBetween a key low (mid - 1)
              else mid)"
  by pat_completeness auto

termination
  by (relation "measure (\<lambda>(a, key, low, high). nat (high - low + 1))") (auto simp: div_le_dividend)

declare searchBetween.simps [simp del]

definition binarySearch :: "real list \<Rightarrow> real \<Rightarrow> int" where
  "binarySearch a key = searchBetween a key 0 (int (length a) - 1)"

datatype order_direction = INCREASING | DECREASING

definition outOfOrder :: "order_direction \<Rightarrow> bool \<Rightarrow> real \<Rightarrow> real \<Rightarrow> bool" where
  "outOfOrder dir strict previous v =
     (case dir of
        INCREASING \<Rightarrow> if strict then v \<le> previous else v < previous
      | DECREASING \<Rightarrow> if strict then v \<ge> previous else v > previous)"

fun orderedFrom :: "order_direction \<Rightarrow> bool \<Rightarrow> real \<Rightarrow> real list \<Rightarrow> bool" where
  "orderedFrom dir strict previous [] = True"
| "orderedFrom dir strict previous (v # vs) =
     (if outOfOrder dir strict previous v then False else orderedFrom dir strict v vs)"

datatype akima_error = NotOrdered | DifferentSizes | TooFewPoints

definition checkOrder :: "real list \<Rightarrow> order_direction \<Rightarrow> bool \<Rightarrow> bool \<Rightarrow> akima_error + bool" where
  "checkOrder val dir strict abort =
     (if (case val of [] \<Rightarrow> False | v # vs \<Rightarrow> orderedFrom dir strict v vs) then Inr True
      else if abort then Inl NotOrdered else Inr False)"

subsection \<open>The coefficients\<close>

definition EPSILON :: real where "EPSILON = 1 / 2 ^ 52"

definition differentiateThreePoint :: "real list \<Rightarrow> real list \<Rightarrow> nat \<Rightarrow> nat \<Rightarrow> nat \<Rightarrow> nat \<Rightarrow> real" where
  "differentiateThreePoint xvals yvals i i0 i1 i2 =
     (let x0 = yvals ! i0; x1 = yvals ! i1; x2 = yvals ! i2;
          t = xvals ! i - xvals ! i0; t1 = xvals ! i1 - xvals ! i0; t2 = xvals ! i2 - xvals ! i0;
          a = (x2 - x0 - (t2 / t1 * (x1 - x0))) / (t2 * t2 - t1 * t2);
          b = (x1 - x0 - a * t1 * t1) / t1
      in 2 * a * t + b)"

definition akimaDifferences :: "real list \<Rightarrow> real list \<Rightarrow> real list" where
  "akimaDifferences xvals yvals =
     map (\<lambda>i. (yvals ! (i + 1) - yvals ! i) / (xvals ! (i + 1) - xvals ! i)) [0..<length xvals - 1]"

text \<open>The first weight is never read.\<close>

definition akimaWeights :: "real list \<Rightarrow> real list" where
  "akimaWeights differences =
     map (\<lambda>i. if i = 0 then 0 else \<bar>differences ! i - differences ! (i - 1)\<bar>) [0..<length differences]"

definition innerDerivative :: "real list \<Rightarrow> real list \<Rightarrow> real list \<Rightarrow> nat \<Rightarrow> real" where
  "innerDerivative xvals differences weights i =
     (let wP = weights ! (i + 1); wM = weights ! (i - 1)
      in if \<bar>wP\<bar> < EPSILON \<and> \<bar>wM\<bar> < EPSILON
         then let xv = xvals ! i; xvP = xvals ! (i + 1); xvM = xvals ! (i - 1)
              in ((xvP - xv) * differences ! (i - 1) + (xv - xvM) * differences ! i) / (xvP - xvM)
         else (wP * differences ! (i - 1) + wM * differences ! i) / (wP + wM))"

definition firstDerivatives :: "real list \<Rightarrow> real list \<Rightarrow> real list" where
  "firstDerivatives xvals yvals =
     (let n = length xvals; differences = akimaDifferences xvals yvals; weights = akimaWeights differences
      in map (\<lambda>i. if i = 0 then differentiateThreePoint xvals yvals 0 0 1 2
                  else if i = 1 then differentiateThreePoint xvals yvals 1 0 1 2
                  else if i = n - 2 then differentiateThreePoint xvals yvals (n - 2) (n - 3) (n - 2) (n - 1)
                  else if i = n - 1 then differentiateThreePoint xvals yvals (n - 1) (n - 3) (n - 2) (n - 1)
                  else innerDerivative xvals differences weights i) [0..<n])"

definition hermiteCoefficients :: "real list \<Rightarrow> real list \<Rightarrow> real list \<Rightarrow> nat \<Rightarrow> real list" where
  "hermiteCoefficients xvals yvals fds i =
     (let w = xvals ! (i + 1) - xvals ! i; w2 = w * w; yv = yvals ! i; yvP = yvals ! (i + 1);
          fd = fds ! i; fdP = fds ! (i + 1)
      in [yv, fd, (3 * (yvP - yv) / w - 2 * fd - fdP) / w, (2 * (yv - yvP) / w + fd + fdP) / w2])"

definition interpolateHermiteSorted :: "real list \<Rightarrow> real list \<Rightarrow> real list \<Rightarrow> akima_error + real list list" where
  "interpolateHermiteSorted xvals yvals fds =
     (if length xvals \<noteq> length yvals then Inl DifferentSizes
      else if length xvals \<noteq> length fds then Inl DifferentSizes
      else if length xvals < 2 then Inl TooFewPoints
      else Inr (map (hermiteCoefficients xvals yvals fds) [0..<length xvals - 1]))"

definition MINIMUM_NUMBER_POINTS :: nat where "MINIMUM_NUMBER_POINTS = 5"

text \<open>\<open>checkOrder\<close> is called with neither \<open>strict\<close> nor \<open>abort\<close>, and its result is not used.\<close>

definition akimaInterpolate :: "real list \<Rightarrow> real list \<Rightarrow> akima_error + real list list" where
  "akimaInterpolate xvals yvals =
     (if length xvals \<noteq> length yvals then Inl DifferentSizes
      else if length xvals < MINIMUM_NUMBER_POINTS then Inl TooFewPoints
      else case checkOrder xvals INCREASING False False of
             Inl e \<Rightarrow> Inl e
           | Inr _ \<Rightarrow> interpolateHermiteSorted xvals yvals (firstDerivatives xvals yvals))"

subsection \<open>Evaluation\<close>

definition evaluatePolynomial :: "real list \<Rightarrow> real \<Rightarrow> real" where
  "evaluatePolynomial c x = (if c = [] then 0 else foldr (\<lambda>ci v. x * v + ci) (butlast c) (last c))"

definition evaluatePolynomialSegment :: "real list \<Rightarrow> real list list \<Rightarrow> real \<Rightarrow> real" where
  "evaluatePolynomialSegment xvals segmentCoeffs x =
     (let i = binarySearch xvals x;
          i1 = (if i < 0 then - i - 2 else i);
          i2 = max 0 (min i1 (int (length segmentCoeffs) - 1))
      in evaluatePolynomial (segmentCoeffs ! nat i2) (x - xvals ! nat i2))"

definition createInterpolator :: "real list \<Rightarrow> real list \<Rightarrow> akima_error + (real \<Rightarrow> real)" where
  "createInterpolator xVals yVals =
     (case akimaInterpolate xVals yVals of
        Inl e \<Rightarrow> Inl e
      | Inr segmentCoeffs \<Rightarrow> Inr (evaluatePolynomialSegment xVals segmentCoeffs))"

text \<open>
  An argument that may be \<open>NaN\<close> (\<open>None\<close>): it compares with nothing, so the search throws in its first round.
\<close>

function searchNumber :: "real list \<Rightarrow> real option \<Rightarrow> int \<Rightarrow> int \<Rightarrow> int option" where
  "searchNumber a key low high =
     (if low > high then Some (- (low + 1))
      else let mid = (low + high) div 2; midVal = a ! nat mid
           in case key of
                None \<Rightarrow> None
              | Some k \<Rightarrow>
                  if midVal < k then searchNumber a key (mid + 1) high
                  else if midVal > k then searchNumber a key low (mid - 1)
                  else Some mid)"
  by pat_completeness auto

termination
  by (relation "measure (\<lambda>(a, key, low, high). nat (high - low + 1))") (auto simp: div_le_dividend)

declare searchNumber.simps [simp del]

definition evaluateNumber :: "real list \<Rightarrow> real list list \<Rightarrow> real option \<Rightarrow> real option" where
  "evaluateNumber xvals segmentCoeffs x =
     (case searchNumber xvals x 0 (int (length xvals) - 1) of
        None \<Rightarrow> None
      | Some i \<Rightarrow>
          let i1 = (if i < 0 then - i - 2 else i);
              i2 = max 0 (min i1 (int (length segmentCoeffs) - 1))
          in map_option (\<lambda>r. evaluatePolynomial (segmentCoeffs ! nat i2) (r - xvals ! nat i2)) x)"

lemma searchNumber_real: "searchNumber a (Some key) low high = Some (searchBetween a key low high)"
proof (induction a key low high rule: searchBetween.induct)
  case (1 a key low high)
  then show ?case
    by (simp add: searchNumber.simps [of a "Some key" low high] searchBetween.simps [of a key low high] Let_def)
qed

lemma evaluateNumber_real:
  "evaluateNumber xvals segmentCoeffs (Some r) = Some (evaluatePolynomialSegment xvals segmentCoeffs r)"
  by (simp add: evaluateNumber_def evaluatePolynomialSegment_def binarySearch_def searchNumber_real Let_def)

lemma evaluateNumber_nan: "xvals \<noteq> [] \<Longrightarrow> evaluateNumber xvals segmentCoeffs None = None"
  by (simp add: evaluateNumber_def searchNumber.simps [of xvals None] Let_def)

subsection \<open>The search\<close>

text \<open>In a strictly increasing array the search ends at the key or at the place where it belongs.\<close>

lemma searchBetween_spec:
  assumes "sorted_wrt (<) a" and "0 \<le> low" and "high < int (length a)" and "low \<le> high + 1"
    and "\<forall>k < nat low. a ! k < key" and "\<forall>k < length a. high < int k \<longrightarrow> key < a ! k"
  shows "let i = searchBetween a key low high in
     (0 \<le> i \<longrightarrow> i < int (length a) \<and> a ! nat i = key)
     \<and> (i < 0 \<longrightarrow> - i - 1 \<le> int (length a) \<and> (\<forall>k < length a. if int k < - i - 1 then a ! k < key else key < a ! k))"
  using assms
proof (induction a key low high rule: searchBetween.induct)
  case (1 a key low high)
  define mid where "mid = (low + high) div 2"
  have nth: "a ! j < a ! k" if "j < k" "k < length a" for j k
    using "1.prems"(1) that by (simp add: sorted_wrt_iff_nth_less)
  show ?case
  proof (cases "low > high")
    case True
    with "1.prems" show ?thesis by (auto simp: searchBetween.simps [of a key low high] Let_def)
  next
    case False
    then have mid: "low \<le> mid" "mid \<le> high" "0 \<le> mid" "nat mid < length a"
      using "1.prems"(2,3) by (auto simp: mid_def)
    have less: "a ! k \<le> a ! nat mid" if "k \<le> nat mid" for k
      using that nth [of k "nat mid"] mid(4) by (cases "k = nat mid") auto
    have more: "a ! nat mid \<le> a ! k" if "nat mid \<le> k" "k < length a" for k
      using that nth [of "nat mid" k] by (cases "k = nat mid") auto
    consider (lt) "a ! nat mid < key" | (gt) "a ! nat mid > key" | (eq) "a ! nat mid = key" by linarith
    then show ?thesis
    proof cases
      case lt
      have "\<forall>k < nat (mid + 1). a ! k < key"
        using less lt by (metis Suc_as_int Suc_leI le_less_trans less_Suc_eq_le mid(3) nat_int nat_0_le)
      with "1.IH"(1) [OF False mid_def refl lt] "1.prems" mid False lt show ?thesis
        by (simp add: searchBetween.simps [of a key low high] Let_def mid_def [symmetric])
    next
      case gt
      have "\<forall>k < length a. mid - 1 < int k \<longrightarrow> key < a ! k"
        using more gt by (metis add_diff_cancel_right' diff_less_eq le_less_trans less_le_trans nat_le_iff zle_add1_eq_le diff_add_cancel)
      moreover have nlt: "\<not> a ! nat mid < key" using gt by simp
      moreover have "searchBetween a key low high = searchBetween a key low (mid - 1)"
        using False gt nlt by (simp add: searchBetween.simps [of a key low high] Let_def mid_def [symmetric] del: not_less)
      ultimately show ?thesis
        using "1.IH"(2) [OF False mid_def refl nlt gt] "1.prems" mid by simp
    next
      case eq
      with mid False show ?thesis
        by (simp add: searchBetween.simps [of a key low high] Let_def mid_def [symmetric])
    qed
  qed
qed

lemma binarySearch_spec:
  assumes "sorted_wrt (<) a"
  shows "let i = binarySearch a key in
     (0 \<le> i \<longrightarrow> i < int (length a) \<and> a ! nat i = key)
     \<and> (i < 0 \<longrightarrow> - i - 1 \<le> int (length a) \<and> (\<forall>k < length a. if int k < - i - 1 then a ! k < key else key < a ! k))"
  unfolding binarySearch_def by (rule searchBetween_spec) (use assms in auto)

text \<open>The search finds a key that is in the array, wherever it is.\<close>

lemma binarySearch_nth:
  assumes "sorted_wrt (<) a" and "i < length a"
  shows "binarySearch a (a ! i) = int i"
proof -
  let ?j = "binarySearch a (a ! i)"
  have "0 \<le> ?j"
  proof (rule ccontr)
    assume "\<not> 0 \<le> ?j"
    with binarySearch_spec [OF assms(1), of "a ! i"] assms(2)
    have "if int i < - ?j - 1 then a ! i < a ! i else a ! i < a ! i" by (metis not_le)
    then show False by (simp split: if_splits)
  qed
  with binarySearch_spec [OF assms(1), of "a ! i"] have "?j < int (length a)" "a ! nat ?j = a ! i" by (auto simp: Let_def)
  moreover have "distinct a" using assms(1) strict_sorted_iff by blast
  ultimately have "nat ?j = i" using assms(2) \<open>0 \<le> ?j\<close> by (simp add: nth_eq_iff_index_eq)
  with \<open>0 \<le> ?j\<close> show ?thesis by simp
qed

subsection \<open>The spline\<close>

lemma akimaInterpolate_Inr:
  "akimaInterpolate xs ys = Inr cs \<longleftrightarrow>
     length xs = length ys \<and> 5 \<le> length xs \<and> cs = map (hermiteCoefficients xs ys (firstDerivatives xs ys)) [0..<length xs - 1]"
proof -
  have "length (firstDerivatives xs ys) = length xs" by (simp add: firstDerivatives_def Let_def)
  then show ?thesis
    by (auto simp: akimaInterpolate_def checkOrder_def interpolateHermiteSorted_def MINIMUM_NUMBER_POINTS_def split: if_splits)
qed

lemma evaluate_hermite:
  "evaluatePolynomial [c0, c1, c2, c3] x = c0 + c1 * x + c2 * x ^ 2 + c3 * x ^ 3"
  by (simp add: evaluatePolynomial_def power2_eq_square power3_eq_cube algebra_simps)

lemma hermite_end:
  fixes w :: real
  assumes "w \<noteq> 0"
  shows "y + d * w + ((3 * (y' - y) / w - 2 * d - d') / w) * w ^ 2 + ((2 * (y - y') / w + d + d') / (w * w)) * w ^ 3 = y'"
  using assms by (simp add: field_simps power2_eq_square power3_eq_cube)

text \<open>C19: The spline goes through all the points it was made from.\<close>

theorem spline_through_points:
  assumes "createInterpolator xs ys = Inr f" and "sorted_wrt (<) xs" and "i < length xs"
  shows "f (xs ! i) = ys ! i"
proof -
  let ?c = "hermiteCoefficients xs ys (firstDerivatives xs ys)"
  from assms(1) obtain cs where cs: "akimaInterpolate xs ys = Inr cs" and f: "f = evaluatePolynomialSegment xs cs"
    by (auto simp: createInterpolator_def split: sum.splits)
  from cs have n: "length xs = length ys" "5 \<le> length xs" and cs': "cs = map ?c [0..<length xs - 1]"
    by (simp_all add: akimaInterpolate_Inr)
  note b = binarySearch_nth [OF assms(2,3)]
  show ?thesis
  proof (cases "i < length xs - 1")
    case True
    then have "int i \<le> int (length xs) - 2" by linarith
    with True have "f (xs ! i) = evaluatePolynomial (?c i) 0"
      by (simp add: f evaluatePolynomialSegment_def b cs' Let_def min_def max_def of_nat_diff nat_diff_distrib)
    then show ?thesis by (simp add: hermiteCoefficients_def Let_def evaluate_hermite)
  next
    case False
    with assms(3) n(2) have i: "i = length xs - 1" "length xs - 2 + 1 = i" "length xs - 2 < length xs - 1" by auto
    have m: "max 0 (min (int i) (int (length cs) - 1)) = int (length xs - 2)"
      using n(2) i(1) by (simp add: cs' of_nat_diff)
    then have "f (xs ! i) = evaluatePolynomial (?c (length xs - 2)) (xs ! i - xs ! (length xs - 2))"
    proof -
      have "int i < 0 \<longleftrightarrow> False" by simp
      then have "f (xs ! i) = evaluatePolynomial (cs ! (length xs - 2)) (xs ! i - xs ! (length xs - 2))"
        unfolding f evaluatePolynomialSegment_def b Let_def by (simp only: if_False m nat_int)
      then show ?thesis using i(3) by (simp add: cs')
    qed
    moreover have "xs ! (length xs - 2) < xs ! i"
      using assms(2,3) i n(2) by (simp add: sorted_wrt_iff_nth_less)
    ultimately show ?thesis
      using i(2) hermite_end [of "xs ! i - xs ! (length xs - 2)"]
      by (simp add: hermiteCoefficients_def Let_def evaluate_hermite)
  qed
qed

theorem spline_through_points_witness:
  "\<exists>f. createInterpolator [0, 1, 4, 11, 25] [10, 13, 18, 27, 40] = Inr f \<and> f 4 = 18"
proof -
  obtain f where f: "createInterpolator [0, 1, 4, 11, 25] [10, 13, 18, 27, 40] = Inr f"
    by (auto simp: createInterpolator_def akimaInterpolate_Inr split: sum.split)
      (auto simp: akimaInterpolate_def MINIMUM_NUMBER_POINTS_def checkOrder_def interpolateHermiteSorted_def
        firstDerivatives_def Let_def)
  from spline_through_points [OF this, of 2] have "f 4 = 18" by simp
  with f show ?thesis by blast
qed

text \<open>The slope of a piece at \<open>x\<close> from its left end.\<close>

definition pieceSlope :: "real list \<Rightarrow> real \<Rightarrow> real" where
  "pieceSlope c x = c ! 1 + 2 * (c ! 2) * x + 3 * (c ! 3) * x ^ 2"

lemma pieceSlope_derivative:
  assumes "length c = 4"
  shows "((\<lambda>x. evaluatePolynomial c x) has_real_derivative pieceSlope c x) (at x)"
proof -
  from assms obtain c0 c1 c2 c3 where c: "c = [c0, c1, c2, c3]"
    by (auto simp: numeral_eq_Suc length_Suc_conv)
  have "((\<lambda>x. c0 + c1 * x + c2 * x ^ 2 + c3 * x ^ 3) has_real_derivative
      (c1 * 1 + c2 * (2 * x) + c3 * (3 * x ^ 2))) (at x)"
    by (auto intro!: derivative_eq_intros simp: power2_eq_square)
  then show ?thesis by (simp add: c evaluate_hermite pieceSlope_def numeral_eq_Suc algebra_simps)
qed

lemma hermite_end_slope:
  fixes w :: real
  assumes "w \<noteq> 0"
  shows "d + 2 * ((3 * (y' - y) / w - 2 * d - d') / w) * w + 3 * ((2 * (y - y') / w + d + d') / (w * w)) * w ^ 2 = d'"
  using assms by (simp add: field_simps power2_eq_square)

text \<open>
  Where two pieces of the spline meet they have the same value and the same slope, so that the brightness
  has no jumps or kinks as the ambient light changes.\<close>

theorem spline_is_smooth:
  assumes "akimaInterpolate xs ys = Inr cs" and "sorted_wrt (<) xs" and "Suc i < length cs"
  shows "evaluatePolynomial (cs ! i) (xs ! Suc i - xs ! i) = evaluatePolynomial (cs ! Suc i) 0
    \<and> pieceSlope (cs ! i) (xs ! Suc i - xs ! i) = pieceSlope (cs ! Suc i) 0"
proof -
  from assms(1,3) have "xs ! i < xs ! Suc i"
    using assms(2) by (simp add: akimaInterpolate_Inr sorted_wrt_iff_nth_less)
  with assms(1,3) show ?thesis
    using hermite_end [of "xs ! Suc i - xs ! i"] hermite_end_slope [of "xs ! Suc i - xs ! i"]
    by (simp add: akimaInterpolate_Inr hermiteCoefficients_def Let_def evaluate_hermite pieceSlope_def numeral_eq_Suc)
qed

text \<open>
  The documentation promises an error for arguments that do not increase. The check's result is not
  used, so an array out of order is accepted, and the spline misses its points.\<close>

theorem unordered_points_accepted:
  "(case createInterpolator [3, 1, 2, 0, 4] [1, 0, 0, 0, 0] of Inl e \<Rightarrow> False | Inr f \<Rightarrow> f 3 \<noteq> 1)
   \<and> checkOrder [3, 1, 2, 0, 4] INCREASING True True = Inl NotOrdered"
  by code_simp

end
