(* ===== verification/AutoBacklight.thy ===== *)
theory AutoBacklight
  imports Akima MainLoop
begin

section \<open>Automatic backlight (\<open>js/dbusServices/sensorDaemon/autoBacklightBrightness.js\<close>)\<close>

text \<open>
  \<open>AutoBacklightBrightness\<close>: from the ambient light to nits by a spline, to a perceived brightness by a power law, and
  to the level of the backlight, with fades, dimming, the user's own setting and the
  recognition of abrupt darkening. Numbers are real; \<open>Math.pow\<close> is \<open>powr\<close>. A number that is read
  before it is set is \<open>None\<close>, and so is what is computed from it (\<open>NaN\<close>). The calls that set the backlight and claim the
  sensor are asynchronous: they are queued in the state, and their continuations are events.
\<close>

subsection \<open>The devices\<close>

text \<open>Pairs of a level and nits, and pairs of lux and nits; the source has them in one array.\<close>

definition pinephoneCurve :: "(real \<times> real) list" where
  "pinephoneCurve = [
     (1, 20), (3, 23), (5, 27), (10, 35), (15, 50), (25, 116), (35, 233), (45, 401), (51, 550)]"

definition pinephoneLux :: "(real \<times> real) list" where
  "pinephoneLux = [
     (0, 20), (1, 20), (2, 20), (4, 20), (11, 27), (25, 40), (55, 76), (90, 103), (150, 130), (200, 160),
     (750, 250), (1000, 300), (2400, 450), (4400, 550), (20000, 5000)]"

definition oneplusCurve :: "(real \<times> real) list" where
  "oneplusCurve = [
     (1, 20482 / 10000), (5, 27841 / 10000), (9, 379505 / 100000), (13, 44748 / 10000), (17, 508 / 100),
     (21, 64233 / 10000), (25, 80848 / 10000), (29, 116607 / 10000), (33, 132347 / 10000),
     (37, 150676 / 10000), (41, 168302 / 10000), (45, 184261 / 10000), (49, 203103 / 10000),
     (53, 219042 / 10000), (57, 235456 / 10000), (61, 252137 / 10000), (65, 271769 / 10000),
     (69, 289571 / 10000), (73, 305244 / 10000), (77, 323535 / 10000), (81, 340867 / 10000),
     (101, 42366 / 1000), (121, 511309 / 10000), (141, 5952 / 100), (161, 67744 / 1000),
     (181, 759738 / 10000), (201, 846332 / 10000), (221, 941525 / 10000), (241, 1022207 / 10000),
     (262, 1104878 / 10000), (282, 1170405 / 10000), (302, 1243733 / 10000), (322, 1309928 / 10000),
     (342, 1404247 / 10000), (362, 1493156 / 10000), (382, 1571995 / 10000), (402, 1653651 / 10000),
     (422, 1732726 / 10000), (442, 1814272 / 10000), (462, 1891402 / 10000), (482, 1975334 / 10000),
     (502, 2056301 / 10000), (522, 2139381 / 10000), (542, 2222769 / 10000), (562, 2300891 / 10000),
     (582, 2386084 / 10000), (602, 2465399 / 10000), (622, 2556544 / 10000), (642, 2636221 / 10000),
     (662, 2719324 / 10000), (682, 2791449 / 10000), (698, 2885736 / 10000), (718, 2976628 / 10000),
     (738, 3061899 / 10000), (758, 3144511 / 10000), (779, 3221404 / 10000), (799, 330969 / 1000),
     (819, 3382251 / 10000), (839, 3462251 / 10000), (859, 354567 / 1000), (879, 370799 / 1000),
     (899, 4131738 / 10000), (919, 4156397 / 10000), (939, 417264 / 1000), (959, 419264 / 1000),
     (979, 421264 / 1000), (999, 424646 / 1000), (1023, 4276287 / 10000)]"

definition oneplusLux :: "(real \<times> real) list" where
  "oneplusLux = [
     (0, 35077 / 10000), (1, 68394 / 10000), (4, 152619 / 10000), (12, 302619 / 10000), (20, 40671 / 1000),
     (40, 523019 / 10000), (65, 652512 / 10000), (95, 7737 / 100), (140, 90152 / 1000),
     (200, 100297 / 1000), (350, 110385 / 1000), (650, 135064 / 1000), (1300, 1605179 / 10000),
     (2000, 1950267 / 10000), (3300, 3802814 / 10000), (6000, 4092867 / 10000), (10000, 4276287 / 10000),
     (20000, 5000)]"

definition surfaceLux :: "(real \<times> real) list" where
  "surfaceLux = [
     (0, 4), (1 / 10, 4), (2 / 10, 4), (2, 15), (11, 27), (25, 40), (55, 70), (90, 91), (150, 120),
     (200, 148), (750, 196), (1000, 280), (2400, 490), (20000, 5000)]"

definition defaultLux :: "(real \<times> real) list" where
  "defaultLux = [
     (0, 10), (1, 13), (4, 18), (11, 27), (25, 40), (55, 76), (90, 103), (150, 130), (200, 160),
     (750, 250), (1000, 300), (2000, 400), (20000, 5000)]"

record device_info =
  dv_curve :: "(real \<times> real) list option"     \<comment> \<open>\<open>brightnessToNitsCurve\<close>\<close>
  dv_minMaxNits :: "(real \<times> real) option"
  dv_minBrightness :: "real option"
  dv_linear :: bool                               \<comment> \<open>\<open>brightnessScale\<close> is \<open>'linear'\<close>\<close>
  dv_minSmooth :: "real option"                  \<comment> \<open>\<open>minSmoothTransitionBrightness\<close>\<close>
  dv_lux :: "(real \<times> real) list option"

definition DEVICE_BRIGHTNESS_CONFIG :: "(string, device_info) jsmap" where
  "DEVICE_BRIGHTNESS_CONFIG =
     [(''pine64,pinephone-pro'', \<lparr>dv_curve = Some pinephoneCurve, dv_minMaxNits = None, dv_minBrightness = None,
        dv_linear = False, dv_minSmooth = None, dv_lux = Some pinephoneLux\<rparr>),
      (''oneplus,enchilada'', \<lparr>dv_curve = Some oneplusCurve, dv_minMaxNits = None, dv_minBrightness = None,
        dv_linear = False, dv_minSmooth = None, dv_lux = Some oneplusLux\<rparr>),
      (''Microsoft Corporation,Surface Pro,Surface_Pro_1796'', \<lparr>dv_curve = None, dv_minMaxNits = Some (4, 440),
        dv_minBrightness = Some 1, dv_linear = True, dv_minSmooth = Some 200, dv_lux = Some surfaceLux\<rparr>),
      (''default'', \<lparr>dv_curve = None, dv_minMaxNits = Some (10, 400), dv_minBrightness = Some 1, dv_linear = True,
        dv_minSmooth = Some 0, dv_lux = Some defaultLux\<rparr>)]"

text \<open>
  What the files of the device tree and of the DMI contain, \<open>None\<close> where a file cannot be read. A file that
  cannot be read ends the attempt it belongs to.
\<close>

definition getDeviceInfo :: "string option \<Rightarrow> string option \<Rightarrow> string option \<Rightarrow> string option \<Rightarrow> device_info" where
  "getDeviceInfo compatible vendor product sku =
     (let config = (\<lambda>key. jm_get DEVICE_BRIGHTNESS_CONFIG key);
          dflt = the (config ''default'');
          dmi = (case (vendor, product) of
                   (Some v, Some p) \<Rightarrow>
                     (case config (v @ '','' @ p) of
                        Some d \<Rightarrow> d
                      | None \<Rightarrow> (case sku of None \<Rightarrow> dflt | Some k \<Rightarrow> or_else (config (v @ '','' @ p @ '','' @ k)) dflt))
                 | _ \<Rightarrow> dflt)
      in case compatible of None \<Rightarrow> dmi | Some c \<Rightarrow> or_else (config c) dmi)"

subsection \<open>Calibration\<close>

definition linearMap :: "real \<Rightarrow> real \<Rightarrow> real \<Rightarrow> real \<Rightarrow> real \<Rightarrow> real" where
  "linearMap x lowIn highIn lowOut highOut = lowOut + (highOut - lowOut) * (x - lowIn) / (highIn - lowIn)"

definition nitsToAbsPerceived :: "real \<Rightarrow> real" where
  "nitsToAbsPerceived nits = 3 * nits powr (22 / 100)"

definition perceivedToNits :: "real \<Rightarrow> real" where
  "perceivedToNits perceived = (perceived / 3) powr (100 / 22)"

record calibration =
  ca_minPwm :: real
  ca_maxPwm :: real
  ca_minPerceived :: real
  ca_maxPerceived :: real
  ca_smoothThresh :: real
  ca_nitsToPwm :: "real \<Rightarrow> real"
  ca_pwmToNits :: "real \<Rightarrow> real"
  ca_luxToNits :: "real \<Rightarrow> real"

datatype calibration_error = NoNitsMapping | NoLuxMapping | MinNotBelowMax | UnsupportedScale | SplineError akima_error

definition makeNitsToPwmCurve :: "real \<Rightarrow> real \<times> real \<Rightarrow> real \<Rightarrow> bool \<Rightarrow> calibration_error + calibration" where
  "makeNitsToPwmCurve maxPwm minMaxNits minBrightness isLinear =
     (let (minNits, maxNits) = minMaxNits
      in if minBrightness \<ge> maxPwm then Inl MinNotBelowMax
         else if \<not> isLinear then Inl UnsupportedScale
         else Inr \<lparr>ca_minPwm = minBrightness, ca_maxPwm = maxPwm, ca_minPerceived = nitsToAbsPerceived minNits,
                   ca_maxPerceived = nitsToAbsPerceived maxNits, ca_smoothThresh = 0,
                   ca_nitsToPwm = (\<lambda>n. linearMap n minNits maxNits minBrightness maxPwm),
                   ca_pwmToNits = (\<lambda>p. linearMap p minBrightness maxPwm minNits maxNits), ca_luxToNits = (\<lambda>l. 0)\<rparr>)"

definition makeNitsToPwmCustomCurve :: "real \<Rightarrow> (real \<times> real) list \<Rightarrow> calibration_error + calibration" where
  "makeNitsToPwmCustomCurve maxPwm curve =
     (let brightnessValues = map fst curve; nitsValues = map snd curve;
          minNits = hd nitsValues; maxNits = last nitsValues; minPwm = hd brightnessValues
      in if minPwm \<ge> maxPwm then Inl MinNotBelowMax
         else case createInterpolator nitsValues (map (\<lambda>b. linearMap b 0 1000 0 1) brightnessValues) of
                Inl e \<Rightarrow> Inl (SplineError e)
              | Inr func1 \<Rightarrow>
                  (case createInterpolator brightnessValues nitsValues of
                     Inl e \<Rightarrow> Inl (SplineError e)
                   | Inr func2 \<Rightarrow>
                       Inr \<lparr>ca_minPwm = minPwm, ca_maxPwm = maxPwm, ca_minPerceived = nitsToAbsPerceived minNits,
                            ca_maxPerceived = nitsToAbsPerceived maxNits, ca_smoothThresh = 0,
                            ca_nitsToPwm = (\<lambda>n. linearMap (func1 n) 0 1 0 1000), ca_pwmToNits = func2,
                            ca_luxToNits = (\<lambda>l. 0)\<rparr>))"

definition makeLuxToNitsCurve :: "(real \<times> real) list \<Rightarrow> calibration_error + (real \<Rightarrow> real)" where
  "makeLuxToNitsCurve lux =
     (case createInterpolator (map fst lux) (map snd lux) of Inl e \<Rightarrow> Inl (SplineError e) | Inr f \<Rightarrow> Inr f)"

text \<open>A value that is 0 counts as missing in the first condition.\<close>

definition loadCalibration :: "real \<Rightarrow> device_info \<Rightarrow> calibration_error + calibration" where
  "loadCalibration maxPwm d =
     (case (case (dv_minMaxNits d, dv_minBrightness d, dv_curve d) of
              (Some mm, Some mb, curve) \<Rightarrow>
                if mb \<noteq> 0 then makeNitsToPwmCurve maxPwm mm mb (dv_linear d)
                else (case curve of Some c \<Rightarrow> makeNitsToPwmCustomCurve maxPwm c | None \<Rightarrow> Inl NoNitsMapping)
            | (_, _, Some c) \<Rightarrow> makeNitsToPwmCustomCurve maxPwm c
            | _ \<Rightarrow> Inl NoNitsMapping) of
        Inl e \<Rightarrow> Inl e
      | Inr cal \<Rightarrow>
          (case dv_lux d of
             None \<Rightarrow> Inl NoLuxMapping
           | Some lux \<Rightarrow>
               (case makeLuxToNitsCurve lux of
                  Inl e \<Rightarrow> Inl e
                | Inr f \<Rightarrow>
                    Inr (cal\<lparr>ca_luxToNits := f,
                             ca_smoothThresh := (case dv_minSmooth d of
                               None \<Rightarrow> ca_minPerceived cal
                             | Some b \<Rightarrow> if b = 0 then ca_maxPerceived cal
                                         else nitsToAbsPerceived (ca_pwmToNits cal b))\<rparr>))))"

text \<open>
  A property of an udev device: its \<open>type\<close>, the \<open>enabled\<close> attribute of its parent (\<open>None\<close> without a parent or an
  attribute) and its name.
\<close>

record udev_device =
  ud_type :: "string option"
  ud_parentEnabled :: "string option"
  ud_name :: string

definition endsWith :: "string \<Rightarrow> string \<Rightarrow> bool" where
  "endsWith suffix s = (length suffix \<le> length s \<and> drop (length s - length suffix) s = suffix)"

definition findUdevBacklightDevice :: "udev_device list \<Rightarrow> udev_device list \<Rightarrow> udev_device option" where
  "findUdevBacklightDevice devices leds =
     (case find (\<lambda>d. ud_type d = Some ''firmware'') devices of Some d \<Rightarrow> Some d | None \<Rightarrow>
     (case find (\<lambda>d. ud_type d = Some ''platform'') devices of Some d \<Rightarrow> Some d | None \<Rightarrow>
     (case find (\<lambda>d. ud_type d = Some ''raw'' \<and> ud_parentEnabled d = Some ''enabled'') devices of
        Some d \<Rightarrow> Some d | None \<Rightarrow>
     (case find (\<lambda>d. ud_type d = Some ''raw'') devices of Some d \<Rightarrow> Some d | None \<Rightarrow>
      find (\<lambda>d. ud_name d = ''lcd-backlight'' \<or> ud_name d = ''backlight'' \<or> endsWith ''-backlight'' (ud_name d)) leds))))"

subsection \<open>Perceived brightness, absolute and relative to the surroundings\<close>

definition absPerceivedToRelPerceived :: "calibration \<Rightarrow> real option \<Rightarrow> real \<Rightarrow> real" where
  "absPerceivedToRelPerceived cal auto perceived =
     (case auto of
        None \<Rightarrow> perceived
      | Some au \<Rightarrow>
          (let delta = perceived - au
           in if delta > 0
              then au + linearMap (linearMap delta 0 (ca_maxPerceived cal - au) 0 1 powr (3 / 2))
                          0 1 0 (ca_maxPerceived cal - au)
              else if delta < 0
              then au - linearMap (linearMap \<bar>delta\<bar> 0 (au - ca_minPerceived cal) 0 1 powr (3 / 2))
                          0 1 0 (au - ca_minPerceived cal)
              else au))"

definition relPerceivedToAbsPerceived :: "calibration \<Rightarrow> real option \<Rightarrow> real \<Rightarrow> real" where
  "relPerceivedToAbsPerceived cal auto relPerceived =
     (case auto of
        None \<Rightarrow> relPerceived
      | Some au \<Rightarrow>
          (let delta = relPerceived - au
           in if delta > 0
              then au + linearMap (linearMap delta 0 (ca_maxPerceived cal - au) 0 1 powr (1 / (3 / 2)))
                          0 1 0 (ca_maxPerceived cal - au)
              else if delta < 0
              then au - linearMap (linearMap \<bar>delta\<bar> 0 (au - ca_minPerceived cal) 0 1 powr (1 / (3 / 2)))
                          0 1 0 (au - ca_minPerceived cal)
              else au))"

subsection \<open>The state\<close>

datatype bl_call =
    SetBrightness "real option"      \<comment> \<open>\<open>SetBrightnessAsync\<close>; \<open>None\<close> is \<open>NaN\<close>\<close>
  | ClaimAmbientLight
  | ReleaseAmbientLight
  | PerceivedBrightnessChanged

text \<open>
  A call of \<open>SetBrightnessAsync\<close> that has not been answered: what its \<open>finally\<close> block sets. Sources are added
  with their delay in milliseconds.
\<close>

record set_reply =
  sr_newPwm :: "real option"
  sr_newPerceived :: "real option"
  sr_isFinal :: bool

record auto_backlight =
  bl_inhibitedCount :: int
  bl_dimFactor :: real
  bl_userDelta :: real
  bl_enabled :: bool
  bl_history :: "(real \<times> real) list"
  bl_curPerceived :: "real option"
  bl_targetPerceived :: real
  bl_noOverrides :: real                      \<comment> \<open>\<open>_targetPerceivedNoOverrides\<close>\<close>
  bl_autoPerceived :: "real option"
  bl_latestLow :: "real option"
  bl_lowerTimeout :: "nat option"
  bl_from :: "real option"
  bl_to :: "real option"
  bl_duration :: "real option"
  bl_begin :: "real option"
  bl_timeoutId :: "nat option"                \<comment> \<open>\<open>_smoothUpdateTimeoutId\<close>\<close>
  bl_inStep :: bool
  bl_lastSetPwm :: "real option"
  bl_replies :: "set_reply list"
  bl_claims :: "(bool \<times> bool option) list"    \<comment> \<open>\<open>updateNow\<close> and, under \<open>uninhibit\<close>, \<open>setImmediately\<close>\<close>
  bl_releases :: "bool option list"
  bl_trace :: "bl_call trace"

definition bl_call :: "bl_call \<Rightarrow> auto_backlight \<Rightarrow> auto_backlight" where
  "bl_call c s = s\<lparr>bl_trace := bl_trace s @ [Call c]\<rparr>"

definition clearFade :: "auto_backlight \<Rightarrow> auto_backlight" where
  "clearFade s = s\<lparr>bl_lastSetPwm := None, bl_from := None, bl_to := None, bl_duration := None, bl_begin := None,
                  bl_timeoutId := None\<rparr>"

text \<open>What another device reports of the level: more than the maximum is an error.\<close>

definition updateCurBrightnessFromUdev :: "calibration \<Rightarrow> int option \<Rightarrow> int \<Rightarrow> int option option" where
  "updateCurBrightnessFromUdev cal curPwm newPwm =
     (if curPwm = Some newPwm then Some curPwm
      else if of_int newPwm > ca_maxPwm cal then None
      else Some (Some newPwm))"

subsection \<open>Fades\<close>

definition perceivedToNitsNaN :: "real \<Rightarrow> real option" where
  "perceivedToNitsNaN p = (if p < 0 then None else Some (perceivedToNits p))"

definition clampPwm :: "calibration \<Rightarrow> real \<Rightarrow> real" where
  "clampPwm cal nits = max (min (of_int \<lfloor>ca_nitsToPwm cal nits + 1 / 2\<rfloor>) (ca_maxPwm cal)) (ca_minPwm cal)"

definition isFinalUpdate :: "real \<Rightarrow> auto_backlight \<Rightarrow> bool" where
  "isFinalUpdate now s =
     (bl_duration s = Some 0
      \<or> (case (bl_begin s, bl_duration s) of (Some b, Some d) \<Rightarrow> (now - b) / 1000 \<ge> d | _ \<Rightarrow> False))"

definition fadePerceived :: "real \<Rightarrow> auto_backlight \<Rightarrow> real option" where
  "fadePerceived now s =
     (if isFinalUpdate now s then bl_to s
      else case (bl_from s, bl_to s, bl_begin s, bl_duration s) of
             (Some f, Some t, Some b, Some d) \<Rightarrow> Some (f + (t - f) * ((now - b) / 1000 / d))
           | _ \<Rightarrow> None)"

text \<open>\<open>NaN\<close> differs from everything, and no level is the \<open>undefined\<close> one.\<close>

definition smoothUpdateStep :: "calibration \<Rightarrow> real \<Rightarrow> auto_backlight \<Rightarrow> bool \<times> auto_backlight" where
  "smoothUpdateStep cal now s =
     (let isFinal = isFinalUpdate now s
      in if bl_inStep s \<and> \<not> isFinal then (False, s)
         else let newPerceived = fadePerceived now s;
                  newPwm = map_option (clampPwm cal) (Option.bind newPerceived perceivedToNitsNaN)
              in (isFinal,
                  if newPwm \<noteq> None \<and> bl_lastSetPwm s = newPwm then (if isFinal then clearFade s else s)
                  else bl_call (SetBrightness newPwm)
                         (s\<lparr>bl_inStep := True,
                            bl_replies := bl_replies s @ [\<lparr>sr_newPwm = newPwm, sr_newPerceived = newPerceived,
                                                          sr_isFinal = isFinal\<rparr>]\<rparr>)))"

text \<open>The answers come in the order of the calls; a failure is logged and then treated alike.\<close>

definition setBrightnessDone :: "auto_backlight \<Rightarrow> auto_backlight" where
  "setBrightnessDone s =
     (case bl_replies s of
        [] \<Rightarrow> s
      | r # rs \<Rightarrow>
          (let s1 = s\<lparr>bl_replies := rs, bl_lastSetPwm := sr_newPwm r, bl_curPerceived := sr_newPerceived r\<rparr>;
               s2 = (if sr_isFinal r then clearFade s1 else s1)
           in s2\<lparr>bl_inStep := False\<rparr>))"

definition fadeTick :: "calibration \<Rightarrow> nat \<Rightarrow> real \<Rightarrow> auto_backlight \<Rightarrow> auto_backlight" where
  "fadeTick cal i now s =
     (let (final, s1) = smoothUpdateStep cal now s
      in if final then s1\<lparr>bl_trace := bl_trace s1 @ [SourceFired i]\<rparr> else s1)"

definition adjustTarget :: "calibration \<Rightarrow> auto_backlight \<Rightarrow> real \<Rightarrow> real" where
  "adjustTarget cal s target =
     (let t1 = ca_minPerceived cal + (target - ca_minPerceived cal) * bl_dimFactor s;
          t2 = max (min (t1 + bl_userDelta s) (ca_maxPerceived cal)) (ca_minPerceived cal)
      in absPerceivedToRelPerceived cal (bl_autoPerceived s) t2)"

text \<open>The fade starts from the brightness that was last set, and its first step is at once.\<close>

definition setBrightnessPerceived ::
    "calibration \<Rightarrow> bl_call idgen \<Rightarrow> real \<Rightarrow> real \<Rightarrow> real option \<Rightarrow> auto_backlight \<Rightarrow> auto_backlight" where
  "setBrightnessPerceived cal mk now target fadeDurationMs s =
     (let s1 = (case bl_timeoutId s of None \<Rightarrow> s | Some i \<Rightarrow> s\<lparr>bl_trace := bl_trace s @ [SourceRemove i]\<rparr>);
          t = adjustTarget cal s target;
          s2 = s1\<lparr>bl_noOverrides := target, bl_from := bl_curPerceived s1, bl_to := Some t, bl_targetPerceived := t,
                 bl_duration := fadeDurationMs, bl_begin := Some now\<rparr>;
          s3 = snd (smoothUpdateStep cal now s2);
          s4 = (case bl_duration s3 of
                  Some d \<Rightarrow>
                    if d > 0
                    then s3\<lparr>bl_timeoutId := Some (mk (bl_trace s3)),
                           bl_trace := bl_trace s3 @ [SourceAdd (mk (bl_trace s3)) 16]\<rparr>
                    else s3
                | None \<Rightarrow> s3)
      in bl_call PerceivedBrightnessChanged s4)"

subsection \<open>The recognition of darkening\<close>

text \<open>
  Backwards from the measurement before the last: the lowest level of the window, and every level as often as it was
  valid for half a second.
\<close>

fun analyzeBack :: "real \<Rightarrow> real \<Rightarrow> real \<Rightarrow> (real \<times> real) list \<Rightarrow> real \<times> real list" where
  "analyzeBack timeNow lastTime lowest [] = (lowest, [])"
| "analyzeBack timeNow lastTime lowest ((timeMs, level) # older) =
     (if timeNow - timeMs > 10000 then (lowest, [])
      else let weight = nat \<lfloor>(lastTime - timeMs) / 500 + 1 / 2\<rfloor>;
               (low, rest) = analyzeBack timeNow timeMs (if level < lowest then level else lowest) older
           in (low, replicate weight level @ rest))"

definition analyze :: "(real \<times> real) list \<Rightarrow> bool" where
  "analyze history =
     (let (timeNow, levelNow) = last history;
          (lowestLevel, tmpArr) = analyzeBack timeNow timeNow levelNow (rev (butlast history));
          n = real (length tmpArr);
          meanLevel = sum_list tmpArr / n;
          stdDev = sqrt (sum_list (map (\<lambda>x. (x - meanLevel)\<^sup>2) tmpArr) / n);
          lowerThreshold = (meanLevel - (meanLevel - lowestLevel) * (3 / 10)) - stdDev * 2
      in if tmpArr = [] then False else levelNow < lowerThreshold)"

definition getAutoFadeDurationSec :: "calibration \<Rightarrow> real option \<Rightarrow> real \<Rightarrow> bool \<Rightarrow> real option" where
  "getAutoFadeDurationSec cal fromPerceived toP isConfirmedGoingDown =
     (case fromPerceived of
        None \<Rightarrow> None
      | Some fromP \<Rightarrow>
          (let isGoingDown = toP < fromP; delta = \<bar>toP - fromP\<bar>
           in Some (if isConfirmedGoingDown then
                      (if delta > 2 then delta * (13 / 10)
                       else if toP > ca_smoothThresh cal then delta * 5
                       else delta * (13 / 10))
                    else if isGoingDown then
                      (if toP > ca_smoothThresh cal then delta * 6 else delta * (8 / 10))
                    else
                      (if delta > 2 then delta * (8 / 10)
                       else if toP > ca_smoothThresh cal then delta * 6
                       else delta * (8 / 10)))))"

subsection \<open>The ambient light\<close>

definition closeToMin :: "calibration \<Rightarrow> real option \<Rightarrow> real \<Rightarrow> bool" where
  "closeToMin cal cur auto =
     ((case cur of None \<Rightarrow> False | Some c \<Rightarrow> c - ca_minPerceived cal > 1 / 10) \<and> auto - ca_minPerceived cal < 1 / 10)"

definition closeToMax :: "calibration \<Rightarrow> real option \<Rightarrow> real \<Rightarrow> bool" where
  "closeToMax cal cur auto =
     ((case cur of None \<Rightarrow> False | Some c \<Rightarrow> ca_maxPerceived cal - c > 1 / 10) \<and> ca_maxPerceived cal - auto < 1 / 10)"

definition autoDiffers :: "real option \<Rightarrow> real \<Rightarrow> bool" where
  "autoDiffers old new = (case old of None \<Rightarrow> True | Some a \<Rightarrow> \<bar>a - new\<bar> > 7 / 10)"

definition applyAuto ::
    "calibration \<Rightarrow> bl_call idgen \<Rightarrow> real \<Rightarrow> real \<Rightarrow> bool \<Rightarrow> auto_backlight \<Rightarrow> auto_backlight" where
  "applyAuto cal mk now auto confirmed s =
     setBrightnessPerceived cal mk now auto
       (map_option (\<lambda>d. d * 1000) (getAutoFadeDurationSec cal (bl_curPerceived s) auto confirmed))
       (s\<lparr>bl_autoPerceived := Some auto\<rparr>)"

text \<open>The callback of the timer of 3 seconds. It is only armed while a low level is noted.\<close>

definition lowerTimeoutFires :: "calibration \<Rightarrow> bl_call idgen \<Rightarrow> real \<Rightarrow> auto_backlight \<Rightarrow> auto_backlight" where
  "lowerTimeoutFires cal mk now s =
     (case (bl_lowerTimeout s, bl_latestLow s) of
        (Some i, Some low) \<Rightarrow>
          (let s1 = s\<lparr>bl_lowerTimeout := None\<rparr>;
               auto = nitsToAbsPerceived (ca_luxToNits cal low);
               s2 = (if autoDiffers (bl_autoPerceived s1) auto \<or> closeToMin cal (bl_curPerceived s1) auto
                     then applyAuto cal mk now auto True s1 else s1)
           in s2\<lparr>bl_latestLow := None, bl_trace := bl_trace s2 @ [SourceFired i]\<rparr>)
      | _ \<Rightarrow> s)"

definition dropLowerTimeout :: "auto_backlight \<Rightarrow> auto_backlight" where
  "dropLowerTimeout s =
     (case bl_lowerTimeout s of
        None \<Rightarrow> s
      | Some i \<Rightarrow> s\<lparr>bl_lowerTimeout := None, bl_trace := bl_trace s @ [SourceRemove i]\<rparr>)"

definition ambientLightLevelChanged ::
    "calibration \<Rightarrow> bl_call idgen \<Rightarrow> real \<Rightarrow> real \<Rightarrow> string \<Rightarrow> auto_backlight \<Rightarrow> auto_backlight" where
  "ambientLightLevelChanged cal mk now level lightUnit s =
     (if \<not> bl_enabled s then s
      else if lightUnit \<noteq> ''lux'' then s
      else
        let lastLevel = (if bl_history s \<noteq> [] then snd (last (bl_history s)) else -1);
            s1 = s\<lparr>bl_history := bl_history s @ [(now / 1000, level)]\<rparr>
        in if lastLevel \<noteq> -1 \<and> \<bar>level - lastLevel\<bar> < level * (1 / 100) then s1
           else if analyze (bl_history s1) then
             (let s2 = s1\<lparr>bl_latestLow := Some level\<rparr>
              in if bl_lowerTimeout s2 = None
                 then s2\<lparr>bl_lowerTimeout := Some (mk (bl_trace s2)),
                         bl_trace := bl_trace s2 @ [SourceAdd (mk (bl_trace s2)) 3000]\<rparr>
                 else s2)
           else
             (let s3 = dropLowerTimeout (s1\<lparr>bl_latestLow := None\<rparr>);
                  auto = nitsToAbsPerceived (ca_luxToNits cal level)
              in if autoDiffers (bl_autoPerceived s3) auto \<or> closeToMin cal (bl_curPerceived s3) auto
                    \<or> closeToMax cal (bl_curPerceived s3) auto
                 then applyAuto cal mk now auto False s3
                 else s3))"

subsection \<open>Switching on and off\<close>

text \<open>What is read of the settings and the sensor.\<close>

record light_env =
  le_now :: real
  le_setting :: bool        \<comment> \<open>\<open>ambient-enabled\<close>\<close>
  le_available :: bool
  le_level :: real

text \<open>What \<open>uninhibit\<close> does after it has awaited \<open>_syncEnabled\<close>.\<close>

definition afterSync ::
    "calibration \<Rightarrow> bl_call idgen \<Rightarrow> light_env \<Rightarrow> bool option \<Rightarrow> auto_backlight \<Rightarrow> auto_backlight" where
  "afterSync cal mk env setImmediately s =
     (if bl_enabled s \<and> setImmediately = Some True
      then let auto = nitsToAbsPerceived (ca_luxToNits cal (le_level env))
           in setBrightnessPerceived cal mk (le_now env) auto (Some 0)
                (s\<lparr>bl_userDelta := 0, bl_autoPerceived := Some auto\<rparr>)
      else s)"

definition syncEnabled ::
    "calibration \<Rightarrow> bl_call idgen \<Rightarrow> light_env \<Rightarrow> bool \<Rightarrow> bool option \<Rightarrow> auto_backlight \<Rightarrow> auto_backlight" where
  "syncEnabled cal mk env updateNow after s =
     (let enabled = (bl_inhibitedCount s = 0 \<and> le_setting env \<and> le_available env)
      in if bl_enabled s = enabled then afterSync cal mk env after s
         else if enabled
         then bl_call ClaimAmbientLight (s\<lparr>bl_userDelta := 0, bl_claims := bl_claims s @ [(updateNow, after)]\<rparr>)
         else bl_call ReleaseAmbientLight
                ((dropLowerTimeout (s\<lparr>bl_enabled := False, bl_history := [], bl_latestLow := None,
                                      bl_autoPerceived := None\<rparr>))
                 \<lparr>bl_releases := bl_releases s @ [after]\<rparr>))"

text \<open>The answer to a claim, and to a release.\<close>

definition claimDone :: "calibration \<Rightarrow> bl_call idgen \<Rightarrow> light_env \<Rightarrow> bool \<Rightarrow> auto_backlight \<Rightarrow> auto_backlight" where
  "claimDone cal mk env ok s =
     (case bl_claims s of
        [] \<Rightarrow> s
      | (updateNow, after) # cs \<Rightarrow>
          (let s1 = s\<lparr>bl_claims := cs\<rparr>
           in if \<not> ok then afterSync cal mk env after s1
              else let s2 = s1\<lparr>bl_enabled := True\<rparr>;
                       s3 = (if updateNow
                             then ambientLightLevelChanged cal mk (le_now env) (le_level env) ''lux'' s2 else s2)
                   in afterSync cal mk env after s3))"

definition releaseDone :: "calibration \<Rightarrow> bl_call idgen \<Rightarrow> light_env \<Rightarrow> auto_backlight \<Rightarrow> auto_backlight" where
  "releaseDone cal mk env s =
     (case bl_releases s of
        [] \<Rightarrow> s
      | after # rs \<Rightarrow> afterSync cal mk env after (s\<lparr>bl_releases := rs\<rparr>))"

definition inhibit :: "calibration \<Rightarrow> bl_call idgen \<Rightarrow> light_env \<Rightarrow> auto_backlight \<Rightarrow> auto_backlight" where
  "inhibit cal mk env s =
     (let s1 = s\<lparr>bl_inhibitedCount := bl_inhibitedCount s + 1\<rparr>
      in if bl_inhibitedCount s1 = 1 then syncEnabled cal mk env True None s1 else s1)"

definition uninhibit :: "calibration \<Rightarrow> bl_call idgen \<Rightarrow> light_env \<Rightarrow> bool \<Rightarrow> auto_backlight \<Rightarrow> auto_backlight" where
  "uninhibit cal mk env setImmediately s =
     (let s1 = s\<lparr>bl_inhibitedCount := bl_inhibitedCount s - 1\<rparr>
      in if bl_inhibitedCount s1 = 0 then syncEnabled cal mk env False (Some setImmediately) s1 else s1)"

subsection \<open>Dimming and the user\<close>

definition dim :: "calibration \<Rightarrow> bl_call idgen \<Rightarrow> real \<Rightarrow> real \<Rightarrow> real \<Rightarrow> auto_backlight \<Rightarrow> auto_backlight" where
  "dim cal mk now dimFactor durationMs s =
     (if bl_dimFactor s = dimFactor then s
      else setBrightnessPerceived cal mk now (bl_noOverrides s) (Some durationMs) (s\<lparr>bl_dimFactor := dimFactor\<rparr>))"

definition undim :: "calibration \<Rightarrow> bl_call idgen \<Rightarrow> real \<Rightarrow> real \<Rightarrow> auto_backlight \<Rightarrow> auto_backlight" where
  "undim cal mk now durationMs s =
     (if bl_dimFactor s = 1 then s
      else setBrightnessPerceived cal mk now (bl_noOverrides s) (Some durationMs) (s\<lparr>bl_dimFactor := 1\<rparr>))"

definition setManually :: "calibration \<Rightarrow> bl_call idgen \<Rightarrow> real \<Rightarrow> real \<Rightarrow> auto_backlight \<Rightarrow> auto_backlight" where
  "setManually cal mk now percent s =
     (let target = linearMap (max percent (8 / 100)) 0 1 (ca_minPerceived cal) (ca_maxPerceived cal)
      in setBrightnessPerceived cal mk now (bl_noOverrides s) (Some 0)
           (s\<lparr>bl_userDelta := target - bl_noOverrides s\<rparr>))"

definition getPerceivedBrightness :: "calibration \<Rightarrow> auto_backlight \<Rightarrow> real" where
  "getPerceivedBrightness cal s = relPerceivedToAbsPerceived cal (bl_autoPerceived s) (bl_targetPerceived s)"

definition getPerceivedBrightnessPercent :: "calibration \<Rightarrow> auto_backlight \<Rightarrow> real" where
  "getPerceivedBrightnessPercent cal s =
     (let mapped = linearMap (getPerceivedBrightness cal s) (ca_minPerceived cal) (ca_maxPerceived cal) 0 1
      in min (max mapped 0) 1)"

subsection \<open>Start and events\<close>

definition initBacklight :: "calibration \<Rightarrow> real \<Rightarrow> auto_backlight" where
  "initBacklight cal curPwm =
     (let p = nitsToAbsPerceived (ca_pwmToNits cal curPwm)
      in \<lparr>bl_inhibitedCount = 0, bl_dimFactor = 1, bl_userDelta = 0, bl_enabled = False, bl_history = [],
          bl_curPerceived = Some p, bl_targetPerceived = p, bl_noOverrides = p, bl_autoPerceived = None,
          bl_latestLow = None, bl_lowerTimeout = None, bl_from = None, bl_to = None, bl_duration = None,
          bl_begin = None, bl_timeoutId = None, bl_inStep = False, bl_lastSetPwm = None, bl_replies = [],
          bl_claims = [], bl_releases = [], bl_trace = []\<rparr>)"

datatype bl_event =
    AmbientLight real string
  | SettingOrSensorChanged
  | Inhibit
  | Uninhibit bool
  | ClaimAnswered bool
  | ReleaseAnswered
  | Dim real real
  | Undim real
  | SetManually real
  | FadeTimer nat
  | LowerTimer
  | SetBrightnessAnswered

text \<open>The sources that exist; \<open>source_remove\<close> of one that does not is a warning and changes nothing.\<close>

definition liveSources :: "'e trace \<Rightarrow> nat set" where
  "liveSources tr = fold (\<lambda>e S. case e of SourceAdd i t \<Rightarrow> insert i S | SourceRemove i \<Rightarrow> S - {i}
                                  | SourceFired i \<Rightarrow> S - {i} | Call c \<Rightarrow> S) tr {}"

fun bl_step :: "calibration \<Rightarrow> bl_call idgen \<Rightarrow> light_env \<times> bl_event \<Rightarrow> auto_backlight \<Rightarrow> auto_backlight" where
  "bl_step cal mk (env, AmbientLight level u) s = ambientLightLevelChanged cal mk (le_now env) level u s"
| "bl_step cal mk (env, SettingOrSensorChanged) s = syncEnabled cal mk env True None s"
| "bl_step cal mk (env, Inhibit) s = inhibit cal mk env s"
| "bl_step cal mk (env, Uninhibit b) s = uninhibit cal mk env b s"
| "bl_step cal mk (env, ClaimAnswered ok) s = claimDone cal mk env ok s"
| "bl_step cal mk (env, ReleaseAnswered) s = releaseDone cal mk env s"
| "bl_step cal mk (env, Dim f d) s = dim cal mk (le_now env) f d s"
| "bl_step cal mk (env, Undim d) s = undim cal mk (le_now env) d s"
| "bl_step cal mk (env, SetManually p) s = setManually cal mk (le_now env) p s"
| "bl_step cal mk (env, FadeTimer i) s =
     (if i \<in> liveSources (bl_trace s) \<and> bl_lowerTimeout s \<noteq> Some i
      then fadeTick cal i (le_now env) s else s)"
| "bl_step cal mk (env, LowerTimer) s = lowerTimeoutFires cal mk (le_now env) s"
| "bl_step cal mk (env, SetBrightnessAnswered) s = setBrightnessDone s"

definition bl_run :: "calibration \<Rightarrow> bl_call idgen \<Rightarrow> (light_env \<times> bl_event) list \<Rightarrow> auto_backlight \<Rightarrow> auto_backlight" where
  "bl_run cal mk es s = fold (bl_step cal mk) es s"

text \<open>Runs in which every \<open>SetBrightness\<close> is answered before the next event.\<close>

definition bl_promptStep :: "calibration \<Rightarrow> bl_call idgen \<Rightarrow> light_env \<times> bl_event \<Rightarrow> auto_backlight \<Rightarrow> auto_backlight" where
  "bl_promptStep cal mk e s = (let s1 = bl_step cal mk e s in (setBrightnessDone ^^ length (bl_replies s1)) s1)"

end
