(* ===== verification/AutoBacklightFades.thy ===== *)
theory AutoBacklightFades
  imports AutoBacklightProps
begin

section \<open>The fades of the automatic backlight\<close>

text \<open>
  While every \<open>SetBrightness\<close> is answered before the next event, there is at most one source that fades, the
  recorded one, its fields are defined as long as it runs, and no source is removed twice. An answer that comes
  after the next fade has begun deletes the fields of that fade, which from then on sends no number.
\<close>

definition pendingFinal :: "auto_backlight \<Rightarrow> bool" where
  "pendingFinal s = list_ex sr_isFinal (bl_replies s)"

text \<open>The source that fades, if any: the recorded one, unless the last step was sent.\<close>

definition fadeSource :: "auto_backlight \<Rightarrow> nat option" where
  "fadeSource s = (if pendingFinal s then None else bl_timeoutId s)"

definition fieldsOk :: "auto_backlight \<Rightarrow> bool" where
  "fieldsOk s =
     (case fadeSource s of
        None \<Rightarrow> pendingFinal s \<or> bl_duration s = None
      | Some i \<Rightarrow> bl_from s \<noteq> None \<and> bl_to s \<noteq> None \<and> bl_begin s \<noteq> None
                  \<and> (case bl_duration s of None \<Rightarrow> False | Some d \<Rightarrow> d > 0))"

definition repliesOk :: "auto_backlight \<Rightarrow> bool" where
  "repliesOk s =
     (case bl_replies s of
        [] \<Rightarrow> \<not> bl_inStep s \<and> bl_curPerceived s \<noteq> None
      | [r] \<Rightarrow> sr_newPerceived r \<noteq> None
      | _ \<Rightarrow> False)"

text \<open>The sources are the fade and those of \<open>X\<close>.\<close>

definition sourcesOk :: "nat set \<Rightarrow> auto_backlight \<Rightarrow> bool" where
  "sourcesOk X s = (sources (bl_trace s) = Some (set_option (fadeSource s) \<union> X) \<and> set_option (fadeSource s) \<inter> X = {})"

definition core_inv :: "nat set \<Rightarrow> auto_backlight \<Rightarrow> bool" where
  "core_inv X s = (fieldsOk s \<and> repliesOk s \<and> sourcesOk X s)"

definition claimsOk :: "auto_backlight \<Rightarrow> bool" where
  "claimsOk s = (list_all (\<lambda>(u, a). u \<longrightarrow> a = None) (bl_claims s) \<and> (bl_lowerTimeout s = None \<longleftrightarrow> bl_latestLow s = None))"

definition fade_inv :: "auto_backlight \<Rightarrow> bool" where
  "fade_inv s = (core_inv (set_option (bl_lowerTimeout s)) s \<and> claimsOk s)"

abbreviation settled :: "auto_backlight \<Rightarrow> bool" where
  "settled s \<equiv> fade_inv s \<and> bl_replies s = []"

lemmas fade_defs = core_inv_def fieldsOk_def repliesOk_def sourcesOk_def fadeSource_def pendingFinal_def

lemma claimsOk_cong:
  "bl_claims s' = bl_claims s \<Longrightarrow> bl_lowerTimeout s' = bl_lowerTimeout s \<Longrightarrow> bl_latestLow s' = bl_latestLow s \<Longrightarrow>
     claimsOk s' = claimsOk s"
  by (simp add: claimsOk_def)

lemma core_inv_done:
  assumes "core_inv X s"
  shows "core_inv X (setBrightnessDone s) \<and> bl_replies (setBrightnessDone s) = []"
proof -
  consider "bl_replies s = []" | r where "bl_replies s = [r]"
    using assms by (auto simp: core_inv_def repliesOk_def split: list.splits)
  then show ?thesis
  proof cases
    case 1
    with assms show ?thesis by (simp add: setBrightnessDone_def)
  next
    case 2
    show ?thesis
    proof (cases "sr_isFinal r")
      case True
      with 2 assms show ?thesis by (auto simp: fade_defs setBrightnessDone_def Let_def)
    next
      case False
      with 2 assms show ?thesis by (auto simp: fade_defs setBrightnessDone_def Let_def split: option.splits)
    qed
  qed
qed

lemma fade_inv_done:
  assumes "fade_inv s"
  shows "settled (setBrightnessDone s)"
proof -
  have f: "bl_lowerTimeout (setBrightnessDone s) = bl_lowerTimeout s" "bl_claims (setBrightnessDone s) = bl_claims s"
    "bl_latestLow (setBrightnessDone s) = bl_latestLow s"
    by (simp_all add: setBrightnessDone_def Let_def split: list.split)
  then show ?thesis
    using core_inv_done [of "set_option (bl_lowerTimeout s)" s] assms claimsOk_cong [OF f(2,1,3)]
    by (simp add: fade_inv_def)
qed

lemma settle_inv:
  assumes "fade_inv s"
  shows "settled ((setBrightnessDone ^^ length (bl_replies s)) s)"
proof -
  have "length (bl_replies s) \<le> 1"
    using assms by (auto simp: fade_inv_def core_inv_def repliesOk_def split: list.splits)
  then consider "bl_replies s = []" | "length (bl_replies s) = 1" by (cases "bl_replies s") auto
  then show ?thesis
    using fade_inv_done [OF assms] assms by cases auto
qed

subsection \<open>One step of a fade\<close>

definition sentStep :: "real option \<Rightarrow> real option \<Rightarrow> bool \<Rightarrow> auto_backlight \<Rightarrow> auto_backlight" where
  "sentStep p np final s =
     bl_call (SetBrightness p)
       (s\<lparr>bl_inStep := True, bl_replies := [\<lparr>sr_newPwm = p, sr_newPerceived = np, sr_isFinal = final\<rparr>]\<rparr>)"

lemma step_not_final:
  assumes "bl_replies s = []" and "\<not> bl_inStep s" and "\<not> isFinalUpdate now s"
  shows "snd (smoothUpdateStep cal now s) = s
    \<or> (\<exists>p. snd (smoothUpdateStep cal now s) = sentStep p (fadePerceived now s) False s)"
  using assms by (auto simp: smoothUpdateStep_def Let_def sentStep_def)

lemma step_final:
  assumes "bl_replies s = []" and "isFinalUpdate now s"
  shows "snd (smoothUpdateStep cal now s) = clearFade s
    \<or> (\<exists>p. snd (smoothUpdateStep cal now s) = sentStep p (bl_to s) True s)"
  using assms by (auto simp: smoothUpdateStep_def Let_def fadePerceived_def sentStep_def)

lemma setBrightness_core:
  assumes mk: "fresh_ids mk" and inv: "core_inv X s" and none: "bl_replies s = []"
  shows "core_inv X (setBrightnessPerceived cal mk now target (Some d) s)"
proof -
  define s1 where "s1 = (case bl_timeoutId s of None \<Rightarrow> s | Some i \<Rightarrow> s\<lparr>bl_trace := bl_trace s @ [SourceRemove i]\<rparr>)"
  define s2 where "s2 = s1\<lparr>bl_noOverrides := target, bl_from := bl_curPerceived s1,
    bl_to := Some (adjustTarget cal s target), bl_targetPerceived := adjustTarget cal s target,
    bl_duration := Some d, bl_begin := Some now\<rparr>"
  define s3 where "s3 = snd (smoothUpdateStep cal now s2)"
  let ?s' = "setBrightnessPerceived cal mk now target (Some d) s"
  have ids: "mk tr \<noteq> 0" "sources tr = Some S \<Longrightarrow> mk tr \<notin> S" for tr S using mk by (auto simp: fresh_ids_def)
  have s1: "bl_replies s1 = []" "\<not> bl_inStep s1" "\<exists>c. bl_curPerceived s1 = Some c"
      "bl_timeoutId s1 = bl_timeoutId s" "sources (bl_trace s1) = Some X"
    using inv none by (auto simp: s1_def fade_defs split: option.splits)
  have s2: "bl_replies s2 = []" "\<not> bl_inStep s2" "sources (bl_trace s2) = Some X"
      "isFinalUpdate now s2 \<longleftrightarrow> d \<le> 0"
    using s1 by (auto simp: s2_def isFinalUpdate_def)
  have s': "?s' = bl_call PerceivedBrightnessChanged
      (case bl_duration s3 of None \<Rightarrow> s3
       | Some d \<Rightarrow> if d > 0 then s3\<lparr>bl_timeoutId := Some (mk (bl_trace s3)),
             bl_trace := bl_trace s3 @ [SourceAdd (mk (bl_trace s3)) 16]\<rparr> else s3)"
    unfolding setBrightnessPerceived_def Let_def s1_def [symmetric] s2_def [symmetric] s3_def [symmetric]
    by (auto split: option.split)
  show ?thesis
  proof (cases "d \<le> 0")
    case True
    with s2 have "isFinalUpdate now s2" by simp
    from step_final [OF s2(1) this, of cal] consider "s3 = clearFade s2" | p where "s3 = sentStep p (bl_to s2) True s2"
      unfolding s3_def by blast
    then show ?thesis
    proof cases
      case 1
      with s2 s1 show ?thesis unfolding s' by (auto simp: fade_defs s2_def)
    next
      case 2
      with s2 s1 True show ?thesis unfolding s' by (auto simp: fade_defs s2_def sentStep_def)
    qed
  next
    case False
    with s2 have nf: "\<not> isFinalUpdate now s2" by simp
    have np: "fadePerceived now s2 \<noteq> None" using nf s1(3) by (auto simp: fadePerceived_def s2_def)
    from step_not_final [OF s2(1,2) nf, of cal] consider "s3 = s2"
      | p where "s3 = sentStep p (fadePerceived now s2) False s2"
      unfolding s3_def by blast
    then show ?thesis
    proof cases
      case 1
      have "mk (bl_trace s2) \<notin> X" using ids(2) [OF s2(3)] .
      with 1 s2 s1 False show ?thesis unfolding s' by (auto simp: fade_defs s2_def)
    next
      case 2
      have src: "sources (bl_trace s3) = Some X"
        using 2 s2(3) by (simp add: sentStep_def)
      have "mk (bl_trace s3) \<notin> X" using ids(2) [OF src] .
      with 2 s2 s1 False np src show ?thesis unfolding s' by (auto simp: fade_defs s2_def sentStep_def)
    qed
  qed
qed

subsection \<open>Every operation\<close>

lemma core_inv_update [simp]:
  "core_inv X (s\<lparr>bl_inhibitedCount := a1\<rparr>) = core_inv X s" "core_inv X (s\<lparr>bl_dimFactor := a2\<rparr>) = core_inv X s"
  "core_inv X (s\<lparr>bl_userDelta := a3\<rparr>) = core_inv X s" "core_inv X (s\<lparr>bl_enabled := a4\<rparr>) = core_inv X s"
  "core_inv X (s\<lparr>bl_history := a5\<rparr>) = core_inv X s" "core_inv X (s\<lparr>bl_autoPerceived := a6\<rparr>) = core_inv X s"
  "core_inv X (s\<lparr>bl_latestLow := a7\<rparr>) = core_inv X s" "core_inv X (s\<lparr>bl_lowerTimeout := a8\<rparr>) = core_inv X s"
  "core_inv X (s\<lparr>bl_claims := a9\<rparr>) = core_inv X s" "core_inv X (s\<lparr>bl_releases := b1\<rparr>) = core_inv X s"
  by (simp_all add: fade_defs cong: option.case_cong list.case_cong)

lemma core_inv_call [simp]: "core_inv X (bl_call c s) = core_inv X s"
  by (simp add: fade_defs cong: option.case_cong list.case_cong)

lemma claimsOk_update [simp]:
  "claimsOk (s\<lparr>bl_inhibitedCount := a1\<rparr>) = claimsOk s" "claimsOk (s\<lparr>bl_dimFactor := a2\<rparr>) = claimsOk s"
  "claimsOk (s\<lparr>bl_userDelta := a3\<rparr>) = claimsOk s" "claimsOk (s\<lparr>bl_enabled := a4\<rparr>) = claimsOk s"
  "claimsOk (s\<lparr>bl_history := a5\<rparr>) = claimsOk s" "claimsOk (s\<lparr>bl_autoPerceived := a6\<rparr>) = claimsOk s"
  "claimsOk (s\<lparr>bl_releases := b1\<rparr>) = claimsOk s" "claimsOk (bl_call c s) = claimsOk s"
  by (simp_all add: claimsOk_def)

lemma fade_inv_update [simp]:
  "fade_inv (s\<lparr>bl_inhibitedCount := a1\<rparr>) = fade_inv s" "fade_inv (s\<lparr>bl_dimFactor := a2\<rparr>) = fade_inv s"
  "fade_inv (s\<lparr>bl_userDelta := a3\<rparr>) = fade_inv s" "fade_inv (s\<lparr>bl_enabled := a4\<rparr>) = fade_inv s"
  "fade_inv (s\<lparr>bl_history := a5\<rparr>) = fade_inv s" "fade_inv (s\<lparr>bl_autoPerceived := a6\<rparr>) = fade_inv s"
  "fade_inv (s\<lparr>bl_releases := b1\<rparr>) = fade_inv s" "fade_inv (bl_call c s) = fade_inv s"
  by (simp_all add: fade_inv_def)

lemma setBrightness_inv:
  assumes "fresh_ids mk" and "settled s"
  shows "fade_inv (setBrightnessPerceived cal mk now target (Some d) s)"
proof -
  let ?s' = "setBrightnessPerceived cal mk now target (Some d) s"
  have "claimsOk ?s' = claimsOk s" by (rule claimsOk_cong) simp_all
  with assms show ?thesis by (simp add: fade_inv_def setBrightness_core)
qed

lemma applyAuto_core:
  assumes "fresh_ids mk" and "core_inv X s" and "bl_replies s = []"
  shows "core_inv X (applyAuto cal mk now auto b s)"
proof -
  obtain c where "bl_curPerceived s = Some c"
    using assms(2,3) by (auto simp: core_inv_def repliesOk_def)
  then show ?thesis
    using assms by (simp add: applyAuto_def getAutoFadeDurationSec_def Let_def setBrightness_core)
qed

lemma applyAuto_frame [simp]:
  "bl_claims (applyAuto cal mk now auto b s) = bl_claims s"
  "bl_lowerTimeout (applyAuto cal mk now auto b s) = bl_lowerTimeout s"
  "bl_latestLow (applyAuto cal mk now auto b s) = bl_latestLow s"
  "bl_enabled (applyAuto cal mk now auto b s) = bl_enabled s"
  "bl_inhibitedCount (applyAuto cal mk now auto b s) = bl_inhibitedCount s"
  by (simp_all add: applyAuto_def)

lemma applyAuto_inv:
  assumes "fresh_ids mk" and "settled s"
  shows "fade_inv (applyAuto cal mk now auto b s)"
proof -
  have "claimsOk (applyAuto cal mk now auto b s) = claimsOk s" by (rule claimsOk_cong) simp_all
  with assms show ?thesis by (simp add: fade_inv_def applyAuto_core)
qed

lemma dropLower_settled:
  assumes "settled s"
  shows "settled (dropLowerTimeout (s\<lparr>bl_latestLow := None\<rparr>))"
  using assms by (auto simp: dropLowerTimeout_def fade_inv_def claimsOk_def fade_defs split: option.splits)

lemma ambient_inv:
  assumes mk: "fresh_ids mk" and inv: "settled s"
  shows "fade_inv (ambientLightLevelChanged cal mk now level u s)"
proof -
  define s1 where "s1 = s\<lparr>bl_history := bl_history s @ [(now / 1000, level)]\<rparr>"
  have s1: "settled s1" using inv by (simp add: s1_def)
  have src: "sources (bl_trace s1) = Some (set_option (fadeSource s1) \<union> set_option (bl_lowerTimeout s1))"
    using s1 by (simp add: fade_inv_def core_inv_def sourcesOk_def)
  have low: "fade_inv (let s2 = s1\<lparr>bl_latestLow := Some level\<rparr> in
      if bl_lowerTimeout s2 = None
      then s2\<lparr>bl_lowerTimeout := Some (mk (bl_trace s2)), bl_trace := bl_trace s2 @ [SourceAdd (mk (bl_trace s2)) 3000]\<rparr>
      else s2)"
  proof (cases "bl_lowerTimeout s1")
    case None
    have "mk (bl_trace s1) \<notin> set_option (fadeSource s1)" using mk src None by (auto simp: fresh_ids_def)
    with None s1 show ?thesis
      by (auto simp: fade_inv_def claimsOk_def fade_defs split: option.splits)
  next
    case (Some i)
    with s1 show ?thesis by (simp add: fade_inv_def claimsOk_def Let_def)
  qed
  have up: "settled (dropLowerTimeout (s1\<lparr>bl_latestLow := None\<rparr>))" by (rule dropLower_settled) (rule s1)
  show ?thesis
    using inv s1 low applyAuto_inv [OF mk up] up
    unfolding ambientLightLevelChanged_def s1_def [symmetric] Let_def by (simp split: if_split)
qed

lemma after_inv: "fresh_ids mk \<Longrightarrow> settled s \<Longrightarrow> fade_inv (afterSync cal mk env a s)"
  by (simp add: afterSync_def Let_def setBrightness_inv)

lemma sync_inv:
  assumes mk: "fresh_ids mk" and inv: "settled s" and a: "u \<longrightarrow> a = None"
  shows "fade_inv (syncEnabled cal mk env u a s)"
proof -
  have off: "fade_inv (dropLowerTimeout (s\<lparr>bl_enabled := False, bl_history := [],
      bl_latestLow := None, bl_autoPerceived := None\<rparr>))"
    using inv by (auto simp: dropLowerTimeout_def fade_inv_def claimsOk_def fade_defs split: option.splits)
  have on: "fade_inv (s\<lparr>bl_userDelta := x, bl_claims := bl_claims s @ [(u, a)]\<rparr>)" for x
    using inv a by (simp add: fade_inv_def claimsOk_def)
  show ?thesis using off on after_inv [OF mk inv] by (simp add: syncEnabled_def Let_def)
qed

lemma claimDone_inv:
  assumes mk: "fresh_ids mk" and inv: "settled s"
  shows "fade_inv (claimDone cal mk env ok s)"
proof (cases "bl_claims s")
  case Nil
  with inv show ?thesis by (simp add: claimDone_def)
next
  case (Cons c cs)
  obtain u a where c: "c = (u, a)" by fastforce
  define s1 where "s1 = s\<lparr>bl_claims := cs\<rparr>"
  define s2 where "s2 = s1\<lparr>bl_enabled := True\<rparr>"
  have s1: "settled s1" using inv Cons by (simp add: s1_def fade_inv_def claimsOk_def)
  then have s2: "settled s2" by (simp add: s2_def)
  show ?thesis
  proof (cases u)
    case True
    then have "a = None" using inv Cons c by (simp add: fade_inv_def claimsOk_def)
    moreover have "fade_inv (ambientLightLevelChanged cal mk (le_now env) (le_level env) ''lux'' s2)"
      by (rule ambient_inv [OF mk s2])
    ultimately show ?thesis
      using True s1 unfolding claimDone_def Cons c by (simp add: afterSync_def s1_def s2_def Let_def)
  next
    case False
    with s1 s2 show ?thesis
      using after_inv [OF mk s1] after_inv [OF mk s2]
      unfolding claimDone_def Cons c by (simp add: Let_def s1_def s2_def)
  qed
qed

lemma live_sources:
  assumes "sources tr = Some S"
  shows "liveSources tr = S"
  using assms
proof (induction tr arbitrary: S rule: rev_induct)
  case Nil
  then show ?case by (simp add: liveSources_def)
next
  case (snoc e tr)
  obtain S0 where "sources tr = Some S0" using snoc.prems by (cases "sources tr") auto
  with snoc show ?case by (cases e) (auto simp: liveSources_def split: if_splits)
qed

lemma tick_inv:
  assumes inv: "settled s" and i: "i \<in> liveSources (bl_trace s)" "bl_lowerTimeout s \<noteq> Some i"
  shows "fade_inv (fadeTick cal i now s)"
proof -
  have core: "core_inv (set_option (bl_lowerTimeout s)) s" and none: "bl_replies s = []" and cl: "claimsOk s"
    using inv by (simp_all add: fade_inv_def)
  then have src: "sources (bl_trace s) = Some (set_option (bl_timeoutId s) \<union> set_option (bl_lowerTimeout s))"
      "set_option (bl_timeoutId s) \<inter> set_option (bl_lowerTimeout s) = {}"
    by (auto simp: fade_defs)
  with live_sources [OF src(1)] i have t: "bl_timeoutId s = Some i" by (auto simp: elem_set)
  then have fields: "\<exists>f. bl_from s = Some f" "\<exists>f. bl_to s = Some f" "\<exists>f. bl_begin s = Some f"
      "\<exists>d. bl_duration s = Some d \<and> d > 0" "\<not> bl_inStep s"
    using core none by (auto simp: fade_defs split: option.splits)
  let ?l = "set_option (bl_lowerTimeout s)"
  have c: "claimsOk (fadeTick cal i now s) = claimsOk s"
    by (rule claimsOk_cong) (auto simp: fadeTick_def smoothUpdateStep_def Let_def split: prod.split)
  have l: "bl_lowerTimeout (fadeTick cal i now s) = bl_lowerTimeout s"
    by (auto simp: fadeTick_def smoothUpdateStep_def Let_def)
  have fst: "fst (smoothUpdateStep cal now s) = isFinalUpdate now s" if "\<not> bl_inStep s"
    using that by (simp add: smoothUpdateStep_def Let_def)
  have "core_inv ?l (fadeTick cal i now s)"
  proof (cases "isFinalUpdate now s")
    case True
    then have e: "fadeTick cal i now s = (let s1 = snd (smoothUpdateStep cal now s) in
        s1\<lparr>bl_trace := bl_trace s1 @ [SourceFired i]\<rparr>)"
      using fst fields(5) by (cases "smoothUpdateStep cal now s") (simp add: fadeTick_def)
    from step_final [OF none True, of cal] show ?thesis
    proof (elim disjE exE)
      assume a: "snd (smoothUpdateStep cal now s) = clearFade s"
      show ?thesis unfolding e a using core none t src i(2) by (auto simp: fade_defs Let_def)
    next
      fix p assume a: "snd (smoothUpdateStep cal now s) = sentStep p (bl_to s) True s"
      show ?thesis unfolding e a using core none t src i(2) fields(2) by (auto simp: fade_defs Let_def sentStep_def)
    qed
  next
    case False
    then have e: "fadeTick cal i now s = snd (smoothUpdateStep cal now s)"
      using fst fields(5) by (cases "smoothUpdateStep cal now s") (simp add: fadeTick_def)
    have np: "fadePerceived now s \<noteq> None" using False fields by (auto simp: fadePerceived_def)
    from step_not_final [OF none fields(5) False, of cal] show ?thesis
    proof (elim disjE exE)
      assume a: "snd (smoothUpdateStep cal now s) = s"
      show ?thesis unfolding e a by (rule core)
    next
      fix p assume a: "snd (smoothUpdateStep cal now s) = sentStep p (fadePerceived now s) False s"
      show ?thesis unfolding e a using core none t src fields np by (auto simp: fade_defs sentStep_def)
    qed
  qed
  with c cl l show ?thesis by (simp add: fade_inv_def)
qed

lemma core_inv_fired:
  assumes "core_inv {i} s"
  shows "core_inv {} (s\<lparr>bl_trace := bl_trace s @ [SourceFired i]\<rparr>)"
proof -
  let ?s = "s\<lparr>bl_trace := bl_trace s @ [SourceFired i]\<rparr>"
  have f: "fadeSource ?s = fadeSource s" by (simp add: fadeSource_def pendingFinal_def)
  have "fieldsOk ?s = fieldsOk s" "repliesOk ?s = repliesOk s"
    by (simp_all add: fieldsOk_def repliesOk_def f pendingFinal_def cong: option.case_cong list.case_cong)
  then show ?thesis using assms by (auto simp: core_inv_def sourcesOk_def f)
qed

lemma lower_inv:
  assumes mk: "fresh_ids mk" and inv: "settled s"
  shows "fade_inv (lowerTimeoutFires cal mk now s)"
proof (cases "bl_lowerTimeout s")
  case None
  with inv show ?thesis by (simp add: lowerTimeoutFires_def)
next
  case (Some i)
  then obtain low where low: "bl_latestLow s = Some low" using inv by (auto simp: fade_inv_def claimsOk_def)
  define auto where "auto = nitsToAbsPerceived (ca_luxToNits cal low)"
  define s1 where "s1 = s\<lparr>bl_lowerTimeout := None\<rparr>"
  define s2 where "s2 = (if autoDiffers (bl_autoPerceived s1) auto \<or> closeToMin cal (bl_curPerceived s1) auto
                     then applyAuto cal mk now auto True s1 else s1)"
  have e: "lowerTimeoutFires cal mk now s = s2\<lparr>bl_latestLow := None, bl_trace := bl_trace s2 @ [SourceFired i]\<rparr>"
    unfolding lowerTimeoutFires_def Some low s2_def s1_def auto_def by (simp add: Let_def)
  have "core_inv {i} s1" "bl_replies s1 = []" using inv Some by (simp_all add: s1_def fade_inv_def)
  then have core: "core_inv {i} s2" by (simp add: s2_def applyAuto_core [OF mk])
  have f: "bl_claims s2 = bl_claims s" "bl_lowerTimeout s2 = None" by (simp_all add: s2_def s1_def)
  have "list_all (\<lambda>(u, a). u \<longrightarrow> a = None) (bl_claims s)" using inv by (simp add: fade_inv_def claimsOk_def)
  moreover have "core_inv {i} (s2\<lparr>bl_latestLow := None\<rparr>)" using core by simp
  note core_inv_fired [OF this]
  ultimately show ?thesis
    using f unfolding e by (simp add: fade_inv_def claimsOk_def)
qed

lemma step_inv:
  assumes mk: "fresh_ids mk" and inv: "settled s"
  shows "fade_inv (bl_step cal mk e s)"
proof -
  obtain env ev where e: "e = (env, ev)" by fastforce
  note facts = setBrightness_inv [OF mk] after_inv [OF mk] sync_inv [OF mk] inv
  show ?thesis
  proof (cases ev)
    case ReleaseAnswered
    then show ?thesis unfolding e by (auto simp: releaseDone_def facts split: list.split)
  next
    case SetBrightnessAnswered
    then show ?thesis unfolding e using fade_inv_done inv by simp
  next
    case FadeTimer
    then show ?thesis unfolding e using tick_inv [OF inv] inv by simp
  qed (simp_all add: e facts claimDone_inv [OF mk] lower_inv [OF mk] ambient_inv [OF mk] inhibit_def uninhibit_def
      dim_def undim_def setManually_def Let_def)
qed

text \<open>while every \<open>SetBrightness\<close> is answered before the next event, no source is removed that does not exist, the only
  sources are the recorded fade and the recorded timer, and the fields of a fade are defined as long as it runs.
\<close>

theorem prompt_fades_consistent:
  assumes "fresh_ids mk"
  shows "fade_inv (fold (bl_promptStep cal mk) es (initBacklight cal pwm))"
proof -
  have "settled (fold (bl_promptStep cal mk) es s)" if "settled s" for s
    using that
  proof (induction es arbitrary: s)
    case Nil
    then show ?case by simp
  next
    case (Cons e es)
    have "settled (bl_promptStep cal mk e s)"
      using settle_inv [OF step_inv [OF assms Cons.prems]] by (simp add: bl_promptStep_def Let_def)
    with Cons.IH show ?case by simp
  qed
  moreover have "settled (initBacklight cal pwm)"
    by (simp add: fade_inv_def claimsOk_def fade_defs initBacklight_def Let_def)
  ultimately show ?thesis by blast
qed

end
