(* ===== verification/AutoBacklightCases.thy ===== *)
theory AutoBacklightCases
  imports AutoBacklightFades
begin

section \<open>The automatic backlight: darkening, and runs that go wrong\<close>

text \<open>
  A rise of the ambient light is never taken for darkening; the curve of one device falls where the room gets brighter;
  and two runs: an answer that comes late, and a claim that is answered after an inhibit.
\<close>

subsection \<open>Darkening\<close>

lemma analyzeBack_bounds:
  assumes "\<forall>(t, l)\<in>set older. l \<le> b" and "lowest \<le> b"
    and "analyzeBack timeNow lastTime lowest older = (low, tmp)"
  shows "(\<forall>l\<in>set tmp. low \<le> l \<and> l \<le> b) \<and> low \<le> lowest"
  using assms
proof (induction timeNow lastTime lowest older arbitrary: low tmp rule: analyzeBack.induct)
  case (1 timeNow lastTime lowest)
  then show ?case by simp
next
  case (2 timeNow lastTime lowest timeMs level older)
  show ?case
  proof (cases "timeNow - timeMs > 10000")
    case True
    with "2.prems" show ?thesis by simp
  next
    case False
    let ?low = "if level < lowest then level else lowest"
    obtain rest where r: "analyzeBack timeNow timeMs ?low older = (low, rest)"
        "tmp = replicate (nat \<lfloor>(lastTime - timeMs) / 500 + 1 / 2\<rfloor>) level @ rest"
      using "2.prems"(3) False by (auto simp: Let_def split: prod.splits)
    have "(\<forall>l\<in>set rest. low \<le> l \<and> l \<le> b) \<and> low \<le> ?low"
      using "2.IH" [OF False refl _ _ r(1)] "2.prems"(1,2) by auto
    moreover have "level \<le> b" using "2.prems"(1) by simp
    ultimately show ?thesis using r(2) by (auto split: if_splits)
  qed
qed

lemma mean_bounds:
  fixes xs :: "real list"
  assumes "xs \<noteq> []" and "\<forall>x\<in>set xs. a \<le> x \<and> x \<le> b"
  shows "a \<le> sum_list xs / length xs \<and> sum_list xs / length xs \<le> b"
proof -
  have "a * length xs \<le> sum_list xs \<and> sum_list xs \<le> b * length xs"
    using assms(2) by (induction xs) (auto simp: algebra_simps)
  moreover have "0 < length xs" using assms(1) by simp
  ultimately show ?thesis by (simp add: pos_le_divide_eq pos_divide_le_eq)
qed

text \<open>
  A measurement that is at least as bright as all the earlier ones is never taken for an abrupt darkening.
\<close>

theorem rise_is_not_darkening:
  assumes "\<forall>(t, l)\<in>set history. l \<le> level"
  shows "\<not> analyze (history @ [(timeNow, level)])"
proof -
  obtain low tmp where a: "analyzeBack timeNow timeNow level (rev history) = (low, tmp)" by fastforce
  have b: "(\<forall>l\<in>set tmp. low \<le> l \<and> l \<le> level) \<and> low \<le> level"
    using analyzeBack_bounds [OF _ _ a, of level] assms by auto
  show ?thesis
  proof (cases "tmp = []")
    case True
    with a show ?thesis by (simp add: analyze_def Let_def)
  next
    case False
    define m where "m = sum_list tmp / length tmp"
    define sd where "sd = sqrt (sum_list (map (\<lambda>x. (x - m)\<^sup>2) tmp) / length tmp)"
    have m: "low \<le> m" "m \<le> level" using mean_bounds [OF False] b by (auto simp: m_def)
    have "0 \<le> sum_list (map (\<lambda>x. (x - m)\<^sup>2) tmp)" by (rule sum_list_nonneg) auto
    then have "0 \<le> sd" by (simp add: sd_def)
    with m have "\<not> level < (m - (m - low) * (3 / 10)) - sd * 2" by argo
    with False a show ?thesis by (simp add: analyze_def Let_def m_def sd_def)
  qed
qed

theorem rise_is_not_darkening_witness:
  "\<not> analyze ([(0, 100), (1000, 20), (2000, 150)] @ [(3000, 200)])"
  by (rule rise_is_not_darkening) simp

text \<open>The recognition does happen: from 100 lux for four seconds to 10.\<close>

lemma darkening_example: "analyze [(0, 100), (1000, 100), (2000, 100), (4000, 10)]"
  by (simp add: analyze_def Let_def floor_eq_iff numeral_eq_Suc)

subsection \<open>The curves of the devices\<close>

text \<open>
  On the OnePlus 6 the screen gets darker when the room gets brighter from 6000 to 8000 lux: the curve through its
  table overshoots. (The points of the table are increasing.)
\<close>

theorem oneplus_curve_falls:
  "(case makeLuxToNitsCurve oneplusLux of Inl e \<Rightarrow> False | Inr f \<Rightarrow> f 8000 + 50 < f 6000)
   \<and> sorted (map snd oneplusLux)"
  by code_simp

subsection \<open>A late answer\<close>

lemma liveSources_snoc [simp]:
  "liveSources [] = {}" "liveSources (tr @ [SourceAdd i t]) = insert i (liveSources tr)"
  "liveSources (tr @ [Call c]) = liveSources tr"
  by (simp_all add: liveSources_def)

text \<open>A brightness that is set at once is sent as a last step.\<close>

lemma first_final:
  assumes "bl_replies s = []" and "bl_lastSetPwm s = None" and "bl_timeoutId s = None"
  shows "let s' = setBrightnessPerceived cal mk now target (Some 0) s in
    (\<exists>r. bl_replies s' = [r] \<and> sr_isFinal r) \<and> bl_inStep s' \<and> bl_timeoutId s' = None
    \<and> liveSources (bl_trace s') = liveSources (bl_trace s)"
  using assms by (auto simp: setBrightnessPerceived_def smoothUpdateStep_def isFinalUpdate_def Let_def)

text \<open>A fade that begins while an answer is awaited sends nothing yet.\<close>

lemma waiting_fade:
  assumes "bl_inStep s" and "bl_timeoutId s = None" and "d > 0"
  shows "bl_replies (setBrightnessPerceived cal mk now target (Some d) s) = bl_replies s
    \<and> liveSources (bl_trace (setBrightnessPerceived cal mk now target (Some d) s))
      = insert (mk (bl_trace s)) (liveSources (bl_trace s))"
  using assms by (simp add: setBrightnessPerceived_def smoothUpdateStep_def isFinalUpdate_def Let_def liveSources_def)

lemma lost_fade_tick:
  assumes "bl_duration s = None" and "\<not> bl_inStep s"
  shows "bl_trace (fadeTick cal i now s) = bl_trace s @ [Call (SetBrightness None)]
    \<and> bl_timeoutId (fadeTick cal i now s) = bl_timeoutId s"
  using assms
  by (simp add: fadeTick_def smoothUpdateStep_def isFinalUpdate_def fadePerceived_def Let_def split: option.split)

text \<open>an answer that comes late breaks the next fade: the user sets the brightness, the screen is dimmed before the
  backlight has answered, and the answer deletes the fields of the new fade. Its source goes on, its
  identifier is lost, and it sends a level that is not a number.
\<close>

theorem late_answer_breaks_fade:
  "let env = (\<lambda>t. \<lparr>le_now = t, le_setting = True, le_available = True, le_level = 100\<rparr>);
       s = bl_run cal (\<lambda>tr. 7)
             [(env 0, SetManually p), (env 1000, Dim (1 / 2) 500), (env 2000, SetBrightnessAnswered), (env 17000, FadeTimer 7)]
             (initBacklight cal pwm)
   in last (bl_trace s) = Call (SetBrightness None) \<and> 7 \<in> liveSources (bl_trace s) \<and> bl_timeoutId s = None"
proof -
  define s0 where "s0 = initBacklight cal pwm"
  define s1 where "s1 = setManually cal (\<lambda>tr. 7) 0 p s0"
  define s2 where "s2 = dim cal (\<lambda>tr. 7) 1000 (1 / 2) 500 s1"
  define s3 where "s3 = setBrightnessDone s2"
  have s0: "bl_replies s0 = []" "bl_lastSetPwm s0 = None" "bl_timeoutId s0 = None" "bl_dimFactor s0 = 1"
      "bl_lowerTimeout s0 = None" "bl_trace s0 = []"
    by (simp_all add: s0_def initBacklight_def Let_def)
  obtain r where s1: "bl_replies s1 = [r]" "sr_isFinal r" "bl_inStep s1" "bl_timeoutId s1 = None" "bl_dimFactor s1 = 1"
      "bl_lowerTimeout s1 = None" "liveSources (bl_trace s1) = {}"
    using first_final [of "s0\<lparr>bl_userDelta := linearMap (max p (8 / 100)) 0 1 (ca_minPerceived cal) (ca_maxPerceived cal)
        - bl_noOverrides s0\<rparr>" cal "\<lambda>tr. 7" 0 "bl_noOverrides s0"] s0
    by (auto simp: s1_def setManually_def Let_def)
  have s2: "bl_replies s2 = [r]" "bl_lowerTimeout s2 = None" "liveSources (bl_trace s2) = {7}"
    using waiting_fade [of "s1\<lparr>bl_dimFactor := 1 / 2\<rparr>" 500 cal "\<lambda>tr. 7" 1000] s1 by (simp_all add: s2_def dim_def)
  have s3: "bl_duration s3 = None" "bl_timeoutId s3 = None" "\<not> bl_inStep s3" "bl_lowerTimeout s3 = None"
      "liveSources (bl_trace s3) = {7}"
    using s2 s1(2) by (simp_all add: s3_def setBrightnessDone_def Let_def)
  have "bl_run cal (\<lambda>tr. 7) [(e0, SetManually p), (e1, Dim (1 / 2) 500), (e2, SetBrightnessAnswered), (e3, FadeTimer 7)] s0
      = fadeTick cal 7 (le_now e3) s3" if "le_now e0 = 0" "le_now e1 = 1000" for e0 e1 e2 e3
    using that s3 by (simp add: bl_run_def s1_def s2_def s3_def)
  with lost_fade_tick [OF s3(1,3), of cal 7] s3 show ?thesis
    by (simp add: Let_def s0_def [symmetric])
qed

subsection \<open>A claim answered too late\<close>

lemma ambient_frame [simp]:
  "bl_enabled (ambientLightLevelChanged cal mk now level u s) = bl_enabled s"
  "bl_inhibitedCount (ambientLightLevelChanged cal mk now level u s) = bl_inhibitedCount s"
  by (simp_all add: ambientLightLevelChanged_def Let_def dropLowerTimeout_def split: option.split)

text \<open>when the adjustment is inhibited while the claim of the sensor is under way, the answer switches it on all the same,
  and it stays on while it is inhibited.
\<close>

theorem claim_ends_after_inhibit:
  "let env = \<lparr>le_now = t, le_setting = True, le_available = True, le_level = l\<rparr>;
       s = bl_run cal mk [(env, SettingOrSensorChanged), (env, Inhibit), (env, ClaimAnswered True)] (initBacklight cal pwm)
   in bl_enabled s \<and> bl_inhibitedCount s = 1"
  by (simp add: bl_run_def syncEnabled_def inhibit_def claimDone_def afterSync_def initBacklight_def bl_call_def Let_def)

text \<open>The results with hypotheses, applied.\<close>

definition sampleCalibration :: calibration where
  "sampleCalibration =
     \<lparr>ca_minPwm = 1, ca_maxPwm = 255, ca_minPerceived = 5, ca_maxPerceived = 11, ca_smoothThresh = 11,
      ca_nitsToPwm = (\<lambda>n. linearMap n 10 400 1 255), ca_pwmToNits = (\<lambda>p. linearMap p 1 255 10 400), ca_luxToNits = (\<lambda>l. l)\<rparr>"

theorem manual_brightness_exact_witness:
  "getPerceivedBrightnessPercent sampleCalibration
     (setManually sampleCalibration count_ids 0 (1 / 100) (initBacklight sampleCalibration 100)) = 8 / 100"
  by (subst manual_brightness_exact) (simp_all add: sampleCalibration_def initBacklight_def Let_def)

theorem brightness_sent_in_range_witness:
  "list_all (pwm_ok sampleCalibration)
     (bl_trace (bl_run sampleCalibration count_ids
       [(\<lparr>le_now = 0, le_setting = True, le_available = True, le_level = 100\<rparr>, SetManually (1 / 2))]
       (initBacklight sampleCalibration 100)))"
  by (rule brightness_sent_in_range) (simp add: sampleCalibration_def)

theorem prompt_fades_consistent_witness:
  "fade_inv (fold (bl_promptStep sampleCalibration count_ids)
     [(\<lparr>le_now = 0, le_setting = True, le_available = True, le_level = 100\<rparr>, Dim (1 / 2) 500)]
     (initBacklight sampleCalibration 100))"
  by (rule prompt_fades_consistent) (rule fresh_count_ids)

theorem undim_restores_target_witness:
  "let s = setManually sampleCalibration count_ids 0 (1 / 2) (initBacklight sampleCalibration 100)
   in bl_targetPerceived (undim sampleCalibration count_ids 9 0 (dim sampleCalibration count_ids 3 (1 / 2) 500 s))
      = bl_targetPerceived s"
proof -
  have "bl_dimFactor (setManually sampleCalibration count_ids 0 (1 / 2) (initBacklight sampleCalibration 100)) = 1"
    by (simp add: setManually_def initBacklight_def Let_def)
  then show ?thesis
    unfolding Let_def by (rule undim_restores_target) (simp add: setManually_def adjustTarget_def Let_def)
qed

end
