(* ===== verification/PressureBarrier.thy ===== *)
theory PressureBarrier
  imports Prelude "HOL-Library.Word"
begin

section \<open>Pressure barriers (\<open>PressureBarrier\<close> in \<open>js/ui/layout.js\<close>)\<close>

unbundle bit_operations_syntax

text \<open>
  The barriers at the edges of the screen trigger an action when the pointer is pushed against them hard enough. The
  class keeps the recent hits and their sum; the specification keeps all accepted hits since the last reset
  and adds up those of the last \<open>timeout\<close> milliseconds. The class refines it while the hits come in the order of
  their times, which is what its comment says of them.
\<close>

subsection \<open>The class\<close>

record barrier_event =
  be_dx :: real
  be_dy :: real
  be_time :: real

text \<open>
  Barriers are identifiers; which of them are horizontal (\<open>y1 === y2\<close>) does not change. \<open>pb_hit\<close> is their
  \<open>_isHit\<close>, and \<open>pb_triggers\<close> counts the emissions of \<open>trigger\<close>.
\<close>

record pressure_barrier =
  pb_threshold :: real
  pb_timeout :: real
  pb_actionMode :: "32 word"
  pb_barriers :: "nat list"
  pb_horizontal :: "nat \<Rightarrow> bool"
  pb_hit :: "nat \<Rightarrow> bool"
  pb_eventFilter :: "(barrier_event \<Rightarrow> bool) option"
  pb_isTriggered :: bool
  pb_barrierEvents :: "(real \<times> real) list"
  pb_currentPressure :: real
  pb_lastTime :: real
  pb_triggers :: nat

definition pb_reset :: "pressure_barrier \<Rightarrow> pressure_barrier" where
  "pb_reset s = s\<lparr>pb_barrierEvents := [], pb_currentPressure := 0, pb_lastTime := 0\<rparr>"

definition newPressureBarrier :: "real \<Rightarrow> real \<Rightarrow> 32 word \<Rightarrow> (nat \<Rightarrow> bool) \<Rightarrow> pressure_barrier" where
  "newPressureBarrier threshold timeout actionMode horizontal =
     \<lparr>pb_threshold = threshold, pb_timeout = timeout, pb_actionMode = actionMode, pb_barriers = [],
      pb_horizontal = horizontal, pb_hit = (\<lambda>b. False), pb_eventFilter = None, pb_isTriggered = False,
      pb_barrierEvents = [], pb_currentPressure = 0, pb_lastTime = 0, pb_triggers = 0\<rparr>"

definition addBarrier :: "nat \<Rightarrow> pressure_barrier \<Rightarrow> pressure_barrier" where
  "addBarrier b s = s\<lparr>pb_barriers := pb_barriers s @ [b]\<rparr>"

text \<open>\<open>splice(-1, 1)\<close>, when the barrier is not there, removes the last one.\<close>

definition removeBarrier :: "nat \<Rightarrow> pressure_barrier \<Rightarrow> pressure_barrier" where
  "removeBarrier b s =
     (let i = js_indexOf b (pb_barriers s)
      in s\<lparr>pb_barriers := (if i < 0 then butlast (pb_barriers s) else js_remove_at i (pb_barriers s))\<rparr>)"

definition destroyBarriers :: "pressure_barrier \<Rightarrow> pressure_barrier" where
  "destroyBarriers s = s\<lparr>pb_barriers := []\<rparr>"

definition setEventFilter :: "(barrier_event \<Rightarrow> bool) option \<Rightarrow> pressure_barrier \<Rightarrow> pressure_barrier" where
  "setEventFilter f s = s\<lparr>pb_eventFilter := f\<rparr>"

definition getDistanceAcrossBarrier :: "pressure_barrier \<Rightarrow> nat \<Rightarrow> barrier_event \<Rightarrow> real" where
  "getDistanceAcrossBarrier s b e = (if pb_horizontal s b then \<bar>be_dy e\<bar> else \<bar>be_dx e\<bar>)"

definition getDistanceAlongBarrier :: "pressure_barrier \<Rightarrow> nat \<Rightarrow> barrier_event \<Rightarrow> real" where
  "getDistanceAlongBarrier s b e = (if pb_horizontal s b then \<bar>be_dx e\<bar> else \<bar>be_dy e\<bar>)"

text \<open>Drops the old events at the front and takes their distances off the pressure, one after the other.\<close>

fun trimLoop :: "real \<Rightarrow> real \<Rightarrow> (real \<times> real) list \<Rightarrow> real \<times> (real \<times> real) list" where
  "trimLoop threshold pressure [] = (pressure, [])"
| "trimLoop threshold pressure ((t, d) # es) =
     (if t \<ge> threshold then (pressure, (t, d) # es) else trimLoop threshold (pressure - d) es)"

definition trimBarrierEvents :: "pressure_barrier \<Rightarrow> pressure_barrier" where
  "trimBarrierEvents s =
     (let (p, es) = trimLoop (pb_lastTime s - pb_timeout s) (pb_currentPressure s) (pb_barrierEvents s)
      in s\<lparr>pb_currentPressure := p, pb_barrierEvents := es\<rparr>)"

definition pb_trigger :: "pressure_barrier \<Rightarrow> pressure_barrier" where
  "pb_trigger s = pb_reset (s\<lparr>pb_isTriggered := True, pb_triggers := pb_triggers s + 1\<rparr>)"

definition onBarrierLeft :: "nat \<Rightarrow> pressure_barrier \<Rightarrow> pressure_barrier" where
  "onBarrierLeft b s =
     (let s1 = s\<lparr>pb_hit := (pb_hit s)(b := False)\<rparr>
      in if list_all (\<lambda>x. \<not> pb_hit s1 x) (pb_barriers s1) then (pb_reset s1)\<lparr>pb_isTriggered := False\<rparr> else s1)"

definition onBarrierHit :: "32 word \<Rightarrow> nat \<Rightarrow> barrier_event \<Rightarrow> pressure_barrier \<Rightarrow> pressure_barrier" where
  "onBarrierHit mainMode b e s0 =
     (let s = s0\<lparr>pb_hit := (pb_hit s0)(b := True)\<rparr>
      in if pb_isTriggered s then s
         else if (case pb_eventFilter s of None \<Rightarrow> False | Some f \<Rightarrow> f e) then s
         else if pb_actionMode s AND mainMode = 0 then s
         else
           let slide = getDistanceAlongBarrier s b e; distance = getDistanceAcrossBarrier s b e
           in if distance \<ge> pb_threshold s then pb_trigger s
              else if slide > distance then s
              else let s1 = trimBarrierEvents (s\<lparr>pb_lastTime := be_time e\<rparr>);
                       distance = min 15 distance;
                       s2 = s1\<lparr>pb_barrierEvents := pb_barrierEvents s1 @ [(be_time e, distance)],
                               pb_currentPressure := pb_currentPressure s1 + distance\<rparr>
                   in if pb_currentPressure s2 \<ge> pb_threshold s2 then pb_trigger s2 else s2)"

datatype pb_event =
    BarrierHit "32 word" nat barrier_event     \<comment> \<open>with the action mode at the time\<close>
  | BarrierLeft nat
  | AddBarrier nat
  | RemoveBarrier nat
  | SetEventFilter "(barrier_event \<Rightarrow> bool) option"
  | DestroyBarriers

fun pb_step :: "pb_event \<Rightarrow> pressure_barrier \<Rightarrow> pressure_barrier" where
  "pb_step (BarrierHit m b e) s = onBarrierHit m b e s"
| "pb_step (BarrierLeft b) s = onBarrierLeft b s"
| "pb_step (AddBarrier b) s = addBarrier b s"
| "pb_step (RemoveBarrier b) s = removeBarrier b s"
| "pb_step (SetEventFilter f) s = setEventFilter f s"
| "pb_step DestroyBarriers s = destroyBarriers s"

definition pb_run :: "pb_event list \<Rightarrow> pressure_barrier \<Rightarrow> pressure_barrier" where
  "pb_run es s = fold pb_step es s"

subsection \<open>The specification\<close>

text \<open>
  The same, but it remembers every hit since the last reset, with its time and what it counts for, and the pressure of a
  hit is what the hits of the last \<open>timeout\<close> count for together.
\<close>

record pressure_spec =
  sp_barriers :: "nat list"
  sp_hit :: "nat \<Rightarrow> bool"
  sp_filter :: "(barrier_event \<Rightarrow> bool) option"
  sp_triggered :: bool
  sp_hits :: "(real \<times> real) list"
  sp_triggers :: nat

definition recentPressure :: "real \<Rightarrow> (real \<times> real) list \<Rightarrow> real" where
  "recentPressure since hits = sum_list (map snd (filter (\<lambda>(t, d). since \<le> t) hits))"

text \<open>The parameters of the barrier are read off the implementation's record.\<close>

fun sp_step :: "pressure_barrier \<Rightarrow> pb_event \<Rightarrow> pressure_spec \<Rightarrow> pressure_spec" where
  "sp_step c (BarrierHit m b e) s0 =
     (let s = s0\<lparr>sp_hit := (sp_hit s0)(b := True)\<rparr>;
          fire = s\<lparr>sp_triggered := True, sp_triggers := sp_triggers s + 1, sp_hits := []\<rparr>;
          across = getDistanceAcrossBarrier c b e;
          hits = sp_hits s @ [(be_time e, min 15 across)]
      in if sp_triggered s \<or> (case sp_filter s of None \<Rightarrow> False | Some f \<Rightarrow> f e) \<or> pb_actionMode c AND m = 0 then s
         else if across \<ge> pb_threshold c then fire
         else if getDistanceAlongBarrier c b e > across then s
         else if recentPressure (be_time e - pb_timeout c) hits \<ge> pb_threshold c then fire
         else s\<lparr>sp_hits := hits\<rparr>)"
| "sp_step c (BarrierLeft b) s =
     (let s1 = s\<lparr>sp_hit := (sp_hit s)(b := False)\<rparr>
      in if list_all (\<lambda>x. \<not> sp_hit s1 x) (sp_barriers s1) then s1\<lparr>sp_hits := [], sp_triggered := False\<rparr> else s1)"
| "sp_step c (AddBarrier b) s = s\<lparr>sp_barriers := sp_barriers s @ [b]\<rparr>"
| "sp_step c (RemoveBarrier b) s =
     s\<lparr>sp_barriers := (if b \<in> set (sp_barriers s) then remove1 b (sp_barriers s) else butlast (sp_barriers s))\<rparr>"
| "sp_step c (SetEventFilter f) s = s\<lparr>sp_filter := f\<rparr>"
| "sp_step c DestroyBarriers s = s\<lparr>sp_barriers := []\<rparr>"

definition newSpec :: pressure_spec where
  "newSpec = \<lparr>sp_barriers = [], sp_hit = (\<lambda>b. False), sp_filter = None, sp_triggered = False, sp_hits = [], sp_triggers = 0\<rparr>"

text \<open>The times of the hits do not decrease, and none is before the start.\<close>

fun hit_times :: "pb_event list \<Rightarrow> real list" where
  "hit_times [] = []"
| "hit_times (BarrierHit m b e # es) = be_time e # hit_times es"
| "hit_times (_ # es) = hit_times es"

subsection \<open>The refinement\<close>

lemma recentPressure_append [simp]:
  "recentPressure since (xs @ ys) = recentPressure since xs + recentPressure since ys"
  by (simp add: recentPressure_def)

lemma trimLoop_sorted:
  assumes "sorted (map fst es)"
  shows "trimLoop since p es = (p - sum_list (map snd es) + recentPressure since es, filter (\<lambda>(t, d). since \<le> t) es)"
  using assms
proof (induction since p es rule: trimLoop.induct)
  case (1 since p)
  then show ?case by (simp add: recentPressure_def)
next
  case (2 since p t d es)
  show ?case
  proof (cases "since \<le> t")
    case True
    with "2.prems" have "filter (\<lambda>(t, d). since \<le> t) ((t, d) # es) = (t, d) # es"
      by (auto simp: filter_id_conv)
    with True show ?thesis by (simp add: recentPressure_def)
  next
    case False
    with 2 show ?thesis by (simp add: recentPressure_def)
  qed
qed

text \<open>
  The simulation: \<open>now\<close> is the time of the latest hit. Between resets the class keeps those of the hits that
  were recent at the last one, and their sum.
\<close>

definition pb_sim :: "real \<Rightarrow> pressure_barrier \<Rightarrow> pressure_spec \<Rightarrow> bool" where
  "pb_sim now c a =
     (pb_barriers c = sp_barriers a \<and> pb_hit c = sp_hit a \<and> pb_eventFilter c = sp_filter a
      \<and> pb_isTriggered c = sp_triggered a \<and> pb_triggers c = sp_triggers a
      \<and> sorted (map fst (sp_hits a)) \<and> list_all (\<lambda>(t, d). t \<le> now) (sp_hits a)
      \<and> pb_currentPressure c = sum_list (map snd (pb_barrierEvents c))
      \<and> (\<exists>since \<le> now - pb_timeout c. pb_barrierEvents c = filter (\<lambda>(t, d). since \<le> t) (sp_hits a)))"

definition pb_params :: "pressure_barrier \<Rightarrow> pressure_barrier \<Rightarrow> bool" where
  "pb_params c c' = (pb_threshold c = pb_threshold c' \<and> pb_timeout c = pb_timeout c' \<and> pb_actionMode c = pb_actionMode c'
     \<and> pb_horizontal c = pb_horizontal c')"

lemma pb_params_step [simp]: "pb_params (pb_step e c) c"
  by (cases e) (auto simp: pb_params_def onBarrierHit_def onBarrierLeft_def addBarrier_def removeBarrier_def
      setEventFilter_def destroyBarriers_def pb_trigger_def pb_reset_def trimBarrierEvents_def Let_def split: prod.split)

lemma sim_later:
  assumes "pb_sim now c a" and "now \<le> now'"
  shows "pb_sim now' c a"
proof -
  obtain since where s: "since \<le> now - pb_timeout c" "pb_barrierEvents c = filter (\<lambda>(t, d). since \<le> t) (sp_hits a)"
    using assms(1) by (auto simp: pb_sim_def)
  have "since \<le> now' - pb_timeout c" using s(1) assms(2) by simp
  moreover have "list_all (\<lambda>(t, d). t \<le> now') (sp_hits a)"
    using assms by (auto simp: pb_sim_def list_all_iff)
  ultimately show ?thesis using assms(1) s(2) unfolding pb_sim_def by blast
qed

lemma remove_barrier_eq:
  "(if js_indexOf b xs < 0 then butlast xs else js_remove_at (js_indexOf b xs) xs)
   = (if b \<in> set xs then remove1 b xs else butlast xs)"
  using js_indexOf_nonneg [of b xs] js_remove_indexOf [of b xs] by auto

lemma filter_recent: "a \<le> b \<Longrightarrow> filter (\<lambda>(t, d). b \<le> t) (filter (\<lambda>(t, d). a \<le> t) hits) = filter (\<lambda>(t, d). b \<le> t) hits"
  for a :: real
  by (induction hits) auto

lemma sim_accept:
  assumes sim: "pb_sim now c a" and t: "now \<le> t" and to: "0 \<le> pb_timeout c"
  defines "c1 \<equiv> trimBarrierEvents (c\<lparr>pb_lastTime := t\<rparr>)"
  shows "pb_barrierEvents c1 @ [(t, x)] = filter (\<lambda>(u, d). t - pb_timeout c \<le> u) (sp_hits a @ [(t, x)])"
    and "pb_currentPressure c1 + x = recentPressure (t - pb_timeout c) (sp_hits a @ [(t, x)])"
    and "pb_currentPressure c1 = sum_list (map snd (pb_barrierEvents c1))"
proof -
  let ?w = "t - pb_timeout c"
  obtain since where s: "since \<le> now - pb_timeout c" "pb_barrierEvents c = filter (\<lambda>(u, d). since \<le> u) (sp_hits a)"
    and sorted: "sorted (map fst (sp_hits a))" and p: "pb_currentPressure c = sum_list (map snd (pb_barrierEvents c))"
    using sim by (auto simp: pb_sim_def)
  have "sorted (map fst (pb_barrierEvents c))"
    unfolding s(2) using sorted by (simp add: sorted_wrt_map sorted_wrt_filter case_prod_unfold)
  note tr = trimLoop_sorted [OF this, of ?w "pb_currentPressure c"]
  have keep: "filter (\<lambda>(u, d). ?w \<le> u) (pb_barrierEvents c) = filter (\<lambda>(u, d). ?w \<le> u) (sp_hits a)"
    unfolding s(2) by (rule filter_recent) (use s(1) t in simp)
  have c1: "pb_barrierEvents c1 = filter (\<lambda>(u, d). ?w \<le> u) (sp_hits a)"
      "pb_currentPressure c1 = recentPressure ?w (sp_hits a)"
    using tr keep p by (simp_all add: c1_def trimBarrierEvents_def recentPressure_def)
  show "pb_barrierEvents c1 @ [(t, x)] = filter (\<lambda>(u, d). ?w \<le> u) (sp_hits a @ [(t, x)])"
    using c1 to by simp
  show "pb_currentPressure c1 + x = recentPressure ?w (sp_hits a @ [(t, x)])"
    using c1 to by (simp add: recentPressure_def)
  show "pb_currentPressure c1 = sum_list (map snd (pb_barrierEvents c1))"
    using c1 by (simp add: recentPressure_def)
qed

lemma sim_hit:
  assumes sim: "pb_sim now c a" and t: "now \<le> be_time e" and to: "0 \<le> pb_timeout c"
  shows "pb_sim (be_time e) (onBarrierHit m b e c) (sp_step c (BarrierHit m b e) a)"
proof -
  define c0 where "c0 = c\<lparr>pb_hit := (pb_hit c)(b := True)\<rparr>"
  define a0 where "a0 = a\<lparr>sp_hit := (sp_hit a)(b := True)\<rparr>"
  define x where "x = min 15 (getDistanceAcrossBarrier c b e)"
  have sim0: "pb_sim now c0 a0" using sim by (simp add: pb_sim_def c0_def a0_def)
  have eq: "pb_isTriggered c0 = sp_triggered a0" "pb_eventFilter c0 = sp_filter a0"
    using sim0 by (simp_all add: pb_sim_def)
  have dist: "getDistanceAcrossBarrier c0 b e = getDistanceAcrossBarrier c b e"
      "getDistanceAlongBarrier c0 b e = getDistanceAlongBarrier c b e"
    by (simp_all add: c0_def getDistanceAcrossBarrier_def getDistanceAlongBarrier_def)
  have par: "pb_threshold c0 = pb_threshold c" "pb_timeout c0 = pb_timeout c" "pb_actionMode c0 = pb_actionMode c"
    by (simp_all add: c0_def)
  define c1 where "c1 = trimBarrierEvents (c0\<lparr>pb_lastTime := be_time e\<rparr>)"
  define c2 where "c2 = c1\<lparr>pb_barrierEvents := pb_barrierEvents c1 @ [(be_time e, x)],
                         pb_currentPressure := pb_currentPressure c1 + x\<rparr>"
  define a2 where "a2 = a0\<lparr>sp_hits := sp_hits a0 @ [(be_time e, x)]\<rparr>"
  have to0: "0 \<le> pb_timeout c0" using to by (simp add: par)
  note acc = sim_accept(1,2) [OF sim0 t to0, of x, folded c1_def, unfolded par]
    sim_accept(3) [OF sim0 t to0, folded c1_def]
  have same: "pb_sim (be_time e) c0 a0" by (rule sim_later [OF sim0 t])
  have trig: "pb_sim (be_time e) (pb_trigger c') (a0\<lparr>sp_triggered := True, sp_triggers := sp_triggers a0 + 1, sp_hits := []\<rparr>)"
    if "pb_barriers c' = pb_barriers c0" "pb_hit c' = pb_hit c0" "pb_eventFilter c' = pb_eventFilter c0"
      "pb_triggers c' = pb_triggers c0" for c'
    using sim0 that by (auto simp: pb_sim_def pb_trigger_def pb_reset_def intro: exI [of _ "be_time e - pb_timeout c'"])
  have f: "pb_barriers c2 = pb_barriers c0" "pb_hit c2 = pb_hit c0" "pb_eventFilter c2 = pb_eventFilter c0"
      "pb_triggers c2 = pb_triggers c0" "pb_threshold c2 = pb_threshold c0" "pb_timeout c2 = pb_timeout c0"
      "pb_isTriggered c2 = pb_isTriggered c0"
    by (simp_all add: c2_def c1_def trimBarrierEvents_def split: prod.split)
  have "sorted (map fst (sp_hits a2))"
    using sim0 t by (auto simp: pb_sim_def a2_def sorted_append list_all_iff)
  moreover have "list_all (\<lambda>(u, d). u \<le> be_time e) (sp_hits a2)"
    using sim0 t by (auto simp: pb_sim_def a2_def list_all_iff)
  moreover have "pb_currentPressure c2 = sum_list (map snd (pb_barrierEvents c2))"
    using acc(3) by (simp add: c2_def)
  moreover have ev: "pb_barrierEvents c2 = filter (\<lambda>(u, d). be_time e - pb_timeout c \<le> u) (sp_hits a2)"
    using acc(1) by (simp add: c2_def a2_def)
  have "\<exists>since\<le>be_time e - pb_timeout c2. pb_barrierEvents c2 = filter (\<lambda>(u, d). since \<le> u) (sp_hits a2)"
    by (rule exI [of _ "be_time e - pb_timeout c"]) (simp only: ev f(6) par order_refl simp_thms)
  moreover have "pb_barriers c2 = sp_barriers a2" "pb_hit c2 = sp_hit a2" "pb_eventFilter c2 = sp_filter a2"
      "pb_isTriggered c2 = sp_triggered a2" "pb_triggers c2 = sp_triggers a2"
    using sim0 f by (simp_all add: pb_sim_def a2_def)
  ultimately have keep: "pb_sim (be_time e) c2 a2"
    unfolding pb_sim_def by blast
  have press: "pb_currentPressure c2 = recentPressure (be_time e - pb_timeout c) (sp_hits a0 @ [(be_time e, x)])"
    using acc(2) by (simp add: c2_def)
  have c: "onBarrierHit m b e c =
      (if pb_isTriggered c0 then c0
       else if (case pb_eventFilter c0 of None \<Rightarrow> False | Some f \<Rightarrow> f e) then c0
       else if pb_actionMode c0 AND m = 0 then c0
       else if getDistanceAcrossBarrier c0 b e \<ge> pb_threshold c0 then pb_trigger c0
       else if getDistanceAlongBarrier c0 b e > getDistanceAcrossBarrier c0 b e then c0
       else if pb_currentPressure c2 \<ge> pb_threshold c2 then pb_trigger c2 else c2)"
    unfolding onBarrierHit_def Let_def c0_def [symmetric] c1_def [symmetric] dist x_def [symmetric] c2_def [symmetric]
    by (rule refl)
  show ?thesis
    unfolding c sp_step.simps Let_def a0_def [symmetric] x_def [symmetric] dist f(5) par eq press
    using same trig [of c0] trig [of c2] keep f unfolding a2_def by (auto simp: a0_def)
qed

lemma sim_other:
  assumes sim: "pb_sim now c a" and to: "0 \<le> pb_timeout c" and nh: "hit_times [e] = []"
  shows "pb_sim now (pb_step e c) (sp_step c e a)"
proof (cases e)
  case (BarrierHit m b v)
  with nh show ?thesis by simp
next
  case (BarrierLeft b)
  have reset: "pb_sim now c' a'" if "sp_hits a' = []" "pb_barrierEvents c' = []" "pb_currentPressure c' = 0"
    "pb_barriers c' = sp_barriers a'" "pb_hit c' = sp_hit a'" "pb_eventFilter c' = sp_filter a'"
    "pb_isTriggered c' = sp_triggered a'" "pb_triggers c' = sp_triggers a'" for c' a'
    using that by (auto simp: pb_sim_def intro: exI [of _ "now - pb_timeout c'"])
  have "pb_barriers c = sp_barriers a" "pb_hit c = sp_hit a" "pb_eventFilter c = sp_filter a" "pb_triggers c = sp_triggers a"
    using sim by (simp_all add: pb_sim_def)
  moreover have "pb_sim now (c\<lparr>pb_hit := h\<rparr>) (a\<lparr>sp_hit := h\<rparr>)" for h using sim by (simp add: pb_sim_def)
  ultimately show ?thesis
    using BarrierLeft by (auto simp: onBarrierLeft_def pb_reset_def Let_def intro!: reset)
next
  case (RemoveBarrier b)
  have "pb_step e c = c\<lparr>pb_barriers := (if b \<in> set (pb_barriers c) then remove1 b (pb_barriers c)
      else butlast (pb_barriers c))\<rparr>"
    by (simp only: RemoveBarrier pb_step.simps removeBarrier_def Let_def remove_barrier_eq)
  with sim RemoveBarrier show ?thesis by (simp add: pb_sim_def)
qed (use sim in \<open>simp_all add: pb_sim_def addBarrier_def setEventFilter_def destroyBarriers_def\<close>)

lemma sp_step_params: "pb_params c c' \<Longrightarrow> sp_step c e a = sp_step c' e a"
  by (cases e) (simp_all add: pb_params_def Let_def getDistanceAcrossBarrier_def getDistanceAlongBarrier_def)

lemma sim_run:
  assumes "pb_sim now c a" and "sorted (now # hit_times es)" and "0 \<le> pb_timeout c" and "pb_params c c0"
  shows "\<exists>now'. pb_sim now' (pb_run es c) (fold (sp_step c0) es a)"
  using assms
proof (induction es arbitrary: now c a)
  case Nil
  then show ?case by (auto simp: pb_run_def)
next
  case (Cons e es)
  have par: "pb_params (pb_step e c) c0"
    using Cons.prems(4) pb_params_step [of e c] by (simp add: pb_params_def)
  have to: "0 \<le> pb_timeout (pb_step e c)"
    using Cons.prems(3) pb_params_step [of e c] by (simp add: pb_params_def)
  obtain now' where n: "pb_sim now' (pb_step e c) (sp_step c e a)" "sorted (now' # hit_times es)"
  proof (cases "hit_times [e] = []")
    case True
    have "hit_times (e # es) = hit_times es" using True by (cases e) auto
    with sim_other [OF Cons.prems(1,3) True] Cons.prems(2) that show ?thesis by simp
  next
    case False
    then obtain m b v where e: "e = BarrierHit m b v" by (cases e) auto
    have "now \<le> be_time v" using Cons.prems(2) e by simp
    have "pb_sim (be_time v) (pb_step e c) (sp_step c e a)"
      unfolding e pb_step.simps by (rule sim_hit [OF Cons.prems(1) \<open>now \<le> be_time v\<close> Cons.prems(3)])
    moreover have "sorted (be_time v # hit_times es)" using Cons.prems(2) e by simp
    ultimately show ?thesis by (rule that)
  qed
  from Cons.IH [OF n to par] show ?case
    by (simp add: pb_run_def sp_step_params [OF Cons.prems(4)])
qed

text \<open>C21: The pressure barrier refines its specification: while the hits come in the order of their times, it triggers at
  exactly the hits whose distance, or whose distance together with the accepted hits of the last \<open>timeout\<close>
  since the last reset, each counted as 15 at most, reaches the threshold.
\<close>

theorem pressure_refines_spec:
  assumes "sorted (hit_times es)" and "0 \<le> timeout"
  shows "let c0 = newPressureBarrier threshold timeout actionMode horizontal;
             c = pb_run es c0; a = fold (sp_step c0) es newSpec
         in pb_triggers c = sp_triggers a \<and> pb_isTriggered c = sp_triggered a"
proof -
  define c0 where "c0 = newPressureBarrier threshold timeout actionMode horizontal"
  define now where "now = (case hit_times es of [] \<Rightarrow> 0 | t # ts \<Rightarrow> t)"
  have "sorted (now # hit_times es)" using assms(1) by (auto simp: now_def split: list.splits)
  moreover have "pb_sim now c0 newSpec"
    by (auto simp: pb_sim_def c0_def newPressureBarrier_def newSpec_def)
  moreover have "0 \<le> pb_timeout c0" using assms(2) by (simp add: c0_def newPressureBarrier_def)
  ultimately obtain now' where "pb_sim now' (pb_run es c0) (fold (sp_step c0) es newSpec)"
    using sim_run [of now c0 newSpec es c0] by (auto simp: pb_params_def)
  then show ?thesis by (simp add: pb_sim_def c0_def Let_def)
qed

definition sample_push :: "pb_event list" where
  "sample_push =
     [AddBarrier 1,
      BarrierHit 1 1 \<lparr>be_dx = 60, be_dy = 2, be_time = 0\<rparr>,
      BarrierHit 1 1 \<lparr>be_dx = 60, be_dy = 2, be_time = 10\<rparr>,
      BarrierHit 1 1 \<lparr>be_dx = 12, be_dy = 70, be_time = 20\<rparr>,
      BarrierHit 1 1 \<lparr>be_dx = 80, be_dy = 0, be_time = 1200\<rparr>,
      BarrierHit 1 1 \<lparr>be_dx = 10, be_dy = 0, be_time = 1201\<rparr>,
      BarrierHit 1 1 \<lparr>be_dx = 6, be_dy = 0, be_time = 1205\<rparr>]"

theorem pressure_refines_spec_witness:
  "pb_triggers (pb_run sample_push (newPressureBarrier 30 1000 3 (\<lambda>b. False)))
     = sp_triggers (fold (sp_step (newPressureBarrier 30 1000 3 (\<lambda>b. False))) sample_push newSpec)
   \<and> pb_triggers (pb_run sample_push (newPressureBarrier 30 1000 3 (\<lambda>b. False))) = 1"
proof -
  have "sorted (hit_times sample_push)" by (simp add: sample_push_def)
  then have "pb_triggers (pb_run sample_push (newPressureBarrier 30 1000 3 (\<lambda>b. False)))
     = sp_triggers (fold (sp_step (newPressureBarrier 30 1000 3 (\<lambda>b. False))) sample_push newSpec)"
    using pressure_refines_spec [of sample_push 1000 30 3 "\<lambda>b. False"] by (simp add: Let_def)
  moreover have "pb_triggers (pb_run sample_push (newPressureBarrier 30 1000 3 (\<lambda>b. False))) = 1"
    by code_simp
  ultimately show ?thesis by simp
qed

subsection \<open>One trigger per push\<close>

text \<open>After a trigger there is none until the pointer leaves a barrier.\<close>

theorem one_trigger_per_push:
  assumes "pb_isTriggered s" and "list_all (\<lambda>e. case e of BarrierLeft b \<Rightarrow> False | _ \<Rightarrow> True) es"
  shows "pb_triggers (pb_run es s) = pb_triggers s \<and> pb_isTriggered (pb_run es s)"
  using assms
proof (induction es arbitrary: s)
  case Nil
  then show ?case by (simp add: pb_run_def)
next
  case (Cons e es)
  have "pb_isTriggered (pb_step e s) \<and> pb_triggers (pb_step e s) = pb_triggers s"
    using Cons.prems by (cases e) (auto simp: onBarrierHit_def addBarrier_def removeBarrier_def setEventFilter_def
        destroyBarriers_def Let_def)
  with Cons show ?case by (simp add: pb_run_def)
qed

text \<open>
  A barrier that is replaced after it has triggered swallows the next push: the removal does not reset the trigger, and
  the pointer never leaves a barrier that is gone.
\<close>

theorem replaced_barrier_swallows_push:
  "let push = (\<lambda>b t. BarrierHit 1 b \<lparr>be_dx = 100, be_dy = 0, be_time = t\<rparr>);
       s = pb_run [AddBarrier 1, push 1 0, RemoveBarrier 1, AddBarrier 2, push 2 5000] (newPressureBarrier 50 1000 1 (\<lambda>b. False))
   in pb_triggers s = 1"
  by code_simp

end
