(* ===== verification/GrabHelper.thy ===== *)
theory GrabHelper
  imports ModalStack
begin

section \<open>Grab helpers (\<open>js/ui/grabHelper.js\<close>)\<close>

text \<open>
  A helper keeps a stack of grabbed actors over one modal grab of its owner, which it takes with the first and gives back
  with the last of them. It works on the stack of modal grabs, which it shares with the rest of the shell.
  What a callback \<open>onUngrab\<close> does is a parameter: any change of the helper and of the modal grabs, so it may
  grab and ungrab itself. The actors of an actor's chain (itself, its parent, and so on) are a parameter too.
\<close>

record grab_entry =
  ge_actor :: nat
  ge_focus :: "nat option"
  ge_onUngrab :: "nat option"          \<comment> \<open>which callback\<close>
  ge_savedFocus :: "nat option"

record grab_helper =
  gh_owner :: nat
  gh_modalMode :: action_mode          \<comment> \<open>of \<open>_modalParams\<close>\<close>
  gh_stack :: "grab_entry list"
  gh_ignoreUntilRelease :: bool
  gh_modalCount :: int
  gh_grab :: "nat option"
  gh_captured :: bool                  \<comment> \<open>the handler of \<open>captured-event\<close> is connected\<close>
  gh_modals :: modals

type_synonym ungrab_callback = "nat \<Rightarrow> bool \<Rightarrow> grab_helper \<Rightarrow> grab_helper"

definition newGrabHelper :: "nat \<Rightarrow> action_mode \<Rightarrow> modals \<Rightarrow> grab_helper" where
  "newGrabHelper owner mode m =
     \<lparr>gh_owner = owner, gh_modalMode = mode, gh_stack = [], gh_ignoreUntilRelease = False, gh_modalCount = 0,
      gh_grab = None, gh_captured = False, gh_modals = m\<rparr>"

text \<open>What the stage says: the chain of an actor, where \<open>navigate_focus\<close> goes, and whether a grab got the whole seat.\<close>

record stage_env =
  se_chain :: "nat \<Rightarrow> nat list"
  se_navigate :: "nat \<Rightarrow> nat option"
  se_seatGrabbed :: bool

definition currentGrab :: "grab_helper \<Rightarrow> grab_entry option" where
  "currentGrab s = (if gh_stack s = [] then None else Some (last (gh_stack s)))"

definition isWithinGrabbedActor :: "stage_env \<Rightarrow> grab_helper \<Rightarrow> nat \<Rightarrow> bool" where
  "isWithinGrabbedActor env s actor =
     (case currentGrab s of None \<Rightarrow> False | Some g \<Rightarrow> ge_actor g \<in> set (se_chain env actor))"

definition findStackIndex :: "nat \<Rightarrow> grab_helper \<Rightarrow> int" where
  "findStackIndex actor s = js_findIndex (\<lambda>g. ge_actor g = actor) (gh_stack s)"

fun firstInStack :: "grab_helper \<Rightarrow> nat list \<Rightarrow> int" where
  "firstInStack s [] = -1"
| "firstInStack s (a # as) = (if findStackIndex a s \<ge> 0 then findStackIndex a s else firstInStack s as)"

definition actorInGrabStack :: "stage_env \<Rightarrow> nat \<Rightarrow> grab_helper \<Rightarrow> int" where
  "actorInGrabStack env actor s = firstInStack s (se_chain env actor)"

definition isActorGrabbed :: "nat \<Rightarrow> grab_helper \<Rightarrow> bool" where
  "isActorGrabbed actor s = (findStackIndex actor s \<ge> 0)"

definition setFocus :: "nat option \<Rightarrow> grab_helper \<Rightarrow> grab_helper" where
  "setFocus f s = s\<lparr>gh_modals := (gh_modals s)\<lparr>key_focus := f\<rparr>\<rparr>"

definition takeModalGrab :: "stage_env \<Rightarrow> grab_helper \<Rightarrow> bool \<times> grab_helper" where
  "takeModalGrab env s =
     (if gh_modalCount s = 0
      then let (grab, m) = pushModal (gh_owner s) (gh_modalMode s) (gh_modals s)
           in if \<not> se_seatGrabbed env then (False, s\<lparr>gh_modals := fst (popModal grab m)\<rparr>)
              else (True, s\<lparr>gh_modals := m, gh_grab := Some grab, gh_captured := True, gh_modalCount := gh_modalCount s + 1\<rparr>)
      else (True, s\<lparr>gh_modalCount := gh_modalCount s + 1\<rparr>))"

text \<open>The second component is false where \<open>popModal\<close> throws; grab 0 is the \<open>null\<close> that is on no stack.\<close>

definition releaseModalGrab :: "grab_helper \<Rightarrow> grab_helper \<times> bool" where
  "releaseModalGrab s =
     (let s1 = s\<lparr>gh_modalCount := gh_modalCount s - 1\<rparr>
      in if gh_modalCount s1 > 0 then (s1, True)
         else let (m, ok) = popModal (case gh_grab s1 of None \<Rightarrow> 0 | Some g \<Rightarrow> g) (gh_modals s1);
                  s2 = s1\<lparr>gh_captured := False, gh_ignoreUntilRelease := False, gh_modals := m\<rparr>
              in if ok then (s2\<lparr>gh_grab := None\<rparr>, True) else (s2, False))"

definition gh_grabActor :: "stage_env \<Rightarrow> nat \<Rightarrow> nat option \<Rightarrow> nat option \<Rightarrow> grab_helper \<Rightarrow> bool \<times> grab_helper" where
  "gh_grabActor env actor focusParam onUngrab s =
     (let focus = key_focus (gh_modals s);
          hadFocus = (case focus of None \<Rightarrow> False | Some f \<Rightarrow> isWithinGrabbedActor env s f)
      in if isActorGrabbed actor s then (True, s)
         else let (taken, s1) = takeModalGrab env s
              in if \<not> taken then (False, s1)
                 else let s2 = s1\<lparr>gh_stack := gh_stack s1 @
                            [\<lparr>ge_actor = actor, ge_focus = focusParam, ge_onUngrab = onUngrab, ge_savedFocus = focus\<rparr>]\<rparr>
                      in (True,
                          if focusParam \<noteq> None then setFocus focusParam s2
                          else if hadFocus
                          then setFocus (case se_navigate env actor of None \<Rightarrow> Some actor | Some f \<Rightarrow> Some f) s2
                          else s2))"

definition ignoreRelease :: "grab_helper \<Rightarrow> grab_helper" where
  "ignoreRelease s = s\<lparr>gh_ignoreUntilRelease := True\<rparr>"

text \<open>The loop over the popped grabs, from the top; an exception ends it.\<close>

fun releaseLoop :: "ungrab_callback \<Rightarrow> bool \<Rightarrow> grab_entry list \<Rightarrow> grab_helper \<Rightarrow> grab_helper \<times> bool" where
  "releaseLoop cb isUser [] s = (s, True)"
| "releaseLoop cb isUser (g # gs) s =
     (let s1 = (case ge_onUngrab g of None \<Rightarrow> s | Some c \<Rightarrow> cb c isUser s);
          (s2, ok) = releaseModalGrab s1
      in if ok then releaseLoop cb isUser gs s2 else (s2, False))"

text \<open>Without an actor the current one is meant.\<close>

definition gh_ungrab :: "stage_env \<Rightarrow> ungrab_callback \<Rightarrow> nat option \<Rightarrow> bool \<Rightarrow> grab_helper \<Rightarrow> grab_helper \<times> bool" where
  "gh_ungrab env cb actorParam isUser s =
     (case (case actorParam of Some a \<Rightarrow> Some a | None \<Rightarrow> map_option ge_actor (currentGrab s)) of
        None \<Rightarrow> (s, True)
      | Some actor \<Rightarrow>
          (let i = findStackIndex actor s
           in if i < 0 then (s, True)
              else let focus = key_focus (gh_modals s);
                       hadFocus = (case focus of None \<Rightarrow> False | Some f \<Rightarrow> isWithinGrabbedActor env s f);
                       popped = drop (nat i) (gh_stack s);
                       (s1, ok) = releaseLoop cb isUser (rev popped) (s\<lparr>gh_stack := take (nat i) (gh_stack s)\<rparr>)
                   in if \<not> ok then (s1, False)
                      else if hadFocus \<and> ge_savedFocus (hd popped) \<noteq> None
                      then (setFocus (ge_savedFocus (hd popped)) s1, True)
                      else (s1, True)))"

datatype event_type =
    KeyPress bool             \<comment> \<open>is it \<open>Escape\<close>?\<close>
  | Motion | ButtonPress | ButtonRelease
  | TouchBegin bool | TouchUpdate bool | TouchEnd bool    \<comment> \<open>does the sequence emulate the pointer?\<close>
  | Enter | Leave | OtherEvent

definition isTouchWithoutPointer :: "event_type \<Rightarrow> bool" where
  "isTouchWithoutPointer ty = (ty \<in> {TouchBegin False, TouchUpdate False, TouchEnd False})"

text \<open>Is the event stopped? The handler is only connected while there is a current grab.\<close>

definition onCapturedEvent :: "stage_env \<Rightarrow> ungrab_callback \<Rightarrow> event_type \<Rightarrow> nat \<Rightarrow> grab_helper \<Rightarrow> bool \<times> grab_helper" where
  "onCapturedEvent env cb ty targetActor s =
     (if ty = KeyPress True then (True, fst (gh_ungrab env cb None True s))
      else if isTouchWithoutPointer ty then (False, s)
      else if gh_ignoreUntilRelease s
           \<and> ty \<in> {Motion, ButtonRelease, TouchBegin True, TouchUpdate True, TouchEnd True} then
        (False, if ty \<in> {ButtonRelease, TouchEnd True} then s\<lparr>gh_ignoreUntilRelease := False\<rparr> else s)
      else if ty \<in> {Enter, Leave}
           \<or> (case currentGrab s of None \<Rightarrow> False | Some g \<Rightarrow> ge_actor g \<in> set (se_chain env targetActor)) then (False, s)
      else if ty \<in> {ButtonPress, ButtonRelease, TouchBegin True} then
        (let s1 = (if ty \<in> {ButtonPress, TouchBegin True} then s\<lparr>gh_ignoreUntilRelease := True\<rparr> else s);
             i = actorInGrabStack env targetActor s1 + 1
         in (True, fst (gh_ungrab env cb (Some (ge_actor (gh_stack s1 ! nat i))) True s1)))
      else (True, s))"

end
