(* ===== verification/GrabProps.thy ===== *)
theory GrabProps
  imports GrabHelper
begin

section \<open>Properties of grab helpers\<close>

text \<open>
  What a helper relies on is an interface: a push gives a grab that is held, a pop releases the grab it is
  given and no other, and succeeds when that was held. On top of it the helper holds its modal grab exactly while it
  has an actor, whatever its callbacks and the rest of the shell do, and a click outside pops it down to the actor that
  was clicked.
\<close>

subsection \<open>The interface of modal grabs\<close>

locale modal_grabs =
  fixes ok :: "'m \<Rightarrow> bool" and held :: "'m \<Rightarrow> nat set" and push :: "'m \<Rightarrow> nat \<times> 'm" and pop :: "nat \<Rightarrow> 'm \<Rightarrow> 'm \<times> bool"
  assumes push_ok: "ok m \<Longrightarrow> ok (snd (push m))"
    and push_held: "ok m \<Longrightarrow> held (snd (push m)) = insert (fst (push m)) (held m)"
    and push_fresh: "ok m \<Longrightarrow> fst (push m) \<notin> held m"
    and pop_ok: "ok m \<Longrightarrow> ok (fst (pop g m))"
    and pop_held: "ok m \<Longrightarrow> held (fst (pop g m)) = held m - {g}"
    and pop_succeeds: "ok m \<Longrightarrow> snd (pop g m) \<longleftrightarrow> g \<in> held m"
begin

lemma pop_other: "ok m \<Longrightarrow> g \<in> held m \<Longrightarrow> g' \<noteq> g \<Longrightarrow> g \<in> held (fst (pop g' m))"
  by (simp add: pop_held)

lemma push_keeps: "ok m \<Longrightarrow> g \<in> held m \<Longrightarrow> g \<in> held (snd (push m))"
  by (simp add: push_held)

lemma push_pop:
  assumes "ok m"
  shows "held (fst (pop (fst (push m)) (snd (push m)))) = held m" and "snd (pop (fst (push m)) (snd (push m)))"
  using assms push_fresh by (simp_all add: pop_held push_held push_ok pop_succeeds)

end

definition grabs_held :: "modals \<Rightarrow> nat set" where
  "grabs_held m = mr_grab ` set (modalActorFocusStack m)"

lemma remaining_grabs:
  assumes "distinct (map f xs)" and "i < length xs" and "map f ys = map f xs"
  shows "f ` set (take i ys @ drop (Suc i) ys) = f ` set xs - {f (xs ! i)}"
proof -
  have "f ` set (take i ys @ drop (Suc i) ys) = set (take i (map f xs) @ drop (Suc i) (map f xs))"
    unfolding assms(3) [symmetric] by (simp only: take_map drop_map set_append set_map image_Un)
  also have "\<dots> = set (map f xs) - {map f xs ! i}"
  proof -
    have "map f xs = take i (map f xs) @ (map f xs ! i) # drop (Suc i) (map f xs)"
      using assms(2) by (metis id_take_nth_drop length_map)
    then have "set (map f xs) = insert (map f xs ! i) (set (take i (map f xs) @ drop (Suc i) (map f xs)))"
      and "map f xs ! i \<notin> set (take i (map f xs) @ drop (Suc i) (map f xs))"
      using assms(1) by (metis list.simps(15) set_append Un_insert_right, metis not_distinct_conv_prefix distinct_append distinct.simps(2) append_Cons Un_iff disjoint_iff list.set_intros(1) set_append)
    then show ?thesis by blast
  qed
  finally show ?thesis using assms(2) by simp
qed

lemma popModal_held:
  assumes "modals_ok m"
  shows "grabs_held (fst (popModal g m)) = grabs_held m - {g}" and "snd (popModal g m) \<longleftrightarrow> g \<in> grabs_held m"
proof -
  obtain m' b where p: "popModal g m = (m', b)" by fastforce
  from p have "grabs_held m' = grabs_held m - {g} \<and> (b \<longleftrightarrow> g \<in> grabs_held m)"
  proof (cases rule: popModal_cases)
    case absent
    then show ?thesis by (auto simp: grabs_held_def)
  next
    case (popped i rs')
    have i: "i < length (modalActorFocusStack m)" "mr_grab (modalActorFocusStack m ! i) = g"
      using findModal_Some [OF popped(1)] by simp_all
    have "distinct (map mr_grab (modalActorFocusStack m))" using assms by (simp add: modals_ok_def)
    from remaining_grabs [OF this i(1) popped(3)] i have "grabs_held m' = grabs_held m - {g}"
      by (simp add: grabs_held_def popped(4))
    moreover have "g \<in> grabs_held m" using i by (auto simp: grabs_held_def)
    ultimately show ?thesis using popped(2) by simp
  qed
  then show "grabs_held (fst (popModal g m)) = grabs_held m - {g}" "snd (popModal g m) \<longleftrightarrow> g \<in> grabs_held m"
    using p by simp_all
qed

lemma pushModal_held:
  "grabs_held (snd (pushModal a mode m)) = insert (fst (pushModal a mode m)) (grabs_held m)"
  "fst (pushModal a mode m) = next_grab m"
  by (auto simp: grabs_held_def pushModal_def Let_def split_def split: option.split)

interpretation mg: modal_grabs modals_ok grabs_held "pushModal a mode" popModal for a mode
proof
  fix m g
  assume m: "modals_ok m"
  show "modals_ok (snd (pushModal a mode m))" by (rule modals_ok_pushModal [OF m])
  show "grabs_held (snd (pushModal a mode m)) = insert (fst (pushModal a mode m)) (grabs_held m)"
    by (rule pushModal_held)
  show "fst (pushModal a mode m) \<notin> grabs_held m"
    using m unfolding pushModal_held by (fastforce simp: modals_ok_def grabs_held_def)
  show "modals_ok (fst (popModal g m))" by (rule modals_ok_popModal [OF m])
  show "grabs_held (fst (popModal g m)) = grabs_held m - {g}" "snd (popModal g m) \<longleftrightarrow> g \<in> grabs_held m"
    by (rule popModal_held [OF m])+
qed

subsection \<open>The invariant\<close>

text \<open>\<open>n\<close> is how many releases are still to come in an \<open>ungrab\<close>.\<close>

definition grab_valid :: "nat option \<Rightarrow> modals \<Rightarrow> bool" where
  "grab_valid grab m = (case grab of None \<Rightarrow> False | Some g \<Rightarrow> g \<in> grabs_held m)"

lemma grab_valid_simps [simp]: "\<not> grab_valid None m" "grab_valid (Some g) m = (g \<in> grabs_held m)"
  by (simp_all add: grab_valid_def)

lemma grab_validE: "grab_valid x m \<Longrightarrow> \<exists>g. x = Some g \<and> g \<in> grabs_held m"
  by (auto simp: grab_valid_def split: option.splits)

definition gh_inv :: "nat \<Rightarrow> grab_helper \<Rightarrow> bool" where
  "gh_inv n s =
     (modals_ok (gh_modals s) \<and> gh_modalCount s = int (length (gh_stack s) + n)
      \<and> (if gh_modalCount s = 0 then gh_grab s = None \<and> \<not> gh_captured s
         else gh_captured s \<and> grab_valid (gh_grab s) (gh_modals s)))"

text \<open>A callback may do anything that keeps the count and the grab together, such as to grab and to ungrab.\<close>

definition callback_ok :: "ungrab_callback \<Rightarrow> bool" where
  "callback_ok cb \<longleftrightarrow> (\<forall>c u n s. gh_inv n s \<longrightarrow> gh_inv n (cb c u s))"

lemma focus_modals_ok [simp]:
  "modals_ok (m\<lparr>key_focus := f\<rparr>) = modals_ok m" "grabs_held (m\<lparr>key_focus := f\<rparr>) = grabs_held m"
  by (simp_all add: modals_ok_def grabs_held_def)

lemma setFocus_inv [simp]: "gh_inv n (setFocus f s) = gh_inv n s"
  by (cases "gh_grab s") (simp_all add: gh_inv_def setFocus_def)

lemma take_inv:
  assumes "gh_inv n s"
  shows "let (taken, s') = takeModalGrab env s
         in gh_stack s' = gh_stack s \<and> gh_inv (if taken then Suc n else n) s'"
proof (cases "gh_modalCount s = 0")
  case True
  have m: "modals_ok (gh_modals s)" using assms by (simp add: gh_inv_def)
  obtain g m' where p: "pushModal (gh_owner s) (gh_modalMode s) (gh_modals s) = (g, m')" by fastforce
  have "modals_ok m'" "g \<in> grabs_held m'" "modals_ok (fst (popModal g m'))"
    using mg.push_ok [OF m, of "gh_owner s" "gh_modalMode s"] mg.push_held [OF m, of "gh_owner s" "gh_modalMode s"]
      mg.pop_ok [of m' g] p by simp_all
  with True assms p show ?thesis by (simp add: takeModalGrab_def gh_inv_def)
next
  case False
  with assms show ?thesis by (simp add: takeModalGrab_def gh_inv_def)
qed

lemma release_inv:
  assumes "gh_inv (Suc n) s"
  shows "gh_inv n (fst (releaseModalGrab s)) \<and> snd (releaseModalGrab s) \<and> gh_stack (fst (releaseModalGrab s)) = gh_stack s"
proof -
  obtain g where g: "gh_grab s = Some g" "g \<in> grabs_held (gh_modals s)" "gh_captured s" "modals_ok (gh_modals s)"
    "gh_modalCount s = int (length (gh_stack s) + Suc n)"
    using assms by (auto simp: gh_inv_def dest!: grab_validE split: if_splits)
  obtain m' b where p: "popModal g (gh_modals s) = (m', b)" by fastforce
  have "b" "modals_ok m'"
    using mg.pop_succeeds [OF g(4)] mg.pop_ok [OF g(4)] g(2) p by (metis snd_conv, metis fst_conv)
  with g p show ?thesis by (auto simp: releaseModalGrab_def gh_inv_def Let_def)
qed

lemma loop_inv:
  assumes cb: "callback_ok cb" and "gh_inv (n + length gs) s"
  shows "gh_inv n (fst (releaseLoop cb u gs s)) \<and> snd (releaseLoop cb u gs s)"
  using assms(2)
proof (induction gs arbitrary: s)
  case Nil
  then show ?case by simp
next
  case (Cons g gs)
  let ?s1 = "case ge_onUngrab g of None \<Rightarrow> s | Some c \<Rightarrow> cb c u s"
  have "gh_inv (Suc (n + length gs)) ?s1"
    using Cons.prems cb by (auto simp: callback_ok_def split: option.split)
  note r = release_inv [OF this]
  then show ?case using Cons.IH [of "fst (releaseModalGrab ?s1)"]
    by (cases "releaseModalGrab ?s1") simp
qed

lemma grab_inv:
  assumes "gh_inv n s"
  shows "gh_inv n (snd (gh_grabActor env a f c s))"
proof -
  obtain taken s1 where t: "takeModalGrab env s = (taken, s1)" by fastforce
  have i: "gh_stack s1 = gh_stack s" "gh_inv (if taken then Suc n else n) s1"
    using take_inv [OF assms, of env] t by simp_all
  have "gh_inv n (s1\<lparr>gh_stack := gh_stack s1 @ [x]\<rparr>)" if taken for x
    using i that by (simp add: gh_inv_def)
  with i t assms show ?thesis by (auto simp: gh_grabActor_def Let_def)
qed

lemma findStackIndex_range: "findStackIndex a s < int (length (gh_stack s))"
proof -
  have "js_findIndex p xs < int (length xs)" for p and xs :: "grab_entry list"
    by (induction xs) (auto simp: Let_def)
  then show ?thesis by (simp add: findStackIndex_def)
qed

lemma ungrab_inv:
  assumes cb: "callback_ok cb" and inv: "gh_inv n s"
  shows "gh_inv n (fst (gh_ungrab env cb a u s)) \<and> snd (gh_ungrab env cb a u s)"
proof (cases "case a of Some a \<Rightarrow> Some a | None \<Rightarrow> map_option ge_actor (currentGrab s)")
  case None
  with inv show ?thesis by (simp add: gh_ungrab_def)
next
  case (Some actor)
  define i where "i = findStackIndex actor s"
  show ?thesis
  proof (cases "i < 0")
    case True
    with Some inv show ?thesis by (simp add: gh_ungrab_def i_def)
  next
    case False
    then have i: "nat i < length (gh_stack s)" using findStackIndex_range [of actor s] by (simp add: i_def)
    define s0 where "s0 = s\<lparr>gh_stack := take (nat i) (gh_stack s)\<rparr>"
    have "gh_inv (n + length (rev (drop (nat i) (gh_stack s)))) s0"
      using inv i by (simp add: gh_inv_def s0_def)
    note l = loop_inv [OF cb this, of u]
    then show ?thesis
      using False Some by (cases "releaseLoop cb u (rev (drop (nat i) (gh_stack s))) s0")
        (simp add: gh_ungrab_def i_def s0_def Let_def)
  qed
qed

subsection \<open>Runs\<close>

text \<open>What the rest of the shell does with modal grabs: it pushes others and pops grabs other than the helper's.\<close>

datatype gh_event =
    Grab nat "nat option" "nat option"
  | Ungrab "nat option"
  | IgnoreRelease
  | Captured event_type nat
  | OtherPush nat action_mode
  | OtherPop nat
  | OtherFocus "nat option"

fun gh_step :: "ungrab_callback \<Rightarrow> stage_env \<times> gh_event \<Rightarrow> grab_helper \<Rightarrow> grab_helper" where
  "gh_step cb (env, Grab a f c) s = snd (gh_grabActor env a f c s)"
| "gh_step cb (env, Ungrab a) s = fst (gh_ungrab env cb a False s)"
| "gh_step cb (env, IgnoreRelease) s = ignoreRelease s"
| "gh_step cb (env, Captured ty target) s = (if gh_captured s then snd (onCapturedEvent env cb ty target s) else s)"
| "gh_step cb (env, OtherPush a m) s = s\<lparr>gh_modals := snd (pushModal a m (gh_modals s))\<rparr>"
| "gh_step cb (env, OtherPop g) s = (if gh_grab s = Some g then s else s\<lparr>gh_modals := fst (popModal g (gh_modals s))\<rparr>)"
| "gh_step cb (env, OtherFocus f) s = setFocus f s"

lemma captured_inv:
  assumes cb: "callback_ok cb" and inv: "gh_inv n s"
  shows "gh_inv n (snd (onCapturedEvent env cb ty target s))"
proof -
  have i: "gh_inv n (s\<lparr>gh_ignoreUntilRelease := b\<rparr>)" for b using inv by (simp add: gh_inv_def)
  show ?thesis
    using inv i ungrab_inv [OF cb] by (simp add: onCapturedEvent_def Let_def)
qed

lemma step_gh_inv:
  assumes cb: "callback_ok cb" and inv: "gh_inv 0 s"
  shows "gh_inv 0 (gh_step cb e s)"
proof -
  obtain env ev where e: "e = (env, ev)" by fastforce
  have m: "modals_ok (gh_modals s)" using inv by (simp add: gh_inv_def)
  show ?thesis
  proof (cases ev)
    case (OtherPush a mode)
    have "grab_valid x (gh_modals s) \<Longrightarrow> grab_valid x (snd (pushModal a mode (gh_modals s)))" for x
      using mg.push_keeps [OF m] by (auto dest: grab_validE)
    with inv mg.push_ok [OF m] show ?thesis by (simp add: e OtherPush gh_inv_def)
  next
    case (OtherPop g)
    have "x \<noteq> Some g \<Longrightarrow> grab_valid x (gh_modals s) \<Longrightarrow> grab_valid x (fst (popModal g (gh_modals s)))" for x
      using mg.pop_other [OF m] by (cases x) auto
    note other = this
    show ?thesis
    proof (cases "gh_grab s = Some g")
      case True
      then show ?thesis by (simp add: e OtherPop inv)
    next
      case False
      with other inv mg.pop_ok [OF m] show ?thesis by (simp add: e OtherPop gh_inv_def)
    qed
  next
    case IgnoreRelease
    with inv show ?thesis by (simp add: e gh_inv_def ignoreRelease_def)
  qed (use inv in \<open>simp_all add: e grab_inv ungrab_inv [OF cb] captured_inv [OF cb]\<close>)
qed

text \<open>C22: The helper holds its modal grab exactly while it has grabbed actors: whatever grabs, dismissals and callbacks
  there are, and whatever the rest of the shell pushes and pops, its count is that of its actors, it has a grab
  on the stack of modal grabs while there is one, and none, with the handler disconnected, when there is not.
\<close>

theorem grab_held_while_grabbed:
  assumes "callback_ok cb" and "modals_ok m"
  shows "let s = fold (gh_step cb) es (newGrabHelper owner mode m)
    in gh_modalCount s = int (length (gh_stack s))
       \<and> (if gh_stack s = [] then gh_grab s = None \<and> \<not> gh_captured s
          else gh_captured s \<and> grab_valid (gh_grab s) (gh_modals s))"
proof -
  have "gh_inv 0 (fold (gh_step cb) es s)" if "gh_inv 0 s" for s
    using that by (induction es arbitrary: s) (auto simp: step_gh_inv [OF assms(1)])
  from this [of "newGrabHelper owner mode m"] show ?thesis
    using assms(2) by (simp add: gh_inv_def newGrabHelper_def Let_def)
qed

text \<open>A callback that ungrabs everything that is left, and grabs another actor.\<close>

definition regrab :: "stage_env \<Rightarrow> ungrab_callback" where
  "regrab env = (\<lambda>c u s. snd (gh_grabActor env 77 None None (fst (gh_ungrab env (\<lambda>c u s. s) (Some 10) False s))))"

lemma regrab_ok: "callback_ok (regrab env)"
proof -
  have "callback_ok (\<lambda>c u s. s)" by (simp add: callback_ok_def)
  then show ?thesis by (simp add: callback_ok_def regrab_def grab_inv ungrab_inv)
qed

definition plain_stage :: stage_env where
  "plain_stage = \<lparr>se_chain = (\<lambda>a. [a]), se_navigate = (\<lambda>a. None), se_seatGrabbed = True\<rparr>"

theorem grab_held_while_grabbed_witness:
  "let es = map (Pair plain_stage) [Grab 10 None None, Grab 11 None (Some 5), OtherPush 90 AM_POPUP, Grab 12 None None, Ungrab (Some 11)];
       s = fold (gh_step (regrab plain_stage)) es (newGrabHelper 3 AM_POPUP (initial_modals (Some 1)))
   in map ge_actor (gh_stack s) = [77] \<and> gh_modalCount s = int (length (gh_stack s))"
proof -
  define s where "s = fold (gh_step (regrab plain_stage)) (map (Pair plain_stage) [Grab 10 None None, Grab 11 None (Some 5),
     OtherPush 90 AM_POPUP, Grab 12 None None, Ungrab (Some 11)]) (newGrabHelper 3 AM_POPUP (initial_modals (Some 1)))"
  have "modals_ok (initial_modals (Some 1))" by (simp add: modals_ok_def initial_modals_def)
  from grab_held_while_grabbed [OF regrab_ok this] have "gh_modalCount s = int (length (gh_stack s))"
    unfolding s_def Let_def by blast
  moreover have "map ge_actor (gh_stack s) = [77]" unfolding s_def by code_simp
  ultimately show ?thesis unfolding s_def [symmetric] Let_def by blast
qed

subsection \<open>Clicks outside\<close>

lemma stack_release [simp]: "gh_stack (fst (releaseModalGrab s)) = gh_stack s"
  by (simp add: releaseModalGrab_def Let_def split: prod.split)

lemma stack_loop:
  assumes "\<And>c u s. gh_stack (cb c u s) = gh_stack s"
  shows "gh_stack (fst (releaseLoop cb u gs s)) = gh_stack s"
proof (induction gs arbitrary: s)
  case Nil
  then show ?case by simp
next
  case (Cons g gs)
  let ?s1 = "case ge_onUngrab g of None \<Rightarrow> s | Some c \<Rightarrow> cb c u s"
  have "gh_stack ?s1 = gh_stack s" using assms by (simp split: option.split)
  then show ?case
    using Cons [of "fst (releaseModalGrab ?s1)"] stack_release [of ?s1] by (cases "releaseModalGrab ?s1") auto
qed

lemma findIndex_nth:
  assumes "distinct (map f xs)" and "i < length xs"
  shows "js_findIndex (\<lambda>x. f x = f (xs ! i)) xs = int i"
  using assms
proof (induction xs arbitrary: i)
  case Nil
  then show ?case by simp
next
  case (Cons x xs)
  show ?case
  proof (cases i)
    case 0
    then show ?thesis by simp
  next
    case (Suc j)
    with Cons.prems have "f x \<noteq> f (xs ! j)" "j < length xs" by (auto simp: image_iff)
    with Suc Cons show ?thesis by (simp add: Let_def)
  qed
qed

lemma setFocus_stack [simp]: "gh_stack (setFocus f s) = gh_stack s"
  by (simp add: setFocus_def)

lemma ungrab_stack:
  assumes cb: "\<And>c u s. gh_stack (cb c u s) = gh_stack s" and i: "findStackIndex a s \<ge> 0"
  shows "gh_stack (fst (gh_ungrab env cb (Some a) u s)) = take (nat (findStackIndex a s)) (gh_stack s)"
proof -
  let ?i = "nat (findStackIndex a s)"
  obtain s1 ok where l: "releaseLoop cb u (rev (drop ?i (gh_stack s))) (s\<lparr>gh_stack := take ?i (gh_stack s)\<rparr>) = (s1, ok)"
    by fastforce
  have "gh_stack s1 = take ?i (gh_stack s)"
    using stack_loop [where cb = cb, OF cb, of u "rev (drop ?i (gh_stack s))" "s\<lparr>gh_stack := take ?i (gh_stack s)\<rparr>"] l
    by simp
  with i l show ?thesis by (simp add: gh_ungrab_def Let_def)
qed

lemma findIndex_found:
  "js_findIndex p xs \<ge> 0 \<Longrightarrow> nat (js_findIndex p xs) < length xs \<and> p (xs ! nat (js_findIndex p xs))"
  by (induction xs) (auto simp: Let_def nat_add_distrib split: if_splits)

lemma firstInStack_spec:
  "case find (\<lambda>a. isActorGrabbed a s) as of
     None \<Rightarrow> firstInStack s as = -1
   | Some a \<Rightarrow> firstInStack s as = findStackIndex a s \<and> findStackIndex a s \<ge> 0"
  by (induction as) (auto simp: isActorGrabbed_def split: option.splits)

text \<open>a press outside the current actor is stopped and dismisses grabs until the clicked actor, or its nearest grabbed
  ancestor, has the current one; when no ancestor is grabbed, all of them.
\<close>

theorem press_outside_dismisses:
  assumes cb: "\<And>c u s. gh_stack (cb c u s) = gh_stack s"
    and stack: "gh_stack s \<noteq> []" "distinct (map ge_actor (gh_stack s))"
    and outside: "ge_actor (last (gh_stack s)) \<notin> set (se_chain env target)"
  shows "let (stop, s') = onCapturedEvent env cb ButtonPress target s
    in stop \<and> map_option ge_actor (currentGrab s') = find (\<lambda>a. isActorGrabbed a s) (se_chain env target)"
proof -
  define s1 where "s1 = s\<lparr>gh_ignoreUntilRelease := True\<rparr>"
  have st: "gh_stack s1 = gh_stack s" by (simp add: s1_def)
  have fsi: "findStackIndex a s1 = findStackIndex a s" for a by (simp add: findStackIndex_def st)
  have fis: "firstInStack s1 as = firstInStack s as" for as by (induction as) (simp_all add: fsi)
  define i where "i = firstInStack s (se_chain env target)"
  have step: "onCapturedEvent env cb ButtonPress target s
      = (True, fst (gh_ungrab env cb (Some (ge_actor (gh_stack s ! nat (i + 1)))) True s1))"
    using stack(1) outside by (simp add: onCapturedEvent_def isTouchWithoutPointer_def currentGrab_def
        actorInGrabStack_def s1_def [symmetric] fis i_def st)
  have result: "gh_stack (fst (gh_ungrab env cb (Some (ge_actor (gh_stack s ! j))) True s1)) = take j (gh_stack s)"
    if "j < length (gh_stack s)" for j
    using ungrab_stack [where cb = cb and a = "ge_actor (gh_stack s ! j)" and s = s1 and env = env and u = True, OF cb]
      findIndex_nth [OF stack(2) that]
    by (simp add: findStackIndex_def st)
  show ?thesis
  proof (cases "find (\<lambda>a. isActorGrabbed a s) (se_chain env target)")
    case None
    with firstInStack_spec [of s "se_chain env target"] have "i = -1" by (simp add: i_def)
    with step result [of 0] stack(1) None show ?thesis by (simp add: currentGrab_def)
  next
    case (Some a)
    with firstInStack_spec [of s "se_chain env target"] have i: "i = findStackIndex a s" "i \<ge> 0" by (simp_all add: i_def)
    from i findIndex_found [of "\<lambda>g. ge_actor g = a" "gh_stack s"]
    have at: "nat i < length (gh_stack s)" "ge_actor (gh_stack s ! nat i) = a" by (simp_all add: findStackIndex_def)
    have "a \<in> set (se_chain env target)" using Some by (metis find_Some_iff nth_mem)
    with outside at stack(1) have "nat i \<noteq> length (gh_stack s) - 1" by (auto simp: last_conv_nth)
    with at(1) have j: "Suc (nat i) < length (gh_stack s)" by linarith
    have "nat (i + 1) = Suc (nat i)" using i(2) by simp
    with step result [OF j] at j Some stack(1) show ?thesis
      by (simp add: currentGrab_def last_conv_nth)
  qed
qed

theorem press_outside_dismisses_witness:
  "let env = \<lparr>se_chain = (\<lambda>a. if a = 20 then [20, 11, 3] else [a, 3]), se_navigate = (\<lambda>a. None), se_seatGrabbed = True\<rparr>;
       s = fold (gh_step (\<lambda>c u s. s)) (map (Pair env) [Grab 10 None None, Grab 11 None None, Grab 12 None None, Grab 13 None None])
             (newGrabHelper 3 AM_POPUP (initial_modals None));
       (stop, s') = onCapturedEvent env (\<lambda>c u s. s) ButtonPress 20 s
   in stop \<and> map_option ge_actor (currentGrab s') = Some 11"
proof -
  define env where "env = \<lparr>se_chain = (\<lambda>a. if a = 20 then [20, 11, 3] else [a, 3]), se_navigate = (\<lambda>a. None), se_seatGrabbed = True\<rparr>"
  define s where "s = fold (gh_step (\<lambda>c u s. s)) (map (Pair env) [Grab 10 None None, Grab 11 None None, Grab 12 None None,
      Grab 13 None None]) (newGrabHelper 3 AM_POPUP (initial_modals None))"
  have st: "map ge_actor (gh_stack s) = [10, 11, 12, 13]" unfolding s_def env_def by code_simp
  then have ne: "gh_stack s \<noteq> []" by auto
  have "distinct (map ge_actor (gh_stack s))" unfolding st by simp
  moreover have "ge_actor (last (gh_stack s)) = 13" using ne st by (metis last.simps last_map list.distinct(1))
  moreover have "find (\<lambda>a. isActorGrabbed a s) (se_chain env 20) = Some 11" unfolding s_def env_def by code_simp
  ultimately have "let (stop, s') = onCapturedEvent env (\<lambda>c u s. s) ButtonPress 20 s
    in stop \<and> map_option ge_actor (currentGrab s') = Some 11"
    using press_outside_dismisses [of "\<lambda>c u s. s" s env 20] ne by (simp add: env_def)
  then show ?thesis unfolding s_def env_def Let_def .
qed

end
