(* ===== verification/SignalTracker.thy ===== *)
theory SignalTracker
  imports Prelude "HOL-Library.Multiset"
begin

section \<open>Signals with tracked objects (\<open>js/misc/signalTracker.js\<close>)\<close>

text \<open>
  \<open>connectObject\<close> connects handlers to an object and associates them with another one; \<open>disconnectObject\<close> and the
  destruction of either object disconnect them. Objects are numbers; \<open>destroyable\<close>, a parameter, says which have a
  \<open>destroy\<close> signal. The connections that exist, on all objects, are part of the state; their identifiers are
  never used again. The handlers of the tracker itself are told apart by their role; what other handlers do is not modelled.
\<close>

datatype signal_role = UserHandler | UntrackOf nat | ClearOf

record connection =
  cn_id :: nat
  cn_emitter :: nat
  cn_role :: signal_role
  cn_signal :: "string \<times> bool"      \<comment> \<open>with \<open>connect_after\<close> or not\<close>
  cn_handler :: nat

record signal_tracker =
  tr_ownerDestroyId :: "nat option"
  tr_map :: "(nat, nat list \<times> nat) jsmap"     \<comment> \<open>\<open>ownerSignals\<close> and \<open>destroyId\<close>, 0 for none\<close>

record signal_world =
  sw_connections :: "connection list"
  sw_nextId :: nat
  sw_trackers :: "(nat, signal_tracker) jsmap"

definition initial_signals :: signal_world where
  "initial_signals = \<lparr>sw_connections = [], sw_nextId = 1, sw_trackers = []\<rparr>"

definition sig_connect :: "nat \<Rightarrow> signal_role \<Rightarrow> string \<times> bool \<Rightarrow> nat \<Rightarrow> signal_world \<Rightarrow> nat \<times> signal_world" where
  "sig_connect emitter role sig handler w =
     (sw_nextId w,
      w\<lparr>sw_connections := sw_connections w @ [\<lparr>cn_id = sw_nextId w, cn_emitter = emitter, cn_role = role,
           cn_signal = sig, cn_handler = handler\<rparr>],
        sw_nextId := Suc (sw_nextId w)\<rparr>)"

definition sig_disconnect :: "nat \<Rightarrow> nat \<Rightarrow> signal_world \<Rightarrow> signal_world" where
  "sig_disconnect emitter i w =
     w\<lparr>sw_connections := [c \<leftarrow> sw_connections w. \<not> (cn_id c = i \<and> cn_emitter c = emitter)]\<rparr>"

subsection \<open>Trackers\<close>

definition getSignalTracker :: "(nat \<Rightarrow> bool) \<Rightarrow> nat \<Rightarrow> signal_world \<Rightarrow> signal_tracker \<times> signal_world" where
  "getSignalTracker destroyable owner w =
     (case jm_get (sw_trackers w) owner of
        Some tr \<Rightarrow> (tr, w)
      | None \<Rightarrow>
          (let (i, w1) = (if destroyable owner
                          then map_prod Some id (sig_connect owner ClearOf (''destroy'', False) 0 w) else (None, w));
               tr = \<lparr>tr_ownerDestroyId = i, tr_map = []\<rparr>
           in (tr, w1\<lparr>sw_trackers := jm_set (sw_trackers w1) owner tr\<rparr>)))"

definition getSignalData :: "nat \<Rightarrow> signal_tracker \<Rightarrow> nat list \<times> nat" where
  "getSignalData obj tr = or_else (jm_get (tr_map tr) obj) ([], 0)"

definition trackDestroy :: "nat \<Rightarrow> nat \<Rightarrow> signal_tracker \<Rightarrow> signal_world \<Rightarrow> signal_tracker \<times> signal_world" where
  "trackDestroy owner obj tr w =
     (let (ids, d) = getSignalData obj tr
      in if d \<noteq> 0 then (tr, w)
         else let (i, w1) = sig_connect obj (UntrackOf owner) (''destroy'', False) 0 w
              in (tr\<lparr>tr_map := jm_set (tr_map tr) obj (ids, i)\<rparr>, w1))"

definition track :: "(nat \<Rightarrow> bool) \<Rightarrow> nat \<Rightarrow> nat \<Rightarrow> nat list \<Rightarrow> signal_tracker \<Rightarrow> signal_world \<Rightarrow> signal_world" where
  "track destroyable owner obj handlerIds tr w =
     (let (tr1, w1) = (if destroyable obj then trackDestroy owner obj tr w else (tr, w));
          (ids, d) = getSignalData obj tr1
      in w1\<lparr>sw_trackers := jm_set (sw_trackers w1) owner (tr1\<lparr>tr_map := jm_set (tr_map tr1) obj (ids @ handlerIds, d)\<rparr>)\<rparr>)"

definition removeTracker :: "nat \<Rightarrow> signal_tracker \<Rightarrow> signal_world \<Rightarrow> signal_world" where
  "removeTracker owner tr w =
     (let w1 = (case tr_ownerDestroyId tr of None \<Rightarrow> w | Some i \<Rightarrow> sig_disconnect owner i w)
      in w1\<lparr>sw_trackers := jm_del (sw_trackers w1) owner\<rparr>)"

definition untrack :: "nat \<Rightarrow> nat \<Rightarrow> signal_world \<Rightarrow> signal_world" where
  "untrack owner obj w =
     (case jm_get (sw_trackers w) owner of
        None \<Rightarrow> w
      | Some tr \<Rightarrow>
          (let (ownerSignals, destroyId) = getSignalData obj tr;
               tr1 = tr\<lparr>tr_map := jm_del (tr_map tr) obj\<rparr>;
               w1 = w\<lparr>sw_trackers := jm_set (sw_trackers w) owner tr1\<rparr>;
               w2 = fold (sig_disconnect owner) ownerSignals w1;
               w3 = (if destroyId \<noteq> 0 then sig_disconnect obj destroyId w2 else w2)
           in if tr_map tr1 = [] then removeTracker owner tr1 w3 else w3))"

definition clearTracker :: "nat \<Rightarrow> signal_world \<Rightarrow> signal_world" where
  "clearTracker owner w =
     (case jm_get (sw_trackers w) owner of
        None \<Rightarrow> w
      | Some tr \<Rightarrow> fold (untrack owner) (jm_keys (tr_map tr)) w)"

subsection \<open>The functions\<close>

fun connectSignals :: "nat \<Rightarrow> ((string \<times> bool) \<times> nat) list \<Rightarrow> signal_world \<Rightarrow> nat list \<times> signal_world" where
  "connectSignals thisObj [] w = ([], w)"
| "connectSignals thisObj ((sig, h) # ss) w =
     (let (i, w1) = sig_connect thisObj UserHandler sig h w; (is, w2) = connectSignals thisObj ss w1
      in (i # is, w2))"

definition connectObject :: "(nat \<Rightarrow> bool) \<Rightarrow> nat \<Rightarrow> ((string \<times> bool) \<times> nat) list \<Rightarrow> nat \<Rightarrow> signal_world \<Rightarrow> signal_world" where
  "connectObject destroyable thisObj signals obj w =
     (let (signalIds, w1) = connectSignals thisObj signals w;
          (tr, w2) = getSignalTracker destroyable thisObj w1
      in track destroyable thisObj obj signalIds tr w2)"

text \<open>
  The arguments as a caller gives them: a signal, flags if there are any, and a handler. Flags without one of the bits 1 (\<open>AFTER\<close>)
  and 2 (\<open>SWAPPED\<close>), or with the second, are an exception, at once: the call ends with what it has connected so far. (\<open>False\<close>:
  it has thrown.)
\<close>

type_synonym signal_arg = "string \<times> int option \<times> nat"

definition connectAfter :: "int option \<Rightarrow> bool option" where
  "connectAfter arg =
     (case arg of
        None \<Rightarrow> Some False
      | Some flags \<Rightarrow> if flags mod 4 = 0 then None else if flags mod 4 \<ge> 2 then None else Some True)"

fun connectArgs :: "(nat \<Rightarrow> bool) \<Rightarrow> nat \<Rightarrow> signal_arg list \<Rightarrow> signal_world \<Rightarrow> nat list option \<times> signal_world" where
  "connectArgs isGObject thisObj [] w = (Some [], w)"
| "connectArgs isGObject thisObj ((sig, flags, h) # ss) w =
     (case connectAfter flags of
        None \<Rightarrow> (None, w)
      | Some after \<Rightarrow>
          (let (i, w1) = sig_connect thisObj UserHandler (sig, after \<and> isGObject thisObj) h w;
               (is, w2) = connectArgs isGObject thisObj ss w1
           in (map_option ((#) i) is, w2)))"

definition connectObjectArgs ::
  "(nat \<Rightarrow> bool) \<Rightarrow> (nat \<Rightarrow> bool) \<Rightarrow> nat \<Rightarrow> signal_arg list \<Rightarrow> nat \<Rightarrow> signal_world \<Rightarrow> bool \<times> signal_world" where
  "connectObjectArgs destroyable isGObject thisObj ss obj w =
     (case connectArgs isGObject thisObj ss w of
        (None, w1) \<Rightarrow> (False, w1)
      | (Some signalIds, w1) \<Rightarrow>
          (let (tr, w2) = getSignalTracker destroyable thisObj w1
           in (True, track destroyable thisObj obj signalIds tr w2)))"

text \<open>With valid flags this is \<open>connectObject\<close>, which the events of a run use.\<close>

lemma connectArgs_valid:
  "list_all (\<lambda>(sig, flags, h). connectAfter flags \<noteq> None) ss \<Longrightarrow>
   connectArgs isGObject thisObj ss w = map_prod Some id
     (connectSignals thisObj (map (\<lambda>(sig, flags, h). ((sig, connectAfter flags = Some True \<and> isGObject thisObj), h)) ss) w)"
  by (induction isGObject thisObj ss w rule: connectArgs.induct) (auto simp: Let_def split: prod.split)

lemma connectObjectArgs_valid:
  assumes "list_all (\<lambda>(sig, flags, h). connectAfter flags \<noteq> None) ss"
  shows "connectObjectArgs destroyable isGObject thisObj ss obj w =
    (True, connectObject destroyable thisObj
       (map (\<lambda>(sig, flags, h). ((sig, connectAfter flags = Some True \<and> isGObject thisObj), h)) ss) obj w)"
  by (simp add: connectObjectArgs_def connectObject_def connectArgs_valid [OF assms] split: prod.split)

definition disconnectObject :: "nat \<Rightarrow> nat \<Rightarrow> signal_world \<Rightarrow> signal_world" where
  "disconnectObject thisObj obj w = untrack thisObj obj w"

text \<open>
  The emission of \<open>destroy\<close>: the tracker's handlers on the object, in the order of their connection; one that was
  disconnected meanwhile is not called.
\<close>

definition runTrackerHandler :: "connection \<Rightarrow> signal_world \<Rightarrow> signal_world" where
  "runTrackerHandler c w =
     (if c \<notin> set (sw_connections w) then w
      else case cn_role c of
             UserHandler \<Rightarrow> w
           | UntrackOf owner \<Rightarrow> untrack owner (cn_emitter c) w
           | ClearOf \<Rightarrow> clearTracker (cn_emitter c) w)"

definition emitDestroy :: "nat \<Rightarrow> signal_world \<Rightarrow> signal_world" where
  "emitDestroy x w = fold runTrackerHandler [c \<leftarrow> sw_connections w. cn_emitter c = x] w"

definition shutdownSignals :: "signal_world \<Rightarrow> signal_world" where
  "shutdownSignals w = (fold clearTracker (jm_keys (sw_trackers w)) w)\<lparr>sw_trackers := []\<rparr>"

datatype signal_event =
    ConnectObject nat "((string \<times> bool) \<times> nat) list" nat
  | DisconnectObject nat nat
  | DestroyObject nat

fun sig_step :: "(nat \<Rightarrow> bool) \<Rightarrow> signal_event \<Rightarrow> signal_world \<Rightarrow> signal_world" where
  "sig_step destroyable (ConnectObject o1 ss o2) w = connectObject destroyable o1 ss o2 w"
| "sig_step destroyable (DisconnectObject o1 o2) w = disconnectObject o1 o2 w"
| "sig_step destroyable (DestroyObject x) w = (if destroyable x then emitDestroy x w else w)"

subsection \<open>What the trackers know\<close>

text \<open>The connections that the trackers have on record: identifier, emitter and role.\<close>

fun data_claims :: "nat \<Rightarrow> nat \<times> nat list \<times> nat \<Rightarrow> (nat \<times> nat \<times> signal_role) list" where
  "data_claims owner (obj, ids, d) =
     map (\<lambda>i. (i, owner, UserHandler)) ids @ (if d \<noteq> 0 then [(d, obj, UntrackOf owner)] else [])"

definition owner_claims :: "nat \<Rightarrow> nat option \<Rightarrow> (nat \<times> nat \<times> signal_role) list" where
  "owner_claims owner i = (case i of None \<Rightarrow> [] | Some i \<Rightarrow> [(i, owner, ClearOf)])"

fun tracker_claims :: "nat \<times> signal_tracker \<Rightarrow> (nat \<times> nat \<times> signal_role) list" where
  "tracker_claims (owner, tr) = owner_claims owner (tr_ownerDestroyId tr) @ concat (map (data_claims owner) (tr_map tr))"

definition all_claims :: "signal_world \<Rightarrow> (nat \<times> nat \<times> signal_role) list" where
  "all_claims w = concat (map tracker_claims (sw_trackers w))"

definition conn_claim :: "connection \<Rightarrow> nat \<times> nat \<times> signal_role" where
  "conn_claim c = (cn_id c, cn_emitter c, cn_role c)"

text \<open>
  Every connection is on record exactly once and everything on record exists; no tracker is empty, and objects have the
  handlers on \<open>destroy\<close> that they need.
\<close>

definition tracker_ok :: "(nat \<Rightarrow> bool) \<Rightarrow> nat \<times> signal_tracker \<Rightarrow> bool" where
  "tracker_ok destroyable = (\<lambda>(owner, tr).
     tr_map tr \<noteq> [] \<and> distinct (map fst (tr_map tr)) \<and> (tr_ownerDestroyId tr \<noteq> None \<longleftrightarrow> destroyable owner)
     \<and> list_all (\<lambda>(obj, ids, d). d \<noteq> 0 \<longleftrightarrow> destroyable obj) (tr_map tr))"

definition signals_ok :: "(nat \<Rightarrow> bool) \<Rightarrow> signal_world \<Rightarrow> bool" where
  "signals_ok destroyable w =
     (mset (map conn_claim (sw_connections w)) = mset (all_claims w)
      \<and> distinct (map cn_id (sw_connections w))
      \<and> list_all (\<lambda>c. cn_id c < sw_nextId w) (sw_connections w) \<and> 0 < sw_nextId w
      \<and> distinct (map fst (sw_trackers w)) \<and> list_all (tracker_ok destroyable) (sw_trackers w))"

end
