(* ===== verification/SignalProps.thy ===== *)
theory SignalProps
  imports SignalTracker
begin

section \<open>Properties of tracked signals\<close>

text \<open>
  The connections are exactly those the trackers have on record; \<open>disconnectObject\<close> takes away the handlers that were
  connected for the object and no others; and when an object is destroyed, no connection of it or for it is left.
\<close>

subsection \<open>Maps and multisets\<close>

lemma claims_update:
  assumes "map_of m k = Some v0" and "distinct (map fst m)"
  shows "mset (concat (map f (AList.update k v m))) + mset (f (k, v0)) = mset (concat (map f m)) + mset (f (k, v))"
  using assms
proof (induction m)
  case Nil
  then show ?case by simp
next
  case (Cons p m)
  obtain a b where p: "p = (a, b)" by fastforce
  show ?case
  proof (cases "a = k")
    case True
    with Cons.prems p have "b = v0" by simp
    with True p show ?thesis by (simp add: ac_simps)
  next
    case False
    with Cons p have "mset (concat (map f (AList.update k v m))) + mset (f (k, v0)) = mset (concat (map f m)) + mset (f (k, v))"
      by simp
    with False p show ?thesis by (simp add: ac_simps)
  qed
qed

lemma claims_delete:
  assumes "map_of m k = Some v0" and "distinct (map fst m)"
  shows "mset (concat (map f (AList.delete k m))) + mset (f (k, v0)) = mset (concat (map f m))"
  using assms
proof (induction m)
  case Nil
  then show ?case by simp
next
  case (Cons p m)
  obtain a b where p: "p = (a, b)" by fastforce
  show ?case
  proof (cases "a = k")
    case True
    with Cons.prems p have "b = v0" and "AList.delete k m = m" by (simp_all add: delete_idem)
    with True p show ?thesis by (simp add: ac_simps)
  next
    case False
    with Cons p have "mset (concat (map f (AList.delete k m))) + mset (f (k, v0)) = mset (concat (map f m))" by simp
    with False p show ?thesis by (simp add: ac_simps)
  qed
qed

lemma distinct_update_keys: "distinct (map fst m) \<Longrightarrow> distinct (map fst (AList.update k v m))"
  by (simp add: distinct_update)

lemma distinct_delete_keys: "distinct (map fst m) \<Longrightarrow> distinct (map fst (AList.delete k m))"
  by (simp add: jm_keys_del)

lemma delete_update_same: "AList.delete k (AList.update k v m) = AList.delete k m"
  by (induction m) auto

lemma all_set_iff:
  assumes "distinct (map fst m)"
  shows "list_all P (AList.update k v m) \<longleftrightarrow> P (k, v) \<and> list_all (\<lambda>(k', v'). k' \<noteq> k \<longrightarrow> P (k', v')) m"
  using assms
proof (induction m)
  case Nil
  then show ?case by simp
next
  case (Cons p m)
  obtain a b where p: "p = (a, b)" by fastforce
  have "list_all (\<lambda>(k', v'). k' \<noteq> a \<longrightarrow> P (k', v')) m = list_all P m"
    using Cons.prems p by (force simp: list_all_iff)
  with Cons p show ?case by auto
qed

lemma all_delete: "list_all P m \<Longrightarrow> list_all P (AList.delete k m)"
  by (induction m) auto

lemma multiset_swap:
  fixes X T T1 W E :: "'a multiset"
  assumes "X + T = W + T1" and "T = T1 + E"
  shows "W = X + E"
proof -
  have "W + T1 = (X + E) + T1" using assms by (simp add: ac_simps)
  then show ?thesis by (rule add_right_imp_eq)
qed

subsection \<open>Connections\<close>

text \<open>The claims on record are \<open>A\<close>, and there are the connections of \<open>X\<close> besides.\<close>

definition exact :: "(nat \<times> nat \<times> signal_role) multiset \<Rightarrow> signal_world \<Rightarrow> bool" where
  "exact A w = (mset (map conn_claim (sw_connections w)) = A \<and> distinct (map cn_id (sw_connections w))
     \<and> list_all (\<lambda>c. cn_id c < sw_nextId w) (sw_connections w) \<and> 0 < sw_nextId w)"

lemma exact_trackers [simp]: "exact A (w\<lparr>sw_trackers := t\<rparr>) = exact A w"
  by (simp add: exact_def)

lemma exact_connect:
  assumes "exact A w"
  shows "exact (A + {#(sw_nextId w, em, r)#}) (snd (sig_connect em r sig h w))"
  using assms by (auto simp: exact_def sig_connect_def conn_claim_def list_all_iff less_Suc_eq)

lemma connect_frame [simp]:
  "sw_trackers (snd (sig_connect em r sig h w)) = sw_trackers w"
  "fst (sig_connect em r sig h w) = sw_nextId w"
  "sw_nextId (snd (sig_connect em r sig h w)) = Suc (sw_nextId w)"
  by (simp_all add: sig_connect_def)

lemma disconnect_frame_sig [simp]:
  "sw_trackers (sig_disconnect em i w) = sw_trackers w" "sw_nextId (sig_disconnect em i w) = sw_nextId w"
  by (simp_all add: sig_disconnect_def)

lemma exact_disconnect:
  assumes "exact (A + {#(i, em, r)#}) w"
  shows "exact A (sig_disconnect em i w)"
proof -
  let ?cs = "sw_connections w"
  have "(i, em, r) \<in># mset (map conn_claim ?cs)" using assms by (simp add: exact_def)
  then obtain c where c: "c \<in> set ?cs" "conn_claim c = (i, em, r)" by auto
  then obtain xs ys where split: "?cs = xs @ c # ys" by (meson split_list)
  have ci: "cn_id c = i" "cn_emitter c = em" using c(2) by (simp_all add: conn_claim_def)
  have d: "distinct (map cn_id ?cs)" using assms by (simp add: exact_def)
  then have keep: "cn_id x \<noteq> i" if "x \<in> set xs \<union> set ys" for x
    using that ci split by (auto simp: image_iff)
  have "[c \<leftarrow> zs. \<not> (cn_id c = i \<and> cn_emitter c = em)] = zs" if "set zs \<subseteq> set xs \<union> set ys" for zs
    by (rule filter_True) (use that keep in blast)
  then have f: "sw_connections (sig_disconnect em i w) = xs @ ys"
    using ci by (simp add: sig_disconnect_def split)
  have "mset (map conn_claim ?cs) = mset (map conn_claim (xs @ ys)) + {#(i, em, r)#}"
    using c(2) by (simp add: split)
  then have "mset (map conn_claim (xs @ ys)) = A" using assms by (simp add: exact_def)
  moreover have "distinct (map cn_id (xs @ ys))" using d split by auto
  moreover have "list_all (\<lambda>c. cn_id c < sw_nextId w) (xs @ ys)" using assms split by (simp add: exact_def)
  ultimately show ?thesis using assms f by (simp add: exact_def)
qed

lemma exact_disconnect_all:
  "exact (A + mset (map (\<lambda>i. (i, em, r)) ids)) w \<Longrightarrow>
     exact A (fold (sig_disconnect em) ids w) \<and> sw_trackers (fold (sig_disconnect em) ids w) = sw_trackers w"
proof (induction ids arbitrary: w)
  case Nil
  then show ?case by simp
next
  case (Cons i ids)
  from Cons.prems have "exact ((A + mset (map (\<lambda>i. (i, em, r)) ids)) + {#(i, em, r)#}) w" by simp
  from Cons.IH [OF exact_disconnect [OF this]] show ?case by simp
qed

subsection \<open>Untracking\<close>

lemma signals_ok_exact:
  "signals_ok D w \<longleftrightarrow> exact (mset (all_claims w)) w \<and> distinct (map fst (sw_trackers w))
     \<and> list_all (tracker_ok D) (sw_trackers w)"
  by (auto simp: signals_ok_def exact_def)

lemma untrack_ok:
  assumes ok: "signals_ok D w"
  shows "signals_ok D (untrack owner obj w)"
proof (cases "map_of (sw_trackers w) owner")
  case None
  with ok show ?thesis by (simp add: untrack_def)
next
  case (Some tr)
  have dt: "distinct (map fst (sw_trackers w))" and all: "list_all (tracker_ok D) (sw_trackers w)"
    and ex: "exact (mset (all_claims w)) w"
    using ok by (simp_all add: signals_ok_exact)
  have tr: "tracker_ok D (owner, tr)" using all map_of_SomeD [OF Some] by (simp add: list_all_iff)
  obtain ids d where sd: "getSignalData obj tr = (ids, d)" by fastforce
  define tr1 where "tr1 = tr\<lparr>tr_map := jm_del (tr_map tr) obj\<rparr>"
  define w1 where "w1 = w\<lparr>sw_trackers := jm_set (sw_trackers w) owner tr1\<rparr>"
  define w2 where "w2 = fold (sig_disconnect owner) ids w1"
  define w3 where "w3 = (if d \<noteq> 0 then sig_disconnect obj d w2 else w2)"
  have dm: "distinct (map fst (tr_map tr))" using tr by (simp add: tracker_ok_def)
  have "mset (tracker_claims (owner, tr)) = mset (tracker_claims (owner, tr1)) + mset (data_claims owner (obj, ids, d))"
  proof (cases "map_of (tr_map tr) obj")
    case None
    then have "tr1 = tr" using tr1_def by (simp add: delete_id map_of_eq_None_iff)
    with None sd show ?thesis by (simp add: getSignalData_def)
  next
    case (Some e)
    with sd have "e = (ids, d)" by (simp add: getSignalData_def)
    with claims_delete [OF Some dm, of "data_claims owner"] show ?thesis by (simp add: tr1_def ac_simps)
  qed
  from multiset_swap [OF claims_update [OF Some dt, of tracker_claims tr1] this]
  have A: "mset (all_claims w) = mset (all_claims w1) + mset (data_claims owner (obj, ids, d))"
    unfolding all_claims_def w1_def by simp
  have "exact (mset (all_claims w1) + mset (data_claims owner (obj, ids, d))) w1" using ex A by (simp add: w1_def)
  then have "exact ((mset (all_claims w1) + (if d \<noteq> 0 then {#(d, obj, UntrackOf owner)#} else {#}))
      + mset (map (\<lambda>i. (i, owner, UserHandler)) ids)) w1"
    by (simp add: ac_simps split: if_splits)
  from exact_disconnect_all [OF this]
  have w2: "exact (mset (all_claims w1) + (if d \<noteq> 0 then {#(d, obj, UntrackOf owner)#} else {#})) w2"
    "sw_trackers w2 = sw_trackers w1"
    by (simp_all add: w2_def)
  then have w3: "exact (mset (all_claims w1)) w3" "sw_trackers w3 = sw_trackers w1"
    using exact_disconnect by (auto simp: w3_def)
  have cw: "all_claims v = all_claims w1" if "sw_trackers v = sw_trackers w1" for v
    using that by (simp add: all_claims_def)
  have tr1: "distinct (map fst (tr_map tr1))" "tr_ownerDestroyId tr1 = tr_ownerDestroyId tr"
      "list_all (\<lambda>(obj, ids, d). d \<noteq> 0 \<longleftrightarrow> D obj) (tr_map tr1)"
    using tr by (simp_all add: tr1_def tracker_ok_def distinct_delete_keys all_delete)
  have unt: "untrack owner obj w = (if tr_map tr1 = [] then removeTracker owner tr1 w3 else w3)"
    by (simp add: untrack_def Some sd tr1_def w1_def w2_def w3_def Let_def)
  show ?thesis
  proof (cases "tr_map tr1 = []")
    case False
    have "list_all (\<lambda>(k', v'). k' \<noteq> owner \<longrightarrow> tracker_ok D (k', v')) (sw_trackers w)"
      using all by (auto simp: list_all_iff)
    moreover have "tracker_ok D (owner, tr1)" using False tr tr1 by (simp add: tracker_ok_def)
    ultimately have "list_all (tracker_ok D) (jm_set (sw_trackers w) owner tr1)"
      by (simp only: all_set_iff [OF dt] simp_thms)
    moreover have st: "sw_trackers w3 = jm_set (sw_trackers w) owner tr1" using w3(2) by (simp add: w1_def)
    moreover have "exact (mset (all_claims w3)) w3" using w3 cw [of w3] by simp
    ultimately have "signals_ok D w3"
      unfolding signals_ok_exact st by (simp only: distinct_update_keys [OF dt] simp_thms)
    with False show ?thesis unfolding unt by simp
  next
    case True
    define w4 where "w4 = (case tr_ownerDestroyId tr1 of None \<Rightarrow> w3 | Some i \<Rightarrow> sig_disconnect owner i w3)"
    have rt: "removeTracker owner tr1 w3 = w4\<lparr>sw_trackers := jm_del (sw_trackers w4) owner\<rparr>"
      by (simp add: removeTracker_def w4_def Let_def)
    have st: "sw_trackers w4 = sw_trackers w1" using w3(2) by (simp add: w4_def split: option.split)
    have get: "map_of (sw_trackers w1) owner = Some tr1" "distinct (map fst (sw_trackers w1))"
      using dt by (simp_all add: w1_def distinct_update_keys)
    from claims_delete [OF get, of tracker_claims] True
    have A1: "mset (all_claims w1) = mset (concat (map tracker_claims (jm_del (sw_trackers w1) owner)))
        + mset (owner_claims owner (tr_ownerDestroyId tr1))"
      by (simp add: all_claims_def)
    have "exact (mset (concat (map tracker_claims (jm_del (sw_trackers w1) owner)))) w4"
      using w3(1) A1 exact_disconnect by (auto simp: w4_def owner_claims_def split: option.splits)
    moreover have "jm_del (sw_trackers w1) owner = jm_del (sw_trackers w) owner"
      by (simp add: w1_def delete_update_same)
    ultimately show ?thesis
      using True all dt unfolding unt
      by (simp add: rt st signals_ok_exact all_claims_def distinct_delete_keys all_delete)
  qed
qed

lemma fold_untrack_ok: "signals_ok D w \<Longrightarrow> signals_ok D (fold (untrack owner) objs w)"
  by (induction objs arbitrary: w) (auto simp: untrack_ok)

lemma clear_ok: "signals_ok D w \<Longrightarrow> signals_ok D (clearTracker owner w)"
  by (simp add: clearTracker_def fold_untrack_ok split: option.split)

lemma handler_ok: "signals_ok D w \<Longrightarrow> signals_ok D (runTrackerHandler c w)"
  by (simp add: runTrackerHandler_def untrack_ok clear_ok split: signal_role.split)

lemma fold_handler_ok: "signals_ok D w \<Longrightarrow> signals_ok D (fold runTrackerHandler cs w)"
  by (induction cs arbitrary: w) (auto simp: handler_ok)

subsection \<open>Connecting\<close>

lemma exact_connectSignals:
  "exact A w \<Longrightarrow> connectSignals em ss w = (ids, w') \<Longrightarrow>
     exact (A + mset (map (\<lambda>i. (i, em, UserHandler)) ids)) w' \<and> sw_trackers w' = sw_trackers w"
proof (induction ss arbitrary: A w ids w')
  case Nil
  then show ?case by simp
next
  case (Cons p ss)
  obtain sig h where p: "p = (sig, h)" by fastforce
  obtain rest w2 where r: "connectSignals em ss (snd (sig_connect em UserHandler sig h w)) = (rest, w2)" by fastforce
  then have w': "ids = sw_nextId w # rest" "w' = w2"
    using Cons.prems(2) p by (simp_all add: sig_connect_def)
  from Cons.IH [OF exact_connect [OF Cons.prems(1), of em UserHandler sig h] r] w' show ?case by (simp add: ac_simps)
qed

text \<open>What is known of a tracker while a handler is added to it; its map may be empty.\<close>

definition tracker_open :: "(nat \<Rightarrow> bool) \<Rightarrow> nat \<Rightarrow> signal_tracker \<Rightarrow> signal_world \<Rightarrow> bool" where
  "tracker_open D owner tr w =
     (map_of (sw_trackers w) owner = Some tr \<and> distinct (map fst (sw_trackers w))
      \<and> list_all (\<lambda>(k, v). k \<noteq> owner \<longrightarrow> tracker_ok D (k, v)) (sw_trackers w)
      \<and> distinct (map fst (tr_map tr)) \<and> (tr_ownerDestroyId tr \<noteq> None \<longleftrightarrow> D owner)
      \<and> list_all (\<lambda>(obj, ids, d). d \<noteq> 0 \<longleftrightarrow> D obj) (tr_map tr))"

lemma exact_pos: "exact A w \<Longrightarrow> 0 < sw_nextId w"
  by (simp add: exact_def)

lemma getSignalTracker_open:
  assumes ex: "exact (mset (all_claims w) + X) w" and d: "distinct (map fst (sw_trackers w))"
    and all: "list_all (tracker_ok D) (sw_trackers w)" and g: "getSignalTracker D owner w = (tr, w')"
  shows "tracker_open D owner tr w' \<and> exact (mset (all_claims w') + X) w'"
proof (cases "map_of (sw_trackers w) owner")
  case (Some t)
  then have "tracker_ok D (owner, t)" using all map_of_SomeD [OF Some] by (simp add: list_all_iff)
  with Some assms show ?thesis
    by (auto simp: getSignalTracker_def tracker_open_def tracker_ok_def list_all_iff)
next
  case None
  then have new: "jm_set (sw_trackers w) owner t = sw_trackers w @ [(owner, t)]" for t
    by (simp add: jm_set_new jm_get_iff_key)
  have others: "list_all (\<lambda>(k, v). k \<noteq> owner \<longrightarrow> tracker_ok D (k, v)) (sw_trackers w)"
    using all by (auto simp: list_all_iff)
  have k: "owner \<notin> set (map fst (sw_trackers w))" using None by (simp add: jm_get_iff_key)
  show ?thesis
  proof (cases "D owner")
    case True
    define w1 where "w1 = snd (sig_connect owner ClearOf (''destroy'', False) 0 w)"
    have "getSignalTracker D owner w = (\<lparr>tr_ownerDestroyId = Some (sw_nextId w), tr_map = []\<rparr>,
        w1\<lparr>sw_trackers := jm_set (sw_trackers w1) owner \<lparr>tr_ownerDestroyId = Some (sw_nextId w), tr_map = []\<rparr>\<rparr>)"
      using None True by (simp add: getSignalTracker_def w1_def sig_connect_def Let_def)
    then have tr: "tr = \<lparr>tr_ownerDestroyId = Some (sw_nextId w), tr_map = []\<rparr>"
      and w': "w' = w1\<lparr>sw_trackers := sw_trackers w @ [(owner, tr)]\<rparr>"
      using g new by (simp_all add: w1_def)
    have "exact ((mset (all_claims w) + X) + {#(sw_nextId w, owner, ClearOf)#}) w1"
      unfolding w1_def by (rule exact_connect [OF ex])
    moreover have "mset (all_claims w') + X = (mset (all_claims w) + X) + {#(sw_nextId w, owner, ClearOf)#}"
      by (simp add: all_claims_def w' tr owner_claims_def ac_simps)
    ultimately have "exact (mset (all_claims w') + X) w'" by (simp add: w')
    with True d others k None show ?thesis by (simp add: tracker_open_def w' tr map_of_append map_add_def)
  next
    case False
    have tr: "tr = \<lparr>tr_ownerDestroyId = None, tr_map = []\<rparr>" and w': "w' = w\<lparr>sw_trackers := sw_trackers w @ [(owner, tr)]\<rparr>"
      using g None False new by (auto simp: getSignalTracker_def Let_def)
    with ex False d others k None show ?thesis
      by (simp add: tracker_open_def all_claims_def owner_claims_def map_of_append map_add_def)
  qed
qed

lemma data_update:
  assumes "distinct (map fst m)" and "or_else (map_of m obj) ([], 0) = (ids, d)"
  shows "mset (concat (map (data_claims own) (AList.update obj e m))) + mset (data_claims own (obj, ids, d))
    = mset (concat (map (data_claims own) m)) + mset (data_claims own (obj, e))"
proof (cases "map_of m obj")
  case None
  with assms have "ids = []" "d = 0" by simp_all
  with None show ?thesis by (simp add: jm_set_new jm_get_iff_key)
next
  case (Some v)
  with assms have "v = (ids, d)" by simp
  with claims_update [OF Some assms(1), of "data_claims own" e] show ?thesis by simp
qed

lemma getSignalData_ok:
  "tracker_open D owner tr w \<Longrightarrow> getSignalData obj tr = (ids, d) \<Longrightarrow> d \<noteq> 0 \<Longrightarrow> D obj"
  by (auto simp: tracker_open_def getSignalData_def list_all_iff or_else_def dest: map_of_SomeD split: option.splits)

text \<open>Storing new data of one object in the tracker.\<close>

lemma store_ok:
  assumes op: "tracker_open D owner tr w" and sd: "getSignalData obj tr = (ids, d)"
    and ex: "exact (mset (all_claims w) + X) w'" and w': "sw_trackers w' = sw_trackers w"
    and X: "mset (data_claims owner (obj, e)) = mset (data_claims owner (obj, ids, d)) + X" and e: "snd e \<noteq> 0 \<longleftrightarrow> D obj"
  shows "signals_ok D (w'\<lparr>sw_trackers := jm_set (sw_trackers w') owner (tr\<lparr>tr_map := jm_set (tr_map tr) obj e\<rparr>)\<rparr>)"
    (is "signals_ok D ?w")
proof -
  let ?tr = "tr\<lparr>tr_map := jm_set (tr_map tr) obj e\<rparr>"
  have t: "map_of (sw_trackers w) owner = Some tr" "distinct (map fst (sw_trackers w))"
    and m: "distinct (map fst (tr_map tr))" using op by (simp_all add: tracker_open_def)
  from data_update [OF m, of obj ids d owner e] sd X
  have "mset (concat (map (data_claims owner) (jm_set (tr_map tr) obj e))) + mset (data_claims owner (obj, ids, d))
      = (mset (concat (map (data_claims owner) (tr_map tr))) + X) + mset (data_claims owner (obj, ids, d))"
    by (simp add: getSignalData_def ac_simps)
  then have "mset (concat (map (data_claims owner) (jm_set (tr_map tr) obj e)))
      = mset (concat (map (data_claims owner) (tr_map tr))) + X"
    by (rule add_right_imp_eq)
  then have "mset (tracker_claims (owner, ?tr)) = mset (tracker_claims (owner, tr)) + X" by (simp add: ac_simps)
  moreover have aw: "all_claims ?w = concat (map tracker_claims (jm_set (sw_trackers w) owner ?tr))"
    by (simp add: all_claims_def w')
  moreover note claims_update [OF t, of tracker_claims ?tr]
  ultimately
  have "mset (all_claims ?w) + mset (tracker_claims (owner, tr))
      = (mset (all_claims w) + X) + mset (tracker_claims (owner, tr))"
    unfolding aw all_claims_def [of w] by (simp only: ac_simps)
  then have "mset (all_claims ?w) = mset (all_claims w) + X" by (rule add_right_imp_eq)
  with ex have "exact (mset (all_claims ?w)) ?w" by simp
  moreover have "list_all (\<lambda>(obj, ids, d). d \<noteq> 0 \<longleftrightarrow> D obj) (jm_set (tr_map tr) obj e)"
  proof -
    have "list_all (\<lambda>(k, v). k \<noteq> obj \<longrightarrow> (case (k, v) of (obj, ids, d) \<Rightarrow> d \<noteq> 0 \<longleftrightarrow> D obj)) (tr_map tr)"
      using op by (auto simp: tracker_open_def list_all_iff)
    with e show ?thesis by (cases e) (simp add: all_set_iff [OF m])
  qed
  then have "tracker_ok D (owner, ?tr)"
    using op by (simp add: tracker_open_def tracker_ok_def distinct_update_keys)
  then have "list_all (tracker_ok D) (jm_set (sw_trackers w) owner ?tr)"
    using op by (simp only: all_set_iff [OF t(2)] tracker_open_def simp_thms)
  ultimately show ?thesis
    unfolding signals_ok_exact using t(2) w' by (simp add: distinct_update_keys)
qed

lemma track_ok:
  assumes op: "tracker_open D owner tr w"
    and ex: "exact (mset (all_claims w) + mset (map (\<lambda>i. (i, owner, UserHandler)) hs)) w"
  shows "signals_ok D (track D owner obj hs tr w)"
proof -
  obtain ids d where sd: "getSignalData obj tr = (ids, d)" by fastforce
  let ?X = "mset (map (\<lambda>i. (i, owner, UserHandler)) hs)"
  have pos: "sw_nextId w \<noteq> 0" using exact_pos [OF ex] by simp
  have twice: "jm_set (jm_set m k v) k v' = jm_set m k v'" for m :: "(nat, nat list \<times> nat) jsmap" and k v v'
    by (induction m) auto
  show ?thesis
  proof (cases "D obj \<and> d = 0")
    case True
    define w1 where "w1 = snd (sig_connect obj (UntrackOf owner) (''destroy'', False) 0 w)"
    have "exact ((mset (all_claims w) + ?X) + {#(sw_nextId w, obj, UntrackOf owner)#}) w1"
      unfolding w1_def by (rule exact_connect [OF ex])
    then have e1: "exact (mset (all_claims w) + (?X + {#(sw_nextId w, obj, UntrackOf owner)#})) w1" by (simp add: ac_simps)
    have t1: "sw_trackers w1 = sw_trackers w" by (simp add: w1_def)
    have "mset (data_claims owner (obj, ids @ hs, sw_nextId w)) = mset (data_claims owner (obj, ids, d))
        + (?X + {#(sw_nextId w, obj, UntrackOf owner)#})"
      using True pos by (simp add: ac_simps)
    from store_ok [OF op sd e1 t1 this] True pos
    have "signals_ok D (w1\<lparr>sw_trackers := jm_set (sw_trackers w1) owner (tr\<lparr>tr_map := jm_set (tr_map tr) obj (ids @ hs, sw_nextId w)\<rparr>)\<rparr>)"
      by simp
    then show ?thesis
      using True sd by (simp add: track_def trackDestroy_def Let_def w1_def getSignalData_def twice split_def)
  next
    case False
    then have dD: "d \<noteq> 0 \<longleftrightarrow> D obj" using getSignalData_ok [OF op sd] by auto
    have "mset (data_claims owner (obj, ids @ hs, d)) = mset (data_claims owner (obj, ids, d)) + ?X"
      by (simp add: ac_simps)
    from store_ok [OF op sd ex refl this] dD
    have "signals_ok D (w\<lparr>sw_trackers := jm_set (sw_trackers w) owner (tr\<lparr>tr_map := jm_set (tr_map tr) obj (ids @ hs, d)\<rparr>)\<rparr>)"
      by simp
    moreover have "(if D obj then trackDestroy owner obj tr w else (tr, w)) = (tr, w)"
      using False sd by (auto simp: trackDestroy_def Let_def)
    ultimately show ?thesis using sd by (simp add: track_def Let_def)
  qed
qed

lemma connectObject_ok:
  assumes "signals_ok D w"
  shows "signals_ok D (connectObject D o1 ss o2 w)"
proof -
  obtain ids w1 where c: "connectSignals o1 ss w = (ids, w1)" by fastforce
  obtain tr w2 where g: "getSignalTracker D o1 w1 = (tr, w2)" by fastforce
  let ?X = "mset (map (\<lambda>i. (i, o1, UserHandler)) ids)"
  have e: "exact (mset (all_claims w) + ?X) w1" and t: "sw_trackers w1 = sw_trackers w"
    using exact_connectSignals [OF _ c] assms by (auto simp: signals_ok_exact)
  have "all_claims w1 = all_claims w" by (simp add: all_claims_def t)
  with e t assms getSignalTracker_open [OF _ _ _ g, where X = ?X]
  have "tracker_open D o1 tr w2" "exact (mset (all_claims w2) + ?X) w2"
    by (simp_all add: signals_ok_exact)
  from track_ok [OF this] show ?thesis by (simp add: connectObject_def c g)
qed

lemma sig_step_ok: "signals_ok D w \<Longrightarrow> signals_ok D (sig_step D e w)"
  by (cases e) (auto simp: connectObject_ok disconnectObject_def untrack_ok emitDestroy_def fold_handler_ok)

lemma sig_run_ok: "signals_ok D (fold (sig_step D) es initial_signals)"
proof -
  have "signals_ok D (fold (sig_step D) es w)" if "signals_ok D w" for w
    using that by (induction es arbitrary: w) (auto simp: sig_step_ok)
  moreover have "signals_ok D initial_signals" by (simp add: signals_ok_def initial_signals_def all_claims_def)
  ultimately show ?thesis by blast
qed

subsection \<open>What is left\<close>

text \<open>C23: After any calls and destructions, the connections are exactly those on record, each once: nothing that was
  connected is forgotten, and nothing on record is gone.
\<close>

theorem connections_exactly_tracked:
  "let w = fold (sig_step destroyable) es initial_signals
   in mset (map conn_claim (sw_connections w)) = mset (all_claims w)
      \<and> distinct (map cn_id (sw_connections w))"
  using sig_run_ok [of destroyable es] by (simp add: signals_ok_def Let_def)

text \<open>The users' handlers of an object that are tracked for another.\<close>

definition handlers_for :: "nat \<Rightarrow> nat \<Rightarrow> signal_world \<Rightarrow> nat list" where
  "handlers_for owner obj w =
     (case jm_get (sw_trackers w) owner of None \<Rightarrow> [] | Some tr \<Rightarrow> fst (getSignalData obj tr))"

lemma fold_disconnect_connections:
  "sw_connections (fold (sig_disconnect em) ids w)
   = [c \<leftarrow> sw_connections w. \<not> (cn_id c \<in> set ids \<and> cn_emitter c = em)]"
  by (induction ids arbitrary: w) (auto simp: sig_disconnect_def intro: filter_cong)

lemma claims_conn:
  assumes "signals_ok D w"
  shows "x \<in> set (all_claims w) \<longleftrightarrow> (\<exists>c\<in>set (sw_connections w). conn_claim c = x)"
proof -
  have "mset (map conn_claim (sw_connections w)) = mset (all_claims w)"
    using assms unfolding signals_ok_def by (elim conjE)
  from mset_eq_setD [OF this] have "set (all_claims w) = conn_claim ` set (sw_connections w)" by simp
  then show ?thesis by (metis imageE image_eqI)
qed

lemma claim_unique:
  assumes ok: "signals_ok D w" and "(i, e1, r1) \<in> set (all_claims w)" and "(i, e2, r2) \<in> set (all_claims w)"
  shows "e1 = e2 \<and> r1 = r2"
proof -
  obtain c1 c2 where c: "c1 \<in> set (sw_connections w)" "conn_claim c1 = (i, e1, r1)"
      "c2 \<in> set (sw_connections w)" "conn_claim c2 = (i, e2, r2)"
    using assms(2,3) unfolding claims_conn [OF ok] by blast
  have "inj_on cn_id (set (sw_connections w))" using ok by (simp add: signals_ok_def distinct_map)
  with c have "c1 = c2" by (simp add: conn_claim_def inj_on_def)
  with c show ?thesis by simp
qed

lemma data_claims_iff:
  "(i, em, r) \<in> set (data_claims owner e) \<longleftrightarrow>
     (i \<in> set (fst (snd e)) \<and> em = owner \<and> r = UserHandler)
     \<or> (snd (snd e) \<noteq> 0 \<and> i = snd (snd e) \<and> em = fst e \<and> r = UntrackOf owner)"
  by (cases e) auto

lemma tracker_claims_iff:
  "(i, em, r) \<in> set (tracker_claims p) \<longleftrightarrow>
     (tr_ownerDestroyId (snd p) = Some i \<and> em = fst p \<and> r = ClearOf)
     \<or> (\<exists>e\<in>set (tr_map (snd p)). (i, em, r) \<in> set (data_claims (fst p) e))"
  by (cases p) (auto simp: owner_claims_def split: option.splits)

lemma all_claims_iff: "x \<in> set (all_claims w) \<longleftrightarrow> (\<exists>p\<in>set (sw_trackers w). x \<in> set (tracker_claims p))"
  by (simp add: all_claims_def)

lemma data_claimed:
  assumes "map_of (sw_trackers w) owner = Some tr" and "getSignalData obj tr = (ids, d)"
  shows "d \<noteq> 0 \<Longrightarrow> (d, obj, UntrackOf owner) \<in> set (all_claims w)"
    and "tr_ownerDestroyId tr = Some i \<Longrightarrow> (i, owner, ClearOf) \<in> set (all_claims w)"
proof -
  have m: "(owner, tr) \<in> set (sw_trackers w)" using assms(1) by (rule map_of_SomeD)
  show "(i, owner, ClearOf) \<in> set (all_claims w)" if "tr_ownerDestroyId tr = Some i"
    unfolding all_claims_iff by (rule bexI [OF _ m]) (simp only: tracker_claims_iff that fst_conv snd_conv simp_thms)
  show "(d, obj, UntrackOf owner) \<in> set (all_claims w)" if "d \<noteq> 0"
  proof -
    have e: "(obj, ids, d) \<in> set (tr_map tr)"
      using assms(2) that by (auto simp: getSignalData_def or_else_def dest: map_of_SomeD split: option.splits)
    have "(d, obj, UntrackOf owner) \<in> set (data_claims owner (obj, ids, d))" using that by simp
    with e have "(d, obj, UntrackOf owner) \<in> set (tracker_claims (owner, tr))"
      unfolding tracker_claims_iff fst_conv snd_conv by blast
    with m show ?thesis unfolding all_claims_iff by blast
  qed
qed

text \<open>A connection that the tracker itself made is not one of the users'.\<close>

lemma own_handler:
  assumes ok: "signals_ok D w" and "(i, em, r) \<in> set (all_claims w)" and "r \<noteq> UserHandler"
    and "c \<in> set (sw_connections w)" and "cn_id c = i"
  shows "cn_role c \<noteq> UserHandler"
proof -
  have "(i, cn_emitter c, cn_role c) \<in> set (all_claims w)"
    unfolding claims_conn [OF ok] using assms(4,5) by (auto simp: conn_claim_def)
  from claim_unique [OF ok assms(2) this] assms(3) show ?thesis by simp
qed

definition user_connections :: "signal_world \<Rightarrow> connection list" where
  "user_connections w = [c \<leftarrow> sw_connections w. cn_role c = UserHandler]"

lemma disconnect_connections [simp]:
  "sw_connections (sig_disconnect em i w) = [c \<leftarrow> sw_connections w. \<not> (cn_id c = i \<and> cn_emitter c = em)]"
  by (simp add: sig_disconnect_def)

lemma user_disconnect:
  "(\<And>c. c \<in> set (sw_connections w) \<Longrightarrow> cn_id c = i \<Longrightarrow> cn_role c \<noteq> UserHandler) \<Longrightarrow>
     user_connections (sig_disconnect em i w) = user_connections w"
  by (auto simp: user_connections_def intro!: filter_cong)

lemma disconnectObject_users:
  assumes ok: "signals_ok D w"
  shows "user_connections (disconnectObject owner obj w)
    = [c \<leftarrow> user_connections w. \<not> (cn_emitter c = owner \<and> cn_id c \<in> set (handlers_for owner obj w))]"
proof (cases "map_of (sw_trackers w) owner")
  case None
  then show ?thesis by (simp add: disconnectObject_def untrack_def handlers_for_def user_connections_def)
next
  case (Some tr)
  obtain ids d where sd: "getSignalData obj tr = (ids, d)" by fastforce
  have own: "cn_role c \<noteq> UserHandler" if "c \<in> set (sw_connections w)"
      "(d \<noteq> 0 \<and> cn_id c = d) \<or> tr_ownerDestroyId tr = Some (cn_id c)" for c
    using that own_handler [OF ok] data_claimed [OF Some sd] by blast
  define tr1 where "tr1 = tr\<lparr>tr_map := jm_del (tr_map tr) obj\<rparr>"
  define w2 where "w2 = fold (sig_disconnect owner) ids (w\<lparr>sw_trackers := jm_set (sw_trackers w) owner tr1\<rparr>)"
  define w3 where "w3 = (if d \<noteq> 0 then sig_disconnect obj d w2 else w2)"
  have c2: "sw_connections w2 = [c \<leftarrow> sw_connections w. \<not> (cn_id c \<in> set ids \<and> cn_emitter c = owner)]"
    by (simp add: fold_disconnect_connections w2_def)
  have u3: "user_connections w3 = user_connections w2"
    unfolding w3_def using own by (auto simp: c2 intro!: user_disconnect)
  have c3: "set (sw_connections w3) \<subseteq> set (sw_connections w)" using c2 by (auto simp: w3_def)
  have u4: "user_connections (removeTracker owner tr1 w3) = user_connections w3"
  proof -
    have "user_connections (v\<lparr>sw_trackers := t\<rparr>) = user_connections v" for v t by (simp add: user_connections_def)
    moreover have "user_connections (sig_disconnect owner i w3) = user_connections w3"
      if "tr_ownerDestroyId tr = Some i" for i
      by (rule user_disconnect) (use own c3 that in blast)
    ultimately show ?thesis by (simp add: removeTracker_def Let_def tr1_def split: option.split)
  qed
  have "untrack owner obj w = (if tr_map tr1 = [] then removeTracker owner tr1 w3 else w3)"
    unfolding untrack_def Some by (simp add: sd Let_def tr1_def w2_def w3_def)
  then have "user_connections (disconnectObject owner obj w) = user_connections w2"
    using u3 u4 unfolding disconnectObject_def by presburger
  also have "\<dots> = [c \<leftarrow> user_connections w. \<not> (cn_emitter c = owner \<and> cn_id c \<in> set (handlers_for owner obj w))]"
    unfolding user_connections_def c2 by (auto simp: handlers_for_def Some sd intro: filter_cong)
  finally show ?thesis .
qed

subsection \<open>Destruction\<close>

lemma keys_delete: "fst ` set (AList.delete k m) = fst ` set m - {k}"
  by (induction m) auto

lemma untrack_trackers:
  assumes "signals_ok D w" and "map_of (sw_trackers (untrack owner obj w)) o1 = Some tr'"
  shows "\<exists>tr. map_of (sw_trackers w) o1 = Some tr
    \<and> set (jm_keys (tr_map tr')) = (if o1 = owner then set (jm_keys (tr_map tr)) - {obj} else set (jm_keys (tr_map tr)))"
proof (cases "map_of (sw_trackers w) owner")
  case None
  with assms(2) show ?thesis by (auto simp: untrack_def)
next
  case (Some tr)
  obtain ids d where sd: "getSignalData obj tr = (ids, d)" by fastforce
  let ?tr1 = "tr\<lparr>tr_map := jm_del (tr_map tr) obj\<rparr>"
  have f: "sw_trackers (fold (sig_disconnect em) is v) = sw_trackers v" for em "is" v
    by (induction "is" arbitrary: v) auto
  have "sw_trackers (untrack owner obj w) = (let t = jm_set (sw_trackers w) owner ?tr1
      in if tr_map ?tr1 = [] then jm_del t owner else t)"
    unfolding untrack_def Some by (auto simp: sd Let_def removeTracker_def f split: option.split)
  note upd = this
  show ?thesis
  proof (cases "o1 = owner")
    case True
    with upd assms(2) Some have "tr' = ?tr1" by (cases "tr_map ?tr1 = []") (simp_all add: Let_def)
    with True Some show ?thesis by (simp add: keys_delete)
  next
    case False
    with upd assms(2) have "map_of (sw_trackers w) o1 = Some tr'"
      by (cases "tr_map ?tr1 = []") (simp_all add: Let_def)
    with False show ?thesis by simp
  qed
qed

lemma untrack_connections: "set (sw_connections (untrack owner obj w)) \<subseteq> set (sw_connections w)"
proof -
  have f: "set (sw_connections (fold (sig_disconnect em) is v)) \<subseteq> set (sw_connections v)" for em "is" v
    by (auto simp: fold_disconnect_connections)
  have r: "set (sw_connections (removeTracker o1 tr v)) \<subseteq> set (sw_connections v)" for o1 tr v
    by (auto simp: removeTracker_def Let_def split: option.split)
  show ?thesis
  proof (cases "map_of (sw_trackers w) owner")
    case None
    then show ?thesis by (simp add: untrack_def)
  next
    case (Some tr)
    obtain ids d where sd: "getSignalData obj tr = (ids, d)" by fastforce
    define tr1 where "tr1 = tr\<lparr>tr_map := jm_del (tr_map tr) obj\<rparr>"
    define w2 where "w2 = fold (sig_disconnect owner) ids (w\<lparr>sw_trackers := jm_set (sw_trackers w) owner tr1\<rparr>)"
    define w3 where "w3 = (if d \<noteq> 0 then sig_disconnect obj d w2 else w2)"
    have "set (sw_connections w3) \<subseteq> set (sw_connections w)"
      using f [of owner ids "w\<lparr>sw_trackers := jm_set (sw_trackers w) owner tr1\<rparr>"] by (auto simp: w3_def w2_def)
    moreover have "untrack owner obj w = (if tr_map tr1 = [] then removeTracker owner tr1 w3 else w3)"
      unfolding untrack_def Some by (simp add: sd Let_def tr1_def w2_def w3_def)
    ultimately show ?thesis using r [of owner tr1 w3] by auto
  qed
qed

lemma fold_untrack_trackers:
  assumes "signals_ok D w" and "map_of (sw_trackers (fold (untrack owner) objs w)) owner = Some tr'"
  shows "\<exists>tr. map_of (sw_trackers w) owner = Some tr \<and> set (jm_keys (tr_map tr')) = set (jm_keys (tr_map tr)) - set objs"
  using assms
proof (induction objs arbitrary: w)
  case Nil
  then show ?case by auto
next
  case (Cons obj objs)
  from Cons.prems(2) have "map_of (sw_trackers (fold (untrack owner) objs (untrack owner obj w))) owner = Some tr'" by simp
  from Cons.IH [OF untrack_ok [OF Cons.prems(1)] this] obtain tr where
    "map_of (sw_trackers (untrack owner obj w)) owner = Some tr"
    "set (jm_keys (tr_map tr')) = set (jm_keys (tr_map tr)) - set objs" by blast
  with untrack_trackers [OF Cons.prems(1) this(1)] show ?case by auto
qed

lemma clear_removes:
  assumes ok: "signals_ok D w"
  shows "map_of (sw_trackers (clearTracker owner w)) owner = None"
proof (cases "map_of (sw_trackers w) owner")
  case None
  then show ?thesis by (simp add: clearTracker_def)
next
  case (Some tr)
  let ?w' = "fold (untrack owner) (jm_keys (tr_map tr)) w"
  have e: "clearTracker owner w = ?w'" by (simp add: clearTracker_def Some)
  show ?thesis
  proof (rule ccontr)
    assume "map_of (sw_trackers (clearTracker owner w)) owner \<noteq> None"
    then obtain tr' where t: "map_of (sw_trackers ?w') owner = Some tr'" using e by auto
    with fold_untrack_trackers [OF ok t] Some have "tr_map tr' = []" by auto
    moreover have "tracker_ok D (owner, tr')"
      using fold_untrack_ok [OF ok, of owner "jm_keys (tr_map tr)"] map_of_SomeD [OF t]
      unfolding signals_ok_def list_all_iff by blast
    ultimately show False by (simp add: tracker_ok_def)
  qed
qed

text \<open>A handler of the tracker disconnects itself.\<close>

lemma handler_gone:
  assumes ok: "signals_ok D w" and c: "c \<in> set (sw_connections w)" and r: "cn_role c \<noteq> UserHandler"
  shows "c \<notin> set (sw_connections (runTrackerHandler c w))"
proof
  assume still: "c \<in> set (sw_connections (runTrackerHandler c w))"
  have ok': "signals_ok D (runTrackerHandler c w)" by (rule handler_ok [OF ok])
  have "(cn_id c, cn_emitter c, cn_role c) \<in> set (all_claims (runTrackerHandler c w))"
    unfolding claims_conn [OF ok'] using still by (auto simp: conn_claim_def)
  then obtain p where p: "p \<in> set (sw_trackers (runTrackerHandler c w))"
      "(cn_id c, cn_emitter c, cn_role c) \<in> set (tracker_claims p)"
    unfolding all_claims_iff by blast
  have d: "distinct (map fst (sw_trackers (runTrackerHandler c w)))" using ok' by (simp add: signals_ok_def)
  have t: "map_of (sw_trackers (runTrackerHandler c w)) (fst p) = Some (snd p)" using p(1) d by simp
  show False
  proof (cases "cn_role c")
    case UserHandler
    with r show False by simp
  next
    case ClearOf
    then have "fst p = cn_emitter c" using p(2) unfolding tracker_claims_iff data_claims_iff by auto
    moreover have "runTrackerHandler c w = clearTracker (cn_emitter c) w" using c ClearOf by (simp add: runTrackerHandler_def)
    ultimately show False using t clear_removes [OF ok, of "cn_emitter c"] by simp
  next
    case (UntrackOf owner)
    then obtain e where e: "e \<in> set (tr_map (snd p))" "fst p = owner" "fst e = cn_emitter c"
      using p(2) unfolding tracker_claims_iff data_claims_iff by auto
    have "runTrackerHandler c w = untrack owner (cn_emitter c) w" using c UntrackOf by (simp add: runTrackerHandler_def)
    with t e untrack_trackers [OF ok, of owner "cn_emitter c" owner "snd p"]
    have "cn_emitter c \<notin> fst ` set (tr_map (snd p))" by auto
    with e show False by force
  qed
qed

lemma handler_connections: "set (sw_connections (runTrackerHandler c w)) \<subseteq> set (sw_connections w)"
proof -
  have "set (sw_connections (fold (untrack o1) objs v)) \<subseteq> set (sw_connections v)" for o1 objs v
    by (induction objs arbitrary: v) (auto dest: untrack_connections [THEN subsetD])
  then show ?thesis
    using untrack_connections by (auto simp: runTrackerHandler_def clearTracker_def split: signal_role.split option.split)
qed

lemma emit_leaves:
  assumes "signals_ok D w"
  shows "set (sw_connections (fold runTrackerHandler cs w)) \<subseteq> set (sw_connections w)
    \<and> (\<forall>c\<in>set (sw_connections (fold runTrackerHandler cs w)). c \<in> set cs \<longrightarrow> cn_role c = UserHandler)"
  using assms
proof (induction cs arbitrary: w)
  case Nil
  then show ?case by simp
next
  case (Cons c cs)
  have "c \<notin> set (sw_connections (runTrackerHandler c w)) \<or> cn_role c = UserHandler"
    using handler_gone [OF Cons.prems, of c] by (auto simp: runTrackerHandler_def)
  with Cons.IH [OF handler_ok [OF Cons.prems, of c]] handler_connections [of c w] show ?case by auto
qed

lemma emit_forgets:
  assumes ok: "signals_ok destroyable w" and x: "destroyable x"
  shows "let w' = emitDestroy x w
    in list_all (\<lambda>c. cn_emitter c \<noteq> x) (sw_connections w')
       \<and> list_all (\<lambda>(owner, tr). owner \<noteq> x \<and> \<not> jm_has (tr_map tr) x) (sw_trackers w')"
proof -
  let ?cs = "[c \<leftarrow> sw_connections w. cn_emitter c = x]"
  let ?w = "emitDestroy x w"
  have ok': "signals_ok destroyable ?w" by (simp add: emitDestroy_def fold_handler_ok [OF ok])
  have left: "cn_role c = UserHandler" if "c \<in> set (sw_connections ?w)" "cn_emitter c = x" for c
    using emit_leaves [OF ok, of ?cs] that by (auto simp: emitDestroy_def)
  have none: "(i, x, r) \<notin> set (all_claims ?w)" if "r \<noteq> UserHandler" for i r
    unfolding claims_conn [OF ok'] using left that by (auto simp: conn_claim_def)
  have tr: "owner \<noteq> x \<and> \<not> jm_has (tr_map tr) x" if m: "(owner, tr) \<in> set (sw_trackers ?w)" for owner tr
  proof -
    have t: "tracker_ok destroyable (owner, tr)" using ok' m unfolding signals_ok_def list_all_iff by blast
    have get: "map_of (sw_trackers ?w) owner = Some tr" using m ok' by (simp add: signals_ok_def)
    obtain ids d where sd: "getSignalData x tr = (ids, d)" by fastforce
    have "owner \<noteq> x"
    proof
      assume o: "owner = x"
      with t x obtain i where "tr_ownerDestroyId tr = Some i" by (auto simp: tracker_ok_def)
      from data_claimed(2) [OF get sd this] none o show False by simp
    qed
    moreover have "\<not> jm_has (tr_map tr) x"
    proof
      assume h: "jm_has (tr_map tr) x"
      then have "map_of (tr_map tr) x = Some (ids, d)" using sd by (auto simp: getSignalData_def)
      from map_of_SomeD [OF this] t x have "d \<noteq> 0" by (auto simp: tracker_ok_def list_all_iff)
      from data_claimed(1) [OF get sd this] none show False by simp
    qed
    ultimately show ?thesis ..
  qed
  have "cn_emitter c \<noteq> x" if c: "c \<in> set (sw_connections ?w)" for c
  proof
    assume cx: "cn_emitter c = x"
    have "(cn_id c, x, UserHandler) \<in> set (all_claims ?w)"
      unfolding claims_conn [OF ok'] using c cx left by (auto simp: conn_claim_def)
    then obtain p where p: "p \<in> set (sw_trackers ?w)" "(cn_id c, x, UserHandler) \<in> set (tracker_claims p)"
      unfolding all_claims_iff by blast
    then have "fst p = x" unfolding tracker_claims_iff data_claims_iff by auto
    with p(1) tr [of "fst p" "snd p", unfolded prod.collapse] show False by blast
  qed
  with tr show ?thesis by (auto simp: list_all_iff)
qed

text \<open>C24: When an object is destroyed, no handler on it and no handler tracked for it is left connected, and no tracker knows it.
\<close>

theorem destroyed_object_forgotten:
  assumes "destroyable x"
  shows "let w = emitDestroy x (fold (sig_step destroyable) es initial_signals)
    in list_all (\<lambda>c. cn_emitter c \<noteq> x) (sw_connections w)
       \<and> list_all (\<lambda>(owner, tr). owner \<noteq> x \<and> \<not> jm_has (tr_map tr) x) (sw_trackers w)"
  by (rule emit_forgets [where destroyable = destroyable, OF sig_run_ok assms])

definition sample_signals :: "signal_event list" where
  "sample_signals =
     [ConnectObject 1 [((''changed'', False), 7), ((''closed'', True), 8)] 2, ConnectObject 2 [((''changed'', False), 9)] 1,
      ConnectObject 3 [((''clicked'', False), 5)] 2, ConnectObject 1 [((''moved'', False), 6)] 3]"

theorem destroyed_object_forgotten_witness:
  "let w0 = fold (sig_step (\<lambda>x. x < 3)) sample_signals initial_signals; w = emitDestroy 2 w0
   in length (sw_connections w0) = 10 \<and> list_all (\<lambda>c. cn_emitter c \<noteq> 2) (sw_connections w) \<and> map cn_handler (user_connections w) = [6]"
proof -
  define w0 where "w0 = fold (sig_step (\<lambda>x. x < 3)) sample_signals initial_signals"
  have "list_all (\<lambda>c. cn_emitter c \<noteq> 2) (sw_connections (emitDestroy 2 w0))"
    using destroyed_object_forgotten [of "\<lambda>x. x < 3" 2 sample_signals] by (simp add: w0_def Let_def)
  moreover have "length (sw_connections w0) = 10" unfolding w0_def by code_simp
  moreover have "map cn_handler (user_connections (emitDestroy 2 w0)) = [6]" unfolding w0_def by code_simp
  ultimately show ?thesis unfolding w0_def [symmetric] Let_def by blast
qed

text \<open>\<open>disconnectObject\<close> disconnects exactly the handlers of the object that are tracked for the other one.
\<close>

theorem disconnectObject_exact:
  "let w = fold (sig_step destroyable) es initial_signals
   in user_connections (disconnectObject owner obj w)
      = [c \<leftarrow> user_connections w. \<not> (cn_emitter c = owner \<and> cn_id c \<in> set (handlers_for owner obj w))]"
  unfolding Let_def by (rule disconnectObject_users [OF sig_run_ok])

subsection \<open>Invalid flags\<close>

text \<open>A call that throws because of the flags of its second signal, 0 here, has connected the first: nobody has that handler on
  record, so neither \<open>disconnectObject\<close> nor the trackers' handlers of \<open>destroy\<close> take it away.\<close>

theorem invalid_flags_leave_handlers:
  "let (ok, w) = connectObjectArgs (\<lambda>x. True) (\<lambda>x. True) 1 [(''changed'', None, 7), (''closed'', Some 0, 8)] 2 initial_signals
   in \<not> ok \<and> map cn_handler (sw_connections w) = [7] \<and> all_claims w = []
    \<and> map cn_handler (sw_connections (disconnectObject 1 2 w)) = [7]
    \<and> map cn_handler (sw_connections (emitDestroy 2 (emitDestroy 1 w))) = [7]"
  by code_simp

end
