(* ===== verification/IconGrid.thy ===== *)
theory IconGrid
  imports Prelude
begin

section \<open>The pages of the icon grid (\<open>IconGridLayout\<close> in \<open>js/ui/iconGrid.js\<close>)\<close>

text \<open>
  The layout manager of the app grid keeps the children of each page and, for each item, the index of its page. A page
  shows \<open>columnsPerPage * rowsPerPage\<close> visible items: what exceeds them moves to the front of the next
  page, and unless incomplete pages are allowed a page with too few is filled from the next. Items are
  numbers. The methods call each other without an obvious end, so they take fuel: a result is \<open>None\<close> when it
  runs out, and otherwise the state with whether the call returned (\<open>True\<close>) or threw (\<open>False\<close>).
\<close>

text \<open>A page that was just appended has no \<open>visibleChildren\<close> yet.\<close>

record grid_page =
  pg_children :: "nat list"
  pg_visible :: "nat list option"

record icon_grid =
  ig_columns :: nat
  ig_rows :: nat
  ig_allowIncomplete :: bool
  ig_pages :: "grid_page list"
  ig_visible :: "nat \<Rightarrow> bool"          \<comment> \<open>\<open>actor.visible\<close>\<close>
  ig_items :: "(nat, int) jsmap"        \<comment> \<open>\<open>pageIndex\<close>\<close>

type_synonym grid_result = "(icon_grid \<times> bool) option"

definition itemsPerPage :: "icon_grid \<Rightarrow> nat" where
  "itemsPerPage s = ig_columns s * ig_rows s"

definition newIconGrid :: "nat \<Rightarrow> nat \<Rightarrow> bool \<Rightarrow> (nat \<Rightarrow> bool) \<Rightarrow> icon_grid" where
  "newIconGrid columns rows allowIncomplete visible =
     \<lparr>ig_columns = columns, ig_rows = rows, ig_allowIncomplete = allowIncomplete, ig_pages = [], ig_visible = visible,
      ig_items = []\<rparr>"

text \<open>\<open>this._pages[p].visibleChildren\<close>: reading its length throws where there is no such page or no such list.\<close>

definition visibleChildren :: "icon_grid \<Rightarrow> int \<Rightarrow> nat list option" where
  "visibleChildren s p = (if p < 0 \<or> p \<ge> int (length (ig_pages s)) then None else pg_visible (ig_pages s ! nat p))"

definition updateVisibleChildrenForPage :: "int \<Rightarrow> icon_grid \<Rightarrow> icon_grid" where
  "updateVisibleChildrenForPage p s =
     s\<lparr>ig_pages := (ig_pages s)[nat p := (ig_pages s ! nat p)
        \<lparr>pg_visible := Some (filter (ig_visible s) (pg_children (ig_pages s ! nat p)))\<rparr>]\<rparr>"

definition unlinkItem :: "nat \<Rightarrow> icon_grid \<Rightarrow> icon_grid" where
  "unlinkItem item s = s\<lparr>ig_items := jm_del (ig_items s) item\<rparr>"

definition removePage :: "int \<Rightarrow> icon_grid \<Rightarrow> icon_grid" where
  "removePage p s =
     (let s1 = fold unlinkItem (pg_children (ig_pages s ! nat p)) s
      in s1\<lparr>ig_items := map (\<lambda>(i, q). (i, if q > p then q - 1 else q)) (ig_items s1),
            ig_pages := take (nat p) (ig_pages s1) @ drop (Suc (nat p)) (ig_pages s1)\<rparr>)"

definition appendPage :: "icon_grid \<Rightarrow> icon_grid" where
  "appendPage s = s\<lparr>ig_pages := ig_pages s @ [\<lparr>pg_children = [], pg_visible = None\<rparr>]\<rparr>"

text \<open>\<open>children.splice(index, 0, item)\<close>; an index beyond the end is the end, a negative one counts from it.\<close>

definition insertAt :: "int \<Rightarrow> 'a \<Rightarrow> 'a list \<Rightarrow> 'a list" where
  "insertAt i x xs = (let k = js_clamp_index (length xs) i in take k xs @ x # drop k xs)"

text \<open>
  \<open>_addItemToPage\<close> up to the relocation: the state and the page the item is on. A page that does not exist is an
  error, before the item is registered when the index is -1 and after it otherwise.
\<close>

definition ensurePages :: "int \<Rightarrow> icon_grid \<Rightarrow> icon_grid" where
  "ensurePages pageIndex s =
     (let s1 = (if ig_pages s = [] then appendPage s else s)
      in if pageIndex = int (length (ig_pages s1)) then appendPage s1 else s1)"

definition placeItem :: "nat \<Rightarrow> int \<Rightarrow> int \<Rightarrow> icon_grid \<Rightarrow> icon_grid \<times> int option" where
  "placeItem item pageIndex index s =
     (let s1 = ensurePages pageIndex s;
          p = (if pageIndex = -1 then int (length (ig_pages s1)) - 1 else pageIndex);
          register = (\<lambda>t. t\<lparr>ig_items := jm_set (ig_items t) item p\<rparr>)
      in if p < 0 \<or> p \<ge> int (length (ig_pages s1))
         then (if index = -1 then s1 else register s1, None)
         else let children = pg_children (ig_pages s1 ! nat p);
                  i = (if index = -1 then int (length children) else index);
                  s2 = register s1
              in (updateVisibleChildrenForPage p
                    (s2\<lparr>ig_pages := (ig_pages s2)[nat p := (ig_pages s2 ! nat p)\<lparr>pg_children := insertAt i item children\<rparr>]\<rparr>),
                  Some p))"

text \<open>\<open>_removeItemData\<close> up to the vacancies.\<close>

definition takeItem :: "nat \<Rightarrow> int \<Rightarrow> icon_grid \<Rightarrow> icon_grid" where
  "takeItem item p s =
     (let children = pg_children (ig_pages s ! nat p);
          s1 = unlinkItem item s;
          s2 = s1\<lparr>ig_pages := (ig_pages s1)[nat p := (ig_pages s1 ! nat p)
                   \<lparr>pg_children := js_splice1 (js_indexOf item children) children\<rparr>]\<rparr>;
          s3 = updateVisibleChildrenForPage p s2
      in if visibleChildren s3 p = Some [] then removePage p s3 else s3)"

subsection \<open>The methods that call each other\<close>

text \<open>One call of each, with the loops over the surplus and the missing items as calls of their own.\<close>

datatype grid_call =
    AddItemToPage nat int int       \<comment> \<open>item, page, index\<close>
  | RelocateSurplusItems int
  | RelocateEach "nat list" int
  | RemoveItemData nat
  | FillItemVacancies int
  | FillEach "nat list" int

text \<open>The statement after a call: not reached when the call throws, or does not end.\<close>

definition and_then :: "grid_result \<Rightarrow> (icon_grid \<Rightarrow> grid_result) \<Rightarrow> grid_result" where
  "and_then r f = (case r of None \<Rightarrow> None | Some (s, ok) \<Rightarrow> if ok then f s else Some (s, False))"

fun gridCall :: "nat \<Rightarrow> grid_call \<Rightarrow> icon_grid \<Rightarrow> grid_result" where
  "gridCall 0 c s = None"
| "gridCall (Suc n) (AddItemToPage item pageIndex index) s =
     (case placeItem item pageIndex index s of
        (s1, None) \<Rightarrow> Some (s1, False)
      | (s1, Some p) \<Rightarrow> gridCall n (RelocateSurplusItems p) s1)"
| "gridCall (Suc n) (RelocateSurplusItems p) s =
     (case visibleChildren s p of
        None \<Rightarrow> Some (s, False)
      | Some vs \<Rightarrow>
          if length vs \<le> itemsPerPage s then Some (s, True)
          else gridCall n (RelocateEach (rev (drop (itemsPerPage s) vs)) p) s)"
| "gridCall (Suc n) (RelocateEach [] p) s = Some (s, True)"
| "gridCall (Suc n) (RelocateEach (x # xs) p) s =
     and_then (gridCall n (RemoveItemData x) s) (\<lambda>s1.
     and_then (gridCall n (AddItemToPage x (p + 1) 0) s1) (\<lambda>s2.
     gridCall n (RelocateEach xs p) s2))"
| "gridCall (Suc n) (RemoveItemData item) s =
     (case jm_get (ig_items s) item of
        None \<Rightarrow> Some (s, False)
      | Some p \<Rightarrow>
          if p < 0 \<or> p \<ge> int (length (ig_pages s)) then Some (s, False)
          else let s1 = takeItem item p s
               in if ig_allowIncomplete s1 then Some (s1, True) else gridCall n (FillItemVacancies p) s1)"
| "gridCall (Suc n) (FillItemVacancies p) s =
     (if p \<ge> int (length (ig_pages s)) - 1 then Some (s, True)
      else case visibleChildren s p of
        None \<Rightarrow> Some (s, False)
      | Some vs \<Rightarrow>
          if length vs = itemsPerPage s then Some (s, True)
          else case visibleChildren s (p + 1) of
            None \<Rightarrow> Some (s, False)
          | Some ws \<Rightarrow> gridCall n (FillEach (take (itemsPerPage s - length vs) ws) p) s)"
| "gridCall (Suc n) (FillEach [] p) s = Some (s, True)"
| "gridCall (Suc n) (FillEach (x # xs) p) s =
     and_then (gridCall n (RemoveItemData x) s) (\<lambda>s1.
     and_then (gridCall n (AddItemToPage x p (-1)) s1) (\<lambda>s2.
     gridCall n (FillEach xs p) s2))"

subsection \<open>The public methods\<close>

text \<open>The loop of \<open>updatePages\<close> looks at the number of pages anew each time.\<close>

fun updatePagesFrom :: "nat \<Rightarrow> int \<Rightarrow> icon_grid \<Rightarrow> grid_result" where
  "updatePagesFrom 0 i s = None"
| "updatePagesFrom (Suc n) i s =
     (if i \<ge> int (length (ig_pages s)) then Some (s, True)
      else and_then (gridCall n (RelocateSurplusItems i) s) (\<lambda>s1. updatePagesFrom n (i + 1) s1))"

definition updatePages :: "nat \<Rightarrow> icon_grid \<Rightarrow> grid_result" where
  "updatePages fuel s = updatePagesFrom fuel 0 s"

fun firstWithRoom :: "nat \<Rightarrow> int \<Rightarrow> int \<Rightarrow> grid_page list \<Rightarrow> int option" where
  "firstWithRoom n len i [] = Some len"
| "firstWithRoom n len i (pg # pgs) =
     (case pg_visible pg of
        None \<Rightarrow> None
      | Some vs \<Rightarrow> if length vs < n then Some i else firstWithRoom n len (i + 1) pgs)"

definition findBestPageToAppend :: "int \<Rightarrow> icon_grid \<Rightarrow> int option" where
  "findBestPageToAppend startPage s =
     (if startPage < 0 then None
      else firstWithRoom (itemsPerPage s) (int (length (ig_pages s))) startPage (drop (nat startPage) (ig_pages s)))"

definition choosePage :: "int \<Rightarrow> int \<Rightarrow> icon_grid \<Rightarrow> int option" where
  "choosePage page index s = (if page \<noteq> -1 \<and> index = -1 then findBestPageToAppend page s else Some page)"

text \<open>The grid has a container. An item that is there already, or a page beyond the next one, is an error.\<close>

definition gridAddItem :: "nat \<Rightarrow> nat \<Rightarrow> int \<Rightarrow> int \<Rightarrow> icon_grid \<Rightarrow> grid_result" where
  "gridAddItem fuel item page index s =
     (if jm_has (ig_items s) item then Some (s, False)
      else if page > int (length (ig_pages s)) then Some (s, False)
      else case choosePage page index s of
        None \<Rightarrow> Some (s, False)
      | Some p \<Rightarrow> gridCall fuel (AddItemToPage item p index) s)"

definition appendItem :: "nat \<Rightarrow> nat \<Rightarrow> icon_grid \<Rightarrow> grid_result" where
  "appendItem fuel item s = gridAddItem fuel item (-1) (-1) s"

definition moveItem :: "nat \<Rightarrow> nat \<Rightarrow> int \<Rightarrow> int \<Rightarrow> icon_grid \<Rightarrow> grid_result" where
  "moveItem fuel item newPage newPosition s =
     (if \<not> jm_has (ig_items s) item then Some (s, False)
      else and_then (gridCall fuel (RemoveItemData item) s) (\<lambda>s1.
        case choosePage newPage newPosition s1 of
          None \<Rightarrow> Some (s1, False)
        | Some p \<Rightarrow> gridCall fuel (AddItemToPage item p newPosition) s1))"

definition removeItem :: "nat \<Rightarrow> nat \<Rightarrow> icon_grid \<Rightarrow> grid_result" where
  "removeItem fuel item s =
     (if \<not> jm_has (ig_items s) item then Some (s, False) else gridCall fuel (RemoveItemData item) s)"

text \<open>An item is shown or hidden; the handler is only connected while it is in the grid.\<close>

definition setVisible :: "nat \<Rightarrow> nat \<Rightarrow> bool \<Rightarrow> icon_grid \<Rightarrow> grid_result" where
  "setVisible fuel item v s =
     (let s1 = s\<lparr>ig_visible := (ig_visible s)(item := v)\<rparr>
      in if ig_visible s item = v then Some (s, True)
         else case jm_get (ig_items s1) item of
                None \<Rightarrow> Some (s1, True)
              | Some p \<Rightarrow>
                  if p < 0 \<or> p \<ge> int (length (ig_pages s1)) then Some (s1, False)
                  else let s2 = updateVisibleChildrenForPage p s1
                       in if v then gridCall fuel (RelocateSurplusItems p) s2
                          else if \<not> ig_allowIncomplete s2 then gridCall fuel (FillItemVacancies p) s2
                          else Some (s2, True))"

definition getItemsAtPage :: "int \<Rightarrow> icon_grid \<Rightarrow> nat list option" where
  "getItemsAtPage p s =
     (if p < 0 \<or> p \<ge> int (length (ig_pages s)) then None else Some (pg_children (ig_pages s ! nat p)))"

text \<open>The page of an item exists and its visible children are known, or the call throws.\<close>

definition getItemPosition :: "nat \<Rightarrow> icon_grid \<Rightarrow> (int \<times> int) option" where
  "getItemPosition item s =
     (case jm_get (ig_items s) item of
        None \<Rightarrow> Some (-1, -1)
      | Some p \<Rightarrow> map_option (\<lambda>vs. (p, js_indexOf item vs)) (visibleChildren s p))"

definition getItemAt :: "int \<Rightarrow> int \<Rightarrow> icon_grid \<Rightarrow> nat option" where
  "getItemAt page position s =
     (case visibleChildren s page of
        None \<Rightarrow> None
      | Some vs \<Rightarrow> if position < 0 \<or> position \<ge> int (length vs) then None else Some (vs ! nat position))"

definition getItemPage :: "nat \<Rightarrow> icon_grid \<Rightarrow> int" where
  "getItemPage item s = (case jm_get (ig_items s) item of None \<Rightarrow> -1 | Some p \<Rightarrow> p)"

subsection \<open>The mode of the grid (class \<open>IconGrid\<close>)\<close>

text \<open>
  \<open>_findBestModeForSize\<close>: the mode, as columns and rows, whose ratio is the closest to that of the size; the
  first of several. The ratio so far is infinity at first. The padding is taken off the size, and its height is not 0.
\<close>

fun closestMode :: "real \<Rightarrow> real option \<Rightarrow> int \<Rightarrow> nat \<Rightarrow> (nat \<times> nat) list \<Rightarrow> int" where
  "closestMode sizeRatio closest best i [] = best"
| "closestMode sizeRatio closest best i ((columns, rows) # modes) =
     (let modeRatio = real columns / real rows
      in if (case closest of None \<Rightarrow> True | Some r \<Rightarrow> \<bar>sizeRatio - modeRatio\<bar> < \<bar>sizeRatio - r\<bar>)
         then closestMode sizeRatio (Some modeRatio) (int i) (Suc i) modes
         else closestMode sizeRatio closest best (Suc i) modes)"

definition findBestModeForSize :: "(nat \<times> nat) list \<Rightarrow> real \<Rightarrow> real \<Rightarrow> int" where
  "findBestModeForSize modes width height = closestMode (width / height) None (-1) 0 modes"

definition setGridMode :: "nat \<Rightarrow> (nat \<times> nat) list \<Rightarrow> int \<Rightarrow> int \<Rightarrow> icon_grid \<Rightarrow> grid_result" where
  "setGridMode fuel modes currentMode modeIndex s =
     (if currentMode = modeIndex then Some (s, True)
      else updatePages fuel
             (if modeIndex \<noteq> -1
              then s\<lparr>ig_rows := snd (modes ! nat modeIndex), ig_columns := fst (modes ! nat modeIndex)\<rparr> else s))"

end
