(* ===== verification/IconGridProps.thy ===== *)
theory IconGridProps
  imports IconGrid
begin

section \<open>The icon grid: which items are on which page\<close>

text \<open>
  The items of a grid are a list of pages. The first part relates the state to it; the map of the items is
  determined by the pages (\<open>located\<close>). Then the calls that do not end by themselves are shown to end (\<open>ends\<close>), with
  rules that hide the fuel, and what surplus and vacancies do to the list of pages follows by induction on
  the number of items on the pages concerned.
\<close>

subsection \<open>The page an item is on\<close>

fun page_of :: "nat list list \<Rightarrow> nat \<Rightarrow> int option" where
  "page_of [] x = None"
| "page_of (pg # pgs) x = (if x \<in> set pg then Some 0 else map_option (\<lambda>p. p + 1) (page_of pgs x))"

lemma page_of_append:
  "page_of (as @ bs) x
   = (case page_of as x of Some p \<Rightarrow> Some p | None \<Rightarrow> map_option (\<lambda>p. p + int (length as)) (page_of bs x))"
  by (induction as) (auto simp: option.map_comp comp_def algebra_simps option.map_ident split: option.splits)

lemma page_of_None: "page_of pgs x = None \<longleftrightarrow> x \<notin> set (concat pgs)"
  by (induction pgs) auto

lemma page_of_notin: "x \<notin> set (concat pgs) \<Longrightarrow> page_of pgs x = None"
  using page_of_None by blast

lemma page_of_range: "page_of pgs x = Some p \<Longrightarrow> 0 \<le> p \<and> p < int (length pgs)"
  by (induction pgs arbitrary: p) (auto split: if_splits)

lemma page_of_split:
  assumes "page_of pgs x = Some p"
  obtains pre pg post where "pgs = pre @ pg # post" and "p = int (length pre)" and "x \<in> set pg" and "x \<notin> set (concat pre)"
proof -
  have "\<exists>pre pg post. pgs = pre @ pg # post \<and> p = int (length pre) \<and> x \<in> set pg \<and> x \<notin> set (concat pre)"
    using assms
  proof (induction pgs arbitrary: p)
    case (Cons q qs)
    show ?case
    proof (cases "x \<in> set q")
      case True
      with Cons.prems show ?thesis by (intro exI [of _ "[]"] exI [of _ q] exI [of _ qs]) simp
    next
      case False
      with Cons.prems obtain p' where "page_of qs x = Some p'" and p: "p = p' + 1" by auto
      with Cons.IH obtain pre pg post where "qs = pre @ pg # post \<and> p' = int (length pre) \<and> x \<in> set pg \<and> x \<notin> set (concat pre)"
        by blast
      with p False show ?thesis by (intro exI [of _ "q # pre"] exI [of _ pg] exI [of _ post]) auto
    qed
  qed simp
  then show ?thesis using that by blast
qed

definition located :: "nat list list \<Rightarrow> (nat, int) jsmap \<Rightarrow> bool" where
  "located pgs items = (distinct (concat pgs) \<and> map_of items = page_of pgs)"

lemma located_get: "located pgs items \<Longrightarrow> map_of items x = page_of pgs x"
  by (simp add: located_def)

lemma located_middle:
  "located (pre @ pg # post) items \<Longrightarrow> x \<in> set pg \<Longrightarrow> map_of items x = Some (int (length pre))"
proof -
  assume l: "located (pre @ pg # post) items" and x: "x \<in> set pg"
  then have "x \<notin> set (concat pre)" by (auto simp: located_def)
  with l x show ?thesis by (simp add: located_get page_of_append page_of_notin)
qed

lemma located_remove:
  assumes "located (pre @ pg # post) items" and "x \<in> set pg"
  shows "located (pre @ remove1 x pg # post) (jm_del items x)"
proof -
  have d: "distinct (concat pre @ pg @ concat post)" using assms(1) by (simp add: located_def)
  then have s: "set (remove1 x pg) = set pg - {x}" by simp
  have "map_of (jm_del items x) y = page_of (pre @ remove1 x pg # post) y" for y
  proof (cases "y = x")
    case True
    with d assms(2) have "x \<notin> set (concat (pre @ remove1 x pg # post))" by (auto simp: s)
    with True show ?thesis by (simp add: page_of_notin del: concat_append set_concat)
  next
    case False
    then have "page_of (pre @ remove1 x pg # post) y = page_of (pre @ pg # post) y"
      by (simp add: page_of_append s split: option.split)
    with False assms(1) show ?thesis by (simp add: located_get)
  qed
  moreover have "distinct (concat (pre @ remove1 x pg # post))" using d by (auto simp: s)
  ultimately show ?thesis by (auto simp: located_def)
qed

lemma map_of_fold_del: "map_of (fold (\<lambda>x m. jm_del m x) xs m) y = (if y \<in> set xs then None else map_of m y)"
  by (induction xs arbitrary: m) auto

lemma located_removePage:
  assumes "located (pre @ pg # post) items" and p: "p = int (length pre)"
  shows "located (pre @ post) (map (\<lambda>(i, q). (i, if q > p then q - 1 else q)) (fold (\<lambda>x m. jm_del m x) pg items))"
proof -
  have d: "distinct (concat pre @ pg @ concat post)" using assms(1) by (simp add: located_def)
  have "map_of (map (\<lambda>(i, q). (i, if q > p then q - 1 else q)) (fold (\<lambda>x m. jm_del m x) pg items)) y = page_of (pre @ post) y" for y
  proof -
    have "map_option (\<lambda>q. if q > p then q - 1 else q) (if y \<in> set pg then None else page_of (pre @ pg # post) y) = page_of (pre @ post) y"
    proof (cases "y \<in> set pg")
      case True
      with d have "y \<notin> set (concat (pre @ post))" by auto
      with True show ?thesis by (simp add: page_of_notin del: concat_append set_concat)
    next
      case False
      show ?thesis
      proof (cases "page_of pre y")
        case None
        with False show ?thesis
          by (cases "page_of post y") (auto simp: page_of_append p dest: page_of_range)
      next
        case (Some a)
        with False show ?thesis by (auto simp: page_of_append p dest: page_of_range)
      qed
    qed
    then show ?thesis using located_get [OF assms(1), of y] by (simp only: map_of_map comp_def map_of_fold_del split: if_split)
  qed
  with d show ?thesis by (auto simp: located_def)
qed

lemma located_insert:
  assumes "located (pre @ pg # post) items" and "x \<notin> set (concat (pre @ pg # post))"
    and s: "set pg' = insert x (set pg)" and d': "distinct pg'"
  shows "located (pre @ pg' # post) (jm_set items x (int (length pre)))"
proof -
  have d: "distinct (concat pre @ pg @ concat post)" using assms(1) by (simp add: located_def)
  with d' assms(2) s have "distinct (concat (pre @ pg' # post))" by auto
  moreover have "map_of (jm_set items x (int (length pre))) y = page_of (pre @ pg' # post) y" for y
  proof (cases "y = x")
    case True
    with assms(2) page_of_None [of pre x] show ?thesis by (auto simp: page_of_append s split: option.splits)
  next
    case False
    with assms(1) show ?thesis by (simp add: located_get page_of_append s split: option.split)
  qed
  ultimately show ?thesis by (auto simp: located_def)
qed

lemma located_page_Nil: "located (pgs @ [[]]) items = located pgs items"
proof -
  have "page_of (pgs @ [[]]) = page_of pgs" by (rule ext) (simp add: page_of_append split: option.splits)
  then show ?thesis by (simp add: located_def)
qed

subsection \<open>States that hold pages of items\<close>

text \<open>What no call changes.\<close>

definition same_grid :: "icon_grid \<Rightarrow> icon_grid \<Rightarrow> bool" where
  "same_grid s t = (ig_columns t = ig_columns s \<and> ig_rows t = ig_rows s \<and> ig_allowIncomplete t = ig_allowIncomplete s
     \<and> ig_visible t = ig_visible s)"

lemma same_grid_refl [simp]: "same_grid s s"
  by (simp add: same_grid_def)

lemma same_grid_trans [trans]: "same_grid s t \<Longrightarrow> same_grid t u \<Longrightarrow> same_grid s u"
  by (simp add: same_grid_def)

lemma same_itemsPerPage: "same_grid s t \<Longrightarrow> itemsPerPage t = itemsPerPage s"
  by (simp add: same_grid_def itemsPerPage_def)

definition shown_page :: "(nat \<Rightarrow> bool) \<Rightarrow> nat list \<Rightarrow> grid_page" where
  "shown_page v pg = \<lparr>pg_children = pg, pg_visible = Some (filter v pg)\<rparr>"

lemma shown_page_sel [simp]: "pg_children (shown_page v pg) = pg" "pg_visible (shown_page v pg) = Some (filter v pg)"
  by (simp_all add: shown_page_def)

text \<open>The pages of a state in which every item that is in the grid is visible.\<close>

definition holds :: "icon_grid \<Rightarrow> nat list list \<Rightarrow> bool" where
  "holds s pgs = (ig_pages s = map (shown_page (ig_visible s)) pgs \<and> located pgs (ig_items s)
     \<and> (\<forall>x\<in>set (concat pgs). ig_visible s x))"

lemma holds_new: "holds (newIconGrid c r a v) []"
  by (auto simp: holds_def newIconGrid_def located_def)

lemma holds_distinct: "holds s pgs \<Longrightarrow> distinct (concat pgs)"
  by (simp add: holds_def located_def)

lemma holds_length: "holds s pgs \<Longrightarrow> length (ig_pages s) = length pgs"
  by (simp add: holds_def)

lemma holds_get: "holds s pgs \<Longrightarrow> map_of (ig_items s) x = page_of pgs x"
  by (simp add: holds_def located_get)

lemma holds_has: "holds s pgs \<Longrightarrow> jm_has (ig_items s) x \<longleftrightarrow> x \<in> set (concat pgs)"
  by (simp only: holds_get page_of_None not_not)

lemma filter_visible: "(\<forall>x\<in>set xs. v x) \<Longrightarrow> filter v xs = xs"
  by (rule filter_True) blast

lemma holds_visibleChildren:
  assumes "holds s (pre @ pg # post)" and "p = int (length pre)"
  shows "visibleChildren s p = Some pg"
  using assms by (auto simp: holds_def visibleChildren_def nth_append filter_visible)

lemma unlink_fold: "fold unlinkItem xs s = s\<lparr>ig_items := fold (\<lambda>x m. jm_del m x) xs (ig_items s)\<rparr>"
  by (induction xs arbitrary: s) (simp_all add: unlinkItem_def)

lemma takeItem_at:
  assumes "ig_pages s = pre @ pg # post" and "p = int (length pre)" and "x \<in> set (pg_children pg)"
  shows "takeItem x p s =
    (let rest = remove1 x (pg_children pg); items = jm_del (ig_items s) x
     in if filter (ig_visible s) rest = []
        then s\<lparr>ig_pages := pre @ post,
               ig_items := map (\<lambda>(i, q). (i, if q > p then q - 1 else q)) (fold (\<lambda>x m. jm_del m x) rest items)\<rparr>
        else s\<lparr>ig_pages := pre @ shown_page (ig_visible s) rest # post, ig_items := items\<rparr>)"
  using assms
  by (simp add: takeItem_def Let_def unlinkItem_def updateVisibleChildrenForPage_def visibleChildren_def removePage_def
      unlink_fold nth_append js_splice1_indexOf shown_page_def)

lemma takeItem_holds:
  assumes h: "holds s (pre @ pg # post)" and p: "p = int (length pre)" and x: "x \<in> set pg"
  shows "holds (takeItem x p s) (pre @ (if remove1 x pg = [] then post else remove1 x pg # post))"
    and "same_grid s (takeItem x p s)"
proof -
  have l: "located (pre @ pg # post) (ig_items s)" using h by (simp add: holds_def)
  have vis: "\<forall>y\<in>set (remove1 x pg). ig_visible s y" using h set_remove1_subset [of x pg] by (auto simp: holds_def)
  let ?v = "shown_page (ig_visible s)"
  have "ig_pages s = map ?v pre @ ?v pg # map ?v post" using h by (simp add: holds_def)
  from takeItem_at [OF this, of p x] p x
  have t: "takeItem x p s =
    (if remove1 x pg = []
     then s\<lparr>ig_pages := map ?v (pre @ post), ig_items := map (\<lambda>(i, q). (i, if q > p then q - 1 else q)) (jm_del (ig_items s) x)\<rparr>
     else s\<lparr>ig_pages := map ?v (pre @ remove1 x pg # post), ig_items := jm_del (ig_items s) x\<rparr>)"
    by (simp add: Let_def filter_visible [OF vis])
  then show "same_grid s (takeItem x p s)" by (simp add: same_grid_def)
  note rem = located_remove [OF l x]
  show "holds (takeItem x p s) (pre @ (if remove1 x pg = [] then post else remove1 x pg # post))"
  proof (cases "remove1 x pg = []")
    case True
    with located_removePage [OF rem p] t h show ?thesis by (auto simp: holds_def)
  next
    case False
    with rem t h vis show ?thesis by (auto simp: holds_def)
  qed
qed

lemma insertAt_set [simp]: "set (insertAt i x xs) = insert x (set xs)"
  by (auto simp: insertAt_def Let_def dest: in_set_takeD in_set_dropD) (metis Un_iff append_take_drop_id set_append)

lemma insertAt_distinct: "distinct xs \<Longrightarrow> x \<notin> set xs \<Longrightarrow> distinct (insertAt i x xs)"
  by (auto simp: insertAt_def Let_def set_take_disj_set_drop_if_distinct dest: in_set_takeD in_set_dropD)

lemma insertAt_0 [simp]: "insertAt 0 x xs = x # xs"
  by (simp add: insertAt_def js_clamp_index_def)

lemma insertAt_end [simp]: "insertAt (int (length xs)) x xs = xs @ [x]"
  by (simp add: insertAt_def js_clamp_index_def)

lemma insertAt_length [simp]: "length (insertAt i x xs) = Suc (length xs)"
  by (simp add: insertAt_def Let_def)

lemma placeItem_holds:
  assumes h: "holds s (pre @ pg # post)" and p: "p = int (length pre)" and x: "x \<notin> set (concat (pre @ pg # post))" "ig_visible s x"
    and i: "j = (if i = -1 then int (length pg) else i)" and q: "q = p \<or> (q = -1 \<and> post = [])"
  obtains s' where "placeItem x q i s = (s', Some p)" and "holds s' (pre @ insertAt j x pg # post)" and "same_grid s s'"
proof -
  let ?v = "shown_page (ig_visible s)"
  have pages: "ig_pages s = map ?v pre @ ?v pg # map ?v post" using h by (simp add: holds_def)
  have e: "ensurePages q s = s" using q p by (auto simp: ensurePages_def pages Let_def)
  define s' where "s' = s\<lparr>ig_items := jm_set (ig_items s) x p, ig_pages := map ?v (pre @ insertAt j x pg # post)\<rparr>"
  have "placeItem x q i s = (s', Some p)"
    using q
  proof
    assume "q = p"
    with p show ?thesis unfolding placeItem_def Let_def e
      by (simp add: updateVisibleChildrenForPage_def pages nth_append list_update_append s'_def i shown_page_def)
  next
    assume "q = -1 \<and> post = []"
    with p show ?thesis unfolding placeItem_def Let_def e
      by (simp add: updateVisibleChildrenForPage_def pages nth_append list_update_append s'_def i shown_page_def)
  qed
  moreover have "located (pre @ insertAt j x pg # post) (ig_items s')"
  proof -
    have l: "located (pre @ pg # post) (ig_items s)" and "distinct pg" using h by (simp_all add: holds_def located_def)
    with x(1) have "distinct (insertAt j x pg)" by (intro insertAt_distinct) auto
    from located_insert [OF l x(1) insertAt_set this] show ?thesis by (simp add: s'_def p)
  qed
  then have "holds s' (pre @ insertAt j x pg # post)" using h x(2) by (auto simp: holds_def s'_def)
  ultimately show ?thesis using that by (simp add: s'_def same_grid_def)
qed

lemma placeItem_new_page:
  assumes h: "holds s pre" and x: "x \<notin> set (concat pre)" "ig_visible s x"
    and p: "p = int (length pre)" and q: "q = p \<or> (q = -1 \<and> pre = [])" and i: "i = 0 \<or> i = -1"
  obtains s' where "placeItem x q i s = (s', Some p)" and "holds s' (pre @ [[x]])" and "same_grid s s'"
proof -
  let ?v = "shown_page (ig_visible s)"
  have pages: "ig_pages s = map ?v pre" using h by (simp add: holds_def)
  have e: "ensurePages q s = appendPage s" using q p by (auto simp: ensurePages_def pages Let_def appendPage_def)
  define s' where "s' = s\<lparr>ig_items := jm_set (ig_items s) x p, ig_pages := map ?v (pre @ [[x]])\<rparr>"
  have "placeItem x q i s = (s', Some p)"
  proof -
    note defs = appendPage_def updateVisibleChildrenForPage_def pages nth_append list_update_append s'_def
        shown_page_def insertAt_def js_clamp_index_def
    show ?thesis
    proof (cases "q = p")
      case True
      with p i x(2) show ?thesis unfolding placeItem_def Let_def e by (elim disjE) (simp_all add: defs)
    next
      case False
      with q have "q = -1" "pre = []" by auto
      with p i x(2) show ?thesis unfolding placeItem_def Let_def e by (elim disjE) (simp_all add: defs)
    qed
  qed
  moreover have "located (pre @ [[x]]) (ig_items s')"
    using located_insert [of pre "[]" "[]" "ig_items s" x "[x]"] h x(1) p by (simp add: s'_def holds_def located_page_Nil)
  then have "holds s' (pre @ [[x]])" using h x(2) by (auto simp: holds_def s'_def)
  ultimately show ?thesis using that by (simp add: s'_def same_grid_def)
qed

subsection \<open>Calls that end\<close>

definition ends :: "grid_call \<Rightarrow> icon_grid \<Rightarrow> icon_grid \<Rightarrow> bool" where
  "ends c s s' = (\<exists>n. gridCall n c s = Some (s', True))"

lemma and_then_Some: "and_then r f = Some q \<Longrightarrow> \<exists>s ok. r = Some (s, ok) \<and> (if ok then f s = Some q else q = (s, False))"
  by (auto simp: and_then_def split: option.splits prod.splits if_splits)

lemma and_then_ok [simp]: "and_then (Some (s, True)) f = f s"
  by (simp add: and_then_def)

lemma and_then_mono:
  assumes "and_then r f = Some q" and "\<And>q. r = Some q \<Longrightarrow> r' = Some q" and "\<And>s q. f s = Some q \<Longrightarrow> g s = Some q"
  shows "and_then r' g = Some q"
proof -
  from and_then_Some [OF assms(1)] obtain s ok where r: "r = Some (s, ok)" and q: "if ok then f s = Some q else q = (s, False)"
    by blast
  from assms(2) [OF r] q assms(3) show ?thesis by (cases ok) (simp_all add: and_then_def)
qed

lemma gridCall_mono1: "gridCall n c s = Some q \<Longrightarrow> gridCall (Suc n) c s = Some q"
proof (induction n c s arbitrary: q rule: gridCall.induct)
  case (1 c s)
  then show ?case by simp
next
  case (2 n item pageIndex index s)
  from 2(2) [unfolded gridCall.simps] 2(1) show ?case
    by (subst gridCall.simps) (cases q; auto simp del: gridCall.simps split: prod.splits option.splits)
next
  case (3 n p s)
  from 3(2) [unfolded gridCall.simps] 3(1) show ?case
    by (subst gridCall.simps) (cases q; auto simp del: gridCall.simps split: option.splits if_splits)
next
  case (4 n p s)
  then show ?case by simp
next
  case (5 n x xs p s)
  from 5(4) [unfolded gridCall.simps] show ?case
    by (subst gridCall.simps) (erule and_then_mono, (erule 5(1)), erule and_then_mono, (erule 5(2)), (erule 5(3)))
next
  case (6 n item s)
  from 6(2) [unfolded gridCall.simps] 6(1) show ?case
    by (subst gridCall.simps) (cases q; auto simp: Let_def simp del: gridCall.simps split: option.splits if_splits)
next
  case (7 n p s)
  from 7(2) [unfolded gridCall.simps] 7(1) show ?case
    by (subst gridCall.simps) (cases q; auto simp del: gridCall.simps split: option.splits if_splits)
next
  case (8 n p s)
  then show ?case by simp
next
  case (9 n x xs p s)
  from 9(4) [unfolded gridCall.simps] show ?case
    by (subst gridCall.simps) (erule and_then_mono, (erule 9(1)), erule and_then_mono, (erule 9(2)), (erule 9(3)))
qed

lemma gridCall_mono: "gridCall n c s = Some q \<Longrightarrow> n \<le> m \<Longrightarrow> gridCall m c s = Some q"
proof (induction m)
  case (Suc m)
  then show ?case by (cases "n = Suc m") (simp_all add: gridCall_mono1)
qed simp

lemma ends_from:
  assumes "ends c s s'"
  obtains n where "\<And>m. n \<le> m \<Longrightarrow> gridCall m c s = Some (s', True)"
  using assms gridCall_mono unfolding ends_def by blast

lemma endsI: "gridCall (Suc n) c s = Some (s', True) \<Longrightarrow> ends c s s'"
  unfolding ends_def by blast

lemma ends_Add: "placeItem x q i s = (s1, Some p) \<Longrightarrow> ends (RelocateSurplusItems p) s1 s' \<Longrightarrow> ends (AddItemToPage x q i) s s'"
  unfolding ends_def by (elim exE) (rule_tac x = "Suc n" in exI, simp)

lemma ends_Relocate_fits:
  "visibleChildren s p = Some vs \<Longrightarrow> length vs \<le> itemsPerPage s \<Longrightarrow> ends (RelocateSurplusItems p) s s"
  by (rule endsI) simp

lemma ends_Relocate:
  "visibleChildren s p = Some vs \<Longrightarrow> itemsPerPage s < length vs
     \<Longrightarrow> ends (RelocateEach (rev (drop (itemsPerPage s) vs)) p) s s' \<Longrightarrow> ends (RelocateSurplusItems p) s s'"
  unfolding ends_def by (elim exE) (rule_tac x = "Suc n" in exI, simp)

lemma ends_RelocateEach_Nil: "ends (RelocateEach [] p) s s"
  by (rule endsI) simp

lemma ends_RelocateEach_Cons:
  assumes "ends (RemoveItemData x) s s1" and "ends (AddItemToPage x (p + 1) 0) s1 s2" and "ends (RelocateEach xs p) s2 s3"
  shows "ends (RelocateEach (x # xs) p) s s3"
proof -
  obtain n1 n2 n3 where
    "\<And>m. n1 \<le> m \<Longrightarrow> gridCall m (RemoveItemData x) s = Some (s1, True)"
    "\<And>m. n2 \<le> m \<Longrightarrow> gridCall m (AddItemToPage x (p + 1) 0) s1 = Some (s2, True)"
    "\<And>m. n3 \<le> m \<Longrightarrow> gridCall m (RelocateEach xs p) s2 = Some (s3, True)"
    using assms by (metis ends_from)
  then have "gridCall (Suc (n1 + n2 + n3)) (RelocateEach (x # xs) p) s = Some (s3, True)" by simp
  then show ?thesis by (rule endsI)
qed

lemma ends_Remove:
  assumes "map_of (ig_items s) x = Some p" and "0 \<le> p" and "p < int (length (ig_pages s))"
    and "if ig_allowIncomplete (takeItem x p s) then s' = takeItem x p s else ends (FillItemVacancies p) (takeItem x p s) s'"
  shows "ends (RemoveItemData x) s s'"
proof (cases "ig_allowIncomplete (takeItem x p s)")
  case True
  with assms show ?thesis by (intro endsI) (simp add: Let_def)
next
  case False
  with assms(4) obtain n where "gridCall n (FillItemVacancies p) (takeItem x p s) = Some (s', True)" by (auto simp: ends_def)
  with assms(1-3) False show ?thesis by (intro endsI [of n]) (simp add: Let_def)
qed

lemma ends_Fill_last: "p \<ge> int (length (ig_pages s)) - 1 \<Longrightarrow> ends (FillItemVacancies p) s s"
  by (rule endsI) simp

lemma ends_Fill_full:
  "visibleChildren s p = Some vs \<Longrightarrow> length vs = itemsPerPage s \<Longrightarrow> ends (FillItemVacancies p) s s"
  by (rule endsI) simp

lemma ends_Fill:
  assumes "p < int (length (ig_pages s)) - 1" and "visibleChildren s p = Some vs" and "length vs \<noteq> itemsPerPage s"
    and "visibleChildren s (p + 1) = Some ws" and "ends (FillEach (take (itemsPerPage s - length vs) ws) p) s s'"
  shows "ends (FillItemVacancies p) s s'"
proof -
  obtain n where "gridCall n (FillEach (take (itemsPerPage s - length vs) ws) p) s = Some (s', True)"
    using assms(5) by (auto simp: ends_def)
  with assms(1-4) show ?thesis by (intro endsI [of n]) simp
qed

lemma ends_FillEach_Nil: "ends (FillEach [] p) s s"
  by (rule endsI) simp

lemma ends_FillEach_Cons:
  assumes "ends (RemoveItemData x) s s1" and "ends (AddItemToPage x p (-1)) s1 s2" and "ends (FillEach xs p) s2 s3"
  shows "ends (FillEach (x # xs) p) s s3"
proof -
  obtain n1 n2 n3 where
    "\<And>m. n1 \<le> m \<Longrightarrow> gridCall m (RemoveItemData x) s = Some (s1, True)"
    "\<And>m. n2 \<le> m \<Longrightarrow> gridCall m (AddItemToPage x p (-1)) s1 = Some (s2, True)"
    "\<And>m. n3 \<le> m \<Longrightarrow> gridCall m (FillEach xs p) s2 = Some (s3, True)"
    using assms by (metis ends_from)
  then have "gridCall (Suc (n1 + n2 + n3)) (FillEach (x # xs) p) s = Some (s3, True)" by simp
  then show ?thesis by (rule endsI)
qed

end
