(* ===== verification/IconGridPages.thy ===== *)
theory IconGridPages
  imports IconGridProps
begin

section \<open>The icon grid: surplus and vacancies\<close>

text \<open>
  What relocating the surplus of a page and filling the vacancies of a page do to the list of pages, for grids whose
  items are visible: they end, keep the order of the items, and leave pages that are not too full. Two predicates
  describe the list of pages: \<open>fits\<close> (no page has too many items) and \<open>tight\<close> (only the last page may have
  room, and no page is empty); both together determine the pages from the items in order.
\<close>

definition fits :: "nat \<Rightarrow> nat list list \<Rightarrow> bool" where
  "fits n pgs = list_all (\<lambda>pg. length pg \<le> n) pgs"

fun tight :: "nat \<Rightarrow> nat list list \<Rightarrow> bool" where
  "tight n [] = True"
| "tight n (pg # pgs) = (pg \<noteq> [] \<and> (pgs = [] \<or> n \<le> length pg) \<and> tight n pgs)"

text \<open>The items in order, \<open>n\<close> to a page.\<close>

fun chunks :: "nat \<Rightarrow> 'a list \<Rightarrow> 'a list list" where
  "chunks n xs = (if xs = [] \<or> n = 0 then [] else take n xs # chunks n (drop n xs))"

declare chunks.simps [simp del]

lemma chunks_Nil [simp]: "chunks n [] = []"
  by (simp add: chunks.simps)

lemma chunks_page: "length pg = n \<Longrightarrow> pg \<noteq> [] \<Longrightarrow> chunks n (pg @ xs) = pg # chunks n xs"
  by (cases n; subst chunks.simps) auto

lemma chunks_short: "length pg \<le> n \<Longrightarrow> pg \<noteq> [] \<Longrightarrow> chunks n pg = [pg]"
  by (cases n; subst chunks.simps) auto

lemma concat_chunks: "0 < n \<Longrightarrow> concat (chunks n xs) = xs"
  by (induction n xs rule: chunks.induct) (subst chunks.simps, auto)

lemma tight_fits_chunks: "tight n pgs \<Longrightarrow> fits n pgs \<Longrightarrow> pgs = chunks n (concat pgs)"
proof (induction pgs)
  case (Cons pg pgs)
  show ?case
  proof (cases "pgs = []")
    case True
    with Cons.prems show ?thesis by (simp add: fits_def chunks_short)
  next
    case False
    with Cons.prems have "length pg = n" "pg \<noteq> []" by (auto simp: fits_def)
    with Cons show ?thesis by (simp add: chunks_page fits_def)
  qed
qed simp

lemma chunks_tight: "0 < n \<Longrightarrow> tight n (chunks n xs) \<and> fits n (chunks n xs)"
proof (induction n xs rule: chunks.induct)
  case (1 n xs)
  show ?case
  proof (cases "xs = []")
    case False
    with 1 have "tight n (chunks n (drop n xs)) \<and> fits n (chunks n (drop n xs))" by simp
    moreover have "chunks n (drop n xs) = [] \<or> n \<le> length (take n xs)"
      by (subst chunks.simps) (auto simp: min_def)
    ultimately show ?thesis using False 1(2) by (subst (1 2) chunks.simps) (simp add: fits_def)
  qed (simp add: fits_def)
qed

subsection \<open>Surplus\<close>

text \<open>A page that is full has no vacancies.\<close>

lemma fill_full:
  assumes h: "holds s (pre @ pg # post)" and p: "p = int (length pre)" and n: "itemsPerPage s \<le> length pg"
  shows "ends (FillItemVacancies p) s s"
proof (cases post)
  case Nil
  with p holds_length [OF h] show ?thesis by (intro ends_Fill_last) simp
next
  case (Cons q qs)
  note vis = holds_visibleChildren [OF h p]
  show ?thesis
  proof (cases "length pg = itemsPerPage s")
    case True
    with vis show ?thesis by (rule ends_Fill_full)
  next
    case False
    have "visibleChildren s (p + 1) = Some q"
      using holds_visibleChildren [of s "pre @ [pg]" q qs "p + 1"] h p Cons by simp
    moreover have "p < int (length (ig_pages s)) - 1" using p holds_length [OF h] Cons by simp
    ultimately show ?thesis using False vis n by (intro ends_Fill) (auto intro: ends_FillEach_Nil)
  qed
qed

text \<open>The last item of a page that has too many is taken off it.\<close>

lemma remove_surplus:
  assumes h: "holds s (pre @ (zs @ [y]) # post)" and n: "itemsPerPage s \<le> length zs" "0 < itemsPerPage s"
  obtains s' where "ends (RemoveItemData y) s s'" and "holds s' (pre @ zs # post)" and "same_grid s s'"
proof -
  define p where "p = int (length pre)"
  have y: "y \<notin> set zs" "y \<notin> set (concat pre)" using holds_distinct [OF h] by auto
  then have rem: "remove1 y (zs @ [y]) = zs" by (simp add: remove1_append)
  have "zs \<noteq> []" using n by auto
  with takeItem_holds [OF h p_def, of y] rem
  have t: "holds (takeItem y p s) (pre @ zs # post)" "same_grid s (takeItem y p s)" by simp_all
  have get: "map_of (ig_items s) y = Some p" using h y(2) by (simp add: holds_get page_of_append page_of_notin p_def)
  have "ends (FillItemVacancies p) (takeItem y p s) (takeItem y p s)"
    using fill_full [OF t(1) p_def] n same_itemsPerPage [OF t(2)] by simp
  then have "ends (RemoveItemData y) s (takeItem y p s)"
    using holds_length [OF h] by (intro ends_Remove [OF get]) (simp_all add: p_def)
  with t that show ?thesis by blast
qed

text \<open>What relocating the surplus of the first page makes of some pages.\<close>

definition spilled :: "nat \<Rightarrow> nat list list \<Rightarrow> nat list list \<Rightarrow> bool" where
  "spilled n pgs ps = (concat ps = concat pgs \<and> [] \<notin> set ps \<and> ps \<noteq> [] \<and> length (hd ps) \<le> n
     \<and> (fits n (tl pgs) \<longrightarrow> fits n ps) \<and> (tight n pgs \<longrightarrow> tight n ps))"

definition relocates :: "nat \<Rightarrow> bool" where
  "relocates t = (\<forall>s pre pg rest. holds s (pre @ pg # rest) \<longrightarrow> [] \<notin> set (pg # rest) \<longrightarrow> 0 < itemsPerPage s
     \<longrightarrow> length (pg @ concat rest) \<le> t
     \<longrightarrow> (\<exists>s' ps. ends (RelocateSurplusItems (int (length pre))) s s' \<and> holds s' (pre @ ps) \<and> same_grid s s'
          \<and> spilled (itemsPerPage s) (pg # rest) ps))"

lemma relocatesE:
  assumes "relocates t" and "holds s (pre @ pg # rest)" "[] \<notin> set (pg # rest)" "0 < itemsPerPage s" "length (pg @ concat rest) \<le> t"
    and "p = int (length pre)"
  obtains s' ps where "ends (RelocateSurplusItems p) s s'" and "holds s' (pre @ ps)" and "same_grid s s'"
    and "spilled (itemsPerPage s) (pg # rest) ps"
  using assms unfolding relocates_def by metis

text \<open>An item is put in front of the pages from \<open>p\<close> on.\<close>

definition pushed :: "nat \<Rightarrow> nat list list \<Rightarrow> nat list list" where
  "pushed y rest = (case rest of [] \<Rightarrow> [[y]] | q # qs \<Rightarrow> (y # q) # qs)"

lemma pushed_facts [simp]: "concat (pushed y rest) = y # concat rest" "tl (pushed y rest) = tl rest" "pushed y rest \<noteq> []"
  "[] \<notin> set rest \<Longrightarrow> [] \<notin> set (pushed y rest)"
  by (auto simp: pushed_def split: list.splits)

lemma pushed_tight: "tight n rest \<Longrightarrow> tight n (pushed y rest)"
  by (auto simp: pushed_def split: list.splits)

lemma add_in_front:
  assumes rel: "relocates t" and h: "holds s (pre @ rest)" and ne: "[] \<notin> set rest" and n: "0 < itemsPerPage s"
    and y: "y \<notin> set (concat (pre @ rest))" "ig_visible s y" and t: "Suc (length (concat rest)) \<le> t"
    and p: "p = int (length pre)"
  obtains s' ps where "ends (AddItemToPage y p 0) s s'" and "holds s' (pre @ ps)" and "same_grid s s'"
    and "spilled (itemsPerPage s) (pushed y rest) ps"
proof -
  obtain s1 where s1: "placeItem y p 0 s = (s1, Some p)" "holds s1 (pre @ pushed y rest)" "same_grid s s1"
  proof (cases rest)
    case Nil
    show ?thesis
      by (rule placeItem_new_page [of s pre y p p 0]) (use h y p Nil that in \<open>simp_all add: pushed_def\<close>)
  next
    case (Cons q qs)
    show ?thesis
      by (rule placeItem_holds [of s pre q qs p y 0 0 p]) (use h y p Cons that in \<open>simp_all add: pushed_def\<close>)
  qed
  obtain q qs where front: "pushed y rest = q # qs" by (cases "pushed y rest") auto
  have "length (q @ concat qs) = Suc (length (concat rest))" using arg_cong [OF front, of "\<lambda>x. length (concat x)"] by simp
  with s1 ne n t front same_itemsPerPage [OF s1(3)] obtain s2 ps where
    "ends (RelocateSurplusItems p) s1 s2" "holds s2 (pre @ ps)" "same_grid s1 s2" "spilled (itemsPerPage s) (q # qs) ps"
    using relocatesE [OF rel, of s1 pre q qs p] p by (metis pushed_facts(4))
  with s1 that front show ?thesis by (metis ends_Add same_grid_trans)
qed

lemma relocate_each:
  assumes rel: "relocates t"
  shows "holds s (pre @ (zs @ ys) # rest) \<Longrightarrow> [] \<notin> set rest \<Longrightarrow> length zs = itemsPerPage s \<Longrightarrow> 0 < itemsPerPage s
    \<Longrightarrow> length (ys @ concat rest) \<le> t \<Longrightarrow> p = int (length pre)
    \<Longrightarrow> \<exists>s' ps. ends (RelocateEach (rev ys) p) s s' \<and> holds s' (pre @ zs # ps) \<and> same_grid s s'
        \<and> concat ps = ys @ concat rest \<and> [] \<notin> set ps \<and> (fits (itemsPerPage s) rest \<longrightarrow> fits (itemsPerPage s) ps)
        \<and> (tight (itemsPerPage s) ((zs @ ys) # rest) \<longrightarrow> tight (itemsPerPage s) (zs # ps))"
proof (induction ys arbitrary: s rest rule: rev_induct)
  case Nil
  then show ?case by (intro exI [of _ s] exI [of _ rest]) (auto intro: ends_RelocateEach_Nil)
next
  case (snoc y ys)
  define n where "n = itemsPerPage s"
  from remove_surplus [of s pre "zs @ ys" y rest] snoc.prems obtain s1 where
    s1: "ends (RemoveItemData y) s s1" "holds s1 (pre @ (zs @ ys) # rest)" "same_grid s s1" by auto
  have y: "y \<notin> set (concat ((pre @ [zs @ ys]) @ rest))" "ig_visible s1 y"
    using holds_distinct [OF snoc.prems(1)] snoc.prems(1) s1(3) by (auto simp: holds_def same_grid_def)
  have n1: "itemsPerPage s1 = n" using s1(3) by (simp add: n_def same_itemsPerPage)
  have "holds s1 ((pre @ [zs @ ys]) @ rest)" using s1(2) by simp
  moreover have "Suc (length (concat rest)) \<le> t" using snoc.prems(5) by simp
  moreover have "p + 1 = int (length (pre @ [zs @ ys]))" using snoc.prems(6) by simp
  ultimately obtain s2 ps1 where s2: "ends (AddItemToPage y (p + 1) 0) s1 s2" "holds s2 (pre @ (zs @ ys) # ps1)" "same_grid s1 s2"
    and sp: "spilled n (pushed y rest) ps1"
    using add_in_front [OF rel, of s1 "pre @ [zs @ ys]" rest y "p + 1"] snoc.prems(2,4) y n1 unfolding n_def by (metis append.assoc append_Cons append_Nil)
  have n2: "itemsPerPage s2 = n" using s2(3) n1 by (simp add: same_itemsPerPage)
  from sp have ps1: "concat ps1 = y # concat rest" "[] \<notin> set ps1" by (simp_all add: spilled_def)
  have len: "length zs = n" "0 < n" "length (ys @ concat ps1) \<le> t" using snoc.prems(3-5) ps1(1) by (simp_all add: n_def)
  from snoc.IH [OF s2(2) ps1(2)] len n2 snoc.prems(6) obtain s' ps where
    s': "ends (RelocateEach (rev ys) p) s2 s'" "holds s' (pre @ zs # ps)" "same_grid s2 s'"
    and ps: "concat ps = ys @ concat ps1" "[] \<notin> set ps" "fits n ps1 \<longrightarrow> fits n ps"
      "tight n ((zs @ ys) # ps1) \<longrightarrow> tight n (zs # ps)" by auto
  have "ends (RelocateEach (rev (ys @ [y])) p) s s'"
    using ends_RelocateEach_Cons [OF s1(1) s2(1) s'(1)] by simp
  moreover have "same_grid s s'" using s1(3) s2(3) s'(3) by (metis same_grid_trans)
  moreover have "fits n rest \<longrightarrow> fits n ps" using sp ps(3) by (cases rest) (auto simp: spilled_def fits_def)
  moreover have "tight n ((zs @ ys @ [y]) # rest) \<longrightarrow> tight n (zs # ps)"
    using sp ps(4) len(1,2) pushed_tight [of n rest y] by (auto simp: spilled_def)
  ultimately show ?case using s'(2) ps(1,2) ps1(1) by (intro exI [of _ s'] exI [of _ ps]) (simp add: n_def)
qed

lemma relocates_all: "relocates t"
proof (induction t rule: less_induct)
  case (less t)
  show ?case unfolding relocates_def
  proof (intro allI impI)
    fix s pre pg rest
    assume h: "holds s (pre @ pg # rest)" and ne: "[] \<notin> set (pg # rest)" and n: "0 < itemsPerPage s"
      and t: "length (pg @ concat rest) \<le> t"
    define p where "p = int (length pre)"
    define n where "n = itemsPerPage s"
    note vis = holds_visibleChildren [OF h p_def]
    show "\<exists>s' ps. ends (RelocateSurplusItems (int (length pre))) s s' \<and> holds s' (pre @ ps) \<and> same_grid s s'
          \<and> spilled (itemsPerPage s) (pg # rest) ps"
    proof (cases "length pg \<le> n")
      case True
      with ends_Relocate_fits [OF vis] have "ends (RelocateSurplusItems p) s s" by (simp add: n_def)
      with True h ne show ?thesis
        by (intro exI [of _ s] exI [of _ "pg # rest"]) (simp add: p_def spilled_def fits_def n_def)
    next
      case False
      have pg: "(take n pg @ drop n pg) = pg" by simp
      have "relocates (length (drop n pg @ concat rest))" using False n t by (intro less.IH) (simp add: n_def)
      from relocate_each [OF this, of s pre "take n pg" "drop n pg" rest p] h ne n False obtain s' ps where
        s': "ends (RelocateEach (rev (drop n pg)) p) s s'" "holds s' (pre @ take n pg # ps)" "same_grid s s'"
        and ps: "concat ps = drop n pg @ concat rest" "[] \<notin> set ps" "fits n rest \<longrightarrow> fits n ps"
          "tight n (pg # rest) \<longrightarrow> tight n (take n pg # ps)"
        unfolding pg by (auto simp: n_def p_def)
      have "ends (RelocateSurplusItems p) s s'" using vis False s'(1) by (intro ends_Relocate [OF vis]) (simp_all add: n_def)
      moreover have "spilled n (pg # rest) (take n pg # ps)"
        using ps n False by (auto simp: spilled_def fits_def n_def simp flip: append_assoc)
      ultimately show ?thesis using s'(2,3) unfolding p_def n_def by blast
    qed
  qed
qed

lemmas relocate = relocatesE [OF relocates_all _ _ _ order_refl]

lemmas add_front = add_in_front [OF relocates_all _ _ _ _ _ order_refl]

subsection \<open>Vacancies\<close>

lemma chunks_full_pages:
  "list_all (\<lambda>q. length q = n) pre \<Longrightarrow> 0 < n \<Longrightarrow> chunks n (concat pre @ xs) = pre @ chunks n xs"
proof (induction pre)
  case (Cons q pre)
  then have "chunks n (q @ concat pre @ xs) = q # pre @ chunks n xs" by (subst chunks_page) auto
  then show ?case by simp
qed simp

text \<open>An item leaves a grid without incomplete pages: the items behind it move up.\<close>

lemma remove_packed:
  "holds s (pre @ pg # ps) \<Longrightarrow> x \<in> set pg \<Longrightarrow> tight n (pg # ps) \<Longrightarrow> fits n (pg # ps) \<Longrightarrow> n = itemsPerPage s \<Longrightarrow> 0 < n
    \<Longrightarrow> \<not> ig_allowIncomplete s
    \<Longrightarrow> \<exists>s'. ends (RemoveItemData x) s s' \<and> holds s' (pre @ chunks n (remove1 x pg @ concat ps)) \<and> same_grid s s'"
proof (induction ps arbitrary: s pre pg x)
  case Nil
  define p where "p = int (length pre)"
  define t where "t = takeItem x p s"
  note h = Nil.prems(1) and x = Nil.prems(2)
  have t: "holds t (pre @ (if remove1 x pg = [] then [] else [remove1 x pg]))" "same_grid s t"
    using takeItem_holds [OF h p_def x] by (simp_all add: t_def)
  have get: "map_of (ig_items s) x = Some p" using located_middle h x by (auto simp: holds_def p_def)
  have "ends (FillItemVacancies p) t t" using holds_length [OF t(1)] by (intro ends_Fill_last) (auto simp: p_def)
  with t(2) Nil.prems(7) holds_length [OF h] have "ends (RemoveItemData x) s t"
    by (intro ends_Remove [OF get]) (simp_all add: p_def t_def same_grid_def)
  moreover have "length (remove1 x pg) \<le> n" using Nil.prems(4) by (simp add: fits_def length_remove1 x)
  then have "chunks n (remove1 x pg) = (if remove1 x pg = [] then [] else [remove1 x pg])" by (simp add: chunks_short)
  ultimately show ?case using t by (intro exI [of _ t]) simp
next
  case (Cons q qs)
  define p where "p = int (length pre)"
  define t where "t = takeItem x p s"
  define pg' where "pg' = remove1 x pg"
  note h = Cons.prems(1) and x = Cons.prems(2)
  have t: "holds t (pre @ (if pg' = [] then q # qs else pg' # q # qs))" "same_grid s t"
    unfolding t_def pg'_def by (fact takeItem_holds [OF h p_def x])+
  have nt: "itemsPerPage t = n" "\<not> ig_allowIncomplete t" using same_itemsPerPage [OF t(2)] t(2) Cons.prems(5,7) by (simp_all add: same_grid_def)
  have get: "map_of (ig_items s) x = Some p" using located_middle h x by (auto simp: holds_def p_def)
  have rem: "ends (RemoveItemData x) s s'" if "ends (FillItemVacancies p) t s'" for s'
    using that nt(2) holds_length [OF h] by (intro ends_Remove [OF get]) (simp_all add: p_def t_def)
  have pg: "length pg' = n - 1" using Cons.prems(3,4) x by (auto simp: pg'_def length_remove1 fits_def)
  have rest: "tight n (q # qs)" "fits n (q # qs)" using Cons.prems(3,4) by (auto simp: fits_def)
  show ?case
  proof (cases "pg' = []")
    case True
    have "n \<le> length q" using rest(1) pg Cons.prems(6) True by (cases q) auto
    with t True have "ends (FillItemVacancies p) t t"
      using fill_full [of t pre q qs p] nt(1) by (simp add: p_def)
    moreover have "chunks n (q @ concat qs) = q # qs" using tight_fits_chunks [OF rest] by simp
    ultimately show ?thesis using True t rem by (intro exI [of _ t]) (simp add: pg'_def)
  next
    case False
    obtain y q' where q: "q = y # q'" using rest(1) by (cases q) auto
    from t(1) False have "holds t ((pre @ [pg']) @ q # qs)" by simp
    from Cons.IH [OF this _ rest, of y] q nt Cons.prems(6) obtain s2 where
      s2: "ends (RemoveItemData y) t s2" "holds s2 (pre @ pg' # chunks n (q' @ concat qs))" "same_grid t s2" by auto
    have y: "y \<notin> set (concat (pre @ pg' # chunks n (q' @ concat qs)))" "ig_visible s2 y"
      using holds_distinct [OF t(1)] False q Cons.prems(6) t(1) s2(3)
      by (auto simp: concat_chunks holds_def same_grid_def simp flip: set_concat)
    obtain s3 where s3: "placeItem y p (-1) s2 = (s3, Some p)" "holds s3 (pre @ (pg' @ [y]) # chunks n (q' @ concat qs))" "same_grid s2 s3"
      by (rule placeItem_holds [OF s2(2) p_def y refl, where q = p and i = "-1"]) simp_all
    have ipp: "itemsPerPage s3 = n" using s3(3) s2(3) nt(1) by (simp add: same_itemsPerPage)
    have "ends (RelocateSurplusItems p) s3 s3"
      using ends_Relocate_fits [OF holds_visibleChildren [OF s3(2) p_def]] ipp pg Cons.prems(6) by simp
    then have "ends (FillEach [y] p) t s3"
      using s2(1) s3(1) by (blast intro: ends_FillEach_Cons ends_FillEach_Nil ends_Add)
    moreover have "visibleChildren t p = Some pg'" using t(1) False holds_visibleChildren [of t pre pg' "q # qs" p] by (simp add: p_def)
    moreover have "visibleChildren t (p + 1) = Some q"
      using t(1) False holds_visibleChildren [of t "pre @ [pg']" q qs "p + 1"] by (simp add: p_def)
    moreover have "p < int (length (ig_pages t)) - 1" using holds_length [OF t(1)] False by (simp add: p_def)
    ultimately have "ends (FillItemVacancies p) t s3"
      using pg Cons.prems(6) nt(1) q by (intro ends_Fill [of p t pg' q]) auto
    moreover have "chunks n (pg' @ q @ concat qs) = (pg' @ [y]) # chunks n (q' @ concat qs)"
      using chunks_page [of "pg' @ [y]" n "q' @ concat qs"] pg q Cons.prems(6) by simp
    moreover have "same_grid s s3" using t(2) s2(3) s3(3) by (metis same_grid_trans)
    ultimately show ?thesis using rem s3(2) by (intro exI [of _ s3]) (simp add: pg'_def)
  qed
qed

lemma tight_append: "tight n (as @ bs) \<Longrightarrow> bs \<noteq> [] \<Longrightarrow> list_all (\<lambda>q. n \<le> length q) as \<and> tight n bs"
  by (induction as) auto

lemma fits_append [simp]: "fits n (as @ bs) = (fits n as \<and> fits n bs)"
  by (simp add: fits_def)

lemma tight_fits_full:
  assumes "tight n (as @ bs)" and "fits n as" and "bs \<noteq> []"
  shows "list_all (\<lambda>q. length q = n) as"
  using tight_append [OF assms(1,3)] assms(2) by (auto simp: list_all_iff fits_def intro: le_antisym)

lemma drop_chunks:
  "m * n \<le> length xs \<Longrightarrow> 0 < n \<Longrightarrow>
     list_all (\<lambda>q. length q = n) (take m (chunks n xs)) \<and> concat (take m (chunks n xs)) = take (m * n) xs
     \<and> drop m (chunks n xs) = chunks n (drop (m * n) xs) \<and> m \<le> length (chunks n xs)"
proof (induction m arbitrary: xs)
  case (Suc m)
  then have ne: "xs \<noteq> []" and len: "n \<le> length xs" by auto
  from ne Suc.prems(2) have c: "chunks n xs = take n xs # chunks n (drop n xs)" by (subst chunks.simps) simp
  have "take (Suc m * n) xs = take n xs @ take (m * n) (drop n xs)" using take_add [of n "m * n" xs] by simp
  with Suc.IH [of "drop n xs"] Suc.prems len show ?case
    by (simp add: c min_def add.commute [of n])
qed simp

end
