(* ===== verification/IconGridRefine.thy ===== *)
theory IconGridRefine
  imports IconGridPages
begin

section \<open>The icon grid against a list of items\<close>

subsection \<open>A grid without incomplete pages is a list\<close>

text \<open>The operations on the list of all items in order, and which of them make sense.\<close>

datatype list_op =
    Append nat
  | InsertItem nat nat       \<comment> \<open>item, position among all\<close>
  | RemoveItem nat
  | MoveItem nat nat

definition list_insert :: "nat \<Rightarrow> nat \<Rightarrow> nat list \<Rightarrow> nat list" where
  "list_insert x k xs = take k xs @ x # drop k xs"

fun list_step :: "list_op \<Rightarrow> nat list \<Rightarrow> nat list" where
  "list_step (Append x) xs = xs @ [x]"
| "list_step (InsertItem x k) xs = list_insert x k xs"
| "list_step (RemoveItem x) xs = remove1 x xs"
| "list_step (MoveItem x k) xs = list_insert x k (remove1 x xs)"

fun valid_op :: "nat list \<Rightarrow> list_op \<Rightarrow> bool" where
  "valid_op xs (Append x) = (x \<notin> set xs)"
| "valid_op xs (InsertItem x k) = (x \<notin> set xs \<and> k \<le> length xs)"
| "valid_op xs (RemoveItem x) = (x \<in> set xs)"
| "valid_op xs (MoveItem x k) = (x \<in> set xs \<and> k < length xs)"

fun valid_ops :: "nat list \<Rightarrow> list_op list \<Rightarrow> bool" where
  "valid_ops xs [] = True"
| "valid_ops xs (op # ops) = (valid_op xs op \<and> valid_ops (list_step op xs) ops)"

text \<open>The same on the grid: a position is a page and a position on it.\<close>

fun grid_op :: "nat \<Rightarrow> list_op \<Rightarrow> icon_grid \<Rightarrow> grid_result" where
  "grid_op fuel (Append x) s = appendItem fuel x s"
| "grid_op fuel (InsertItem x k) s = gridAddItem fuel x (int (k div itemsPerPage s)) (int (k mod itemsPerPage s)) s"
| "grid_op fuel (RemoveItem x) s = removeItem fuel x s"
| "grid_op fuel (MoveItem x k) s = moveItem fuel x (int (k div itemsPerPage s)) (int (k mod itemsPerPage s)) s"

fun grid_run :: "nat \<Rightarrow> list_op list \<Rightarrow> icon_grid \<Rightarrow> grid_result" where
  "grid_run fuel [] s = Some (s, True)"
| "grid_run fuel (op # ops) s = and_then (grid_op fuel op s) (grid_run fuel ops)"

definition packed :: "icon_grid \<Rightarrow> nat list \<Rightarrow> bool" where
  "packed s xs = (holds s (chunks (itemsPerPage s) xs) \<and> 0 < itemsPerPage s \<and> \<not> ig_allowIncomplete s \<and> (\<forall>x. ig_visible s x))"

lemma packed_same:
  assumes "packed s xs" and "same_grid s t" and "holds t (chunks (itemsPerPage s) ys)"
  shows "packed t ys"
  using assms same_itemsPerPage [OF assms(2)] by (simp add: packed_def same_grid_def)

lemma packed_set: "packed s xs \<Longrightarrow> jm_has (ig_items s) x \<longleftrightarrow> x \<in> set xs"
  using holds_has [of s "chunks (itemsPerPage s) xs" x] concat_chunks [of "itemsPerPage s" xs] by (simp add: packed_def del: set_concat)

lemma ends_removePacked:
  assumes "packed s xs" and "x \<in> set xs"
  obtains s' where "ends (RemoveItemData x) s s'" and "packed s' (remove1 x xs)" and "same_grid s s'"
proof -
  define n where "n = itemsPerPage s"
  have n: "0 < n" and h: "holds s (chunks n xs)" and inc: "\<not> ig_allowIncomplete s" using assms(1) by (simp_all add: packed_def n_def)
  have "page_of (chunks n xs) x \<noteq> None" using assms(2) n by (simp only: page_of_None concat_chunks) simp
  then obtain pre pg post where c: "chunks n xs = pre @ pg # post" and x: "x \<in> set pg" "x \<notin> set (concat pre)"
    by (metis not_None_eq page_of_split)
  have tf: "tight n (pre @ pg # post)" "fits n (pre @ pg # post)" using chunks_tight [OF n, of xs] by (simp_all add: c)
  with tight_fits_full [of n pre "pg # post"] tight_append [of n pre "pg # post"]
  have pre: "list_all (\<lambda>q. length q = n) pre" and post: "tight n (pg # post)" "fits n (pg # post)" by simp_all
  from remove_packed [of s pre pg post x n] h c x(1) post n inc obtain s' where
    s': "ends (RemoveItemData x) s s'" "holds s' (pre @ chunks n (remove1 x pg @ concat post))" "same_grid s s'"
    by (auto simp: n_def)
  have "xs = concat pre @ pg @ concat post" using arg_cong [OF c, of concat] n by (simp add: concat_chunks)
  with x have "remove1 x xs = concat pre @ remove1 x pg @ concat post" by (auto simp: remove1_append)
  with s'(2) chunks_full_pages [OF pre n] have "holds s' (chunks n (remove1 x xs))" by simp
  with s'(1,3) that packed_same [OF assms(1) s'(3)] show ?thesis by (simp add: n_def)
qed

text \<open>A page that got an item spills over to the next ones.\<close>

lemma ends_addPacked:
  assumes pk: "packed s xs" and x: "x \<notin> set xs" and pages: "chunks (itemsPerPage s) xs = pre @ rest"
    and full: "list_all (\<lambda>q. length q = itemsPerPage s) pre"
    and at: "(rest = [] \<and> i \<in> {0, -1} \<and> (q = int (length pre) \<or> (q = -1 \<and> pre = [])) \<and> pg' = [x])
      \<or> (\<exists>pg post. rest = pg # post \<and> (q = int (length pre) \<or> (q = -1 \<and> post = []))
           \<and> pg' = insertAt (if i = -1 then int (length pg) else i) x pg)"
  obtains s' where "ends (AddItemToPage x q i) s s'" and "packed s' (concat pre @ pg' @ concat (tl rest))" and "same_grid s s'"
proof -
  define n where "n = itemsPerPage s"
  define p where "p = int (length pre)"
  have n: "0 < n" and h: "holds s (pre @ rest)" and v: "ig_visible s x" using pk pages by (simp_all add: packed_def n_def)
  have "concat (pre @ rest) = xs" using concat_chunks [OF n, of xs] pages by (simp add: n_def)
  with x have nx: "x \<notin> set (concat (pre @ rest))" by metis
  have tf: "tight n (pre @ rest)" "fits n (pre @ rest)" using chunks_tight [OF n, of xs] pages by (simp_all add: n_def)
  obtain s1 where s1: "placeItem x q i s = (s1, Some p)" "holds s1 (pre @ pg' # tl rest)" "same_grid s s1"
  proof (cases rest)
    case Nil
    with at h nx v that placeItem_new_page [of s pre x p q i] show ?thesis by (auto simp: p_def)
  next
    case (Cons pg post)
    with at have "q = p \<or> (q = -1 \<and> post = [])" and pg': "pg' = insertAt (if i = -1 then int (length pg) else i) x pg"
      by (auto simp: p_def)
    with Cons h nx v that placeItem_holds [OF _ p_def _ _ refl, of s pg post x q i] show ?thesis by auto
  qed
  have n1: "itemsPerPage s1 = n" using s1(3) by (simp add: same_itemsPerPage n_def)
  have rest: "tight n (pg' # tl rest)" "fits n (tl rest)" "[] \<notin> set (pg' # tl rest)"
  proof -
    have "tight n rest" using tight_append [OF tf(1)] by (cases "rest = []") simp_all
    moreover have "insertAt j x q \<noteq> []" for j and q :: "nat list" by (metis insertAt_length length_0_conv nat.distinct(1))
    ultimately have "tight n (pg' # tl rest)" using at by (cases rest) auto
    moreover have "[] \<notin> set ps" if "tight n ps" for ps using that by (induction ps) auto
    ultimately show "tight n (pg' # tl rest)" and "[] \<notin> set (pg' # tl rest)" by blast+
    show "fits n (tl rest)" using tf(2) by (cases rest) (auto simp: fits_def)
  qed
  from relocate [OF s1(2) rest(3) _ p_def] n n1 obtain s2 ps where
    s2: "ends (RelocateSurplusItems p) s1 s2" "holds s2 (pre @ ps)" "same_grid s1 s2" "spilled n (pg' # tl rest) ps" by auto
  then have "ps = chunks n (pg' @ concat (tl rest))"
    using rest(1,2) tight_fits_chunks [of n ps] by (auto simp: spilled_def)
  with s2(2) chunks_full_pages [OF full [folded n_def] n] have "holds s2 (chunks n (concat pre @ pg' @ concat (tl rest)))" by simp
  then have "packed s2 (concat pre @ pg' @ concat (tl rest))"
    using packed_same [OF pk] s1(3) s2(3) same_grid_trans by (metis n_def)
  with ends_Add [OF s1(1) s2(1)] that same_grid_trans [OF s1(3) s2(3)] show ?thesis by blast
qed

lemma ends_insertPacked:
  assumes pk: "packed s xs" and x: "x \<notin> set xs" and k: "k \<le> length xs"
  obtains s' where "ends (AddItemToPage x (int (k div itemsPerPage s)) (int (k mod itemsPerPage s))) s s'"
    and "packed s' (list_insert x k xs)" and "same_grid s s'"
proof -
  define n where "n = itemsPerPage s"
  define m where "m = k div n"
  define i where "i = k mod n"
  have n: "0 < n" using pk by (simp add: packed_def n_def)
  have km: "k = m * n + i" "i < n" using n by (simp_all add: m_def i_def)
  have "m * n \<le> length xs" using k km(1) by simp
  note d = drop_chunks [OF this n]
  define pre where "pre = take m (chunks n xs)"
  define rest where "rest = drop m (chunks n xs)"
  have pages: "chunks n xs = pre @ rest" unfolding pre_def rest_def by simp
  have len: "length pre = m" and full: "list_all (\<lambda>q. length q = n) pre"
    using d by (simp_all add: pre_def)
  have xs: "xs = concat pre @ concat rest" using concat_chunks [OF n, of xs] by (simp add: pages)
  have "concat pre = take (m * n) xs" using d by (simp add: pre_def)
  then have cp: "length (concat pre) = m * n" using \<open>m * n \<le> length xs\<close> by simp
  define pg' where "pg' = (case rest of [] \<Rightarrow> [x] | pg # post \<Rightarrow> insertAt (int i) x pg)"
  have res: "concat pre @ pg' @ concat (tl rest) = list_insert x k xs"
    and at: "(rest = [] \<and> int i \<in> {0, -1} \<and> (int m = int (length pre) \<or> (int m = -1 \<and> pre = [])) \<and> pg' = [x])
      \<or> (\<exists>pg post. rest = pg # post \<and> (int m = int (length pre) \<or> (int m = -1 \<and> post = []))
           \<and> pg' = insertAt (if int i = -1 then int (length pg) else int i) x pg)"
  proof (atomize (full), cases rest)
    case Nil
    with xs cp k km(1) have "i = 0" by simp
    with Nil xs cp km(1) len show "concat pre @ pg' @ concat (tl rest) = list_insert x k xs \<and> (rest = [] \<and> int i \<in> {0, -1}
      \<and> (int m = int (length pre) \<or> (int m = -1 \<and> pre = [])) \<and> pg' = [x] \<or> (\<exists>pg post. rest = pg # post
      \<and> (int m = int (length pre) \<or> (int m = -1 \<and> post = [])) \<and> pg' = insertAt (if int i = -1 then int (length pg) else int i) x pg))"
      by (simp add: pg'_def list_insert_def)
  next
    case (Cons pg post)
    have "i \<le> length pg"
    proof (cases "post = []")
      case True
      with Cons xs cp k km(1) show ?thesis by simp
    next
      case False
      have "tight n (pre @ rest)" using chunks_tight [OF n, of xs] by (simp add: pages)
      with tight_append [of n pre rest] Cons False km(2) show ?thesis by simp
    qed
    with Cons xs cp km(1) len show "concat pre @ pg' @ concat (tl rest) = list_insert x k xs \<and> (rest = [] \<and> int i \<in> {0, -1}
      \<and> (int m = int (length pre) \<or> (int m = -1 \<and> pre = [])) \<and> pg' = [x] \<or> (\<exists>pg post. rest = pg # post
      \<and> (int m = int (length pre) \<or> (int m = -1 \<and> post = [])) \<and> pg' = insertAt (if int i = -1 then int (length pg) else int i) x pg))"
      by (simp add: pg'_def list_insert_def insertAt_def js_clamp_index_def min_absorb2)
  qed
  from ends_addPacked [OF pk x pages [unfolded n_def] full [unfolded n_def] at] res that show ?thesis
    by (simp add: m_def i_def n_def) metis
qed

lemma ends_appendPacked:
  assumes pk: "packed s xs" and x: "x \<notin> set xs"
  obtains s' where "ends (AddItemToPage x (-1) (-1)) s s'" and "packed s' (xs @ [x])" and "same_grid s s'"
proof (cases "chunks (itemsPerPage s) xs" rule: rev_cases)
  case Nil
  have "xs = []" using concat_chunks [of "itemsPerPage s" xs] Nil pk by (simp add: packed_def)
  with that ends_addPacked [OF pk x, of "[]" "[]" "-1" "-1" "[x]"] Nil show ?thesis by auto
next
  case (snoc pre pg)
  have n: "0 < itemsPerPage s" using pk by (simp add: packed_def)
  have "xs = concat pre @ pg" using concat_chunks [OF n, of xs] by (simp add: snoc)
  moreover have "list_all (\<lambda>q. length q = itemsPerPage s) pre"
    using tight_fits_full [of "itemsPerPage s" pre "[pg]"] chunks_tight [OF n, of xs] by (simp add: snoc)
  ultimately show ?thesis
    using that ends_addPacked [OF pk x snoc, of "-1" "-1" "pg @ [x]"] by auto
qed

text \<open>Every operation that makes sense returns, and does to the items in order what it does to the list.\<close>

lemma grid_op_packed:
  assumes pk: "packed s xs" and v: "valid_op xs op"
  shows "\<exists>n s'. (\<forall>m\<ge>n. grid_op m op s = Some (s', True)) \<and> packed s' (list_step op xs) \<and> itemsPerPage s' = itemsPerPage s"
proof (cases op)
  case (Append x)
  with v have x: "x \<notin> set xs" by simp
  from ends_appendPacked [OF pk x] obtain s' where e: "ends (AddItemToPage x (-1) (-1)) s s'" and s': "packed s' (xs @ [x])"
    and same: "same_grid s s'" by blast
  from ends_from [OF e] obtain n where "\<And>m. n \<le> m \<Longrightarrow> gridCall m (AddItemToPage x (-1) (-1)) s = Some (s', True)" by blast
  then have "\<forall>m\<ge>n. grid_op m op s = Some (s', True)"
    using Append x packed_set [OF pk, of x] by (simp add: appendItem_def gridAddItem_def choosePage_def)
  with s' Append same_itemsPerPage [OF same] show ?thesis by auto
next
  case (InsertItem x k)
  define p i where "p = int (k div itemsPerPage s)" and "i = int (k mod itemsPerPage s)"
  from InsertItem v have x: "x \<notin> set xs" "k \<le> length xs" by simp_all
  from ends_insertPacked [OF pk x] obtain s' where e: "ends (AddItemToPage x p i) s s'" and s': "packed s' (list_insert x k xs)"
    and same: "same_grid s s'" by (auto simp: p_def i_def)
  have "k div itemsPerPage s * itemsPerPage s \<le> length xs" using x(2) by (meson div_times_less_eq_dividend le_trans)
  then have "p \<le> int (length (ig_pages s))"
    using drop_chunks [of "k div itemsPerPage s" "itemsPerPage s" xs] pk holds_length [of s "chunks (itemsPerPage s) xs"]
    by (simp add: packed_def p_def)
  moreover from ends_from [OF e] obtain n where "\<And>m. n \<le> m \<Longrightarrow> gridCall m (AddItemToPage x p i) s = Some (s', True)" by blast
  ultimately have "\<forall>m\<ge>n. grid_op m op s = Some (s', True)"
    using InsertItem x packed_set [OF pk, of x] by (simp add: gridAddItem_def choosePage_def flip: p_def i_def) (simp add: i_def)
  with s' InsertItem same_itemsPerPage [OF same] show ?thesis by auto
next
  case (RemoveItem x)
  with v have x: "x \<in> set xs" by simp
  from ends_removePacked [OF pk x] obtain s' where e: "ends (RemoveItemData x) s s'" and s': "packed s' (remove1 x xs)"
    and same: "same_grid s s'" by blast
  from ends_from [OF e] obtain n where "\<And>m. n \<le> m \<Longrightarrow> gridCall m (RemoveItemData x) s = Some (s', True)" by blast
  then have "\<forall>m\<ge>n. grid_op m op s = Some (s', True)"
    using RemoveItem x packed_set [OF pk, of x] by (auto simp: removeItem_def)
  with s' RemoveItem same_itemsPerPage [OF same] show ?thesis by auto
next
  case (MoveItem x k)
  with v have x: "x \<in> set xs" "k < length xs" by simp_all
  from ends_removePacked [OF pk x(1)] obtain s1 where e1: "ends (RemoveItemData x) s s1" and s1: "packed s1 (remove1 x xs)"
    and same: "same_grid s s1" by blast
  define p i where "p = int (k div itemsPerPage s)" and "i = int (k mod itemsPerPage s)"
  have "distinct xs" using pk holds_distinct [of s "chunks (itemsPerPage s) xs"] by (simp add: packed_def concat_chunks)
  then have nx: "x \<notin> set (remove1 x xs)" by simp
  have "k \<le> length (remove1 x xs)" using x by (simp add: length_remove1)
  from ends_insertPacked [OF s1 nx this] same_itemsPerPage [OF same] obtain s' where
    e2: "ends (AddItemToPage x p i) s1 s'" and s': "packed s' (list_insert x k (remove1 x xs))"
    and same2: "same_grid s1 s'" by (auto simp: p_def i_def)
  from ends_from [OF e1] obtain n1 where n1: "\<And>m. n1 \<le> m \<Longrightarrow> gridCall m (RemoveItemData x) s = Some (s1, True)" by blast
  from ends_from [OF e2] obtain n2 where n2: "\<And>m. n2 \<le> m \<Longrightarrow> gridCall m (AddItemToPage x p i) s1 = Some (s', True)" by blast
  have "\<forall>m\<ge>n1 + n2. grid_op m op s = Some (s', True)"
    using MoveItem x packed_set [OF pk, of x] n1 n2 by (auto simp: moveItem_def choosePage_def simp flip: p_def i_def) (simp add: i_def)
  with s' MoveItem same_itemsPerPage [OF same] same_itemsPerPage [OF same2] show ?thesis by auto
qed

text \<open>C25: A grid without incomplete pages refines a list: from the empty grid, any sequence of appending, inserting,
  removing and moving visible items ends (with enough fuel), throws nothing, and leaves on the pages exactly the
  list that the same operations make of the empty list, \<open>columnsPerPage * rowsPerPage\<close> items to a page.
\<close>

theorem complete_grid_refines_list:
  assumes "0 < columns" and "0 < rows" and "valid_ops [] ops"
  shows "\<exists>n. \<forall>m\<ge>n. \<exists>s. grid_run m ops (newIconGrid columns rows False (\<lambda>x. True)) = Some (s, True)
    \<and> map pg_children (ig_pages s) = chunks (columns * rows) (fold list_step ops [])"
proof -
  have run: "\<exists>n s'. (\<forall>m\<ge>n. grid_run m ops s = Some (s', True)) \<and> packed s' (fold list_step ops xs) \<and> itemsPerPage s' = columns * rows"
    if "packed s xs" "valid_ops xs ops" "itemsPerPage s = columns * rows" for s xs
    using that
  proof (induction ops arbitrary: s xs)
    case (Cons op ops)
    from grid_op_packed [of s xs op] Cons.prems obtain n1 s1 where
      s1: "\<forall>m\<ge>n1. grid_op m op s = Some (s1, True)" "packed s1 (list_step op xs)" "itemsPerPage s1 = itemsPerPage s"
      by auto
    from Cons.IH [OF s1(2)] Cons.prems s1(3) obtain n2 s2 where
      s2: "\<forall>m\<ge>n2. grid_run m ops s1 = Some (s2, True)" "packed s2 (fold list_step (op # ops) xs)" "itemsPerPage s2 = columns * rows"
      by auto
    have "\<forall>m\<ge>n1 + n2. grid_run m (op # ops) s = Some (s2, True)" using s1(1) s2(1) by simp
    with s2 show ?case by blast
  qed (auto intro: exI [of _ 0])
  define s0 where "s0 = newIconGrid columns rows False (\<lambda>x. True)"
  have "packed s0 []" "itemsPerPage s0 = columns * rows"
    using holds_new [of columns rows False "\<lambda>x. True"] assms(1,2)
    by (simp_all add: packed_def s0_def) (simp_all add: newIconGrid_def itemsPerPage_def)
  from run [OF this(1) assms(3) this(2)] obtain n s' where
    n: "\<forall>m\<ge>n. grid_run m ops s0 = Some (s', True)" and s': "packed s' (fold list_step ops [])" "itemsPerPage s' = columns * rows" by blast
  from s' have "map pg_children (ig_pages s') = chunks (columns * rows) (fold list_step ops [])"
    by (simp add: packed_def holds_def comp_def)
  with n show ?thesis unfolding s0_def by blast
qed

definition sample_grid_ops :: "list_op list" where
  "sample_grid_ops = map Append [1, 2, 3, 4, 5, 6, 7, 8, 9] @ [RemoveItem 2, InsertItem 20 0, MoveItem 9 4, RemoveItem 1, MoveItem 20 6]"

theorem complete_grid_refines_list_witness:
  "(\<exists>n. \<forall>m\<ge>n. \<exists>s. grid_run m sample_grid_ops (newIconGrid 2 2 False (\<lambda>x. True)) = Some (s, True)
      \<and> map pg_children (ig_pages s) = chunks (2 * 2) (fold list_step sample_grid_ops []))
   \<and> map_option (\<lambda>(s, ok). map pg_children (ig_pages s)) (grid_run 40 sample_grid_ops (newIconGrid 2 2 False (\<lambda>x. True)))
      = Some [[3, 4, 9, 5], [6, 7, 20, 8]]"
proof -
  have "valid_ops [] sample_grid_ops" by code_simp
  moreover have "map_option (\<lambda>(s, ok). map pg_children (ig_pages s)) (grid_run 40 sample_grid_ops (newIconGrid 2 2 False (\<lambda>x. True)))
      = Some [[3, 4, 9, 5], [6, 7, 20, 8]]" by code_simp
  ultimately show ?thesis using complete_grid_refines_list [of 2 2 sample_grid_ops] by simp
qed

end
