(* ===== verification/IconGridWf.thy ===== *)
theory IconGridWf
  imports IconGridRefine
begin

section \<open>The icon grid: its maps agree, and the order of the items is kept\<close>

subsection \<open>The items, the pages and the lists of visible items agree\<close>

text \<open>
  Every item that is registered is on its page and on no other, no page has an item that is not registered, and the list of
  visible children of a page is up to date; only a page that was appended twice at once has none. Items may be hidden.
\<close>

definition page_wf :: "(nat \<Rightarrow> bool) \<Rightarrow> grid_page \<Rightarrow> bool" where
  "page_wf v pg = (pg_visible pg = Some (filter v (pg_children pg)) \<or> (pg_visible pg = None \<and> pg_children pg = []))"

definition grid_wf :: "icon_grid \<Rightarrow> bool" where
  "grid_wf s = (located (map pg_children (ig_pages s)) (ig_items s) \<and> list_all (page_wf (ig_visible s)) (ig_pages s))"

definition registered :: "icon_grid \<Rightarrow> nat set" where
  "registered s = {x. jm_has (ig_items s) x}"

lemma registered_set [simp]: "registered (s\<lparr>ig_items := jm_set (ig_items s) x p\<rparr>) = insert x (registered s)"
  by (auto simp: registered_def)

lemma shown_page_wf [simp]: "page_wf v (shown_page v pg)"
  by (simp add: page_wf_def)

lemma grid_wf_get: "grid_wf s \<Longrightarrow> map_of (ig_items s) x = page_of (map pg_children (ig_pages s)) x"
  by (simp add: grid_wf_def located_get)

lemma grid_wf_split:
  assumes "grid_wf s" and "map_of (ig_items s) x = Some p"
  obtains pre pg post where "ig_pages s = pre @ pg # post" and "p = int (length pre)" and "x \<in> set (pg_children pg)"
proof -
  have "page_of (map pg_children (ig_pages s)) x = Some p" using assms by (simp add: grid_wf_get)
  then obtain cpre c cpost where split: "map pg_children (ig_pages s) = cpre @ c # cpost" "p = int (length cpre)" "x \<in> set c"
    by (rule page_of_split)
  then obtain pre pg post where "ig_pages s = pre @ pg # post" "map pg_children pre = cpre" "pg_children pg = c"
    by (auto simp: map_eq_append_conv map_eq_Cons_conv)
  with split that show ?thesis by auto
qed

lemma takeItem_wf:
  assumes wf: "grid_wf s" and get: "map_of (ig_items s) x = Some p"
  shows "grid_wf (takeItem x p s) \<and> registered (takeItem x p s) \<subseteq> registered s - {x}"
proof -
  from grid_wf_split [OF assms] obtain pre pg post where
    pages: "ig_pages s = pre @ pg # post" and p: "p = int (length pre)" and x: "x \<in> set (pg_children pg)" .
  define rest where "rest = remove1 x (pg_children pg)"
  have loc: "located (map pg_children pre @ pg_children pg # map pg_children post) (ig_items s)"
    and vis: "list_all (page_wf (ig_visible s)) (pre @ post)" using wf by (simp_all add: grid_wf_def pages)
  note rem = located_remove [OF loc x, folded rest_def]
  note t = takeItem_at [OF pages p x, folded rest_def, unfolded Let_def]
  have keys: "\<And>y. map_of (map (\<lambda>(i, q). (i, if q > p then q - 1 else q)) m) y = None \<longleftrightarrow> map_of m y = None" for m :: "(nat, int) jsmap"
    by (simp add: map_of_map)
  show ?thesis
  proof (cases "filter (ig_visible s) rest = []")
    case True
    have "p = int (length (map pg_children pre))" by (simp add: p)
    from located_removePage [OF rem this] True vis t keys show ?thesis
      by (auto simp: grid_wf_def registered_def map_of_fold_del)
  next
    case False
    with rem vis t show ?thesis by (auto simp: grid_wf_def registered_def)
  qed
qed

lemma appendPage_wf: "grid_wf s \<Longrightarrow> grid_wf (appendPage s) \<and> ig_items (appendPage s) = ig_items s"
  by (simp add: grid_wf_def appendPage_def located_page_Nil page_wf_def)

lemma ensurePages_wf: "grid_wf s \<Longrightarrow> grid_wf (ensurePages q s) \<and> ig_items (ensurePages q s) = ig_items s"
  using appendPage_wf by (simp add: ensurePages_def Let_def)

lemma placeItem_wf:
  assumes wf: "grid_wf s" and x: "x \<notin> registered s" and place: "placeItem x q i s = (s', Some p)"
  shows "grid_wf s' \<and> registered s' = insert x (registered s)"
proof -
  define s1 where "s1 = ensurePages q s"
  have wf1: "grid_wf s1" and items: "ig_items s1 = ig_items s" using ensurePages_wf [OF wf] by (simp_all add: s1_def)
  define p1 where "p1 = (if q = -1 then int (length (ig_pages s1)) - 1 else q)"
  have range: "\<not> (p1 < 0 \<or> p1 \<ge> int (length (ig_pages s1)))" and p: "p = p1"
    using place by (auto simp: placeItem_def Let_def s1_def p1_def split: if_splits)
  then have "nat p < length (ig_pages s1)" by auto
  then obtain pre pg post where pages: "ig_pages s1 = pre @ pg # post" and len: "nat p = length pre"
    using id_take_nth_drop [of "nat p" "ig_pages s1"] by (metis length_take min.absorb2 less_imp_le)
  have pi: "p1 = int (length pre)" using len range p by auto
  have nth: "ig_pages s1 ! nat p1 = pg" by (simp add: pages pi)
  define j where "j = (if i = -1 then int (length (pg_children pg)) else i)"
  have s': "s' = s1\<lparr>ig_items := jm_set (ig_items s1) x p,
      ig_pages := pre @ shown_page (ig_visible s1) (insertAt j x (pg_children pg)) # post\<rparr>"
    using place range unfolding placeItem_def Let_def s1_def [symmetric] p1_def [symmetric] nth j_def [symmetric]
    by (simp add: updateVisibleChildrenForPage_def shown_page_def) (cases pg, auto simp: pages pi nth_append list_update_append)
  have loc: "located (map pg_children pre @ pg_children pg # map pg_children post) (ig_items s1)"
    and vis: "list_all (page_wf (ig_visible s1)) (pre @ post)" using wf1 by (simp_all add: grid_wf_def pages)
  have "x \<notin> set (concat (map pg_children (ig_pages s1)))"
    using x grid_wf_get [OF wf1, of x] by (simp add: registered_def items page_of_None [symmetric] del: set_concat)
  then have nx: "x \<notin> set (concat (map pg_children pre @ pg_children pg # map pg_children post))" by (simp add: pages)
  have "distinct (insertAt j x (pg_children pg))" using loc nx by (intro insertAt_distinct) (auto simp: located_def)
  from located_insert [OF loc nx insertAt_set this] vis show ?thesis
    by (auto simp: s' grid_wf_def p pi registered_def items)
qed

fun added :: "grid_call \<Rightarrow> nat set" where
  "added (AddItemToPage x p i) = {x}"
| "added _ = {}"

fun removed :: "grid_call \<Rightarrow> nat set" where
  "removed (RemoveItemData x) = {x}"
| "removed _ = {}"

lemma and_then_True: "and_then r f = Some (s', True) \<Longrightarrow> \<exists>s1. r = Some (s1, True) \<and> f s1 = Some (s', True)"
  by (auto simp: and_then_def split: option.splits prod.splits if_splits)

lemma gridCall_wf:
  "gridCall n c s = Some (s', True) \<Longrightarrow> grid_wf s \<Longrightarrow> added c \<inter> registered s = {}
     \<Longrightarrow> grid_wf s' \<and> registered s' \<subseteq> added c \<union> (registered s - removed c)"
proof (induction n c s arbitrary: s' rule: gridCall.induct)
  case (2 n x q i s)
  from 2(2) obtain s1 p where s1: "placeItem x q i s = (s1, Some p)" "gridCall n (RelocateSurplusItems p) s1 = Some (s', True)"
    by (auto split: prod.splits option.splits)
  have "grid_wf s1 \<and> registered s1 = insert x (registered s)" using 2(3,4) by (intro placeItem_wf [OF _ _ s1(1)]) auto
  with 2(1) [OF s1(1) [symmetric] refl s1(2)] show ?case by auto
next
  case (3 n p s)
  then show ?case by (fastforce split: option.splits if_splits)
next
  case (5 n x xs p s)
  from 5(4) obtain s1 where s1: "gridCall n (RemoveItemData x) s = Some (s1, True)"
    and r: "and_then (gridCall n (AddItemToPage x (p + 1) 0) s1) (gridCall n (RelocateEach xs p)) = Some (s', True)"
    using and_then_True by (simp only: gridCall.simps) blast
  from and_then_True [OF r] obtain s2 where s2: "gridCall n (AddItemToPage x (p + 1) 0) s1 = Some (s2, True)"
    "gridCall n (RelocateEach xs p) s2 = Some (s', True)" by blast
  from 5(1) [OF s1 5(5)] have 1: "grid_wf s1" "registered s1 \<subseteq> registered s - {x}" by auto
  from 5(2) [OF s2(1) 1(1)] 1(2) have 2: "grid_wf s2" "registered s2 \<subseteq> insert x (registered s - {x})" by auto
  have "x \<in> registered s" using s1 by (cases n) (auto simp: registered_def split: option.splits)
  with 5(3) [OF s2(2) 2(1)] 2(2) show ?case by auto
next
  case (6 n x s)
  from 6(2) obtain p where p: "map_of (ig_items s) x = Some p" "\<not> (p < 0 \<or> p \<ge> int (length (ig_pages s)))"
    and r: "if ig_allowIncomplete (takeItem x p s) then s' = takeItem x p s
            else gridCall n (FillItemVacancies p) (takeItem x p s) = Some (s', True)"
    by (auto simp: Let_def split: option.splits if_splits)
  note t = takeItem_wf [OF 6(3) p(1)]
  show ?case
  proof (cases "ig_allowIncomplete (takeItem x p s)")
    case True
    with r t show ?thesis by auto
  next
    case False
    with 6(1) [OF p refl False] r t show ?thesis by auto
  qed
next
  case (7 n p s)
  then show ?case by (fastforce split: option.splits if_splits)
next
  case (9 n x xs p s)
  from 9(4) obtain s1 where s1: "gridCall n (RemoveItemData x) s = Some (s1, True)"
    and r: "and_then (gridCall n (AddItemToPage x p (-1)) s1) (gridCall n (FillEach xs p)) = Some (s', True)"
    using and_then_True by (simp only: gridCall.simps) blast
  from and_then_True [OF r] obtain s2 where s2: "gridCall n (AddItemToPage x p (-1)) s1 = Some (s2, True)"
    "gridCall n (FillEach xs p) s2 = Some (s', True)" by blast
  from 9(1) [OF s1 9(5)] have 1: "grid_wf s1" "registered s1 \<subseteq> registered s - {x}" by auto
  from 9(2) [OF s2(1) 1(1)] 1(2) have 2: "grid_wf s2" "registered s2 \<subseteq> insert x (registered s - {x})" by auto
  have "x \<in> registered s" using s1 by (cases n) (auto simp: registered_def split: option.splits)
  with 9(3) [OF s2(2) 2(1)] 2(2) show ?case by auto
qed auto

text \<open>The calls of the rest of the shell.\<close>

datatype grid_event =
    GridAdd nat int int
  | GridMove nat int int
  | GridRemove nat
  | GridShow nat bool
  | GridMode nat nat           \<comment> \<open>columns and rows of the new mode\<close>

fun grid_event_step :: "nat \<Rightarrow> grid_event \<Rightarrow> icon_grid \<Rightarrow> grid_result" where
  "grid_event_step fuel (GridAdd x p i) s = gridAddItem fuel x p i s"
| "grid_event_step fuel (GridMove x p i) s = moveItem fuel x p i s"
| "grid_event_step fuel (GridRemove x) s = removeItem fuel x s"
| "grid_event_step fuel (GridShow x v) s = setVisible fuel x v s"
| "grid_event_step fuel (GridMode c r) s = setGridMode fuel [(c, r)] (-1) 0 s"

fun grid_events :: "nat \<Rightarrow> grid_event list \<Rightarrow> icon_grid \<Rightarrow> grid_result" where
  "grid_events fuel [] s = Some (s, True)"
| "grid_events fuel (e # es) s = and_then (grid_event_step fuel e s) (grid_events fuel es)"

lemma updatePagesFrom_wf: "updatePagesFrom n i s = Some (s', True) \<Longrightarrow> grid_wf s \<Longrightarrow> grid_wf s'"
proof (induction n arbitrary: i s)
  case (Suc n)
  show ?case
  proof (cases "i \<ge> int (length (ig_pages s))")
    case True
    with Suc.prems show ?thesis by simp
  next
    case False
    with Suc.prems(1) and_then_True [of "gridCall n (RelocateSurplusItems i) s"] obtain s1 where
      "gridCall n (RelocateSurplusItems i) s = Some (s1, True)" "updatePagesFrom n (i + 1) s1 = Some (s', True)"
      by fastforce
    with Suc gridCall_wf show ?thesis by fastforce
  qed
qed simp

lemma setVisible_wf:
  assumes set: "setVisible fuel x v s = Some (s', True)" and wf: "grid_wf s"
  shows "grid_wf s'"
proof -
  define s1 where "s1 = s\<lparr>ig_visible := (ig_visible s)(x := v)\<rparr>"
  have items: "ig_items s1 = ig_items s" and pages: "ig_pages s1 = ig_pages s" by (simp_all add: s1_def)
  show ?thesis
  proof (cases "ig_visible s x = v")
    case True
    with set wf show ?thesis by (simp add: setVisible_def)
  next
    case False
    have same: "page_wf (ig_visible s1) pg = page_wf (ig_visible s) pg" if "x \<notin> set (pg_children pg)" for pg
    proof -
      have "filter (ig_visible s1) (pg_children pg) = filter (ig_visible s) (pg_children pg)"
        using that by (intro filter_cong) (auto simp: s1_def)
      then show ?thesis by (simp add: page_wf_def)
    qed
    show ?thesis
    proof (cases "map_of (ig_items s) x")
      case None
      then have "x \<notin> set (concat (map pg_children (ig_pages s)))"
        using grid_wf_get [OF wf, of x] page_of_None [of "map pg_children (ig_pages s)" x] by metis
      then have "grid_wf s1" using wf same by (auto simp: grid_wf_def items pages list_all_iff)
      with set False None show ?thesis by (simp add: setVisible_def flip: s1_def) (simp add: items)
    next
      case (Some p)
      from grid_wf_split [OF wf this] obtain pre pg post where
        split: "ig_pages s = pre @ pg # post" "p = int (length pre)" "x \<in> set (pg_children pg)" .
      define s2 where "s2 = updateVisibleChildrenForPage p s1"
      have s2: "s2 = s1\<lparr>ig_pages := pre @ shown_page (ig_visible s1) (pg_children pg) # post\<rparr>"
        by (cases pg) (simp add: s2_def updateVisibleChildrenForPage_def pages split nth_append list_update_append shown_page_def)
      have d: "distinct (concat (map pg_children (ig_pages s)))" using wf by (simp add: grid_wf_def located_def)
      have "x \<notin> set (pg_children r)" if "r \<in> set (pre @ post)" for r using d split(1,3) that by auto
      with same have "list_all (page_wf (ig_visible s1)) (pre @ post)"
        using wf split(1) unfolding list_all_iff grid_wf_def by (metis in_set_conv_decomp set_append Un_iff list.set_intros(2))
      then have wf2: "grid_wf s2" using wf by (simp add: grid_wf_def s2 items split)
      have "gridCall fuel (if v then RelocateSurplusItems p else FillItemVacancies p) s2 = Some (s', True) \<or> s' = s2"
      proof -
        have "\<not> (p < 0 \<or> p \<ge> int (length (ig_pages s1)))" by (simp add: pages split)
        with set False Some show ?thesis unfolding setVisible_def Let_def s1_def [symmetric]
          by (auto simp: items s2_def [symmetric] split: if_splits)
      qed
      with wf2 gridCall_wf [OF _ wf2, of fuel "if v then RelocateSurplusItems p else FillItemVacancies p" s'] show ?thesis
        by (cases v) auto
    qed
  qed
qed

lemma grid_event_wf:
  assumes step: "grid_event_step fuel e s = Some (s', True)" and wf: "grid_wf s"
  shows "grid_wf s'"
proof (cases e)
  case (GridAdd x p i)
  with step obtain q where "gridCall fuel (AddItemToPage x q i) s = Some (s', True)" "x \<notin> registered s"
    by (auto simp: gridAddItem_def registered_def split: if_splits option.splits)
  with gridCall_wf [OF _ wf] show ?thesis by fastforce
next
  case (GridMove x p i)
  with step obtain s1 q where "gridCall fuel (RemoveItemData x) s = Some (s1, True)"
    "gridCall fuel (AddItemToPage x q i) s1 = Some (s', True)"
    by (fastforce simp: moveItem_def and_then_def split: if_splits option.splits)
  with gridCall_wf [OF _ wf] gridCall_wf show ?thesis by fastforce
next
  case (GridRemove x)
  with step gridCall_wf [OF _ wf] show ?thesis by (fastforce simp: removeItem_def split: if_splits)
next
  case (GridShow x v)
  with step setVisible_wf wf show ?thesis by simp
next
  case (GridMode c r)
  have "grid_wf (s\<lparr>ig_rows := r, ig_columns := c\<rparr>)" using wf by (simp add: grid_wf_def)
  with GridMode step updatePagesFrom_wf show ?thesis by (auto simp: setGridMode_def updatePages_def)
qed

text \<open>The same over events: in every state the grid reaches by additions, moves, removals, changes of the visibility of items
  and of its mode that return within the fuel, each registered item is on exactly the page it is registered with, nothing else is
  on the pages, and the visible children of each page are exactly those of its children that are visible.
\<close>

theorem grid_maps_agree:
  assumes "grid_events fuel es (newIconGrid columns rows incomplete visible) = Some (s, True)"
  shows "distinct (concat (map pg_children (ig_pages s)))
    \<and> (\<forall>x. jm_get (ig_items s) x = page_of (map pg_children (ig_pages s)) x)
    \<and> list_all (page_wf (ig_visible s)) (ig_pages s)"
proof -
  have run: "grid_wf s'" if "grid_events fuel es t = Some (s', True)" "grid_wf t" for s' t
    using that
  proof (induction es arbitrary: t)
    case (Cons e es)
    then show ?case using and_then_True [of "grid_event_step fuel e t"] grid_event_wf by fastforce
  qed simp
  have "page_of [] = Map.empty" by (rule ext) simp
  then have "grid_wf (newIconGrid columns rows incomplete visible)" by (simp add: grid_wf_def newIconGrid_def located_def)
  from run [OF assms this] show ?thesis by (simp add: grid_wf_def located_def)
qed

definition sample_grid_events :: "grid_event list" where
  "sample_grid_events = map (\<lambda>x. GridAdd x (-1) (-1)) [1, 2, 3, 4, 5, 6, 7]
     @ [GridShow 3 False, GridAdd 9 0 0, GridShow 5 False, GridMove 1 1 2, GridShow 3 True, GridMode 1 2, GridRemove 6]"

theorem grid_maps_agree_witness:
  "case grid_events 60 sample_grid_events (newIconGrid 2 2 False (\<lambda>x. True)) of
     Some (s, ok) \<Rightarrow> ok \<and> map pg_children (ig_pages s) = [[9, 2], [3, 4, 5], [7, 1]] \<and> jm_get (ig_items s) 5 = Some 1
       \<and> distinct (concat (map pg_children (ig_pages s)))
   | None \<Rightarrow> False"
proof -
  define r where "r = grid_events 60 sample_grid_events (newIconGrid 2 2 False (\<lambda>x. True))"
  have run: "case r of Some (s, ok) \<Rightarrow> ok \<and> map pg_children (ig_pages s) = [[9, 2], [3, 4, 5], [7, 1]] \<and> jm_get (ig_items s) 5 = Some 1
     | None \<Rightarrow> False"
    unfolding r_def by code_simp
  obtain s where s: "r = Some (s, True)" using run by (auto split: option.splits prod.splits)
  have "distinct (concat (map pg_children (ig_pages s)))" using grid_maps_agree s unfolding r_def by blast
  with run s show ?thesis unfolding r_def [symmetric] by simp
qed

subsection \<open>The order of the items is kept\<close>

text \<open>C27: In a grid whose items are visible, with or without incomplete pages, adding an item at a position of a page ends and puts it
  there: the other items keep their order, the pages before are as they were, and no page has too many items.
\<close>

theorem addItem_keeps_order:
  assumes h: "holds s pgs" and ne: "[] \<notin> set pgs" and f: "fits (itemsPerPage s) pgs" and n: "0 < itemsPerPage s"
    and x: "x \<notin> set (concat pgs)" "ig_visible s x" and p: "p < length pgs" and i: "i \<le> length (pgs ! p)"
  shows "\<exists>n. \<forall>m\<ge>n. \<exists>s' pgs'. gridAddItem m x (int p) (int i) s = Some (s', True) \<and> holds s' pgs' \<and> fits (itemsPerPage s) pgs'
    \<and> take p pgs' = take p pgs \<and> concat pgs' = concat (take p pgs) @ list_insert x i (pgs ! p) @ concat (drop (Suc p) pgs)"
proof -
  define pre pg post where "pre = take p pgs" and "pg = pgs ! p" and "post = drop (Suc p) pgs"
  have pgs: "pgs = pre @ pg # post" and len: "int p = int (length pre)" using p by (simp_all add: pre_def pg_def post_def id_take_nth_drop)
  have ins: "insertAt (int i) x pg = list_insert x i pg" using i by (simp add: pg_def insertAt_def list_insert_def js_clamp_index_def)
  obtain s1 where s1: "placeItem x (int p) (int i) s = (s1, Some (int p))" "holds s1 (pre @ list_insert x i pg # post)" "same_grid s s1"
    using placeItem_holds [of s pre pg post "int p" x "int i" "int i" "int p"] h x len ins pgs by auto
  have "[] \<notin> set (list_insert x i pg # post)" using ne pgs by (auto simp: list_insert_def)
  then obtain s2 ps where
    s2: "ends (RelocateSurplusItems (int p)) s1 s2" "holds s2 (pre @ ps)" "spilled (itemsPerPage s) (list_insert x i pg # post) ps"
    using relocate [OF s1(2) _ _ len] same_itemsPerPage [OF s1(3)] n by metis
  from ends_from [OF ends_Add [OF s1(1) s2(1)]] obtain m where
    "\<And>k. m \<le> k \<Longrightarrow> gridCall k (AddItemToPage x (int p) (int i)) s = Some (s2, True)" by blast
  moreover have "\<not> jm_has (ig_items s) x" using holds_has [OF h] x(1) by blast
  ultimately have "\<forall>k\<ge>m. gridAddItem k x (int p) (int i) s = Some (s2, True)"
    using p holds_length [OF h] by (simp add: gridAddItem_def choosePage_def)
  moreover have "fits (itemsPerPage s) (pre @ ps) \<and> take p (pre @ ps) = pre \<and> concat (pre @ ps) = concat pre @ list_insert x i pg @ concat post"
    using s2(3) f len by (auto simp: spilled_def pgs) (auto simp: fits_def)
  ultimately show ?thesis using s2(2) unfolding pre_def pg_def post_def by blast
qed

text \<open>A page with an item on it is not smaller than before.\<close>

lemma updatePages_from:
  "holds s (pre @ rest) \<Longrightarrow> [] \<notin> set rest \<Longrightarrow> fits (itemsPerPage s) pre \<Longrightarrow> 0 < itemsPerPage s
    \<Longrightarrow> \<exists>n s' pgs. (\<forall>m\<ge>n. updatePagesFrom m (int (length pre)) s = Some (s', True)) \<and> holds s' pgs
          \<and> concat pgs = concat (pre @ rest) \<and> fits (itemsPerPage s) pgs"
proof (induction "length (concat rest)" arbitrary: s pre rest rule: less_induct)
  case less
  show ?case
  proof (cases rest)
    case Nil
    have "updatePagesFrom m (int (length pre)) s = Some (s, True)" if "1 \<le> m" for m
      using that holds_length [OF less.prems(1)] Nil by (cases m) simp_all
    with less.prems Nil show ?thesis by (intro exI [of _ 1] exI [of _ s] exI [of _ pre]) simp
  next
    case (Cons pg post)
    with less.prems relocate [of s pre pg post "int (length pre)"] obtain s1 ps where
      s1: "ends (RelocateSurplusItems (int (length pre))) s s1" "holds s1 (pre @ ps)" "same_grid s s1"
      and sp: "spilled (itemsPerPage s) (pg # post) ps" by auto
    from ends_from [OF s1(1)] obtain n1 where
      n1: "\<And>m. n1 \<le> m \<Longrightarrow> gridCall m (RelocateSurplusItems (int (length pre))) s = Some (s1, True)" by blast
    obtain q qs where ps: "ps = q # qs" "q \<noteq> []" "[] \<notin> set qs" "length q \<le> itemsPerPage s" "q @ concat qs = concat rest"
      using sp Cons by (cases ps) (auto simp: spilled_def)
    from arg_cong [OF ps(5), of length] ps(2) have "length (concat qs) < length (concat rest)" by (cases q) auto
    from less.hyps [OF this, of s1 "pre @ [q]"] s1(2) ps less.prems(3,4) same_itemsPerPage [OF s1(3)] obtain n2 s2 pgs where
      s2: "\<And>m. n2 \<le> m \<Longrightarrow> updatePagesFrom m (int (length pre) + 1) s1 = Some (s2, True)" "holds s2 pgs"
      "concat pgs = concat (pre @ rest)" "fits (itemsPerPage s) pgs" by (auto simp: fits_def algebra_simps)
    have "updatePagesFrom m (int (length pre)) s = Some (s2, True)" if "Suc (n1 + n2) \<le> m" for m
      using that n1 s2(1) holds_length [OF less.prems(1)] Cons by (cases m) simp_all
    with s2 show ?thesis by blast
  qed
qed

text \<open>C26: When the grid changes its mode, distributing the items of a grid with visible items and no empty page anew ends, keeps their order and
  leaves no page with more items than the new mode shows.
\<close>

theorem updatePages_keeps_order:
  assumes "holds s pgs" and "[] \<notin> set pgs" and "0 < itemsPerPage s"
  shows "\<exists>n s' pgs'. (\<forall>m\<ge>n. updatePages m s = Some (s', True)) \<and> holds s' pgs' \<and> concat pgs' = concat pgs \<and> fits (itemsPerPage s) pgs'"
  using updatePages_from [of s "[]" pgs] assms by (simp add: updatePages_def fits_def)

definition sample_grid :: "nat \<Rightarrow> icon_grid" where
  "sample_grid rows = \<lparr>ig_columns = 1, ig_rows = rows, ig_allowIncomplete = True,
     ig_pages = map (shown_page (\<lambda>x. True)) [[1, 2], [3]], ig_visible = (\<lambda>x. True), ig_items = [(1, 0), (2, 0), (3, 1)]\<rparr>"

lemma sample_holds: "holds (sample_grid rows) [[1, 2], [3]]" "itemsPerPage (sample_grid rows) = rows"
  by (auto simp: holds_def sample_grid_def located_def itemsPerPage_def fun_eq_iff)

lemma sample_reached:
  "map_option (\<lambda>(s, ok). (ig_pages s, ig_items s, ok)) (grid_events 30 (map (\<lambda>x. GridAdd x (-1) (-1)) [1, 2, 3]) (newIconGrid 1 2 True (\<lambda>x. True)))
   = Some (ig_pages (sample_grid 2), ig_items (sample_grid 2), True)"
  by code_simp

theorem addItem_keeps_order_witness:
  "\<exists>n. \<forall>m\<ge>n. \<exists>s' pgs'. gridAddItem m 9 (int 0) (int 1) (sample_grid 2) = Some (s', True) \<and> holds s' pgs' \<and> fits 2 pgs'
     \<and> concat pgs' = [1, 9, 2, 3]"
proof -
  have "ig_visible (sample_grid 2) 9" by (simp add: sample_grid_def)
  with addItem_keeps_order [OF sample_holds(1), of 2 9 0 1] sample_holds(2) [of 2] show ?thesis
    by (simp add: fits_def list_insert_def)
qed

theorem updatePages_keeps_order_witness:
  "\<exists>n s' pgs'. (\<forall>m\<ge>n. updatePages m (sample_grid 1) = Some (s', True)) \<and> holds s' pgs' \<and> concat pgs' = [1, 2, 3] \<and> fits 1 pgs'"
  using updatePages_keeps_order [OF sample_holds(1), of 1] sample_holds(2) [of 1] by simp

subsection \<open>Past the last page\<close>

text \<open>moving the only item of the last page to a new page behind it, which is what dropping it on the indicator of the next page does,
  throws, and the item is lost: its page is removed first, so the new page is not the next one any more. The item stays
  registered with a page that does not exist.
\<close>

theorem item_lost_past_the_end:
  assumes h: "holds s (pre @ [[x]])" and pre: "pre \<noteq> []"
  shows "\<exists>n. \<forall>m\<ge>n. \<exists>s'. moveItem m x (int (length (ig_pages s))) 0 s = Some (s', False)
    \<and> map pg_children (ig_pages s') = pre \<and> jm_get (ig_items s') x = Some (int (length pre) + 1) \<and> x \<notin> set (concat pre)"
proof -
  define p where "p = int (length pre)"
  define t where "t = takeItem x p s"
  have t: "holds t pre" using takeItem_holds(1) [OF h p_def, of x] by (simp add: t_def)
  have get: "map_of (ig_items s) x = Some p" using located_middle h by (auto simp: holds_def p_def)
  have "ends (FillItemVacancies p) t t" using holds_length [OF t] by (intro ends_Fill_last) (simp add: p_def)
  then have "ends (RemoveItemData x) s t" using holds_length [OF h] by (intro ends_Remove [OF get]) (simp_all add: p_def t_def)
  from ends_from [OF this] obtain n where n: "\<And>m. n \<le> m \<Longrightarrow> gridCall m (RemoveItemData x) s = Some (t, True)" by blast
  have len: "length (ig_pages t) = length pre" and ne: "ig_pages t \<noteq> []" using holds_length [OF t] pre by auto
  define u where "u = t\<lparr>ig_items := jm_set (ig_items t) x (p + 1)\<rparr>"
  have "ensurePages (p + 1) t = t" using ne len by (simp add: ensurePages_def p_def)
  then have "placeItem x (p + 1) 0 t = (u, None)" unfolding placeItem_def by (simp add: u_def p_def len Let_def)
  then have "gridCall m (AddItemToPage x (p + 1) 0) t = Some (u, False)" if "0 < m" for m using that by (cases m) simp_all
  then have "moveItem m x (int (length (ig_pages s))) 0 s = Some (u, False)" if "Suc n \<le> m" for m
    using that n [of m] get holds_length [OF h] by (simp add: moveItem_def choosePage_def p_def add.commute)
  moreover have "map pg_children (ig_pages u) = pre" using t by (simp add: u_def holds_def comp_def)
  moreover have "x \<notin> set (concat pre)" using holds_distinct [OF h] by auto
  ultimately show ?thesis by (intro exI [of _ "Suc n"]) (auto simp: u_def p_def)
qed

theorem item_lost_past_the_end_witness:
  "\<exists>n. \<forall>m\<ge>n. \<exists>s'. moveItem m 3 2 0 (sample_grid 2) = Some (s', False) \<and> map pg_children (ig_pages s') = [[1, 2]]
     \<and> jm_get (ig_items s') 3 = Some 2"
proof -
  have "holds (sample_grid 2) ([[1, 2]] @ [[3]])" using sample_holds(1) by simp
  from item_lost_past_the_end [OF this] show ?thesis by (simp add: sample_grid_def)
qed

end
