(* ===== verification/KeyboardManager.thy ===== *)
theory KeyboardManager
  imports Prelude
begin

section \<open>Keyboard layouts (\<open>js/misc/keyboardManager.js\<close>)\<close>

text \<open>
  A keymap takes four layouts; three of the user and that of the locale make a group. Applying a layout of another
  group sets the keymap of the group first, which is asynchronous, and then the index in it; one of the same group only sets the index.
  The calls of the backend are a trace, and what goes on once a keymap is set is a queue of indexes (\<open>km_pending\<close>). What
  libgnome-desktop knows of a layout and the layout of the locale are parameters.
\<close>

record layout_info =
  li_layout :: string
  li_variant :: string

record kb_info =
  ki_id :: string
  ki_layout :: layout_info
  ki_group :: nat                \<comment> \<open>which of the groups\<close>
  ki_groupIndex :: nat

type_synonym keymap = "string \<times> string \<times> string \<times> string option"   \<comment> \<open>layouts, variants, options, model\<close>

datatype kb_call = SetKeymap keymap | SetGroupIndex nat

record kb_manager =
  km_current :: "kb_info option"
  km_infos :: "(string, kb_info) jsmap"
  km_locale :: layout_info
  km_keymap :: "keymap option"
  km_options :: "string list option"   \<comment> \<open>\<open>None\<close>: still undefined\<close>
  km_model :: "string option"
  km_pending :: "nat list"
  km_trace :: "kb_call list"

type_synonym xkb_info = "string \<Rightarrow> layout_info option"

definition MAX_LAYOUTS_PER_GROUP :: nat where
  "MAX_LAYOUTS_PER_GROUP = 4"

definition newKeyboardManager :: "layout_info \<Rightarrow> kb_manager" where
  "newKeyboardManager locale =
     \<lparr>km_current = None, km_infos = [], km_locale = locale, km_keymap = None, km_options = None, km_model = None,
      km_pending = [], km_trace = []\<rparr>"

text \<open>
  \<open>_getLocaleLayout\<close>: the input source of the locale, or of the default one where the locale has no country or no input
  source; \<open>us\<close> if nothing is known of it.
\<close>

definition getLocaleLayout :: "xkb_info \<Rightarrow> (string \<Rightarrow> string option) \<Rightarrow> string \<Rightarrow> layout_info" where
  "getLocaleLayout xkb sourceFromLocale locale0 =
     (let locale = (if CHR ''_'' \<in> set locale0 then locale0 else ''en_US'');
          lid = (case sourceFromLocale locale of Some i \<Rightarrow> i | None \<Rightarrow> or_else (sourceFromLocale ''en_US'') '''')
      in or_else (xkb lid) \<lparr>li_layout = ''us'', li_variant = ''''\<rparr>)"

text \<open>The layouts of a group, in the order of their indexes.\<close>

definition groupLayouts :: "nat \<Rightarrow> kb_manager \<Rightarrow> layout_info list" where
  "groupLayouts g s = map (\<lambda>(i, k). ki_layout k) (filter (\<lambda>(i, k). ki_group k = g) (km_infos s))"

definition buildGroupStrings :: "nat \<Rightarrow> kb_manager \<Rightarrow> string \<times> string" where
  "buildGroupStrings g s =
     (let group = groupLayouts g s @ [km_locale s]
      in (js_join '','' (map li_layout group), js_join '','' (map li_variant group)))"

text \<open>\<open>None\<close>: the \<open>TypeError\<close> of joining options that are undefined.\<close>

definition buildOptionsString :: "kb_manager \<Rightarrow> string option" where
  "buildOptionsString s = map_option (js_join '','') (km_options s)"

definition applyLayoutGroup :: "nat \<Rightarrow> kb_manager \<Rightarrow> kb_manager option" where
  "applyLayoutGroup g s =
     (case buildOptionsString s of
        None \<Rightarrow> None
      | Some options \<Rightarrow>
          (let (layouts, variants) = buildGroupStrings g s;
               keymap = (layouts, variants, options, km_model s)
           in if km_keymap s = Some keymap then Some s
              else Some (s\<lparr>km_keymap := Some keymap, km_trace := km_trace s @ [SetKeymap keymap]\<rparr>)))"

definition applyLayoutGroupIndex :: "nat \<Rightarrow> kb_manager \<Rightarrow> kb_manager" where
  "applyLayoutGroupIndex idx s = s\<lparr>km_trace := km_trace s @ [SetGroupIndex idx]\<rparr>"

text \<open>
  \<open>_doApply\<close> up to its first \<open>await\<close>, and what follows it when the keymap is set. An exception
  is only logged, so nothing is set then.
\<close>

definition doApply :: "kb_info \<Rightarrow> kb_manager \<Rightarrow> kb_manager" where
  "doApply info s = 
    (case applyLayoutGroup (ki_group info) s of
       None \<Rightarrow> s
     | Some s1 \<Rightarrow> s1\<lparr>km_pending := km_pending s1 @ [ki_groupIndex info]\<rparr>)"

definition keymapSet :: "kb_manager \<Rightarrow> kb_manager" where
  "keymapSet s = (case km_pending s of [] \<Rightarrow> s | i # is \<Rightarrow> applyLayoutGroupIndex i (s\<lparr>km_pending := is\<rparr>))"

definition kb_apply :: "string \<Rightarrow> kb_manager \<Rightarrow> kb_manager" where
  "kb_apply lid s =
     (case jm_get (km_infos s) lid of
        None \<Rightarrow> s
      | Some info \<Rightarrow>
          (let s1 = (case km_current s of
                       Some c \<Rightarrow> if ki_group c = ki_group info
                                 then (if ki_groupIndex c \<noteq> ki_groupIndex info
                                       then applyLayoutGroupIndex (ki_groupIndex info) s else s)
                                 else doApply info s
                     | None \<Rightarrow> doApply info s)
           in s1\<lparr>km_current := Some info\<rparr>))"

definition kb_reapply :: "kb_manager \<Rightarrow> kb_manager" where
  "kb_reapply s = (case km_current s of None \<Rightarrow> s | Some c \<Rightarrow> doApply c s)"

text \<open>\<open>setUserLayouts\<close>: the known layouts without repetition, three to a group.\<close>

definition knownLayouts :: "xkb_info \<Rightarrow> string list \<Rightarrow> (string, layout_info) jsmap" where
  "knownLayouts xkb ids = fold (\<lambda>i m. case xkb i of None \<Rightarrow> m | Some l \<Rightarrow> jm_set m i l) ids []"

fun groupInfos :: "nat \<Rightarrow> (string, layout_info) jsmap \<Rightarrow> (string, kb_info) jsmap" where
  "groupInfos i [] = []"
| "groupInfos i ((k, l) # m) =
     (let n = MAX_LAYOUTS_PER_GROUP - 1
      in (k, \<lparr>ki_id = k, ki_layout = l, ki_group = i div n, ki_groupIndex = i mod n\<rparr>) # groupInfos (i + 1) m)"

definition setUserLayouts :: "xkb_info \<Rightarrow> string list \<Rightarrow> kb_manager \<Rightarrow> kb_manager" where
  "setUserLayouts xkb ids s = s\<lparr>km_current := None, km_infos := groupInfos 0 (knownLayouts xkb ids)\<rparr>"

definition setKeyboardOptions :: "string list \<Rightarrow> kb_manager \<Rightarrow> kb_manager" where
  "setKeyboardOptions os s = s\<lparr>km_options := Some os\<rparr>"

definition setKeyboardModel :: "string \<Rightarrow> kb_manager \<Rightarrow> kb_manager" where
  "setKeyboardModel m s = s\<lparr>km_model := Some m\<rparr>"

subsection \<open>What the backend has\<close>

text \<open>The keymap and the index in it, after the calls so far.\<close>

fun backend_step :: "kb_call \<Rightarrow> keymap option \<times> nat \<Rightarrow> keymap option \<times> nat" where
  "backend_step (SetKeymap k) (m, i) = (Some k, i)"
| "backend_step (SetGroupIndex j) (m, i) = (m, j)"

definition backend :: "kb_manager \<Rightarrow> keymap option \<times> nat" where
  "backend s = fold backend_step (km_trace s) (None, 0)"

text \<open>The layout in use: the one at the index, of the comma-separated lists.\<close>

definition selected :: "kb_manager \<Rightarrow> layout_info option" where
  "selected s =
     (case backend s of
        (None, i) \<Rightarrow> None
      | (Some (layouts, variants, opts, model), i) \<Rightarrow>
          if i < length (js_split CHR '','' layouts) \<and> i < length (js_split CHR '','' variants)
          then Some \<lparr>li_layout = js_split CHR '','' layouts ! i, li_variant = js_split CHR '','' variants ! i\<rparr> else None)"

datatype kb_event =
    SetUserLayouts "string list"
  | ApplyLayout string
  | Reapply
  | SetOptions "string list"
  | SetModel string
  | KeymapSet

fun kb_step :: "xkb_info \<Rightarrow> kb_event \<Rightarrow> kb_manager \<Rightarrow> kb_manager" where
  "kb_step xkb (SetUserLayouts ids) s = setUserLayouts xkb ids s"
| "kb_step xkb (ApplyLayout i) s = kb_apply i s"
| "kb_step xkb Reapply s = kb_reapply s"
| "kb_step xkb (SetOptions os) s = setKeyboardOptions os s"
| "kb_step xkb (SetModel m) s = setKeyboardModel m s"
| "kb_step xkb KeymapSet s = keymapSet s"

subsection \<open>The groups\<close>

lemma backend_snoc [simp]: "backend (s\<lparr>km_trace := km_trace s @ [c]\<rparr>) = backend_step c (backend s)"
  by (simp add: backend_def)

lemma backend_other [simp]: "backend (s\<lparr>km_pending := p\<rparr>) = backend s" "backend (s\<lparr>km_current := c\<rparr>) = backend s"
  "backend (s\<lparr>km_infos := i\<rparr>) = backend s" "backend (s\<lparr>km_options := os\<rparr>) = backend s" "backend (s\<lparr>km_model := m\<rparr>) = backend s"
  "backend (s\<lparr>km_keymap := k\<rparr>) = backend s"
  by (simp_all add: backend_def)

text \<open>The infos are numbered through: the one at position \<open>j\<close> is in group \<open>j div 3\<close> at index \<open>j mod 3\<close>.\<close>

definition numbered :: "(string, kb_info) jsmap \<Rightarrow> bool" where
  "numbered m = (distinct (map fst m) \<and> list_all (\<lambda>j. ki_group (snd (m ! j)) = j div 3 \<and> ki_groupIndex (snd (m ! j)) = j mod 3) [0..<length m])"

lemma groupInfos_length: "length (groupInfos i m) = length m"
  by (induction m arbitrary: i) (auto simp: Let_def)

lemma groupInfos_keys: "map fst (groupInfos i m) = map fst m"
  by (induction m arbitrary: i) (auto simp: Let_def)

lemma groupInfos_nth:
  "j < length m \<Longrightarrow> groupInfos i m ! j
     = (fst (m ! j), \<lparr>ki_id = fst (m ! j), ki_layout = snd (m ! j), ki_group = (i + j) div 3, ki_groupIndex = (i + j) mod 3\<rparr>)"
proof (induction m arbitrary: i j)
  case (Cons p m)
  then show ?case by (cases p; cases j) (simp_all add: Let_def MAX_LAYOUTS_PER_GROUP_def)
qed simp

lemma knownLayouts_distinct: "distinct (map fst (knownLayouts xkb ids))"
proof -
  have "distinct (map fst (fold (\<lambda>i m. case xkb i of None \<Rightarrow> m | Some l \<Rightarrow> jm_set m i l) ids m))"
    if "distinct (map fst m)" for m
    using that by (induction ids arbitrary: m) (auto simp: distinct_update split: option.splits)
  then show ?thesis by (simp add: knownLayouts_def)
qed

lemma setUserLayouts_numbered: "numbered (km_infos (setUserLayouts xkb ids s))"
  using knownLayouts_distinct
  by (auto simp: numbered_def setUserLayouts_def groupInfos_keys groupInfos_length groupInfos_nth list_all_iff)

text \<open>The layouts of a group are those from three times its number on, at most three.\<close>

lemma filter_nth_range:
  "filter P xs = take k (drop a xs)" if "\<And>j. j < length xs \<Longrightarrow> P (xs ! j) \<longleftrightarrow> a \<le> j \<and> j < a + k"
  using that
proof (induction xs arbitrary: a k)
  case (Cons x xs)
  have head: "P x \<longleftrightarrow> a = 0 \<and> 0 < k" using Cons.prems [of 0] by auto
  show ?case
  proof (cases a)
    case 0
    have "filter P xs = take (k - 1) (drop 0 xs)"
      using Cons.prems [of "Suc j" for j] 0 by (intro Cons.IH) auto
    with head 0 show ?thesis by (cases k) auto
  next
    case (Suc a')
    have "filter P xs = take k (drop a' xs)"
      using Cons.prems [of "Suc j" for j] Suc by (intro Cons.IH) auto
    with head Suc show ?thesis by simp
  qed
qed simp

lemma groupLayouts_range:
  assumes "numbered (km_infos s)"
  shows "groupLayouts g s = map (\<lambda>(i, k). ki_layout k) (take 3 (drop (3 * g) (km_infos s)))"
proof -
  have "filter (\<lambda>(i, k). ki_group k = g) (km_infos s) = take 3 (drop (3 * g) (km_infos s))"
  proof (rule filter_nth_range)
    fix j assume "j < length (km_infos s)"
    with assms have "ki_group (snd (km_infos s ! j)) = j div 3" by (simp add: numbered_def list_all_iff)
    then show "(case km_infos s ! j of (i, k) \<Rightarrow> ki_group k = g) \<longleftrightarrow> 3 * g \<le> j \<and> j < 3 * g + 3"
      by (auto simp: case_prod_beta)
  qed
  then show ?thesis by (simp add: groupLayouts_def)
qed

lemma groupLayouts_nth:
  assumes n: "numbered (km_infos s)" and get: "jm_get (km_infos s) i = Some k"
  shows "ki_groupIndex k < length (groupLayouts (ki_group k) s) \<and> groupLayouts (ki_group k) s ! ki_groupIndex k = ki_layout k
    \<and> length (groupLayouts (ki_group k) s) \<le> 3"
proof -
  from get obtain j where j: "j < length (km_infos s)" "km_infos s ! j = (i, k)" by (metis in_set_conv_nth map_of_SomeD)
  have "ki_group (snd (km_infos s ! j)) = j div 3" "ki_groupIndex (snd (km_infos s ! j)) = j mod 3"
    using n j(1) by (simp_all add: numbered_def list_all_iff)
  with j(2) have gi: "ki_group k = j div 3" "ki_groupIndex k = j mod 3" by simp_all
  define q r where "q = j div 3" and "r = j mod 3"
  have qr: "j = 3 * q + r" "r < 3" by (simp_all add: q_def r_def)
  with j show ?thesis by (simp add: groupLayouts_range [OF n] gi flip: q_def r_def)
qed

subsection \<open>The layout in use is the current one\<close>

text \<open>Every keymap that is asked for is set before the next event.\<close>

definition settle :: "kb_manager \<Rightarrow> kb_manager" where
  "settle s = (keymapSet ^^ length (km_pending s)) s"

definition prompt_step :: "xkb_info \<Rightarrow> kb_event \<Rightarrow> kb_manager \<Rightarrow> kb_manager" where
  "prompt_step xkb e s = settle (kb_step xkb e s)"

lemma settle_pending:
  "length p = n \<Longrightarrow> km_pending s = p \<Longrightarrow>
     (keymapSet ^^ n) s = s\<lparr>km_pending := [], km_trace := km_trace s @ map SetGroupIndex p\<rparr>"
proof (induction n arbitrary: s p)
  case (Suc n)
  then obtain i p' where p: "p = i # p'" by (cases p) auto
  have k: "keymapSet s = s\<lparr>km_pending := p', km_trace := km_trace s @ [SetGroupIndex i]\<rparr>"
    using Suc.prems p by (simp add: keymapSet_def applyLayoutGroupIndex_def)
  have "(keymapSet ^^ Suc n) s = (keymapSet ^^ n) (keymapSet s)" by (simp add: funpow_swap1)
  also have "\<dots> = (keymapSet s)\<lparr>km_pending := [], km_trace := km_trace (keymapSet s) @ map SetGroupIndex p'\<rparr>"
    using Suc.prems p k by (intro Suc.IH) simp_all
  finally show ?case by (simp add: k p)
qed simp

lemma settle_eq: "settle s = s\<lparr>km_pending := [], km_trace := km_trace s @ map SetGroupIndex (km_pending s)\<rparr>"
  by (simp add: settle_def settle_pending)

text \<open>Layouts and variants have no commas.\<close>

definition plain_layout :: "layout_info \<Rightarrow> bool" where
  "plain_layout l = (CHR '','' \<notin> set (li_layout l) \<and> CHR '','' \<notin> set (li_variant l))"

definition plain_xkb :: "xkb_info \<Rightarrow> bool" where
  "plain_xkb xkb = (\<forall>i l. xkb i = Some l \<longrightarrow> plain_layout l)"

definition kb_inv :: "kb_manager \<Rightarrow> bool" where
  "kb_inv s = (numbered (km_infos s) \<and> plain_layout (km_locale s) \<and> (\<forall>p\<in>set (km_infos s). plain_layout (ki_layout (snd p)))
     \<and> km_pending s = [] \<and> km_options s \<noteq> None \<and> fst (backend s) = km_keymap s
     \<and> (\<forall>c. km_current s = Some c \<longrightarrow> (\<exists>i. jm_get (km_infos s) i = Some c) \<and> snd (backend s) = ki_groupIndex c
          \<and> (\<exists>os m. km_keymap s = Some (fst (buildGroupStrings (ki_group c) s), snd (buildGroupStrings (ki_group c) s), os, m))))"

lemma groupStrings_cong:
  "km_infos s = km_infos t \<Longrightarrow> km_locale s = km_locale t \<Longrightarrow> buildGroupStrings g s = buildGroupStrings g t"
  by (simp add: buildGroupStrings_def groupLayouts_def)

lemma groupStrings_update [simp]:
  "buildGroupStrings g (s\<lparr>km_trace := t\<rparr>) = buildGroupStrings g s" "buildGroupStrings g (s\<lparr>km_current := c\<rparr>) = buildGroupStrings g s"
  "buildGroupStrings g (s\<lparr>km_pending := p\<rparr>) = buildGroupStrings g s"
  by (rule groupStrings_cong; simp)+

lemma selected_current:
  assumes inv: "kb_inv s" and c: "km_current s = Some c"
  shows "selected s = Some (ki_layout c)"
proof -
  define ls where "ls = groupLayouts (ki_group c) s @ [km_locale s]"
  from inv c obtain i os m where get: "jm_get (km_infos s) i = Some c" and idx: "snd (backend s) = ki_groupIndex c"
    and km: "fst (backend s) = Some (js_join '','' (map li_layout ls), js_join '','' (map li_variant ls), os, m)"
    by (auto simp: kb_inv_def buildGroupStrings_def Let_def ls_def)
  have n: "numbered (km_infos s)" using inv by (simp add: kb_inv_def)
  have at: "ki_groupIndex c < length ls" "ls ! ki_groupIndex c = ki_layout c"
    using groupLayouts_nth [OF n get] by (auto simp: ls_def nth_append)
  have "\<forall>l\<in>set ls. plain_layout l" using inv by (auto simp: ls_def kb_inv_def groupLayouts_def)
  then have "js_split CHR '','' (js_join '','' (map li_layout ls)) = map li_layout ls"
    "js_split CHR '','' (js_join '','' (map li_variant ls)) = map li_variant ls"
    by (auto intro!: js_split_join simp: plain_layout_def ls_def)
  with at show ?thesis using km idx by (cases "backend s") (simp add: selected_def)
qed

lemma doApply_inv:
  assumes inv: "kb_inv s" and get: "jm_get (km_infos s) i = Some c"
  shows "kb_inv ((settle (doApply c s))\<lparr>km_current := Some c\<rparr>)"
proof -
  from inv obtain os where os: "km_options s = Some os" by (auto simp: kb_inv_def)
  define s1 where "s1 = or_else (applyLayoutGroup (ki_group c) s) s"
  have alg: "applyLayoutGroup (ki_group c) s = Some s1"
    using os by (simp add: s1_def applyLayoutGroup_def buildOptionsString_def Let_def case_prod_beta)
  have s1: "km_infos s1 = km_infos s" "km_locale s1 = km_locale s" "km_pending s1 = []" "km_options s1 = Some os"
    "\<exists>os m. km_keymap s1 = Some (fst (buildGroupStrings (ki_group c) s), snd (buildGroupStrings (ki_group c) s), os, m)"
    using inv os by (auto simp: s1_def applyLayoutGroup_def buildOptionsString_def kb_inv_def Let_def case_prod_beta)
  have fb: "fst (backend s1) = km_keymap s1"
  proof (cases "backend s")
    case (Pair m j)
    with inv os show ?thesis
      by (simp add: s1_def applyLayoutGroup_def buildOptionsString_def kb_inv_def Let_def case_prod_beta) (simp add: backend_def)
  qed
  have "settle (doApply c s) = s1\<lparr>km_trace := km_trace s1 @ [SetGroupIndex (ki_groupIndex c)]\<rparr>"
    using s1(3) by (simp add: settle_eq doApply_def alg)
  then show ?thesis
    using inv get s1 fb by (cases "backend s1") (auto simp: kb_inv_def buildGroupStrings_def groupLayouts_def Let_def)
qed

lemma settle_current: "settle (s\<lparr>km_current := c\<rparr>) = (settle s)\<lparr>km_current := c\<rparr>"
  by (simp add: settle_eq)

lemma prompt_inv:
  assumes inv: "kb_inv s" and xkb: "plain_xkb xkb"
  shows "kb_inv (prompt_step xkb e s)"
proof -
  have settled: "settle s = s" using inv by (simp add: settle_eq kb_inv_def)
  show ?thesis
  proof (cases e)
    case (SetUserLayouts ids)
    have "plain_layout l" if "(i, l) \<in> set (knownLayouts xkb ids)" for i l
    proof -
      have "map_of (knownLayouts xkb ids) i = Some l" using that knownLayouts_distinct [of xkb ids] by simp
      moreover have "map_of (fold (\<lambda>i m. case xkb i of None \<Rightarrow> m | Some l \<Rightarrow> jm_set m i l) ids m) i = Some l
        \<Longrightarrow> (map_of m i = Some l \<or> xkb i = Some l)" for m
      proof (induction ids arbitrary: m)
        case (Cons a ids)
        show ?case
        proof (cases "xkb a")
          case None
          with Cons show ?thesis by simp
        next
          case (Some b)
          with Cons.prems have "map_of (fold (\<lambda>i m. case xkb i of None \<Rightarrow> m | Some l \<Rightarrow> jm_set m i l) ids (jm_set m a b)) i = Some l" by simp
          from Cons.IH [OF this] Some show ?thesis by (auto split: if_splits)
        qed
      qed simp
      ultimately show ?thesis using xkb by (fastforce simp: knownLayouts_def plain_xkb_def)
    qed
    then have "\<forall>p\<in>set (km_infos (setUserLayouts xkb ids s)). plain_layout (ki_layout (snd p))"
      by (auto simp: setUserLayouts_def in_set_conv_nth groupInfos_length groupInfos_nth) (metis nth_mem prod.collapse)
    with inv setUserLayouts_numbered [of xkb ids s] SetUserLayouts show ?thesis
      by (simp add: prompt_step_def settle_eq) (simp add: kb_inv_def setUserLayouts_def backend_def)
  next
    case (ApplyLayout i)
    show ?thesis
    proof (cases "jm_get (km_infos s) i")
      case None
      with ApplyLayout inv settled show ?thesis by (simp add: prompt_step_def kb_apply_def)
    next
      case (Some k)
      note k = this
      show ?thesis
      proof (cases "km_current s")
        case None
        with k ApplyLayout doApply_inv [OF inv k] show ?thesis by (simp add: prompt_step_def kb_apply_def settle_current)
      next
        case (Some c)
        show ?thesis
        proof (cases "ki_group c = ki_group k")
          case True
          show ?thesis
          proof -
            obtain m j where b: "backend s = (m, j)" by fastforce
            from inv Some have "\<exists>os m. km_keymap s = Some (fst (buildGroupStrings (ki_group k) s), snd (buildGroupStrings (ki_group k) s), os, m)"
              and j: "j = ki_groupIndex c" using True b by (auto simp: kb_inv_def)
            note keymap = this(1)
            define s1 where "s1 = (if ki_groupIndex c \<noteq> ki_groupIndex k then applyLayoutGroupIndex (ki_groupIndex k) s else s)"
            have "backend s1 = (m, ki_groupIndex k)" using b j by (simp add: s1_def applyLayoutGroupIndex_def)
            moreover have "km_infos s1 = km_infos s" "km_locale s1 = km_locale s" "km_pending s1 = []" "km_keymap s1 = km_keymap s" "km_options s1 = km_options s"
              "buildGroupStrings g s1 = buildGroupStrings g s" for g
              using inv by (simp_all add: s1_def applyLayoutGroupIndex_def kb_inv_def)
            moreover have "prompt_step xkb e s = s1\<lparr>km_current := Some k\<rparr>"
              using k Some True ApplyLayout calculation(4) by (simp add: prompt_step_def kb_apply_def settle_current settle_eq flip: s1_def)
            ultimately show ?thesis using inv k keymap b by (auto simp: kb_inv_def)
          qed
        next
          case False
          with k Some ApplyLayout doApply_inv [OF inv k] show ?thesis by (simp add: prompt_step_def kb_apply_def settle_current)
        qed
      qed
    qed
  next
    case Reapply
    show ?thesis
    proof (cases "km_current s")
      case None
      with Reapply inv settled show ?thesis by (simp add: prompt_step_def kb_reapply_def)
    next
      case (Some c)
      with inv obtain i where "jm_get (km_infos s) i = Some c" by (auto simp: kb_inv_def)
      from doApply_inv [OF inv this] have "kb_inv ((settle (doApply c s))\<lparr>km_current := Some c\<rparr>)" .
      moreover have "km_current (settle (doApply c s)) = Some c"
        using Some by (simp add: settle_eq doApply_def applyLayoutGroup_def Let_def case_prod_beta split: option.split)
      then have "(settle (doApply c s))\<lparr>km_current := Some c\<rparr> = settle (doApply c s)" by simp
      ultimately show ?thesis using Reapply Some by (simp add: prompt_step_def kb_reapply_def)
    qed
  next
    case (SetOptions os)
    with inv show ?thesis
      by (auto simp: prompt_step_def settle_eq setKeyboardOptions_def kb_inv_def buildGroupStrings_def groupLayouts_def Let_def backend_def)
  next
    case (SetModel m)
    with inv show ?thesis
      by (auto simp: prompt_step_def settle_eq setKeyboardModel_def kb_inv_def buildGroupStrings_def groupLayouts_def Let_def backend_def)
  next
    case KeymapSet
    with inv settled show ?thesis by (simp add: prompt_step_def keymapSet_def kb_inv_def)
  qed
qed

text \<open>The manager when the input source manager has loaded its settings, before any layout is applied.\<close>

definition readyManager :: "layout_info \<Rightarrow> string list \<Rightarrow> string \<Rightarrow> kb_manager" where
  "readyManager locale os m = setKeyboardModel m (setKeyboardOptions os (newKeyboardManager locale))"

text \<open>C28: Once options and model have been set, and while keymaps are set promptly, the layout in use is the
  current one: in every state reached by setting the user's
  layouts, options and model, applying and reapplying layouts, the layout and variant at the index of the keymap
  of the backend are those of the current layout, whatever the groups.
\<close>

theorem current_layout_in_use:
  assumes "plain_xkb xkb" and "plain_layout locale"
    and "km_current (fold (prompt_step xkb) es (readyManager locale os m)) = Some c"
  shows "selected (fold (prompt_step xkb) es (readyManager locale os m)) = Some (ki_layout c)"
proof -
  have start: "kb_inv (readyManager locale os m)"
    using assms(2) by (simp add: kb_inv_def readyManager_def setKeyboardModel_def setKeyboardOptions_def
        newKeyboardManager_def numbered_def backend_def)
  have "kb_inv (fold (prompt_step xkb) es s)" if "kb_inv s" for s
    using that prompt_inv [OF _ assms(1)] by (induction es arbitrary: s) simp_all
  from selected_current [OF this [OF start] assms(3)] show ?thesis .
qed

definition sample_xkb :: xkb_info where
  "sample_xkb i = (if i \<in> {''us'', ''de'', ''fr'', ''pl'', ''cz''} then Some \<lparr>li_layout = i, li_variant = (if i = ''de'' then ''neo'' else '''')\<rparr> else None)"

definition sample_manager :: kb_manager where
  "sample_manager = readyManager \<lparr>li_layout = ''gb'', li_variant = ''''\<rparr> [''compose:ralt''] ''pc105''"

theorem current_layout_in_use_witness:
  "selected (fold (prompt_step sample_xkb)
     [SetUserLayouts [''us'', ''xx'', ''de'', ''fr'', ''us'', ''pl'', ''cz''], ApplyLayout ''us'', ApplyLayout ''pl'', SetOptions [''caps''],
      ApplyLayout ''de'', Reapply] sample_manager)
   = Some \<lparr>li_layout = ''de'', li_variant = ''neo''\<rparr>"
proof -
  have "plain_xkb sample_xkb" by (auto simp: plain_xkb_def sample_xkb_def plain_layout_def)
  moreover have "plain_layout \<lparr>li_layout = ''gb'', li_variant = ''''\<rparr>" by (simp add: plain_layout_def)
  moreover have "km_current (fold (prompt_step sample_xkb)
     [SetUserLayouts [''us'', ''xx'', ''de'', ''fr'', ''us'', ''pl'', ''cz''], ApplyLayout ''us'', ApplyLayout ''pl'', SetOptions [''caps''],
      ApplyLayout ''de'', Reapply] sample_manager)
     = Some \<lparr>ki_id = ''de'', ki_layout = \<lparr>li_layout = ''de'', li_variant = ''neo''\<rparr>, ki_group = 0, ki_groupIndex = 1\<rparr>"
    by code_simp
  ultimately show ?thesis unfolding sample_manager_def using current_layout_in_use by fastforce
qed

text \<open>A layout that is applied before any options are set becomes the current one, but no keymap is set, and setting
  the options afterwards does not set it: only reapplying does.
\<close>

theorem apply_before_options:
  "let s = fold (prompt_step sample_xkb) [SetUserLayouts [''us''], ApplyLayout ''us'', SetOptions [], ApplyLayout ''us'']
             (newKeyboardManager \<lparr>li_layout = ''gb'', li_variant = ''''\<rparr>)
   in map_option ki_id (km_current s) = Some ''us'' \<and> selected s = None
    \<and> map_option li_layout (selected (prompt_step sample_xkb Reapply s)) = Some ''us''"
  by code_simp

text \<open>A layout of the same group that is applied while the keymap of the group is still being set does not stay in use:
  when the keymap is set, the index of the first one is set again, though the second one is the current layout.
\<close>

theorem late_keymap_selects_old_layout:
  "let s = fold (kb_step sample_xkb) [SetUserLayouts [''us'', ''de''], ApplyLayout ''us'', ApplyLayout ''de'', KeymapSet]
             sample_manager
   in map_option ki_id (km_current s) = Some ''de'' \<and> map_option li_layout (selected s) = Some ''us''"
  by code_simp

end
