(* ===== verification/InputSources.thy ===== *)
theory InputSources
  imports KeyboardManager
begin

section \<open>Input sources (\<open>InputSourceManager\<close> in \<open>js/ui/status/keyboard.js\<close>)\<close>

text \<open>
  The manager keeps the input sources of the settings in their order and in the order of their last use, and
  applies the current one to the keyboard layouts, which it works on, and to IBus. It makes new objects for
  the sources whenever the settings change, so an object is known by the change it was made in
  (\<open>is_gen\<close>) and its index. What the system knows of a source, and the window that has the focus,
  are parameters; the settings are part of the state, and the calls of IBus are a trace.
\<close>

datatype source_type = XKB | IBUS

type_synonym source_key = "source_type \<times> string"

record input_source =
  is_type :: source_type
  is_id :: string
  is_displayName :: string
  is_shortName :: string
  is_index :: nat
  is_gen :: nat
  is_xkbId :: string

definition same_object :: "input_source \<Rightarrow> input_source \<Rightarrow> bool" where
  "same_object a b = (is_gen a = is_gen b \<and> is_index a = is_index b)"

definition source_key :: "input_source \<Rightarrow> source_key" where
  "source_key s = (is_type s, is_id s)"

datatype im_call =
    HoldKeyboard | ReleaseKeyboard
  | SetEngine string
  | PreloadEngines "string list"
  | EmitCurrentChanged "input_source option"      \<comment> \<open>with the old one\<close>
  | EmitSourcesChanged

record im_settings =
  ims_sources :: "source_key list"
  ims_mru :: "source_key list"
  ims_options :: "string list"
  ims_model :: string
  ims_perWindow :: bool
  ims_system :: bool              \<comment> \<open>of the greeter: the order of use is not stored\<close>

text \<open>
  What the code puts on a window: the sources (which change) and the current one. The switcher works on the
  manager's own array of recently used sources, until the manager makes a new one: \<open>im_popup\<close> has its items,
  and whether they still are that array.
\<close>

record window_source =
  ws_sources :: "nat option"
  ws_current :: "input_source option"

record input_sources =
  im_sources :: "input_source list"
  im_gen :: nat
  im_current :: "input_source option"
  im_mru :: "input_source list"
  im_mruBackup :: "input_source list option"
  im_ibusReady :: bool
  im_disableIBus :: bool
  im_reloading :: bool
  im_perWindow :: bool
  im_popup :: "(input_source list \<times> bool) option"
  im_windows :: "nat \<Rightarrow> window_source"
  im_engines :: "bool list"                     \<comment> \<open>engines being set: with the keyboard held?\<close>
  im_settings :: im_settings
  im_keyboard :: kb_manager
  im_trace :: "im_call list"

text \<open>
  The names of a layout, and of an engine of IBus (\<open>None\<close> if it does not exist); the layout of an engine;
  the languages of a layout; the window that counts, which is the overview while that is visible.
\<close>

record im_env =
  ie_xkb :: xkb_info
  ie_layoutNames :: "string \<Rightarrow> (string \<times> string) option"
  ie_engineNames :: "string \<Rightarrow> (string \<times> string) option"
  ie_engineLayout :: "string \<Rightarrow> (string \<times> string) option"       \<comment> \<open>layout and variant\<close>
  ie_languages :: "string \<Rightarrow> string list"
  ie_window :: "nat option"

definition getXkbId :: "im_env \<Rightarrow> string \<Rightarrow> string" where
  "getXkbId env i =
     (case ie_engineLayout env i of
        None \<Rightarrow> i
      | Some (layout, variant) \<Rightarrow> if variant \<noteq> [] then layout @ ''+'' @ variant else layout)"

text \<open>The sources of the greeter come from two comma-separated lists.\<close>

definition systemInputSources :: "string \<Rightarrow> string \<Rightarrow> source_key list" where
  "systemInputSources layouts variants =
     (let ls = takeWhile (\<lambda>l. l \<noteq> []) (js_split CHR '','' layouts); vs = js_split CHR '','' variants
      in map (\<lambda>(i, l). (XKB, if i < length vs \<and> vs ! i \<noteq> [] then l @ ''+'' @ vs ! i else l)) (enumerate 0 ls))"

definition mruSources :: "im_settings \<Rightarrow> source_key list" where
  "mruSources t = (if ims_system t then [] else ims_mru t)"

definition updateMruSettings :: "input_sources \<Rightarrow> input_sources" where
  "updateMruSettings s =
     (if \<not> im_ibusReady s then s
      else if im_disableIBus s then s
      else if ims_system (im_settings s) then s
      else s\<lparr>im_settings := (im_settings s)\<lparr>ims_mru := map source_key (im_mru s)\<rparr>\<rparr>)"

definition changePerWindowSource :: "im_env \<Rightarrow> input_sources \<Rightarrow> input_sources" where
  "changePerWindowSource env s =
     (if \<not> im_perWindow s then s
      else case ie_window env of
             None \<Rightarrow> s
           | Some w \<Rightarrow> s\<lparr>im_windows := (im_windows s)(w := \<lparr>ws_sources = Some (im_gen s), ws_current = im_current s\<rparr>)\<rparr>)"

definition moveToFront :: "input_source \<Rightarrow> input_source list \<Rightarrow> input_source list" where
  "moveToFront new mru =
     (case mru of
        [] \<Rightarrow> []
      | m # ms \<Rightarrow>
          (let i = js_findIndex (same_object new) ms
           in if i < 0 then m # ms else ms ! nat i # m # js_remove_at i ms))"

text \<open>\<open>splice\<close> takes the source out of the array, which the switcher may have too, and \<open>concat\<close> makes a new one.\<close>

definition spliceShared :: "input_source \<Rightarrow> input_sources \<Rightarrow> (input_source list \<times> bool) option" where
  "spliceShared new s =
     (let i = js_findIndex (same_object new) (tl (im_mru s))
      in if i < 0 then im_popup s
         else map_option (\<lambda>(items, shared). (if shared then js_remove_at (i + 1) items else items, False)) (im_popup s))"

definition ownArray :: "input_sources \<Rightarrow> input_sources" where
  "ownArray s = s\<lparr>im_popup := map_option (\<lambda>(items, shared). (items, False)) (im_popup s)\<rparr>"

definition currentInputSourceChanged :: "im_env \<Rightarrow> input_source \<Rightarrow> input_sources \<Rightarrow> input_sources" where
  "currentInputSourceChanged env new s =
     (let s1 = s\<lparr>im_current := Some new, im_trace := im_trace s @ [EmitCurrentChanged (im_current s)]\<rparr>
      in changePerWindowSource env (s1\<lparr>im_mru := moveToFront new (im_mru s1), im_popup := spliceShared new s1\<rparr>))"

definition engineName :: "im_env \<Rightarrow> input_source \<Rightarrow> string" where
  "engineName env s =
     (case is_type s of
        IBUS \<Rightarrow> is_id s
      | XKB \<Rightarrow>
          (let parts = js_split CHR ''+'' (is_id s);
               variant = (if length parts > 1 then parts ! 1 else '''');
               lang = (case ie_languages env (is_id s) of [] \<Rightarrow> ''eng'' | l # ls \<Rightarrow> l)
           in ''xkb:'' @ hd parts @ '':'' @ variant @ '':'' @ lang))"

definition activateInputSource :: "im_env \<Rightarrow> input_source \<Rightarrow> bool \<Rightarrow> input_sources \<Rightarrow> input_sources" where
  "activateInputSource env new interactive s =
     (let hold = \<not> im_reloading s;
          s1 = s\<lparr>im_trace := im_trace s @ (if hold then [HoldKeyboard] else []) @ [SetEngine (engineName env new)],
                 im_keyboard := kb_apply (is_xkbId new) (im_keyboard s),
                 im_engines := im_engines s @ [hold]\<rparr>;
          s2 = currentInputSourceChanged env new s1
      in if interactive then updateMruSettings s2 else s2)"

text \<open>IBus has set an engine.\<close>

definition engineSet :: "input_sources \<Rightarrow> input_sources" where
  "engineSet s =
     (case im_engines s of
        [] \<Rightarrow> s
      | hold # hs \<Rightarrow> s\<lparr>im_engines := hs, im_trace := im_trace s @ (if hold then [ReleaseKeyboard] else [])\<rparr>)"

text \<open>
  The recently used sources are looked up among the sources, each of which is taken once; those that were not found follow.
  The list is taken over only if it has more than one source.
\<close>

fun takeMru :: "source_key list \<Rightarrow> input_source list \<Rightarrow> input_source list \<times> input_source list" where
  "takeMru [] xs = ([], xs)"
| "takeMru (k # ks) xs =
     (let j = js_findIndex (\<lambda>x. source_key x = k) xs
      in if j < 0 then takeMru ks xs
         else (let (ys, rest) = takeMru ks (js_remove_at j xs) in (xs ! nat j # ys, rest)))"

definition updateMruSources :: "im_env \<Rightarrow> input_sources \<Rightarrow> input_sources" where
  "updateMruSources env s =
     (let sourcesList = im_sources s;
          s1 = s\<lparr>im_keyboard := setUserLayouts (ie_xkb env) (map is_xkbId sourcesList) (im_keyboard s)\<rparr>;
          s2 = (if \<not> im_disableIBus s1 \<and> im_mruBackup s1 \<noteq> None
                then s1\<lparr>im_mru := the (im_mruBackup s1), im_mruBackup := None\<rparr> else s1);
          mru = (if im_mru s2 = []
                 then List.map_filter (\<lambda>k. find (\<lambda>x. source_key x = k) sourcesList) (mruSources (im_settings s2))
                 else im_mru s2);
          (found, rest) = (if length mru > 1 then takeMru (map source_key mru) sourcesList else ([], sourcesList))
      in (ownArray s2)\<lparr>im_mru := found @ rest\<rparr>)"

text \<open>\<open>_inputSourcesChanged\<close>: the sources that exist, or the default layout; those with the same short name are numbered.\<close>

definition sourceInfos :: "im_env \<Rightarrow> bool \<Rightarrow> source_key list \<Rightarrow> (source_key \<times> string \<times> string) list" where
  "sourceInfos env disableIBus keys =
     (let infos = List.map_filter (\<lambda>(t, i).
          map_option (Pair (t, i))
            (case t of XKB \<Rightarrow> ie_layoutNames env i | IBUS \<Rightarrow> if disableIBus then None else ie_engineNames env i)) keys
      in if infos = [] then [((XKB, ''us''), or_else (ie_layoutNames env ''us'') ('''', ''''))] else infos)"

text \<open>\<open>String.fromCharCode(0x2080 + sub)\<close>, as UTF-8.\<close>

definition subscript :: "nat \<Rightarrow> string" where
  "subscript n = map char_of [226, 130 + (128 + n) div 64 - 2, 128 + n mod 64 :: nat]"

definition numberedName :: "string list \<Rightarrow> nat \<Rightarrow> string" where
  "numberedName names i =
     (let n = names ! i
      in if count_list names n > 1 then n @ subscript (count_list (take i names) n + 1) else n)"

definition makeSources :: "im_env \<Rightarrow> nat \<Rightarrow> (source_key \<times> string \<times> string) list \<Rightarrow> input_source list" where
  "makeSources env gen infos =
     (let names = map (\<lambda>(k, d, n). n) infos
      in map (\<lambda>(i, ((t, sid), display, short)).
           \<lparr>is_type = t, is_id = sid, is_displayName = display, is_shortName = numberedName names i, is_index = i, is_gen = gen,
            is_xkbId = getXkbId env sid\<rparr>) (enumerate 0 infos))"

definition ibusIds :: "input_sources \<Rightarrow> string list" where
  "ibusIds s = rev (remdups (rev (map is_id (filter (\<lambda>x. is_type x = IBUS) (im_sources s)))))"

definition inputSourcesChanged :: "im_env \<Rightarrow> input_sources \<Rightarrow> input_sources" where
  "inputSourcesChanged env s =
     (let gen = im_gen s + 1;
          infos = sourceInfos env (im_disableIBus s) (ims_sources (im_settings s));
          s1 = s\<lparr>im_current := None, im_gen := gen, im_sources := makeSources env gen infos,
                 im_trace := im_trace s @ [EmitSourcesChanged]\<rparr>;
          s2 = updateMruSources env s1;
          s3 = (case im_mru s2 of [] \<Rightarrow> s2 | m # ms \<Rightarrow> activateInputSource env m False s2)
      in s3\<lparr>im_trace := im_trace s3 @ [PreloadEngines (ibusIds s3)]\<rparr>)"

definition im_reload :: "im_env \<Rightarrow> input_sources \<Rightarrow> input_sources" where
  "im_reload env s =
     (let kb = setKeyboardModel (ims_model (im_settings s)) (setKeyboardOptions (ims_options (im_settings s)) (im_keyboard s));
          s1 = inputSourcesChanged env (s\<lparr>im_reloading := True, im_keyboard := kb\<rparr>)
      in s1\<lparr>im_reloading := False\<rparr>)"

definition ibusReadyCallback :: "im_env \<Rightarrow> bool \<Rightarrow> input_sources \<Rightarrow> input_sources" where
  "ibusReadyCallback env ready s =
     (if im_ibusReady s = ready then s else inputSourcesChanged env ((ownArray s)\<lparr>im_ibusReady := ready, im_mru := []\<rparr>))"

text \<open>\<open>_modifiersSwitcher\<close>: the next source in the order of the settings, after the last one the first. There always is a source.\<close>

definition modifiersSwitcher :: "im_env \<Rightarrow> input_sources \<Rightarrow> input_sources" where
  "modifiersSwitcher env s =
     (let xs = im_sources s
      in if xs = [] then s\<lparr>im_trace := im_trace s @ [ReleaseKeyboard]\<rparr>
         else let cur = or_else (im_current s) (hd xs);
                  next = (if is_index cur + 1 > length xs - 1 then 0 else is_index cur + 1)
              in activateInputSource env (xs ! next) True s)"

definition switchInputSource :: "im_env \<Rightarrow> bool \<Rightarrow> input_sources \<Rightarrow> input_sources" where
  "switchInputSource env popupMode s =
     (if length (im_mru s) < 2 then s
      else if popupMode then modifiersSwitcher env s
      else s\<lparr>im_popup := Some (im_mru s, True)\<rparr>)"

text \<open>The switcher is closed, with a choice or without.\<close>

definition finishSwitcher :: "im_env \<Rightarrow> nat option \<Rightarrow> input_sources \<Rightarrow> input_sources" where
  "finishSwitcher env choice s =
     (case im_popup s of
        None \<Rightarrow> s
      | Some (items, shared) \<Rightarrow>
          (let s1 = (case choice of Some i \<Rightarrow> if i < length items then activateInputSource env (items ! i) True s else s | None \<Rightarrow> s)
           in s1\<lparr>im_popup := None\<rparr>))"

definition keyboardOptionsChanged :: "input_sources \<Rightarrow> input_sources" where
  "keyboardOptionsChanged s = s\<lparr>im_keyboard := kb_reapply (setKeyboardOptions (ims_options (im_settings s)) (im_keyboard s))\<rparr>"

definition keyboardModelChanged :: "input_sources \<Rightarrow> input_sources" where
  "keyboardModelChanged s = s\<lparr>im_keyboard := kb_reapply (setKeyboardModel (ims_model (im_settings s)) (im_keyboard s))\<rparr>"

text \<open>\<open>_ibusSetContentType\<close>: engines of IBus are not used for passwords.\<close>

definition ibusSetContentType :: "im_env \<Rightarrow> bool \<Rightarrow> input_sources \<Rightarrow> input_sources" where
  "ibusSetContentType env password s =
     (if im_popup s \<noteq> None then s
      else if password
      then (if length (im_sources s) = length (ibusIds s) then s
            else if im_disableIBus s then s
            else im_reload env (s\<lparr>im_disableIBus := True, im_mruBackup := Some (im_mru s)\<rparr>))
      else (if \<not> im_disableIBus s then s else im_reload env (s\<lparr>im_disableIBus := False\<rparr>)))"

definition getNewInputSource :: "input_source option \<Rightarrow> input_sources \<Rightarrow> input_source option" where
  "getNewInputSource current s =
     (case im_sources s of
        [] \<Rightarrow> None
      | x # xs \<Rightarrow>
          (case current of
             None \<Rightarrow> Some x
           | Some c \<Rightarrow> (case find (\<lambda>y. source_key y = source_key c) (x # xs) of None \<Rightarrow> Some x | Some y \<Rightarrow> Some y)))"

definition setPerWindowInputSource :: "im_env \<Rightarrow> input_sources \<Rightarrow> input_sources" where
  "setPerWindowInputSource env s =
     (case ie_window env of
        None \<Rightarrow> s
      | Some w \<Rightarrow>
          (let ws = im_windows s w;
               ws1 = (if ws_sources ws \<noteq> Some (im_gen s)
                      then \<lparr>ws_sources = Some (im_gen s), ws_current = getNewInputSource (ws_current ws) s\<rparr> else ws);
               s1 = s\<lparr>im_windows := (im_windows s)(w := ws1)\<rparr>
           in case ws_current ws1 of None \<Rightarrow> s1 | Some c \<Rightarrow> activateInputSource env c False s1))"

definition sourcesPerWindowChanged :: "input_sources \<Rightarrow> input_sources" where
  "sourcesPerWindowChanged s =
     (let p = ims_perWindow (im_settings s)
      in if im_perWindow s \<and> \<not> p
         then s\<lparr>im_perWindow := p, im_windows := (\<lambda>w. \<lparr>ws_sources = None, ws_current = None\<rparr>)\<rparr>
         else s\<lparr>im_perWindow := p\<rparr>)"

definition newInputSourceManager :: "im_settings \<Rightarrow> kb_manager \<Rightarrow> input_sources" where
  "newInputSourceManager t kb =
     \<lparr>im_sources = [], im_gen = 0, im_current = None, im_mru = [], im_mruBackup = None, im_ibusReady = False,
      im_disableIBus = False, im_reloading = False, im_perWindow = ims_perWindow t, im_popup = None,
      im_windows = (\<lambda>w. \<lparr>ws_sources = None, ws_current = None\<rparr>), im_engines = [], im_settings = t, im_keyboard = kb, im_trace = []\<rparr>"

text \<open>The window's handlers are only connected while the setting is on. After the construction the shell calls \<open>reload\<close>.\<close>

datatype im_event =
    SourcesChanged "source_key list"
  | OptionsChanged "string list"
  | ModelChanged string
  | PerWindowChanged bool
  | IBusReady bool
  | ContentType bool
  | SwitchSource bool
  | SwitcherDone "nat option"
  | ModifiersSwitch
  | ActivateFromMenu nat
  | FocusChanged
  | EngineSet
  | KeymapIsSet

fun im_step :: "im_env \<times> im_event \<Rightarrow> input_sources \<Rightarrow> input_sources" where
  "im_step (env, SourcesChanged ks) s = inputSourcesChanged env (s\<lparr>im_settings := (im_settings s)\<lparr>ims_sources := ks\<rparr>\<rparr>)"
| "im_step (env, OptionsChanged os) s = keyboardOptionsChanged (s\<lparr>im_settings := (im_settings s)\<lparr>ims_options := os\<rparr>\<rparr>)"
| "im_step (env, ModelChanged m) s = keyboardModelChanged (s\<lparr>im_settings := (im_settings s)\<lparr>ims_model := m\<rparr>\<rparr>)"
| "im_step (env, PerWindowChanged p) s = sourcesPerWindowChanged (s\<lparr>im_settings := (im_settings s)\<lparr>ims_perWindow := p\<rparr>\<rparr>)"
| "im_step (env, IBusReady r) s = ibusReadyCallback env r s"
| "im_step (env, ContentType p) s = ibusSetContentType env p s"
| "im_step (env, SwitchSource p) s = switchInputSource env p s"
| "im_step (env, SwitcherDone c) s = finishSwitcher env c s"
| "im_step (env, ModifiersSwitch) s = modifiersSwitcher env s"
| "im_step (env, ActivateFromMenu i) s =
     (if i < length (im_sources s) then activateInputSource env (im_sources s ! i) True s else s)"
| "im_step (env, FocusChanged) s = (if im_perWindow s then setPerWindowInputSource env s else s)"
| "im_step (env, EngineSet) s = engineSet s"
| "im_step (env, KeymapIsSet) s = s\<lparr>im_keyboard := keymapSet (im_keyboard s)\<rparr>"

definition im_start :: "im_env \<Rightarrow> im_settings \<Rightarrow> kb_manager \<Rightarrow> input_sources" where
  "im_start env t kb = im_reload env (newInputSourceManager t kb)"

end
