(* ===== verification/InputSourcesProps.thy ===== *)
theory InputSourcesProps
  imports InputSources "HOL-Library.Multiset"
begin

section \<open>Input sources: the order of use\<close>

text \<open>
  The recently used sources are always the sources, in another order, with the current one in front; the order
  survives the switching off of IBus for a password and a new session.
\<close>

subsection \<open>Lists\<close>

lemma js_remove_at_mset:
  "i < length xs \<Longrightarrow> add_mset (xs ! i) (mset (js_remove_at (int i) xs)) = mset xs"
proof -
  assume i: "i < length xs"
  have "mset xs = mset (take i xs @ xs ! i # drop (Suc i) xs)" using id_take_nth_drop [OF i] by simp
  then show ?thesis by (simp add: js_remove_at_def)
qed

lemma js_findIndex_range: "js_findIndex p xs < int (length xs) \<and> -1 \<le> js_findIndex p xs"
  by (induction xs) (auto simp: Let_def)

lemma js_findIndex_found:
  "0 \<le> js_findIndex p xs \<Longrightarrow> p (xs ! nat (js_findIndex p xs)) \<and> nat (js_findIndex p xs) < length xs"
proof (induction xs)
  case (Cons x xs)
  then show ?case by (auto simp: Let_def nat_add_distrib split: if_splits)
qed simp

lemma js_findIndex_neg: "js_findIndex p xs < 0 \<longleftrightarrow> (\<forall>x\<in>set xs. \<not> p x)"
  using js_findIndex_none [of p xs] js_findIndex_range [of p xs] by auto

lemma moveToFront_mset: "mset (moveToFront c xs) = mset xs"
proof (cases xs)
  case (Cons m ms)
  show ?thesis
  proof (cases "js_findIndex (same_object c) ms < 0")
    case True
    with Cons show ?thesis by (simp add: moveToFront_def)
  next
    case False
    then have "0 \<le> js_findIndex (same_object c) ms" by simp
    from js_findIndex_found [OF this] js_remove_at_mset [of "nat (js_findIndex (same_object c) ms)" ms] False Cons show ?thesis
      by (simp add: moveToFront_def Let_def)
  qed
qed (simp add: moveToFront_def)

lemma moveToFront_hd:
  assumes "c \<in> set xs" and "\<And>x. x \<in> set xs \<Longrightarrow> same_object c x \<Longrightarrow> x = c"
  shows "moveToFront c xs \<noteq> [] \<and> hd (moveToFront c xs) = c"
proof (cases xs)
  case Nil
  with assms(1) show ?thesis by simp
next
  case (Cons m ms)
  show ?thesis
  proof (cases "js_findIndex (same_object c) ms < 0")
    case True
    then have "\<forall>x\<in>set ms. \<not> same_object c x" by (simp add: js_findIndex_neg)
    with assms(1) Cons have "m = c" by (auto simp: same_object_def)
    with True Cons show ?thesis by (simp add: moveToFront_def)
  next
    case False
    then have "0 \<le> js_findIndex (same_object c) ms" by simp
    from js_findIndex_found [OF this] assms(2) Cons have "ms ! nat (js_findIndex (same_object c) ms) = c" by simp
    with False Cons show ?thesis by (simp add: moveToFront_def Let_def)
  qed
qed

lemma takeMru_mset: "mset (fst (takeMru ks xs)) + mset (snd (takeMru ks xs)) = mset xs"
proof (induction ks arbitrary: xs)
  case (Cons k ks)
  define j where "j = js_findIndex (\<lambda>x. source_key x = k) xs"
  show ?case
  proof (cases "j < 0")
    case True
    with Cons show ?thesis by (simp add: j_def)
  next
    case False
    then have "nat j < length xs" using js_findIndex_found [of "\<lambda>x. source_key x = k" xs] by (simp add: j_def)
    from js_remove_at_mset [OF this] False Cons.IH [of "js_remove_at j xs"] show ?thesis
      by (simp add: Let_def case_prod_beta flip: j_def)
  qed
qed simp

text \<open>Keys that are those of the sources in some order are all found, in their order.\<close>

lemma takeMru_keys:
  "mset ks = mset (map source_key xs) \<Longrightarrow> map source_key (fst (takeMru ks xs)) = ks \<and> snd (takeMru ks xs) = []"
proof (induction ks arbitrary: xs)
  case (Cons k ks)
  define j where "j = js_findIndex (\<lambda>x. source_key x = k) xs"
  have "k \<in> set (map source_key xs)" using Cons.prems by (metis list.set_intros(1) mset_eq_setD)
  then have "\<not> j < 0" by (auto simp: j_def js_findIndex_neg)
  then have j: "nat j < length xs" "source_key (xs ! nat j) = k"
    using js_findIndex_found [of "\<lambda>x. source_key x = k" xs] by (simp_all add: j_def)
  have "image_mset source_key (add_mset (xs ! nat j) (mset (js_remove_at j xs))) = add_mset k (mset ks)"
    using js_remove_at_mset [OF j(1)] Cons.prems \<open>\<not> j < 0\<close> by simp
  then have "mset ks = mset (map source_key (js_remove_at j xs))" using j(2) by simp
  from Cons.IH [OF this] j(2) \<open>\<not> j < 0\<close> show ?case by (simp add: Let_def case_prod_beta flip: j_def)
qed simp

text \<open>Sources that are looked up by keys they have keep the keys.\<close>

lemma map_filter_find_keys:
  "set ks \<subseteq> set (map source_key xs) \<Longrightarrow> map source_key (List.map_filter (\<lambda>k. find (\<lambda>x. source_key x = k) xs) ks) = ks"
proof (induction ks)
  case (Cons k ks)
  then have "find (\<lambda>x. source_key x = k) xs \<noteq> None" by (auto simp: find_None_iff)
  then obtain x where x: "find (\<lambda>x. source_key x = k) xs = Some x" by blast
  then have "source_key x = k" by (auto simp: find_Some_iff)
  with x Cons show ?case by (simp add: map_filter_simps)
qed (simp add: map_filter_simps)

subsection \<open>The invariant\<close>

text \<open>Sources have distinct objects: their indexes count through, and they are of the same making.\<close>

definition sources_ok :: "input_sources \<Rightarrow> bool" where
  "sources_ok s = (im_sources s \<noteq> [] \<and> map is_index (im_sources s) = [0..<length (im_sources s)]
     \<and> (\<forall>x\<in>set (im_sources s). is_gen x = im_gen s))"

definition mru_ok :: "input_sources \<Rightarrow> bool" where
  "mru_ok s = (sources_ok s \<and> mset (im_mru s) = mset (im_sources s)
     \<and> (\<exists>c. im_current s = Some c \<and> (c \<in> set (im_sources s) \<longrightarrow> hd (im_mru s) = c)))"

lemma sources_distinct:
  assumes "sources_ok s" and "x \<in> set (im_sources s)" and "y \<in> set (im_sources s)" and "same_object x y"
  shows "y = x"
proof -
  from assms(2,3) obtain i j where i: "i < length (im_sources s)" "im_sources s ! i = x"
    and j: "j < length (im_sources s)" "im_sources s ! j = y" by (metis in_set_conv_nth)
  have idx: "is_index (im_sources s ! k) = k" if "k < length (im_sources s)" for k
    using assms(1) that unfolding sources_ok_def by (metis add_0 nth_map nth_upt)
  with i j assms(4) show ?thesis by (metis same_object_def)
qed

lemma changePerWindowSource_frame [simp]:
  "im_sources (changePerWindowSource env s) = im_sources s" "im_mru (changePerWindowSource env s) = im_mru s"
  "im_current (changePerWindowSource env s) = im_current s" "im_gen (changePerWindowSource env s) = im_gen s"
  "im_settings (changePerWindowSource env s) = im_settings s" "im_ibusReady (changePerWindowSource env s) = im_ibusReady s"
  "im_disableIBus (changePerWindowSource env s) = im_disableIBus s" "im_mruBackup (changePerWindowSource env s) = im_mruBackup s"
  "im_popup (changePerWindowSource env s) = im_popup s"
  by (simp_all add: changePerWindowSource_def split: option.split)

lemma updateMruSettings_frame [simp]:
  "im_sources (updateMruSettings s) = im_sources s" "im_mru (updateMruSettings s) = im_mru s"
  "im_current (updateMruSettings s) = im_current s" "im_gen (updateMruSettings s) = im_gen s"
  "im_ibusReady (updateMruSettings s) = im_ibusReady s" "im_disableIBus (updateMruSettings s) = im_disableIBus s"
  "im_mruBackup (updateMruSettings s) = im_mruBackup s" "im_popup (updateMruSettings s) = im_popup s"
  by (simp_all add: updateMruSettings_def)

lemma activate_frame [simp]:
  "im_sources (activateInputSource env c b s) = im_sources s" "im_gen (activateInputSource env c b s) = im_gen s"
  "im_current (activateInputSource env c b s) = Some c" "im_mru (activateInputSource env c b s) = moveToFront c (im_mru s)"
  "im_ibusReady (activateInputSource env c b s) = im_ibusReady s" "im_disableIBus (activateInputSource env c b s) = im_disableIBus s"
  "im_mruBackup (activateInputSource env c b s) = im_mruBackup s"
  "im_settings (activateInputSource env c False s) = im_settings s"
  by (simp_all add: activateInputSource_def currentInputSourceChanged_def Let_def)

lemma activate_ok:
  assumes src: "sources_ok s" and m: "mset (im_mru s) = mset (im_sources s)"
  shows "mru_ok (activateInputSource env c b s)"
proof -
  have "hd (moveToFront c (im_mru s)) = c" if "c \<in> set (im_sources s)"
  proof -
    have set: "set (im_mru s) = set (im_sources s)" by (rule mset_eq_setD [OF m])
    with that have "c \<in> set (im_mru s)" by simp
    from moveToFront_hd [OF this] sources_distinct [OF src that] set show ?thesis by blast
  qed
  with src m show ?thesis by (simp add: mru_ok_def sources_ok_def moveToFront_mset)
qed

lemma ownArray_frame [simp]:
  "im_sources (ownArray s) = im_sources s" "im_mru (ownArray s) = im_mru s" "im_current (ownArray s) = im_current s"
  "im_gen (ownArray s) = im_gen s" "im_settings (ownArray s) = im_settings s" "im_ibusReady (ownArray s) = im_ibusReady s"
  "im_disableIBus (ownArray s) = im_disableIBus s" "im_mruBackup (ownArray s) = im_mruBackup s"
  by (simp_all add: ownArray_def)

lemma updateMruSources_frame [simp]:
  "im_sources (updateMruSources env s) = im_sources s" "im_gen (updateMruSources env s) = im_gen s"
  "im_current (updateMruSources env s) = im_current s" "im_settings (updateMruSources env s) = im_settings s"
  "im_ibusReady (updateMruSources env s) = im_ibusReady s" "im_disableIBus (updateMruSources env s) = im_disableIBus s"
  by (simp_all add: updateMruSources_def Let_def case_prod_beta)

text \<open>What the list of recently used sources is made of.\<close>

definition mruBasis :: "input_sources \<Rightarrow> input_source list" where
  "mruBasis s =
     (let mru = (if \<not> im_disableIBus s \<and> im_mruBackup s \<noteq> None then the (im_mruBackup s) else im_mru s)
      in if mru = [] then List.map_filter (\<lambda>k. find (\<lambda>x. source_key x = k) (im_sources s)) (mruSources (im_settings s)) else mru)"

lemma updateMruSources_mru:
  "im_mru (updateMruSources env s)
   = (if length (mruBasis s) > 1
      then fst (takeMru (map source_key (mruBasis s)) (im_sources s)) @ snd (takeMru (map source_key (mruBasis s)) (im_sources s))
      else im_sources s)"
  by (simp add: updateMruSources_def mruBasis_def Let_def case_prod_beta)

lemma updateMruSources_mset: "mset (im_mru (updateMruSources env s)) = mset (im_sources s)"
  by (simp add: updateMruSources_mru takeMru_mset)

lemma makeSources_props:
  "length (makeSources env g infos) = length infos" "map is_index (makeSources env g infos) = [0..<length infos]"
  "x \<in> set (makeSources env g infos) \<Longrightarrow> is_gen x = g" "map source_key (makeSources env g infos) = map fst infos"
proof -
  show "length (makeSources env g infos) = length infos" by (simp add: makeSources_def Let_def)
  show "map is_index (makeSources env g infos) = [0..<length infos]"
    by (rule nth_equalityI) (auto simp: makeSources_def Let_def nth_enumerate_eq split: prod.split)
  show "x \<in> set (makeSources env g infos) \<Longrightarrow> is_gen x = g" by (auto simp: makeSources_def Let_def)
  show "map source_key (makeSources env g infos) = map fst infos"
    by (rule nth_equalityI) (auto simp: makeSources_def Let_def nth_enumerate_eq source_key_def split: prod.split)
qed

lemma sourceInfos_ne: "sourceInfos env d ks \<noteq> []"
  by (simp add: sourceInfos_def Let_def)

text \<open>The state in which the first recently used source is activated when the sources change.\<close>

definition remade :: "im_env \<Rightarrow> input_sources \<Rightarrow> input_sources" where
  "remade env s = updateMruSources env (s\<lparr>im_current := None, im_gen := im_gen s + 1,
     im_sources := makeSources env (im_gen s + 1) (sourceInfos env (im_disableIBus s) (ims_sources (im_settings s))),
     im_trace := im_trace s @ [EmitSourcesChanged]\<rparr>)"

lemma remade_ok: "sources_ok (remade env s)" "mset (im_mru (remade env s)) = mset (im_sources (remade env s))"
  "im_mru (remade env s) \<noteq> []"
proof -
  define infos where "infos = sourceInfos env (im_disableIBus s) (ims_sources (im_settings s))"
  have srcs: "im_sources (remade env s) = makeSources env (im_gen s + 1) infos" "im_gen (remade env s) = im_gen s + 1"
    by (simp_all add: remade_def infos_def)
  have "infos \<noteq> []" by (simp add: infos_def sourceInfos_ne)
  then have "makeSources env (im_gen s + 1) infos \<noteq> []" using makeSources_props(1) [of env "im_gen s + 1" infos] by auto
  then show src: "sources_ok (remade env s)"
    unfolding sources_ok_def srcs using makeSources_props(1,2) [of env "im_gen s + 1" infos] makeSources_props(3) [of _ env "im_gen s + 1" infos]
    by simp
  show m: "mset (im_mru (remade env s)) = mset (im_sources (remade env s))"
    unfolding remade_def by (simp add: updateMruSources_mset)
  from src m show "im_mru (remade env s) \<noteq> []" by (metis mset_zero_iff sources_ok_def)
qed

lemma inputSourcesChanged_eq:
  "inputSourcesChanged env s =
     (let t = activateInputSource env (hd (im_mru (remade env s))) False (remade env s)
      in t\<lparr>im_trace := im_trace t @ [PreloadEngines (ibusIds t)]\<rparr>)"
proof -
  obtain m ms where "im_mru (remade env s) = m # ms" using remade_ok(3) by (meson neq_Nil_conv)
  then show ?thesis by (simp add: inputSourcesChanged_def remade_def Let_def)
qed

lemma mru_ok_frame:
  "im_sources t = im_sources s \<Longrightarrow> im_mru t = im_mru s \<Longrightarrow> im_current t = im_current s \<Longrightarrow> im_gen t = im_gen s \<Longrightarrow> mru_ok s \<Longrightarrow> mru_ok t"
  by (simp add: mru_ok_def sources_ok_def)

lemma inputSourcesChanged_ok: "mru_ok (inputSourcesChanged env s)"
  by (rule mru_ok_frame [OF _ _ _ _ activate_ok [OF remade_ok(1,2) [of env s], of env "hd (im_mru (remade env s))" False]])
    (simp_all add: inputSourcesChanged_eq Let_def)

lemma moveToFront_self: "xs \<noteq> [] \<Longrightarrow> distinct (map (\<lambda>x. (is_gen x, is_index x)) xs) \<Longrightarrow> moveToFront (hd xs) xs = xs"
proof (cases xs)
  case (Cons m ms)
  assume "distinct (map (\<lambda>x. (is_gen x, is_index x)) xs)"
  with Cons have "\<forall>x\<in>set ms. \<not> same_object m x" by (auto simp: same_object_def)
  then have "js_findIndex (same_object m) ms < 0" by (simp add: js_findIndex_neg)
  with Cons show ?thesis by (simp add: moveToFront_def)
qed simp

text \<open>The order after a change of the sources.\<close>

lemma inputSourcesChanged_mru: "im_mru (inputSourcesChanged env s) = im_mru (remade env s)"
proof -
  have m: "mset (im_mru (remade env s)) = mset (im_sources (remade env s))" and src: "sources_ok (remade env s)"
    by (rule remade_ok)+
  have "distinct (map is_index (im_sources (remade env s)))" using src by (simp add: sources_ok_def)
  then have "distinct (map is_index (im_mru (remade env s)))"
    using m by (metis mset_eq_imp_distinct_iff mset_map)
  then have "distinct (map (\<lambda>x. (is_gen x, is_index x)) (im_mru (remade env s)))"
    by (auto simp: distinct_map inj_on_def)
  from moveToFront_self [OF remade_ok(3) this] show ?thesis by (simp add: inputSourcesChanged_eq Let_def)
qed

lemma inputSourcesChanged_frame [simp]:
  "im_settings (inputSourcesChanged env s) = im_settings s" "im_ibusReady (inputSourcesChanged env s) = im_ibusReady s"
  "im_disableIBus (inputSourcesChanged env s) = im_disableIBus s" "im_gen (inputSourcesChanged env s) = im_gen s + 1"
  "im_sources (inputSourcesChanged env s)
   = makeSources env (im_gen s + 1) (sourceInfos env (im_disableIBus s) (ims_sources (im_settings s)))"
  by (simp_all add: inputSourcesChanged_eq remade_def Let_def)

lemma reload_ok: "mru_ok (im_reload env s)"
proof -
  define kb where "kb = setKeyboardModel (ims_model (im_settings s)) (setKeyboardOptions (ims_options (im_settings s)) (im_keyboard s))"
  define t where "t = s\<lparr>im_reloading := True, im_keyboard := kb\<rparr>"
  have "im_reload env s = (inputSourcesChanged env t)\<lparr>im_reloading := False\<rparr>" by (simp add: im_reload_def Let_def kb_def t_def)
  with inputSourcesChanged_ok [of env t] show ?thesis by (simp add: mru_ok_def sources_ok_def del: inputSourcesChanged_frame)
qed

lemma modifiersSwitcher_ok: "mru_ok s \<Longrightarrow> mru_ok (modifiersSwitcher env s)"
  using activate_ok [of s] unfolding modifiersSwitcher_def Let_def mru_ok_def [of s] sources_ok_def [of s] by simp

lemma im_step_ok:
  assumes "mru_ok s"
  shows "mru_ok (im_step e s)"
proof -
  obtain env ev where e: "e = (env, ev)" by fastforce
  have act: "mru_ok (activateInputSource env c b t)" if "im_sources t = im_sources s" "im_mru t = im_mru s" "im_gen t = im_gen s" for c b t
    using assms that by (intro activate_ok) (auto simp: mru_ok_def sources_ok_def)
  have same: "mru_ok t" if "im_sources t = im_sources s" "im_mru t = im_mru s" "im_current t = im_current s" "im_gen t = im_gen s" for t
    using mru_ok_frame [OF that assms] .
  show ?thesis
  proof (cases ev)
    case (SourcesChanged ks)
    then show ?thesis by (simp add: e inputSourcesChanged_ok)
  next
    case (OptionsChanged os)
    then show ?thesis by (simp add: e keyboardOptionsChanged_def same)
  next
    case (ModelChanged m)
    then show ?thesis by (simp add: e keyboardModelChanged_def same)
  next
    case (PerWindowChanged p)
    then show ?thesis by (simp add: e sourcesPerWindowChanged_def Let_def same)
  next
    case (IBusReady r)
    with assms show ?thesis by (simp add: e ibusReadyCallback_def inputSourcesChanged_ok)
  next
    case (ContentType p)
    with assms show ?thesis by (simp add: e ibusSetContentType_def reload_ok)
  next
    case (SwitchSource p)
    with assms show ?thesis by (simp add: e switchInputSource_def modifiersSwitcher_ok same)
  next
    case (SwitcherDone c)
    show ?thesis
    proof (cases "im_popup s")
      case None
      with SwitcherDone assms show ?thesis by (simp add: e finishSwitcher_def)
    next
      case (Some p)
      obtain items shared where p: "p = (items, shared)" by fastforce
      define t where "t = (case c of Some i \<Rightarrow> if i < length items then activateInputSource env (items ! i) True s else s | None \<Rightarrow> s)"
      have "mru_ok t" using assms act [of s] by (auto simp: t_def split: option.split)
      moreover have "im_step e s = t\<lparr>im_popup := None\<rparr>" using Some p SwitcherDone by (simp add: e finishSwitcher_def t_def)
      ultimately show ?thesis by (simp add: mru_ok_def sources_ok_def)
    qed
  next
    case ModifiersSwitch
    with assms show ?thesis by (simp add: e modifiersSwitcher_ok)
  next
    case (ActivateFromMenu i)
    with assms act [of s] show ?thesis by (simp add: e)
  next
    case FocusChanged
    with assms act show ?thesis
      by (auto simp: e setPerWindowInputSource_def Let_def same split: option.split)
  next
    case EngineSet
    then show ?thesis by (auto simp: e engineSet_def same assms split: list.split)
  next
    case KeymapIsSet
    then show ?thesis by (simp add: e same)
  qed
qed

lemma im_run_ok: "mru_ok (fold im_step es (im_start env t kb))"
proof -
  have "mru_ok (fold im_step es s)" if "mru_ok s" for s
    using that by (induction es arbitrary: s) (auto simp: im_step_ok)
  then show ?thesis by (simp add: im_start_def reload_ok)
qed

text \<open>C29: After any events, the recently used sources are exactly the sources, each once, and the current source, if it is one of
  them, is the first of them.
\<close>

theorem mru_holds_the_sources:
  "let s = fold im_step es (im_start env t kb)
   in mset (im_mru s) = mset (im_sources s) \<and> im_sources s \<noteq> []
      \<and> (\<exists>c. im_current s = Some c \<and> (c \<in> set (im_sources s) \<longrightarrow> hd (im_mru s) = c))"
  using im_run_ok [of es env t kb] by (simp add: mru_ok_def sources_ok_def Let_def)

subsection \<open>Switching\<close>

lemma modifiersSwitcher_next:
  assumes "sources_ok s" and "im_current s = Some (im_sources s ! i)" and "i < length (im_sources s)"
  shows "im_current (modifiersSwitcher env s) = Some (im_sources s ! ((i + 1) mod length (im_sources s)))
    \<and> im_sources (modifiersSwitcher env s) = im_sources s \<and> im_gen (modifiersSwitcher env s) = im_gen s"
proof -
  have "is_index (im_sources s ! i) = i"
    using assms(1,3) unfolding sources_ok_def by (metis add_0 nth_map nth_upt)
  moreover have "(i + 1) mod length (im_sources s) = (if i + 1 > length (im_sources s) - 1 then 0 else i + 1)"
    using assms(3) by (cases "i + 1 = length (im_sources s)") auto
  moreover have "im_sources s \<noteq> []" using assms(3) by auto
  ultimately show ?thesis using assms(2) by (simp add: modifiersSwitcher_def Let_def)
qed

text \<open>switching by the modifiers goes round the sources in the order of the settings: after \<open>k\<close> times from the source at
  position \<open>i\<close> the current one is at \<open>i + k\<close>, modulo their number.
\<close>

theorem modifiers_cycle_through:
  assumes "s = fold im_step es (im_start env0 t kb)"
    and "im_current s = Some (im_sources s ! i)" and "i < length (im_sources s)"
  shows "im_current ((modifiersSwitcher env ^^ k) s) = Some (im_sources s ! ((i + k) mod length (im_sources s)))"
proof -
  have ok: "sources_ok s" using im_run_ok [of es env0 t kb] by (simp add: assms(1) mru_ok_def)
  define n where "n = length (im_sources s)"
  have "im_current ((modifiersSwitcher env ^^ k) s) = Some (im_sources s ! ((i + k) mod n))
    \<and> im_sources ((modifiersSwitcher env ^^ k) s) = im_sources s \<and> im_gen ((modifiersSwitcher env ^^ k) s) = im_gen s"
  proof (induction k)
    case 0
    with assms show ?case by (simp add: n_def)
  next
    case (Suc k)
    define u where "u = (modifiersSwitcher env ^^ k) s"
    have u: "im_current u = Some (im_sources u ! ((i + k) mod n))" "im_sources u = im_sources s" "im_gen u = im_gen s"
      using Suc.IH by (simp_all add: u_def)
    have "sources_ok u" using ok u by (simp add: sources_ok_def)
    moreover have "(i + k) mod n < length (im_sources u)"
    proof -
      have "0 < n" using assms(3) unfolding n_def by linarith
      then show ?thesis unfolding u(2) n_def [symmetric] by (rule mod_less_divisor)
    qed
    ultimately show ?case using modifiersSwitcher_next [of u "(i + k) mod n" env] u
      by (simp add: n_def mod_Suc_eq flip: u_def)
  qed
  then show ?thesis by (simp add: n_def)
qed

subsection \<open>The order of use survives\<close>

lemma mruBasis_keys:
  assumes "\<not> im_disableIBus s" and "im_mruBackup s = None" and "im_mru s = []" and "\<not> ims_system (im_settings s)"
    and "set (ims_mru (im_settings s)) \<subseteq> set (map source_key (im_sources s))"
  shows "map source_key (mruBasis s) = ims_mru (im_settings s)"
  using assms map_filter_find_keys [OF assms(5)] by (simp add: mruBasis_def mruSources_def)

lemma updateMru_keeps_order:
  assumes "mset (map source_key (mruBasis s)) = mset (map source_key (im_sources s))" and "length (im_sources s) > 1"
  shows "map source_key (im_mru (updateMruSources env s)) = map source_key (mruBasis s)"
proof -
  have "length (mruBasis s) = length (im_sources s)" using assms(1) by (metis length_map mset_eq_length)
  with assms(2) takeMru_keys [OF assms(1)] show ?thesis by (simp add: updateMruSources_mru)
qed

lemma remade_sources:
  "map source_key (im_sources (remade env s)) = map fst (sourceInfos env (im_disableIBus s) (ims_sources (im_settings s)))"
  by (simp add: remade_def makeSources_props)

text \<open>the order of use survives the session: when a user has chosen a source while IBus is ready, and the next session finds
  the same sources, it has them in the same order once IBus is ready.
\<close>

theorem mru_survives_session:
  assumes reach: "s0 = fold im_step es (im_start env t kb)" and i: "i < length (im_sources s0)"
    and s: "s = im_step (env1, ActivateFromMenu i) s0"
    and ready: "im_ibusReady s0" "\<not> im_disableIBus s0" "\<not> ims_system (im_settings s0)" "length (im_sources s0) > 1"
    and same: "map fst (sourceInfos env2 False (ims_sources (im_settings s0))) = map source_key (im_sources s0)"
  shows "map source_key (im_mru (im_step (env2, IBusReady True) (im_start env2 (im_settings s) kb2))) = map source_key (im_mru s)"
proof -
  have ok: "mru_ok s" using im_step_ok [OF im_run_ok] by (simp only: s reach)
  have set: "im_settings s = (im_settings s0)\<lparr>ims_mru := map source_key (im_mru s)\<rparr>" and srcs: "im_sources s = im_sources s0"
    using i ready by (simp_all add: s activateInputSource_def updateMruSettings_def currentInputSourceChanged_def Let_def)
  define u where "u = im_start env2 (im_settings s) kb2"
  have u: "im_settings u = im_settings s" "\<not> im_disableIBus u" "\<not> im_ibusReady u" "im_mruBackup u = None"
    by (simp_all add: u_def im_start_def im_reload_def newInputSourceManager_def Let_def)
      (simp add: inputSourcesChanged_eq remade_def updateMruSources_def Let_def case_prod_beta)
  define v where "v = (ownArray u)\<lparr>im_ibusReady := True, im_mru := []\<rparr>"
  have v: "im_step (env2, IBusReady True) u = inputSourcesChanged env2 v" using u(3) by (simp add: ibusReadyCallback_def v_def)
  define w where "w = v\<lparr>im_current := None, im_gen := im_gen v + 1,
     im_sources := makeSources env2 (im_gen v + 1) (sourceInfos env2 (im_disableIBus v) (ims_sources (im_settings v))),
     im_trace := im_trace v @ [EmitSourcesChanged]\<rparr>"
  have wsrc: "map source_key (im_sources w) = map source_key (im_sources s)"
    using u set srcs same by (simp add: w_def v_def makeSources_props)
  have mru: "mset (im_mru s) = mset (im_sources s)" using ok by (simp add: mru_ok_def)
  then have "set (im_mru s) = set (im_sources s)" by (rule mset_eq_setD)
  then have "set (ims_mru (im_settings w)) \<subseteq> set (map source_key (im_sources w))"
    unfolding wsrc using u set by (simp add: w_def v_def)
  then have basis: "map source_key (mruBasis w) = map source_key (im_mru s)"
    using mruBasis_keys [of w] u set ready(3) by (simp add: w_def v_def)
  moreover have "length (im_sources w) > 1" using wsrc srcs ready(4) by (metis length_map)
  moreover have "mset (map source_key (mruBasis w)) = mset (map source_key (im_sources w))"
    unfolding basis wsrc using mru by simp
  ultimately have "map source_key (im_mru (updateMruSources env2 w)) = map source_key (im_mru s)"
    using updateMru_keeps_order [of w env2] by metis
  moreover have "remade env2 v = updateMruSources env2 w" by (simp only: remade_def w_def)
  ultimately show ?thesis unfolding u_def [symmetric] v inputSourcesChanged_mru by simp
qed

lemma popup_none:
  "im_popup s = None \<Longrightarrow> im_popup (inputSourcesChanged env s) = None"
  by (simp add: inputSourcesChanged_eq remade_def Let_def activateInputSource_def currentInputSourceChanged_def updateMruSources_def
      ownArray_def spliceShared_def case_prod_beta)

lemma backup_kept:
  "im_disableIBus s \<Longrightarrow> im_mruBackup (inputSourcesChanged env s) = im_mruBackup s"
  by (simp add: inputSourcesChanged_eq remade_def Let_def updateMruSources_def case_prod_beta)

text \<open>typing a password, for which the engines of IBus are switched off, does not change the order of use: after it the same sources
  are in the same order, if the system still knows them.
\<close>

theorem password_keeps_order:
  assumes reach: "s = fold im_step es (im_start env0 t kb)" and popup: "im_popup s = None" and on: "\<not> im_disableIBus s"
    and more: "length (im_sources s) > 1"
    and same: "map fst (sourceInfos env False (ims_sources (im_settings s))) = map source_key (im_sources s)"
  shows "map source_key (im_mru (im_step (env, ContentType False) (im_step (env, ContentType True) s))) = map source_key (im_mru s)"
proof (cases "length (im_sources s) = length (ibusIds s)")
  case True
  with popup on show ?thesis by (simp add: ibusSetContentType_def)
next
  case False
  have mru: "mset (im_mru s) = mset (im_sources s)" using im_run_ok [of es env0 t kb] by (simp add: reach mru_ok_def)
  define r :: "input_sources \<Rightarrow> input_sources" where "r = (\<lambda>t. t\<lparr>im_reloading := True, im_keyboard := setKeyboardModel (ims_model (im_settings t))
     (setKeyboardOptions (ims_options (im_settings t)) (im_keyboard t))\<rparr>)"
  have reload: "im_reload env u = (inputSourcesChanged env (r u))\<lparr>im_reloading := False\<rparr>" for u
    by (simp add: im_reload_def r_def Let_def)
  define s1 where "s1 = im_reload env (s\<lparr>im_disableIBus := True, im_mruBackup := Some (im_mru s)\<rparr>)"
  have s1: "im_disableIBus s1" "im_popup s1 = None" "im_mruBackup s1 = Some (im_mru s)" "im_settings s1 = im_settings s"
    using popup by (simp_all add: s1_def reload r_def popup_none backup_kept)
  define v where "v = r (s1\<lparr>im_disableIBus := False\<rparr>)"
  define w where "w = v\<lparr>im_current := None, im_gen := im_gen v + 1,
     im_sources := makeSources env (im_gen v + 1) (sourceInfos env (im_disableIBus v) (ims_sources (im_settings v))),
     im_trace := im_trace v @ [EmitSourcesChanged]\<rparr>"
  have wsrc: "map source_key (im_sources w) = map source_key (im_sources s)"
    using same s1(4) by (simp add: w_def v_def r_def makeSources_props)
  have "im_mru s \<noteq> []" using mru more by auto
  then have basis: "mruBasis w = im_mru s" by (simp add: mruBasis_def w_def v_def r_def s1)
  have "map source_key (im_mru (updateMruSources env w)) = map source_key (mruBasis w)"
  proof (rule updateMru_keeps_order)
    show "length (im_sources w) > 1" using wsrc more by (metis length_map)
    show "mset (map source_key (mruBasis w)) = mset (map source_key (im_sources w))"
      unfolding basis wsrc using mru by simp
  qed
  moreover have "remade env v = updateMruSources env w" by (simp only: remade_def w_def)
  ultimately have "map source_key (im_mru (inputSourcesChanged env v)) = map source_key (im_mru s)"
    unfolding inputSourcesChanged_mru basis by simp
  then have "map source_key (im_mru (im_reload env (s1\<lparr>im_disableIBus := False\<rparr>))) = map source_key (im_mru s)"
    by (simp add: reload flip: v_def)
  with False popup on s1(1,2) show ?thesis by (simp add: ibusSetContentType_def flip: s1_def)
qed

subsection \<open>Sample runs\<close>

definition sample_im_env :: im_env where
  "sample_im_env = \<lparr>ie_xkb = sample_xkb, ie_layoutNames = (\<lambda>i. map_option (\<lambda>l. (i, take 2 i)) (sample_xkb i)),
     ie_engineNames = (\<lambda>i. if i = ''pinyin'' then Some (''Chinese'', ''zh'') else None), ie_engineLayout = (\<lambda>i. if i = ''pinyin'' then Some (''us'', '''') else None),
     ie_languages = (\<lambda>i. []), ie_window = Some 1\<rparr>"

definition sample_settings :: im_settings where
  "sample_settings = \<lparr>ims_sources = [(XKB, ''us''), (XKB, ''de''), (IBUS, ''pinyin''), (XKB, ''xx'')], ims_mru = [], ims_options = [], ims_model = '''',
     ims_perWindow = False, ims_system = False\<rparr>"

definition sample_kb :: kb_manager where
  "sample_kb = newKeyboardManager \<lparr>li_layout = ''us'', li_variant = ''''\<rparr>"

definition sample_im_events :: "(im_env \<times> im_event) list" where
  "sample_im_events = map (Pair sample_im_env) [IBusReady True, ActivateFromMenu 2, SwitchSource False, SwitcherDone (Some 1), ActivateFromMenu 1]"

definition sample_im :: input_sources where
  "sample_im = fold im_step sample_im_events (im_start sample_im_env sample_settings sample_kb)"

lemma sample_im_facts:
  "im_current sample_im = Some (im_sources sample_im ! 1)" "length (im_sources sample_im) = 3" "im_popup sample_im = None"
  "im_ibusReady sample_im" "\<not> im_disableIBus sample_im" "\<not> ims_system (im_settings sample_im)"
  "map source_key (im_mru sample_im) = [(XKB, ''de''), (XKB, ''us''), (IBUS, ''pinyin'')]"
  "map fst (sourceInfos sample_im_env False (ims_sources (im_settings sample_im))) = map source_key (im_sources sample_im)"
  by code_simp+

theorem mru_holds_the_sources_witness:
  "hd (im_mru sample_im) = im_sources sample_im ! 1 \<and> mset (im_mru sample_im) = mset (im_sources sample_im)"
proof -
  have "im_sources sample_im ! 1 \<in> set (im_sources sample_im)" using sample_im_facts(2) by (intro nth_mem) simp
  with mru_holds_the_sources [of sample_im_events sample_im_env sample_settings sample_kb] sample_im_facts(1)
  show ?thesis by (auto simp: sample_im_def Let_def)
qed

theorem modifiers_cycle_through_witness:
  "im_current ((modifiersSwitcher sample_im_env ^^ 2) sample_im) = Some (im_sources sample_im ! 0)"
  using modifiers_cycle_through [OF sample_im_def sample_im_facts(1), where env = sample_im_env and k = 2] sample_im_facts(2) by simp

theorem password_keeps_order_witness:
  "map source_key (im_mru (im_step (sample_im_env, ContentType False) (im_step (sample_im_env, ContentType True) sample_im)))
     = [(XKB, ''de''), (XKB, ''us''), (IBUS, ''pinyin'')]
   \<and> map source_key (im_mru (im_step (sample_im_env, ContentType True) sample_im)) = [(XKB, ''de''), (XKB, ''us'')]"
proof
  show "map source_key (im_mru (im_step (sample_im_env, ContentType False) (im_step (sample_im_env, ContentType True) sample_im)))
     = [(XKB, ''de''), (XKB, ''us''), (IBUS, ''pinyin'')]"
    using password_keeps_order [OF sample_im_def sample_im_facts(3,5) _ sample_im_facts(8)] sample_im_facts(2,7) by simp
  show "map source_key (im_mru (im_step (sample_im_env, ContentType True) sample_im)) = [(XKB, ''de''), (XKB, ''us'')]"
    by code_simp
qed

theorem mru_survives_session_witness:
  "map source_key (im_mru (im_step (sample_im_env, IBusReady True)
      (im_start sample_im_env (im_settings (im_step (sample_im_env, ActivateFromMenu 2) sample_im)) sample_kb)))
   = [(IBUS, ''pinyin''), (XKB, ''de''), (XKB, ''us'')]"
proof -
  have "2 < length (im_sources sample_im)" "length (im_sources sample_im) > 1" using sample_im_facts(2) by simp_all
  moreover have "map source_key (im_mru (im_step (sample_im_env, ActivateFromMenu 2) sample_im))
    = [(IBUS, ''pinyin''), (XKB, ''de''), (XKB, ''us'')]" by code_simp
  ultimately show ?thesis
    using mru_survives_session [OF sample_im_def _ refl sample_im_facts(4,5,6) _ sample_im_facts(8)] by metis
qed

text \<open>a choice in the switcher after the sources have changed makes a source current that is not there any more: the keyboard keeps
  the layout of another one, and IBus gets the engine of the old one.
\<close>

theorem stale_choice_becomes_current:
  "let s = fold im_step (map (Pair sample_im_env) [SwitchSource False, SourcesChanged [(XKB, ''us''), (XKB, ''fr'')], SwitcherDone (Some 0)]) sample_im
   in map_option is_id (im_current s) = Some ''de'' \<and> map is_id (im_sources s) = [''us'', ''fr'']
      \<and> map_option ki_id (km_current (im_keyboard s)) = Some ''us''"
  by code_simp

end
