(* ===== verification/WindowLayout.thy ===== *)
theory WindowLayout
  imports Prelude
begin

section \<open>The layout of window previews (\<open>js/ui/workspace.js\<close>, \<open>UnalignedLayoutStrategy\<close>)\<close>

text \<open>
  The algorithm that puts the windows of a workspace into rows for the overview, and the loop that chooses the
  number of rows. Windows keep their shape: a row is scaled to the width of the area, all rows to
  its height, and each window is enlarged a bit when it is small.

  Lengths are reals. The code divides by widths and heights that may be zero, when there is no window or a window is
  empty, so a quotient is a \<open>jsnum\<close>, with the infinities and NaN of JavaScript; the comparisons with NaN are
  false. When the scale of a layout is not finite, neither is any coordinate computed from it, and
  there are no slots (\<open>None\<close>).
\<close>

subsection \<open>Numbers with infinities\<close>

datatype jsnum = Fin real | PosInf | NegInf | NotNum

definition quot :: "real \<Rightarrow> real \<Rightarrow> jsnum" where
  "quot a b = (if b \<noteq> 0 then Fin (a / b) else if a > 0 then PosInf else if a < 0 then NegInf else NotNum)"

text \<open>\<open>Math.min\<close>, \<open><\<close>, \<open>a - b\<close> and the product with a positive constant.\<close>

fun num_min :: "jsnum \<Rightarrow> jsnum \<Rightarrow> jsnum" where
  "num_min NotNum b = NotNum"
| "num_min a NotNum = NotNum"
| "num_min NegInf b = NegInf"
| "num_min a NegInf = NegInf"
| "num_min PosInf b = b"
| "num_min a PosInf = a"
| "num_min (Fin a) (Fin b) = Fin (min a b)"

fun num_less :: "jsnum \<Rightarrow> jsnum \<Rightarrow> bool" where
  "num_less (Fin a) (Fin b) = (a < b)"
| "num_less (Fin a) PosInf = True"
| "num_less NegInf (Fin b) = True"
| "num_less NegInf PosInf = True"
| "num_less a b = False"

definition num_le :: "jsnum \<Rightarrow> jsnum \<Rightarrow> bool" where
  "num_le a b = (a \<noteq> NotNum \<and> b \<noteq> NotNum \<and> (a = b \<or> num_less a b))"

fun num_minus :: "jsnum \<Rightarrow> jsnum \<Rightarrow> jsnum" where
  "num_minus (Fin a) (Fin b) = Fin (a - b)"
| "num_minus (Fin a) PosInf = NegInf"
| "num_minus (Fin a) NegInf = PosInf"
| "num_minus PosInf (Fin b) = PosInf"
| "num_minus PosInf NegInf = PosInf"
| "num_minus NegInf (Fin b) = NegInf"
| "num_minus NegInf PosInf = NegInf"
| "num_minus a b = NotNum"

fun num_times :: "jsnum \<Rightarrow> real \<Rightarrow> jsnum" where
  "num_times (Fin a) c = Fin (a * c)"
| "num_times a c = a"

subsection \<open>Windows, rows and layouts\<close>

record box =
  box_x :: real
  box_y :: real
  box_width :: real
  box_height :: real

record preview =
  pv_id :: nat
  boundingBox :: box
  windowCenter :: "real \<times> real"

record row =
  row_x :: real
  row_y :: real
  row_width :: real
  row_height :: real
  fullWidth :: real
  fullHeight :: real
  row_windows :: "preview list"
  additionalScale :: real

record win_layout =
  numRows :: nat
  rows :: "row list"
  maxColumns :: nat
  gridWidth :: real
  gridHeight :: real

record strategy =
  monitorHeight :: real
  rowSpacing :: real
  columnSpacing :: real

record slot =
  slot_x :: real
  slot_y :: real
  slot_width :: real
  slot_height :: real
  slot_window :: preview

definition WINDOW_PREVIEW_MAXIMUM_SCALE :: real where
  "WINDOW_PREVIEW_MAXIMUM_SCALE = 95 / 100"

definition LAYOUT_SCALE_WEIGHT :: real where
  "LAYOUT_SCALE_WEIGHT = 1"

definition LAYOUT_SPACE_WEIGHT :: real where
  "LAYOUT_SPACE_WEIGHT = 1 / 10"

definition newRow :: row where
  "newRow = \<lparr>row_x = 0, row_y = 0, row_width = 0, row_height = 0, fullWidth = 0, fullHeight = 0,
    row_windows = [], additionalScale = 1\<rparr>"

text \<open>\<open>Util.lerp\<close>.\<close>

definition lerp :: "real \<Rightarrow> real \<Rightarrow> real \<Rightarrow> real" where
  "lerp a b progress = a + progress * (b - a)"

definition computeWindowScale :: "strategy \<Rightarrow> preview \<Rightarrow> real" where
  "computeWindowScale st w =
    (let ratio = box_height (boundingBox w) / monitorHeight st in lerp (3 / 2) 1 ratio)"

subsection \<open>\<open>computeLayout\<close>\<close>

definition keepSameRow :: "row \<Rightarrow> real \<Rightarrow> real \<Rightarrow> bool" where
  "keepSameRow r width idealRowWidth =
    (if fullWidth r + width \<le> idealRowWidth then True
     else (let oldRatio = fullWidth r / idealRowWidth; newRatio = (fullWidth r + width) / idealRowWidth
       in \<bar>1 - newRatio\<bar> < \<bar>1 - oldRatio\<bar>))"

text \<open>The inner loop puts windows into a row until one does not belong there; the last row takes all.\<close>

fun fillRow :: "strategy \<Rightarrow> real \<Rightarrow> bool \<Rightarrow> row \<Rightarrow> preview list \<Rightarrow> row \<times> preview list" where
  "fillRow st ideal isLast r [] = (r, [])"
| "fillRow st ideal isLast r (w # ws) =
    (let s = computeWindowScale st w;
         width = box_width (boundingBox w) * s;
         height = box_height (boundingBox w) * s;
         r1 = r\<lparr>fullHeight := max (fullHeight r) height\<rparr>
     in if keepSameRow r1 width ideal \<or> isLast
        then fillRow st ideal isLast (r1\<lparr>row_windows := row_windows r1 @ [w], fullWidth := fullWidth r1 + width\<rparr>) ws
        else (r1, w # ws))"

fun fillRows :: "strategy \<Rightarrow> real \<Rightarrow> nat \<Rightarrow> preview list \<Rightarrow> row list" where
  "fillRows st ideal 0 ws = []"
| "fillRows st ideal (Suc k) ws =
    (let (r, rest) = fillRow st ideal (k = 0) newRow ws in r # fillRows st ideal k rest)"

definition sortRow :: "row \<Rightarrow> row" where
  "sortRow r = r\<lparr>row_windows := sort_key (\<lambda>w. fst (windowCenter w)) (row_windows r)\<rparr>"

fun maxRow :: "row \<Rightarrow> row list \<Rightarrow> row" where
  "maxRow m [] = m"
| "maxRow m (r # rs) = maxRow (if fullWidth r > fullWidth m then r else m) rs"

definition computeLayout :: "strategy \<Rightarrow> preview list \<Rightarrow> nat \<Rightarrow> win_layout option" where
  "computeLayout st windows n =
    (if n = 0 then None
     else (let totalWidth = sum_list (map (\<lambda>w. box_width (boundingBox w) * computeWindowScale st w) windows);
               idealRowWidth = totalWidth / real n;
               sortedWindows = sort_key (\<lambda>w. snd (windowCenter w)) windows;
               rs = map sortRow (fillRows st idealRowWidth n sortedWindows);
               m = maxRow (hd rs) (tl rs)
       in Some \<lparr>numRows = n, rows = rs, maxColumns = length (row_windows m), gridWidth = fullWidth m,
            gridHeight = sum_list (map fullHeight rs)\<rparr>))"

subsection \<open>\<open>computeScaleAndSpace\<close>\<close>

text \<open>
  The scale is infinite or NaN only when the grid has no extent in a direction in which the area has no room: then
  the product of the two is NaN, and so is the space.
\<close>

definition computeScaleAndSpace :: "strategy \<Rightarrow> win_layout \<Rightarrow> box \<Rightarrow> jsnum \<times> jsnum" where
  "computeScaleAndSpace st l area =
    (let hspacing = (real (maxColumns l) - 1) * columnSpacing st;
         vspacing = (real (numRows l) - 1) * rowSpacing st;
         spacedWidth = box_width area - hspacing;
         spacedHeight = box_height area - vspacing;
         horizontalScale = quot spacedWidth (gridWidth l);
         verticalScale = quot spacedHeight (gridHeight l);
         scale = num_min (num_min horizontalScale verticalScale) (Fin WINDOW_PREVIEW_MAXIMUM_SCALE)
     in (scale,
         case scale of
           Fin s \<Rightarrow>
             (let scaledLayoutWidth = gridWidth l * s + hspacing;
                  scaledLayoutHeight = gridHeight l * s + vspacing
              in quot (scaledLayoutWidth * scaledLayoutHeight) (box_width area * box_height area))
         | _ \<Rightarrow> NotNum))"

subsection \<open>\<open>computeWindowSlots\<close>\<close>

definition computeRowSizes :: "strategy \<Rightarrow> real \<Rightarrow> row list \<Rightarrow> row list" where
  "computeRowSizes st scale rs =
    map (\<lambda>r. r\<lparr>row_width := fullWidth r * scale + (real (length (row_windows r)) - 1) * columnSpacing st,
              row_height := fullHeight r * scale\<rparr>) rs"

definition horizontalSpacing :: "strategy \<Rightarrow> row \<Rightarrow> real" where
  "horizontalSpacing st r = (real (length (row_windows r)) - 1) * columnSpacing st"

text \<open>The second loop: where each row goes. Its variables are \<open>y\<close> and \<open>compensation\<close>.\<close>

fun placeRows :: "strategy \<Rightarrow> box \<Rightarrow> real \<Rightarrow> real \<Rightarrow> real \<Rightarrow> real \<Rightarrow> real \<Rightarrow> row list \<Rightarrow> (row list \<times> real) option" where
  "placeRows st area H vs V y compensation [] = Some ([], compensation)"
| "placeRows st area H vs V y compensation (r # rs) =
    (let hs = horizontalSpacing st r;
         widthWithoutSpacing = row_width r - hs
     in case num_min (Fin 1) (quot (box_width area - hs) widthWithoutSpacing) of
          Fin a \<Rightarrow>
            (let scl = (if a < V then a else V);
                 compensation' = (if a < V then compensation + (V - a) * row_height r else compensation);
                 r' = r\<lparr>additionalScale := scl,
                       row_x := box_x area + max (box_width area - (widthWithoutSpacing * scl + hs)) 0 / 2,
                       row_y := box_y area + max (box_height area - (H + vs)) 0 / 2 + y\<rparr>
             in case placeRows st area H vs V (y + (row_height r * scl + rowSpacing st)) compensation' rs of
                  Some (rs', c) \<Rightarrow> Some (r' # rs', c)
                | None \<Rightarrow> None)
        | _ \<Rightarrow> None)"

text \<open>The third loop: the windows of a row from left to right. \<open>single\<close> says that there is only one row.\<close>

fun placeWindows :: "strategy \<Rightarrow> real \<Rightarrow> bool \<Rightarrow> row \<Rightarrow> real \<Rightarrow> real \<Rightarrow> preview list \<Rightarrow> slot list" where
  "placeWindows st scale single r rowY x [] = []"
| "placeWindows st scale single r rowY x (w # ws) =
    (let rowHeight = row_height r * additionalScale r;
         s = scale * computeWindowScale st w * additionalScale r;
         cellWidth = box_width (boundingBox w) * s;
         cellHeight = box_height (boundingBox w) * s;
         s' = min s WINDOW_PREVIEW_MAXIMUM_SCALE;
         cloneWidth = box_width (boundingBox w) * s';
         cloneHeight = box_height (boundingBox w) * s';
         cloneX = x + (cellWidth - cloneWidth) / 2;
         cloneY = (if single then rowY + (rowHeight - cloneHeight) / 2 else rowY + rowHeight - cellHeight)
     in \<lparr>slot_x = cloneX, slot_y = cloneY, slot_width = cloneWidth, slot_height = cloneHeight, slot_window = w\<rparr>
        # placeWindows st scale single r rowY (x + (cellWidth + columnSpacing st)) ws)"

definition computeWindowSlots :: "strategy \<Rightarrow> win_layout \<Rightarrow> real \<Rightarrow> box \<Rightarrow> slot list option" where
  "computeWindowSlots st l scale area =
    (let rs = computeRowSizes st scale (rows l);
         heightWithoutSpacing = sum_list (map row_height rs);
         verticalSpacing = (real (length rs) - 1) * rowSpacing st
     in case num_min (Fin 1) (quot (box_height area - verticalSpacing) heightWithoutSpacing) of
          Fin V \<Rightarrow>
            (case placeRows st area heightWithoutSpacing verticalSpacing V 0 0 rs of
               Some (rs', compensation) \<Rightarrow>
                 Some (concat (map (\<lambda>r. placeWindows st scale (length rs = 1) r (row_y r + compensation / 2) (row_x r)
                   (row_windows r)) rs'))
             | None \<Rightarrow> None)
        | _ \<Rightarrow> None)"

subsection \<open>\<open>_createBestLayout\<close>: the number of rows\<close>

definition isBetterScaleAndSpace :: "jsnum \<Rightarrow> jsnum \<Rightarrow> jsnum \<Rightarrow> jsnum \<Rightarrow> bool" where
  "isBetterScaleAndSpace oldScale oldSpace scale space =
    (let spacePower = num_times (num_minus space oldSpace) LAYOUT_SPACE_WEIGHT;
         scalePower = num_times (num_minus scale oldScale) LAYOUT_SCALE_WEIGHT
     in if num_less oldScale scale \<and> num_less oldSpace space then True
        else if num_less oldScale scale \<and> num_le space oldSpace then num_less spacePower scalePower
        else if num_le scale oldScale \<and> num_less oldSpace space then num_less scalePower spacePower
        else False)"

definition numColumns :: "nat \<Rightarrow> nat \<Rightarrow> int" where
  "numColumns windows n = \<lceil>real windows / real n\<rceil>"

text \<open>
  \<open>best\<close> is the last layout with its scale and space, \<open>lastNumColumns\<close> its columns, -1 at first. The loop stops at
  the latest when a row is added to rows of single windows: there is an end because a layout that keeps the loop going has fewer
  columns than the one before.
\<close>

lemma numColumns_antimono: "numColumns k (Suc (Suc n)) \<le> numColumns k (Suc n)"
  unfolding numColumns_def by (intro ceiling_mono frac_le) auto

lemma numColumns_nonneg: "0 \<le> numColumns k n"
proof -
  have "(-1 :: real) < real k / real n" by (rule less_le_trans [of _ 0]) simp_all
  then show ?thesis by (simp add: numColumns_def)
qed

definition rowsLeft :: "nat \<Rightarrow> int \<Rightarrow> nat \<Rightarrow> nat" where
  "rowsLeft k lastNumColumns n =
    nat (numColumns k (Suc n)) + (if numColumns k (Suc n) = lastNumColumns then 0 else 1)"

lemma rowsLeft_decreases:
  "numColumns k (Suc n) \<noteq> lastNumColumns \<Longrightarrow> rowsLeft k (numColumns k (Suc n)) (Suc n) < rowsLeft k lastNumColumns n"
  using numColumns_antimono [of k n] numColumns_nonneg [of k "Suc (Suc n)"] by (auto simp: rowsLeft_def)

function bestFrom ::
  "strategy \<Rightarrow> box \<Rightarrow> preview list \<Rightarrow> (win_layout \<times> jsnum \<times> jsnum) option \<Rightarrow> int \<Rightarrow> nat \<Rightarrow> (win_layout \<times> jsnum \<times> jsnum) option" where
  "bestFrom st area ws best lastNumColumns n =
    (if numColumns (length ws) (Suc n) = lastNumColumns then best
     else (case computeLayout st ws (Suc n) of
         None \<Rightarrow> None
       | Some l \<Rightarrow>
           (let (scale, space) = computeScaleAndSpace st l area
            in case best of
                 Some (l0, oldScale, oldSpace) \<Rightarrow>
                   if \<not> isBetterScaleAndSpace oldScale oldSpace scale space then best
                   else bestFrom st area ws (Some (l, scale, space)) (numColumns (length ws) (Suc n)) (Suc n)
               | None \<Rightarrow> bestFrom st area ws (Some (l, scale, space)) (numColumns (length ws) (Suc n)) (Suc n))))"
  by pat_completeness auto

termination
  by (relation "measure (\<lambda>(st, area, ws, best, lastNumColumns, n). rowsLeft (length ws) lastNumColumns n)")
    (auto simp: rowsLeft_decreases)

declare bestFrom.simps [simp del]

definition createBestLayout :: "strategy \<Rightarrow> box \<Rightarrow> preview list \<Rightarrow> (win_layout \<times> jsnum \<times> jsnum) option" where
  "createBestLayout st area ws = bestFrom st area ws None (-1) 0"

end
