(* ===== verification/WindowLayoutProps.thy ===== *)
theory WindowLayoutProps
  imports WindowLayout "HOL-Library.Multiset"
begin

section \<open>The window layout fits the area, and no two windows overlap\<close>

subsection \<open>Rows\<close>

definition cellW :: "strategy \<Rightarrow> preview \<Rightarrow> real" where
  "cellW st w = box_width (boundingBox w) * computeWindowScale st w"

definition cellH :: "strategy \<Rightarrow> preview \<Rightarrow> real" where
  "cellH st w = box_height (boundingBox w) * computeWindowScale st w"

text \<open>
  The windows a layout is made for: they are not empty, and not three times as high as the monitor, where the
  factor \<open>_computeWindowScale\<close> would be negative.
\<close>

definition proper_window :: "strategy \<Rightarrow> preview \<Rightarrow> bool" where
  "proper_window st w \<longleftrightarrow> 0 < box_width (boundingBox w) \<and> 0 < box_height (boundingBox w) \<and>
    box_height (boundingBox w) < 3 * monitorHeight st"

definition proper_strategy :: "strategy \<Rightarrow> bool" where
  "proper_strategy st \<longleftrightarrow> 0 < monitorHeight st \<and> 0 \<le> rowSpacing st \<and> 0 \<le> columnSpacing st"

definition row_ok :: "strategy \<Rightarrow> row \<Rightarrow> bool" where
  "row_ok st r \<longleftrightarrow> fullWidth r = sum_list (map (cellW st) (row_windows r)) \<and> 0 \<le> fullHeight r \<and>
    (\<forall>w\<in>set (row_windows r). cellH st w \<le> fullHeight r)"

lemma computeWindowScale_pos:
  assumes "proper_strategy st" and "proper_window st w"
  shows "0 < computeWindowScale st w"
proof -
  have "box_height (boundingBox w) / monitorHeight st < 3"
    using assms by (simp add: proper_strategy_def proper_window_def pos_divide_less_eq)
  then show ?thesis by (simp add: computeWindowScale_def lerp_def)
qed

lemma cell_pos:
  assumes "proper_strategy st" and "proper_window st w"
  shows "0 < cellW st w" and "0 < cellH st w"
  using computeWindowScale_pos [OF assms] assms(2) by (simp_all add: cellW_def cellH_def proper_window_def)

lemma cells_nonneg:
  assumes "proper_strategy st" and "\<forall>w\<in>set ws. proper_window st w"
  shows "0 \<le> sum_list (map (cellW st) ws)"
  using assms cell_pos(1) by (intro sum_list_nonneg) (auto intro: less_imp_le)

lemma row_ok_newRow [simp]: "row_ok st newRow" "row_windows newRow = []"
  by (simp_all add: row_ok_def newRow_def)

lemma fillRow_spec:
  assumes "fillRow st ideal isLast r ws = (r', rest)" and "row_ok st r"
  shows "row_ok st r' \<and> row_windows r @ ws = row_windows r' @ rest \<and> (isLast \<longrightarrow> rest = [])"
  using assms
proof (induction ws arbitrary: r)
  case Nil
  then show ?case by simp
next
  case (Cons w ws)
  define r1 where "r1 = r\<lparr>fullHeight := max (fullHeight r) (cellH st w)\<rparr>"
  define r2 where "r2 = r1\<lparr>row_windows := row_windows r1 @ [w], fullWidth := fullWidth r1 + cellW st w\<rparr>"
  have eq: "fillRow st ideal isLast r (w # ws) =
      (if keepSameRow r1 (cellW st w) ideal \<or> isLast then fillRow st ideal isLast r2 ws else (r1, w # ws))"
    by (simp add: Let_def r1_def r2_def cellW_def cellH_def)
  have ok: "row_ok st r1" "row_ok st r2" "row_windows r1 = row_windows r" "row_windows r2 = row_windows r @ [w]"
    using Cons.prems(2) by (auto simp: row_ok_def r1_def r2_def)
  show ?case
  proof (cases "keepSameRow r1 (cellW st w) ideal \<or> isLast")
    case True
    with Cons.prems(1) have "fillRow st ideal isLast r2 ws = (r', rest)" unfolding eq by simp
    from Cons.IH [OF this ok(2)] show ?thesis by (simp add: ok(4))
  next
    case False
    with Cons.prems(1) ok show ?thesis unfolding eq by auto
  qed
qed

lemma fillRows_spec:
  "length (fillRows st ideal k ws) = k \<and> (\<forall>r\<in>set (fillRows st ideal k ws). row_ok st r) \<and>
   (k \<noteq> 0 \<longrightarrow> concat (map row_windows (fillRows st ideal k ws)) = ws)"
proof (induction k arbitrary: ws)
  case 0
  then show ?case by simp
next
  case (Suc k)
  obtain r rest where f: "fillRow st ideal (k = 0) newRow ws = (r, rest)" by fastforce
  from fillRow_spec [OF f] have "row_ok st r" "ws = row_windows r @ rest" "k = 0 \<longrightarrow> rest = []" by simp_all
  moreover have "fillRows st ideal (Suc k) ws = r # fillRows st ideal k rest" by (simp only: fillRows.simps f Let_def case_prod_conv)
  ultimately show ?case using Suc.IH [of rest] by (cases "k = 0") auto
qed

lemma sum_list_map_sort_key: "sum_list (map f (sort_key g xs)) = sum_list (map f xs)" for f :: "'a \<Rightarrow> real"
  by (metis mset_sort mset_map sum_mset_sum_list)

lemma row_ok_sortRow: "row_ok st (sortRow r) = row_ok st r"
  by (simp add: row_ok_def sortRow_def sum_list_map_sort_key)

lemma mset_concat_sortRow: "mset (concat (map row_windows (map sortRow rs))) = mset (concat (map row_windows rs))"
  by (induction rs) (simp_all add: sortRow_def)

lemma maxRow_in: "maxRow m rs \<in> set (m # rs)"
  by (induction m rs rule: maxRow.induct) auto

lemma maxRow_mono: "fullWidth m \<le> fullWidth (maxRow m rs)"
  by (induction m rs rule: maxRow.induct) (auto split: if_splits intro: order.trans)

lemma maxRow_greatest: "r \<in> set (m # rs) \<Longrightarrow> fullWidth r \<le> fullWidth (maxRow m rs)"
proof (induction m rs rule: maxRow.induct)
  case (2 m r' rs)
  define m' where "m' = (if fullWidth r' > fullWidth m then r' else m)"
  have m': "fullWidth m \<le> fullWidth m'" "fullWidth r' \<le> fullWidth m'" by (simp_all add: m'_def)
  have IH: "x \<in> set (m' # rs) \<Longrightarrow> r = x \<Longrightarrow> fullWidth r \<le> fullWidth (maxRow m' rs)" for x
    using 2 unfolding m'_def by simp
  then have "fullWidth m' \<le> fullWidth (maxRow m' rs)"
    using maxRow_mono by blast
  with IH 2(2) m' show ?case unfolding maxRow.simps m'_def [symmetric] by auto
qed simp

text \<open>What a layout is: every window in one row, and the width and height of the rows.\<close>

lemma computeLayout_spec:
  assumes "computeLayout st ws n = Some l"
  shows "numRows l = n" and "length (rows l) = n" and "n \<noteq> 0"
    and "\<forall>r\<in>set (rows l). row_ok st r"
    and "mset (concat (map row_windows (rows l))) = mset ws"
    and "gridHeight l = sum_list (map fullHeight (rows l))"
    and "\<exists>r\<in>set (rows l). maxColumns l = length (row_windows r) \<and> gridWidth l = fullWidth r"
    and "\<forall>r\<in>set (rows l). fullWidth r \<le> gridWidth l"
proof -
  define rs0 where "rs0 = fillRows st (sum_list (map (\<lambda>w. box_width (boundingBox w) * computeWindowScale st w) ws) / real n) n
    (sort_key (\<lambda>w. snd (windowCenter w)) ws)"
  define rs where "rs = map sortRow rs0"
  from assms have n: "n \<noteq> 0" and l: "l = \<lparr>numRows = n, rows = rs, maxColumns = length (row_windows (maxRow (hd rs) (tl rs))),
      gridWidth = fullWidth (maxRow (hd rs) (tl rs)), gridHeight = sum_list (map fullHeight rs)\<rparr>"
    by (auto simp: computeLayout_def Let_def rs_def rs0_def split: if_splits)
  have 1: "length rs0 = n" "\<forall>r\<in>set rs0. row_ok st r"
      "concat (map row_windows rs0) = sort_key (\<lambda>w. snd (windowCenter w)) ws"
    unfolding rs0_def using fillRows_spec n by auto
  show "numRows l = n" "length (rows l) = n" "n \<noteq> 0" "gridHeight l = sum_list (map fullHeight (rows l))"
    using n 1 by (simp_all add: l rs_def)
  show "\<forall>r\<in>set (rows l). row_ok st r" using 1(2) by (simp add: l rs_def row_ok_sortRow)
  show "mset (concat (map row_windows (rows l))) = mset ws"
    using mset_concat_sortRow [of rs0] 1(3) by (simp add: l rs_def del: mset_concat)
  have "rs \<noteq> []" using 1(1) n by (auto simp: rs_def)
  then have rs: "set (hd rs # tl rs) = set rs" by (metis list.collapse)
  then have "maxRow (hd rs) (tl rs) \<in> set rs" using maxRow_in by metis
  then show "\<exists>r\<in>set (rows l). maxColumns l = length (row_windows r) \<and> gridWidth l = fullWidth r" by (auto simp: l)
  show "\<forall>r\<in>set (rows l). fullWidth r \<le> gridWidth l" using maxRow_greatest rs by (simp add: l) blast
qed

subsection \<open>Quotients\<close>

lemma quot_fit:
  assumes "0 < x" and "0 \<le> b"
  obtains a where "num_min (Fin 1) (quot x b) = Fin a" and "0 < a" and "a \<le> 1" and "a * b \<le> x"
    and "a = 1 \<or> a * b = x"
proof (cases "b = 0")
  case True
  with assms show ?thesis by (intro that [of 1]) (simp_all add: quot_def)
next
  case False
  with assms have "0 < b" by simp
  with assms show ?thesis
    by (intro that [of "min 1 (x / b)"]) (simp_all add: quot_def min_def pos_le_divide_eq)
qed

lemma centred: "b \<le> a \<Longrightarrow> (a - b) / 2 + b \<le> a" for a b :: real
  by (simp add: field_simps)

subsection \<open>Where the rows go\<close>

definition innerWidth :: "strategy \<Rightarrow> row \<Rightarrow> real" where
  "innerWidth st r = row_width r - horizontalSpacing st r"

text \<open>The rows are below each other, from \<open>y\<close>, with the row spacing between them.\<close>

fun stacked :: "strategy \<Rightarrow> box \<Rightarrow> real \<Rightarrow> real \<Rightarrow> row list \<Rightarrow> bool" where
  "stacked st area V y [] = True"
| "stacked st area V y (r # rs) =
    (row_y r = y \<and> 0 < additionalScale r \<and> additionalScale r \<le> V \<and> box_x area \<le> row_x r \<and>
     row_x r + (innerWidth st r * additionalScale r + horizontalSpacing st r) \<le> box_x area + box_width area \<and>
     stacked st area V (y + (row_height r * additionalScale r + rowSpacing st)) rs)"

lemma placeRows_spec:
  assumes "0 < V" and "\<And>r. r \<in> set rs \<Longrightarrow> horizontalSpacing st r < box_width area \<and> 0 \<le> innerWidth st r"
  shows "\<exists>rs'. placeRows st area H vs V y c rs =
      Some (rs', c + (V * sum_list (map row_height rs) - sum_list (map (\<lambda>r. row_height r * additionalScale r) rs'))) \<and>
    stacked st area V (box_y area + max (box_height area - (H + vs)) 0 / 2 + y) rs' \<and>
    map row_windows rs' = map row_windows rs \<and> map row_height rs' = map row_height rs \<and> map row_width rs' = map row_width rs"
  using assms
proof (induction rs arbitrary: y c)
  case Nil
  then show ?case by simp
next
  case (Cons r rs)
  let ?hs = "horizontalSpacing st r"
  have r: "?hs < box_width area" "0 \<le> innerWidth st r" using Cons.prems(2) by simp_all
  from quot_fit [of "box_width area - ?hs" "innerWidth st r"] r obtain a where
    a: "num_min (Fin 1) (quot (box_width area - ?hs) (innerWidth st r)) = Fin a" "0 < a" "a * innerWidth st r \<le> box_width area - ?hs"
    by (metis diff_gt_0_iff_gt)
  define scl where "scl = (if a < V then a else V)"
  define c1 where "c1 = c + (V - scl) * row_height r"
  define y1 where "y1 = y + (row_height r * scl + rowSpacing st)"
  define r' where "r' = r\<lparr>additionalScale := scl,
    row_x := box_x area + max (box_width area - (innerWidth st r * scl + ?hs)) 0 / 2,
    row_y := box_y area + max (box_height area - (H + vs)) 0 / 2 + y\<rparr>"
  have scl: "0 < scl" "scl \<le> V" "scl \<le> a" using a Cons.prems(1) by (auto simp: scl_def)
  have c1: "(if a < V then c + (V - a) * row_height r else c) = c1" by (simp add: c1_def scl_def)
  have IH: "\<exists>rs'. placeRows st area H vs V y1 c1 rs =
      Some (rs', c1 + (V * sum_list (map row_height rs) - sum_list (map (\<lambda>r. row_height r * additionalScale r) rs'))) \<and>
    stacked st area V (box_y area + max (box_height area - (H + vs)) 0 / 2 + y1) rs' \<and>
    map row_windows rs' = map row_windows rs \<and> map row_height rs' = map row_height rs \<and> map row_width rs' = map row_width rs"
    using Cons.prems by (intro Cons.IH) simp_all
  then obtain rs' where rs': "placeRows st area H vs V y1 c1 rs =
      Some (rs', c1 + (V * sum_list (map row_height rs) - sum_list (map (\<lambda>r. row_height r * additionalScale r) rs')))"
    "stacked st area V (box_y area + max (box_height area - (H + vs)) 0 / 2 + y1) rs'"
    "map row_windows rs' = map row_windows rs" "map row_height rs' = map row_height rs" "map row_width rs' = map row_width rs"
    by blast
  have eq: "placeRows st area H vs V y c (r # rs) =
      (case placeRows st area H vs V y1 c1 rs of Some (rs', c) \<Rightarrow> Some (r' # rs', c) | None \<Rightarrow> None)"
    unfolding placeRows.simps Let_def innerWidth_def [symmetric] a(1) jsnum.case c1 scl_def [symmetric] r'_def y1_def by (rule refl)
  have fits: "innerWidth st r * scl + ?hs \<le> box_width area"
  proof -
    have "innerWidth st r * scl \<le> innerWidth st r * a" using scl(3) r(2) by (rule mult_left_mono)
    with a(3) show ?thesis by (simp add: mult.commute)
  qed
  have r'_same: "horizontalSpacing st r' = ?hs" "innerWidth st r' = innerWidth st r"
    by (simp_all add: horizontalSpacing_def innerWidth_def r'_def)
  show ?case
  proof (intro exI conjI)
    show "placeRows st area H vs V y c (r # rs) = Some (r' # rs', c + (V * sum_list (map row_height (r # rs)) -
        sum_list (map (\<lambda>r. row_height r * additionalScale r) (r' # rs'))))"
      unfolding eq rs'(1) by (simp add: c1_def r'_def algebra_simps)
    have y': "row_y r' + (row_height r' * additionalScale r' + rowSpacing st) =
        box_y area + max (box_height area - (H + vs)) 0 / 2 + y1" by (simp add: r'_def y1_def)
    show "stacked st area V (box_y area + max (box_height area - (H + vs)) 0 / 2 + y) (r' # rs')"
      using rs'(2) fits scl unfolding stacked.simps r'_same y' [symmetric]
      using centred [OF fits] by (simp add: r'_def max_def)
  qed (use rs'(3-5) in \<open>simp_all add: r'_def\<close>)
qed

subsection \<open>Where the windows of a row go\<close>

definition beside :: "strategy \<Rightarrow> slot \<Rightarrow> slot \<Rightarrow> bool" where
  "beside st a b \<longleftrightarrow> slot_x a + slot_width a + columnSpacing st \<le> slot_x b"

lemma clone_in_cell:
  assumes "0 < b" and "0 < s" and "s' = min s WINDOW_PREVIEW_MAXIMUM_SCALE"
  shows "0 < b * s'" and "b * s' \<le> b * s"
  using assms by (simp_all add: WINDOW_PREVIEW_MAXIMUM_SCALE_def min_def)

lemma placeWindows_spec:
  assumes st: "proper_strategy st" and ws: "\<forall>w\<in>set ws. proper_window st w \<and> cellH st w * scale \<le> row_height r"
    and scale: "0 < scale" "0 < additionalScale r"
    and S: "S = placeWindows st scale single r rowY x ws" and k: "k = scale * additionalScale r"
  shows "map slot_window S = ws"
    and "\<forall>a\<in>set S. x \<le> slot_x a \<and> 0 < slot_width a \<and> 0 < slot_height a \<and>
      slot_x a + slot_width a \<le> x + sum_list (map (cellW st) ws) * k + (real (length ws) - 1) * columnSpacing st \<and>
      rowY \<le> slot_y a \<and> slot_y a + slot_height a \<le> rowY + row_height r * additionalScale r"
    and "sorted_wrt (beside st) S"
proof -
  have col: "0 \<le> columnSpacing st" using st by (simp add: proper_strategy_def)
  have "map slot_window S = ws \<and> (\<forall>a\<in>set S. x \<le> slot_x a \<and> 0 < slot_width a \<and> 0 < slot_height a \<and>
      slot_x a + slot_width a \<le> x + sum_list (map (cellW st) ws) * k + (real (length ws) - 1) * columnSpacing st \<and>
      rowY \<le> slot_y a \<and> slot_y a + slot_height a \<le> rowY + row_height r * additionalScale r) \<and> sorted_wrt (beside st) S"
    using ws S
  proof (induction ws arbitrary: x S)
    case Nil
    then show ?case by simp
  next
    case (Cons w ws)
    have w: "proper_window st w" "cellH st w * scale \<le> row_height r" using Cons.prems(1) by simp_all
    define s where "s = scale * computeWindowScale st w * additionalScale r"
    define s' where "s' = min s WINDOW_PREVIEW_MAXIMUM_SCALE"
    define cw where "cw = box_width (boundingBox w) * s"
    define ch where "ch = box_height (boundingBox w) * s"
    define a where "a = \<lparr>slot_x = x + (cw - box_width (boundingBox w) * s') / 2,
      slot_y = (if single then rowY + (row_height r * additionalScale r - box_height (boundingBox w) * s') / 2
        else rowY + row_height r * additionalScale r - ch),
      slot_width = box_width (boundingBox w) * s', slot_height = box_height (boundingBox w) * s', slot_window = w\<rparr>"
    define S' where "S' = placeWindows st scale single r rowY (x + (cw + columnSpacing st)) ws"
    have S: "S = a # S'"
      unfolding Cons.prems(2) placeWindows.simps Let_def s_def [symmetric] s'_def [symmetric] cw_def [symmetric] ch_def [symmetric] S'_def a_def
      by (rule refl)
    have "0 < s" using computeWindowScale_pos [OF st w(1)] scale by (simp add: s_def)
    with w(1) have sz: "0 < box_width (boundingBox w) * s'" "box_width (boundingBox w) * s' \<le> cw"
        "0 < box_height (boundingBox w) * s'" "box_height (boundingBox w) * s' \<le> ch"
      unfolding cw_def ch_def using clone_in_cell [OF _ _ s'_def] by (simp_all add: proper_window_def)
    have cw: "cw = cellW st w * k" "ch = cellH st w * scale * additionalScale r"
      by (simp_all add: cw_def ch_def s_def k cellW_def cellH_def)
    have ch: "ch \<le> row_height r * additionalScale r"
      unfolding cw(2) using w(2) scale(2) by (simp add: mult_right_mono)
    have IH: "map slot_window S' = ws \<and> (\<forall>a\<in>set S'. x + (cw + columnSpacing st) \<le> slot_x a \<and> 0 < slot_width a \<and> 0 < slot_height a \<and>
      slot_x a + slot_width a \<le> x + (cw + columnSpacing st) + sum_list (map (cellW st) ws) * k + (real (length ws) - 1) * columnSpacing st \<and>
      rowY \<le> slot_y a \<and> slot_y a + slot_height a \<le> rowY + row_height r * additionalScale r) \<and> sorted_wrt (beside st) S'"
      using Cons.prems(1) S'_def by (intro Cons.IH) simp_all
    have rest: "0 \<le> sum_list (map (cellW st) ws) * k"
    proof (intro mult_nonneg_nonneg sum_list_nonneg)
      show "0 \<le> k" using scale by (simp add: k)
    next
      fix c assume "c \<in> set (map (cellW st) ws)"
      then show "0 \<le> c" using Cons.prems(1) cell_pos [OF st] by (auto intro: less_imp_le)
    qed
    have len: "0 \<le> real (length ws) * columnSpacing st" using col by simp
    have a: "x \<le> slot_x a" "slot_x a + slot_width a \<le> x + cw" "0 < slot_width a" "0 < slot_height a"
        "rowY \<le> slot_y a" "slot_y a + slot_height a \<le> rowY + row_height r * additionalScale r" "slot_window a = w"
      using sz ch by (simp_all add: a_def field_simps)
    have wid: "x + sum_list (map (cellW st) (w # ws)) * k + (real (length (w # ws)) - 1) * columnSpacing st =
        x + cw + sum_list (map (cellW st) ws) * k + real (length ws) * columnSpacing st"
      by (simp add: cw algebra_simps)
    have wid': "x + (cw + columnSpacing st) + sum_list (map (cellW st) ws) * k + (real (length ws) - 1) * columnSpacing st =
        x + cw + sum_list (map (cellW st) ws) * k + real (length ws) * columnSpacing st"
      by (simp add: algebra_simps)
    have x: "x \<le> x + (cw + columnSpacing st)" using sz col by linarith
    have bes: "\<forall>b\<in>set S'. beside st a b" using IH a(2) by (fastforce simp: beside_def)
    show ?case unfolding S wid using IH a rest len x bes unfolding wid' by (auto intro: order.trans)
  qed
  then show "map slot_window S = ws"
    and "\<forall>a\<in>set S. x \<le> slot_x a \<and> 0 < slot_width a \<and> 0 < slot_height a \<and>
      slot_x a + slot_width a \<le> x + sum_list (map (cellW st) ws) * k + (real (length ws) - 1) * columnSpacing st \<and>
      rowY \<le> slot_y a \<and> slot_y a + slot_height a \<le> rowY + row_height r * additionalScale r"
    and "sorted_wrt (beside st) S" by blast+
qed

subsection \<open>All slots\<close>

definition below :: "strategy \<Rightarrow> slot \<Rightarrow> slot \<Rightarrow> bool" where
  "below st a b \<longleftrightarrow> slot_y a + slot_height a + rowSpacing st \<le> slot_y b"

text \<open>A row as \<open>_computeRowSizes\<close> leaves it.\<close>

definition sized :: "strategy \<Rightarrow> real \<Rightarrow> row \<Rightarrow> bool" where
  "sized st scale r \<longleftrightarrow> (\<forall>w\<in>set (row_windows r). proper_window st w \<and> cellH st w * scale \<le> row_height r) \<and>
    0 \<le> row_height r \<and> innerWidth st r = sum_list (map (cellW st) (row_windows r)) * scale"

lemma sized_cong:
  assumes "row_windows r' = row_windows r" and "row_height r' = row_height r" and "row_width r' = row_width r"
  shows "sized st scale r' = sized st scale r"
  using assms by (simp add: sized_def innerWidth_def horizontalSpacing_def)

definition rowsHeight :: "strategy \<Rightarrow> row list \<Rightarrow> real" where
  "rowsHeight st rs = sum_list (map (\<lambda>r. row_height r * additionalScale r) rs) + (real (length rs) - 1) * rowSpacing st"

lemma stacked_heights_nonneg:
  assumes "stacked st area V y rs" and "\<forall>r\<in>set rs. sized st scale r"
  shows "0 \<le> sum_list (map (\<lambda>r. row_height r * additionalScale r) rs)"
  using assms by (induction rs arbitrary: y) (auto simp: sized_def intro!: add_nonneg_nonneg)

lemma stacked_heights_le:
  assumes "stacked st area V y rs" and "\<forall>r\<in>set rs. sized st scale r"
  shows "sum_list (map (\<lambda>r. row_height r * additionalScale r) rs) \<le> V * sum_list (map row_height rs)"
  using assms
proof (induction rs arbitrary: y)
  case (Cons r rs)
  then have "row_height r * additionalScale r \<le> row_height r * V"
    by (intro mult_left_mono) (simp_all add: sized_def)
  moreover have "sum_list (map (\<lambda>r. row_height r * additionalScale r) rs) \<le> V * sum_list (map row_height rs)"
    using Cons by auto
  ultimately show ?case by (simp add: algebra_simps)
qed simp

definition slotsOf :: "strategy \<Rightarrow> real \<Rightarrow> bool \<Rightarrow> real \<Rightarrow> row list \<Rightarrow> slot list" where
  "slotsOf st scale single c rs =
    concat (map (\<lambda>r. placeWindows st scale single r (row_y r + c) (row_x r) (row_windows r)) rs)"

lemma slotsOf_spec:
  assumes st: "proper_strategy st" and scale: "0 < scale"
    and "stacked st area V y rs" and "\<forall>r\<in>set rs. sized st scale r"
  shows "map slot_window (slotsOf st scale single c rs) = concat (map row_windows rs) \<and>
    (\<forall>a\<in>set (slotsOf st scale single c rs). 0 < slot_width a \<and> 0 < slot_height a \<and>
      box_x area \<le> slot_x a \<and> slot_x a + slot_width a \<le> box_x area + box_width area \<and>
      y + c \<le> slot_y a \<and> slot_y a + slot_height a \<le> y + c + rowsHeight st rs) \<and>
    sorted_wrt (\<lambda>a b. beside st a b \<or> below st a b) (slotsOf st scale single c rs)"
  using assms(3-4)
proof (induction rs arbitrary: y)
  case Nil
  then show ?case by (simp add: slotsOf_def)
next
  case (Cons r rs)
  define S1 where "S1 = placeWindows st scale single r (row_y r + c) (row_x r) (row_windows r)"
  define S2 where "S2 = slotsOf st scale single c rs"
  define h where "h = row_height r * additionalScale r"
  have S: "slotsOf st scale single c (r # rs) = S1 @ S2" by (simp add: S1_def S2_def slotsOf_def)
  have r: "sized st scale r" "row_y r = y" "0 < additionalScale r" "box_x area \<le> row_x r"
      "row_x r + (innerWidth st r * additionalScale r + horizontalSpacing st r) \<le> box_x area + box_width area"
      "stacked st area V (y + (h + rowSpacing st)) rs" "\<forall>r\<in>set rs. sized st scale r"
    using Cons.prems by (simp_all add: h_def)
  have ws: "\<forall>w\<in>set (row_windows r). proper_window st w \<and> cellH st w * scale \<le> row_height r"
    using r(1) by (simp add: sized_def)
  note S1 = placeWindows_spec [OF st ws scale r(3) S1_def refl]
  have right: "row_x r + sum_list (map (cellW st) (row_windows r)) * (scale * additionalScale r) +
      (real (length (row_windows r)) - 1) * columnSpacing st \<le> box_x area + box_width area"
    using r(1,5) by (simp add: sized_def horizontalSpacing_def algebra_simps)
  note IH = Cons.IH [OF r(6,7), folded S2_def]
  have rsp: "0 \<le> rowSpacing st" using st by (simp add: proper_strategy_def)
  have h: "0 \<le> h" using r(1,3) by (simp add: h_def sized_def)
  have hgt: "rowsHeight st (r # rs) = h + (if rs = [] then 0 else rowSpacing st + rowsHeight st rs)"
    by (cases rs) (simp_all add: rowsHeight_def h_def algebra_simps)
  have S1in: "0 < slot_width a \<and> 0 < slot_height a \<and> box_x area \<le> slot_x a \<and>
      slot_x a + slot_width a \<le> box_x area + box_width area \<and> y + c \<le> slot_y a \<and> slot_y a + slot_height a \<le> y + c + h"
    if "a \<in> set S1" for a
    using S1(2) that right r(2,4) by (fastforce simp: h_def)
  have S2in: "0 < slot_width a \<and> 0 < slot_height a \<and> box_x area \<le> slot_x a \<and>
      slot_x a + slot_width a \<le> box_x area + box_width area \<and> y + (h + rowSpacing st) + c \<le> slot_y a \<and>
      slot_y a + slot_height a \<le> y + (h + rowSpacing st) + c + rowsHeight st rs"
    if "a \<in> set S2" for a
    using IH that by blast
  have ne: "rs \<noteq> []" if "a \<in> set S2" for a using that by (auto simp: S2_def slotsOf_def)
  have nonneg: "0 \<le> rowsHeight st rs" if "a \<in> set S2" for a
    using S2in [OF that] by linarith
  have all: "\<forall>a\<in>set (S1 @ S2). 0 < slot_width a \<and> 0 < slot_height a \<and> box_x area \<le> slot_x a \<and>
      slot_x a + slot_width a \<le> box_x area + box_width area \<and> y + c \<le> slot_y a \<and>
      slot_y a + slot_height a \<le> y + c + rowsHeight st (r # rs)"
  proof
    fix a assume a: "a \<in> set (S1 @ S2)"
    have rest: "0 \<le> rowSpacing st + rowsHeight st rs" if "rs \<noteq> []"
    proof -
      have "0 \<le> sum_list (map (\<lambda>r. row_height r * additionalScale r) rs)"
        using r(6,7) by (rule stacked_heights_nonneg)
      moreover have "0 \<le> (real (length rs) - 1) * rowSpacing st" using that rsp by (cases rs) simp_all
      ultimately show ?thesis using rsp by (simp add: rowsHeight_def)
    qed
    show "0 < slot_width a \<and> 0 < slot_height a \<and> box_x area \<le> slot_x a \<and>
      slot_x a + slot_width a \<le> box_x area + box_width area \<and> y + c \<le> slot_y a \<and>
      slot_y a + slot_height a \<le> y + c + rowsHeight st (r # rs)"
    proof (cases "a \<in> set S1")
      case True
      with S1in rest show ?thesis unfolding hgt by (cases "rs = []") fastforce+
    next
      case False
      with a have "a \<in> set S2" by simp
      with S2in [OF this] ne [OF this] h rsp show ?thesis unfolding hgt by auto
    qed
  qed
  have cross: "\<forall>a\<in>set S1. \<forall>b\<in>set S2. below st a b"
    using S1in S2in by (fastforce simp: below_def)
  have "sorted_wrt (\<lambda>a b. beside st a b \<or> below st a b) S1"
    using S1(3) by (rule sorted_wrt_mono_rel [rotated]) simp
  with cross IH have "sorted_wrt (\<lambda>a b. beside st a b \<or> below st a b) (S1 @ S2)"
    by (simp add: sorted_wrt_append)
  then show ?case using all S1(1) IH by (simp add: S)
qed

text \<open>What the code promises of the slots in an area.\<close>

definition slots_ok :: "strategy \<Rightarrow> box \<Rightarrow> preview list \<Rightarrow> slot list \<Rightarrow> bool" where
  "slots_ok st area ws S \<longleftrightarrow> mset (map slot_window S) = mset ws \<and>
    (\<forall>a\<in>set S. 0 < slot_width a \<and> 0 < slot_height a \<and>
      box_x area \<le> slot_x a \<and> slot_x a + slot_width a \<le> box_x area + box_width area \<and>
      box_y area \<le> slot_y a \<and> slot_y a + slot_height a \<le> box_y area + box_height area) \<and>
    sorted_wrt (\<lambda>a b. beside st a b \<or> below st a b) S"

text \<open>An area has room when the spacings alone do not fill it.\<close>

definition roomy :: "strategy \<Rightarrow> box \<Rightarrow> preview list \<Rightarrow> nat \<Rightarrow> bool" where
  "roomy st area ws n \<longleftrightarrow> 0 < box_width area \<and> 0 < box_height area \<and>
    (real (length ws) - 1) * columnSpacing st < box_width area \<and> (real n - 1) * rowSpacing st < box_height area"

lemma length_row_windows_le: "r \<in> set rs \<Longrightarrow> length (row_windows r) \<le> length (concat (map row_windows rs))"
  by (induction rs) auto

lemma horizontalSpacing_less:
  assumes st: "proper_strategy st" and l: "computeLayout st ws n = Some l" and room: "roomy st area ws n"
    and r: "r \<in> set (rows l)"
  shows "(real (length (row_windows r)) - 1) * columnSpacing st < box_width area"
proof -
  have "mset (concat (map row_windows (rows l))) = mset ws" by (rule computeLayout_spec(5) [OF l])
  then have "length (concat (map row_windows (rows l))) = length ws" by (rule mset_eq_length)
  with length_row_windows_le [OF r] have "length (row_windows r) \<le> length ws" by simp
  then have "(real (length (row_windows r)) - 1) * columnSpacing st \<le> (real (length ws) - 1) * columnSpacing st"
    using st by (intro mult_right_mono) (simp_all add: proper_strategy_def)
  with room show ?thesis by (simp add: roomy_def)
qed

lemma layout_proper:
  assumes l: "computeLayout st ws n = Some l" and ws: "\<forall>w\<in>set ws. proper_window st w" and r: "r \<in> set (rows l)"
  shows "\<forall>w\<in>set (row_windows r). proper_window st w"
proof -
  have "set (row_windows r) \<subseteq> set (concat (map row_windows (rows l)))" using r by auto
  also have "\<dots> = set ws" using computeLayout_spec(5) [OF l] by (rule mset_eq_setD)
  finally show ?thesis using ws by blast
qed

lemma computeWindowSlots_ok:
  assumes st: "proper_strategy st" and ws: "\<forall>w\<in>set ws. proper_window st w"
    and l: "computeLayout st ws n = Some l" and scale: "0 < scale" and room: "roomy st area ws n"
  shows "\<exists>S. computeWindowSlots st l scale area = Some S \<and> slots_ok st area ws S"
proof -
  define rs where "rs = computeRowSizes st scale (rows l)"
  define H where "H = sum_list (map row_height rs)"
  define vs where "vs = (real (length rs) - 1) * rowSpacing st"
  have len: "length rs = n" "n \<noteq> 0" using computeLayout_spec(2,3) [OF l] by (simp_all add: rs_def computeRowSizes_def)
  have inner: "innerWidth st r = fullWidth r * scale \<and> row_height r = fullHeight r * scale \<and>
      horizontalSpacing st r < box_width area \<and> row_ok st r \<and> (\<forall>w\<in>set (row_windows r). proper_window st w)"
    if "r \<in> set rs" for r
  proof -
    from that obtain r0 where r0: "r0 \<in> set (rows l)"
      "r = r0\<lparr>row_width := fullWidth r0 * scale + (real (length (row_windows r0)) - 1) * columnSpacing st, row_height := fullHeight r0 * scale\<rparr>"
      by (auto simp: rs_def computeRowSizes_def)
    have "row_ok st r0" using computeLayout_spec(4) [OF l] r0(1) by blast
    with horizontalSpacing_less [OF st l room r0(1)] layout_proper [OF l ws r0(1)] show ?thesis
      by (simp add: r0(2) innerWidth_def horizontalSpacing_def row_ok_def)
  qed
  have sized: "sized st scale r" if "r \<in> set rs" for r
    using inner [OF that] scale by (auto simp: sized_def row_ok_def)
  have H: "0 \<le> H" unfolding H_def using sized by (intro sum_list_nonneg) (auto simp: sized_def)
  have "0 < box_height area - vs" using room len by (simp add: roomy_def vs_def)
  from quot_fit [OF this H] obtain V where V: "num_min (Fin 1) (quot (box_height area - vs) H) = Fin V"
      "0 < V" "V \<le> 1" "V * H \<le> box_height area - vs" "V = 1 \<or> V * H = box_height area - vs" by metis
  have inner_nonneg: "0 \<le> innerWidth st r" if "r \<in> set rs" for r
    using inner [OF that] scale cells_nonneg [OF st] by (simp add: row_ok_def)
  define base where "base = box_y area + max (box_height area - (H + vs)) 0 / 2"
  obtain rs' where rs': "placeRows st area H vs V 0 0 rs =
      Some (rs', 0 + (V * sum_list (map row_height rs) - sum_list (map (\<lambda>r. row_height r * additionalScale r) rs')))"
      "stacked st area V (base + 0) rs'"
      "map row_windows rs' = map row_windows rs" "map row_height rs' = map row_height rs" "map row_width rs' = map row_width rs"
    using placeRows_spec [OF V(2), of rs st area H vs 0 0] inner inner_nonneg unfolding base_def by blast
  define A where "A = sum_list (map (\<lambda>r. row_height r * additionalScale r) rs')"
  have len': "length rs' = length rs" using rs'(3) by (metis length_map)
  have sized': "\<forall>r\<in>set rs'. sized st scale r"
  proof
    fix r assume "r \<in> set rs'"
    then obtain i where i: "i < length rs" "r = rs' ! i" by (metis in_set_conv_nth len')
    then have "row_windows r = row_windows (rs ! i)" "row_height r = row_height (rs ! i)" "row_width r = row_width (rs ! i)"
      using rs'(3-5) len' by (metis nth_map)+
    from sized_cong [OF this] sized i show "sized st scale r" by simp
  qed
  have single: "(length rs = 1) = (length rs' = 1)" by (simp add: len')
  define S where "S = slotsOf st scale (length rs = 1) ((0 + (V * H - A)) / 2) rs'"
  have eq: "computeWindowSlots st l scale area = Some S"
    unfolding computeWindowSlots_def Let_def rs_def [symmetric] H_def [symmetric] vs_def [symmetric] V(1) jsnum.case rs'(1)
      option.case case_prod_conv S_def slotsOf_def A_def
    by (simp add: H_def)
  note spec = slotsOf_spec [OF st scale rs'(2) sized', of "length rs = 1" "(0 + (V * H - A)) / 2", folded S_def]
  have AV: "A \<le> V * H"
  proof -
    have "A \<le> V * sum_list (map row_height rs')"
      unfolding A_def using rs'(2) sized' by (rule stacked_heights_le)
    then show ?thesis by (simp add: H_def rs'(4))
  qed
  have top: "box_y area \<le> base + 0 + (0 + (V * H - A)) / 2" using AV by (simp add: base_def)
  have bottom: "base + 0 + (0 + (V * H - A)) / 2 + rowsHeight st rs' \<le> box_y area + box_height area"
  proof -
    have "base + (V * H - A) / 2 + A + vs \<le> base + V * H + vs" using centred [OF AV] by simp
    also have "\<dots> \<le> box_y area + box_height area"
    proof (cases "box_height area \<le> H + vs")
      case True
      then show ?thesis using V(4) by (simp add: base_def)
    next
      case False
      then have "V = 1"
        using V(3,5) H mult_right_mono [of V 1 H] by auto
      with False show ?thesis by (simp add: base_def max_def field_simps)
    qed
    finally show ?thesis by (simp add: rowsHeight_def A_def vs_def len')
  qed
  have "mset (concat (map row_windows rs)) = mset ws"
    using computeLayout_spec(5) [OF l] by (simp add: rs_def computeRowSizes_def comp_def)
  with spec have "mset (map slot_window S) = mset ws" by (simp add: rs'(3))
  moreover have "\<forall>a\<in>set S. 0 < slot_width a \<and> 0 < slot_height a \<and>
      box_x area \<le> slot_x a \<and> slot_x a + slot_width a \<le> box_x area + box_width area \<and>
      box_y area \<le> slot_y a \<and> slot_y a + slot_height a \<le> box_y area + box_height area"
    using spec top bottom by (meson order.trans)
  ultimately show ?thesis unfolding eq slots_ok_def using spec by (simp del: mset_map)
qed

subsection \<open>The best layout\<close>

lemma computeScaleAndSpace_pos:
  assumes st: "proper_strategy st" and ws: "\<forall>w\<in>set ws. proper_window st w"
    and l: "computeLayout st ws n = Some l" and room: "roomy st area ws n"
  obtains s where "fst (computeScaleAndSpace st l area) = Fin s" and "0 < s" and "s \<le> WINDOW_PREVIEW_MAXIMUM_SCALE"
proof -
  obtain r where r: "r \<in> set (rows l)" "maxColumns l = length (row_windows r)" "gridWidth l = fullWidth r"
    using computeLayout_spec(7) [OF l] by blast
  have h: "0 < box_width area - (real (maxColumns l) - 1) * columnSpacing st"
    using horizontalSpacing_less [OF st l room r(1)] by (simp add: r(2))
  have v: "0 < box_height area - (real (numRows l) - 1) * rowSpacing st"
    using room computeLayout_spec(1) [OF l] by (simp add: roomy_def)
  have gw: "0 \<le> gridWidth l"
  proof -
    have "row_ok st r" using computeLayout_spec(4) [OF l] r(1) by blast
    then show ?thesis unfolding r(3) row_ok_def using layout_proper [OF l ws r(1)] cells_nonneg [OF st] by simp
  qed
  have gh: "0 \<le> gridHeight l"
    unfolding computeLayout_spec(6) [OF l] using computeLayout_spec(4) [OF l]
    by (intro sum_list_nonneg) (auto simp: row_ok_def)
  have "\<exists>s. num_min (num_min (quot x gw) (quot y gh)) (Fin c) = Fin s \<and> 0 < s \<and> s \<le> c"
    if "0 < x" "0 < y" "0 \<le> gw" "0 \<le> gh" "0 < c" for x y gw gh c
    using that by (cases "gw = 0"; cases "gh = 0") (auto simp: quot_def min_def)
  from this [OF h v gw gh, of WINDOW_PREVIEW_MAXIMUM_SCALE] obtain s where
    "fst (computeScaleAndSpace st l area) = Fin s" "0 < s" "s \<le> WINDOW_PREVIEW_MAXIMUM_SCALE"
    by (auto simp: computeScaleAndSpace_def Let_def WINDOW_PREVIEW_MAXIMUM_SCALE_def)
  then show ?thesis by (rule that)
qed

lemma numColumns_one: "k \<le> n \<Longrightarrow> 0 < k \<Longrightarrow> numColumns k n = 1"
  unfolding numColumns_def by (intro ceiling_unique) (simp_all add: field_simps)

lemma numColumns_zero: "numColumns 0 n = 0"
  by (simp add: numColumns_def)

lemma roomy_mono: "proper_strategy st \<Longrightarrow> roomy st area ws m \<Longrightarrow> n \<le> m \<Longrightarrow> roomy st area ws n"
proof -
  assume st: "proper_strategy st" and m: "roomy st area ws m" and "n \<le> m"
  then have "(real n - 1) * rowSpacing st \<le> (real m - 1) * rowSpacing st"
    by (intro mult_right_mono) (simp_all add: proper_strategy_def)
  with m show ?thesis by (simp add: roomy_def)
qed

text \<open>The number of rows: the first one with which another row would not make the windows fewer in a row, or would make the
  layout worse.\<close>

definition layoutFor :: "strategy \<Rightarrow> box \<Rightarrow> preview list \<Rightarrow> nat \<Rightarrow> win_layout \<times> jsnum \<times> jsnum" where
  "layoutFor st area ws n = (case computeLayout st ws n of Some l \<Rightarrow> (l, computeScaleAndSpace st l area)
    | None \<Rightarrow> (undefined, NotNum, NotNum))"

definition stopsAt :: "strategy \<Rightarrow> box \<Rightarrow> preview list \<Rightarrow> nat \<Rightarrow> bool" where
  "stopsAt st area ws n \<longleftrightarrow> numColumns (length ws) (Suc n) = numColumns (length ws) n \<or>
    (case (layoutFor st area ws n, layoutFor st area ws (Suc n)) of
      ((_, scale, space), (_, scale', space')) \<Rightarrow> \<not> isBetterScaleAndSpace scale space scale' space')"

lemma layoutFor_Suc: "computeLayout st ws (Suc n) = Some l \<Longrightarrow> layoutFor st area ws (Suc n) = (l, computeScaleAndSpace st l area)"
  by (simp add: layoutFor_def)

lemma bestFrom_step:
  "bestFrom st area ws (Some (layoutFor st area ws n)) (numColumns (length ws) n) n =
    (if stopsAt st area ws n then Some (layoutFor st area ws n)
     else bestFrom st area ws (Some (layoutFor st area ws (Suc n))) (numColumns (length ws) (Suc n)) (Suc n))"
proof -
  obtain l where l: "computeLayout st ws (Suc n) = Some l" by (simp add: computeLayout_def Let_def)
  obtain sc sp where sc: "computeScaleAndSpace st l area = (sc, sp)" by fastforce
  obtain l0 sc0 sp0 where l0: "layoutFor st area ws n = (l0, sc0, sp0)" by (cases "layoutFor st area ws n")
  show ?thesis
    unfolding l0 layoutFor_Suc [OF l] sc stopsAt_def
    by (subst bestFrom.simps) (simp add: l sc)
qed

lemma bestFrom_first:
  "\<exists>m\<ge>n. stopsAt st area ws m \<and> (\<forall>i\<in>{n..<m}. \<not> stopsAt st area ws i) \<and>
    bestFrom st area ws (Some (layoutFor st area ws n)) (numColumns (length ws) n) n = Some (layoutFor st area ws m)"
proof (induction "rowsLeft (length ws) (numColumns (length ws) n) n" arbitrary: n rule: less_induct)
  case less
  show ?case
  proof (cases "stopsAt st area ws n")
    case True
    then show ?thesis by (intro exI [of _ n]) (simp add: bestFrom_step)
  next
    case False
    then have "numColumns (length ws) (Suc n) \<noteq> numColumns (length ws) n" by (simp add: stopsAt_def)
    from less [OF rowsLeft_decreases [OF this]] obtain m where
      m: "m \<ge> Suc n" "stopsAt st area ws m" "\<forall>i\<in>{Suc n..<m}. \<not> stopsAt st area ws i"
        "bestFrom st area ws (Some (layoutFor st area ws (Suc n))) (numColumns (length ws) (Suc n)) (Suc n) = Some (layoutFor st area ws m)"
      by blast
    have "\<forall>i\<in>{n..<m}. \<not> stopsAt st area ws i"
    proof
      fix i assume "i \<in> {n..<m}"
      then show "\<not> stopsAt st area ws i" using False m(3) by (cases "i = n") auto
    qed
    with m False show ?thesis by (intro exI [of _ m]) (simp add: bestFrom_step)
  qed
qed

lemma createBestLayout_first:
  "\<exists>n\<ge>1. createBestLayout st area ws = Some (layoutFor st area ws n) \<and> stopsAt st area ws n \<and>
    (\<forall>i\<in>{1..<n}. \<not> stopsAt st area ws i)"
proof -
  obtain l where l: "computeLayout st ws (Suc 0) = Some l" by (simp add: computeLayout_def Let_def)
  have "createBestLayout st area ws = bestFrom st area ws (Some (layoutFor st area ws 1)) (numColumns (length ws) 1) 1"
    using numColumns_nonneg [of "length ws" "Suc 0"] unfolding createBestLayout_def
    by (subst bestFrom.simps) (auto simp: l layoutFor_def split: prod.splits)
  with bestFrom_first [of 1 st area ws] show ?thesis by auto
qed

lemma stopsAt_single: "stopsAt st area ws (max 1 (length ws))"
  using numColumns_one [of "length ws" "length ws"] numColumns_one [of "length ws" "Suc (length ws)"]
  by (cases "length ws = 0") (simp_all add: stopsAt_def numColumns_zero max_def Suc_le_eq)

lemma createBestLayout_rows:
  obtains l n where "createBestLayout st area ws = Some (l, computeScaleAndSpace st l area)"
    and "computeLayout st ws n = Some l" and "n \<le> max 1 (length ws)"
proof -
  obtain n where n: "n \<ge> 1" "createBestLayout st area ws = Some (layoutFor st area ws n)"
      "\<forall>i\<in>{1..<n}. \<not> stopsAt st area ws i"
    using createBestLayout_first by blast
  have "n \<le> max 1 (length ws)" using n(3) stopsAt_single [of st area ws] by (metis atLeastLessThan_iff max.cobounded1 not_le)
  moreover from n(1) obtain l where l: "computeLayout st ws n = Some l" by (auto simp: computeLayout_def Let_def)
  ultimately show ?thesis using that n(2) by (simp add: layoutFor_def)
qed

lemma createBestLayout_fits:
  assumes "proper_strategy st" and "\<forall>w\<in>set ws. proper_window st w"
    and "roomy st workarea ws (max 1 (length ws))" and "roomy st area ws (max 1 (length ws))"
  shows "\<exists>l s space S. createBestLayout st workarea ws = Some (l, Fin s, space) \<and> 0 < s \<and> s \<le> WINDOW_PREVIEW_MAXIMUM_SCALE \<and>
    computeWindowSlots st l s area = Some S \<and> slots_ok st area ws S"
proof -
  obtain l n where b: "createBestLayout st workarea ws = Some (l, computeScaleAndSpace st l workarea)"
    and l: "computeLayout st ws n = Some l" "n \<le> max 1 (length ws)"
    by (rule createBestLayout_rows)
  from computeScaleAndSpace_pos [OF assms(1,2) l(1) roomy_mono [OF assms(1,3) l(2)]]
  obtain s where s: "fst (computeScaleAndSpace st l workarea) = Fin s" "0 < s" "s \<le> WINDOW_PREVIEW_MAXIMUM_SCALE" .
  from computeWindowSlots_ok [OF assms(1,2) l(1) s(2) roomy_mono [OF assms(1,4) l(2)]] b s
  show ?thesis by (metis prod.collapse)
qed

text \<open>C30: The slots of the overview: for any windows and areas with room, the search for the best layout ends with one whose
  scale is positive and at most 95 percent, and in the area the windows get slots, each of them one, inside the area and
  without overlaps: any two are beside or below each other, with the spacing between them.\<close>

theorem overview_slots_fit:
  assumes "proper_strategy st" and "\<forall>w\<in>set ws. proper_window st w"
    and "roomy st workarea ws (max 1 (length ws))" and "roomy st area ws (max 1 (length ws))"
  shows "\<exists>l s space S. createBestLayout st workarea ws = Some (l, Fin s, space) \<and> 0 < s \<and> s \<le> WINDOW_PREVIEW_MAXIMUM_SCALE \<and>
    computeWindowSlots st l s area = Some S \<and>
    mset (map slot_window S) = mset ws \<and>
    (\<forall>a\<in>set S. 0 < slot_width a \<and> 0 < slot_height a \<and>
      box_x area \<le> slot_x a \<and> slot_x a + slot_width a \<le> box_x area + box_width area \<and>
      box_y area \<le> slot_y a \<and> slot_y a + slot_height a \<le> box_y area + box_height area) \<and>
    sorted_wrt (\<lambda>a b. beside st a b \<or> below st a b) S"
  using createBestLayout_fits [OF assms] unfolding slots_ok_def .

text \<open>The search for the number of rows ends, at the first number that another row does not improve.\<close>

theorem best_layout_first_stop:
  "let n = (LEAST i. 1 \<le> i \<and> stopsAt st area ws i)
   in createBestLayout st area ws = Some (layoutFor st area ws n) \<and> stopsAt st area ws n \<and> 1 \<le> n \<and> n \<le> max 1 (length ws)"
proof -
  obtain n where n: "n \<ge> 1" "createBestLayout st area ws = Some (layoutFor st area ws n)" "stopsAt st area ws n"
      "\<forall>i\<in>{1..<n}. \<not> stopsAt st area ws i"
    using createBestLayout_first by blast
  have "(LEAST i. 1 \<le> i \<and> stopsAt st area ws i) = n"
    using n by (intro Least_equality) (auto simp: not_less [symmetric])
  moreover have "n \<le> max 1 (length ws)" using n(4) stopsAt_single [of st area ws] by (metis atLeastLessThan_iff max.cobounded1 not_le)
  ultimately show ?thesis using n by simp
qed

subsection \<open>Examples\<close>

definition exampleStrategy :: strategy where
  "exampleStrategy = \<lparr>monitorHeight = 1000, rowSpacing = 20, columnSpacing = 20\<rparr>"

definition examplePreview :: "nat \<Rightarrow> real \<Rightarrow> real \<Rightarrow> preview" where
  "examplePreview i w h = \<lparr>pv_id = i, boundingBox = \<lparr>box_x = 0, box_y = 0, box_width = w, box_height = h\<rparr>,
    windowCenter = (real i, real i)\<rparr>"

definition exampleArea :: box where
  "exampleArea = \<lparr>box_x = 0, box_y = 0, box_width = 1000, box_height = 800\<rparr>"

theorem overview_slots_fit_witness:
  "\<exists>l s space S. createBestLayout exampleStrategy exampleArea [examplePreview 0 400 100, examplePreview 1 400 800] = Some (l, Fin s, space) \<and>
    0 < s \<and> s \<le> WINDOW_PREVIEW_MAXIMUM_SCALE \<and> computeWindowSlots exampleStrategy l s exampleArea = Some S \<and>
    mset (map slot_window S) = mset [examplePreview 0 400 100, examplePreview 1 400 800] \<and>
    (\<forall>a\<in>set S. 0 < slot_width a \<and> 0 < slot_height a \<and>
      box_x exampleArea \<le> slot_x a \<and> slot_x a + slot_width a \<le> box_x exampleArea + box_width exampleArea \<and>
      box_y exampleArea \<le> slot_y a \<and> slot_y a + slot_height a \<le> box_y exampleArea + box_height exampleArea) \<and>
    sorted_wrt (\<lambda>a b. beside exampleStrategy a b \<or> below exampleStrategy a b) S"
  by (rule overview_slots_fit)
    (simp_all add: proper_strategy_def proper_window_def roomy_def exampleStrategy_def examplePreview_def exampleArea_def)

text \<open>The height of a window counts for the row before the one it is put into: with two rows for a low and a high window, the
  first row, which has the low one, is as high as the second.\<close>

theorem next_window_heightens_row:
  "\<exists>l. computeLayout exampleStrategy [examplePreview 0 400 100, examplePreview 1 400 800] 2 = Some l \<and>
    map row_windows (rows l) = [[examplePreview 0 400 100], [examplePreview 1 400 800]] \<and>
    map fullHeight (rows l) = [880, 880] \<and> cellH exampleStrategy (examplePreview 0 400 100) = 145"
  by (simp add: computeLayout_def Let_def numeral_2_eq_2 exampleStrategy_def examplePreview_def computeWindowScale_def lerp_def
      keepSameRow_def newRow_def sortRow_def cellH_def)

end
