(* ===== verification/WorkspaceLayout.thy ===== *)
theory WorkspaceLayout
  imports WindowLayoutProps
begin

section \<open>The window previews of a workspace (\<open>js/ui/workspace.js\<close>, \<open>WorkspaceLayout\<close>)\<close>

text \<open>
  The layout manager that allocates the previews: between the floating layout of the session and the slots of the overview,
  as the state adjustment says. It keeps the previews in a map, a list of them in the order in which their windows were
  created, and the slots of the last layout. A preview is a number, and so is its window; what the previews and windows
  are at the time is the environment. \<open>slots\<close> are \<open>None\<close> when their coordinates are not numbers.

  An allocation is \<open>None\<close> where the code throws, before it has changed anything; when the slots are not numbers, it gives no
  boxes. A work area and a box for slots have a width. Clipping, overlays and opacity are drawing and left out.
\<close>

record layout_env =
  le_look :: "nat \<Rightarrow> preview"          \<comment> \<open>\<open>boundingBox\<close> and \<open>windowCenter\<close> of a preview\<close>
  le_seq :: "nat \<Rightarrow> nat"               \<comment> \<open>\<open>get_stable_sequence\<close> of a window\<close>
  le_showing :: "nat \<Rightarrow> bool"          \<comment> \<open>\<open>showing_on_its_workspace\<close> of a window\<close>
  le_visible :: "nat \<Rightarrow> bool"          \<comment> \<open>of a preview\<close>
  le_monitorY :: real
  le_monitorHeight :: real
  le_chrome :: "nat \<Rightarrow> real \<times> real \<times> real \<times> real" \<comment> \<open>\<open>chromeHeights\<close> and \<open>chromeWidths\<close>\<close>
  le_bottomOverlap :: "nat \<Rightarrow> real"    \<comment> \<open>of \<open>overlapHeights\<close>\<close>
  le_transformBottom :: "real \<Rightarrow> real" \<comment> \<open>\<open>apply_transform_to_point\<close>, for a point at the bottom\<close>
  le_workarea :: box
  le_animating :: bool                \<comment> \<open>\<open>Main.overview.animationInProgress\<close>\<close>
  le_currentState :: real
  le_stateValue :: real
  le_startsTransition :: "nat \<Rightarrow> bool" \<comment> \<open>whether easing the allocation of a preview gives a transition\<close>

record winfo =
  wi_metaWindow :: nat
  wi_currentTransition :: bool

record layout_state =
  wl_windows :: "(nat, winfo) jsmap"
  wl_sortedWindows :: "nat list"
  wl_slots :: "slot list option"
  wl_slotsBox :: "box option"
  wl_layout :: "(win_layout \<times> jsnum) option"
  wl_strategy :: "strategy option"
  wl_needsLayout :: bool
  wl_lastBox :: "box option"
  wl_frozen :: bool
  wl_spacing :: real
  wl_relayout :: bool                 \<comment> \<open>\<open>layout_changed\<close> was called after the last allocation\<close>

definition newWorkspaceLayout :: layout_state where
  "newWorkspaceLayout = \<lparr>wl_windows = [], wl_sortedWindows = [], wl_slots = Some [], wl_slotsBox = None, wl_layout = None,
    wl_strategy = None, wl_needsLayout = True, wl_lastBox = None, wl_frozen = False, wl_spacing = 20, wl_relayout = False\<rparr>"

subsection \<open>Adding and removing previews\<close>

text \<open>The stable sequence of the window of a preview in the map.\<close>

definition seqOf :: "layout_env \<Rightarrow> (nat, winfo) jsmap \<Rightarrow> nat \<Rightarrow> nat" where
  "seqOf env m p = (case jm_get m p of Some i \<Rightarrow> le_seq env (wi_metaWindow i) | None \<Rightarrow> 0)"

definition addWindow :: "layout_env \<Rightarrow> nat \<Rightarrow> nat \<Rightarrow> layout_state \<Rightarrow> layout_state" where
  "addWindow env p metaWindow s =
    (if jm_has (wl_windows s) p then s
     else (let m = jm_set (wl_windows s) p \<lparr>wi_metaWindow = metaWindow, wi_currentTransition = False\<rparr>
       in s\<lparr>wl_windows := m, wl_sortedWindows := sort_key (seqOf env m) (wl_sortedWindows s @ [p]),
            wl_needsLayout := True, wl_relayout := True\<rparr>))"

definition removeSlot :: "nat \<Rightarrow> slot list \<Rightarrow> slot list" where
  "removeSlot p slots = (let index = js_findIndex (\<lambda>a. pv_id (slot_window a) = p) slots
    in if index \<noteq> -1 then js_splice1 index slots else slots)"

definition removeWindow :: "nat \<Rightarrow> layout_state \<Rightarrow> layout_state" where
  "removeWindow p s =
    (case jm_get (wl_windows s) p of
       None \<Rightarrow> s
     | Some info \<Rightarrow> s\<lparr>wl_windows := jm_del (wl_windows s) p,
         wl_sortedWindows := js_splice1 (js_indexOf p (wl_sortedWindows s)) (wl_sortedWindows s),
         wl_slots := map_option (removeSlot p) (wl_slots s),
         wl_needsLayout := True, wl_relayout := True\<rparr>)"

text \<open>\<open>syncStacking\<close>: the order in which the previews are stacked, from below.\<close>

definition syncStacking :: "layout_env \<Rightarrow> (nat \<Rightarrow> int) \<Rightarrow> layout_state \<Rightarrow> layout_state \<times> nat list" where
  "syncStacking env stackIndices s =
    (s\<lparr>wl_needsLayout := True, wl_relayout := True\<rparr>,
     sort_key (\<lambda>p. stackIndices (seqOf env (wl_windows s) p)) (jm_keys (wl_windows s)))"

definition wl_setSpacing :: "real \<Rightarrow> layout_state \<Rightarrow> layout_state" where
  "wl_setSpacing sp s = (if wl_spacing s = sp then s
    else s\<lparr>wl_spacing := sp, wl_needsLayout := True, wl_relayout := True\<rparr>)"

definition setLayoutFrozen :: "bool \<Rightarrow> layout_state \<Rightarrow> layout_state" where
  "setLayoutFrozen f s = (if wl_frozen s = f then s
    else (let s1 = s\<lparr>wl_frozen := f\<rparr> in if \<not> f then s1\<lparr>wl_relayout := True\<rparr> else s1))"

text \<open>The handlers of \<open>size-changed\<close> of a window, and of the state adjustment and the work areas.\<close>

definition sizeChanged :: "layout_state \<Rightarrow> layout_state" where
  "sizeChanged s = s\<lparr>wl_needsLayout := True, wl_relayout := True\<rparr>"

definition layoutChanged :: "layout_state \<Rightarrow> layout_state" where
  "layoutChanged s = s\<lparr>wl_relayout := True\<rparr>"

definition transitionStopped :: "nat \<Rightarrow> layout_state \<Rightarrow> layout_state" where
  "transitionStopped p s = s\<lparr>wl_windows := map (\<lambda>(q, i). (q, if q = p then i\<lparr>wi_currentTransition := False\<rparr> else i)) (wl_windows s)\<rparr>"

text \<open>\<open>None\<close>: the previews in slots that are not numbers are not kept here.\<close>

definition getFocusChain :: "layout_env \<Rightarrow> layout_state \<Rightarrow> preview list option" where
  "getFocusChain env s = (if le_stateValue env = 0 then Some [] else map_option (map slot_window) (wl_slots s))"

subsection \<open>Spacing and padding\<close>

definition oversize :: "layout_env \<Rightarrow> nat \<Rightarrow> real" where
  "oversize env p = (case le_chrome env p of (t, b, l, r) \<Rightarrow> max (max (max t b) l) r)"

text \<open>\<open>_adjustSpacingAndPadding\<close> is called for the spacing or for the box; these are the two uses of it.\<close>

definition adjustSpacing :: "layout_env \<Rightarrow> layout_state \<Rightarrow> real \<Rightarrow> real" where
  "adjustSpacing env s spacing = (case wl_sortedWindows s of [] \<Rightarrow> spacing | p # _ \<Rightarrow> spacing + oversize env p)"

definition adjustBox :: "layout_env \<Rightarrow> layout_state \<Rightarrow> box \<Rightarrow> box" where
  "adjustBox env s b =
    (case wl_sortedWindows s of
       [] \<Rightarrow> b
     | p # _ \<Rightarrow>
         (let bottomFreeSpace = (le_monitorY env + le_monitorHeight env) - le_transformBottom env (box_y b + box_height b);
              bottom = le_bottomOverlap env p + oversize env p
          in if bottom > bottomFreeSpace then b\<lparr>box_height := box_height b - (bottom - bottomFreeSpace)\<rparr> else b))"

text \<open>\<open>parseInt\<close> of a length.\<close>

definition trunc :: "real \<Rightarrow> real" where
  "trunc x = (if 0 \<le> x then of_int \<lfloor>x\<rfloor> else of_int \<lceil>x\<rceil>)"

definition workspaceStrategy :: "layout_env \<Rightarrow> layout_state \<Rightarrow> strategy" where
  "workspaceStrategy env s = \<lparr>monitorHeight = le_monitorHeight env, rowSpacing = adjustSpacing env s (wl_spacing s),
    columnSpacing = adjustSpacing env s (wl_spacing s)\<rparr>"

definition availableArea :: "layout_env \<Rightarrow> layout_state \<Rightarrow> box \<Rightarrow> box" where
  "availableArea env s containerBox =
    (let b = adjustBox env s containerBox
     in \<lparr>box_x = trunc (box_x b), box_y = trunc (box_y b), box_width = trunc (box_width b), box_height = trunc (box_height b)\<rparr>)"

definition getWindowSlots :: "layout_env \<Rightarrow> layout_state \<Rightarrow> strategy \<Rightarrow> win_layout \<Rightarrow> jsnum \<Rightarrow> box \<Rightarrow> slot list option" where
  "getWindowSlots env s st l scale containerBox =
    (case scale of Fin sc \<Rightarrow> computeWindowSlots st l sc (availableArea env s containerBox) | _ \<Rightarrow> None)"

subsection \<open>Allocation\<close>

text \<open>\<open>this._layout = this._createBestLayout(this._workarea)\<close>.\<close>

definition renewLayout :: "layout_env \<Rightarrow> layout_state \<Rightarrow> layout_state" where
  "renewLayout env s =
    (let st = workspaceStrategy env s
     in s\<lparr>wl_strategy := Some st, wl_needsLayout := False,
          wl_layout := map_option (\<lambda>(l, scale, space). (l, scale))
            (createBestLayout st (le_workarea env) (map (le_look env) (wl_sortedWindows s)))\<rparr>)"

text \<open>The box is adjusted in place, so the copy that is kept is the adjusted one.\<close>

definition renewSlots :: "layout_env \<Rightarrow> box \<Rightarrow> layout_state \<Rightarrow> layout_state" where
  "renewSlots env b s = s\<lparr>wl_slotsBox := Some (adjustBox env s b),
    wl_slots := (case (wl_strategy s, wl_layout s) of
        (Some st, Some (l, scale)) \<Rightarrow> getWindowSlots env s st l scale b
      | _ \<Rightarrow> None)\<rparr>"

datatype how = Allocated | Eased | FinalOfTransition

text \<open>One round of the loop over the slots: the box between the floating window and its slot.\<close>

definition floatingBox :: "layout_env \<Rightarrow> real \<Rightarrow> nat \<Rightarrow> nat \<Rightarrow> box" where
  "floatingBox env allocationScale p metaWindow =
    (let wa = le_workarea env; bb = boundingBox (le_look env p)
     in if le_showing env metaWindow
        then \<lparr>box_x = (box_x bb - box_x wa) * allocationScale, box_y = (box_y bb - box_y wa) * allocationScale,
              box_width = box_width bb * allocationScale, box_height = box_height bb * allocationScale\<rparr>
        else \<lparr>box_x = box_x wa * allocationScale, box_y = box_y wa * allocationScale, box_width = 0, box_height = 0\<rparr>)"

definition childBox :: "layout_env \<Rightarrow> real \<Rightarrow> real \<Rightarrow> bool \<Rightarrow> nat \<Rightarrow> slot \<Rightarrow> box" where
  "childBox env allocationScale slotsScale inSessionTransition metaWindow a =
    (let x = slot_x a * slotsScale; y = slot_y a * slotsScale; width = slot_width a * slotsScale; height = slot_height a * slotsScale;
         f = floatingBox env allocationScale (pv_id (slot_window a)) metaWindow;
         fw = (if inSessionTransition then max (box_width f) width else box_width f);
         fh = (if inSessionTransition then max (box_height f) height else box_height f);
         v = le_stateValue env
     in \<lparr>box_x = lerp (box_x f) x v, box_y = lerp (box_y f) y v, box_width = lerp fw width v, box_height = lerp fh height v\<rparr>)"

fun allocateSlots ::
  "layout_env \<Rightarrow> real \<Rightarrow> real \<Rightarrow> bool \<Rightarrow> bool \<Rightarrow> slot list \<Rightarrow> (nat, winfo) jsmap \<Rightarrow> ((nat, winfo) jsmap \<times> (nat \<times> box \<times> how) list) option" where
  "allocateSlots env aScale sScale inTrans changed [] m = Some (m, [])"
| "allocateSlots env aScale sScale inTrans changed (a # as) m =
    (let p = pv_id (slot_window a)
     in if \<not> le_visible env p then allocateSlots env aScale sScale inTrans changed as m
        else (case jm_get m p of
            None \<Rightarrow> None
          | Some info \<Rightarrow>
              (let b = childBox env aScale sScale inTrans (wi_metaWindow info) a;
                   h = (if wi_currentTransition info then FinalOfTransition
                        else if changed \<and> \<not> le_animating env then Eased else Allocated);
                   m1 = (if h = Eased \<and> le_startsTransition env p then jm_set m p (info\<lparr>wi_currentTransition := True\<rparr>) else m)
               in map_option (\<lambda>(m2, bs). (m2, (p, b, h) # bs)) (allocateSlots env aScale sScale inTrans changed as m1))))"

text \<open>The part of \<open>vfunc_allocate\<close> for a desktop; \<open>WINDOW_PICKER\<close> is 1.\<close>

definition renewForAllocation :: "layout_env \<Rightarrow> box \<Rightarrow> box \<Rightarrow> layout_state \<Rightarrow> layout_state \<times> bool" where
  "renewForAllocation env containerBox b s =
    (let containerAllocationChanged = (wl_lastBox s \<noteq> Some containerBox);
         s1 = (if wl_frozen s \<and> containerAllocationChanged \<and> \<not> le_animating env then s\<lparr>wl_frozen := False\<rparr> else s)
     in if \<not> wl_frozen s1 \<or> wl_lastBox s1 = None
        then (let changed = wl_needsLayout s1;
                  s2 = (if changed then renewLayout env s1 else s1)
              in (if changed \<or> containerAllocationChanged then renewSlots env b s2 else s2, changed))
        else (s1, False))"

definition allocateDesktop ::
  "layout_env \<Rightarrow> box \<Rightarrow> box \<Rightarrow> layout_state \<Rightarrow> (layout_state \<times> (nat \<times> box \<times> how) list) option" where
  "allocateDesktop env containerBox b s =
    (let inSessionTransition = (le_currentState env \<le> 1);
         allocationScale = box_width containerBox / box_width (le_workarea env);
         (s1, changed) = renewForAllocation env containerBox b s
     in case (wl_slotsBox s1, wl_slots s1) of
          (None, _) \<Rightarrow> None
        | (Some sb, None) \<Rightarrow> Some (s1\<lparr>wl_lastBox := Some containerBox, wl_relayout := False\<rparr>, [])
        | (Some sb, Some slots) \<Rightarrow>
            map_option (\<lambda>(m, bs). (s1\<lparr>wl_windows := m, wl_lastBox := Some containerBox, wl_relayout := False\<rparr>, bs))
              (allocateSlots env allocationScale (box_width b / box_width sb) inSessionTransition changed slots (wl_windows s1)))"

text \<open>The part for a phone: every preview where its window is, over the whole width of the card.\<close>

fun allocateChildren :: "layout_env \<Rightarrow> real \<Rightarrow> real \<Rightarrow> (nat, winfo) jsmap \<Rightarrow> nat list \<Rightarrow> (nat \<times> box \<times> how) list option" where
  "allocateChildren env aScale containerWidth m [] = Some []"
| "allocateChildren env aScale containerWidth m (p # ps) =
    (if \<not> le_visible env p then allocateChildren env aScale containerWidth m ps
     else (case jm_get m p of
         None \<Rightarrow> None
       | Some info \<Rightarrow>
           (let f = floatingBox env aScale p (wi_metaWindow info)
            in map_option (\<lambda>bs. (p, \<lparr>box_x = 0, box_y = box_y f, box_width = containerWidth, box_height = box_height f\<rparr>, Allocated) # bs)
                 (allocateChildren env aScale containerWidth m ps))))"

definition allocatePhone :: "layout_env \<Rightarrow> box \<Rightarrow> nat list \<Rightarrow> layout_state \<Rightarrow> (layout_state \<times> (nat \<times> box \<times> how) list) option" where
  "allocatePhone env containerBox children s =
    map_option (\<lambda>bs. (s\<lparr>wl_lastBox := Some containerBox, wl_relayout := False\<rparr>, bs))
      (allocateChildren env (box_width containerBox / box_width (le_workarea env)) (box_width containerBox) (wl_windows s) children)"

definition vfunc_allocate :: "layout_env \<Rightarrow> bool \<Rightarrow> box \<Rightarrow> box \<Rightarrow> nat list \<Rightarrow> layout_state \<Rightarrow> (layout_state \<times> (nat \<times> box \<times> how) list) option" where
  "vfunc_allocate env isPhone containerBox b children s =
    (if isPhone then allocatePhone env containerBox children s else allocateDesktop env containerBox b s)"

subsection \<open>Events\<close>

datatype layout_event =
    AddWindow nat nat
  | RemoveWindow nat
  | SyncStacking "nat \<Rightarrow> int"
  | SetSpacing real
  | SetFrozen bool
  | SizeChanged
  | LayoutChanged
  | TransitionStopped nat
  | Allocate bool box box "nat list"

fun layoutStep :: "layout_env \<Rightarrow> layout_event \<Rightarrow> layout_state \<Rightarrow> layout_state" where
  "layoutStep env (AddWindow p w) s = addWindow env p w s"
| "layoutStep env (RemoveWindow p) s = removeWindow p s"
| "layoutStep env (SyncStacking ix) s = fst (syncStacking env ix s)"
| "layoutStep env (SetSpacing sp) s = wl_setSpacing sp s"
| "layoutStep env (SetFrozen f) s = setLayoutFrozen f s"
| "layoutStep env SizeChanged s = sizeChanged s"
| "layoutStep env LayoutChanged s = layoutChanged s"
| "layoutStep env (TransitionStopped p) s = transitionStopped p s"
| "layoutStep env (Allocate isPhone cb b children) s =
    (case vfunc_allocate env isPhone cb b children s of Some (s', bs) \<Rightarrow> s' | None \<Rightarrow> s)"

text \<open>Everything of the environment may change between two events, but not when a window was created.\<close>

inductive layout_reachable :: "(nat \<Rightarrow> nat) \<Rightarrow> layout_state \<Rightarrow> bool" for seq where
  start: "layout_reachable seq newWorkspaceLayout"
| step: "layout_reachable seq s \<Longrightarrow> le_seq env = seq \<Longrightarrow> (\<And>p. pv_id (le_look env p) = p) \<Longrightarrow> layout_reachable seq (layoutStep env e s)"

end
