(* ===== verification/WorkspaceLayoutProps.thy ===== *)
theory WorkspaceLayoutProps
  imports WorkspaceLayout
begin

section \<open>Every window keeps its place\<close>

subsection \<open>The previews and their order\<close>

definition windowSeq :: "(nat \<Rightarrow> nat) \<Rightarrow> (nat, winfo) jsmap \<Rightarrow> nat \<Rightarrow> nat" where
  "windowSeq seq m p = (case jm_get m p of Some i \<Rightarrow> seq (wi_metaWindow i) | None \<Rightarrow> 0)"

lemma seqOf_windowSeq: "seqOf env m = windowSeq (le_seq env) m"
  by (simp add: seqOf_def windowSeq_def fun_eq_iff)

definition slotIds :: "layout_state \<Rightarrow> nat list" where
  "slotIds s = (case wl_slots s of Some S \<Rightarrow> map (\<lambda>a. pv_id (slot_window a)) S | None \<Rightarrow> [])"

lemma slotIds_cong: "wl_slots s' = wl_slots s \<Longrightarrow> slotIds s' = slotIds s"
  by (simp add: slotIds_def)

text \<open>A layout that is not to be renewed is one of the present previews.\<close>

definition layout_current :: "layout_state \<Rightarrow> bool" where
  "layout_current s \<longleftrightarrow> wl_needsLayout s \<or> (\<exists>st l scale. wl_strategy s = Some st \<and> wl_layout s = Some (l, scale) \<and>
    mset (map pv_id (concat (map row_windows (rows l)))) = mset (wl_sortedWindows s))"

definition layout_inv :: "(nat \<Rightarrow> nat) \<Rightarrow> layout_state \<Rightarrow> bool" where
  "layout_inv seq s \<longleftrightarrow> distinct (jm_keys (wl_windows s)) \<and> distinct (wl_sortedWindows s) \<and>
    set (wl_sortedWindows s) = set (jm_keys (wl_windows s)) \<and>
    sorted (map (windowSeq seq (wl_windows s)) (wl_sortedWindows s)) \<and>
    distinct (slotIds s) \<and> set (slotIds s) \<subseteq> set (jm_keys (wl_windows s)) \<and>
    layout_current s"

lemma sorted_map_cong: "(\<And>x. x \<in> set xs \<Longrightarrow> f x = g x) \<Longrightarrow> sorted (map f xs) = sorted (map g xs)"
  by (metis map_cong)

lemma addWindow_inv: "layout_inv (le_seq env) s \<Longrightarrow> layout_inv (le_seq env) (addWindow env p w s)"
proof (cases "jm_has (wl_windows s) p")
  case False
  assume inv: "layout_inv (le_seq env) s"
  define m where "m = jm_set (wl_windows s) p \<lparr>wi_metaWindow = w, wi_currentTransition = False\<rparr>"
  have p: "p \<notin> set (jm_keys (wl_windows s))" using False by (simp add: jm_get_iff_key)
  have keys: "jm_keys m = jm_keys (wl_windows s) @ [p]" using p by (simp add: m_def jm_keys_set)
  have add: "addWindow env p w s = s\<lparr>wl_windows := m,
      wl_sortedWindows := sort_key (seqOf env m) (wl_sortedWindows s @ [p]), wl_needsLayout := True, wl_relayout := True\<rparr>"
    using False by (simp add: addWindow_def m_def Let_def)
  have "sorted (map (windowSeq (le_seq env) m) (sort_key (seqOf env m) (wl_sortedWindows s @ [p])))"
    unfolding seqOf_windowSeq by simp
  moreover have "slotIds (addWindow env p w s) = slotIds s" unfolding add by (rule slotIds_cong) simp
  ultimately show ?thesis using inv p unfolding add by (auto simp: layout_inv_def keys layout_current_def)
qed (simp add: addWindow_def)

lemma js_findIndex_map: "js_findIndex (\<lambda>a. f a = x) xs = js_indexOf x (map f xs)"
  by (induction xs) auto

lemma map_js_splice1: "map f (js_splice1 i xs) = js_splice1 i (map f xs)"
  by (simp add: js_splice1_def Let_def take_map drop_map)

lemma distinct_remove1_filter: "distinct xs \<Longrightarrow> remove1 p xs = filter (\<lambda>q. q \<noteq> p) xs"
  by (induction xs) (auto intro!: filter_True [symmetric])

lemma removeSlot_ids:
  assumes "distinct (map (\<lambda>a. pv_id (slot_window a)) S)"
  shows "map (\<lambda>a. pv_id (slot_window a)) (removeSlot p S) = filter (\<lambda>q. q \<noteq> p) (map (\<lambda>a. pv_id (slot_window a)) S)"
proof (cases "p \<in> set (map (\<lambda>a. pv_id (slot_window a)) S)")
  case True
  then have "js_indexOf p (map (\<lambda>a. pv_id (slot_window a)) S) \<ge> 0" using js_indexOf_nonneg by metis
  then have "map (\<lambda>a. pv_id (slot_window a)) (removeSlot p S) = remove1 p (map (\<lambda>a. pv_id (slot_window a)) S)"
    unfolding removeSlot_def Let_def js_findIndex_map using js_splice1_indexOf [OF True] by (simp add: map_js_splice1)
  with distinct_remove1_filter [OF assms] show ?thesis by simp
next
  case False
  then have "js_findIndex (\<lambda>a. pv_id (slot_window a) = p) S = -1" unfolding js_findIndex_none by auto
  moreover have "filter (\<lambda>q. q \<noteq> p) (map (\<lambda>a. pv_id (slot_window a)) S) = map (\<lambda>a. pv_id (slot_window a)) S"
    using False by (intro filter_True) auto
  ultimately show ?thesis by (simp add: removeSlot_def)
qed

lemma removeWindow_inv: "layout_inv seq s \<Longrightarrow> layout_inv seq (removeWindow p s)"
proof (cases "jm_get (wl_windows s) p")
  case (Some info)
  assume inv: "layout_inv seq s"
  then have p: "p \<in> set (wl_sortedWindows s)" using Some jm_get_SomeD [OF Some] by (simp add: layout_inv_def)
  have rem: "js_splice1 (js_indexOf p (wl_sortedWindows s)) (wl_sortedWindows s) = remove1 p (wl_sortedWindows s)"
    using p by (rule js_splice1_indexOf)
  have "remove1 p (wl_sortedWindows s) = filter (\<lambda>q. q \<noteq> p) (wl_sortedWindows s)"
    using inv by (simp add: layout_inv_def distinct_remove1_filter)
  moreover have "sorted (map (windowSeq seq (jm_del (wl_windows s) p)) (filter (\<lambda>q. q \<noteq> p) (wl_sortedWindows s)))"
  proof -
    have "sorted (map (windowSeq seq (wl_windows s)) (filter (\<lambda>q. q \<noteq> p) (wl_sortedWindows s)))"
      using inv by (intro sorted_filter) (simp add: layout_inv_def)
    then show ?thesis
      by (subst sorted_map_cong [of _ _ "windowSeq seq (wl_windows s)"]) (auto simp: windowSeq_def)
  qed
  moreover have "slotIds (removeWindow p s) = filter (\<lambda>q. q \<noteq> p) (slotIds s)"
    using inv Some removeSlot_ids by (auto simp: removeWindow_def slotIds_def layout_inv_def split: option.splits)
  moreover have "wl_windows (removeWindow p s) = jm_del (wl_windows s) p"
    "wl_sortedWindows (removeWindow p s) = remove1 p (wl_sortedWindows s)" "wl_needsLayout (removeWindow p s)"
    using Some by (simp_all add: removeWindow_def rem)
  ultimately show ?thesis using inv
    unfolding layout_inv_def layout_current_def by (simp add: jm_keys_del subset_iff del: set_map list.set_map)
qed (simp add: removeWindow_def)

subsection \<open>Allocation keeps them\<close>

lemma placeWindows_windows: "map slot_window (placeWindows st scale single r rowY x ws) = ws"
  by (induction ws arbitrary: x) (simp_all add: Let_def)

lemma placeRows_windows: "placeRows st area H vs V y c rs = Some (rs', c') \<Longrightarrow> map row_windows rs' = map row_windows rs"
  by (induction rs arbitrary: y c rs' c') (auto simp: Let_def split: jsnum.splits option.splits)

lemma computeWindowSlots_windows:
  assumes "computeWindowSlots st l scale area = Some S"
  shows "map slot_window S = concat (map row_windows (rows l))"
proof -
  obtain rs' c V H vs where p: "placeRows st area H vs V 0 0 (computeRowSizes st scale (rows l)) = Some (rs', c)"
    and S: "S = concat (map (\<lambda>r. placeWindows st scale (length (computeRowSizes st scale (rows l)) = 1) r (row_y r + c / 2) (row_x r) (row_windows r)) rs')"
    using assms by (auto simp: computeWindowSlots_def Let_def split: jsnum.splits option.splits)
  have "map slot_window S = concat (map row_windows rs')"
    by (simp add: S map_concat comp_def placeWindows_windows)
  also have "map row_windows rs' = map row_windows (rows l)"
    using placeRows_windows [OF p] by (simp add: computeRowSizes_def)
  finally show ?thesis .
qed

text \<open>What allocation and the ends of transitions change in the map is not the windows.\<close>

definition metaWindows :: "(nat, winfo) jsmap \<Rightarrow> (nat \<times> nat) list" where
  "metaWindows m = map (\<lambda>(p, i). (p, wi_metaWindow i)) m"

lemma metaWindows_keys: "metaWindows m' = metaWindows m \<Longrightarrow> jm_keys m' = jm_keys m"
proof -
  have "map fst (metaWindows n) = jm_keys n" for n by (auto simp: metaWindows_def)
  then show "metaWindows m' = metaWindows m \<Longrightarrow> jm_keys m' = jm_keys m" by metis
qed

lemma metaWindows_seq: "metaWindows m' = metaWindows m \<Longrightarrow> windowSeq seq m' = windowSeq seq m"
proof -
  have "map_of (metaWindows n) p = map_option wi_metaWindow (map_of n p)" for n p
    by (induction n) (auto simp: metaWindows_def)
  then have "windowSeq seq n = (\<lambda>p. case map_of (metaWindows n) p of Some w \<Rightarrow> seq w | None \<Rightarrow> 0)" for n
    by (auto simp: windowSeq_def fun_eq_iff split: option.splits)
  then show "metaWindows m' = metaWindows m \<Longrightarrow> windowSeq seq m' = windowSeq seq m" by simp
qed

lemma metaWindows_set: "map_of m p = Some i \<Longrightarrow> wi_metaWindow i' = wi_metaWindow i \<Longrightarrow> metaWindows (jm_set m p i') = metaWindows m"
  unfolding metaWindows_def by (induction m) auto

lemma allocateSlots_metaWindows:
  "allocateSlots env aScale sScale inTrans changed S m = Some (m', bs) \<Longrightarrow> metaWindows m' = metaWindows m"
  by (induction S arbitrary: m bs) (auto simp: Let_def metaWindows_set split: if_splits option.splits)

lemma layout_inv_same:
  assumes "layout_inv seq s" and "metaWindows (wl_windows s') = metaWindows (wl_windows s)"
    and "wl_sortedWindows s' = wl_sortedWindows s" and "wl_slots s' = wl_slots s"
    and "wl_needsLayout s' \<or> (wl_needsLayout s' = wl_needsLayout s \<and> wl_strategy s' = wl_strategy s \<and> wl_layout s' = wl_layout s)"
  shows "layout_inv seq s'"
  using assms metaWindows_keys [OF assms(2)] metaWindows_seq [OF assms(2)] slotIds_cong [OF assms(4)]
  by (auto simp: layout_inv_def layout_current_def)

lemma renewLayout_inv:
  assumes "layout_inv seq s" and look: "\<And>p. pv_id (le_look env p) = p"
  shows "layout_inv seq (renewLayout env s)"
proof -
  let ?st = "workspaceStrategy env s"
  obtain l n where l: "createBestLayout ?st (le_workarea env) (map (le_look env) (wl_sortedWindows s)) =
      Some (l, computeScaleAndSpace ?st l (le_workarea env))" "computeLayout ?st (map (le_look env) (wl_sortedWindows s)) n = Some l"
    by (rule createBestLayout_rows)
  have "mset (concat (map row_windows (rows l))) = mset (map (le_look env) (wl_sortedWindows s))"
    by (rule computeLayout_spec(5) [OF l(2)])
  then have "image_mset pv_id (mset (concat (map row_windows (rows l)))) = image_mset pv_id (mset (map (le_look env) (wl_sortedWindows s)))"
    by simp
  then have "mset (map pv_id (concat (map row_windows (rows l)))) = mset (wl_sortedWindows s)"
    by (metis (no_types, lifting) look map_idI mset_map map_map comp_apply)
  moreover have "slotIds (renewLayout env s) = slotIds s" by (rule slotIds_cong) (simp add: renewLayout_def Let_def)
  ultimately show ?thesis using assms(1) l(1)
    by (auto simp: layout_inv_def layout_current_def renewLayout_def Let_def split: prod.splits)
qed

lemma renewSlots_inv:
  assumes inv: "layout_inv seq s" and "\<not> wl_needsLayout s"
  shows "layout_inv seq (renewSlots env b s)"
proof -
  obtain st l scale where l: "wl_strategy s = Some st" "wl_layout s = Some (l, scale)"
      "mset (map pv_id (concat (map row_windows (rows l)))) = mset (wl_sortedWindows s)"
    using assms by (auto simp: layout_inv_def layout_current_def)
  have "distinct (slotIds (renewSlots env b s)) \<and> set (slotIds (renewSlots env b s)) \<subseteq> set (wl_sortedWindows s)"
  proof (cases "getWindowSlots env s st l scale b")
    case None
    then show ?thesis by (simp add: slotIds_def renewSlots_def l)
  next
    case (Some S)
    then obtain sc where "computeWindowSlots st l sc (availableArea env s b) = Some S"
      by (auto simp: getWindowSlots_def split: jsnum.splits)
    then have "map slot_window S = concat (map row_windows (rows l))" by (rule computeWindowSlots_windows)
    then have "map (\<lambda>a. pv_id (slot_window a)) S = map pv_id (concat (map row_windows (rows l)))"
      by (metis (no_types, lifting) map_map comp_apply map_eq_conv)
    with l(3) have "mset (slotIds (renewSlots env b s)) = mset (wl_sortedWindows s)"
      by (simp add: slotIds_def renewSlots_def l Some)
    with inv show ?thesis unfolding layout_inv_def by (metis mset_eq_imp_distinct_iff mset_eq_setD subset_refl)
  qed
  with inv show ?thesis by (auto simp: layout_inv_def layout_current_def renewSlots_def)
qed

lemma renewForAllocation_inv:
  assumes "layout_inv seq s" and "\<And>p. pv_id (le_look env p) = p"
    and "renewForAllocation env cb b s = (s1, changed)"
  shows "layout_inv seq s1"
proof -
  define s0 where "s0 = (if wl_frozen s \<and> wl_lastBox s \<noteq> Some cb \<and> \<not> le_animating env then s\<lparr>wl_frozen := False\<rparr> else s)"
  define s2 where "s2 = (if wl_needsLayout s0 then renewLayout env s0 else s0)"
  have s0: "layout_inv seq s0" by (rule layout_inv_same [OF assms(1)]) (simp_all add: s0_def)
  then have s2: "layout_inv seq s2" using renewLayout_inv assms(2) by (simp add: s2_def)
  have "\<not> wl_needsLayout s2" by (simp add: s2_def renewLayout_def Let_def)
  with s2 have "layout_inv seq (renewSlots env b s2)" by (rule renewSlots_inv)
  with s0 s2 assms(3) show ?thesis
    unfolding renewForAllocation_def Let_def s0_def [symmetric] s2_def [symmetric] by (auto split: if_splits)
qed

lemma allocate_inv:
  assumes "layout_inv seq s" and "\<And>p. pv_id (le_look env p) = p"
    and "vfunc_allocate env isPhone cb b children s = Some (s', bs)"
  shows "layout_inv seq s'"
proof (cases isPhone)
  case True
  with assms(3) have s': "s' = s\<lparr>wl_lastBox := Some cb, wl_relayout := False\<rparr>"
    by (auto simp: vfunc_allocate_def allocatePhone_def)
  show ?thesis by (rule layout_inv_same [OF assms(1)]) (simp_all add: s')
next
  case False
  obtain s1 changed where s1: "renewForAllocation env cb b s = (s1, changed)" by fastforce
  have inv: "layout_inv seq s1" by (rule renewForAllocation_inv [OF assms(1,2) s1])
  obtain m where m: "metaWindows m = metaWindows (wl_windows s1)"
    and s': "s' = s1\<lparr>wl_windows := m, wl_lastBox := Some cb, wl_relayout := False\<rparr>"
    using assms(3) False s1 allocateSlots_metaWindows
    by (fastforce simp: vfunc_allocate_def allocateDesktop_def split: option.splits)
  show ?thesis by (rule layout_inv_same [OF inv]) (simp_all add: s' m)
qed

lemma layoutStep_inv:
  assumes "layout_inv (le_seq env) s" and "\<And>p. pv_id (le_look env p) = p"
  shows "layout_inv (le_seq env) (layoutStep env e s)"
proof -
  note same = layout_inv_same [OF assms(1)]
  show ?thesis
  proof (cases e)
    case (TransitionStopped p)
    show ?thesis unfolding TransitionStopped
      by (rule same) (simp_all add: metaWindows_def transitionStopped_def comp_def split_def)
  next
    case (Allocate isPhone cb b children)
    then show ?thesis using allocate_inv [OF assms] assms(1) by (auto split: option.splits)
  qed (use assms(1) addWindow_inv removeWindow_inv in
      \<open>auto simp: syncStacking_def wl_setSpacing_def setLayoutFrozen_def sizeChanged_def layoutChanged_def Let_def intro: same\<close>)
qed

lemma layout_reachable_inv:
  assumes "layout_reachable seq s"
  shows "layout_inv seq s"
  using assms
proof induction
  case start
  then show ?case by (simp add: layout_inv_def newWorkspaceLayout_def slotIds_def layout_current_def)
next
  case (step s env e)
  then show ?case using layoutStep_inv [of env s e] by simp
qed

text \<open>The previews of a workspace are tracked: after any events the list of previews is the set of keys of the map, each once and
  in the order in which their windows were created, the slots are of different present previews, and a layout that is not to be
  renewed is one of the present previews. So an allocation never meets a slot without a window.\<close>

theorem previews_tracked:
  assumes "layout_reachable seq s"
  shows "distinct (wl_sortedWindows s) \<and> set (wl_sortedWindows s) = set (jm_keys (wl_windows s)) \<and>
    sorted (map (windowSeq seq (wl_windows s)) (wl_sortedWindows s)) \<and>
    distinct (slotIds s) \<and> set (slotIds s) \<subseteq> set (wl_sortedWindows s) \<and>
    (wl_needsLayout s \<or> (\<exists>st l scale. wl_strategy s = Some st \<and> wl_layout s = Some (l, scale) \<and>
      mset (map pv_id (concat (map row_windows (rows l)))) = mset (wl_sortedWindows s)))"
  using layout_reachable_inv [OF assms] by (simp add: layout_inv_def layout_current_def)

subsection \<open>When an allocation throws\<close>

lemma metaWindows_get: "metaWindows m' = metaWindows m \<Longrightarrow> map_of m' p = None \<longleftrightarrow> map_of m p = None"
  using metaWindows_keys [of m' m] by (simp only: jm_get_iff_key)

lemma allocateSlots_total:
  assumes "\<forall>a\<in>set S. map_of m (pv_id (slot_window a)) \<noteq> None"
  shows "\<exists>m' bs. allocateSlots env aScale sScale inTrans changed S m = Some (m', bs)"
  using assms
proof (induction S arbitrary: m)
  case Nil
  then show ?case by simp
next
  case (Cons a S)
  have get: "\<forall>b\<in>set S. map_of (jm_set m p i) (pv_id (slot_window b)) \<noteq> None" for p i
    using Cons.prems by auto
  have rest: "\<forall>b\<in>set S. map_of m (pv_id (slot_window b)) \<noteq> None" using Cons.prems by simp
  obtain info where info: "map_of m (pv_id (slot_window a)) = Some info" using Cons.prems by auto
  show ?case
    using Cons.IH [OF rest] Cons.IH [OF get [of "pv_id (slot_window a)" "info\<lparr>wi_currentTransition := True\<rparr>"]] info
    by (auto simp: Let_def)
qed

lemma renewForAllocation_has_box:
  assumes "wl_needsLayout s \<or> wl_slotsBox s \<noteq> None" and "renewForAllocation env cb b s = (s1, changed)"
  shows "wl_needsLayout s1 \<or> wl_slotsBox s1 \<noteq> None"
  using assms by (auto simp: renewForAllocation_def renewLayout_def renewSlots_def Let_def split: if_splits)

lemma allocateDesktop_fields:
  assumes "allocateDesktop env cb b s = Some (s', bs)" and "renewForAllocation env cb b s = (s1, changed)"
  shows "wl_needsLayout s' = wl_needsLayout s1 \<and> wl_slotsBox s' = wl_slotsBox s1"
  using assms by (auto simp: allocateDesktop_def Let_def split: option.splits)

lemma has_box_step:
  assumes "wl_needsLayout s \<or> wl_slotsBox s \<noteq> None"
  shows "wl_needsLayout (layoutStep env e s) \<or> wl_slotsBox (layoutStep env e s) \<noteq> None"
proof (cases e)
  case (AddWindow p w)
  then show ?thesis using assms by (auto simp: addWindow_def Let_def)
next
  case (RemoveWindow p)
  then show ?thesis using assms by (auto simp: removeWindow_def split: option.splits)
next
  case (Allocate isPhone cb b children)
  obtain s1 changed where s1: "renewForAllocation env cb b s = (s1, changed)" by fastforce
  show ?thesis
  proof (cases "vfunc_allocate env isPhone cb b children s")
    case None
    then show ?thesis using assms Allocate by simp
  next
    case (Some r)
    obtain s' bs where r: "r = (s', bs)" by fastforce
    show ?thesis using Some assms r Allocate allocateDesktop_fields [OF _ s1] renewForAllocation_has_box [OF assms s1]
      by (cases isPhone) (auto simp: vfunc_allocate_def allocatePhone_def)
  qed
qed (use assms in \<open>auto simp: syncStacking_def wl_setSpacing_def setLayoutFrozen_def sizeChanged_def layoutChanged_def transitionStopped_def Let_def\<close>)

lemma has_box: "layout_reachable seq s \<Longrightarrow> wl_needsLayout s \<or> wl_slotsBox s \<noteq> None"
  by (induction rule: layout_reachable.induct) (simp_all only: has_box_step, simp add: newWorkspaceLayout_def)

lemma allocateDesktop_None_iff:
  assumes "layout_reachable (le_seq env) s" and "\<And>p. pv_id (le_look env p) = p"
  shows "vfunc_allocate env False cb b children s = None \<longleftrightarrow>
    wl_slotsBox s = None \<and> wl_frozen s \<and> (wl_lastBox s = Some cb \<or> (wl_lastBox s \<noteq> None \<and> le_animating env))"
proof -
  obtain s1 changed where s1: "renewForAllocation env cb b s = (s1, changed)" by fastforce
  have "layout_inv (le_seq env) s1"
    by (rule renewForAllocation_inv [OF layout_reachable_inv [OF assms(1)] assms(2) s1])
  then have total: "\<forall>a\<in>set S. map_of (wl_windows s1) (pv_id (slot_window a)) \<noteq> None" if "wl_slots s1 = Some S" for S
    using that by (auto simp: layout_inv_def slotIds_def jm_get_iff_key)
  have "vfunc_allocate env False cb b children s = None \<longleftrightarrow> wl_slotsBox s1 = None"
  proof (cases "wl_slotsBox s1")
    case None
    then show ?thesis by (simp add: vfunc_allocate_def allocateDesktop_def s1)
  next
    case (Some sb)
    show ?thesis
    proof (cases "wl_slots s1")
      case None
      with Some show ?thesis by (simp add: vfunc_allocate_def allocateDesktop_def s1)
    next
      case slots: (Some S)
      from allocateSlots_total [OF total [OF slots], of env "box_width cb / box_width (le_workarea env)" "box_width b / box_width sb" "le_currentState env \<le> 1" changed]
      show ?thesis using Some slots by (auto simp: vfunc_allocate_def allocateDesktop_def s1)
    qed
  qed
  also have "\<dots> \<longleftrightarrow> wl_slotsBox s = None \<and> wl_frozen s \<and> (wl_lastBox s = Some cb \<or> (wl_lastBox s \<noteq> None \<and> le_animating env))"
    using has_box [OF assms(1)] s1
    by (auto simp: renewForAllocation_def renewLayout_def renewSlots_def Let_def split: if_splits)
  finally show ?thesis .
qed

subsection \<open>The overview\<close>





text \<open>C32: An allocation on a desktop throws exactly when the layout is frozen, has been allocated before but never got slots
  (as on a phone), and the container has the box it had last or an animation is running. A frozen layout that was never
  allocated does not throw, nor does one whose container has another box at rest: both are renewed.\<close>

theorem allocation_throws_iff:
  assumes "layout_reachable (le_seq env) s" and "\<And>p. pv_id (le_look env p) = p"
  shows "vfunc_allocate env False cb b children s = None \<longleftrightarrow>
    wl_slotsBox s = None \<and> wl_frozen s \<and> (wl_lastBox s = Some cb \<or> (wl_lastBox s \<noteq> None \<and> le_animating env))"
  by (rule allocateDesktop_None_iff [OF assms])


subsection \<open>Examples\<close>

definition exampleLayoutEnv :: layout_env where
  "exampleLayoutEnv = \<lparr>le_look = (\<lambda>p. examplePreview p 400 300), le_seq = (\<lambda>w. w), le_showing = (\<lambda>w. True), le_visible = (\<lambda>p. True),
    le_monitorY = 0, le_monitorHeight = 1000, le_chrome = (\<lambda>p. (10, 20, 0, 10)), le_bottomOverlap = (\<lambda>p. 30),
    le_transformBottom = (\<lambda>y. y), le_workarea = exampleArea, le_animating = False, le_currentState = 1, le_stateValue = 1,
    le_startsTransition = (\<lambda>p. False)\<rparr>"

definition exampleLayout :: layout_state where
  "exampleLayout = layoutStep exampleLayoutEnv (AddWindow 1 1) (layoutStep exampleLayoutEnv (AddWindow 2 2) newWorkspaceLayout)"

lemma exampleLayoutEnv_look: "pv_id (le_look exampleLayoutEnv p) = p"
  by (simp add: exampleLayoutEnv_def examplePreview_def)

lemma exampleLayout_reachable: "layout_reachable (le_seq exampleLayoutEnv) exampleLayout"
  unfolding exampleLayout_def by (intro layout_reachable.intros refl exampleLayoutEnv_look)

lemma exampleLayout_state:
  "wl_sortedWindows exampleLayout = [1, 2]" "\<not> wl_frozen exampleLayout" "wl_needsLayout exampleLayout" "wl_spacing exampleLayout = 20"
  by (simp_all add: exampleLayout_def newWorkspaceLayout_def addWindow_def seqOf_def exampleLayoutEnv_def)




theorem previews_tracked_witness:
  "wl_sortedWindows exampleLayout = [1, 2] \<and> set (wl_sortedWindows exampleLayout) = set (jm_keys (wl_windows exampleLayout)) \<and>
    sorted (map (windowSeq (le_seq exampleLayoutEnv) (wl_windows exampleLayout)) (wl_sortedWindows exampleLayout))"
  using previews_tracked [OF exampleLayout_reachable] by (simp add: exampleLayout_state)

text \<open>A frozen layout that was allocated on a phone throws on a desktop.\<close>

definition phoneLayout :: layout_state where
  "phoneLayout = layoutStep exampleLayoutEnv (SetFrozen True) (layoutStep exampleLayoutEnv (Allocate True exampleArea exampleArea []) newWorkspaceLayout)"

lemma phoneLayout_reachable: "layout_reachable (le_seq exampleLayoutEnv) phoneLayout"
  unfolding phoneLayout_def by (intro layout_reachable.intros refl exampleLayoutEnv_look)

theorem allocation_throws_iff_witness: "vfunc_allocate exampleLayoutEnv False exampleArea exampleArea [] phoneLayout = None"
  unfolding allocation_throws_iff [OF phoneLayout_reachable exampleLayoutEnv_look]
  by (simp add: phoneLayout_def newWorkspaceLayout_def vfunc_allocate_def allocatePhone_def setLayoutFrozen_def Let_def)

end
