(* ===== verification/AppFavorites.thy ===== *)
theory AppFavorites
  imports Prelude
begin

section \<open>Favorite apps (\<open>js/ui/appFavorites.js\<close>)\<close>

text \<open>
  The pinned apps of the dash: a list of identifiers in the settings, and the apps of it that are installed and not hidden by
  parental controls, in an object that keeps the order of insertion. An app is a number; what is installed and shown is the
  environment. Writing the setting emits \<open>changed\<close> at once, and the handler loads the apps again, but not on a phone,
  where there is no dash. A notification offers to undo the last change.
\<close>

record favorites_env =
  fe_lookup :: "string \<Rightarrow> nat option"    \<comment> \<open>\<open>lookup_app\<close>\<close>
  fe_getId :: "nat \<Rightarrow> string"
  fe_shouldShow :: "nat \<Rightarrow> bool"

datatype undo = UndoAdd string | UndoRemove string int

record app_favorites =
  fv_favorites :: "(string, nat) jsmap"
  fv_setting :: "string list"
  fv_isPhone :: bool
  fv_changes :: nat
  fv_notifications :: "undo list"

definition visibleApps :: "favorites_env \<Rightarrow> string list \<Rightarrow> nat list" where
  "visibleApps env ids = filter (fe_shouldShow env) (map the (filter (\<lambda>a. a \<noteq> None) (map (fe_lookup env) ids)))"

definition reload :: "favorites_env \<Rightarrow> app_favorites \<Rightarrow> app_favorites" where
  "reload env s =
    (if fv_isPhone s then s
     else s\<lparr>fv_favorites := fold (\<lambda>a m. jm_set m (fe_getId env a) a) (visibleApps env (fv_setting s)) []\<rparr>)"

text \<open>The handler of changes of the setting, of the parental controls and of the kind of device: reload and emit.\<close>

definition onFavsChanged :: "favorites_env \<Rightarrow> app_favorites \<Rightarrow> app_favorites" where
  "onFavsChanged env s = (let s1 = reload env s in s1\<lparr>fv_changes := Suc (fv_changes s1)\<rparr>)"

definition setStrv :: "favorites_env \<Rightarrow> string list \<Rightarrow> app_favorites \<Rightarrow> app_favorites" where
  "setStrv env ids s = onFavsChanged env (s\<lparr>fv_setting := ids\<rparr>)"

definition isPhoneChanged :: "favorites_env \<Rightarrow> bool \<Rightarrow> app_favorites \<Rightarrow> app_favorites" where
  "isPhoneChanged env p s = onFavsChanged env (s\<lparr>fv_isPhone := p\<rparr>)"

definition newAppFavorites :: "favorites_env \<Rightarrow> bool \<Rightarrow> string list \<Rightarrow> app_favorites" where
  "newAppFavorites env isPhone setting = reload env \<lparr>fv_favorites = [], fv_setting = setting, fv_isPhone = isPhone, fv_changes = 0,
    fv_notifications = []\<rparr>"

definition getIds :: "app_favorites \<Rightarrow> string list" where
  "getIds s = jm_keys (fv_favorites s)"

definition getFavorites :: "app_favorites \<Rightarrow> nat list" where
  "getFavorites s = map snd (fv_favorites s)"

definition isFavorite :: "string \<Rightarrow> app_favorites \<Rightarrow> bool" where
  "isFavorite appId s = jm_has (fv_favorites s) appId"

text \<open>\<open>ids.splice(pos, 0, appId)\<close>.\<close>

definition spliceIn :: "int \<Rightarrow> 'a \<Rightarrow> 'a list \<Rightarrow> 'a list" where
  "spliceIn pos x xs = (let k = js_clamp_index (length xs) pos in take k xs @ x # drop k xs)"

definition fv_add :: "favorites_env \<Rightarrow> string \<Rightarrow> int \<Rightarrow> app_favorites \<Rightarrow> app_favorites \<times> bool" where
  "fv_add env appId pos s =
    (if jm_has (fv_favorites s) appId then (s, False)
     else (case fe_lookup env appId of
         None \<Rightarrow> (s, False)
       | Some app \<Rightarrow>
           if \<not> fe_shouldShow env app then (s, False)
           else (let ids = getIds s;
                     ids' = (if pos = -1 then ids @ [appId] else spliceIn pos appId ids)
             in (setStrv env ids' s, True))))"

definition fv_remove :: "favorites_env \<Rightarrow> string \<Rightarrow> app_favorites \<Rightarrow> app_favorites \<times> bool" where
  "fv_remove env appId s =
    (if \<not> jm_has (fv_favorites s) appId then (s, False)
     else (setStrv env (filter (\<lambda>i. i \<noteq> appId) (getIds s)) s, True))"

definition fv_showNotification :: "undo \<Rightarrow> app_favorites \<Rightarrow> app_favorites" where
  "fv_showNotification u s = s\<lparr>fv_notifications := fv_notifications s @ [u]\<rparr>"

definition addFavoriteAtPos :: "favorites_env \<Rightarrow> string \<Rightarrow> int \<Rightarrow> app_favorites \<Rightarrow> app_favorites" where
  "addFavoriteAtPos env appId pos s =
    (let (s1, added) = fv_add env appId pos s in if \<not> added then s1 else fv_showNotification (UndoAdd appId) s1)"

definition addFavorite :: "favorites_env \<Rightarrow> string \<Rightarrow> app_favorites \<Rightarrow> app_favorites" where
  "addFavorite env appId s = addFavoriteAtPos env appId (-1) s"

definition moveFavoriteToPos :: "favorites_env \<Rightarrow> string \<Rightarrow> int \<Rightarrow> app_favorites \<Rightarrow> app_favorites" where
  "moveFavoriteToPos env appId pos s = fst (fv_add env appId pos (fst (fv_remove env appId s)))"

definition removeFavorite :: "favorites_env \<Rightarrow> string \<Rightarrow> app_favorites \<Rightarrow> app_favorites" where
  "removeFavorite env appId s =
    (let pos = js_indexOf appId (getIds s);
         (s1, removed) = fv_remove env appId s
     in if \<not> removed then s1 else fv_showNotification (UndoRemove appId pos) s1)"

fun undoCallback :: "favorites_env \<Rightarrow> undo \<Rightarrow> app_favorites \<Rightarrow> app_favorites" where
  "undoCallback env (UndoAdd appId) s = fst (fv_remove env appId s)"
| "undoCallback env (UndoRemove appId pos) s = fst (fv_add env appId pos s)"

subsection \<open>What is shown\<close>

text \<open>An installed app is found under its own identifier.\<close>

definition ids_ok :: "favorites_env \<Rightarrow> bool" where
  "ids_ok env \<longleftrightarrow> (\<forall>i a. fe_lookup env i = Some a \<longrightarrow> fe_getId env a = i)"

definition shown :: "favorites_env \<Rightarrow> string \<Rightarrow> bool" where
  "shown env i \<longleftrightarrow> (case fe_lookup env i of Some a \<Rightarrow> fe_shouldShow env a | None \<Rightarrow> False)"

text \<open>The first occurrence of each element.\<close>

definition firsts :: "'a list \<Rightarrow> 'a list" where
  "firsts xs = rev (remdups (rev xs))"

lemma firsts_distinct: "distinct xs \<Longrightarrow> firsts xs = xs"
  by (simp add: firsts_def distinct_remdups_id)

lemma firsts_snoc: "firsts (xs @ [x]) = (if x \<in> set xs then firsts xs else firsts xs @ [x])"
  by (simp add: firsts_def)

lemma set_firsts [simp]: "set (firsts xs) = set xs"
  by (simp add: firsts_def)

lemma distinct_firsts [simp]: "distinct (firsts xs)"
  by (simp add: firsts_def)

lemma visibleApps_ids:
  assumes "ids_ok env"
  shows "map (fe_getId env) (visibleApps env ids) = filter (shown env) ids"
  using assms by (induction ids) (auto simp: visibleApps_def shown_def ids_ok_def)

lemma keys_fold_set: "map fst (fold (\<lambda>a m. jm_set m (f a) a) as []) = firsts (map f as)"
proof (induction as rule: rev_induct)
  case (snoc a as)
  then show ?case by (simp add: jm_keys_set firsts_snoc del: set_map)
qed (simp add: firsts_def)

lemma reload_ids: "ids_ok env \<Longrightarrow> \<not> fv_isPhone s \<Longrightarrow> getIds (reload env s) = firsts (filter (shown env) (fv_setting s))"
  by (simp add: reload_def getIds_def keys_fold_set visibleApps_ids)

lemma setStrv_fields [simp]:
  "fv_setting (setStrv env ids s) = ids" "fv_isPhone (setStrv env ids s) = fv_isPhone s"
  by (simp_all add: setStrv_def onFavsChanged_def reload_def Let_def)

lemma setStrv_ids: "ids_ok env \<Longrightarrow> \<not> fv_isPhone s \<Longrightarrow> getIds (setStrv env ids s) = firsts (filter (shown env) ids)"
proof -
  assume "ids_ok env" "\<not> fv_isPhone s"
  moreover have "getIds (setStrv env ids s) = getIds (reload env (s\<lparr>fv_setting := ids\<rparr>))"
    by (simp add: setStrv_def onFavsChanged_def getIds_def Let_def)
  ultimately show ?thesis by (simp add: reload_ids)
qed

definition favorites_loaded :: "favorites_env \<Rightarrow> app_favorites \<Rightarrow> bool" where
  "favorites_loaded env s \<longleftrightarrow> \<not> fv_isPhone s \<and> getIds s = firsts (filter (shown env) (fv_setting s))"

lemma has_getIds: "jm_has (fv_favorites s) i \<longleftrightarrow> i \<in> set (getIds s)"
  by (simp add: getIds_def jm_get_iff_key del: not_None_eq)

lemma fv_add_eq:
  assumes "favorites_loaded env s"
  shows "fv_add env i pos s = (if i \<notin> set (getIds s) \<and> shown env i
    then (setStrv env (if pos = -1 then getIds s @ [i] else spliceIn pos i (getIds s)) s, True) else (s, False))"
  by (auto simp: fv_add_def has_getIds shown_def Let_def simp del: not_None_eq split: option.splits)

lemma set_spliceIn [simp]: "set (spliceIn pos x xs) = insert x (set xs)"
proof -
  have "set (take k xs) \<union> set (drop k xs) = set xs" for k by (metis append_take_drop_id set_append)
  then show ?thesis by (auto simp: spliceIn_def Let_def)
qed

lemma distinct_spliceIn [simp]: "distinct (spliceIn pos x xs) \<longleftrightarrow> x \<notin> set xs \<and> distinct xs"
proof -
  have "distinct (take k xs @ x # drop k xs) = distinct (x # (take k xs @ drop k xs))" for k
    by (simp only: distinct_append distinct.simps set_append set_simps) auto
  then have "distinct (take k xs @ x # drop k xs) = distinct (x # xs)" for k by simp
  then show ?thesis unfolding spliceIn_def Let_def by simp
qed

lemma shown_getIds: "favorites_loaded env s \<Longrightarrow> i \<in> set (getIds s) \<Longrightarrow> shown env i"
  by (simp add: favorites_loaded_def)

lemma getIds_setStrv_shown:
  assumes "ids_ok env" and "\<not> fv_isPhone s" and "distinct ids" and "\<forall>i\<in>set ids. shown env i"
  shows "getIds (setStrv env ids s) = ids" and "favorites_loaded env (setStrv env ids s)"
  using assms by (simp_all add: setStrv_ids firsts_distinct favorites_loaded_def filter_True)

text \<open>Pinning, moving and unpinning on a desktop: what they do to the list that is shown, and the setting is that list then.\<close>

theorem favorites_ops:
  assumes "ids_ok env" and "favorites_loaded env s"
  shows "i \<notin> set (getIds s) \<Longrightarrow> shown env i \<Longrightarrow> pos \<noteq> -1 \<Longrightarrow>
      getIds (addFavoriteAtPos env i pos s) = spliceIn pos i (getIds s) \<and> fv_setting (addFavoriteAtPos env i pos s) = spliceIn pos i (getIds s)"
    and "i \<in> set (getIds s) \<Longrightarrow> pos \<noteq> -1 \<Longrightarrow> getIds (moveFavoriteToPos env i pos s) = spliceIn pos i (filter (\<lambda>j. j \<noteq> i) (getIds s))"
    and "i \<in> set (getIds s) \<Longrightarrow> getIds (removeFavorite env i s) = filter (\<lambda>j. j \<noteq> i) (getIds s) \<and>
      fv_setting (removeFavorite env i s) = filter (\<lambda>j. j \<noteq> i) (getIds s)"
proof -
  have desk: "\<not> fv_isPhone s" and dist: "distinct (getIds s)" using assms(2) by (simp_all add: favorites_loaded_def)
  have sh: "\<forall>j\<in>set (getIds s). shown env j" using shown_getIds [OF assms(2)] by blast
  have notif: "getIds (fv_showNotification u t) = getIds t" "fv_setting (fv_showNotification u t) = fv_setting t" for u t
    by (simp_all add: fv_showNotification_def getIds_def)
  show "getIds (addFavoriteAtPos env i pos s) = spliceIn pos i (getIds s) \<and> fv_setting (addFavoriteAtPos env i pos s) = spliceIn pos i (getIds s)"
    if "i \<notin> set (getIds s)" "shown env i" "pos \<noteq> -1"
    using that dist sh desk getIds_setStrv_shown(1) [OF assms(1) desk, of "spliceIn pos i (getIds s)"]
    by (simp add: addFavoriteAtPos_def fv_add_eq [OF assms(2)] notif)
  define ids where "ids = filter (\<lambda>j. j \<noteq> i) (getIds s)"
  have ids: "distinct ids" "\<forall>j\<in>set ids. shown env j" using dist sh by (auto simp: ids_def)
  note rem = getIds_setStrv_shown [OF assms(1) desk ids]
  show "getIds (removeFavorite env i s) = filter (\<lambda>j. j \<noteq> i) (getIds s) \<and> fv_setting (removeFavorite env i s) = filter (\<lambda>j. j \<noteq> i) (getIds s)"
    if "i \<in> set (getIds s)"
    using that rem(1) by (simp add: removeFavorite_def fv_remove_def has_getIds notif Let_def flip: ids_def del: not_None_eq)
  show "getIds (moveFavoriteToPos env i pos s) = spliceIn pos i (filter (\<lambda>j. j \<noteq> i) (getIds s))"
    if "i \<in> set (getIds s)" "pos \<noteq> -1"
  proof -
    have "i \<notin> set ids" by (simp add: ids_def)
    moreover have "shown env i" using sh that by blast
    moreover have "fst (fv_remove env i s) = setStrv env ids s" using that by (simp add: fv_remove_def has_getIds ids_def del: not_None_eq)
    ultimately show ?thesis using that ids rem getIds_setStrv_shown(1) [OF assms(1), of "setStrv env ids s" "spliceIn pos i ids"] desk
      by (simp add: moveFavoriteToPos_def fv_add_eq [OF rem(2)] flip: ids_def)
  qed
qed

text \<open>Undoing brings back the list.\<close>

lemma spliceIn_indexOf:
  assumes "distinct xs" and "x \<in> set xs"
  shows "spliceIn (js_indexOf x xs) x (filter (\<lambda>y. y \<noteq> x) xs) = xs"
proof -
  from assms(2) obtain ys zs where xs: "xs = ys @ x # zs" "x \<notin> set ys" by (meson split_list_first)
  then have "x \<notin> set zs" using assms(1) by simp
  then have "filter (\<lambda>y. y \<noteq> x) ys = ys" "filter (\<lambda>y. y \<noteq> x) zs = zs" using xs(2) by (auto simp: filter_id_conv)
  with xs have f: "filter (\<lambda>y. y \<noteq> x) xs = ys @ zs" by simp
  have "js_indexOf x xs = int (length ys)" using xs by (simp add: js_indexOf_split)
  then show ?thesis using f xs by (simp add: spliceIn_def js_clamp_index_def Let_def)
qed

theorem unpin_undo_restores:
  assumes "ids_ok env" and "favorites_loaded env s" and "i \<in> set (getIds s)"
  shows "getIds (undoCallback env (last (fv_notifications (removeFavorite env i s))) (removeFavorite env i s)) = getIds s"
proof -
  define t where "t = removeFavorite env i s"
  have desk: "\<not> fv_isPhone s" and dist: "distinct (getIds s)" using assms(2) by (simp_all add: favorites_loaded_def)
  have sh: "\<forall>j\<in>set (getIds s). shown env j" using shown_getIds [OF assms(2)] by blast
  have t: "t = fv_showNotification (UndoRemove i (js_indexOf i (getIds s))) (setStrv env (filter (\<lambda>j. j \<noteq> i) (getIds s)) s)"
    using assms(3) by (simp add: t_def removeFavorite_def fv_remove_def has_getIds Let_def del: not_None_eq)
  have last: "last (fv_notifications t) = UndoRemove i (js_indexOf i (getIds s))" by (simp add: t fv_showNotification_def)
  have ids: "getIds t = filter (\<lambda>j. j \<noteq> i) (getIds s)" "fv_setting t = filter (\<lambda>j. j \<noteq> i) (getIds s)"
    using favorites_ops(3) [OF assms] by (simp_all add: t_def)
  have phone: "\<not> fv_isPhone t" using desk by (simp add: t fv_showNotification_def)
  moreover have "filter (shown env) (filter (\<lambda>j. j \<noteq> i) (getIds s)) = filter (\<lambda>j. j \<noteq> i) (getIds s)"
    using sh by (intro filter_True) simp
  ultimately have loaded: "favorites_loaded env t" using ids dist by (simp add: favorites_loaded_def firsts_distinct del: filter_filter)
  have "js_indexOf i (getIds s) \<noteq> -1" using assms(3) js_indexOf_nonneg by (metis neg_0_le_iff_le not_one_le_zero)
  then show ?thesis
    using assms sh ids dist spliceIn_indexOf [OF dist assms(3)] getIds_setStrv_shown(1) [OF assms(1) phone dist sh]
    unfolding t_def [symmetric] last by (simp add: fv_add_eq [OF loaded])
qed

subsection \<open>What is lost\<close>

text \<open>Unpinning one app drops from the setting all that are not shown at the time: those that are hidden or not installed.\<close>

theorem unpin_forgets_hidden:
  assumes "ids_ok env" and "favorites_loaded env s" and "i \<in> set (getIds s)" and "h \<in> set (fv_setting s)" and "\<not> shown env h"
  shows "h \<notin> set (fv_setting (removeFavorite env i s))"
  using favorites_ops(3) [OF assms(1-3)] shown_getIds [OF assms(2)] assms(5) by auto

text \<open>On a phone the apps are not loaded again, so a move is a removal: the app is in the list, and cannot be added.\<close>

theorem moving_on_phone_unpins:
  assumes "fv_isPhone s" and "i \<in> set (getIds s)"
  shows "fv_setting (moveFavoriteToPos env i pos s) = filter (\<lambda>j. j \<noteq> i) (getIds s)" and "isFavorite i (moveFavoriteToPos env i pos s)"
proof -
  define t where "t = setStrv env (filter (\<lambda>j. j \<noteq> i) (getIds s)) s"
  have "fv_favorites t = fv_favorites s" using assms(1) by (simp add: t_def setStrv_def onFavsChanged_def reload_def Let_def)
  then have "jm_has (fv_favorites t) i" using assms(2) by (simp add: getIds_def jm_get_iff_key del: not_None_eq)
  moreover have "fst (fv_remove env i s) = t" using assms(2) by (simp add: fv_remove_def has_getIds t_def del: not_None_eq)
  ultimately have "moveFavoriteToPos env i pos s = t" by (simp add: moveFavoriteToPos_def fv_add_def)
  then show "fv_setting (moveFavoriteToPos env i pos s) = filter (\<lambda>j. j \<noteq> i) (getIds s)" "isFavorite i (moveFavoriteToPos env i pos s)"
    using \<open>jm_has (fv_favorites t) i\<close> by (simp_all add: t_def isFavorite_def)
qed

text \<open>A shell that was started as a phone has loaded nothing, and pinning an app replaces all that were pinned.\<close>

theorem pinning_on_phone_replaces:
  assumes "shown env i"
  shows "fv_setting (addFavorite env i (newAppFavorites env True setting)) = [i]"
  using assms by (auto simp: addFavorite_def addFavoriteAtPos_def fv_add_def newAppFavorites_def reload_def shown_def getIds_def
      fv_showNotification_def split: option.splits)

subsection \<open>Example\<close>

definition exampleFavoritesEnv :: favorites_env where
  "exampleFavoritesEnv = \<lparr>fe_lookup = (\<lambda>i. if i = ''a'' then Some 1 else if i = ''b'' then Some 2 else if i = ''c'' then Some 3 else None),
    fe_getId = (\<lambda>a. if a = 1 then ''a'' else if a = 2 then ''b'' else ''c''), fe_shouldShow = (\<lambda>a. True)\<rparr>"

lemma exampleFavoritesEnv_ok: "ids_ok exampleFavoritesEnv"
  by (auto simp: ids_ok_def exampleFavoritesEnv_def split: if_splits)

lemma exampleFavorites_loaded: "favorites_loaded exampleFavoritesEnv (newAppFavorites exampleFavoritesEnv False [''a'', ''b'', ''c''])"
  using reload_ids [OF exampleFavoritesEnv_ok]
  by (simp add: favorites_loaded_def newAppFavorites_def) (simp add: reload_def)

theorem unpin_undo_restores_witness:
  "getIds (undoCallback exampleFavoritesEnv
      (last (fv_notifications (removeFavorite exampleFavoritesEnv ''b'' (newAppFavorites exampleFavoritesEnv False [''a'', ''b'', ''c'']))))
      (removeFavorite exampleFavoritesEnv ''b'' (newAppFavorites exampleFavoritesEnv False [''a'', ''b'', ''c'']))) =
    getIds (newAppFavorites exampleFavoritesEnv False [''a'', ''b'', ''c''])"
  by (rule unpin_undo_restores [OF exampleFavoritesEnv_ok exampleFavorites_loaded])
    (simp add: newAppFavorites_def reload_ids [OF exampleFavoritesEnv_ok], simp add: shown_def exampleFavoritesEnv_def)

end
