(* ===== verification/Dash.thy ===== *)
theory Dash
  imports AppFavorites "HOL-Library.Sublist"
begin

section \<open>The dash (\<open>js/ui/dash.js\<close>)\<close>

text \<open>
  The row of app icons: the favorites and then the running apps. When either changes, \<open>_redisplay\<close> compares the icons with the
  apps that should be there, collects what to add and what to remove, and then inserts and removes. The children of the box are
  icons with a number of their own, one separator between favorites and others, the placeholder of a drag and the drop target of an empty
  dash; what is removed with an animation stays a child until that ends. An app is a number.
\<close>

datatype dash_child = DashItem nat nat bool | Separator | Placeholder | LeavingPlaceholder | EmptyTarget | LeavingTarget

fun childApp :: "dash_child \<Rightarrow> (nat \<times> nat) option" where
  "childApp (DashItem n app out) = Some (n, app)"
| "childApp c = None"

text \<open>The children with an app, as their numbers and apps.\<close>

definition appChildren :: "dash_child list \<Rightarrow> (nat \<times> nat) list" where
  "appChildren box = map the (filter (\<lambda>c. c \<noteq> None) (map childApp box))"

text \<open>The apps that should be there.\<close>

definition dashApps :: "favorites_env \<Rightarrow> app_favorites \<Rightarrow> nat list \<Rightarrow> nat list" where
  "dashApps env fav running = getFavorites fav @ filter (\<lambda>a. \<not> isFavorite (fe_getId env a) fav) running"

subsection \<open>The differences\<close>

text \<open>
  The loop over both lists. \<open>added\<close> are the apps to add with the positions to insert at, \<open>removed\<close> the numbers and apps of
  the children to remove. \<open>None\<close>: the loop would push \<open>undefined\<close>, and throws in the next round.
\<close>

definition nthOrNull :: "'a list \<Rightarrow> nat \<Rightarrow> 'a option" where
  "nthOrNull xs i = (if i < length xs then Some (xs ! i) else None)"

function dashDiff :: "nat list \<Rightarrow> (nat \<times> nat) list \<Rightarrow> nat \<Rightarrow> nat \<Rightarrow> (nat \<times> nat) list \<Rightarrow> (nat \<times> nat) list \<Rightarrow>
    ((nat \<times> nat) list \<times> (nat \<times> nat) list) option" where
  "dashDiff newApps children newIndex oldIndex added removed =
    (let oldApps = map snd children in
     if newIndex < length newApps \<or> oldIndex < length oldApps
     then (let oldApp = nthOrNull oldApps oldIndex; newApp = nthOrNull newApps newIndex in
       if oldApp = newApp then dashDiff newApps children (Suc newIndex) (Suc oldIndex) added removed
       else if oldApp \<noteq> None \<and> the oldApp \<notin> set newApps
         then dashDiff newApps children newIndex (Suc oldIndex) added (removed @ [children ! oldIndex])
       else if newApp \<noteq> None \<and> the newApp \<notin> set oldApps
         then dashDiff newApps children (Suc newIndex) oldIndex (added @ [(the newApp, newIndex)]) removed
       else (let nextApp = nthOrNull newApps (Suc newIndex);
                 insertHere = (nextApp \<noteq> None \<and> nextApp = oldApp);
                 alreadyRemoved = (newApp \<in> Some ` snd ` set removed)
         in if insertHere \<or> alreadyRemoved
            then dashDiff newApps children (Suc newIndex) oldIndex (added @ [(the newApp, newIndex + length removed)]) removed
            else if oldIndex < length children
            then dashDiff newApps children newIndex (Suc oldIndex) added (removed @ [children ! oldIndex])
            else None))
     else Some (added, removed))"
  by pat_completeness auto

termination
  by (relation "measure (\<lambda>(newApps, children, newIndex, oldIndex, added, removed).
      (length newApps - newIndex) + (length children - oldIndex))")
    (auto simp: nthOrNull_def split: if_splits)

declare dashDiff.simps [simp del]

subsection \<open>Applying them\<close>

text \<open>\<open>insert_child_at_index\<close> appends when there are fewer children. New icons take the next free numbers.\<close>

definition insertChild :: "dash_child \<Rightarrow> nat \<Rightarrow> dash_child list \<Rightarrow> dash_child list" where
  "insertChild c i box = take i box @ c # drop i box"

fun addItems :: "nat \<Rightarrow> (nat \<times> nat) list \<Rightarrow> dash_child list \<Rightarrow> dash_child list" where
  "addItems k [] box = box"
| "addItems k ((app, pos) # as) box = addItems (Suc k) as (insertChild (DashItem k app False) pos box)"

definition isItem :: "nat \<Rightarrow> dash_child \<Rightarrow> bool" where
  "isItem n c = (case childApp c of Some (m, app) \<Rightarrow> m = n | None \<Rightarrow> False)"

fun animateOut :: "nat \<Rightarrow> dash_child \<Rightarrow> dash_child" where
  "animateOut n (DashItem m app out) = DashItem m app (out \<or> m = n)"
| "animateOut n c = c"

text \<open>With \<open>animate\<close> a removed icon stays until the end of its animation.\<close>

definition dashRemoveItem :: "bool \<Rightarrow> nat \<Rightarrow> dash_child list \<Rightarrow> dash_child list" where
  "dashRemoveItem animate n box = (if animate then map (animateOut n) box else filter (\<lambda>c. \<not> isItem n c) box)"

definition isAnimatingOut :: "dash_child \<Rightarrow> bool" where
  "isAnimatingOut c = (case c of DashItem n app out \<Rightarrow> out | LeavingPlaceholder \<Rightarrow> True | LeavingTarget \<Rightarrow> True | _ \<Rightarrow> False)"

text \<open>The position of the separator: each icon that is animated away among the first ones moves it on.\<close>

fun separatorPos :: "nat \<Rightarrow> dash_child list \<Rightarrow> nat \<Rightarrow> nat \<Rightarrow> nat" where
  "separatorPos nFavorites [] itemsBefore pos = pos"
| "separatorPos nFavorites (c # cs) itemsBefore pos =
    (let pos1 = (if isAnimatingOut c then Suc pos else pos); items1 = Suc itemsBefore
     in if items1 > nFavorites then pos1 else separatorPos nFavorites cs items1 pos1)"

definition updateSeparator :: "nat \<Rightarrow> nat \<Rightarrow> dash_child list \<Rightarrow> dash_child list" where
  "updateSeparator nFavorites nIcons box =
    (if 0 < nFavorites \<and> nFavorites < nIcons
     then (let box1 = (if Separator \<in> set box then box else box @ [Separator]);
               pos = separatorPos nFavorites box1 0 nFavorites;
               pos1 = (if Placeholder \<in> set box then Suc pos else pos)
           in insertChild Separator pos1 (filter (\<lambda>c. c \<noteq> Separator) box1))
     else filter (\<lambda>c. c \<noteq> Separator) box)"

record dash_state =
  da_box :: "dash_child list"
  da_nextItem :: nat
  da_iconSize :: int
  da_shownInitially :: bool
  da_placeholderPos :: int
  da_animatingPlaceholders :: nat

definition newDash :: dash_state where
  "newDash = \<lparr>da_box = [], da_nextItem = 0, da_iconSize = 64, da_shownInitially = False, da_placeholderPos = -1,
    da_animatingPlaceholders = 0\<rparr>"

subsection \<open>The size of the icons\<close>

definition baseIconSizes :: "int list" where
  "baseIconSizes = [16, 22, 24, 32, 48, 64]"

text \<open>The largest size that fits, or the smallest; \<open>maxIconSize\<close> is what the space leaves for an icon.\<close>

definition newIconSize :: "int \<Rightarrow> real \<Rightarrow> int" where
  "newIconSize scaleFactor maxIconSize =
    fold (\<lambda>sz best. if real_of_int (sz * scaleFactor) \<le> maxIconSize then sz else best) baseIconSizes (hd baseIconSizes)"

record size_env =
  se_availWidth :: "real option"     \<comment> \<open>none before the dash has a size\<close>
  se_availHeight :: real             \<comment> \<open>without margins and paddings\<close>
  se_spacing :: real
  se_button :: "real \<times> real"         \<comment> \<open>preferred size of the first button\<close>
  se_icon :: "real \<times> real"           \<comment> \<open>and of its icon\<close>
  se_scaleFactor :: int

definition iconChildren :: "dash_child list \<Rightarrow> nat" where
  "iconChildren box = Suc (length (filter (\<lambda>c. childApp c \<noteq> None \<and> \<not> isAnimatingOut c) box))"

definition adjustIconSize :: "size_env \<Rightarrow> dash_state \<Rightarrow> dash_state" where
  "adjustIconSize e s =
    (case se_availWidth e of
       None \<Rightarrow> s
     | Some w \<Rightarrow>
         (let n = real (iconChildren (da_box s));
              availWidth = w - (n * (fst (se_button e) - fst (se_icon e)) + (n - 1) * se_spacing e);
              availHeight = se_availHeight e - (snd (se_button e) - snd (se_icon e));
              maxIconSize = min (availWidth / n) availHeight
          in s\<lparr>da_iconSize := newIconSize (se_scaleFactor e) maxIconSize\<rparr>))"

subsection \<open>\<open>_redisplay\<close>\<close>

definition redisplay :: "size_env \<Rightarrow> bool \<Rightarrow> nat \<Rightarrow> nat list \<Rightarrow> dash_state \<Rightarrow> dash_state option" where
  "redisplay e animate nFavorites newApps s =
    (let children = appChildren (da_box s)
     in case dashDiff newApps children 0 0 [] [] of
          None \<Rightarrow> None
        | Some (added, removed) \<Rightarrow>
            (let box1 = addItems (da_nextItem s) added (da_box s);
                 box2 = fold (\<lambda>r. dashRemoveItem animate (fst r)) removed box1;
                 s1 = adjustIconSize e (s\<lparr>da_box := box2, da_nextItem := da_nextItem s + length added\<rparr>);
                 nIcons = length children + length added - length removed
             in Some (s1\<lparr>da_shownInitially := True, da_box := updateSeparator nFavorites nIcons (da_box s1)\<rparr>)))"

definition itemDestroyed :: "nat \<Rightarrow> dash_state \<Rightarrow> dash_state" where
  "itemDestroyed n s = s\<lparr>da_box := dashRemoveItem False n (da_box s)\<rparr>"

subsection \<open>Dragging\<close>

definition onItemDragBegin :: "dash_state \<Rightarrow> dash_state" where
  "onItemDragBegin s = (if da_box s = [] then s\<lparr>da_box := [EmptyTarget]\<rparr> else s)"

definition replaceChild :: "dash_child \<Rightarrow> dash_child \<Rightarrow> dash_child list \<Rightarrow> dash_child list" where
  "replaceChild c d box = map (\<lambda>x. if x = c then d else x) box"

definition clearDragPlaceholder :: "dash_state \<Rightarrow> dash_state" where
  "clearDragPlaceholder s =
    (let s1 = (if Placeholder \<in> set (da_box s)
       then s\<lparr>da_animatingPlaceholders := Suc (da_animatingPlaceholders s),
              da_box := replaceChild Placeholder LeavingPlaceholder (da_box s)\<rparr>
       else s)
     in s1\<lparr>da_placeholderPos := -1\<rparr>)"

definition clearEmptyDropTarget :: "dash_state \<Rightarrow> dash_state" where
  "clearEmptyDropTarget s = s\<lparr>da_box := replaceChild EmptyTarget LeavingTarget (da_box s)\<rparr>"

definition endItemDrag :: "dash_state \<Rightarrow> dash_state" where
  "endItemDrag s = clearEmptyDropTarget (clearDragPlaceholder s)"

text \<open>The ends of the animations of a placeholder and of a drop target.\<close>

definition placeholderDestroyed :: "dash_state \<Rightarrow> dash_state" where
  "placeholderDestroyed s = (if LeavingPlaceholder \<in> set (da_box s)
    then s\<lparr>da_box := remove1 LeavingPlaceholder (da_box s), da_animatingPlaceholders := da_animatingPlaceholders s - 1\<rparr> else s)"

definition targetDestroyed :: "dash_state \<Rightarrow> dash_state" where
  "targetDestroyed s = s\<lparr>da_box := remove1 LeavingTarget (da_box s)\<rparr>"

text \<open>\<open>favorite-apps\<close> may be locked, and an app without a desktop file cannot be a favorite. Widths and the position of the pointer are pixels.\<close>

record drag_env =
  dr_writable :: bool
  dr_windowBacked :: "nat \<Rightarrow> bool"
  dr_rtl :: bool
  dr_boxWidth :: real
  dr_placeholderWidth :: real
  dr_separatorWidth :: real

datatype drop_result = NoDrop | ContinueDrag | MoveDrop

text \<open>The position under the pointer, at most after the last favorite.\<close>

definition dragPos :: "drag_env \<Rightarrow> real \<Rightarrow> dash_child list \<Rightarrow> nat \<Rightarrow> int" where
  "dragPos e x box numFavorites =
    (let w1 = (if Placeholder \<in> set box then dr_boxWidth e - dr_placeholderWidth e else dr_boxWidth e);
         n1 = (if Placeholder \<in> set box then int (length box) - 1 else int (length box));
         w2 = (if Separator \<in> set box then w1 - dr_separatorWidth e else w1);
         n2 = (if Separator \<in> set box then n1 - 1 else n1);
         pos = (if EmptyTarget \<in> set box then 0
                else if dr_rtl e then n2 - \<lfloor>x * real_of_int n2 / w2\<rfloor>
                else \<lfloor>x * real_of_int n2 / w2\<rfloor>)
     in if pos > int numFavorites then int numFavorites else pos)"

text \<open>\<open>insert_child_at_index\<close> with a negative index appends.\<close>

definition insertAtIndex :: "dash_child \<Rightarrow> int \<Rightarrow> dash_child list \<Rightarrow> dash_child list" where
  "insertAtIndex c i box = (if i < 0 then box @ [c] else insertChild c (nat i) box)"

definition dashDragOver :: "drag_env \<Rightarrow> app_favorites \<Rightarrow> nat option \<Rightarrow> real \<Rightarrow> dash_state \<Rightarrow> dash_state \<times> drop_result" where
  "dashDragOver e fav source x s =
    (case source of
       None \<Rightarrow> (s, NoDrop)
     | Some app \<Rightarrow>
         if dr_windowBacked e app then (s, NoDrop)
         else if \<not> dr_writable e then (s, NoDrop)
         else (let favorites = getFavorites fav;
                   favPos = js_indexOf app favorites;
                   pos = dragPos e x (da_box s) (length favorites)
               in if pos \<noteq> da_placeholderPos s \<and> da_animatingPlaceholders s = 0
                  then if favPos \<noteq> -1 \<and> (pos = favPos \<or> pos = favPos + 1)
                       then (clearDragPlaceholder s, ContinueDrag)
                       else (s\<lparr>da_placeholderPos := pos,
                               da_box := insertAtIndex Placeholder pos (filter (\<lambda>c. c \<noteq> Placeholder) (da_box s))\<rparr>, MoveDrop)
                  else if Placeholder \<in> set (da_box s) then (s, MoveDrop) else (s, NoDrop)))"

text \<open>
  \<open>acceptDrop\<close>: the position among the favorites, counted over the children before the placeholder. \<open>None\<close>: a child without an
  app is met, and the code throws.
\<close>

fun dropFavPos :: "favorites_env \<Rightarrow> app_favorites \<Rightarrow> string \<Rightarrow> nat \<Rightarrow> dash_child list \<Rightarrow> nat option" where
  "dropFavPos env fav i 0 cs = Some 0"
| "dropFavPos env fav i (Suc k) [] = None"
| "dropFavPos env fav i (Suc k) (Placeholder # cs) = dropFavPos env fav i k cs"
| "dropFavPos env fav i (Suc k) (DashItem n a out # cs) =
    (let childId = fe_getId env a
     in map_option (\<lambda>p. if childId \<noteq> i \<and> isFavorite childId fav then Suc p else p) (dropFavPos env fav i k cs))"
| "dropFavPos env fav i (Suc k) (c # cs) = None"

text \<open>What a drop will do before the next frame; the outer option is the throw, the inner one a drop that is refused.\<close>

datatype drop_action = KeepFavorites | MoveFavorite string nat | AddFavorite string nat

definition dashAcceptDrop :: "favorites_env \<Rightarrow> drag_env \<Rightarrow> app_favorites \<Rightarrow> nat option \<Rightarrow> dash_state \<Rightarrow> drop_action option option" where
  "dashAcceptDrop env e fav source s =
    (case source of
       None \<Rightarrow> Some None
     | Some app \<Rightarrow>
         if dr_windowBacked e app then Some None
         else if \<not> dr_writable e then Some None
         else (let i = fe_getId env app in
           case dropFavPos env fav i (nat (da_placeholderPos s)) (da_box s) of
             None \<Rightarrow> None
           | Some favPos \<Rightarrow> Some (Some (if Placeholder \<notin> set (da_box s) then KeepFavorites
               else if isFavorite i fav then MoveFavorite i favPos else AddFavorite i favPos))))"

fun runDrop :: "favorites_env \<Rightarrow> drop_action \<Rightarrow> app_favorites \<Rightarrow> app_favorites" where
  "runDrop env KeepFavorites fav = fav"
| "runDrop env (MoveFavorite i favPos) fav = moveFavoriteToPos env i (int favPos) fav"
| "runDrop env (AddFavorite i favPos) fav = addFavoriteAtPos env i (int favPos) fav"

text \<open>The icon that shows the app grid, on which favorites are dropped to unpin them.\<close>

definition canRemoveApp :: "favorites_env \<Rightarrow> drag_env \<Rightarrow> app_favorites \<Rightarrow> nat option \<Rightarrow> bool" where
  "canRemoveApp env e fav source =
    (case source of None \<Rightarrow> False | Some app \<Rightarrow> if \<not> dr_writable e then False else isFavorite (fe_getId env app) fav)"

definition showAppsAcceptDrop :: "favorites_env \<Rightarrow> drag_env \<Rightarrow> nat option \<Rightarrow> app_favorites \<Rightarrow> app_favorites \<times> bool" where
  "showAppsAcceptDrop env e source fav =
    (if \<not> canRemoveApp env e fav source then (fav, False)
     else (removeFavorite env (fe_getId env (the source)) fav, True))"

end
