(* ===== verification/DashProps.thy ===== *)
theory DashProps
  imports Dash "HOL-Library.Multiset"
begin

section \<open>The dash shows the apps\<close>

subsection \<open>Icons that are not leaving\<close>

definition shownApps :: "dash_child list \<Rightarrow> nat list" where
  "shownApps box = map snd (appChildren (filter (\<lambda>c. \<not> isAnimatingOut c) box))"

lemma appChildren_simps [simp]:
  "appChildren [] = []"
  "appChildren (DashItem n a out # box) = (n, a) # appChildren box"
  "appChildren (Separator # box) = appChildren box"
  "appChildren (Placeholder # box) = appChildren box"
  "appChildren (LeavingPlaceholder # box) = appChildren box"
  "appChildren (EmptyTarget # box) = appChildren box"
  "appChildren (LeavingTarget # box) = appChildren box"
  by (simp_all add: appChildren_def)

lemma appChildren_append [simp]: "appChildren (xs @ ys) = appChildren xs @ appChildren ys"
  by (simp add: appChildren_def)

lemma appChildren_cons: "appChildren (c # box) = (case childApp c of Some x \<Rightarrow> x # appChildren box | None \<Rightarrow> appChildren box)"
  by (cases c) simp_all

text \<open>The icons at rest: none is leaving, and their numbers and apps are distinct; new icons have larger numbers.\<close>

definition settled :: "dash_state \<Rightarrow> bool" where
  "settled s \<longleftrightarrow> (\<forall>n a out. DashItem n a out \<in> set (da_box s) \<longrightarrow> \<not> out \<and> n < da_nextItem s) \<and>
    distinct (map fst (appChildren (da_box s))) \<and> distinct (map snd (appChildren (da_box s)))"

subsection \<open>The differences account for every app\<close>

definition diff_inv :: "nat list \<Rightarrow> (nat \<times> nat) list \<Rightarrow> nat \<Rightarrow> nat \<Rightarrow> (nat \<times> nat) list \<Rightarrow> (nat \<times> nat) list \<Rightarrow> bool" where
  "diff_inv new children i j added removed \<longleftrightarrow> i \<le> length new \<and> j \<le> length children \<and>
    removed = filter (\<lambda>c. c \<in> set removed) (take j children) \<and>
    mset (take i new) = mset (map fst added) + mset (map snd (filter (\<lambda>c. c \<notin> set removed) (take j children)))"

lemma diff_inv_match:
  assumes "diff_inv new children i j added removed" and "distinct children" and "i < length new" and "j < length children" and "snd (children ! j) = new ! i"
  shows "diff_inv new children (Suc i) (Suc j) added removed"
proof -
  have "children ! j \<notin> set removed"
  proof
    assume "children ! j \<in> set removed"
    then have "children ! j \<in> set (take j children)" using assms(1) unfolding diff_inv_def by (metis filter_is_subset subsetD)
    then show False using assms(2,4) by (auto simp: in_set_conv_nth nth_eq_iff_index_eq)
  qed
  then show ?thesis using assms by (simp add: diff_inv_def take_Suc_conv_app_nth)
qed

lemma diff_inv_add:
  assumes "diff_inv new children i j added removed" and "i < length new"
  shows "diff_inv new children (Suc i) j (added @ [(new ! i, p)]) removed"
  using assms by (simp add: diff_inv_def take_Suc_conv_app_nth)

lemma diff_inv_remove:
  assumes inv: "diff_inv new children i j added removed" and "distinct children" and j: "j < length children"
  shows "diff_inv new children i (Suc j) added (removed @ [children ! j])"
proof -
  have new: "children ! j \<notin> set (take j children)" using assms(2,3) by (auto simp: in_set_conv_nth nth_eq_iff_index_eq)
  then have "filter (\<lambda>c. c \<in> set (removed @ [children ! j])) (take j children) = filter (\<lambda>c. c \<in> set removed) (take j children)"
    "filter (\<lambda>c. c \<notin> set (removed @ [children ! j])) (take j children) = filter (\<lambda>c. c \<notin> set removed) (take j children)"
    by (auto intro!: filter_cong)
  moreover have "children ! j \<in> set (removed @ [children ! j])" by simp
  ultimately show ?thesis using inv j by (simp add: diff_inv_def take_Suc_conv_app_nth del: set_append)
qed

text \<open>The branches of the loop, as a rule: \<open>I\<close> is kept by the three ways to go on, and the loop does not run out of children.\<close>

lemma dashDiff_rule:
  fixes I :: "nat \<Rightarrow> nat \<Rightarrow> (nat \<times> nat) list \<Rightarrow> (nat \<times> nat) list \<Rightarrow> bool"
  assumes dn: "distinct new" and dc: "distinct children" and ds: "distinct (map snd children)"
    and start: "diff_inv new children i j added removed" "I i j added removed"
    and match: "\<And>i j A R. diff_inv new children i j A R \<Longrightarrow> I i j A R \<Longrightarrow> i < length new \<Longrightarrow> j < length children \<Longrightarrow>
      snd (children ! j) = new ! i \<Longrightarrow> I (Suc i) (Suc j) A R"
    and remove: "\<And>i j A R. diff_inv new children i j A R \<Longrightarrow> I i j A R \<Longrightarrow> j < length children \<Longrightarrow>
      snd (children ! j) \<notin> set new \<or> (i < length new \<longrightarrow> new ! i \<in> snd ` set children \<and> new ! i \<noteq> snd (children ! j)) \<Longrightarrow>
      I i (Suc j) A (R @ [children ! j])"
    and add: "\<And>i j A R. diff_inv new children i j A R \<Longrightarrow> I i j A R \<Longrightarrow> i < length new \<Longrightarrow> new ! i \<notin> snd ` set children \<Longrightarrow>
      (j < length children \<Longrightarrow> snd (children ! j) \<noteq> new ! i) \<Longrightarrow> I (Suc i) j (A @ [(new ! i, i)]) R"
    and move: "\<And>i j A R. diff_inv new children i j A R \<Longrightarrow> I i j A R \<Longrightarrow> i < length new \<Longrightarrow> new ! i \<in> snd ` set children \<Longrightarrow>
      (j < length children \<Longrightarrow> snd (children ! j) \<noteq> new ! i) \<Longrightarrow> I (Suc i) j (A @ [(new ! i, i + length R)]) R"
  shows "\<exists>A R. dashDiff new children i j added removed = Some (A, R) \<and>
    diff_inv new children (length new) (length children) A R \<and> I (length new) (length children) A R"
  using start
proof (induction "(length new - i) + (length children - j)" arbitrary: i j added removed rule: less_induct)
  case less
  note inv = less.prems(1)
  have le: "i \<le> length new" "j \<le> length children" using inv by (simp_all add: diff_inv_def)
  let ?old = "map snd children"
  let ?step = "\<lambda>i' j' A R. dashDiff new children i j added removed = dashDiff new children i' j' A R"
  have go: ?case if "?step i' j' A R" "diff_inv new children i' j' A R" "I i' j' A R"
      "(length new - i') + (length children - j') < (length new - i) + (length children - j)" for i' j' A R
    using less.hyps [OF that(4,2,3)] unfolding that(1) by blast
  show ?case
  proof (cases "i < length new \<or> j < length children")
    case False
    then have "i = length new" "j = length children" using le by simp_all
    then show ?thesis using less.prems by (subst dashDiff.simps) simp
  next
    case True
    have unf: "dashDiff new children i j added removed =
      (let oldApp = nthOrNull ?old j; newApp = nthOrNull new i in
       if oldApp = newApp then dashDiff new children (Suc i) (Suc j) added removed
       else if oldApp \<noteq> None \<and> the oldApp \<notin> set new
         then dashDiff new children i (Suc j) added (removed @ [children ! j])
       else if newApp \<noteq> None \<and> the newApp \<notin> set ?old
         then dashDiff new children (Suc i) j (added @ [(the newApp, i)]) removed
       else (let nextApp = nthOrNull new (Suc i);
                 insertHere = (nextApp \<noteq> None \<and> nextApp = oldApp);
                 alreadyRemoved = (newApp \<in> Some ` snd ` set removed)
         in if insertHere \<or> alreadyRemoved
            then dashDiff new children (Suc i) j (added @ [(the newApp, i + length removed)]) removed
            else if j < length children
            then dashDiff new children i (Suc j) added (removed @ [children ! j])
            else None))"
      using True by (subst dashDiff.simps) (simp add: Let_def)
    show ?thesis
    proof (cases "i < length new \<and> j < length children \<and> snd (children ! j) = new ! i")
      case True
      then show ?thesis
        by (intro go [of "Suc i" "Suc j" added removed] diff_inv_match inv match less.prems)
          (use True dc in \<open>auto simp: unf nthOrNull_def Let_def\<close>)
    next
      case neq: False
      have ne: "nthOrNull ?old j \<noteq> nthOrNull new i" using neq True by (auto simp: nthOrNull_def)
      show ?thesis
      proof (cases "j < length children \<and> snd (children ! j) \<notin> set new")
        case True
        then show ?thesis using ne
          by (intro go [of i "Suc j" added "removed @ [children ! j]"] diff_inv_remove inv remove less.prems dc)
            (auto simp: unf Let_def nthOrNull_def)
      next
        case old: False
        show ?thesis
        proof (cases "i < length new \<and> new ! i \<notin> set ?old")
          case True
          then show ?thesis using ne old neq
            by (intro go [of "Suc i" j "added @ [(new ! i, i)]" removed] diff_inv_add inv add less.prems)
              (auto simp: unf Let_def nthOrNull_def)
        next
          case new: False
          define here where "here = (Suc i < length new \<and> j < length children \<and> new ! Suc i = snd (children ! j) \<or>
            i < length new \<and> new ! i \<in> snd ` set removed)"
          have unf2: "dashDiff new children i j added removed =
            (if here then dashDiff new children (Suc i) j (added @ [(the (nthOrNull new i), i + length removed)]) removed
             else if j < length children then dashDiff new children i (Suc j) added (removed @ [children ! j]) else None)"
            using ne old new unfolding unf here_def by (auto simp: nthOrNull_def Let_def)
          show ?thesis
          proof (cases here)
            case True
            then have i: "i < length new" by (auto simp: here_def)
            then have "new ! i \<in> snd ` set children" using new by auto
            then show ?thesis using i True neq
              by (intro go [of "Suc i" j "added @ [(new ! i, i + length removed)]" removed] diff_inv_add inv move less.prems)
                (auto simp: unf2 nthOrNull_def)
          next
            case False
            show ?thesis
            proof (cases "j < length children")
              case True
              then show ?thesis using False neq new
                by (intro go [of i "Suc j" added "removed @ [children ! j]"] diff_inv_remove inv remove less.prems dc)
                  (auto simp: unf2)
            next
              case j: False
              then have i: "i < length new" and all: "take j children = children" using True by simp_all
              then have "new ! i \<in> snd ` set children" using new by auto
              moreover have "new ! i \<notin> snd ` set removed" using False i by (simp add: here_def)
              ultimately have "new ! i \<in># mset (map snd (filter (\<lambda>c. c \<notin> set removed) (take j children)))"
                unfolding all by auto
              then have "new ! i \<in># mset (take i new)" using inv unfolding diff_inv_def by (metis union_iff)
              then have "new ! i \<in> set (take i new)" by simp
              then have False using dn i by (auto simp: in_set_conv_nth nth_eq_iff_index_eq)
              then show ?thesis ..
            qed
          qed
        qed
      qed
    qed
  qed
qed

subsection \<open>Adding and removing icons\<close>

lemma addItems_append: "addItems k (A @ B) box = addItems (k + length A) B (addItems k A box)"
  by (induction A arbitrary: k box) (auto simp: split_paired_all)

lemma appChildren_filter: "(\<And>c. P c \<longleftrightarrow> (case childApp c of Some x \<Rightarrow> Q x | None \<Rightarrow> P c)) \<Longrightarrow>
  appChildren (filter P box) = filter Q (appChildren box)"
proof (induction box)
  case (Cons c box)
  then show ?case using Cons.prems [of c] by (cases "childApp c") (auto simp: appChildren_cons)
qed simp

lemma set_insertChild: "set (insertChild c i box) = insert c (set box)"
  unfolding insertChild_def by (metis Un_insert_right append_take_drop_id list.simps(15) set_append)

lemma mset_appChildren_insert: "mset (appChildren (insertChild (DashItem n a out) i box)) = add_mset (n, a) (mset (appChildren box))"
proof -
  have "mset (appChildren (take i box)) + mset (appChildren (drop i box)) = mset (appChildren box)"
    by (metis appChildren_append append_take_drop_id mset_append)
  then show ?thesis by (simp add: insertChild_def)
qed

lemma mset_addItems: "mset (appChildren (addItems k A box)) = mset (zip [k..<k + length A] (map fst A)) + mset (appChildren box)"
proof (induction A arbitrary: k box)
  case (Cons x A)
  obtain a p where x: "x = (a, p)" by fastforce
  have "[k..<Suc (k + length A)] = k # [Suc k..<Suc (k + length A)]" by (rule upt_conv_Cons) simp
  then show ?case using Cons.IH [of "Suc k" "insertChild (DashItem k a False) p box"] by (simp add: x mset_appChildren_insert)
qed simp

lemma set_addItems: "c \<in> set (addItems k A box) \<Longrightarrow> c \<in> set box \<or> (\<exists>n a. c = DashItem n a False \<and> k \<le> n \<and> n < k + length A)"
proof (induction A arbitrary: k box)
  case (Cons x A)
  obtain a p where x: "x = (a, p)" by fastforce
  from Cons.IH [of "Suc k" "insertChild (DashItem k a False) p box"] Cons.prems
  consider "c = DashItem k a False" | "c \<in> set box" | n b where "c = DashItem n b False" "Suc k \<le> n" "n < Suc k + length A"
    by (auto simp: x set_insertChild)
  then show ?case by cases auto
qed simp

lemma addItems_others: "childApp c = None \<Longrightarrow> c \<in> set (addItems k A box) \<longleftrightarrow> c \<in> set box"
proof (induction A arbitrary: k box)
  case (Cons x A)
  then show ?case by (cases x) (auto simp: set_insertChild)
qed simp

lemma removeItems: "fold (\<lambda>r. dashRemoveItem animate (fst r)) R box =
  (if animate then map (\<lambda>c. fold (\<lambda>r. animateOut (fst r)) R c) box else filter (\<lambda>c. \<forall>r\<in>set R. \<not> isItem (fst r) c) box)"
  by (induction R arbitrary: box) (auto simp: dashRemoveItem_def comp_def conj_commute)

lemma animateOut_fold: "fold (\<lambda>r. animateOut (fst r)) R c =
  (case c of DashItem n a out \<Rightarrow> DashItem n a (out \<or> n \<in> fst ` set R) | _ \<Rightarrow> c)"
  by (induction R arbitrary: c) (auto split: dash_child.split)

text \<open>The icons that are shown after a removal, animated or not.\<close>

lemma shownApps_removed:
  assumes "\<And>n a out. DashItem n a out \<in> set box \<Longrightarrow> \<not> out"
  shows "shownApps (fold (\<lambda>r. dashRemoveItem animate (fst r)) R box) = map snd (filter (\<lambda>c. fst c \<notin> fst ` set R) (appChildren box))"
  using assms
proof (induction box)
  case (Cons c box)
  have IH: "shownApps (fold (\<lambda>r. dashRemoveItem animate (fst r)) R box) = map snd (filter (\<lambda>c. fst c \<notin> fst ` set R) (appChildren box))"
    by (rule Cons.IH) (use Cons.prems in auto)
  show ?case using IH Cons.prems
    by (cases c) (auto simp: removeItems animateOut_fold shownApps_def isItem_def isAnimatingOut_def image_iff)
qed (simp add: removeItems shownApps_def)

subsection \<open>The separator\<close>

lemma updateSeparator_spec:
  "Separator \<in> set (updateSeparator nFav n box) \<longleftrightarrow> 0 < nFav \<and> nFav < n"
  "appChildren (updateSeparator nFav n box) = appChildren box"
  "shownApps (updateSeparator nFav n box) = shownApps box"
  "c \<noteq> Separator \<Longrightarrow> c \<in> set (updateSeparator nFav n box) \<longleftrightarrow> c \<in> set box"
proof -
  have f: "appChildren (filter (\<lambda>c. c \<noteq> Separator) b) = appChildren b" for b
    by (induction b) (auto simp: appChildren_cons split: option.split dash_child.splits)
  have i: "appChildren (insertChild Separator p b) = appChildren b" for p b
    unfolding insertChild_def by simp (metis append_take_drop_id appChildren_append)
  have sf: "shownApps (filter (\<lambda>c. c \<noteq> Separator) b) = shownApps b" for b
    unfolding shownApps_def filter_filter by (metis (no_types, lifting) f filter_cong filter_filter)
  have si: "shownApps (insertChild Separator p b) = shownApps b" for p b
    unfolding shownApps_def insertChild_def by (simp add: isAnimatingOut_def) (metis append_take_drop_id appChildren_append filter_append map_append)
  have sa: "shownApps (b @ [Separator]) = shownApps b" for b by (simp add: shownApps_def)
  show "Separator \<in> set (updateSeparator nFav n box) \<longleftrightarrow> 0 < nFav \<and> nFav < n"
    "appChildren (updateSeparator nFav n box) = appChildren box"
    "shownApps (updateSeparator nFav n box) = shownApps box"
    "c \<noteq> Separator \<Longrightarrow> c \<in> set (updateSeparator nFav n box) \<longleftrightarrow> c \<in> set box"
    by (auto simp: updateSeparator_def Let_def set_insertChild f i sf si sa)
qed

subsection \<open>The order of the icons\<close>

definition plainBox :: "(nat \<times> nat) list \<Rightarrow> dash_child list" where
  "plainBox children = map (\<lambda>c. DashItem (fst c) (snd c) False) children"

lemma plainBox_apps [simp]: "appChildren (plainBox children) = children"
  by (induction children) (simp_all add: plainBox_def)

lemma subseq_set: "subseq xs ys \<Longrightarrow> set xs \<subseteq> set ys"
  by (induction rule: list_emb.induct) auto

text \<open>When apps were only added, the loop never moves or removes one.\<close>

lemma subseq_not_moved:
  assumes "diff_inv new children i j A []" and sub: "subseq (drop j (map snd children)) (drop i new)" and i: "i < length new"
    and dn: "distinct new" and mem: "new ! i \<in> snd ` set children" and ne: "j < length children \<Longrightarrow> snd (children ! j) \<noteq> new ! i"
  shows False
proof -
  have new: "drop i new = new ! i # drop (Suc i) new" using i by (rule Cons_nth_drop_Suc [symmetric])
  have later: "new ! i \<notin> set (drop (Suc i) new)" using dn i by (metis distinct.simps(2) distinct_drop new)
  have "set (take i new) = fst ` set A \<union> snd ` set (take j children)"
    using assms(1) unfolding diff_inv_def by (metis (no_types, lifting) empty_iff empty_set filter_True image_set set_mset_mset set_mset_union)
  moreover have "new ! i \<notin> set (take i new)" using dn i by (auto simp: in_set_conv_nth nth_eq_iff_index_eq)
  ultimately have "new ! i \<notin> snd ` set (take j children)" by blast
  then have "new ! i \<in> snd ` set (drop j children)" using mem by (metis Un_iff append_take_drop_id image_Un set_append)
  then have "j < length children" "new ! i \<in> set (drop j (map snd children))" by (auto simp: drop_map not_le [symmetric])
  moreover have "subseq (drop j (map snd children)) (drop (Suc i) new)"
    using sub ne \<open>j < length children\<close> unfolding new
    by (simp add: Cons_nth_drop_Suc [symmetric])
  ultimately show False using later subseq_set by blast
qed

definition order_inv :: "nat \<Rightarrow> nat list \<Rightarrow> (nat \<times> nat) list \<Rightarrow> nat \<Rightarrow> nat \<Rightarrow> (nat \<times> nat) list \<Rightarrow> (nat \<times> nat) list \<Rightarrow> bool" where
  "order_inv k new children i j A R \<longleftrightarrow>
    (set new \<subseteq> snd ` set children \<or> R = [] \<and> subseq (drop j (map snd children)) (drop i new)) \<and>
    (\<exists>P. addItems k A (plainBox children) = P @ plainBox (drop j children) \<and> length P = i + length R \<and>
      (\<forall>c\<in>set (appChildren P). c \<in> set (take j children) \<or> k \<le> fst c) \<and>
      map snd (filter (\<lambda>c. fst c \<notin> fst ` set R) (appChildren P)) = take i new)"

lemma plainBox_drop: "j < length children \<Longrightarrow>
  plainBox (drop j children) = DashItem (fst (children ! j)) (snd (children ! j)) False # plainBox (drop (Suc j) children)"
  by (simp add: plainBox_def Cons_nth_drop_Suc [symmetric])

text \<open>An icon added at the end of what was treated so far.\<close>

lemma order_inv_add:
  assumes inv: "diff_inv new children i j A R" and P: "addItems k A (plainBox children) = P @ plainBox (drop j children)" "length P = i + length R"
      "\<forall>c\<in>set (appChildren P). c \<in> set (take j children) \<or> k \<le> fst c"
      "map snd (filter (\<lambda>c. fst c \<notin> fst ` set R) (appChildren P)) = take i new"
    and i: "i < length new" and nums: "\<forall>c\<in>set children. fst c < k"
    and sub: "set new \<subseteq> snd ` set children \<or> R = [] \<and> subseq (drop j (map snd children)) (drop (Suc i) new)"
  shows "order_inv k new children (Suc i) j (A @ [(new ! i, i + length R)]) R"
proof -
  have "set R \<subseteq> set children" using inv unfolding diff_inv_def by (metis filter_is_subset set_take_subset subset_trans)
  then have "k + length A \<notin> fst ` set R" using nums by fastforce
  moreover have "addItems k (A @ [(new ! i, i + length R)]) (plainBox children) =
      (P @ [DashItem (k + length A) (new ! i) False]) @ plainBox (drop j children)"
    using P(1,2) by (simp add: addItems_append insertChild_def)
  ultimately show ?thesis using P(2-4) i sub unfolding order_inv_def
    by (intro conjI exI [of _ "P @ [DashItem (k + length A) (new ! i) False]"]) (simp_all add: take_Suc_conv_app_nth)
qed

lemma dashDiff_order:
  assumes dn: "distinct new" and df: "distinct (map fst children)" and ds: "distinct (map snd children)"
    and nums: "\<forall>c\<in>set children. fst c < k"
    and sub: "set new \<subseteq> snd ` set children \<or> subseq (map snd children) new"
  shows "\<exists>A R. dashDiff new children 0 0 [] [] = Some (A, R) \<and> diff_inv new children (length new) (length children) A R \<and>
    order_inv k new children (length new) (length children) A R"
proof (rule dashDiff_rule [where I = "order_inv k new children"])
  show dc: "distinct children" using df by (rule distinct_map [THEN iffD1, THEN conjunct1])
  show "diff_inv new children 0 0 [] []" by (simp add: diff_inv_def)
  show "order_inv k new children 0 0 [] []" using sub by (simp add: order_inv_def)
  fix i j A R
  assume inv: "diff_inv new children i j A R" and ord: "order_inv k new children i j A R"
  obtain P where P: "addItems k A (plainBox children) = P @ plainBox (drop j children)" "length P = i + length R"
      "\<forall>c\<in>set (appChildren P). c \<in> set (take j children) \<or> k \<le> fst c"
      "map snd (filter (\<lambda>c. fst c \<notin> fst ` set R) (appChildren P)) = take i new"
    and sub': "set new \<subseteq> snd ` set children \<or> R = [] \<and> subseq (drop j (map snd children)) (drop i new)"
    using ord unfolding order_inv_def by blast
  have R: "R = filter (\<lambda>c. c \<in> set R) (take j children)" using inv by (simp add: diff_inv_def)
  have fresh: "fst (children ! j) \<notin> fst ` set (take j children)" if "j < length children"
  proof
    assume "fst (children ! j) \<in> fst ` set (take j children)"
    then obtain i' where "i' < j" "fst (children ! i') = fst (children ! j)" using that by (auto simp: in_set_conv_nth)
    then show False using nth_eq_iff_index_eq [OF df, of i' j] that by simp
  qed
  have step: "addItems k A (plainBox children) = (P @ [DashItem (fst (children ! j)) (snd (children ! j)) False]) @ plainBox (drop (Suc j) children)"
      "\<forall>c\<in>set (appChildren (P @ [DashItem (fst (children ! j)) (snd (children ! j)) False])). c \<in> set (take (Suc j) children) \<or> k \<le> fst c"
    if "j < length children"
    using P(1,3) that by (simp_all add: plainBox_drop take_Suc_conv_app_nth)
  {
    assume i: "i < length new" and j: "j < length children" and eq: "snd (children ! j) = new ! i"
    have "fst (children ! j) \<notin> fst ` set R" using fresh [OF j] R by (metis (no_types, lifting) filter_is_subset image_mono subsetD)
    then have "map snd (filter (\<lambda>c. fst c \<notin> fst ` set R) (appChildren (P @ [DashItem (fst (children ! j)) (snd (children ! j)) False]))) = take (Suc i) new"
      using P(4) i eq by (simp add: take_Suc_conv_app_nth)
    moreover have "set new \<subseteq> snd ` set children \<or> R = [] \<and> subseq (drop (Suc j) (map snd children)) (drop (Suc i) new)"
      using sub' i j eq by (auto simp: Cons_nth_drop_Suc [symmetric])
    moreover have "length (P @ [DashItem (fst (children ! j)) (snd (children ! j)) False]) = Suc i + length R" using P(2) by simp
    ultimately show "order_inv k new children (Suc i) (Suc j) A R"
      using step [OF j] unfolding order_inv_def by blast
  next
    assume j: "j < length children" and rem: "snd (children ! j) \<notin> set new \<or>
      (i < length new \<longrightarrow> new ! i \<in> snd ` set children \<and> new ! i \<noteq> snd (children ! j))"
    have all: "set new \<subseteq> snd ` set children"
    proof (rule ccontr)
      assume "\<not> set new \<subseteq> snd ` set children"
      then have s: "R = []" "subseq (drop j (map snd children)) (drop i new)" using sub' by blast+
      then have "snd (children ! j) \<in> set (drop i new)" using subseq_set [OF s(2)] j by (simp add: Cons_nth_drop_Suc [symmetric])
      then have "snd (children ! j) \<in> set new" "i < length new" by (auto dest: in_set_dropD simp: not_le [symmetric])
      then show False using subseq_not_moved [OF _ s(2) _ dn] inv rem s(1) by auto
    qed
    have "fst (children ! j) < k" using nums j by simp
    have "fst (children ! j) \<notin> fst ` set (appChildren P)"
    proof
      assume "fst (children ! j) \<in> fst ` set (appChildren P)"
      then obtain c where "c \<in> set (appChildren P)" "fst c = fst (children ! j)" by auto
      with P(3) \<open>fst (children ! j) < k\<close> have "c \<in> set (take j children)" by fastforce
      then show False using fresh [OF j] \<open>fst c = fst (children ! j)\<close> by (metis image_eqI)
    qed
    then have "filter (\<lambda>c. fst c \<notin> fst ` set (R @ [children ! j])) (appChildren P) = filter (\<lambda>c. fst c \<notin> fst ` set R) (appChildren P)"
    proof (intro filter_cong refl)
      fix x assume "x \<in> set (appChildren P)"
      then have "fst x \<noteq> fst (children ! j)" using \<open>fst (children ! j) \<notin> fst ` set (appChildren P)\<close> by (metis image_eqI)
      then show "fst x \<notin> fst ` set (R @ [children ! j]) \<longleftrightarrow> fst x \<notin> fst ` set R" by simp
    qed
    then have "map snd (filter (\<lambda>c. fst c \<notin> fst ` set (R @ [children ! j])) (appChildren (P @ [DashItem (fst (children ! j)) (snd (children ! j)) False]))) = take i new"
      using P(4) by simp
    moreover have "length (P @ [DashItem (fst (children ! j)) (snd (children ! j)) False]) = i + length (R @ [children ! j])" using P(2) by simp
    ultimately show "order_inv k new children i (Suc j) A (R @ [children ! j])"
      using step [OF j] all unfolding order_inv_def by blast
  next
    assume i: "i < length new" and nm: "new ! i \<notin> snd ` set children" and ne: "j < length children \<Longrightarrow> snd (children ! j) \<noteq> new ! i"
    have s: "R = []" "subseq (drop j (map snd children)) (drop i new)" using sub' nm i by (auto dest: nth_mem)
    have "subseq (drop j (map snd children)) (drop (Suc i) new)"
    proof (cases "j < length children")
      case True
      then show ?thesis using s(2) ne i by (simp add: Cons_nth_drop_Suc [symmetric])
    qed simp
    then show "order_inv k new children (Suc i) j (A @ [(new ! i, i)]) R"
      using order_inv_add [OF inv P i nums] s(1) by simp
  next
    assume i: "i < length new" and mem: "new ! i \<in> snd ` set children" and ne: "j < length children \<Longrightarrow> snd (children ! j) \<noteq> new ! i"
    have "set new \<subseteq> snd ` set children"
      using sub' subseq_not_moved [OF _ _ i dn mem ne] inv by blast
    then show "order_inv k new children (Suc i) j (A @ [(new ! i, i + length R)]) R"
      using order_inv_add [OF inv P i nums] by simp
  }
qed (use dn ds in simp_all)

subsection \<open>After a change\<close>

lemma removed_numbers:
  assumes "distinct (map fst children)" and "set R \<subseteq> set children" and "c \<in> set children"
  shows "fst c \<in> fst ` set R \<longleftrightarrow> c \<in> set R"
proof
  assume "fst c \<in> fst ` set R"
  then obtain r where "r \<in> set R" "fst r = fst c" by auto
  moreover have "inj_on fst (set children)" using assms(1) by (simp add: distinct_map)
  ultimately show "c \<in> set R" using assms(2,3) by (metis inj_onD subsetD)
qed simp

lemma adjustIconSize_box [simp]: "da_box (adjustIconSize e s) = da_box s" "da_nextItem (adjustIconSize e s) = da_nextItem s"
  by (auto simp: adjustIconSize_def Let_def split: option.split)

lemma shownApps_at_rest:
  assumes "\<And>n a out. DashItem n a out \<in> set box \<Longrightarrow> \<not> out"
  shows "shownApps box = map snd (appChildren box)"
  using shownApps_removed [OF assms, where R = "[]"] by simp

text \<open>The box after the icons were added and removed, before the separator.\<close>

definition changedBox :: "bool \<Rightarrow> nat \<Rightarrow> (nat \<times> nat) list \<Rightarrow> (nat \<times> nat) list \<Rightarrow> dash_child list \<Rightarrow> dash_child list" where
  "changedBox animate k A R box = fold (\<lambda>r. dashRemoveItem animate (fst r)) R (addItems k A box)"

lemma redisplay_Some:
  assumes "dashDiff newApps (appChildren (da_box s)) 0 0 [] [] = Some (A, R)"
    and inv: "diff_inv newApps (appChildren (da_box s)) (length newApps) (length (appChildren (da_box s))) A R"
  shows "\<exists>s'. redisplay e animate nFav newApps s = Some s' \<and>
    da_box s' = updateSeparator nFav (length newApps) (changedBox animate (da_nextItem s) A R (da_box s)) \<and>
    da_nextItem s' = da_nextItem s + length A"
proof -
  let ?ch = "appChildren (da_box s)"
  have "length newApps = length A + length (filter (\<lambda>c. c \<notin> set R) ?ch)"
    using inv unfolding diff_inv_def by (metis length_map size_mset size_union take_all order_refl)
  moreover have "length R = length (filter (\<lambda>c. c \<in> set R) ?ch)" using inv by (metis diff_inv_def order_refl take_all)
  ultimately have n: "length ?ch + length A - length R = length newApps"
    using sum_length_filter_compl [of "\<lambda>c. c \<in> set R" ?ch] by linarith
  show ?thesis using assms(1) by (simp add: redisplay_def Let_def changedBox_def n)
qed

lemma changedBox_spec:
  assumes set: "settled s" and inv: "diff_inv newApps (appChildren (da_box s)) (length newApps) (length (appChildren (da_box s))) A R"
  shows "mset (shownApps (changedBox animate (da_nextItem s) A R (da_box s))) = mset newApps"
    and "distinct newApps \<Longrightarrow> settled (s'\<lparr>da_box := changedBox False (da_nextItem s) A R (da_box s), da_nextItem := da_nextItem s + length A\<rparr>)"
proof -
  let ?k = "da_nextItem s" and ?ch = "appChildren (da_box s)"
  define box1 where "box1 = addItems ?k A (da_box s)"
  have items: "DashItem n a out \<in> set box1 \<Longrightarrow> \<not> out \<and> n < ?k + length A" for n a out
    using set set_addItems [of "DashItem n a out" ?k A "da_box s"] unfolding box1_def settled_def by fastforce
  have nums: "\<forall>c\<in>set ?ch. fst c < ?k"
  proof
    fix c assume "c \<in> set ?ch"
    then obtain out where "DashItem (fst c) (snd c) out \<in> set (da_box s)"
      by (induction "da_box s") (auto simp: appChildren_def elim!: childApp.elims)
    then show "fst c < ?k" using set by (auto simp: settled_def)
  qed
  have R: "set R \<subseteq> set ?ch" using inv unfolding diff_inv_def by (metis filter_is_subset order_refl take_all)
  have m1: "mset (appChildren box1) = mset (zip [?k..<?k + length A] (map fst A)) + mset ?ch"
    unfolding box1_def by (rule mset_addItems)
  have "filter (\<lambda>c. fst c \<notin> fst ` set R) (zip [?k..<?k + length A] (map fst A)) = zip [?k..<?k + length A] (map fst A)"
    using R nums by (intro filter_True ballI) (fastforce dest: set_zip_leftD)
  moreover have "filter (\<lambda>c. fst c \<notin> fst ` set R) ?ch = filter (\<lambda>c. c \<notin> set R) ?ch"
    using removed_numbers [OF _ R] set by (intro filter_cong refl) (simp add: settled_def)
  ultimately have kept: "mset (filter (\<lambda>c. fst c \<notin> fst ` set R) (appChildren box1)) =
      mset (zip [?k..<?k + length A] (map fst A)) + mset (filter (\<lambda>c. c \<notin> set R) ?ch)"
    unfolding mset_filter m1 by (metis filter_union_mset mset_filter)
  have shown: "shownApps (changedBox an ?k A R (da_box s)) = map snd (filter (\<lambda>c. fst c \<notin> fst ` set R) (appChildren box1))" for an
    unfolding changedBox_def box1_def [symmetric] by (rule shownApps_removed) (use items in blast)
  have "mset (map snd (filter (\<lambda>c. fst c \<notin> fst ` set R) (appChildren box1))) = mset (map fst A) + mset (map snd (filter (\<lambda>c. c \<notin> set R) ?ch))"
    unfolding mset_map [of snd "filter (\<lambda>c. fst c \<notin> fst ` set R) (appChildren box1)"] kept image_mset_union
    by (simp only: mset_map [symmetric] map_snd_zip length_upt length_map diff_add_inverse)
  then have "mset (map snd (filter (\<lambda>c. fst c \<notin> fst ` set R) (appChildren box1))) = mset newApps"
    using inv by (simp add: diff_inv_def)
  then show *: "mset (shownApps (changedBox animate ?k A R (da_box s))) = mset newApps" for animate by (simp add: shown)
  assume dn: "distinct newApps"
  have box2: "changedBox False ?k A R (da_box s) = filter (\<lambda>c. \<forall>r\<in>set R. \<not> isItem (fst r) c) box1"
    by (simp add: changedBox_def removeItems box1_def)
  then have items2: "DashItem n a out \<in> set (changedBox False ?k A R (da_box s)) \<Longrightarrow> \<not> out \<and> n < ?k + length A" for n a out
    using items by auto
  then have sn: "shownApps (changedBox False ?k A R (da_box s)) = map snd (appChildren (changedBox False ?k A R (da_box s)))"
    by (intro shownApps_at_rest) blast
  have "distinct (map snd (appChildren (changedBox False ?k A R (da_box s))))"
    using * [of False] dn unfolding sn by (metis mset_eq_imp_distinct_iff)
  moreover have "appChildren (changedBox False ?k A R (da_box s)) = filter (\<lambda>c. fst c \<notin> fst ` set R) (appChildren box1)"
    unfolding box2 by (rule appChildren_filter) (auto simp: isItem_def image_iff split: option.split)
  moreover have "distinct (map fst (appChildren box1))"
  proof -
    have "mset (map fst (appChildren box1)) = mset ([?k..<?k + length A] @ map fst ?ch)"
      unfolding mset_map [of fst "appChildren box1"] m1 image_mset_union
      by (simp only: mset_map [symmetric] map_fst_zip length_upt length_map diff_add_inverse mset_append)
    moreover have "distinct ([?k..<?k + length A] @ map fst ?ch)" using set nums by (auto simp: settled_def)
    ultimately show ?thesis by (metis mset_eq_imp_distinct_iff)
  qed
  ultimately show "settled (s'\<lparr>da_box := changedBox False ?k A R (da_box s), da_nextItem := ?k + length A\<rparr>)"
    using items2 by (auto simp: settled_def intro: distinct_map_filter)
qed

lemma settled_cong: "settled s \<Longrightarrow> appChildren (da_box t) = appChildren (da_box s) \<Longrightarrow> da_nextItem t = da_nextItem s \<Longrightarrow>
  (\<And>n a out. DashItem n a out \<in> set (da_box t) \<longleftrightarrow> DashItem n a out \<in> set (da_box s)) \<Longrightarrow> settled t"
  unfolding settled_def by (metis (no_types))

lemma redisplay_spec:
  assumes set: "settled s" and dn: "distinct newApps"
  shows "\<exists>s'. redisplay e animate nFav newApps s = Some s' \<and> mset (shownApps (da_box s')) = mset newApps \<and>
    (Separator \<in> set (da_box s') \<longleftrightarrow> 0 < nFav \<and> nFav < length newApps) \<and> (\<not> animate \<longrightarrow> settled s')"
proof -
  let ?ch = "appChildren (da_box s)"
  have ch: "distinct (map fst ?ch)" "distinct (map snd ?ch)" using set by (simp_all add: settled_def)
  have "\<exists>A R. dashDiff newApps ?ch 0 0 [] [] = Some (A, R) \<and> diff_inv newApps ?ch (length newApps) (length ?ch) A R \<and> True"
    using dn ch by (intro dashDiff_rule [where I = "\<lambda>i j A R. True"]) (auto simp: diff_inv_def distinct_map)
  then obtain A R where d: "dashDiff newApps ?ch 0 0 [] [] = Some (A, R)" "diff_inv newApps ?ch (length newApps) (length ?ch) A R" by blast
  define b where "b an = changedBox an (da_nextItem s) A R (da_box s)" for an
  obtain s' where s': "redisplay e animate nFav newApps s = Some s'" "da_box s' = updateSeparator nFav (length newApps) (b animate)"
      "da_nextItem s' = da_nextItem s + length A"
    using redisplay_Some [OF d] unfolding b_def by blast
  have shown: "mset (shownApps (b an)) = mset newApps" for an unfolding b_def by (rule changedBox_spec(1) [OF set d(2)])
  have "settled (s\<lparr>da_box := b False, da_nextItem := da_nextItem s + length A\<rparr>)" unfolding b_def by (rule changedBox_spec(2) [OF set d(2) dn])
  then have "\<not> animate \<Longrightarrow> settled s'"
    by (rule settled_cong) (simp_all add: s' updateSeparator_spec)
  with s' show ?thesis by (auto simp: updateSeparator_spec shown)
qed

text \<open>C33: The dash follows the apps: from icons at rest, an update never throws, shows exactly the apps it should, each once, and has the
  separator when there are both favorites and others; without animations the icons are at rest again.
\<close>

theorem dash_shows_the_apps:
  assumes "settled s" and "distinct newApps"
  shows "\<exists>s'. redisplay e animate nFav newApps s = Some s' \<and> mset (shownApps (da_box s')) = mset newApps \<and>
    (Separator \<in> set (da_box s') \<longleftrightarrow> 0 < nFav \<and> nFav < length newApps) \<and> (animate \<or> settled s')"
  using redisplay_spec [OF assms, of e animate nFav] by blast

subsection \<open>The order\<close>

lemma plainBox_of: "(\<And>c. c \<in> set box \<Longrightarrow> \<exists>n a. c = DashItem n a False) \<Longrightarrow> box = plainBox (appChildren box)"
proof (induction box)
  case (Cons c box)
  obtain n a where "c = DashItem n a False" using Cons.prems [of c] by auto
  moreover have "box = plainBox (appChildren box)" by (rule Cons.IH) (use Cons.prems in auto)
  ultimately show ?case by (simp add: plainBox_def)
qed (simp add: plainBox_def)

lemma separatorPos_none: "(\<And>c. c \<in> set cs \<Longrightarrow> \<not> isAnimatingOut c) \<Longrightarrow> separatorPos n cs i p = p"
  by (induction cs arbitrary: i) (auto simp: Let_def)

lemma redisplay_order:
  assumes set: "settled s" and dn: "distinct newApps" and plain: "\<And>c. c \<in> set (da_box s) \<Longrightarrow> childApp c \<noteq> None"
    and sub: "set newApps \<subseteq> set (shownApps (da_box s)) \<or> subseq (shownApps (da_box s)) newApps"
  shows "\<exists>s'. redisplay e animate nFav newApps s = Some s' \<and> shownApps (da_box s') = newApps \<and>
    (\<not> animate \<longrightarrow> 0 < nFav \<longrightarrow> nFav < length newApps \<longrightarrow> shownApps (takeWhile (\<lambda>c. c \<noteq> Separator) (da_box s')) = take nFav newApps)"
proof -
  let ?ch = "appChildren (da_box s)" and ?k = "da_nextItem s"
  have items: "\<exists>n a. c = DashItem n a False \<and> n < ?k" if "c \<in> set (da_box s)" for c
    using plain [OF that] that set by (cases c) (auto simp: settled_def)
  then have box: "da_box s = plainBox ?ch" by (intro plainBox_of) blast
  have rest: "shownApps (da_box s) = map snd ?ch" by (rule shownApps_at_rest) (use items in force)
  have ch: "distinct (map fst ?ch)" "distinct (map snd ?ch)" using set by (simp_all add: settled_def)
  have nums: "\<forall>c\<in>set ?ch. fst c < ?k"
  proof
    fix c assume "c \<in> set ?ch"
    then have "DashItem (fst c) (snd c) False \<in> set (da_box s)" by (subst box) (simp add: plainBox_def)
    then show "fst c < ?k" using items by auto
  qed
  obtain A R where d: "dashDiff newApps ?ch 0 0 [] [] = Some (A, R)" "diff_inv newApps ?ch (length newApps) (length ?ch) A R"
    and ord: "order_inv ?k newApps ?ch (length newApps) (length ?ch) A R"
    using dashDiff_order [OF dn ch nums] sub rest by (metis list.set_map)
  then have kept: "map snd (filter (\<lambda>c. fst c \<notin> fst ` set R) (appChildren (addItems ?k A (da_box s)))) = newApps"
    unfolding order_inv_def by (subst box) (auto simp: plainBox_def)
  have items1: "DashItem n a out \<in> set (addItems ?k A (da_box s)) \<Longrightarrow> \<not> out" for n a out
    using set_addItems [of "DashItem n a out" ?k A "da_box s"] items by auto
  define b where "b an = changedBox an ?k A R (da_box s)" for an
  have shown: "shownApps (b an) = newApps" for an
    unfolding b_def changedBox_def kept [symmetric] by (rule shownApps_removed) (use items1 in blast)
  obtain s' where s': "redisplay e animate nFav newApps s = Some s'" "da_box s' = updateSeparator nFav (length newApps) (b animate)"
    using redisplay_Some [OF d] unfolding b_def by blast
  have "shownApps (takeWhile (\<lambda>c. c \<noteq> Separator) (da_box s')) = take nFav newApps" if "\<not> animate" "0 < nFav" "nFav < length newApps"
  proof -
    have sub: "set (b False) \<subseteq> set (addItems ?k A (da_box s))" by (auto simp: b_def changedBox_def removeItems)
    have bi: "\<exists>n a. c = DashItem n a False" if c: "c \<in> set (b False)" for c
      using set_addItems [of c ?k A "da_box s"] subsetD [OF sub c] items by blast
    then have nosep: "Separator \<notin> set (b False)" "Placeholder \<notin> set (b False)" by fastforce+
    have p: "b False = plainBox (appChildren (b False))" by (rule plainBox_of) (use bi in blast)
    have pos: "separatorPos nFav (b False @ [Separator]) 0 nFav = nFav"
      by (rule separatorPos_none) (use bi in \<open>fastforce simp: isAnimatingOut_def\<close>)
    have "filter (\<lambda>c. c \<noteq> Separator) (b False @ [Separator]) = b False" using nosep by (simp add: filter_id_conv) (metis nosep(1))
    then have "da_box s' = insertChild Separator nFav (b False)"
      using that nosep pos by (simp add: s'(2) updateSeparator_def Let_def)
    then have "takeWhile (\<lambda>c. c \<noteq> Separator) (da_box s') = take nFav (b False)"
      using nosep(1) by (auto simp: insertChild_def takeWhile_append dest: in_set_takeD)
    moreover have "shownApps (take nFav (b False)) = take nFav (shownApps (b False))"
    proof -
      have "shownApps (plainBox xs) = map snd xs" for xs by (induction xs) (simp_all add: plainBox_def shownApps_def isAnimatingOut_def)
      then show ?thesis by (metis p plainBox_def take_map)
    qed
    ultimately show ?thesis by (simp add: shown)
  qed
  then show ?thesis using s' by (auto simp: updateSeparator_spec shown)
qed

text \<open>When apps were only moved and removed, or only added, and there is nothing but icons in the dash, they come in the order of the apps,
  and the separator is after the favorites.
\<close>

theorem dash_keeps_the_order:
  assumes "settled s" and "distinct newApps" and "\<forall>c\<in>set (da_box s). childApp c \<noteq> None"
    and "set newApps \<subseteq> set (shownApps (da_box s)) \<or> subseq (shownApps (da_box s)) newApps"
  shows "\<exists>s'. redisplay e animate nFav newApps s = Some s' \<and> shownApps (da_box s') = newApps \<and>
    (\<not> animate \<longrightarrow> 0 < nFav \<longrightarrow> nFav < length newApps \<longrightarrow> shownApps (takeWhile (\<lambda>c. c \<noteq> Separator) (da_box s')) = take nFav newApps)"
  by (rule redisplay_order [OF assms(1,2) _ assms(4)]) (use assms(3) in blast)

subsection \<open>Where the order is not kept\<close>

text \<open>With the separator, an icon is inserted one place too early: two favorites, two running apps, and a third one is started.\<close>

definition exampleDash :: dash_state where
  "exampleDash = newDash\<lparr>da_box := [DashItem 0 1 False, Separator, DashItem 1 2 False, DashItem 2 3 False], da_nextItem := 3\<rparr>"

definition noSize :: size_env where
  "noSize = \<lparr>se_availWidth = None, se_availHeight = 0, se_spacing = 0, se_button = (0, 0), se_icon = (0, 0), se_scaleFactor = 1\<rparr>"

theorem separator_shifts_new_icon:
  "map_option (\<lambda>s. da_box s) (redisplay noSize False 1 [1, 2, 3, 4] exampleDash) =
    Some [DashItem 0 1 False, Separator, DashItem 1 2 False, DashItem 3 4 False, DashItem 2 3 False]"
  by (simp add: exampleDash_def newDash_def noSize_def redisplay_def Let_def dashDiff.simps nthOrNull_def insertChild_def adjustIconSize_def
      updateSeparator_def isAnimatingOut_def)

text \<open>An app that comes when another one goes: the place is counted without the icon that is still there.\<close>

theorem replaced_app_out_of_order:
  "map_option (\<lambda>s. shownApps (da_box s))
     (redisplay noSize False 0 [2, 3] (newDash\<lparr>da_box := [DashItem 0 1 False, DashItem 1 2 False], da_nextItem := 2\<rparr>)) = Some [3, 2]"
  by (simp add: newDash_def noSize_def redisplay_def Let_def dashDiff.simps nthOrNull_def insertChild_def adjustIconSize_def
      updateSeparator_def isAnimatingOut_def dashRemoveItem_def isItem_def shownApps_def)

text \<open>An icon that is leaving counts as there: the app that comes back meanwhile has none when the animation has ended.\<close>

theorem leaving_icon_not_replaced:
  "map_option (\<lambda>s. da_box (itemDestroyed 0 s))
     (redisplay noSize True 0 [1] (newDash\<lparr>da_box := [DashItem 0 1 True], da_nextItem := 1\<rparr>)) = Some []"
  by (simp add: newDash_def noSize_def redisplay_def Let_def dashDiff.simps nthOrNull_def adjustIconSize_def
      updateSeparator_def itemDestroyed_def dashRemoveItem_def isItem_def)

subsection \<open>Dropping an app\<close>

lemma dropFavPos_count:
  assumes "\<forall>c\<in>set ps. isFavorite (fe_getId env (snd c)) fav"
  shows "dropFavPos env fav i (length ps) (plainBox ps @ rest) = Some (length (filter (\<lambda>c. fe_getId env (snd c) \<noteq> i) ps))"
  using assms by (induction ps) (simp_all add: plainBox_def Let_def)

lemma spliceIn_at: "spliceIn (int (length xs)) x (xs @ ys) = xs @ x # ys"
  by (simp add: spliceIn_def js_clamp_index_def)

lemma isFavorite_iff: "isFavorite i fav \<longleftrightarrow> i \<in> set (getIds fav)"
  by (simp add: isFavorite_def has_getIds del: not_None_eq)

text \<open>The drop with the placeholder at its place among the favorites.\<close>

lemma drop_at_placeholder:
  assumes ok: "ids_ok env" "favorites_loaded env fav" and sh: "shown env i" and i: "i = fe_getId env app"
    and box: "da_box s = plainBox ps @ Placeholder # rest" "map (\<lambda>c. fe_getId env (snd c)) ps = take p (getIds fav)" "p \<le> length (getIds fav)"
    and pos: "da_placeholderPos s = int p" and env: "dr_writable e" "\<not> dr_windowBacked e app"
  shows "\<exists>act. dashAcceptDrop env e fav (Some app) s = Some (Some act) \<and>
    getIds (runDrop env act fav) = filter (\<lambda>j. j \<noteq> i) (take p (getIds fav)) @ i # filter (\<lambda>j. j \<noteq> i) (drop p (getIds fav))"
proof -
  let ?L = "filter (\<lambda>j. j \<noteq> i) (take p (getIds fav))" and ?R = "filter (\<lambda>j. j \<noteq> i) (drop p (getIds fav))"
  have len: "length ps = p" using box(2,3) by (metis length_map length_take min_absorb2)
  have "\<forall>c\<in>set ps. isFavorite (fe_getId env (snd c)) fav"
    unfolding isFavorite_iff using box(2) by (metis (no_types, lifting) image_eqI in_set_takeD list.set_map)
  then have "dropFavPos env fav i p (da_box s) = Some (length (filter (\<lambda>c. fe_getId env (snd c) \<noteq> i) ps))"
    unfolding box(1) len [symmetric] by (rule dropFavPos_count)
  moreover have "length (filter (\<lambda>c. fe_getId env (snd c) \<noteq> i) ps) = length ?L"
    unfolding box(2) [symmetric] by (simp add: filter_map comp_def)
  ultimately have drop: "dashAcceptDrop env e fav (Some app) s =
      Some (Some (if i \<in> set (getIds fav) then MoveFavorite i (length ?L) else AddFavorite i (length ?L)))"
    using env pos by (simp add: dashAcceptDrop_def i [symmetric] Let_def isFavorite_iff box(1))
  show ?thesis
  proof (cases "i \<in> set (getIds fav)")
    case True
    have "getIds (moveFavoriteToPos env i (int (length ?L)) fav) = spliceIn (int (length ?L)) i (filter (\<lambda>j. j \<noteq> i) (getIds fav))"
      using favorites_ops(2) [OF ok True] by simp
    also have "filter (\<lambda>j. j \<noteq> i) (getIds fav) = ?L @ ?R" by (metis append_take_drop_id filter_append)
    finally show ?thesis using drop True by (simp add: spliceIn_at)
  next
    case False
    then have L: "?L = take p (getIds fav)" "?R = drop p (getIds fav)"
      by (auto simp: filter_id_conv dest: in_set_takeD in_set_dropD)
    have "getIds (addFavoriteAtPos env i (int (length ?L)) fav) = spliceIn (int (length ?L)) i (getIds fav)"
      using favorites_ops(1) [OF ok False sh] by simp
    also have "\<dots> = ?L @ i # ?R" unfolding L using spliceIn_at [of "take p (getIds fav)" i "drop p (getIds fav)"] by simp
    finally show ?thesis using drop False by simp
  qed
qed

lemma dashDragOver_move:
  assumes "dashDragOver e fav (Some app) x s = (s', MoveDrop)" and "da_animatingPlaceholders s = 0" and "Placeholder \<notin> set (da_box s)"
  shows "dr_writable e \<and> \<not> dr_windowBacked e app \<and>
    s' = s\<lparr>da_placeholderPos := dragPos e x (da_box s) (length (getFavorites fav)),
      da_box := insertAtIndex Placeholder (dragPos e x (da_box s) (length (getFavorites fav))) (da_box s)\<rparr>"
proof -
  have "filter (\<lambda>c. c \<noteq> Placeholder) (da_box s) = da_box s" using assms(3) by (simp add: filter_id_conv) metis
  then show ?thesis using assms by (auto simp: dashDragOver_def Let_def split: if_splits)
qed

text \<open>C34: Dragging an app over the dash and dropping it there: a pinned app is moved, any other is pinned, to the place among the favorites where
  the placeholder was shown, and the others keep their order.
\<close>

theorem drop_lands_at_placeholder:
  assumes "ids_ok env" and "favorites_loaded env fav" and "shown env (fe_getId env app)"
    and "da_box s = plainBox fs @ rest" and "map (\<lambda>c. fe_getId env (snd c)) fs = getIds fav" and "Placeholder \<notin> set rest"
    and "da_animatingPlaceholders s = 0" and "dashDragOver e fav (Some app) x s = (s', MoveDrop)"
    and "p = dragPos e x (da_box s) (length (getFavorites fav))" and "0 \<le> p"
  shows "Placeholder = da_box s' ! nat p \<and> (\<exists>act. dashAcceptDrop env e fav (Some app) s' = Some (Some act) \<and>
    getIds (runDrop env act fav) = filter (\<lambda>j. j \<noteq> fe_getId env app) (take (nat p) (getIds fav)) @
      fe_getId env app # filter (\<lambda>j. j \<noteq> fe_getId env app) (drop (nat p) (getIds fav)))"
proof -
  have noph: "Placeholder \<notin> set (da_box s)" using assms(4,6) by (auto simp: plainBox_def)
  note over = dashDragOver_move [OF assms(8,7) noph, folded assms(9)]
  have "p \<le> int (length (getFavorites fav))" by (simp add: assms(9) dragPos_def Let_def)
  then have le: "nat p \<le> length (getIds fav)" by (simp add: getFavorites_def getIds_def)
  moreover have len: "length fs = length (getIds fav)" using assms(5) by (metis length_map)
  ultimately have box: "da_box s' = plainBox (take (nat p) fs) @ Placeholder # (plainBox (drop (nat p) fs) @ rest)"
    using over assms(4,10) by (simp add: insertAtIndex_def insertChild_def plainBox_def take_map drop_map)
  have "da_box s' ! nat p = Placeholder" unfolding box using le len by (simp add: nth_append plainBox_def)
  moreover have "\<exists>act. dashAcceptDrop env e fav (Some app) s' = Some (Some act) \<and>
      getIds (runDrop env act fav) = filter (\<lambda>j. j \<noteq> fe_getId env app) (take (nat p) (getIds fav)) @
        fe_getId env app # filter (\<lambda>j. j \<noteq> fe_getId env app) (drop (nat p) (getIds fav))"
    by (rule drop_at_placeholder [OF assms(1-3) refl box]) (use over assms(10) le in \<open>simp_all add: take_map assms(5) [symmetric]\<close>)
  ultimately show ?thesis by simp
qed

subsection \<open>Examples\<close>

lemma exampleDash_settled: "settled exampleDash"
  by (auto simp: settled_def exampleDash_def newDash_def)

theorem dash_shows_the_apps_witness:
  "\<exists>s'. redisplay noSize False 2 [4, 3, 1] exampleDash = Some s' \<and> mset (shownApps (da_box s')) = mset [4, 3, 1] \<and>
    Separator \<in> set (da_box s')"
  using dash_shows_the_apps [OF exampleDash_settled, of "[4, 3, 1]" noSize False 2] by auto

definition exampleIcons :: dash_state where
  "exampleIcons = newDash\<lparr>da_box := [DashItem 0 1 False, DashItem 1 2 False, DashItem 2 3 False], da_nextItem := 3\<rparr>"

theorem dash_keeps_the_order_witness:
  "\<exists>s'. redisplay noSize False 1 [3, 1] exampleIcons = Some s' \<and> shownApps (da_box s') = [3, 1] \<and>
    shownApps (takeWhile (\<lambda>c. c \<noteq> Separator) (da_box s')) = [3]"
  using dash_keeps_the_order [of exampleIcons "[3, 1]" noSize False 1]
  by (auto simp: settled_def exampleIcons_def newDash_def shownApps_def isAnimatingOut_def)

definition exampleDrag :: drag_env where
  "exampleDrag = \<lparr>dr_writable = True, dr_windowBacked = (\<lambda>a. False), dr_rtl = False, dr_boxWidth = 200,
    dr_placeholderWidth = 50, dr_separatorWidth = 10\<rparr>"

definition exampleFavoritesDash :: dash_state where
  "exampleFavoritesDash = newDash\<lparr>da_box := [DashItem 0 1 False, DashItem 1 2 False], da_nextItem := 2\<rparr>"

definition exampleFavorites :: app_favorites where
  "exampleFavorites = newAppFavorites exampleFavoritesEnv False [''a'', ''b'']"

lemma exampleFavorites_apps: "getIds exampleFavorites = [''a'', ''b'']" "getFavorites exampleFavorites = [1, 2]"
    "favorites_loaded exampleFavoritesEnv exampleFavorites"
proof -
  have v: "fv_favorites exampleFavorites = [(''a'', 1), (''b'', 2)]"
    by (simp add: exampleFavorites_def newAppFavorites_def reload_def visibleApps_def exampleFavoritesEnv_def)
  show "getIds exampleFavorites = [''a'', ''b'']" "getFavorites exampleFavorites = [1, 2]"
    by (simp_all add: v getIds_def getFavorites_def)
  then show "favorites_loaded exampleFavoritesEnv exampleFavorites"
    by (simp add: favorites_loaded_def exampleFavorites_def newAppFavorites_def reload_def Let_def firsts_def shown_def exampleFavoritesEnv_def)
qed

text \<open>The third app is dropped between the two favorites.\<close>

theorem drop_lands_at_placeholder_witness:
  "\<exists>act. dashAcceptDrop exampleFavoritesEnv exampleDrag exampleFavorites (Some 3)
      (fst (dashDragOver exampleDrag exampleFavorites (Some 3) 150 exampleFavoritesDash)) = Some (Some act) \<and>
    getIds (runDrop exampleFavoritesEnv act exampleFavorites) = [''a'', ''c'', ''b'']"
proof -
  let ?r = "dashDragOver exampleDrag exampleFavorites (Some 3) 150 exampleFavoritesDash"
  have pos: "dragPos exampleDrag 150 (da_box exampleFavoritesDash) (length (getFavorites exampleFavorites)) = 1"
    by (simp add: dragPos_def exampleDrag_def exampleFavoritesDash_def newDash_def exampleFavorites_apps)
  then have over: "?r = (fst ?r, MoveDrop)"
    by (simp add: dashDragOver_def Let_def exampleFavorites_apps) (simp add: exampleDrag_def exampleFavoritesDash_def newDash_def)
  have "fe_getId exampleFavoritesEnv 3 = ''c''" by (simp add: exampleFavoritesEnv_def)
  then show ?thesis
    using drop_lands_at_placeholder [OF exampleFavoritesEnv_ok exampleFavorites_apps(3) _ _ _ _ _ over pos [symmetric], where fs = "[(0, 1), (1, 2)]" and rest = "[]"]
    by (simp add: shown_def exampleFavoritesEnv_def exampleFavoritesDash_def newDash_def plainBox_def exampleFavorites_apps)
qed

end
