(* ===== verification/AreaSelector.thy ===== *)
theory AreaSelector
  imports Prelude
begin

section \<open>Selecting an area of the screen (\<open>js/ui/screenshot.js\<close>, \<open>UIAreaSelector\<close>)\<close>

text \<open>
  The rectangle of the screenshot dialog: dragged from scratch, moved, or resized by its corners and sides, with a mouse or
  a finger. \<open>start\<close> and \<open>last\<close> are two opposite corners, in pixels (\<open>int\<close>); while the selection is
  resized \<open>last\<close> is the corner under the pointer, and the cursor says which one that is. Coordinates of events are
  reals. The state includes the extent of the stage, the rectangle that the indicator shows, and the signals and grabs of drags.
\<close>

datatype cursor = NW_RESIZE | N_RESIZE | NE_RESIZE | W_RESIZE | E_RESIZE | SW_RESIZE | S_RESIZE | SE_RESIZE | MOVE | CROSSHAIR

datatype drag_button = Primary | Secondary | Touch

datatype drag_call = DragStarted | DragEnded | StageGrab | GrabDismiss

record area_selector =
  as_startX :: int
  as_startY :: int
  as_lastX :: int
  as_lastY :: int
  as_dragButton :: "drag_button option"
  as_dragSequence :: "nat option"      \<comment> \<open>the slot of the touch sequence, none for a mouse\<close>
  as_dragGrab :: bool
  as_dragCursor :: "cursor option"
  as_dragStartX :: real
  as_dragStartY :: real
  as_handleSize :: real
  as_width :: int
  as_height :: int
  as_scaleFactor :: int
  as_shown :: "int \<times> int \<times> int \<times> int"
  as_trace :: "drag_call list"

subsection \<open>Geometry\<close>

definition getGeometry :: "area_selector \<Rightarrow> int \<times> int \<times> int \<times> int" where
  "getGeometry s =
    (let leftX = min (as_startX s) (as_lastX s);
         topY = min (as_startY s) (as_lastY s);
         rightX = max (as_startX s) (as_lastX s);
         bottomY = max (as_startY s) (as_lastY s)
     in (leftX, topY, rightX - leftX + 1, bottomY - topY + 1))"

definition updateSelectionRect :: "area_selector \<Rightarrow> area_selector" where
  "updateSelectionRect s = s\<lparr>as_shown := getGeometry s\<rparr>"

definition computeCursorType :: "area_selector \<Rightarrow> real \<Rightarrow> real \<Rightarrow> cursor" where
  "computeCursorType s x y =
    (case getGeometry s of (gx, gy, width, height) \<Rightarrow>
      (let leftX = real_of_int gx; topY = real_of_int gy;
           rightX = real_of_int (gx + width - 1); bottomY = real_of_int (gy + height - 1);
           limit = (as_handleSize s / 2)^2;
           threshold = real_of_int (10 * as_scaleFactor s)
       in if (leftX - x)^2 + (topY - y)^2 \<le> limit then NW_RESIZE
          else if (rightX - x)^2 + (topY - y)^2 \<le> limit then NE_RESIZE
          else if (leftX - x)^2 + (bottomY - y)^2 \<le> limit then SW_RESIZE
          else if (rightX - x)^2 + (bottomY - y)^2 \<le> limit then SE_RESIZE
          else if leftX - x \<ge> 0 \<and> leftX - x \<le> threshold then
            (if topY - y \<ge> 0 \<and> topY - y \<le> threshold then NW_RESIZE
             else if y - bottomY \<ge> 0 \<and> y - bottomY \<le> threshold then SW_RESIZE
             else if topY - y < 0 \<and> y - bottomY < 0 then W_RESIZE else CROSSHAIR)
          else if x - rightX \<ge> 0 \<and> x - rightX \<le> threshold then
            (if topY - y \<ge> 0 \<and> topY - y \<le> threshold then NE_RESIZE
             else if y - bottomY \<ge> 0 \<and> y - bottomY \<le> threshold then SE_RESIZE
             else if topY - y < 0 \<and> y - bottomY < 0 then E_RESIZE else CROSSHAIR)
          else if leftX - x < 0 \<and> x - rightX < 0 then
            (if topY - y \<ge> 0 \<and> topY - y \<le> threshold then N_RESIZE
             else if y - bottomY \<ge> 0 \<and> y - bottomY \<le> threshold then S_RESIZE
             else if topY - y < 0 \<and> y - bottomY < 0 then MOVE else CROSSHAIR)
          else CROSSHAIR))"

subsection \<open>The end of a drag\<close>

text \<open>A click makes a selection around itself. The two lines for an axis give the new corners.\<close>

definition enlarge :: "int \<Rightarrow> int \<Rightarrow> int \<Rightarrow> int \<Rightarrow> int \<times> int" where
  "enlarge offset extent start fin =
    (let st = start - offset; la = fin + offset
     in if st < 0 then (0, la - st)
        else if la \<ge> extent then (st - (la - extent + 1), extent - 1)
        else (st, la))"

definition stopDrag :: "area_selector \<Rightarrow> area_selector" where
  "stopDrag s =
    (if as_dragButton s = None then s
     else (let s1 = (if as_dragGrab s then s\<lparr>as_dragGrab := False, as_trace := as_trace s @ [GrabDismiss]\<rparr> else s);
               s2 = s1\<lparr>as_dragButton := None, as_dragSequence := None\<rparr>;
               s3 = (if as_dragCursor s2 = Some CROSSHAIR \<and> as_lastX s2 = as_startX s2 \<and> as_lastY s2 = as_startY s2
                 then (let offset = 20 * as_scaleFactor s2;
                           (sx, lx) = enlarge offset (as_width s2) (as_startX s2) (as_lastX s2);
                           (sy, ly) = enlarge offset (as_height s2) (as_startY s2) (as_lastY s2)
                       in updateSelectionRect (s2\<lparr>as_startX := sx, as_lastX := lx, as_startY := sy, as_lastY := ly\<rparr>))
                 else s2)
           in s3\<lparr>as_trace := as_trace s3 @ [DragEnded]\<rparr>))"

text \<open>\<open>reset\<close> keeps a selection that is inside the stage; the argument is the primary monitor, if there is one.\<close>

definition as_reset :: "(int \<times> int \<times> int \<times> int) option \<Rightarrow> area_selector \<Rightarrow> area_selector" where
  "as_reset monitor s0 =
    (let s = stopDrag s0
     in case getGeometry s of (x, y, w, h) \<Rightarrow>
       if x < 0 \<or> y < 0 \<or> x + w > as_width s \<or> y + h > as_height s
       then updateSelectionRect (case monitor of
           None \<Rightarrow> s\<lparr>as_startX := -1, as_startY := 0, as_lastX := 0, as_lastY := 0\<rparr>
         | Some (mx, my, mw, mh) \<Rightarrow>
             s\<lparr>as_startX := mx + (mw * 3) div 8, as_startY := my + (mh * 3) div 8,
               as_lastX := mx + (mw * 5) div 8 - 1, as_lastY := my + (mh * 5) div 8 - 1\<rparr>)
       else s)"

definition newAreaSelector :: "real \<Rightarrow> int \<Rightarrow> int \<Rightarrow> int \<Rightarrow> (int \<times> int \<times> int \<times> int) option \<Rightarrow> area_selector" where
  "newAreaSelector handleSize scaleFactor width height monitor =
    as_reset monitor \<lparr>as_startX = -1, as_startY = 0, as_lastX = 0, as_lastY = 0, as_dragButton = None, as_dragSequence = None,
      as_dragGrab = False, as_dragCursor = None, as_dragStartX = 0, as_dragStartY = 0, as_handleSize = handleSize,
      as_width = width, as_height = height, as_scaleFactor = scaleFactor, as_shown = (-1, 0, 2, 1), as_trace = []\<rparr>"

subsection \<open>The start of a drag\<close>

definition resizesLeft :: "cursor \<Rightarrow> bool" where
  "resizesLeft c \<longleftrightarrow> c = NW_RESIZE \<or> c = W_RESIZE \<or> c = SW_RESIZE"

definition resizesRight :: "cursor \<Rightarrow> bool" where
  "resizesRight c \<longleftrightarrow> c = NE_RESIZE \<or> c = E_RESIZE \<or> c = SE_RESIZE"

definition resizesTop :: "cursor \<Rightarrow> bool" where
  "resizesTop c \<longleftrightarrow> c = NW_RESIZE \<or> c = N_RESIZE \<or> c = NE_RESIZE"

definition resizesBottom :: "cursor \<Rightarrow> bool" where
  "resizesBottom c \<longleftrightarrow> c = SW_RESIZE \<or> c = S_RESIZE \<or> c = SE_RESIZE"

text \<open>The corners when the selection is grabbed: for moving, \<open>start\<close> is the top left one; for resizing it is the one that stays.\<close>

definition grabCorners :: "cursor \<Rightarrow> area_selector \<Rightarrow> area_selector" where
  "grabCorners c s =
    (case getGeometry s of (leftX, topY, width, height) \<Rightarrow>
      (let rightX = leftX + width - 1; bottomY = topY + height - 1;
           s1 = (if c = MOVE then s\<lparr>as_startX := leftX, as_startY := topY, as_lastX := rightX, as_lastY := bottomY\<rparr> else s);
           s2 = (if resizesLeft c then s1\<lparr>as_startX := rightX, as_lastX := leftX\<rparr> else s1);
           s3 = (if resizesRight c then s2\<lparr>as_startX := leftX, as_lastX := rightX\<rparr> else s2);
           s4 = (if resizesTop c then s3\<lparr>as_startY := bottomY, as_lastY := topY\<rparr> else s3)
       in if resizesBottom c then s4\<lparr>as_startY := topY, as_lastY := bottomY\<rparr> else s4))"

definition as_onPress :: "real \<Rightarrow> real \<Rightarrow> bool \<Rightarrow> drag_button \<Rightarrow> nat option \<Rightarrow> area_selector \<Rightarrow> area_selector" where
  "as_onPress x y control button sequence s =
    (if as_dragButton s \<noteq> None then s
     else (let c = computeCursorType s x y;
               s1 = (if c = CROSSHAIR \<or> button = Secondary \<or> control
                 then updateSelectionRect (s\<lparr>as_dragButton := Some button, as_dragCursor := Some CROSSHAIR,
                   as_startX := \<lfloor>x\<rfloor>, as_lastX := \<lfloor>x\<rfloor>, as_startY := \<lfloor>y\<rfloor>, as_lastY := \<lfloor>y\<rfloor>\<rparr>)
                 else grabCorners c (s\<lparr>as_dragButton := Some button, as_dragCursor := Some c, as_dragStartX := x, as_dragStartY := y\<rparr>))
           in s1\<lparr>as_dragGrab := True, as_dragSequence := sequence, as_trace := as_trace s1 @ [StageGrab, DragStarted]\<rparr>))"

definition as_onRelease :: "drag_button \<Rightarrow> nat option \<Rightarrow> area_selector \<Rightarrow> area_selector" where
  "as_onRelease button sequence s =
    (if as_dragButton s \<noteq> Some button \<or> as_dragSequence s \<noteq> sequence then s else stopDrag s)"

subsection \<open>Motion\<close>

text \<open>\<open>Math.round\<close>.\<close>

definition js_round :: "real \<Rightarrow> int" where
  "js_round x = \<lfloor>x + 1 / 2\<rfloor>"

text \<open>Moving on one axis: the new corners, and by how much the start of the drag moves.\<close>

definition moveAxis :: "int \<Rightarrow> int \<Rightarrow> int \<Rightarrow> int \<Rightarrow> int \<Rightarrow> int \<times> int \<times> int" where
  "moveAxis extent selection start fin d =
    (let newStart = start + d; newLast = fin + d
     in if newStart < 0 then (0, 0 + (selection - 1), d + (0 - newStart))
        else if newLast > extent - 1 then ((extent - 1) - (selection - 1), extent - 1, d + ((extent - 1) - newLast))
        else (newStart, newLast, d))"

text \<open>Resizing on one axis: the moving side, and by how much the start of the drag moves.\<close>

definition resizeAxis :: "int \<Rightarrow> int \<Rightarrow> int \<Rightarrow> int \<times> int" where
  "resizeAxis extent fin d =
    (let l = fin + d
     in if l \<ge> extent then (extent - 1, d - (l - extent + 1))
        else if l < 0 then (0, d - l)
        else (l, d))"

fun flipX :: "bool \<Rightarrow> cursor \<Rightarrow> cursor" where
  "flipX beyond c =
    (if beyond then
       (if c = NW_RESIZE then NE_RESIZE else if c = SW_RESIZE then SE_RESIZE else if c = W_RESIZE then E_RESIZE else c)
     else
       (if c = NE_RESIZE then NW_RESIZE else if c = SE_RESIZE then SW_RESIZE else if c = E_RESIZE then W_RESIZE else c))"

fun flipY :: "bool \<Rightarrow> cursor \<Rightarrow> cursor" where
  "flipY beyond c =
    (if beyond then
       (if c = NW_RESIZE then SW_RESIZE else if c = NE_RESIZE then SE_RESIZE else if c = N_RESIZE then S_RESIZE else c)
     else
       (if c = SW_RESIZE then NW_RESIZE else if c = SE_RESIZE then NE_RESIZE else if c = S_RESIZE then N_RESIZE else c))"

definition dragNew :: "real \<Rightarrow> real \<Rightarrow> area_selector \<Rightarrow> area_selector" where
  "dragNew x y s = s\<lparr>as_lastX := \<lfloor>x\<rfloor>, as_lastY := \<lfloor>y\<rfloor>\<rparr>"

definition dragMove :: "real \<Rightarrow> real \<Rightarrow> area_selector \<Rightarrow> area_selector" where
  "dragMove x y s =
    (case getGeometry s of (_, _, selectionWidth, selectionHeight) \<Rightarrow>
     (case moveAxis (as_width s) selectionWidth (as_startX s) (as_lastX s) (js_round (x - as_dragStartX s)) of (sx, lx, dx) \<Rightarrow>
     (case moveAxis (as_height s) selectionHeight (as_startY s) (as_lastY s) (js_round (y - as_dragStartY s)) of (sy, ly, dy) \<Rightarrow>
       s\<lparr>as_startX := sx, as_startY := sy, as_lastX := lx, as_lastY := ly,
         as_dragStartX := as_dragStartX s + real_of_int dx, as_dragStartY := as_dragStartY s + real_of_int dy\<rparr>)))"

definition dragResize :: "cursor \<Rightarrow> real \<Rightarrow> real \<Rightarrow> area_selector \<Rightarrow> area_selector" where
  "dragResize c x y s =
    (let dx0 = js_round (x - as_dragStartX s); dy0 = js_round (y - as_dragStartY s);
         dy1 = (if c = W_RESIZE \<or> c = E_RESIZE then 0 else dy0);
         dx1 = (if c = N_RESIZE \<or> c = S_RESIZE then 0 else dx0);
         (lx, dx) = resizeAxis (as_width s) (as_lastX s) dx1;
         (ly, dy) = resizeAxis (as_height s) (as_lastY s) dy1;
         c1 = flipX (lx > as_startX s) c;
         c2 = flipY (ly > as_startY s) c1
     in s\<lparr>as_lastX := lx, as_lastY := ly, as_dragCursor := Some c2,
          as_dragStartX := as_dragStartX s + real_of_int dx, as_dragStartY := as_dragStartY s + real_of_int dy\<rparr>)"

definition dragTo :: "real \<Rightarrow> real \<Rightarrow> area_selector \<Rightarrow> area_selector" where
  "dragTo x y s = (case as_dragCursor s of Some CROSSHAIR \<Rightarrow> dragNew x y s | Some MOVE \<Rightarrow> dragMove x y s
    | Some c \<Rightarrow> dragResize c x y s | None \<Rightarrow> s)"

definition as_onMotion :: "real \<Rightarrow> real \<Rightarrow> nat option \<Rightarrow> area_selector \<Rightarrow> area_selector" where
  "as_onMotion x y sequence s =
    (if as_dragButton s = None \<or> sequence \<noteq> as_dragSequence s then s
     else updateSelectionRect (dragTo x y s))"

subsection \<open>Events\<close>

text \<open>
  The handlers of pointer and touch events. A mouse has no sequence; a touch event always has one. \<open>StyleChanged\<close> is the handler
  of the top left handle, \<open>Reset\<close> a call of the dialog when it is opened, with the stage and the monitor at that time.
\<close>

datatype area_event =
    ButtonPress real real bool drag_button
  | ButtonRelease drag_button
  | PointerMotion real real
  | TouchBegin real real bool nat
  | TouchEnd nat
  | TouchUpdate real real nat
  | StyleChanged real
  | StopDrag
  | Reset int int "(int \<times> int \<times> int \<times> int) option"

fun areaStep :: "area_event \<Rightarrow> area_selector \<Rightarrow> area_selector" where
  "areaStep (ButtonPress x y control b) s = (if b = Touch then s else as_onPress x y control b None s)"
| "areaStep (ButtonRelease b) s = (if b = Touch then s else as_onRelease b None s)"
| "areaStep (PointerMotion x y) s = as_onMotion x y None s"
| "areaStep (TouchBegin x y control n) s = as_onPress x y control Touch (Some n) s"
| "areaStep (TouchEnd n) s = as_onRelease Touch (Some n) s"
| "areaStep (TouchUpdate x y n) s = as_onMotion x y (Some n) s"
| "areaStep (StyleChanged extent) s = updateSelectionRect (s\<lparr>as_handleSize := extent\<rparr>)"
| "areaStep StopDrag s = stopDrag s"
| "areaStep (Reset w h monitor) s = as_reset monitor (s\<lparr>as_width := w, as_height := h\<rparr>)"

end
