(* ===== verification/AreaSelectorProps.thy ===== *)
theory AreaSelectorProps
  imports AreaSelector
begin

section \<open>The selection stays on the stage, and follows the pointer\<close>

subsection \<open>One axis\<close>

definition onAxis :: "int \<Rightarrow> int \<Rightarrow> bool" where
  "onAxis extent v \<longleftrightarrow> 0 \<le> v \<and> v < extent"

lemma enlarge_onAxis:
  assumes "onAxis extent v" and "0 \<le> offset" and "2 * offset < extent" and "enlarge offset extent v v = (st, la)"
  shows "onAxis extent st \<and> onAxis extent la"
  using assms by (auto simp: enlarge_def onAxis_def Let_def split: if_splits)

lemma js_round_diff: "js_round (x - (d + real_of_int k)) = js_round (x - d) - k"
proof -
  have "x - (d + real_of_int k) + 1 / 2 = x - d + 1 / 2 - real_of_int k" by simp
  then show ?thesis unfolding js_round_def by (simp only: floor_diff_of_int)
qed

lemma moveAxis_spec:
  assumes "onAxis extent start" and "onAxis extent fin" and "start \<le> fin" and "moveAxis extent (fin - start + 1) start fin d = (st, la, d')"
  shows "onAxis extent st \<and> onAxis extent la \<and> la - st = fin - start \<and> d' = st - start"
  using assms by (auto simp: moveAxis_def onAxis_def Let_def split: if_splits)

text \<open>Where a move ends depends only on the pointer: a second move takes the corner to where it alone would have taken it.\<close>

lemma moveAxis_twice:
  assumes "onAxis extent start" and "onAxis extent fin" and "start \<le> fin"
    and "moveAxis extent (fin - start + 1) start fin (js_round (x - d)) = (st, la, k)"
  shows "moveAxis extent (la - st + 1) st la (js_round (x' - (d + real_of_int k))) =
    (case moveAxis extent (fin - start + 1) start fin (js_round (x' - d)) of (st', la', k') \<Rightarrow> (st', la', k' - k))"
  using assms unfolding js_round_diff by (auto simp: moveAxis_def onAxis_def Let_def split: if_splits)

lemma resizeAxis_spec:
  assumes "0 < extent" and "resizeAxis extent fin d = (la, d')"
  shows "onAxis extent la \<and> d' = la - fin"
  using assms by (auto simp: resizeAxis_def onAxis_def Let_def split: if_splits)

lemma resizeAxis_twice:
  assumes "0 < extent" and "resizeAxis extent fin (js_round (x - d)) = (la, k)"
  shows "resizeAxis extent la (js_round (x' - (d + real_of_int k))) =
    (case resizeAxis extent fin (js_round (x' - d)) of (la', k') \<Rightarrow> (la', k' - k))"
  using assms unfolding js_round_diff by (auto simp: resizeAxis_def Let_def split: if_splits)

lemma resizeAxis_still: "onAxis extent fin \<Longrightarrow> resizeAxis extent fin 0 = (fin, 0)"
  by (simp add: resizeAxis_def onAxis_def)

subsection \<open>The invariant\<close>

definition inside :: "area_selector \<Rightarrow> bool" where
  "inside s \<longleftrightarrow> onAxis (as_width s) (as_startX s) \<and> onAxis (as_width s) (as_lastX s) \<and>
    onAxis (as_height s) (as_startY s) \<and> onAxis (as_height s) (as_lastY s)"

text \<open>A drag has a grab and a cursor; what is moved is held by its top left corner. Every drag that was started has ended, but for
  the present one.\<close>

definition drag_ok :: "area_selector \<Rightarrow> bool" where
  "drag_ok s \<longleftrightarrow> (as_dragGrab s \<longleftrightarrow> as_dragButton s \<noteq> None) \<and> (as_dragButton s \<noteq> None \<longrightarrow> as_dragCursor s \<noteq> None) \<and>
    (as_dragButton s \<noteq> None \<and> as_dragCursor s = Some MOVE \<longrightarrow> as_startX s \<le> as_lastX s \<and> as_startY s \<le> as_lastY s) \<and>
    filter (\<lambda>c. c = DragStarted \<or> c = DragEnded) (as_trace s) =
      concat (replicate (length (filter (\<lambda>c. c = DragEnded) (as_trace s))) [DragStarted, DragEnded]) @
      (if as_dragButton s = None then [] else [DragStarted])"

definition area_inv :: "area_selector \<Rightarrow> bool" where
  "area_inv s \<longleftrightarrow> inside s \<and> drag_ok s \<and> as_shown s = getGeometry s \<and> 0 < as_scaleFactor s \<and>
    40 * as_scaleFactor s < as_width s \<and> 40 * as_scaleFactor s < as_height s"

text \<open>Events come from the stage; a stage is larger than the selection of a click, and its primary monitor is on it.\<close>

definition onStage :: "area_selector \<Rightarrow> real \<Rightarrow> real \<Rightarrow> bool" where
  "onStage s x y \<longleftrightarrow> 0 \<le> x \<and> x < real_of_int (as_width s) \<and> 0 \<le> y \<and> y < real_of_int (as_height s)"

fun proper_event :: "area_selector \<Rightarrow> area_event \<Rightarrow> bool" where
  "proper_event s (ButtonPress x y control b) = onStage s x y"
| "proper_event s (PointerMotion x y) = onStage s x y"
| "proper_event s (TouchBegin x y control n) = onStage s x y"
| "proper_event s (TouchUpdate x y n) = onStage s x y"
| "proper_event s (Reset w h monitor) = (40 * as_scaleFactor s < w \<and> 40 * as_scaleFactor s < h \<and>
    (case monitor of None \<Rightarrow> False
     | Some (mx, my, mw, mh) \<Rightarrow> 0 \<le> mx \<and> 0 \<le> my \<and> 2 \<le> mw \<and> 2 \<le> mh \<and> mx + mw \<le> w \<and> my + mh \<le> h))"
| "proper_event s e = True"

lemma onAxis_floor: "0 \<le> x \<Longrightarrow> x < real_of_int extent \<Longrightarrow> onAxis extent \<lfloor>x\<rfloor>"
  by (simp add: onAxis_def floor_less_iff)

lemma getGeometry_cong:
  assumes "as_startX s' = as_startX s" "as_lastX s' = as_lastX s" "as_startY s' = as_startY s" "as_lastY s' = as_lastY s"
  shows "getGeometry s' = getGeometry s"
  using assms by (simp add: getGeometry_def)

lemma shown_update [simp]: "as_shown (updateSelectionRect s) = getGeometry (updateSelectionRect s)"
  by (simp add: updateSelectionRect_def getGeometry_def)

lemma update_inv [simp]:
  "inside (updateSelectionRect s) = inside s" "drag_ok (updateSelectionRect s) = drag_ok s"
  "as_width (updateSelectionRect s) = as_width s" "as_height (updateSelectionRect s) = as_height s"
  "as_scaleFactor (updateSelectionRect s) = as_scaleFactor s"
  by (simp_all add: inside_def drag_ok_def updateSelectionRect_def)

lemma onAxis_eighths:
  assumes "0 \<le> m" and "2 \<le> mw" and "m + mw \<le> w"
  shows "onAxis w (m + (mw * 3) div 8)" and "onAxis w (m + (mw * 5) div 8 - 1)"
  using assms unfolding onAxis_def by linarith+

lemma inside_geometry:
  assumes "getGeometry s = (x, y, w, h)"
  shows "inside s \<longleftrightarrow> 0 \<le> x \<and> 0 \<le> y \<and> x + w \<le> as_width s \<and> y + h \<le> as_height s"
proof -
  from assms have "x = min (as_startX s) (as_lastX s)" "y = min (as_startY s) (as_lastY s)"
      "x + w = max (as_startX s) (as_lastX s) + 1" "y + h = max (as_startY s) (as_lastY s) + 1"
    by (simp_all add: getGeometry_def Let_def)
  then show ?thesis by (simp add: inside_def onAxis_def) linarith
qed

text \<open>Grabbing the selection does not change it.\<close>

lemma grabCorners_geometry: "getGeometry (grabCorners c s) = getGeometry s"
  by (cases c) (auto simp: grabCorners_def getGeometry_def resizesLeft_def resizesRight_def resizesTop_def resizesBottom_def Let_def)

lemma grabCorners_fields:
  "as_width (grabCorners c s) = as_width s" "as_height (grabCorners c s) = as_height s" "as_trace (grabCorners c s) = as_trace s"
  "as_dragButton (grabCorners c s) = as_dragButton s" "as_dragCursor (grabCorners c s) = as_dragCursor s"
  "as_shown (grabCorners c s) = as_shown s" "as_scaleFactor (grabCorners c s) = as_scaleFactor s" "as_dragGrab (grabCorners c s) = as_dragGrab s"
  by (simp_all add: grabCorners_def Let_def split: prod.split)

lemma grabCorners_inside: "inside s \<Longrightarrow> inside (grabCorners c s)"
  by (cases c) (auto simp: inside_def onAxis_def grabCorners_def getGeometry_def resizesLeft_def resizesRight_def resizesTop_def resizesBottom_def Let_def)

lemma grabCorners_move: "c = MOVE \<Longrightarrow> as_startX (grabCorners c s) \<le> as_lastX (grabCorners c s) \<and> as_startY (grabCorners c s) \<le> as_lastY (grabCorners c s)"
  by (simp add: grabCorners_def getGeometry_def resizesLeft_def resizesRight_def resizesTop_def resizesBottom_def Let_def min_def max_def)

lemma onPress_inv:
  assumes inv: "area_inv s" and "onStage s x y"
  shows "area_inv (as_onPress x y control b q s)"
proof (cases "as_dragButton s")
  case None
  define c where "c = computeCursorType s x y"
  define s1 where "s1 = (if c = CROSSHAIR \<or> b = Secondary \<or> control
    then updateSelectionRect (s\<lparr>as_dragButton := Some b, as_dragCursor := Some CROSSHAIR,
      as_startX := \<lfloor>x\<rfloor>, as_lastX := \<lfloor>x\<rfloor>, as_startY := \<lfloor>y\<rfloor>, as_lastY := \<lfloor>y\<rfloor>\<rparr>)
    else grabCorners c (s\<lparr>as_dragButton := Some b, as_dragCursor := Some c, as_dragStartX := x, as_dragStartY := y\<rparr>))"
  have press: "as_onPress x y control b q s = s1\<lparr>as_dragGrab := True, as_dragSequence := q, as_trace := as_trace s1 @ [StageGrab, DragStarted]\<rparr>"
    using None by (simp add: as_onPress_def s1_def c_def Let_def)
  have inside: "inside s1"
  proof (cases "c = CROSSHAIR \<or> b = Secondary \<or> control")
    case True
    then show ?thesis using assms(2) by (auto simp: s1_def inside_def updateSelectionRect_def onStage_def intro!: onAxis_floor)
  next
    case False
    then show ?thesis using inv by (auto simp: s1_def area_inv_def inside_def intro!: grabCorners_inside [unfolded inside_def])
  qed
  have shown: "as_shown s1 = getGeometry s1"
  proof (cases "c = CROSSHAIR \<or> b = Secondary \<or> control")
    case False
    then show ?thesis using inv
      by (auto simp: s1_def grabCorners_geometry grabCorners_fields area_inv_def intro: getGeometry_cong)
  qed (simp add: s1_def)
  have fields: "as_width s1 = as_width s" "as_height s1 = as_height s" "as_scaleFactor s1 = as_scaleFactor s" "as_trace s1 = as_trace s"
      "as_dragButton s1 = Some b" "as_dragCursor s1 \<noteq> None"
      "as_dragCursor s1 = Some MOVE \<Longrightarrow> as_startX s1 \<le> as_lastX s1 \<and> as_startY s1 \<le> as_lastY s1"
    using grabCorners_move by (auto simp: s1_def updateSelectionRect_def grabCorners_fields)
  show ?thesis using inv None inside shown fields unfolding press
    by (auto simp: area_inv_def inside_def drag_ok_def getGeometry_def)
qed (use inv in \<open>simp add: as_onPress_def\<close>)

lemma stopDrag_spec:
  assumes ok: "drag_ok s" and sh: "as_shown s = getGeometry s"
  shows "drag_ok (stopDrag s)" and "as_shown (stopDrag s) = getGeometry (stopDrag s)" and "as_dragButton (stopDrag s) = None"
    and "as_width (stopDrag s) = as_width s" and "as_height (stopDrag s) = as_height s"
    and "as_scaleFactor (stopDrag s) = as_scaleFactor s"
    and "inside s \<Longrightarrow> 0 < as_scaleFactor s \<Longrightarrow> 40 * as_scaleFactor s < as_width s \<Longrightarrow> 40 * as_scaleFactor s < as_height s \<Longrightarrow> inside (stopDrag s)"
proof -
  have "drag_ok (stopDrag s) \<and> as_shown (stopDrag s) = getGeometry (stopDrag s) \<and> as_dragButton (stopDrag s) = None \<and>
      as_width (stopDrag s) = as_width s \<and> as_height (stopDrag s) = as_height s \<and> as_scaleFactor (stopDrag s) = as_scaleFactor s \<and>
      (inside s \<and> 0 < as_scaleFactor s \<and> 40 * as_scaleFactor s < as_width s \<and> 40 * as_scaleFactor s < as_height s \<longrightarrow> inside (stopDrag s))"
  proof (cases "as_dragButton s")
    case (Some b)
    define s2 where "s2 = s\<lparr>as_dragGrab := False, as_trace := as_trace s @ [GrabDismiss], as_dragButton := None, as_dragSequence := None\<rparr>"
    define offset where "offset = 20 * as_scaleFactor s"
    obtain sx lx where ex: "enlarge offset (as_width s) (as_startX s) (as_startX s) = (sx, lx)" by fastforce
    obtain sy ly where ey: "enlarge offset (as_height s) (as_startY s) (as_startY s) = (sy, ly)" by fastforce
    define s3 where "s3 = (if as_dragCursor s = Some CROSSHAIR \<and> as_lastX s = as_startX s \<and> as_lastY s = as_startY s
      then updateSelectionRect (s2\<lparr>as_startX := sx, as_lastX := lx, as_startY := sy, as_lastY := ly\<rparr>) else s2)"
    have stop: "stopDrag s = s3\<lparr>as_trace := as_trace s3 @ [DragEnded]\<rparr>"
      using Some ok ex ey unfolding stopDrag_def s3_def s2_def offset_def drag_ok_def Let_def by (simp split: if_splits)
    have inside: "inside s3" if "inside s" "0 \<le> offset" "2 * offset < as_width s" "2 * offset < as_height s"
      using that(1) enlarge_onAxis [OF _ that(2,3) ex] enlarge_onAxis [OF _ that(2,4) ey]
      by (auto simp: s3_def s2_def inside_def updateSelectionRect_def)
    have shown: "as_shown s3 = getGeometry s3"
      using sh by (auto simp: s3_def s2_def intro: getGeometry_cong)
    have fields: "as_width s3 = as_width s" "as_height s3 = as_height s" "as_scaleFactor s3 = as_scaleFactor s"
        "as_trace s3 = as_trace s @ [GrabDismiss]" "as_dragButton s3 = None" "\<not> as_dragGrab s3"
      by (simp_all add: s3_def s2_def updateSelectionRect_def)
    have tr: "concat (replicate n [DragStarted, DragEnded]) @ [DragStarted, DragEnded] = DragStarted # DragEnded # concat (replicate n [DragStarted, DragEnded])" for n
      by (induction n) auto
    have "drag_ok (stopDrag s)" using ok Some fields unfolding stop by (auto simp: drag_ok_def tr)
    moreover have "as_shown (stopDrag s) = getGeometry (stopDrag s)" using shown unfolding stop by (simp add: getGeometry_def)
    moreover have "inside (stopDrag s)" if "inside s" "0 < as_scaleFactor s" "40 * as_scaleFactor s < as_width s" "40 * as_scaleFactor s < as_height s"
      using inside that by (simp add: stop inside_def offset_def)
    ultimately show ?thesis using fields by (simp add: stop)
  qed (use ok sh in \<open>simp add: stopDrag_def\<close>)
  then show "drag_ok (stopDrag s)" and "as_shown (stopDrag s) = getGeometry (stopDrag s)" and "as_dragButton (stopDrag s) = None"
    and "as_width (stopDrag s) = as_width s" and "as_height (stopDrag s) = as_height s"
    and "as_scaleFactor (stopDrag s) = as_scaleFactor s"
    and "inside s \<Longrightarrow> 0 < as_scaleFactor s \<Longrightarrow> 40 * as_scaleFactor s < as_width s \<Longrightarrow> 40 * as_scaleFactor s < as_height s \<Longrightarrow> inside (stopDrag s)"
    by blast+
qed

lemma stopDrag_inv: "area_inv s \<Longrightarrow> area_inv (stopDrag s)"
  using stopDrag_spec [of s] by (simp add: area_inv_def)

lemma reset_inv:
  assumes ok: "drag_ok s0" "as_shown s0 = getGeometry s0" and scale: "0 < as_scaleFactor s0" and ev: "proper_event s0 (Reset w h monitor)"
  shows "area_inv (as_reset monitor (s0\<lparr>as_width := w, as_height := h\<rparr>))"
proof -
  define s where "s = stopDrag (s0\<lparr>as_width := w, as_height := h\<rparr>)"
  have "drag_ok (s0\<lparr>as_width := w, as_height := h\<rparr>)" using ok(1) by (simp add: drag_ok_def)
  moreover have "as_shown (s0\<lparr>as_width := w, as_height := h\<rparr>) = getGeometry (s0\<lparr>as_width := w, as_height := h\<rparr>)"
    using ok(2) by (simp add: getGeometry_def)
  ultimately have s: "drag_ok s" "as_shown s = getGeometry s" "as_dragButton s = None" "as_width s = w" "as_height s = h"
      "as_scaleFactor s = as_scaleFactor s0"
    unfolding s_def by (simp_all add: stopDrag_spec)
  obtain x y gw gh where g: "getGeometry s = (x, y, gw, gh)" by (cases "getGeometry s")
  obtain mx my mw mh where m: "monitor = Some (mx, my, mw, mh)" "0 \<le> mx" "0 \<le> my" "2 \<le> mw" "2 \<le> mh" "mx + mw \<le> w" "my + mh \<le> h"
    using ev by (auto split: option.splits)
  show ?thesis
  proof (cases "x < 0 \<or> y < 0 \<or> x + gw > w \<or> y + gh > h")
    case True
    then have "as_reset monitor (s0\<lparr>as_width := w, as_height := h\<rparr>) = updateSelectionRect
        (s\<lparr>as_startX := mx + (mw * 3) div 8, as_startY := my + (mh * 3) div 8,
           as_lastX := mx + (mw * 5) div 8 - 1, as_lastY := my + (mh * 5) div 8 - 1\<rparr>)"
      using g s m(1) by (simp add: as_reset_def s_def [symmetric] Let_def)
    moreover have "inside (s\<lparr>as_startX := mx + (mw * 3) div 8, as_startY := my + (mh * 3) div 8,
           as_lastX := mx + (mw * 5) div 8 - 1, as_lastY := my + (mh * 5) div 8 - 1\<rparr>)"
      using m s(4,5) onAxis_eighths by (simp add: inside_def)
    moreover have "drag_ok (s\<lparr>as_startX := mx + (mw * 3) div 8, as_startY := my + (mh * 3) div 8,
           as_lastX := mx + (mw * 5) div 8 - 1, as_lastY := my + (mh * 5) div 8 - 1\<rparr>)"
      using s(1,3) by (simp add: drag_ok_def)
    ultimately show ?thesis using s scale ev by (simp add: area_inv_def)
  next
    case False
    then have "as_reset monitor (s0\<lparr>as_width := w, as_height := h\<rparr>) = s"
      using g s by (simp add: as_reset_def s_def [symmetric] Let_def)
    moreover have "inside s" using False g s by (simp add: inside_geometry [OF g])
    ultimately show ?thesis using s scale ev by (simp add: area_inv_def)
  qed
qed

lemma dragResize_fields:
  "as_startX (dragResize c x y s) = as_startX s" "as_startY (dragResize c x y s) = as_startY s" "as_width (dragResize c x y s) = as_width s"
  "as_height (dragResize c x y s) = as_height s" "as_trace (dragResize c x y s) = as_trace s" "as_dragButton (dragResize c x y s) = as_dragButton s"
  "as_dragGrab (dragResize c x y s) = as_dragGrab s" "as_scaleFactor (dragResize c x y s) = as_scaleFactor s"
  "as_dragCursor (dragResize c x y s) \<noteq> None"
  "c \<noteq> MOVE \<Longrightarrow> as_dragCursor (dragResize c x y s) \<noteq> Some MOVE"
  by (auto simp: dragResize_def Let_def split: prod.splits)

lemma dragResize_cursor:
  assumes "as_dragCursor (dragResize c x y s) = Some c1" and "c \<noteq> MOVE" and "c \<noteq> CROSSHAIR"
  shows "c1 \<noteq> MOVE" and "c1 \<noteq> CROSSHAIR"
  using assms by (auto simp: dragResize_def Let_def split: prod.splits if_splits)

lemma dragSequence_same:
  "as_dragSequence (dragNew x y s) = as_dragSequence s" "as_dragSequence (dragMove x y s) = as_dragSequence s"
  "as_dragSequence (dragResize c x y s) = as_dragSequence s"
  by (simp_all add: dragNew_def dragMove_def dragResize_def Let_def split: prod.split)

lemma dragResize_inside: "inside s \<Longrightarrow> inside (dragResize c x y s)"
proof -
  assume inv: "inside s"
  then have pos: "0 < as_width s" "0 < as_height s" by (auto simp: inside_def onAxis_def)
  obtain lx dx where ex: "resizeAxis (as_width s) (as_lastX s) (if c = N_RESIZE \<or> c = S_RESIZE then 0 else js_round (x - as_dragStartX s)) = (lx, dx)" by fastforce
  obtain ly dy where ey: "resizeAxis (as_height s) (as_lastY s) (if c = W_RESIZE \<or> c = E_RESIZE then 0 else js_round (y - as_dragStartY s)) = (ly, dy)" by fastforce
  show ?thesis using inv resizeAxis_spec [OF pos(1) ex] resizeAxis_spec [OF pos(2) ey]
    by (simp add: dragResize_def Let_def ex ey inside_def)
qed

lemma dragMove_spec:
  assumes "inside s" and "as_startX s \<le> as_lastX s" and "as_startY s \<le> as_lastY s"
  shows "inside (dragMove x y s)" and "as_startX (dragMove x y s) \<le> as_lastX (dragMove x y s)"
    and "as_startY (dragMove x y s) \<le> as_lastY (dragMove x y s)"
    and "as_lastX (dragMove x y s) - as_startX (dragMove x y s) = as_lastX s - as_startX s"
    and "as_lastY (dragMove x y s) - as_startY (dragMove x y s) = as_lastY s - as_startY s"
proof -
  have g: "getGeometry s = (as_startX s, as_startY s, as_lastX s - as_startX s + 1, as_lastY s - as_startY s + 1)"
    using assms(2,3) by (simp add: getGeometry_def Let_def min_absorb1 max_absorb2)
  obtain sx lx dx where ex: "moveAxis (as_width s) (as_lastX s - as_startX s + 1) (as_startX s) (as_lastX s) (js_round (x - as_dragStartX s)) = (sx, lx, dx)"
    by (metis prod_cases3)
  obtain sy ly dy where ey: "moveAxis (as_height s) (as_lastY s - as_startY s + 1) (as_startY s) (as_lastY s) (js_round (y - as_dragStartY s)) = (sy, ly, dy)"
    by (metis prod_cases3)
  have 1: "onAxis (as_width s) sx \<and> onAxis (as_width s) lx \<and> lx - sx = as_lastX s - as_startX s \<and> dx = sx - as_startX s"
    using assms by (intro moveAxis_spec [OF _ _ _ ex]) (simp_all add: inside_def)
  have 2: "onAxis (as_height s) sy \<and> onAxis (as_height s) ly \<and> ly - sy = as_lastY s - as_startY s \<and> dy = sy - as_startY s"
    using assms by (intro moveAxis_spec [OF _ _ _ ey]) (simp_all add: inside_def)
  show "inside (dragMove x y s)" "as_startX (dragMove x y s) \<le> as_lastX (dragMove x y s)"
    "as_startY (dragMove x y s) \<le> as_lastY (dragMove x y s)"
    "as_lastX (dragMove x y s) - as_startX (dragMove x y s) = as_lastX s - as_startX s"
    "as_lastY (dragMove x y s) - as_startY (dragMove x y s) = as_lastY s - as_startY s"
    using 1 2 assms by (simp_all add: dragMove_def g ex ey inside_def)
qed

lemma dragMove_fields:
  "as_width (dragMove x y s) = as_width s" "as_height (dragMove x y s) = as_height s" "as_trace (dragMove x y s) = as_trace s"
  "as_dragButton (dragMove x y s) = as_dragButton s" "as_dragCursor (dragMove x y s) = as_dragCursor s" "as_dragGrab (dragMove x y s) = as_dragGrab s"
  "as_scaleFactor (dragMove x y s) = as_scaleFactor s"
  by (simp_all add: dragMove_def split: prod.splits)

lemma dragTo_cases:
  assumes "as_dragCursor s = Some c"
  obtains "c = CROSSHAIR" and "dragTo x y s = dragNew x y s"
    | "c = MOVE" and "dragTo x y s = dragMove x y s"
    | "c \<noteq> CROSSHAIR" and "c \<noteq> MOVE" and "dragTo x y s = dragResize c x y s"
  using assms by (cases c) (auto simp: dragTo_def)

lemma onMotion_inv:
  assumes inv: "area_inv s" and stage: "onStage s x y"
  shows "area_inv (as_onMotion x y q s)"
proof (cases "as_dragButton s = None \<or> q \<noteq> as_dragSequence s")
  case True
  with inv show ?thesis by (simp add: as_onMotion_def)
next
  case False
  then obtain c where c: "as_dragCursor s = Some c" using inv by (auto simp: area_inv_def drag_ok_def)
  have ins: "inside s" using inv by (simp add: area_inv_def)
  have "inside (dragTo x y s) \<and> drag_ok (dragTo x y s) \<and> as_scaleFactor (dragTo x y s) = as_scaleFactor s \<and>
      as_width (dragTo x y s) = as_width s \<and> as_height (dragTo x y s) = as_height s"
  proof (rule dragTo_cases [OF c, of x y])
    assume "c = CROSSHAIR" "dragTo x y s = dragNew x y s"
    then show ?thesis using inv stage c by (auto simp: dragNew_def area_inv_def inside_def drag_ok_def onStage_def intro!: onAxis_floor)
  next
    assume m: "c = MOVE" "dragTo x y s = dragMove x y s"
    then have "as_startX s \<le> as_lastX s" "as_startY s \<le> as_lastY s" using inv c False by (auto simp: area_inv_def drag_ok_def)
    from dragMove_spec(1-3) [OF ins this] m inv show ?thesis
      by (simp add: drag_ok_def dragMove_fields area_inv_def)
  next
    assume "c \<noteq> CROSSHAIR" "c \<noteq> MOVE" "dragTo x y s = dragResize c x y s"
    then show ?thesis using inv dragResize_inside [OF ins] by (simp add: drag_ok_def dragResize_fields area_inv_def)
  qed
  then have "area_inv (updateSelectionRect (dragTo x y s))"
    using inv by (simp add: area_inv_def)
  then show ?thesis unfolding as_onMotion_def if_not_P [OF False] .
qed

lemma areaStep_inv:
  assumes inv: "area_inv s" and ev: "proper_event s e"
  shows "area_inv (areaStep e s)"
proof (cases e)
  case (StyleChanged extent)
  then show ?thesis using inv
    by (simp add: area_inv_def inside_def drag_ok_def updateSelectionRect_def getGeometry_def)
next
  case (Reset w h monitor)
  then show ?thesis using inv ev reset_inv [of s w h monitor] by (simp add: area_inv_def)
qed (use inv ev in \<open>auto simp: as_onRelease_def intro: onPress_inv stopDrag_inv onMotion_inv\<close>)

subsection \<open>Reachable states\<close>

inductive area_reachable :: "area_selector \<Rightarrow> bool" where
  start: "0 < sf \<Longrightarrow> 40 * sf < w \<Longrightarrow> 40 * sf < h \<Longrightarrow> 0 \<le> mx \<Longrightarrow> 0 \<le> my \<Longrightarrow> 2 \<le> mw \<Longrightarrow> 2 \<le> mh \<Longrightarrow> mx + mw \<le> w \<Longrightarrow> my + mh \<le> h \<Longrightarrow>
    area_reachable (newAreaSelector handle sf w h (Some (mx, my, mw, mh)))"
| step: "area_reachable s \<Longrightarrow> proper_event s e \<Longrightarrow> area_reachable (areaStep e s)"

lemma area_reachable_inv:
  assumes "area_reachable s"
  shows "area_inv s"
  using assms
proof induction
  case (start sf w h mx my mw mh handle)
  define s0 where "s0 = \<lparr>as_startX = -1, as_startY = 0, as_lastX = 0, as_lastY = 0, as_dragButton = None, as_dragSequence = None,
      as_dragGrab = False, as_dragCursor = None, as_dragStartX = 0, as_dragStartY = 0, as_handleSize = handle,
      as_width = w, as_height = h, as_scaleFactor = sf, as_shown = (-1, 0, 2, 1), as_trace = []\<rparr>"
  have "area_inv (as_reset (Some (mx, my, mw, mh)) (s0\<lparr>as_width := w, as_height := h\<rparr>))"
    using start by (intro reset_inv) (simp_all add: s0_def drag_ok_def getGeometry_def)
  then show ?case by (simp add: newAreaSelector_def s0_def)
next
  case (step s e)
  then show ?case by (intro areaStep_inv)
qed

text \<open>C35: Whatever the user does, the selection is inside the stage, the indicator shows it, and there is a grab exactly while there
  is a drag; each drag that starts ends before the next.\<close>

theorem selection_inside_stage:
  assumes "area_reachable s"
  shows "(case getGeometry s of (x, y, w, h) \<Rightarrow> 0 \<le> x \<and> 0 \<le> y \<and> 1 \<le> w \<and> 1 \<le> h \<and> x + w \<le> as_width s \<and> y + h \<le> as_height s) \<and>
    as_shown s = getGeometry s \<and> (as_dragGrab s \<longleftrightarrow> as_dragButton s \<noteq> None) \<and>
    filter (\<lambda>c. c = DragStarted \<or> c = DragEnded) (as_trace s) =
      concat (replicate (length (filter (\<lambda>c. c = DragEnded) (as_trace s))) [DragStarted, DragEnded]) @
      (if as_dragButton s = None then [] else [DragStarted])"
proof -
  have inv: "inside s" "drag_ok s" "as_shown s = getGeometry s" using area_reachable_inv [OF assms] by (simp_all add: area_inv_def)
  have "case getGeometry s of (x, y, w, h) \<Rightarrow> 0 \<le> x \<and> 0 \<le> y \<and> 1 \<le> w \<and> 1 \<le> h \<and> x + w \<le> as_width s \<and> y + h \<le> as_height s"
    using inv(1) by (auto simp: inside_def onAxis_def getGeometry_def Let_def)
  with inv(2,3) show ?thesis unfolding drag_ok_def by blast
qed

subsection \<open>Only the last motion counts\<close>

lemma flip_twice: "flipX b (flipY a' (flipX b' c)) = flipY a' (flipX b c)" "flipY a (flipY a' c) = flipY a c"
  by (cases c; cases a; cases a'; cases b; cases b'; simp)+

text \<open>Two axes: where \<open>moveAxis\<close> and \<open>resizeAxis\<close> are called with the drag's start as it was moved along.\<close>

lemma dragMove_twice:
  assumes "inside s" and "as_startX s \<le> as_lastX s" and "as_startY s \<le> as_lastY s"
  shows "updateSelectionRect (dragMove x y (updateSelectionRect (dragMove x' y' s))) = updateSelectionRect (dragMove x y s)"
proof -
  have g: "getGeometry s = (as_startX s, as_startY s, as_lastX s - as_startX s + 1, as_lastY s - as_startY s + 1)"
    using assms(2,3) by (simp add: getGeometry_def Let_def min_absorb1 max_absorb2)
  define t where "t = updateSelectionRect (dragMove x' y' s)"
  obtain sx lx dx where ex: "moveAxis (as_width s) (as_lastX s - as_startX s + 1) (as_startX s) (as_lastX s) (js_round (x' - as_dragStartX s)) = (sx, lx, dx)"
    by (metis prod_cases3)
  obtain sy ly dy where ey: "moveAxis (as_height s) (as_lastY s - as_startY s + 1) (as_startY s) (as_lastY s) (js_round (y' - as_dragStartY s)) = (sy, ly, dy)"
    by (metis prod_cases3)
  obtain sx2 lx2 dx2 where ex2: "moveAxis (as_width s) (as_lastX s - as_startX s + 1) (as_startX s) (as_lastX s) (js_round (x - as_dragStartX s)) = (sx2, lx2, dx2)"
    by (metis prod_cases3)
  obtain sy2 ly2 dy2 where ey2: "moveAxis (as_height s) (as_lastY s - as_startY s + 1) (as_startY s) (as_lastY s) (js_round (y - as_dragStartY s)) = (sy2, ly2, dy2)"
    by (metis prod_cases3)
  have in1: "onAxis (as_width s) (as_startX s)" "onAxis (as_width s) (as_lastX s)" "onAxis (as_height s) (as_startY s)" "onAxis (as_height s) (as_lastY s)"
    using assms(1) by (simp_all add: inside_def)
  have le: "sx \<le> lx" "sy \<le> ly"
    using moveAxis_spec [OF in1(1,2) assms(2) ex] moveAxis_spec [OF in1(3,4) assms(3) ey] assms(2,3) by simp_all
  have m1: "dragMove x' y' s = s\<lparr>as_startX := sx, as_startY := sy, as_lastX := lx, as_lastY := ly,
      as_dragStartX := as_dragStartX s + real_of_int dx, as_dragStartY := as_dragStartY s + real_of_int dy\<rparr>"
    by (simp add: dragMove_def g ex ey)
  have gt: "getGeometry t = (sx, sy, lx - sx + 1, ly - sy + 1)"
    using le by (simp add: t_def m1 updateSelectionRect_def getGeometry_def Let_def min_absorb1 max_absorb2)
  have t: "t = s\<lparr>as_startX := sx, as_startY := sy, as_lastX := lx, as_lastY := ly, as_dragStartX := as_dragStartX s + real_of_int dx,
      as_dragStartY := as_dragStartY s + real_of_int dy, as_shown := (sx, sy, lx - sx + 1, ly - sy + 1)\<rparr>"
    using le by (simp add: t_def m1 updateSelectionRect_def getGeometry_def Let_def min_absorb1 max_absorb2)
  have tw: "moveAxis (as_width s) (lx - sx + 1) sx lx (js_round (x - (as_dragStartX s + real_of_int dx))) = (sx2, lx2, dx2 - dx)"
      "moveAxis (as_height s) (ly - sy + 1) sy ly (js_round (y - (as_dragStartY s + real_of_int dy))) = (sy2, ly2, dy2 - dy)"
    using moveAxis_twice [OF in1(1,2) assms(2) ex, of x] moveAxis_twice [OF in1(3,4) assms(3) ey, of y] ex2 ey2 by simp_all
  have "dragMove x y t = t\<lparr>as_startX := sx2, as_startY := sy2, as_lastX := lx2, as_lastY := ly2,
      as_dragStartX := as_dragStartX s + real_of_int dx2, as_dragStartY := as_dragStartY s + real_of_int dy2\<rparr>"
    unfolding dragMove_def gt by (simp add: t tw)
  moreover have "dragMove x y s = s\<lparr>as_startX := sx2, as_startY := sy2, as_lastX := lx2, as_lastY := ly2,
      as_dragStartX := as_dragStartX s + real_of_int dx2, as_dragStartY := as_dragStartY s + real_of_int dy2\<rparr>"
    by (simp add: dragMove_def g ex2 ey2)
  ultimately show ?thesis unfolding t_def [symmetric]
    by (simp add: t updateSelectionRect_def getGeometry_def)
qed

text \<open>A resize in terms of the two axes; \<open>hx\<close> and \<open>hy\<close> say which of them move.\<close>

lemma dragResize_eq:
  assumes "(e = N_RESIZE \<or> e = S_RESIZE) = (\<not> hx)" and "(e = W_RESIZE \<or> e = E_RESIZE) = (\<not> hy)"
    and "resizeAxis (as_width s) (as_lastX s) (if hx then js_round (u - as_dragStartX s) else 0) = (lx, dx)"
    and "resizeAxis (as_height s) (as_lastY s) (if hy then js_round (v - as_dragStartY s) else 0) = (ly, dy)"
  shows "dragResize e u v s = s\<lparr>as_lastX := lx, as_lastY := ly,
      as_dragCursor := Some (flipY (ly > as_startY s) (flipX (lx > as_startX s) e)),
      as_dragStartX := as_dragStartX s + real_of_int dx, as_dragStartY := as_dragStartY s + real_of_int dy\<rparr>"
proof -
  have "(if e = N_RESIZE \<or> e = S_RESIZE then 0 else js_round (u - as_dragStartX s)) = (if hx then js_round (u - as_dragStartX s) else 0)"
    "(if e = W_RESIZE \<or> e = E_RESIZE then 0 else js_round (v - as_dragStartY s)) = (if hy then js_round (v - as_dragStartY s) else 0)"
    using assms(1,2) by auto
  then show ?thesis unfolding dragResize_def Let_def by (simp only: assms(3,4) case_prod_conv)
qed

lemma dragResize_twice:
  assumes "inside s" and "c \<noteq> MOVE" and "c \<noteq> CROSSHAIR"
    and c1: "as_dragCursor (dragResize c x' y' s) = Some c1"
  shows "updateSelectionRect (dragResize c1 x y (updateSelectionRect (dragResize c x' y' s))) = updateSelectionRect (dragResize c x y s)"
proof -
  have pos: "0 < as_width s" "0 < as_height s" and on: "onAxis (as_width s) (as_lastX s)" "onAxis (as_height s) (as_lastY s)"
    using assms(1) by (auto simp: inside_def onAxis_def)
  define hx hy where "hx = (\<not> (c = N_RESIZE \<or> c = S_RESIZE))" and "hy = (\<not> (c = W_RESIZE \<or> c = E_RESIZE))"
  define RX RY where "RX u d l = resizeAxis (as_width s) l (if hx then js_round (u - d) else 0)"
    and "RY u d l = resizeAxis (as_height s) l (if hy then js_round (u - d) else 0)" for u d l
  obtain lx dx where ex: "RX x' (as_dragStartX s) (as_lastX s) = (lx, dx)" by fastforce
  obtain ly dy where ey: "RY y' (as_dragStartY s) (as_lastY s) = (ly, dy)" by fastforce
  obtain lx2 dx2 where ex2: "RX x (as_dragStartX s) (as_lastX s) = (lx2, dx2)" by fastforce
  obtain ly2 dy2 where ey2: "RY y (as_dragStartY s) (as_lastY s) = (ly2, dy2)" by fastforce
  have hc: "(c = N_RESIZE \<or> c = S_RESIZE) = (\<not> hx)" "(c = W_RESIZE \<or> c = E_RESIZE) = (\<not> hy)" by (simp_all add: hx_def hy_def)
  define C where "C e lx ly = flipY (ly > as_startY s) (flipX (lx > as_startX s) e)" for e lx ly
  note first = dragResize_eq [OF hc ex [unfolded RX_def] ey [unfolded RY_def], folded C_def]
  note alone = dragResize_eq [OF hc ex2 [unfolded RX_def] ey2 [unfolded RY_def], folded C_def]
  have twX: "RX x (as_dragStartX s + real_of_int dx) lx = (lx2, dx2 - dx)"
    using resizeAxis_twice [OF pos(1), of "as_lastX s" x' "as_dragStartX s" lx dx x] resizeAxis_still [OF on(1)] ex ex2
    by (cases hx) (auto simp: RX_def)
  have twY: "RY y (as_dragStartY s + real_of_int dy) ly = (ly2, dy2 - dy)"
    using resizeAxis_twice [OF pos(2), of "as_lastY s" y' "as_dragStartY s" ly dy y] resizeAxis_still [OF on(2)] ey ey2
    by (cases hy) (auto simp: RY_def)
  have c1': "c1 = C c lx ly" using c1 by (simp add: first)
  have kind: "(c1 = N_RESIZE \<or> c1 = S_RESIZE) = (\<not> hx)" "(c1 = W_RESIZE \<or> c1 = E_RESIZE) = (\<not> hy)"
    unfolding c1' C_def hx_def hy_def using assms(2,3) by (cases c; simp)+
  have CC: "flipY (ly2 > as_startY s) (flipX (lx2 > as_startX s) c1) = C c lx2 ly2"
    unfolding c1' C_def using assms(2,3) by (cases c; simp)
  define t where "t = updateSelectionRect (dragResize c x' y' s)"
  have t: "as_width t = as_width s" "as_height t = as_height s" "as_lastX t = lx" "as_lastY t = ly" "as_startX t = as_startX s"
      "as_startY t = as_startY s" "as_dragStartX t = as_dragStartX s + real_of_int dx" "as_dragStartY t = as_dragStartY s + real_of_int dy"
    by (simp_all add: t_def first updateSelectionRect_def)
  have second: "dragResize c1 x y t = t\<lparr>as_lastX := lx2, as_lastY := ly2, as_dragCursor := Some (C c lx2 ly2),
      as_dragStartX := as_dragStartX s + real_of_int dx + real_of_int (dx2 - dx),
      as_dragStartY := as_dragStartY s + real_of_int dy + real_of_int (dy2 - dy)\<rparr>"
  proof -
    have px: "resizeAxis (as_width t) (as_lastX t) (if hx then js_round (x - as_dragStartX t) else 0) = (lx2, dx2 - dx)"
      and py: "resizeAxis (as_height t) (as_lastY t) (if hy then js_round (y - as_dragStartY t) else 0) = (ly2, dy2 - dy)"
      using twX twY unfolding RX_def RY_def t .
    show ?thesis unfolding dragResize_eq [OF kind px py] unfolding t CC by (rule refl)
  qed
  show ?thesis unfolding t_def [symmetric] second alone
    by (simp add: t_def first updateSelectionRect_def getGeometry_def)
qed

lemma motion_twice:
  assumes inv: "area_inv s"
  shows "as_onMotion x y q (as_onMotion x' y' q s) = as_onMotion x y q s"
proof (cases "as_dragButton s = None \<or> q \<noteq> as_dragSequence s")
  case True
  then show ?thesis by (auto simp: as_onMotion_def)
next
  case False
  then obtain c where c: "as_dragCursor s = Some c" using inv by (auto simp: area_inv_def drag_ok_def)
  have ins: "inside s" using inv by (simp add: area_inv_def)
  have first: "as_onMotion u v q s = updateSelectionRect (dragTo u v s)" for u v
    unfolding as_onMotion_def if_not_P [OF False] by (rule refl)
  define t where "t = updateSelectionRect (dragTo x' y' s)"
  have F: "\<not> (as_dragButton t = None \<or> q \<noteq> as_dragSequence t)"
    using False unfolding t_def
    by - (rule dragTo_cases [OF c, of x' y'], auto simp: updateSelectionRect_def dragNew_def dragMove_fields dragResize_fields dragSequence_same)
  have "updateSelectionRect (dragTo x y t) = updateSelectionRect (dragTo x y s)"
  proof (rule dragTo_cases [OF c, of x' y'])
    assume "c = CROSSHAIR" "dragTo x' y' s = dragNew x' y' s"
    then show ?thesis using c by (simp add: t_def dragTo_def dragNew_def updateSelectionRect_def getGeometry_def)
  next
    assume m: "c = MOVE" "dragTo x' y' s = dragMove x' y' s"
    then have "as_startX s \<le> as_lastX s" "as_startY s \<le> as_lastY s" using inv c False by (auto simp: area_inv_def drag_ok_def)
    from dragMove_twice [OF ins this, of x y x' y'] m c show ?thesis
      by (simp add: t_def dragTo_def updateSelectionRect_def dragMove_fields)
  next
    assume r: "c \<noteq> CROSSHAIR" "c \<noteq> MOVE" "dragTo x' y' s = dragResize c x' y' s"
    obtain c1 where c1: "as_dragCursor (dragResize c x' y' s) = Some c1" using dragResize_fields(9) by blast
    have "as_dragCursor t = Some c1" by (simp add: t_def r(3) c1 updateSelectionRect_def)
    moreover have "c1 \<noteq> MOVE" "c1 \<noteq> CROSSHAIR" using c1 dragResize_cursor r by blast+
    ultimately have "dragTo x y t = dragResize c1 x y t" by (cases c1) (simp_all add: dragTo_def)
    moreover have "dragTo x y s = dragResize c x y s" using r c by (cases c) (simp_all add: dragTo_def)
    ultimately show ?thesis using dragResize_twice [OF ins r(2,1) c1, of x y] by (simp add: t_def r(3))
  qed
  then show ?thesis unfolding first t_def [symmetric] unfolding as_onMotion_def if_not_P [OF F] .
qed

lemma onMotion_size: "as_width (as_onMotion x y q s) = as_width s" "as_height (as_onMotion x y q s) = as_height s"
  by (auto simp: as_onMotion_def dragTo_def dragNew_def dragMove_fields dragResize_fields split: option.split cursor.split)

text \<open>C36: Dragging does not depend on the way: whatever positions a finger or the pointer went through before, also beyond what the
  edges of the stage allow, the selection, the cursor and the held point are where the last position alone would have taken them.\<close>

theorem drag_is_last_motion:
  assumes "area_reachable s" and "\<forall>p\<in>set ps. onStage s (fst p) (snd p)"
  shows "as_onMotion x y q (fold (\<lambda>p. as_onMotion (fst p) (snd p) q) ps s) = as_onMotion x y q s"
proof -
  let ?f = "\<lambda>ps. fold (\<lambda>p. as_onMotion (fst p) (snd p) q) ps s"
  have "area_inv (?f ps) \<and> as_width (?f ps) = as_width s \<and> as_height (?f ps) = as_height s \<and> as_onMotion x y q (?f ps) = as_onMotion x y q s"
    using assms(2)
  proof (induction ps rule: rev_induct)
    case Nil
    then show ?case using area_reachable_inv [OF assms(1)] by simp
  next
    case (snoc p ps)
    then have IH: "area_inv (?f ps)" "as_width (?f ps) = as_width s" "as_height (?f ps) = as_height s" "as_onMotion x y q (?f ps) = as_onMotion x y q s"
      by simp_all
    moreover have "onStage (?f ps) (fst p) (snd p)" using snoc.prems IH(2,3) by (simp add: onStage_def)
    ultimately show ?case using onMotion_inv motion_twice [OF IH(1)] by (simp add: onMotion_size)
  qed
  then show ?thesis by blast
qed

subsection \<open>Grabbing and moving\<close>

lemma dragMove_geometry:
  assumes "inside s" and "as_startX s \<le> as_lastX s" and "as_startY s \<le> as_lastY s"
  shows "snd (snd (getGeometry (dragMove x y s))) = snd (snd (getGeometry s))"
  using dragMove_spec [OF assms, of x y] assms(2,3) by (simp add: getGeometry_def Let_def min_absorb1 max_absorb2)

lemma onPress_grab:
  assumes "as_dragButton s = None" and "computeCursorType s x y = c" and "c \<noteq> CROSSHAIR" and "b \<noteq> Secondary"
  shows "getGeometry (as_onPress x y False b q s) = getGeometry s" and "as_dragCursor (as_onPress x y False b q s) = Some c"
    and "as_dragButton (as_onPress x y False b q s) = Some b" and "as_dragSequence (as_onPress x y False b q s) = q"
proof -
  define s1 where "s1 = grabCorners c (s\<lparr>as_dragButton := Some b, as_dragCursor := Some c, as_dragStartX := x, as_dragStartY := y\<rparr>)"
  have "as_onPress x y False b q s = s1\<lparr>as_dragGrab := True, as_dragSequence := q, as_trace := as_trace s1 @ [StageGrab, DragStarted]\<rparr>"
    using assms by (simp add: as_onPress_def s1_def Let_def)
  moreover have "getGeometry s1 = getGeometry s" unfolding s1_def grabCorners_geometry by (simp add: getGeometry_def)
  moreover have "as_dragCursor s1 = Some c" "as_dragButton s1 = Some b" by (simp_all add: s1_def grabCorners_fields)
  ultimately show "getGeometry (as_onPress x y False b q s) = getGeometry s" "as_dragCursor (as_onPress x y False b q s) = Some c"
    "as_dragButton (as_onPress x y False b q s) = Some b" "as_dragSequence (as_onPress x y False b q s) = q"
    by (simp_all add: getGeometry_def)
qed

text \<open>Grabbing a selection does not change it, neither does letting it go again, and moving it keeps its size.\<close>

theorem grab_keeps_selection:
  assumes "area_reachable s" and "as_dragButton s = None" and "computeCursorType s x y \<noteq> CROSSHAIR" and "b \<noteq> Secondary" and "onStage s x y"
  shows "getGeometry (as_onRelease b q (as_onPress x y False b q s)) = getGeometry s"
    and "computeCursorType s x y = MOVE \<Longrightarrow>
      snd (snd (getGeometry (as_onMotion x' y' q (as_onPress x y False b q s)))) = snd (snd (getGeometry s))"
proof -
  define s1 where "s1 = as_onPress x y False b q s"
  note press = onPress_grab [OF assms(2) refl assms(3,4), of q, folded s1_def]
  have inv: "area_inv s1" unfolding s1_def by (intro onPress_inv area_reachable_inv assms)
  have "as_onRelease b q s1 = stopDrag s1" using press(3,4) by (simp add: as_onRelease_def)
  moreover have "getGeometry (stopDrag s1) = getGeometry s1"
    using press(2,3) assms(3) by (simp add: stopDrag_def getGeometry_def Let_def)
  ultimately show "getGeometry (as_onRelease b q (as_onPress x y False b q s)) = getGeometry s"
    using press(1) by (simp add: s1_def)
  assume "computeCursorType s x y = MOVE"
  with press have m: "as_dragCursor s1 = Some MOVE" by simp
  then have "inside s1" "as_startX s1 \<le> as_lastX s1" "as_startY s1 \<le> as_lastY s1"
    using inv press(3) by (simp_all add: area_inv_def drag_ok_def)
  from dragMove_geometry [OF this, of x' y'] show "snd (snd (getGeometry (as_onMotion x' y' q (as_onPress x y False b q s)))) = snd (snd (getGeometry s))"
    using press m by (simp add: as_onMotion_def dragTo_def updateSelectionRect_def getGeometry_def flip: s1_def)
qed

subsection \<open>Examples\<close>

definition exampleArea :: area_selector where
  "exampleArea = areaStep (ButtonPress 500 400 False Primary) (newAreaSelector 16 1 1000 800 (Some (0, 0, 1000, 800)))"

lemma exampleArea_reachable: "area_reachable exampleArea"
  unfolding exampleArea_def
  by (intro area_reachable.intros)
    (simp_all add: onStage_def newAreaSelector_def as_reset_def stopDrag_def getGeometry_def updateSelectionRect_def Let_def)

theorem selection_inside_stage_witness:
  "(case getGeometry exampleArea of (x, y, w, h) \<Rightarrow> 0 \<le> x \<and> 0 \<le> y \<and> 1 \<le> w \<and> 1 \<le> h \<and> x + w \<le> as_width exampleArea \<and> y + h \<le> as_height exampleArea)"
  using selection_inside_stage [OF exampleArea_reachable] by simp

theorem drag_is_last_motion_witness:
  "as_dragCursor exampleArea = Some MOVE \<and>
   as_onMotion 510 390 None (fold (\<lambda>p. as_onMotion (fst p) (snd p) None) [(0, 0), (999, 799)] exampleArea) = as_onMotion 510 390 None exampleArea"
proof
  have c: "computeCursorType (newAreaSelector 16 1 1000 800 (Some (0, 0, 1000, 800))) 500 400 = MOVE"
    by (simp add: computeCursorType_def newAreaSelector_def as_reset_def stopDrag_def getGeometry_def updateSelectionRect_def Let_def)
  have "as_dragButton (newAreaSelector 16 1 1000 800 (Some (0, 0, 1000, 800))) = None"
    by (simp add: newAreaSelector_def as_reset_def stopDrag_def getGeometry_def updateSelectionRect_def Let_def)
  from onPress_grab(2) [OF this c] show "as_dragCursor exampleArea = Some MOVE" by (simp add: exampleArea_def)
  have "as_width exampleArea = 1000" "as_height exampleArea = 800"
    by (simp_all add: exampleArea_def as_onPress_def grabCorners_fields newAreaSelector_def as_reset_def stopDrag_def getGeometry_def updateSelectionRect_def Let_def)
  then show "as_onMotion 510 390 None (fold (\<lambda>p. as_onMotion (fst p) (snd p) None) [(0, 0), (999, 799)] exampleArea) = as_onMotion 510 390 None exampleArea"
    by (intro drag_is_last_motion [OF exampleArea_reachable]) (simp add: onStage_def)
qed

end
