(* ===== verification/JsUtil.thy ===== *)
theory JsUtil
  imports Prelude
begin

section \<open>Sorted insertion and the check of D-Bus senders (\<open>js/misc/util.js\<close>)\<close>

subsection \<open>\<open>lowerBound\<close> and \<open>insertSorted\<close>\<close>

text \<open>The binary search, with a comparator that gives a number. An index out of range is never read.\<close>

function lowerLoop :: "('a \<Rightarrow> 'k \<Rightarrow> int) \<Rightarrow> 'a list \<Rightarrow> 'k \<Rightarrow> nat \<Rightarrow> nat \<Rightarrow> nat \<times> nat" where
  "lowerLoop cmp arr val lo hi =
    (if lo + 1 < hi
     then (let mid = (lo + hi) div 2; v = cmp (arr ! mid) val
           in if v < 0 then lowerLoop cmp arr val (mid + 1) hi else lowerLoop cmp arr val lo mid)
     else (lo, hi))"
  by pat_completeness auto

termination by (relation "measure (\<lambda>(cmp, arr, val, lo, hi). hi - lo)") auto

declare lowerLoop.simps [simp del]

definition lowerBound :: "('a \<Rightarrow> 'k \<Rightarrow> int) \<Rightarrow> 'a list \<Rightarrow> 'k \<Rightarrow> nat" where
  "lowerBound cmp arr val =
    (if arr = [] then 0
     else (let (lo, hi) = lowerLoop cmp arr val 0 (length arr)
           in if lo = hi \<or> cmp (arr ! lo) val < 0 then hi else lo))"

definition insertSorted :: "('a \<Rightarrow> 'a \<Rightarrow> int) \<Rightarrow> 'a list \<Rightarrow> 'a \<Rightarrow> 'a list \<times> nat" where
  "insertSorted cmp arr val = (let pos = lowerBound cmp arr val in (take pos arr @ val # drop pos arr, pos))"

text \<open>
  The specification: the position after the elements that are lower. \<open>separated\<close> is what a sorted array gives: once an element is
  not lower, none after it is.
\<close>

definition separated :: "('a \<Rightarrow> bool) \<Rightarrow> 'a list \<Rightarrow> bool" where
  "separated lower arr \<longleftrightarrow> (\<forall>i j. i < j \<longrightarrow> j < length arr \<longrightarrow> lower (arr ! j) \<longrightarrow> lower (arr ! i))"

lemma separated_takeWhile:
  assumes "separated lower arr" and "i < length arr"
  shows "lower (arr ! i) \<longleftrightarrow> i < length (takeWhile lower arr)"
proof
  assume low: "lower (arr ! i)"
  show "i < length (takeWhile lower arr)"
  proof (rule ccontr)
    assume "\<not> i < length (takeWhile lower arr)"
    then have le: "length (takeWhile lower arr) \<le> i" by simp
    then have "\<not> lower (arr ! length (takeWhile lower arr))" using assms(2) by (intro nth_length_takeWhile) simp
    moreover have "lower (arr ! length (takeWhile lower arr))"
      using le low assms unfolding separated_def by (metis le_neq_implies_less)
    ultimately show False by simp
  qed
next
  assume "i < length (takeWhile lower arr)"
  then show "lower (arr ! i)" by (metis nth_mem set_takeWhileD takeWhile_nth)
qed

lemma lowerLoop_spec:
  assumes "separated (\<lambda>x. cmp x val < 0) arr" and "lo \<le> hi" and "hi \<le> length arr"
    and "lo \<le> length (takeWhile (\<lambda>x. cmp x val < 0) arr)" and "length (takeWhile (\<lambda>x. cmp x val < 0) arr) \<le> hi"
  shows "(case lowerLoop cmp arr val lo hi of (lo', hi') \<Rightarrow> lo' \<le> hi' \<and> hi' \<le> lo' + 1 \<and> hi' \<le> length arr \<and>
    lo' \<le> length (takeWhile (\<lambda>x. cmp x val < 0) arr) \<and> length (takeWhile (\<lambda>x. cmp x val < 0) arr) \<le> hi')"
  using assms
proof (induction cmp arr val lo hi rule: lowerLoop.induct)
  case (1 cmp arr val lo hi)
  let ?k = "length (takeWhile (\<lambda>x. cmp x val < 0) arr)"
  define mid where "mid = (lo + hi) div 2"
  show ?case
  proof (cases "lo + 1 < hi")
    case True
    then have mid: "lo \<le> mid" "mid < hi" by (simp_all add: mid_def)
    have low: "cmp (arr ! mid) val < 0 \<longleftrightarrow> mid < ?k"
      using separated_takeWhile [OF 1(3), of mid] mid 1(5) by simp
    show ?thesis
    proof (cases "cmp (arr ! mid) val < 0")
      case True': True
      have "lowerLoop cmp arr val lo hi = lowerLoop cmp arr val (mid + 1) hi"
        using True True' by (subst lowerLoop.simps) (simp add: mid_def Let_def)
      with 1(1) [OF True mid_def refl True' 1(3)] low True' mid 1(5,7) show ?thesis by simp
    next
      case False
      have "lowerLoop cmp arr val lo hi = lowerLoop cmp arr val lo mid"
        using True False by (subst lowerLoop.simps) (simp add: mid_def Let_def)
      with 1(2) [OF True mid_def refl False 1(3)] low False mid 1(5,6) show ?thesis by simp
    qed
  next
    case False
    then have "lowerLoop cmp arr val lo hi = (lo, hi)" by (subst lowerLoop.simps) simp
    with False 1 show ?thesis by simp
  qed
qed

lemma lowerBound_takeWhile:
  assumes "separated (\<lambda>x. cmp x val < 0) arr"
  shows "lowerBound cmp arr val = length (takeWhile (\<lambda>x. cmp x val < 0) arr)"
proof (cases "arr = []")
  case False
  obtain lo hi where l: "lowerLoop cmp arr val 0 (length arr) = (lo, hi)" by fastforce
  from lowerLoop_spec [of cmp val arr 0 "length arr"] assms l
  have s: "lo \<le> hi" "hi \<le> lo + 1" "hi \<le> length arr" "lo \<le> length (takeWhile (\<lambda>x. cmp x val < 0) arr)"
      "length (takeWhile (\<lambda>x. cmp x val < 0) arr) \<le> hi" by (simp_all add: length_takeWhile_le)
  show ?thesis
  proof (cases "lo = hi")
    case False
    then have "lo < length arr" using s by simp
    from separated_takeWhile [OF assms this] s False show ?thesis by (auto simp: lowerBound_def l \<open>arr \<noteq> []\<close>)
  qed (use s in \<open>simp add: lowerBound_def l\<close>)
qed (simp add: lowerBound_def)

lemma takeWhile_prefix: "take (length (takeWhile P xs)) xs = takeWhile P xs" "drop (length (takeWhile P xs)) xs = dropWhile P xs"
  by (induction xs) auto

text \<open>Inserting into an array that is sorted by a key keeps it sorted, and puts the value before those with the same key: what
  \<open>insort_key\<close> of the library does.\<close>

theorem insertSorted_insort:
  assumes "sorted (map key arr)"
  shows "fst (insertSorted (\<lambda>a b. key a - key b) arr val) = insort_key key val arr"
proof -
  have "separated (\<lambda>x. key x - key val < 0) arr"
    using assms unfolding separated_def
    by (metis diff_less_0_iff_less le_less_trans length_map less_imp_le nth_map order.strict_trans sorted_nth_mono)
  from lowerBound_takeWhile [of "\<lambda>a b. key a - key b" val arr, OF this]
  have "fst (insertSorted (\<lambda>a b. key a - key b) arr val) = takeWhile (\<lambda>x. key x < key val) arr @ val # dropWhile (\<lambda>x. key x < key val) arr"
    by (simp add: insertSorted_def Let_def takeWhile_prefix)
  also have "\<dots> = insort_key key val arr" by (induction arr) auto
  finally show ?thesis .
qed

theorem insertSorted_insort_witness:
  "fst (insertSorted (\<lambda>a b. a - b) [1, 3, 3, 7] (3 :: int)) = insort_key (\<lambda>x. x) 3 [1, 3, 3, 7]"
  using insertSorted_insort [of "\<lambda>x. x" "[1, 3, 3, 7]" 3] by simp

subsection \<open>\<open>DBusSenderChecker\<close>\<close>

text \<open>
  The allowed names are watched on the bus, and a method that asks is answered when every name has been seen once. Waiting on
  the promise is a queue; an answer is the sender with whether it is allowed.
\<close>

record sender_checker =
  dc_allowlistMap :: "(string, string) jsmap"
  dc_uninitializedNames :: "string set"
  dc_initialized :: bool
  dc_waiting :: "string list"
  dc_answers :: "(string \<times> bool) list"

definition newSenderChecker :: "string list \<Rightarrow> sender_checker" where
  "newSenderChecker allowList = \<lparr>dc_allowlistMap = [], dc_uninitializedNames = set allowList, dc_initialized = False,
    dc_waiting = [], dc_answers = []\<rparr>"

definition senderAllowed :: "sender_checker \<Rightarrow> string \<Rightarrow> bool" where
  "senderAllowed s sender \<longleftrightarrow> sender \<in> set (map snd (dc_allowlistMap s))"

definition checkAndResolveInitialized :: "string \<Rightarrow> sender_checker \<Rightarrow> sender_checker" where
  "checkAndResolveInitialized name s =
    (if name \<in> dc_uninitializedNames s
     then (let s1 = s\<lparr>dc_uninitializedNames := dc_uninitializedNames s - {name}\<rparr>
       in if dc_uninitializedNames s1 = {}
          then s1\<lparr>dc_initialized := True, dc_waiting := [],
                 dc_answers := dc_answers s1 @ map (\<lambda>x. (x, senderAllowed s1 x)) (dc_waiting s1)\<rparr>
          else s1)
     else s)"

definition nameAppeared :: "string \<Rightarrow> string \<Rightarrow> sender_checker \<Rightarrow> sender_checker" where
  "nameAppeared name owner s =
    checkAndResolveInitialized name (s\<lparr>dc_allowlistMap := jm_set (dc_allowlistMap s) name owner\<rparr>)"

definition nameVanished :: "string \<Rightarrow> sender_checker \<Rightarrow> sender_checker" where
  "nameVanished name s = checkAndResolveInitialized name (s\<lparr>dc_allowlistMap := jm_del (dc_allowlistMap s) name\<rparr>)"

definition checkInvocation :: "bool \<Rightarrow> string \<Rightarrow> sender_checker \<Rightarrow> sender_checker" where
  "checkInvocation unsafeMode sender s =
    (if unsafeMode then s\<lparr>dc_answers := dc_answers s @ [(sender, True)]\<rparr>
     else if dc_initialized s then s\<lparr>dc_answers := dc_answers s @ [(sender, senderAllowed s sender)]\<rparr>
     else s\<lparr>dc_waiting := dc_waiting s @ [sender]\<rparr>)"

datatype checker_event = NameAppeared string string | NameVanished string | Invocation string

fun checkerStep :: "string list \<Rightarrow> checker_event \<Rightarrow> sender_checker \<Rightarrow> sender_checker" where
  "checkerStep allowList (NameAppeared n owner) s = (if n \<in> set allowList then nameAppeared n owner s else s)"
| "checkerStep allowList (NameVanished n) s = (if n \<in> set allowList then nameVanished n s else s)"
| "checkerStep allowList (Invocation sender) s = checkInvocation False sender s"

text \<open>What the events say of the names: the owners at the end, and which names have been seen.\<close>

fun owners :: "checker_event list \<Rightarrow> (string \<rightharpoonup> string)" where
  "owners [] = Map.empty"
| "owners (e # es) = (case e of NameAppeared n owner \<Rightarrow> (owners es)(n \<mapsto> owner) | NameVanished n \<Rightarrow> (owners es)(n := None) | Invocation x \<Rightarrow> owners es)"

definition seen :: "checker_event list \<Rightarrow> string set" where
  "seen es = {n. \<exists>owner. NameAppeared n owner \<in> set es \<or> NameVanished n \<in> set es}"

lemma checkAndResolve_fields:
  "dc_allowlistMap (checkAndResolveInitialized n s) = dc_allowlistMap s"
  "dc_uninitializedNames (checkAndResolveInitialized n s) = dc_uninitializedNames s - {n}"
  "map fst (dc_answers (checkAndResolveInitialized n s)) @ dc_waiting (checkAndResolveInitialized n s) = map fst (dc_answers s) @ dc_waiting s"
  by (simp_all add: checkAndResolveInitialized_def Let_def comp_def)

lemma checkAndResolve_initialized:
  assumes "dc_initialized s \<longleftrightarrow> dc_uninitializedNames s = {}" and "dc_initialized s \<longrightarrow> dc_waiting s = []"
  shows "dc_initialized (checkAndResolveInitialized n s) \<longleftrightarrow> dc_uninitializedNames (checkAndResolveInitialized n s) = {}"
    and "dc_initialized (checkAndResolveInitialized n s) \<longrightarrow> dc_waiting (checkAndResolveInitialized n s) = []"
  using assms by (auto simp: checkAndResolveInitialized_def Let_def)

definition invocations :: "checker_event list \<Rightarrow> string list" where
  "invocations es = concat (map (\<lambda>e. case e of Invocation x \<Rightarrow> [x] | _ \<Rightarrow> []) es)"

definition runChecker :: "string list \<Rightarrow> checker_event list \<Rightarrow> sender_checker" where
  "runChecker allowList es = fold (checkerStep allowList) es (newSenderChecker allowList)"

lemma seen_snoc: "seen (es @ [e]) = seen es \<union> (case e of NameAppeared n owner \<Rightarrow> {n} | NameVanished n \<Rightarrow> {n} | Invocation x \<Rightarrow> {})"
  by (cases e) (auto simp: seen_def)

text \<open>
  No call is answered before every allowed name has been seen, and then all are, in the order in which they came; the map holds
  the owners that the allowed names have on the bus.
\<close>

definition checker_inv :: "string list \<Rightarrow> checker_event list \<Rightarrow> sender_checker \<Rightarrow> bool" where
  "checker_inv allowList es s \<longleftrightarrow> map_of (dc_allowlistMap s) = owners (rev es) |` set allowList \<and>
    dc_uninitializedNames s = set allowList - seen es \<and>
    (dc_initialized s \<longleftrightarrow> dc_uninitializedNames s = {}) \<and> (dc_initialized s \<longrightarrow> dc_waiting s = []) \<and>
    (\<not> dc_initialized s \<longrightarrow> dc_answers s = []) \<and> map fst (dc_answers s) @ dc_waiting s = invocations es"

lemma checkAndResolve_inv:
  assumes inv: "checker_inv allowList es s" and m: "map_of m = owners (rev es') |` set allowList"
    and es': "seen es' = insert n (seen es)" "invocations es' = invocations es"
  shows "checker_inv allowList es' (checkAndResolveInitialized n (s\<lparr>dc_allowlistMap := m\<rparr>))"
proof -
  let ?s = "s\<lparr>dc_allowlistMap := m\<rparr>"
  have "dc_initialized ?s \<longleftrightarrow> dc_uninitializedNames ?s = {}" "dc_initialized ?s \<longrightarrow> dc_waiting ?s = []"
    using inv by (simp_all add: checker_inv_def)
  note init = checkAndResolve_initialized [OF this, of n]
  have "\<not> dc_initialized (checkAndResolveInitialized n ?s) \<longrightarrow> dc_answers (checkAndResolveInitialized n ?s) = []"
    using inv by (simp add: checker_inv_def checkAndResolveInitialized_def Let_def)
  moreover have "dc_uninitializedNames (checkAndResolveInitialized n ?s) = set allowList - seen es'"
    using inv es' by (auto simp: checker_inv_def checkAndResolve_fields)
  moreover have "map fst (dc_answers (checkAndResolveInitialized n ?s)) @ dc_waiting (checkAndResolveInitialized n ?s) = invocations es'"
    using inv es' by (simp add: checker_inv_def checkAndResolve_fields)
  ultimately show ?thesis using init m unfolding checker_inv_def checkAndResolve_fields(1) by simp
qed

lemma checkerStep_inv:
  assumes inv: "checker_inv allowList es s"
  shows "checker_inv allowList (es @ [e]) (checkerStep allowList e s)"
proof (cases e)
  case (Invocation x)
  then show ?thesis using inv by (auto simp: checkInvocation_def seen_snoc invocations_def checker_inv_def)
next
  case (NameAppeared n owner)
  have inv': "invocations (es @ [e]) = invocations es" "seen (es @ [e]) = insert n (seen es)"
    by (simp_all add: NameAppeared invocations_def seen_snoc)
  show ?thesis
  proof (cases "n \<in> set allowList")
    case True
    have m: "map_of (jm_set (dc_allowlistMap s) n owner) = owners (rev (es @ [e])) |` set allowList"
      using inv True by (auto simp: NameAppeared restrict_map_def fun_eq_iff checker_inv_def)
    from checkAndResolve_inv [OF inv m inv'(2,1)] show ?thesis by (simp add: NameAppeared True nameAppeared_def)
  next
    case False
    then have "owners (rev (es @ [e])) |` set allowList = owners (rev es) |` set allowList"
      by (auto simp: NameAppeared restrict_map_def fun_eq_iff)
    then show ?thesis using inv False inv' by (simp add: NameAppeared checker_inv_def)
  qed
next
  case (NameVanished n)
  have inv': "invocations (es @ [e]) = invocations es" "seen (es @ [e]) = insert n (seen es)"
    by (simp_all add: NameVanished invocations_def seen_snoc)
  show ?thesis
  proof (cases "n \<in> set allowList")
    case True
    have m: "map_of (jm_del (dc_allowlistMap s) n) = owners (rev (es @ [e])) |` set allowList"
      using inv True by (auto simp: NameVanished restrict_map_def fun_eq_iff checker_inv_def)
    from checkAndResolve_inv [OF inv m inv'(2,1)] show ?thesis by (simp add: NameVanished True nameVanished_def)
  next
    case False
    then have "owners (rev (es @ [e])) |` set allowList = owners (rev es) |` set allowList"
      by (auto simp: NameVanished restrict_map_def fun_eq_iff)
    then show ?thesis using inv False inv' by (simp add: NameVanished checker_inv_def)
  qed
qed

lemma runChecker_inv: "allowList \<noteq> [] \<Longrightarrow> checker_inv allowList es (runChecker allowList es)"
proof (induction es rule: rev_induct)
  case Nil
  then show ?case by (simp add: runChecker_def newSenderChecker_def seen_def invocations_def checker_inv_def)
next
  case (snoc e es)
  from checkerStep_inv [OF snoc.IH [OF snoc.prems], of e] show ?case by (simp add: runChecker_def)
qed

lemma set_values_ran: "distinct (map fst m) \<Longrightarrow> set (map snd m) = ran (map_of m)"
  by (simp only: ran_distinct set_map)

lemma runChecker_distinct: "distinct (map fst (dc_allowlistMap (runChecker allowList es)))"
proof (induction es rule: rev_induct)
  case (snoc e es)
  then show ?case
    by (cases e) (auto simp: runChecker_def nameAppeared_def nameVanished_def checkAndResolve_fields checkInvocation_def
        distinct_update distinct_delete)
qed (simp add: runChecker_def newSenderChecker_def)

text \<open>Who owns an allowed name after the events, and the calls that are answered at the last of them.\<close>

definition owns :: "string list \<Rightarrow> checker_event list \<Rightarrow> string \<Rightarrow> bool" where
  "owns allowList es x \<longleftrightarrow> (\<exists>n\<in>set allowList. owners (rev es) n = Some x)"

definition answeredNow :: "string list \<Rightarrow> checker_event list \<Rightarrow> checker_event \<Rightarrow> string list" where
  "answeredNow allowList es e =
    (if \<not> set allowList \<subseteq> seen (es @ [e]) then []
     else if set allowList \<subseteq> seen es then invocations [e]
     else invocations (es @ [e]))"

lemma senderAllowed_owns:
  assumes "map_of (dc_allowlistMap s) = owners (rev es) |` set allowList" and "distinct (map fst (dc_allowlistMap s))"
  shows "senderAllowed s x \<longleftrightarrow> owns allowList es x"
  unfolding senderAllowed_def set_values_ran [OF assms(2)] assms(1) owns_def
  by (auto simp: ran_def restrict_map_def split: if_splits)

lemma checkAndResolve_answers:
  "dc_answers (checkAndResolveInitialized n s) = dc_answers s @
    (if n \<in> dc_uninitializedNames s \<and> dc_uninitializedNames s - {n} = {}
     then map (\<lambda>x. (x, senderAllowed s x)) (dc_waiting s) else [])"
  by (simp add: checkAndResolveInitialized_def senderAllowed_def Let_def)

text \<open>What an event of an allowed name answers.\<close>

lemma resolve_answers:
  assumes inv: "checker_inv allowList es s" and inv': "checker_inv allowList (es @ [e]) (checkAndResolveInitialized n (s\<lparr>dc_allowlistMap := m\<rparr>))"
    and d: "distinct (map fst m)" and n: "n \<in> set allowList" "seen (es @ [e]) = insert n (seen es)" "invocations [e] = []"
  shows "dc_answers (checkAndResolveInitialized n (s\<lparr>dc_allowlistMap := m\<rparr>)) =
    dc_answers s @ map (\<lambda>x. (x, owns allowList (es @ [e]) x)) (answeredNow allowList es e)"
proof -
  let ?s = "s\<lparr>dc_allowlistMap := m\<rparr>"
  have "map_of m = owners (rev (es @ [e])) |` set allowList"
    using inv' by (simp add: checker_inv_def checkAndResolve_fields)
  then have allowed: "senderAllowed ?s x \<longleftrightarrow> owns allowList (es @ [e]) x" for x
    using senderAllowed_owns [of ?s "es @ [e]" allowList x] d by simp
  have un: "dc_uninitializedNames s = set allowList - seen es" using inv by (simp add: checker_inv_def)
  have inits: "invocations (es @ [e]) = invocations es" using n(3) by (simp add: invocations_def)
  show ?thesis
  proof (cases "set allowList \<subseteq> seen es")
    case True
    then have "n \<in> seen es" "answeredNow allowList es e = []" using n by (auto simp: answeredNow_def)
    then show ?thesis by (simp add: checkAndResolve_answers un)
  next
    case False
    have "dc_waiting s = invocations es" using inv False by (auto simp: checker_inv_def)
    moreover have "n \<in> dc_uninitializedNames s \<and> dc_uninitializedNames s - {n} = {} \<longleftrightarrow> set allowList \<subseteq> insert n (seen es)"
      using n(1) False by (auto simp: un)
    ultimately show ?thesis
      using False n(2) inits by (simp add: checkAndResolve_answers allowed answeredNow_def)
  qed
qed

lemma runChecker_step:
  assumes "allowList \<noteq> []"
  shows "dc_answers (runChecker allowList (es @ [e])) =
    dc_answers (runChecker allowList es) @ map (\<lambda>x. (x, owns allowList (es @ [e]) x)) (answeredNow allowList es e)"
proof -
  define s where "s = runChecker allowList es"
  have run: "runChecker allowList (es @ [e]) = checkerStep allowList e s" by (simp add: runChecker_def s_def)
  note inv = runChecker_inv [OF assms, of es, folded s_def]
  note inv' = runChecker_inv [OF assms, of "es @ [e]", unfolded run]
  note d = runChecker_distinct [of allowList es, folded s_def]
  have other: ?thesis if "checkerStep allowList e s = s" "seen (es @ [e]) = insert n (seen es)" "n \<notin> set allowList" "invocations [e] = []" for n
    using that unfolding run s_def [symmetric] by (auto simp: answeredNow_def)
  show ?thesis
  proof (cases e)
    case (Invocation x)
    have "seen (es @ [e]) = seen es" "owners (rev (es @ [e])) = owners (rev es)" "invocations [e] = [x]"
      by (simp_all add: Invocation seen_snoc invocations_def)
    moreover have "dc_initialized s \<longleftrightarrow> set allowList \<subseteq> seen es" using inv by (auto simp: checker_inv_def)
    moreover have "senderAllowed s x \<longleftrightarrow> owns allowList es x"
      using senderAllowed_owns [OF _ d] inv by (simp add: checker_inv_def)
    ultimately show ?thesis
      unfolding run s_def [symmetric] by (simp add: Invocation checkInvocation_def answeredNow_def owns_def)
  next
    case (NameAppeared n owner)
    have sn: "seen (es @ [e]) = insert n (seen es)" "invocations [e] = []" by (simp_all add: NameAppeared seen_snoc invocations_def)
    show ?thesis
    proof (cases "n \<in> set allowList")
      case True
      then show ?thesis
        using resolve_answers [OF inv _ _ True sn] inv' d unfolding run s_def [symmetric]
        by (simp add: NameAppeared nameAppeared_def distinct_update)
    next
      case False
      then show ?thesis using other [OF _ sn(1) False sn(2)] by (simp add: NameAppeared)
    qed
  next
    case (NameVanished n)
    have sn: "seen (es @ [e]) = insert n (seen es)" "invocations [e] = []" by (simp_all add: NameVanished seen_snoc invocations_def)
    show ?thesis
    proof (cases "n \<in> set allowList")
      case True
      then show ?thesis
        using resolve_answers [OF inv _ _ True sn] inv' d unfolding run s_def [symmetric]
        by (simp add: NameVanished nameVanished_def distinct_delete)
    next
      case False
      then show ?thesis using other [OF _ sn(1) False sn(2)] by (simp add: NameVanished)
    qed
  qed
qed

text \<open>C37: Who may call the shell's private methods, outside the unsafe mode: no call is answered before every allowed name has been seen
  on the bus; at the event that shows the last of them all waiting calls are answered, and from then on every call at once, so that
  calls are answered in the order in which they came; and every answer, of a waiting call too, lets the sender through exactly if
  it owns one of the allowed names at that moment.\<close>

theorem sender_allowed_iff_owner:
  assumes "allowList \<noteq> []"
  shows "map fst (dc_answers (runChecker allowList es)) = (if set allowList \<subseteq> seen es then invocations es else []) \<and>
    dc_answers (runChecker allowList (es @ [e])) =
      dc_answers (runChecker allowList es) @ map (\<lambda>x. (x, owns allowList (es @ [e]) x)) (answeredNow allowList es e)"
proof (rule conjI [OF _ runChecker_step [OF assms]])
  show "map fst (dc_answers (runChecker allowList es)) = (if set allowList \<subseteq> seen es then invocations es else [])"
    using runChecker_inv [OF assms, of es] by (auto simp: checker_inv_def)
qed

theorem sender_allowed_iff_owner_witness:
  "dc_answers (runChecker [''a'', ''b''] [Invocation '':7'', NameAppeared ''a'' '':1'', Invocation '':1'', NameVanished ''b'']) =
    [('':7'', False), ('':1'', True)]"
proof -
  let ?es = "[Invocation '':7'', NameAppeared ''a'' '':1'', Invocation '':1'']"
  have "answeredNow [''a'', ''b''] ?es (NameVanished ''b'') = ['':7'', '':1'']"
    by (simp add: answeredNow_def seen_def invocations_def)
  moreover have "dc_answers (runChecker [''a'', ''b''] ?es) = []"
    by (simp add: runChecker_def newSenderChecker_def checkInvocation_def nameAppeared_def checkAndResolveInitialized_def)
  ultimately show ?thesis
    using sender_allowed_iff_owner [of "[''a'', ''b'']" ?es "NameVanished ''b''"] by (simp add: owns_def)
qed

end
