(* ===== verification/WorkspaceTracker.thy ===== *)
theory WorkspaceTracker
  imports Prelude
begin

section \<open>Workspaces that come and go (\<open>js/ui/windowManager.js\<close>, \<open>WorkspaceTracker\<close>)\<close>

text \<open>
  On a phone every window that is not a dialog has a workspace of its own; otherwise workspaces are dynamic, with an empty one at the
  end. The tracker follows the workspace manager of the compositor, keeps a list of its workspaces, knows which windows
  should be alone, moves windows to new workspaces and removes empty workspaces.

  The workspace manager is code of the compositor and a parameter here: a record of the functions the code calls, over a state \<open>'m\<close>
  of its own. What they are relied on to do is stated where it is needed. Its signals are emitted during the calls, so a
  call is followed by the handlers of the tracker: appending and removing a workspace are followed by \<open>_workspaceAdded\<close> and
  \<open>_workspaceRemoved\<close>, moving a window by \<open>window-removed\<close> of the old and \<open>window-added\<close> of the new workspace. An exception in
  a handler ends that handler. Windows and workspaces are numbers; what windows are at the time is the environment. The actor that fades
  a closed window out is drawing.
\<close>

record 'm manager_ops =
  mo_workspaces :: "'m \<Rightarrow> nat list"           \<comment> \<open>by index\<close>
  mo_windows :: "'m \<Rightarrow> nat \<Rightarrow> nat list"       \<comment> \<open>\<open>get_windows\<close> of a workspace\<close>
  mo_workspaceOf :: "'m \<Rightarrow> nat \<Rightarrow> nat"        \<comment> \<open>\<open>get_workspace\<close> of a window\<close>
  mo_onAll :: "'m \<Rightarrow> nat \<Rightarrow> bool"             \<comment> \<open>\<open>on_all_workspaces\<close> of a window\<close>
  mo_active :: "'m \<Rightarrow> nat"
  mo_append :: "'m \<Rightarrow> 'm \<times> nat"
  mo_reorder :: "nat \<Rightarrow> nat \<Rightarrow> 'm \<Rightarrow> 'm"
  mo_remove :: "nat \<Rightarrow> 'm \<Rightarrow> 'm"
  mo_move :: "nat \<Rightarrow> nat \<Rightarrow> 'm \<Rightarrow> 'm"         \<comment> \<open>\<open>change_workspace\<close>, for one window\<close>
  mo_activate :: "nat \<Rightarrow> 'm \<Rightarrow> 'm"

datatype window_type = NormalWindow | Splashscreen | DialogWindow | ModalDialog | OtherWindow

record win_env =
  we_hasActor :: "nat \<Rightarrow> bool"                \<comment> \<open>\<open>get_compositor_private()\<close>\<close>
  we_actorVisible :: "nat \<Rightarrow> bool"
  we_transientFor :: "nat \<Rightarrow> nat option"
  we_follow :: "nat \<Rightarrow> nat list"             \<comment> \<open>the windows that \<open>change_workspace\<close> moves along\<close>
  we_overrideRedirect :: "nat \<Rightarrow> bool"
  we_windowType :: "nat \<Rightarrow> window_type"
  we_isMapped :: "nat \<Rightarrow> bool"
  we_isWayland :: "nat \<Rightarrow> bool"
  we_maximized :: "nat \<Rightarrow> bool"               \<comment> \<open>vertically and horizontally\<close>
  we_fullscreen :: "nat \<Rightarrow> bool"
  we_above :: "nat \<Rightarrow> bool"
  we_fillsWorkArea :: "nat \<Rightarrow> bool"           \<comment> \<open>the frame has the size of the work area\<close>
  we_exceedsWorkArea :: "nat \<Rightarrow> bool"         \<comment> \<open>the frame is wider or higher\<close>
  we_canMaximize :: "nat \<Rightarrow> bool \<times> bool"      \<comment> \<open>vertically, horizontally\<close>
  we_dynamic :: bool                        \<comment> \<open>\<open>prefs_get_dynamic_workspaces\<close>\<close>
  we_phone :: bool                          \<comment> \<open>\<open>singleWindowWorkspaces\<close>\<close>
  we_startingUp :: bool
  we_keyboardVisible :: bool
  we_sequences :: "int list"                \<comment> \<open>workspace indexes of startup sequences that have not completed\<close>

datatype wm_call =
    SetMaximizeFlags nat bool bool
  | MoveFrame nat
  | SetCanGrab nat bool
  | ShowOverview
  | NotifyZeroOpenWindows
  | OverlayCreated nat
  | OverlayDestroyed nat
  | OverlayAnimatedOut nat

text \<open>
  The fields that the code adds to workspace objects are sets of workspaces: a pending timeout (\<open>_startupSequenceTimeoutId\<close>,
  \<open>_splashscreenGraceTimeoutId\<close>, \<open>_newTilingWorkspaceTimeoutId\<close>, \<open>_animateOutTimeoutId\<close>), \<open>_appOpeningOverlay\<close> and the two marks
  to wait. \<open>laters\<close> are the calls before the next redraw. The code overwrites \<open>_animateOutTimeoutId\<close> when another window has to be waited
  for; the timeout that is lost then is not followed.
\<close>

record 'm tracker =
  tk_manager :: 'm
  tk_workspaces :: "nat list"
  tk_windowData :: "(nat, bool) jsmap"      \<comment> \<open>\<open>shouldHaveOwnWorkspace\<close>\<close>
  tk_blocked :: bool
  tk_single :: bool                         \<comment> \<open>\<open>_useSingleWindowWorkspaces\<close>\<close>
  tk_startup :: "nat set"
  tk_splash :: "nat set"
  tk_newTiling :: "nat set"
  tk_animateOut :: "nat set"
  tk_overlay :: "nat set"
  tk_waitShow :: "nat set"
  tk_waitMaximize :: "nat set"
  tk_waiters :: "nat list"                  \<comment> \<open>calls that await the end of \<open>animateIn\<close>\<close>
  tk_laterDone :: "nat set"
  tk_laters :: "(nat \<times> nat \<times> nat) list"    \<comment> \<open>identifier, workspace, window\<close>
  tk_addedLater :: "(nat, nat) jsmap"
  tk_nextLater :: nat
  tk_trace :: "wm_call list"

definition wm_emit :: "wm_call \<Rightarrow> 'm tracker \<Rightarrow> 'm tracker" where
  "wm_emit c s = s\<lparr>tk_trace := tk_trace s @ [c]\<rparr>"

definition MIN_NUM_WORKSPACES :: nat where
  "MIN_NUM_WORKSPACES = 2"

subsection \<open>Workspaces\<close>

definition workspace_index :: "'m manager_ops \<Rightarrow> nat \<Rightarrow> 'm tracker \<Rightarrow> int" where
  "workspace_index ops ws s = js_indexOf ws (mo_workspaces ops (tk_manager s))"

definition workspaceHasOwnWindows :: "'m manager_ops \<Rightarrow> nat \<Rightarrow> 'm tracker \<Rightarrow> bool" where
  "workspaceHasOwnWindows ops ws s = (\<exists>w\<in>set (mo_windows ops (tk_manager s) ws). \<not> mo_onAll ops (tk_manager s) w)"

definition reserved :: "nat \<Rightarrow> 'm tracker \<Rightarrow> bool" where
  "reserved ws s \<longleftrightarrow> ws \<in> tk_startup s \<or> ws \<in> tk_splash s \<or> ws \<in> tk_newTiling s"

definition zeroOpenWindows :: "'m manager_ops \<Rightarrow> 'm tracker \<Rightarrow> bool" where
  "zeroOpenWindows ops s = (case tk_workspaces s of [ws] \<Rightarrow> \<not> reserved ws s \<and> \<not> workspaceHasOwnWindows ops ws s | _ \<Rightarrow> False)"

definition workspaceAdded :: "'m manager_ops \<Rightarrow> nat \<Rightarrow> 'm tracker \<Rightarrow> 'm tracker" where
  "workspaceAdded ops i s = s\<lparr>tk_workspaces := take i (tk_workspaces s) @ (mo_workspaces ops (tk_manager s) ! i) # drop i (tk_workspaces s)\<rparr>"

text \<open>\<open>_workspaceRemoved\<close> throws before it has changed the list when the workspace is still waited for.\<close>

definition workspaceRemoved :: "int \<Rightarrow> 'm tracker \<Rightarrow> 'm tracker" where
  "workspaceRemoved i s =
    (if i < 0 \<or> int (length (tk_workspaces s)) \<le> i then s
     else (let ws = tk_workspaces s ! nat i
       in if reserved ws s \<or> ws \<in> tk_overlay s then s
          else s\<lparr>tk_workspaces := js_splice1 i (tk_workspaces s)\<rparr>))"

definition workspacesReordered :: "'m manager_ops \<Rightarrow> 'm tracker \<Rightarrow> 'm tracker" where
  "workspacesReordered ops s = s\<lparr>tk_workspaces := sort_key (\<lambda>ws. workspace_index ops ws s) (tk_workspaces s)\<rparr>"

text \<open>The calls of the workspace manager with the handlers of their signals.\<close>

definition appendWorkspace :: "'m manager_ops \<Rightarrow> 'm tracker \<Rightarrow> 'm tracker \<times> nat" where
  "appendWorkspace ops s =
    (let (m, ws) = mo_append ops (tk_manager s); s1 = s\<lparr>tk_manager := m\<rparr>
     in (workspaceAdded ops (nat (workspace_index ops ws s1)) s1, ws))"

definition reorderWorkspace :: "'m manager_ops \<Rightarrow> nat \<Rightarrow> nat \<Rightarrow> 'm tracker \<Rightarrow> 'm tracker" where
  "reorderWorkspace ops ws i s = workspacesReordered ops (s\<lparr>tk_manager := mo_reorder ops ws i (tk_manager s)\<rparr>)"

definition removeWorkspace :: "'m manager_ops \<Rightarrow> nat \<Rightarrow> 'm tracker \<Rightarrow> 'm tracker" where
  "removeWorkspace ops ws s = workspaceRemoved (workspace_index ops ws s) (s\<lparr>tk_manager := mo_remove ops ws (tk_manager s)\<rparr>)"

definition maybeRemoveWorkspace :: "'m manager_ops \<Rightarrow> win_env \<Rightarrow> nat \<Rightarrow> 'm tracker \<Rightarrow> 'm tracker" where
  "maybeRemoveWorkspace ops env ws s =
    (if tk_blocked s \<or> ws \<in> tk_startup s \<or> ws \<in> tk_splash s \<or> workspaceHasOwnWindows ops ws s then s
     else if tk_single s then
       (if ws \<in> tk_newTiling s then s
        else (let s1 = (if ws \<in> tk_overlay s then wm_emit (OverlayDestroyed ws) (s\<lparr>tk_overlay := tk_overlay s - {ws}\<rparr>) else s);
                  s2 = (if \<not> we_startingUp env \<and> mo_active ops (tk_manager s1) = ws then wm_emit ShowOverview s1 else s1)
          in if length (tk_workspaces s2) > 1 then removeWorkspace ops ws s2 else wm_emit NotifyZeroOpenWindows s2))
     else if mo_active ops (tk_manager s) = ws \<or> length (tk_workspaces s) = MIN_NUM_WORKSPACES then s
     else if workspace_index ops ws s = int (length (tk_workspaces s)) - 1 then s
     else removeWorkspace ops ws s)"

text \<open>\<open>this._workspaces.slice().reverse().forEach(\<dots>)\<close>.\<close>

definition maybeRemoveWorkspaces :: "'m manager_ops \<Rightarrow> win_env \<Rightarrow> 'm tracker \<Rightarrow> 'm tracker" where
  "maybeRemoveWorkspaces ops env s = fold (maybeRemoveWorkspace ops env) (rev (tk_workspaces s)) s"

subsection \<open>Windows\<close>

definition windowShouldHaveOwnWorkspace :: "'m manager_ops \<Rightarrow> win_env \<Rightarrow> nat \<Rightarrow> 'm tracker \<Rightarrow> bool" where
  "windowShouldHaveOwnWorkspace ops env w s =
    (if we_transientFor env w \<noteq> None then False
     else if we_overrideRedirect env w then False
     else if mo_onAll ops (tk_manager s) w then False
     else if we_windowType env w = Splashscreen \<or> we_windowType env w = DialogWindow \<or> we_windowType env w = ModalDialog then False
     else if \<not> we_isMapped env w then False
     else True)"

definition windowShouldBeGrabbable :: "win_env \<Rightarrow> nat \<Rightarrow> bool" where
  "windowShouldBeGrabbable env w =
    (if we_above env w then True
     else if \<not> we_fullscreen env w then we_exceedsWorkArea env w
     else False)"

definition wm_maximize :: "win_env \<Rightarrow> nat \<Rightarrow> 'm tracker \<Rightarrow> 'm tracker" where
  "wm_maximize env w s =
    (case we_canMaximize env w of (vert, horiz) \<Rightarrow>
      if vert \<and> horiz then wm_emit (SetMaximizeFlags w True True) s
      else if vert then wm_emit (MoveFrame w) (wm_emit (SetMaximizeFlags w True False) s)
      else if horiz then wm_emit (MoveFrame w) (wm_emit (SetMaximizeFlags w False True) s)
      else s)"

definition animateOutStartupOverlay :: "nat \<Rightarrow> 'm tracker \<Rightarrow> 'm tracker" where
  "animateOutStartupOverlay ws s = (if ws \<in> tk_overlay s then s\<lparr>tk_waiters := tk_waiters s @ [ws]\<rparr> else s)"

definition maybeAnimateOutStartupOverlay :: "'m manager_ops \<Rightarrow> win_env \<Rightarrow> nat \<Rightarrow> 'm tracker \<Rightarrow> 'm tracker" where
  "maybeAnimateOutStartupOverlay ops env w s =
    (let ws = mo_workspaceOf ops (tk_manager s) w;
         isMaximized = ((we_maximized env w \<and> we_fillsWorkArea env w) \<or> we_fullscreen env w \<or> we_keyboardVisible env)
     in if ws \<in> tk_waitMaximize s \<and> isMaximized
        then animateOutStartupOverlay ws (s\<lparr>tk_waitMaximize := tk_waitMaximize s - {ws}, tk_waitShow := tk_waitShow s - {ws},
               tk_animateOut := tk_animateOut s - {ws}\<rparr>)
        else s)"

text \<open>\<open>window-removed\<close> of a workspace.\<close>

definition windowRemovedFromWorkspace :: "'m manager_ops \<Rightarrow> win_env \<Rightarrow> nat \<Rightarrow> nat \<Rightarrow> 'm tracker \<Rightarrow> 'm tracker" where
  "windowRemovedFromWorkspace ops env ws w s =
    (if w \<notin> tk_laterDone s
     then s\<lparr>tk_laters := filter (\<lambda>l. Some (fst l) \<noteq> jm_get (tk_addedLater s) w) (tk_laters s),
            tk_addedLater := jm_del (tk_addedLater s) w\<rparr>
     else if \<not> we_dynamic env \<or> mo_onAll ops (tk_manager s) w then s
     else if workspaceHasOwnWindows ops ws s then s
     else if ws \<in> tk_splash s then s
     else if we_windowType env w = Splashscreen then s\<lparr>tk_splash := insert ws (tk_splash s)\<rparr>
     else maybeRemoveWorkspace ops env ws s)"

text \<open>
  Moving a window to another workspace calls the handler of \<open>window-added\<close>, which may move it again: \<open>added\<close> is that handler, and
  \<open>None\<close> means that it does not return within its fuel.
\<close>

definition changeWorkspaceAlone ::
  "'m manager_ops \<Rightarrow> win_env \<Rightarrow> (nat \<Rightarrow> nat \<Rightarrow> 'm tracker \<Rightarrow> 'm tracker option) \<Rightarrow> nat \<Rightarrow> nat \<Rightarrow> 'm tracker \<Rightarrow> 'm tracker option" where
  "changeWorkspaceAlone ops env added ws w s =
    (let old = mo_workspaceOf ops (tk_manager s) w;
         s1 = s\<lparr>tk_manager := mo_move ops w ws (tk_manager s)\<rparr>
     in if old = ws then Some s else added ws w (windowRemovedFromWorkspace ops env old w s1))"

text \<open>
  \<open>change_workspace\<close> of the compositor moves the window, and then the windows that belong to it: its dialogs, and the
  windows it is a dialog of. Each of them that was elsewhere leaves and arrives with its own signals.
\<close>

fun changeWorkspaces ::
  "'m manager_ops \<Rightarrow> win_env \<Rightarrow> (nat \<Rightarrow> nat \<Rightarrow> 'm tracker \<Rightarrow> 'm tracker option) \<Rightarrow> nat \<Rightarrow> nat list \<Rightarrow> 'm tracker \<Rightarrow> 'm tracker option" where
  "changeWorkspaces ops env added ws [] s = Some s"
| "changeWorkspaces ops env added ws (w # vs) s =
    (case changeWorkspaceAlone ops env added ws w s of None \<Rightarrow> None | Some s1 \<Rightarrow> changeWorkspaces ops env added ws vs s1)"

definition changeWorkspace ::
  "'m manager_ops \<Rightarrow> win_env \<Rightarrow> (nat \<Rightarrow> nat \<Rightarrow> 'm tracker \<Rightarrow> 'm tracker option) \<Rightarrow> nat \<Rightarrow> nat \<Rightarrow> 'm tracker \<Rightarrow> 'm tracker option" where
  "changeWorkspace ops env added w ws s = changeWorkspaces ops env added ws (w # we_follow env w) s"

definition moveWindowToNewWorkspace ::
  "'m manager_ops \<Rightarrow> win_env \<Rightarrow> (nat \<Rightarrow> nat \<Rightarrow> 'm tracker \<Rightarrow> 'm tracker option) \<Rightarrow> nat \<Rightarrow> nat \<Rightarrow> 'm tracker \<Rightarrow> 'm tracker option" where
  "moveWindowToNewWorkspace ops env added w i s =
    (let (s1, ws) = appendWorkspace ops s;
         s2 = reorderWorkspace ops ws i s1
     in map_option (\<lambda>s3. s3\<lparr>tk_manager := mo_activate ops ws (tk_manager s3)\<rparr>)
          (changeWorkspace ops env added w (mo_workspaces ops (tk_manager s2) ! i) s2))"

definition workspaceHasOtherWindows :: "'m manager_ops \<Rightarrow> nat \<Rightarrow> 'm tracker \<Rightarrow> bool" where
  "workspaceHasOtherWindows ops w s =
    (\<exists>(v, should)\<in>set (tk_windowData s). v \<noteq> w \<and>
      (mo_workspaceOf ops (tk_manager s) v = mo_workspaceOf ops (tk_manager s) w \<or> mo_onAll ops (tk_manager s) v) \<and> should)"

definition maybeMoveToOwnWorkspace ::
  "'m manager_ops \<Rightarrow> win_env \<Rightarrow> (nat \<Rightarrow> nat \<Rightarrow> 'm tracker \<Rightarrow> 'm tracker option) \<Rightarrow> nat \<Rightarrow> 'm tracker \<Rightarrow> ('m tracker \<times> bool) option" where
  "maybeMoveToOwnWorkspace ops env added w s =
    (if jm_get (tk_windowData s) w = Some True \<and> workspaceHasOtherWindows ops w s
     then map_option (\<lambda>s1. (s1, True))
       (moveWindowToNewWorkspace ops env added w (nat (workspace_index ops (mo_workspaceOf ops (tk_manager s) w) s + 1)) s)
     else Some (s, False))"

text \<open>What the handler does with a window that stays on its workspace.\<close>

definition startupShown :: "'m manager_ops \<Rightarrow> win_env \<Rightarrow> nat \<Rightarrow> nat \<Rightarrow> 'm tracker \<Rightarrow> 'm tracker" where
  "startupShown ops env ws w s0 =
    (let s1 = wm_maximize env w s0;
         shouldWaitForSizeChange = (we_maximized env w \<and> \<not> we_fillsWorkArea env w);
         s2 = (if we_isWayland env w \<and> (\<not> we_hasActor env w \<or> \<not> we_actorVisible env w)
               then s1\<lparr>tk_waitShow := insert ws (tk_waitShow s1)\<rparr> else s1);
         s3 = (if shouldWaitForSizeChange
               then (let t = s2\<lparr>tk_waitMaximize := insert ws (tk_waitMaximize s2)\<rparr>
                 in if ws \<notin> tk_waitShow t then t\<lparr>tk_animateOut := insert ws (tk_animateOut t)\<rparr> else t)
               else if ws \<notin> tk_waitShow s2 then animateOutStartupOverlay ws s2 else s2)
     in wm_emit (SetCanGrab w (windowShouldBeGrabbable env w)) s3)"

definition noteWindow :: "'m manager_ops \<Rightarrow> win_env \<Rightarrow> nat \<Rightarrow> nat \<Rightarrow> 'm tracker \<Rightarrow> 'm tracker" where
  "noteWindow ops env ws w s =
    (let s1 = s\<lparr>tk_laterDone := insert w (tk_laterDone s), tk_startup := tk_startup s - {ws}\<rparr>
     in s1\<lparr>tk_windowData := jm_set (tk_windowData s1) w (windowShouldHaveOwnWorkspace ops env w s1)\<rparr>)"

definition notifyZero :: "'m tracker \<Rightarrow> 'm tracker" where
  "notifyZero s = (if length (tk_workspaces s) = 1 then wm_emit NotifyZeroOpenWindows s else s)"

definition addLater :: "nat \<Rightarrow> nat \<Rightarrow> 'm tracker \<Rightarrow> 'm tracker" where
  "addLater ws w s = s\<lparr>tk_laters := tk_laters s @ [(tk_nextLater s, ws, w)],
    tk_addedLater := jm_set (tk_addedLater s) w (tk_nextLater s), tk_nextLater := Suc (tk_nextLater s)\<rparr>"

fun windowAddedToWorkspace :: "'m manager_ops \<Rightarrow> win_env \<Rightarrow> nat \<Rightarrow> nat \<Rightarrow> nat \<Rightarrow> 'm tracker \<Rightarrow> 'm tracker option" where
  "windowAddedToWorkspace ops env 0 ws w s = None"
| "windowAddedToWorkspace ops env (Suc n) ws w s =
    (if \<not> we_hasActor env w then Some (addLater ws w s)
     else (let s1 = noteWindow ops env ws w s
       in if \<not> we_dynamic env \<or> mo_onAll ops (tk_manager s1) w then Some s1
          else (let s2 = s1\<lparr>tk_splash := tk_splash s1 - {ws}\<rparr>
            in if tk_single s2
               then (let s3 = s2\<lparr>tk_newTiling := tk_newTiling s2 - {ws}\<rparr>;
                      transientForWorkspace = map_option (mo_workspaceOf ops (tk_manager s3)) (we_transientFor env w)
                 in if transientForWorkspace \<noteq> None \<and> the transientForWorkspace \<noteq> ws
                    then changeWorkspace ops env (windowAddedToWorkspace ops env n) w (the transientForWorkspace) s3
                    else (case maybeMoveToOwnWorkspace ops env (windowAddedToWorkspace ops env n) w s3 of
                          None \<Rightarrow> None
                        | Some (s4, moved) \<Rightarrow> Some (if moved then s4 else notifyZero (startupShown ops env ws w s4))))
               else (let s3 = (if \<not> tk_blocked s2 \<and> workspace_index ops ws s2 = int (length (tk_workspaces s2)) - 1
                               then fst (appendWorkspace ops s2) else s2)
                 in Some (notifyZero s3)))))"

subsection \<open>The layout as a whole\<close>

fun separateWindows :: "'m manager_ops \<Rightarrow> win_env \<Rightarrow> nat \<Rightarrow> nat list \<Rightarrow> 'm tracker \<Rightarrow> 'm tracker option" where
  "separateWindows ops env n [] s = Some s"
| "separateWindows ops env n (w # ws) s =
    (case maybeMoveToOwnWorkspace ops env (windowAddedToWorkspace ops env n) w s of
       None \<Rightarrow> None
     | Some (s1, moved) \<Rightarrow> separateWindows ops env n ws (if moved then s1 else wm_maximize env w s1))"

definition redoLayout :: "'m manager_ops \<Rightarrow> win_env \<Rightarrow> nat \<Rightarrow> 'm tracker \<Rightarrow> 'm tracker option" where
  "redoLayout ops env n s0 =
    (let s = s0\<lparr>tk_single := (we_phone env \<and> we_dynamic env)\<rparr>
     in if tk_single s
        then map_option (maybeRemoveWorkspaces ops env) (separateWindows ops env n (jm_keys (tk_windowData s)) s)
        else (let s1 = fold (\<lambda>w. wm_emit (SetCanGrab w True)) (jm_keys (tk_windowData s)) s;
                  s2 = s1\<lparr>tk_newTiling := tk_newTiling s1 - set (tk_workspaces s1)\<rparr>
          in if we_dynamic env
             then (let s3 = ((\<lambda>t. fst (appendWorkspace ops t)) ^^ (MIN_NUM_WORKSPACES - length (mo_workspaces ops (tk_manager s2)))) s2;
                       s4 = (if workspaceHasOwnWindows ops (last (tk_workspaces s3)) s3 then fst (appendWorkspace ops s3) else s3)
               in Some (maybeRemoveWorkspaces ops env s4))
             else Some s2))"

definition blockUpdates :: "'m tracker \<Rightarrow> 'm tracker" where
  "blockUpdates s = s\<lparr>tk_blocked := True\<rparr>"

definition unblockUpdates :: "'m manager_ops \<Rightarrow> win_env \<Rightarrow> nat \<Rightarrow> 'm tracker \<Rightarrow> 'm tracker option" where
  "unblockUpdates ops env n s = redoLayout ops env n (s\<lparr>tk_blocked := False\<rparr>)"

definition newTracker :: "'m manager_ops \<Rightarrow> win_env \<Rightarrow> nat \<Rightarrow> 'm \<Rightarrow> 'm tracker option" where
  "newTracker ops env n m = redoLayout ops env n
    \<lparr>tk_manager = m, tk_workspaces = mo_workspaces ops m, tk_windowData = [], tk_blocked = False, tk_single = False, tk_startup = {},
     tk_splash = {}, tk_newTiling = {}, tk_animateOut = {}, tk_overlay = {}, tk_waitShow = {}, tk_waitMaximize = {}, tk_waiters = [],
     tk_laterDone = {}, tk_laters = [], tk_addedLater = [], tk_nextLater = 1, tk_trace = []\<rparr>"

text \<open>A workspace for an app that is started; the timeout of five seconds removes it if nothing appears.\<close>

definition maybeCreateWorkspaceForWindow :: "'m manager_ops \<Rightarrow> win_env \<Rightarrow> 'm tracker \<Rightarrow> 'm tracker \<times> nat option" where
  "maybeCreateWorkspaceForWindow ops env s =
    (if \<not> tk_single s \<or> \<not> we_dynamic env then (s, None)
     else (let (s1, ws) =
             (if zeroOpenWindows ops s then (s, hd (tk_workspaces s))
              else (let activeWsIndex = nat (workspace_index ops (mo_active ops (tk_manager s)) s);
                        (t, n) = appendWorkspace ops s
                in (reorderWorkspace ops n (activeWsIndex + 1) t, n)));
               s2 = s1\<lparr>tk_manager := mo_activate ops ws (tk_manager s1)\<rparr>;
               s3 = wm_emit (OverlayCreated ws) (s2\<lparr>tk_newTiling := insert ws (tk_newTiling s2), tk_overlay := insert ws (tk_overlay s2)\<rparr>)
       in (if workspace_index ops ws s3 = 0 then wm_emit NotifyZeroOpenWindows s3 else s3, Some ws)))"

definition workspaceSwitched :: "'m manager_ops \<Rightarrow> win_env \<Rightarrow> nat \<Rightarrow> 'm tracker \<Rightarrow> 'm tracker" where
  "workspaceSwitched ops env ws s = (if \<not> we_dynamic env \<or> tk_single s then s else maybeRemoveWorkspace ops env ws s)"

definition startupSequence :: "'m manager_ops \<Rightarrow> win_env \<Rightarrow> nat \<times> nat \<Rightarrow> 'm tracker \<Rightarrow> 'm tracker" where
  "startupSequence ops env iws s =
    (let (i, ws) = iws
     in if int i \<in> set (we_sequences env)
        then s\<lparr>tk_newTiling := tk_newTiling s - {ws}, tk_startup := insert ws (tk_startup s)\<rparr>
        else if ws \<in> tk_startup s then maybeRemoveWorkspace ops env ws (s\<lparr>tk_startup := tk_startup s - {ws}\<rparr>)
        else s)"

definition startupSequenceChanged :: "'m manager_ops \<Rightarrow> win_env \<Rightarrow> 'm tracker \<Rightarrow> 'm tracker" where
  "startupSequenceChanged ops env s =
    (if \<not> we_dynamic env then s else fold (startupSequence ops env) (enumerate 0 (tk_workspaces s)) s)"

subsection \<open>Signals of windows\<close>

definition recompute :: "'m manager_ops \<Rightarrow> win_env \<Rightarrow> nat \<Rightarrow> 'm tracker \<Rightarrow> 'm tracker" where
  "recompute ops env w s = s\<lparr>tk_windowData := jm_set (tk_windowData s) w (windowShouldHaveOwnWorkspace ops env w s)\<rparr>"

definition maybeMoveIfSingle :: "'m manager_ops \<Rightarrow> win_env \<Rightarrow> nat \<Rightarrow> nat \<Rightarrow> 'm tracker \<Rightarrow> 'm tracker option" where
  "maybeMoveIfSingle ops env n w s = (if tk_single s
    then map_option fst (maybeMoveToOwnWorkspace ops env (windowAddedToWorkspace ops env n) w s) else Some s)"

text \<open>The handlers of \<open>notify::window-type\<close> and \<open>notify::is-mapped\<close>, and of \<open>transient-for-changed\<close>.\<close>

definition windowChanged :: "'m manager_ops \<Rightarrow> win_env \<Rightarrow> nat \<Rightarrow> nat \<Rightarrow> 'm tracker \<Rightarrow> 'm tracker option" where
  "windowChanged ops env n w s =
    (if \<not> jm_has (tk_windowData s) w then Some s else maybeMoveIfSingle ops env n w (recompute ops env w s))"

definition transientForChanged :: "'m manager_ops \<Rightarrow> win_env \<Rightarrow> nat \<Rightarrow> nat \<Rightarrow> 'm tracker \<Rightarrow> 'm tracker option" where
  "transientForChanged ops env n w s =
    (if \<not> jm_has (tk_windowData s) w then Some s
     else (case maybeMoveIfSingle ops env n w (recompute ops env w s) of
         None \<Rightarrow> None
       | Some s1 \<Rightarrow>
           (case we_transientFor env w of
              None \<Rightarrow> Some s1
            | Some t \<Rightarrow>
                (let tws = mo_workspaceOf ops (tk_manager s1) t
                 in if mo_workspaceOf ops (tk_manager s1) w \<noteq> tws
                    then changeWorkspace ops env (windowAddedToWorkspace ops env n) w tws s1
                    else Some s1))))"

definition updateGrab :: "win_env \<Rightarrow> nat \<Rightarrow> 'm tracker \<Rightarrow> 'm tracker" where
  "updateGrab env w s = (if tk_single s then wm_emit (SetCanGrab w (windowShouldBeGrabbable env w)) s else s)"

text \<open>\<open>shown\<close>; the exception leaves only the mark to wait removed.\<close>

definition windowShown :: "'m manager_ops \<Rightarrow> nat \<Rightarrow> 'm tracker \<Rightarrow> 'm tracker" where
  "windowShown ops w s =
    (let ws = mo_workspaceOf ops (tk_manager s) w
     in if ws \<notin> tk_waitShow s then s
        else (let s1 = s\<lparr>tk_waitShow := tk_waitShow s - {ws}\<rparr>
          in if ws \<in> tk_waitMaximize s1
             then (if ws \<in> tk_animateOut s1 then s1 else s1\<lparr>tk_animateOut := insert ws (tk_animateOut s1)\<rparr>)
             else animateOutStartupOverlay ws s1))"

subsection \<open>Events\<close>

datatype tracker_event =
    WindowAdded nat nat
  | WindowRemoved nat nat
  | LaterRuns
  | TransientForChanged nat
  | TypeOrMappedChanged nat
  | AboveChanged nat
  | MaximizedChanged nat
  | WindowSizeChanged nat
  | CanMaximizeChanged nat
  | Unmanaged nat
  | WindowShown nat
  | StartupTimeout nat
  | SplashTimeout nat
  | NewTilingTimeout nat
  | AnimateOutTimeout nat
  | OverlayAnimatedIn
  | StartupSequences
  | LaunchApp
  | ModeChanged
  | BlockUpdates
  | UnblockUpdates
  | SwitchWorkspace nat

fun trackerStep :: "'m manager_ops \<Rightarrow> win_env \<Rightarrow> nat \<Rightarrow> tracker_event \<Rightarrow> 'm tracker \<Rightarrow> 'm tracker option" where
  "trackerStep ops env n (WindowAdded ws w) s = windowAddedToWorkspace ops env n ws w s"
| "trackerStep ops env n (WindowRemoved ws w) s = Some (windowRemovedFromWorkspace ops env ws w s)"
| "trackerStep ops env n LaterRuns s =
    (case tk_laters s of
       [] \<Rightarrow> Some s
     | (i, ws, w) # ls \<Rightarrow>
         windowAddedToWorkspace ops env n ws w (s\<lparr>tk_laters := ls, tk_addedLater := jm_del (tk_addedLater s) w\<rparr>))"
| "trackerStep ops env n (TransientForChanged w) s = transientForChanged ops env n w s"
| "trackerStep ops env n (TypeOrMappedChanged w) s = windowChanged ops env n w s"
| "trackerStep ops env n (AboveChanged w) s = Some (updateGrab env w s)"
| "trackerStep ops env n (MaximizedChanged w) s = Some (maybeAnimateOutStartupOverlay ops env w s)"
| "trackerStep ops env n (WindowSizeChanged w) s = Some (updateGrab env w (maybeAnimateOutStartupOverlay ops env w s))"
| "trackerStep ops env n (CanMaximizeChanged w) s = Some (wm_maximize env w s)"
| "trackerStep ops env n (Unmanaged w) s = Some (s\<lparr>tk_windowData := jm_del (tk_windowData s) w\<rparr>)"
| "trackerStep ops env n (WindowShown w) s = Some (windowShown ops w s)"
| "trackerStep ops env n (StartupTimeout ws) s =
    Some (if ws \<in> tk_startup s then maybeRemoveWorkspace ops env ws (s\<lparr>tk_startup := tk_startup s - {ws}\<rparr>) else s)"
| "trackerStep ops env n (SplashTimeout ws) s =
    Some (if ws \<in> tk_splash s then maybeRemoveWorkspace ops env ws (s\<lparr>tk_splash := tk_splash s - {ws}\<rparr>) else s)"
| "trackerStep ops env n (NewTilingTimeout ws) s =
    Some (if ws \<in> tk_newTiling s then maybeRemoveWorkspace ops env ws (s\<lparr>tk_newTiling := tk_newTiling s - {ws}\<rparr>) else s)"
| "trackerStep ops env n (AnimateOutTimeout ws) s =
    Some (if ws \<in> tk_animateOut s
      then animateOutStartupOverlay ws (s\<lparr>tk_waitMaximize := tk_waitMaximize s - {ws}, tk_animateOut := tk_animateOut s - {ws}\<rparr>) else s)"
| "trackerStep ops env n OverlayAnimatedIn s =
    (case tk_waiters s of
       [] \<Rightarrow> Some s
     | ws # rest \<Rightarrow>
         (let s1 = s\<lparr>tk_waiters := rest\<rparr>
          in Some (if ws \<in> tk_overlay s1 then wm_emit (OverlayAnimatedOut ws) (s1\<lparr>tk_overlay := tk_overlay s1 - {ws}\<rparr>) else s1)))"
| "trackerStep ops env n StartupSequences s = Some (startupSequenceChanged ops env s)"
| "trackerStep ops env n LaunchApp s = Some (fst (maybeCreateWorkspaceForWindow ops env s))"
| "trackerStep ops env n ModeChanged s = redoLayout ops env n s"
| "trackerStep ops env n BlockUpdates s = Some (blockUpdates s)"
| "trackerStep ops env n UnblockUpdates s = unblockUpdates ops env n s"
| "trackerStep ops env n (SwitchWorkspace ws) s = Some (workspaceSwitched ops env ws s)"

end
