(* ===== verification/TrackerProps.thy ===== *)
theory TrackerProps
  imports WorkspaceTracker "HOL-Library.Multiset"
begin

section \<open>Every window has a workspace of its own\<close>

subsection \<open>What the workspace manager does\<close>

text \<open>
  The windows of a workspace that are not on all workspaces. The calls are relied on to do this, as documented for the workspace
  manager of the compositor: a window is on the workspace that it says it is on; a new workspace is the last one and empty; reordering,
  activating and removing an empty workspace leave the windows where they are; moving one window moves that window. (That
  \<open>change_workspace\<close> moves the dialogs and parents of a window as well is part of the model, see \<open>changeWorkspace\<close>.)
\<close>

definition own :: "'m manager_ops \<Rightarrow> 'm \<Rightarrow> nat \<Rightarrow> nat set" where
  "own ops m ws = {w \<in> set (mo_windows ops m ws). \<not> mo_onAll ops m w}"

definition manager_ok :: "'m manager_ops \<Rightarrow> bool" where
  "manager_ok ops \<longleftrightarrow>
    (\<forall>m. distinct (mo_workspaces ops m)) \<and>
    (\<forall>m w ws. w \<in> own ops m ws \<longrightarrow> mo_workspaceOf ops m w = ws \<and> ws \<in> set (mo_workspaces ops m)) \<and>
    (\<forall>m m' ws. mo_append ops m = (m', ws) \<longrightarrow> ws \<notin> set (mo_workspaces ops m) \<and> mo_workspaces ops m' = mo_workspaces ops m @ [ws] \<and>
      own ops m' = own ops m \<and> mo_onAll ops m' = mo_onAll ops m \<and> mo_active ops m' = mo_active ops m) \<and>
    (\<forall>m ws i. ws \<in> set (mo_workspaces ops m) \<longrightarrow> i < length (mo_workspaces ops m) \<longrightarrow>
      mo_workspaces ops (mo_reorder ops ws i m) = take i (remove1 ws (mo_workspaces ops m)) @ ws # drop i (remove1 ws (mo_workspaces ops m)) \<and>
      own ops (mo_reorder ops ws i m) = own ops m \<and> mo_onAll ops (mo_reorder ops ws i m) = mo_onAll ops m) \<and>
    (\<forall>m ws. ws \<in> set (mo_workspaces ops m) \<longrightarrow> own ops m ws = {} \<longrightarrow>
      mo_workspaces ops (mo_remove ops ws m) = remove1 ws (mo_workspaces ops m) \<and> own ops (mo_remove ops ws m) = own ops m \<and>
      mo_onAll ops (mo_remove ops ws m) = mo_onAll ops m \<and> (mo_active ops m \<noteq> ws \<longrightarrow> mo_active ops (mo_remove ops ws m) = mo_active ops m)) \<and>
    (\<forall>m w x ws. w \<in> own ops m x \<longrightarrow> ws \<in> set (mo_workspaces ops m) \<longrightarrow>
      mo_workspaces ops (mo_move ops w ws m) = mo_workspaces ops m \<and> mo_onAll ops (mo_move ops w ws m) = mo_onAll ops m \<and>
      own ops (mo_move ops w ws m) = (\<lambda>y. if y = ws then insert w (own ops m y) else own ops m y - {w})) \<and>
    (\<forall>m ws. mo_workspaces ops (mo_activate ops ws m) = mo_workspaces ops m \<and> own ops (mo_activate ops ws m) = own ops m \<and>
      mo_onAll ops (mo_activate ops ws m) = mo_onAll ops m)"

lemma manager_laws:
  assumes "manager_ok ops"
  shows distinct_workspaces: "distinct (mo_workspaces ops m)"
    and own_place: "w \<in> own ops m ws \<Longrightarrow> mo_workspaceOf ops m w = ws" "w \<in> own ops m ws \<Longrightarrow> ws \<in> set (mo_workspaces ops m)"
    and append_law: "mo_append ops m = (m', ws) \<Longrightarrow> ws \<notin> set (mo_workspaces ops m) \<and> mo_workspaces ops m' = mo_workspaces ops m @ [ws] \<and>
      own ops m' = own ops m \<and> mo_onAll ops m' = mo_onAll ops m \<and> mo_active ops m' = mo_active ops m"
    and reorder_law: "ws \<in> set (mo_workspaces ops m) \<Longrightarrow> i < length (mo_workspaces ops m) \<Longrightarrow>
      mo_workspaces ops (mo_reorder ops ws i m) = take i (remove1 ws (mo_workspaces ops m)) @ ws # drop i (remove1 ws (mo_workspaces ops m)) \<and>
      own ops (mo_reorder ops ws i m) = own ops m \<and> mo_onAll ops (mo_reorder ops ws i m) = mo_onAll ops m"
    and remove_law: "ws \<in> set (mo_workspaces ops m) \<Longrightarrow> own ops m ws = {} \<Longrightarrow>
      mo_workspaces ops (mo_remove ops ws m) = remove1 ws (mo_workspaces ops m) \<and> own ops (mo_remove ops ws m) = own ops m \<and>
      mo_onAll ops (mo_remove ops ws m) = mo_onAll ops m \<and> (mo_active ops m \<noteq> ws \<longrightarrow> mo_active ops (mo_remove ops ws m) = mo_active ops m)"
    and move_law: "w \<in> own ops m x \<Longrightarrow> ws \<in> set (mo_workspaces ops m) \<Longrightarrow>
      mo_workspaces ops (mo_move ops w ws m) = mo_workspaces ops m \<and> mo_onAll ops (mo_move ops w ws m) = mo_onAll ops m \<and>
      own ops (mo_move ops w ws m) = (\<lambda>y. if y = ws then insert w (own ops m y) else own ops m y - {w})"
    and activate_law: "mo_workspaces ops (mo_activate ops ws m) = mo_workspaces ops m \<and> own ops (mo_activate ops ws m) = own ops m \<and>
      mo_onAll ops (mo_activate ops ws m) = mo_onAll ops m"
  using assms unfolding manager_ok_def by blast+

lemma own_unique: "manager_ok ops \<Longrightarrow> w \<in> own ops m x \<Longrightarrow> w \<in> own ops m y \<Longrightarrow> x = y"
  using own_place(1) by metis

lemma hasOwnWindows_own: "workspaceHasOwnWindows ops ws s \<longleftrightarrow> own ops (tk_manager s) ws \<noteq> {}"
  by (auto simp: workspaceHasOwnWindows_def own_def)

subsection \<open>The list of workspaces\<close>

lemma js_indexOf_nth: "distinct xs \<Longrightarrow> i < length xs \<Longrightarrow> js_indexOf (xs ! i) xs = int i"
proof -
  assume d: "distinct xs" and i: "i < length xs"
  have "xs = take i xs @ xs ! i # drop (Suc i) xs" using i by (rule id_take_nth_drop)
  moreover have "xs ! i \<notin> set (take i xs)" using d i by (auto simp: in_set_conv_nth nth_eq_iff_index_eq)
  ultimately show ?thesis using js_indexOf_split [of "xs ! i" "take i xs" "drop (Suc i) xs"] i by simp
qed

lemma js_indexOf_self: "x \<in> set xs \<Longrightarrow> xs ! nat (js_indexOf x xs) = x"
  by (metis split_list_first js_indexOf_split nat_int nth_append_length)

lemma sort_key_own_index: "distinct xs \<Longrightarrow> set ys = set xs \<Longrightarrow> distinct ys \<Longrightarrow> sort_key (\<lambda>x. js_indexOf x xs) ys = xs"
proof -
  assume d: "distinct xs" and set: "set ys = set xs" and dy: "distinct ys"
  have "sorted (map (\<lambda>x. js_indexOf x xs) xs)"
    using js_indexOf_nth [OF d] by (auto simp: sorted_iff_nth_mono)
  moreover have "mset xs = mset ys" using d dy set by (metis set_eq_iff_mset_eq_distinct)
  moreover have "inj_on (\<lambda>x. js_indexOf x xs) (set ys)"
    unfolding set by (rule inj_onI) (metis d in_set_conv_nth js_indexOf_nth of_nat_eq_iff)
  ultimately show ?thesis by (intro sort_key_inj_key_eq) simp_all
qed

text \<open>The list of the tracker is that of the manager, and workspaces that are reserved exist.\<close>

definition synced :: "'m manager_ops \<Rightarrow> 'm tracker \<Rightarrow> bool" where
  "synced ops s \<longleftrightarrow> tk_workspaces s = mo_workspaces ops (tk_manager s) \<and> tk_startup s \<union> tk_splash s \<union> tk_newTiling s \<subseteq> set (tk_workspaces s)"

text \<open>Steps that leave the windows where they are.\<close>

definition stays :: "'m manager_ops \<Rightarrow> 'm tracker \<Rightarrow> 'm tracker \<Rightarrow> bool" where
  "stays ops s s' \<longleftrightarrow> own ops (tk_manager s') = own ops (tk_manager s) \<and> mo_onAll ops (tk_manager s') = mo_onAll ops (tk_manager s) \<and>
    tk_windowData s' = tk_windowData s \<and> tk_single s' = tk_single s \<and> tk_blocked s' = tk_blocked s \<and> tk_laterDone s' = tk_laterDone s"

lemma stays_refl [simp]: "stays ops s s"
  by (simp add: stays_def)

lemma stays_trans: "stays ops s t \<Longrightarrow> stays ops t u \<Longrightarrow> stays ops s u"
  by (simp add: stays_def)

lemma wm_emit_simps [simp]:
  "tk_manager (wm_emit c s) = tk_manager s" "tk_workspaces (wm_emit c s) = tk_workspaces s" "tk_windowData (wm_emit c s) = tk_windowData s"
  "tk_single (wm_emit c s) = tk_single s" "tk_blocked (wm_emit c s) = tk_blocked s" "tk_laterDone (wm_emit c s) = tk_laterDone s"
  "tk_startup (wm_emit c s) = tk_startup s" "tk_splash (wm_emit c s) = tk_splash s" "tk_newTiling (wm_emit c s) = tk_newTiling s"
  "tk_overlay (wm_emit c s) = tk_overlay s" "synced ops (wm_emit c s) = synced ops s" "stays ops s (wm_emit c s)"
  by (simp_all add: wm_emit_def synced_def stays_def)

lemma appendWorkspace_spec:
  assumes ok: "manager_ok ops" and sy: "synced ops s" and a: "appendWorkspace ops s = (s', ws)"
  shows "synced ops s' \<and> stays ops s s' \<and> ws \<notin> set (tk_workspaces s) \<and> tk_workspaces s' = tk_workspaces s @ [ws] \<and>
    s' = s\<lparr>tk_manager := tk_manager s', tk_workspaces := tk_workspaces s'\<rparr> \<and> mo_active ops (tk_manager s') = mo_active ops (tk_manager s)"
proof -
  obtain m' x where m: "mo_append ops (tk_manager s) = (m', x)" by fastforce
  note law = append_law [OF ok m]
  have x: "x = ws" and s': "s' = workspaceAdded ops (nat (js_indexOf x (mo_workspaces ops m'))) (s\<lparr>tk_manager := m'\<rparr>)"
    using a m by (auto simp: appendWorkspace_def workspace_index_def Let_def)
  have "js_indexOf x (mo_workspaces ops m') = int (length (tk_workspaces s))"
    using law sy js_indexOf_split [of x "mo_workspaces ops (tk_manager s)" "[]"] by (simp add: synced_def)
  then have "s' = s\<lparr>tk_manager := m', tk_workspaces := tk_workspaces s @ [ws]\<rparr>"
    using law sy by (simp add: s' workspaceAdded_def synced_def nth_append x)
  then show ?thesis using law sy x by (auto simp: synced_def stays_def)
qed

lemma reorderWorkspace_spec:
  assumes ok: "manager_ok ops" and sy: "synced ops s" and ws: "ws \<in> set (tk_workspaces s)" and i: "i < length (tk_workspaces s)"
  shows "synced ops (reorderWorkspace ops ws i s) \<and> stays ops s (reorderWorkspace ops ws i s) \<and>
    set (tk_workspaces (reorderWorkspace ops ws i s)) = set (tk_workspaces s) \<and>
    mo_workspaces ops (tk_manager (reorderWorkspace ops ws i s)) ! i = ws \<and>
    tk_overlay (reorderWorkspace ops ws i s) = tk_overlay s"
proof -
  let ?m = "tk_manager s"
  let ?m' = "mo_reorder ops ws i ?m" and ?r = "remove1 ws (mo_workspaces ops ?m)"
  have in': "ws \<in> set (mo_workspaces ops ?m)" "i < length (mo_workspaces ops ?m)" using sy ws i by (simp_all add: synced_def)
  note law = reorder_law [OF ok in']
  have d: "distinct (mo_workspaces ops ?m)" by (rule distinct_workspaces [OF ok])
  have set': "set (mo_workspaces ops ?m') = set (mo_workspaces ops ?m)"
    using law in'(1) d by simp (metis Un_insert_right append_take_drop_id insert_Diff_single insert_absorb set_append set_remove1_eq)
  have srt: "sort_key (\<lambda>x. js_indexOf x (mo_workspaces ops ?m')) (mo_workspaces ops ?m) = mo_workspaces ops ?m'"
    by (rule sort_key_own_index) (use set' d distinct_workspaces [OF ok] in auto)
  have eq: "reorderWorkspace ops ws i s = s\<lparr>tk_manager := ?m', tk_workspaces := mo_workspaces ops ?m'\<rparr>"
    using sy srt by (simp add: reorderWorkspace_def workspacesReordered_def workspace_index_def synced_def)
  have "i \<le> length ?r" using in' by (simp add: length_remove1)
  then have "mo_workspaces ops ?m' ! i = ws" using law by (simp add: nth_append)
  then show ?thesis using law sy set' by (auto simp: eq synced_def stays_def)
qed

lemma removeWorkspace_spec:
  assumes ok: "manager_ok ops" and sy: "synced ops s" and ws: "ws \<in> set (tk_workspaces s)" and free: "own ops (tk_manager s) ws = {}"
    and res: "\<not> reserved ws s" "ws \<notin> tk_overlay s"
  shows "synced ops (removeWorkspace ops ws s) \<and> stays ops s (removeWorkspace ops ws s) \<and>
    tk_workspaces (removeWorkspace ops ws s) = remove1 ws (tk_workspaces s) \<and>
    removeWorkspace ops ws s = s\<lparr>tk_manager := mo_remove ops ws (tk_manager s), tk_workspaces := remove1 ws (tk_workspaces s)\<rparr>"
proof -
  let ?i = "js_indexOf ws (tk_workspaces s)"
  have in': "ws \<in> set (mo_workspaces ops (tk_manager s))" using sy ws by (simp add: synced_def)
  note law = remove_law [OF ok in' free]
  have "0 \<le> ?i" "?i < int (length (tk_workspaces s))" using ws js_indexOf_nonneg js_indexOf_bound by metis+
  moreover have "tk_workspaces s ! nat ?i = ws" using ws by (rule js_indexOf_self)
  ultimately have eq: "removeWorkspace ops ws s = s\<lparr>tk_manager := mo_remove ops ws (tk_manager s), tk_workspaces := remove1 ws (tk_workspaces s)\<rparr>"
    using sy res js_splice1_indexOf [OF ws] by (simp add: removeWorkspace_def workspaceRemoved_def workspace_index_def synced_def reserved_def Let_def)
  have "tk_startup s \<union> tk_splash s \<union> tk_newTiling s \<subseteq> set (remove1 ws (tk_workspaces s))"
    using sy res distinct_workspaces [OF ok, of "tk_manager s"] by (auto simp: synced_def reserved_def)
  then show ?thesis using law sy by (simp add: eq synced_def stays_def)
qed

lemma maybeRemoveWorkspace_single:
  assumes ok: "manager_ok ops" and sy: "synced ops s" and single: "tk_single s" and ws: "ws \<in> set (tk_workspaces s)"
    and s'_def: "s' = maybeRemoveWorkspace ops env ws s"
  shows "synced ops s' \<and> stays ops s s' \<and> tk_startup s' = tk_startup s \<and> tk_splash s' = tk_splash s \<and> tk_newTiling s' = tk_newTiling s \<and>
    (tk_workspaces s' = tk_workspaces s \<or>
      own ops (tk_manager s) ws = {} \<and> \<not> reserved ws s \<and> 1 < length (tk_workspaces s) \<and> tk_workspaces s' = remove1 ws (tk_workspaces s)) \<and>
    (tk_blocked s \<or> reserved ws s \<or> own ops (tk_manager s) ws \<noteq> {} \<or> length (tk_workspaces s) \<le> 1 \<or> tk_workspaces s' = remove1 ws (tk_workspaces s))"
proof (cases "tk_blocked s \<or> reserved ws s \<or> own ops (tk_manager s) ws \<noteq> {}")
  case True
  then have "s' = s" using single by (auto simp: s'_def maybeRemoveWorkspace_def reserved_def hasOwnWindows_own)
  then show ?thesis using sy True by auto
next
  case False
  define s1 where "s1 = (if ws \<in> tk_overlay s then wm_emit (OverlayDestroyed ws) (s\<lparr>tk_overlay := tk_overlay s - {ws}\<rparr>) else s)"
  define s2 where "s2 = (if \<not> we_startingUp env \<and> mo_active ops (tk_manager s1) = ws then wm_emit ShowOverview s1 else s1)"
  have s': "s' = (if length (tk_workspaces s2) > 1 then removeWorkspace ops ws s2 else wm_emit NotifyZeroOpenWindows s2)"
    using False single unfolding s'_def maybeRemoveWorkspace_def s2_def s1_def by (simp add: reserved_def hasOwnWindows_own Let_def)
  have f: "synced ops s2" "stays ops s s2" "tk_workspaces s2 = tk_workspaces s" "tk_manager s2 = tk_manager s" "tk_startup s2 = tk_startup s"
      "tk_splash s2 = tk_splash s" "tk_newTiling s2 = tk_newTiling s" "ws \<notin> tk_overlay s2"
    using sy by (auto simp: s2_def s1_def synced_def stays_def)
  have res: "\<not> reserved ws s2" using False f by (simp add: reserved_def)
  show ?thesis
  proof (cases "length (tk_workspaces s2) > 1")
    case True
    have "synced ops s' \<and> stays ops s2 s' \<and> tk_workspaces s' = remove1 ws (tk_workspaces s2) \<and> tk_startup s' = tk_startup s2 \<and>
        tk_splash s' = tk_splash s2 \<and> tk_newTiling s' = tk_newTiling s2"
      using removeWorkspace_spec [OF ok f(1), of ws] ws f False res True unfolding s' by simp (metis tracker.simps)
    then show ?thesis using f False True by (auto intro: stays_trans)
  next
    case single: False
    then show ?thesis using f by (auto simp: s' intro: stays_trans)
  qed
qed

lemma windowRemoved_spec:
  assumes ok: "manager_ok ops" and sy: "synced ops s" and single: "tk_single s" and ws: "ws \<in> set (tk_workspaces s)"
  shows "synced ops (windowRemovedFromWorkspace ops env ws w s) \<and> stays ops s (windowRemovedFromWorkspace ops env ws w s)"
proof -
  have "synced ops (s\<lparr>tk_splash := insert ws (tk_splash s)\<rparr>)" using sy ws by (auto simp: synced_def)
  moreover have "stays ops s (s\<lparr>tk_splash := insert ws (tk_splash s)\<rparr>)" by (simp add: stays_def)
  moreover have "synced ops (s\<lparr>tk_laters := ls, tk_addedLater := a\<rparr>) \<and> stays ops s (s\<lparr>tk_laters := ls, tk_addedLater := a\<rparr>)" for ls a
    using sy by (auto simp: synced_def stays_def)
  ultimately show ?thesis using sy maybeRemoveWorkspace_single [OF ok sy single ws refl, of env] by (simp add: windowRemovedFromWorkspace_def)
qed

subsection \<open>Windows that are alone\<close>

definition should :: "'m tracker \<Rightarrow> nat \<Rightarrow> bool" where
  "should s v \<longleftrightarrow> jm_get (tk_windowData s) v = Some True"

text \<open>
  Every window that should have its own workspace is on one, and no other such window is there; \<open>E\<close> may be on none,
  and \<open>W\<close> may have company.
\<close>

definition alone_but :: "'m manager_ops \<Rightarrow> nat set \<Rightarrow> nat set \<Rightarrow> 'm tracker \<Rightarrow> bool" where
  "alone_but ops E W s \<longleftrightarrow> synced ops s \<and> distinct (jm_keys (tk_windowData s)) \<and>
    (\<forall>v. should s v \<longrightarrow> v \<notin> E \<longrightarrow> (\<exists>x. v \<in> own ops (tk_manager s) x)) \<and>
    (\<forall>v1 v2 x. should s v1 \<longrightarrow> should s v2 \<longrightarrow> v1 \<notin> W \<longrightarrow> v2 \<notin> W \<longrightarrow> v1 \<in> own ops (tk_manager s) x \<longrightarrow> v2 \<in> own ops (tk_manager s) x \<longrightarrow> v1 = v2)"

abbreviation alone :: "'m manager_ops \<Rightarrow> 'm tracker \<Rightarrow> bool" where
  "alone ops s \<equiv> alone_but ops {} {} s"

lemma alone_but_alone:
  assumes "alone_but ops {w} (insert w W) s" and "should s w \<Longrightarrow> w \<in> own ops (tk_manager s) x \<and> (\<forall>v. v \<noteq> w \<longrightarrow> should s v \<longrightarrow> v \<notin> own ops (tk_manager s) x)"
    and ok: "manager_ok ops"
  shows "alone_but ops {} W s"
  using assms(1,2) own_unique [OF ok] unfolding alone_but_def by (metis (no_types, lifting) insert_iff singletonD)

lemma alone_but_mono: "alone_but ops D V s \<Longrightarrow> D \<subseteq> E \<Longrightarrow> V \<subseteq> W \<Longrightarrow> alone_but ops E W s"
  unfolding alone_but_def by blast

lemma alone_but_stays: "stays ops s s' \<Longrightarrow> synced ops s' \<Longrightarrow> alone_but ops E W s \<Longrightarrow> alone_but ops E W s'"
  by (simp add: stays_def alone_but_def should_def)

lemma hasOtherWindows_iff:
  assumes ok: "manager_ok ops" and al: "alone_but ops {w} (insert w W) s" and w: "w \<in> own ops (tk_manager s) x"
  shows "workspaceHasOtherWindows ops w s \<longleftrightarrow> (\<exists>v. v \<noteq> w \<and> should s v \<and> v \<in> own ops (tk_manager s) x)"
proof -
  have dk: "distinct (jm_keys (tk_windowData s))" using al by (simp add: alone_but_def)
  have "v \<in> own ops (tk_manager s) x \<longleftrightarrow> mo_workspaceOf ops (tk_manager s) v = mo_workspaceOf ops (tk_manager s) w \<or> mo_onAll ops (tk_manager s) v"
    if v: "v \<noteq> w" "should s v" for v
  proof -
    obtain y where "v \<in> own ops (tk_manager s) y" using al v unfolding alone_but_def by blast
    then show ?thesis using own_place(1) [OF ok] w by (metis (no_types, lifting) mem_Collect_eq own_def)
  qed
  moreover have "should s v \<longleftrightarrow> (v, True) \<in> set (tk_windowData s)" for v using dk by (simp add: should_def)
  ultimately show ?thesis unfolding workspaceHasOtherWindows_def by fastforce
qed

text \<open>
  What a step does to the windows when it deals with those of \<open>V\<close>: the others stay, all but \<open>W\<close> are alone afterwards,
  and what is recorded anew is recorded of a window that has an actor, and that is no dialog if it should be alone.
\<close>

definition settles :: "'m manager_ops \<Rightarrow> win_env \<Rightarrow> nat set \<Rightarrow> nat set \<Rightarrow> 'm tracker \<Rightarrow> 'm tracker \<Rightarrow> bool" where
  "settles ops env W V s s' \<longleftrightarrow> alone_but ops {} W s' \<and> tk_single s' = tk_single s \<and> tk_blocked s' = tk_blocked s \<and>
    mo_onAll ops (tk_manager s') = mo_onAll ops (tk_manager s) \<and>
    (\<forall>v x. v \<notin> V \<longrightarrow> (v \<in> own ops (tk_manager s') x \<longleftrightarrow> v \<in> own ops (tk_manager s) x)) \<and>
    (\<forall>v. (\<exists>x. v \<in> own ops (tk_manager s') x) \<longleftrightarrow> (\<exists>x. v \<in> own ops (tk_manager s) x)) \<and>
    (\<forall>v. jm_get (tk_windowData s') v \<noteq> jm_get (tk_windowData s) v \<longrightarrow>
      v \<in> V \<and> v \<in> tk_laterDone s' \<and> we_hasActor env v \<and> (should s' v \<longrightarrow> we_transientFor env v = None)) \<and>
    tk_laterDone s \<subseteq> tk_laterDone s'"

lemma settles_stays: "stays ops s t \<Longrightarrow> settles ops env W V t u \<Longrightarrow> settles ops env W V s u"
  by (simp add: settles_def stays_def)

lemma stays_settles: "stays ops s t \<Longrightarrow> synced ops t \<Longrightarrow> alone_but ops {} W s \<Longrightarrow> settles ops env W V s t"
  using alone_but_stays by (fastforce simp: settles_def stays_def)

lemma settles_then_stays: "settles ops env W V s t \<Longrightarrow> stays ops t u \<Longrightarrow> synced ops u \<Longrightarrow> settles ops env W V s u"
  using alone_but_stays [of ops t u "{}" W] unfolding settles_def stays_def should_def by (simp, blast)

lemma settles_mono: "settles ops env W V s t \<Longrightarrow> V \<subseteq> U \<Longrightarrow> settles ops env W U s t"
  unfolding settles_def by blast

lemma settles_trans: "settles ops env W V s t \<Longrightarrow> settles ops env W V t u \<Longrightarrow> settles ops env W V s u"
  unfolding settles_def should_def by (simp, metis subsetD subset_trans)

text \<open>
  The windows that follow \<open>w\<close>: its dialogs, when it is no dialog itself, and the window it is a dialog of; they are
  on a workspace, and have an actor where they should be alone.
\<close>

definition follow_ok :: "'m manager_ops \<Rightarrow> win_env \<Rightarrow> 'm tracker \<Rightarrow> nat \<Rightarrow> bool" where
  "follow_ok ops env s w \<longleftrightarrow> (\<forall>v\<in>set (we_follow env w). v \<noteq> w \<and>
    (we_transientFor env v = Some w \<and> we_transientFor env w = None \<or> we_transientFor env w = Some v) \<and>
    (\<exists>x. v \<in> own ops (tk_manager s) x) \<and> (should s v \<longrightarrow> we_hasActor env v))"

lemma follow_ok_stays: "stays ops s t \<Longrightarrow> follow_ok ops env s w \<Longrightarrow> follow_ok ops env t w"
  by (simp add: follow_ok_def stays_def should_def)

lemma follow_ok_settles: "settles ops env W V s t \<Longrightarrow> follow_ok ops env s w \<Longrightarrow> follow_ok ops env t w"
  unfolding follow_ok_def settles_def should_def by metis

abbreviation with_follow :: "win_env \<Rightarrow> nat \<Rightarrow> nat set" where
  "with_follow env w \<equiv> insert w (set (we_follow env w))"

lemma startupShown_stays: "stays ops s (startupShown ops env ws w s) \<and> synced ops (startupShown ops env ws w s) = synced ops s"
  by (auto simp: startupShown_def wm_maximize_def animateOutStartupOverlay_def wm_emit_def stays_def synced_def Let_def split: prod.splits)

lemma notifyZero_stays: "stays ops s (notifyZero s) \<and> synced ops (notifyZero s) = synced ops s"
  by (simp add: notifyZero_def)

lemma noteWindow_simps [simp]:
  "tk_manager (noteWindow ops env ws w s) = tk_manager s" "tk_workspaces (noteWindow ops env ws w s) = tk_workspaces s"
  "tk_single (noteWindow ops env ws w s) = tk_single s" "tk_blocked (noteWindow ops env ws w s) = tk_blocked s"
  "tk_laterDone (noteWindow ops env ws w s) = insert w (tk_laterDone s)" "tk_startup (noteWindow ops env ws w s) = tk_startup s - {ws}"
  "tk_splash (noteWindow ops env ws w s) = tk_splash s" "tk_newTiling (noteWindow ops env ws w s) = tk_newTiling s"
  "tk_windowData (noteWindow ops env ws w s) = jm_set (tk_windowData s) w (windowShouldHaveOwnWorkspace ops env w s)"
  by (simp_all add: noteWindow_def windowShouldHaveOwnWorkspace_def Let_def)

lemma synced_less: "synced ops s \<Longrightarrow> tk_manager s' = tk_manager s \<Longrightarrow> tk_workspaces s' = tk_workspaces s \<Longrightarrow>
  tk_startup s' \<subseteq> tk_startup s \<Longrightarrow> tk_splash s' \<subseteq> tk_splash s \<Longrightarrow> tk_newTiling s' \<subseteq> tk_newTiling s \<Longrightarrow> synced ops s'"
  by (auto simp: synced_def)

subsection \<open>A window is added\<close>

text \<open>The changes of the handler before it decides anything.\<close>

definition noted :: "'m manager_ops \<Rightarrow> win_env \<Rightarrow> nat \<Rightarrow> nat \<Rightarrow> 'm tracker \<Rightarrow> 'm tracker" where
  "noted ops env ws w s = (let s1 = noteWindow ops env ws w s
    in s1\<lparr>tk_splash := tk_splash s1 - {ws}, tk_newTiling := tk_newTiling s1 - {ws}\<rparr>)"

lemma noted_simps [simp]:
  "tk_manager (noted ops env ws w s) = tk_manager s" "tk_single (noted ops env ws w s) = tk_single s"
  "tk_blocked (noted ops env ws w s) = tk_blocked s" "tk_laterDone (noted ops env ws w s) = insert w (tk_laterDone s)"
  "tk_workspaces (noted ops env ws w s) = tk_workspaces s"
  "tk_windowData (noted ops env ws w s) = jm_set (tk_windowData s) w (windowShouldHaveOwnWorkspace ops env w s)"
  by (simp_all add: noted_def Let_def)

lemma noted_should: "should (noted ops env ws w s) v \<longleftrightarrow> (if v = w then windowShouldHaveOwnWorkspace ops env w s else should s v)"
  by (auto simp: should_def)

lemma noted_alone_but: "alone_but ops {w} (insert w W) s \<Longrightarrow> alone_but ops {w} (insert w W) (noted ops env ws w s)"
proof -
  assume al: "alone_but ops {w} (insert w W) s"
  have "synced ops (noted ops env ws w s)"
    by (rule synced_less [of ops s]) (use al in \<open>auto simp: alone_but_def noted_def Let_def\<close>)
  then show ?thesis using al by (auto simp: alone_but_def noted_should jm_keys_set)
qed

lemma windowAdded_single:
  assumes "tk_single s" and "we_dynamic env" and "we_hasActor env w"
  shows "windowAddedToWorkspace ops env (Suc n) ws w s =
    (if mo_onAll ops (tk_manager s) w then Some (noteWindow ops env ws w s)
     else (let s3 = noted ops env ws w s; t = map_option (mo_workspaceOf ops (tk_manager s)) (we_transientFor env w)
       in if t \<noteq> None \<and> the t \<noteq> ws then changeWorkspace ops env (windowAddedToWorkspace ops env n) w (the t) s3
          else (case maybeMoveToOwnWorkspace ops env (windowAddedToWorkspace ops env n) w s3 of
              None \<Rightarrow> None
            | Some (s4, moved) \<Rightarrow> Some (if moved then s4 else notifyZero (startupShown ops env ws w s4)))))"
  using assms by (simp add: noted_def Let_def)

text \<open>It stays where it is when it is where its parent is, and nobody else is there who should be alone.\<close>

lemma windowAdded_stop:
  assumes ok: "manager_ok ops" and env: "tk_single s" "we_dynamic env" "we_hasActor env w"
    and al: "alone_but ops {w} (insert w W) s" and w: "w \<in> own ops (tk_manager s) ws"
    and free: "windowShouldHaveOwnWorkspace ops env w s \<Longrightarrow> \<forall>v. v \<noteq> w \<longrightarrow> should s v \<longrightarrow> v \<notin> own ops (tk_manager s) ws"
    and tr: "\<And>t. we_transientFor env w = Some t \<Longrightarrow> t \<in> own ops (tk_manager s) ws"
  shows "\<exists>s'. windowAddedToWorkspace ops env (Suc n) ws w s = Some s' \<and> settles ops env W {w} s s' \<and> own ops (tk_manager s') = own ops (tk_manager s)"
proof -
  define s3 where "s3 = noted ops env ws w s"
  define s' where "s' = notifyZero (startupShown ops env ws w s3)"
  have al3: "alone_but ops {w} (insert w W) s3" unfolding s3_def by (rule noted_alone_but [OF al])
  have "should s3 w \<Longrightarrow> w \<in> own ops (tk_manager s3) ws \<and> (\<forall>v. v \<noteq> w \<longrightarrow> should s3 v \<longrightarrow> v \<notin> own ops (tk_manager s3) ws)"
    using free w by (simp add: s3_def noted_should)
  then have a3: "alone_but ops {} W s3" by (rule alone_but_alone [OF al3 _ ok])
  have st: "stays ops s3 s' \<and> synced ops s'"
    using startupShown_stays [of ops s3 env ws w] notifyZero_stays [of ops "startupShown ops env ws w s3"] a3
    unfolding s'_def alone_but_def by (auto intro: stays_trans)
  have "\<not> mo_onAll ops (tk_manager s) w" using w by (simp add: own_def)
  moreover have "map_option (mo_workspaceOf ops (tk_manager s)) (we_transientFor env w) \<in> {None, Some ws}"
    using tr own_place(1) [OF ok] by (cases "we_transientFor env w") auto
  moreover have "maybeMoveToOwnWorkspace ops env added w s3 = Some (s3, False)" for added
    using hasOtherWindows_iff [OF ok al3, of ws] w free unfolding maybeMoveToOwnWorkspace_def
    by (auto simp: s3_def noted_should should_def [symmetric] simp del: noted_simps(6))
  ultimately have "windowAddedToWorkspace ops env (Suc n) ws w s = Some s'"
    unfolding windowAdded_single [OF env] s3_def [symmetric] by (auto simp: Let_def s'_def)
  moreover have "alone_but ops {} W s'" using alone_but_stays st a3 by blast
  moreover have "settles ops env W {w} s s'"
    unfolding settles_def
  proof (intro conjI allI impI)
    fix v
    assume ne: "jm_get (tk_windowData s') v \<noteq> jm_get (tk_windowData s) v"
    have v: "v = w" using ne st by (auto simp: stays_def s3_def split: if_splits)
    show "v \<in> {w}" "v \<in> tk_laterDone s'" "we_hasActor env v" using v st env(3) by (auto simp: stays_def s3_def)
    show "we_transientFor env v = None" if "should s' v"
      using that v st by (auto simp: stays_def s3_def should_def windowShouldHaveOwnWorkspace_def split: if_splits)
  qed (use st calculation env(3) in \<open>auto simp: stays_def s3_def split: if_splits\<close>)
  ultimately show ?thesis using st by (auto simp: stays_def s3_def)
qed

text \<open>A window leaves its workspace for \<open>ws\<close>; its arrival is not yet handled.\<close>

lemma moved_removed:
  assumes ok: "manager_ok ops" and single: "tk_single s" and al: "alone_but ops {w} (insert w W) s"
    and w: "w \<in> own ops (tk_manager s) x" and ws: "ws \<in> set (tk_workspaces s)"
    and s2_def: "s2 = windowRemovedFromWorkspace ops env x w (s\<lparr>tk_manager := mo_move ops w ws (tk_manager s)\<rparr>)"
  shows "alone_but ops {w} (insert w W) s2 \<and>
    own ops (tk_manager s2) = (\<lambda>y. if y = ws then insert w (own ops (tk_manager s) y) else own ops (tk_manager s) y - {w}) \<and>
    mo_onAll ops (tk_manager s2) = mo_onAll ops (tk_manager s) \<and> tk_windowData s2 = tk_windowData s \<and> tk_single s2 = tk_single s \<and>
    tk_blocked s2 = tk_blocked s \<and> tk_laterDone s2 = tk_laterDone s"
proof -
  let ?m = "tk_manager s"
  define s1 where "s1 = s\<lparr>tk_manager := mo_move ops w ws ?m\<rparr>"
  have sy: "synced ops s" using al by (simp add: alone_but_def)
  have ws': "ws \<in> set (mo_workspaces ops ?m)" using ws sy by (simp add: synced_def)
  note law = move_law [OF ok w ws']
  have sy1: "synced ops s1" "x \<in> set (tk_workspaces s1)" using sy law own_place(2) [OF ok w] by (auto simp: s1_def synced_def)
  have r: "synced ops s2 \<and> stays ops s1 s2"
    unfolding s2_def s1_def [symmetric] by (rule windowRemoved_spec [OF ok sy1(1) _ sy1(2)]) (use single in \<open>simp add: s1_def\<close>)
  have own2: "own ops (tk_manager s2) = (\<lambda>y. if y = ws then insert w (own ops ?m y) else own ops ?m y - {w})"
    "mo_onAll ops (tk_manager s2) = mo_onAll ops ?m" "tk_windowData s2 = tk_windowData s" "tk_single s2 = tk_single s" "tk_blocked s2 = tk_blocked s"
    "tk_laterDone s2 = tk_laterDone s"
    using r law by (simp_all add: stays_def s1_def)
  have sh: "should s2 v = should s v" for v by (simp add: should_def own2(3))
  have others: "v \<in> own ops (tk_manager s2) y \<longleftrightarrow> v \<in> own ops ?m y" if "v \<noteq> w" for v y using that by (simp add: own2(1))
  have "alone_but ops {w} (insert w W) s2" using al r others by (simp add: alone_but_def sh own2(3))
  then show ?thesis using own2 by blast
qed

lemma changeAlone_stops:
  assumes ok: "manager_ok ops" and env: "tk_single s" "we_dynamic env" and act: "we_hasActor env w \<or> \<not> should s w"
    and al: "alone_but ops {w} (insert w W) s" and w: "w \<in> own ops (tk_manager s) x"
    and ws: "ws \<in> set (tk_workspaces s)" "ws \<noteq> x"
    and free: "we_transientFor env w \<noteq> None \<or> (\<forall>v. should s v \<longrightarrow> v \<notin> own ops (tk_manager s) ws)"
    and tr: "\<And>t. we_transientFor env w = Some t \<Longrightarrow> t \<noteq> w \<and> t \<in> own ops (tk_manager s) ws"
  shows "\<exists>s'. changeWorkspaceAlone ops env (windowAddedToWorkspace ops env (Suc n)) ws w s = Some s' \<and> settles ops env W {w} s s' \<and>
    own ops (tk_manager s') = (\<lambda>y. if y = ws then insert w (own ops (tk_manager s) y) else own ops (tk_manager s) y - {w})"
proof -
  let ?m = "tk_manager s"
  define s2 where "s2 = windowRemovedFromWorkspace ops env x w (s\<lparr>tk_manager := mo_move ops w ws ?m\<rparr>)"
  note own2 = moved_removed [OF ok env(1) al w ws(1) s2_def]
  have al2: "alone_but ops {w} (insert w W) s2" using own2 by blast
  have sh: "should s2 v = should s v" for v using own2 by (simp add: should_def)
  have others: "v \<in> own ops (tk_manager s2) y \<longleftrightarrow> v \<in> own ops ?m y" if "v \<noteq> w" for v y using that own2 by simp
  have ch: "changeWorkspaceAlone ops env (windowAddedToWorkspace ops env (Suc n)) ws w s = windowAddedToWorkspace ops env (Suc n) ws w s2"
    using ws(2) own_place(1) [OF ok w] by (simp add: changeWorkspaceAlone_def Let_def s2_def)
  have "\<exists>s'. windowAddedToWorkspace ops env (Suc n) ws w s2 = Some s' \<and> settles ops env W {w} s2 s' \<and>
    own ops (tk_manager s') = own ops (tk_manager s2)"
  proof (cases "we_hasActor env w")
    case True
    show ?thesis
    proof (rule windowAdded_stop [OF ok _ env(2) True al2])
      show "tk_single s2" using env(1) own2 by simp
      show "w \<in> own ops (tk_manager s2) ws" using own2 by simp
      show "\<forall>v. v \<noteq> w \<longrightarrow> should s2 v \<longrightarrow> v \<notin> own ops (tk_manager s2) ws" if "windowShouldHaveOwnWorkspace ops env w s2"
        using that free others by (simp add: sh windowShouldHaveOwnWorkspace_def split: if_splits)
      show "t \<in> own ops (tk_manager s2) ws" if "we_transientFor env w = Some t" for t using tr [OF that] others by simp
    qed
  next
    case False
    then have "alone_but ops {} W s2" using act sh alone_but_alone [OF al2 _ ok] by blast
    moreover have "stays ops s2 (addLater ws w s2) \<and> synced ops (addLater ws w s2)"
      using al2 by (auto simp: addLater_def stays_def synced_def alone_but_def)
    ultimately have "settles ops env W {w} s2 (addLater ws w s2)" "own ops (tk_manager (addLater ws w s2)) = own ops (tk_manager s2)"
      using stays_settles by (blast, simp add: stays_def)
    then show ?thesis using False by simp
  qed
  then obtain s' where s': "windowAddedToWorkspace ops env (Suc n) ws w s2 = Some s'" "settles ops env W {w} s2 s'"
    "own ops (tk_manager s') = own ops (tk_manager s2)" by blast
  have w2: "(\<exists>y. v \<in> own ops (tk_manager s2) y) \<longleftrightarrow> (\<exists>y. v \<in> own ops ?m y)" for v using w own2 by (cases "v = w") auto
  have "settles ops env W {w} s s'" using s'(2) own2 others w2 unfolding settles_def by auto
  then show ?thesis using s'(1,3) own2 unfolding ch by simp
qed

text \<open>The windows that follow one after the other, and none of them is moved on.\<close>

lemma follow_settles:
  assumes ok: "manager_ok ops" and dyn: "we_dynamic env"
  shows "tk_single s \<Longrightarrow> alone_but ops {} W s \<Longrightarrow> w \<in> own ops (tk_manager s) ws \<Longrightarrow>
    (\<And>t. we_transientFor env w = Some t \<Longrightarrow> t \<in> own ops (tk_manager s) ws) \<Longrightarrow>
    (\<And>v. v \<in> set vs \<Longrightarrow> v \<noteq> w \<and>
      (we_transientFor env v = Some w \<and> we_transientFor env w = None \<or> we_transientFor env w = Some v) \<and>
      (\<exists>x. v \<in> own ops (tk_manager s) x) \<and> (should s v \<longrightarrow> we_hasActor env v)) \<Longrightarrow>
    \<exists>s'. changeWorkspaces ops env (windowAddedToWorkspace ops env (Suc n)) ws vs s = Some s' \<and> settles ops env W (set vs) s s'"
proof (induction vs arbitrary: s)
  case Nil
  then show ?case using stays_settles [of ops s s W env "{}"] by (auto simp: alone_but_def)
next
  case (Cons v vs)
  note v = Cons.prems(5) [of v, simplified]
  obtain x where x: "v \<in> own ops (tk_manager s) x" using v by blast
  have wsp: "ws \<in> set (tk_workspaces s)"
    using own_place(2) [OF ok Cons.prems(3)] Cons.prems(2) by (simp add: alone_but_def synced_def)
  have "\<exists>s1. changeWorkspaceAlone ops env (windowAddedToWorkspace ops env (Suc n)) ws v s = Some s1 \<and> settles ops env W {v} s s1 \<and>
    (\<forall>u. u \<noteq> v \<longrightarrow> (u \<in> own ops (tk_manager s1) ws \<longleftrightarrow> u \<in> own ops (tk_manager s) ws)) \<and>
    (v \<in> own ops (tk_manager s) ws \<longrightarrow> v \<in> own ops (tk_manager s1) ws)"
  proof (cases "x = ws")
    case True
    then have "changeWorkspaceAlone ops env (windowAddedToWorkspace ops env (Suc n)) ws v s = Some s"
      using own_place(1) [OF ok x] by (simp add: changeWorkspaceAlone_def Let_def)
    then show ?thesis using stays_settles [of ops s s W env "{v}"] Cons.prems(2) by (auto simp: alone_but_def)
  next
    case False
    then have child: "we_transientFor env v = Some w" "we_transientFor env w = None"
      using v x Cons.prems(4) own_unique [OF ok] by metis+
    have al: "alone_but ops {v} (insert v W) s" using Cons.prems(2) by (rule alone_but_mono) auto
    obtain s1 where "changeWorkspaceAlone ops env (windowAddedToWorkspace ops env (Suc n)) ws v s = Some s1" "settles ops env W {v} s s1"
      "own ops (tk_manager s1) = (\<lambda>y. if y = ws then insert v (own ops (tk_manager s) y) else own ops (tk_manager s) y - {v})"
      using changeAlone_stops [OF ok Cons.prems(1) dyn _ al x wsp, of n] v child Cons.prems(3) False by auto
    then show ?thesis by auto
  qed
  then obtain s1 where s1: "changeWorkspaceAlone ops env (windowAddedToWorkspace ops env (Suc n)) ws v s = Some s1" "settles ops env W {v} s s1"
    "\<And>u. u \<noteq> v \<Longrightarrow> u \<in> own ops (tk_manager s1) ws \<longleftrightarrow> u \<in> own ops (tk_manager s) ws"
    "v \<in> own ops (tk_manager s) ws \<Longrightarrow> v \<in> own ops (tk_manager s1) ws" by blast
  have "\<exists>s'. changeWorkspaces ops env (windowAddedToWorkspace ops env (Suc n)) ws vs s1 = Some s' \<and> settles ops env W (set vs) s1 s'"
  proof (rule Cons.IH)
    show "tk_single s1" "alone_but ops {} W s1" using Cons.prems(1) s1(2) by (simp_all add: settles_def)
    show "w \<in> own ops (tk_manager s1) ws" using Cons.prems(3) s1(3) [of w] v by simp
    show "t \<in> own ops (tk_manager s1) ws" if "we_transientFor env w = Some t" for t
      using Cons.prems(4) [OF that] s1(3) [of t] s1(4) by (cases "t = v") simp_all
    show "u \<noteq> w \<and> (we_transientFor env u = Some w \<and> we_transientFor env w = None \<or> we_transientFor env w = Some u) \<and>
        (\<exists>x. u \<in> own ops (tk_manager s1) x) \<and> (should s1 u \<longrightarrow> we_hasActor env u)" if "u \<in> set vs" for u
    proof -
      have u: "u \<noteq> w \<and> (we_transientFor env u = Some w \<and> we_transientFor env w = None \<or> we_transientFor env w = Some u) \<and>
        (\<exists>x. u \<in> own ops (tk_manager s) x) \<and> (should s u \<longrightarrow> we_hasActor env u)" using Cons.prems(5) [of u] that by simp
      have "(\<exists>x. u \<in> own ops (tk_manager s1) x) = (\<exists>x. u \<in> own ops (tk_manager s) x)" using s1(2) by (simp add: settles_def)
      moreover have "should s1 u \<Longrightarrow> should s u \<or> we_hasActor env u" using s1(2) unfolding settles_def should_def by metis
      ultimately show ?thesis using u by blast
    qed
  qed
  then obtain s' where s': "changeWorkspaces ops env (windowAddedToWorkspace ops env (Suc n)) ws vs s1 = Some s'" "settles ops env W (set vs) s1 s'" by blast
  have "settles ops env W (set (v # vs)) s s'"
    by (rule settles_trans [OF settles_mono [OF s1(2)] settles_mono [OF s'(2)]]) auto
  then show ?case using s1(1) s'(1) by (simp del: windowAddedToWorkspace.simps)
qed

lemma changeWorkspace_same:
  assumes ok: "manager_ok ops" and env: "tk_single s" "we_dynamic env" and al: "alone_but ops {} W s"
    and w: "w \<in> own ops (tk_manager s) ws" and tr: "\<And>t. we_transientFor env w = Some t \<Longrightarrow> t \<in> own ops (tk_manager s) ws"
    and fo: "follow_ok ops env s w"
  shows "\<exists>s'. changeWorkspace ops env (windowAddedToWorkspace ops env (Suc n)) w ws s = Some s' \<and> settles ops env W (with_follow env w) s s'"
proof -
  have "changeWorkspaceAlone ops env (windowAddedToWorkspace ops env (Suc n)) ws w s = Some s"
    using own_place(1) [OF ok w] by (simp add: changeWorkspaceAlone_def Let_def)
  moreover obtain s' where "changeWorkspaces ops env (windowAddedToWorkspace ops env (Suc n)) ws (we_follow env w) s = Some s'"
    "settles ops env W (set (we_follow env w)) s s'"
    using follow_settles [OF ok env(2,1) al w tr, of "we_follow env w" n] fo unfolding follow_ok_def by blast
  ultimately show ?thesis using settles_mono [of ops env W "set (we_follow env w)" s s' "with_follow env w"]
    by (auto simp: changeWorkspace_def)
qed

lemma changeWorkspace_settles:
  assumes ok: "manager_ok ops" and env: "tk_single s" "we_dynamic env" "we_hasActor env w"
    and al: "alone_but ops {w} (insert w W) s" and w: "w \<in> own ops (tk_manager s) x"
    and ws: "ws \<in> set (tk_workspaces s)" "ws \<noteq> x"
    and free: "we_transientFor env w \<noteq> None \<or> (\<forall>v. should s v \<longrightarrow> v \<notin> own ops (tk_manager s) ws)"
    and tr: "\<And>t. we_transientFor env w = Some t \<Longrightarrow> t \<noteq> w \<and> t \<in> own ops (tk_manager s) ws"
    and fo: "follow_ok ops env s w"
  shows "\<exists>s'. changeWorkspace ops env (windowAddedToWorkspace ops env (Suc n)) w ws s = Some s' \<and> settles ops env W (with_follow env w) s s'"
proof -
  obtain s1 where s1: "changeWorkspaceAlone ops env (windowAddedToWorkspace ops env (Suc n)) ws w s = Some s1" "settles ops env W {w} s s1"
    "own ops (tk_manager s1) = (\<lambda>y. if y = ws then insert w (own ops (tk_manager s) y) else own ops (tk_manager s) y - {w})"
    using changeAlone_stops [OF ok env(1,2) disjI1 [OF env(3)] al w ws free tr] by blast
  have al1: "tk_single s1" "alone_but ops {} W s1" using s1(2) env(1) by (simp_all add: settles_def)
  have w1: "w \<in> own ops (tk_manager s1) ws" "t \<in> own ops (tk_manager s1) ws" if "we_transientFor env w = Some t" for t
    using tr s1(3) that by simp_all
  obtain s' where s': "changeWorkspaces ops env (windowAddedToWorkspace ops env (Suc n)) ws (we_follow env w) s1 = Some s'"
    "settles ops env W (set (we_follow env w)) s1 s'"
    using follow_settles [OF ok env(2) al1, of w ws "we_follow env w" n] follow_ok_settles [OF s1(2) fo] tr s1(3)
    unfolding follow_ok_def by auto
  have "settles ops env W (with_follow env w) s s'"
    by (rule settles_trans [OF settles_mono [OF s1(2)] settles_mono [OF s'(2)]]) auto
  then show ?thesis using s1(1) s'(1) by (simp add: changeWorkspace_def)
qed

lemma moveWindowToNewWorkspace_settles:
  assumes ok: "manager_ok ops" and env: "tk_single s" "we_dynamic env" "we_hasActor env w"
    and al: "alone_but ops {w} (insert w W) s" and w: "w \<in> own ops (tk_manager s) x"
    and tr: "we_transientFor env w = None" and fo: "follow_ok ops env s w"
  shows "\<exists>s'. moveWindowToNewWorkspace ops env (windowAddedToWorkspace ops env (Suc n)) w (nat (workspace_index ops x s + 1)) s = Some s' \<and>
    settles ops env W (with_follow env w) s s'"
proof -
  let ?i = "nat (workspace_index ops x s + 1)"
  have sy: "synced ops s" using al by (simp add: alone_but_def)
  obtain s1 ws where a: "appendWorkspace ops s = (s1, ws)" by fastforce
  note s1 = appendWorkspace_spec [OF ok sy a]
  define s2 where "s2 = reorderWorkspace ops ws ?i s1"
  have "workspace_index ops x s < int (length (tk_workspaces s))"
    using sy js_indexOf_bound by (metis synced_def workspace_index_def)
  then have "?i < length (tk_workspaces s1)" using s1 by auto
  then have s2: "synced ops s2 \<and> stays ops s1 s2 \<and> set (tk_workspaces s2) = set (tk_workspaces s1) \<and> mo_workspaces ops (tk_manager s2) ! ?i = ws"
    unfolding s2_def using reorderWorkspace_spec [OF ok, of s1 ws ?i] s1 by auto
  have st: "stays ops s s2" using s1 s2 stays_trans by blast
  have x: "x \<in> set (tk_workspaces s)" using own_place(2) [OF ok w] sy by (simp add: synced_def)
  have none: "own ops (tk_manager s) ws = {}" using own_place(2) [OF ok] s1 sy unfolding synced_def by fastforce
  have "\<exists>s'. changeWorkspace ops env (windowAddedToWorkspace ops env (Suc n)) w ws s2 = Some s' \<and> settles ops env W (with_follow env w) s2 s'"
    by (rule changeWorkspace_settles [OF ok, where x = x]) (use env tr w st s1 s2 x none alone_but_stays [OF st _ al] follow_ok_stays [OF st fo] in \<open>auto simp: stays_def\<close>)
  then obtain s3 where s3: "changeWorkspace ops env (windowAddedToWorkspace ops env (Suc n)) w ws s2 = Some s3" "settles ops env W (with_follow env w) s2 s3" by blast
  define s4 where "s4 = s3\<lparr>tk_manager := mo_activate ops ws (tk_manager s3)\<rparr>"
  have sy3: "synced ops s3" using s3(2) by (simp add: settles_def alone_but_def)
  have "stays ops s3 s4 \<and> synced ops s4" using activate_law [OF ok, of ws "tk_manager s3"] sy3 by (auto simp: s4_def stays_def synced_def)
  then have "settles ops env W (with_follow env w) s s4" using settles_then_stays settles_stays [OF st s3(2)] by blast
  then show ?thesis using a s2 s3(1) unfolding moveWindowToNewWorkspace_def s2_def [symmetric] by (simp add: s2_def [symmetric] s4_def)
qed

lemma maybeMove_settles:
  assumes ok: "manager_ok ops" and env: "tk_single s" "we_dynamic env"
    and al: "alone_but ops {w} (insert w W) s"
    and w: "should s w \<Longrightarrow> we_hasActor env w \<and> w \<in> tk_laterDone s \<and> (\<exists>x. w \<in> own ops (tk_manager s) x) \<and> we_transientFor env w = None"
    and fo: "follow_ok ops env s w"
  shows "\<exists>s' b. maybeMoveToOwnWorkspace ops env (windowAddedToWorkspace ops env (Suc n)) w s = Some (s', b) \<and> settles ops env W (with_follow env w) s s' \<and>
    (\<not> b \<longrightarrow> s' = s)"
proof (cases "should s w \<and> workspaceHasOtherWindows ops w s")
  case True
  then obtain x where x: "w \<in> own ops (tk_manager s) x" using w by blast
  show ?thesis
    using moveWindowToNewWorkspace_settles [OF ok env _ al x _ fo, of n] True w own_place(1) [OF ok x]
    by (auto simp: maybeMoveToOwnWorkspace_def should_def)
next
  case False
  then have "maybeMoveToOwnWorkspace ops env (windowAddedToWorkspace ops env (Suc n)) w s = Some (s, False)"
    by (simp add: maybeMoveToOwnWorkspace_def should_def)
  moreover have "alone_but ops {} W s"
  proof (cases "should s w")
    case True
    then obtain x where x: "w \<in> own ops (tk_manager s) x" using w by blast
    show ?thesis by (rule alone_but_alone [OF al _ ok, of x]) (use hasOtherWindows_iff [OF ok al x] True False x in blast)
  qed (use alone_but_alone [OF al _ ok] in blast)
  ultimately show ?thesis using stays_settles [of ops s s W env] by (auto simp: alone_but_def)
qed

lemma settles_noted:
  assumes se: "settles ops env W V (noted ops env ws w s) s'" and w: "w \<in> V" "we_hasActor env w"
  shows "settles ops env W V s s'"
  unfolding settles_def
proof (intro conjI allI impI)
  have tr: "we_transientFor env w = None" if "should (noted ops env ws w s) w"
    using that by (simp add: noted_should windowShouldHaveOwnWorkspace_def split: if_splits)
  have later: "w \<in> tk_laterDone s'" using se by (auto simp: settles_def)
  fix v
  assume ne: "jm_get (tk_windowData s') v \<noteq> jm_get (tk_windowData s) v"
  show "v \<in> V" "v \<in> tk_laterDone s'" "we_hasActor env v"
    using ne se w later unfolding settles_def by (cases "v = w"; force)+
  show "we_transientFor env v = None" if "should s' v"
  proof (cases "jm_get (tk_windowData s') v = jm_get (tk_windowData (noted ops env ws w s)) v")
    case True
    then have "v = w" "should (noted ops env ws w s) v" using ne that by (auto simp: should_def split: if_splits)
    then show ?thesis using tr by simp
  qed (use se that in \<open>simp add: settles_def\<close>)
qed (use se in \<open>auto simp: settles_def\<close>)

lemma windowAdded_settles:
  assumes ok: "manager_ok ops" and env: "tk_single s" "we_dynamic env" and al: "alone_but ops {w} (insert w W) s"
    and act: "we_hasActor env w \<or> \<not> should s w" and place: "(\<exists>x. w \<in> own ops (tk_manager s) x) \<or> mo_onAll ops (tk_manager s) w"
    and tr: "\<And>t. we_transientFor env w = Some t \<Longrightarrow> t \<noteq> w \<and> (\<exists>y. t \<in> own ops (tk_manager s) y)"
    and fo: "follow_ok ops env s w"
  shows "\<exists>s'. windowAddedToWorkspace ops env (Suc (Suc n)) ws w s = Some s' \<and> settles ops env W (with_follow env w) s s'"
proof (cases "we_hasActor env w")
  case False
  then have "alone_but ops {} W s" using act alone_but_alone [OF al _ ok] by blast
  moreover have "stays ops s (addLater ws w s) \<and> synced ops (addLater ws w s)"
    using al by (auto simp: addLater_def stays_def synced_def alone_but_def)
  ultimately show ?thesis using False stays_settles by auto
next
  case actor: True
  define s3 where "s3 = noted ops env ws w s"
  let ?added = "windowAddedToWorkspace ops env (Suc n)"
  have al3: "alone_but ops {w} (insert w W) s3" unfolding s3_def by (rule noted_alone_but [OF al])
  have f3: "tk_single s3" "tk_manager s3 = tk_manager s" "w \<in> tk_laterDone s3" using env by (simp_all add: s3_def)
  have sh_off: "should s3 v \<Longrightarrow> should s v \<or> v = w" for v by (simp add: s3_def noted_should split: if_splits)
  have fo3: "follow_ok ops env s3 w" using fo sh_off unfolding follow_ok_def f3(2) by blast
  have sh3: "should s3 w \<Longrightarrow> we_transientFor env w = None \<and> \<not> mo_onAll ops (tk_manager s) w"
    by (simp add: s3_def noted_should windowShouldHaveOwnWorkspace_def split: if_splits)
  show ?thesis
  proof (cases "mo_onAll ops (tk_manager s) w")
    case True
    have "synced ops (noteWindow ops env ws w s)" by (rule synced_less [of ops s]) (use al in \<open>auto simp: alone_but_def\<close>)
    moreover have no: "\<not> windowShouldHaveOwnWorkspace ops env w s" using True by (simp add: windowShouldHaveOwnWorkspace_def)
    ultimately have "alone_but ops {} W (noteWindow ops env ws w s)"
      using al by (auto simp: alone_but_def should_def jm_keys_set)
    then have "settles ops env W (with_follow env w) s (noteWindow ops env ws w s)"
      using actor no by (auto simp: settles_def should_def)
    then show ?thesis using True windowAdded_single [OF env actor, of ops "Suc n" ws] by simp
  next
    case False
    then obtain x where x: "w \<in> own ops (tk_manager s) x" using place by blast
    define t where "t = map_option (mo_workspaceOf ops (tk_manager s)) (we_transientFor env w)"
    note added = windowAdded_single [OF env actor, of ops "Suc n" ws, folded s3_def t_def]
    show ?thesis
    proof (cases "t \<noteq> None \<and> the t \<noteq> ws")
      case True
      then obtain p y where p: "we_transientFor env w = Some p" "p \<noteq> w" "p \<in> own ops (tk_manager s) y" using tr by (auto simp: t_def)
      then have ty: "the t = y" using own_place(1) [OF ok p(3)] by (simp add: t_def)
      have "\<exists>s'. changeWorkspace ops env ?added w y s3 = Some s' \<and> settles ops env W (with_follow env w) s3 s'"
      proof (cases "y = x")
        case True
        have "alone_but ops {} W s3" using alone_but_alone [OF al3 _ ok] sh3 p by auto
        then show ?thesis
          using changeWorkspace_same [OF ok f3(1) env(2) _ _ _ fo3, of W y n] x p True f3(2) by auto
      next
        case False
        have "y \<in> set (tk_workspaces s3)" using own_place(2) [OF ok p(3)] al3 f3 by (simp add: alone_but_def synced_def)
        then show ?thesis
          by (intro changeWorkspace_settles [OF ok f3(1) env(2) actor al3, where x = x]) (use x f3 False p fo3 in auto)
      qed
      then obtain s' where s': "changeWorkspace ops env ?added w y s3 = Some s'" "settles ops env W (with_follow env w) s3 s'" by blast
      have "settles ops env W (with_follow env w) s s'" using s'(2) unfolding s3_def by (rule settles_noted) (simp_all add: actor)
      then show ?thesis using True False s'(1) unfolding added ty by (auto simp: Let_def ty)
    next
      case stay: False
      obtain s4 b where m: "maybeMoveToOwnWorkspace ops env ?added w s3 = Some (s4, b)" "settles ops env W (with_follow env w) s3 s4" "\<not> b \<Longrightarrow> s4 = s3"
        using maybeMove_settles [OF ok f3(1) env(2) al3, of n] actor x f3 sh3 fo3 by auto
      define s5 where "s5 = (if b then s4 else notifyZero (startupShown ops env ws w s4))"
      have sy4: "synced ops s4" using m(2) by (simp add: settles_def alone_but_def)
      have "stays ops s4 s5 \<and> synced ops s5"
        using startupShown_stays [of ops s4 env ws w] notifyZero_stays [of ops "startupShown ops env ws w s4"] sy4
        unfolding s5_def by (auto intro: stays_trans)
      then have "settles ops env W (with_follow env w) s3 s5" using m(2) settles_then_stays by blast
      then have "settles ops env W (with_follow env w) s s5" unfolding s3_def by (rule settles_noted) (simp_all add: actor)
      then show ?thesis using stay False m(1) unfolding added by (auto simp: Let_def s5_def)
    qed
  qed
qed

end
