(* ===== verification/TrackerRun.thy ===== *)
theory TrackerRun
  imports TrackerProps
begin

section \<open>The workspaces of a phone over time\<close>

text \<open>
  Changing into the mode where windows have workspaces of their own separates all windows and removes the empty workspaces, and every
  event after that returns and keeps the windows apart. Two behaviours of the code that are not so good end the theory: a window that
  is recorded and then shown on all workspaces makes adding a window go on for ever, and a workspace with a startup overlay is lost.
\<close>

subsection \<open>What all steps keep\<close>

definition placed :: "'m manager_ops \<Rightarrow> 'm tracker \<Rightarrow> nat \<Rightarrow> bool" where
  "placed ops s v \<longleftrightarrow> (\<exists>x. v \<in> own ops (tk_manager s) x) \<or> mo_onAll ops (tk_manager s) v"

text \<open>The windows may have moved; only those of \<open>V\<close> may be recorded that were not.\<close>

definition moves :: "'m manager_ops \<Rightarrow> nat set \<Rightarrow> 'm tracker \<Rightarrow> 'm tracker \<Rightarrow> bool" where
  "moves ops V s s' \<longleftrightarrow> tk_single s' = tk_single s \<and> tk_blocked s' = tk_blocked s \<and> mo_onAll ops (tk_manager s') = mo_onAll ops (tk_manager s) \<and>
    (\<forall>v. (\<exists>x. v \<in> own ops (tk_manager s') x) \<longleftrightarrow> (\<exists>x. v \<in> own ops (tk_manager s) x)) \<and> tk_laterDone s \<subseteq> tk_laterDone s' \<and>
    (\<forall>v. jm_has (tk_windowData s') v \<longrightarrow> jm_has (tk_windowData s) v \<or> v \<in> V \<and> v \<in> tk_laterDone s')"

lemma moves_trans: "moves ops V s t \<Longrightarrow> moves ops V t u \<Longrightarrow> moves ops V s u"
  unfolding moves_def by (simp, blast)

lemma moves_mono: "moves ops V s t \<Longrightarrow> V \<subseteq> W \<Longrightarrow> moves ops W s t"
  unfolding moves_def by blast

lemma stays_moves: "stays ops s t \<Longrightarrow> moves ops V s t"
  by (simp add: stays_def moves_def)

lemma settles_moves: "settles ops env W V s t \<Longrightarrow> moves ops V s t"
  unfolding settles_def moves_def by (simp, metis)

lemma moves_placed: "moves ops V s t \<Longrightarrow> placed ops t v = placed ops s v"
  by (simp add: moves_def placed_def)

text \<open>Recorded windows that can be moved to a workspace of their own.\<close>

definition ready :: "win_env \<Rightarrow> nat set \<Rightarrow> 'm tracker \<Rightarrow> bool" where
  "ready env V s \<longleftrightarrow> (\<forall>v\<in>V. should s v \<longrightarrow> we_hasActor env v \<and> v \<in> tk_laterDone s \<and> we_transientFor env v = None)"

subsection \<open>Separating the windows\<close>

lemma wm_maximize_stays: "stays ops s (wm_maximize env w s) \<and> synced ops (wm_maximize env w s) = synced ops s"
  by (auto simp: wm_maximize_def wm_emit_def stays_def synced_def split: prod.splits)

definition followers :: "win_env \<Rightarrow> nat list \<Rightarrow> nat set" where
  "followers env ws = (\<Union>w\<in>set ws. with_follow env w)"

lemma ready_settles:
  assumes "ready env V s" and "settles ops env W U s t"
  shows "ready env V t"
  unfolding ready_def
proof (intro ballI impI)
  fix v assume v: "v \<in> V" "should t v"
  show "we_hasActor env v \<and> v \<in> tk_laterDone t \<and> we_transientFor env v = None"
  proof (cases "jm_get (tk_windowData t) v = jm_get (tk_windowData s) v")
    case True
    then have "should s v" using v(2) by (simp add: should_def)
    then show ?thesis using assms v(1) unfolding ready_def settles_def by blast
  qed (use assms(2) v(2) in \<open>simp add: settles_def\<close>)
qed

lemma separateWindows_settles:
  assumes ok: "manager_ok ops" and dyn: "we_dynamic env"
  shows "tk_single s \<Longrightarrow> distinct ws \<Longrightarrow> alone_but ops {} (set ws) s \<Longrightarrow> ready env (set ws) s \<Longrightarrow>
    (\<And>w. w \<in> set ws \<Longrightarrow> follow_ok ops env s w) \<Longrightarrow>
    \<exists>s'. separateWindows ops env (Suc n) ws s = Some s' \<and> alone ops s' \<and> moves ops (followers env ws) s s'"
proof (induction ws arbitrary: s)
  case Nil
  then show ?case by (auto intro: stays_moves)
next
  case (Cons w ws)
  have al: "alone_but ops {w} (insert w (set ws)) s" using Cons.prems(3) by (rule alone_but_mono) auto
  have w: "we_hasActor env w \<and> w \<in> tk_laterDone s \<and> (\<exists>x. w \<in> own ops (tk_manager s) x) \<and> we_transientFor env w = None" if "should s w"
    using Cons.prems(3,4) that unfolding ready_def alone_but_def by simp
  have fo: "follow_ok ops env s w" using Cons.prems(5) by simp
  obtain s1 b where m: "maybeMoveToOwnWorkspace ops env (windowAddedToWorkspace ops env (Suc n)) w s = Some (s1, b)"
    "settles ops env (set ws) (with_follow env w) s s1" using maybeMove_settles [OF ok Cons.prems(1) dyn al w fo] by blast
  define s2 where "s2 = (if b then s1 else wm_maximize env w s1)"
  have "synced ops s1" using m(2) by (simp add: settles_def alone_but_def)
  then have st: "stays ops s1 s2 \<and> synced ops s2" using wm_maximize_stays [of ops s1 env w] by (auto simp: s2_def)
  then have set: "settles ops env (set ws) (with_follow env w) s s2" using m(2) settles_then_stays by blast
  have "\<exists>s'. separateWindows ops env (Suc n) ws s2 = Some s' \<and> alone ops s' \<and> moves ops (followers env ws) s2 s'"
  proof (rule Cons.IH)
    show "tk_single s2" "distinct ws" "alone_but ops {} (set ws) s2" using Cons.prems set by (simp_all add: settles_def)
    have "ready env (set (w # ws)) s2" using Cons.prems(4) set by (rule ready_settles)
    then show "ready env (set ws) s2" by (simp add: ready_def)
    show "follow_ok ops env s2 v" if "v \<in> set ws" for v using follow_ok_settles [OF set] Cons.prems(5) that by simp
  qed
  then obtain s' where s': "separateWindows ops env (Suc n) ws s2 = Some s'" "alone ops s'" "moves ops (followers env ws) s2 s'" by blast
  have "moves ops (followers env (w # ws)) s s2" using settles_moves [OF set] by (rule moves_mono) (auto simp: followers_def)
  moreover have "moves ops (followers env (w # ws)) s2 s'" using s'(3) by (rule moves_mono) (auto simp: followers_def)
  ultimately have "moves ops (followers env (w # ws)) s s'" by (rule moves_trans)
  then show ?case using m(1) s'(1,2) by (simp add: s2_def)
qed

subsection \<open>Removing the empty workspaces\<close>

definition in_use :: "'m manager_ops \<Rightarrow> 'm tracker \<Rightarrow> nat \<Rightarrow> bool" where
  "in_use ops s ws \<longleftrightarrow> own ops (tk_manager s) ws \<noteq> {} \<or> reserved ws s \<or> tk_workspaces s = [ws]"

lemma synced_distinct: "manager_ok ops \<Longrightarrow> synced ops s \<Longrightarrow> distinct (tk_workspaces s)"
  using distinct_workspaces by (simp add: synced_def)

lemma maybeRemoveWorkspaces_fold:
  assumes ok: "manager_ok ops"
  shows "synced ops s \<Longrightarrow> tk_single s \<Longrightarrow> distinct xs \<Longrightarrow> set xs \<subseteq> set (tk_workspaces s) \<Longrightarrow> s' = fold (maybeRemoveWorkspace ops env) xs s \<Longrightarrow>
    synced ops s' \<and> stays ops s s' \<and> (\<forall>ws. reserved ws s' = reserved ws s) \<and> set (tk_workspaces s') \<subseteq> set (tk_workspaces s) \<and>
    (\<not> tk_blocked s \<longrightarrow> (\<forall>ws\<in>set xs. ws \<in> set (tk_workspaces s') \<longrightarrow> in_use ops s' ws))"
proof (induction xs arbitrary: s)
  case (Cons x xs)
  define t where "t = maybeRemoveWorkspace ops env x s"
  have x: "x \<in> set (tk_workspaces s)" using Cons.prems(4) by simp
  have d: "distinct (tk_workspaces s)" by (rule synced_distinct [OF ok Cons.prems(1)])
  note f = maybeRemoveWorkspace_single [OF ok Cons.prems(1,2) x t_def]
  have tw: "set (tk_workspaces t) \<subseteq> set (tk_workspaces s)" and tr: "reserved ws t = reserved ws s" for ws
    using f d by (auto simp: reserved_def)
  have sub: "set xs \<subseteq> set (tk_workspaces t)" using f d Cons.prems(3,4) by auto
  have "synced ops s' \<and> stays ops t s' \<and> (\<forall>ws. reserved ws s' = reserved ws t) \<and> set (tk_workspaces s') \<subseteq> set (tk_workspaces t) \<and>
    (\<not> tk_blocked t \<longrightarrow> (\<forall>ws\<in>set xs. ws \<in> set (tk_workspaces s') \<longrightarrow> in_use ops s' ws))"
    by (rule Cons.IH) (use f Cons.prems sub in \<open>auto simp: t_def stays_def\<close>)
  note ih = this
  have st: "stays ops s s'" using f ih stays_trans by blast
  have "in_use ops s' x" if nb: "\<not> tk_blocked s" and x': "x \<in> set (tk_workspaces s')"
  proof -
    have "x \<in> set (tk_workspaces t)" using x' ih by blast
    then have "tk_workspaces t \<noteq> remove1 x (tk_workspaces s)" using d by auto
    then consider "reserved x s" | "own ops (tk_manager s) x \<noteq> {}" | "length (tk_workspaces s) \<le> 1" using f nb by blast
    then show ?thesis
    proof cases
      case 3
      then have one: "tk_workspaces s = [x]" using x by (cases "tk_workspaces s") auto
      then have "xs = []" using Cons.prems(3,4) by (cases xs) auto
      then have "s' = t" using Cons.prems(5) by (simp add: t_def)
      then show ?thesis using f one by (auto simp: in_use_def)
    qed (use ih tr st in \<open>auto simp: in_use_def stays_def\<close>)
  qed
  moreover have "\<forall>ws\<in>set xs. ws \<in> set (tk_workspaces s') \<longrightarrow> in_use ops s' ws" if "\<not> tk_blocked s"
    using ih f that by (simp add: stays_def)
  moreover have "set (tk_workspaces s') \<subseteq> set (tk_workspaces s)" using ih tw by blast
  moreover have "\<forall>ws. reserved ws s' = reserved ws s" using ih tr by simp
  ultimately show ?case using ih st by simp
qed simp

lemma maybeRemoveWorkspaces_settles:
  assumes ok: "manager_ok ops" and sy: "synced ops s" and single: "tk_single s"
  shows "synced ops (maybeRemoveWorkspaces ops env s) \<and> stays ops s (maybeRemoveWorkspaces ops env s) \<and>
    (\<not> tk_blocked s \<longrightarrow> (\<forall>ws\<in>set (tk_workspaces (maybeRemoveWorkspaces ops env s)). in_use ops (maybeRemoveWorkspaces ops env s) ws))"
  using maybeRemoveWorkspaces_fold [OF ok sy single, of "rev (tk_workspaces s)"] synced_distinct [OF ok sy]
  by (auto simp: maybeRemoveWorkspaces_def)

subsection \<open>Into the mode\<close>

lemma redoLayout_settles:
  assumes ok: "manager_ok ops" and env: "we_dynamic env" "we_phone env" and sy: "synced ops s" "distinct (jm_keys (tk_windowData s))"
    and ready: "ready env UNIV s" and placed: "\<And>v. should s v \<Longrightarrow> \<exists>x. v \<in> own ops (tk_manager s) x"
    and follow: "\<And>v. jm_has (tk_windowData s) v \<Longrightarrow> follow_ok ops env s v"
  shows "\<exists>s'. redoLayout ops env (Suc n) s = Some s' \<and> alone ops s' \<and> tk_single s' \<and>
    moves ops (followers env (jm_keys (tk_windowData s))) (s\<lparr>tk_single := True\<rparr>) s' \<and>
    (\<not> tk_blocked s \<longrightarrow> (\<forall>ws\<in>set (tk_workspaces s'). in_use ops s' ws))"
proof -
  define t where "t = s\<lparr>tk_single := True\<rparr>"
  let ?keys = "jm_keys (tk_windowData s)"
  have t: "tk_single t" "tk_windowData t = tk_windowData s" "tk_manager t = tk_manager s" "should t v = should s v" "tk_blocked t = tk_blocked s" for v
    by (simp_all add: t_def should_def)
  have keys: "v \<in> set ?keys" if "should s v" for v using that jm_get_iff_key [of "tk_windowData s" v] by (simp add: should_def)
  have "synced ops t" using sy by (auto simp: t_def synced_def)
  then have al: "alone_but ops {} (set ?keys) t" using sy placed keys by (simp add: alone_but_def t)
  have rd: "ready env (set ?keys) t" using ready t by (simp add: ready_def) (simp add: t_def)
  have "follow_ok ops env t v" if "v \<in> set ?keys" for v
    using follow [of v] that jm_get_iff_key [of "tk_windowData s" v] unfolding follow_ok_def t by blast
  note fo = this
  obtain u where u: "separateWindows ops env (Suc n) ?keys t = Some u" "alone ops u" "moves ops (followers env ?keys) t u"
    using separateWindows_settles [OF ok env(1) t(1) sy(2) al rd fo] by blast
  define s' where "s' = maybeRemoveWorkspaces ops env u"
  have un: "tk_single u" "synced ops u" "tk_blocked u = tk_blocked s" using u(2,3) t by (simp_all add: moves_def alone_but_def)
  note r = maybeRemoveWorkspaces_settles [OF ok un(2,1), of env, folded s'_def]
  have "moves ops (followers env ?keys) u s'" using r stays_moves by blast
  then have "moves ops (followers env ?keys) t s'" using u(3) moves_trans by blast
  moreover have "alone ops s'" using r u(2) alone_but_stays by blast
  moreover have "tk_single s'" using r un by (simp add: stays_def)
  moreover have "redoLayout ops env (Suc n) s = Some s'"
    using env u(1) t(1,2) unfolding redoLayout_def by (simp add: Let_def s'_def flip: t_def)
  ultimately show ?thesis using r un by (auto simp: t_def)
qed

subsection \<open>Events\<close>

text \<open>
  The state between events. An event is handled while recorded windows have actors and the parents of dialogs are
  on a workspace; the window of the event is somewhere, and removed windows were on a workspace that exists.
\<close>

definition phone :: "'m manager_ops \<Rightarrow> 'm tracker \<Rightarrow> bool" where
  "phone ops s \<longleftrightarrow> alone ops s \<and> tk_single s \<and> (\<forall>v. jm_has (tk_windowData s) v \<longrightarrow> v \<in> tk_laterDone s \<and> placed ops s v)"

definition env_ok :: "'m manager_ops \<Rightarrow> win_env \<Rightarrow> 'm tracker \<Rightarrow> bool" where
  "env_ok ops env s \<longleftrightarrow> we_dynamic env \<and> we_phone env \<and> (\<forall>v. jm_has (tk_windowData s) v \<longrightarrow> we_hasActor env v) \<and>
    (\<forall>v t. we_transientFor env v = Some t \<longrightarrow> t \<noteq> v \<and> (\<exists>x. t \<in> own ops (tk_manager s) x)) \<and> (\<forall>v. follow_ok ops env s v)"

fun event_ok :: "'m manager_ops \<Rightarrow> win_env \<Rightarrow> tracker_event \<Rightarrow> 'm tracker \<Rightarrow> bool" where
  "event_ok ops env (WindowAdded ws w) s = placed ops s w"
| "event_ok ops env LaterRuns s = (\<forall>(i, ws, w)\<in>set (tk_laters s). placed ops s w)"
| "event_ok ops env (WindowRemoved ws w) s = (ws \<in> set (tk_workspaces s))"
| "event_ok ops env (TransientForChanged w) s = (\<not> mo_onAll ops (tk_manager s) w)"
| "event_ok ops env ModeChanged s = (\<forall>v. should s v \<longrightarrow> we_transientFor env v = None)"
| "event_ok ops env UnblockUpdates s = (\<forall>v. should s v \<longrightarrow> we_transientFor env v = None)"
| "event_ok ops env LaunchApp s = (mo_active ops (tk_manager s) \<in> set (tk_workspaces s))"
| "event_ok ops env e s = True"

lemma phone_moves:
  "phone ops s \<Longrightarrow> moves ops V s s' \<Longrightarrow> alone ops s' \<Longrightarrow> (\<And>v. v \<in> V \<Longrightarrow> placed ops s v) \<Longrightarrow> phone ops s'"
  using moves_placed [of ops V s s'] unfolding phone_def moves_def by (simp, blast)

lemma phone_synced: "phone ops s \<Longrightarrow> synced ops s"
  by (simp add: phone_def alone_but_def)

lemma phone_same: "phone ops s \<Longrightarrow> synced ops s' \<Longrightarrow> tk_manager s' = tk_manager s \<Longrightarrow> tk_windowData s' = tk_windowData s \<Longrightarrow>
  tk_single s' = tk_single s \<Longrightarrow> tk_laterDone s' = tk_laterDone s \<Longrightarrow> phone ops s'"
  by (simp add: phone_def alone_but_def should_def placed_def)

text \<open>A window that has gone is forgotten.\<close>

lemma phone_forget:
  assumes "alone_but ops {w} {w} s" and "tk_single s" and "\<And>v. v \<noteq> w \<Longrightarrow> jm_has (tk_windowData s) v \<Longrightarrow> v \<in> tk_laterDone s \<and> placed ops s v"
  shows "phone ops (s\<lparr>tk_windowData := jm_del (tk_windowData s) w\<rparr>)"
proof -
  have "synced ops (s\<lparr>tk_windowData := jm_del (tk_windowData s) w\<rparr>)" using assms(1) by (auto simp: alone_but_def synced_def)
  moreover have "distinct (jm_keys (jm_del (tk_windowData s) w))" using assms(1) by (simp add: jm_keys_del alone_but_def)
  ultimately show ?thesis using assms by (auto simp: phone_def alone_but_def should_def placed_def)
qed

lemma phone_stays: "phone ops s \<Longrightarrow> stays ops s s' \<Longrightarrow> synced ops s' \<Longrightarrow> phone ops s'"
  by (rule phone_moves [where V = "{}" and s = s]) (auto simp: phone_def intro: stays_moves alone_but_stays)

lemma env_follow: "env_ok ops env s \<Longrightarrow> follow_ok ops env s v"
  by (simp add: env_ok_def)

lemma placed_follow: "env_ok ops env s \<Longrightarrow> placed ops s w \<Longrightarrow> v \<in> with_follow env w \<Longrightarrow> placed ops s v"
  unfolding env_ok_def follow_ok_def placed_def by blast

lemma phone_settles:
  assumes "phone ops s" and "settles ops env {} V s s'" and "\<And>v. v \<in> V \<Longrightarrow> placed ops s v"
  shows "phone ops s'"
  using phone_moves [OF assms(1) settles_moves [OF assms(2)] _ assms(3)] assms(2) by (simp add: settles_def)

lemma phone_removed:
  assumes ok: "manager_ok ops" and ph: "phone ops s" and st: "stays ops s t" and sy: "synced ops t" and ws: "ws \<in> set (tk_workspaces t)"
  shows "phone ops (maybeRemoveWorkspace ops env ws t)"
    and "x \<noteq> ws \<Longrightarrow> x \<in> set (tk_workspaces t) \<Longrightarrow> x \<in> set (tk_workspaces (maybeRemoveWorkspace ops env ws t))"
proof -
  have "tk_single t" using ph st by (simp add: phone_def stays_def)
  note f = maybeRemoveWorkspace_single [OF ok sy this ws refl, of env]
  show "phone ops (maybeRemoveWorkspace ops env ws t)" using f phone_stays [OF ph] stays_trans [OF st] by blast
  show "x \<noteq> ws \<Longrightarrow> x \<in> set (tk_workspaces t) \<Longrightarrow> x \<in> set (tk_workspaces (maybeRemoveWorkspace ops env ws t))" using f by (metis in_set_remove1)
qed

lemma phone_added:
  assumes ok: "manager_ok ops" and ph: "phone ops s" and env: "env_ok ops env s" and w: "placed ops s w"
  shows "\<exists>s'. windowAddedToWorkspace ops env (Suc (Suc n)) ws w s = Some s' \<and> phone ops s'"
proof -
  have act: "we_hasActor env w \<or> \<not> should s w" using env by (auto simp: env_ok_def should_def)
  have al: "alone_but ops {w} {w} s" using ph alone_but_mono unfolding phone_def by blast
  have "\<exists>s'. windowAddedToWorkspace ops env (Suc (Suc n)) ws w s = Some s' \<and> settles ops env {} (with_follow env w) s s'"
    by (rule windowAdded_settles [OF ok _ _ al act]) (use ph env w in \<open>auto simp: phone_def env_ok_def placed_def\<close>)
  then show ?thesis using phone_settles [OF ph _ placed_follow [OF env w]] by blast
qed

text \<open>Also when the user moves a window.\<close>

lemma env_ok_moved:
  assumes env: "env_ok ops env s" and m: "moves ops V s s'" and data: "\<And>v. jm_has (tk_windowData s') v \<Longrightarrow> we_hasActor env v"
  shows "env_ok ops env s'"
proof -
  have own: "(\<exists>x. v \<in> own ops (tk_manager s') x) = (\<exists>x. v \<in> own ops (tk_manager s) x)" for v using m by (simp add: moves_def)
  have "follow_ok ops env s' v" for v
    using env data unfolding env_ok_def follow_ok_def own should_def by (metis option.distinct(1))
  then show ?thesis using env data unfolding env_ok_def own by blast
qed

lemma phone_changeAlone:
  assumes ok: "manager_ok ops" and ph: "phone ops s" and env: "env_ok ops env s" and w: "w \<in> own ops (tk_manager s) x" and ws: "ws \<in> set (tk_workspaces s)"
  shows "\<exists>s'. changeWorkspaceAlone ops env (windowAddedToWorkspace ops env (Suc (Suc n))) ws w s = Some s' \<and> phone ops s' \<and> env_ok ops env s' \<and>
    moves ops (with_follow env w) s s'"
proof (cases "ws = x")
  case True
  then show ?thesis using ph env own_place(1) [OF ok w] by (auto simp: changeWorkspaceAlone_def Let_def intro: stays_moves)
next
  case False
  define s2 where "s2 = windowRemovedFromWorkspace ops env x w (s\<lparr>tk_manager := mo_move ops w ws (tk_manager s)\<rparr>)"
  have al: "alone_but ops {w} {w} s" using ph alone_but_mono unfolding phone_def by blast
  have single: "tk_single s" using ph by (simp add: phone_def)
  note m = moved_removed [OF ok single al w ws s2_def]
  have own: "(\<exists>y. v \<in> own ops (tk_manager s2) y) \<longleftrightarrow> (\<exists>y. v \<in> own ops (tk_manager s) y)" for v using m w by (cases "v = w") auto
  have m2: "moves ops {w} s s2" using m own by (simp add: moves_def)
  have env2: "env_ok ops env s2" by (rule env_ok_moved [OF env m2]) (use env m in \<open>simp add: env_ok_def\<close>)
  have act: "we_hasActor env w \<or> \<not> should s2 w" using env m by (auto simp: env_ok_def should_def)
  have "\<exists>s'. windowAddedToWorkspace ops env (Suc (Suc n)) ws w s2 = Some s' \<and> settles ops env {} (with_follow env w) s2 s'"
    by (rule windowAdded_settles [OF ok _ _ _ act]) (use m single env2 own w in \<open>auto simp: env_ok_def\<close>)
  then obtain s' where s': "windowAddedToWorkspace ops env (Suc (Suc n)) ws w s2 = Some s'" "settles ops env {} (with_follow env w) s2 s'" by blast
  have mv: "moves ops (with_follow env w) s s'"
    using moves_trans [OF moves_mono [OF m2] settles_moves [OF s'(2)]] by simp
  have "placed ops s v" if "v \<in> with_follow env w" for v using placed_follow [OF env _ that] w by (auto simp: placed_def)
  then have ph': "phone ops s'" by (intro phone_moves [OF ph mv]) (use s'(2) in \<open>auto simp: settles_def\<close>)
  have "we_hasActor env v" if "jm_has (tk_windowData s') v" for v
    using that s'(2) env m unfolding settles_def env_ok_def by metis
  then have "env_ok ops env s'" by (rule env_ok_moved [OF env mv])
  then show ?thesis using s'(1) ph' mv False own_place(1) [OF ok w] by (simp add: changeWorkspaceAlone_def Let_def s2_def)
qed

lemma recompute_alone_but:
  "alone ops s \<Longrightarrow> alone_but ops {w} {w} (recompute ops env w s)"
  unfolding alone_but_def recompute_def synced_def should_def by (auto simp: jm_keys_set)

lemma settles_env_ok:
  assumes env: "env_ok ops env s" and m: "moves ops U s s'" and t: "settles ops env W V t s'"
    and data: "\<And>v. jm_has (tk_windowData t) v \<Longrightarrow> jm_has (tk_windowData s) v"
  shows "env_ok ops env s'"
proof (rule env_ok_moved [OF env m])
  fix v assume "jm_has (tk_windowData s') v"
  then show "we_hasActor env v" using t env data [of v] unfolding settles_def env_ok_def by metis
qed

lemma phone_recompute:
  assumes ok: "manager_ok ops" and ph: "phone ops s" and env: "env_ok ops env s" and w: "jm_has (tk_windowData s) w"
  shows "\<exists>s'. maybeMoveIfSingle ops env (Suc n) w (recompute ops env w s) = Some s' \<and> phone ops s' \<and> env_ok ops env s' \<and>
    moves ops (with_follow env w) s s'"
proof -
  let ?t = "recompute ops env w s"
  have t: "tk_single ?t" "alone_but ops {w} {w} ?t" using ph recompute_alone_but [of ops s w env] by (simp_all add: phone_def recompute_def)
  have wp: "placed ops s w" using ph w by (simp add: phone_def)
  have "we_hasActor env w \<and> w \<in> tk_laterDone ?t \<and> (\<exists>x. w \<in> own ops (tk_manager ?t) x) \<and> we_transientFor env w = None" if "should ?t w"
    using that ph env w by (auto simp: should_def recompute_def windowShouldHaveOwnWorkspace_def phone_def env_ok_def placed_def split: if_splits)
  moreover have "follow_ok ops env ?t w"
    using env_follow [OF env, of w] unfolding follow_ok_def by (auto simp: recompute_def should_def)
  ultimately obtain s' b where s': "maybeMoveToOwnWorkspace ops env (windowAddedToWorkspace ops env (Suc n)) w ?t = Some (s', b)"
    "settles ops env {} (with_follow env w) ?t s'"
    using maybeMove_settles [OF ok t(1) _ t(2)] env unfolding env_ok_def by blast
  have mt: "moves ops (with_follow env w) s ?t" using w by (auto simp: moves_def recompute_def)
  have m: "moves ops (with_follow env w) s s'" by (rule moves_trans [OF mt settles_moves [OF s'(2)]])
  have "phone ops s'" by (rule phone_moves [OF ph m]) (use s'(2) placed_follow [OF env wp] in \<open>auto simp: settles_def\<close>)
  moreover have "env_ok ops env s'" by (rule settles_env_ok [OF env m s'(2)]) (use w in \<open>auto simp: recompute_def split: if_splits\<close>)
  ultimately show ?thesis using s'(1) t(1) m by (simp add: maybeMoveIfSingle_def)
qed

lemma phone_transientForChanged:
  assumes ok: "manager_ok ops" and ph: "phone ops s" and env: "env_ok ops env s" and w: "\<not> mo_onAll ops (tk_manager s) w"
  shows "\<exists>s'. transientForChanged ops env (Suc (Suc n)) w s = Some s' \<and> phone ops s'"
proof (cases "jm_has (tk_windowData s) w")
  case True
  obtain s1 where s1: "maybeMoveIfSingle ops env (Suc (Suc n)) w (recompute ops env w s) = Some s1" "phone ops s1" "env_ok ops env s1"
    "moves ops (with_follow env w) s s1"
    using phone_recompute [OF ok ph env True] by blast
  show ?thesis
  proof (cases "we_transientFor env w")
    case None
    then show ?thesis using True s1 by (simp add: transientForChanged_def)
  next
    case (Some t)
    then obtain y where y: "t \<noteq> w" "t \<in> own ops (tk_manager s1) y" using s1(3) unfolding env_ok_def by blast
    have wp: "placed ops s1 w" using ph True s1(4) moves_placed by (fastforce simp: phone_def)
    then obtain x where x: "w \<in> own ops (tk_manager s1) x" using w s1(4) unfolding placed_def moves_def by metis
    show ?thesis
    proof (cases "x = y")
      case True
      then show ?thesis using \<open>jm_has (tk_windowData s) w\<close> s1 Some own_place(1) [OF ok y(2)] own_place(1) [OF ok x]
        unfolding transientForChanged_def by (auto simp: Let_def)
    next
      case False
      have ywsp: "y \<in> set (tk_workspaces s1)" using own_place(2) [OF ok y(2)] phone_synced [OF s1(2)] by (simp add: synced_def)
      have al: "alone_but ops {w} {w} s1" using s1(2) alone_but_mono unfolding phone_def by blast
      have act: "we_hasActor env w" using True env by (simp add: env_ok_def)
      obtain s' where s': "changeWorkspace ops env (windowAddedToWorkspace ops env (Suc (Suc n))) w y s1 = Some s'"
        "settles ops env {} (with_follow env w) s1 s'"
        using changeWorkspace_settles [OF ok _ _ act al x ywsp _ _ _ env_follow [OF s1(3)], of "Suc n"] s1(2,3) False Some y
        by (auto simp: phone_def env_ok_def)
      have "phone ops s'" by (rule phone_settles [OF s1(2) s'(2) placed_follow [OF s1(3) wp]])
      then show ?thesis using True s1 s' Some own_place(1) [OF ok y(2)] unfolding transientForChanged_def by (auto simp: Let_def)
    qed
  qed
qed (use ph in \<open>simp add: transientForChanged_def\<close>)

lemma phone_startupSequences:
  assumes ok: "manager_ok ops"
  shows "phone ops s \<Longrightarrow> distinct (map snd iws) \<Longrightarrow> snd ` set iws \<subseteq> set (tk_workspaces s) \<Longrightarrow> phone ops (fold (startupSequence ops env) iws s)"
proof (induction iws arbitrary: s)
  case (Cons iw iws)
  obtain i ws where iw: "iw = (i, ws)" by fastforce
  have ws: "ws \<in> set (tk_workspaces s)" and d: "ws \<notin> snd ` set iws" using Cons.prems iw by auto
  have sy: "synced ops s" by (rule phone_synced [OF Cons.prems(1)])
  define t where "t = s\<lparr>tk_startup := tk_startup s - {ws}\<rparr>"
  define u where "u = s\<lparr>tk_newTiling := tk_newTiling s - {ws}, tk_startup := insert ws (tk_startup s)\<rparr>"
  have t: "stays ops s t" "synced ops t" "tk_workspaces t = tk_workspaces s" and u: "stays ops s u" "synced ops u" "tk_workspaces u = tk_workspaces s"
    using sy ws by (auto simp: t_def u_def stays_def synced_def)
  note r = phone_removed [OF ok Cons.prems(1) t(1,2), of ws, unfolded t(3), OF ws]
  have sub: "snd ` set iws \<subseteq> set (tk_workspaces (maybeRemoveWorkspace ops env ws t))"
  proof
    fix x
    assume x: "x \<in> snd ` set iws"
    then have "x \<noteq> ws" "x \<in> set (tk_workspaces s)" using d Cons.prems(3) by auto
    then show "x \<in> set (tk_workspaces (maybeRemoveWorkspace ops env ws t))" by (rule r(2))
  qed
  have seq: "startupSequence ops env iw s =
    (if int i \<in> set (we_sequences env) then u else if ws \<in> tk_startup s then maybeRemoveWorkspace ops env ws t else s)"
    by (simp add: iw startupSequence_def t_def u_def)
  have "phone ops u" by (rule phone_stays [OF Cons.prems(1) u(1,2)])
  then have "phone ops (startupSequence ops env iw s) \<and> snd ` set iws \<subseteq> set (tk_workspaces (startupSequence ops env iw s))"
    using r(1) sub Cons.prems u(3) unfolding seq by auto
  then show ?case using Cons by simp
qed simp

lemma phone_launch:
  assumes ok: "manager_ok ops" and ph: "phone ops s" and act: "mo_active ops (tk_manager s) \<in> set (tk_workspaces s)"
  shows "phone ops (fst (maybeCreateWorkspaceForWindow ops env s))"
proof (cases "we_dynamic env")
  case True
  have sy: "synced ops s" by (rule phone_synced [OF ph])
  have single: "tk_single s" using ph by (simp add: phone_def)
  let ?i = "nat (workspace_index ops (mo_active ops (tk_manager s)) s)"
  obtain t n where a: "appendWorkspace ops s = (t, n)" by fastforce
  define p where "p = (if zeroOpenWindows ops s then (s, hd (tk_workspaces s)) else (reorderWorkspace ops n (?i + 1) t, n))"
  obtain s1 ws where s1: "p = (s1, ws)" by fastforce
  have f: "stays ops s s1 \<and> synced ops s1 \<and> ws \<in> set (tk_workspaces s1)"
  proof (cases "zeroOpenWindows ops s")
    case True
    then have "s1 = s" "ws = hd (tk_workspaces s)" "tk_workspaces s \<noteq> []" using s1 by (auto simp: p_def zeroOpenWindows_def split: list.splits)
    then show ?thesis using sy by simp
  next
    case False
    note ap = appendWorkspace_spec [OF ok sy a]
    have e: "s1 = reorderWorkspace ops n (?i + 1) t" "ws = n" using s1 False by (auto simp: p_def)
    have "workspace_index ops (mo_active ops (tk_manager s)) s < int (length (tk_workspaces s))"
      using sy js_indexOf_bound by (metis synced_def workspace_index_def)
    moreover have "0 \<le> workspace_index ops (mo_active ops (tk_manager s)) s"
      using act sy js_indexOf_nonneg by (metis synced_def workspace_index_def)
    ultimately have "?i < length (tk_workspaces s)" by (simp add: nat_less_iff)
    then have "?i + 1 < length (tk_workspaces t)" using ap by simp
    then have "synced ops s1 \<and> stays ops t s1 \<and> set (tk_workspaces s1) = set (tk_workspaces t)"
      using reorderWorkspace_spec [OF ok, of t n "?i + 1"] ap unfolding e by simp
    then show ?thesis using ap e(2) stays_trans by fastforce
  qed
  define s3 where "s3 = (let s2 = s1\<lparr>tk_manager := mo_activate ops ws (tk_manager s1)\<rparr>
    in wm_emit (OverlayCreated ws) (s2\<lparr>tk_newTiling := insert ws (tk_newTiling s2), tk_overlay := insert ws (tk_overlay s2)\<rparr>))"
  have "fst (maybeCreateWorkspaceForWindow ops env s) = (if workspace_index ops ws s3 = 0 then wm_emit NotifyZeroOpenWindows s3 else s3)"
    using True single s1 a by (cases "zeroOpenWindows ops s") (auto simp: maybeCreateWorkspaceForWindow_def p_def s3_def Let_def)
  moreover have "stays ops s1 s3 \<and> synced ops s3"
    using activate_law [OF ok, of ws "tk_manager s1"] f by (auto simp: s3_def wm_emit_def stays_def synced_def Let_def)
  moreover have ph3: "phone ops s3" using phone_stays [OF ph] f stays_trans [of ops s s1 s3] calculation by blast
  moreover have "phone ops (wm_emit NotifyZeroOpenWindows s3)" using phone_stays [OF ph3] phone_synced [OF ph3] by simp
  ultimately show ?thesis by simp
qed (use ph in \<open>simp add: maybeCreateWorkspaceForWindow_def\<close>)

lemma phone_redoLayout:
  assumes ok: "manager_ok ops" and ph: "phone ops s" and env: "env_ok ops env s" and tr: "\<And>v. should s v \<Longrightarrow> we_transientFor env v = None"
    and s': "s' = s \<or> s' = s\<lparr>tk_blocked := False\<rparr>"
  shows "\<exists>t. redoLayout ops env (Suc n) s' = Some t \<and> phone ops t"
proof -
  have st: "tk_manager s' = tk_manager s" "tk_windowData s' = tk_windowData s" "should s' v = should s v" "tk_laterDone s' = tk_laterDone s"
    "tk_single s'" "s'\<lparr>tk_single := True\<rparr> = s'" for v
    using s' ph by (auto simp: should_def phone_def)
  have ph': "phone ops s'" by (rule phone_same [OF ph]) (use s' phone_synced [OF ph] in \<open>auto simp: synced_def\<close>)
  have rd: "ready env UNIV s'" using env ph tr by (auto simp: ready_def st env_ok_def phone_def should_def)
  have pl: "\<exists>x. v \<in> own ops (tk_manager s') x" if "should s' v" for v using that ph' by (simp add: phone_def alone_but_def)
  have fo: "follow_ok ops env s' v" for v using env_follow [OF env, of v] unfolding follow_ok_def st .
  obtain t where t: "redoLayout ops env (Suc n) s' = Some t" "alone ops t" "moves ops (followers env (jm_keys (tk_windowData s'))) s' t"
    using redoLayout_settles [OF ok _ _ phone_synced [OF ph'] _ rd pl fo, of n] env ph' unfolding st(6) by (auto simp: env_ok_def phone_def alone_but_def)
  have "placed ops s' v" if v: "v \<in> followers env (jm_keys (tk_windowData s'))" for v
  proof -
    obtain w where w: "w \<in> set (jm_keys (tk_windowData s'))" "v \<in> with_follow env w" using v unfolding followers_def by blast
    have "placed ops s' w" using ph' w(1) jm_get_iff_key [of "tk_windowData s'" w] by (simp add: phone_def)
    then show ?thesis using placed_follow [OF env, of w v] w(2) by (simp add: placed_def st)
  qed
  then have "phone ops t" by (rule phone_moves [OF ph' t(3,2)])
  then show ?thesis using t(1) by blast
qed

lemma phone_drawing:
  "stays ops s (updateGrab env w s) \<and> synced ops (updateGrab env w s) = synced ops s"
  "stays ops s (maybeAnimateOutStartupOverlay ops env w s) \<and> synced ops (maybeAnimateOutStartupOverlay ops env w s) = synced ops s"
  "stays ops s (windowShown ops w s) \<and> synced ops (windowShown ops w s) = synced ops s"
  "stays ops s (animateOutStartupOverlay w s) \<and> synced ops (animateOutStartupOverlay w s) = synced ops s"
  by (simp_all add: updateGrab_def maybeAnimateOutStartupOverlay_def windowShown_def animateOutStartupOverlay_def stays_def synced_def Let_def)

lemma phone_timeout:
  assumes ok: "manager_ok ops" and ph: "phone ops s"
    and t: "t = s\<lparr>tk_startup := tk_startup s - {ws}\<rparr> \<or> t = s\<lparr>tk_splash := tk_splash s - {ws}\<rparr> \<or> t = s\<lparr>tk_newTiling := tk_newTiling s - {ws}\<rparr>"
    and ws: "reserved ws s"
  shows "phone ops (maybeRemoveWorkspace ops env ws t)"
proof -
  have sy: "synced ops s" by (rule phone_synced [OF ph])
  have "stays ops s t \<and> synced ops t \<and> tk_workspaces t = tk_workspaces s" using t sy by (auto simp: stays_def synced_def)
  moreover have "ws \<in> set (tk_workspaces s)" using ws sy by (auto simp: reserved_def synced_def)
  ultimately show ?thesis using phone_removed(1) [OF ok ph] by simp
qed

lemma map_snd_enumerate: "map snd (enumerate n xs) = xs"
  by (induction xs arbitrary: n) simp_all

lemma phone_step:
  assumes ok: "manager_ok ops" and ph: "phone ops s" and env: "env_ok ops env s" and ev: "event_ok ops env e s"
  shows "\<exists>s'. trackerStep ops env (Suc (Suc n)) e s = Some s' \<and> phone ops s'"
proof -
  have sy: "synced ops s" by (rule phone_synced [OF ph])
  have single: "tk_single s" using ph by (simp add: phone_def)
  note stays' = phone_stays [OF ph]
  show ?thesis
  proof (cases e)
    case (WindowAdded ws w)
    then show ?thesis using phone_added [OF ok ph env] ev by simp
  next
    case (WindowRemoved ws w)
    then show ?thesis using windowRemoved_spec [OF ok sy single, of ws env w] ev stays' by simp
  next
    case LaterRuns
    show ?thesis
    proof (cases "tk_laters s")
      case Nil
      then show ?thesis using LaterRuns ph by simp
    next
      case (Cons l ls)
      obtain i ws w where l: "l = (i, ws, w)" using prod_cases3 by blast
      define t where "t = s\<lparr>tk_laters := ls, tk_addedLater := jm_del (tk_addedLater s) w\<rparr>"
      have t: "stays ops s t \<and> synced ops t" using sy by (auto simp: t_def stays_def synced_def)
      then have "phone ops t" "env_ok ops env t" "placed ops t w" using stays' env follow_ok_stays [of ops s t env] ev LaterRuns Cons l
        by (auto simp: env_ok_def placed_def stays_def)
      then show ?thesis using phone_added [OF ok, of t env w] LaterRuns Cons l by (simp add: t_def)
    qed
  next
    case (TransientForChanged w)
    then show ?thesis using phone_transientForChanged [OF ok ph env] ev by simp
  next
    case (TypeOrMappedChanged w)
    then show ?thesis using phone_recompute [OF ok ph env] ph by (auto simp: windowChanged_def)
  next
    case (WindowSizeChanged w)
    have "stays ops s (updateGrab env w (maybeAnimateOutStartupOverlay ops env w s)) \<and>
      synced ops (updateGrab env w (maybeAnimateOutStartupOverlay ops env w s))"
      using phone_drawing [of ops] sy stays_trans by blast
    then show ?thesis using WindowSizeChanged stays' by simp
  next
    case (Unmanaged w)
    have "alone_but ops {w} {w} s" using ph alone_but_mono unfolding phone_def by blast
    then show ?thesis using phone_forget [of ops w s] ph Unmanaged by (simp add: phone_def)
  next
    case (StartupTimeout ws)
    then show ?thesis using phone_timeout [OF ok ph, of "s\<lparr>tk_startup := tk_startup s - {ws}\<rparr>" ws env] ph by (simp add: reserved_def)
  next
    case (StartupSequences)
    have "distinct (map snd (enumerate 0 (tk_workspaces s)))" using synced_distinct [OF ok sy] by (simp only: map_snd_enumerate)
    moreover have "snd ` set (enumerate 0 (tk_workspaces s)) \<subseteq> set (tk_workspaces s)" by (metis map_snd_enumerate set_map subset_refl)
    ultimately show ?thesis using phone_startupSequences [OF ok ph] StartupSequences ph by (simp add: startupSequenceChanged_def)
  next
    case ModeChanged
    then show ?thesis using phone_redoLayout [OF ok ph env] ev by simp
  next
    case UnblockUpdates
    then show ?thesis using phone_redoLayout [OF ok ph env] ev by (simp add: unblockUpdates_def)
  next
    case LaunchApp
    then show ?thesis using phone_launch [OF ok ph] ev by simp
  next
    case (SwitchWorkspace ws)
    then show ?thesis using ph single by (simp add: workspaceSwitched_def)
  next
    case (AboveChanged w)
    then show ?thesis using phone_drawing [of ops s] sy stays' by simp
  next
    case (MaximizedChanged w)
    then show ?thesis using phone_drawing [of ops s] sy stays' by simp
  next
    case (WindowShown w)
    then show ?thesis using phone_drawing [of ops s] sy stays' by simp
  next
    case (CanMaximizeChanged w)
    then show ?thesis using wm_maximize_stays [of ops s env w] sy stays' by simp
  next
    case (AnimateOutTimeout ws)
    define t where "t = s\<lparr>tk_waitMaximize := tk_waitMaximize s - {ws}, tk_animateOut := tk_animateOut s - {ws}\<rparr>"
    have "stays ops s t \<and> synced ops t" using sy by (auto simp: t_def stays_def synced_def)
    then have "phone ops (animateOutStartupOverlay ws t)" using phone_drawing(4) [of ops t ws] stays_trans stays' by blast
    then show ?thesis using AnimateOutTimeout ph by (simp add: t_def)
  next
    case OverlayAnimatedIn
    show ?thesis
    proof (cases "tk_waiters s")
      case (Cons ws rest)
      have "phone ops (s\<lparr>tk_waiters := rest\<rparr>)" "phone ops (wm_emit (OverlayAnimatedOut ws) (s\<lparr>tk_waiters := rest, tk_overlay := tk_overlay s - {ws}\<rparr>))"
        by (rule phone_same [OF ph]; use sy in \<open>auto simp: wm_emit_def synced_def\<close>)+
      then show ?thesis using OverlayAnimatedIn Cons by (simp add: Let_def)
    qed (use OverlayAnimatedIn ph in simp)
  next
    case BlockUpdates
    have "phone ops (blockUpdates s)" by (rule phone_same [OF ph]; use sy in \<open>auto simp: blockUpdates_def synced_def\<close>)
    then show ?thesis using BlockUpdates by simp
  next
    case (SplashTimeout ws)
    then show ?thesis using phone_timeout [OF ok ph, of "s\<lparr>tk_splash := tk_splash s - {ws}\<rparr>" ws env] ph by (simp add: reserved_def)
  next
    case (NewTilingTimeout ws)
    then show ?thesis using phone_timeout [OF ok ph, of "s\<lparr>tk_newTiling := tk_newTiling s - {ws}\<rparr>" ws env] ph by (simp add: reserved_def)
  qed
qed

subsection \<open>Runs\<close>

text \<open>
  What may happen on a phone after the tracker was made: its events, a window that the user moves to another workspace (the windows that follow it are further such steps), a window
  that is closed, and changes of the manager that leave the workspaces and the windows that are recorded where they are, as when windows
  appear, before they are added, or the user changes the active workspace.
\<close>

inductive phone_run :: "'m manager_ops \<Rightarrow> 'm tracker \<Rightarrow> bool" for ops where
  start: "newTracker ops env (Suc n) m = Some s \<Longrightarrow> we_dynamic env \<Longrightarrow> we_phone env \<Longrightarrow> phone_run ops s"
| event: "phone_run ops s \<Longrightarrow> env_ok ops env s \<Longrightarrow> event_ok ops env e s \<Longrightarrow> trackerStep ops env (Suc (Suc n)) e s = Some s' \<Longrightarrow> phone_run ops s'"
| moved: "phone_run ops s \<Longrightarrow> env_ok ops env s \<Longrightarrow> w \<in> own ops (tk_manager s) x \<Longrightarrow> ws \<in> set (tk_workspaces s) \<Longrightarrow>
    changeWorkspaceAlone ops env (windowAddedToWorkspace ops env (Suc (Suc n))) ws w s = Some s' \<Longrightarrow> phone_run ops s'"
| closed: "phone_run ops s \<Longrightarrow> w \<in> own ops (tk_manager s) x \<Longrightarrow> mo_workspaces ops m = mo_workspaces ops (tk_manager s) \<Longrightarrow>
    own ops m = (\<lambda>y. own ops (tk_manager s) y - {w}) \<Longrightarrow> (\<And>v. v \<noteq> w \<Longrightarrow> mo_onAll ops m v = mo_onAll ops (tk_manager s) v) \<Longrightarrow>
    trackerStep ops env n (WindowRemoved x w) (s\<lparr>tk_manager := m\<rparr>) = Some s1 \<Longrightarrow> trackerStep ops env n (Unmanaged w) s1 = Some s' \<Longrightarrow>
    phone_run ops s'"
| outside: "phone_run ops s \<Longrightarrow> mo_workspaces ops m = mo_workspaces ops (tk_manager s) \<Longrightarrow>
    (\<And>v. jm_has (tk_windowData s) v \<Longrightarrow> mo_onAll ops m v = mo_onAll ops (tk_manager s) v \<and> (\<forall>x. v \<in> own ops m x \<longleftrightarrow> v \<in> own ops (tk_manager s) x)) \<Longrightarrow>
    phone_run ops (s\<lparr>tk_manager := m\<rparr>)"

lemma phone_closed:
  assumes ok: "manager_ok ops" and ph: "phone ops s" and w: "w \<in> own ops (tk_manager s) x" and m: "mo_workspaces ops m = mo_workspaces ops (tk_manager s)"
    "own ops m = (\<lambda>y. own ops (tk_manager s) y - {w})" "\<And>v. v \<noteq> w \<Longrightarrow> mo_onAll ops m v = mo_onAll ops (tk_manager s) v"
    and s1: "s1 = windowRemovedFromWorkspace ops env x w (s\<lparr>tk_manager := m\<rparr>)"
  shows "phone ops (s1\<lparr>tk_windowData := jm_del (tk_windowData s1) w\<rparr>)"
proof -
  define t where "t = s\<lparr>tk_manager := m\<rparr>"
  have sy: "synced ops t" using phone_synced [OF ph] m(1) by (auto simp: t_def synced_def)
  have t: "tk_single t" "tk_windowData t = tk_windowData s" "tk_laterDone t = tk_laterDone s" "should t v = should s v" "tk_manager t = m" for v
    using ph by (simp_all add: t_def phone_def should_def)
  have x: "x \<in> set (tk_workspaces t)" using own_place(2) [OF ok w] m(1) sy by (simp add: synced_def t)
  have r: "synced ops s1 \<and> stays ops t s1" unfolding s1 t_def [symmetric] by (rule windowRemoved_spec [OF ok sy t(1) x])
  have own': "v \<in> own ops m y \<longleftrightarrow> v \<in> own ops (tk_manager s) y" if "v \<noteq> w" for v y using that m(2) by simp
  have "alone_but ops {w} {w} t" using ph sy own' by (simp add: alone_but_def phone_def t)
  then have "alone_but ops {w} {w} s1" using r alone_but_stays by blast
  moreover have "v \<in> tk_laterDone s1 \<and> placed ops s1 v" if "v \<noteq> w" "jm_has (tk_windowData s1) v" for v
    using that r ph own' m(3) by (simp add: stays_def placed_def phone_def t)
  ultimately show ?thesis using r t(1) by (intro phone_forget) (simp_all add: stays_def)
qed

lemma phone_run_phone:
  assumes "phone_run ops s" and ok: "manager_ok ops"
  shows "phone ops s"
  using assms(1)
proof induction
  case (start env n m s)
  obtain t where t: "newTracker ops env (Suc n) m = redoLayout ops env (Suc n) t" "synced ops t" "tk_windowData t = []" "should t v = False" for v
    by (simp add: newTracker_def synced_def should_def)
  obtain s' where "redoLayout ops env (Suc n) t = Some s'" "alone ops s'" "tk_single s'" "moves ops {} (t\<lparr>tk_single := True\<rparr>) s'"
    using redoLayout_settles [OF ok start(2,3) t(2), of n] t(3,4) by (auto simp: ready_def followers_def)
  then show ?case using start(1) t(1,3) by (auto simp: phone_def moves_def)
next
  case (event s env e n s')
  then show ?case using phone_step [OF ok event.IH, of env e n] by auto
next
  case (moved s env w x ws n s')
  then show ?case using phone_changeAlone [OF ok moved.IH, of env w x ws n] by auto
next
  case (closed s w x m env n s1 s')
  then show ?case using phone_closed [OF ok closed.IH closed.hyps(2-5) refl, of env] by auto
next
  case (outside s m)
  let ?t = "s\<lparr>tk_manager := m\<rparr>"
  have sy: "synced ops ?t" using phone_synced [OF outside.IH] outside.hyps(2) by (auto simp: synced_def)
  have sh: "should ?t v = should s v" "should s v \<Longrightarrow> jm_has (tk_windowData s) v" for v by (simp_all add: should_def)
  have "alone ops ?t" using outside.IH outside.hyps(3) sy sh unfolding alone_but_def phone_def by simp
  moreover have "placed ops ?t v" if "jm_has (tk_windowData s) v" for v using that outside.IH outside.hyps(3) by (simp add: phone_def placed_def)
  ultimately show ?case using outside.IH by (simp add: phone_def)
qed

text \<open>C38: Windows that should have a workspace of their own are never on the same one, and the tracker knows the workspaces of the manager.
\<close>

theorem windows_stay_apart:
  assumes "phone_run ops s" and "manager_ok ops" and "jm_get (tk_windowData s) v = Some True" and "jm_get (tk_windowData s) w = Some True"
    and "v \<noteq> w"
  shows "mo_workspaceOf ops (tk_manager s) v \<noteq> mo_workspaceOf ops (tk_manager s) w \<and> tk_workspaces s = mo_workspaces ops (tk_manager s)"
proof -
  have "alone ops s" using phone_run_phone [OF assms(1,2)] by (simp add: phone_def)
  moreover from this obtain x y where "v \<in> own ops (tk_manager s) x" "w \<in> own ops (tk_manager s) y"
    using assms(3,4) unfolding alone_but_def should_def by blast
  ultimately show ?thesis
    using assms(3-5) own_place(1) [OF assms(2)] unfolding alone_but_def should_def synced_def by (metis empty_iff)
qed

text \<open>C39: On a phone every event is handled in the end, with at most one window that is moved on by the handler of its own arrival, and
  leads to a state of a phone again: as long as no window that is recorded has come to be on all workspaces (then adding a window may go
  on for ever, see below), recorded windows have actors, a dialog's parent is on a workspace of its own and no dialog itself where
  windows follow, and no window that should be alone is a dialog when the layout is done again (\<open>env_ok\<close>, \<open>event_ok\<close>, \<open>phone_run\<close>).
\<close>

theorem phone_events_handled:
  assumes "phone_run ops s" and "manager_ok ops" and "env_ok ops env s" and "event_ok ops env e s"
  shows "\<exists>s'. trackerStep ops env (Suc (Suc n)) e s = Some s' \<and> phone_run ops s'"
  using phone_step [OF assms(2) phone_run_phone [OF assms(1,2)] assms(3,4)] phone_run.event [OF assms(1,3,4)] by blast

text \<open>C40: Changing into the mode of a phone ends, separates the windows that should be alone, whatever workspaces they shared, and leaves only
  workspaces that are used or waited for, or the only one: when updates are not blocked, the tracker's list is that of the manager (which
  docking can break, see the example of a lost workspace), and the windows that are recorded as to be alone have actors, are no dialogs and
  are on a workspace and not on all of them.
\<close>

theorem single_window_mode_separates:
  assumes "manager_ok ops" and "we_dynamic env" and "we_phone env" and "\<not> tk_blocked s" and "synced ops s" and "distinct (jm_keys (tk_windowData s))"
    and "\<And>v. jm_get (tk_windowData s) v = Some True \<Longrightarrow>
      we_hasActor env v \<and> v \<in> tk_laterDone s \<and> we_transientFor env v = None \<and> (\<exists>x. v \<in> own ops (tk_manager s) x)"
    and "\<And>v. jm_has (tk_windowData s) v \<Longrightarrow> follow_ok ops env s v"
  shows "\<exists>s'. redoLayout ops env (Suc n) s = Some s' \<and>
    (\<forall>v w. v \<noteq> w \<longrightarrow> jm_get (tk_windowData s') v = Some True \<longrightarrow> jm_get (tk_windowData s') w = Some True \<longrightarrow>
      mo_workspaceOf ops (tk_manager s') v \<noteq> mo_workspaceOf ops (tk_manager s') w) \<and>
    (\<forall>ws\<in>set (mo_workspaces ops (tk_manager s')).
      workspaceHasOwnWindows ops ws s' \<or> reserved ws s' \<or> mo_workspaces ops (tk_manager s') = [ws])"
proof -
  have "ready env UNIV s" using assms(7) by (simp add: ready_def should_def)
  moreover have "\<exists>x. v \<in> own ops (tk_manager s) x" if "should s v" for v using that assms(7) by (simp add: should_def)
  ultimately obtain s' where s': "redoLayout ops env (Suc n) s = Some s'" "alone ops s'" "\<forall>ws\<in>set (tk_workspaces s'). in_use ops s' ws"
    using redoLayout_settles [OF assms(1-3,5,6) _ _ assms(8)] assms(4) by blast
  have wsp: "tk_workspaces s' = mo_workspaces ops (tk_manager s')" using s'(2) by (simp add: alone_but_def synced_def)
  have "mo_workspaceOf ops (tk_manager s') v \<noteq> mo_workspaceOf ops (tk_manager s') w" if vw: "v \<noteq> w" "should s' v" "should s' w" for v w
  proof -
    have "(\<exists>x. v \<in> own ops (tk_manager s') x) \<and> (\<exists>y. w \<in> own ops (tk_manager s') y)" using vw s'(2) unfolding alone_but_def by blast
    then obtain x y where "v \<in> own ops (tk_manager s') x" "w \<in> own ops (tk_manager s') y" by blast
    then show ?thesis using vw s'(2) own_place(1) [OF assms(1)] unfolding alone_but_def by (metis empty_iff)
  qed
  then show ?thesis using s'(1,3) wsp by (auto simp: in_use_def hasOwnWindows_own should_def)
qed

subsection \<open>Moving for ever\<close>

text \<open>
  What is recorded of a window is not looked at again when the window comes to be on all workspaces (the user makes it stay on top of all, or it
  moves to another monitor). Then it is company on every workspace, and a window that is added and should be alone is moved to a new
  workspace again and again: no fuel is enough.
\<close>

theorem sticky_window_diverges:
  assumes ok: "manager_ok ops" and env: "we_dynamic env" "we_hasActor env w" and vw: "v \<noteq> w"
  shows "synced ops s \<Longrightarrow> tk_single s \<Longrightarrow> windowShouldHaveOwnWorkspace ops env w s \<Longrightarrow> w \<in> own ops (tk_manager s) ws \<Longrightarrow>
    jm_get (tk_windowData s) v = Some True \<Longrightarrow> mo_onAll ops (tk_manager s) v \<Longrightarrow> windowAddedToWorkspace ops env n ws w s = None"
proof (induction n arbitrary: ws s)
  case (Suc n)
  define s3 where "s3 = noted ops env ws w s"
  have sy3: "synced ops s3" by (rule synced_less [of ops s]) (use Suc.prems(1) in \<open>auto simp: s3_def noted_def Let_def\<close>)
  have tr: "we_transientFor env w = None" and na: "\<not> mo_onAll ops (tk_manager s) w"
    using Suc.prems(3) by (simp_all add: windowShouldHaveOwnWorkspace_def split: if_splits)
  have f3: "tk_manager s3 = tk_manager s" "tk_single s3" "jm_get (tk_windowData s3) v = Some True" "jm_get (tk_windowData s3) w = Some True"
    using Suc.prems vw by (simp_all add: s3_def)
  have "workspaceHasOtherWindows ops w s3"
    using map_of_SomeD [OF f3(3)] vw Suc.prems(6) f3(1) unfolding workspaceHasOtherWindows_def by (intro bexI [where x = "(v, True)"]) simp_all
  note other = this
  have wsp: "ws \<in> set (tk_workspaces s3)" using own_place(2) [OF ok Suc.prems(4)] sy3 f3 by (simp add: synced_def)
  let ?i = "nat (workspace_index ops ws s3 + 1)"
  obtain s4 new where a: "appendWorkspace ops s3 = (s4, new)" by fastforce
  note s4 = appendWorkspace_spec [OF ok sy3 a]
  define s5 where "s5 = reorderWorkspace ops new ?i s4"
  have "workspace_index ops ws s3 < int (length (tk_workspaces s3))" using sy3 js_indexOf_bound by (metis synced_def workspace_index_def)
  then have "?i < length (tk_workspaces s4)" using s4 by auto
  then have s5: "synced ops s5 \<and> stays ops s4 s5 \<and> set (tk_workspaces s5) = set (tk_workspaces s4) \<and> mo_workspaces ops (tk_manager s5) ! ?i = new"
    unfolding s5_def using reorderWorkspace_spec [OF ok, of s4 new ?i] s4 by auto
  have st: "stays ops s3 s5" using s4 s5 stays_trans by blast
  have w5: "w \<in> own ops (tk_manager s5) ws" using st f3(1) Suc.prems(4) by (simp add: stays_def)
  have neq: "new \<noteq> ws" using s4 wsp by auto
  define s6 where "s6 = windowRemovedFromWorkspace ops env ws w (s5\<lparr>tk_manager := mo_move ops w new (tk_manager s5)\<rparr>)"
  have new5: "new \<in> set (mo_workspaces ops (tk_manager s5))"
  proof -
    have "new \<in> set (tk_workspaces s5)" using s4 s5 by simp
    then show ?thesis using s5 unfolding synced_def by metis
  qed
  note law = move_law [OF ok w5 new5]
  have "synced ops s5" using s5 by blast
  then have "synced ops (s5\<lparr>tk_manager := mo_move ops w new (tk_manager s5)\<rparr>)" using law by (auto simp: synced_def)
  moreover have "ws \<in> set (tk_workspaces s5)" using s4 s5 wsp by auto
  ultimately have s6: "synced ops s6 \<and> stays ops (s5\<lparr>tk_manager := mo_move ops w new (tk_manager s5)\<rparr>) s6"
    unfolding s6_def using windowRemoved_spec [OF ok] st f3(2) by (simp add: stays_def)
  have n6: "mo_onAll ops (tk_manager s6) = mo_onAll ops (tk_manager s)" "tk_windowData s6 = tk_windowData s3" "tk_single s6" "w \<in> own ops (tk_manager s6) new"
    using s6 law st f3(1,2) by (simp_all add: stays_def)
  have "windowShouldHaveOwnWorkspace ops env w s6 = windowShouldHaveOwnWorkspace ops env w s" by (simp add: windowShouldHaveOwnWorkspace_def n6(1))
  then have none: "windowAddedToWorkspace ops env n new w s6 = None" using Suc.IH [of s6 new] s6 n6 f3(3) Suc.prems(3,6) by simp
  have "changeWorkspace ops env (windowAddedToWorkspace ops env n) w new s5 = None"
    using own_place(1) [OF ok w5] neq none by (simp add: changeWorkspace_def changeWorkspaceAlone_def Let_def s6_def)
  then have "maybeMoveToOwnWorkspace ops env (windowAddedToWorkspace ops env n) w s3 = None"
    using f3 other a s5 own_place(1) [OF ok Suc.prems(4)] unfolding maybeMoveToOwnWorkspace_def moveWindowToNewWorkspace_def
    by (simp add: Let_def s5_def [symmetric])
  then show ?case using windowAdded_single [OF Suc.prems(2) env, of ops n ws] na tr by (simp add: s3_def [symmetric])
qed simp

end
