(* ===== verification/TrackerExample.thy ===== *)
theory TrackerExample
  imports TrackerRun
begin

section \<open>A workspace manager and what the tracker does with it\<close>

text \<open>
  A manager that does what is relied on: a list of workspaces, the workspace of each window, and the windows that are on all of them.
  The properties of the tracker are applied to it, and it shows how a workspace is lost.
\<close>

record example_manager =
  em_workspaces :: "nat list"
  em_windows :: "(nat \<times> nat) list"      \<comment> \<open>window, workspace\<close>
  em_sticky :: "nat list"
  em_active :: nat

definition freshWorkspace :: "example_manager \<Rightarrow> nat" where
  "freshWorkspace m = Suc (foldr max (em_workspaces m @ map snd (em_windows m)) 0)"

definition exampleOps :: "example_manager manager_ops" where
  "exampleOps = \<lparr>mo_workspaces = (\<lambda>m. remdups (em_workspaces m)),
    mo_windows = (\<lambda>m ws. if ws \<in> set (em_workspaces m)
      then filter (\<lambda>w. jm_get (em_windows m) w = Some ws \<or> w \<in> set (em_sticky m)) (map fst (em_windows m)) else []),
    mo_workspaceOf = (\<lambda>m w. case jm_get (em_windows m) w of Some ws \<Rightarrow> ws | None \<Rightarrow> em_active m),
    mo_onAll = (\<lambda>m w. w \<in> set (em_sticky m)),
    mo_active = em_active,
    mo_append = (\<lambda>m. let ws = freshWorkspace m in (m\<lparr>em_workspaces := em_workspaces m @ [ws]\<rparr>, ws)),
    mo_reorder = (\<lambda>ws i m. m\<lparr>em_workspaces := take i (remove1 ws (remdups (em_workspaces m))) @ ws # drop i (remove1 ws (remdups (em_workspaces m)))\<rparr>),
    mo_remove = (\<lambda>ws m. m\<lparr>em_workspaces := remove1 ws (remdups (em_workspaces m))\<rparr>),
    mo_move = (\<lambda>w ws m. m\<lparr>em_windows := jm_set (em_windows m) w ws\<rparr>),
    mo_activate = (\<lambda>ws m. m\<lparr>em_active := ws\<rparr>)\<rparr>"

lemma exampleOps_simps [simp]:
  "mo_workspaces exampleOps m = remdups (em_workspaces m)"
  "mo_onAll exampleOps m w = (w \<in> set (em_sticky m))"
  "mo_active exampleOps m = em_active m"
  "mo_workspaceOf exampleOps m w = (case jm_get (em_windows m) w of Some ws \<Rightarrow> ws | None \<Rightarrow> em_active m)"
  "mo_append exampleOps m = (m\<lparr>em_workspaces := em_workspaces m @ [freshWorkspace m]\<rparr>, freshWorkspace m)"
  "mo_reorder exampleOps ws i m =
    m\<lparr>em_workspaces := take i (remove1 ws (remdups (em_workspaces m))) @ ws # drop i (remove1 ws (remdups (em_workspaces m)))\<rparr>"
  "mo_remove exampleOps ws m = m\<lparr>em_workspaces := remove1 ws (remdups (em_workspaces m))\<rparr>"
  "mo_move exampleOps w ws m = m\<lparr>em_windows := jm_set (em_windows m) w ws\<rparr>"
  "mo_activate exampleOps ws m = m\<lparr>em_active := ws\<rparr>"
  by (simp_all add: exampleOps_def Let_def)

lemma exampleOps_own: "w \<in> own exampleOps m ws \<longleftrightarrow> ws \<in> set (em_workspaces m) \<and> jm_get (em_windows m) w = Some ws \<and> w \<notin> set (em_sticky m)"
  using jm_get_SomeD [of "em_windows m" w ws] by (auto simp: own_def exampleOps_def)

lemma less_freshWorkspace: "ws \<in> set (em_workspaces m) \<or> jm_get (em_windows m) w = Some ws \<Longrightarrow> ws < freshWorkspace m"
proof -
  assume "ws \<in> set (em_workspaces m) \<or> jm_get (em_windows m) w = Some ws"
  then have "ws \<in> set (em_workspaces m @ map snd (em_windows m))" using map_of_SomeD [of "em_windows m" w ws] by force
  moreover have "x \<in> set xs \<Longrightarrow> x < Suc (foldr max xs (0::nat))" for x xs by (induction xs) auto
  ultimately show ?thesis unfolding freshWorkspace_def by blast
qed

lemma remdups_snoc: "x \<notin> set xs \<Longrightarrow> remdups (xs @ [x]) = remdups xs @ [x]"
  by (induction xs) auto

lemma put_at: "set (take i xs @ x # drop i xs) = insert x (set xs)" "distinct xs \<Longrightarrow> x \<notin> set xs \<Longrightarrow> distinct (take i xs @ x # drop i xs)"
proof -
  show "set (take i xs @ x # drop i xs) = insert x (set xs)" by (metis Un_insert_right append_take_drop_id list.simps(15) set_append)
  show "distinct xs \<Longrightarrow> x \<notin> set xs \<Longrightarrow> distinct (take i xs @ x # drop i xs)"
    by (metis append_take_drop_id distinct.simps(2) distinct_append disjoint_insert(1) list.simps(15) UnCI set_append)
qed

lemma example_append: "freshWorkspace m \<notin> set (remdups (em_workspaces m)) \<and>
  remdups (em_workspaces (m\<lparr>em_workspaces := em_workspaces m @ [freshWorkspace m]\<rparr>)) = remdups (em_workspaces m) @ [freshWorkspace m] \<and>
  own exampleOps (m\<lparr>em_workspaces := em_workspaces m @ [freshWorkspace m]\<rparr>) = own exampleOps m"
proof -
  have "freshWorkspace m \<notin> set (em_workspaces m)" using less_freshWorkspace [of "freshWorkspace m" m] by blast
  moreover have "jm_get (em_windows m) w \<noteq> Some (freshWorkspace m)" for w using less_freshWorkspace [of "freshWorkspace m" m w] by blast
  ultimately show ?thesis by (auto simp: remdups_snoc exampleOps_own fun_eq_iff)
qed

lemma example_reorder:
  assumes "ws \<in> set (em_workspaces m)" and m': "m' = m\<lparr>em_workspaces := take i (remove1 ws (remdups (em_workspaces m))) @ ws # drop i (remove1 ws (remdups (em_workspaces m)))\<rparr>"
  shows "remdups (em_workspaces m') = take i (remove1 ws (remdups (em_workspaces m))) @ ws # drop i (remove1 ws (remdups (em_workspaces m))) \<and>
    own exampleOps m' = own exampleOps m"
proof -
  let ?r = "remove1 ws (remdups (em_workspaces m))"
  have r: "distinct ?r" "ws \<notin> set ?r" "insert ws (set ?r) = set (em_workspaces m)" using assms(1) by (auto simp: distinct_remove1)
  have "set (em_workspaces m') = set (em_workspaces m)" unfolding m' using put_at(1) [of i ?r ws] r(3) by simp
  then have "own exampleOps m' = own exampleOps m" by (auto simp: fun_eq_iff exampleOps_own m')
  then show ?thesis using put_at(2) [OF r(1,2), of i] by (simp add: m' distinct_remdups_id)
qed

lemma example_remove:
  assumes "own exampleOps m ws = {}"
  shows "remdups (remove1 ws (remdups (em_workspaces m))) = remove1 ws (remdups (em_workspaces m)) \<and>
    own exampleOps (m\<lparr>em_workspaces := remove1 ws (remdups (em_workspaces m))\<rparr>) = own exampleOps m"
  using assms by (auto simp: fun_eq_iff exampleOps_own distinct_remdups_id distinct_remove1 set_eq_iff)

lemma exampleOps_ok: "manager_ok exampleOps"
proof -
  have place: "mo_workspaceOf exampleOps m w = ws \<and> ws \<in> set (mo_workspaces exampleOps m)" if "w \<in> own exampleOps m ws" for m w ws
    using that by (simp add: exampleOps_own)
  have move: "own exampleOps (mo_move exampleOps w ws m) = (\<lambda>y. if y = ws then insert w (own exampleOps m y) else own exampleOps m y - {w})"
    if "w \<in> own exampleOps m x" "ws \<in> set (mo_workspaces exampleOps m)" for m w x ws
    using that by (auto simp: fun_eq_iff exampleOps_own split: if_splits)
  have activate: "own exampleOps (mo_activate exampleOps ws m) = own exampleOps m" for m ws by (auto simp: fun_eq_iff exampleOps_own)
  have append: "ws \<notin> set (mo_workspaces exampleOps m) \<and> mo_workspaces exampleOps m' = mo_workspaces exampleOps m @ [ws] \<and>
      own exampleOps m' = own exampleOps m \<and> mo_onAll exampleOps m' = mo_onAll exampleOps m \<and> mo_active exampleOps m' = mo_active exampleOps m"
    if "mo_append exampleOps m = (m', ws)" for m m' ws
    using that example_append [of m] by (auto simp: fun_eq_iff)
  have reorder: "mo_workspaces exampleOps (mo_reorder exampleOps ws i m) =
      take i (remove1 ws (mo_workspaces exampleOps m)) @ ws # drop i (remove1 ws (mo_workspaces exampleOps m)) \<and>
      own exampleOps (mo_reorder exampleOps ws i m) = own exampleOps m \<and> mo_onAll exampleOps (mo_reorder exampleOps ws i m) = mo_onAll exampleOps m"
    if "ws \<in> set (mo_workspaces exampleOps m)" for m ws i
    using that example_reorder [OF _ refl, of ws m i] by (simp add: fun_eq_iff)
  have remove: "mo_workspaces exampleOps (mo_remove exampleOps ws m) = remove1 ws (mo_workspaces exampleOps m) \<and>
      own exampleOps (mo_remove exampleOps ws m) = own exampleOps m \<and> mo_onAll exampleOps (mo_remove exampleOps ws m) = mo_onAll exampleOps m \<and>
      mo_active exampleOps (mo_remove exampleOps ws m) = mo_active exampleOps m"
    if "own exampleOps m ws = {}" for m ws
    using example_remove [OF that] by (simp add: fun_eq_iff)
  have same: "mo_workspaces exampleOps (mo_move exampleOps w ws m) = mo_workspaces exampleOps m"
    "mo_onAll exampleOps (mo_move exampleOps w ws m) = mo_onAll exampleOps m" "mo_workspaces exampleOps (mo_activate exampleOps ws m) = mo_workspaces exampleOps m"
    "mo_onAll exampleOps (mo_activate exampleOps ws m) = mo_onAll exampleOps m" "distinct (mo_workspaces exampleOps m)" for w ws m
    by (simp_all add: fun_eq_iff)
  show ?thesis
    unfolding manager_ok_def
    by (auto dest: place append reorder remove simp: same activate move simp del: exampleOps_simps)
qed

subsection \<open>Two windows on a phone\<close>

text \<open>
  Window 7 appears on the only workspace and is added, and then window 8 on the same workspace; ordinary windows, all of them.
  \<open>exampleTwo\<close> is the state after that.
\<close>

definition exampleWinEnv :: "bool \<Rightarrow> win_env" where
  "exampleWinEnv single = \<lparr>we_hasActor = \<lambda>w. True, we_actorVisible = \<lambda>w. True, we_transientFor = \<lambda>w. None, we_follow = \<lambda>w. [], we_overrideRedirect = \<lambda>w. False,
    we_windowType = \<lambda>w. NormalWindow, we_isMapped = \<lambda>w. True, we_isWayland = \<lambda>w. True, we_maximized = \<lambda>w. True, we_fullscreen = \<lambda>w. False,
    we_above = \<lambda>w. False, we_fillsWorkArea = \<lambda>w. True, we_exceedsWorkArea = \<lambda>w. False, we_canMaximize = \<lambda>w. (True, True),
    we_dynamic = True, we_phone = single, we_startingUp = False, we_keyboardVisible = False, we_sequences = []\<rparr>"

definition appears :: "nat \<Rightarrow> example_manager tracker \<Rightarrow> example_manager tracker" where
  "appears w s = s\<lparr>tk_manager := (tk_manager s)\<lparr>em_windows := em_windows (tk_manager s) @ [(w, em_active (tk_manager s))]\<rparr>\<rparr>"

definition exampleStep :: "tracker_event \<Rightarrow> example_manager tracker \<Rightarrow> example_manager tracker" where
  "exampleStep e s = the (trackerStep exampleOps (exampleWinEnv True) (Suc (Suc 0)) e s)"

definition exampleNew :: "example_manager tracker" where
  "exampleNew = the (newTracker exampleOps (exampleWinEnv True) (Suc 0) \<lparr>em_workspaces = [1], em_windows = [], em_sticky = [], em_active = 1\<rparr>)"

definition exampleOne :: "example_manager tracker" where
  "exampleOne = exampleStep (WindowAdded 1 7) (appears 7 exampleNew)"

definition exampleBoth :: "example_manager tracker" where
  "exampleBoth = appears 8 exampleOne"

definition exampleTwo :: "example_manager tracker" where
  "exampleTwo = exampleStep (WindowAdded 1 8) exampleBoth"

lemma exampleNew_facts: "newTracker exampleOps (exampleWinEnv True) (Suc 0) \<lparr>em_workspaces = [1], em_windows = [], em_sticky = [], em_active = 1\<rparr> = Some exampleNew"
  "tk_manager exampleNew = \<lparr>em_workspaces = [1], em_windows = [], em_sticky = [], em_active = 1\<rparr>" "tk_windowData exampleNew = []"
  by code_simp+

lemma exampleOne_facts: "tk_manager exampleOne = \<lparr>em_workspaces = [1], em_windows = [(7, 1)], em_sticky = [], em_active = 1\<rparr>"
  "tk_windowData exampleOne = [(7, True)]" "tk_workspaces exampleOne = [1]"
  by code_simp+

lemma exampleTwo_facts: "tk_manager exampleTwo = \<lparr>em_workspaces = [1, 2], em_windows = [(7, 1), (8, 2)], em_sticky = [], em_active = 2\<rparr>"
  "tk_windowData exampleTwo = [(7, True), (8, True)]" "tk_workspaces exampleTwo = [1, 2]"
  by code_simp+

lemma example_env_ok: "env_ok exampleOps (exampleWinEnv True) s"
  by (simp add: env_ok_def exampleWinEnv_def follow_ok_def)

lemma appears_run: "phone_run exampleOps s \<Longrightarrow> w \<notin> set (map fst (em_windows (tk_manager s))) \<Longrightarrow> \<not> jm_has (tk_windowData s) w \<Longrightarrow>
  phone_run exampleOps (appears w s)"
  unfolding appears_def by (rule phone_run.outside) (auto simp: exampleOps_own map_add_def split: option.splits)

lemma exampleStep_run: "phone_run exampleOps s \<Longrightarrow> event_ok exampleOps (exampleWinEnv True) e s \<Longrightarrow> phone_run exampleOps (exampleStep e s)"
proof -
  assume s: "phone_run exampleOps s" "event_ok exampleOps (exampleWinEnv True) e s"
  obtain s' where s': "trackerStep exampleOps (exampleWinEnv True) (Suc (Suc 0)) e s = Some s'"
    using phone_step [OF exampleOps_ok phone_run_phone [OF s(1) exampleOps_ok] example_env_ok s(2)] by blast
  then show ?thesis using phone_run.event [OF s(1) example_env_ok s(2) s'] by (simp add: exampleStep_def)
qed

lemma example_runs: "phone_run exampleOps exampleNew" "phone_run exampleOps exampleOne" "phone_run exampleOps exampleBoth" "phone_run exampleOps exampleTwo"
proof -
  show new: "phone_run exampleOps exampleNew"
    using exampleNew_facts(1) by (rule phone_run.start) (simp_all add: exampleWinEnv_def)
  have "phone_run exampleOps (appears 7 exampleNew)" by (rule appears_run [OF new]) (simp_all add: exampleNew_facts)
  then show one: "phone_run exampleOps exampleOne"
    unfolding exampleOne_def by (rule exampleStep_run) (simp add: placed_def exampleOps_own appears_def exampleNew_facts)
  show both: "phone_run exampleOps exampleBoth"
    unfolding exampleBoth_def by (rule appears_run [OF one]) (simp_all add: exampleOne_facts)
  then show "phone_run exampleOps exampleTwo"
    unfolding exampleTwo_def by (rule exampleStep_run) (simp add: placed_def exampleOps_own exampleBoth_def appears_def exampleOne_facts)
qed

theorem windows_stay_apart_witness:
  "mo_workspaceOf exampleOps (tk_manager exampleTwo) 7 \<noteq> mo_workspaceOf exampleOps (tk_manager exampleTwo) 8"
  using windows_stay_apart [OF example_runs(4) exampleOps_ok, of 7 8] by (simp add: exampleTwo_facts)

theorem phone_events_handled_witness:
  "\<exists>s'. trackerStep exampleOps (exampleWinEnv True) (Suc (Suc 0)) (WindowAdded 1 8) exampleBoth = Some s' \<and> phone_run exampleOps s'"
  by (rule phone_events_handled [OF example_runs(3) exampleOps_ok example_env_ok])
    (simp add: placed_def exampleOps_own exampleBoth_def appears_def exampleOne_facts)

text \<open>
  Two windows and a dialog of the second share workspace 1 until the mode changes; workspace 2 is empty. The dialog follows its window,
  and would take it along itself.
\<close>

definition exampleDialogEnv :: win_env where
  "exampleDialogEnv = (exampleWinEnv True)\<lparr>we_transientFor := (\<lambda>w. if w = 9 then Some 8 else None),
    we_follow := (\<lambda>w. if w = 8 then [9] else if w = 9 then [8] else [])\<rparr>"

definition exampleShared :: "example_manager tracker" where
  "exampleShared = exampleTwo\<lparr>tk_manager := (tk_manager exampleTwo)\<lparr>em_windows := [(7, 1), (8, 1), (9, 1)]\<rparr>,
    tk_windowData := [(7, True), (8, True), (9, False)], tk_laterDone := {7, 8, 9}, tk_single := False\<rparr>"

lemma exampleShared_facts: "tk_windowData exampleShared = [(7, True), (8, True), (9, False)]" "tk_laterDone exampleShared = {7, 8, 9}"
  "\<not> tk_blocked exampleShared"
  "tk_manager exampleShared = \<lparr>em_workspaces = [1, 2], em_windows = [(7, 1), (8, 1), (9, 1)], em_sticky = [], em_active = 2\<rparr>"
  "tk_workspaces exampleShared = [1, 2]" "tk_startup exampleShared = {}" "tk_splash exampleShared = {}" "tk_newTiling exampleShared = {}"
  by code_simp+

theorem single_window_mode_separates_witness:
  "\<exists>s'. redoLayout exampleOps exampleDialogEnv (Suc 0) exampleShared = Some s' \<and>
    (\<forall>ws\<in>set (mo_workspaces exampleOps (tk_manager s')).
      workspaceHasOwnWindows exampleOps ws s' \<or> reserved ws s' \<or> mo_workspaces exampleOps (tk_manager s') = [ws])"
proof -
  have "synced exampleOps exampleShared" by (simp add: synced_def exampleShared_facts)
  moreover have "we_hasActor exampleDialogEnv v \<and> v \<in> tk_laterDone exampleShared \<and> we_transientFor exampleDialogEnv v = None \<and>
      (\<exists>x. v \<in> own exampleOps (tk_manager exampleShared) x)" if "jm_get (tk_windowData exampleShared) v = Some True" for v
    using that by (auto simp: exampleShared_facts exampleDialogEnv_def exampleWinEnv_def exampleOps_own split: if_splits)
  moreover have "follow_ok exampleOps exampleDialogEnv exampleShared v" for v
    by (auto simp: follow_ok_def exampleShared_facts exampleDialogEnv_def exampleWinEnv_def exampleOps_own)
  moreover have "we_dynamic exampleDialogEnv" "we_phone exampleDialogEnv" by (simp_all add: exampleDialogEnv_def exampleWinEnv_def)
  ultimately obtain s' where "redoLayout exampleOps exampleDialogEnv (Suc 0) exampleShared = Some s'"
    "\<forall>ws\<in>set (mo_workspaces exampleOps (tk_manager s')).
      workspaceHasOwnWindows exampleOps ws s' \<or> reserved ws s' \<or> mo_workspaces exampleOps (tk_manager s') = [ws]"
    using single_window_mode_separates [OF exampleOps_ok, of exampleDialogEnv exampleShared 0] exampleShared_facts(1,3) by auto
  then show ?thesis by blast
qed

text \<open>The first window is moved away; the dialog stays with the second one, and comes along when that is moved.\<close>

lemma exampleShared_dialog:
  "map_option (\<lambda>s'. em_windows (tk_manager s')) (redoLayout exampleOps exampleDialogEnv (Suc 0) exampleShared) = Some [(7, 3), (8, 1), (9, 1)]"
  "map_option (\<lambda>s'. em_windows (tk_manager s'))
    (changeWorkspace exampleOps exampleDialogEnv (windowAddedToWorkspace exampleOps exampleDialogEnv (Suc (Suc 0))) 8 2
      (exampleShared\<lparr>tk_single := True\<rparr>)) = Some [(7, 1), (8, 2), (9, 2)]"
  by code_simp+

subsection \<open>Two problems\<close>

text \<open>Window 7 comes to be on all workspaces: then adding window 8 goes on for ever.\<close>

theorem sticky_window_diverges_witness:
  "windowAddedToWorkspace exampleOps (exampleWinEnv True) n 1 8
    (exampleBoth\<lparr>tk_manager := (tk_manager exampleBoth)\<lparr>em_sticky := [7]\<rparr>\<rparr>) = None"
proof -
  have b: "tk_manager exampleBoth = \<lparr>em_workspaces = [1], em_windows = [(7, 1), (8, 1)], em_sticky = [], em_active = 1\<rparr>"
    "tk_windowData exampleBoth = [(7, True)]" "tk_workspaces exampleBoth = [1]" "tk_single exampleBoth"
    "tk_startup exampleBoth = {}" "tk_splash exampleBoth = {}" "tk_newTiling exampleBoth = {}"
    by code_simp+
  let ?s = "exampleBoth\<lparr>tk_manager := (tk_manager exampleBoth)\<lparr>em_sticky := [7]\<rparr>\<rparr>"
  have "synced exampleOps ?s" by (simp add: synced_def b)
  moreover have "windowShouldHaveOwnWorkspace exampleOps (exampleWinEnv True) 8 ?s"
    by (simp add: windowShouldHaveOwnWorkspace_def exampleWinEnv_def b)
  moreover have "8 \<in> own exampleOps (tk_manager ?s) 1" by (simp add: exampleOps_own b)
  ultimately show ?thesis
    using sticky_window_diverges [OF exampleOps_ok, of "exampleWinEnv True" 8 7 ?s 1 n] by (simp add: b) (simp add: exampleWinEnv_def)
qed

text \<open>
  Two apps are launched, each with a workspace and an overlay, and the user goes back to the first workspace. When the phone is
  docked, the second workspace is removed by the manager, but the handler throws because of the overlay, and the tracker keeps it.
\<close>

theorem docking_loses_overlay_workspace:
  "\<exists>s s'. phone_run exampleOps s \<and> trackerStep exampleOps (exampleWinEnv False) (Suc (Suc 0)) ModeChanged s = Some s' \<and>
    mo_workspaces exampleOps (tk_manager s') = [1, 3] \<and> tk_workspaces s' = [1, 2, 3]"
proof -
  let ?a = "exampleStep LaunchApp exampleOne"
  let ?b = "exampleStep LaunchApp ?a"
  let ?s = "?b\<lparr>tk_manager := (tk_manager ?b)\<lparr>em_active := 1\<rparr>\<rparr>"
  have a: "tk_manager ?a = \<lparr>em_workspaces = [1, 2], em_windows = [(7, 1)], em_sticky = [], em_active = 2\<rparr>" "tk_workspaces ?a = [1, 2]" by code_simp+
  have ra: "phone_run exampleOps ?a" by (rule exampleStep_run [OF example_runs(2)]) (simp add: exampleOne_facts)
  have "phone_run exampleOps ?b" by (rule exampleStep_run [OF ra]) (simp add: a)
  then have "phone_run exampleOps ?s" by (rule phone_run.outside) (auto simp: exampleOps_own)
  moreover have "map_option (\<lambda>s'. (mo_workspaces exampleOps (tk_manager s'), tk_workspaces s'))
    (trackerStep exampleOps (exampleWinEnv False) (Suc (Suc 0)) ModeChanged ?s) = Some ([1, 3], [1, 2, 3])"
    by code_simp
  ultimately show ?thesis by (auto simp: map_option_case split: option.splits)
qed

end
