(* ===== verification/Spec2Isabelle.thy ===== *)
theory Spec2Isabelle
  imports BreakNotifyProps TimeLimitsNotify JsParseProps ExtensionProps SessionMode PowerLock ShieldProps SwipeProps BrightnessProps History TrayQueue AutoBacklightCases PressureBarrier GrabProps SignalProps IconGridWf InputSourcesProps WorkspaceLayoutProps DashProps AreaSelectorProps JsUtil TrackerExample
begin

text \<open>
  A model of the decision logic of the GNOME mobile shell, in the parts under \<open>src/js/\<close> that
  are state machines or algorithms of their own, and the theorems that they work.

  \<^bold>\<open>Parts.\<close> The shell is one process that runs JavaScript on GLib's main loop. Everything is entered
  by a callback: a timer, a signal of a setting or a D-Bus object, a gesture, a key. A component keeps its
  state in an object, and the theories keep it in a record of the same fields (prefixed where records
  share a name). A method is a function from the state to the new state, with results and thrown
  errors as values; calls of the platform that are observable (adding and removing sources, emitting
  signals, setting a backlight, grabbing the input) are entries of a trace in the state. The ways the shell
  enters an object are an event datatype and a step function or relation, and invariants hold in every
  state reachable by events in any order. Values that come from outside (the clock, settings,
  D-Bus replies, the stage) are arguments or fields of an environment record; nothing is assumed of
  them but what a theorem states as a hypothesis.

  \<^item> \<open>Prelude\<close>: insertion-ordered maps, \<open>findIndex\<close> and strings of JavaScript, and lemmas on them.
    \<open>MainLoop\<close>: the trace of main-loop calls and the locale \<open>timer_slot\<close>, the contract of an
    object that keeps one timeout: the sources of its trace that are alive are exactly the one it
    remembers. It is interpreted on five objects of the model, one for each that keeps a timer.
  \<^item> \<open>BreakManager\<close>, \<open>BreakInvariant\<close>, \<open>BreakProps\<close> (\<open>js/misc/breakManager.js\<close>): the break reminder's state
    machine. Timers, idle watches and settings are exactly accounted for; \<open>getNextBreakDue\<close> against its
    specification; breaks become due, finish, are delayed and skipped.
    \<open>BreakNotify\<close>, \<open>BreakNotifyProps\<close>: its notifications, countdown and effects on the screen.
  \<^item> \<open>TimeLimits\<close>, \<open>TimeLimitsHistory\<close>, \<open>TimeLimitsProps\<close>, \<open>TimeLimitsStorage\<close>, \<open>TimeLimitsRun\<close>
    (\<open>js/misc/timeLimitsManager.js\<close>): the daily limit. The calculations are compared with an
    abstract reading of the history as a function of time; the history file is read back as it was
    written; \<open>TimeLimitsRun\<close> interleaves the asynchronous start and stop with the signals.
    \<open>TimeLimitsNotify\<close>: its notification source and the desaturation of the screen.
  \<^item> \<open>PowerManager\<close>, \<open>PowerProps\<close>, \<open>PowerLock\<close> (\<open>js/misc/powerManager.js\<close>): dimming, blanking, suspending and
    waking. The calls are asynchronous functions that await the lock screen, logind and one
    another, so a run is a sequence of events and microtasks; the invariant ties \<open>_cancelLock\<close> to the call that
    holds it, and no call waits for itself.
  \<^item> \<open>ModalStack\<close> (\<open>pushModal\<close>, \<open>popModal\<close> of \<open>js/ui/main.js\<close>), \<open>SessionMode\<close> (\<open>js/ui/sessionMode.js\<close>),
    \<open>ScreenShield\<close>, \<open>ShieldProps\<close> (\<open>js/ui/screenShield.js\<close>): the lock screen with the stack of grabs and
    the stack of session modes it works on, embedded in its state.
  \<^item> \<open>SwipeTracker\<close>, \<open>SwipeProps\<close> (\<open>js/ui/swipeTracker.js\<close>); \<open>Brightness\<close>, \<open>BrightnessProps\<close>
    (\<open>js/misc/brightnessManager.js\<close>); \<open>History\<close> (\<open>js/misc/history.js\<close>).
  \<^item> \<open>JsParse\<close>, \<open>JsParseProps\<close> (\<open>js/misc/jsParse.js\<close>): the completion of the Looking Glass, against a grammar
    of tokens. \<open>ExtensionUtils\<close> (\<open>js/misc/extensionUtils.js\<close>), \<open>ExtensionSystem\<close>,
    \<open>ExtensionAsync\<close>, \<open>ExtensionProps\<close> (\<open>js/ui/extensionSystem.js\<close>): which extensions run, and in which order they are enabled and
    disabled. \<open>ExtensionAsync\<close> has the operations as the code has them: each is cut at its \<open>await\<close>s, what is left of it is a
    value, and a pool of such operations can be interleaved; \<open>ExtensionSystem\<close> has what each does when nothing runs in between, and the
    two are proved equal then. The stack of running extensions is an invariant of operations performed one after the other;
    two overlapping ones break it, as an example shows.
  \<^item> \<open>MessageTray\<close>, \<open>TrayProps\<close>, \<open>TrayQueue\<close> (\<open>js/ui/messageTray.js\<close>): the banners of notifications. The tray is a
    state machine whose single function \<open>_updateState\<close> is called from every event and from the ends of animations; the
    locale \<open>update_state\<close> says that an update keeps the invariant and returns, the handlers are proved correct for every
    such update, and the code's update is one. The
    banners come in the order of urgency and arrival, and the queue goes on when one is hidden.
  \<^item> \<open>Akima\<close>, \<open>AutoBacklight\<close>, \<open>AutoBacklightProps\<close>, \<open>AutoBacklightFades\<close>, \<open>AutoBacklightCases\<close>
    (\<open>js/dbusServices/sensorDaemon/\<close>): the spline of the brightness curve and the automatic backlight. A number
    that may be \<open>undefined\<close> or NaN is an option, calls over D-Bus are queues that an event answers later,
    and the fade's fields are options because the code deletes them.
  \<^item> \<open>PressureBarrier\<close> (\<open>js/ui/layout.js\<close>): pushing against an edge, against a specification that remembers all hits.
    \<open>GrabHelper\<close>, \<open>GrabProps\<close> (\<open>js/ui/grabHelper.js\<close>): stacks of grabbed actors over the modal grabs, with callbacks that
    may grab again; the locale \<open>modal_grabs\<close> is what they need of \<open>ModalStack\<close>.
    \<open>SignalTracker\<close>, \<open>SignalProps\<close> (\<open>js/misc/signalTracker.js\<close>): which handlers are connected and who disconnects them,
    for calls whose flags are valid; a call that throws for its flags leaves handlers that nobody has on record.
  \<^item> \<open>IconGrid\<close>, \<open>IconGridProps\<close>, \<open>IconGridPages\<close>, \<open>IconGridRefine\<close>, \<open>IconGridWf\<close> (\<open>js/ui/iconGrid.js\<close>): the pages of the
    app grid. Its methods call each other without an obvious end; they take fuel here, and rules on \<open>ends\<close> (some fuel is
    enough) carry the proofs that they end, keep the order of the items and, without incomplete pages, make the grid a
    list cut into pages.
  \<^item> \<open>KeyboardManager\<close> (\<open>js/misc/keyboardManager.js\<close>), \<open>InputSources\<close>, \<open>InputSourcesProps\<close> (the input source manager of
    \<open>js/ui/status/keyboard.js\<close>): keyboard layouts in groups, where the keymaps asked of the backend are a queue that it
    answers later, and nothing can be applied before options were set, and the sources above them. A source is an object known by the generation that made it and its index,
    the settings are part of the state, and the switcher shares the array of the recently used sources with the manager.

  \<^item> \<open>WindowLayout\<close>, \<open>WindowLayoutProps\<close> (the layout strategy of \<open>js/ui/workspace.js\<close>): windows in rows, the scale that fits them into
    an area, and the search for the number of rows. Quotients are numbers with infinities and NaN, since windows may be empty.
    The slots are shown to lie in the area without overlaps, and the search to end.
    \<open>WorkspaceLayout\<close>, \<open>WorkspaceLayoutProps\<close> (\<open>WorkspaceLayout\<close> there): the layout manager over it, which adds and removes previews,
    renews layout and slots when it may, and allocates. An allocation that throws is \<open>None\<close>.
  \<^item> \<open>AppFavorites\<close> (\<open>js/ui/appFavorites.js\<close>), \<open>Dash\<close>, \<open>DashProps\<close> (\<open>js/ui/dash.js\<close>): the pinned apps, and the dash that shows them with the
    running ones. The difference between the icons and the apps is the loop of \<open>_redisplay\<close>; the rule \<open>dashDiff_rule\<close> carries
    invariants through it. Dragging over the dash and dropping there is composed with the operations on the favorites.
  \<^item> \<open>AreaSelector\<close>, \<open>AreaSelectorProps\<close> (\<open>UIAreaSelector\<close> of \<open>js/ui/screenshot.js\<close>): selecting an area by dragging, and that the
    way of the pointer does not matter. \<open>JsUtil\<close> (\<open>js/misc/util.js\<close>): sorted insertion, and the check of who may call a method on the bus.

  \<^item> \<open>WorkspaceTracker\<close>, \<open>TrackerProps\<close>, \<open>TrackerRun\<close>, \<open>TrackerExample\<close> (\<open>WorkspaceTracker\<close> of \<open>js/ui/windowManager.js\<close>): workspaces that come and
    go, and on a phone one for each window. The workspace manager is the compositor's, so the definitions take a record of its
    operations, and \<open>manager_ok\<close> says what they are relied on to do; a window that is moved takes its dialogs or its parent along
    (\<open>we_follow\<close>; dialogs of dialogs are not covered by the theorems); \<open>exampleOps\<close> is a manager that does it. Its signals arrive during
    the calls, so adding a window may call itself; \<open>settles\<close> is what each step does to the windows, and runs keep them apart.

  \<^bold>\<open>How they interact.\<close> The notification objects follow the signals of their managers; the screen shield
  pushes and pops modal grabs and session modes; the extension manager follows the session mode; the
  power manager locks through the screen shield, whose \<open>lock()\<close> is taken not to throw there; the dash pins and moves favorites
  and shows them; input sources switch the keyboard layouts.

  \<^bold>\<open>Kinds of theorems.\<close> For each component: an invariant of the reachable states; each operation's
  result on every branch; where the code promises more, a specification that does not mention
  the algorithm (the history as a function of time, the token grammar, the stack of running
  extensions), and that the code meets it. Where the code does not do what it means to, the theorem states
  what it does and \<open>PROJECT.json\<close> lists the finding.

  \<^bold>\<open>Bounds and fuel.\<close> Loops are structural or have a termination proof. The icon grid takes fuel, a nat that
  each call of a method spends one of: a result never depends on it once there is enough (\<open>gridCall_mono\<close>), and the
  theorems say that enough exists for every operation of the grids they speak of. Adding a window to a workspace takes fuel too,
  for the handlers that call each other; two are enough on a phone (\<open>phone_events_handled\<close>). Times
  and positions that the code keeps as doubles are \<open>real\<close> or \<open>int\<close> here, so rounding errors of the doubles
  are outside the model, and \<open>NaN\<close> is an option where the code can meet it (the automatic backlight, the argument of its spline,
  the scale of the window layout); \<open>Math.floor\<close>, \<open>Math.ceil\<close> and divisions are written out.

  \<^bold>\<open>Not modelled.\<close> Widgets, drawing and animation (most of \<open>js/ui/\<close>) are calls into Clutter and St, whose
  behaviour is not in the JavaScript; indicators and services are thin over D-Bus interfaces; the
  C code under \<open>src/\<close> is another language. Theorems say what they leave out of the code's behaviour where a finding shows that
  it would be false: locking while the lock screen slides out, a notification requested again while its banner is hidden, windows that come
  to be on all workspaces, operations on extensions that overlap. \<open>PROJECT.json\<close> lists every part with its reason.
\<close>

end
